(* ===== verification/Prelude.thy ===== *)
theory Prelude
  imports Main "HOL-Library.Multiset" "HOL-Library.Word" "HOL-Library.Signed_Division"
    "HOL-Library.Sublist"
begin

text \<open>
  What the component theories share.  Instants and durations are integers counting nanoseconds
  (\<open>gotime\<close>, \<open>duration\<close>); the zero \<open>time.Time\<close> is 0.  Every call of \<open>time.Now()\<close> in the code is
  an argument of the operation that makes it.  A Go map is a HOL map, and the order in which a
  \<open>range\<close> loop visits it, which Go leaves open, is a list that enumerates its domain.
  The theory also holds the interfaces used by several components: scans for a best element,
  step systems with an invariant, and the loop that drains a queue by repeated pops.
\<close>

type_synonym gotime = int
type_synonym duration = int

named_theorems go_defs \<open>definitions of small accessors that proofs unfold\<close>
named_theorems step_inv \<open>preservation of a component's invariant by one operation\<close>

abbreviation (input) second :: duration where
  "second \<equiv> 1000000000"

abbreviation (input) minute :: duration where
  "minute \<equiv> 60 * second"

abbreviation (input) hour :: duration where
  "hour \<equiv> 60 * minute"

abbreviation (input) time_zero :: gotime where
  "time_zero \<equiv> 0"

section \<open>Maps and their iteration order\<close>

definition enumerates :: "'k list \<Rightarrow> ('k \<rightharpoonup> 'v) \<Rightarrow> bool" where
  "enumerates ks m \<longleftrightarrow> distinct ks \<and> set ks = dom m"

definition values_of :: "'k list \<Rightarrow> ('k \<rightharpoonup> 'v) \<Rightarrow> 'v list" where
  "values_of ks m = List.map_filter m ks"

definition map_filter_vals :: "('v \<Rightarrow> bool) \<Rightarrow> ('k \<rightharpoonup> 'v) \<Rightarrow> ('k \<rightharpoonup> 'v)" where
  "map_filter_vals P m = (\<lambda>k. case m k of None \<Rightarrow> None | Some v \<Rightarrow> if P v then Some v else None)"

lemma values_of_Nil [simp]: "values_of [] m = []"
  by (simp add: values_of_def)

lemma values_of_Cons [simp]:
  "values_of (k # ks) m = (case m k of None \<Rightarrow> values_of ks m | Some v \<Rightarrow> v # values_of ks m)"
  by (simp add: values_of_def split: option.splits)

lemma set_values_of: "set (values_of ks m) = {v. \<exists>k \<in> set ks. m k = Some v}"
  by (induction ks) (auto split: option.splits)

lemma set_values_of_enum: "enumerates ks m \<Longrightarrow> set (values_of ks m) = ran m"
  by (auto simp: set_values_of enumerates_def ran_def)

lemma map_filter_vals_Some [simp]:
  "map_filter_vals P m k = Some v \<longleftrightarrow> m k = Some v \<and> P v"
  by (auto simp: map_filter_vals_def split: option.splits)

lemma map_filter_vals_None:
  "map_filter_vals P m k = None \<longleftrightarrow> (\<forall>v. m k = Some v \<longrightarrow> \<not> P v)"
  by (auto simp: map_filter_vals_def split: option.splits)

section \<open>Lists\<close>

text \<open>The idiom \<open>for i, x := range xs { if P(x) { xs = append(xs[:i], xs[i+1:]...); break } }\<close>.\<close>

fun remove_first :: "('a \<Rightarrow> bool) \<Rightarrow> 'a list \<Rightarrow> 'a list" where
  "remove_first P [] = []"
| "remove_first P (x # xs) = (if P x then xs else x # remove_first P xs)"

lemma remove_first_id: "(\<And>x. x \<in> set xs \<Longrightarrow> \<not> P x) \<Longrightarrow> remove_first P xs = xs"
  by (induction xs) auto

lemma remove_first_subset: "set (remove_first P xs) \<subseteq> set xs"
  by (induction xs) auto

lemma length_remove_first:
  "length (remove_first P xs) = (if \<exists>x \<in> set xs. P x then length xs - 1 else length xs)"
  by (induction xs) (auto simp: neq_Nil_conv dest: length_pos_if_in_set)

lemma mset_remove_first:
  "find P xs = Some x \<Longrightarrow> mset xs = add_mset x (mset (remove_first P xs))"
  by (induction xs) (auto split: if_splits)

text \<open>The idiom \<open>for _, x := range xs { if P(x) { f(x); break } }\<close>: the first match is changed.\<close>

fun update_first :: "('a \<Rightarrow> bool) \<Rightarrow> ('a \<Rightarrow> 'a) \<Rightarrow> 'a list \<Rightarrow> 'a list" where
  "update_first P f [] = []"
| "update_first P f (x # xs) = (if P x then f x # xs else x # update_first P f xs)"

lemma length_update_first [simp]: "length (update_first P f xs) = length xs"
  by (induction xs) auto

lemma map_update_first:
  "(\<And>x. g (f x) = g x) \<Longrightarrow> map g (update_first P f xs) = map g xs"
  by (induction xs) auto

lemma list_all_update_first:
  "list_all Q xs \<Longrightarrow> (\<And>x. Q x \<Longrightarrow> P x \<Longrightarrow> Q (f x)) \<Longrightarrow> list_all Q (update_first P f xs)"
  by (induction xs) auto

section \<open>Go's remainder\<close>

lemma smod_nonneg: "0 \<le> a \<Longrightarrow> 0 < n \<Longrightarrow> a smod n = a mod (n :: int)"
  by (simp add: signed_modulo_int_def sgn_if)

lemma smod_neg: "a < 0 \<Longrightarrow> 0 < n \<Longrightarrow> a smod n = - ((- a) mod (n :: int))"
  by (simp add: signed_modulo_int_def)

lemma smod_neg_iff: "0 < n \<Longrightarrow> a smod n < 0 \<longleftrightarrow> a < 0 \<and> \<not> n dvd (a :: int)"
proof (cases "a < 0")
  case True
  assume n: "0 < n"
  then have "0 \<le> (- a) mod n" by simp
  moreover have "(- a) mod n = 0 \<longleftrightarrow> n dvd a" by (simp add: dvd_eq_mod_eq_0 [symmetric])
  ultimately show ?thesis using True n by (auto simp: smod_neg less_le)
qed (simp add: smod_nonneg not_less)

section \<open>Decimal numerals, as \<open>%d\<close> prints them\<close>

definition digit :: "nat \<Rightarrow> char" where
  "digit n = char_of (48 + n)"

fun dec_of_nat :: "nat \<Rightarrow> string" where
  "dec_of_nat n = (if n < 10 then [digit n] else dec_of_nat (n div 10) @ [digit (n mod 10)])"

declare dec_of_nat.simps [simp del]

definition dec_of_int :: "int \<Rightarrow> string" where
  "dec_of_int i = (if i < 0 then CHR ''-'' # dec_of_nat (nat (- i)) else dec_of_nat (nat i))"

text \<open>A conversion to \<open>int32\<close>.\<close>

definition to_int32 :: "int \<Rightarrow> int" where
  "to_int32 i = sint (word_of_int i :: 32 word)"

section \<open>Scanning a list for the best element\<close>

text \<open>
  Several components keep a current best element and replace it by any later element that
  compares better.  With a transitive and irreflexive comparison the scan ends in an element of
  the list that no other element beats, and the first such element wins ties.
\<close>

definition scan_best :: "('a \<Rightarrow> 'a \<Rightarrow> bool) \<Rightarrow> 'a \<Rightarrow> 'a list \<Rightarrow> 'a" where
  "scan_best better x xs = foldl (\<lambda>b y. if better y b then y else b) x xs"

lemma scan_best_Nil [simp]: "scan_best better x [] = x"
  by (simp add: scan_best_def)

lemma scan_best_Cons [simp]:
  "scan_best better x (y # ys) = scan_best better (if better y x then y else x) ys"
  by (simp add: scan_best_def)

lemma scan_best_mem: "scan_best better x xs \<in> insert x (set xs)"
  by (induction xs arbitrary: x) (auto split: if_splits)

locale strict_order_scan =
  fixes better :: "'a \<Rightarrow> 'a \<Rightarrow> bool"
  assumes better_irrefl: "\<not> better x x"
    and better_trans: "better x y \<Longrightarrow> better y z \<Longrightarrow> better x z"
begin

lemma scan_best_head: "scan_best better x xs = x \<or> better (scan_best better x xs) x"
proof (induction xs arbitrary: x)
  case Nil
  show ?case by simp
next
  case (Cons y ys)
  show ?case using Cons.IH [of "if better y x then y else x"]
    by (auto intro: better_trans split: if_splits)
qed

lemma scan_best_unbeaten:
  "z \<in> insert x (set xs) \<Longrightarrow> \<not> better z (scan_best better x xs)"
proof (induction xs arbitrary: x)
  case Nil
  then show ?case by (simp add: better_irrefl)
next
  case (Cons y ys)
  let ?b = "if better y x then y else x"
  have head: "scan_best better ?b ys = ?b \<or> better (scan_best better ?b ys) ?b"
    by (rule scan_best_head)
  have old: "\<not> better z ?b" if "z = x \<or> z = y"
    using that by (auto simp: better_irrefl dest: better_trans)
  show ?case
  proof (cases "z \<in> insert ?b (set ys)")
    case True
    then show ?thesis using Cons.IH by simp
  next
    case False
    with Cons.prems have "z = x \<or> z = y" by (auto split: if_splits)
    then have nz: "\<not> better z ?b" by (rule old)
    have "\<not> better z (scan_best better ?b ys)"
    proof
      assume zr: "better z (scan_best better ?b ys)"
      from head show False
      proof
        assume "scan_best better ?b ys = ?b"
        with zr nz show False by simp
      next
        assume "better (scan_best better ?b ys) ?b"
        with zr have "better z ?b" by (rule better_trans)
        with nz show False ..
      qed
    qed
    then show ?thesis by simp
  qed
qed

end

section \<open>Step systems\<close>

text \<open>
  A component with a state, a type of events and one transition per event.  An invariant that
  every transition keeps holds after every sequence of events.
\<close>

locale step_system =
  fixes step :: "'e \<Rightarrow> 's \<Rightarrow> 's" and inv :: "'s \<Rightarrow> bool"
  assumes step_keeps: "inv s \<Longrightarrow> inv (step e s)"
begin

lemma run_keeps: "inv s \<Longrightarrow> inv (fold step es s)"
  by (induction es arbitrary: s) (auto intro: step_keeps)

end

section \<open>Draining a queue\<close>

text \<open>
  \<open>PopN\<close> of the queues that have no batch pop: pop up to \<open>n\<close> times, stop at the first error.
\<close>

fun pop_loop :: "('q \<Rightarrow> ('t \<times> 'q) option) \<Rightarrow> nat \<Rightarrow> 'q \<Rightarrow> 't list \<times> 'q" where
  "pop_loop pop 0 q = ([], q)"
| "pop_loop pop (Suc n) q =
     (case pop q of
        None \<Rightarrow> ([], q)
      | Some (t, q') \<Rightarrow> (let (ts, q'') = pop_loop pop n q' in (t # ts, q'')))"

locale poppable =
  fixes pop :: "'q \<Rightarrow> ('t \<times> 'q) option" and contents :: "'q \<Rightarrow> 't multiset"
    and inv :: "'q \<Rightarrow> bool"
  assumes pop_contents:
      "inv q \<Longrightarrow> pop q = Some (t, q') \<Longrightarrow> contents q = add_mset t (contents q')"
    and pop_inv: "inv q \<Longrightarrow> pop q = Some (t, q') \<Longrightarrow> inv q'"
    and pop_empty: "inv q \<Longrightarrow> pop q = None \<Longrightarrow> contents q = {#}"
begin

lemma pop_loop_conserves:
  "inv q \<Longrightarrow> pop_loop pop n q = (ts, q') \<Longrightarrow> contents q = mset ts + contents q' \<and> inv q'"
proof (induction n arbitrary: q ts q')
  case 0
  then show ?case by simp
next
  case (Suc n)
  show ?case
  proof (cases "pop q")
    case None
    with Suc.prems show ?thesis by simp
  next
    case (Some p)
    obtain t q1 where p: "p = (t, q1)" by (cases p)
    obtain us q2 where rest: "pop_loop pop n q1 = (us, q2)" by (cases "pop_loop pop n q1")
    from Suc.prems Some p rest have res: "ts = t # us" "q' = q2" by simp_all
    from Suc.prems(1) Some p have "contents q = add_mset t (contents q1)" "inv q1"
      by (auto intro: pop_contents pop_inv)
    with Suc.IH [of q1 us q2] rest res show ?thesis by simp
  qed
qed

lemma pop_loop_length:
  "inv q \<Longrightarrow> pop_loop pop n q = (ts, q') \<Longrightarrow> length ts = min n (size (contents q))"
proof (induction n arbitrary: q ts q')
  case 0
  then show ?case by simp
next
  case (Suc n)
  show ?case
  proof (cases "pop q")
    case None
    with Suc.prems show ?thesis by (simp add: pop_empty)
  next
    case (Some p)
    obtain t q1 where p: "p = (t, q1)" by (cases p)
    obtain us q2 where rest: "pop_loop pop n q1 = (us, q2)" by (cases "pop_loop pop n q1")
    from Suc.prems Some p rest have res: "ts = t # us" by simp
    from Suc.prems(1) Some p have "contents q = add_mset t (contents q1)" "inv q1"
      by (auto intro: pop_contents pop_inv)
    with Suc.IH [of q1 us q2] rest res show ?thesis by simp
  qed
qed

end

text \<open>A queue whose contents have an order: a pop takes the head of the listing.\<close>

locale ordered_pop =
  fixes pop :: "'q \<Rightarrow> ('t \<times> 'q) option" and listing :: "'q \<Rightarrow> 't list"
  assumes pop_head: "pop q = Some (t, q') \<Longrightarrow> listing q = t # listing q'"
    and pop_none: "pop q = None \<Longrightarrow> listing q = []"
begin

lemma pop_loop_take:
  "pop_loop pop n q = (ts, q') \<Longrightarrow> ts = take n (listing q) \<and> listing q' = drop n (listing q)"
proof (induction n arbitrary: q ts q')
  case 0
  then show ?case by simp
next
  case (Suc n)
  show ?case
  proof (cases "pop q")
    case None
    with Suc.prems show ?thesis by (simp add: pop_none)
  next
    case (Some p)
    obtain t q1 where p: "p = (t, q1)" by (cases p)
    obtain us q2 where rest: "pop_loop pop n q1 = (us, q2)" by (cases "pop_loop pop n q1")
    from Suc.prems Some p rest have "ts = t # us" "q' = q2" by simp_all
    with Suc.IH [OF rest] Some p show ?thesis by (simp add: pop_head)
  qed
qed

end

sublocale ordered_pop \<subseteq> poppable pop "\<lambda>q. mset (listing q)" "\<lambda>q. True"
  by unfold_locales (auto dest: pop_head pop_none)

section \<open>Integers of 64 bits\<close>

text \<open>Where a component computes with \<open>int\<close> and the sum or product may wrap.\<close>

definition wrap64 :: "int \<Rightarrow> int" where
  "wrap64 i = (i + 2 ^ 63) mod 2 ^ 64 - 2 ^ 63"

definition int64 :: "int \<Rightarrow> bool" where
  "int64 i \<longleftrightarrow> - (2 ^ 63) \<le> i \<and> i < 2 ^ 63"

lemma wrap64_id: "int64 i \<Longrightarrow> wrap64 i = i"
  by (simp add: wrap64_def int64_def)

lemma wrap64_in: "int64 (wrap64 i)"
proof -
  have "0 \<le> (i + 2 ^ 63) mod 2 ^ 64" "(i + 2 ^ 63) mod 2 ^ 64 < 2 ^ 64" by simp_all
  then show ?thesis by (simp add: int64_def wrap64_def)
qed

end
