(* ===== verification/TTLStore.thy ===== *)
theory TTLStore
  imports Prelude
begin

text \<open>
  The contract of a store whose entries expire: the fetcher's \<open>MemoryCache\<close> and the crawler's storages
  provide it.  The stores in memory serve an entry up to and including its expiry, Redis and MySQL up to
  but not including it.  The background sweep, which may run at any moment, is not observable.
\<close>

datatype ('k, 'v) store_op =
    Put gotime duration 'k 'v
  | Del 'k
  | Sweep gotime

fun last_write :: "'k \<Rightarrow> ('k, 'v) store_op list \<Rightarrow> (gotime \<times> 'v) option" where
  "last_write k [] = None"
| "last_write k (Put now ttl k' v # ops) =
     (case last_write k ops of
        None \<Rightarrow> if k' = k \<and> Del k \<notin> set ops then Some (now + ttl, v) else None
      | Some r \<Rightarrow> Some r)"
| "last_write k (_ # ops) = last_write k ops"

fun op_ok :: "gotime \<Rightarrow> ('k, 'v) store_op \<Rightarrow> bool" where
  "op_ok T (Put now ttl k v) = (0 < ttl)"
| "op_ok T (Del k) = True"
| "op_ok T (Sweep now) = (now \<le> T)"

definition alive_at :: "gotime \<Rightarrow> (gotime \<times> 'v) option \<Rightarrow> 'v option" where
  "alive_at T r = (case r of None \<Rightarrow> None | Some (expiry, v) \<Rightarrow> if T > expiry then None else Some v)"

fun store_ap :: "(gotime \<Rightarrow> duration \<Rightarrow> 'k \<Rightarrow> 'v \<Rightarrow> 's \<Rightarrow> 's) \<Rightarrow> ('k \<Rightarrow> 's \<Rightarrow> 's) \<Rightarrow>
    (gotime \<Rightarrow> 's \<Rightarrow> 's) \<Rightarrow> ('k, 'v) store_op \<Rightarrow> 's \<Rightarrow> 's" where
  "store_ap put del sweep (Put now ttl k v) s = put now ttl k v s"
| "store_ap put del sweep (Del k) s = del k s"
| "store_ap put del sweep (Sweep now) s = sweep now s"

text \<open>The moment at which an entry is gone is a parameter: \<open>gone T expiry\<close>.\<close>

definition kept_by :: "(gotime \<Rightarrow> gotime \<Rightarrow> bool) \<Rightarrow> gotime \<Rightarrow> (gotime \<times> 'v) option \<Rightarrow> 'v option" where
  "kept_by gone T r = (case r of None \<Rightarrow> None | Some (expiry, v) \<Rightarrow> if gone T expiry then None else Some v)"

locale expiring_store =
  fixes gone :: "gotime \<Rightarrow> gotime \<Rightarrow> bool"
    and get :: "gotime \<Rightarrow> 'k \<Rightarrow> 's \<Rightarrow> 'v option"
    and put :: "gotime \<Rightarrow> duration \<Rightarrow> 'k \<Rightarrow> 'v \<Rightarrow> 's \<Rightarrow> 's"
    and del :: "'k \<Rightarrow> 's \<Rightarrow> 's"
    and sweep :: "gotime \<Rightarrow> 's \<Rightarrow> 's"
  assumes get_put: "0 < ttl \<Longrightarrow> get now' k (put now ttl k v s) =
      (if gone now' (now + ttl) then None else Some v)"
    and get_put_other: "k \<noteq> k' \<Longrightarrow> get now' k (put now ttl k' v s) = get now' k s"
    and get_del: "get now k (del k s) = None"
    and get_del_other: "k \<noteq> k' \<Longrightarrow> get now k (del k' s) = get now k s"
    and get_sweep: "now \<le> now' \<Longrightarrow> get now' k (sweep now s) = get now' k s"
begin

lemma get_run:
  assumes "\<forall>op \<in> set ops. op_ok T op"
  shows "get T k (fold (store_ap put del sweep) ops s) =
    (case last_write k ops of
       None \<Rightarrow> if Del k \<in> set ops then None else get T k s
     | Some r \<Rightarrow> kept_by gone T (Some r))"
  using assms
proof (induction ops arbitrary: s)
  case Nil
  then show ?case by simp
next
  case (Cons op ops)
  then have ok: "op_ok T op" and IH: "\<And>s. get T k (fold (store_ap put del sweep) ops s) =
      (case last_write k ops of
         None \<Rightarrow> if Del k \<in> set ops then None else get T k s
       | Some r \<Rightarrow> kept_by gone T (Some r))"
    by simp_all
  show ?case
  proof (cases op)
    case (Put now ttl k' v)
    with ok show ?thesis
      by (cases "k' = k") (simp_all add: IH get_put get_put_other kept_by_def split: option.splits)
  next
    case (Del k')
    then show ?thesis
      by (cases "k' = k") (simp_all add: IH get_del get_del_other split: option.splits)
  next
    case (Sweep now)
    with ok show ?thesis by (simp add: IH get_sweep split: option.splits)
  qed
qed

end

text \<open>The stores in memory start empty and serve an entry at its very expiry.\<close>

locale ttl_store = expiring_store "\<lambda>T expiry. T > expiry" get put del sweep
  for get :: "gotime \<Rightarrow> 'k \<Rightarrow> 's \<Rightarrow> 'v option"
    and put :: "gotime \<Rightarrow> duration \<Rightarrow> 'k \<Rightarrow> 'v \<Rightarrow> 's \<Rightarrow> 's"
    and del :: "'k \<Rightarrow> 's \<Rightarrow> 's"
    and sweep :: "gotime \<Rightarrow> 's \<Rightarrow> 's" +
  fixes empty :: "'s"
  assumes get_empty: "get now k empty = None"
begin

lemma get_run_empty:
  assumes "\<forall>op \<in> set ops. op_ok T op"
  shows "get T k (fold (store_ap put del sweep) ops empty) = alive_at T (last_write k ops)"
  using get_run [OF assms, of k empty] by (simp add: get_empty alive_at_def kept_by_def split: option.splits)

end

end
