(* ===== verification/CrawlTask.thy ===== *)
theory CrawlTask
  imports Prelude
begin

text \<open>
  The crawler's task (src/crawler/task/task.go): the \<open>Task\<close> struct, its constructors, the status
  changes, retry bookkeeping, tags, headers and validation.  A value of Go's \<open>interface{}\<close> is a
  \<open>goval\<close>; a map that may be nil is a map option.  Methods with a pointer receiver return the
  updated task.  The md5 digest and \<open>uuid.New\<close> are arguments.
\<close>

section \<open>Dynamic values\<close>

text \<open>
  What the program stores in an \<open>interface{}\<close>.  A float64 is its 64-bit pattern.  A map lists its
  entries in the order a \<open>range\<close> loop visits them.
\<close>

datatype goval =
    GNil
  | GBool bool
  | GInt int
  | GFloat "64 word"
  | GStr string
  | GTime gotime
  | GStrs "string list"
  | GList "goval list"
  | GMap "(string \<times> goval) list"

section \<open>The data model\<close>

datatype status =
    StatusPending
  | StatusQueued
  | StatusRunning
  | StatusCompleted
  | StatusFailed
  | StatusRetrying
  | StatusCancelled
  | StatusOther string

definition PriorityLow :: int where "PriorityLow = 0"
definition PriorityNormal :: int where "PriorityNormal = 1"
definition PriorityHigh :: int where "PriorityHigh = 2"
definition PriorityUrgent :: int where "PriorityUrgent = 3"

lemmas priority_defs = PriorityLow_def PriorityNormal_def PriorityHigh_def PriorityUrgent_def

definition TypeSeed :: string where "TypeSeed = ''seed''"
definition TypeDetail :: string where "TypeDetail = ''detail''"

record transform_rule =
  tr_Type :: string
  tr_Params :: "(string \<rightharpoonup> goval) option"

datatype extract_rule = ExtractRule
  (er_Field: string) (er_Selector: string) (er_Type: string) (er_Attribute: string)
  (er_Multiple: bool) (er_Required: bool) (er_Default: goval)
  (er_Transform: "transform_rule list") (er_Children: "extract_rule list")

record storage_conf =
  sc_Type :: string
  sc_Database :: string
  sc_Collection :: string
  sc_Table :: string
  sc_Bucket :: string
  sc_Path :: string
  sc_Format :: string
  sc_Options :: "(string \<rightharpoonup> goval) option"

record task =
  t_ID :: string
  t_ParentID :: string
  t_Name :: string
  t_URL :: string
  t_Hash :: string
  t_Type :: string
  t_Priority :: int
  t_Status :: status
  t_NodeID :: string
  t_RetryCount :: int
  t_MaxRetries :: int
  t_RetryDelay :: duration
  t_LastError :: string
  t_CreatedAt :: gotime
  t_QueuedAt :: "gotime option"
  t_StartedAt :: "gotime option"
  t_CompletedAt :: "gotime option"
  t_ExpiresAt :: "gotime option"
  t_Method :: string
  t_Headers :: "(string \<rightharpoonup> string) option"
  t_Body :: "8 word list"
  t_Cookies :: "(string \<rightharpoonup> string) option"
  t_Proxy :: string
  t_UserAgent :: string
  t_Timeout :: duration
  t_FollowRedirect :: bool
  t_ExtractRules :: "extract_rule list"
  t_Pipeline :: "nat option"
  t_PipelineID :: string
  t_Storage :: "nat option"
  t_StorageConf :: storage_conf
  t_Metadata :: "(string \<rightharpoonup> goval) option"
  t_Tags :: "string list"
  t_Depth :: int
  t_Source :: string
  t_ProjectID :: string
  t_LuaScript :: string
  t_BatchID :: string
  t_BatchSize :: int
  t_BatchIndex :: int
  t_BatchType :: string
  t_OnSuccess :: string
  t_OnFailure :: string
  t_OnComplete :: string

definition zero_storage_conf :: storage_conf where
  "zero_storage_conf = \<lparr>sc_Type = '''', sc_Database = '''', sc_Collection = '''', sc_Table = '''',
     sc_Bucket = '''', sc_Path = '''', sc_Format = '''', sc_Options = None\<rparr>"

definition zero_task :: task where
  "zero_task = \<lparr>t_ID = '''', t_ParentID = '''', t_Name = '''', t_URL = '''', t_Hash = '''',
     t_Type = '''', t_Priority = 0, t_Status = StatusOther '''', t_NodeID = '''',
     t_RetryCount = 0, t_MaxRetries = 0, t_RetryDelay = 0, t_LastError = '''',
     t_CreatedAt = time_zero, t_QueuedAt = None, t_StartedAt = None, t_CompletedAt = None,
     t_ExpiresAt = None, t_Method = '''', t_Headers = None, t_Body = [], t_Cookies = None,
     t_Proxy = '''', t_UserAgent = '''', t_Timeout = 0, t_FollowRedirect = False,
     t_ExtractRules = [], t_Pipeline = None, t_PipelineID = '''', t_Storage = None,
     t_StorageConf = zero_storage_conf, t_Metadata = None, t_Tags = [], t_Depth = 0,
     t_Source = '''', t_ProjectID = '''', t_LuaScript = '''', t_BatchID = '''', t_BatchSize = 0,
     t_BatchIndex = 0, t_BatchType = '''', t_OnSuccess = '''', t_OnFailure = '''',
     t_OnComplete = ''''\<rparr>"

section \<open>Constructors\<close>

text \<open>\<open>hash\<close> is md5 in hexadecimal, \<open>uuid\<close> the fresh identifier.\<close>

definition hashURL :: "(string \<Rightarrow> string) \<Rightarrow> string \<Rightarrow> string" where
  "hashURL hash url = hash url"

definition NewTask ::
    "(string \<Rightarrow> string) \<Rightarrow> string \<Rightarrow> gotime \<Rightarrow> string \<Rightarrow> string \<Rightarrow> int \<Rightarrow> task" where
  "NewTask hash uuid now url taskType priority = zero_task\<lparr>
     t_ID := uuid, t_URL := url, t_Hash := hashURL hash url, t_Type := taskType,
     t_Priority := priority, t_Status := StatusPending, t_CreatedAt := now, t_Method := ''GET'',
     t_MaxRetries := 3, t_RetryDelay := 5 * second, t_Timeout := 30 * second,
     t_FollowRedirect := True, t_Metadata := Some Map.empty, t_Tags := []\<rparr>"

definition NewSeedTask ::
    "(string \<Rightarrow> string) \<Rightarrow> string \<Rightarrow> gotime \<Rightarrow> string \<Rightarrow> extract_rule list \<Rightarrow> task" where
  "NewSeedTask hash uuid now url extractRules =
     (NewTask hash uuid now url TypeSeed PriorityHigh)\<lparr>t_ExtractRules := extractRules\<rparr>"

section \<open>Status changes and retries\<close>

definition IncrementRetry :: "task \<Rightarrow> task" where
  "IncrementRetry t = t\<lparr>t_RetryCount := t_RetryCount t + 1, t_Status := StatusRetrying\<rparr>"

definition IsExpired :: "gotime \<Rightarrow> task \<Rightarrow> bool" where
  "IsExpired now t = (case t_ExpiresAt t of None \<Rightarrow> False | Some e \<Rightarrow> now > e)"

definition CanRetry :: "gotime \<Rightarrow> task \<Rightarrow> bool" where
  "CanRetry now t \<longleftrightarrow> t_RetryCount t < t_MaxRetries t \<and> \<not> IsExpired now t"

definition SetError :: "gotime \<Rightarrow> string \<Rightarrow> task \<Rightarrow> task" where
  "SetError now err t =
     (let t1 = t\<lparr>t_LastError := err\<rparr> in
      if CanRetry now t1 then IncrementRetry t1 else t1\<lparr>t_Status := StatusFailed\<rparr>)"

definition task_Start :: "gotime \<Rightarrow> task \<Rightarrow> task" where
  "task_Start now t = t\<lparr>t_StartedAt := Some now, t_Status := StatusRunning\<rparr>"

definition task_Complete :: "gotime \<Rightarrow> task \<Rightarrow> task" where
  "task_Complete now t = t\<lparr>t_CompletedAt := Some now, t_Status := StatusCompleted\<rparr>"

text \<open>\<open>Fail\<close> reads the clock, then \<open>SetError\<close> reads it again for the expiry test.\<close>

definition task_Fail :: "gotime \<Rightarrow> gotime \<Rightarrow> string \<Rightarrow> task \<Rightarrow> task" where
  "task_Fail now now' err t = SetError now' err (t\<lparr>t_CompletedAt := Some now\<rparr>)"

definition task_Queue :: "gotime \<Rightarrow> task \<Rightarrow> task" where
  "task_Queue now t = t\<lparr>t_QueuedAt := Some now, t_Status := StatusQueued\<rparr>"

definition task_Cancel :: "task \<Rightarrow> task" where
  "task_Cancel t = t\<lparr>t_Status := StatusCancelled\<rparr>"

section \<open>Timing\<close>

definition task_Duration :: "gotime \<Rightarrow> task \<Rightarrow> duration" where
  "task_Duration now t =
     (case t_StartedAt t of
        None \<Rightarrow> 0
      | Some s \<Rightarrow> (case t_CompletedAt t of Some c \<Rightarrow> c - s | None \<Rightarrow> now - s))"

definition task_WaitTime :: "gotime \<Rightarrow> task \<Rightarrow> duration" where
  "task_WaitTime now t =
     (case t_QueuedAt t of
        None \<Rightarrow> 0
      | Some q \<Rightarrow> (case t_StartedAt t of Some s \<Rightarrow> s - q | None \<Rightarrow> now - q))"

section \<open>Tags, metadata, headers, cookies\<close>

definition HasTag :: "string \<Rightarrow> task \<Rightarrow> bool" where
  "HasTag tag t = list_ex (\<lambda>existing. existing = tag) (t_Tags t)"

definition AddTag :: "string \<Rightarrow> task \<Rightarrow> task" where
  "AddTag tag t =
     (if list_ex (\<lambda>existing. existing = tag) (t_Tags t) then t
      else t\<lparr>t_Tags := t_Tags t @ [tag]\<rparr>)"

definition set_in_map :: "'k \<Rightarrow> 'v \<Rightarrow> ('k \<rightharpoonup> 'v) option \<Rightarrow> ('k \<rightharpoonup> 'v) option" where
  "set_in_map k v mo = Some ((case mo of None \<Rightarrow> Map.empty | Some m \<Rightarrow> m)(k \<mapsto> v))"

definition get_in_map :: "'k \<Rightarrow> ('k \<rightharpoonup> 'v) option \<Rightarrow> 'v option" where
  "get_in_map k mo = (case mo of None \<Rightarrow> None | Some m \<Rightarrow> m k)"

definition SetMetadata :: "string \<Rightarrow> goval \<Rightarrow> task \<Rightarrow> task" where
  "SetMetadata key v t = t\<lparr>t_Metadata := set_in_map key v (t_Metadata t)\<rparr>"

definition SetHeaders :: "(string \<rightharpoonup> string) option \<Rightarrow> task \<Rightarrow> task" where
  "SetHeaders headers t = t\<lparr>t_Headers := headers\<rparr>"

definition SetHeader :: "string \<Rightarrow> string \<Rightarrow> task \<Rightarrow> task" where
  "SetHeader key v t = t\<lparr>t_Headers := set_in_map key v (t_Headers t)\<rparr>"

definition SetCookies :: "(string \<rightharpoonup> string) option \<Rightarrow> task \<Rightarrow> task" where
  "SetCookies cookies t = t\<lparr>t_Cookies := cookies\<rparr>"

definition SetCookie :: "string \<Rightarrow> string \<Rightarrow> task \<Rightarrow> task" where
  "SetCookie key v t = t\<lparr>t_Cookies := set_in_map key v (t_Cookies t)\<rparr>"

lemma get_set_in_map [simp]:
  "get_in_map k' (set_in_map k v m) = (if k' = k then Some v else get_in_map k' m)"
  by (simp add: get_in_map_def set_in_map_def split: option.splits)

section \<open>Validation\<close>

datatype task_error =
    URLRequired
  | TypeRequired
  | NegativeMaxRetries
  | NonPositiveTimeout

text \<open>
  \<open>Validate\<close> fills in the default method on its way, also when a later check fails: it returns
  the task beside the error.
\<close>

definition Validate :: "task \<Rightarrow> task \<times> task_error option" where
  "Validate t =
     (if t_URL t = '''' then (t, Some URLRequired)
      else if t_Type t = '''' then (t, Some TypeRequired)
      else
        let t1 = (if t_Method t = '''' then t\<lparr>t_Method := ''GET''\<rparr> else t) in
        if t_MaxRetries t1 < 0 then (t1, Some NegativeMaxRetries)
        else if t_Timeout t1 \<le> 0 then (t1, Some NonPositiveTimeout)
        else (t1, None))"

section \<open>Copying through JSON\<close>

text \<open>
  \<open>Clone\<close> marshals the task and unmarshals it into a zero task.  Fields tagged \<open>json:"-"\<close> are
  lost and an empty map tagged \<open>omitempty\<close> comes back nil.  \<open>recode\<close> is what encoding/json makes
  of one \<open>interface{}\<close> value on the way out and back, \<open>None\<close> where it refuses the value; \<open>keys\<close>
  lists the keys of a map.  A refused value makes \<open>Marshal\<close> fail: the copy stays the zero task.
\<close>

type_synonym recoder = "goval \<Rightarrow> goval option"

definition recode_map :: "recoder \<Rightarrow> ((string \<rightharpoonup> goval) \<Rightarrow> string list) \<Rightarrow>
    (string \<rightharpoonup> goval) option \<Rightarrow> (string \<rightharpoonup> goval) option option" where
  "recode_map recode keys mo =
     (case mo of
        None \<Rightarrow> Some None
      | Some m \<Rightarrow>
          (if keys m = [] then Some None
           else if list_all (\<lambda>k. recode (the (m k)) \<noteq> None) (keys m)
           then Some (Some (\<lambda>k. Option.bind (m k) recode))
           else None))"

definition omit_empty :: "((string \<rightharpoonup> 'v) \<Rightarrow> string list) \<Rightarrow> (string \<rightharpoonup> 'v) option \<Rightarrow>
    (string \<rightharpoonup> 'v) option" where
  "omit_empty keys mo = (case mo of None \<Rightarrow> None | Some m \<Rightarrow> if keys m = [] then None else Some m)"

definition recode_transform :: "recoder \<Rightarrow> ((string \<rightharpoonup> goval) \<Rightarrow> string list) \<Rightarrow>
    transform_rule \<Rightarrow> transform_rule option" where
  "recode_transform recode keys tr =
     map_option (\<lambda>p. tr\<lparr>tr_Params := p\<rparr>) (recode_map recode keys (tr_Params tr))"

fun recode_rule :: "recoder \<Rightarrow> ((string \<rightharpoonup> goval) \<Rightarrow> string list) \<Rightarrow> extract_rule \<Rightarrow>
    extract_rule option" where
  "recode_rule recode keys (ExtractRule f s ty a m r d trs chs) =
     (case (if d = GNil then Some GNil else recode d) of
        None \<Rightarrow> None
      | Some d' \<Rightarrow>
          (case those (map (recode_transform recode keys) trs) of
             None \<Rightarrow> None
           | Some trs' \<Rightarrow>
               (case those (map (recode_rule recode keys) chs) of
                  None \<Rightarrow> None
                | Some chs' \<Rightarrow> Some (ExtractRule f s ty a m r d' trs' chs'))))"

definition json_copy :: "recoder \<Rightarrow> ((string \<rightharpoonup> goval) \<Rightarrow> string list) \<Rightarrow>
    ((string \<rightharpoonup> string) \<Rightarrow> string list) \<Rightarrow> task \<Rightarrow> task option" where
  "json_copy recode keys skeys t =
     (case (recode_map recode keys (t_Metadata t),
            recode_map recode keys (sc_Options (t_StorageConf t)),
            those (map (recode_rule recode keys) (t_ExtractRules t))) of
        (Some md, Some opts, Some rules) \<Rightarrow>
          Some (t\<lparr>t_Metadata := md,
                  t_StorageConf := (t_StorageConf t)\<lparr>sc_Options := opts\<rparr>,
                  t_ExtractRules := rules,
                  t_Headers := omit_empty skeys (t_Headers t),
                  t_Cookies := omit_empty skeys (t_Cookies t),
                  t_Pipeline := None, t_Storage := None\<rparr>)
      | _ \<Rightarrow> None)"

definition task_Clone :: "recoder \<Rightarrow> ((string \<rightharpoonup> goval) \<Rightarrow> string list) \<Rightarrow>
    ((string \<rightharpoonup> string) \<Rightarrow> string list) \<Rightarrow> string \<Rightarrow> task \<Rightarrow> task" where
  "task_Clone recode keys skeys uuid t =
     (case json_copy recode keys skeys t of None \<Rightarrow> zero_task | Some c \<Rightarrow> c)\<lparr>
       t_ID := uuid, t_Status := StatusPending, t_RetryCount := 0, t_NodeID := '''',
       t_QueuedAt := None, t_StartedAt := None, t_CompletedAt := None\<rparr>"

section \<open>Batches\<close>

record batch =
  b_ID :: string
  b_Tasks :: "task list"
  b_CreatedAt :: gotime
  b_Source :: string

definition NewTaskBatch :: "string \<Rightarrow> gotime \<Rightarrow> task list \<Rightarrow> string \<Rightarrow> batch" where
  "NewTaskBatch uuid now ts src = \<lparr>b_ID = uuid, b_Tasks = ts, b_CreatedAt = now, b_Source = src\<rparr>"

definition batch_Size :: "batch \<Rightarrow> int" where
  "batch_Size b = int (length (b_Tasks b))"

definition batch_Filter :: "(task \<Rightarrow> bool) \<Rightarrow> batch \<Rightarrow> task list" where
  "batch_Filter predicate b = filter predicate (b_Tasks b)"

section \<open>Lemmas\<close>

lemma zero_task_retry [simp]: "t_RetryCount zero_task = 0" "t_ExpiresAt zero_task = None"
  by (simp_all add: zero_task_def)

lemma SetError_frame [simp]:
  "t_MaxRetries (SetError now e t) = t_MaxRetries t"
  "t_ExpiresAt (SetError now e t) = t_ExpiresAt t"
  "t_ID (SetError now e t) = t_ID t"
  "t_LastError (SetError now e t) = e"
  by (simp_all add: SetError_def IncrementRetry_def Let_def)

lemma task_Queue_frame [simp]:
  "t_ID (task_Queue now t) = t_ID t"
  "t_Priority (task_Queue now t) = t_Priority t"
  "t_Type (task_Queue now t) = t_Type t"
  "t_URL (task_Queue now t) = t_URL t"
  "t_Status (task_Queue now t) = StatusQueued"
  by (simp_all add: task_Queue_def)

lemma CanRetry_no_expiry:
  "t_ExpiresAt t = None \<Longrightarrow> CanRetry now t \<longleftrightarrow> t_RetryCount t < t_MaxRetries t"
  by (simp add: CanRetry_def IsExpired_def)

lemma CanRetry_LastError [simp]: "CanRetry now (t\<lparr>t_LastError := e\<rparr>) = CanRetry now t"
  by (simp add: CanRetry_def IsExpired_def)

lemma SetError_retry:
  "CanRetry now t \<Longrightarrow> t_RetryCount (SetError now e t) = t_RetryCount t + 1 \<and>
     t_Status (SetError now e t) = StatusRetrying"
  by (simp add: SetError_def IncrementRetry_def)

lemma SetError_exhausted:
  "\<not> CanRetry now t \<Longrightarrow> t_RetryCount (SetError now e t) = t_RetryCount t \<and>
     t_Status (SetError now e t) = StatusFailed"
  by (simp add: SetError_def)

definition retry_bounded :: "task \<Rightarrow> bool" where
  "retry_bounded t \<longleftrightarrow> 0 \<le> t_RetryCount t \<and> t_RetryCount t \<le> max 0 (t_MaxRetries t)"

lemma retry_bounded_ops [step_inv]:
  "retry_bounded t \<Longrightarrow> retry_bounded (SetError now e t)"
  "retry_bounded t \<Longrightarrow> retry_bounded (task_Start now t)"
  "retry_bounded t \<Longrightarrow> retry_bounded (task_Complete now t)"
  "retry_bounded t \<Longrightarrow> retry_bounded (task_Fail now now' e t)"
  "retry_bounded t \<Longrightarrow> retry_bounded (task_Queue now t)"
  "retry_bounded t \<Longrightarrow> retry_bounded (task_Cancel t)"
  by (auto simp: retry_bounded_def SetError_def IncrementRetry_def CanRetry_def Let_def
      task_Start_def task_Complete_def task_Fail_def task_Queue_def task_Cancel_def)

lemma HasTag_iff: "HasTag tag t \<longleftrightarrow> tag \<in> set (t_Tags t)"
  by (auto simp: HasTag_def list_ex_iff)

lemma AddTag_tags: "set (t_Tags (AddTag tag t)) = insert tag (set (t_Tags t))"
  by (auto simp: AddTag_def list_ex_iff)

lemma AddTag_distinct: "distinct (t_Tags t) \<Longrightarrow> distinct (t_Tags (AddTag tag t))"
  by (auto simp: AddTag_def list_ex_iff)

lemma Validate_keeps [simp]:
  "t_Priority (fst (Validate t)) = t_Priority t"
  "t_Type (fst (Validate t)) = t_Type t"
  "t_ID (fst (Validate t)) = t_ID t"
  "t_Metadata (fst (Validate t)) = t_Metadata t"
  "t_Status (fst (Validate t)) = t_Status t"
  by (auto simp: Validate_def Let_def)

section \<open>Properties\<close>

text \<open>
  a task that fails over and over is retried exactly until its retry budget is used up.  For a
  task without an expiry time, after \<open>n > 0\<close> calls of \<open>SetError\<close> the retry count has grown by \<open>n\<close>
  but stops at \<open>MaxRetries\<close>, the status is Retrying as long as the budget covers the failures and
  Failed from then on, and the last error message is the last one reported.
\<close>

theorem SetError_run:
  assumes "t_ExpiresAt t = None" and "t_RetryCount t \<le> t_MaxRetries t" and "fails \<noteq> []"
  shows "t_RetryCount (fold (\<lambda>(now, e). SetError now e) fails t) =
           min (t_RetryCount t + int (length fails)) (t_MaxRetries t) \<and>
         t_Status (fold (\<lambda>(now, e). SetError now e) fails t) =
           (if t_RetryCount t + int (length fails) \<le> t_MaxRetries t
            then StatusRetrying else StatusFailed) \<and>
         t_LastError (fold (\<lambda>(now, e). SetError now e) fails t) = snd (last fails)"
  using assms
proof (induction fails arbitrary: t)
  case Nil
  then show ?case by simp
next
  case (Cons f fs)
  obtain now e where f: "f = (now, e)" by (cases f)
  let ?t = "SetError now e t"
  have bound: "t_RetryCount ?t \<le> t_MaxRetries ?t" "t_ExpiresAt ?t = None"
    using Cons.prems by (auto simp: SetError_def IncrementRetry_def CanRetry_def Let_def)
  have count: "t_RetryCount ?t = min (t_RetryCount t + 1) (t_MaxRetries t)"
    using Cons.prems SetError_retry [of now t e] SetError_exhausted [of now t e]
    by (cases "CanRetry now t") (auto simp: CanRetry_no_expiry)
  have status: "t_Status ?t = (if t_RetryCount t + 1 \<le> t_MaxRetries t
      then StatusRetrying else StatusFailed)"
    using Cons.prems SetError_retry [of now t e] SetError_exhausted [of now t e]
    by (cases "CanRetry now t") (auto simp: CanRetry_no_expiry)
  show ?case
  proof (cases "fs = []")
    case True
    then show ?thesis using f count status by simp
  next
    case False
    then have "0 < int (length fs)" by simp
    with Cons.IH [OF bound(2) bound(1) False] show ?thesis
      using f count False Cons.prems by (auto simp: min_def)
  qed
qed

theorem SetError_run_witness:
  "t_Status (fold (\<lambda>(now, e). SetError now e) [(1, ''a''), (2, ''b''), (3, ''c'')]
     (zero_task\<lparr>t_MaxRetries := 2\<rparr>)) = StatusFailed"
  using SetError_run [of "zero_task\<lparr>t_MaxRetries := 2\<rparr>" "[(1, ''a''), (2, ''b''), (3, ''c'')]"]
  by (simp add: zero_task_def)

text \<open>
  validation accepts exactly the well-formed tasks and changes nothing but an empty method,
  which becomes GET; a validated task validates again unchanged.
\<close>

theorem Validate_correct:
  "(snd (Validate t) = None \<longleftrightarrow>
      t_URL t \<noteq> '''' \<and> t_Type t \<noteq> '''' \<and> 0 \<le> t_MaxRetries t \<and> 0 < t_Timeout t) \<and>
   (t_URL t \<noteq> '''' \<and> t_Type t \<noteq> '''' \<longrightarrow>
      fst (Validate t) = t\<lparr>t_Method := if t_Method t = '''' then ''GET'' else t_Method t\<rparr>) \<and>
   (snd (Validate t) = None \<longrightarrow> Validate (fst (Validate t)) = Validate t)"
  by (auto simp: Validate_def Let_def)

theorem Validate_correct_witness:
  "fst (Validate (zero_task\<lparr>t_URL := ''u'', t_Type := ''api'', t_Timeout := 1\<rparr>)) =
     zero_task\<lparr>t_URL := ''u'', t_Type := ''api'', t_Timeout := 1, t_Method := ''GET''\<rparr> \<and>
   snd (Validate (zero_task\<lparr>t_URL := ''u'', t_Type := ''api'', t_Timeout := 1\<rparr>)) = None"
  using Validate_correct [of "zero_task\<lparr>t_URL := ''u'', t_Type := ''api'', t_Timeout := 1\<rparr>"]
  by (simp add: zero_task_def)

end
