(* ===== verification/TaskQueue.thy ===== *)
theory TaskQueue
  imports CrawlTask
begin

text \<open>
  The in-process task queues (src/crawler/task/queue.go): \<open>MemoryQueue\<close>, a bounded FIFO, and
  \<open>PriorityQueue\<close>, one \<open>MemoryQueue\<close> per priority behind a counter.  The queues hold pointers to
  tasks and \<open>Push\<close> writes through the pointer, so a queue is a list of references and the tasks
  live in a store.  Every operation runs under the queue's mutex and is one step here.
\<close>

type_synonym tref = nat
type_synonym store = "tref \<Rightarrow> task"

datatype queue_error =
    QueueFull
  | NotEnoughCapacity
  | QueueEmpty
  | NoTasksAvailable
  | SliceOutOfRange

section \<open>MemoryQueue\<close>

record mqueue =
  mq_tasks :: "tref list"
  mq_capacity :: int

record queue_stats =
  qs_Total :: int
  qs_ByStatus :: "status \<rightharpoonup> int"
  qs_ByPriority :: "int \<rightharpoonup> int"
  qs_ByType :: "string \<rightharpoonup> int"
  qs_OldestTask :: gotime
  qs_NewestTask :: gotime

definition NewMemoryQueue :: "int \<Rightarrow> mqueue" where
  "NewMemoryQueue capacity = \<lparr>mq_tasks = [], mq_capacity = capacity\<rparr>"

definition mq_Push :: "gotime \<Rightarrow> tref \<Rightarrow> store \<Rightarrow> mqueue \<Rightarrow> store \<times> mqueue \<times> queue_error option" where
  "mq_Push now r h q =
     (if int (length (mq_tasks q)) \<ge> mq_capacity q then (h, q, Some QueueFull)
      else (h(r := task_Queue now (h r)), q\<lparr>mq_tasks := mq_tasks q @ [r]\<rparr>, None))"

text \<open>Each task of a batch comes with the instant at which its \<open>Queue()\<close> reads the clock.\<close>

definition mq_PushBatch :: "(gotime \<times> tref) list \<Rightarrow> store \<Rightarrow> mqueue \<Rightarrow>
    store \<times> mqueue \<times> queue_error option" where
  "mq_PushBatch ts h q =
     (if int (length (mq_tasks q)) + int (length ts) > mq_capacity q
      then (h, q, Some NotEnoughCapacity)
      else let (h', q') = foldl (\<lambda>(h, q) (now, r).
                 (h(r := task_Queue now (h r)), q\<lparr>mq_tasks := mq_tasks q @ [r]\<rparr>)) (h, q) ts
           in (h', q', None))"

definition mq_Pop :: "mqueue \<Rightarrow> queue_error + (tref \<times> mqueue)" where
  "mq_Pop q =
     (case mq_tasks q of
        [] \<Rightarrow> Inl QueueEmpty
      | r # rs \<Rightarrow> Inr (r, q\<lparr>mq_tasks := rs\<rparr>))"

text \<open>A negative \<open>n\<close> makes the slice expression \<open>mq.tasks[:n]\<close> panic.\<close>

definition mq_PopN :: "int \<Rightarrow> mqueue \<Rightarrow> queue_error + (tref list \<times> mqueue)" where
  "mq_PopN n q =
     (if mq_tasks q = [] then Inl QueueEmpty
      else
        let n' = (if n > int (length (mq_tasks q)) then int (length (mq_tasks q)) else n) in
        if n' < 0 then Inl SliceOutOfRange
        else Inr (take (nat n') (mq_tasks q), q\<lparr>mq_tasks := drop (nat n') (mq_tasks q)\<rparr>))"

definition mq_Peek :: "mqueue \<Rightarrow> queue_error + tref" where
  "mq_Peek q = (case mq_tasks q of [] \<Rightarrow> Inl QueueEmpty | r # rs \<Rightarrow> Inr r)"

definition mq_Size :: "mqueue \<Rightarrow> int" where
  "mq_Size q = int (length (mq_tasks q))"

definition mq_Clear :: "mqueue \<Rightarrow> mqueue" where
  "mq_Clear q = q\<lparr>mq_tasks := []\<rparr>"

definition bump :: "'k \<Rightarrow> ('k \<rightharpoonup> int) \<Rightarrow> ('k \<rightharpoonup> int)" where
  "bump k m = m(k \<mapsto> (case m k of None \<Rightarrow> 0 | Some c \<Rightarrow> c) + 1)"

definition stats_add :: "task \<Rightarrow> queue_stats \<Rightarrow> queue_stats" where
  "stats_add t s =
     (let s1 = s\<lparr>qs_ByStatus := bump (t_Status t) (qs_ByStatus s),
                 qs_ByPriority := bump (t_Priority t) (qs_ByPriority s),
                 qs_ByType := bump (t_Type t) (qs_ByType s)\<rparr>;
          s2 = (if qs_OldestTask s1 = time_zero \<or> t_CreatedAt t < qs_OldestTask s1
                then s1\<lparr>qs_OldestTask := t_CreatedAt t\<rparr> else s1)
      in if t_CreatedAt t > qs_NewestTask s2 then s2\<lparr>qs_NewestTask := t_CreatedAt t\<rparr> else s2)"

definition mq_Stats :: "store \<Rightarrow> mqueue \<Rightarrow> queue_stats" where
  "mq_Stats h q = foldl (\<lambda>s r. stats_add (h r) s)
     \<lparr>qs_Total = int (length (mq_tasks q)), qs_ByStatus = Map.empty, qs_ByPriority = Map.empty,
      qs_ByType = Map.empty, qs_OldestTask = time_zero, qs_NewestTask = time_zero\<rparr> (mq_tasks q)"

section \<open>PriorityQueue\<close>

record pqueue =
  pq_queues :: "int \<rightharpoonup> mqueue"
  pq_counter :: int

definition NewPriorityQueue :: pqueue where
  "NewPriorityQueue = \<lparr>pq_queues = [PriorityUrgent \<mapsto> NewMemoryQueue 1000,
     PriorityHigh \<mapsto> NewMemoryQueue 1000, PriorityNormal \<mapsto> NewMemoryQueue 1000,
     PriorityLow \<mapsto> NewMemoryQueue 1000], pq_counter = 0\<rparr>"

text \<open>
  \<open>Push\<close> marks the task queued, counts it, and only then asks the queue of its priority, which
  may refuse.
\<close>

definition pq_Push :: "gotime \<Rightarrow> gotime \<Rightarrow> tref \<Rightarrow> store \<Rightarrow> pqueue \<Rightarrow>
    store \<times> pqueue \<times> queue_error option" where
  "pq_Push now now' r h pq =
     (let p = t_Priority (h r);
          q = (case pq_queues pq p of None \<Rightarrow> NewMemoryQueue 1000 | Some q \<Rightarrow> q);
          h1 = h(r := task_Queue now (h r));
          (h2, q', e) = mq_Push now' r h1 q
      in (h2, pq\<lparr>pq_queues := (pq_queues pq)(p \<mapsto> q'), pq_counter := pq_counter pq + 1\<rparr>, e))"

fun pq_PushBatch :: "(gotime \<times> gotime \<times> tref) list \<Rightarrow> store \<Rightarrow> pqueue \<Rightarrow>
    store \<times> pqueue \<times> queue_error option" where
  "pq_PushBatch [] h pq = (h, pq, None)"
| "pq_PushBatch ((now, now', r) # ts) h pq =
     (case pq_Push now now' r h pq of
        (h', pq', Some e) \<Rightarrow> (h', pq', Some e)
      | (h', pq', None) \<Rightarrow> pq_PushBatch ts h' pq')"

definition pop_order :: "int list" where
  "pop_order = [PriorityUrgent, PriorityHigh, PriorityNormal, PriorityLow]"

fun pq_pop_scan :: "int list \<Rightarrow> pqueue \<Rightarrow> (tref \<times> pqueue) option" where
  "pq_pop_scan [] pq = None"
| "pq_pop_scan (p # ps) pq =
     (case pq_queues pq p of
        None \<Rightarrow> pq_pop_scan ps pq
      | Some q \<Rightarrow>
          (case mq_Pop q of
             Inl e \<Rightarrow> pq_pop_scan ps pq
           | Inr (r, q') \<Rightarrow> Some (r, pq\<lparr>pq_queues := (pq_queues pq)(p \<mapsto> q'),
                                        pq_counter := pq_counter pq - 1\<rparr>)))"

text \<open>\<open>None\<close> is the error "no tasks available", the only one \<open>Pop\<close> returns.\<close>

definition pq_Pop :: "pqueue \<Rightarrow> (tref \<times> pqueue) option" where
  "pq_Pop pq = pq_pop_scan pop_order pq"

definition pq_PopN :: "int \<Rightarrow> pqueue \<Rightarrow> tref list \<times> pqueue" where
  "pq_PopN n pq = pop_loop pq_Pop (nat n) pq"

fun pq_peek_scan :: "int list \<Rightarrow> pqueue \<Rightarrow> tref option" where
  "pq_peek_scan [] pq = None"
| "pq_peek_scan (p # ps) pq =
     (case pq_queues pq p of
        None \<Rightarrow> pq_peek_scan ps pq
      | Some q \<Rightarrow> (case mq_Peek q of Inl e \<Rightarrow> pq_peek_scan ps pq | Inr r \<Rightarrow> Some r))"

definition pq_Peek :: "pqueue \<Rightarrow> tref option" where
  "pq_Peek pq = pq_peek_scan pop_order pq"

definition pq_Size :: "pqueue \<Rightarrow> int" where
  "pq_Size pq = pq_counter pq"

definition pq_Clear :: "pqueue \<Rightarrow> pqueue" where
  "pq_Clear pq = pq\<lparr>pq_queues := (\<lambda>p. map_option mq_Clear (pq_queues pq p)), pq_counter := 0\<rparr>"

definition pq_Stats :: "pqueue \<Rightarrow> queue_stats" where
  "pq_Stats pq = \<lparr>qs_Total = pq_counter pq, qs_ByStatus = Map.empty,
     qs_ByPriority = (\<lambda>p. map_option mq_Size (pq_queues pq p)), qs_ByType = Map.empty,
     qs_OldestTask = time_zero, qs_NewestTask = time_zero\<rparr>"

section \<open>The queue interface and the two implementations\<close>

text \<open>
  What a consumer of \<open>Queue\<close> relies on, over the multiset of queued references: a successful push
  adds the reference, a refused one changes nothing that can be popped, and repeated pops return
  everything that was queued.
\<close>

locale task_queue = poppable pop contents inv
  for pop :: "'q \<Rightarrow> ('t \<times> 'q) option" and contents :: "'q \<Rightarrow> 't multiset" and inv :: "'q \<Rightarrow> bool" +
  fixes push :: "'t \<Rightarrow> 'q \<Rightarrow> 'q \<times> 'e option" and poppable_after :: "'t \<Rightarrow> 'q \<Rightarrow> bool"
  assumes push_ok:
      "inv q \<Longrightarrow> poppable_after t q \<Longrightarrow> push t q = (q', None) \<Longrightarrow>
         contents q' = add_mset t (contents q)"
    and push_refused: "inv q \<Longrightarrow> push t q = (q', Some e) \<Longrightarrow> contents q' = contents q"
    and push_inv: "inv q \<Longrightarrow> inv (fst (push t q))"
begin

lemma push_pop_all:
  assumes "inv q" and "poppable_after t q" and "push t q = (q', None)"
    and "pop_loop pop (Suc (size (contents q))) q' = (ts, q'')"
  shows "mset ts = add_mset t (contents q) \<and> contents q'' = {#}"
proof -
  have inv: "inv q'" using push_inv [OF assms(1), of t] assms(3) by simp
  have c: "contents q' = add_mset t (contents q)" by (rule push_ok [OF assms(1-3)])
  have "contents q' = mset ts + contents q''"
    using pop_loop_conserves [OF inv assms(4)] by simp
  moreover have "length ts = size (contents q')"
    using pop_loop_length [OF inv assms(4)] c by simp
  ultimately have "contents q'' = {#}"
    by (metis add_cancel_right_right size_eq_0_iff_empty size_mset size_union)
  with \<open>contents q' = mset ts + contents q''\<close> c show ?thesis by simp
qed

end

section \<open>The order in which a priority queue is emptied\<close>

definition tasks_at :: "pqueue \<Rightarrow> int \<Rightarrow> tref list" where
  "tasks_at pq p = (case pq_queues pq p of None \<Rightarrow> [] | Some q \<Rightarrow> mq_tasks q)"

definition pq_list :: "pqueue \<Rightarrow> tref list" where
  "pq_list pq = concat (map (tasks_at pq) pop_order)"

lemma pop_order_simps: "pop_order = [3, 2, 1, 0]"
  by (simp add: pop_order_def priority_defs)

lemma mq_Pop_simps [simp]:
  "mq_Pop q = Inl e \<longleftrightarrow> mq_tasks q = [] \<and> e = QueueEmpty"
  "mq_Pop q = Inr (r, q') \<longleftrightarrow> (\<exists>rs. mq_tasks q = r # rs \<and> q' = q\<lparr>mq_tasks := rs\<rparr>)"
  by (auto simp: mq_Pop_def split: list.splits)

lemma mq_Peek_Inr [simp]: "mq_Peek q = Inr r \<longleftrightarrow> (\<exists>rs. mq_tasks q = r # rs)"
  by (auto simp: mq_Peek_def split: list.splits)

lemma pq_pop_scan_None:
  "pq_pop_scan ps pq = None \<Longrightarrow> concat (map (tasks_at pq) ps) = []"
  by (induction ps) (auto simp: tasks_at_def split: option.splits sum.splits)

lemma pq_pop_scan_Some:
  assumes "pq_pop_scan ps pq = Some (r, pq')"
  obtains p q rs where "p \<in> set ps" "pq_queues pq p = Some q" "mq_tasks q = r # rs"
    "pq' = pq\<lparr>pq_queues := (pq_queues pq)(p \<mapsto> q\<lparr>mq_tasks := rs\<rparr>),
              pq_counter := pq_counter pq - 1\<rparr>"
  using assms
  by (induction ps) (fastforce split: option.splits sum.splits)+

lemma pq_pop_scan_list:
  "pq_pop_scan ps pq = Some (r, pq') \<Longrightarrow> distinct ps \<Longrightarrow>
     concat (map (tasks_at pq) ps) = r # concat (map (tasks_at pq') ps)"
proof (induction ps)
  case Nil
  then show ?case by simp
next
  case (Cons p ps)
  show ?case
  proof (cases "tasks_at pq p")
    case Nil
    then have scan: "pq_pop_scan ps pq = Some (r, pq')"
      using Cons.prems(1)
      by (auto simp: tasks_at_def split: option.splits sum.splits)
    then obtain p' q rs where "p' \<in> set ps"
        "pq' = pq\<lparr>pq_queues := (pq_queues pq)(p' \<mapsto> q\<lparr>mq_tasks := rs\<rparr>),
                  pq_counter := pq_counter pq - 1\<rparr>"
      by (rule pq_pop_scan_Some)
    with Cons.prems(2) have "tasks_at pq' p = tasks_at pq p"
      by (auto simp: tasks_at_def)
    with Nil Cons.IH [OF scan] Cons.prems(2) show ?thesis by simp
  next
    case head: (Cons r' rs)
    then obtain q where q: "pq_queues pq p = Some q" "mq_tasks q = r' # rs"
      by (auto simp: tasks_at_def split: option.splits)
    then have eqs: "r' = r"
      "pq' = pq\<lparr>pq_queues := (pq_queues pq)(p \<mapsto> q\<lparr>mq_tasks := rs\<rparr>),
                pq_counter := pq_counter pq - 1\<rparr>"
      using Cons.prems(1) by (auto simp: mq_Pop_def)
    have "tasks_at pq' x = tasks_at pq x" if "x \<noteq> p" for x
      using that eqs(2) by (simp add: tasks_at_def)
    then have "map (tasks_at pq') ps = map (tasks_at pq) ps"
      using Cons.prems(2) by (metis distinct.simps(2) map_cong)
    moreover have "tasks_at pq' p = rs" using eqs(2) by (simp add: tasks_at_def)
    ultimately show ?thesis using head eqs(1) by (simp del: map_eq_conv)
  qed
qed

interpretation pq_pops: ordered_pop pq_Pop pq_list
proof unfold_locales
  fix q t q' assume "pq_Pop q = Some (t, q')"
  then show "pq_list q = t # pq_list q'"
    unfolding pq_Pop_def pq_list_def by (rule pq_pop_scan_list) (simp add: pop_order_simps)
next
  fix q assume "pq_Pop q = None"
  then show "pq_list q = []"
    unfolding pq_Pop_def pq_list_def by (rule pq_pop_scan_None)
qed

lemma pq_peek_scan_step:
  "pq_peek_scan (p # ps) pq = (case tasks_at pq p of [] \<Rightarrow> pq_peek_scan ps pq | r # rs \<Rightarrow> Some r)"
  by (auto simp: tasks_at_def mq_Peek_def split: option.splits list.splits)

lemma pq_Peek_head: "pq_Peek pq = (case pq_list pq of [] \<Rightarrow> None | r # rs \<Rightarrow> Some r)"
proof -
  have "pq_peek_scan ps pq = (case concat (map (tasks_at pq) ps) of [] \<Rightarrow> None | r # rs \<Rightarrow> Some r)"
    for ps
  proof (induction ps)
    case Nil
    show ?case by simp
  next
    case (Cons p ps)
    then show ?case
      by (cases "tasks_at pq p") (simp_all add: pq_peek_scan_step del: pq_peek_scan.simps)
  qed
  then show ?thesis by (simp add: pq_Peek_def pq_list_def)
qed

section \<open>Pushing\<close>

lemma mq_Push_cases:
  obtains (full) "mq_capacity q \<le> int (length (mq_tasks q))"
      "mq_Push now r h q = (h, q, Some QueueFull)"
    | (room) "int (length (mq_tasks q)) < mq_capacity q"
      "mq_Push now r h q = (h(r := task_Queue now (h r)), q\<lparr>mq_tasks := mq_tasks q @ [r]\<rparr>, None)"
  by (cases "mq_capacity q \<le> int (length (mq_tasks q))") (auto simp: mq_Push_def)

lemma tasks_at_upd:
  "tasks_at (pq\<lparr>pq_queues := (pq_queues pq)(p \<mapsto> q), pq_counter := c\<rparr>) p' =
     (if p' = p then mq_tasks q else tasks_at pq p')"
  by (simp add: tasks_at_def)

lemma pq_Push_tasks_at:
  assumes "pq_Push now now' r h pq = (h', pq', e)"
  shows "tasks_at pq' p = (if p = t_Priority (h r) \<and> e = None
           then tasks_at pq p @ [r] else tasks_at pq p)"
  using assms
  by (auto simp: pq_Push_def mq_Push_def Let_def tasks_at_upd NewMemoryQueue_def
      tasks_at_def split: if_splits option.splits)

lemma pq_Push_contents:
  assumes "pq_Push now now' r h pq = (h', pq', None)" and "t_Priority (h r) \<in> set pop_order"
  shows "mset (pq_list pq') = add_mset r (mset (pq_list pq))"
  using assms(2) by (auto simp: pq_list_def pop_order_simps pq_Push_tasks_at [OF assms(1)])

lemma pq_Push_refused:
  assumes "pq_Push now now' r h pq = (h', pq', Some e)"
  shows "pq_list pq' = pq_list pq"
  by (simp add: pq_list_def pop_order_simps pq_Push_tasks_at [OF assms])

text \<open>The interface over a store and a queue; \<open>now\<close> and \<open>now'\<close> are the clock reads of the push.\<close>

interpretation pq_iface: task_queue
  "\<lambda>(h, pq). map_option (\<lambda>(r, pq'). (r, h, pq')) (pq_Pop pq)"
  "\<lambda>(h, pq). mset (pq_list pq)" "\<lambda>_. True"
  "\<lambda>r (h, pq). let (h', pq', e) = pq_Push now now' r h pq in ((h', pq'), e)"
  "\<lambda>r (h, pq). t_Priority (h r) \<in> set pop_order"
  for now now'
  by unfold_locales
    (auto dest: pq_pops.pop_head pq_pops.pop_none pq_Push_contents pq_Push_refused split: prod.splits)

interpretation mq_iface: task_queue
  "\<lambda>(h, q). case mq_Pop q of Inl e \<Rightarrow> None | Inr (r, q') \<Rightarrow> Some (r, h, q')"
  "\<lambda>(h, q). mset (mq_tasks q)" "\<lambda>_. True"
  "\<lambda>r (h, q). let (h', q', e) = mq_Push now r h q in ((h', q'), e)" "\<lambda>_ _. True"
  for now
  by unfold_locales
    (auto simp: mq_Pop_def mq_Push_def split: list.splits if_splits prod.splits)

section \<open>Runs of operations\<close>

datatype pq_op =
    OpPush gotime gotime tref
  | OpPushBatch "(gotime \<times> gotime \<times> tref) list"
  | OpPop
  | OpPopN int
  | OpClear

fun pq_step :: "pq_op \<Rightarrow> store \<times> pqueue \<Rightarrow> store \<times> pqueue" where
  "pq_step (OpPush now now' r) (h, pq) = (let (h', pq', e) = pq_Push now now' r h pq in (h', pq'))"
| "pq_step (OpPushBatch ts) (h, pq) = (let (h', pq', e) = pq_PushBatch ts h pq in (h', pq'))"
| "pq_step OpPop (h, pq) = (h, case pq_Pop pq of None \<Rightarrow> pq | Some (r, pq') \<Rightarrow> pq')"
| "pq_step (OpPopN n) (h, pq) = (h, snd (pq_PopN n pq))"
| "pq_step OpClear (h, pq) = (h, pq_Clear pq)"

text \<open>
  Every queue keeps within its capacity of 1000, and whatever it holds is marked queued in the
  store and carries the priority the queue stands for.
\<close>

definition queue_good :: "store \<Rightarrow> int \<Rightarrow> mqueue \<Rightarrow> bool" where
  "queue_good h p q \<longleftrightarrow> mq_capacity q = 1000 \<and> int (length (mq_tasks q)) \<le> 1000 \<and>
     (\<forall>r \<in> set (mq_tasks q). t_Priority (h r) = p \<and> t_Status (h r) = StatusQueued)"

definition pq_good :: "store \<times> pqueue \<Rightarrow> bool" where
  "pq_good = (\<lambda>(h, pq). \<forall>p q. pq_queues pq p = Some q \<longrightarrow> queue_good h p q)"

lemma pq_good_new: "pq_good (h, NewPriorityQueue)"
  by (auto simp: pq_good_def queue_good_def NewPriorityQueue_def NewMemoryQueue_def split: if_splits)

lemma queue_good_queued:
  "queue_good h p q \<Longrightarrow> queue_good (h(r := task_Queue now (h r))) p q"
  by (auto simp: queue_good_def)

lemma queue_good_push:
  assumes "queue_good h p q" and "t_Priority (h r) = p" and "mq_Push now r h q = (h', q', e)"
  shows "queue_good h' p q'"
  using assms by (auto simp: mq_Push_def queue_good_def split: if_splits)

lemma mq_Push_store:
  "mq_Push now r h q = (h', q', e) \<Longrightarrow> h' = h \<or> h' = h(r := task_Queue now (h r))"
  by (auto simp: mq_Push_def split: if_splits)

lemma pq_good_push [step_inv]:
  assumes "pq_good (h, pq)" and "pq_Push now now' r h pq = (h', pq', e)"
  shows "pq_good (h', pq')"
proof -
  define p where "p = t_Priority (h r)"
  define q where "q = (case pq_queues pq p of None \<Rightarrow> NewMemoryQueue 1000 | Some q \<Rightarrow> q)"
  define h1 where "h1 = h(r := task_Queue now (h r))"
  have good1: "queue_good h1 p0 q0" if "pq_queues pq p0 = Some q0" for p0 q0
    unfolding h1_def using assms(1) that by (auto simp: pq_good_def intro: queue_good_queued)
  have q1: "queue_good h1 p q"
    using good1 [of p] by (auto simp: q_def queue_good_def NewMemoryQueue_def split: option.splits)
  obtain q' where push: "mq_Push now' r h1 q = (h', q', e)"
      and pq': "pq_queues pq' = (pq_queues pq)(p \<mapsto> q')"
    using assms(2) by (auto simp: pq_Push_def Let_def p_def q_def h1_def split: prod.splits)
  have "t_Priority (h1 r) = p" by (simp add: h1_def p_def)
  with q1 push have q2: "queue_good h' p q'" by (auto intro: queue_good_push)
  have "queue_good h' p0 q0" if "pq_queues pq p0 = Some q0" for p0 q0
    using mq_Push_store [OF push] good1 [OF that] by (auto intro: queue_good_queued)
  with q2 show ?thesis by (auto simp: pq_good_def pq')
qed

lemma pq_good_push_batch [step_inv]:
  "pq_good (h, pq) \<Longrightarrow> pq_PushBatch ts h pq = (h', pq', e) \<Longrightarrow> pq_good (h', pq')"
proof (induction ts h pq rule: pq_PushBatch.induct)
  case (1 h pq)
  then show ?case by simp
next
  case (2 now now' r ts h pq)
  obtain h1 pq1 e1 where push: "pq_Push now now' r h pq = (h1, pq1, e1)"
    by (cases "pq_Push now now' r h pq")
  have good: "pq_good (h1, pq1)" by (rule pq_good_push [OF 2(2) push])
  show ?case
  proof (cases e1)
    case None
    with 2 push good show ?thesis by auto
  next
    case (Some e2)
    with 2 push good show ?thesis by auto
  qed
qed

lemma pq_good_pop [step_inv]:
  assumes "pq_good (h, pq)" and "pq_Pop pq = Some (r, pq')"
  shows "pq_good (h, pq')"
  using assms(2) unfolding pq_Pop_def
proof (rule pq_pop_scan_Some)
  fix p q rs
  assume "pq_queues pq p = Some q" "mq_tasks q = r # rs"
    "pq' = pq\<lparr>pq_queues := (pq_queues pq)(p \<mapsto> q\<lparr>mq_tasks := rs\<rparr>), pq_counter := pq_counter pq - 1\<rparr>"
  with assms(1) show ?thesis by (fastforce simp: pq_good_def queue_good_def)
qed

lemma pq_good_pop_loop [step_inv]:
  "pq_good (h, pq) \<Longrightarrow> pop_loop pq_Pop n pq = (rs, pq') \<Longrightarrow> pq_good (h, pq')"
proof (induction n arbitrary: pq rs)
  case 0
  then show ?case by simp
next
  case (Suc n)
  then show ?case
    by (auto split: option.splits prod.splits intro: pq_good_pop)
qed

lemma pq_good_pop_loop_snd [step_inv]:
  "pq_good (h, pq) \<Longrightarrow> pq_good (h, snd (pop_loop pq_Pop n pq))"
  by (rule pq_good_pop_loop [where rs = "fst (pop_loop pq_Pop n pq)"]) simp_all

lemma pq_good_clear [step_inv]: "pq_good (h, pq) \<Longrightarrow> pq_good (h, pq_Clear pq)"
  by (auto simp: pq_good_def pq_Clear_def mq_Clear_def queue_good_def)

interpretation pq_runs: step_system pq_step pq_good
proof unfold_locales
  fix s e assume "pq_good s"
  then show "pq_good (pq_step e s)"
    by (cases "(e, s)" rule: pq_step.cases)
      (auto simp: Let_def pq_PopN_def split: option.splits prod.splits
        intro: step_inv)
qed

text \<open>The counter agrees with what is queued under the four priorities.\<close>

definition pq_counted :: "pqueue \<Rightarrow> bool" where
  "pq_counted pq \<longleftrightarrow> pq_counter pq = int (length (pq_list pq))"

lemma pq_counter_pop:
  assumes "pq_Pop pq = Some (r, pq')"
  shows "pq_counter pq' = pq_counter pq - 1"
  using assms unfolding pq_Pop_def by (rule pq_pop_scan_Some) simp

lemma pq_counted_pop: "pq_counted pq \<Longrightarrow> pq_Pop pq = Some (r, pq') \<Longrightarrow> pq_counted pq'"
  using pq_pops.pop_head [of pq r pq'] by (simp add: pq_counted_def pq_counter_pop)

lemma pq_counter_push:
  "pq_Push now now' r h pq = (h', pq', e) \<Longrightarrow> pq_counter pq' = pq_counter pq + 1"
  by (auto simp: pq_Push_def Let_def split: prod.splits)

lemma pq_counted_push:
  assumes "pq_counted pq" and "pq_Push now now' r h pq = (h', pq', None)"
    and "t_Priority (h r) \<in> set pop_order"
  shows "pq_counted pq'"
proof -
  have "length (pq_list pq') = Suc (length (pq_list pq))"
    using arg_cong [OF pq_Push_contents [OF assms(2,3)], of size] by simp
  with assms(1) show ?thesis by (simp add: pq_counted_def pq_counter_push [OF assms(2)])
qed

section \<open>Properties\<close>


text \<open>
  from a new queue, after any sequence of pushes, batch pushes, pops and clears, every
  per-priority queue holds at most 1000 tasks and each of them is marked queued and has the
  priority of the queue it is in.
\<close>

theorem pq_run_good:
  "pq_good (fold pq_step ops (h, NewPriorityQueue))"
  by (rule pq_runs.run_keeps [OF pq_good_new])

text \<open>
  the counter \<open>Size\<close> reports is kept by every successful push of a task with one of the four
  priorities and by every pop and clear, but a push refused by a full queue still counts the task:
  \<open>Size\<close> then reports one more task than can ever be popped.
\<close>

theorem pq_Size_counts:
  assumes "pq_counted pq"
  shows "(pq_Push now now' r h pq = (h', pq1, None) \<and> t_Priority (h r) \<in> set pop_order
            \<longrightarrow> pq_Size pq1 = int (length (pq_list pq1))) \<and>
         (pq_Push now now' r h pq = (h', pq1, Some e)
            \<longrightarrow> pq_Size pq1 = int (length (pq_list pq1)) + 1 \<and> pq_list pq1 = pq_list pq) \<and>
         (pq_Pop pq = Some (r', pq2) \<longrightarrow> pq_Size pq2 = int (length (pq_list pq2))) \<and>
         pq_Size (pq_Clear pq) = int (length (pq_list (pq_Clear pq)))"
proof (intro conjI impI)
  assume "pq_Push now now' r h pq = (h', pq1, None) \<and> t_Priority (h r) \<in> set pop_order"
  then show "pq_Size pq1 = int (length (pq_list pq1))"
    using pq_counted_push [OF assms] by (auto simp: pq_Size_def pq_counted_def)
next
  assume push: "pq_Push now now' r h pq = (h', pq1, Some e)"
  show "pq_Size pq1 = int (length (pq_list pq1)) + 1"
    using assms by (simp add: pq_Size_def pq_counted_def pq_counter_push [OF push]
        pq_Push_refused [OF push])
  show "pq_list pq1 = pq_list pq" by (rule pq_Push_refused [OF push])
next
  assume "pq_Pop pq = Some (r', pq2)"
  then show "pq_Size pq2 = int (length (pq_list pq2))"
    using pq_counted_pop [OF assms] by (auto simp: pq_Size_def pq_counted_def)
next
  show "pq_Size (pq_Clear pq) = int (length (pq_list (pq_Clear pq)))"
    by (simp add: pq_Size_def pq_Clear_def pq_list_def pop_order_simps tasks_at_def mq_Clear_def
        split: option.splits)
qed

theorem pq_Size_counts_witness:
  "pq_Size (fst (snd (pq_Push 0 0 7 (\<lambda>_. zero_task)
      \<lparr>pq_queues = [0 \<mapsto> NewMemoryQueue 0], pq_counter = 0\<rparr>))) = 1"
proof -
  let ?pq = "\<lparr>pq_queues = [0 \<mapsto> NewMemoryQueue 0], pq_counter = 0\<rparr>"
  have "pq_counted ?pq"
    by (simp add: pq_counted_def pq_list_def pop_order_simps tasks_at_def NewMemoryQueue_def)
  moreover have "pq_list ?pq = []"
    by (simp add: pq_list_def pop_order_simps tasks_at_def NewMemoryQueue_def)
  moreover have "pq_Push 0 0 7 (\<lambda>_. zero_task) ?pq =
      ((\<lambda>_. zero_task)(7 := task_Queue 0 zero_task), ?pq\<lparr>pq_counter := 1\<rparr>, Some QueueFull)"
    by (simp add: pq_Push_def mq_Push_def NewMemoryQueue_def zero_task_def Let_def)
  ultimately show ?thesis
    using pq_Size_counts [of ?pq 0 0 7 "\<lambda>_. zero_task"
        "(\<lambda>_. zero_task)(7 := task_Queue 0 zero_task)" "?pq\<lparr>pq_counter := 1\<rparr>" QueueFull]
    by simp
qed

text \<open>
  a task whose priority is none of the four constants is accepted and counted, yet no \<open>Pop\<close>
  ever returns it: a queue that was empty reports size 1 and has no task to give.
\<close>

theorem pq_unknown_priority_lost:
  assumes "t_Priority (h r) \<notin> {0, 1, 2, 3}"
  shows "(let (h', pq', e) = pq_Push now now' r h NewPriorityQueue in
           e = None \<and> pq_Size pq' = 1 \<and> pq_Pop pq' = None \<and> pq_PopN n pq' = ([], pq'))"
proof -
  obtain h' pq' e where push: "pq_Push now now' r h NewPriorityQueue = (h', pq', e)"
    by (cases "pq_Push now now' r h NewPriorityQueue")
  have ok: "e = None"
    using push assms by (auto simp: pq_Push_def NewPriorityQueue_def priority_defs mq_Push_def
        NewMemoryQueue_def Let_def)
  have empty: "pq_list pq' = []"
    using assms
    by (auto simp: pq_list_def pop_order_simps pq_Push_tasks_at [OF push])
      (auto simp: tasks_at_def NewPriorityQueue_def NewMemoryQueue_def priority_defs)
  then have "pq_Pop pq' = None"
    using pq_pops.pop_head by (cases "pq_Pop pq'") force+
  moreover from this have "pop_loop pq_Pop k pq' = ([], pq')" for k
    by (cases k) simp_all
  ultimately show ?thesis
    using push ok pq_counter_push [OF push]
    by (simp add: pq_Size_def pq_PopN_def NewPriorityQueue_def)
qed

theorem pq_unknown_priority_lost_witness:
  "pq_Pop (fst (snd (pq_Push 5 5 0 (\<lambda>_. zero_task\<lparr>t_Priority := 10\<rparr>) NewPriorityQueue))) = None"
  using pq_unknown_priority_lost [of "\<lambda>_. zero_task\<lparr>t_Priority := 10\<rparr>" 0 5 5 0]
  by (auto simp: Let_def split: prod.splits)

end
