(* ===== verification/Dispatcher.thy ===== *)
theory Dispatcher
  imports TaskQueue
begin

text \<open>
  The task dispatcher (src/crawler/task/dispatcher.go) over the in-process priority queue, which
  is what \<open>NewDispatcher\<close> builds unless Redis is asked for: submission, the batch dispatch loop,
  the node selection strategies, node registration and the health check.  Redis is outside the
  program: the pipelines it receives are kept in \<open>d_pipes\<close> with the result of \<open>Exec\<close>, which is an
  argument of the operation.  \<open>d_assigned\<close> lists the assignments that were stored.
\<close>

section \<open>State\<close>

datatype strategy =
    StrategyRoundRobin
  | StrategyLeastLoad
  | StrategyRandom
  | StrategyHash
  | StrategySticky
  | StrategyOther string

record node_info =
  n_ID :: string
  n_Address :: string
  n_Capacity :: int
  n_CurrentLoad :: int
  n_Status :: string
  n_LastHeartbeat :: gotime
  n_Tags :: "string list"
  n_Capabilities :: "string list"

datatype redis_cmd =
    RSet string task duration
  | RLPush string string
  | RHIncrBy string string int
  | RSRem string string
  | RDel string

record dispatcher =
  d_store :: store
  d_queue :: pqueue
  d_nodes :: "string \<rightharpoonup> node_info"
  d_strategy :: strategy
  d_prefix :: string
  d_dispatched :: int
  d_failed :: int
  d_batchSize :: int
  d_taskChan :: "tref list"
  d_pipes :: "(redis_cmd list \<times> bool) list"
  d_assigned :: "(tref \<times> string) list"

definition NewDispatcher :: "store \<Rightarrow> strategy \<Rightarrow> string \<Rightarrow> int \<Rightarrow> dispatcher" where
  "NewDispatcher h strat prefx batch = \<lparr>d_store = h, d_queue = NewPriorityQueue,
     d_nodes = Map.empty, d_strategy = strat, d_prefix = prefx, d_dispatched = 0, d_failed = 0,
     d_batchSize = batch, d_taskChan = [], d_pipes = [], d_assigned = []\<rparr>"

section \<open>Submission\<close>

datatype submit_error = InvalidTask task_error | QueueFailed queue_error

definition d_push :: "gotime \<Rightarrow> gotime \<Rightarrow> tref \<Rightarrow> dispatcher \<Rightarrow> dispatcher \<times> queue_error option" where
  "d_push now now' r d =
     (let (h, pq, e) = pq_Push now now' r (d_store d) (d_queue d)
      in (d\<lparr>d_store := h, d_queue := pq\<rparr>, e))"

definition submitSeedTask :: "gotime \<Rightarrow> gotime \<Rightarrow> tref \<Rightarrow> dispatcher \<Rightarrow>
    dispatcher \<times> queue_error option" where
  "submitSeedTask now now' r d =
     (let t = d_store d r;
          t1 = SetMetadata ''is_seed'' (GBool True) t;
          t2 = SetMetadata ''seed_id'' (GStr (t_ID t1)) t1;
          t3 = t2\<lparr>t_Priority := PriorityHigh\<rparr>
      in d_push now now' r (d\<lparr>d_store := (d_store d)(r := t3)\<rparr>))"

definition Submit :: "gotime \<Rightarrow> gotime \<Rightarrow> tref \<Rightarrow> dispatcher \<Rightarrow> dispatcher \<times> submit_error option" where
  "Submit now now' r d =
     (let (t, v) = Validate (d_store d r);
          d1 = d\<lparr>d_store := (d_store d)(r := t)\<rparr>
      in case v of
           Some e \<Rightarrow> (d1, Some (InvalidTask e))
         | None \<Rightarrow>
             (if t_Type t = TypeSeed
              then (let (d2, e) = submitSeedTask now now' r d1 in (d2, map_option QueueFailed e))
              else
                (case d_push now now' r d1 of
                   (d2, Some e) \<Rightarrow> (d2, Some (QueueFailed e))
                 | (d2, None) \<Rightarrow>
                     (let d3 = d2\<lparr>d_dispatched := d_dispatched d2 + 1\<rparr>
                      in (if length (d_taskChan d3) < 1000
                          then d3\<lparr>d_taskChan := d_taskChan d3 @ [r]\<rparr> else d3, None)))))"

text \<open>
  A batch: the seeds one by one, their errors only logged, then the other tasks with one
  \<open>PushBatch\<close>.  Each task comes with the clock reads of its push.
\<close>

definition submit_seeds :: "(gotime \<times> gotime \<times> tref) list \<Rightarrow> dispatcher \<Rightarrow> dispatcher" where
  "submit_seeds ts d = foldl (\<lambda>d (now, now', r). fst (submitSeedTask now now' r d)) d ts"

definition SubmitBatch :: "(gotime \<times> gotime \<times> tref) list \<Rightarrow> dispatcher \<Rightarrow>
    dispatcher \<times> queue_error option" where
  "SubmitBatch ts d =
     (let seed = (\<lambda>(now, now', r). t_Type (d_store d r) = TypeSeed);
          seedTasks = filter seed ts;
          regularTasks = filter (\<lambda>x. \<not> seed x) ts;
          d1 = submit_seeds seedTasks d
      in if regularTasks = [] then (d1, None)
         else (case pq_PushBatch regularTasks (d_store d1) (d_queue d1) of
                 (h, pq, Some e) \<Rightarrow> (d1\<lparr>d_store := h, d_queue := pq\<rparr>, Some e)
               | (h, pq, None) \<Rightarrow>
                   (d1\<lparr>d_store := h, d_queue := pq,
                       d_dispatched := d_dispatched d1 + int (length regularTasks)\<rparr>, None)))"

section \<open>Node selection\<close>

text \<open>An index computed outside the slice makes the goroutine panic.\<close>

datatype 'a selection = Selected 'a | NoNode | IndexPanic

definition index_node :: "'a list \<Rightarrow> int \<Rightarrow> 'a selection" where
  "index_node xs i =
     (if 0 \<le> i \<and> i < int (length xs) then Selected (xs ! nat i) else IndexPanic)"

definition max_int :: int where "max_int = 2 ^ 63 - 1"

definition selectLeastLoadNode :: "node_info list \<Rightarrow> node_info selection" where
  "selectLeastLoadNode nodes =
     (let (sel, m) = foldl (\<lambda>(sel, minLoad) node.
              if n_CurrentLoad node < minLoad \<and> n_CurrentLoad node < n_Capacity node
              then (Some node, n_CurrentLoad node) else (sel, minLoad)) (None, max_int) nodes
      in case sel of None \<Rightarrow> NoNode | Some n \<Rightarrow> Selected n)"

text \<open>\<open>hash\<close> is a Go \<open>int\<close>: 64 bits, wrapping, and \<open>%\<close> truncates towards zero.\<close>

definition url_hash :: "string \<Rightarrow> 64 word" where
  "url_hash url = foldl (\<lambda>hash b. hash * 31 + of_char b) 0 url"

definition selectHashNode :: "'a list \<Rightarrow> task \<Rightarrow> 'a selection" where
  "selectHashNode nodes t =
     (if nodes = [] then NoNode
      else index_node nodes (sint (url_hash (t_URL t)) smod int (length nodes)))"

definition selectStickyNode :: "node_info list \<Rightarrow> task \<Rightarrow> node_info selection" where
  "selectStickyNode nodes t =
     (case get_in_map ''preferred_node'' (t_Metadata t) of
        Some (GStr nodeID) \<Rightarrow>
          (case find (\<lambda>n. n_ID n = nodeID) nodes of
             Some n \<Rightarrow> Selected n
           | None \<Rightarrow> selectHashNode nodes t)
      | _ \<Rightarrow> selectHashNode nodes t)"

text \<open>\<open>unixNano\<close> is \<open>time.Now().UnixNano()\<close>.\<close>

definition selectRoundRobinNode :: "int \<Rightarrow> 'a list \<Rightarrow> 'a selection" where
  "selectRoundRobinNode unixNano nodes = index_node nodes (unixNano smod int (length nodes))"

definition selectNode :: "int \<Rightarrow> strategy \<Rightarrow> node_info list \<Rightarrow> task \<Rightarrow> node_info selection" where
  "selectNode unixNano strat nodes t =
     (if nodes = [] then NoNode
      else case strat of
             StrategyLeastLoad \<Rightarrow> selectLeastLoadNode nodes
           | StrategyHash \<Rightarrow> selectHashNode nodes t
           | StrategySticky \<Rightarrow> selectStickyNode nodes t
           | _ \<Rightarrow> selectRoundRobinNode unixNano nodes)"

section \<open>Dispatching\<close>

text \<open>\<open>ks\<close> is the order in which the loop visits the node map.\<close>

definition available :: "gotime \<Rightarrow> node_info \<Rightarrow> bool" where
  "available now n \<longleftrightarrow> \<not> (now - n_LastHeartbeat n > 30 * second) \<and>
     \<not> (n_CurrentLoad n \<ge> n_Capacity n) \<and> n_Status n = ''active''"

definition getAvailableNodes :: "gotime \<Rightarrow> string list \<Rightarrow> dispatcher \<Rightarrow> node_info list" where
  "getAvailableNodes now ks d = filter (available now) (values_of ks (d_nodes d))"

definition assignTask :: "gotime \<Rightarrow> bool \<Rightarrow> tref \<Rightarrow> string \<Rightarrow> dispatcher \<Rightarrow> dispatcher \<times> bool" where
  "assignTask now exec_ok r node d =
     (let t = task_Start now ((d_store d r)\<lparr>t_NodeID := node\<rparr>);
          pipe = [RSet (d_prefix d @ '':assignment:'' @ t_ID t) t (24 * hour),
                  RLPush (d_prefix d @ '':node:'' @ node @ '':tasks'') (t_ID t),
                  RHIncrBy (d_prefix d @ '':node:'' @ node @ '':stats'') ''assigned'' 1];
          d1 = d\<lparr>d_store := (d_store d)(r := t), d_pipes := d_pipes d @ [(pipe, exec_ok)]\<rparr>
      in if \<not> exec_ok then (d1, False)
         else (d1\<lparr>d_nodes := (d_nodes d)(node := map_option
                     (\<lambda>n. n\<lparr>n_CurrentLoad := n_CurrentLoad n + 1\<rparr>) (d_nodes d node)),
                   d_assigned := d_assigned d @ [(r, node)]\<rparr>, True))"

text \<open>
  One round of the loop over the popped tasks.  The loop holds pointers to the nodes that were
  available when the batch began (their IDs here) and reads their present load through them.
  \<open>clk i\<close> are the clock reads of round \<open>i\<close>, \<open>ex i\<close> is the result of its pipeline.  \<open>None\<close> is a
  panic.
\<close>

type_synonym clock = "nat \<Rightarrow> nat \<Rightarrow> gotime"

definition dispatch_one :: "(nat \<Rightarrow> gotime) \<Rightarrow> bool \<Rightarrow> string list \<Rightarrow> tref \<Rightarrow> dispatcher \<Rightarrow>
    dispatcher option" where
  "dispatch_one clk ex ids r d =
     (case selectNode (clk 0) (d_strategy d) (values_of ids (d_nodes d)) (d_store d r) of
        IndexPanic \<Rightarrow> None
      | NoNode \<Rightarrow> Some (fst (d_push (clk 1) (clk 2) r d))
      | Selected n \<Rightarrow>
          (case assignTask (clk 1) ex r (n_ID n) d of
             (d1, True) \<Rightarrow> Some d1
           | (d1, False) \<Rightarrow>
               (let d2 = fst (d_push (clk 2) (clk 3) r d1)
                in Some (d2\<lparr>d_failed := d_failed d2 + 1\<rparr>))))"

fun dispatch_loop :: "nat \<Rightarrow> clock \<Rightarrow> (nat \<Rightarrow> bool) \<Rightarrow> string list \<Rightarrow> tref list \<Rightarrow>
    dispatcher \<Rightarrow> dispatcher option" where
  "dispatch_loop i clk ex ids [] d = Some d"
| "dispatch_loop i clk ex ids (r # rs) d =
     (case dispatch_one (clk i) (ex i) ids r d of
        None \<Rightarrow> None
      | Some d1 \<Rightarrow> dispatch_loop (Suc i) clk ex ids rs d1)"

definition dispatchBatch :: "gotime \<Rightarrow> clock \<Rightarrow> (nat \<Rightarrow> bool) \<Rightarrow> string list \<Rightarrow> dispatcher \<Rightarrow>
    dispatcher option" where
  "dispatchBatch now clk ex ks d =
     (let nodes = getAvailableNodes now ks d in
      if nodes = [] then Some d
      else
        let (tasks, pq) = pq_PopN (d_batchSize d) (d_queue d);
            d1 = d\<lparr>d_queue := pq\<rparr>
        in if tasks = [] then Some d1
           else dispatch_loop 0 clk ex (map n_ID nodes) tasks d1)"

section \<open>Nodes\<close>

definition RegisterNode :: "gotime \<Rightarrow> node_info \<Rightarrow> dispatcher \<Rightarrow> dispatcher" where
  "RegisterNode now node d =
     (let node1 = node\<lparr>n_LastHeartbeat := now\<rparr>
      in d\<lparr>d_nodes := (d_nodes d)(n_ID node1 \<mapsto> node1)\<rparr>)"

definition UnregisterNode :: "string \<Rightarrow> dispatcher \<Rightarrow> dispatcher" where
  "UnregisterNode nodeID d = d\<lparr>d_nodes := (d_nodes d)(nodeID := None)\<rparr>"

definition UpdateNodeHeartbeat :: "gotime \<Rightarrow> string \<Rightarrow> int \<Rightarrow> dispatcher \<Rightarrow> dispatcher" where
  "UpdateNodeHeartbeat now nodeID load d =
     (case d_nodes d nodeID of
        None \<Rightarrow> d
      | Some n \<Rightarrow> d\<lparr>d_nodes := (d_nodes d)(nodeID \<mapsto>
                     n\<lparr>n_LastHeartbeat := now, n_CurrentLoad := load\<rparr>)\<rparr>)"

definition checkNodeHealth :: "gotime \<Rightarrow> dispatcher \<Rightarrow> dispatcher" where
  "checkNodeHealth now d = d\<lparr>d_nodes := (\<lambda>k. map_option
     (\<lambda>n. if now - n_LastHeartbeat n > 60 * second then n\<lparr>n_Status := ''dead''\<rparr> else n)
     (d_nodes d k))\<rparr>"

record dispatcher_stats =
  ds_nodes :: int
  ds_dispatched :: int
  ds_failed :: int
  ds_strategy :: strategy

definition dispatcher_GetStats :: "string list \<Rightarrow> dispatcher \<Rightarrow> dispatcher_stats" where
  "dispatcher_GetStats ks d = \<lparr>ds_nodes = int (length ks), ds_dispatched = d_dispatched d,
     ds_failed = d_failed d, ds_strategy = d_strategy d\<rparr>"

section \<open>Seed expansion\<close>

text \<open>
  \<open>Expand\<close> of the default expander returns no task.  \<open>expandSeedTasks\<close> gets the members of the
  completed set and what \<open>GET\<close> returns for each; the expander is an interface, here a function
  giving references with their clock reads.
\<close>

definition DefaultExpand :: "string \<Rightarrow> (gotime \<times> gotime \<times> tref) list" where
  "DefaultExpand data = []"

fun expandSeedTasks :: "(string \<Rightarrow> (gotime \<times> gotime \<times> tref) list) \<Rightarrow> (string \<Rightarrow> string option) \<Rightarrow>
    string list \<Rightarrow> dispatcher \<Rightarrow> dispatcher" where
  "expandSeedTasks expand get [] d = d"
| "expandSeedTasks expand get (m # ms) d =
     (let resultKey = d_prefix d @ '':seed:result:'' @ m in
      case get resultKey of
        None \<Rightarrow> expandSeedTasks expand get ms d
      | Some data \<Rightarrow>
          (let ts = expand data;
               d1 = (if ts \<noteq> [] then fst (SubmitBatch ts d) else d);
               d2 = d1\<lparr>d_pipes := d_pipes d1 @ [([RSRem (d_prefix d @ '':seed:completed'') m], True),
                                               ([RDel resultKey], True)]\<rparr>
           in expandSeedTasks expand get ms d2))"

section \<open>Routing\<close>

record routing_rule =
  rr_Name :: string
  rr_Condition :: "task \<Rightarrow> bool"
  rr_Target :: string
  rr_Priority :: int

definition Route :: "routing_rule list \<Rightarrow> task \<Rightarrow> string" where
  "Route rules t =
     (case find (\<lambda>r. rr_Condition r t) rules of None \<Rightarrow> '''' | Some r \<Rightarrow> rr_Target r)"

definition AddRule :: "routing_rule \<Rightarrow> routing_rule list \<Rightarrow> routing_rule list" where
  "AddRule r rules = rules @ [r]"

section \<open>Selection\<close>

lemma index_node_cases [simp]:
  "index_node xs i = Selected x \<longleftrightarrow> 0 \<le> i \<and> i < int (length xs) \<and> x = xs ! nat i"
  "index_node xs i \<noteq> NoNode"
  "index_node xs i = IndexPanic \<longleftrightarrow> \<not> (0 \<le> i \<and> i < int (length xs))"
  by (auto simp: index_node_def)

lemma smod_below: "0 < n \<Longrightarrow> a smod n < (n::int)"
  using smod_int_range [of n a] by auto

lemma smod_one: "a smod 1 = (0::int)"
  using smod_int_range [of 1 a] by auto

lemma index_smod_panic:
  "xs \<noteq> [] \<Longrightarrow> index_node xs (i smod int (length xs)) = IndexPanic \<longleftrightarrow> i smod int (length xs) < 0"
  using smod_below [of "int (length xs)" i] by auto

text \<open>Every strategy picks a member of the list it is given.\<close>

locale node_selector =
  fixes sel :: "node_info list \<Rightarrow> node_info selection"
  assumes sel_member: "sel nodes = Selected n \<Longrightarrow> n \<in> set nodes"
begin

lemma selected_loaded:
  assumes "sel (values_of ids m) = Selected n" and "\<And>k v. m k = Some v \<Longrightarrow> n_ID v = k"
  shows "m (n_ID n) = Some n \<and> n_ID n \<in> set ids"
  using sel_member [OF assms(1)] assms(2) by (fastforce simp: set_values_of)

end

lemma index_node_member: "index_node xs i = Selected x \<Longrightarrow> x \<in> set xs"
  by auto

lemma least_load_fold:
  "foldl (\<lambda>(sel, minLoad) node.
      if n_CurrentLoad node < minLoad \<and> n_CurrentLoad node < n_Capacity node
      then (Some node, n_CurrentLoad node) else (sel, minLoad)) (s0, m0) nodes = (s, m) \<Longrightarrow>
   m \<le> m0 \<and>
   (\<forall>n \<in> set nodes. n_CurrentLoad n < n_Capacity n \<longrightarrow> m \<le> n_CurrentLoad n) \<and>
   ((s = s0 \<and> m = m0) \<or>
    (\<exists>n. s = Some n \<and> n \<in> set nodes \<and> n_CurrentLoad n = m \<and> n_CurrentLoad n < n_Capacity n))"
proof (induction nodes arbitrary: s0 m0)
  case Nil
  then show ?case by simp
next
  case (Cons x xs)
  show ?case
  proof (cases "n_CurrentLoad x < m0 \<and> n_CurrentLoad x < n_Capacity x")
    case True
    with Cons.prems have "foldl (\<lambda>(sel, minLoad) node.
        if n_CurrentLoad node < minLoad \<and> n_CurrentLoad node < n_Capacity node
        then (Some node, n_CurrentLoad node) else (sel, minLoad))
        (Some x, n_CurrentLoad x) xs = (s, m)" by simp
    from Cons.IH [OF this] True show ?thesis by auto
  next
    case False
    with Cons.prems have "foldl (\<lambda>(sel, minLoad) node.
        if n_CurrentLoad node < minLoad \<and> n_CurrentLoad node < n_Capacity node
        then (Some node, n_CurrentLoad node) else (sel, minLoad)) (s0, m0) xs = (s, m)"
      by auto
    from Cons.IH [OF this] False show ?thesis by auto
  qed
qed

lemma least_load_Selected:
  assumes "selectLeastLoadNode nodes = Selected n"
  shows "n \<in> set nodes \<and> n_CurrentLoad n < n_Capacity n \<and>
    (\<forall>x \<in> set nodes. n_CurrentLoad x < n_Capacity x \<longrightarrow> n_CurrentLoad n \<le> n_CurrentLoad x)"
proof -
  obtain s m where fold: "foldl (\<lambda>(sel, minLoad) node.
        if n_CurrentLoad node < minLoad \<and> n_CurrentLoad node < n_Capacity node
        then (Some node, n_CurrentLoad node) else (sel, minLoad)) (None, max_int) nodes = (s, m)"
    by fastforce
  with assms have "s = Some n"
    by (auto simp: selectLeastLoadNode_def split: option.splits)
  with least_load_fold [OF fold] show ?thesis by auto
qed

lemma least_load_NoNode:
  assumes "selectLeastLoadNode nodes = NoNode" and "x \<in> set nodes"
    and "n_CurrentLoad x < max_int"
  shows "n_Capacity x \<le> n_CurrentLoad x"
proof -
  obtain s m where fold: "foldl (\<lambda>(sel, minLoad) node.
        if n_CurrentLoad node < minLoad \<and> n_CurrentLoad node < n_Capacity node
        then (Some node, n_CurrentLoad node) else (sel, minLoad)) (None, max_int) nodes = (s, m)"
    by fastforce
  with assms(1) have "s = None"
    by (auto simp: selectLeastLoadNode_def split: option.splits)
  with least_load_fold [OF fold] assms(2,3) show ?thesis by force
qed

lemma least_load_no_panic: "selectLeastLoadNode nodes \<noteq> IndexPanic"
  by (auto simp: selectLeastLoadNode_def split: prod.splits option.splits)

lemma hash_member: "selectHashNode nodes t = Selected n \<Longrightarrow> n \<in> set nodes"
  by (auto simp: selectHashNode_def split: if_splits)

lemma sticky_member: "selectStickyNode nodes t = Selected n \<Longrightarrow> n \<in> set nodes"
  by (auto simp: selectStickyNode_def find_Some_iff
      split: option.splits goval.splits dest: hash_member)

interpretation node_selects: node_selector "\<lambda>nodes. selectNode unixNano strat nodes t"
  for unixNano strat t
  by unfold_locales
    (auto simp: selectNode_def selectRoundRobinNode_def
      dest: least_load_Selected hash_member sticky_member split: if_splits strategy.splits)

section \<open>A dispatched batch loses no task\<close>

definition cap1000 :: "pqueue \<Rightarrow> bool" where
  "cap1000 pq \<longleftrightarrow> (\<forall>p q. pq_queues pq p = Some q \<longrightarrow> mq_capacity q = 1000)"

lemma d_push_frame [simp]:
  "d_assigned (fst (d_push now now' r d)) = d_assigned d"
  "d_nodes (fst (d_push now now' r d)) = d_nodes d"
  "d_strategy (fst (d_push now now' r d)) = d_strategy d"
  by (simp_all add: d_push_def Let_def split: prod.splits)

lemma pq_Push_room:
  assumes "cap1000 pq" and "length (tasks_at pq (t_Priority (h r))) < 1000"
    and "pq_Push now now' r h pq = (h', pq', e)"
  shows "e = None \<and> cap1000 pq' \<and> (\<forall>x. t_Priority (h' x) = t_Priority (h x))"
  using assms
  by (auto simp: pq_Push_def mq_Push_def Let_def cap1000_def tasks_at_def NewMemoryQueue_def
      split: if_splits option.splits)

lemma d_push_room:
  assumes "cap1000 (d_queue d)" and "t_Priority (d_store d r) \<in> set pop_order"
    and "length (tasks_at (d_queue d) (t_Priority (d_store d r))) < 1000"
  shows "cap1000 (d_queue (fst (d_push now now' r d))) \<and>
    (\<forall>x. t_Priority (d_store (fst (d_push now now' r d)) x) = t_Priority (d_store d x)) \<and>
    mset (pq_list (d_queue (fst (d_push now now' r d)))) = add_mset r (mset (pq_list (d_queue d))) \<and>
    (\<forall>p. length (tasks_at (d_queue (fst (d_push now now' r d))) p) =
         length (tasks_at (d_queue d) p) + (if p = t_Priority (d_store d r) then 1 else 0))"
proof -
  obtain h pq e where push: "pq_Push now now' r (d_store d) (d_queue d) = (h, pq, e)"
    by (cases "pq_Push now now' r (d_store d) (d_queue d)")
  have ok: "e = None" "cap1000 pq" "\<forall>x. t_Priority (h x) = t_Priority (d_store d x)"
    using pq_Push_room [OF assms(1,3) push] by simp_all
  have "mset (pq_list pq) = add_mset r (mset (pq_list (d_queue d)))"
    using push ok(1) assms(2) by (auto intro: pq_Push_contents)
  with ok push show ?thesis
    by (auto simp: d_push_def pq_Push_tasks_at [OF push])
qed

text \<open>What the loop keeps, with \<open>rs\<close> the tasks still to place.\<close>

definition loop_ok :: "tref multiset \<Rightarrow> tref list \<Rightarrow> dispatcher \<Rightarrow> bool" where
  "loop_ok all rs d \<longleftrightarrow> cap1000 (d_queue d) \<and>
     (\<forall>r \<in> set rs. t_Priority (d_store d r) \<in> set pop_order) \<and>
     (\<forall>p. length (tasks_at (d_queue d) p) +
          length (filter (\<lambda>r. t_Priority (d_store d r) = p) rs) \<le> 1000) \<and>
     mset (pq_list (d_queue d)) + mset (map fst (d_assigned d)) + mset rs = all"

lemma loop_ok_head_room:
  "loop_ok all (r # rs) d \<Longrightarrow>
     length (tasks_at (d_queue d) (t_Priority (d_store d r))) < 1000"
  unfolding loop_ok_def by (auto dest!: spec [of _ "t_Priority (d_store d r)"])

lemma assignTask_frame:
  assumes "assignTask now ex r node d = (d1, ok)"
  shows "d_queue d1 = d_queue d \<and> (\<forall>x. t_Priority (d_store d1 x) = t_Priority (d_store d x)) \<and>
    d_assigned d1 = (if ok then d_assigned d @ [(r, node)] else d_assigned d) \<and> ok = ex \<and>
    d_strategy d1 = d_strategy d"
  using assms by (auto simp: assignTask_def task_Start_def Let_def split: if_splits)

lemma loop_ok_push:
  assumes "loop_ok all (r # rs) d" and "d_queue d1 = d_queue d" and "d_assigned d1 = d_assigned d"
    and "\<forall>x. t_Priority (d_store d1 x) = t_Priority (d_store d x)"
  shows "loop_ok all rs (fst (d_push now now' r d1))"
proof -
  have pre: "cap1000 (d_queue d1)" "t_Priority (d_store d1 r) \<in> set pop_order"
      "length (tasks_at (d_queue d1) (t_Priority (d_store d1 r))) < 1000"
    using assms loop_ok_head_room [OF assms(1)] by (simp_all add: loop_ok_def)
  have room: "length (tasks_at (d_queue d) p) + length (filter (\<lambda>r. t_Priority (d_store d r) = p) (r # rs)) \<le> 1000" for p
    using assms(1) by (simp add: loop_ok_def)
  have "length (tasks_at (d_queue (fst (d_push now now' r d1))) p) +
      length (filter (\<lambda>x. t_Priority (d_store (fst (d_push now now' r d1)) x) = p) rs) \<le> 1000" for p
    using d_push_room [OF pre, of now now'] assms(2,4) room [of p] by (auto split: if_splits)
  then show ?thesis
    using d_push_room [OF pre, of now now'] assms
    by (simp add: loop_ok_def ac_simps)
qed

lemma dispatch_one_ok:
  assumes "loop_ok all (r # rs) d" and "dispatch_one clk ex ids r d = Some d'"
  shows "loop_ok all rs d'"
proof (cases "selectNode (clk 0) (d_strategy d) (values_of ids (d_nodes d)) (d_store d r)")
  case NoNode
  with assms have "d' = fst (d_push (clk 1) (clk 2) r d)" by (simp add: dispatch_one_def)
  moreover have "loop_ok all rs (fst (d_push (clk 1) (clk 2) r d))"
    by (rule loop_ok_push [OF assms(1)]) simp_all
  ultimately show ?thesis by simp
next
  case IndexPanic
  with assms show ?thesis by (simp add: dispatch_one_def)
next
  case (Selected n)
  obtain d1 ok where assign: "assignTask (clk 1) ex r (n_ID n) d = (d1, ok)"
    by (cases "assignTask (clk 1) ex r (n_ID n) d")
  note fr = assignTask_frame [OF assign]
  show ?thesis
  proof (cases ok)
    case True
    with assms Selected assign have "d' = d1" by (simp add: dispatch_one_def)
    moreover have "length (tasks_at (d_queue d) p) + length (filter (\<lambda>r. t_Priority (d_store d r) = p) rs) \<le> 1000" for p
      using assms(1) by (auto simp: loop_ok_def dest!: spec [of _ p] split: if_splits)
    ultimately show ?thesis using assms(1) fr True by (simp add: loop_ok_def ac_simps)
  next
    case False
    with assms Selected assign
    have "d' = (let d2 = fst (d_push (clk 2) (clk 3) r d1) in d2\<lparr>d_failed := d_failed d2 + 1\<rparr>)"
      by (simp add: dispatch_one_def Let_def)
    moreover have "loop_ok all rs (fst (d_push (clk 2) (clk 3) r d1))"
      using loop_ok_push [OF assms(1), of d1] fr False by simp
    ultimately show ?thesis by (simp add: loop_ok_def Let_def)
  qed
qed

lemma dispatch_loop_ok:
  "loop_ok all rs d \<Longrightarrow> dispatch_loop i clk ex ids rs d = Some d' \<Longrightarrow> loop_ok all [] d'"
proof (induction i clk ex ids rs d rule: dispatch_loop.induct)
  case (1 i clk ex ids d)
  then show ?case by simp
next
  case (2 i clk ex ids r rs d)
  then show ?case by (auto split: option.splits dest: dispatch_one_ok)
qed

lemma pq_good_priority:
  assumes "pq_good (h, pq)" and "r \<in> set (tasks_at pq p)"
  shows "t_Priority (h r) = p"
proof -
  from assms(2) obtain q where "pq_queues pq p = Some q" "r \<in> set (mq_tasks q)"
    by (cases "pq_queues pq p") (auto simp: tasks_at_def)
  with assms(1) show ?thesis by (auto simp: pq_good_def queue_good_def)
qed

lemma pq_good_filter:
  assumes "pq_good (h, pq)"
  shows "filter (\<lambda>r. t_Priority (h r) = p) (pq_list pq) = (if p \<in> set pop_order then tasks_at pq p else [])"
proof -
  have "filter (\<lambda>r. t_Priority (h r) = p) (tasks_at pq p') = (if p' = p then tasks_at pq p else [])" for p'
    using pq_good_priority [OF assms] by (auto simp: filter_id_conv filter_empty_conv)
  then show ?thesis by (auto simp: pq_list_def pop_order_simps)
qed

lemma pq_good_list_priority:
  "pq_good (h, pq) \<Longrightarrow> r \<in> set (pq_list pq) \<Longrightarrow> t_Priority (h r) \<in> set pop_order"
  by (auto simp: pq_list_def dest: pq_good_priority)

lemma pq_good_length: "pq_good (h, pq) \<Longrightarrow> length (tasks_at pq p) \<le> 1000"
  by (fastforce simp: pq_good_def queue_good_def tasks_at_def split: option.splits)

lemma popped_loop_ok:
  assumes good: "pq_good (d_store d, d_queue d)" and pop: "pq_PopN n (d_queue d) = (rs, pq)"
  shows "loop_ok (mset (pq_list (d_queue d)) + mset (map fst (d_assigned d))) rs (d\<lparr>d_queue := pq\<rparr>)"
proof -
  let ?h = "d_store d"
  have split: "pq_list (d_queue d) = rs @ pq_list pq"
    using pq_pops.pop_loop_take [of "nat n" "d_queue d" rs pq] pop by (simp add: pq_PopN_def)
  have good': "pq_good (?h, pq)"
    using pq_good_pop_loop [OF good] pop by (simp add: pq_PopN_def)
  have room: "length (tasks_at pq p) + length (filter (\<lambda>r. t_Priority (?h r) = p) rs) \<le> 1000" for p
  proof (cases "p \<in> set pop_order")
    case True
    have "filter (\<lambda>r. t_Priority (?h r) = p) rs @ tasks_at pq p = tasks_at (d_queue d) p"
      using pq_good_filter [OF good, of p] pq_good_filter [OF good', of p] True split by simp
    then have "length (filter (\<lambda>r. t_Priority (?h r) = p) rs) + length (tasks_at pq p)
        = length (tasks_at (d_queue d) p)"
      by (metis length_append)
    then show ?thesis using pq_good_length [OF good, of p] by simp
  next
    case False
    then have "filter (\<lambda>r. t_Priority (?h r) = p) rs = []"
      using pq_good_filter [OF good, of p] split by simp
    then show ?thesis using pq_good_length [OF good', of p] by simp
  qed
  have "cap1000 pq" using good' by (auto simp: pq_good_def queue_good_def cap1000_def)
  moreover have "\<forall>r \<in> set rs. t_Priority (?h r) \<in> set pop_order"
    using pq_good_list_priority [OF good] split by auto
  ultimately show ?thesis using room split by (simp add: loop_ok_def ac_simps)
qed

section \<open>Capacity under the least-load strategy\<close>

definition nodes_within :: "dispatcher \<Rightarrow> bool" where
  "nodes_within d \<longleftrightarrow> (\<forall>k n. d_nodes d k = Some n \<longrightarrow> n_ID n = k \<and> n_CurrentLoad n \<le> n_Capacity n)"

lemma assignTask_nodes_within:
  assumes "nodes_within d" and "d_nodes d k = Some n" and "n_CurrentLoad n < n_Capacity n"
  shows "nodes_within (fst (assignTask now ex r k d))"
  using assms by (auto simp: nodes_within_def assignTask_def Let_def)

lemma dispatch_one_least_load:
  assumes "nodes_within d" and "d_strategy d = StrategyLeastLoad"
  shows "\<exists>d'. dispatch_one clk ex ids r d = Some d' \<and> nodes_within d' \<and>
    d_strategy d' = StrategyLeastLoad"
proof (cases "selectNode (clk 0) (d_strategy d) (values_of ids (d_nodes d)) (d_store d r)")
  case NoNode
  with assms show ?thesis by (simp add: dispatch_one_def nodes_within_def)
next
  case IndexPanic
  with assms least_load_no_panic show ?thesis by (simp add: selectNode_def split: if_splits)
next
  case (Selected n)
  have wf: "\<And>k v. d_nodes d k = Some v \<Longrightarrow> n_ID v = k"
    using assms(1) by (simp add: nodes_within_def)
  have "d_nodes d (n_ID n) = Some n"
    using node_selects.selected_loaded [OF Selected wf] by simp
  moreover have "n_CurrentLoad n < n_Capacity n"
    using Selected assms(2) by (auto simp: selectNode_def dest: least_load_Selected split: if_splits)
  ultimately have "nodes_within (fst (assignTask (clk 1) ex r (n_ID n) d))"
    by (rule assignTask_nodes_within [OF assms(1)])
  moreover obtain d1 ok where assign: "assignTask (clk 1) ex r (n_ID n) d = (d1, ok)"
    by (cases "assignTask (clk 1) ex r (n_ID n) d")
  ultimately show ?thesis
    using Selected assms assignTask_frame [OF assign]
    by (cases ok) (simp_all add: dispatch_one_def nodes_within_def Let_def)
qed

lemma dispatch_loop_least_load:
  "nodes_within d \<Longrightarrow> d_strategy d = StrategyLeastLoad \<Longrightarrow>
     \<exists>d'. dispatch_loop i clk ex ids rs d = Some d' \<and> nodes_within d'"
proof (induction rs arbitrary: i d)
  case Nil
  then show ?case by simp
next
  case (Cons r rs)
  from dispatch_one_least_load [OF Cons.prems, of "clk i" "ex i" ids r]
  obtain d1 where d1: "dispatch_one (clk i) (ex i) ids r d = Some d1" "nodes_within d1"
      "d_strategy d1 = StrategyLeastLoad"
    by (elim exE conjE)
  from Cons.IH [OF d1(2,3), of "Suc i"] d1(1) show ?case by simp
qed

section \<open>Properties\<close>



text \<open>
  with the least-load strategy a batch always completes and never loads a node past its
  capacity.
\<close>

theorem dispatchBatch_least_load:
  assumes "nodes_within d" and "d_strategy d = StrategyLeastLoad"
  shows "\<exists>d'. dispatchBatch now clk ex ks d = Some d' \<and>
    (\<forall>k n. d_nodes d' k = Some n \<longrightarrow> n_CurrentLoad n \<le> n_Capacity n)"
proof -
  obtain rs pq where pop: "pq_PopN (d_batchSize d) (d_queue d) = (rs, pq)"
    by (cases "pq_PopN (d_batchSize d) (d_queue d)")
  have "nodes_within (d\<lparr>d_queue := pq\<rparr>)" "d_strategy (d\<lparr>d_queue := pq\<rparr>) = StrategyLeastLoad"
    using assms by (simp_all add: nodes_within_def)
  from dispatch_loop_least_load [OF this] assms(1) pop show ?thesis
    by (fastforce simp: dispatchBatch_def Let_def nodes_within_def)
qed

theorem dispatchBatch_least_load_witness:
  "\<exists>d'. dispatchBatch 0 (\<lambda>_ _. 0) (\<lambda>_. True) [] (NewDispatcher (\<lambda>_. zero_task) StrategyLeastLoad
     ''c'' 10) = Some d' \<and> (\<forall>k n. d_nodes d' k = Some n \<longrightarrow> n_CurrentLoad n \<le> n_Capacity n)"
  by (rule dispatchBatch_least_load) (simp_all add: nodes_within_def NewDispatcher_def)

text \<open>
  round-robin and hash dispatch do not look at the capacity again after the batch began: one
  active node takes every task of the batch, however small its capacity.
\<close>

theorem round_robin_overloads:
  assumes "d_strategy d = StrategyRoundRobin" and "d_nodes d k = Some n" and "n_ID n = k"
  shows "\<exists>d'. dispatch_loop i clk (\<lambda>_. True) [k] rs d = Some d' \<and>
    map_option n_CurrentLoad (d_nodes d' k) = Some (n_CurrentLoad n + int (length rs))"
  using assms
proof (induction rs arbitrary: i d n)
  case Nil
  then show ?case by simp
next
  case (Cons r rs)
  have "selectNode (clk i 0) (d_strategy d) (values_of [k] (d_nodes d)) (d_store d r) = Selected n"
    using Cons.prems
    by (simp add: selectNode_def selectRoundRobinNode_def index_node_def smod_one)
  moreover obtain d1 where assign: "assignTask (clk i 1) True r k d = (d1, True)"
      and d1: "d_strategy d1 = StrategyRoundRobin"
        "d_nodes d1 k = Some (n\<lparr>n_CurrentLoad := n_CurrentLoad n + 1\<rparr>)"
    using Cons.prems by (simp add: assignTask_def Let_def)
  ultimately have "dispatch_one (clk i) True [k] r d = Some d1"
    using Cons.prems by (simp add: dispatch_one_def)
  with Cons.IH [OF d1, of "Suc i"] Cons.prems(3) show ?case by (simp add: algebra_simps)
qed

theorem round_robin_overloads_witness:
  "\<exists>d'. dispatch_loop 0 (\<lambda>_ _. 1) (\<lambda>_. True) [''n''] [1, 2, 3]
     (RegisterNode 1 \<lparr>n_ID = ''n'', n_Address = '''', n_Capacity = 1, n_CurrentLoad = 0,
        n_Status = ''active'', n_LastHeartbeat = 0, n_Tags = [], n_Capabilities = []\<rparr>
        (NewDispatcher (\<lambda>_. zero_task) StrategyRoundRobin ''c'' 10)) = Some d' \<and>
     map_option n_CurrentLoad (d_nodes d' ''n'') = Some 3"
  using round_robin_overloads [of "RegisterNode 1 \<lparr>n_ID = ''n'', n_Address = '''', n_Capacity = 1,
        n_CurrentLoad = 0, n_Status = ''active'', n_LastHeartbeat = 0, n_Tags = [],
        n_Capabilities = []\<rparr> (NewDispatcher (\<lambda>_. zero_task) StrategyRoundRobin ''c'' 10)" "''n''"
      "\<lparr>n_ID = ''n'', n_Address = '''', n_Capacity = 1, n_CurrentLoad = 0,
        n_Status = ''active'', n_LastHeartbeat = 1, n_Tags = [], n_Capabilities = []\<rparr>" 0 "\<lambda>_ _. 1"
      "[1, 2, 3]"]
  by (simp add: RegisterNode_def NewDispatcher_def Let_def)

text \<open>
  hash selection gives the same node for the same URL whenever the 64-bit hash reduces to a
  non-negative index, and panics exactly when the wrapped hash is negative and no multiple of the
  number of nodes, because Go's \<open>%\<close> keeps the sign.
\<close>

theorem selectHashNode_panics:
  assumes "nodes \<noteq> []"
  shows "(selectHashNode nodes t = IndexPanic \<longleftrightarrow>
            sint (url_hash (t_URL t)) < 0 \<and> \<not> int (length nodes) dvd sint (url_hash (t_URL t))) \<and>
         (selectHashNode nodes t \<noteq> IndexPanic \<longrightarrow>
            selectHashNode nodes t =
              Selected (nodes ! nat (sint (url_hash (t_URL t)) mod int (length nodes))))"
proof -
  let ?h = "sint (url_hash (t_URL t))" and ?n = "int (length nodes)"
  have n: "0 < ?n" using assms by simp
  have pos: "?h smod ?n = ?h mod ?n" if "0 \<le> ?h"
    using that n by (simp add: signed_modulo_int_def sgn_if)
  have neg: "?h smod ?n = - ((- ?h) mod ?n)" if "?h < 0"
    using that n by (simp add: signed_modulo_int_def)
  have dvd: "(- ?h) mod ?n = 0 \<longleftrightarrow> ?n dvd ?h" by (simp add: mod_eq_0_iff_dvd)
  have ge: "0 \<le> (- ?h) mod ?n" using n by simp
  show ?thesis
  proof (cases "0 \<le> ?h")
    case True
    with assms n pos show ?thesis
      by (auto simp: selectHashNode_def index_node_def)
  next
    case False
    then have h: "?h < 0" by simp
    show ?thesis
    proof (cases "?n dvd ?h")
      case True
      then have "?h smod ?n = 0" "?h mod ?n = 0" using neg [OF h] dvd by simp_all
      with True assms n show ?thesis by (simp add: selectHashNode_def index_node_def)
    next
      case nd: False
      then have "(- ?h) mod ?n \<noteq> 0" using dvd by simp
      with ge have "0 < (- ?h) mod ?n" by (rule le_neq_trans [OF _ not_sym])
      then have "?h smod ?n < 0" using neg [OF h] by simp
      with nd h assms show ?thesis by (simp add: selectHashNode_def index_node_def)
    qed
  qed
qed

theorem selectHashNode_panics_witness:
  "selectHashNode [1, 2, 3 :: nat] (zero_task\<lparr>t_URL := ''https://a.com''\<rparr>) = IndexPanic"
  using selectHashNode_panics [of "[1, 2, 3 :: nat]" "zero_task\<lparr>t_URL := ''https://a.com''\<rparr>"]
  by (simp add: url_hash_def)

end
