(* ===== verification/FetchMiddleware.thy ===== *)
theory FetchMiddleware
  imports CrawlTask TTLStore
begin

text \<open>
  The fetcher's middleware chain and its members (src/crawler/fetcher/middleware.go and the chain
  and statistics of src/crawler/fetcher/fetcher.go).  A handler takes a request, which middlewares
  change in place, and a state \<open>'w\<close> that stands for everything behind it (the network, the
  middlewares' own fields); it returns an outcome, the request and the state.  The response's back
  pointer to its request, the request's context and the cookies' attributes are left out.
\<close>

section \<open>Requests, responses, handlers\<close>

record response =
  rs_StatusCode :: int
  rs_Headers :: "(string \<rightharpoonup> string) option"
  rs_Body :: "8 word list"
  rs_URL :: string
  rs_Method :: string
  rs_StartTime :: gotime
  rs_EndTime :: gotime
  rs_Duration :: duration
  rs_RemoteAddr :: string
  rs_TLSVersion :: string
  rs_Error :: "string option"
  rs_ErrorMsg :: string
  rs_Metadata :: "(string \<rightharpoonup> goval) option"

datatype outcome = Ret "response option" "string option" | Panic

record request =
  rq_ID :: string
  rq_URL :: string
  rq_Method :: string
  rq_Headers :: "(string \<rightharpoonup> string) option"
  rq_Cookies :: "(string \<times> string) list"
  rq_Body :: goval
  rq_FormData :: "(string \<rightharpoonup> string) option"
  rq_Proxy :: string
  rq_UserAgent :: string
  rq_Timeout :: duration
  rq_RetryCount :: int
  rq_RetryCondition :: "(response option \<Rightarrow> string option \<Rightarrow> bool) option"
  rq_FollowRedirect :: bool
  rq_DisableKeepAlive :: bool
  rq_SkipTLSVerify :: bool
  rq_Metadata :: "(string \<rightharpoonup> goval) option"
  rq_Priority :: int

type_synonym 'w handler = "request \<Rightarrow> 'w \<Rightarrow> outcome \<times> request \<times> 'w"

text \<open>The last middleware added is wrapped first, so the first one added runs outermost.\<close>

definition executeWithMiddleware :: "('w handler \<Rightarrow> 'w handler) list \<Rightarrow> 'w handler \<Rightarrow> 'w handler" where
  "executeWithMiddleware middlewares handler = foldr (\<lambda>m next. m next) middlewares handler"

text \<open>The zero values, and a response with nothing but a status.\<close>

definition zero_request :: request where
  "zero_request = \<lparr>rq_ID = '''', rq_URL = '''', rq_Method = '''', rq_Headers = None, rq_Cookies = [],
     rq_Body = GNil, rq_FormData = None, rq_Proxy = '''', rq_UserAgent = '''', rq_Timeout = 0,
     rq_RetryCount = 0, rq_RetryCondition = None, rq_FollowRedirect = False,
     rq_DisableKeepAlive = False, rq_SkipTLSVerify = False, rq_Metadata = None, rq_Priority = 0\<rparr>"

definition zero_response :: response where
  "zero_response = \<lparr>rs_StatusCode = 0, rs_Headers = None, rs_Body = [], rs_URL = '''', rs_Method = '''',
     rs_StartTime = time_zero, rs_EndTime = time_zero, rs_Duration = 0, rs_RemoteAddr = '''',
     rs_TLSVersion = '''', rs_Error = None, rs_ErrorMsg = '''', rs_Metadata = None\<rparr>"

definition status_response :: "int \<Rightarrow> response" where
  "status_response code = zero_response\<lparr>rs_StatusCode := code\<rparr>"

lemma status_response_code [simp]: "rs_StatusCode (status_response code) = code"
  by (simp add: status_response_def zero_response_def)

section \<open>Rate limiter, headers, compression, fingerprint\<close>

text \<open>\<open>wait\<close> is the limiter's \<open>Wait\<close>, an interface.\<close>

definition RateLimiter_Process :: "('w \<Rightarrow> string option \<times> 'w) \<Rightarrow> 'w handler \<Rightarrow> 'w handler" where
  "RateLimiter_Process wait next req w =
     (case wait w of
        (Some e, w1) \<Rightarrow> (Ret None (Some (''rate limit error: '' @ e)), req, w1)
      | (None, w1) \<Rightarrow> next req w1)"

text \<open>\<open>ks\<close> lists the keys of the configured headers in the order the loop visits them.\<close>

definition add_missing_headers :: "string list \<Rightarrow> (string \<rightharpoonup> string) \<Rightarrow> (string \<rightharpoonup> string) \<Rightarrow>
    (string \<rightharpoonup> string)" where
  "add_missing_headers ks headers h0 = foldl (\<lambda>h k. case headers k of None \<Rightarrow> h
     | Some v \<Rightarrow> (if h k = None then h(k \<mapsto> v) else h)) h0 ks"

definition Header_Process :: "string list \<Rightarrow> (string \<rightharpoonup> string) \<Rightarrow> 'w handler \<Rightarrow> 'w handler" where
  "Header_Process ks headers next req w =
     (let h0 = (case rq_Headers req of None \<Rightarrow> Map.empty | Some h \<Rightarrow> h)
      in next (req\<lparr>rq_Headers := Some (add_missing_headers ks headers h0)\<rparr>) w)"

definition Compression_Process :: "'w handler \<Rightarrow> 'w handler" where
  "Compression_Process next req w =
     next (req\<lparr>rq_Headers := set_in_map ''Accept-Encoding'' ''gzip, deflate, br''
             (rq_Headers req)\<rparr>) w"

text \<open>\<open>md5\<close> is the hexadecimal digest, \<open>fmt\<close> the \<open>%v\<close> rendering of a body.\<close>

definition generateFingerprint :: "(string \<Rightarrow> string) \<Rightarrow> (goval \<Rightarrow> string) \<Rightarrow> request \<Rightarrow> string" where
  "generateFingerprint md5 fmt req = md5 (rq_Method req @ rq_URL req @ rq_UserAgent req @
     (if rq_Body req \<noteq> GNil then fmt (rq_Body req) else ''''))"

definition Fingerprint_Process :: "(string \<Rightarrow> string) \<Rightarrow> (goval \<Rightarrow> string) \<Rightarrow> 'w handler \<Rightarrow>
    'w handler" where
  "Fingerprint_Process md5 fmt next req w =
     (let fingerprint = GStr (generateFingerprint md5 fmt req);
          req1 = req\<lparr>rq_Metadata := set_in_map ''fingerprint'' fingerprint (rq_Metadata req)\<rparr>
      in case next req1 w of
           (Ret (Some resp) err, req2, w2) \<Rightarrow>
             (Ret (Some (resp\<lparr>rs_Metadata :=
                set_in_map ''fingerprint'' fingerprint (rs_Metadata resp)\<rparr>)) err, req2, w2)
         | other \<Rightarrow> other)"

section \<open>Memory cache\<close>

record 'v cache_item =
  ci_value :: 'v
  ci_expiresAt :: gotime

type_synonym 'v memory_cache = "string \<rightharpoonup> 'v cache_item"

definition mc_Get :: "gotime \<Rightarrow> string \<Rightarrow> 'v memory_cache \<Rightarrow> 'v option" where
  "mc_Get now key c =
     (case c key of
        None \<Rightarrow> None
      | Some item \<Rightarrow> if now > ci_expiresAt item then None else Some (ci_value item))"

definition mc_Set :: "gotime \<Rightarrow> duration \<Rightarrow> string \<Rightarrow> 'v \<Rightarrow> 'v memory_cache \<Rightarrow> 'v memory_cache" where
  "mc_Set now ttl key v c = c(key \<mapsto> \<lparr>ci_value = v, ci_expiresAt = now + ttl\<rparr>)"

definition mc_Delete :: "string \<Rightarrow> 'v memory_cache \<Rightarrow> 'v memory_cache" where
  "mc_Delete key c = c(key := None)"

definition mc_Clear :: "'v memory_cache \<Rightarrow> 'v memory_cache" where
  "mc_Clear c = Map.empty"

definition NewMemoryCache :: "'v memory_cache" where
  "NewMemoryCache = Map.empty"

text \<open>One tick of the cleanup goroutine.\<close>

definition mc_cleanup :: "gotime \<Rightarrow> 'v memory_cache \<Rightarrow> 'v memory_cache" where
  "mc_cleanup now c = map_filter_vals (\<lambda>item. \<not> now > ci_expiresAt item) c"

section \<open>Cache middleware\<close>

text \<open>The headers enter the key in the order \<open>ks\<close> in which the loop visits the map.\<close>

definition generateCacheKey :: "(string \<Rightarrow> string) \<Rightarrow> string list \<Rightarrow> request \<Rightarrow> string" where
  "generateCacheKey md5 ks req = md5 (rq_Method req @ rq_URL req @
     (case rq_Headers req of None \<Rightarrow> '''' | Some h \<Rightarrow> concat (map (\<lambda>k. k @ the (h k)) ks)))"

text \<open>
  The cache holds responses by pointer: marking a hit as cached also marks the stored response.
  A successful call that returned no response dereferences nil.  \<open>now\<close> and \<open>now'\<close> are the clock
  reads of the lookup and of the store.
\<close>

definition Cache_Process :: "(string \<Rightarrow> string) \<Rightarrow> string list \<Rightarrow> gotime \<Rightarrow> gotime \<Rightarrow>
    'w handler \<Rightarrow> (response memory_cache \<times> 'w) handler" where
  "Cache_Process md5 ks now now' next req = (\<lambda>(c, w).
     if rq_Method req \<noteq> ''GET'' \<and> rq_Method req \<noteq> '''' then
       (let (r, req1, w1) = next req w in (r, req1, (c, w1)))
     else
       let key = generateCacheKey md5 ks req in
       case mc_Get now key c of
         Some resp \<Rightarrow>
           (let resp1 = resp\<lparr>rs_Metadata := set_in_map ''cached'' (GBool True) (rs_Metadata resp)\<rparr>;
                c1 = c(key := map_option (\<lambda>item. item\<lparr>ci_value := resp1\<rparr>) (c key))
            in (Ret (Some resp1) None, req, (c1, w)))
       | None \<Rightarrow>
           (case next req w of
              (Panic, req1, w1) \<Rightarrow> (Panic, req1, (c, w1))
            | (Ret resp (Some e), req1, w1) \<Rightarrow> (Ret resp (Some e), req1, (c, w1))
            | (Ret None None, req1, w1) \<Rightarrow> (Panic, req1, (c, w1))
            | (Ret (Some resp) None, req1, w1) \<Rightarrow>
                (Ret (Some resp) None, req1,
                 (if 200 \<le> rs_StatusCode resp \<and> rs_StatusCode resp < 300
                  then mc_Set now' (5 * minute) key resp c else c, w1))))"

section \<open>Backoff and retry\<close>

record backoff =
  bo_baseDelay :: duration
  bo_maxDelay :: duration

definition NewExponentialBackoff :: backoff where
  "NewExponentialBackoff = \<lparr>bo_baseDelay = 1 * second, bo_maxDelay = 30 * second\<rparr>"

text \<open>
  The product is an int64 and wraps; the shift count is \<open>uint(retry)\<close> and a shift by 64 or more
  gives 0.
\<close>

definition NextInterval :: "backoff \<Rightarrow> nat \<Rightarrow> duration" where
  "NextInterval b retry =
     (let delay = (word_of_int (bo_baseDelay b) :: 64 word) * push_bit retry 1
      in if sint delay > bo_maxDelay b then bo_maxDelay b else sint delay)"

text \<open>
  The retry loop at iteration \<open>i\<close>, with \<open>fuel\<close> iterations left (the loop runs \<open>retries + 1\<close> times
  at most).  \<open>done i\<close> says whether the context ends during the wait after attempt \<open>i\<close>.  The waits
  taken are returned beside the result.
\<close>

fun retry_loop :: "backoff \<Rightarrow> (nat \<Rightarrow> bool) \<Rightarrow> 'w handler \<Rightarrow> nat \<Rightarrow> nat \<Rightarrow>
    request \<Rightarrow> 'w \<Rightarrow> (outcome \<times> request \<times> 'w) \<times> duration list" where
  "retry_loop b done next 0 i req w = ((Ret None None, req, w), [])"
| "retry_loop b done next (Suc fuel) i req w =
     (case next req w of
        (Panic, req1, w1) \<Rightarrow> ((Panic, req1, w1), [])
      | (Ret resp err, req1, w1) \<Rightarrow>
          (if err = None \<and> (\<exists>r. resp = Some r \<and> rs_StatusCode r < 500)
           then ((Ret resp None, req1, w1), [])
           else if (\<exists>c. rq_RetryCondition req1 = Some c \<and> \<not> c resp err)
           then ((Ret resp err, req1, w1), [])
           else if fuel = 0 then ((Ret resp err, req1, w1), [])
           else if done i then ((Ret None (Some ''context done''), req1, w1), [NextInterval b i])
           else
             let req2 = req1\<lparr>rq_Metadata :=
                   set_in_map ''retry_attempt'' (GInt (int i + 1)) (rq_Metadata req1)\<rparr>;
                 (res, waits) = retry_loop b done next fuel (Suc i) req2 w1
             in (res, NextInterval b i # waits)))"

definition Retry_Process :: "int \<Rightarrow> backoff \<Rightarrow> (nat \<Rightarrow> bool) \<Rightarrow> 'w handler \<Rightarrow> request \<Rightarrow> 'w \<Rightarrow>
    (outcome \<times> request \<times> 'w) \<times> duration list" where
  "Retry_Process maxRetries b done next req w =
     (let retries = (if rq_RetryCount req > 0 then rq_RetryCount req else maxRetries)
      in retry_loop b done next (nat (retries + 1)) 0 req w)"

section \<open>Metrics and statistics\<close>

record metrics =
  m_total :: int
  m_success :: int
  m_failed :: int
  m_duration :: int

definition Metrics_Process :: "duration \<Rightarrow> 'w handler \<Rightarrow> (metrics \<times> 'w) handler" where
  "Metrics_Process took next req = (\<lambda>(m, w).
     let m1 = m\<lparr>m_total := m_total m + 1\<rparr> in
     case next req w of
       (Panic, req1, w1) \<Rightarrow> (Panic, req1, (m1, w1))
     | (Ret resp err, req1, w1) \<Rightarrow>
         (let m2 = m1\<lparr>m_duration := m_duration m1 + took\<rparr>;
              ok = (err = None \<and> (case resp of None \<Rightarrow> False | Some r \<Rightarrow> rs_StatusCode r < 400));
              m3 = (if ok then m2\<lparr>m_success := m_success m2 + 1\<rparr>
                    else m2\<lparr>m_failed := m_failed m2 + 1\<rparr>)
          in (Ret resp err, req1, (m3, w1))))"

text \<open>The average is truncated integer division; the success rate divides floats and is left out.\<close>

definition GetMetrics_avg :: "metrics \<Rightarrow> duration" where
  "GetMetrics_avg m = (if m_total m > 0 then m_duration m sdiv m_total m else 0)"

record fetch_stats =
  fs_Total :: int
  fs_Success :: int
  fs_Failed :: int
  fs_Bytes :: int
  fs_Avg :: duration
  fs_Last :: gotime

definition updateStats :: "bool \<Rightarrow> gotime \<Rightarrow> response option \<Rightarrow> string option \<Rightarrow> fetch_stats \<Rightarrow>
    fetch_stats" where
  "updateStats enabled now resp err s =
     (if \<not> enabled then s
      else
        let s1 = s\<lparr>fs_Total := fs_Total s + 1, fs_Last := now\<rparr> in
        case (err, resp) of
          (None, Some r) \<Rightarrow>
            (let s2 = s1\<lparr>fs_Success := fs_Success s1 + 1,
                        fs_Bytes := fs_Bytes s1 + int (length (rs_Body r))\<rparr>
             in if fs_Avg s2 = 0 then s2\<lparr>fs_Avg := rs_Duration r\<rparr>
                else s2\<lparr>fs_Avg := (fs_Avg s2 + rs_Duration r) sdiv 2\<rparr>)
        | _ \<Rightarrow> s1\<lparr>fs_Failed := fs_Failed s1 + 1\<rparr>)"

section \<open>Circuit breaker\<close>

datatype circuit_state = CircuitClosed | CircuitOpen | CircuitHalfOpen

record breaker =
  cb_failureThreshold :: int
  cb_successThreshold :: int
  cb_timeout :: duration
  cb_failures :: int
  cb_successes :: int
  cb_lastFailTime :: gotime
  cb_state :: circuit_state

definition NewCircuitBreaker :: "int \<Rightarrow> int \<Rightarrow> duration \<Rightarrow> breaker" where
  "NewCircuitBreaker failureThreshold successThreshold timeout =
     \<lparr>cb_failureThreshold = failureThreshold, cb_successThreshold = successThreshold,
      cb_timeout = timeout, cb_failures = 0, cb_successes = 0, cb_lastFailTime = time_zero,
      cb_state = CircuitClosed\<rparr>"

text \<open>
  \<open>Process\<close> takes the lock twice, before and after the request: two steps, between which other
  requests may run.  \<open>None\<close> means the request is refused.
\<close>

definition cb_admit :: "gotime \<Rightarrow> breaker \<Rightarrow> breaker option" where
  "cb_admit now m =
     (case cb_state m of
        CircuitOpen \<Rightarrow>
          (if now - cb_lastFailTime m > cb_timeout m
           then Some (m\<lparr>cb_state := CircuitHalfOpen, cb_successes := 0\<rparr>) else None)
      | _ \<Rightarrow> Some m)"

definition is_failure :: "response option \<Rightarrow> string option \<Rightarrow> bool" where
  "is_failure resp err \<longleftrightarrow> err \<noteq> None \<or> (\<exists>r. resp = Some r \<and> rs_StatusCode r \<ge> 500)"

definition cb_record :: "gotime \<Rightarrow> bool \<Rightarrow> breaker \<Rightarrow> breaker" where
  "cb_record now failed m =
     (if failed then
        let m1 = m\<lparr>cb_failures := cb_failures m + 1, cb_successes := 0, cb_lastFailTime := now\<rparr>
        in if cb_failures m1 \<ge> cb_failureThreshold m1 then m1\<lparr>cb_state := CircuitOpen\<rparr> else m1
      else
        let m1 = m\<lparr>cb_successes := cb_successes m + 1, cb_failures := 0\<rparr>
        in if cb_state m1 = CircuitHalfOpen \<and> cb_successes m1 \<ge> cb_successThreshold m1
           then m1\<lparr>cb_state := CircuitClosed\<rparr> else m1)"

definition Breaker_Process :: "gotime \<Rightarrow> gotime \<Rightarrow> 'w handler \<Rightarrow> (breaker \<times> 'w) handler" where
  "Breaker_Process now now' next req = (\<lambda>(m, w).
     case cb_admit now m of
       None \<Rightarrow> (Ret None (Some ''circuit breaker is open''), req, (m, w))
     | Some m1 \<Rightarrow>
         (case next req w of
            (Panic, req1, w1) \<Rightarrow> (Panic, req1, (m1, w1))
          | (Ret resp err, req1, w1) \<Rightarrow>
              (Ret resp err, req1, (cb_record now' (is_failure resp err) m1, w1))))"

section \<open>Throttle\<close>

text \<open>
  The semaphore is a channel with room for \<open>maxConcurrent\<close> tokens: a request enters by putting a
  token, unless the context ends first, and takes one back when it returns.
\<close>

record throttle =
  th_max :: nat
  th_inflight :: nat

definition th_enter :: "throttle \<Rightarrow> throttle option" where
  "th_enter t = (if th_inflight t < th_max t then Some (t\<lparr>th_inflight := th_inflight t + 1\<rparr>) else None)"

definition th_leave :: "throttle \<Rightarrow> throttle" where
  "th_leave t = t\<lparr>th_inflight := th_inflight t - 1\<rparr>"


section \<open>The circuit breaker\<close>

lemma cb_admit_Closed [simp]: "cb_state m = CircuitClosed \<Longrightarrow> cb_admit now m = Some m"
  by (simp add: cb_admit_def)

lemma cb_record_thresholds [simp]:
  "cb_failureThreshold (cb_record now b m) = cb_failureThreshold m"
  "cb_successThreshold (cb_record now b m) = cb_successThreshold m"
  "cb_timeout (cb_record now b m) = cb_timeout m"
  by (simp_all add: cb_record_def Let_def)

lemma cb_record_failure:
  "cb_failures (cb_record now True m) = cb_failures m + 1"
  "cb_lastFailTime (cb_record now True m) = now"
  "cb_state (cb_record now True m) =
     (if cb_failures m + 1 \<ge> cb_failureThreshold m then CircuitOpen else cb_state m)"
  by (simp_all add: cb_record_def Let_def)

lemma cb_record_success:
  "cb_failures (cb_record now False m) = 0"
  "cb_successes (cb_record now False m) = cb_successes m + 1"
  "cb_lastFailTime (cb_record now False m) = cb_lastFailTime m"
  "cb_state (cb_record now False m) =
     (if cb_state m = CircuitHalfOpen \<and> cb_successes m + 1 \<ge> cb_successThreshold m
      then CircuitClosed else cb_state m)"
  by (simp_all add: cb_record_def Let_def)

lemma cb_record_run:
  "cb_failureThreshold (fold (\<lambda>t. cb_record t b) ts m) = cb_failureThreshold m"
  "cb_successThreshold (fold (\<lambda>t. cb_record t b) ts m) = cb_successThreshold m"
  "cb_timeout (fold (\<lambda>t. cb_record t b) ts m) = cb_timeout m"
  by (induction ts arbitrary: m) simp_all

lemma cb_failures_run:
  "cb_failures (fold (\<lambda>t. cb_record t True) ts m) = cb_failures m + int (length ts)"
  "ts \<noteq> [] \<Longrightarrow> cb_lastFailTime (fold (\<lambda>t. cb_record t True) ts m) = last ts"
  by (induction ts rule: rev_induct) (simp_all add: cb_record_failure)

lemma cb_state_failures_run:
  "cb_state (fold (\<lambda>t. cb_record t True) ts m) =
     (if ts \<noteq> [] \<and> cb_failures m + int (length ts) \<ge> cb_failureThreshold m
      then CircuitOpen else cb_state m)"
proof (induction ts rule: rev_induct)
  case Nil
  show ?case by simp
next
  case (snoc t ts)
  then show ?case
    by (auto simp: cb_record_failure cb_failures_run cb_record_run)
qed

lemma cb_successes_run:
  "cb_successes (fold (\<lambda>t. cb_record t False) ts m) = cb_successes m + int (length ts)"
  by (induction ts rule: rev_induct) (simp_all add: cb_record_success)

lemma cb_state_successes_run:
  "cb_state m = CircuitHalfOpen \<Longrightarrow> cb_state (fold (\<lambda>t. cb_record t False) ts m) =
     (if ts \<noteq> [] \<and> cb_successes m + int (length ts) \<ge> cb_successThreshold m
      then CircuitClosed else CircuitHalfOpen)"
proof (induction ts rule: rev_induct)
  case Nil
  then show ?case by simp
next
  case (snoc t ts)
  then show ?case
    by (auto simp: cb_record_success cb_successes_run cb_record_run)
qed

text \<open>
  C6: A fresh circuit breaker with a positive failure threshold stays closed through fewer
  consecutive failures than the threshold and is open from the threshold on.  Once open, a request
  made no later than the timeout after the last failure is refused, and what it wraps is not called:
  request and state come back unchanged.
\<close>
theorem breaker_trips:
  assumes "0 < n" and m: "m = fold (\<lambda>t. cb_record t True) ts (NewCircuitBreaker n s to)"
  shows "cb_state m = (if int (length ts) < n then CircuitClosed else CircuitOpen) \<and>
    (n \<le> int (length ts) \<and> now \<le> last ts + to \<longrightarrow>
      Breaker_Process now now' next req (m, w) =
        (Ret None (Some ''circuit breaker is open''), req, (m, w)))"
proof (intro conjI impI)
  show st: "cb_state m = (if int (length ts) < n then CircuitClosed else CircuitOpen)"
    using \<open>0 < n\<close> by (auto simp: m cb_state_failures_run NewCircuitBreaker_def)
  assume late: "n \<le> int (length ts) \<and> now \<le> last ts + to"
  with \<open>0 < n\<close> have ne: "ts \<noteq> []" and "cb_state m = CircuitOpen" by (auto simp: st)
  moreover have "cb_timeout m = to" by (simp add: m cb_record_run NewCircuitBreaker_def)
  moreover have "cb_lastFailTime m = last ts" using ne by (simp add: m cb_failures_run)
  ultimately show "Breaker_Process now now' next req (m, w) =
        (Ret None (Some ''circuit breaker is open''), req, (m, w))"
    using late by (simp add: Breaker_Process_def cb_admit_def)
qed

theorem breaker_trips_witness:
  "\<exists>m. cb_state m = CircuitOpen \<and> Breaker_Process 25 26 (\<lambda>req w. (Panic, req, w + (1::int))) zero_request (m, 0) =
     (Ret None (Some ''circuit breaker is open''), zero_request, (m, 0))"
  using breaker_trips [of 2 "fold (\<lambda>t. cb_record t True) [10, 20] (NewCircuitBreaker 2 1 5)" "[10, 20]" 1 5
      25 26 "\<lambda>req w. (Panic, req, w + (1::int))" zero_request 0]
  by (intro exI [of _ "fold (\<lambda>t. cb_record t True) [10, 20] (NewCircuitBreaker 2 1 5)"]) simp

text \<open>
  Recovery.  An open breaker lets the first request after the timeout through, half-open with
  its success count reset; it closes at exactly \<open>successThreshold\<close> successes in a row, and when the
  failure count that opened it still stands, one failure opens it again.
\<close>
theorem breaker_recovers:
  assumes "cb_state m = CircuitOpen" and "now > cb_lastFailTime m + cb_timeout m"
    and "0 < cb_successThreshold m"
  shows "\<exists>m1. cb_admit now m = Some m1 \<and> cb_state m1 = CircuitHalfOpen \<and>
    (\<forall>ts. cb_state (fold (\<lambda>t. cb_record t False) ts m1) =
      (if int (length ts) < cb_successThreshold m then CircuitHalfOpen else CircuitClosed)) \<and>
    (\<forall>t. cb_failureThreshold m \<le> cb_failures m \<longrightarrow> cb_state (cb_record t True m1) = CircuitOpen)"
proof -
  let ?m = "m\<lparr>cb_state := CircuitHalfOpen, cb_successes := 0\<rparr>"
  have "cb_admit now m = Some ?m" using assms by (simp add: cb_admit_def)
  moreover have "cb_state (fold (\<lambda>t. cb_record t False) ts ?m) =
      (if int (length ts) < cb_successThreshold m then CircuitHalfOpen else CircuitClosed)" for ts
    using assms(3) cb_state_successes_run [of ?m ts] by auto
  moreover have "cb_failureThreshold m \<le> cb_failures m \<Longrightarrow>
      cb_state (cb_record t True ?m) = CircuitOpen" for t
    by (simp add: cb_record_failure)
  ultimately show ?thesis by (intro exI [of _ ?m]) simp
qed

theorem breaker_recovers_witness:
  "\<exists>m1. cb_admit 26 (cb_record 20 True (NewCircuitBreaker 1 2 5)) = Some m1 \<and>
     cb_state (cb_record 30 False m1) = CircuitHalfOpen \<and>
     cb_state (cb_record 31 False (cb_record 30 False m1)) = CircuitClosed \<and>
     cb_state (cb_record 30 True m1) = CircuitOpen"
proof -
  let ?m = "cb_record 20 True (NewCircuitBreaker 1 2 5)"
  have "cb_state ?m = CircuitOpen" "cb_lastFailTime ?m = 20" "cb_timeout ?m = 5"
    "cb_successThreshold ?m = 2" "cb_failureThreshold ?m \<le> cb_failures ?m"
    by (simp_all add: cb_record_failure NewCircuitBreaker_def)
  then obtain m1 where "cb_admit 26 ?m = Some m1"
    and "\<And>ts. cb_state (fold (\<lambda>t. cb_record t False) ts m1) =
      (if int (length ts) < 2 then CircuitHalfOpen else CircuitClosed)"
    and "\<And>t. cb_state (cb_record t True m1) = CircuitOpen"
    using breaker_recovers [of ?m 26] by auto
  from this(1) this(2) [of "[30]"] this(2) [of "[30, 31]"] this(3) [of 30] show ?thesis by auto
qed

section \<open>Interleaved requests\<close>

text \<open>
  Requests overlap: each is admitted in one step and recorded in a later one, and between them other
  requests may be admitted or recorded.  An event is either of the two.
\<close>

datatype cb_event = Admit gotime | Record gotime bool

fun cb_step :: "cb_event \<Rightarrow> breaker \<Rightarrow> breaker" where
  "cb_step (Admit now) m = (case cb_admit now m of None \<Rightarrow> m | Some m1 \<Rightarrow> m1)"
| "cb_step (Record now failed) m = cb_record now failed m"

definition cb_sane :: "breaker \<Rightarrow> bool" where
  "cb_sane m \<longleftrightarrow> 0 \<le> cb_failures m \<and> 0 \<le> cb_successes m \<and>
     (cb_state m = CircuitClosed \<longrightarrow> cb_failures m < cb_failureThreshold m) \<and>
     (cb_state m = CircuitHalfOpen \<longrightarrow> cb_successes m < cb_successThreshold m) \<and>
     0 < cb_failureThreshold m \<and> 0 < cb_successThreshold m"

interpretation cb_runs: step_system cb_step cb_sane
proof
  fix m e
  assume "cb_sane m"
  then show "cb_sane (cb_step e m)"
    by (cases e; cases "cb_state m") (auto simp: cb_sane_def cb_admit_def cb_record_def Let_def)
qed

text \<open>
  However requests overlap, the breaker is closed only while the consecutive failures are below
  the failure threshold and half-open only while the successes are below the success threshold.
\<close>
theorem breaker_interleaved:
  assumes "0 < n" and "0 < s"
  shows "cb_sane (fold cb_step es (NewCircuitBreaker n s to))"
  using assms by (intro cb_runs.run_keeps) (simp add: cb_sane_def NewCircuitBreaker_def)

theorem breaker_interleaved_witness:
  "cb_sane (fold cb_step [Admit 1, Admit 2, Record 3 True, Record 4 False, Admit 100]
     (NewCircuitBreaker 1 1 50))"
  by (rule breaker_interleaved) simp_all


section \<open>Retries\<close>

text \<open>A handler that gives the outcomes of a list in turn: whatever the network does, in order.\<close>

fun scripted :: "outcome list handler" where
  "scripted req [] = (Ret None (Some ''connection refused''), req, [])"
| "scripted req (o1 # os) = (o1, req, os)"

definition settles :: "outcome \<Rightarrow> bool" where
  "settles o1 = (case o1 of Panic \<Rightarrow> True
     | Ret resp err \<Rightarrow> err = None \<and> (\<exists>r. resp = Some r \<and> rs_StatusCode r < 500))"

lemma retry_loop_again:
  assumes "next req w = (Ret resp err, req1, w1)" and "\<not> settles (Ret resp err)"
    and "rq_RetryCondition req1 = None"
  shows "retry_loop b (\<lambda>_. False) next (Suc (Suc fuel)) i req w =
    (let (res, waits) = retry_loop b (\<lambda>_. False) next (Suc fuel) (Suc i) (req1\<lparr>rq_Metadata :=
           set_in_map ''retry_attempt'' (GInt (int i + 1)) (rq_Metadata req1)\<rparr>) w1
     in (res, NextInterval b i # waits))"
  using assms by (subst retry_loop.simps(2)) (auto simp: settles_def Let_def simp del: retry_loop.simps)

lemma retry_loop_scripted:
  assumes "rq_RetryCondition req = None" and "fuel < length os"
  shows "\<exists>req1. retry_loop b (\<lambda>_. False) scripted (Suc fuel) i req os =
    (let n = length (takeWhile (\<lambda>o1. \<not> settles o1) (take fuel os))
     in ((os ! n, req1, drop (Suc n) os), map (NextInterval b) [i..<i + n]))"
  using assms
proof (induction fuel arbitrary: i req os)
  case 0
  then obtain o1 os1 where os: "os = o1 # os1" by (cases os) auto
  show ?case using 0 by (cases o1) (auto simp: os settles_def)
next
  case (Suc fuel)
  then obtain o1 os1 where os: "os = o1 # os1" by (cases os) auto
  show ?case
  proof (cases "settles o1")
    case True
    then show ?thesis by (cases o1) (auto simp: os settles_def)
  next
    case False
    then obtain resp err where o1: "o1 = Ret resp err" by (cases o1) (auto simp: settles_def)
    let ?req = "req\<lparr>rq_Metadata := set_in_map ''retry_attempt'' (GInt (int i + 1)) (rq_Metadata req)\<rparr>"
    let ?n = "length (takeWhile (\<lambda>o1. \<not> settles o1) (take fuel os1))"
    from Suc.IH [of ?req os1 "Suc i"] Suc.prems os obtain req1 where
      ih: "retry_loop b (\<lambda>_. False) scripted (Suc fuel) (Suc i) ?req os1 =
        ((os1 ! ?n, req1, drop (Suc ?n) os1), map (NextInterval b) [Suc i..<Suc i + ?n])"
      by (auto simp: Let_def)
    have "retry_loop b (\<lambda>_. False) scripted (Suc (Suc fuel)) i req os =
        (let (res, waits) = retry_loop b (\<lambda>_. False) scripted (Suc fuel) (Suc i) ?req os1
         in (res, NextInterval b i # waits))"
      using False Suc.prems(1) unfolding os o1
      by (intro retry_loop_again) simp_all
    also have "\<dots> = ((os1 ! ?n, req1, drop (Suc ?n) os1), map (NextInterval b) [i..<i + Suc ?n])"
      unfolding ih by (simp add: upt_conv_Cons del: upt_Suc)
    finally show ?thesis using False by (auto simp: os Let_def)
  qed
qed

lemma Retry_Process_none: "rq_RetryCount req \<le> 0 \<Longrightarrow> maxRetries < 0 \<Longrightarrow>
    Retry_Process maxRetries b done next req w = ((Ret None None, req, w), [])"
  by (simp add: Retry_Process_def Let_def)

text \<open>
  C7: The retry middleware, on a server that answers with the outcomes \<open>os\<close> in turn, calls it once
  and then again at most \<open>retries\<close> times (the request's count when positive, else the configured
  one): it stops at the first outcome that settles (no error and a status below 500), returns
  that one or else the last one tried, consumes exactly the outcomes tried and waits the backoff
  intervals 0, 1, ... between them.
\<close>
theorem Retry_Process_spec:
  assumes "rq_RetryCondition req = None"
    and "retries = nat (if rq_RetryCount req > 0 then rq_RetryCount req else maxRetries)"
    and "0 \<le> maxRetries" and "retries < length os"
  shows "\<exists>req1. Retry_Process maxRetries b (\<lambda>_. False) scripted req os =
    (let n = length (takeWhile (\<lambda>o1. \<not> settles o1) (take retries os))
     in ((os ! n, req1, drop (Suc n) os), map (NextInterval b) [0..<n]))"
proof -
  have "nat ((if rq_RetryCount req > 0 then rq_RetryCount req else maxRetries) + 1) = Suc retries"
    using assms(2,3) by auto
  then show ?thesis
    using retry_loop_scripted [OF assms(1,4), of b 0] by (simp add: Retry_Process_def Let_def)
qed

theorem Retry_Process_spec_witness:
  "\<exists>req1. Retry_Process 3 NewExponentialBackoff (\<lambda>_. False) scripted zero_request
      [Ret None (Some ''reset''), Ret (Some (status_response 503)) None,
       Ret (Some (status_response 200)) None, Panic, Panic] =
    ((Ret (Some (status_response 200)) None, req1, [Panic, Panic]),
     [NextInterval NewExponentialBackoff 0, NextInterval NewExponentialBackoff 1])"
  using Retry_Process_spec [of zero_request 3 3 "[Ret None (Some ''reset''),
      Ret (Some (status_response 503)) None, Ret (Some (status_response 200)) None, Panic, Panic]"
      NewExponentialBackoff]
  by (simp add: zero_request_def settles_def upt_rec numeral_2_eq_2 numeral_3_eq_3)

section \<open>Backoff\<close>

lemma NextInterval_upto_33:
  "list_all (\<lambda>r. NextInterval NewExponentialBackoff r = min (2 ^ r * second) (30 * second)) [0..<34]"
  by code_simp

lemma NextInterval_34: "NextInterval NewExponentialBackoff 34 < 0"
  by code_simp

lemma NextInterval_from_55:
  assumes "55 \<le> r"
  shows "NextInterval NewExponentialBackoff r = 0"
proof -
  have "(word_of_int (1 * second) :: 64 word) * push_bit r 1 = word_of_int (second * 2 ^ r)"
    by (simp add: push_bit_eq_mult)
  also have "second * 2 ^ r = (2 :: int) ^ 64 * (5 ^ 9 * 2 ^ (r - 55))"
  proof -
    obtain k where "r = 55 + k" using assms le_Suc_ex by blast
    then show ?thesis by (simp add: power_add)
  qed
  also have "(word_of_int ((2 :: int) ^ 64 * (5 ^ 9 * 2 ^ (r - 55))) :: 64 word) = 0"
    unfolding word_of_int_eq_0_iff by simp
  finally show ?thesis
    by (simp add: NextInterval_def NewExponentialBackoff_def)
qed

text \<open>
  The default backoff doubles from one second and is capped at 30 seconds for the retries 0 to
  33.  The product wraps after that: retry 34 gets a negative wait and every retry from 55 on no
  wait at all.
\<close>
theorem NextInterval_range:
  "(\<forall>r < 34. NextInterval NewExponentialBackoff r = min (2 ^ r * second) (30 * second)) \<and>
   NextInterval NewExponentialBackoff 34 < 0 \<and>
   (\<forall>r \<ge> 55. NextInterval NewExponentialBackoff r = 0)"
  using NextInterval_upto_33 NextInterval_34 NextInterval_from_55
  by (simp add: list_all_iff)

theorem NextInterval_range_witness:
  "NextInterval NewExponentialBackoff 3 = 8 * second \<and> NextInterval NewExponentialBackoff 60 = 0"
  using NextInterval_range by (auto simp: min_def)


section \<open>The memory cache keeps the store contract\<close>

interpretation mc_store: ttl_store mc_Get mc_Set mc_Delete mc_cleanup NewMemoryCache
proof
  fix now now' :: gotime and ttl :: duration and k k' :: string and v :: 'v
    and s :: "'v memory_cache"
  show "mc_Get now k NewMemoryCache = (None :: 'v option)"
    by (simp add: mc_Get_def NewMemoryCache_def)
  show "mc_Get now' k (mc_Set now ttl k v s) = (if now' > now + ttl then None else Some v)"
    by (simp add: mc_Get_def mc_Set_def)
  show "k \<noteq> k' \<Longrightarrow> mc_Get now' k (mc_Set now ttl k' v s) = mc_Get now' k s"
    by (simp add: mc_Get_def mc_Set_def)
  show "mc_Get now k (mc_Delete k s) = None"
    by (simp add: mc_Get_def mc_Delete_def)
  show "k \<noteq> k' \<Longrightarrow> mc_Get now k (mc_Delete k' s) = mc_Get now k s"
    by (simp add: mc_Get_def mc_Delete_def)
  show "now \<le> now' \<Longrightarrow> mc_Get now' k (mc_cleanup now s) = mc_Get now' k s"
    by (cases "s k") (auto simp: mc_Get_def mc_cleanup_def map_filter_vals_def)
qed

text \<open>
  After any history of sets with a positive lifetime, deletes and cleanup ticks, a lookup in the
  memory cache gives the last value written and not deleted, until its expiry; when the cleanup
  goroutine ran makes no difference.
\<close>
theorem memory_cache_refines:
  assumes "\<forall>op \<in> set ops. op_ok T op"
  shows "mc_Get T k (fold (store_ap mc_Set mc_Delete mc_cleanup) ops NewMemoryCache) =
    alive_at T (last_write k ops)"
  using assms by (rule mc_store.get_run_empty)

theorem memory_cache_refines_witness:
  "mc_Get 7 ''k'' (fold (store_ap mc_Set mc_Delete mc_cleanup)
      [Put 0 3 ''k'' True, Put 2 5 ''k'' False, Sweep 6, Del ''j''] NewMemoryCache) = Some False"
  using memory_cache_refines [of "[Put 0 3 ''k'' True, Put 2 5 ''k'' False, Sweep 6, Del ''j'']" 7 "''k''"]
  by (simp add: alive_at_def)

section \<open>The cache middleware\<close>

lemma Cache_Process_bypass:
  "rq_Method req \<noteq> ''GET'' \<Longrightarrow> rq_Method req \<noteq> '''' \<Longrightarrow>
   Cache_Process md5 ks now now' next req (c, w) =
     (case next req w of (r, req1, w1) \<Rightarrow> (r, req1, (c, w1)))"
  by (simp add: Cache_Process_def split: prod.splits)

lemma Cache_Process_miss:
  assumes "rq_Method req = ''GET'' \<or> rq_Method req = ''''"
    and "mc_Get now (generateCacheKey md5 ks req) c = None"
    and "next req w = (Ret (Some resp) None, req1, w1)"
  shows "Cache_Process md5 ks now now' next req (c, w) =
    (Ret (Some resp) None, req1,
     (if 200 \<le> rs_StatusCode resp \<and> rs_StatusCode resp < 300
      then mc_Set now' (5 * minute) (generateCacheKey md5 ks req) resp c else c, w1))"
  using assms by (auto simp: Cache_Process_def Let_def)

lemma Cache_Process_hit:
  assumes "rq_Method req = ''GET'' \<or> rq_Method req = ''''"
    and "mc_Get now (generateCacheKey md5 ks req) c = Some resp"
  shows "\<exists>c1. Cache_Process md5 ks now now' next req (c, w) =
    (Ret (Some (resp\<lparr>rs_Metadata := set_in_map ''cached'' (GBool True) (rs_Metadata resp)\<rparr>)) None,
     req, (c1, w))"
  using assms by (auto simp: Cache_Process_def Let_def)

text \<open>
  A GET that misses and is answered with a 2xx status is served from the cache afterwards: a later
  request with the same key, up to five minutes after the store, gets the same response marked
  \<open>cached\<close> and the wrapped handler is not run.  Any other status and any error leave the cache as it
  was.
\<close>
theorem cache_serves:
  assumes "rq_Method req = ''GET''" and "rq_Method req2 = ''GET''"
    and "mc_Get now (generateCacheKey md5 ks req) c = None"
    and "generateCacheKey md5 ks2 req2 = generateCacheKey md5 ks req"
    and "next req w = (Ret (Some resp) err, req1, w1)"
    and "now2 \<le> now' + 5 * minute"
  shows "\<exists>c1. Cache_Process md5 ks now now' next req (c, w) =
      (Ret (Some resp) err, req1, (c1, w1)) \<and>
    (if err = None \<and> 200 \<le> rs_StatusCode resp \<and> rs_StatusCode resp < 300
     then \<forall>next2 w2 now2'. \<exists>c2. Cache_Process md5 ks2 now2 now2' next2 req2 (c1, w2) =
       (Ret (Some (resp\<lparr>rs_Metadata := set_in_map ''cached'' (GBool True) (rs_Metadata resp)\<rparr>)) None,
        req2, (c2, w2))
     else c1 = c)"
proof (cases "err = None \<and> 200 \<le> rs_StatusCode resp \<and> rs_StatusCode resp < 300")
  case True
  let ?c1 = "mc_Set now' (5 * minute) (generateCacheKey md5 ks req) resp c"
  have "Cache_Process md5 ks now now' next req (c, w) = (Ret (Some resp) err, req1, (?c1, w1))"
    using True assms(1,3,5) by (simp add: Cache_Process_miss)
  moreover have "mc_Get now2 (generateCacheKey md5 ks2 req2) ?c1 = Some resp"
    using assms(4,6) by (simp add: mc_store.get_put)
  ultimately show ?thesis
    using True by (intro exI [of _ ?c1]) (simp add: Cache_Process_hit assms(2))
next
  case False
  have "Cache_Process md5 ks now now' next req (c, w) = (Ret (Some resp) err, req1, (c, w1))"
    using False assms(1,3,5) by (cases err) (auto simp: Cache_Process_def Let_def)
  with False show ?thesis by auto
qed

theorem cache_serves_witness:
  "\<exists>c1 c2. Cache_Process id [] 0 5 (\<lambda>req w. (Ret (Some (status_response 204)) None, req, w + 1))
        (zero_request\<lparr>rq_Method := ''GET''\<rparr>) (NewMemoryCache, 0 :: int) =
      (Ret (Some (status_response 204)) None, zero_request\<lparr>rq_Method := ''GET''\<rparr>, (c1, 1)) \<and>
    Cache_Process id [] 100 105 (\<lambda>req w. (Panic, req, w)) (zero_request\<lparr>rq_Method := ''GET''\<rparr>) (c1, 1 :: int) =
      (Ret (Some ((status_response 204)\<lparr>rs_Metadata := Some [''cached'' \<mapsto> GBool True]\<rparr>)) None,
       zero_request\<lparr>rq_Method := ''GET''\<rparr>, (c2, 1))"
proof -
  let ?r = "zero_request\<lparr>rq_Method := ''GET''\<rparr>"
  let ?n = "\<lambda>req w. (Ret (Some (status_response 204)) None, req, w + (1 :: int))"
  have "rs_Metadata (status_response 204) = None" by (simp add: status_response_def zero_response_def)
  then show ?thesis
    using cache_serves [of ?r ?r 0 id "[]" NewMemoryCache "[]" ?n 0 "status_response 204" None ?r 1 100 5]
    by (fastforce simp: mc_store.get_empty set_in_map_def)
qed

text \<open>
  The cache key depends on the order in which Go happens to visit the header map: one request
  with two headers gets different keys under two orders, so a repeated request can miss.  And the
  key concatenates without separators: two requests that differ in their headers share a key
  whatever the hash is.
\<close>
theorem cache_key_flaws:
  assumes "inj md5"
  shows "(\<exists>req h ks ks'. rq_Headers req = Some h \<and> enumerates ks h \<and> enumerates ks' h \<and>
      generateCacheKey md5 ks req \<noteq> generateCacheKey md5 ks' req) \<and>
    (\<exists>req req' h h' ks ks'. rq_Headers req = Some h \<and> rq_Headers req' = Some h' \<and> h \<noteq> h' \<and>
      enumerates ks h \<and> enumerates ks' h' \<and>
      generateCacheKey md5 ks req = generateCacheKey md5 ks' req')"
proof
  let ?h = "[''A'' \<mapsto> ''1'', ''B'' \<mapsto> ''2''] :: string \<rightharpoonup> string"
  let ?req = "zero_request\<lparr>rq_Headers := Some ?h\<rparr>"
  have "enumerates [''A'', ''B''] ?h" "enumerates [''B'', ''A''] ?h"
    by (auto simp: enumerates_def)
  moreover have "generateCacheKey md5 [''A'', ''B''] ?req \<noteq> generateCacheKey md5 [''B'', ''A''] ?req"
    by (simp add: generateCacheKey_def inj_eq [OF assms])
  ultimately show "\<exists>req h ks ks'. rq_Headers req = Some h \<and> enumerates ks h \<and> enumerates ks' h \<and>
      generateCacheKey md5 ks req \<noteq> generateCacheKey md5 ks' req"
    by (intro exI [of _ ?req] exI [of _ ?h] exI [of _ "[''A'', ''B'']"] exI [of _ "[''B'', ''A'']"]) simp
next
  let ?h = "[''A'' \<mapsto> ''BC''] :: string \<rightharpoonup> string" and ?h' = "[''AB'' \<mapsto> ''C''] :: string \<rightharpoonup> string"
  let ?req = "zero_request\<lparr>rq_Headers := Some ?h\<rparr>"
  let ?req' = "zero_request\<lparr>rq_Headers := Some ?h'\<rparr>"
  have "enumerates [''A''] ?h" "enumerates [''AB''] ?h'"
    by (auto simp: enumerates_def)
  moreover have "?h \<noteq> ?h'" by (auto dest: fun_cong [of _ _ "''A''"])
  moreover have "generateCacheKey md5 [''A''] ?req = generateCacheKey md5 [''AB''] ?req'"
    by (simp add: generateCacheKey_def zero_request_def)
  ultimately show "\<exists>req req' h h' ks ks'. rq_Headers req = Some h \<and> rq_Headers req' = Some h' \<and> h \<noteq> h' \<and>
      enumerates ks h \<and> enumerates ks' h' \<and> generateCacheKey md5 ks req = generateCacheKey md5 ks' req'"
    by (intro exI [of _ ?req] exI [of _ ?req'] exI [of _ ?h] exI [of _ ?h'] exI [of _ "[''A'']"]
        exI [of _ "[''AB'']"]) simp
qed

theorem cache_key_flaws_witness:
  "\<exists>req h ks ks'. rq_Headers req = Some h \<and> enumerates ks h \<and> enumerates ks' h \<and>
      generateCacheKey (\<lambda>s. s) ks req \<noteq> generateCacheKey (\<lambda>s. s) ks' req"
  using cache_key_flaws [of "\<lambda>s. s"] by simp

section \<open>The throttle\<close>

datatype th_event = Enter | Leave

fun th_step :: "th_event \<Rightarrow> throttle \<Rightarrow> throttle" where
  "th_step Enter t = (case th_enter t of None \<Rightarrow> t | Some t1 \<Rightarrow> t1)"
| "th_step Leave t = th_leave t"

interpretation th_runs: step_system th_step "\<lambda>t. th_inflight t \<le> th_max t"
  by unfold_locales (case_tac e; auto simp: th_enter_def th_leave_def)

end
