(* ===== verification/FetchPool.thy ===== *)
theory FetchPool
  imports CrawlTask
begin

text \<open>
  The proxy pool and the user agent pool of the fetcher (src/crawler/fetcher/pool.go).  Random draws
  are arguments: \<open>r\<close> is the value \<open>rand.Intn\<close> returns.  The weighted proxy choice compares floats, so
  the index it ends on is an argument too.  Counters are int32 words, as in the code.
\<close>

datatype 'a picked = Picked 'a | Nothing | Panics

section \<open>Proxies\<close>

datatype proxy_strategy =
    ProxyStrategyRoundRobin
  | ProxyStrategyRandom
  | ProxyStrategyLeastUsed
  | ProxyStrategyBestLatency
  | ProxyStrategyWeighted

record proxy =
  px_URL :: string
  px_Type :: string
  px_Username :: string
  px_Password :: string
  px_SuccessCount :: int
  px_FailureCount :: int
  px_LastUsed :: gotime
  px_LastChecked :: gotime
  px_Alive :: bool
  px_Latency :: duration
  px_Country :: string
  px_City :: string
  px_Provider :: string
  px_Tags :: "string list"
  px_Metadata :: "(string \<rightharpoonup> goval) option"

record proxy_pool =
  pp_proxies :: "proxy list"
  pp_strategy :: proxy_strategy
  pp_current :: "32 word"
  pp_checkInterval :: duration

text \<open>An empty strategy and a zero interval get defaults.\<close>

definition NewProxyPool :: "proxy list \<Rightarrow> proxy_strategy option \<Rightarrow> duration \<Rightarrow> proxy_pool" where
  "NewProxyPool proxies strategy checkInterval =
     \<lparr>pp_proxies = proxies,
      pp_strategy = (case strategy of None \<Rightarrow> ProxyStrategyRoundRobin | Some s \<Rightarrow> s),
      pp_current = 0,
      pp_checkInterval = (if checkInterval = 0 then 5 * minute else checkInterval)\<rparr>"

definition pp_Add :: "proxy \<Rightarrow> proxy_pool \<Rightarrow> proxy_pool" where
  "pp_Add proxy p = p\<lparr>pp_proxies := pp_proxies p @ [proxy]\<rparr>"

definition pp_Remove :: "string \<Rightarrow> proxy_pool \<Rightarrow> proxy_pool" where
  "pp_Remove url p = p\<lparr>pp_proxies := remove_first (\<lambda>proxy. px_URL proxy = url) (pp_proxies p)\<rparr>"

text \<open>The alive proxies, each with its position in the pool.\<close>

definition getAliveProxies :: "proxy_pool \<Rightarrow> (nat \<times> proxy) list" where
  "getAliveProxies p = filter (\<lambda>(i, proxy). px_Alive proxy)
     (zip [0..<length (pp_proxies p)] (pp_proxies p))"

text \<open>
  The counter is advanced atomically; Go's remainder has the sign of the dividend, and a negative
  index panics.
\<close>

definition selectRoundRobin :: "'a list \<Rightarrow> 32 word \<Rightarrow> 'a picked \<times> 32 word" where
  "selectRoundRobin proxies current =
     (if proxies = [] then (Nothing, current)
      else
        let index = current + 1;
            i = sint index smod int (length proxies)
        in (if i < 0 then Panics else Picked (proxies ! nat i), index))"

definition selectRandom :: "nat \<Rightarrow> 'a list \<Rightarrow> 'a picked" where
  "selectRandom r proxies =
     (if proxies = [] then Nothing else if r < length proxies then Picked (proxies ! r) else Panics)"

definition usage :: "proxy \<Rightarrow> int" where
  "usage proxy = px_SuccessCount proxy + px_FailureCount proxy"

definition selectLeastUsed :: "(nat \<times> proxy) list \<Rightarrow> (nat \<times> proxy) picked" where
  "selectLeastUsed proxies = (case proxies of [] \<Rightarrow> Nothing
     | x # xs \<Rightarrow> Picked (scan_best (\<lambda>(_, a) (_, b). usage a < usage b) x xs))"

definition selectBestLatency :: "(nat \<times> proxy) list \<Rightarrow> (nat \<times> proxy) picked" where
  "selectBestLatency proxies = (case proxies of [] \<Rightarrow> Nothing
     | x # xs \<Rightarrow> Picked (scan_best
         (\<lambda>(_, a) (_, b). px_Latency a < px_Latency b \<and> px_Latency a > 0) x xs))"

text \<open>\<open>r\<close> is the random draw, or the index on which the weighted scan of floats ends.\<close>

definition pp_select :: "nat \<Rightarrow> proxy_pool \<Rightarrow> (nat \<times> proxy) picked \<times> 32 word" where
  "pp_select r p =
     (let alive = getAliveProxies p in
      case pp_strategy p of
        ProxyStrategyRandom \<Rightarrow> (selectRandom r alive, pp_current p)
      | ProxyStrategyLeastUsed \<Rightarrow> (selectLeastUsed alive, pp_current p)
      | ProxyStrategyBestLatency \<Rightarrow> (selectBestLatency alive, pp_current p)
      | ProxyStrategyWeighted \<Rightarrow> (selectRandom r alive, pp_current p)
      | ProxyStrategyRoundRobin \<Rightarrow> selectRoundRobin alive (pp_current p))"

definition pp_Get :: "nat \<Rightarrow> gotime \<Rightarrow> proxy_pool \<Rightarrow> proxy picked \<times> proxy_pool" where
  "pp_Get r now p =
     (if getAliveProxies p = [] then (Nothing, p)
      else case pp_select r p of
        (Picked (i, proxy), current) \<Rightarrow>
          (let proxy1 = proxy\<lparr>px_LastUsed := now\<rparr>
           in (Picked proxy1, p\<lparr>pp_proxies := (pp_proxies p)[i := proxy1], pp_current := current\<rparr>))
      | (Nothing, current) \<Rightarrow> (Nothing, p\<lparr>pp_current := current\<rparr>)
      | (Panics, current) \<Rightarrow> (Panics, p\<lparr>pp_current := current\<rparr>))"

definition pp_GetByTag :: "string \<Rightarrow> proxy_pool \<Rightarrow> proxy list" where
  "pp_GetByTag tag p = filter (\<lambda>proxy. tag \<in> set (px_Tags proxy)) (pp_proxies p)"

definition pp_GetByCountry :: "string \<Rightarrow> proxy_pool \<Rightarrow> proxy list" where
  "pp_GetByCountry country p = filter (\<lambda>proxy. px_Country proxy = country) (pp_proxies p)"

definition pp_MarkSuccess :: "string \<Rightarrow> proxy_pool \<Rightarrow> proxy_pool" where
  "pp_MarkSuccess url p = p\<lparr>pp_proxies := update_first (\<lambda>proxy. px_URL proxy = url)
     (\<lambda>proxy. proxy\<lparr>px_SuccessCount := px_SuccessCount proxy + 1\<rparr>) (pp_proxies p)\<rparr>"

definition record_failure :: "proxy \<Rightarrow> proxy" where
  "record_failure proxy =
     (let p1 = proxy\<lparr>px_FailureCount := px_FailureCount proxy + 1\<rparr>
      in if px_FailureCount p1 > 10 \<and> px_SuccessCount p1 < px_FailureCount p1 sdiv 2
         then p1\<lparr>px_Alive := False\<rparr> else p1)"

definition pp_MarkFailure :: "string \<Rightarrow> proxy_pool \<Rightarrow> proxy_pool" where
  "pp_MarkFailure url p = p\<lparr>pp_proxies :=
     update_first (\<lambda>proxy. px_URL proxy = url) record_failure (pp_proxies p)\<rparr>"

definition pp_Size :: "proxy_pool \<Rightarrow> nat" where
  "pp_Size p = length (pp_proxies p)"

definition pp_AliveCount :: "proxy_pool \<Rightarrow> nat" where
  "pp_AliveCount p = length (filter px_Alive (pp_proxies p))"

record proxy_stats =
  ps_total :: nat
  ps_alive :: nat
  ps_dead :: int
  ps_success :: int
  ps_failure :: int

text \<open>The success rate is a float and is left out.\<close>

definition pp_Stats :: "proxy_pool \<Rightarrow> proxy_stats" where
  "pp_Stats p =
     (let total = length (pp_proxies p); alive = length (filter px_Alive (pp_proxies p))
      in \<lparr>ps_total = total, ps_alive = alive, ps_dead = int total - int alive,
          ps_success = sum_list (map px_SuccessCount (pp_proxies p)),
          ps_failure = sum_list (map px_FailureCount (pp_proxies p))\<rparr>)"

text \<open>
  One health check of every proxy: \<open>check proxy\<close> gives the checker's verdict (an interface), the
  time it took and the time it ended.
\<close>

definition pp_checkAll :: "(proxy \<Rightarrow> bool \<times> duration \<times> gotime) \<Rightarrow> proxy_pool \<Rightarrow> proxy_pool" where
  "pp_checkAll check p = p\<lparr>pp_proxies := map (\<lambda>proxy. case check proxy of (ok, latency, now) \<Rightarrow>
     proxy\<lparr>px_LastChecked := now, px_Latency := latency, px_Alive := ok\<rparr>) (pp_proxies p)\<rparr>"

section \<open>User agents\<close>

datatype ua_strategy = UserAgentStrategyRoundRobin | UserAgentStrategyRandom | UserAgentStrategyWeighted

record ua_pool =
  ua_userAgents :: "string list"
  ua_weights :: "int list"
  ua_current :: "32 word"
  ua_strategy :: ua_strategy

definition DefaultUserAgents :: "string list" where
  "DefaultUserAgents = [
    ''Mozilla/5.0 (Windows NT 10.0; Win64; x64) AppleWebKit/537.36 (KHTML, like Gecko) Chrome/120.0.0.0 Safari/537.36'',
    ''Mozilla/5.0 (Windows NT 10.0; Win64; x64) AppleWebKit/537.36 (KHTML, like Gecko) Chrome/119.0.0.0 Safari/537.36'',
    ''Mozilla/5.0 (Macintosh; Intel Mac OS X 10_15_7) AppleWebKit/537.36 (KHTML, like Gecko) Chrome/120.0.0.0 Safari/537.36'',
    ''Mozilla/5.0 (Macintosh; Intel Mac OS X 10_15_7) AppleWebKit/537.36 (KHTML, like Gecko) Chrome/119.0.0.0 Safari/537.36'',
    ''Mozilla/5.0 (Windows NT 10.0; Win64; x64; rv:120.0) Gecko/20100101 Firefox/120.0'',
    ''Mozilla/5.0 (Windows NT 10.0; Win64; x64; rv:119.0) Gecko/20100101 Firefox/119.0'',
    ''Mozilla/5.0 (Macintosh; Intel Mac OS X 10.15) Gecko/20100101 Firefox/120.0'',
    ''Mozilla/5.0 (Macintosh; Intel Mac OS X 10.15) Gecko/20100101 Firefox/119.0'',
    ''Mozilla/5.0 (Macintosh; Intel Mac OS X 10_15_7) AppleWebKit/605.1.15 (KHTML, like Gecko) Version/17.1 Safari/605.1.15'',
    ''Mozilla/5.0 (Macintosh; Intel Mac OS X 10_15_7) AppleWebKit/605.1.15 (KHTML, like Gecko) Version/16.6 Safari/605.1.15'',
    ''Mozilla/5.0 (Windows NT 10.0; Win64; x64) AppleWebKit/537.36 (KHTML, like Gecko) Chrome/120.0.0.0 Safari/537.36 Edg/120.0.0.0'',
    ''Mozilla/5.0 (Windows NT 10.0; Win64; x64) AppleWebKit/537.36 (KHTML, like Gecko) Chrome/119.0.0.0 Safari/537.36 Edg/119.0.0.0'',
    ''Mozilla/5.0 (Linux; Android 13; SM-G991B) AppleWebKit/537.36 (KHTML, like Gecko) Chrome/120.0.0.0 Mobile Safari/537.36'',
    ''Mozilla/5.0 (Linux; Android 13; Pixel 7) AppleWebKit/537.36 (KHTML, like Gecko) Chrome/120.0.0.0 Mobile Safari/537.36'',
    ''Mozilla/5.0 (iPhone; CPU iPhone OS 17_1 like Mac OS X) AppleWebKit/605.1.15 (KHTML, like Gecko) Version/17.1 Mobile/15E148 Safari/604.1'',
    ''Mozilla/5.0 (iPhone; CPU iPhone OS 16_6 like Mac OS X) AppleWebKit/605.1.15 (KHTML, like Gecko) Version/16.6 Mobile/15E148 Safari/604.1'',
    ''Mozilla/5.0 (iPad; CPU OS 17_1 like Mac OS X) AppleWebKit/605.1.15 (KHTML, like Gecko) Version/17.1 Mobile/15E148 Safari/604.1'',
    ''Mozilla/5.0 (iPad; CPU OS 16_6 like Mac OS X) AppleWebKit/605.1.15 (KHTML, like Gecko) Version/16.6 Mobile/15E148 Safari/604.1'']"

definition NewUserAgentPool :: "string list \<Rightarrow> int list \<Rightarrow> ua_strategy option \<Rightarrow>
    ua_pool" where
  "NewUserAgentPool userAgents weights strategy =
     \<lparr>ua_userAgents = (if userAgents = [] then DefaultUserAgents else userAgents), ua_weights = weights,
      ua_current = 0,
      ua_strategy = (case strategy of None \<Rightarrow> UserAgentStrategyRandom | Some s \<Rightarrow> s)\<rparr>"

definition ua_Add :: "string \<Rightarrow> int \<Rightarrow> ua_pool \<Rightarrow> ua_pool" where
  "ua_Add userAgent weight p =
     (let p1 = p\<lparr>ua_userAgents := ua_userAgents p @ [userAgent]\<rparr>
      in if weight > 0 then p1\<lparr>ua_weights := ua_weights p1 @ [weight]\<rparr> else p1)"

fun index_of :: "'a \<Rightarrow> 'a list \<Rightarrow> nat option" where
  "index_of x [] = None"
| "index_of x (y # ys) = (if y = x then Some 0 else map_option Suc (index_of x ys))"

definition ua_Remove :: "string \<Rightarrow> ua_pool \<Rightarrow> ua_pool" where
  "ua_Remove userAgent p =
     (case index_of userAgent (ua_userAgents p) of
        None \<Rightarrow> p
      | Some i \<Rightarrow>
          (let p1 = p\<lparr>ua_userAgents := take i (ua_userAgents p) @ drop (i + 1) (ua_userAgents p)\<rparr>
           in if length (ua_weights p1) > i
              then p1\<lparr>ua_weights := take i (ua_weights p1) @ drop (i + 1) (ua_weights p1)\<rparr>
              else p1))"

text \<open>The weighted walk: the first position whose cumulative weight exceeds the draw.\<close>

fun weighted_walk :: "int \<Rightarrow> int \<Rightarrow> int list \<Rightarrow> string list \<Rightarrow> string option" where
  "weighted_walk r cumulative (weight # ws) (ua # uas) =
     (if r < cumulative + weight then Some ua else weighted_walk r (cumulative + weight) ws uas)"
| "weighted_walk r cumulative _ _ = None"

text \<open>
  \<open>rand.Intn\<close> panics on a bound that is not positive; \<open>rnd n\<close> is the value it returns for the
  bound \<open>n\<close>.
\<close>

definition getWeighted :: "(int \<Rightarrow> int) \<Rightarrow> ua_pool \<Rightarrow> string picked" where
  "getWeighted rnd p =
     (if length (ua_weights p) \<noteq> length (ua_userAgents p)
      then selectRandom (nat (rnd (int (length (ua_userAgents p))))) (ua_userAgents p)
      else
        let totalWeight = sum_list (ua_weights p) in
        if totalWeight \<le> 0 then Panics
        else case weighted_walk (rnd totalWeight) 0 (ua_weights p) (ua_userAgents p) of
               Some ua \<Rightarrow> Picked ua
             | None \<Rightarrow> Picked (last (ua_userAgents p)))"

text \<open>An empty pool gives the empty string, \<open>Picked ''''\<close>.\<close>

definition ua_Get :: "(int \<Rightarrow> int) \<Rightarrow> ua_pool \<Rightarrow> string picked \<times> ua_pool" where
  "ua_Get rnd p =
     (if ua_userAgents p = [] then (Picked '''', p)
      else case ua_strategy p of
        UserAgentStrategyRoundRobin \<Rightarrow>
          (let (ua, current) = selectRoundRobin (ua_userAgents p) (ua_current p)
           in (ua, p\<lparr>ua_current := current\<rparr>))
      | UserAgentStrategyWeighted \<Rightarrow> (getWeighted rnd p, p)
      | UserAgentStrategyRandom \<Rightarrow>
          (selectRandom (nat (rnd (int (length (ua_userAgents p))))) (ua_userAgents p), p))"

fun contains :: "string \<Rightarrow> string \<Rightarrow> bool" where
  "contains s substr = (length s \<ge> length substr \<and> (s = substr \<or> substr = [] \<or>
     (length s > 0 \<and> length substr > 0 \<and> take (length substr) s = substr) \<or>
     (case s of [] \<Rightarrow> False | _ # s' \<Rightarrow> contains s' substr)))"

declare contains.simps [simp del]

definition mobileKeywords :: "string list" where
  "mobileKeywords = [''Mobile'', ''Android'', ''iPhone'', ''iPad'', ''Windows Phone'']"

definition isMobileUserAgent :: "string \<Rightarrow> bool" where
  "isMobileUserAgent ua = list_ex (contains ua) mobileKeywords"

definition GetDesktop :: "(int \<Rightarrow> int) \<Rightarrow> ua_pool \<Rightarrow> string" where
  "GetDesktop rnd p =
     (let desktop = filter (\<lambda>ua. \<not> isMobileUserAgent ua) (ua_userAgents p)
      in if desktop = [] then '''' else desktop ! nat (rnd (int (length desktop))))"

definition GetMobile :: "(int \<Rightarrow> int) \<Rightarrow> ua_pool \<Rightarrow> string" where
  "GetMobile rnd p =
     (let mobile = filter isMobileUserAgent (ua_userAgents p)
      in if mobile = [] then '''' else mobile ! nat (rnd (int (length mobile))))"

definition ua_Size :: "ua_pool \<Rightarrow> nat" where
  "ua_Size p = length (ua_userAgents p)"


section \<open>Selection\<close>

lemma getAliveProxies_mem:
  "(i, proxy) \<in> set (getAliveProxies p) \<longleftrightarrow>
     i < length (pp_proxies p) \<and> pp_proxies p ! i = proxy \<and> px_Alive proxy"
  by (auto simp: getAliveProxies_def set_zip intro!: exI [of _ i])

lemma length_getAliveProxies: "length (getAliveProxies p) = pp_AliveCount p"
proof -
  have "length (filter (\<lambda>(i, proxy). px_Alive proxy) (zip ks xs)) = length (filter px_Alive xs)"
    if "length ks = length xs" for ks :: "nat list" and xs :: "proxy list"
    using that by (induction ks xs rule: list_induct2) auto
  then show ?thesis by (simp add: getAliveProxies_def pp_AliveCount_def)
qed

interpretation least_used: strict_order_scan "\<lambda>(_ :: nat, a) (_ :: nat, b). usage a < usage b"
  by unfold_locales auto

interpretation best_latency: strict_order_scan
  "\<lambda>(_ :: nat, a) (_ :: nat, b). px_Latency a < px_Latency b \<and> px_Latency a > 0"
  by unfold_locales auto

lemma selectRoundRobin_mem:
  "selectRoundRobin xs c = (Picked x, c') \<Longrightarrow> x \<in> set xs"
  using smod_int_range [of "int (length xs)" "sint (c + 1)"]
  by (auto simp: selectRoundRobin_def Let_def split: if_splits intro!: nth_mem)

lemma selectRandom_mem: "selectRandom r xs = Picked x \<Longrightarrow> x \<in> set xs"
  by (auto simp: selectRandom_def split: if_splits)

lemma selectLeastUsed_mem: "selectLeastUsed xs = Picked x \<Longrightarrow> x \<in> set xs"
  using scan_best_mem [of _ "hd xs" "tl xs"] by (cases xs) (auto simp: selectLeastUsed_def)

lemma selectBestLatency_mem: "selectBestLatency xs = Picked x \<Longrightarrow> x \<in> set xs"
  using scan_best_mem [of _ "hd xs" "tl xs"] by (cases xs) (auto simp: selectBestLatency_def)

lemmas select_mem = selectRoundRobin_mem selectRandom_mem selectLeastUsed_mem selectBestLatency_mem

lemma pp_select_mem: "pp_select r p = (Picked x, c) \<Longrightarrow> x \<in> set (getAliveProxies p)"
  by (auto simp: pp_select_def Let_def split: proxy_strategy.splits dest: select_mem)

lemma selectLeastUsed_least:
  "selectLeastUsed xs = Picked (i, x) \<Longrightarrow> (j, y) \<in> set xs \<Longrightarrow> usage x \<le> usage y"
  using least_used.scan_best_unbeaten [of "(j, y)" "hd xs" "tl xs"]
  by (cases xs) (auto simp: selectLeastUsed_def not_less)

lemma selectBestLatency_best:
  "selectBestLatency xs = Picked (i, x) \<Longrightarrow> (j, y) \<in> set xs \<Longrightarrow> 0 < px_Latency y \<Longrightarrow>
   px_Latency x \<le> px_Latency y"
  using best_latency.scan_best_unbeaten [of "(j, y)" "hd xs" "tl xs"]
  by (cases xs) (auto simp: selectBestLatency_def)

text \<open>
  Whatever the strategy and the draw, \<open>Get\<close> returns a proxy of the pool that is alive, stamped
  with the time, and changes nothing but that stamp; it returns nil exactly when no proxy is alive.
  With the least-used strategy no alive proxy has been used less, and with the best-latency strategy
  no alive proxy has a smaller positive latency.
\<close>
theorem pp_Get_correct:
  assumes "pp_Get r now p = (res, p1)"
  shows "(res = Nothing \<longleftrightarrow> pp_AliveCount p = 0) \<and>
    (\<forall>x. res = Picked x \<longrightarrow> (\<exists>i < length (pp_proxies p). px_Alive (pp_proxies p ! i) \<and>
       x = (pp_proxies p ! i)\<lparr>px_LastUsed := now\<rparr> \<and> pp_proxies p1 = (pp_proxies p)[i := x])) \<and>
    (\<forall>x y. res = Picked x \<and> y \<in> set (pp_proxies p) \<and> px_Alive y \<longrightarrow>
       (pp_strategy p = ProxyStrategyLeastUsed \<longrightarrow> usage x \<le> usage y) \<and>
       (pp_strategy p = ProxyStrategyBestLatency \<and> 0 < px_Latency y \<longrightarrow> px_Latency x \<le> px_Latency y))"
proof (cases "getAliveProxies p = []")
  case True
  then have "pp_AliveCount p = 0" using length_getAliveProxies [of p] by simp
  with True assms show ?thesis by (auto simp: pp_Get_def)
next
  case False
  then have some: "pp_AliveCount p \<noteq> 0" using length_getAliveProxies [of p] by (metis length_0_conv)
  obtain sel c where sel: "pp_select r p = (sel, c)" by (cases "pp_select r p")
  have nn: "sel \<noteq> Nothing"
    using sel False by (auto simp: pp_select_def Let_def selectRoundRobin_def selectRandom_def
        selectLeastUsed_def selectBestLatency_def split: proxy_strategy.splits list.splits if_splits)
  show ?thesis
  proof (cases sel)
    case (Picked ix)
    obtain i x where ix: "ix = (i, x)" by (cases ix)
    have mem: "i < length (pp_proxies p)" "pp_proxies p ! i = x" "px_Alive x"
      using pp_select_mem [OF sel [unfolded Picked]] by (simp_all add: ix getAliveProxies_mem)
    have res: "res = Picked (x\<lparr>px_LastUsed := now\<rparr>)"
      "pp_proxies p1 = (pp_proxies p)[i := x\<lparr>px_LastUsed := now\<rparr>]"
      using assms False sel Picked ix by (auto simp: pp_Get_def Let_def)
    have inalive: "\<exists>j. (j, y) \<in> set (getAliveProxies p)" if "y \<in> set (pp_proxies p)" "px_Alive y" for y
      using that by (auto simp: getAliveProxies_mem in_set_conv_nth [of y])
    have lu: "usage x \<le> usage y"
      if "y \<in> set (pp_proxies p)" "px_Alive y" "pp_strategy p = ProxyStrategyLeastUsed" for y
      using inalive [OF that(1,2)] sel that(3) selectLeastUsed_least [of "getAliveProxies p" i x]
      by (auto simp: pp_select_def Picked ix)
    have bl: "px_Latency x \<le> px_Latency y"
      if "y \<in> set (pp_proxies p)" "px_Alive y" "pp_strategy p = ProxyStrategyBestLatency"
        "0 < px_Latency y" for y
      using inalive [OF that(1,2)] sel that(3,4) selectBestLatency_best [of "getAliveProxies p" i x]
      by (auto simp: pp_select_def Picked ix)
    have "usage (x\<lparr>px_LastUsed := now\<rparr>) = usage x" by (simp add: usage_def)
    with some res mem lu bl show ?thesis by auto
  qed (use nn assms False sel some in \<open>auto simp: pp_Get_def\<close>)
qed


definition sample_proxy :: "string \<Rightarrow> int \<Rightarrow> duration \<Rightarrow> proxy" where
  "sample_proxy url uses latency = \<lparr>px_URL = url, px_Type = ''http'', px_Username = '''',
     px_Password = '''', px_SuccessCount = uses, px_FailureCount = 0, px_LastUsed = time_zero,
     px_LastChecked = time_zero, px_Alive = True, px_Latency = latency, px_Country = '''',
     px_City = '''', px_Provider = '''', px_Tags = [], px_Metadata = None\<rparr>"

theorem pp_Get_correct_witness:
  "pp_Get 0 9 (NewProxyPool [sample_proxy ''a'' 4 1, sample_proxy ''b'' 2 1] (Some ProxyStrategyLeastUsed) 0) =
     (Picked ((sample_proxy ''b'' 2 1)\<lparr>px_LastUsed := 9\<rparr>),
      NewProxyPool [sample_proxy ''a'' 4 1, (sample_proxy ''b'' 2 1)\<lparr>px_LastUsed := 9\<rparr>]
        (Some ProxyStrategyLeastUsed) 0) \<and>
   usage ((sample_proxy ''b'' 2 1)\<lparr>px_LastUsed := 9\<rparr>) \<le> usage (sample_proxy ''a'' 4 1)"
proof
  show get: "pp_Get 0 9 (NewProxyPool [sample_proxy ''a'' 4 1, sample_proxy ''b'' 2 1] (Some ProxyStrategyLeastUsed) 0) =
     (Picked ((sample_proxy ''b'' 2 1)\<lparr>px_LastUsed := 9\<rparr>),
      NewProxyPool [sample_proxy ''a'' 4 1, (sample_proxy ''b'' 2 1)\<lparr>px_LastUsed := 9\<rparr>]
        (Some ProxyStrategyLeastUsed) 0)"
    by (simp add: pp_Get_def pp_select_def getAliveProxies_def selectLeastUsed_def NewProxyPool_def
        sample_proxy_def usage_def upt_rec Let_def)
  show "usage ((sample_proxy ''b'' 2 1)\<lparr>px_LastUsed := 9\<rparr>) \<le> usage (sample_proxy ''a'' 4 1)"
    using pp_Get_correct [OF get] by (auto simp: NewProxyPool_def sample_proxy_def)
qed

section \<open>Round robin\<close>

lemma selectRoundRobin_call:
  assumes "xs \<noteq> []" and "k < 2 ^ 31 - 1"
  shows "selectRoundRobin xs (word_of_nat k) = (Picked (xs ! (Suc k mod length xs)), word_of_nat (Suc k))"
proof -
  have "sint (word_of_nat (Suc k) :: 32 word) = int (Suc k)"
    using assms(2) int_word_sint [of "int (Suc k)", where ?'a = 32] by simp
  moreover have "word_of_nat k + 1 = (word_of_nat (Suc k) :: 32 word)" by simp
  moreover have "int (Suc k) smod int (length xs) = int (Suc k mod length xs)"
    using assms(1) by (subst smod_nonneg) (simp_all add: zmod_int del: of_nat_Suc)
  ultimately show ?thesis
    using assms(1) unfolding selectRoundRobin_def Let_def by (simp add: add.commute [of _ 1])
qed

lemma selectRoundRobin_wrap:
  assumes "xs \<noteq> []"
  shows "fst (selectRoundRobin xs (word_of_nat (2 ^ 31 - 1))) = Panics \<longleftrightarrow> \<not> length xs dvd 2 ^ 31"
proof -
  have "sint (word_of_nat (2 ^ 31 - 1) + 1 :: 32 word) = - (2 ^ 31)"
    by simp
  moreover have "int (length xs) dvd - (2 ^ 31) \<longleftrightarrow> length xs dvd 2 ^ 31"
    using int_dvd_int_iff [of "length xs" "2 ^ 31"] by simp
  ultimately show ?thesis
    using assms smod_neg_iff [of "int (length xs)" "- (2 ^ 31)"]
    by (simp add: selectRoundRobin_def Let_def)
qed

text \<open>The picks of \<open>n\<close> calls in a row, starting at a counter value; the list of live entries stays.\<close>

fun rr_calls :: "'a list \<Rightarrow> 32 word \<Rightarrow> nat \<Rightarrow> 'a picked list" where
  "rr_calls xs c 0 = []"
| "rr_calls xs c (Suc n) = (let (x, c1) = selectRoundRobin xs c in x # rr_calls xs c1 n)"

lemma rr_calls_from:
  "xs \<noteq> [] \<Longrightarrow> k + n < 2 ^ 31 \<Longrightarrow>
   rr_calls xs (word_of_nat k) n = map (\<lambda>j. Picked (xs ! (j mod length xs))) [Suc k..<Suc k + n]"
proof (induction n arbitrary: k)
  case 0
  then show ?case by simp
next
  case (Suc n)
  then show ?case
    using selectRoundRobin_call [of xs k] Suc.IH [of "Suc k"]
    by (simp add: upt_conv_Cons del: upt_Suc of_nat_Suc)
qed

text \<open>
  Round robin over a list of live entries takes them in turn, starting at the second, for the
  first \<open>2^31 - 1\<close> calls.  Then the int32 counter wraps to a negative value: the next call panics
  unless the number of entries divides \<open>2^31\<close>.
\<close>
theorem round_robin_turns:
  assumes "xs \<noteq> []"
  shows "(\<forall>n < 2 ^ 31. rr_calls xs 0 n = map (\<lambda>j. Picked (xs ! (j mod length xs))) [1..<Suc n]) \<and>
    (fst (selectRoundRobin xs (word_of_nat (2 ^ 31 - 1))) = Panics \<longleftrightarrow> \<not> length xs dvd 2 ^ 31)"
  using rr_calls_from [OF assms, of 0] selectRoundRobin_wrap [OF assms] by simp

theorem round_robin_turns_witness:
  "rr_calls ''abc'' 0 4 = [Picked CHR ''b'', Picked CHR ''c'', Picked CHR ''a'', Picked CHR ''b''] \<and>
   fst (selectRoundRobin ''abc'' (word_of_nat (2 ^ 31 - 1))) = Panics"
proof -
  have "rr_calls ''abc'' 0 4 = map (\<lambda>j. Picked (''abc'' ! (j mod length ''abc''))) [1..<Suc 4]"
    by (rule round_robin_turns [THEN conjunct1, rule_format]) simp_all
  moreover have "\<not> (3 :: nat) dvd 2 ^ 31"
    by (simp add: dvd_eq_mod_eq_0)
  then have "fst (selectRoundRobin ''abc'' (word_of_nat (2 ^ 31 - 1))) = Panics"
    using round_robin_turns [of "''abc''", THEN conjunct2] by (simp add: numeral_3_eq_3)
  ultimately show ?thesis by (simp add: upt_rec)
qed


section \<open>Failures\<close>

lemma record_failure_fields:
  "px_URL (record_failure x) = px_URL x"
  "px_FailureCount (record_failure x) = px_FailureCount x + 1"
  "px_SuccessCount (record_failure x) = px_SuccessCount x"
  "px_Alive (record_failure x) \<longleftrightarrow> px_Alive x \<and>
     \<not> (px_FailureCount x + 1 > 10 \<and> px_SuccessCount x < (px_FailureCount x + 1) sdiv 2)"
  by (simp_all add: record_failure_def Let_def)

lemma record_failure_counts:
  "px_FailureCount ((record_failure ^^ k) x) = px_FailureCount x + int k"
  "px_SuccessCount ((record_failure ^^ k) x) = px_SuccessCount x"
  "px_URL ((record_failure ^^ k) x) = px_URL x"
  by (induction k) (simp_all add: record_failure_fields)

lemma sdiv_two: "0 \<le> a \<Longrightarrow> a sdiv 2 = a div (2 :: int)"
  by (simp add: signed_divide_int_def sgn_if)

lemma failures_alive:
  assumes "0 \<le> px_FailureCount x" and "px_Alive x"
    and "px_FailureCount x \<le> 10 \<or> px_FailureCount x div 2 \<le> px_SuccessCount x"
  shows "px_Alive ((record_failure ^^ k) x) \<longleftrightarrow>
    (let f = px_FailureCount x + int k in f \<le> 10 \<or> f div 2 \<le> px_SuccessCount x)"
proof (induction k)
  case 0
  with assms show ?case by simp
next
  case (Suc k)
  have mono: "(px_FailureCount x + int k) div 2 \<le> (px_FailureCount x + int k + 1) div 2"
    by (rule zdiv_mono1) simp_all
  have "px_Alive ((record_failure ^^ Suc k) x) \<longleftrightarrow>
    (let f = px_FailureCount x + int k in f \<le> 10 \<or> f div 2 \<le> px_SuccessCount x) \<and>
    \<not> (px_FailureCount x + int k + 1 > 10 \<and>
       px_SuccessCount x < (px_FailureCount x + int k + 1) div 2)"
    using assms(1) by (simp add: record_failure_fields record_failure_counts Suc.IH sdiv_two)
  then show ?case using mono by (auto simp: Let_def algebra_simps)
qed

lemma MarkFailure_run:
  assumes "find (\<lambda>y. px_URL y = url) (pp_proxies p) = Some x"
  shows "find (\<lambda>y. px_URL y = url) (pp_proxies ((pp_MarkFailure url ^^ k) p)) =
    Some ((record_failure ^^ k) x)"
proof -
  have one: "find (\<lambda>y. px_URL y = url) (update_first (\<lambda>y. px_URL y = url) record_failure xs) =
      Some (record_failure y)" if "find (\<lambda>y. px_URL y = url) xs = Some y" for xs y
    using that by (induction xs) (auto simp: record_failure_fields split: if_splits)
  show ?thesis using assms by (induction k) (auto simp: pp_MarkFailure_def one)
qed

text \<open>
  A live proxy stays alive through reported failures exactly as long as it has at most ten of
  them or at least half as many successes as failures; the failure that breaks both takes it out.
\<close>
theorem MarkFailure_disables:
  assumes "find (\<lambda>y. px_URL y = url) (pp_proxies p) = Some x"
    and "px_Alive x" and "px_FailureCount x = 0" and "0 \<le> px_SuccessCount x"
  shows "\<exists>x1. find (\<lambda>y. px_URL y = url) (pp_proxies ((pp_MarkFailure url ^^ k) p)) = Some x1 \<and>
    px_FailureCount x1 = int k \<and>
    (px_Alive x1 \<longleftrightarrow> k \<le> 10 \<or> int k div 2 \<le> px_SuccessCount x)"
  using MarkFailure_run [OF assms(1), of k] failures_alive [of x k] record_failure_counts [of k x] assms
  by (auto simp: Let_def)

theorem MarkFailure_disables_witness:
  "\<exists>x1. find (\<lambda>y. px_URL y = ''a'')
      (pp_proxies ((pp_MarkFailure ''a'' ^^ 12) (NewProxyPool [sample_proxy ''a'' 5 1] None 0))) = Some x1 \<and>
    \<not> px_Alive x1"
  using MarkFailure_disables [of "''a''" "NewProxyPool [sample_proxy ''a'' 5 1] None 0" "sample_proxy ''a'' 5 1" 12]
  by (auto simp: NewProxyPool_def sample_proxy_def)

section \<open>User agents\<close>

lemma contains_sublist: "contains s substr \<longleftrightarrow> sublist substr s"
proof (induction s)
  case Nil
  show ?case by (auto simp: contains.simps)
next
  case (Cons c s)
  have "take (length substr) (c # s) = substr \<longleftrightarrow> prefix substr (c # s)"
    by (metis append_eq_conv_conj prefix_def prefixE)
  with Cons show ?case
    by (subst contains.simps) (auto simp: sublist_Cons_right dest: sublist_length_le prefix_length_le)
qed

text \<open>
  The hand-written substring search is the substring relation, and a user agent counts as mobile
  exactly when one of the five keywords occurs in it.
\<close>
theorem isMobile_correct:
  "(contains s substr \<longleftrightarrow> (\<exists>pre post. s = pre @ substr @ post)) \<and>
   (isMobileUserAgent ua \<longleftrightarrow> (\<exists>k \<in> set mobileKeywords. sublist k ua))"
  by (auto simp: contains_sublist sublist_def isMobileUserAgent_def list_ex_iff)

text \<open>
  Weights and user agents drift apart: an agent added without a positive weight has no entry in
  the weight list, so after removing another agent the two lists can have equal lengths again with the
  weight of the removed agent left to the one that had none, which is then picked on every draw.
\<close>
theorem weights_drift:
  assumes "a \<noteq> b" and "0 < w" and "0 \<le> rnd w" and "rnd w < w"
  shows "fst (ua_Get rnd (ua_Remove b (ua_Add b w (ua_Add a 0
      \<lparr>ua_userAgents = [], ua_weights = [], ua_current = 0, ua_strategy = UserAgentStrategyWeighted\<rparr>)))) =
    Picked a \<and>
    ua_weights (ua_Remove b (ua_Add b w (ua_Add a 0
      \<lparr>ua_userAgents = [], ua_weights = [], ua_current = 0, ua_strategy = UserAgentStrategyWeighted\<rparr>))) = [w]"
  using assms by (simp add: ua_Get_def ua_Remove_def ua_Add_def getWeighted_def Let_def)

theorem weights_drift_witness:
  "fst (ua_Get (\<lambda>n. 2) (ua_Remove ''b'' (ua_Add ''b'' 7 (ua_Add ''a'' 0
      \<lparr>ua_userAgents = [], ua_weights = [], ua_current = 0, ua_strategy = UserAgentStrategyWeighted\<rparr>)))) =
    Picked ''a''"
  using weights_drift [of "''a''" "''b''" 7 "\<lambda>n. 2"] by simp

end
