(* ===== verification/Fetcher.thy ===== *)
theory Fetcher
  imports FetchMiddleware FetchPool
begin

text \<open>
  The fetcher that puts the pools and the middlewares together (src/crawler/fetcher/fetcher.go): the
  default chain, the core handler that fills a request for the HTTP client, the statistics and
  \<open>Execute\<close>.  The HTTP client is an argument: a state \<open>'c\<close>, a function that sets its proxy and a
  function that runs a prepared request on it.
\<close>

section \<open>State and configuration\<close>

record config =
  cf_MaxRetries :: int
  cf_MaxConnsPerHost :: nat
  cf_EnableCache :: bool
  cf_EnableMetrics :: bool

definition DefaultConfig :: config where
  "DefaultConfig = \<lparr>cf_MaxRetries = 3, cf_MaxConnsPerHost = 100, cf_EnableCache = False,
     cf_EnableMetrics = True\<rparr>"

record 'c fetcher =
  f_client :: 'c
  f_proxyPool :: "proxy_pool option"
  f_userAgentPool :: "ua_pool option"
  f_cache :: "response memory_cache option"
  f_metrics :: metrics
  f_config :: config
  f_stats :: fetch_stats

definition zero_stats :: fetch_stats where
  "zero_stats = \<lparr>fs_Total = 0, fs_Success = 0, fs_Failed = 0, fs_Bytes = 0, fs_Avg = 0,
     fs_Last = time_zero\<rparr>"

definition zero_metrics :: metrics where
  "zero_metrics = \<lparr>m_total = 0, m_success = 0, m_failed = 0, m_duration = 0\<rparr>"

definition NewFetcher :: "'c \<Rightarrow> config \<Rightarrow> proxy_pool option \<Rightarrow> ua_pool option \<Rightarrow>
    response memory_cache option \<Rightarrow> 'c fetcher" where
  "NewFetcher client config proxyPool userAgentPool cache =
     \<lparr>f_client = client, f_proxyPool = proxyPool, f_userAgentPool = userAgentPool, f_cache = cache,
      f_metrics = zero_metrics, f_config = config, f_stats = zero_stats\<rparr>"

section \<open>The core handler\<close>

record wire =
  wi_Method :: string
  wi_URL :: string
  wi_Headers :: "string \<rightharpoonup> string"
  wi_Cookies :: "(string \<times> string) list"
  wi_Body :: goval
  wi_FormData :: "(string \<rightharpoonup> string) option"

record wire_response =
  wr_Status :: int
  wr_Body :: "8 word list"
  wr_Headers :: "string \<rightharpoonup> string list"

text \<open>What a handler needs from outside: draws, clock reads and the client's two operations.\<close>

record 'c world =
  wd_setProxy :: "string \<Rightarrow> 'c \<Rightarrow> 'c"
  wd_exec :: "wire \<Rightarrow> 'c \<Rightarrow> (string + wire_response) \<times> 'c"
  wd_draw :: "int \<Rightarrow> int"
  wd_start :: gotime
  wd_end :: gotime
  wd_took :: duration

definition first_values :: "(string \<rightharpoonup> string list) \<Rightarrow> (string \<rightharpoonup> string)" where
  "first_values h = (\<lambda>k. case h k of Some (v # vs) \<Rightarrow> Some v | _ \<Rightarrow> None)"

definition pick_user_agent :: "'c world \<Rightarrow> request \<Rightarrow> 'c fetcher \<Rightarrow> string option picked \<times> 'c fetcher" where
  "pick_user_agent wd req f =
     (if rq_UserAgent req \<noteq> '''' then (Picked (Some (rq_UserAgent req)), f)
      else case f_userAgentPool f of
        None \<Rightarrow> (Picked None, f)
      | Some pool \<Rightarrow>
          (case ua_Get (wd_draw wd) pool of
             (Picked ua, pool1) \<Rightarrow> (Picked (Some ua), f\<lparr>f_userAgentPool := Some pool1\<rparr>)
           | (_, pool1) \<Rightarrow> (Panics, f\<lparr>f_userAgentPool := Some pool1\<rparr>)))"

text \<open>The proxy is set on the client, which all requests of the fetcher share.\<close>

definition apply_proxy :: "'c world \<Rightarrow> request \<Rightarrow> 'c fetcher \<Rightarrow> bool \<times> 'c fetcher" where
  "apply_proxy wd req f =
     (if rq_Proxy req \<noteq> '''' then (True, f\<lparr>f_client := wd_setProxy wd (rq_Proxy req) (f_client f)\<rparr>)
      else case f_proxyPool f of
        None \<Rightarrow> (True, f)
      | Some pool \<Rightarrow>
          (case pp_Get (nat (wd_draw wd (int (pp_AliveCount pool)))) (wd_start wd) pool of
             (Picked proxy, pool1) \<Rightarrow> (True, f\<lparr>f_proxyPool := Some pool1,
                f_client := wd_setProxy wd (px_URL proxy) (f_client f)\<rparr>)
           | (Nothing, pool1) \<Rightarrow> (True, f\<lparr>f_proxyPool := Some pool1\<rparr>)
           | (Panics, pool1) \<Rightarrow> (False, f\<lparr>f_proxyPool := Some pool1\<rparr>)))"

text \<open>
  The request's timeout is put into a context value under the key \<open>"timeout"\<close>, which nothing reads:
  it does not reach the client.
\<close>

definition to_wire :: "string option \<Rightarrow> request \<Rightarrow> wire" where
  "to_wire ua req =
     \<lparr>wi_Method = rq_Method req, wi_URL = rq_URL req,
      wi_Headers = (let h = (case rq_Headers req of None \<Rightarrow> Map.empty | Some h \<Rightarrow> h)
                    in case ua of None \<Rightarrow> h | Some u \<Rightarrow> h(''User-Agent'' \<mapsto> u)),
      wi_Cookies = rq_Cookies req, wi_Body = rq_Body req, wi_FormData = rq_FormData req\<rparr>"

definition buildHandler :: "'c world \<Rightarrow> 'c fetcher handler" where
  "buildHandler wd req f =
     (let req1 = (if rq_Method req = '''' then req\<lparr>rq_Method := ''GET''\<rparr> else req) in
      case pick_user_agent wd req1 f of
        (Picked ua, f1) \<Rightarrow>
          (case apply_proxy wd req1 f1 of
             (False, f2) \<Rightarrow> (Panic, req1, f2)
           | (True, f2) \<Rightarrow>
               (let (res, c1) = wd_exec wd (to_wire ua req1) (f_client f2);
                    f3 = f2\<lparr>f_client := c1\<rparr>;
                    resp = zero_response\<lparr>rs_URL := rq_URL req1, rs_Method := rq_Method req1,
                      rs_StartTime := wd_start wd, rs_EndTime := wd_end wd,
                      rs_Duration := wd_took wd\<rparr>
                in case res of
                     Inl e \<Rightarrow> (Ret (Some (resp\<lparr>rs_Error := Some e, rs_ErrorMsg := e\<rparr>)) (Some e), req1, f3)
                   | Inr r \<Rightarrow> (Ret (Some (resp\<lparr>rs_StatusCode := wr_Status r, rs_Body := wr_Body r,
                       rs_Headers := Some (first_values (wr_Headers r))\<rparr>)) None, req1, f3)))
      | (_, f1) \<Rightarrow> (Panic, req1, f1))"

section \<open>The default chain\<close>

text \<open>Each middleware works on its own field of the fetcher; the logger reads the response.\<close>

definition Logging_Process :: "'w handler \<Rightarrow> 'w handler" where
  "Logging_Process next req w =
     (case next req w of
        (Ret None None, req1, w1) \<Rightarrow> (Panic, req1, w1)
      | other \<Rightarrow> other)"

definition cache_middleware :: "(string \<Rightarrow> string) \<Rightarrow> string list \<Rightarrow> gotime \<Rightarrow> gotime \<Rightarrow>
    'c fetcher handler \<Rightarrow> 'c fetcher handler" where
  "cache_middleware md5 ks now now' next req f =
     (case f_cache f of
        None \<Rightarrow> next req f
      | Some c \<Rightarrow>
          (case Cache_Process md5 ks now now' next req (c, f) of
             (r, req1, (c1, f1)) \<Rightarrow> (r, req1, f1\<lparr>f_cache := Some c1\<rparr>)))"

definition metrics_middleware :: "duration \<Rightarrow> 'c fetcher handler \<Rightarrow> 'c fetcher handler" where
  "metrics_middleware took next req f =
     (case Metrics_Process took next req (f_metrics f, f) of
        (r, req1, (m1, f1)) \<Rightarrow> (r, req1, f1\<lparr>f_metrics := m1\<rparr>))"

definition retry_middleware :: "int \<Rightarrow> (nat \<Rightarrow> bool) \<Rightarrow> 'w handler \<Rightarrow> 'w handler" where
  "retry_middleware maxRetries done next req w =
     fst (Retry_Process maxRetries NewExponentialBackoff done next req w)"

text \<open>\<open>limit\<close> is the rate limiter's \<open>Wait\<close>, when one is configured.\<close>

definition setupDefaultMiddlewares ::
    "('c fetcher \<Rightarrow> string option \<times> 'c fetcher) option \<Rightarrow> (string \<Rightarrow> string) \<Rightarrow> string list \<Rightarrow> gotime \<Rightarrow>
     gotime \<Rightarrow> duration \<Rightarrow> (nat \<Rightarrow> bool) \<Rightarrow> 'c fetcher \<Rightarrow> ('c fetcher handler \<Rightarrow> 'c fetcher handler) list" where
  "setupDefaultMiddlewares limit md5 ks now now' took done f =
     (case limit of None \<Rightarrow> [] | Some wait \<Rightarrow> [RateLimiter_Process wait]) @
     (if f_cache f \<noteq> None \<and> cf_EnableCache (f_config f) then [cache_middleware md5 ks now now'] else []) @
     (if cf_EnableMetrics (f_config f) then [metrics_middleware took] else []) @
     [retry_middleware (cf_MaxRetries (f_config f)) done, Logging_Process]"

definition fetch_Execute :: "('c fetcher handler \<Rightarrow> 'c fetcher handler) list \<Rightarrow> 'c world \<Rightarrow> 'c fetcher handler" where
  "fetch_Execute middlewares wd req f =
     (case executeWithMiddleware middlewares (buildHandler wd) req f of
        (Panic, req1, f1) \<Rightarrow> (Panic, req1, f1)
      | (Ret resp err, req1, f1) \<Rightarrow>
          (Ret resp err, req1, f1\<lparr>f_stats :=
             updateStats (cf_EnableMetrics (f_config f1)) (wd_end wd) resp err (f_stats f1)\<rparr>))"

text \<open>
  A batch runs each request in a goroutine that writes its own slot; the model runs them in the order
  of the list, one world per request.  A panic in a goroutine ends the program.
\<close>

fun ExecuteBatch :: "('c fetcher handler \<Rightarrow> 'c fetcher handler) list \<Rightarrow> (request \<times> 'c world) list \<Rightarrow>
    'c fetcher \<Rightarrow> (response option list \<times> 'c fetcher) option" where
  "ExecuteBatch ms [] f = Some ([], f)"
| "ExecuteBatch ms ((req, wd) # rest) f =
     (case fetch_Execute ms wd req f of
        (Panic, _, _) \<Rightarrow> None
      | (Ret resp err, _, f1) \<Rightarrow>
          (let resp1 = (case err of None \<Rightarrow> resp
                 | Some e \<Rightarrow> Some (zero_response\<lparr>rs_Error := Some e, rs_ErrorMsg := e\<rparr>))
           in case ExecuteBatch ms rest f1 of
                None \<Rightarrow> None
              | Some (resps, f2) \<Rightarrow> Some (resp1 # resps, f2)))"

definition fetch_Clone :: "'c \<Rightarrow> 'c fetcher \<Rightarrow> 'c fetcher" where
  "fetch_Clone newClient f = f\<lparr>f_client := newClient, f_stats := zero_stats\<rparr>"


section \<open>The chain\<close>

lemma executeWithMiddleware_simps [simp]:
  "executeWithMiddleware [] h = h"
  "executeWithMiddleware (m # ms) h = m (executeWithMiddleware ms h)"
  by (simp_all add: executeWithMiddleware_def)

lemma executeWithMiddleware_append:
  "executeWithMiddleware (ms @ ms') h = executeWithMiddleware ms (executeWithMiddleware ms' h)"
  by (induction ms) simp_all

definition keeps :: "('w \<Rightarrow> 'a) \<Rightarrow> 'w handler \<Rightarrow> bool" where
  "keeps g h \<longleftrightarrow> (\<forall>req w r req1 w1. h req w = (r, req1, w1) \<longrightarrow> g w1 = g w)"

lemma keepsD: "keeps g h \<Longrightarrow> h req w = (r, req1, w1) \<Longrightarrow> g w1 = g w"
  by (auto simp: keeps_def)

lemma retry_loop_keeps:
  "keeps g next \<Longrightarrow> retry_loop b done next fuel i req w = ((r, req1, w1), waits) \<Longrightarrow> g w1 = g w"
proof (induction fuel arbitrary: i req w waits)
  case 0
  then show ?case by simp
next
  case (Suc fuel)
  obtain r2 req2 w2 where nx: "next req w = (r2, req2, w2)" by (cases "next req w")
  have w2: "g w2 = g w" by (rule keepsD [OF Suc.prems(1) nx])
  show ?case
    using Suc.prems(2) Suc.IH [OF Suc.prems(1)] w2
    by (auto simp: nx Let_def split: outcome.splits if_splits prod.splits)
qed

lemma retry_middleware_keeps:
  assumes "keeps g next"
  shows "keeps g (retry_middleware n done next)"
  unfolding keeps_def
proof (intro allI impI)
  fix req w r req1 w1
  assume "retry_middleware n done next req w = (r, req1, w1)"
  then obtain waits where "Retry_Process n NewExponentialBackoff done next req w = ((r, req1, w1), waits)"
    unfolding retry_middleware_def by (metis prod.collapse)
  then show "g w1 = g w"
    unfolding Retry_Process_def Let_def by (rule retry_loop_keeps [OF assms])
qed
lemma Logging_Process_keeps: "keeps g next \<Longrightarrow> keeps g (Logging_Process next)"
  unfolding keeps_def [of g "Logging_Process next"] Logging_Process_def
  by (auto dest: keepsD split: prod.splits outcome.splits option.splits)

lemma pick_user_agent_frame:
  "pick_user_agent wd req f = (ua, f1) \<Longrightarrow> f1 = f\<lparr>f_userAgentPool := f_userAgentPool f1\<rparr>"
  by (auto simp: pick_user_agent_def split: if_splits option.splits prod.splits picked.splits)

lemma apply_proxy_frame:
  "apply_proxy wd req f = (ok, f1) \<Longrightarrow> f1 = f\<lparr>f_proxyPool := f_proxyPool f1, f_client := f_client f1\<rparr>"
  by (auto simp: apply_proxy_def split: if_splits option.splits prod.splits picked.splits)

lemma buildHandler_frame:
  assumes "buildHandler wd req f = (r, req1, f1)"
  shows "f1 = f\<lparr>f_client := f_client f1, f_proxyPool := f_proxyPool f1, f_userAgentPool := f_userAgentPool f1\<rparr>"
proof -
  let ?req = "if rq_Method req = '''' then req\<lparr>rq_Method := ''GET''\<rparr> else req"
  obtain ua f2 where ua: "pick_user_agent wd ?req f = (ua, f2)" by (cases "pick_user_agent wd ?req f")
  obtain ok f3 where px: "apply_proxy wd ?req f2 = (ok, f3)" by (cases "apply_proxy wd ?req f2")
  have f2: "f2 = f\<lparr>f_userAgentPool := f_userAgentPool f2\<rparr>" by (rule pick_user_agent_frame [OF ua])
  have f3: "f3 = f2\<lparr>f_proxyPool := f_proxyPool f3, f_client := f_client f3\<rparr>"
    by (rule apply_proxy_frame [OF px])
  have "f1 = f2 \<or> f1 = f3 \<or> (\<exists>c. f1 = f3\<lparr>f_client := c\<rparr>)"
    using assms ua px unfolding buildHandler_def
    by (cases ua; cases ok) (auto simp: Let_def split: prod.splits sum.splits)
  then show ?thesis
  proof (elim disjE)
    assume "f1 = f2"
    with f2 show ?thesis by (cases f, cases f2) simp
  next
    assume "f1 = f3"
    with f2 f3 show ?thesis by (cases f, cases f2, cases f3) auto
  next
    assume "\<exists>c. f1 = f3\<lparr>f_client := c\<rparr>"
    with f2 f3 show ?thesis by (cases f, cases f2, cases f3) auto
  qed
qed

lemma fetcher_frame:
  assumes "f1 = f\<lparr>f_client := c, f_proxyPool := p, f_userAgentPool := u\<rparr>"
  shows "f_metrics f1 = f_metrics f" "f_stats f1 = f_stats f" "f_config f1 = f_config f"
    "f_cache f1 = f_cache f"
  by (simp_all add: assms)

lemma buildHandler_keeps:
  "keeps f_metrics (buildHandler wd)" "keeps f_stats (buildHandler wd)"
  "keeps f_config (buildHandler wd)" "keeps f_cache (buildHandler wd)"
  unfolding keeps_def by (blast dest: buildHandler_frame fetcher_frame)+

text \<open>
  With the default chain (no rate limiter, caching on), a GET whose response is cached is answered
  from the cache: the HTTP client, the proxy pool and the metrics are left as they were, yet the
  statistics count a request, a success and the length of the cached body as downloaded.
\<close>
theorem Execute_cached:
  assumes "rq_Method req = ''GET''" and "f_cache f = Some c" and "cf_EnableCache (f_config f)"
    and "mc_Get now (generateCacheKey md5 ks req) c = Some resp" and "cf_EnableMetrics (f_config f)"
    and "ms = setupDefaultMiddlewares None md5 ks now now' took done f"
  shows "\<exists>f1. fetch_Execute ms wd req f =
      (Ret (Some (resp\<lparr>rs_Metadata := set_in_map ''cached'' (GBool True) (rs_Metadata resp)\<rparr>)) None, req, f1) \<and>
    f_client f1 = f_client f \<and> f_proxyPool f1 = f_proxyPool f \<and> f_metrics f1 = f_metrics f \<and>
    fs_Total (f_stats f1) = fs_Total (f_stats f) + 1 \<and> fs_Success (f_stats f1) = fs_Success (f_stats f) + 1 \<and>
    fs_Bytes (f_stats f1) = fs_Bytes (f_stats f) + int (length (rs_Body resp))"
proof -
  let ?next = "executeWithMiddleware [metrics_middleware took,
      retry_middleware (cf_MaxRetries (f_config f)) done, Logging_Process] (buildHandler wd)"
  obtain c1 where "Cache_Process md5 ks now now' ?next req (c, f) =
    (Ret (Some (resp\<lparr>rs_Metadata := set_in_map ''cached'' (GBool True) (rs_Metadata resp)\<rparr>)) None, req, (c1, f))"
    using Cache_Process_hit [of req now md5 ks c resp now' ?next f] assms(1,4) by blast
  then have "executeWithMiddleware ms (buildHandler wd) req f =
    (Ret (Some (resp\<lparr>rs_Metadata := set_in_map ''cached'' (GBool True) (rs_Metadata resp)\<rparr>)) None, req,
     f\<lparr>f_cache := Some c1\<rparr>)"
    using assms(2,3,5,6) by (simp add: setupDefaultMiddlewares_def cache_middleware_def)
  then show ?thesis
    using assms(5) by (simp add: fetch_Execute_def updateStats_def Let_def)
qed

text \<open>
  The two sets of counters disagree on error statuses: with the default chain and no cache, a
  request that ends in a response with status 400 or more is a success for the fetcher's statistics
  and a failure for the metrics middleware.
\<close>
theorem stats_disagree:
  assumes "f_cache f = None" and "cf_EnableMetrics (f_config f)"
    and "ms = setupDefaultMiddlewares None md5 ks now now' took done f"
    and "fetch_Execute ms wd req f = (Ret (Some resp) None, req1, f1)"
  shows "fs_Success (f_stats f1) = fs_Success (f_stats f) + 1 \<and>
    (if rs_StatusCode resp < 400
     then m_success (f_metrics f1) = m_success (f_metrics f) + 1 \<and> m_failed (f_metrics f1) = m_failed (f_metrics f)
     else m_failed (f_metrics f1) = m_failed (f_metrics f) + 1 \<and> m_success (f_metrics f1) = m_success (f_metrics f))"
proof -
  let ?core = "retry_middleware (cf_MaxRetries (f_config f)) done (Logging_Process (buildHandler wd))"
  obtain r req2 f2 where core: "?core req f = (r, req2, f2)" by (cases "?core req f")
  have k: "f_stats f2 = f_stats f" "f_config f2 = f_config f"
    using core by (blast intro: keepsD retry_middleware_keeps Logging_Process_keeps buildHandler_keeps)+
  have r: "r = Ret (Some resp) None"
    using assms core by (cases r) (auto simp: fetch_Execute_def setupDefaultMiddlewares_def
        metrics_middleware_def Metrics_Process_def Let_def)
  from assms core k r show ?thesis
    by (auto simp: fetch_Execute_def setupDefaultMiddlewares_def metrics_middleware_def
        Metrics_Process_def updateStats_def Let_def split: if_splits)
qed


section \<open>Concrete runs\<close>

text \<open>A client that is just the proxy in use, in front of a server that gives one answer.\<close>

definition sample_world :: "(string + wire_response) \<Rightarrow> string world" where
  "sample_world ans = \<lparr>wd_setProxy = (\<lambda>p c. p), wd_exec = (\<lambda>wi c. (ans, c)), wd_draw = (\<lambda>n. 0),
     wd_start = 1, wd_end = 2, wd_took = 1\<rparr>"

definition sample_answer :: "int \<Rightarrow> wire_response" where
  "sample_answer code = \<lparr>wr_Status = code, wr_Body = [104, 105], wr_Headers = Map.empty\<rparr>"

definition sample_fetcher :: "response memory_cache option \<Rightarrow> string fetcher" where
  "sample_fetcher c = NewFetcher '''' (DefaultConfig\<lparr>cf_EnableCache := True\<rparr>) None None c"

definition default_chain :: "string fetcher \<Rightarrow> (string fetcher handler \<Rightarrow> string fetcher handler) list" where
  "default_chain f = setupDefaultMiddlewares None id [] 0 0 1 (\<lambda>_. False) f"

theorem Execute_cached_witness:
  "\<exists>f1. let f = sample_fetcher (Some (mc_Set 0 10 ''GEThttp://h'' (status_response 200) NewMemoryCache)) in
    fetch_Execute (default_chain f) (sample_world (Inl ''down''))
       (zero_request\<lparr>rq_Method := ''GET'', rq_URL := ''http://h''\<rparr>) f =
     (Ret (Some ((status_response 200)\<lparr>rs_Metadata := Some [''cached'' \<mapsto> GBool True]\<rparr>)) None,
      zero_request\<lparr>rq_Method := ''GET'', rq_URL := ''http://h''\<rparr>, f1)"
proof -
  let ?c = "mc_Set 0 10 ''GEThttp://h'' (status_response 200) NewMemoryCache"
  let ?f = "sample_fetcher (Some ?c)"
  let ?r = "zero_request\<lparr>rq_Method := ''GET'', rq_URL := ''http://h''\<rparr>"
  have key: "generateCacheKey id [] ?r = ''GEThttp://h''"
    by (simp add: generateCacheKey_def zero_request_def)
  have "rs_Metadata (status_response 200) = None" by (simp add: status_response_def zero_response_def)
  moreover have "mc_Get 0 (generateCacheKey id [] ?r) ?c = Some (status_response 200)"
    by (simp add: key mc_store.get_put)
  moreover have "f_cache ?f = Some ?c" "cf_EnableCache (f_config ?f)" "cf_EnableMetrics (f_config ?f)"
    by (simp_all add: sample_fetcher_def NewFetcher_def DefaultConfig_def)
  ultimately show ?thesis
    using Execute_cached [of ?r ?f ?c 0 id "[]" "status_response 200" "default_chain ?f" 0 1 "\<lambda>_. False"
        "sample_world (Inl ''down'')"]
    by (auto simp: default_chain_def set_in_map_def Let_def)
qed

lemma sample_run:
  "fst (fetch_Execute (default_chain (sample_fetcher None)) (sample_world (Inr (sample_answer 404))) zero_request
     (sample_fetcher None)) =
   Ret (Some (zero_response\<lparr>rs_StatusCode := 404, rs_Headers := Some (first_values Map.empty),
     rs_Body := [104, 105], rs_Method := ''GET'', rs_StartTime := 1, rs_EndTime := 2, rs_Duration := 1\<rparr>)) None"
  by (simp add: fetch_Execute_def default_chain_def setupDefaultMiddlewares_def sample_fetcher_def
      NewFetcher_def DefaultConfig_def metrics_middleware_def Metrics_Process_def retry_middleware_def
      Retry_Process_def Logging_Process_def buildHandler_def pick_user_agent_def apply_proxy_def
      sample_world_def sample_answer_def zero_request_def zero_response_def Let_def numeral_eq_Suc)

theorem stats_disagree_witness:
  "\<exists>resp req1 f1. fetch_Execute (default_chain (sample_fetcher None))
      (sample_world (Inr (sample_answer 404))) zero_request (sample_fetcher None) = (Ret (Some resp) None, req1, f1) \<and>
    fs_Success (f_stats f1) = 1 \<and> m_failed (f_metrics f1) = 1"
proof -
  let ?f = "sample_fetcher None"
  let ?resp = "zero_response\<lparr>rs_StatusCode := 404, rs_Headers := Some (first_values Map.empty),
     rs_Body := [104, 105], rs_Method := ''GET'', rs_StartTime := 1, rs_EndTime := 2, rs_Duration := 1\<rparr>"
  obtain req1 f1 where run: "fetch_Execute (default_chain ?f) (sample_world (Inr (sample_answer 404)))
      zero_request ?f = (Ret (Some ?resp) None, req1, f1)"
    using sample_run by (metis prod.collapse)
  have "f_cache ?f = None" "cf_EnableMetrics (f_config ?f)" "fs_Success (f_stats ?f) = 0"
    "m_failed (f_metrics ?f) = 0" "rs_StatusCode ?resp = 404"
    by (simp_all add: sample_fetcher_def NewFetcher_def DefaultConfig_def zero_stats_def zero_metrics_def
        zero_response_def)
  then have "fs_Success (f_stats f1) = 1 \<and> m_failed (f_metrics f1) = 1"
    using stats_disagree [OF _ _ default_chain_def run] by simp
  with run show ?thesis by blast
qed

lemma buildHandler_no_pools:
  assumes "f_userAgentPool f = None" and "rq_Proxy req \<noteq> '''' \<or> f_proxyPool f = None"
  shows "\<exists>wi. f_client (snd (snd (buildHandler wd req f))) = snd (wd_exec wd wi
      (if rq_Proxy req \<noteq> '''' then wd_setProxy wd (rq_Proxy req) (f_client f) else f_client f)) \<and>
    f_proxyPool (snd (snd (buildHandler wd req f))) = f_proxyPool f \<and>
    f_userAgentPool (snd (snd (buildHandler wd req f))) = None"
proof -
  define req1 where "req1 = (if rq_Method req = '''' then req\<lparr>rq_Method := ''GET''\<rparr> else req)"
  define ua where "ua = (if rq_UserAgent req \<noteq> '''' then Some (rq_UserAgent req) else None)"
  define c where "c = (if rq_Proxy req \<noteq> '''' then wd_setProxy wd (rq_Proxy req) (f_client f) else f_client f)"
  have "pick_user_agent wd req1 f = (Picked ua, f)" "apply_proxy wd req1 f = (True, f\<lparr>f_client := c\<rparr>)"
    using assms by (auto simp: pick_user_agent_def apply_proxy_def req1_def ua_def c_def)
  moreover obtain res c1 where "wd_exec wd (to_wire ua req1) c = (res, c1)"
    by (cases "wd_exec wd (to_wire ua req1) c")
  ultimately show ?thesis
    unfolding c_def [symmetric] buildHandler_def Let_def req1_def [symmetric]
    using assms(1) by (cases res) (auto intro: exI [of _ "to_wire ua req1"])
qed
text \<open>
  The proxy of one request leaks into the next.  For a client on which a proxy, once set, is the
  one that later requests go through (\<open>via\<close>) and which running a request does not change, a request
  without a proxy, on a fetcher without pools, is run on a client that still goes through the proxy
  the request before it named.
\<close>
theorem proxy_leaks:
  assumes "\<And>p c. via (wd_setProxy wd p c) = p" and "\<And>wi c. via (snd (wd_exec wd wi c)) = via c"
    and "f_proxyPool f = None" and "f_userAgentPool f = None"
    and "rq_Proxy req \<noteq> ''''" and "rq_Proxy req2 = ''''"
    and "buildHandler wd req f = (r, req1, f1)"
  shows "\<exists>wi. f_client (snd (snd (buildHandler wd req2 f1))) = snd (wd_exec wd wi (f_client f1)) \<and>
    via (f_client f1) = rq_Proxy req"
proof -
  obtain wi where "f_client f1 = snd (wd_exec wd wi (wd_setProxy wd (rq_Proxy req) (f_client f)))"
    and pools: "f_proxyPool f1 = None" "f_userAgentPool f1 = None"
    using buildHandler_no_pools [of f req wd] assms(3-5,7) by auto
  then have "via (f_client f1) = rq_Proxy req" by (simp add: assms(1,2))
  with buildHandler_no_pools [of f1 req2 wd] pools assms(6) show ?thesis by auto
qed

theorem proxy_leaks_witness:
  "\<exists>r req1 f1. buildHandler (sample_world (Inl ''down'')) (zero_request\<lparr>rq_Proxy := ''p:1''\<rparr>) (sample_fetcher None) =
      (r, req1, f1) \<and> f_client f1 = ''p:1''"
proof -
  obtain r req1 f1 where run: "buildHandler (sample_world (Inl ''down'')) (zero_request\<lparr>rq_Proxy := ''p:1''\<rparr>)
      (sample_fetcher None) = (r, req1, f1)"
    by (cases "buildHandler (sample_world (Inl ''down'')) (zero_request\<lparr>rq_Proxy := ''p:1''\<rparr>) (sample_fetcher None)")
  have "f_client f1 = ''p:1''"
    using proxy_leaks [of "\<lambda>c. c" "sample_world (Inl ''down'')" "sample_fetcher None"
        "zero_request\<lparr>rq_Proxy := ''p:1''\<rparr>" zero_request r req1 f1] run
    by (auto simp: sample_world_def sample_fetcher_def NewFetcher_def zero_request_def)
  with run show ?thesis by blast
qed
end
