(* ===== verification/Redis.thy ===== *)
theory Redis
  imports Prelude
begin

text \<open>
  Redis is outside the program.  A component that talks to it takes a value of \<open>'r redis\<close>, the
  commands it issues as functions on an unknown state \<open>'r\<close>, and a theorem that relies on what
  the commands do assumes one of the predicates below: the documented behaviour of the list
  commands and of the counters.  \<open>mem_redis\<close> is a concrete instance, used to show that the
  assumptions can hold.
\<close>

text \<open>A read gives \<open>None\<close> on an error or nil reply; a write reports whether it succeeded.\<close>

record 'r redis =
  rd_LRange :: "string \<Rightarrow> int \<Rightarrow> int \<Rightarrow> 'r \<Rightarrow> string list option"
  rd_LTrim :: "string \<Rightarrow> int \<Rightarrow> int \<Rightarrow> 'r \<Rightarrow> 'r"
  rd_RPush :: "string \<Rightarrow> string \<Rightarrow> 'r \<Rightarrow> bool \<times> 'r"
  rd_LPush :: "string \<Rightarrow> string \<Rightarrow> 'r \<Rightarrow> bool \<times> 'r"
  rd_RPop :: "string \<Rightarrow> 'r \<Rightarrow> string option \<times> 'r"
  rd_Set :: "string \<Rightarrow> string \<Rightarrow> duration \<Rightarrow> 'r \<Rightarrow> bool \<times> 'r"
  rd_Incr :: "string \<Rightarrow> 'r \<Rightarrow> int option \<times> 'r"
  rd_Expire :: "string \<Rightarrow> duration \<Rightarrow> 'r \<Rightarrow> bool \<times> 'r"
  rd_Del :: "string \<Rightarrow> 'r \<Rightarrow> bool \<times> 'r"

text \<open>Indices are inclusive, and negative ones count from the end.\<close>

definition redis_slice :: "'a list \<Rightarrow> int \<Rightarrow> int \<Rightarrow> 'a list" where
  "redis_slice xs a b =
     (let n = int (length xs);
          a1 = (if a < 0 then max 0 (n + a) else a);
          b1 = (if b < 0 then n + b else b)
      in take (nat (b1 - a1 + 1)) (drop (nat a1) xs))"

lemma redis_slice_first: "0 < k \<Longrightarrow> redis_slice xs 0 (int k - 1) = take k xs"
  by (simp add: redis_slice_def Let_def)

lemma redis_slice_all: "redis_slice xs 0 (- 1) = xs"
  by (simp add: redis_slice_def Let_def)

lemma redis_slice_rest: "redis_slice xs (int k) (- 1) = drop k xs"
  by (simp add: redis_slice_def Let_def)

text \<open>
  The list commands: \<open>lst r k\<close> is the list stored at a key, empty when there is none.  A write may
  fail and then changes no list.  \<open>SET\<close> replaces what its key held and leaves other keys alone.
\<close>

definition redis_lists :: "'r redis \<Rightarrow> ('r \<Rightarrow> string \<Rightarrow> string list) \<Rightarrow> bool" where
  "redis_lists R lst \<longleftrightarrow>
     (\<forall>k a b r xs. rd_LRange R k a b r = Some xs \<longrightarrow> xs = redis_slice (lst r k) a b) \<and>
     (\<forall>k a b r. lst (rd_LTrim R k a b r) = (lst r)(k := redis_slice (lst r k) a b)) \<and>
     (\<forall>k v r. lst (snd (rd_RPush R k v r)) =
        (if fst (rd_RPush R k v r) then (lst r)(k := lst r k @ [v]) else lst r)) \<and>
     (\<forall>k v r. lst (snd (rd_LPush R k v r)) =
        (if fst (rd_LPush R k v r) then (lst r)(k := v # lst r k) else lst r)) \<and>
     (\<forall>k r. case fst (rd_RPop R k r) of
        None \<Rightarrow> lst (snd (rd_RPop R k r)) = lst r
      | Some v \<Rightarrow> lst r k \<noteq> [] \<and> v = last (lst r k) \<and>
          lst (snd (rd_RPop R k r)) = (lst r)(k := butlast (lst r k))) \<and>
     (\<forall>k k' v d r. k' \<noteq> k \<longrightarrow> lst (snd (rd_Set R k v d r)) k' = lst r k') \<and>
     (\<forall>k r. lst (snd (rd_Incr R k r)) = lst r) \<and>
     (\<forall>k d r. lst (snd (rd_Expire R k d r)) = lst r)"

text \<open>A delete empties the list at its key and leaves the others.\<close>

definition redis_del_lists :: "'r redis \<Rightarrow> ('r \<Rightarrow> string \<Rightarrow> string list) \<Rightarrow> bool" where
  "redis_del_lists R lst \<longleftrightarrow> (\<forall>k r. lst (snd (rd_Del R k r)) = (lst r)(k := []))"

text \<open>
  The counters of a Redis that answers and in which no counter key holds another type: \<open>cnt r k\<close> is
  the number stored at a key, 0 when there is none.
\<close>

definition redis_counters :: "'r redis \<Rightarrow> ('r \<Rightarrow> string \<Rightarrow> int) \<Rightarrow> bool" where
  "redis_counters R cnt \<longleftrightarrow>
     (\<forall>k r. fst (rd_Incr R k r) = Some (cnt r k + 1) \<and>
        cnt (snd (rd_Incr R k r)) = (cnt r)(k := cnt r k + 1)) \<and>
     (\<forall>k r. cnt (snd (rd_Del R k r)) = (cnt r)(k := 0)) \<and>
     (\<forall>k d r. cnt (snd (rd_Expire R k d r)) = cnt r) \<and>
     (\<forall>k v r. cnt (snd (rd_RPush R k v r)) = cnt r) \<and>
     (\<forall>k k' v d r. k' \<noteq> k \<longrightarrow> cnt (snd (rd_Set R k v d r)) k' = cnt r k')"

lemma redis_listsD:
  assumes "redis_lists R lst"
  shows "rd_LRange R k a b r = Some xs \<Longrightarrow> xs = redis_slice (lst r k) a b"
    and "lst (rd_LTrim R k a b r) = (lst r)(k := redis_slice (lst r k) a b)"
    and "rd_RPush R k v r = (ok, r1) \<Longrightarrow> lst r1 = (if ok then (lst r)(k := lst r k @ [v]) else lst r)"
    and "rd_LPush R k v r = (ok, r1) \<Longrightarrow> lst r1 = (if ok then (lst r)(k := v # lst r k) else lst r)"
    and "rd_RPop R k r = (None, r1) \<Longrightarrow> lst r1 = lst r"
    and "rd_RPop R k r = (Some v, r1) \<Longrightarrow>
      lst r k = butlast (lst r k) @ [v] \<and> lst r1 = (lst r)(k := butlast (lst r k))"
    and "k' \<noteq> k \<Longrightarrow> lst (snd (rd_Set R k v d r)) k' = lst r k'"
    and "lst (snd (rd_Incr R k r)) = lst r"
    and "lst (snd (rd_Expire R k d r)) = lst r"
proof -
  show "rd_LRange R k a b r = Some xs \<Longrightarrow> xs = redis_slice (lst r k) a b"
    using assms by (simp add: redis_lists_def)
  show "lst (rd_LTrim R k a b r) = (lst r)(k := redis_slice (lst r k) a b)"
    using assms by (simp add: redis_lists_def)
  have "lst (snd (rd_RPush R k v r)) =
      (if fst (rd_RPush R k v r) then (lst r)(k := lst r k @ [v]) else lst r)"
    using assms unfolding redis_lists_def by (elim conjE) (erule allE)+
  then show "rd_RPush R k v r = (ok, r1) \<Longrightarrow> lst r1 = (if ok then (lst r)(k := lst r k @ [v]) else lst r)"
    by simp
  have "lst (snd (rd_LPush R k v r)) =
      (if fst (rd_LPush R k v r) then (lst r)(k := v # lst r k) else lst r)"
    using assms unfolding redis_lists_def by (elim conjE) (erule allE)+
  then show "rd_LPush R k v r = (ok, r1) \<Longrightarrow> lst r1 = (if ok then (lst r)(k := v # lst r k) else lst r)"
    by simp
  have pop: "case fst (rd_RPop R k r) of
        None \<Rightarrow> lst (snd (rd_RPop R k r)) = lst r
      | Some v \<Rightarrow> lst r k \<noteq> [] \<and> v = last (lst r k) \<and>
          lst (snd (rd_RPop R k r)) = (lst r)(k := butlast (lst r k))"
    using assms unfolding redis_lists_def by (elim conjE) (erule allE)+
  then show "rd_RPop R k r = (None, r1) \<Longrightarrow> lst r1 = lst r" by simp
  from pop show "rd_RPop R k r = (Some v, r1) \<Longrightarrow>
      lst r k = butlast (lst r k) @ [v] \<and> lst r1 = (lst r)(k := butlast (lst r k))"
    by simp
  show "k' \<noteq> k \<Longrightarrow> lst (snd (rd_Set R k v d r)) k' = lst r k'"
    using assms by (simp add: redis_lists_def)
  show "lst (snd (rd_Incr R k r)) = lst r" "lst (snd (rd_Expire R k d r)) = lst r"
    using assms by (simp_all add: redis_lists_def)
qed
lemma redis_countersD:
  assumes "redis_counters R cnt"
  shows "fst (rd_Incr R k r) = Some (cnt r k + 1)"
    and "cnt (snd (rd_Incr R k r)) = (cnt r)(k := cnt r k + 1)"
    and "cnt (snd (rd_Del R k r)) = (cnt r)(k := 0)"
    and "cnt (snd (rd_Expire R k d r)) = cnt r"
    and "cnt (snd (rd_RPush R k v r)) = cnt r"
    and "k' \<noteq> k \<Longrightarrow> cnt (snd (rd_Set R k v d r)) k' = cnt r k'"
  using assms by (simp_all add: redis_counters_def)

section \<open>An instance in memory\<close>

record mem_state =
  ms_lists :: "string \<Rightarrow> string list"
  ms_counters :: "string \<Rightarrow> int"
  ms_values :: "string \<rightharpoonup> string"

definition mem_empty :: mem_state where
  "mem_empty = \<lparr>ms_lists = (\<lambda>_. []), ms_counters = (\<lambda>_. 0), ms_values = Map.empty\<rparr>"

definition mem_redis :: "mem_state redis" where
  "mem_redis = \<lparr>
     rd_LRange = (\<lambda>k a b r. Some (redis_slice (ms_lists r k) a b)),
     rd_LTrim = (\<lambda>k a b r. r\<lparr>ms_lists := (ms_lists r)(k := redis_slice (ms_lists r k) a b)\<rparr>),
     rd_RPush = (\<lambda>k v r. (True, r\<lparr>ms_lists := (ms_lists r)(k := ms_lists r k @ [v])\<rparr>)),
     rd_LPush = (\<lambda>k v r. (True, r\<lparr>ms_lists := (ms_lists r)(k := v # ms_lists r k)\<rparr>)),
     rd_RPop = (\<lambda>k r. if ms_lists r k = [] then (None, r)
        else (Some (last (ms_lists r k)), r\<lparr>ms_lists := (ms_lists r)(k := butlast (ms_lists r k))\<rparr>)),
     rd_Set = (\<lambda>k v d r. (True, r\<lparr>ms_values := (ms_values r)(k \<mapsto> v)\<rparr>)),
     rd_Incr = (\<lambda>k r. (Some (ms_counters r k + 1),
        r\<lparr>ms_counters := (ms_counters r)(k := ms_counters r k + 1)\<rparr>)),
     rd_Expire = (\<lambda>k d r. (True, r)),
     rd_Del = (\<lambda>k r. (True, r\<lparr>ms_counters := (ms_counters r)(k := 0), ms_lists := (ms_lists r)(k := [])\<rparr>))\<rparr>"

lemma mem_redis_lists: "redis_lists mem_redis ms_lists"
  by (auto simp: redis_lists_def mem_redis_def)

lemma mem_redis_del_lists: "redis_del_lists mem_redis ms_lists"
  by (simp add: redis_del_lists_def mem_redis_def)

lemma mem_redis_counters: "redis_counters mem_redis ms_counters"
  by (auto simp: redis_counters_def mem_redis_def)

end
