(* ===== verification/Cluster.thy ===== *)
theory Cluster
  imports Redis "HOL-Library.Char_ord" "HOL-Library.List_Lexorder"
begin

text \<open>
  The cluster manager (src/crawler/distributed/cluster.go): its life cycle, the node table, the
  leader election and the migration of queued tasks between nodes.  Node IDs are compared as Go
  compares strings, lexicographically by byte.  The registry and Redis are outside; of the node
  record and its metrics the fields are kept that the manager and the coordinator read.
\<close>

section \<open>State\<close>

datatype cluster_status =
    ClusterStatusInitializing
  | ClusterStatusRunning
  | ClusterStatusDegraded
  | ClusterStatusStopping
  | ClusterStatusStopped

record node_metrics =
  nm_TasksProcessed :: int
  nm_TasksInQueue :: int
  nm_TasksFailed :: int
  nm_BytesDownloaded :: int
  nm_ItemsExtracted :: int

record cnode =
  cn_ID :: string
  cn_Hostname :: string
  cn_IP :: string
  cn_Port :: int
  cn_Status :: string
  cn_Tags :: "string list"
  cn_Capabilities :: "string list"
  cn_MaxWorkers :: int
  cn_UpdatedAt :: gotime
  cn_LastHeartbeat :: gotime
  cn_Metrics :: "node_metrics option"

record cluster_config =
  cc_LeaderElection :: bool
  cc_HeartbeatTimeout :: duration
  cc_RebalanceEnabled :: bool
  cc_RebalanceInterval :: duration
  cc_MinNodes :: int
  cc_MaxNodes :: int

text \<open>
  \<open>cm_closed\<close> says whether \<open>stopChan\<close> has been closed, \<open>cm_loops\<close> how many monitor goroutines
  are running.
\<close>

record 'r cluster =
  cm_ID :: string
  cm_nodes :: "string \<rightharpoonup> cnode"
  cm_leader :: string
  cm_config :: cluster_config
  cm_redis :: "'r option"
  cm_status :: cluster_status
  cm_closed :: bool
  cm_loops :: nat

definition NewClusterManager :: "string \<Rightarrow> 'r cluster" where
  "NewClusterManager ident =
     \<lparr>cm_ID = ident, cm_nodes = Map.empty, cm_leader = '''',
      cm_config = \<lparr>cc_LeaderElection = False, cc_HeartbeatTimeout = 30 * second,
        cc_RebalanceEnabled = False, cc_RebalanceInterval = 60 * second, cc_MinNodes = 1,
        cc_MaxNodes = 100\<rparr>,
      cm_redis = None, cm_status = ClusterStatusStopped, cm_closed = False, cm_loops = 0\<rparr>"

section \<open>Life cycle\<close>

datatype 's lifecycle = Okay 's | Refused string | ClosePanic

text \<open>A loop started after the channel was closed returns at its first select.\<close>

definition cm_Start :: "'r cluster \<Rightarrow> 'r cluster lifecycle" where
  "cm_Start cm =
     (if cm_status cm \<noteq> ClusterStatusStopped then Refused ''cluster manager already running''
      else Okay (cm\<lparr>cm_status := ClusterStatusRunning,
                    cm_loops := (if cm_closed cm then 0 else cm_loops cm + 1)\<rparr>))"

text \<open>Closing a closed channel panics.\<close>

definition cm_Stop :: "'r cluster \<Rightarrow> 'r cluster lifecycle" where
  "cm_Stop cm =
     (if cm_status cm \<noteq> ClusterStatusRunning then Refused ''cluster manager not running''
      else if cm_closed cm then ClosePanic
      else Okay (cm\<lparr>cm_status := ClusterStatusStopped, cm_closed := True, cm_loops := 0\<rparr>))"

section \<open>The node table\<close>

text \<open>\<open>nodes\<close> is what the registry lists; later entries with the same ID win.\<close>

definition updateNodeList :: "cnode list option \<Rightarrow> 'r cluster \<Rightarrow> 'r cluster" where
  "updateNodeList nodes cm =
     (case nodes of
        None \<Rightarrow> cm
      | Some ns \<Rightarrow> cm\<lparr>cm_nodes := foldl (\<lambda>m n. m(cn_ID n \<mapsto> n)) Map.empty ns\<rparr>)"

text \<open>
  The failed node leaves the table; the flag says whether a rebalancing goroutine is started.  The
  registry is told to drop it and its answer is only logged.
\<close>

definition handleNodeFailure :: "string \<Rightarrow> 'r cluster \<Rightarrow> 'r cluster \<times> bool" where
  "handleNodeFailure nodeID cm =
     (cm\<lparr>cm_nodes := (cm_nodes cm)(nodeID := None)\<rparr>, cc_RebalanceEnabled (cm_config cm))"

definition cluster_checkNodeHealth :: "gotime \<Rightarrow> string list \<Rightarrow> 'r cluster \<Rightarrow> 'r cluster" where
  "cluster_checkNodeHealth now ks cm =
     foldl (\<lambda>cm n. if now - cn_UpdatedAt n > cc_HeartbeatTimeout (cm_config cm)
                   then fst (handleNodeFailure (cn_ID n) cm) else cm)
       cm (values_of ks (cm_nodes cm))"

definition is_active :: "cnode \<Rightarrow> bool" where
  "is_active n \<longleftrightarrow> cn_Status n = ''active''"

definition healthy_count :: "string list \<Rightarrow> 'r cluster \<Rightarrow> int" where
  "healthy_count ks cm = int (length (filter is_active (values_of ks (cm_nodes cm))))"

definition updateClusterStatus :: "string list \<Rightarrow> 'r cluster \<Rightarrow> 'r cluster" where
  "updateClusterStatus ks cm =
     (let healthyCount = healthy_count ks cm in
      cm\<lparr>cm_status := (if healthyCount = 0 then ClusterStatusStopped
           else if healthyCount < cc_MinNodes (cm_config cm) then ClusterStatusDegraded
           else ClusterStatusRunning)\<rparr>)"

text \<open>One tick of \<open>monitorNodes\<close>; the loops over the map may visit it in three orders.\<close>

definition monitor_tick :: "cnode list option \<Rightarrow> gotime \<Rightarrow> string list \<Rightarrow> string list \<Rightarrow> 'r cluster \<Rightarrow>
    'r cluster" where
  "monitor_tick nodes now ks ks' cm =
     updateClusterStatus ks' (cluster_checkNodeHealth now ks (updateNodeList nodes cm))"

definition IsHealthy :: "'r cluster \<Rightarrow> bool" where
  "IsHealthy cm \<longleftrightarrow> cm_status cm = ClusterStatusRunning"

definition GetNodes :: "'r cluster \<Rightarrow> (string \<rightharpoonup> cnode)" where
  "GetNodes cm = cm_nodes cm"

section \<open>Leader election\<close>

definition electLeader :: "string list \<Rightarrow> 'r cluster \<Rightarrow> 'r cluster" where
  "electLeader ks cm =
     (case filter is_active (values_of ks (cm_nodes cm)) of
        [] \<Rightarrow> cm
      | n # ns \<Rightarrow> cm\<lparr>cm_leader := cn_ID (scan_best (\<lambda>a b. cn_ID a < cn_ID b) n ns)\<rparr>)"

section \<open>Rebalancing\<close>

definition node_queue :: "string \<Rightarrow> string" where
  "node_queue nodeID = ''crawler:queue:tasks:'' @ nodeID"

definition tasks_in_queue :: "(string \<rightharpoonup> cnode) \<Rightarrow> string \<Rightarrow> int option" where
  "tasks_in_queue nodes k =
     (case nodes k of None \<Rightarrow> None | Some n \<Rightarrow> map_option nm_TasksInQueue (cn_Metrics n))"

definition add_in_queue :: "int \<Rightarrow> string \<Rightarrow> (string \<rightharpoonup> cnode) \<Rightarrow> (string \<rightharpoonup> cnode)" where
  "add_in_queue d k nodes = nodes(k := map_option (\<lambda>n. n\<lparr>cn_Metrics := map_option
     (\<lambda>m. m\<lparr>nm_TasksInQueue := nm_TasksInQueue m + d\<rparr>) (cn_Metrics n)\<rparr>) (nodes k))"

text \<open>
  The inner loop: \<open>n\<close> rounds left, the targets from \<open>targetIndex\<close> on.  \<open>js to from\<close> is the stored
  JSON.  \<open>None\<close> is the panic of a command on a nil client.
\<close>

fun migrate_from :: "'r redis \<Rightarrow> (string \<Rightarrow> string \<Rightarrow> string) \<Rightarrow> string \<Rightarrow> int \<Rightarrow> nat \<Rightarrow> string list \<Rightarrow>
    (string \<rightharpoonup> cnode) \<Rightarrow> 'r option \<Rightarrow> ((string \<rightharpoonup> cnode) \<times> 'r option) option" where
  "migrate_from R js source ideal 0 targets nodes ro = Some (nodes, ro)"
| "migrate_from R js source ideal (Suc n) [] nodes ro = Some (nodes, ro)"
| "migrate_from R js source ideal (Suc n) (target # targets) nodes ro =
     (case tasks_in_queue nodes target of
        None \<Rightarrow> migrate_from R js source ideal n targets nodes ro
      | Some load \<Rightarrow>
          if ideal - load \<le> 0 then migrate_from R js source ideal n targets nodes ro
          else case ro of
            None \<Rightarrow> None
          | Some r \<Rightarrow>
              (case rd_RPop R (node_queue source) r of
                 (None, r1) \<Rightarrow> Some (nodes, Some r1)
               | (Some taskID, r1) \<Rightarrow>
                   (case rd_LPush R (node_queue target) taskID r1 of
                      (False, r2) \<Rightarrow>
                        migrate_from R js source ideal n (target # targets) nodes
                          (Some (snd (rd_LPush R (node_queue source) taskID r2)))
                    | (True, r2) \<Rightarrow>
                        (let r3 = snd (rd_Set R (''crawler:assignment:'' @ taskID) (js target source)
                                    (30 * minute) r2);
                             nodes1 = add_in_queue 1 target (add_in_queue (- 1) source nodes)
                         in migrate_from R js source ideal n
                              (if the (tasks_in_queue nodes1 target) \<ge> ideal then targets
                               else target # targets)
                              nodes1 (Some r3)))))"

fun migrateTasksBetweenNodes :: "'r redis \<Rightarrow> (string \<Rightarrow> string \<Rightarrow> string) \<Rightarrow> string list \<Rightarrow> string list \<Rightarrow>
    int \<Rightarrow> (string \<rightharpoonup> cnode) \<Rightarrow> 'r option \<Rightarrow> ((string \<rightharpoonup> cnode) \<times> 'r option) option" where
  "migrateTasksBetweenNodes R js [] underloaded ideal nodes ro = Some (nodes, ro)"
| "migrateTasksBetweenNodes R js (source # sources) underloaded ideal nodes ro =
     (case tasks_in_queue nodes source of
        None \<Rightarrow> migrateTasksBetweenNodes R js sources underloaded ideal nodes ro
      | Some load \<Rightarrow>
          if load - ideal \<le> 0 then migrateTasksBetweenNodes R js sources underloaded ideal nodes ro
          else case migrate_from R js source ideal (nat (load - ideal)) underloaded nodes ro of
                 None \<Rightarrow> None
               | Some (nodes1, ro1) \<Rightarrow>
                   migrateTasksBetweenNodes R js sources underloaded ideal nodes1 ro1)"

definition idealPerNode :: "cnode list \<Rightarrow> int" where
  "idealPerNode nodes =
     sum_list (map (\<lambda>n. nm_TasksInQueue (the (cn_Metrics n))) nodes) sdiv int (length nodes)"

text \<open>A node without metrics is dereferenced: \<open>None\<close>.  \<open>ks'\<close> orders the loop over the counts.\<close>

definition rebalanceTasks :: "'r redis \<Rightarrow> (string \<Rightarrow> string \<Rightarrow> string) \<Rightarrow> string list \<Rightarrow> string list \<Rightarrow>
    'r cluster \<Rightarrow> 'r cluster option" where
  "rebalanceTasks R js ks ks' cm =
     (let nodes = filter is_active (values_of ks (cm_nodes cm)) in
      if length nodes < 2 then Some cm
      else if \<exists>n \<in> set nodes. cn_Metrics n = None then None
      else
        let taskCounts = map_of (map (\<lambda>n. (cn_ID n, nm_TasksInQueue (the (cn_Metrics n)))) (rev nodes));
            ideal = idealPerNode nodes;
            count = (\<lambda>k. case taskCounts k of None \<Rightarrow> ideal | Some c \<Rightarrow> c);
            overloaded = filter (\<lambda>k. count k > ideal + 10) ks';
            underloaded = filter (\<lambda>k. count k < ideal - 10) ks'
        in if overloaded = [] \<or> underloaded = [] then Some cm
           else case migrateTasksBetweenNodes R js overloaded underloaded ideal (cm_nodes cm) (cm_redis cm) of
                  None \<Rightarrow> None
                | Some (nodes1, ro1) \<Rightarrow> Some (cm\<lparr>cm_nodes := nodes1, cm_redis := ro1\<rparr>))"

section \<open>Metrics\<close>

record cluster_metrics =
  km_TotalNodes :: int
  km_ActiveNodes :: int
  km_TotalWorkers :: int
  km_TotalTasks :: int
  km_TotalTasksFailed :: int
  km_TotalBytesDownloaded :: int
  km_TotalItemsExtracted :: int

definition sum_metric :: "(node_metrics \<Rightarrow> int) \<Rightarrow> cnode list \<Rightarrow> int" where
  "sum_metric f ns = sum_list (map (\<lambda>n. case cn_Metrics n of None \<Rightarrow> 0 | Some m \<Rightarrow> f m) ns)"

definition getClusterMetrics :: "string list \<Rightarrow> 'r cluster \<Rightarrow> cluster_metrics" where
  "getClusterMetrics ks cm =
     (let ns = values_of ks (cm_nodes cm) in
      \<lparr>km_TotalNodes = int (length ns), km_ActiveNodes = int (length (filter is_active ns)),
       km_TotalWorkers = sum_list (map cn_MaxWorkers ns),
       km_TotalTasks = sum_metric nm_TasksProcessed ns,
       km_TotalTasksFailed = sum_metric nm_TasksFailed ns,
       km_TotalBytesDownloaded = sum_metric nm_BytesDownloaded ns,
       km_TotalItemsExtracted = sum_metric nm_ItemsExtracted ns\<rparr>)"


section \<open>The leader\<close>

interpretation lowest_id: strict_order_scan "\<lambda>a b. cn_ID a < cn_ID b"
  by unfold_locales auto

definition keyed_by_id :: "(string \<rightharpoonup> cnode) \<Rightarrow> bool" where
  "keyed_by_id nodes \<longleftrightarrow> (\<forall>k n. nodes k = Some n \<longrightarrow> cn_ID n = k)"

lemma updateNodeList_keyed:
  "keyed_by_id (cm_nodes cm) \<Longrightarrow> keyed_by_id (cm_nodes (updateNodeList nodes cm))"
proof (cases nodes)
  case (Some ns)
  have upd: "keyed_by_id (m(cn_ID n \<mapsto> n))" if "keyed_by_id m" for m n
    using that by (simp add: keyed_by_id_def)
  have fold: "keyed_by_id (foldl (\<lambda>m n. m(cn_ID n \<mapsto> n)) m ns)" if "keyed_by_id m" for m
    using that by (induction ns arbitrary: m) (auto intro: upd)
  have "keyed_by_id (foldl (\<lambda>m n. m(cn_ID n \<mapsto> n)) Map.empty ns)"
    by (rule fold) (simp add: keyed_by_id_def)
  then show ?thesis by (simp add: updateNodeList_def Some)
qed (simp add: updateNodeList_def)
definition active_ids :: "'r cluster \<Rightarrow> string set" where
  "active_ids cm = {k. \<exists>n. cm_nodes cm k = Some n \<and> is_active n}"

text \<open>
  The election picks the lowest ID among the active nodes, whatever the order in which the map is
  visited, and keeps the old leader when no node is active.
\<close>
theorem electLeader_lowest:
  assumes "enumerates ks (cm_nodes cm)" and "keyed_by_id (cm_nodes cm)"
  shows "if active_ids cm = {} then electLeader ks cm = cm
    else cm_leader (electLeader ks cm) \<in> active_ids cm \<and>
      (\<forall>k \<in> active_ids cm. cm_leader (electLeader ks cm) \<le> k)"
proof -
  let ?ns = "filter is_active (values_of ks (cm_nodes cm))"
  have mem: "n \<in> set ?ns \<longleftrightarrow> cm_nodes cm (cn_ID n) = Some n \<and> is_active n" for n
    using assms by (auto simp: set_values_of_enum ran_def keyed_by_id_def)
  have ids: "active_ids cm = cn_ID ` set ?ns"
  proof (intro set_eqI iffI)
    fix k
    assume "k \<in> active_ids cm"
    then obtain n where "cm_nodes cm k = Some n" "is_active n" by (auto simp: active_ids_def)
    moreover from this assms(2) have "cn_ID n = k" by (simp add: keyed_by_id_def)
    ultimately have "n \<in> set ?ns" using mem by simp
    with \<open>cn_ID n = k\<close> show "k \<in> cn_ID ` set ?ns" by blast
  next
    fix k
    assume "k \<in> cn_ID ` set ?ns"
    then obtain n where "n \<in> set ?ns" "k = cn_ID n" by blast
    with mem [of n] show "k \<in> active_ids cm" by (auto simp: active_ids_def)
  qed  show ?thesis
  proof (cases ?ns)
    case Nil
    then show ?thesis by (simp add: ids electLeader_def)
  next
    case (Cons n ns)
    let ?b = "scan_best (\<lambda>a b. cn_ID a < cn_ID b) n ns"
    have "?b \<in> set ?ns" using scan_best_mem [of _ n ns] Cons by simp
    moreover have "cn_ID ?b \<le> cn_ID x" if "x \<in> set ?ns" for x
      using lowest_id.scan_best_unbeaten [of x n ns] that Cons by (simp add: not_less)
    moreover have "cm_leader (electLeader ks cm) = cn_ID ?b"
      by (simp add: electLeader_def Cons)
    ultimately show ?thesis unfolding ids by (auto simp: Cons)
  qed
qed

definition sample_node :: "string \<Rightarrow> string \<Rightarrow> int \<Rightarrow> cnode" where
  "sample_node ident st load = \<lparr>cn_ID = ident, cn_Hostname = '''', cn_IP = ''10.0.0.1'', cn_Port = 80,
     cn_Status = st, cn_Tags = [], cn_Capabilities = [], cn_MaxWorkers = 4, cn_UpdatedAt = 0,
     cn_LastHeartbeat = 0, cn_Metrics = Some \<lparr>nm_TasksProcessed = 0, nm_TasksInQueue = load,
       nm_TasksFailed = 0, nm_BytesDownloaded = 0, nm_ItemsExtracted = 0\<rparr>\<rparr>"

theorem electLeader_lowest_witness:
  "let cm = updateNodeList (Some [sample_node ''n2'' ''active'' 0, sample_node ''n1'' ''paused'' 0])
      (NewClusterManager ''c'' :: unit cluster)
   in cm_leader (electLeader [''n1'', ''n2''] cm) \<in> active_ids cm \<and> active_ids cm = {''n2''}"
proof -
  let ?cm = "updateNodeList (Some [sample_node ''n2'' ''active'' 0, sample_node ''n1'' ''paused'' 0])
      (NewClusterManager ''c'' :: unit cluster)"
  have "enumerates [''n1'', ''n2''] (cm_nodes ?cm)"
    by (auto simp: enumerates_def updateNodeList_def sample_node_def)
  moreover have "keyed_by_id (cm_nodes ?cm)"
    by (rule updateNodeList_keyed) (simp add: keyed_by_id_def NewClusterManager_def)
  moreover have "active_ids ?cm = {''n2''}"
    by (auto simp: active_ids_def updateNodeList_def sample_node_def is_active_def split: if_splits)
  ultimately show ?thesis using electLeader_lowest [of "[''n1'', ''n2'']" ?cm] by (simp add: Let_def)
qed

section \<open>Life cycle\<close>

text \<open>
  The life cycle and the health monitor share one status field.  A running cluster whose last node
  is lost is marked stopped: \<open>Stop\<close> is then refused while the monitor still runs, and \<open>Start\<close> is
  accepted and runs a second one.  And a cluster that was stopped once cannot be used again: a
  restart runs no monitor and the next \<open>Stop\<close> closes the channel a second time, a panic.
\<close>
theorem cluster_life_cycle:
  assumes "cm_status cm = ClusterStatusStopped" and "\<not> cm_closed cm"
    and "cm_Start cm = Okay c1"
  shows "cm_loops c1 = cm_loops cm + 1 \<and>
    (\<forall>nodes now ks ks'. let c2 = monitor_tick nodes now ks ks' c1 in
       healthy_count ks' c2 = 0 \<longrightarrow>
         cm_Stop c2 = Refused ''cluster manager not running'' \<and>
         (\<exists>c3. cm_Start c2 = Okay c3 \<and> cm_loops c3 = cm_loops cm + 2)) \<and>
    (\<exists>c4 c5. cm_Stop c1 = Okay c4 \<and> cm_Start c4 = Okay c5 \<and> cm_loops c5 = 0 \<and> cm_Stop c5 = ClosePanic)"
proof -
  have c1: "c1 = cm\<lparr>cm_status := ClusterStatusRunning, cm_loops := cm_loops cm + 1\<rparr>"
    using assms by (simp add: cm_Start_def)
  have loops: "cm_loops (cluster_checkNodeHealth now ks c) = cm_loops c \<and>
      cm_closed (cluster_checkNodeHealth now ks c) = cm_closed c" for now ks and c :: "'a cluster"
  proof -
    have "cm_loops (foldl (\<lambda>cm n. if P n cm then fst (handleNodeFailure (cn_ID n) cm) else cm) c ns) = cm_loops c \<and>
        cm_closed (foldl (\<lambda>cm n. if P n cm then fst (handleNodeFailure (cn_ID n) cm) else cm) c ns) = cm_closed c"
      for P ns and c :: "'a cluster"
      by (induction ns arbitrary: c) (simp_all add: handleNodeFailure_def)
    then show ?thesis by (simp add: cluster_checkNodeHealth_def)
  qed
  have tick: "cm_loops (monitor_tick nodes now ks ks' c1) = cm_loops cm + 1"
    "\<not> cm_closed (monitor_tick nodes now ks ks' c1)" for nodes now ks ks'
    using assms(2) by (simp_all add: monitor_tick_def updateClusterStatus_def Let_def loops
        updateNodeList_def c1 split: option.splits)
  have status: "healthy_count ks' (monitor_tick nodes now ks ks' c1) = 0 \<Longrightarrow>
      cm_status (monitor_tick nodes now ks ks' c1) = ClusterStatusStopped" for nodes now ks ks'
    by (simp add: monitor_tick_def updateClusterStatus_def Let_def healthy_count_def)
  show ?thesis
    using assms(2) by (auto simp: c1 [symmetric] cm_Stop_def cm_Start_def Let_def tick status)
      (simp_all add: c1)
qed


theorem cluster_life_cycle_witness:
  "\<exists>c1. cm_Start (NewClusterManager ''c'' :: unit cluster) = Okay c1 \<and>
    cm_Stop (monitor_tick (Some []) 0 [] [] c1) = Refused ''cluster manager not running'' \<and>
    (\<exists>c4 c5. cm_Stop c1 = Okay c4 \<and> cm_Start c4 = Okay c5 \<and> cm_Stop c5 = ClosePanic)"
proof -
  let ?cm = "NewClusterManager ''c'' :: unit cluster"
  obtain c1 where c1: "cm_Start ?cm = Okay c1" by (simp add: cm_Start_def NewClusterManager_def)
  have "cm_status ?cm = ClusterStatusStopped" "\<not> cm_closed ?cm" by (simp_all add: NewClusterManager_def)
  moreover have "healthy_count [] (monitor_tick (Some []) 0 [] [] c1) = 0"
    by (simp add: healthy_count_def)
  ultimately show ?thesis using cluster_life_cycle [OF _ _ c1] c1 by (fastforce simp: Let_def)
qed

section \<open>Migration\<close>

lemma node_queue_inj [simp]: "node_queue a = node_queue b \<longleftrightarrow> a = b"
  by (simp add: node_queue_def)

lemma tasks_in_queue_add [simp]:
  "tasks_in_queue (add_in_queue d k nodes) k' =
     (if k' = k then map_option ((+) d) (tasks_in_queue nodes k) else tasks_in_queue nodes k')"
  by (auto simp: tasks_in_queue_def add_in_queue_def option.map_comp comp_def algebra_simps
      split: option.splits)

definition queued :: "('r \<Rightarrow> string \<Rightarrow> string list) \<Rightarrow> string set \<Rightarrow> 'r \<Rightarrow> string multiset" where
  "queued lst K r = (\<Sum>k\<in>K. mset (lst r (node_queue k)))"

lemma queued_move:
  assumes "finite K" and "s \<in> K" and "t \<in> K" and "s \<noteq> t"
    and "lst r (node_queue s) = l @ [x]"
    and "\<And>k. lst r1 (node_queue k) =
      ((lst r)(node_queue s := l, node_queue t := x # lst r (node_queue t))) (node_queue k)"
  shows "queued lst K r1 = queued lst K r"
proof -
  have K: "K = insert s (insert t (K - {s, t}))" using assms(2,3) by blast
  have "queued lst K r' = mset (lst r' (node_queue s)) + mset (lst r' (node_queue t)) +
      (\<Sum>k\<in>K - {s, t}. mset (lst r' (node_queue k)))" for r'
    unfolding queued_def using assms(1,4) by (subst K) simp
  moreover have "(\<Sum>k\<in>K - {s, t}. mset (lst r1 (node_queue k))) =
      (\<Sum>k\<in>K - {s, t}. mset (lst r (node_queue k)))"
    by (rule sum.cong) (auto simp: assms(6))
  ultimately show ?thesis using assms(4,5,6) by simp
qed

text \<open>
  How the counts in the nodes' metrics may change while tasks leave the nodes \<open>S\<close> for the nodes \<open>T\<close>:
  no source falls below the ideal, no target rises above it.
\<close>

definition load_moves :: "string set \<Rightarrow> string set \<Rightarrow> int \<Rightarrow> string \<Rightarrow> int \<Rightarrow> int \<Rightarrow> bool" where
  "load_moves S T ideal k a b \<longleftrightarrow>
     (if k \<in> S then min a ideal \<le> b \<and> b \<le> a
      else if k \<in> T then a \<le> b \<and> b \<le> max a ideal else b = a)"

definition loads_move :: "string set \<Rightarrow> string set \<Rightarrow> int \<Rightarrow> (string \<rightharpoonup> cnode) \<Rightarrow> (string \<rightharpoonup> cnode) \<Rightarrow> bool" where
  "loads_move S T ideal nodes nodes1 \<longleftrightarrow>
     (\<forall>k. rel_option (load_moves S T ideal k) (tasks_in_queue nodes k) (tasks_in_queue nodes1 k))"

lemma loads_move_refl: "loads_move S T ideal nodes nodes"
  by (simp add: loads_move_def load_moves_def option.rel_refl)

lemma loads_move_trans:
  assumes "loads_move S T ideal nodes nodes1" and "loads_move S T ideal nodes1 nodes2"
  shows "loads_move S T ideal nodes nodes2"
  unfolding loads_move_def
proof
  fix k
  have "(load_moves S T ideal k OO load_moves S T ideal k) \<le> load_moves S T ideal k"
    by (auto simp: load_moves_def split: if_splits)
  moreover have "rel_option (load_moves S T ideal k OO load_moves S T ideal k)
      (tasks_in_queue nodes k) (tasks_in_queue nodes2 k)"
    using assms by (auto simp: loads_move_def option.rel_compp)
  ultimately show "rel_option (load_moves S T ideal k) (tasks_in_queue nodes k) (tasks_in_queue nodes2 k)"
    by (blast dest: option.rel_mono [THEN predicate2D])
qed

lemma loads_move_step:
  assumes "s \<in> S" and "t \<in> T" and "S \<inter> T = {}"
    and "tasks_in_queue nodes s = Some a" and "ideal < a"
    and "tasks_in_queue nodes t = Some b" and "b < ideal"
  shows "loads_move S T ideal nodes (add_in_queue 1 t (add_in_queue (- 1) s nodes))"
proof -
  have "s \<noteq> t" "t \<notin> S" using assms(1-3) by auto
  then show ?thesis using assms
    by (auto simp: loads_move_def load_moves_def rel_option_iff split: option.splits)
qed

text \<open>Redis in a state where pushes succeed.\<close>

definition pushes_ok :: "'r redis \<Rightarrow> bool" where
  "pushes_ok R \<longleftrightarrow> (\<forall>k v r. fst (rd_LPush R k v r))"

lemma migrate_from_spec:
  assumes laws: "redis_lists R lst" "pushes_ok R" and fin: "finite K" "source \<in> K" "T \<subseteq> K"
    and disj: "source \<in> S" "S \<inter> T = {}"
    and run: "set targets \<subseteq> T" "tasks_in_queue nodes source = Some a" "ideal + int n \<le> a"
    "migrate_from R js source ideal n targets nodes (Some r) = res"
  shows "\<exists>nodes1 r1. res = Some (nodes1, Some r1) \<and> queued lst K r1 = queued lst K r \<and>
    loads_move S T ideal nodes nodes1"
  using run
proof (induction n arbitrary: targets a nodes r res)
  case 0
  then show ?case by (auto intro: loads_move_refl)
next
  case (Suc n)
  show ?case
  proof (cases targets)
    case Nil
    with Suc.prems show ?thesis by (auto intro: loads_move_refl)
  next
    case (Cons t ts)
    have t: "t \<in> T" "t \<in> K" "set ts \<subseteq> T" "source \<noteq> t"
      using Suc.prems(1) Cons fin(3) disj by auto
    show ?thesis
    proof (cases "\<exists>b. tasks_in_queue nodes t = Some b \<and> b < ideal")
      case False
      then have "res = migrate_from R js source ideal n ts nodes (Some r)"
        using Suc.prems(4) Cons by (auto split: option.splits)
      then show ?thesis using Suc.IH [OF t(3), of nodes a r] Suc.prems(2,3) by simp
    next
      case True
      then obtain b where b: "tasks_in_queue nodes t = Some b" "b < ideal" by blast
      obtain x r1 where pop: "rd_RPop R (node_queue source) r = (x, r1)"
        by (cases "rd_RPop R (node_queue source) r")
      show ?thesis
      proof (cases x)
        case None
        have "res = Some (nodes, Some r1)" using Suc.prems(4) Cons b pop None by simp
        moreover have "lst r1 = lst r" by (rule redis_listsD(5) [OF laws(1)]) (use pop None in simp)
        ultimately show ?thesis by (auto simp: queued_def intro: loads_move_refl)
      next
        case (Some taskID)
        obtain r2 where push: "rd_LPush R (node_queue t) taskID r1 = (True, r2)"
          using laws(2) by (metis (full_types) pushes_ok_def prod.collapse)
        let ?r3 = "snd (rd_Set R (''crawler:assignment:'' @ taskID) (js t source) (30 * minute) r2)"
        let ?nodes = "add_in_queue 1 t (add_in_queue (- 1) source nodes)"
        let ?ts = "if the (tasks_in_queue ?nodes t) \<ge> ideal then ts else t # ts"
        have popped: "lst r (node_queue source) = butlast (lst r (node_queue source)) @ [taskID]"
            "lst r1 = (lst r)(node_queue source := butlast (lst r (node_queue source)))"
          using redis_listsD(6) [OF laws(1), of "node_queue source" r taskID r1] pop Some by simp_all
        have "lst ?r3 (node_queue k) = lst r2 (node_queue k)" for k
          by (rule redis_listsD(7) [OF laws(1)]) (simp add: node_queue_def)
        moreover have "lst r2 = (lst r1)(node_queue t := taskID # lst r1 (node_queue t))"
          using redis_listsD(4) [OF laws(1) push] by simp
        ultimately have "queued lst K ?r3 = queued lst K r"
          using popped t
          by (intro queued_move [where lst = lst and r = r, OF fin(1,2) t(2,4) popped(1)]) simp
        moreover have "loads_move S T ideal nodes ?nodes"
          using disj t(1) Suc.prems(2,3) b by (intro loads_move_step) auto
        moreover have "res = migrate_from R js source ideal n ?ts ?nodes (Some ?r3)"
          using Suc.prems(4) Cons b pop Some push by (simp add: Let_def del: tasks_in_queue_add)
        moreover have "tasks_in_queue ?nodes source = Some (a - 1)" using Suc.prems(2) t by simp
        moreover have "set ?ts \<subseteq> T" using t by auto
        ultimately show ?thesis
          using Suc.IH [of ?ts ?nodes "a - 1" ?r3] Suc.prems(3)
          by (fastforce intro: loads_move_trans)
      qed
    qed
  qed
qed

lemma migrateTasks_spec:
  assumes laws: "redis_lists R lst" "pushes_ok R" and fin: "finite K" "S \<subseteq> K" "T \<subseteq> K"
    and disj: "S \<inter> T = {}"
    and run: "set sources \<subseteq> S" "set targets \<subseteq> T"
    "migrateTasksBetweenNodes R js sources targets ideal nodes (Some r) = res"
  shows "\<exists>nodes1 r1. res = Some (nodes1, Some r1) \<and> queued lst K r1 = queued lst K r \<and>
    loads_move S T ideal nodes nodes1"
  using run
proof (induction sources arbitrary: nodes r res)
  case Nil
  then show ?case by (auto intro: loads_move_refl)
next
  case (Cons s ss)
  show ?case
  proof (cases "\<exists>a. tasks_in_queue nodes s = Some a \<and> ideal < a")
    case False
    then have "res = migrateTasksBetweenNodes R js ss targets ideal nodes (Some r)"
      using Cons.prems(3) by (auto split: option.splits)
    then show ?thesis using Cons.IH [of nodes r] Cons.prems(1,2) by simp
  next
    case True
    then obtain a where a: "tasks_in_queue nodes s = Some a" "ideal < a" by blast
    have "s \<in> K" "s \<in> S" using Cons.prems(1) fin(2) by auto
    then obtain nodes1 r1 where one: "migrate_from R js s ideal (nat (a - ideal)) targets nodes (Some r) = Some (nodes1, Some r1)"
      "queued lst K r1 = queued lst K r" "loads_move S T ideal nodes nodes1"
      using migrate_from_spec [OF laws fin(1) _ fin(3) _ disj Cons.prems(2) a(1), where
          n = "nat (a - ideal)" and js = js and r = r and ideal = ideal] a(2)
      by auto
    moreover have "res = migrateTasksBetweenNodes R js ss targets ideal nodes1 (Some r1)"
      using Cons.prems(3) a one by simp
    ultimately show ?thesis
      using Cons.IH [of nodes1 r1] Cons.prems(1,2) by (fastforce intro: loads_move_trans)
  qed
qed

text \<open>
  C8: Rebalancing with a working Redis loses and duplicates no queued task: over the nodes of the
  cluster the queues hold the same tasks as before.  In the nodes' metrics no overloaded node drops
  below the ideal share and no other node ends above both its old load and the ideal.
\<close>
theorem rebalance_conserves:
  assumes "redis_lists R lst" and "pushes_ok R" and "enumerates ks (cm_nodes cm)"
    and "keyed_by_id (cm_nodes cm)" and "cm_redis cm = Some r" and "set ks' \<subseteq> set ks"
    and "rebalanceTasks R js ks ks' cm = Some cm1"
  shows "\<exists>r1. cm_redis cm1 = Some r1 \<and> queued lst (set ks) r1 = queued lst (set ks) r \<and>
    (\<forall>k a b. tasks_in_queue (cm_nodes cm) k = Some a \<longrightarrow> tasks_in_queue (cm_nodes cm1) k = Some b \<longrightarrow>
       (let ideal = idealPerNode (filter is_active (values_of ks (cm_nodes cm)))
        in min a ideal \<le> b \<and> b \<le> max a ideal))"
proof -
  let ?ns = "filter is_active (values_of ks (cm_nodes cm))"
  let ?counts = "map_of (map (\<lambda>n. (cn_ID n, nm_TasksInQueue (the (cn_Metrics n)))) (rev ?ns))"
  let ?ideal = "idealPerNode ?ns"
  let ?count = "\<lambda>k. case ?counts k of None \<Rightarrow> ?ideal | Some c \<Rightarrow> c"
  let ?over = "filter (\<lambda>k. ?count k > ?ideal + 10) ks'"
  let ?under = "filter (\<lambda>k. ?count k < ?ideal - 10) ks'"
  have same: ?thesis if "cm1 = cm"
    using that assms(5) by (intro exI [of _ r]) auto
  show ?thesis
  proof (cases "length ?ns < 2 \<or> ?over = [] \<or> ?under = []")
    case True
    then have "cm1 = cm" using assms(7) by (auto simp: rebalanceTasks_def Let_def split: if_splits)
    then show ?thesis by (rule same)
  next
    case False
    obtain nodes1 ro1 where mig: "migrateTasksBetweenNodes R js ?over ?under ?ideal (cm_nodes cm) (Some r) =
        Some (nodes1, ro1)" "cm1 = cm\<lparr>cm_nodes := nodes1, cm_redis := ro1\<rparr>"
      using assms(5,7) False by (auto simp: rebalanceTasks_def Let_def split: if_splits option.splits prod.splits)
    have "set ?over \<inter> set ?under = {}" by auto
    moreover have "set ?over \<subseteq> set ks" "set ?under \<subseteq> set ks" using assms(6) by auto
    ultimately obtain r1 where r1: "ro1 = Some r1" "queued lst (set ks) r1 = queued lst (set ks) r"
      "loads_move (set ?over) (set ?under) ?ideal (cm_nodes cm) nodes1"
      using migrateTasks_spec [OF assms(1,2) _ _ _ _ subset_refl subset_refl mig(1), of "set ks"] by auto
    have "min a ?ideal \<le> b \<and> b \<le> max a ?ideal"
      if "tasks_in_queue (cm_nodes cm) k = Some a" "tasks_in_queue nodes1 k = Some b" for k a b
    proof -
      have "load_moves (set ?over) (set ?under) ?ideal k a b"
        using r1(3) that by (auto simp: loads_move_def dest: spec [of _ k])
      then show ?thesis unfolding load_moves_def by (auto split: if_splits)
    qed
    then show ?thesis using r1 mig(2) by (intro exI [of _ r1]) (simp add: Let_def)
  qed
qed


definition sample_cluster :: "mem_state cluster" where
  "sample_cluster = (updateNodeList (Some [sample_node ''n1'' ''active'' 30, sample_node ''n2'' ''active'' 0])
     (NewClusterManager ''c''))\<lparr>cm_redis := Some (mem_empty\<lparr>ms_lists :=
       (\<lambda>_. [])(node_queue ''n1'' := [''t1''])\<rparr>)\<rparr>"

lemma mem_pushes_ok: "pushes_ok mem_redis"
  by (simp add: pushes_ok_def mem_redis_def)

lemma sample_rebalance:
  "rebalanceTasks mem_redis (\<lambda>_ _. '''') [''n1'', ''n2''] [''n2'', ''n1''] sample_cluster \<noteq> None"
  by (simp add: rebalanceTasks_def sample_cluster_def updateNodeList_def sample_node_def is_active_def
      idealPerNode_def mem_redis_def mem_empty_def tasks_in_queue_def add_in_queue_def Let_def
      node_queue_def NewClusterManager_def numeral_eq_Suc)

theorem rebalance_conserves_witness:
  "\<exists>cm1 r1. rebalanceTasks mem_redis (\<lambda>_ _. '''') [''n1'', ''n2''] [''n2'', ''n1''] sample_cluster = Some cm1 \<and>
    cm_redis cm1 = Some r1 \<and> queued ms_lists {''n1'', ''n2''} r1 = {#''t1''#}"
proof -
  obtain cm1 where run: "rebalanceTasks mem_redis (\<lambda>_ _. '''') [''n1'', ''n2''] [''n2'', ''n1'']
      sample_cluster = Some cm1"
    using sample_rebalance by blast
  let ?r = "mem_empty\<lparr>ms_lists := (\<lambda>_. [])(node_queue ''n1'' := [''t1''])\<rparr>"
  have nodes: "cm_nodes sample_cluster = [''n1'' \<mapsto> sample_node ''n1'' ''active'' 30, ''n2'' \<mapsto> sample_node ''n2'' ''active'' 0]"
    by (simp add: sample_cluster_def updateNodeList_def sample_node_def)
  have "enumerates [''n1'', ''n2''] (cm_nodes sample_cluster)" "keyed_by_id (cm_nodes sample_cluster)"
    by (auto simp: nodes enumerates_def keyed_by_id_def sample_node_def split: if_splits)
  moreover have "cm_redis sample_cluster = Some ?r" by (simp add: sample_cluster_def)
  ultimately obtain r1 where "cm_redis cm1 = Some r1"
    "queued ms_lists (set [''n1'', ''n2'']) r1 = queued ms_lists (set [''n1'', ''n2'']) ?r"
    using rebalance_conserves [OF mem_redis_lists mem_pushes_ok _ _ _ _ run, of ?r] by auto
  moreover have "queued ms_lists (set [''n1'', ''n2'']) ?r = {#''t1''#}"
    by (simp add: queued_def mem_empty_def)
  ultimately show ?thesis using run by auto
qed

end
