(* ===== verification/ResultMiddleware.thy ===== *)
theory ResultMiddleware
  imports CrawlTask Redis
begin

text \<open>
  The middlewares a task result goes through (src/crawler/distributed/middleware.go and
  batch_middleware.go) and the Redis key builders of src/crawler/common/constants.go.  The JSON
  encoder is an argument that maps an event to its text, or \<open>None\<close> when it fails; \<open>now\<close> is the
  formatted time.
\<close>

section \<open>Results and keys\<close>

record task_result =
  tr_TaskID :: string
  tr_NodeID :: string
  tr_WorkerID :: string
  tr_Status :: string
  tr_Data :: "(string \<times> goval) list list"
  tr_Error :: string
  tr_StartTime :: gotime
  tr_EndTime :: gotime
  tr_Duration :: duration
  tr_BytesRead :: int
  tr_BatchID :: string
  tr_BatchSize :: int
  tr_BatchIndex :: int
  tr_BatchType :: string
  tr_ProjectID :: string
  tr_Source :: string
  tr_Metadata :: "(string \<rightharpoonup> goval) option"

definition DefaultRedisPrefix :: string where "DefaultRedisPrefix = ''crawler''"
definition RedisKeyTasksCompleted :: string where "RedisKeyTasksCompleted = ''tasks:completed''"

definition BuildRedisKey :: "string \<Rightarrow> string \<Rightarrow> string" where
  "BuildRedisKey pre key = (if pre = '''' then DefaultRedisPrefix else pre) @ '':'' @ key"

definition BuildRedisPattern :: "string \<Rightarrow> string \<Rightarrow> string" where
  "BuildRedisPattern pre pattern = (if pre = '''' then DefaultRedisPrefix else pre) @ '':'' @ pattern @ '':*''"

section \<open>The chain\<close>

datatype mw_result = MwOk | MwErr string | MwPanic

type_synonym 'w result_handler = "task_result \<Rightarrow> 'w \<Rightarrow> mw_result \<times> 'w"

definition chain_Use :: "('w result_handler \<Rightarrow> 'w result_handler) \<Rightarrow>
    ('w result_handler \<Rightarrow> 'w result_handler) list \<Rightarrow> ('w result_handler \<Rightarrow> 'w result_handler) list" where
  "chain_Use m ms = ms @ [m]"

definition chain_Execute :: "('w result_handler \<Rightarrow> 'w result_handler) list \<Rightarrow> 'w result_handler" where
  "chain_Execute ms = foldr (\<lambda>m next. m next) ms (\<lambda>r w. (MwOk, w))"

section \<open>Events\<close>

datatype completion_event =
    TaskCompleted (ev_task_id: string) (ev_status: string) (ev_timestamp: string)
      (ev_data_count: nat) (ev_error: string) (ev_duration: duration)
  | BatchCompleted (ev_batch_id: string) (ev_batch_type: string) (ev_batch_size: int)
      (ev_timestamp: string) (ev_metadata: "string \<rightharpoonup> goval")

definition single_event :: "string \<Rightarrow> task_result \<Rightarrow> completion_event" where
  "single_event now r = TaskCompleted (tr_TaskID r) (tr_Status r) now (length (tr_Data r)) (tr_Error r)
     (tr_Duration r)"

text \<open>The result's own metadata overrides the two standard entries.\<close>

definition batch_event :: "string \<Rightarrow> task_result \<Rightarrow> completion_event" where
  "batch_event now r = BatchCompleted (tr_BatchID r) (tr_BatchType r) (tr_BatchSize r) now
     ([''project_id'' \<mapsto> GStr (tr_ProjectID r), ''source'' \<mapsto> GStr (tr_Source r)] ++
      (case tr_Metadata r of None \<Rightarrow> Map.empty | Some m \<Rightarrow> m))"

section \<open>Batch aggregation\<close>

record batch_mw =
  bm_prefix :: string
  bm_ttl :: duration

definition NewBatchAggregator :: "string \<Rightarrow> batch_mw" where
  "NewBatchAggregator pre = \<lparr>bm_prefix = pre, bm_ttl = 2 * hour\<rparr>"

definition SetBatchTTL :: "duration \<Rightarrow> batch_mw \<Rightarrow> batch_mw" where
  "SetBatchTTL ttl bm = bm\<lparr>bm_ttl := ttl\<rparr>"

definition processed_key :: "batch_mw \<Rightarrow> string \<Rightarrow> string" where
  "processed_key bm batchID = bm_prefix bm @ '':batch:'' @ batchID @ '':processed''"

definition publishSingleTaskEvent :: "'r redis \<Rightarrow> (completion_event \<Rightarrow> string option) \<Rightarrow> string \<Rightarrow> batch_mw \<Rightarrow>
    'r result_handler \<Rightarrow> 'r result_handler" where
  "publishSingleTaskEvent R enc now bm next result r =
     (case enc (single_event now result) of
        None \<Rightarrow> next result r
      | Some js \<Rightarrow> next result (snd (rd_RPush R (BuildRedisKey (bm_prefix bm) RedisKeyTasksCompleted) js r)))"

text \<open>Whether the event was published, and the state after.\<close>

definition publishBatchCompleteEvent :: "'r redis \<Rightarrow> (completion_event \<Rightarrow> string option) \<Rightarrow> string \<Rightarrow> batch_mw \<Rightarrow>
    task_result \<Rightarrow> 'r \<Rightarrow> bool \<times> 'r" where
  "publishBatchCompleteEvent R enc now bm result r =
     (case enc (batch_event now result) of
        None \<Rightarrow> (False, r)
      | Some js \<Rightarrow> rd_RPush R (BuildRedisKey (bm_prefix bm) RedisKeyTasksCompleted) js r)"

definition BatchAggregator_Process :: "'r redis \<Rightarrow> (completion_event \<Rightarrow> string option) \<Rightarrow> string \<Rightarrow> batch_mw \<Rightarrow>
    'r result_handler \<Rightarrow> 'r result_handler" where
  "BatchAggregator_Process R enc now bm next result r =
     (if tr_BatchID result = '''' then publishSingleTaskEvent R enc now bm next result r
      else
        let key = processed_key bm (tr_BatchID result) in
        case rd_Incr R key r of
          (None, r1) \<Rightarrow> (MwErr ''incr'', r1)
        | (Some processedCount, r1) \<Rightarrow>
            (let r2 = (if processedCount = 1 then snd (rd_Expire R key (bm_ttl bm) r1) else r1);
                 r3 = (if processedCount \<ge> tr_BatchSize result
                       then snd (rd_Del R key (snd (publishBatchCompleteEvent R enc now bm result r2)))
                       else r2)
             in next result r3))"

text \<open>The plain publisher, which the coordinator does not install.\<close>

definition EventPublish_Process :: "'r redis \<Rightarrow> (completion_event \<Rightarrow> string option) \<Rightarrow> string \<Rightarrow>
    'r result_handler \<Rightarrow> 'r result_handler" where
  "EventPublish_Process R enc now next result r =
     (case enc (single_event now result) of
        None \<Rightarrow> next result r
      | Some js \<Rightarrow> next result (snd (rd_RPush R (BuildRedisKey DefaultRedisPrefix RedisKeyTasksCompleted) js r)))"

section \<open>Counting\<close>

record result_metrics =
  rm_success :: int
  rm_failure :: int
  rm_items :: int

definition NewResultMetrics :: result_metrics where
  "NewResultMetrics = \<lparr>rm_success = 0, rm_failure = 0, rm_items = 0\<rparr>"

text \<open>At every hundredth result the average is logged: a division by zero when none succeeded.\<close>

definition ResultMetrics_Process :: "(result_metrics \<times> 'w) result_handler \<Rightarrow> (result_metrics \<times> 'w) result_handler" where
  "ResultMetrics_Process next result = (\<lambda>(m, w).
     let m1 = (if tr_Error result = ''''
               then m\<lparr>rm_success := rm_success m + 1, rm_items := rm_items m + int (length (tr_Data result))\<rparr>
               else m\<lparr>rm_failure := rm_failure m + 1\<rparr>);
         total = rm_success m1 + rm_failure m1
     in if total smod 100 = 0 \<and> rm_success m1 = 0 then (MwPanic, (m1, w))
        else next result (m1, w))"
section \<open>A batch completes once\<close>

lemma prefix_neq_batch_key:
  "processed_key bm b \<noteq> BuildRedisKey (bm_prefix bm) RedisKeyTasksCompleted"
  by (auto simp: processed_key_def BuildRedisKey_def RedisKeyTasksCompleted_def DefaultRedisPrefix_def)

text \<open>A handler that ends the chain, and a run of the aggregator over a list of results.\<close>

definition batch_run :: "'r redis \<Rightarrow> (completion_event \<Rightarrow> string option) \<Rightarrow> string \<Rightarrow> batch_mw \<Rightarrow>
    task_result list \<Rightarrow> 'r \<Rightarrow> 'r" where
  "batch_run R enc now bm results r =
     fold (\<lambda>res r. snd (chain_Execute [BatchAggregator_Process R enc now bm] res r)) results r"

lemma batch_run_Cons:
  "batch_run R enc now bm (x # xs) r =
     batch_run R enc now bm xs (snd (chain_Execute [BatchAggregator_Process R enc now bm] x r))"
  by (simp add: batch_run_def)

text \<open>What one result of a batch does to the batch counter and to the queue of events.\<close>

lemma batch_step_next:
  fixes bm :: batch_mw
  assumes laws: "redis_counters R cnt" "redis_lists R lst" "redis_del_lists R lst"
    and "tr_BatchID x = b" and "b \<noteq> ''''"
  defines "k \<equiv> processed_key bm b" and "q \<equiv> BuildRedisKey (bm_prefix bm) RedisKeyTasksCompleted"
  shows "\<exists>r1. BatchAggregator_Process R enc now bm next x r = next x r1 \<and>
    (if cnt r k + 1 < tr_BatchSize x
     then cnt r1 = (cnt r)(k := cnt r k + 1) \<and> lst r1 = lst r
     else cnt r1 = (cnt r)(k := 0) \<and>
       (\<exists>r2. lst r2 = lst r \<and> lst r1 q = lst (snd (publishBatchCompleteEvent R enc now bm x r2)) q))"
proof -
  note cl = redis_countersD [OF laws(1)] and ll = redis_listsD [OF laws(2)]
  have del: "lst (snd (rd_Del R k' r')) = (lst r')(k' := [])" for k' r'
    using laws(3) by (simp add: redis_del_lists_def)
  define r2 where "r2 = snd (rd_Incr R k r)"
  have inc: "rd_Incr R k r = (Some (cnt r k + 1), r2)"
    unfolding r2_def cl(1) [symmetric] by simp
  define r3 where "r3 = (if cnt r k + 1 = 1 then snd (rd_Expire R k (bm_ttl bm) r2) else r2)"
  define r4 where "r4 = (if cnt r k + 1 \<ge> tr_BatchSize x
      then snd (rd_Del R k (snd (publishBatchCompleteEvent R enc now bm x r3))) else r3)"
  have r3: "cnt r3 = (cnt r)(k := cnt r k + 1)" "lst r3 = lst r"
    by (simp_all add: r3_def r2_def cl ll)
  have pub: "cnt (snd (publishBatchCompleteEvent R enc now bm x r3)) = cnt r3"
    by (auto simp: publishBatchCompleteEvent_def cl split: option.splits)
  have "BatchAggregator_Process R enc now bm next x r = next x r4"
    using assms(4,5) inc by (simp add: BatchAggregator_Process_def Let_def r4_def r3_def k_def)
  moreover have "q \<noteq> k" using prefix_neq_batch_key [of bm b] by (simp add: k_def q_def)
  ultimately show ?thesis using r3 by (intro exI [of _ r4]) (auto simp: r4_def cl pub del)
qed

lemma batch_step:
  assumes laws: "redis_counters R cnt" "redis_lists R lst" "redis_del_lists R lst"
    and "tr_BatchID x = b" and "b \<noteq> ''''"
    and r1: "snd (chain_Execute [BatchAggregator_Process R enc now bm] x r) = r1"
  defines "k \<equiv> processed_key bm b" and "q \<equiv> BuildRedisKey (bm_prefix bm) RedisKeyTasksCompleted"
  shows "if cnt r k + 1 < tr_BatchSize x
    then cnt r1 = (cnt r)(k := cnt r k + 1) \<and> lst r1 = lst r
    else cnt r1 = (cnt r)(k := 0) \<and>
      (\<exists>r2. lst r2 = lst r \<and> lst r1 q = lst (snd (publishBatchCompleteEvent R enc now bm x r2)) q)"
  using batch_step_next [OF laws assms(4,5), of enc now bm "\<lambda>r w. (MwOk, w)" r] r1
  by (auto simp: chain_Execute_def k_def q_def)
text \<open>
  C9: A batch is announced once.  When the results of a batch of \<open>n\<close> tasks go through the aggregator
  and its counter starts at 0, the first \<open>n - 1\<close> leave the queue of completed tasks as it was and the
  last one appends exactly one event, the batch event of that last result; the counter is back at 0.
\<close>
theorem batch_announced_once:
  assumes laws: "redis_counters R cnt" "redis_lists R lst" "redis_del_lists R lst"
    and up: "\<And>k v r. fst (rd_RPush R k v r)" and enc: "\<And>e. enc e \<noteq> None"
    and batch: "\<And>x. x \<in> set (xs @ [y]) \<Longrightarrow> tr_BatchID x = b \<and> tr_BatchSize x = int (length (xs @ [y]))"
    and "b \<noteq> ''''" and "cnt r (processed_key bm b) = 0"
    and q: "q = BuildRedisKey (bm_prefix bm) RedisKeyTasksCompleted"
  shows "lst (batch_run R enc now bm xs r) q = lst r q \<and>
    lst (batch_run R enc now bm (xs @ [y]) r) q = lst r q @ [the (enc (batch_event now y))] \<and>
    cnt (batch_run R enc now bm (xs @ [y]) r) (processed_key bm b) = 0"
proof -
  let ?k = "processed_key bm b"
  have run: "lst (batch_run R enc now bm zs r') = lst r' \<and>
      cnt (batch_run R enc now bm zs r') ?k = cnt r' ?k + int (length zs)"
    if "set zs \<subseteq> set xs" "cnt r' ?k + int (length zs) < int (length (xs @ [y]))" for zs r'
    using that
  proof (induction zs arbitrary: r')
    case Nil
    then show ?case by (simp add: batch_run_def)
  next
    case (Cons z zs)
    let ?r1 = "snd (chain_Execute [BatchAggregator_Process R enc now bm] z r')"
    have "tr_BatchID z = b" "tr_BatchSize z = int (length (xs @ [y]))"
      using batch [of z] Cons.prems(1) by auto
    then have "cnt ?r1 = (cnt r')(?k := cnt r' ?k + 1) \<and> lst ?r1 = lst r'"
      using batch_step [OF laws _ assms(7) refl, where x = z and enc = enc and now = now and bm = bm and r = r']
        Cons.prems(2) by (auto split: if_splits)
    then show ?case using Cons.IH [of ?r1] Cons.prems by (simp add: batch_run_Cons)
  qed
  let ?r = "batch_run R enc now bm xs r"
  have first: "lst ?r = lst r" "cnt ?r ?k = int (length xs)"
    using run [of xs r] assms(8) by simp_all
  let ?r1 = "snd (chain_Execute [BatchAggregator_Process R enc now bm] y ?r)"
  have y: "tr_BatchID y = b" "tr_BatchSize y = int (length xs) + 1" using batch [of y] by auto
  obtain js where js: "enc (batch_event now y) = Some js" using enc by blast
  from batch_step [OF laws y(1) assms(7) refl, where enc = enc and now = now and bm = bm and r = ?r]
  obtain r2 where last: "cnt ?r1 ?k = 0" "lst r2 = lst ?r"
    "lst ?r1 q = lst (snd (publishBatchCompleteEvent R enc now bm y r2)) q"
    using y first q by (auto split: if_splits)
  have "lst (snd (publishBatchCompleteEvent R enc now bm y r2)) q = lst r2 q @ [js]"
    using redis_listsD(3) [OF laws(2), of q js r2 True] up [of q js r2]
    by (cases "rd_RPush R q js r2") (simp add: publishBatchCompleteEvent_def js q [symmetric])
  then show ?thesis using first last js by (simp add: batch_run_def)
qed

definition sample_result :: "string \<Rightarrow> string \<Rightarrow> int \<Rightarrow> string \<Rightarrow> task_result" where
  "sample_result ident batchID n err = \<lparr>tr_TaskID = ident, tr_NodeID = ''n'', tr_WorkerID = ''w'',
     tr_Status = ''success'', tr_Data = [], tr_Error = err, tr_StartTime = 0, tr_EndTime = 0, tr_Duration = 0,
     tr_BytesRead = 0, tr_BatchID = batchID, tr_BatchSize = n, tr_BatchIndex = 0, tr_BatchType = '''',
     tr_ProjectID = '''', tr_Source = '''', tr_Metadata = None\<rparr>"

theorem batch_announced_once_witness:
  "ms_lists (batch_run mem_redis (\<lambda>e. Some ''event'') ''now'' (NewBatchAggregator ''crawler'')
      [sample_result ''a'' ''b1'' 2 '''', sample_result ''b'' ''b1'' 2 ''''] mem_empty) ''crawler:tasks:completed'' =
    [''event'']"
proof -
  let ?x = "sample_result ''a'' ''b1'' 2 ''''" and ?y = "sample_result ''b'' ''b1'' 2 ''''"
  have q: "''crawler:tasks:completed'' = BuildRedisKey (bm_prefix (NewBatchAggregator ''crawler'')) RedisKeyTasksCompleted"
    by (simp add: BuildRedisKey_def RedisKeyTasksCompleted_def NewBatchAggregator_def)
  have "ms_lists (batch_run mem_redis (\<lambda>e. Some ''event'') ''now'' (NewBatchAggregator ''crawler'')
      ([?x] @ [?y]) mem_empty) ''crawler:tasks:completed'' =
    ms_lists mem_empty ''crawler:tasks:completed'' @ [the (Some ''event'')]"
  proof (rule batch_announced_once [where R = mem_redis and cnt = ms_counters and lst = ms_lists
        and enc = "\<lambda>e. Some ''event''" and now = "''now''" and bm = "NewBatchAggregator ''crawler''"
        and b = "''b1''" and xs = "[?x]" and y = "?y" and r = mem_empty, THEN conjunct2, THEN conjunct1])
    show "redis_counters mem_redis ms_counters" "redis_lists mem_redis ms_lists"
      "redis_del_lists mem_redis ms_lists"
      by (rule mem_redis_counters mem_redis_lists mem_redis_del_lists)+
    show "''crawler:tasks:completed'' = BuildRedisKey (bm_prefix (NewBatchAggregator ''crawler'')) RedisKeyTasksCompleted"
      by (rule q)
  qed (auto simp: mem_redis_def mem_empty_def sample_result_def)
  then show ?thesis by (simp add: mem_empty_def)
qed
end
