(* ===== verification/Coordinator.thy ===== *)
theory Coordinator
  imports Dispatcher Cluster ResultMiddleware
begin

text \<open>
  The coordinator (src/crawler/distributed/coordinator.go) between the pending queue in Redis, the
  cluster's nodes, the dispatcher and the results that come back.  JSON encoding and decoding, the
  transport to a node and Redis are arguments.  Its tickers only run the operations below.
\<close>

section \<open>What is outside\<close>

text \<open>
  \<open>ow_unmarshal\<close> decodes a queue entry, \<open>None\<close> when it is not the JSON of a task.  The other JSON
  texts are written and never read back by the coordinator.
\<close>

record 'r outside =
  ow_redis :: "'r redis"
  ow_unmarshal :: "string \<Rightarrow> task option"
  ow_marshal :: "task \<Rightarrow> string"
  ow_assignment :: "string \<Rightarrow> string \<Rightarrow> string"
  ow_failure :: "string \<Rightarrow> string \<Rightarrow> int \<Rightarrow> string"
  ow_result :: "task_result \<Rightarrow> string option"
  ow_event :: "completion_event \<Rightarrow> string option"
  ow_format :: "goval \<Rightarrow> string"
  ow_now :: string

section \<open>State\<close>

record coord_config =
  cg_RedisPrefix :: string
  cg_MaxRetries :: int
  cg_TaskTimeout :: duration
  cg_ReassignInterval :: duration
  cg_BatchSize :: int

record 'r coord =
  co_config :: coord_config
  co_assignments :: "string \<rightharpoonup> string"
  co_pending :: "string \<rightharpoonup> task"
  co_dispatcher :: dispatcher
  co_metrics :: result_metrics
  co_redis :: 'r
  co_updates :: "(string \<times> bool \<times> string) list"

definition NewCoordinator :: "coord_config \<Rightarrow> dispatcher \<Rightarrow> 'r \<Rightarrow> 'r coord" where
  "NewCoordinator config disp r =
     \<lparr>co_config = config, co_assignments = Map.empty, co_pending = Map.empty, co_dispatcher = disp,
      co_metrics = NewResultMetrics, co_redis = r, co_updates = []\<rparr>"

definition tasksKey :: "'r coord \<Rightarrow> string" where
  "tasksKey c = cg_RedisPrefix (co_config c) @ '':queue:tasks:pending''"

section \<open>Assignment messages\<close>

datatype selector_type = SELECTOR_CSS | SELECTOR_XPATH | SELECTOR_JSONPATH | SELECTOR_REGEX

record pb_extract_rule =
  pe_Field :: string
  pe_Selector :: string
  pe_Type :: selector_type
  pe_Attribute :: string
  pe_Multiple :: bool
  pe_DefaultValue :: string

record pb_storage =
  pst_Type :: string
  pst_Database :: string
  pst_Collection :: string
  pst_Table :: string
  pst_Bucket :: string
  pst_Path :: string
  pst_Format :: string
  pst_Options :: "string \<rightharpoonup> string"

record task_assignment =
  as_TaskId :: string
  as_ParentId :: string
  as_Url :: string
  as_Method :: string
  as_Priority :: int
  as_Headers :: "(string \<rightharpoonup> string) option"
  as_Body :: "8 word list"
  as_MaxRetries :: int
  as_TimeoutSeconds :: int
  as_Metadata :: "string \<rightharpoonup> string"
  as_TaskType :: string
  as_Cookies :: "(string \<rightharpoonup> string) option"
  as_ProjectId :: string
  as_LuaScript :: string
  as_ExtractRules :: "pb_extract_rule list"
  as_Storage :: "pb_storage option"

definition selector_of :: "string \<Rightarrow> selector_type" where
  "selector_of ty =
     (if ty = ''css'' then SELECTOR_CSS else if ty = ''xpath'' then SELECTOR_XPATH
      else if ty = ''json'' \<or> ty = ''jsonpath'' then SELECTOR_JSONPATH
      else if ty = ''regex'' then SELECTOR_REGEX else SELECTOR_CSS)"

text \<open>Only the string values of a dynamic map are sent.\<close>

definition string_values :: "(string \<rightharpoonup> goval) option \<Rightarrow> (string \<rightharpoonup> string)" where
  "string_values m = (\<lambda>k. case m of None \<Rightarrow> None | Some h \<Rightarrow>
     (case h k of Some (GStr s) \<Rightarrow> Some s | _ \<Rightarrow> None))"

definition assignment_metadata :: "task \<Rightarrow> (string \<rightharpoonup> string)" where
  "assignment_metadata t =
     (let m = string_values (t_Metadata t);
          m1 = (if t_BatchID t \<noteq> ''''
                then m(''batch_id'' \<mapsto> t_BatchID t, ''batch_size'' \<mapsto> dec_of_int (t_BatchSize t),
                       ''batch_index'' \<mapsto> dec_of_int (t_BatchIndex t), ''batch_type'' \<mapsto> t_BatchType t)
                else m)
      in if t_Source t \<noteq> '''' then m1(''source'' \<mapsto> t_Source t) else m1)"

definition to_pb_rule :: "(goval \<Rightarrow> string) \<Rightarrow> extract_rule \<Rightarrow> pb_extract_rule" where
  "to_pb_rule fmt r = \<lparr>pe_Field = er_Field r, pe_Selector = er_Selector r, pe_Type = selector_of (er_Type r),
     pe_Attribute = er_Attribute r, pe_Multiple = er_Multiple r, pe_DefaultValue = fmt (er_Default r)\<rparr>"

definition to_pb_storage :: "storage_conf \<Rightarrow> pb_storage option" where
  "to_pb_storage s =
     (if sc_Type s = '''' then None
      else Some \<lparr>pst_Type = sc_Type s, pst_Database = sc_Database s, pst_Collection = sc_Collection s,
        pst_Table = sc_Table s, pst_Bucket = sc_Bucket s, pst_Path = sc_Path s, pst_Format = sc_Format s,
        pst_Options = string_values (sc_Options s)\<rparr>)"

definition to_assignment :: "(goval \<Rightarrow> string) \<Rightarrow> task \<Rightarrow> task_assignment" where
  "to_assignment fmt t =
     \<lparr>as_TaskId = t_ID t, as_ParentId = t_ParentID t, as_Url = t_URL t,
      as_Method = (if t_Method t = '''' then ''GET'' else t_Method t),
      as_Priority = to_int32 (t_Priority t), as_Headers = t_Headers t, as_Body = t_Body t,
      as_MaxRetries = to_int32 (t_MaxRetries t), as_TimeoutSeconds = 30,
      as_Metadata = assignment_metadata t, as_TaskType = t_Type t, as_Cookies = t_Cookies t,
      as_ProjectId = t_ProjectID t, as_LuaScript = t_LuaScript t,
      as_ExtractRules = map (to_pb_rule fmt) (t_ExtractRules t),
      as_Storage = to_pb_storage (t_StorageConf t)\<rparr>"

section \<open>Distribution\<close>

text \<open>\<open>sent\<close> is the hub's answer to the message; \<open>False\<close> returns an error and changes nothing.\<close>

definition assignTaskToNode :: "'r outside \<Rightarrow> (task_assignment \<Rightarrow> bool) \<Rightarrow> task \<Rightarrow> string \<Rightarrow> 'r coord \<Rightarrow>
    bool \<times> 'r coord" where
  "assignTaskToNode W sent t nodeID c =
     (if \<not> sent (to_assignment (ow_format W) t) then (False, c)
      else (True, c\<lparr>co_assignments := (co_assignments c)(t_ID t \<mapsto> nodeID),
                    co_pending := (co_pending c)(t_ID t \<mapsto> t),
                    co_redis := snd (rd_Set (ow_redis W)
                      (cg_RedisPrefix (co_config c) @ '':assignment:'' @ t_ID t)
                      (ow_assignment W (t_ID t) nodeID) (30 * minute) (co_redis c))\<rparr>))"

text \<open>The loop over the popped entries; \<open>sent i\<close> is the hub's answer in round \<open>i\<close>.\<close>

fun distribute_loop :: "'r outside \<Rightarrow> (nat \<Rightarrow> task_assignment \<Rightarrow> bool) \<Rightarrow> cnode list \<Rightarrow> nat \<Rightarrow> string list \<Rightarrow>
    'r coord \<Rightarrow> 'r coord" where
  "distribute_loop W sent active i [] c = c"
| "distribute_loop W sent active i (taskData # rest) c =
     (let node = active ! (i mod length active) in
      case ow_unmarshal W taskData of
        None \<Rightarrow> distribute_loop W sent active (Suc i) rest c
      | Some t \<Rightarrow>
          (case assignTaskToNode W (sent i) t (cn_ID node) c of
             (True, c1) \<Rightarrow> distribute_loop W sent active (Suc i) rest c1
           | (False, c1) \<Rightarrow> distribute_loop W sent active (Suc i) rest
               (c1\<lparr>co_redis := snd (rd_RPush (ow_redis W) (tasksKey c1) taskData (co_redis c1))\<rparr>)))"

definition distributeTaskBatch :: "'r outside \<Rightarrow> (nat \<Rightarrow> task_assignment \<Rightarrow> bool) \<Rightarrow> string list \<Rightarrow>
    (string \<rightharpoonup> cnode) \<Rightarrow> 'r coord \<Rightarrow> 'r coord" where
  "distributeTaskBatch W sent ks nodes c =
     (let activeNodes = filter is_active (values_of ks nodes) in
      if activeNodes = [] then c
      else case rd_LRange (ow_redis W) (tasksKey c) 0 (cg_BatchSize (co_config c) - 1) (co_redis c) of
        None \<Rightarrow> c
      | Some taskDataList \<Rightarrow>
          if taskDataList = [] then c
          else distribute_loop W sent activeNodes 0 taskDataList
                 (c\<lparr>co_redis := rd_LTrim (ow_redis W) (tasksKey c) (int (length taskDataList)) (- 1)
                      (co_redis c)\<rparr>))"

section \<open>Results, failures, timeouts\<close>

definition handleTaskFailure :: "'r outside \<Rightarrow> string \<Rightarrow> string \<Rightarrow> 'r coord \<Rightarrow> 'r coord" where
  "handleTaskFailure W taskID reason c =
     (case co_pending c taskID of
        None \<Rightarrow> c
      | Some t \<Rightarrow>
          if t_RetryCount t < t_MaxRetries t then
            let t1 = t\<lparr>t_RetryCount := t_RetryCount t + 1, t_Status := StatusRetrying\<rparr>;
                r1 = snd (rd_RPush (ow_redis W) (tasksKey c) taskID (co_redis c));
                r2 = snd (rd_Set (ow_redis W) (cg_RedisPrefix (co_config c) @ '':task:'' @ taskID)
                       (ow_marshal W t1) (1 * hour) r1)
            in c\<lparr>co_pending := (co_pending c)(taskID \<mapsto> t1), co_redis := r2\<rparr>
          else
            let t1 = t\<lparr>t_Status := StatusFailed\<rparr>;
                r1 = snd (rd_Set (ow_redis W) (cg_RedisPrefix (co_config c) @ '':failed:'' @ taskID)
                       (ow_failure W taskID reason (t_RetryCount t1)) (1 * hour) (co_redis c))
            in c\<lparr>co_pending := (co_pending c)(taskID \<mapsto> t1), co_redis := r1\<rparr>)"

definition checkTaskTimeouts :: "'r outside \<Rightarrow> gotime \<Rightarrow> string list \<Rightarrow> 'r coord \<Rightarrow> 'r coord" where
  "checkTaskTimeouts W now ks c =
     foldl (\<lambda>c1 taskID. case co_pending c taskID of
         Some t \<Rightarrow> (case t_StartedAt t of
             Some s \<Rightarrow> if now - s > cg_TaskTimeout (co_config c)
                       then handleTaskFailure W taskID ''timeout'' c1 else c1
           | None \<Rightarrow> c1)
       | None \<Rightarrow> c1) c ks"

text \<open>Links are taken from a map with an entry \<open>links\<close> that holds a list; anything else has none.\<close>

definition extractURLsFromData :: "goval \<Rightarrow> string list" where
  "extractURLsFromData data =
     (case data of
        GMap m \<Rightarrow> (case map_of m ''links'' of
            Some (GList links) \<Rightarrow> List.map_filter (\<lambda>link. case link of GStr url \<Rightarrow> Some url | _ \<Rightarrow> None) links
          | _ \<Rightarrow> [])
      | _ \<Rightarrow> [])"

text \<open>\<open>fresh url\<close> gives the clock reads, the reference and the identifier of a new task.\<close>

definition processSeedResult :: "(string \<Rightarrow> string) \<Rightarrow> (string \<Rightarrow> gotime \<times> gotime \<times> tref \<times> string) \<Rightarrow>
    task_result \<Rightarrow> 'r coord \<Rightarrow> 'r coord" where
  "processSeedResult hash fresh result c =
     foldl (\<lambda>c1 url. case fresh url of (now, now', r, uuid) \<Rightarrow>
         let t = (NewTask hash uuid now url TypeDetail PriorityNormal)\<lparr>t_ParentID := tr_TaskID result\<rparr>;
             t1 = SetMetadata ''parent_id'' (GStr (tr_TaskID result)) t;
             t2 = SetMetadata ''source'' (GStr ''seed_expansion'') t1;
             d = co_dispatcher c1
         in c1\<lparr>co_dispatcher := fst (Submit now now' r (d\<lparr>d_store := (d_store d)(r := t2)\<rparr>))\<rparr>)
       c (extractURLsFromData (GList (map GMap (tr_Data result))))"

text \<open>The default chain works on the metrics and on Redis.\<close>

definition lift_redis :: "'r redis \<Rightarrow> ('m \<times> 'r) redis" where
  "lift_redis R = \<lparr>
     rd_LRange = (\<lambda>k a b (m, r). rd_LRange R k a b r),
     rd_LTrim = (\<lambda>k a b (m, r). (m, rd_LTrim R k a b r)),
     rd_RPush = (\<lambda>k v (m, r). let (ok, r1) = rd_RPush R k v r in (ok, (m, r1))),
     rd_LPush = (\<lambda>k v (m, r). let (ok, r1) = rd_LPush R k v r in (ok, (m, r1))),
     rd_RPop = (\<lambda>k (m, r). let (v, r1) = rd_RPop R k r in (v, (m, r1))),
     rd_Set = (\<lambda>k v d (m, r). let (ok, r1) = rd_Set R k v d r in (ok, (m, r1))),
     rd_Incr = (\<lambda>k (m, r). let (v, r1) = rd_Incr R k r in (v, (m, r1))),
     rd_Expire = (\<lambda>k d (m, r). let (ok, r1) = rd_Expire R k d r in (ok, (m, r1))),
     rd_Del = (\<lambda>k (m, r). let (ok, r1) = rd_Del R k r in (ok, (m, r1)))\<rparr>"

definition result_chain :: "'r outside \<Rightarrow> 'r coord \<Rightarrow> (result_metrics \<times> 'r) result_handler" where
  "result_chain W c = chain_Execute
     [BatchAggregator_Process (lift_redis (ow_redis W)) (ow_event W) (ow_now W)
        (NewBatchAggregator (cg_RedisPrefix (co_config c))),
      ResultMetrics_Process]"

text \<open>\<open>sched\<close>: whether a scheduler is attached.  \<open>None\<close> is a panic in the chain.\<close>

definition handleTaskResult :: "'r outside \<Rightarrow> bool \<Rightarrow> (string \<Rightarrow> string) \<Rightarrow>
    (string \<Rightarrow> gotime \<times> gotime \<times> tref \<times> string) \<Rightarrow> task_result \<Rightarrow> 'r coord \<Rightarrow> 'r coord option" where
  "handleTaskResult W sched hash fresh result c =
     (let id = tr_TaskID result;
          t = co_pending c id;
          c1 = c\<lparr>co_pending := (co_pending c)(id := None), co_assignments := (co_assignments c)(id := None)\<rparr>;
          c2 = (if sched then c1\<lparr>co_updates := co_updates c1 @ [(id, tr_Error result = '''', tr_Error result)]\<rparr>
                else c1)
      in if tr_Error result \<noteq> '''' then Some (handleTaskFailure W id (tr_Error result) c2)
         else case ow_result W result of
           None \<Rightarrow> Some c2
         | Some data \<Rightarrow>
             let r1 = snd (rd_Set (ow_redis W) (cg_RedisPrefix (co_config c) @ '':result:'' @ id) data
                        (30 * minute) (co_redis c2))
             in case result_chain W c result (co_metrics c2, r1) of
                  (MwPanic, _) \<Rightarrow> None
                | (_, (m, r2)) \<Rightarrow>
                    (let c3 = c2\<lparr>co_metrics := m, co_redis := r2\<rparr>
                     in Some (case t of
                          Some t \<Rightarrow> if t_Type t = TypeSeed then processSeedResult hash fresh result c3 else c3
                        | None \<Rightarrow> c3)))"

section \<open>Dead nodes and node synchronisation\<close>

definition dead_nodes :: "gotime \<Rightarrow> string list \<Rightarrow> (string \<rightharpoonup> cnode) \<Rightarrow> string list" where
  "dead_nodes now ks nodes = filter (\<lambda>k. case nodes k of None \<Rightarrow> False
     | Some n \<Rightarrow> cn_Status n \<noteq> ''active'' \<and> now - cn_UpdatedAt n > 60 * second) ks"

text \<open>\<open>ks'\<close> orders the loop over the assignments.\<close>

definition checkAndReassignTasks :: "'r outside \<Rightarrow> gotime \<Rightarrow> string list \<Rightarrow> (string \<rightharpoonup> cnode) \<Rightarrow> string list \<Rightarrow>
    'r coord \<Rightarrow> 'r coord" where
  "checkAndReassignTasks W now ks nodes ks' c =
     (let deadNodes = dead_nodes now ks nodes;
          hit = (\<lambda>taskID. (case co_assignments c taskID of None \<Rightarrow> False | Some n \<Rightarrow> n \<in> set deadNodes) \<and>
                          co_pending c taskID \<noteq> None);
          ids = filter hit ks';
          c1 = c\<lparr>co_assignments := (\<lambda>k. if k \<in> set ids then None else co_assignments c k)\<rparr>
      in if deadNodes = [] then c
         else c1\<lparr>co_redis := foldl (\<lambda>r id. snd (rd_RPush (ow_redis W) (tasksKey c)
                   (t_ID (the (co_pending c id))) r)) (co_redis c1) ids\<rparr>)"

definition to_dispatcher_node :: "cnode \<Rightarrow> node_info" where
  "to_dispatcher_node n =
     \<lparr>n_ID = cn_ID n, n_Address = cn_IP n @ '':'' @ dec_of_int (cn_Port n), n_Capacity = cn_MaxWorkers n,
      n_CurrentLoad = 0, n_Status = cn_Status n, n_LastHeartbeat = cn_LastHeartbeat n,
      n_Tags = cn_Tags n, n_Capabilities = cn_Capabilities n\<rparr>"

definition performNodeSync :: "gotime \<Rightarrow> string list \<Rightarrow> (string \<rightharpoonup> cnode) \<Rightarrow> 'r coord \<Rightarrow> 'r coord" where
  "performNodeSync now ks nodes c =
     foldl (\<lambda>c1 k. case nodes k of None \<Rightarrow> c1 | Some n \<Rightarrow>
         let d = RegisterNode now (to_dispatcher_node n) (co_dispatcher c1);
             d1 = (if cn_Status n = ''active'' then UpdateNodeHeartbeat now k 0 d else d)
         in c1\<lparr>co_dispatcher := d1\<rparr>) c ks"

definition coord_GetStats :: "string list \<Rightarrow> string list \<Rightarrow> (string \<rightharpoonup> cnode) \<Rightarrow> 'r coord \<Rightarrow> nat \<times> nat" where
  "coord_GetStats ks ks' nodes c = (length (values_of ks (co_pending c)), length (values_of ks' (co_assignments c)))"


section \<open>Failed results\<close>

text \<open>
  C10: A result that reports an error is never retried: the task leaves the pending table before the
  failure handler looks it up there, so whatever retries it had left, nothing is pushed back,
  Redis and the dispatcher are untouched and the task is forgotten.
\<close>
theorem failed_result_not_retried:
  assumes "tr_Error result \<noteq> ''''"
  shows "\<exists>c1. handleTaskResult W sched hash fresh result c = Some c1 \<and>
    co_pending c1 = (co_pending c)(tr_TaskID result := None) \<and>
    co_assignments c1 = (co_assignments c)(tr_TaskID result := None) \<and>
    co_redis c1 = co_redis c \<and> co_dispatcher c1 = co_dispatcher c"
  using assms by (simp add: handleTaskResult_def handleTaskFailure_def Let_def)

definition sample_outside :: "mem_state outside" where
  "sample_outside = \<lparr>ow_redis = mem_redis,
     ow_unmarshal = (\<lambda>s. if take 5 s = ''task:'' then Some (zero_task\<lparr>t_ID := drop 5 s, t_MaxRetries := 3\<rparr>) else None),
     ow_marshal = (\<lambda>t. ''task:'' @ t_ID t), ow_assignment = (\<lambda>i n. ''assigned''),
     ow_failure = (\<lambda>i e n. ''failed''), ow_result = (\<lambda>r. Some ''result''),
     ow_event = (\<lambda>e. Some ''event''), ow_format = (\<lambda>v. ''''), ow_now = ''now''\<rparr>"

definition sample_config :: coord_config where
  "sample_config = \<lparr>cg_RedisPrefix = ''crawler'', cg_MaxRetries = 3, cg_TaskTimeout = 30 * minute,
     cg_ReassignInterval = 30 * second, cg_BatchSize = 10\<rparr>"

definition sample_coord :: "mem_state coord" where
  "sample_coord = (NewCoordinator sample_config (NewDispatcher (\<lambda>_. zero_task) StrategyLeastLoad ''crawler'' 10) mem_empty)
     \<lparr>co_pending := [''t1'' \<mapsto> zero_task\<lparr>t_ID := ''t1'', t_MaxRetries := 3\<rparr>], co_assignments := [''t1'' \<mapsto> ''n1'']\<rparr>"

theorem failed_result_not_retried_witness:
  "\<exists>c1. handleTaskResult sample_outside True id (\<lambda>_. (0, 0, 0, '''')) (sample_result ''t1'' '''' 0 ''boom'') sample_coord = Some c1 \<and>
    co_pending c1 ''t1'' = None \<and> ms_lists (co_redis c1) ''crawler:queue:tasks:pending'' = []"
proof -
  have "tr_Error (sample_result ''t1'' '''' 0 ''boom'') \<noteq> ''''" "tr_TaskID (sample_result ''t1'' '''' 0 ''boom'') = ''t1''"
    by (simp_all add: sample_result_def)
  moreover have "ms_lists (co_redis sample_coord) ''crawler:queue:tasks:pending'' = []"
    by (simp add: sample_coord_def NewCoordinator_def mem_empty_def)
  ultimately show ?thesis
    using failed_result_not_retried [of "sample_result ''t1'' '''' 0 ''boom''" sample_outside True id
        "\<lambda>_. (0, 0, 0, '''')" sample_coord]
    by auto
qed

section \<open>Distribution\<close>

lemma assignTaskToNode_sent:
  "sent (to_assignment (ow_format W) t) \<Longrightarrow> assignTaskToNode W sent t nodeID c =
     (True, c\<lparr>co_assignments := (co_assignments c)(t_ID t \<mapsto> nodeID), co_pending := (co_pending c)(t_ID t \<mapsto> t),
              co_redis := snd (rd_Set (ow_redis W) (cg_RedisPrefix (co_config c) @ '':assignment:'' @ t_ID t)
                      (ow_assignment W (t_ID t) nodeID) (30 * minute) (co_redis c))\<rparr>)"
  by (simp add: assignTaskToNode_def)

lemma assignment_key_neq: "tasksKey c \<noteq> cg_RedisPrefix (co_config c) @ '':assignment:'' @ s"
  by (simp add: tasksKey_def)

text \<open>What becomes of the entries of a batch: taken by a node, returned to the queue, or dropped.\<close>

definition taken :: "'r outside \<Rightarrow> (nat \<Rightarrow> task_assignment \<Rightarrow> bool) \<Rightarrow> cnode list \<Rightarrow> nat \<Rightarrow> string list \<Rightarrow>
    (task \<times> string) list" where
  "taken W sent active i ds = List.map_filter (\<lambda>(j, d). case ow_unmarshal W d of
       None \<Rightarrow> None
     | Some t \<Rightarrow> if sent j (to_assignment (ow_format W) t) then Some (t, cn_ID (active ! (j mod length active))) else None)
     (enumerate i ds)"

definition returned :: "'r outside \<Rightarrow> (nat \<Rightarrow> task_assignment \<Rightarrow> bool) \<Rightarrow> nat \<Rightarrow> string list \<Rightarrow> string list" where
  "returned W sent i ds = List.map_filter (\<lambda>(j, d). case ow_unmarshal W d of
       None \<Rightarrow> None
     | Some t \<Rightarrow> if sent j (to_assignment (ow_format W) t) then None else Some d) (enumerate i ds)"

lemma taken_simps:
  "taken W sent active i [] = []"
  "taken W sent active i (d # ds) = (case ow_unmarshal W d of
       Some t \<Rightarrow> if sent i (to_assignment (ow_format W) t)
                 then (t, cn_ID (active ! (i mod length active))) # taken W sent active (Suc i) ds
                 else taken W sent active (Suc i) ds
     | None \<Rightarrow> taken W sent active (Suc i) ds)"
  "returned W sent i [] = []"
  "returned W sent i (d # ds) = (case ow_unmarshal W d of
       Some t \<Rightarrow> if sent i (to_assignment (ow_format W) t) then returned W sent (Suc i) ds
                 else d # returned W sent (Suc i) ds
     | None \<Rightarrow> returned W sent (Suc i) ds)"
  by (simp_all add: taken_def returned_def split: option.splits)

lemma distribute_loop_spec:
  assumes laws: "redis_lists (ow_redis W) lst" and up: "\<And>k v r. fst (rd_RPush (ow_redis W) k v r)"
  shows "let c1 = distribute_loop W sent active i ds c in
    lst (co_redis c1) (tasksKey c) = lst (co_redis c) (tasksKey c) @ returned W sent i ds \<and>
    co_assignments c1 = foldl (\<lambda>m (t, n). m(t_ID t \<mapsto> n)) (co_assignments c) (taken W sent active i ds) \<and>
    co_pending c1 = foldl (\<lambda>m (t, n). m(t_ID t \<mapsto> t)) (co_pending c) (taken W sent active i ds) \<and>
    co_config c1 = co_config c"
proof (induction ds arbitrary: i c)
  case Nil
  show ?case by (simp add: taken_simps)
next
  case (Cons d ds)
  let ?n = "cn_ID (active ! (i mod length active))"
  show ?case
  proof (cases "ow_unmarshal W d")
    case None
    then show ?thesis using Cons.IH [of "Suc i" c] by (simp add: taken_simps Let_def)
  next
    case (Some t)
    show ?thesis
    proof (cases "sent i (to_assignment (ow_format W) t)")
      case True
      define c1 where "c1 = c\<lparr>co_assignments := (co_assignments c)(t_ID t \<mapsto> ?n), co_pending := (co_pending c)(t_ID t \<mapsto> t),
              co_redis := snd (rd_Set (ow_redis W) (cg_RedisPrefix (co_config c) @ '':assignment:'' @ t_ID t)
                      (ow_assignment W (t_ID t) ?n) (30 * minute) (co_redis c))\<rparr>"
      have "distribute_loop W sent active i (d # ds) c = distribute_loop W sent active (Suc i) ds c1"
        using True Some by (simp add: assignTaskToNode_sent c1_def Let_def)
      moreover have "tasksKey c1 = tasksKey c" by (simp add: c1_def tasksKey_def)
      moreover have "co_redis c1 = snd (rd_Set (ow_redis W) (cg_RedisPrefix (co_config c) @ '':assignment:'' @ t_ID t)
          (ow_assignment W (t_ID t) ?n) (30 * minute) (co_redis c))"
        by (simp add: c1_def)
      then have "lst (co_redis c1) (tasksKey c) = lst (co_redis c) (tasksKey c)"
        using redis_listsD(7) [OF laws assignment_key_neq] by metis
      moreover have "co_assignments c1 = (co_assignments c)(t_ID t \<mapsto> ?n)" "co_config c1 = co_config c"
        "co_pending c1 = (co_pending c)(t_ID t \<mapsto> t)" by (simp_all add: c1_def)
      ultimately show ?thesis
        using Cons.IH [of "Suc i" c1] True Some
        by (simp add: taken_simps Let_def del: distribute_loop.simps(2))
    next
      case False
      define c1 where "c1 = c\<lparr>co_redis := snd (rd_RPush (ow_redis W) (tasksKey c) d (co_redis c))\<rparr>"
      have "distribute_loop W sent active i (d # ds) c = distribute_loop W sent active (Suc i) ds c1"
        using False Some by (simp add: assignTaskToNode_def c1_def Let_def)
      moreover have "tasksKey c1 = tasksKey c" by (simp add: c1_def tasksKey_def)
      moreover have "lst (co_redis c1) (tasksKey c) = lst (co_redis c) (tasksKey c) @ [d]"
      proof -
        obtain r1 where push: "rd_RPush (ow_redis W) (tasksKey c) d (co_redis c) = (True, r1)"
          using up by (metis (full_types) prod.collapse)
        then show ?thesis using redis_listsD(3) [OF laws push] by (simp add: c1_def)
      qed
      moreover have "co_assignments c1 = co_assignments c" "co_config c1 = co_config c"
        "co_pending c1 = co_pending c" by (simp_all add: c1_def)
      ultimately show ?thesis
        using Cons.IH [of "Suc i" c1] False Some
        by (simp add: taken_simps Let_def del: distribute_loop.simps(2))
    qed
  qed
qed


lemma distribute_round:
  assumes laws: "redis_lists (ow_redis W) lst" and up: "\<And>k v r. fst (rd_RPush (ow_redis W) k v r)"
    and range: "\<And>k a b r. rd_LRange (ow_redis W) k a b r \<noteq> None"
    and active: "active = filter is_active (values_of ks nodes)" "active \<noteq> []"
    and N: "cg_BatchSize (co_config c) = int N" "0 < N"
    and queue: "queue = lst (co_redis c) (tasksKey c)"
    and run: "c1 = distributeTaskBatch W sent ks nodes c"
  shows "lst (co_redis c1) (tasksKey c) = drop N queue @ returned W sent 0 (take N queue) \<and>
    co_assignments c1 = foldl (\<lambda>m (t, n). m(t_ID t \<mapsto> n)) (co_assignments c) (taken W sent active 0 (take N queue)) \<and>
    co_pending c1 = foldl (\<lambda>m (t, n). m(t_ID t \<mapsto> t)) (co_pending c) (taken W sent active 0 (take N queue))"
proof -
  obtain xs where xs: "rd_LRange (ow_redis W) (tasksKey c) 0 (cg_BatchSize (co_config c) - 1) (co_redis c) = Some xs"
    using range by blast
  then have take: "xs = take N queue"
    using redis_listsD(1) [OF laws xs] N redis_slice_first [of N queue] by (simp add: queue)
  show ?thesis
  proof (cases "xs = []")
    case True
    then have "queue = []" using take N(2) by (cases queue; cases N) auto
    moreover have "c1 = c" using run active xs True by (simp add: distributeTaskBatch_def Let_def)
    ultimately show ?thesis using queue by (simp add: taken_simps)
  next
    case False
    define c0 where "c0 = c\<lparr>co_redis := rd_LTrim (ow_redis W) (tasksKey c) (int (length xs)) (- 1) (co_redis c)\<rparr>"
    have "co_redis c0 = rd_LTrim (ow_redis W) (tasksKey c) (int (length xs)) (- 1) (co_redis c)"
      by (simp add: c0_def)
    then have "lst (co_redis c0) (tasksKey c) = redis_slice queue (int (length xs)) (- 1)"
      using redis_listsD(2) [OF laws] queue by simp
    also have "\<dots> = drop N queue"
      unfolding redis_slice_rest take by (cases "N \<le> length queue") auto
    finally have q0: "lst (co_redis c0) (tasksKey c) = drop N queue" .
    have "c1 = distribute_loop W sent active 0 xs c0"
      using run active xs False by (simp add: distributeTaskBatch_def Let_def c0_def)
    moreover have "tasksKey c0 = tasksKey c" "co_assignments c0 = co_assignments c" "co_pending c0 = co_pending c"
      by (simp_all add: c0_def tasksKey_def)
    ultimately show ?thesis
      using distribute_loop_spec [OF laws up, of sent active 0 xs c0] q0 take by (simp add: Let_def)
  qed
qed

text \<open>
  C2: One distribution round with an active node and a positive batch size \<open>N\<close> takes the first \<open>N\<close>
  entries of the pending queue, in order.  What a node took is recorded as assigned and pending, the
  \<open>i\<close>-th entry with the \<open>i\<close>-th active node in turn; what could not be sent is returned to the end of the
  queue; nothing else in the queue moves.  An entry that does not decode is dropped.
\<close>
theorem distribute_batch_spec:
  assumes laws: "redis_lists (ow_redis W) lst" and up: "\<And>k v r. fst (rd_RPush (ow_redis W) k v r)"
    and range: "\<And>k a b r. rd_LRange (ow_redis W) k a b r \<noteq> None"
    and active: "active = filter is_active (values_of ks nodes)" "active \<noteq> []"
    and N: "cg_BatchSize (co_config c) = int N" "0 < N"
    and queue: "queue = lst (co_redis c) (tasksKey c)"
    and run: "c1 = distributeTaskBatch W sent ks nodes c"
  shows "lst (co_redis c1) (tasksKey c) = drop N queue @ returned W sent 0 (take N queue) \<and>
    co_assignments c1 = foldl (\<lambda>m (t, n). m(t_ID t \<mapsto> n)) (co_assignments c) (taken W sent active 0 (take N queue)) \<and>
    co_pending c1 = foldl (\<lambda>m (t, n). m(t_ID t \<mapsto> t)) (co_pending c) (taken W sent active 0 (take N queue))"
  by (rule distribute_round [OF laws up range active N queue run])

definition sample_queue :: "string list \<Rightarrow> mem_state coord" where
  "sample_queue ds = sample_coord\<lparr>co_redis := mem_empty\<lparr>ms_lists := (\<lambda>_. [])(''crawler:queue:tasks:pending'' := ds)\<rparr>\<rparr>"

theorem distribute_batch_spec_witness:
  "let c1 = distributeTaskBatch sample_outside (\<lambda>i a. i \<noteq> 1) [''n1'', ''n2'']
       [''n1'' \<mapsto> sample_node ''n1'' ''active'' 0, ''n2'' \<mapsto> sample_node ''n2'' ''active'' 0]
       (sample_queue [''task:a'', ''task:b'', ''junk'', ''task:d''])
   in ms_lists (co_redis c1) ''crawler:queue:tasks:pending'' = [''task:b''] \<and>
      co_assignments c1 ''a'' = Some ''n1'' \<and> co_assignments c1 ''d'' = Some ''n2''"
proof -
  let ?c = "sample_queue [''task:a'', ''task:b'', ''junk'', ''task:d'']"
  let ?nodes = "[''n1'' \<mapsto> sample_node ''n1'' ''active'' 0, ''n2'' \<mapsto> sample_node ''n2'' ''active'' 0]"
  let ?active = "[sample_node ''n1'' ''active'' 0, sample_node ''n2'' ''active'' 0]"
  let ?c1 = "distributeTaskBatch sample_outside (\<lambda>i a. i \<noteq> 1) [''n1'', ''n2''] ?nodes ?c"
  have key: "tasksKey ?c = ''crawler:queue:tasks:pending''"
    by (simp add: tasksKey_def sample_queue_def sample_coord_def NewCoordinator_def sample_config_def)
  have R: "ow_redis sample_outside = mem_redis" by (simp add: sample_outside_def)
  have "ms_lists (co_redis ?c1) (tasksKey ?c) =
      drop 10 [''task:a'', ''task:b'', ''junk'', ''task:d''] @ returned sample_outside (\<lambda>i a. i \<noteq> 1) 0
        (take 10 [''task:a'', ''task:b'', ''junk'', ''task:d'']) \<and>
    co_assignments ?c1 = foldl (\<lambda>m (t, n). m(t_ID t \<mapsto> n)) (co_assignments ?c) (taken sample_outside (\<lambda>i a. i \<noteq> 1) ?active 0 (take 10 [''task:a'', ''task:b'', ''junk'', ''task:d''])) \<and>
    co_pending ?c1 = foldl (\<lambda>m (t, n). m(t_ID t \<mapsto> t)) (co_pending ?c) (taken sample_outside (\<lambda>i a. i \<noteq> 1) ?active 0 (take 10 [''task:a'', ''task:b'', ''junk'', ''task:d'']))"
  proof (rule distribute_batch_spec [where ks = "[''n1'', ''n2'']" and nodes = ?nodes])
    show "redis_lists (ow_redis sample_outside) ms_lists" by (simp add: R mem_redis_lists)
    show "?active = filter is_active (values_of [''n1'', ''n2''] ?nodes)"
      by (simp add: is_active_def sample_node_def)
    show "cg_BatchSize (co_config ?c) = int 10"
      by (simp add: sample_queue_def sample_coord_def NewCoordinator_def sample_config_def)
    show "[''task:a'', ''task:b'', ''junk'', ''task:d''] = ms_lists (co_redis ?c) (tasksKey ?c)"
      unfolding key by (simp add: sample_queue_def)
  qed (rule refl | simp add: R mem_redis_def)+
  moreover have "returned sample_outside (\<lambda>i a. i \<noteq> 1) 0
      (take 10 [''task:a'', ''task:b'', ''junk'', ''task:d'']) = [''task:b'']"
    by (simp add: taken_simps sample_outside_def)
  moreover have "foldl (\<lambda>m (t, n). m(t_ID t \<mapsto> n)) (co_assignments ?c) (taken sample_outside (\<lambda>i a. i \<noteq> 1) ?active 0
      (take 10 [''task:a'', ''task:b'', ''junk'', ''task:d''])) = (co_assignments ?c)(''a'' \<mapsto> ''n1'', ''d'' \<mapsto> ''n2'')"
    by (simp add: taken_simps sample_outside_def sample_node_def mod_Suc)
  ultimately show ?thesis unfolding Let_def key by simp
qed


section \<open>Batches with a failure\<close>

lemma lift_redis_simps:
  "rd_Incr (lift_redis R) k (m, r) = (fst (rd_Incr R k r), (m, snd (rd_Incr R k r)))"
  "rd_Expire (lift_redis R) k d (m, r) = (fst (rd_Expire R k d r), (m, snd (rd_Expire R k d r)))"
  "rd_Del (lift_redis R) k (m, r) = (fst (rd_Del R k r), (m, snd (rd_Del R k r)))"
  "rd_RPush (lift_redis R) k v (m, r) = (fst (rd_RPush R k v r), (m, snd (rd_RPush R k v r)))"
  by (simp_all add: lift_redis_def case_prod_beta)

lemma lift_publish: "publishBatchCompleteEvent (lift_redis R) enc now bm x (m, r) =
    (fst (publishBatchCompleteEvent R enc now bm x r), (m, snd (publishBatchCompleteEvent R enc now bm x r)))"
  by (simp add: publishBatchCompleteEvent_def lift_redis_simps split: option.splits)

text \<open>For a batch result the aggregator does the same on the lifted state.\<close>

lemma lift_batch:
  assumes "tr_BatchID x \<noteq> ''''" and "fst (rd_Incr R (processed_key bm (tr_BatchID x)) r) = Some n"
  shows "BatchAggregator_Process (lift_redis R) enc now bm next x (m, r) =
    next x (m, snd (chain_Execute [BatchAggregator_Process R enc now bm] x r))"
  using assms by (cases "rd_Incr R (processed_key bm (tr_BatchID x)) r")
    (auto simp: BatchAggregator_Process_def chain_Execute_def lift_redis_simps lift_publish Let_def)

lemma chain_success:
  fixes c :: "'r coord"
  assumes laws: "redis_counters (ow_redis W) cnt" "redis_lists (ow_redis W) lst" "redis_del_lists (ow_redis W) lst"
    and x: "tr_BatchID x = b" "b \<noteq> ''''" "tr_Error x = ''''" and m: "0 \<le> rm_success m"
  defines "k \<equiv> processed_key (NewBatchAggregator (cg_RedisPrefix (co_config c))) b"
  assumes small: "cnt r k + 1 < tr_BatchSize x"
  shows "\<exists>m1 r1. result_chain W c x (m, r) = (MwOk, (m1, r1)) \<and> 0 \<le> rm_success m1 \<and> lst r1 = lst r \<and>
    cnt r1 = (cnt r)(k := cnt r k + 1)"
proof -
  let ?bm = "NewBatchAggregator (cg_RedisPrefix (co_config c))"
  let ?r1 = "snd (chain_Execute [BatchAggregator_Process (ow_redis W) (ow_event W) (ow_now W) ?bm] x r)"
  have "fst (rd_Incr (ow_redis W) (processed_key ?bm (tr_BatchID x)) r) =
      Some (cnt r (processed_key ?bm (tr_BatchID x)) + 1)"
    by (rule redis_countersD(1) [OF laws(1)])
  then have "result_chain W c x (m, r) =
      ResultMetrics_Process (\<lambda>r w. (MwOk, w)) x (m, ?r1)"
    using x(1,2) by (simp add: result_chain_def chain_Execute_def [of "[a, b]" for a b] lift_batch)
  moreover have "\<exists>m1. ResultMetrics_Process (\<lambda>r w. (MwOk, w)) x (m, ?r1) = (MwOk, (m1, ?r1)) \<and> 0 \<le> rm_success m1"
    using x(3) m by (simp add: ResultMetrics_Process_def Let_def)
  moreover have "cnt ?r1 = (cnt r)(k := cnt r k + 1) \<and> lst ?r1 = lst r"
    using batch_step [OF laws x(1,2) refl, where bm = ?bm and enc = "ow_event W" and now = "ow_now W" and r = r] small
    by (simp add: k_def)
  ultimately show ?thesis by auto
qed

text \<open>A run of the result handler over a list of results; \<open>None\<close> once a middleware panics.\<close>

fun handle_results :: "'r outside \<Rightarrow> bool \<Rightarrow> (string \<Rightarrow> string) \<Rightarrow> (string \<Rightarrow> gotime \<times> gotime \<times> tref \<times> string) \<Rightarrow>
    task_result list \<Rightarrow> 'r coord \<Rightarrow> 'r coord option" where
  "handle_results W sched hash fresh [] c = Some c"
| "handle_results W sched hash fresh (x # xs) c =
     (case handleTaskResult W sched hash fresh x c of
        None \<Rightarrow> None
      | Some c1 \<Rightarrow> handle_results W sched hash fresh xs c1)"

text \<open>What tells the coordinator apart for this: its prefix, the counters and the event queue.\<close>

lemma processSeedResult_id: "processSeedResult hash fresh result c = c"
  by (simp add: processSeedResult_def extractURLsFromData_def)

lemma handleTaskResult_success:
  assumes "tr_Error x = ''''" and "ow_result W x = Some data"
    and "result_chain W c x (co_metrics c, snd (rd_Set (ow_redis W)
      (cg_RedisPrefix (co_config c) @ '':result:'' @ tr_TaskID x) data (30 * minute) (co_redis c))) = (MwOk, (m, r))"
  shows "\<exists>c1. handleTaskResult W sched hash fresh x c = Some c1 \<and> co_config c1 = co_config c \<and>
    co_metrics c1 = m \<and> co_redis c1 = r \<and> co_dispatcher c1 = co_dispatcher c"
  using assms by (cases sched) (auto simp: handleTaskResult_def Let_def processSeedResult_id split: option.splits)

lemma handle_one:
  fixes c :: "'r coord"
  assumes laws: "redis_counters (ow_redis W) cnt" "redis_lists (ow_redis W) lst" "redis_del_lists (ow_redis W) lst"
    and enc: "\<And>r. ow_result W r \<noteq> None"
    and x: "tr_BatchID x = b" "b \<noteq> ''''" and m: "0 \<le> rm_success (co_metrics c)"
  defines "k \<equiv> processed_key (NewBatchAggregator (cg_RedisPrefix (co_config c))) b"
    and "q \<equiv> BuildRedisKey (cg_RedisPrefix (co_config c)) RedisKeyTasksCompleted"
  assumes pre: "cg_RedisPrefix (co_config c) \<noteq> ''''" and small: "cnt (co_redis c) k + 1 < tr_BatchSize x"
  shows "\<exists>c1. handleTaskResult W sched hash fresh x c = Some c1 \<and> co_config c1 = co_config c \<and>
    0 \<le> rm_success (co_metrics c1) \<and> lst (co_redis c1) q = lst (co_redis c) q \<and>
    cnt (co_redis c1) k = cnt (co_redis c) k + (if tr_Error x = '''' then 1 else 0)"
proof (cases "tr_Error x = ''''")
  case False
  then show ?thesis using m by (simp add: handleTaskResult_def handleTaskFailure_def Let_def)
next
  case True
  obtain data where data: "ow_result W x = Some data" using enc by blast
  define r1 where "r1 = snd (rd_Set (ow_redis W) (cg_RedisPrefix (co_config c) @ '':result:'' @ tr_TaskID x) data
                        (30 * minute) (co_redis c))"
  have "q \<noteq> cg_RedisPrefix (co_config c) @ '':result:'' @ tr_TaskID x"
    using pre by (simp add: q_def BuildRedisKey_def RedisKeyTasksCompleted_def)
  then have q1: "lst r1 q = lst (co_redis c) q"
    unfolding r1_def by (rule redis_listsD(7) [OF laws(2)])
  have "k \<noteq> cg_RedisPrefix (co_config c) @ '':result:'' @ tr_TaskID x"
    by (simp add: k_def processed_key_def NewBatchAggregator_def)
  then have k1: "cnt r1 k = cnt (co_redis c) k"
    unfolding r1_def by (rule redis_countersD(6) [OF laws(1)])
  obtain m2 r2 where chain: "result_chain W c x (co_metrics c, r1) = (MwOk, (m2, r2))" "0 \<le> rm_success m2"
      "lst r2 = lst r1" "cnt r2 = (cnt r1)(k := cnt r1 k + 1)"
    using chain_success [OF laws x True m, where c = c and r = r1] small k1 unfolding k_def by auto
  then show ?thesis
    using handleTaskResult_success [OF True data chain(1) [unfolded r1_def], of sched hash fresh] q1 k1 True by auto
qed
text \<open>
  A batch with a failed task never completes, although the aggregator's comment counts successes
  and failures alike: failed results do not reach it.  When all \<open>n\<close> results of a batch of size \<open>n\<close> have
  come back and at least one of them is an error, no batch event has been published and the
  counter stands at the number of successes.
\<close>
theorem batch_with_failure_stalls:
  assumes laws: "redis_counters (ow_redis W) cnt" "redis_lists (ow_redis W) lst" "redis_del_lists (ow_redis W) lst"
    and enc: "\<And>r. ow_result W r \<noteq> None"
    and batch: "\<And>x. x \<in> set xs \<Longrightarrow> tr_BatchID x = b \<and> tr_BatchSize x = int (length xs)" and "b \<noteq> ''''"
    and failed: "\<exists>x \<in> set xs. tr_Error x \<noteq> ''''"
    and m: "0 \<le> rm_success (co_metrics c)"
    and pre: "cg_RedisPrefix (co_config c) = pre" "pre \<noteq> ''''"
    and k: "k = processed_key (NewBatchAggregator pre) b" and zero: "cnt (co_redis c) k = 0"
    and q: "q = BuildRedisKey pre RedisKeyTasksCompleted"
  shows "\<exists>c1. handle_results W sched hash fresh xs c = Some c1 \<and> lst (co_redis c1) q = lst (co_redis c) q \<and>
    cnt (co_redis c1) k = int (length (filter (\<lambda>x. tr_Error x = '''') xs))"
proof -
  have run: "\<exists>c1. handle_results W sched hash fresh zs d = Some c1 \<and> lst (co_redis c1) q = lst (co_redis d) q \<and>
      cnt (co_redis c1) k = cnt (co_redis d) k + int (length (filter (\<lambda>x. tr_Error x = '''') zs))"
    if "set zs \<subseteq> set xs" "co_config d = co_config c" "0 \<le> rm_success (co_metrics d)"
      "cnt (co_redis d) k + int (length (filter (\<lambda>x. tr_Error x = '''') zs)) < int (length xs)"
      "cnt (co_redis d) k + 1 < int (length xs) \<or> filter (\<lambda>x. tr_Error x = '''') zs = []" for zs d
    using that
  proof (induction zs arbitrary: d)
    case Nil
    then show ?case by simp
  next
    case (Cons z zs)
    have z: "tr_BatchID z = b" "tr_BatchSize z = int (length xs)" using batch [of z] Cons.prems(1) by auto
    show ?case
    proof (cases "tr_Error z = ''''")
      case True
      with Cons.prems(5) have small: "cnt (co_redis d) k + 1 < int (length xs)" by simp
      obtain d1 where d1: "handleTaskResult W sched hash fresh z d = Some d1" "co_config d1 = co_config c"
        "0 \<le> rm_success (co_metrics d1)" "lst (co_redis d1) q = lst (co_redis d) q"
        "cnt (co_redis d1) k = cnt (co_redis d) k + 1"
        using handle_one [OF laws enc z(1) \<open>b \<noteq> ''''\<close> Cons.prems(3), of sched hash fresh] Cons.prems(2) pre k q small
          True z(2) by auto
      have "cnt (co_redis d1) k + 1 < int (length xs) \<or> filter (\<lambda>x. tr_Error x = '''') zs = []"
        using d1(5) Cons.prems(4) True by (cases "filter (\<lambda>x. tr_Error x = '''') zs") auto
      with Cons.IH [of d1] d1 Cons.prems True show ?thesis by auto
    next
      case False
      then obtain d1 where d1: "handleTaskResult W sched hash fresh z d = Some d1" "co_config d1 = co_config c"
        "co_metrics d1 = co_metrics d" "co_redis d1 = co_redis d"
        using Cons.prems(2) by (cases sched) (simp_all add: handleTaskResult_def handleTaskFailure_def Let_def)
      with Cons.IH [of d1] Cons.prems False show ?thesis by auto
    qed
  qed
  have less: "length (filter (\<lambda>x. tr_Error x = '''') xs) < length xs"
    using failed by (elim bexE) (rule length_filter_less, simp_all)
  then have "cnt (co_redis c) k + 1 < int (length xs) \<or> filter (\<lambda>x. tr_Error x = '''') xs = []"
    using zero by (cases "filter (\<lambda>x. tr_Error x = '''') xs") auto
  with run [of xs c] less zero m show ?thesis by auto
qed


theorem batch_with_failure_stalls_witness:
  "\<exists>c1. handle_results sample_outside True id (\<lambda>_. (0, 0, 0, '''')) [sample_result ''a'' ''b1'' 2 '''', sample_result ''b'' ''b1'' 2 ''boom''] sample_coord = Some c1 \<and>
    ms_lists (co_redis c1) ''crawler:tasks:completed'' = []"
proof -
  let ?xs = "[sample_result ''a'' ''b1'' 2 '''', sample_result ''b'' ''b1'' 2 ''boom'']"
  have R: "ow_redis sample_outside = mem_redis" by (simp add: sample_outside_def)
  have c: "co_redis sample_coord = mem_empty" "cg_RedisPrefix (co_config sample_coord) = ''crawler''"
    "rm_success (co_metrics sample_coord) = 0"
    by (simp_all add: sample_coord_def NewCoordinator_def sample_config_def NewResultMetrics_def)
  have "\<exists>c1. handle_results sample_outside True id (\<lambda>_. (0, 0, 0, '''')) ?xs sample_coord = Some c1 \<and>
    ms_lists (co_redis c1) ''crawler:tasks:completed'' = ms_lists (co_redis sample_coord) ''crawler:tasks:completed'' \<and>
    ms_counters (co_redis c1) (processed_key (NewBatchAggregator ''crawler'') ''b1'') =
      int (length (filter (\<lambda>x. tr_Error x = '''') ?xs))"
  proof (rule batch_with_failure_stalls [where b = "''b1''" and pre = "''crawler''"])
    show "redis_counters (ow_redis sample_outside) ms_counters" "redis_lists (ow_redis sample_outside) ms_lists"
      "redis_del_lists (ow_redis sample_outside) ms_lists"
      unfolding R by (rule mem_redis_counters mem_redis_lists mem_redis_del_lists)+
    show "ms_counters (co_redis sample_coord) (processed_key (NewBatchAggregator ''crawler'') ''b1'') = 0"
      by (simp add: c mem_empty_def)
    show "''crawler:tasks:completed'' = BuildRedisKey ''crawler'' RedisKeyTasksCompleted"
      by (simp add: BuildRedisKey_def RedisKeyTasksCompleted_def)
  qed (auto simp: sample_outside_def sample_result_def c)
  moreover have "ms_lists (co_redis sample_coord) ''crawler:tasks:completed'' = []"
    by (simp add: c mem_empty_def)
  ultimately show ?thesis by (metis (no_types, lifting))
qed

section \<open>Seeds\<close>

text \<open>
  Seed tasks are never expanded: the links are looked for in a map, but a result's data is a slice
  of maps, so whatever the data holds, handling a successful result submits nothing to the dispatcher.
\<close>
theorem seed_never_expands:
  assumes "handleTaskResult W sched hash fresh result c = Some c1"
  shows "co_dispatcher c1 = co_dispatcher c \<and>
    extractURLsFromData (GList (map GMap (tr_Data result))) = []"
proof (cases "tr_Error result = ''''")
  case True
  then show ?thesis
    using assms by (cases sched) (auto simp: handleTaskResult_def Let_def processSeedResult_id extractURLsFromData_def
        split: option.splits prod.splits mw_result.splits if_splits)
next
  case False
  then show ?thesis
    using assms by (cases sched) (auto simp: handleTaskResult_def handleTaskFailure_def Let_def extractURLsFromData_def)
qed

theorem seed_never_expands_witness:
  "\<exists>c1. handleTaskResult sample_outside True (\<lambda>s. s) (\<lambda>_. (0, 0, 0, ''''))
      ((sample_result ''t1'' '''' 0 '''')\<lparr>tr_Data := [[(''links'', GList [GStr ''http://h/1''])]]\<rparr>)
      (sample_coord\<lparr>co_pending := [''t1'' \<mapsto> zero_task\<lparr>t_ID := ''t1'', t_Type := TypeSeed\<rparr>]\<rparr>) = Some c1 \<and>
    co_dispatcher c1 = co_dispatcher sample_coord"
proof -
  let ?x = "(sample_result ''t1'' '''' 0 '''')\<lparr>tr_Data := [[(''links'', GList [GStr ''http://h/1''])]]\<rparr>"
  let ?c = "sample_coord\<lparr>co_pending := [''t1'' \<mapsto> zero_task\<lparr>t_ID := ''t1'', t_Type := TypeSeed\<rparr>]\<rparr>"
  have "\<exists>m r. result_chain sample_outside ?c ?x (co_metrics ?c, snd (rd_Set (ow_redis sample_outside)
      (cg_RedisPrefix (co_config ?c) @ '':result:'' @ tr_TaskID ?x) ''result'' (30 * minute) (co_redis ?c))) = (MwOk, (m, r))"
    by (simp add: result_chain_def chain_Execute_def BatchAggregator_Process_def publishSingleTaskEvent_def
        ResultMetrics_Process_def sample_outside_def lift_redis_simps sample_result_def sample_coord_def
        NewCoordinator_def NewResultMetrics_def Let_def)
  then obtain m r where chain: "result_chain sample_outside ?c ?x (co_metrics ?c, snd (rd_Set (ow_redis sample_outside)
      (cg_RedisPrefix (co_config ?c) @ '':result:'' @ tr_TaskID ?x) ''result'' (30 * minute) (co_redis ?c))) = (MwOk, (m, r))"
    by (elim exE)
  have "tr_Error ?x = ''''" "ow_result sample_outside ?x = Some ''result''"
    by (simp_all add: sample_result_def sample_outside_def)
  from handleTaskResult_success [OF this chain, of True "\<lambda>s. s" "\<lambda>_. (0, 0, 0, '''')"]
  obtain c1 where run: "handleTaskResult sample_outside True (\<lambda>s. s) (\<lambda>_. (0, 0, 0, '''')) ?x ?c = Some c1"
    by (elim exE conjE)
  then show ?thesis using seed_never_expands [OF run] by auto
qed

section \<open>Timeouts\<close>

text \<open>
  A task that times out with retries left is lost.  Its bare ID is pushed onto the queue whose
  entries are JSON, so if an ID does not decode, the next distribution round takes it off the queue
  again and gives no node anything.
\<close>
theorem timed_out_task_lost:
  assumes laws: "redis_lists (ow_redis W) lst" and up: "\<And>k v r. fst (rd_RPush (ow_redis W) k v r)"
    and range: "\<And>k a b r. rd_LRange (ow_redis W) k a b r \<noteq> None"
    and task: "co_pending c tid = Some t" "t_RetryCount t < t_MaxRetries t" "ow_unmarshal W tid = None"
    and queue: "lst (co_redis c) (tasksKey c) = []" "cg_BatchSize (co_config c) = int N" "0 < N"
    and c1: "c1 = handleTaskFailure W tid ''timeout'' c"
    and c2: "c2 = distributeTaskBatch W sent ks nodes c1" "filter is_active (values_of ks nodes) \<noteq> []"
  shows "lst (co_redis c1) (tasksKey c) = [tid] \<and> lst (co_redis c2) (tasksKey c) = [] \<and>
    co_assignments c2 = co_assignments c \<and>
    (\<exists>t1. co_pending c2 tid = Some t1 \<and> t_RetryCount t1 = t_RetryCount t + 1 \<and> t_Status t1 = StatusRetrying)"
proof -
  obtain r1 where push: "rd_RPush (ow_redis W) (tasksKey c) tid (co_redis c) = (True, r1)"
    using up by (metis (full_types) prod.collapse)
  let ?t = "t\<lparr>t_RetryCount := t_RetryCount t + 1, t_Status := StatusRetrying\<rparr>"
  have fields: "co_redis c1 = snd (rd_Set (ow_redis W) (cg_RedisPrefix (co_config c) @ '':task:'' @ tid)
      (ow_marshal W ?t) (1 * hour) r1)" "co_assignments c1 = co_assignments c" "co_config c1 = co_config c"
      "co_pending c1 = (co_pending c)(tid \<mapsto> ?t)"
    using task push by (simp_all add: c1 handleTaskFailure_def Let_def)
  have "lst (co_redis c1) (tasksKey c) = lst r1 (tasksKey c)"
    unfolding fields(1) by (rule redis_listsD(7) [OF laws]) (simp add: tasksKey_def)
  also have "\<dots> = [tid]" using redis_listsD(3) [OF laws push] queue(1) by simp
  finally have q: "lst (co_redis c1) (tasksKey c) = [tid]" .
  have key: "tasksKey c1 = tasksKey c" by (simp add: tasksKey_def fields)
  have "take N [tid] = [tid]" "drop N [tid] = []" using queue(3) by simp_all
  moreover have "taken W sent active 0 [tid] = []" "returned W sent 0 [tid] = []" for active
    using task(3) by (simp_all add: taken_simps)
  ultimately have "lst (co_redis c2) (tasksKey c) = [] \<and> co_assignments c2 = co_assignments c1 \<and>
      co_pending c2 = co_pending c1"
    using distribute_round [OF laws up range refl c2(2) _ queue(3) _ c2(1), of "[tid]"] q key queue(2) fields(3)
    by simp
  then show ?thesis using q fields by simp
qed


theorem timed_out_task_lost_witness:
  "let c1 = handleTaskFailure sample_outside ''t1'' ''timeout'' sample_coord;
       c2 = distributeTaskBatch sample_outside (\<lambda>i a. True) [''n1''] [''n1'' \<mapsto> sample_node ''n1'' ''active'' 0] c1
   in ms_lists (co_redis c1) ''crawler:queue:tasks:pending'' = [''t1''] \<and>
      ms_lists (co_redis c2) ''crawler:queue:tasks:pending'' = []"
proof -
  let ?c1 = "handleTaskFailure sample_outside ''t1'' ''timeout'' sample_coord"
  let ?nodes = "[''n1'' \<mapsto> sample_node ''n1'' ''active'' 0]"
  let ?c2 = "distributeTaskBatch sample_outside (\<lambda>i a. True) [''n1''] ?nodes ?c1"
  let ?t = "zero_task\<lparr>t_ID := ''t1'', t_MaxRetries := 3\<rparr>"
  have R: "ow_redis sample_outside = mem_redis" by (simp add: sample_outside_def)
  have key: "tasksKey sample_coord = ''crawler:queue:tasks:pending''"
    by (simp add: tasksKey_def sample_coord_def NewCoordinator_def sample_config_def)
  have "ms_lists (co_redis ?c1) (tasksKey sample_coord) = [''t1''] \<and>
    ms_lists (co_redis ?c2) (tasksKey sample_coord) = [] \<and>
    co_assignments ?c2 = co_assignments sample_coord \<and>
    (\<exists>t1. co_pending ?c2 ''t1'' = Some t1 \<and> t_RetryCount t1 = t_RetryCount ?t + 1 \<and> t_Status t1 = StatusRetrying)"
  proof (rule timed_out_task_lost)
    show "redis_lists (ow_redis sample_outside) ms_lists" unfolding R by (rule mem_redis_lists)
    show "co_pending sample_coord ''t1'' = Some ?t" by (simp add: sample_coord_def)
    show "filter is_active (values_of [''n1''] ?nodes) \<noteq> []" by (simp add: is_active_def sample_node_def)
    show "cg_BatchSize (co_config sample_coord) = int 10"
      by (simp add: sample_coord_def NewCoordinator_def sample_config_def)
    show "ms_lists (co_redis sample_coord) (tasksKey sample_coord) = []"
      by (simp add: sample_coord_def NewCoordinator_def mem_empty_def)
    show "t_RetryCount ?t < t_MaxRetries ?t" by (simp add: zero_task_def)
    show "ow_unmarshal sample_outside ''t1'' = None" by (simp add: sample_outside_def)
  qed (rule refl | simp add: R mem_redis_def)+
  then show ?thesis unfolding key Let_def by blast
qed

section \<open>Node synchronisation\<close>

text \<open>
  Every synchronisation forgets the load.  For a cluster's node table keyed by ID, after
  \<open>performNodeSync\<close> every node of the cluster is registered with the dispatcher with load 0, whatever
  tasks it holds, so the least-load strategy counts only what was assigned since the last sync.
\<close>
theorem sync_resets_load:
  assumes "enumerates ks nodes" and "keyed_by_id nodes" and "nodes k = Some n"
  shows "\<exists>d. d_nodes (co_dispatcher (performNodeSync now ks nodes c)) k = Some d \<and> n_CurrentLoad d = 0 \<and>
    n_Capacity d = cn_MaxWorkers n \<and> n_Status d = cn_Status n"
proof -
  let ?f = "\<lambda>c1 k. case nodes k of None \<Rightarrow> c1 | Some n \<Rightarrow>
         let d = RegisterNode now (to_dispatcher_node n) (co_dispatcher c1);
             d1 = (if cn_Status n = ''active'' then UpdateNodeHeartbeat now k 0 d else d)
         in c1\<lparr>co_dispatcher := d1\<rparr>"
  let ?ok = "\<lambda>c. \<exists>d. d_nodes (co_dispatcher c) k = Some d \<and> n_CurrentLoad d = 0 \<and>
    n_Capacity d = cn_MaxWorkers n \<and> n_Status d = cn_Status n"
  have hit: "?ok (?f c k)" for c :: "'a coord"
    using assms(2,3) by (auto simp: keyed_by_id_def RegisterNode_def UpdateNodeHeartbeat_def
        to_dispatcher_node_def Let_def)
  have other: "d_nodes (co_dispatcher (?f c k')) k = d_nodes (co_dispatcher c) k" if "k' \<noteq> k" for c :: "'a coord" and k'
    using assms(2) that by (auto simp: keyed_by_id_def RegisterNode_def UpdateNodeHeartbeat_def
        to_dispatcher_node_def Let_def split: option.splits)
  have keep: "?ok c \<Longrightarrow> ?ok (foldl ?f c xs)" for c :: "'a coord" and xs
  proof (induction xs arbitrary: c)
    case (Cons x xs)
    have "?ok (?f c x)" using Cons.prems hit [of c] other [of x c] by (cases "x = k") auto
    then show ?case using Cons.IH by simp
  qed simp
  have "k \<in> set ks \<Longrightarrow> ?ok (foldl ?f c xs)" if "k \<in> set xs" for xs and c :: "'a coord"
    using that
  proof (induction xs arbitrary: c)
    case (Cons x xs)
    show ?case
    proof (cases "x = k")
      case True
      then show ?thesis using keep [OF hit [of c], of xs] by simp
    next
      case False
      then show ?thesis using Cons by simp
    qed
  qed simp
  moreover have "k \<in> set ks" using assms(1,3) by (auto simp: enumerates_def)
  ultimately show ?thesis unfolding performNodeSync_def by blast
qed

theorem sync_resets_load_witness:
  "\<exists>d. d_nodes (co_dispatcher (performNodeSync 5 [''n1''] [''n1'' \<mapsto> sample_node ''n1'' ''active'' 9] sample_coord)) ''n1'' = Some d \<and>
    n_CurrentLoad d = 0"
proof -
  have "enumerates [''n1''] [''n1'' \<mapsto> sample_node ''n1'' ''active'' 9]"
    "keyed_by_id [''n1'' \<mapsto> sample_node ''n1'' ''active'' 9]"
    by (auto simp: enumerates_def keyed_by_id_def sample_node_def)
  then show ?thesis
    using sync_resets_load [of "[''n1'']" "[''n1'' \<mapsto> sample_node ''n1'' ''active'' 9]" "''n1''" _ 5 sample_coord] by auto
qed

end
