(* ===== verification/MemStorage.thy ===== *)
theory MemStorage
  imports CrawlTask TTLStore
begin

text \<open>
  The crawler's in-memory storage (src/crawler/storage/memory.go): values and expiry times in two
  maps under prefixed keys.  It keeps the store contract for positive lifetimes.  The clock is an
  argument of each operation.
\<close>

section \<open>State and operations\<close>

record storage =
  ms_data :: "string \<rightharpoonup> goval"
  ms_ttl :: "string \<rightharpoonup> gotime"
  ms_prefix :: string

definition NewMemoryStorage :: "string \<Rightarrow> storage" where
  "NewMemoryStorage pre = \<lparr>ms_data = Map.empty, ms_ttl = Map.empty, ms_prefix = pre\<rparr>"

definition getKey :: "storage \<Rightarrow> string \<Rightarrow> string" where
  "getKey s key = (if ms_prefix s \<noteq> '''' then ms_prefix s @ '':'' @ key else key)"

definition StoreWithTTL :: "gotime \<Rightarrow> duration \<Rightarrow> string \<Rightarrow> goval \<Rightarrow> storage \<Rightarrow> storage" where
  "StoreWithTTL now ttl key v s =
     (let fullKey = getKey s key;
          s1 = s\<lparr>ms_data := (ms_data s)(fullKey \<mapsto> v)\<rparr>
      in if ttl > 0 then s1\<lparr>ms_ttl := (ms_ttl s1)(fullKey \<mapsto> now + ttl)\<rparr> else s1)"

definition Store :: "gotime \<Rightarrow> string \<Rightarrow> goval \<Rightarrow> storage \<Rightarrow> storage" where
  "Store now key v s = StoreWithTTL now (24 * hour) key v s"

definition expired :: "gotime \<Rightarrow> storage \<Rightarrow> string \<Rightarrow> bool" where
  "expired now s fullKey = (case ms_ttl s fullKey of None \<Rightarrow> False | Some expiry \<Rightarrow> now > expiry)"

datatype storage_error = KeyExpired string | KeyNotFound string

definition storage_Get :: "gotime \<Rightarrow> string \<Rightarrow> storage \<Rightarrow> storage_error + goval" where
  "storage_Get now key s =
     (let fullKey = getKey s key in
      if expired now s fullKey then Inl (KeyExpired key)
      else case ms_data s fullKey of None \<Rightarrow> Inl (KeyNotFound key) | Some v \<Rightarrow> Inr v)"

definition storage_Delete :: "string \<Rightarrow> storage \<Rightarrow> storage" where
  "storage_Delete key s =
     (let fullKey = getKey s key
      in s\<lparr>ms_data := (ms_data s)(fullKey := None), ms_ttl := (ms_ttl s)(fullKey := None)\<rparr>)"

definition Exists :: "gotime \<Rightarrow> string \<Rightarrow> storage \<Rightarrow> bool" where
  "Exists now key s =
     (let fullKey = getKey s key in \<not> expired now s fullKey \<and> ms_data s fullKey \<noteq> None)"

text \<open>The items in the order the loop visits them.\<close>

definition BatchStore :: "gotime \<Rightarrow> (string \<times> goval) list \<Rightarrow> storage \<Rightarrow> storage" where
  "BatchStore now items s = foldl (\<lambda>s (key, v). s\<lparr>ms_data := (ms_data s)(getKey s key \<mapsto> v),
     ms_ttl := (ms_ttl s)(getKey s key \<mapsto> now + 24 * hour)\<rparr>) s items"

definition BatchGet :: "gotime \<Rightarrow> string list \<Rightarrow> storage \<Rightarrow> (string \<rightharpoonup> goval)" where
  "BatchGet now keys s = foldl (\<lambda>res key.
     if expired now s (getKey s key) then res
     else case ms_data s (getKey s key) of None \<Rightarrow> res | Some v \<Rightarrow> res(key \<mapsto> v)) Map.empty keys"

text \<open>\<open>None\<close>: the query is not a string.  \<open>ks\<close> is the order in which the data is visited.\<close>

definition storage_Query :: "gotime \<Rightarrow> string list \<Rightarrow> goval \<Rightarrow> storage \<Rightarrow> goval list option" where
  "storage_Query now ks query s =
     (case query of
        GStr pattern \<Rightarrow>
          (let pre = getKey s pattern
           in Some (List.map_filter (\<lambda>key. if expired now s key then None
                else if length pre > 0 \<and> length key \<ge> length pre \<and> take (length pre) key = pre
                then ms_data s key else None) ks))
      | _ \<Rightarrow> None)"

definition storage_Count :: "gotime \<Rightarrow> string list \<Rightarrow> string list \<Rightarrow> storage \<Rightarrow> nat" where
  "storage_Count now tks dks s =
     length (filter (\<lambda>key. (case ms_ttl s key of None \<Rightarrow> False | Some expiry \<Rightarrow> now < expiry) \<and> ms_data s key \<noteq> None) tks) +
     length (filter (\<lambda>key. ms_ttl s key = None) dks)"

definition storage_Clear :: "storage \<Rightarrow> storage" where
  "storage_Clear s = s\<lparr>ms_data := Map.empty, ms_ttl := Map.empty\<rparr>"

text \<open>One tick of the cleanup goroutine.\<close>

definition storage_cleanup :: "gotime \<Rightarrow> storage \<Rightarrow> storage" where
  "storage_cleanup now s = s\<lparr>ms_data := (\<lambda>k. if expired now s k then None else ms_data s k),
     ms_ttl := (\<lambda>k. if expired now s k then None else ms_ttl s k)\<rparr>"

section \<open>The store contract\<close>

definition lookup :: "gotime \<Rightarrow> string \<Rightarrow> storage \<Rightarrow> goval option" where
  "lookup now key s = (case storage_Get now key s of Inl _ \<Rightarrow> None | Inr v \<Rightarrow> Some v)"

lemma lookup_alt:
  "lookup now key s = (if expired now s (getKey s key) then None else ms_data s (getKey s key))"
  by (simp add: lookup_def storage_Get_def Let_def split: option.splits)

lemma getKey_inj [simp]: "getKey s a = getKey s b \<longleftrightarrow> a = b"
  by (simp add: getKey_def)

lemma getKey_frame [simp]:
  "getKey (s\<lparr>ms_data := d\<rparr>) = getKey s" "getKey (s\<lparr>ms_ttl := t\<rparr>) = getKey s"
  by (simp_all add: getKey_def fun_eq_iff)

interpretation mem_store: ttl_store lookup StoreWithTTL storage_Delete storage_cleanup "NewMemoryStorage pre"
proof
  fix now now' :: gotime and ttl :: duration and k k' :: string and v :: goval and s :: storage
  show "lookup now k (NewMemoryStorage pre) = None"
    by (simp add: lookup_alt NewMemoryStorage_def)
  show "0 < ttl \<Longrightarrow> lookup now' k (StoreWithTTL now ttl k v s) = (if now' > now + ttl then None else Some v)"
    by (simp add: lookup_alt StoreWithTTL_def expired_def Let_def)
  show "k \<noteq> k' \<Longrightarrow> lookup now' k (StoreWithTTL now ttl k' v s) = lookup now' k s"
    by (simp add: lookup_alt StoreWithTTL_def expired_def Let_def)
  show "lookup now k (storage_Delete k s) = None"
    by (simp add: lookup_alt storage_Delete_def expired_def Let_def)
  show "k \<noteq> k' \<Longrightarrow> lookup now k (storage_Delete k' s) = lookup now k s"
    by (simp add: lookup_alt storage_Delete_def expired_def Let_def)
  show "now \<le> now' \<Longrightarrow> lookup now' k (storage_cleanup now s) = lookup now' k s"
    by (auto simp: lookup_alt storage_cleanup_def expired_def split: option.splits)
qed

text \<open>
  The memory storage refines the abstract store: after any history of stores with a positive
  lifetime, deletes and cleanup ticks, \<open>Get\<close> finds exactly the last value written and not deleted, up
  to its expiry, and \<open>Exists\<close> agrees with \<open>Get\<close>.
\<close>
theorem storage_refines:
  assumes "\<forall>op \<in> set ops. op_ok T op"
    and s: "s = fold (store_ap StoreWithTTL storage_Delete storage_cleanup) ops (NewMemoryStorage pre)"
  shows "(case storage_Get T k s of Inl _ \<Rightarrow> None | Inr v \<Rightarrow> Some v) = alive_at T (last_write k ops) \<and>
    (Exists T k s \<longleftrightarrow> alive_at T (last_write k ops) \<noteq> None)"
proof -
  have "lookup T k s = alive_at T (last_write k ops)"
    unfolding s using assms(1) by (rule mem_store.get_run_empty)
  then show ?thesis
    by (auto simp: lookup_def [symmetric]) (auto simp: lookup_alt Exists_def Let_def split: if_splits)
qed

theorem storage_refines_witness:
  "storage_Get 7 ''k'' (fold (store_ap StoreWithTTL storage_Delete storage_cleanup)
      [Put 0 3 ''k'' (GInt 1), Put 2 5 ''k'' (GInt 2), Sweep 6, Del ''j''] (NewMemoryStorage ''p'')) = Inr (GInt 2)"
  using storage_refines [of "[Put 0 3 ''k'' (GInt 1), Put 2 5 ''k'' (GInt 2), Sweep 6, Del ''j'']" 7 _ "''p''" "''k''"]
  by (simp add: alive_at_def split: sum.splits)

text \<open>
  A value stored without a lifetime is meant to stay, but it inherits the expiry of the value it
  replaces: after the old expiry it is gone, and the next cleanup deletes it.
\<close>
theorem store_keeps_stale_ttl:
  assumes "0 < ttl" and "ttl' \<le> 0" and "now + ttl < T"
    and s: "s = StoreWithTTL now' ttl' k v' (StoreWithTTL now ttl k v (NewMemoryStorage pre))"
  shows "storage_Get T k s = Inl (KeyExpired k) \<and> storage_Get T k (storage_cleanup T s) = Inl (KeyNotFound k)"
  using assms by (simp add: storage_Get_def StoreWithTTL_def expired_def storage_cleanup_def Let_def)

theorem store_keeps_stale_ttl_witness:
  "storage_Get 20 ''k'' (StoreWithTTL 6 0 ''k'' (GInt 2) (StoreWithTTL 0 5 ''k'' (GInt 1) (NewMemoryStorage '''')))
     = Inl (KeyExpired ''k'')"
  using store_keeps_stale_ttl [of 5 0 0 20 _ 6 "''k''" "GInt 2" "GInt 1" "''''"] by simp

section \<open>Batches and queries\<close>

lemma BatchGet_lookup:
  "BatchGet now keys s k = (if k \<in> set keys then lookup now k s else None)"
proof -
  have "foldl (\<lambda>res key. if expired now s (getKey s key) then res
      else case ms_data s (getKey s key) of None \<Rightarrow> res | Some v \<Rightarrow> res(key \<mapsto> v)) m keys k =
    (if k \<in> set keys \<and> lookup now k s \<noteq> None then lookup now k s else m k)" for m
    by (induction keys arbitrary: m) (auto simp: lookup_alt split: option.splits)
  from this [of Map.empty] show ?thesis by (auto simp: BatchGet_def)
qed

lemma BatchStore_lookup:
  "T \<le> now + 24 * hour \<Longrightarrow>
   lookup T k (BatchStore now items s) = (case map_of (rev items) k of None \<Rightarrow> lookup T k s | Some v \<Rightarrow> Some v)"
proof (induction items rule: rev_induct)
  case Nil
  then show ?case by (simp add: BatchStore_def)
next
  case (snoc x items)
  obtain key v where x: "x = (key, v)" by (cases x)
  let ?s = "BatchStore now items s"
  have "BatchStore now (items @ [x]) s = ?s\<lparr>ms_data := (ms_data ?s)(getKey ?s key \<mapsto> v),
      ms_ttl := (ms_ttl ?s)(getKey ?s key \<mapsto> now + 24 * hour)\<rparr>"
    by (simp add: BatchStore_def x)
  then show ?case using snoc by (auto simp: x lookup_alt expired_def)
qed

text \<open>
  A query by a nonempty pattern on a storage without prefix, or by any pattern on one with a
  prefix, returns exactly the live values whose key begins with the prefixed pattern; a batch store
  followed by a batch read within the day gives back the last value of every key asked for.
\<close>
theorem query_and_batch:
  assumes "enumerates ks (ms_data s)"
  shows "(getKey s pattern \<noteq> '''' \<longrightarrow> (\<exists>vs. storage_Query now ks (GStr pattern) s = Some vs \<and>
      set vs = {v. \<exists>k. prefix (getKey s pattern) k \<and> \<not> expired now s k \<and> ms_data s k = Some v})) \<and>
    (T \<le> now + 24 * hour \<longrightarrow> k \<in> set keys \<longrightarrow> map_of (rev items) k = Some v \<longrightarrow>
      BatchGet T keys (BatchStore now items s) k = Some v)"
proof (intro conjI impI)
  assume ne: "getKey s pattern \<noteq> ''''"
  let ?pre = "getKey s pattern"
  have pre: "length key \<ge> length ?pre \<and> take (length ?pre) key = ?pre \<longleftrightarrow> prefix ?pre key" for key
    by (metis append_eq_conv_conj length_append prefix_def prefix_length_le)
  let ?f = "\<lambda>key. if expired now s key then None
      else if length ?pre > 0 \<and> length key \<ge> length ?pre \<and> take (length ?pre) key = ?pre then ms_data s key else None"
  have f: "?f key = Some v \<longleftrightarrow> \<not> expired now s key \<and> prefix ?pre key \<and> ms_data s key = Some v" for key v
    using ne pre [of key] by auto
  have "set (List.map_filter ?f ks) = {v. \<exists>k \<in> set ks. ?f k = Some v}"
    by (induction ks) (auto split: option.splits)
  also have "\<dots> = {v. \<exists>k. prefix ?pre k \<and> \<not> expired now s k \<and> ms_data s k = Some v}"
    unfolding f using assms by (auto simp: enumerates_def)
  finally show "\<exists>vs. storage_Query now ks (GStr pattern) s = Some vs \<and>
      set vs = {v. \<exists>k. prefix ?pre k \<and> \<not> expired now s k \<and> ms_data s k = Some v}"
    by (simp add: storage_Query_def Let_def)
next
  assume "T \<le> now + 24 * hour" "k \<in> set keys" "map_of (rev items) k = Some v"
  then show "BatchGet T keys (BatchStore now items s) k = Some v"
    by (simp add: BatchGet_lookup BatchStore_lookup)
qed

theorem query_and_batch_witness:
  "BatchGet 5 [''a''] (BatchStore 0 [(''a'', GInt 1), (''a'', GInt 2)] (NewMemoryStorage ''p'')) ''a'' = Some (GInt 2)"
proof -
  have "enumerates [] (ms_data (NewMemoryStorage ''p''))" by (simp add: enumerates_def NewMemoryStorage_def)
  then show ?thesis
    using query_and_batch [of "[]" "NewMemoryStorage ''p''" "''x''" 0 5 "''a''" "[''a'']"
        "[(''a'', GInt 1), (''a'', GInt 2)]" "GInt 2"] by simp
qed

end
