(* ===== verification/GoText.thy ===== *)
theory GoText
  imports CrawlTask "HOL-Library.List_Lexorder" "HOL-Library.Char_ord"
begin

text \<open>
  The text functions of Go's standard library that the program calls: \<open>strings.TrimSpace\<close>,
  \<open>ToLower\<close>, \<open>ToUpper\<close>, \<open>HasPrefix\<close>, \<open>HasSuffix\<close>, the replacement of \<open>\s+\<close> by a space and the
  \<open>%v\<close> rendering of \<open>fmt\<close>.  A string is its list of bytes; the case and white space functions
  are those of ASCII, and leave other bytes alone.
\<close>

section \<open>Characters\<close>

definition ascii_space :: "char \<Rightarrow> bool" where
  "ascii_space c = (let n = of_char c :: nat in n = 32 \<or> 9 \<le> n \<and> n \<le> 13)"

text \<open>The class \<open>\s\<close> of \<open>regexp\<close>, which leaves out the vertical tab.\<close>

definition re_space :: "char \<Rightarrow> bool" where
  "re_space c = (ascii_space c \<and> of_char c \<noteq> (11 :: nat))"

definition char_between :: "nat \<Rightarrow> nat \<Rightarrow> char \<Rightarrow> bool" where
  "char_between a b c = (a \<le> of_char c \<and> of_char c \<le> b)"

abbreviation is_digit :: "char \<Rightarrow> bool" where "is_digit \<equiv> char_between 48 57"
abbreviation is_upper :: "char \<Rightarrow> bool" where "is_upper \<equiv> char_between 65 90"
abbreviation is_lower :: "char \<Rightarrow> bool" where "is_lower \<equiv> char_between 97 122"

definition lower :: "char \<Rightarrow> char" where
  "lower c = (if is_upper c then char_of (of_char c + 32 :: nat) else c)"

definition upper :: "char \<Rightarrow> char" where
  "upper c = (if is_lower c then char_of (of_char c - 32 :: nat) else c)"

lemmas char_defs = ascii_space_def re_space_def char_between_def Let_def

lemma of_char_lower: "of_char (lower c) = (if is_upper c then of_char c + 32 else of_char c :: nat)"
  by (simp add: lower_def char_between_def)

lemma of_char_upper: "of_char (upper c) = (if is_lower c then of_char c - 32 else of_char c :: nat)"
  by (auto simp: upper_def char_between_def intro!: mod_less)

lemma char_eqI: "of_char a = (of_char b :: nat) \<Longrightarrow> a = b"
  by simp

lemma lower_lower [simp]: "lower (lower c) = lower c"
  by (rule char_eqI) (simp only: of_char_lower char_between_def split: if_splits, auto)

lemma upper_upper [simp]: "upper (upper c) = upper c"
  by (rule char_eqI) (simp only: of_char_upper char_between_def split: if_splits, auto)

lemma upper_lower [simp]: "upper (lower c) = upper c"
  by (rule char_eqI) (simp only: of_char_upper of_char_lower char_between_def split: if_splits, auto)

lemma lower_upper [simp]: "lower (upper c) = lower c"
  by (rule char_eqI) (simp only: of_char_upper of_char_lower char_between_def split: if_splits, auto)

lemma space_lower [simp]: "ascii_space (lower c) = ascii_space c" "re_space (lower c) = re_space c"
  by (auto simp: re_space_def ascii_space_def of_char_lower char_between_def Let_def)

lemma space_upper [simp]: "ascii_space (upper c) = ascii_space c" "re_space (upper c) = re_space c"
  by (auto simp: re_space_def ascii_space_def of_char_upper char_between_def Let_def)

lemma case_space [simp]: "lower (CHR '' '') = CHR '' ''" "upper (CHR '' '') = CHR '' ''"
  by (simp_all add: lower_def upper_def char_between_def)

lemma re_space_space [simp]: "re_space (CHR '' '')"
  by (simp add: char_defs)

section \<open>Strings\<close>

definition ToLower :: "string \<Rightarrow> string" where "ToLower = map lower"
definition ToUpper :: "string \<Rightarrow> string" where "ToUpper = map upper"

definition TrimSpace :: "string \<Rightarrow> string" where
  "TrimSpace s = rev (dropWhile ascii_space (rev (dropWhile ascii_space s)))"

text \<open>\<open>ReplaceAllString(s, " ")\<close> for \<open>\s+\<close>; the flag says that a run of spaces is being replaced.\<close>

fun squeeze :: "bool \<Rightarrow> string \<Rightarrow> string" where
  "squeeze b [] = []"
| "squeeze b (c # cs) =
     (if re_space c then if b then squeeze True cs else CHR '' '' # squeeze True cs
      else c # squeeze False cs)"

definition trimmed :: "string \<Rightarrow> bool" where
  "trimmed s \<longleftrightarrow> (s = [] \<or> \<not> ascii_space (hd s) \<and> \<not> ascii_space (last s))"

lemma TrimSpace_trimmed: "trimmed (TrimSpace s)"
proof -
  define d where "d = dropWhile ascii_space s"
  define r where "r = dropWhile ascii_space (rev d)"
  have d: "d \<noteq> [] \<Longrightarrow> \<not> ascii_space (hd d)" unfolding d_def by (metis hd_dropWhile dropWhile_eq_Nil_conv)
  have r: "r \<noteq> [] \<Longrightarrow> \<not> ascii_space (hd r)" unfolding r_def by (metis hd_dropWhile dropWhile_eq_Nil_conv)
  have "rev d = takeWhile ascii_space (rev d) @ r" by (simp add: r_def)
  then have "d = rev r @ rev (takeWhile ascii_space (rev d))" by (metis rev_append rev_rev_ident)
  then have "r \<noteq> [] \<Longrightarrow> hd (rev r) = hd d \<and> d \<noteq> []" by (metis append_is_Nil_conv hd_append2 rev_is_Nil_conv)
  then have "trimmed (rev r)" using d r by (cases "r = []") (auto simp: trimmed_def last_rev)
  then show ?thesis by (simp add: TrimSpace_def r_def d_def)
qed

lemma TrimSpace_id: "trimmed s \<Longrightarrow> TrimSpace s = s"
proof (cases "s = []")
  case False
  assume "trimmed s"
  have "dropWhile ascii_space t = t" if "t \<noteq> []" "\<not> ascii_space (hd t)" for t
    using that by (cases t) auto
  from this [of s] this [of "rev s"] show "TrimSpace s = s"
    using False \<open>trimmed s\<close> by (simp add: TrimSpace_def trimmed_def hd_rev)
qed (simp add: TrimSpace_def)

lemma TrimSpace_map: "(\<And>c. ascii_space (f c) = ascii_space c) \<Longrightarrow> TrimSpace (map f s) = map f (TrimSpace s)"
  by (simp add: TrimSpace_def dropWhile_map o_def rev_map)
lemma squeeze_twice: "squeeze b (squeeze b s) = squeeze b s"
proof -
  have "squeeze False (squeeze False s) = squeeze False s \<and> squeeze True (squeeze True s) = squeeze True s"
    by (induction s) auto
  then show ?thesis by (cases b) auto
qed

lemma squeeze_last: "s \<noteq> [] \<Longrightarrow> \<not> re_space (last s) \<Longrightarrow> squeeze b s \<noteq> [] \<and> last (squeeze b s) = last s"
  by (induction s arbitrary: b) (auto split: if_splits)

lemma squeeze_trimmed: "trimmed s \<Longrightarrow> trimmed (squeeze False s)"
  using squeeze_last [of s False] by (cases s) (auto simp: trimmed_def re_space_def split: if_splits)

lemma squeeze_map:
  "(\<And>c. re_space (f c) = re_space c) \<Longrightarrow> f (CHR '' '') = CHR '' '' \<Longrightarrow> squeeze b (map f s) = map f (squeeze b s)"
  by (induction s arbitrary: b) auto

definition HasPrefix :: "string \<Rightarrow> string \<Rightarrow> bool" where
  "HasPrefix s p = (take (length p) s = p)"

definition HasSuffix :: "string \<Rightarrow> string \<Rightarrow> bool" where
  "HasSuffix s p = HasPrefix (rev s) (rev p)"

lemma HasPrefix_iff: "HasPrefix s p \<longleftrightarrow> (\<exists>r. s = p @ r)"
  by (metis HasPrefix_def append_eq_conv_conj)

lemma HasSuffix_iff: "HasSuffix s p \<longleftrightarrow> (\<exists>r. s = r @ p)"
  by (metis HasPrefix_iff HasSuffix_def rev_append rev_rev_ident)

definition join :: "string \<Rightarrow> string list \<Rightarrow> string" where
  "join sep ss = concat (case ss of [] \<Rightarrow> [] | s # rest \<Rightarrow> s # map (\<lambda>t. sep @ t) rest)"

section \<open>The \<open>%v\<close> rendering\<close>

text \<open>
  Maps are printed in the order of their keys.  The renderings of a float and of a time are
  arguments.
\<close>

fun sprint :: "(64 word \<Rightarrow> string) \<Rightarrow> (gotime \<Rightarrow> string) \<Rightarrow> goval \<Rightarrow> string" where
  "sprint ff ft GNil = ''<nil>''"
| "sprint ff ft (GBool b) = (if b then ''true'' else ''false'')"
| "sprint ff ft (GInt i) = dec_of_int i"
| "sprint ff ft (GFloat w) = ff w"
| "sprint ff ft (GStr s) = s"
| "sprint ff ft (GTime t) = ft t"
| "sprint ff ft (GStrs ss) = ''['' @ join '' '' ss @ '']''"
| "sprint ff ft (GList vs) = ''['' @ join '' '' (map (sprint ff ft) vs) @ '']''"
| "sprint ff ft (GMap m) = ''map['' @
     join '' '' (map (\<lambda>(k, s). k @ '':'' @ s) (sort_key fst (map (\<lambda>(k, v). (k, sprint ff ft v)) m))) @ '']''"

section \<open>\<open>strconv.Atoi\<close>\<close>

definition dec_val :: "string \<Rightarrow> nat" where
  "dec_val s = foldl (\<lambda>n c. 10 * n + (of_char c - 48)) 0 s"

text \<open>An optional sign and digits, in the range of \<open>int\<close>; \<open>None\<close> is an error.\<close>

definition Atoi :: "string \<Rightarrow> int option" where
  "Atoi s =
     (let (neg, ds) = (case s of [] \<Rightarrow> (False, [])
        | c # r \<Rightarrow> if c = CHR ''-'' then (True, r) else if c = CHR ''+'' then (False, r) else (False, s))
      in if ds = [] \<or> \<not> list_all is_digit ds then None
         else let v = (if neg then - int (dec_val ds) else int (dec_val ds))
           in if - (2 ^ 63) \<le> v \<and> v < 2 ^ 63 then Some v else None)"

lemma of_char_digit: "n < 10 \<Longrightarrow> of_char (digit n) = (48 + n :: nat)"
  by (simp add: digit_def)

lemma dec_of_nat_digits: "dec_of_nat n \<noteq> [] \<and> list_all is_digit (dec_of_nat n)"
proof (induction n rule: dec_of_nat.induct)
  case (1 n)
  then show ?case
    by (cases "n < 10") (simp_all add: dec_of_nat.simps [of n] char_between_def of_char_digit)
qed

lemma dec_val_dec_of_nat: "dec_val (dec_of_nat n) = n"
proof (induction n rule: dec_of_nat.induct)
  case (1 n)
  then show ?case
    by (cases "n < 10") (simp_all add: dec_of_nat.simps [of n] dec_val_def of_char_digit)
qed

lemma dec_of_nat_hd: "dec_of_nat n = c # cs \<Longrightarrow> is_digit c"
  using dec_of_nat_digits [of n] by simp

lemma Atoi_dec_of_int: "- (2 ^ 63) \<le> i \<Longrightarrow> i < 2 ^ 63 \<Longrightarrow> Atoi (dec_of_int i) = Some i"
proof -
  assume i: "- (2 ^ 63) \<le> i" "i < 2 ^ 63"
  show ?thesis
  proof (cases "i < 0")
    case True
    then show ?thesis using i dec_of_nat_digits [of "nat (- i)"]
      by (simp add: Atoi_def dec_of_int_def dec_val_dec_of_nat)
  next
    case False
    obtain c cs where c: "dec_of_nat (nat i) = c # cs" using dec_of_nat_digits by (meson neq_Nil_conv)
    then have "c \<noteq> CHR ''-'' \<and> c \<noteq> CHR ''+''" using dec_of_nat_hd [OF c] by (auto simp: char_between_def)
    then show ?thesis using i False dec_of_nat_digits [of "nat i"] dec_val_dec_of_nat [of "nat i"]
      by (simp add: Atoi_def dec_of_int_def c)
  qed
qed

lemma dec_of_nat_inj: "dec_of_nat m = dec_of_nat n \<longleftrightarrow> m = n"
  by (metis dec_val_dec_of_nat)

lemma dec_of_nat_no_sign: "dec_of_nat n \<noteq> CHR ''-'' # ds"
  using dec_of_nat_hd [of n "CHR ''-''" ds] by (auto simp: char_between_def)

lemma dec_of_int_inj: "dec_of_int i = dec_of_int j \<longleftrightarrow> i = j"
  using dec_of_nat_no_sign dec_of_nat_no_sign [symmetric] by (auto simp: dec_of_int_def dec_of_nat_inj eq_nat_nat_iff)

lemma dec_of_int_nonempty: "dec_of_int i \<noteq> []"
  using dec_of_nat_digits by (simp add: dec_of_int_def)


section \<open>Searching, splitting and replacing\<close>

text \<open>\<open>strings.Index\<close>, and \<open>Contains\<close>, \<open>Split\<close>, \<open>SplitN\<close> and \<open>ReplaceAll\<close> by it.\<close>

fun Index :: "string \<Rightarrow> string \<Rightarrow> nat option" where
  "Index [] p = (if p = [] then Some 0 else None)"
| "Index (c # s) p = (if HasPrefix (c # s) p then Some 0 else map_option Suc (Index s p))"

definition Contains :: "string \<Rightarrow> string \<Rightarrow> bool" where
  "Contains s p = (Index s p \<noteq> None)"

lemma Index_Some: "Index s p = Some i \<Longrightarrow> i + length p \<le> length s \<and> s = take i s @ p @ drop (i + length p) s"
proof (induction s arbitrary: i)
  case (Cons c s)
  show ?case
  proof (cases "HasPrefix (c # s) p")
    case True
    then have "i = 0" using Cons.prems by simp
    moreover obtain r where r: "c # s = p @ r" using True by (auto simp: HasPrefix_iff)
    moreover have "drop (length p) (c # s) = r" using r by simp
    moreover have "length p \<le> length (c # s)" using r by (metis length_append le_add1)
    ultimately show ?thesis by simp
  next
    case False
    then show ?thesis using Cons by auto
  qed
qed (auto split: if_splits)

lemma Index_first_char: "c \<notin> set h \<Longrightarrow> Index (h @ c # r) [c] = Some (length h)"
  by (induction h) (auto simp: HasPrefix_def)

lemma Index_first: "Index s p = Some i \<Longrightarrow> j < i \<Longrightarrow> \<not> HasPrefix (drop j s) p"
proof (induction s arbitrary: i j)
  case (Cons c s)
  then show ?case by (cases j) (auto split: if_splits)
qed (auto split: if_splits)

lemma Index_None: "Index s p = None \<longleftrightarrow> (\<forall>a b. s \<noteq> a @ p @ b)"
proof (induction s)
  case (Cons c s)
  show ?case
  proof (cases "HasPrefix (c # s) p")
    case True
    then have "\<exists>a b. c # s = a @ p @ b" unfolding HasPrefix_iff by (metis append_Nil)
    then show ?thesis using True by auto
  next
    case False
    then have "(\<forall>a b. c # s \<noteq> a @ p @ b) \<longleftrightarrow> (\<forall>a b. s \<noteq> a @ p @ b)"
      unfolding HasPrefix_iff by (auto simp: Cons_eq_append_conv)
    then show ?thesis using False Cons.IH by simp
  qed
qed auto

lemma Contains_iff: "Contains s p \<longleftrightarrow> (\<exists>a b. s = a @ p @ b)"
  using Index_None [of s p] by (auto simp: Contains_def)

text \<open>Splitting at an empty separator gives the characters, one string each.\<close>

function split_at :: "string \<Rightarrow> string \<Rightarrow> string list" where
  "split_at sep s =
     (if sep = [] then map (\<lambda>c. [c]) s
      else case Index s sep of
          None \<Rightarrow> [s]
        | Some i \<Rightarrow> take i s # split_at sep (drop (i + length sep) s))"
  by pat_completeness auto
termination
proof (relation "measure (length \<circ> snd)")
  fix sep s :: string and i
  assume "sep \<noteq> []" and "Index s sep = Some i"
  then show "((sep, drop (i + length sep) s), (sep, s)) \<in> measure (length \<circ> snd)"
    using Index_Some [of s sep i] by (cases sep) auto
qed simp

declare split_at.simps [simp del]

definition Split :: "string \<Rightarrow> string \<Rightarrow> string list" where
  "Split s sep = split_at sep s"

fun SplitN :: "nat \<Rightarrow> string \<Rightarrow> string \<Rightarrow> string list" where
  "SplitN 0 sep s = []"
| "SplitN (Suc 0) sep s = [s]"
| "SplitN (Suc (Suc n)) sep s =
     (case Index s sep of
        None \<Rightarrow> [s]
      | Some i \<Rightarrow> take i s # SplitN (Suc n) sep (drop (i + length sep) s))"

definition ReplaceAll :: "string \<Rightarrow> string \<Rightarrow> string \<Rightarrow> string" where
  "ReplaceAll s old new =
     (if old = [] then new @ concat (map (\<lambda>c. c # new) s) else join new (Split s old))"

lemma join_Cons: "join sep (a # b # ss) = a @ sep @ join sep (b # ss)"
  by (simp add: join_def)

lemma join_single [simp]: "join sep [] = []" "join sep [a] = a"
  by (simp_all add: join_def)

lemma split_at_nonempty: "sep \<noteq> [] \<Longrightarrow> split_at sep s \<noteq> []"
  by (subst split_at.simps) (simp split: option.split)

lemma join_Split: "join sep (Split s sep) = s"
proof (cases "sep = []")
  case True
  have "join [] ss = concat ss" for ss by (cases ss) (simp_all add: join_def cong: map_cong)
  then show ?thesis using True by (simp add: Split_def split_at.simps)
next
  case False
  have "join sep (split_at sep s) = s"
    using False
  proof (induction sep s rule: split_at.induct)
    case (1 sep s)
    show ?case
    proof (cases "Index s sep")
      case None
      then show ?thesis using 1 by (simp add: split_at.simps [of sep s])
    next
      case (Some i)
      let ?r = "drop (i + length sep) s"
      obtain b ss where b: "split_at sep ?r = b # ss" using split_at_nonempty [OF "1.prems"] by (meson neq_Nil_conv)
      have "join sep (split_at sep ?r) = ?r" using "1.IH" "1.prems" Some by simp
      then show ?thesis using "1.prems" Some b Index_Some [OF Some]
        by (simp add: split_at.simps [of sep s] join_Cons)
    qed
  qed
  then show ?thesis by (simp add: Split_def)
qed

lemma ReplaceAll_self: "ReplaceAll s x x = s"
  by (simp add: ReplaceAll_def join_Split concat_map_singleton)

lemma ReplaceAll_absent: "\<not> Contains s old \<Longrightarrow> ReplaceAll s old new = s"
proof -
  assume a: "\<not> Contains s old"
  then have "old \<noteq> []" unfolding Contains_iff by (metis append_Nil)
  then show ?thesis using a by (simp add: ReplaceAll_def Split_def split_at.simps Contains_def)
qed

end
