(* ===== verification/AppErrors.thy ===== *)
theory AppErrors
  imports GoText
begin

text \<open>
  The application errors (src/errors/errors.go).  An \<open>error\<close> is an application error, a plain error
  with its text, or an error that \<open>fmt.Errorf\<close> wrapped with \<open>%w\<close> behind a prefix.  The program
  looks for application errors with a type assertion, which does not unwrap.
\<close>

section \<open>Errors\<close>

datatype go_error =
    AppError (ae_Code: string) (ae_Message: string) (ae_HTTPStatus: int) (ae_Cause: "go_error option")
  | PlainError string
  | WrappedError string go_error

fun Error :: "go_error \<Rightarrow> string" where
  "Error (AppError code msg _ None) = code @ '': '' @ msg"
| "Error (AppError code msg _ (Some cause)) = code @ '': '' @ msg @ '' (caused by: '' @ Error cause @ '')''"
| "Error (PlainError s) = s"
| "Error (WrappedError pre e) = pre @ Error e"

fun Unwrap :: "go_error \<Rightarrow> go_error option" where
  "Unwrap (AppError _ _ _ cause) = cause"
| "Unwrap (PlainError _) = None"
| "Unwrap (WrappedError _ e) = Some e"

text \<open>Defined on application errors; the method has no other receiver.\<close>

definition WithCause :: "go_error \<Rightarrow> go_error \<Rightarrow> go_error" where
  "WithCause e cause = AppError (ae_Code e) (ae_Message e) (ae_HTTPStatus e) (Some cause)"

definition NewWithStatus :: "string \<Rightarrow> string \<Rightarrow> int \<Rightarrow> go_error" where
  "NewWithStatus code msg st = AppError code msg st None"

definition NewError :: "string \<Rightarrow> string \<Rightarrow> go_error" where
  "NewError code msg = NewWithStatus code msg 500"

definition WrapWithStatus :: "go_error option \<Rightarrow> string \<Rightarrow> string \<Rightarrow> int \<Rightarrow> go_error" where
  "WrapWithStatus e code msg st = AppError code msg st e"

definition Wrap :: "go_error option \<Rightarrow> string \<Rightarrow> string \<Rightarrow> go_error" where
  "Wrap e code msg = WrapWithStatus e code msg 500"

text \<open>The predefined errors, in the order of the declarations.\<close>

definition predefined :: "go_error list" where
  "predefined = map (\<lambda>(code, msg, st). NewWithStatus code msg st) [
     (''INTERNAL_ERROR'', ''Internal server error'', 500),
     (''NOT_FOUND'', ''Resource not found'', 404),
     (''BAD_REQUEST'', ''Bad request'', 400),
     (''UNAUTHORIZED'', ''Unauthorized'', 401),
     (''FORBIDDEN'', ''Forbidden'', 403),
     (''CONFLICT'', ''Resource conflict'', 409),
     (''TOO_MANY_REQUESTS'', ''Too many requests'', 429),
     (''SERVICE_UNAVAILABLE'', ''Service unavailable'', 503),
     (''INVALID_TOKEN'', ''Invalid authentication token'', 401),
     (''EXPIRED_TOKEN'', ''Authentication token has expired'', 401),
     (''INVALID_CREDENTIALS'', ''Invalid username or password'', 401),
     (''USER_NOT_FOUND'', ''User not found'', 404),
     (''EMAIL_EXISTS'', ''Email already exists'', 409),
     (''USERNAME_EXISTS'', ''Username already exists'', 409),
     (''VALIDATION_FAILED'', ''Validation failed'', 400),
     (''MISSING_FIELD'', ''Required field is missing'', 400),
     (''INVALID_FORMAT'', ''Invalid format'', 400),
     (''INVALID_VALUE'', ''Invalid value'', 400),
     (''DATABASE_CONNECTION'', ''Database connection failed'', 503),
     (''DATABASE_QUERY'', ''Database query failed'', 500),
     (''DATABASE_TRANSACTION'', ''Database transaction failed'', 500),
     (''RECORD_NOT_FOUND'', ''Record not found'', 404),
     (''DUPLICATE_KEY'', ''Duplicate key violation'', 409),
     (''INSUFFICIENT_PERMISSIONS'', ''Insufficient permissions'', 403),
     (''RESOURCE_OWNERSHIP'', ''You don'' @ CHR 0x27 # ''t own this resource'', 403),
     (''ADMIN_REQUIRED'', ''Admin privileges required'', 403),
     (''RATE_LIMIT_EXCEEDED'', ''Rate limit exceeded'', 429),
     (''FILE_UPLOAD_FAILED'', ''File upload failed'', 500),
     (''INVALID_FILE_TYPE'', ''Invalid file type'', 400),
     (''FILE_TOO_LARGE'', ''File too large'', 400),
     (''EXTERNAL_SERVICE'', ''External service error'', 503),
     (''THIRD_PARTY_API'', ''Third party API error'', 503),
     (''BUSINESS_RULE'', ''Business rule violation'', 400),
     (''INVALID_STATE'', ''Invalid state'', 400),
     (''OPERATION_FAILED'', ''Operation failed'', 500)]"

definition IsAppError :: "go_error option \<Rightarrow> bool" where
  "IsAppError e = (case e of Some (AppError _ _ _ _) \<Rightarrow> True | _ \<Rightarrow> False)"

definition AsAppError :: "go_error option \<Rightarrow> go_error option" where
  "AsAppError e = (if IsAppError e then e else None)"

definition GetHTTPStatus :: "go_error option \<Rightarrow> int" where
  "GetHTTPStatus e = (case AsAppError e of Some a \<Rightarrow> ae_HTTPStatus a | None \<Rightarrow> 500)"

definition GetErrorCode :: "go_error option \<Rightarrow> string" where
  "GetErrorCode e = (case AsAppError e of Some a \<Rightarrow> ae_Code a | None \<Rightarrow> ''UNKNOWN_ERROR'')"

text \<open>\<open>None\<close>: \<open>err.Error()\<close> on a nil error panics.\<close>

definition GetErrorMessage :: "go_error option \<Rightarrow> string option" where
  "GetErrorMessage e = (case AsAppError e of Some a \<Rightarrow> Some (ae_Message a) | None \<Rightarrow> map_option Error e)"

definition IsRecoverable :: "go_error option \<Rightarrow> bool" where
  "IsRecoverable e =
     (case e of None \<Rightarrow> True
      | Some (AppError _ _ st _) \<Rightarrow> 500 \<le> st \<and> st < 600
      | Some _ \<Rightarrow> True)"

section \<open>Validation errors\<close>

record validation_error =
  ve_Field :: string
  ve_Message :: string
  ve_Value :: goval

type_synonym validation_errors = "validation_error list"

definition ve_Error :: "validation_errors \<Rightarrow> string" where
  "ve_Error es = (case es of [] \<Rightarrow> ''validation failed'' | e # _ \<Rightarrow> ''validation failed: '' @ ve_Message e)"

definition ve_Add :: "string \<Rightarrow> string \<Rightarrow> goval \<Rightarrow> validation_errors \<Rightarrow> validation_errors" where
  "ve_Add field msg v es = es @ [\<lparr>ve_Field = field, ve_Message = msg, ve_Value = v\<rparr>]"

definition HasErrors :: "validation_errors \<Rightarrow> bool" where
  "HasErrors es = (length es > 0)"

section \<open>What the classification does\<close>

lemma IsRecoverable_plain [simp]:
  "IsRecoverable None" "IsRecoverable (Some (PlainError s))" "IsRecoverable (Some (WrappedError p e))"
  by (simp_all add: IsRecoverable_def)

lemma IsRecoverable_app [simp]:
  "IsRecoverable (Some (AppError c m st cause)) \<longleftrightarrow> 500 \<le> st \<and> st < 600"
  by (simp add: IsRecoverable_def)

text \<open>A cause never changes the classification, the status or the code; wrapping with \<open>%w\<close> hides all three.\<close>

lemma WithCause_classification:
  assumes "IsAppError (Some e)"
  shows "IsRecoverable (Some (WithCause e c)) = IsRecoverable (Some e) \<and>
    GetHTTPStatus (Some (WithCause e c)) = GetHTTPStatus (Some e) \<and>
    GetErrorCode (Some (WithCause e c)) = GetErrorCode (Some e) \<and> Unwrap (WithCause e c) = Some c"
  using assms by (cases e)
    (simp_all add: WithCause_def IsAppError_def GetHTTPStatus_def GetErrorCode_def AsAppError_def)

lemma WrappedError_hides:
  "IsRecoverable (Some (WrappedError p e)) \<and> GetHTTPStatus (Some (WrappedError p e)) = 500 \<and>
   GetErrorCode (Some (WrappedError p e)) = ''UNKNOWN_ERROR'' \<and> Unwrap (WrappedError p e) = Some e"
  by (simp add: GetHTTPStatus_def GetErrorCode_def AsAppError_def IsAppError_def)

lemma predefined_codes: "distinct (map ae_Code predefined) \<and> list_all (\<lambda>e. 400 \<le> ae_HTTPStatus e \<and> ae_HTTPStatus e < 600) predefined"
  by (simp add: predefined_def NewWithStatus_def)

lemma predefined_recoverable:
  "map ae_Code (filter (\<lambda>e. IsRecoverable (Some e)) predefined) =
   [''INTERNAL_ERROR'', ''SERVICE_UNAVAILABLE'', ''DATABASE_CONNECTION'', ''DATABASE_QUERY'',
    ''DATABASE_TRANSACTION'', ''FILE_UPLOAD_FAILED'', ''EXTERNAL_SERVICE'', ''THIRD_PARTY_API'', ''OPERATION_FAILED'']"
  by (simp add: predefined_def NewWithStatus_def)

end
