(* ===== verification/Regex.thy ===== *)
theory Regex
  imports GoText
begin

text \<open>
  The fragment of Go's \<open>regexp\<close> package that the patterns of the program use: classes, sequence,
  choice and repetition, with their language and a matcher by derivatives that computes it.  A
  pattern sees bytes; the classes \<open>.\<close> and \<open>[^...]\<close> are those of the package on ASCII text.
\<close>

section \<open>Expressions and their language\<close>

datatype rx =
    Fail
  | Eps
  | Cls "char \<Rightarrow> bool"
  | Alt rx rx
  | Cat rx rx
  | Star rx

inductive star_of :: "(string \<Rightarrow> bool) \<Rightarrow> string \<Rightarrow> bool" for P where
  star_empty: "star_of P []"
| star_more: "P a \<Longrightarrow> star_of P b \<Longrightarrow> star_of P (a @ b)"

primrec matches :: "rx \<Rightarrow> string \<Rightarrow> bool" where
  "matches Fail = (\<lambda>s. False)"
| "matches Eps = (\<lambda>s. s = [])"
| "matches (Cls f) = (\<lambda>s. \<exists>c. s = [c] \<and> f c)"
| "matches (Alt a b) = (\<lambda>s. matches a s \<or> matches b s)"
| "matches (Cat a b) = (\<lambda>s. \<exists>u v. s = u @ v \<and> matches a u \<and> matches b v)"
| "matches (Star a) = star_of (matches a)"

section \<open>The matcher\<close>

definition alt :: "rx \<Rightarrow> rx \<Rightarrow> rx" where
  "alt a b = (case a of Fail \<Rightarrow> b | _ \<Rightarrow> (case b of Fail \<Rightarrow> a | _ \<Rightarrow> Alt a b))"

definition cat :: "rx \<Rightarrow> rx \<Rightarrow> rx" where
  "cat a b = (case a of Fail \<Rightarrow> Fail | Eps \<Rightarrow> b | _ \<Rightarrow> Cat a b)"

primrec nullable :: "rx \<Rightarrow> bool" where
  "nullable Fail = False"
| "nullable Eps = True"
| "nullable (Cls f) = False"
| "nullable (Alt a b) = (nullable a \<or> nullable b)"
| "nullable (Cat a b) = (nullable a \<and> nullable b)"
| "nullable (Star a) = True"

primrec deriv :: "char \<Rightarrow> rx \<Rightarrow> rx" where
  "deriv c Fail = Fail"
| "deriv c Eps = Fail"
| "deriv c (Cls f) = (if f c then Eps else Fail)"
| "deriv c (Alt a b) = alt (deriv c a) (deriv c b)"
| "deriv c (Cat a b) = (if nullable a then alt (cat (deriv c a) b) (deriv c b) else cat (deriv c a) b)"
| "deriv c (Star a) = cat (deriv c a) (Star a)"

primrec full :: "rx \<Rightarrow> string \<Rightarrow> bool" where
  "full r [] = nullable r"
| "full r (c # cs) = full (deriv c r) cs"

lemma matches_alt [simp]: "matches (alt a b) s \<longleftrightarrow> matches a s \<or> matches b s"
  by (simp add: alt_def split: rx.splits)

lemma matches_cat [simp]: "matches (cat a b) s \<longleftrightarrow> (\<exists>u v. s = u @ v \<and> matches a u \<and> matches b v)"
  by (simp add: cat_def split: rx.splits)

lemma nullable_iff: "nullable r \<longleftrightarrow> matches r []"
  by (induction r) (auto intro: star_empty)

lemma star_of_Cons:
  "star_of P (c # s) \<longleftrightarrow> (\<exists>u v. s = u @ v \<and> P (c # u) \<and> star_of P v)"
proof
  assume "star_of P (c # s)"
  moreover have "t = c # s \<Longrightarrow> \<exists>u v. s = u @ v \<and> P (c # u) \<and> star_of P v" if "star_of P t" for t
    using that
  proof (induction rule: star_of.induct)
    case (star_more a b)
    then show ?case by (cases a) auto
  qed simp
  ultimately show "\<exists>u v. s = u @ v \<and> P (c # u) \<and> star_of P v" by blast
next
  assume "\<exists>u v. s = u @ v \<and> P (c # u) \<and> star_of P v"
  then obtain u v where "s = u @ v" "P (c # u)" "star_of P v" by blast
  then show "star_of P (c # s)" using star_more [of P "c # u" v] by simp
qed

lemma deriv_iff: "matches (deriv c r) s \<longleftrightarrow> matches r (c # s)"
proof (induction r arbitrary: s)
  case (Cat a b)
  have "(\<exists>u v. c # s = u @ v \<and> matches a u \<and> matches b v) \<longleftrightarrow>
      (\<exists>u v. s = u @ v \<and> matches a (c # u) \<and> matches b v) \<or> matches a [] \<and> matches b (c # s)"
    by (auto simp: Cons_eq_append_conv)
  then show ?case using Cat by (auto simp: nullable_iff)
next
  case (Star a)
  then show ?case by (simp add: star_of_Cons)
qed auto

theorem full_iff: "full r s \<longleftrightarrow> matches r s"
  by (induction s arbitrary: r) (simp_all add: nullable_iff deriv_iff)

section \<open>Derived forms\<close>

fun word_rx :: "string \<Rightarrow> rx" where
  "word_rx [] = Eps"
| "word_rx (c # cs) = Cat (Cls (\<lambda>x. x = c)) (word_rx cs)"

definition opt :: "rx \<Rightarrow> rx" where "opt r = Alt Eps r"
definition plus :: "rx \<Rightarrow> rx" where "plus r = Cat r (Star r)"

fun times :: "nat \<Rightarrow> rx \<Rightarrow> rx" where
  "times 0 r = Eps"
| "times (Suc n) r = Cat r (times n r)"

text \<open>\<open>r{m,m+n}\<close>.\<close>

fun up_to :: "nat \<Rightarrow> rx \<Rightarrow> rx" where
  "up_to 0 r = Eps"
| "up_to (Suc n) r = Alt Eps (Cat r (up_to n r))"

definition between :: "nat \<Rightarrow> nat \<Rightarrow> rx \<Rightarrow> rx" where
  "between m n r = Cat (times m r) (up_to (n - m) r)"

fun seqs :: "rx list \<Rightarrow> rx" where
  "seqs [] = Eps"
| "seqs (r # rs) = Cat r (seqs rs)"

fun alts :: "rx list \<Rightarrow> rx" where
  "alts [] = Fail"
| "alts (r # rs) = Alt r (alts rs)"

definition any :: "char \<Rightarrow> bool" where "any c = True"
definition dot :: "char \<Rightarrow> bool" where "dot c = (c \<noteq> CHR 0x0A)"

text \<open>\<open>MatchString\<close> of a pattern that is not anchored; \<open>$\<close> is the end of the text.\<close>

definition finds :: "rx \<Rightarrow> string \<Rightarrow> bool" where
  "finds r s = full (Cat (Star (Cls any)) (Cat r (Star (Cls any)))) s"

definition finds_at_end :: "rx \<Rightarrow> string \<Rightarrow> bool" where
  "finds_at_end r s = full (Cat (Star (Cls any)) r) s"

text \<open>The case folding of \<open>(?i)\<close> on literals.\<close>

definition iword :: "string \<Rightarrow> rx" where
  "iword w = foldr (\<lambda>c r. Cat (Cls (\<lambda>x. lower x = lower c)) r) w Eps"

declare matches.simps(5) [simp del]

lemmas matches_Cat = matches.simps(5)

lemma Cat_Cls [simp]: "matches (Cat (Cls f) r) s \<longleftrightarrow> (case s of [] \<Rightarrow> False | c # t \<Rightarrow> f c \<and> matches r t)"
proof (cases s)
  case (Cons c t)
  have "matches (Cat (Cls f) r) (c # t)" if "f c" "matches r t"
    unfolding matches_Cat using that by (intro exI [of _ "[c]"] exI [of _ t]) simp
  then show ?thesis unfolding Cons by (auto simp: matches_Cat Cons_eq_append_conv)
qed (simp add: matches_Cat)

lemma Cat_Eps [simp]: "matches (Cat Eps r) s = matches r s"
  by (simp add: matches_Cat)

lemma Cat_Cat [simp]: "matches (Cat (Cat a b) r) s = matches (Cat a (Cat b r)) s"
  unfolding matches_Cat by (metis append_assoc)

lemma Cat_Alt [simp]: "matches (Cat (Alt a b) r) s \<longleftrightarrow> matches (Cat a r) s \<or> matches (Cat b r) s"
  by (auto simp: matches_Cat)

lemma matches_word [simp]: "matches (word_rx w) s \<longleftrightarrow> s = w"
  by (induction w arbitrary: s) (auto split: list.splits)

lemma matches_star_cls [simp]: "star_of (\<lambda>s. \<exists>c. s = [c] \<and> f c) s \<longleftrightarrow> list_all f s"
  by (induction s) (auto simp: star_of_Cons intro: star_empty)

lemma matches_plus_cls [simp]: "matches (plus (Cls f)) s \<longleftrightarrow> s \<noteq> [] \<and> list_all f s"
  by (cases s) (auto simp: plus_def)

lemma matches_opt [simp]: "matches (opt r) s \<longleftrightarrow> s = [] \<or> matches r s"
  by (simp add: opt_def)

lemma matches_times_cls [simp]: "matches (times n (Cls f)) s \<longleftrightarrow> length s = n \<and> list_all f s"
  by (induction n arbitrary: s) (auto split: list.splits simp: length_Suc_conv)

lemma matches_up_to_cls [simp]: "matches (up_to n (Cls f)) s \<longleftrightarrow> length s \<le> n \<and> list_all f s"
proof (induction n arbitrary: s)
  case (Suc n)
  then show ?case by (cases s) auto
qed auto

lemma matches_between_cls [simp]:
  "m \<le> n \<Longrightarrow> matches (between m n (Cls f)) s \<longleftrightarrow> m \<le> length s \<and> length s \<le> n \<and> list_all f s"
proof -
  assume mn: "m \<le> n"
  have "(\<exists>u v. s = u @ v \<and> length u = m \<and> list_all f u \<and> length v \<le> n - m \<and> list_all f v) \<longleftrightarrow>
      m \<le> length s \<and> length s \<le> n \<and> list_all f s" (is "?L \<longleftrightarrow> ?R")
  proof
    assume ?R
    then have "s = take m s @ drop m s" "length (take m s) = m" "length (drop m s) \<le> n - m"
      "list_all f (take m s)" "list_all f (drop m s)"
      by (auto simp: list_all_iff dest: in_set_takeD in_set_dropD)
    then show ?L by blast
  qed (use mn in auto)
  then show ?thesis by (simp add: between_def matches_Cat)
qed

lemma finds_iff: "finds r s \<longleftrightarrow> (\<exists>u v w. s = u @ v @ w \<and> matches r v)"
proof -
  have all: "list_all any t" for t by (simp add: any_def list_all_iff)
  have "finds r s \<longleftrightarrow> (\<exists>u t. s = u @ t \<and> (\<exists>v w. t = v @ w \<and> matches r v))"
    by (simp add: finds_def full_iff matches_Cat all)
  then show ?thesis by blast
qed

lemma matches_iword [simp]: "matches (iword w) s \<longleftrightarrow> map lower s = map lower w"
  by (induction w arbitrary: s) (auto simp: iword_def split: list.splits)

end
