(* ===== verification/Validation.thy ===== *)
theory Validation
  imports Regex AppErrors
begin

text \<open>
  Input validation and cleaning (src/validation/validation.go, src/utils/validation.go): the
  patterns, the checks built on them, the HTML and phone clean-up, and the field validator with
  its rules.  A check returns its error, \<open>None\<close> for nil.  Text is ASCII.
\<close>

section \<open>Classes\<close>

definition is_letter :: "char \<Rightarrow> bool" where "is_letter c = (is_lower c \<or> is_upper c)"
definition is_alnum :: "char \<Rightarrow> bool" where "is_alnum c = (is_letter c \<or> is_digit c)"
definition is_word :: "char \<Rightarrow> bool" where "is_word c = (is_alnum c \<or> c = CHR ''_'')"

definition one :: "char \<Rightarrow> rx" where "one c = Cls (\<lambda>x. x = c)"
definition one_of :: "string \<Rightarrow> rx" where "one_of cs = Cls (\<lambda>x. x \<in> set cs)"
definition spaces :: rx where "spaces = Star (Cls re_space)"

section \<open>Patterns\<close>

definition EmailPattern :: rx where
  "EmailPattern = seqs [plus (Cls (\<lambda>c. is_alnum c \<or> c \<in> set ''._%+-'')), one (CHR ''@''),
     plus (Cls (\<lambda>c. is_alnum c \<or> c \<in> set ''.-'')), one (CHR ''.''),
     times 2 (Cls is_letter), Star (Cls is_letter)]"

definition ChinaPhonePattern :: rx where
  "ChinaPhonePattern = seqs [one (CHR ''1''), Cls (char_between 51 57), times 9 (Cls is_digit)]"

definition InternationalPhonePattern :: rx where
  "InternationalPhonePattern = seqs [opt (one (CHR ''+'')), Cls (char_between 49 57), between 1 14 (Cls is_digit)]"

definition tag_rx :: "string \<Rightarrow> rx" where
  "tag_rx t = seqs [iword t, Star (Cls (\<lambda>c. c \<noteq> CHR ''>'')), one (CHR ''>'')]"

definition XSSPatterns :: "rx list" where
  "XSSPatterns = [seqs [tag_rx ''<script'', Star (Cls dot), iword ''</script>''], iword ''javascript:'',
     seqs [iword ''on'', plus (Cls is_word), spaces, one (CHR ''='')],
     tag_rx ''<iframe'', tag_rx ''<object'', tag_rx ''<embed'']"

definition quotes :: string where "quotes = [CHR 0x27, CHR 0x22, CHR 0x3B]"

text \<open>The pattern that ends in \<open>$\<close> stands apart.\<close>

definition SQLInjectionPatterns :: "rx list" where
  "SQLInjectionPatterns =
    [seqs [alts (map iword [''union'', ''select'', ''insert'', ''update'', ''delete'', ''drop'', ''create'', ''alter'']),
       plus (Cls re_space)],
     seqs [alts [iword ''or'', iword ''and''], plus (Cls re_space), plus (Cls is_digit), spaces,
       one (CHR ''=''), spaces, plus (Cls is_digit)],
     seqs [one_of quotes, Star (Cls dot), alts [iword ''or'', iword ''and''], Star (Cls dot), one_of quotes],
     seqs [word_rx ''/*'', Star (Cls dot), word_rx ''*/'']]"

definition SQLCommentPattern :: rx where
  "SQLCommentPattern = seqs [word_rx ''--'', spaces]"

definition PathTraversalPatterns :: "rx list" where
  "PathTraversalPatterns =
    [seqs [word_rx ''..'', one_of [CHR 0x5C, CHR ''/'']], seqs [one_of [CHR 0x5C, CHR ''/''], word_rx ''..'']]"

section \<open>Checks (validation.go)\<close>

definition IsValidEmail :: "string \<Rightarrow> bool" where "IsValidEmail email = full EmailPattern email"
definition IsValidChinaPhone :: "string \<Rightarrow> bool" where "IsValidChinaPhone phone = full ChinaPhonePattern phone"
definition IsValidInternationalPhone :: "string \<Rightarrow> bool" where
  "IsValidInternationalPhone phone = full InternationalPhonePattern phone"

definition ContainsXSS :: "string \<Rightarrow> bool" where
  "ContainsXSS content = list_ex (\<lambda>p. finds p content \<or> finds p (ToLower content)) XSSPatterns"

definition ContainsSQLInjection :: "string \<Rightarrow> bool" where
  "ContainsSQLInjection content =
     (list_ex (\<lambda>p. finds p content \<or> finds p (ToLower content)) SQLInjectionPatterns \<or>
      finds_at_end SQLCommentPattern content \<or> finds_at_end SQLCommentPattern (ToLower content))"

definition ContainsPathTraversal :: "string \<Rightarrow> bool" where
  "ContainsPathTraversal content =
     (list_ex (\<lambda>p. finds p content) PathTraversalPatterns \<or> finds (word_rx ''..'') content)"

fun html_escape :: "char \<Rightarrow> string" where
  "html_escape c = (if c = CHR ''<'' then ''&lt;'' else if c = CHR ''>'' then ''&gt;''
     else if c = CHR ''&'' then ''&amp;'' else if c = CHR 0x27 then ''&#39;''
     else if c = CHR 0x22 then ''&quot;'' else [c])"

definition SanitizeHTML :: "string \<Rightarrow> string" where
  "SanitizeHTML input = concat (map html_escape input)"

definition NormalizePhone :: "string \<Rightarrow> string" where
  "NormalizePhone phone =
     (let n0 = filter (\<lambda>c. is_digit c \<or> c = CHR ''+'') phone;
          n1 = (if HasPrefix n0 ''86'' \<and> length n0 = 13 then drop 2 n0 else n0)
      in if HasPrefix n1 ''+86'' \<and> length n1 = 14 then drop 3 n1 else n1)"

definition IsValidLength :: "string \<Rightarrow> int \<Rightarrow> int \<Rightarrow> bool" where
  "IsValidLength str mn mx = (int (length str) \<ge> mn \<and> int (length str) \<le> mx)"

definition ContainsOnlyAlphanumeric :: "string \<Rightarrow> bool" where
  "ContainsOnlyAlphanumeric str = full (plus (Cls is_alnum)) str"

definition ContainsOnlyDigits :: "string \<Rightarrow> bool" where
  "ContainsOnlyDigits str = full (plus (Cls is_digit)) str"

definition URLPattern :: rx where
  "URLPattern = seqs [word_rx ''http'', opt (one (CHR ''s'')), word_rx ''://'',
     Cls (\<lambda>c. \<not> re_space c \<and> c \<notin> set ''/$.?#''), Cls dot, Star (Cls (\<lambda>c. \<not> re_space c))]"

definition IsValidURL :: "string \<Rightarrow> bool" where "IsValidURL str = full URLPattern str"

definition RemoveNullBytes :: "string \<Rightarrow> string" where
  "RemoveNullBytes str = filter (\<lambda>c. c \<noteq> CHR 0x00) str"

definition IsEmail :: "string \<Rightarrow> bool" where "IsEmail email = IsValidEmail email"
definition IsURL :: "string \<Rightarrow> bool" where "IsURL url = IsValidURL url"

section \<open>Field checks (utils/validation.go)\<close>

definition err :: "string \<Rightarrow> go_error option" where "err s = Some (PlainError s)"

definition check :: "bool \<Rightarrow> string \<Rightarrow> go_error option" where
  "check ok msg = (if ok then None else err msg)"

lemma check_None [simp]: "check ok msg = None \<longleftrightarrow> ok"
  by (simp add: check_def err_def)

definition ValidateEmail :: "string \<Rightarrow> bool" where "ValidateEmail email = IsValidEmail email"

text \<open>\<open>unicode.IsPunct\<close> or \<open>IsSymbol\<close> of an ASCII character.\<close>

definition is_special :: "char \<Rightarrow> bool" where
  "is_special c = (char_between 33 126 c \<and> \<not> is_alnum c)"

definition ValidatePassword :: "string \<Rightarrow> go_error option" where
  "ValidatePassword password =
     (if length password < 8 then err ''password must be at least 8 characters long''
      else if \<not> list_ex is_upper password then err ''password must contain at least one uppercase letter''
      else if \<not> list_ex is_lower password then err ''password must contain at least one lowercase letter''
      else if \<not> list_ex is_digit password then err ''password must contain at least one digit''
      else check (list_ex is_special password) ''password must contain at least one special character'')"

definition ValidatePasswordSimple :: "string \<Rightarrow> int \<Rightarrow> go_error option" where
  "ValidatePasswordSimple password minLength = check (int (length password) \<ge> minLength)
     (''password must be at least '' @ dec_of_int minLength @ '' characters long'')"

definition ValidateUsername :: "string \<Rightarrow> go_error option" where
  "ValidateUsername username =
     (if length username < 3 then err ''username must be at least 3 characters long''
      else if length username > 20 then err ''username must be no more than 20 characters long''
      else check (full (plus (Cls is_word)) username) ''username can only contain letters, numbers, and underscores'')"

definition ValidatePhoneNumber :: "string \<Rightarrow> go_error option" where
  "ValidatePhoneNumber phone =
     (let digits = filter is_digit phone in
      if length digits < 10 then err ''phone number must be at least 10 digits long''
      else check (length digits \<le> 15) ''phone number must be no more than 15 digits long'')"

definition ValidateURL :: "string \<Rightarrow> go_error option" where
  "ValidateURL url =
     (if \<not> HasPrefix url ''http://'' \<and> \<not> HasPrefix url ''https://'' then err ''URL must start with http:// or https://''
      else check (full URLPattern url) ''invalid URL format'')"

definition ValidateRequired :: "goval \<Rightarrow> string \<Rightarrow> go_error option" where
  "ValidateRequired v fieldName = check
     (case v of GNil \<Rightarrow> False | GStr s \<Rightarrow> TrimSpace s \<noteq> [] | GStrs ss \<Rightarrow> length ss \<noteq> 0 | _ \<Rightarrow> True)
     (fieldName @ '' is required'')"

definition ValidateMinLength :: "string \<Rightarrow> int \<Rightarrow> string \<Rightarrow> go_error option" where
  "ValidateMinLength v minLength fieldName = check (int (length v) \<ge> minLength)
     (fieldName @ '' must be at least '' @ dec_of_int minLength @ '' characters long'')"

definition ValidateMaxLength :: "string \<Rightarrow> int \<Rightarrow> string \<Rightarrow> go_error option" where
  "ValidateMaxLength v maxLength fieldName = check (int (length v) \<le> maxLength)
     (fieldName @ '' must be no more than '' @ dec_of_int maxLength @ '' characters long'')"

definition ValidateRange :: "int \<Rightarrow> int \<Rightarrow> int \<Rightarrow> string \<Rightarrow> go_error option" where
  "ValidateRange v mn mx fieldName = check (\<not> (v < mn \<or> v > mx))
     (fieldName @ '' must be between '' @ dec_of_int mn @ '' and '' @ dec_of_int mx)"

definition ValidateEnum :: "string \<Rightarrow> string list \<Rightarrow> string \<Rightarrow> go_error option" where
  "ValidateEnum v allowedValues fieldName = check (list_ex (\<lambda>a. v = a) allowedValues)
     (fieldName @ '' must be one of: '' @ join '', '' allowedValues)"

text \<open>\<open>compile\<close> is \<open>regexp.Compile\<close>: the matcher of a pattern, \<open>None\<close> for one that does not parse.\<close>

definition ValidateRegex :: "(string \<Rightarrow> (string \<Rightarrow> bool) option) \<Rightarrow> string \<Rightarrow> string \<Rightarrow> string \<Rightarrow> go_error option" where
  "ValidateRegex compile v pattern fieldName =
     (case compile pattern of None \<Rightarrow> err (''invalid regex pattern for '' @ fieldName)
      | Some m \<Rightarrow> check (m v) (fieldName @ '' format is invalid''))"

definition lower_hex :: "char \<Rightarrow> bool" where "lower_hex c = (is_digit c \<or> char_between 97 102 c)"
definition hex :: "char \<Rightarrow> bool" where "hex c = (lower_hex c \<or> char_between 65 70 c)"

definition ValidateUUID :: "string \<Rightarrow> go_error option" where
  "ValidateUUID v = check (full (seqs [times 8 (Cls lower_hex), one (CHR ''-''), times 4 (Cls lower_hex),
     one (CHR ''-''), times 4 (Cls lower_hex), one (CHR ''-''), times 4 (Cls lower_hex), one (CHR ''-''),
     times 12 (Cls lower_hex)]) v) ''invalid UUID format''"

definition slug_char :: "char \<Rightarrow> bool" where "slug_char c = (is_lower c \<or> is_digit c)"

definition ValidateSlug :: "string \<Rightarrow> go_error option" where
  "ValidateSlug v = check (full (seqs [plus (Cls slug_char), Star (Cat (one (CHR ''-'')) (plus (Cls slug_char)))]) v)
     ''invalid slug format (only lowercase letters, numbers, and hyphens allowed)''"

definition ValidateHexColor :: "string \<Rightarrow> go_error option" where
  "ValidateHexColor v = check (full (seqs [one (CHR ''#''), Alt (times 6 (Cls hex)) (times 3 (Cls hex))]) v)
     ''invalid hex color format''"

definition octet :: rx where
  "octet = alts [seqs [word_rx ''25'', Cls (char_between 48 53)],
     seqs [one (CHR ''2''), Cls (char_between 48 52), Cls is_digit],
     seqs [opt (Cls (char_between 48 49)), Cls is_digit, opt (Cls is_digit)]]"

definition ValidateIPAddress :: "string \<Rightarrow> go_error option" where
  "ValidateIPAddress v = check (full (seqs [times 3 (Cat octet (one (CHR ''.''))), octet]) v)
     ''invalid IP address format''"

definition ValidateJSON :: "string \<Rightarrow> go_error option" where
  "ValidateJSON v =
     (if \<not> HasPrefix v ''{'' \<and> \<not> HasPrefix v ''['' then err ''invalid JSON format''
      else check (HasSuffix v ''}'' \<or> HasSuffix v '']'') ''invalid JSON format'')"

section \<open>Rules and the validator\<close>

type_synonym rule = "goval \<Rightarrow> go_error option"

definition on_string :: "(string \<Rightarrow> go_error option) \<Rightarrow> rule" where
  "on_string f v = (case v of GStr s \<Rightarrow> f s | _ \<Rightarrow> err ''value must be a string'')"

definition Required :: rule where "Required v = ValidateRequired v ''field''"
definition MinLength :: "int \<Rightarrow> rule" where "MinLength n = on_string (\<lambda>s. ValidateMinLength s n ''field'')"
definition MaxLength :: "int \<Rightarrow> rule" where "MaxLength n = on_string (\<lambda>s. ValidateMaxLength s n ''field'')"
definition EmailRule :: rule where "EmailRule = on_string (\<lambda>s. check (ValidateEmail s) ''invalid email format'')"
definition PasswordRule :: rule where "PasswordRule = on_string ValidatePassword"
definition EnumRule :: "string list \<Rightarrow> rule" where "EnumRule vs = on_string (\<lambda>s. ValidateEnum s vs ''field'')"
definition RegexRule :: "(string \<Rightarrow> (string \<Rightarrow> bool) option) \<Rightarrow> string \<Rightarrow> rule" where
  "RegexRule compile p = on_string (\<lambda>s. ValidateRegex compile s p ''field'')"

definition AddError :: "string \<Rightarrow> string \<Rightarrow> goval \<Rightarrow> validation_error list \<Rightarrow> validation_error list" where
  "AddError field msg v es = es @ [\<lparr>ve_Field = field, ve_Message = msg, ve_Value = v\<rparr>]"

definition ValidateField :: "string \<Rightarrow> goval \<Rightarrow> rule list \<Rightarrow> validation_error list \<Rightarrow> validation_error list" where
  "ValidateField field v rules es =
     foldl (\<lambda>es r. case r v of None \<Rightarrow> es | Some e \<Rightarrow> AddError field (Error e) v es) es rules"

definition IsValid :: "validation_error list \<Rightarrow> bool" where "IsValid es = (length es = 0)"

definition GetResult :: "validation_error list \<Rightarrow> bool \<times> validation_error list" where
  "GetResult es = (IsValid es, es)"

section \<open>What the checks accept\<close>

lemmas pattern_simps = one_def one_of_def spaces_def


text \<open>A decimal number below 256, in at most three digits, leading zeros allowed.\<close>

definition byte_text :: "string \<Rightarrow> bool" where
  "byte_text s \<longleftrightarrow> s \<noteq> [] \<and> length s \<le> 3 \<and> list_all is_digit s \<and> dec_val s \<le> 255"

lemma char_is: "x = CHR ''2'' \<longleftrightarrow> of_char x = (50 :: nat)" "x = CHR ''5'' \<longleftrightarrow> of_char x = (53 :: nat)"
  by (auto intro: char_eqI)

lemma matches_octet: "matches octet s \<longleftrightarrow> byte_text s"
proof -
  consider "s = []" | a where "s = [a]" | a b where "s = [a, b]" | a b c where "s = [a, b, c]"
    | a b c d t where "s = a # b # c # d # t"
    by (metis list.exhaust)
  then show ?thesis
    by cases (simp_all add: octet_def byte_text_def pattern_simps opt_def dec_val_def char_between_def char_is, linarith+)
qed

lemma Cat_octet: "matches (Cat octet r) s \<longleftrightarrow> (\<exists>o1 t. s = o1 @ t \<and> byte_text o1 \<and> matches r t)"
  by (simp add: matches_Cat matches_octet)

text \<open>
  The address check accepts exactly four decimal numbers of one to three digits, each at most
  255, separated by dots.
\<close>
theorem ip_exact:
  "ValidateIPAddress v = None \<longleftrightarrow>
   (\<exists>a b c d. v = a @ ''.'' @ b @ ''.'' @ c @ ''.'' @ d \<and>
      byte_text a \<and> byte_text b \<and> byte_text c \<and> byte_text d)"
proof -
  have "times 3 (Cat octet (one (CHR ''.''))) = Cat (Cat octet (one (CHR ''.''))) (Cat (Cat octet (one (CHR ''.''))) (Cat (Cat octet (one (CHR ''.''))) Eps))"
    by (simp add: numeral_3_eq_3)
  moreover have "matches (Cat (one (CHR ''.'')) r) t \<longleftrightarrow> (\<exists>u. t = ''.'' @ u \<and> matches r u)" for r t
    by (cases t) (auto simp: one_def)
  moreover have "matches (Cat octet Eps) t \<longleftrightarrow> byte_text t" for t
    by (simp add: Cat_octet)
  ultimately show ?thesis
    unfolding ValidateIPAddress_def check_None full_iff seqs.simps
    by (simp add: Cat_octet del: append.simps) blast
qed

section \<open>Cleaning\<close>

lemma html_escape_prefix_free:
  "html_escape c @ x = html_escape d @ y \<Longrightarrow> c = d \<and> x = y"
  by (auto split: if_splits)

lemma html_escape_clean: "a \<in> set (html_escape c) \<Longrightarrow> a \<notin> {CHR ''<'', CHR ''>'', CHR 0x27, CHR 0x22}"
  by (auto split: if_splits)

lemma html_escape_ne: "html_escape c \<noteq> []"
  by simp

text \<open>
  Escaped HTML contains no angle bracket and no quote, and escaping loses nothing: two inputs
  with the same escaped text are equal.
\<close>
theorem SanitizeHTML_safe:
  "set (SanitizeHTML s) \<inter> {CHR ''<'', CHR ''>'', CHR 0x27, CHR 0x22} = {} \<and>
   (SanitizeHTML s = SanitizeHTML t \<longleftrightarrow> s = t)"
proof -
  have "concat (map html_escape s) = concat (map html_escape t) \<Longrightarrow> s = t" for t
  proof (induction s arbitrary: t)
    case Nil
    then show ?case using html_escape_ne by (cases t) (auto simp del: html_escape.simps)
  next
    case (Cons c s)
    then obtain d t' where t: "t = d # t'" using html_escape_ne by (cases t) (auto simp del: html_escape.simps)
    then show ?case using Cons html_escape_prefix_free [of c _ d] by (simp del: html_escape.simps)
  qed
  then show ?thesis using html_escape_clean by (auto simp: SanitizeHTML_def simp del: html_escape.simps)
qed

lemma NormalizePhone_filtered:
  assumes "p = filter (\<lambda>c. is_digit c \<or> c = CHR ''+'') p"
  shows "length p \<noteq> 13 \<Longrightarrow> length p \<noteq> 14 \<Longrightarrow> NormalizePhone p = p"
  using assms by (simp add: NormalizePhone_def Let_def)

text \<open>
  Normalizing a phone number is idempotent, and an eleven-digit number has one normal form: with
  separators, with \<open>86\<close> or with \<open>+86\<close> in front it normalizes to the eleven digits.
\<close>
theorem NormalizePhone_canonical:
  assumes "length n = 11" and "list_all is_digit n"
    and "filter (\<lambda>c. is_digit c \<or> c = CHR ''+'') phone \<in> {n, ''86'' @ n, ''+86'' @ n}"
  shows "NormalizePhone phone = n \<and> NormalizePhone (NormalizePhone p) = NormalizePhone p"
proof
  have "filter (\<lambda>c. is_digit c \<or> c = CHR ''+'') n = n"
    using assms(2) by (auto simp: list_all_iff intro: filter_True)
  then show "NormalizePhone phone = n" using assms(1,3) by (auto simp: NormalizePhone_def HasPrefix_def Let_def)
  show "NormalizePhone (NormalizePhone p) = NormalizePhone p"
  proof -
    define q where "q = filter (\<lambda>c. is_digit c \<or> c = CHR ''+'') p"
    have q: "filter (\<lambda>c. is_digit c \<or> c = CHR ''+'') q = q" by (simp add: q_def)
    have d: "filter (\<lambda>c. is_digit c \<or> c = CHR ''+'') (drop k q) = drop k q" for k
      using q by (metis filter_id_conv in_set_dropD)
    have "NormalizePhone p = q \<or> (\<exists>k. NormalizePhone p = drop k q \<and> length (drop k q) = 11)"
      by (auto simp: NormalizePhone_def q_def Let_def)
    moreover have "NormalizePhone p = q \<Longrightarrow> NormalizePhone q = NormalizePhone p"
      unfolding NormalizePhone_def q_def [symmetric] q ..
    moreover have "length (drop k q) = 11 \<Longrightarrow> NormalizePhone (drop k q) = drop k q" for k
      by (rule NormalizePhone_filtered [OF d [symmetric]]) simp_all
    ultimately show ?thesis by metis
  qed
qed
theorem NormalizePhone_canonical_witness:
  "NormalizePhone ''+86 138-0013-8000'' = ''13800138000''"
proof -
  have "list_all is_digit ''13800138000''" "length ''13800138000'' = 11"
    by (simp_all add: char_between_def)
  moreover have "filter (\<lambda>c. is_digit c \<or> c = CHR ''+'') ''+86 138-0013-8000'' = ''+86'' @ ''13800138000''"
    by (simp add: char_between_def)
  ultimately show ?thesis
    using NormalizePhone_canonical [of "''13800138000''" "''+86 138-0013-8000''"] by auto
qed

section \<open>The validator\<close>

lemma ValidateField_alt:
  "ValidateField field v rules es =
   es @ map (\<lambda>e. \<lparr>ve_Field = field, ve_Message = Error e, ve_Value = v\<rparr>) (List.map_filter (\<lambda>r. r v) rules)"
  unfolding ValidateField_def by (induction rules arbitrary: es) (auto simp: AddError_def split: option.splits)

text \<open>
  The validator reports exactly the rules that a field breaks, in their order, and is valid
  exactly when every rule of every field holds.
\<close>
theorem validator_reports:
  "let es = foldl (\<lambda>es (f, v, rules). ValidateField f v rules es) [] flds in
   IsValid es = list_all (\<lambda>(f, v, rules). list_all (\<lambda>r. r v = None) rules) flds \<and>
   map (\<lambda>e. (ve_Field e, ve_Message e)) es =
     concat (map (\<lambda>(f, v, rules). map (\<lambda>e. (f, Error e)) (List.map_filter (\<lambda>r. r v) rules)) flds)"
proof -
  have es: "foldl (\<lambda>es (f, v, rules). ValidateField f v rules es) es0 flds = es0 @
      concat (map (\<lambda>(f, v, rules). map (\<lambda>e. \<lparr>ve_Field = f, ve_Message = Error e, ve_Value = v\<rparr>)
        (List.map_filter (\<lambda>r. r v) rules)) flds)" for es0
    by (induction flds arbitrary: es0) (auto simp: ValidateField_alt)
  have "List.map_filter (\<lambda>r. r v) rules = [] \<longleftrightarrow> list_all (\<lambda>r. r v = None) rules" for v :: goval and rules :: "rule list"
    by (induction rules) (auto split: option.splits)
  then show ?thesis
    unfolding Let_def es by (auto simp: IsValid_def list_all_iff map_concat o_def split_def)
qed

end
