(* ===== verification/Pipeline.thy ===== *)
theory Pipeline
  imports AppErrors Validation
begin

text \<open>
  The data pipeline (src/crawler/pipeline/pipeline.go, processors.go).  Processors are stateful
  (the deduplicator's keys, the batch), so \<open>Process\<close> returns the processor too.  An item is a
  \<open>goval\<close>; nil is \<open>GNil\<close>.  The text rendering of floats and times, md5 and \<open>regexp.MatchString\<close> of
  a configured pattern are fields of the environment.
\<close>

record text_env =
  te_float :: "64 word \<Rightarrow> string"
  te_time :: "gotime \<Rightarrow> string"
  te_md5 :: "string \<Rightarrow> string"
  te_matches :: "string \<Rightarrow> string \<Rightarrow> bool"

definition Sprintf_v :: "text_env \<Rightarrow> goval \<Rightarrow> string" where
  "Sprintf_v env v = sprint (te_float env) (te_time env) v"

section \<open>Cleaner\<close>

record cleaner_config =
  cc_TrimSpace :: bool
  cc_RemoveEmpty :: bool
  cc_NormalizeSpace :: bool
  cc_ToLower :: bool
  cc_ToUpper :: bool

definition cleanString :: "cleaner_config \<Rightarrow> string \<Rightarrow> string" where
  "cleanString c s =
     (let s1 = (if cc_TrimSpace c then TrimSpace s else s);
          s2 = (if cc_NormalizeSpace c then squeeze False s1 else s1);
          s3 = (if cc_ToLower c then ToLower s2 else s2)
      in if cc_ToUpper c then ToUpper s3 else s3)"

fun cleanMap :: "cleaner_config \<Rightarrow> (string \<times> goval) list \<Rightarrow> (string \<times> goval) list"
  and cleanSlice :: "cleaner_config \<Rightarrow> goval list \<Rightarrow> goval list" where
  "cleanMap c [] = []"
| "cleanMap c ((k, GStr s) # m) =
     (if \<not> cc_RemoveEmpty c \<or> cleanString c s \<noteq> [] then (k, GStr (cleanString c s)) # cleanMap c m else cleanMap c m)"
| "cleanMap c ((k, GMap v) # m) = (k, GMap (cleanMap c v)) # cleanMap c m"
| "cleanMap c ((k, GList v) # m) = (k, GList (cleanSlice c v)) # cleanMap c m"
| "cleanMap c ((k, v) # m) = (k, v) # cleanMap c m"
| "cleanSlice c [] = []"
| "cleanSlice c (GStr s # vs) =
     (if \<not> cc_RemoveEmpty c \<or> cleanString c s \<noteq> [] then GStr (cleanString c s) # cleanSlice c vs else cleanSlice c vs)"
| "cleanSlice c (GMap v # vs) = GMap (cleanMap c v) # cleanSlice c vs"
| "cleanSlice c (GList v # vs) = GList (cleanSlice c v) # cleanSlice c vs"
| "cleanSlice c (v # vs) = v # cleanSlice c vs"

definition Cleaner_Process :: "cleaner_config \<Rightarrow> goval \<Rightarrow> goval" where
  "Cleaner_Process c data =
     (case data of GStr s \<Rightarrow> GStr (cleanString c s) | GMap m \<Rightarrow> GMap (cleanMap c m)
      | GList vs \<Rightarrow> GList (cleanSlice c vs) | _ \<Rightarrow> data)"

section \<open>Validator\<close>

text \<open>\<open>Min\<close> and \<open>Max\<close> are declared and never read.\<close>

record validation_rule =
  vr_Field :: string
  vr_Required :: bool
  vr_Type :: string
  vr_Pattern :: string
  vr_Custom :: "(goval \<Rightarrow> bool) option"

definition validateType :: "goval \<Rightarrow> string \<Rightarrow> go_error option" where
  "validateType v dataType =
     (if dataType = ''string'' then check (case v of GStr _ \<Rightarrow> True | _ \<Rightarrow> False) ''expected string''
      else if dataType = ''number'' then
        check (case v of GInt _ \<Rightarrow> True | GFloat _ \<Rightarrow> True | _ \<Rightarrow> False) ''expected number''
      else if dataType = ''email'' then
        (case v of GStr s \<Rightarrow> check (IsEmail s) ''invalid email'' | _ \<Rightarrow> None)
      else if dataType = ''url'' then
        (case v of GStr s \<Rightarrow> check (IsURL s) ''invalid URL'' | _ \<Rightarrow> None)
      else None)"

definition check_rule :: "text_env \<Rightarrow> (string \<rightharpoonup> goval) \<Rightarrow> validation_rule \<Rightarrow> go_error option" where
  "check_rule env m rule =
     (case m (vr_Field rule) of
        None \<Rightarrow> if vr_Required rule then Some (PlainError (''required field missing: '' @ vr_Field rule)) else None
      | Some v \<Rightarrow>
          (case (if vr_Type rule \<noteq> [] then validateType v (vr_Type rule) else None) of
             Some e \<Rightarrow> Some (WrappedError (''field '' @ vr_Field rule @ '': '') e)
           | None \<Rightarrow>
               if vr_Pattern rule \<noteq> [] \<and> (case v of GStr s \<Rightarrow> \<not> te_matches env (vr_Pattern rule) s | _ \<Rightarrow> False)
               then Some (PlainError (''field '' @ vr_Field rule @ '' does not match pattern''))
               else (case vr_Custom rule of
                   None \<Rightarrow> None
                 | Some f \<Rightarrow> if f v then None
                     else Some (PlainError (''field '' @ vr_Field rule @ '' failed custom validation'')))))"

fun first_error :: "('a \<Rightarrow> go_error option) \<Rightarrow> 'a list \<Rightarrow> go_error option" where
  "first_error f [] = None"
| "first_error f (x # xs) = (case f x of Some e \<Rightarrow> Some e | None \<Rightarrow> first_error f xs)"

definition Validator_Process :: "text_env \<Rightarrow> validation_rule list \<Rightarrow> goval \<Rightarrow> goval \<times> go_error option" where
  "Validator_Process env rules data =
     (case data of
        GMap m \<Rightarrow> (case first_error (check_rule env (map_of m)) rules of
            Some e \<Rightarrow> (GNil, Some e) | None \<Rightarrow> (data, None))
      | _ \<Rightarrow> (data, Some (PlainError ''validator expects map[string]interface{}'')))"

section \<open>Deduplicator\<close>

definition dedup_key :: "text_env \<Rightarrow> string \<Rightarrow> (string \<times> goval) list \<Rightarrow> string" where
  "dedup_key env keyField m =
     (case (if keyField \<noteq> [] then map_of m keyField else None) of
        Some v \<Rightarrow> Sprintf_v env v
      | None \<Rightarrow> te_md5 env (Sprintf_v env (GMap m)))"

fun dedup_slice :: "text_env \<Rightarrow> string \<Rightarrow> string set \<Rightarrow> goval list \<Rightarrow> goval list \<times> string set" where
  "dedup_slice env f seen [] = ([], seen)"
| "dedup_slice env f seen (v # vs) =
     (case v of
        GMap m \<Rightarrow> (let key = dedup_key env f m in
          if key \<in> seen then dedup_slice env f seen vs
          else let (us, seen1) = dedup_slice env f (insert key seen) vs in (v # us, seen1))
      | _ \<Rightarrow> (let (us, seen1) = dedup_slice env f seen vs in (v # us, seen1)))"

definition Dedup_Process :: "text_env \<Rightarrow> string \<Rightarrow> goval \<Rightarrow> string set \<Rightarrow> goval \<times> string set" where
  "Dedup_Process env f data seen =
     (case data of
        GMap m \<Rightarrow> (let key = dedup_key env f m in
          if key \<in> seen then (GNil, seen) else (data, insert key seen))
      | GList vs \<Rightarrow> (let (us, seen1) = dedup_slice env f seen vs in (GList us, seen1))
      | _ \<Rightarrow> (data, seen))"

section \<open>Transformer\<close>

record transform =
  tf_Field :: string
  tf_Type :: string
  tf_Params :: "string \<rightharpoonup> goval"

definition formatValue :: "goval \<Rightarrow> (string \<rightharpoonup> goval) \<Rightarrow> goval" where
  "formatValue v params =
     (case params ''format'' of
        Some (GStr f) \<Rightarrow>
          (case v of
             GStr s \<Rightarrow> if f = ''uppercase'' then GStr (ToUpper s) else if f = ''lowercase'' then GStr (ToLower s)
               else if f = ''trim'' then GStr (TrimSpace s) else v
           | _ \<Rightarrow> v)
      | _ \<Rightarrow> v)"

text \<open>Writing and deleting an entry of a map that lists its entries.\<close>

fun gset :: "string \<Rightarrow> goval \<Rightarrow> (string \<times> goval) list \<Rightarrow> (string \<times> goval) list" where
  "gset k v [] = [(k, v)]"
| "gset k v ((k', v') # m) = (if k = k' then (k, v) # m else (k', v') # gset k v m)"

definition gdel :: "string \<Rightarrow> (string \<times> goval) list \<Rightarrow> (string \<times> goval) list" where
  "gdel k m = filter (\<lambda>(k', v). k' \<noteq> k) m"

lemma map_of_gset [simp]: "map_of (gset k v m) = (map_of m)(k \<mapsto> v)"
  by (induction k v m rule: gset.induct) auto

lemma map_of_gdel [simp]: "map_of (gdel k m) = (map_of m)(k := None)"
  by (induction m) (auto simp: gdel_def)

definition apply_transform :: "text_env \<Rightarrow> gotime \<Rightarrow> transform \<Rightarrow> (string \<times> goval) list \<Rightarrow> (string \<times> goval) list" where
  "apply_transform env now t m =
     (if tf_Type t = ''add_field'' then
        (case tf_Params t ''value'' of Some v \<Rightarrow> gset (tf_Field t) v m | None \<Rightarrow> m)
      else if tf_Type t = ''remove_field'' then gdel (tf_Field t) m
      else if tf_Type t = ''rename_field'' then
        (case tf_Params t ''new_name'' of
           Some (GStr newName) \<Rightarrow>
             (case map_of m (tf_Field t) of Some v \<Rightarrow> gdel (tf_Field t) (gset newName v m) | None \<Rightarrow> m)
         | _ \<Rightarrow> m)
      else if tf_Type t = ''format'' then
        (case map_of m (tf_Field t) of Some v \<Rightarrow> gset (tf_Field t) (formatValue v (tf_Params t)) m | None \<Rightarrow> m)
      else if tf_Type t = ''timestamp'' then gset (tf_Field t) (GInt (now div second)) m
      else if tf_Type t = ''merge'' then
        (case tf_Params t ''fields'' of
           Some (GStrs fs) \<Rightarrow> gset (tf_Field t) (GStr (TrimSpace (concat (map (\<lambda>f.
             case map_of m f of Some v \<Rightarrow> Sprintf_v env v @ '' '' | None \<Rightarrow> []) fs)))) m
         | _ \<Rightarrow> m)
      else m)"

definition Transform_Process :: "text_env \<Rightarrow> gotime \<Rightarrow> transform list \<Rightarrow> goval \<Rightarrow> goval" where
  "Transform_Process env now ts data =
     (case data of GMap m \<Rightarrow> GMap (foldl (\<lambda>m t. apply_transform env now t m) m ts) | _ \<Rightarrow> data)"

section \<open>Processors and the pipeline\<close>

datatype processor =
    Cleaner cleaner_config
  | Validator "validation_rule list"
  | Deduplicator string "string set"
  | Transformer "transform list"
  | FilterProc "goval \<Rightarrow> bool"
  | Enricher "goval \<Rightarrow> goval \<times> go_error option"
  | BatchProc int "goval list" "goval list \<Rightarrow> goval list \<times> go_error option"
  | Conditional processor "goval \<Rightarrow> bool"

definition NewDeduplicator :: "string \<Rightarrow> processor" where "NewDeduplicator f = Deduplicator f {}"
definition NewBatchProcessor :: "int \<Rightarrow> (goval list \<Rightarrow> goval list \<times> go_error option) \<Rightarrow> processor" where
  "NewBatchProcessor n f = BatchProc n [] f"

fun proc_Name :: "processor \<Rightarrow> string" where
  "proc_Name (Cleaner _) = ''cleaner''"
| "proc_Name (Validator _) = ''validator''"
| "proc_Name (Deduplicator _ _) = ''deduplicator''"
| "proc_Name (Transformer _) = ''transformer''"
| "proc_Name (FilterProc _) = ''filter''"
| "proc_Name (Enricher _) = ''enricher''"
| "proc_Name (BatchProc _ _ _) = ''batch''"
| "proc_Name (Conditional p _) = ''conditional:'' @ proc_Name p"

fun CanProcess :: "processor \<Rightarrow> goval \<Rightarrow> bool" where
  "CanProcess (Conditional p _) data = CanProcess p data"
| "CanProcess _ data = (data \<noteq> GNil)"

definition Batch_Process :: "int \<Rightarrow> goval list \<Rightarrow> (goval list \<Rightarrow> goval list \<times> go_error option) \<Rightarrow> goval \<Rightarrow>
    (goval \<times> go_error option) \<times> goval list" where
  "Batch_Process n batch f data =
     (let b = batch @ [data] in
      if int (length b) \<ge> n then (let (processed, e) = f b in ((GList processed, e), []))
      else ((GNil, None), b))"

definition Batch_Flush :: "goval list \<Rightarrow> (goval list \<Rightarrow> goval list \<times> go_error option) \<Rightarrow>
    (goval list \<times> go_error option) \<times> goval list" where
  "Batch_Flush batch f = (if length batch > 0 then (f batch, []) else (([], None), batch))"

fun proc_Process :: "text_env \<Rightarrow> gotime \<Rightarrow> processor \<Rightarrow> goval \<Rightarrow> (goval \<times> go_error option) \<times> processor" where
  "proc_Process env now (Cleaner c) data = ((Cleaner_Process c data, None), Cleaner c)"
| "proc_Process env now (Validator rs) data = (Validator_Process env rs data, Validator rs)"
| "proc_Process env now (Deduplicator f seen) data =
     (let (r, seen1) = Dedup_Process env f data seen in ((r, None), Deduplicator f seen1))"
| "proc_Process env now (Transformer ts) data = ((Transform_Process env now ts data, None), Transformer ts)"
| "proc_Process env now (FilterProc c) data = ((if c data then data else GNil, None), FilterProc c)"
| "proc_Process env now (Enricher f) data = (f data, Enricher f)"
| "proc_Process env now (BatchProc n b f) data =
     (let (r, b1) = Batch_Process n b f data in (r, BatchProc n b1 f))"
| "proc_Process env now (Conditional p c) data =
     (if c data then (let (r, p1) = proc_Process env now p data in (r, Conditional p1 c))
      else ((data, None), Conditional p c))"

record counts =
  ct_processed :: nat
  ct_failed :: nat
  ct_skipped :: nat

record pipeline =
  pl_name :: string
  pl_processors :: "processor list"
  pl_counts :: counts

definition NewPipeline :: "string \<Rightarrow> pipeline" where
  "NewPipeline name = \<lparr>pl_name = name, pl_processors = [],
     pl_counts = \<lparr>ct_processed = 0, ct_failed = 0, ct_skipped = 0\<rparr>\<rparr>"

definition AddProcessor :: "processor \<Rightarrow> pipeline \<Rightarrow> pipeline" where
  "AddProcessor p pl = pl\<lparr>pl_processors := pl_processors pl @ [p]\<rparr>"

definition pl_Clear :: "pipeline \<Rightarrow> pipeline" where
  "pl_Clear pl = pl\<lparr>pl_processors := []\<rparr>"

text \<open>The loop: the item, the processors after the call, the counters.\<close>

fun run_procs :: "text_env \<Rightarrow> gotime \<Rightarrow> processor list \<Rightarrow> goval \<Rightarrow> counts \<Rightarrow>
    (goval \<times> go_error option) \<times> processor list \<times> counts" where
  "run_procs env now [] result c = ((result, None), [], c)"
| "run_procs env now (p # ps) result c =
     (if \<not> CanProcess p result then
        (let (r, ps1, c1) = run_procs env now ps result (c\<lparr>ct_skipped := ct_skipped c + 1\<rparr>) in (r, p # ps1, c1))
      else
        (case proc_Process env now p result of
           ((processed, Some e), p1) \<Rightarrow>
             (let c1 = c\<lparr>ct_failed := ct_failed c + 1\<rparr> in
              if IsRecoverable (Some e) then
                (let (r, ps1, c2) = run_procs env now ps result c1 in (r, p1 # ps1, c2))
              else ((GNil, Some (WrappedError (''pipeline failed at '' @ proc_Name p @ '': '') e)), p1 # ps, c1))
         | ((processed, None), p1) \<Rightarrow>
             (let (r, ps1, c1) = run_procs env now ps processed (c\<lparr>ct_processed := ct_processed c + 1\<rparr>)
              in (r, p1 # ps1, c1))))"

definition pl_Process :: "text_env \<Rightarrow> gotime \<Rightarrow> goval \<Rightarrow> pipeline \<Rightarrow> (goval \<times> go_error option) \<times> pipeline" where
  "pl_Process env now data pl =
     (let (r, ps1, c1) = run_procs env now (pl_processors pl) data (pl_counts pl)
      in (r, pl\<lparr>pl_processors := ps1, pl_counts := c1\<rparr>))"

definition batch_one :: "text_env \<Rightarrow> gotime \<Rightarrow> goval list \<times> pipeline \<Rightarrow> goval \<Rightarrow> goval list \<times> pipeline" where
  "batch_one env now = (\<lambda>(results, pl) item.
     (case pl_Process env now item pl of
        ((result, Some e), pl1) \<Rightarrow> (results, pl1)
      | ((result, None), pl1) \<Rightarrow> (if result \<noteq> GNil then results @ [result] else results, pl1)))"

definition pl_ProcessBatch :: "text_env \<Rightarrow> gotime \<Rightarrow> goval list \<Rightarrow> pipeline \<Rightarrow> goval list \<times> pipeline" where
  "pl_ProcessBatch env now items pl = foldl (batch_one env now) ([], pl) items"

text \<open>
  The parallel pipeline: every pipeline gets the item; \<open>order\<close> lists the pipelines as their
  goroutines report, and the first error reported is the one returned.  \<open>None\<close> is a nil result.
\<close>

definition parallel_Process :: "text_env \<Rightarrow> gotime \<Rightarrow> nat list \<Rightarrow> goval \<Rightarrow> pipeline list \<Rightarrow>
    (goval list option \<times> go_error option) \<times> pipeline list" where
  "parallel_Process env now order data pls =
     (if pls = [] then ((Some [data], None), [])
      else let rs = map (pl_Process env now data) pls;
               errs = List.map_filter (\<lambda>i. snd (fst (rs ! i))) order
        in ((case errs of [] \<Rightarrow> (Some (map (fst o fst) rs), None) | e # _ \<Rightarrow> (None, Some e)), map snd rs))"

section \<open>Rejected items\<close>

lemma first_error_plain:
  "(\<And>x e. f x = Some e \<Longrightarrow> \<not> IsAppError (Some e)) \<Longrightarrow> first_error f xs = Some e \<Longrightarrow> \<not> IsAppError (Some e)"
  by (induction xs) (auto split: option.splits)

lemma check_rule_plain: "check_rule env m rule = Some e \<Longrightarrow> \<not> IsAppError (Some e)"
  by (auto simp: check_rule_def IsAppError_def split: option.splits if_splits)

lemma not_app_recoverable: "\<not> IsAppError (Some e) \<Longrightarrow> IsRecoverable (Some e)"
  by (cases e) (auto simp: IsAppError_def)

lemma Validator_outcome:
  "(\<exists>out e. Validator_Process env rs data = (out, Some e) \<and> IsRecoverable (Some e)) \<or>
   Validator_Process env rs data = (data, None)"
proof (cases data)
  case (GMap m)
  show ?thesis
  proof (cases "first_error (check_rule env (map_of m)) rs")
    case (Some e)
    have "\<not> IsAppError (Some e)"
      by (rule first_error_plain [where f = "check_rule env (map_of m)", OF _ Some]) (rule check_rule_plain)
    then have "IsRecoverable (Some e)" by (rule not_app_recoverable)
    then show ?thesis using GMap Some by (simp add: Validator_Process_def)
  qed (simp add: GMap Validator_Process_def)
qed (simp_all add: Validator_Process_def)

definition is_validator :: "processor \<Rightarrow> bool" where
  "is_validator p = (case p of Validator _ \<Rightarrow> True | _ \<Rightarrow> False)"

lemma run_procs_validators:
  "fst (run_procs env now ps data c) = fst (run_procs env now (filter (\<lambda>p. \<not> is_validator p) ps) data c') \<and>
   filter (\<lambda>p. \<not> is_validator p) (fst (snd (run_procs env now ps data c))) =
     fst (snd (run_procs env now (filter (\<lambda>p. \<not> is_validator p) ps) data c'))"
proof (induction ps arbitrary: data c c')
  case (Cons p ps)
  show ?case
  proof (cases "is_validator p")
    case True
    then obtain rs where p: "p = Validator rs" by (cases p) (auto simp: is_validator_def)
    consider "\<not> CanProcess p data" | out e where "CanProcess p data" "Validator_Process env rs data = (out, Some e)" "IsRecoverable (Some e)"
      | "CanProcess p data" "Validator_Process env rs data = (data, None)"
      using Validator_outcome [of env rs data] by blast
    then show ?thesis
      by cases (use Cons.IH True p in \<open>simp_all add: split_def Let_def\<close>)
  next
    case False
    obtain out e p1 where step: "proc_Process env now p data = ((out, e), p1)" by (metis surj_pair)
    have "\<not> is_validator p1" using False step
      by (cases p) (auto simp: is_validator_def split: prod.splits if_splits)
    then show ?thesis
      using False Cons.IH step by (cases e) (simp_all add: split_def Let_def)
  qed
qed simp

text \<open>
  C11: Validators have no effect on what a pipeline returns: a rejected item passes on unchanged,
  because the validator's errors are plain errors and count as recoverable.  Without the validators
  the result, the error and the state of the other processors are the same.
\<close>
theorem validators_have_no_effect:
  "let pl' = pl\<lparr>pl_processors := filter (\<lambda>p. \<not> is_validator p) (pl_processors pl)\<rparr> in
   fst (pl_Process env now data pl) = fst (pl_Process env now data pl') \<and>
   filter (\<lambda>p. \<not> is_validator p) (pl_processors (snd (pl_Process env now data pl))) =
     pl_processors (snd (pl_Process env now data pl'))"
  using run_procs_validators [of env now "pl_processors pl" data "pl_counts pl" "pl_counts pl"]
  by (simp add: pl_Process_def split_def Let_def)

lemma run_procs_counts:
  assumes "snd (fst (run_procs env now ps data c)) = None"
  shows "length (fst (snd (run_procs env now ps data c))) = length ps"
    and "(let c1 = snd (snd (run_procs env now ps data c)) in
      ct_processed c1 + ct_failed c1 + ct_skipped c1 = ct_processed c + ct_failed c + ct_skipped c + length ps)"
proof -
  have "length (fst (snd (run_procs env now ps data c))) = length ps \<and>
     (let c1 = snd (snd (run_procs env now ps data c)) in
      ct_processed c1 + ct_failed c1 + ct_skipped c1 = ct_processed c + ct_failed c + ct_skipped c + length ps)"
    using assms
  proof (induction ps arbitrary: data c)
    case (Cons p ps)
    obtain out e p1 where "proc_Process env now p data = ((out, e), p1)" by (metis surj_pair)
    then show ?case using Cons
      by (cases "CanProcess p data"; cases e) (simp_all add: split_def Let_def split: if_splits)
  qed simp
  then show "length (fst (snd (run_procs env now ps data c))) = length ps"
    and "(let c1 = snd (snd (run_procs env now ps data c)) in
      ct_processed c1 + ct_failed c1 + ct_skipped c1 = ct_processed c + ct_failed c + ct_skipped c + length ps)"
    by simp_all
qed

section \<open>Cleaning\<close>

definition case_fold :: "cleaner_config \<Rightarrow> char \<Rightarrow> char" where
  "case_fold c x = (let y = (if cc_ToLower c then lower x else x) in if cc_ToUpper c then upper y else y)"

lemma case_fold_props:
  "case_fold c (case_fold c x) = case_fold c x" "ascii_space (case_fold c x) = ascii_space x"
  "re_space (case_fold c x) = re_space x" "case_fold c (CHR '' '') = CHR '' ''"
  by (simp_all add: case_fold_def Let_def)

lemma map_case_fold:
  "map (case_fold c) s = (let t = (if cc_ToLower c then ToLower s else s) in if cc_ToUpper c then ToUpper t else t)"
  by (induction s) (simp_all add: case_fold_def ToLower_def ToUpper_def Let_def)

lemma cleanString_alt:
  "cleanString c s = map (case_fold c)
     (let t = (if cc_TrimSpace c then TrimSpace s else s) in if cc_NormalizeSpace c then squeeze False t else t)"
  by (simp only: cleanString_def map_case_fold Let_def)

lemma cleanString_idem: "cleanString c (cleanString c s) = cleanString c s"
proof -
  define t where "t = (if cc_TrimSpace c then TrimSpace s else s)"
  define q where "q = (if cc_NormalizeSpace c then squeeze False t else t)"
  have q: "cleanString c s = map (case_fold c) q" by (simp add: cleanString_alt q_def t_def Let_def)
  have "TrimSpace q = q" if "cc_TrimSpace c"
    using that by (auto simp: q_def t_def TrimSpace_trimmed squeeze_trimmed intro!: TrimSpace_id)
  moreover have "squeeze False q = q" if "cc_NormalizeSpace c" using that by (simp add: q_def squeeze_twice)
  ultimately show ?thesis
    unfolding q by (simp add: cleanString_alt TrimSpace_map squeeze_map case_fold_props Let_def o_def)
qed

lemma clean_idem:
  "cleanMap c (cleanMap c m) = cleanMap c m"
  "cleanSlice c (cleanSlice c vs) = cleanSlice c vs"
  by (induction c m and c vs rule: cleanMap_cleanSlice.induct) (simp_all add: cleanString_idem)

text \<open>No entry of a map or a list, at any depth, is the empty string.\<close>

fun tidy_map :: "(string \<times> goval) list \<Rightarrow> bool" and tidy_list :: "goval list \<Rightarrow> bool" where
  "tidy_map [] = True"
| "tidy_map ((k, GStr s) # m) = (s \<noteq> [] \<and> tidy_map m)"
| "tidy_map ((k, GMap v) # m) = (tidy_map v \<and> tidy_map m)"
| "tidy_map ((k, GList v) # m) = (tidy_list v \<and> tidy_map m)"
| "tidy_map ((k, v) # m) = tidy_map m"
| "tidy_list [] = True"
| "tidy_list (GStr s # vs) = (s \<noteq> [] \<and> tidy_list vs)"
| "tidy_list (GMap v # vs) = (tidy_map v \<and> tidy_list vs)"
| "tidy_list (GList v # vs) = (tidy_list v \<and> tidy_list vs)"
| "tidy_list (v # vs) = tidy_list vs"

lemma clean_tidy:
  "cc_RemoveEmpty c \<Longrightarrow> tidy_map (cleanMap c m)"
  "cc_RemoveEmpty c \<Longrightarrow> tidy_list (cleanSlice c vs)"
  by (induction c m and c vs rule: cleanMap_cleanSlice.induct) simp_all

lemma clean_keys: "\<not> cc_RemoveEmpty c \<Longrightarrow> map fst (cleanMap c m) = map fst m"
  by (induction c m rule: cleanMap_cleanSlice.induct(1) [where Q = "\<lambda>_ _. True"]) simp_all

text \<open>
  Cleaning is idempotent; with \<open>RemoveEmpty\<close> no empty string is left at any depth of a cleaned
  map or list, and without it no field is lost.
\<close>
theorem cleaner_spec:
  "Cleaner_Process c (Cleaner_Process c v) = Cleaner_Process c v \<and>
   (case Cleaner_Process c v of
      GMap m \<Rightarrow> if cc_RemoveEmpty c then tidy_map m else (\<exists>m0. v = GMap m0 \<and> map fst m = map fst m0)
    | GList vs \<Rightarrow> if cc_RemoveEmpty c then tidy_list vs else True
    | _ \<Rightarrow> True)"
  by (cases v) (auto simp: Cleaner_Process_def cleanString_idem clean_idem clean_tidy clean_keys)

section \<open>Deduplication\<close>

definition item_key :: "text_env \<Rightarrow> string \<Rightarrow> goval \<Rightarrow> string" where
  "item_key env f v = (case v of GMap m \<Rightarrow> dedup_key env f m | _ \<Rightarrow> [])"

text \<open>The items whose key was not seen, each key at its first item.\<close>

fun keep_first :: "('a \<Rightarrow> 'k) \<Rightarrow> 'k set \<Rightarrow> 'a list \<Rightarrow> 'a list" where
  "keep_first key seen [] = []"
| "keep_first key seen (x # xs) =
     (if key x \<in> seen then keep_first key seen xs else x # keep_first key (insert (key x) seen) xs)"

lemma keep_first_subseq: "subseq (keep_first key seen xs) xs"
  by (induction xs arbitrary: seen) auto

lemma keep_first_keys: "key ` set (keep_first key seen xs) = key ` set xs - seen"
  by (induction xs arbitrary: seen) auto

lemma keep_first_distinct: "distinct (map key (keep_first key seen xs))"
proof (induction xs arbitrary: seen)
  case (Cons x xs)
  then show ?case using keep_first_keys [of key "insert (key x) seen" xs] by auto
qed simp

lemma batch_one_dedup:
  assumes "pl_processors pl = [Deduplicator f seen]" and "item = GMap m"
  shows "\<exists>pl1. batch_one env now (out, pl) item =
      (if item_key env f item \<in> seen then out else out @ [item], pl1) \<and>
      pl_processors pl1 = [Deduplicator f (insert (item_key env f item) seen)]"
  using assms by (auto simp: batch_one_def pl_Process_def Dedup_Process_def item_key_def Let_def insert_absorb)

lemma ProcessBatch_dedup:
  assumes "pl_processors pl = [Deduplicator f seen]" and "\<forall>v \<in> set items. \<exists>m. v = GMap m"
  shows "fst (foldl (batch_one env now) (out, pl) items) = out @ keep_first (item_key env f) seen items"
  using assms
proof (induction items arbitrary: out pl seen)
  case (Cons v items)
  then obtain m where v: "v = GMap m" by auto
  obtain pl1 where one: "batch_one env now (out, pl) v =
      (if item_key env f v \<in> seen then out else out @ [v], pl1)"
    and pl1: "pl_processors pl1 = [Deduplicator f (insert (item_key env f v) seen)]"
    using batch_one_dedup [OF Cons.prems(1) v] by blast
  show ?case
    using Cons.prems(2) Cons.IH [OF pl1] by (simp add: one insert_absorb)
qed simp

text \<open>
  A batch of records through a fresh deduplicator keeps, in order, exactly one record for every
  key that occurs, and never two records with the same key.
\<close>
theorem dedup_batch:
  assumes "\<forall>v \<in> set items. \<exists>m. v = GMap m"
    and out: "out = fst (pl_ProcessBatch env now items (AddProcessor (NewDeduplicator f) (NewPipeline name)))"
  shows "out = keep_first (item_key env f) {} items \<and> subseq out items \<and> distinct (map (item_key env f) out) \<and>
    item_key env f ` set out = item_key env f ` set items"
proof -
  have "out = keep_first (item_key env f) {} items"
    unfolding out pl_ProcessBatch_def
    by (subst ProcessBatch_dedup [where seen = "{}"])
      (simp_all add: assms(1) AddProcessor_def NewDeduplicator_def NewPipeline_def)
  then show ?thesis by (simp add: keep_first_subseq keep_first_distinct keep_first_keys)
qed

theorem dedup_batch_witness:
  "fst (pl_ProcessBatch \<lparr>te_float = (\<lambda>_. []), te_time = (\<lambda>_. []), te_md5 = (\<lambda>s. s), te_matches = (\<lambda>_ _. False)\<rparr> 0
     [GMap [(''id'', GInt 1)], GMap [(''id'', GStr ''1'')], GMap [(''id'', GInt 2)]]
     (AddProcessor (NewDeduplicator ''id'') (NewPipeline ''p''))) =
   [GMap [(''id'', GInt 1)], GMap [(''id'', GInt 2)]]"
proof -
  let ?env = "\<lparr>te_float = (\<lambda>_. []), te_time = (\<lambda>_. []), te_md5 = (\<lambda>s. s), te_matches = (\<lambda>_ _. False)\<rparr>"
  have "keep_first (item_key ?env ''id'') {}
      [GMap [(''id'', GInt 1)], GMap [(''id'', GStr ''1'')], GMap [(''id'', GInt 2)]] =
    [GMap [(''id'', GInt 1)], GMap [(''id'', GInt 2)]]"
  proof -
    have "dec_of_nat (Suc 0) = ''1''" "dec_of_nat 2 = ''2''" by (simp_all add: dec_of_nat.simps digit_def char_of_eq_iff)
    then show ?thesis by (simp add: item_key_def dedup_key_def Sprintf_v_def dec_of_int_def)
  qed
  then show ?thesis
    using dedup_batch [of "[GMap [(''id'', GInt 1)], GMap [(''id'', GStr ''1'')], GMap [(''id'', GInt 2)]]" _ ?env 0 "''id''" "''p''"]
    by simp
qed

section \<open>Batching\<close>

text \<open>\<open>Process\<close> for each item, then \<open>Flush\<close>: the results that are not nil, the last batch.\<close>

fun feed :: "int \<Rightarrow> (goval list \<Rightarrow> goval list \<times> go_error option) \<Rightarrow> goval list \<Rightarrow> goval list \<Rightarrow> goval list \<times> goval list" where
  "feed n f b [] = ([], b)"
| "feed n f b (x # xs) =
     (let ((r, e), b1) = Batch_Process n b f x; (rs, b2) = feed n f b1 xs
      in (if r \<noteq> GNil then (r # rs, b2) else (rs, b2)))"

lemma feed_chunks:
  assumes "0 < n" and "int (length b) < n"
  shows "\<exists>chunks. fst (feed n f b xs) = map (\<lambda>c. GList (fst (f c))) chunks \<and>
    concat chunks @ snd (feed n f b xs) = b @ xs \<and> (\<forall>c \<in> set chunks. int (length c) = n) \<and>
    int (length (snd (feed n f b xs))) < n"
  using assms(2)
proof (induction xs arbitrary: b)
  case Nil
  then show ?case by (auto intro: exI [of _ "[]"])
next
  case (Cons x xs)
  show ?case
  proof (cases "int (length (b @ [x])) \<ge> n")
    case True
    obtain chunks where IH: "fst (feed n f [] xs) = map (\<lambda>c. GList (fst (f c))) chunks"
      "concat chunks @ snd (feed n f [] xs) = xs" "\<forall>c \<in> set chunks. int (length c) = n"
      "int (length (snd (feed n f [] xs))) < n"
      using Cons.IH [of "[]"] assms(1) by auto
    have "int (length (b @ [x])) = n" using True Cons.prems by simp
    then show ?thesis using IH True
      by (intro exI [of _ "(b @ [x]) # chunks"]) (simp add: Batch_Process_def split_def Let_def)
  next
    case False
    then show ?thesis using Cons.IH [of "b @ [x]"] by (simp add: Batch_Process_def split_def Let_def)
  qed
qed

text \<open>
  The batch processor hands every item to its function exactly once and in order: full batches of
  exactly the batch size while items come, and the shorter rest at the flush, after which it is empty.
\<close>
theorem batch_processor_partitions:
  assumes "0 < n"
  shows "\<exists>chunks rest. feed n f [] items = (map (\<lambda>c. GList (fst (f c))) chunks, rest) \<and>
    concat chunks @ rest = items \<and> (\<forall>c \<in> set chunks. int (length c) = n) \<and> int (length rest) < n \<and>
    Batch_Flush rest f = (if rest = [] then (([], None), []) else (f rest, []))"
proof -
  obtain chunks where "fst (feed n f [] items) = map (\<lambda>c. GList (fst (f c))) chunks"
    "concat chunks @ snd (feed n f [] items) = items" "\<forall>c \<in> set chunks. int (length c) = n"
    "int (length (snd (feed n f [] items))) < n"
    using feed_chunks [OF assms, of "[]" f items] assms by auto
  then show ?thesis
    by (intro exI [of _ chunks] exI [of _ "snd (feed n f [] items)"]) (auto simp: Batch_Flush_def prod_eq_iff)
qed

theorem batch_processor_partitions_witness:
  "\<exists>chunks rest. feed 2 (\<lambda>xs. (xs, None)) [] [GInt 1, GInt 2, GInt 3] = (map GList chunks, rest) \<and>
    concat chunks @ rest = [GInt 1, GInt 2, GInt 3] \<and> int (length rest) < 2"
  using batch_processor_partitions [of 2 "\<lambda>xs. (xs, None)" "[GInt 1, GInt 2, GInt 3]"] by auto

text \<open>A batch whose function fails is dropped: the pipeline goes on with the last item alone.\<close>

lemma failed_batch_lost:
  assumes "int (length b) + 1 \<ge> n" and "f (b @ [x]) = (out, Some e)" and "IsRecoverable (Some e)" and "x \<noteq> GNil"
  shows "\<exists>c1. run_procs env now [BatchProc n b f] x c = ((x, None), [BatchProc n [] f], c1)"
  using assms by (auto simp: Batch_Process_def split_def Let_def)

section \<open>Transformations\<close>

text \<open>
  Renaming moves a field's value to the new name, over any field of that name; renaming a field to
  its own name deletes the field.
\<close>
theorem rename_field_spec:
  assumes "tf_Type t = ''rename_field''" and "tf_Params t ''new_name'' = Some (GStr new)"
    and "map_of m (tf_Field t) = Some v"
  shows "map_of (apply_transform env now t m) =
    (if new = tf_Field t then (map_of m)(new := None) else (map_of m)(new \<mapsto> v, tf_Field t := None))"
  using assms by (simp add: apply_transform_def)

theorem rename_field_spec_witness:
  "map_of (apply_transform \<lparr>te_float = (\<lambda>_. []), te_time = (\<lambda>_. []), te_md5 = (\<lambda>s. s), te_matches = (\<lambda>_ _. False)\<rparr> 0
     \<lparr>tf_Field = ''a'', tf_Type = ''rename_field'', tf_Params = [''new_name'' \<mapsto> GStr ''a'']\<rparr> [(''a'', GInt 1)]) ''a'' = None"
  using rename_field_spec [of "\<lparr>tf_Field = ''a'', tf_Type = ''rename_field'', tf_Params = [''new_name'' \<mapsto> GStr ''a'']\<rparr>"
      "''a''" "[(''a'', GInt 1)]" "GInt 1"] by simp

end
