(* ===== verification/Node.thy ===== *)
theory Node
  imports CrawlTask ResultMiddleware Redis GoText
begin

text \<open>
  The worker node (src/crawler/distributed/node.go, node_enhanced.go): its life cycle, the task and
  result channels, the workers, retries, result publication and sub-tasks.  A channel is a list with
  a capacity.  The ticker and worker goroutines run the operations below; \<open>node_step\<close> interleaves
  them.  Redis, the JSON encoder, the registry's answer and the executor are arguments; writes to
  Redis whose answer is only logged are recorded as commands.
\<close>

section \<open>State\<close>

datatype node_status =
    NodeStatusStarting
  | NodeStatusActive
  | NodeStatusPaused
  | NodeStatusStopping
  | NodeStatusStopped
  | NodeStatusError
  | NodeStatusDisconnected

record worker =
  wk_ID :: string
  wk_Status :: string
  wk_Current :: "task option"

datatype redis_write =
    HSet string string string
  | ExpireKey string duration
  | Publish string string

record node_config =
  nc_ID :: string
  nc_MaxWorkers :: int
  nc_QueueSize :: nat
  nc_RedisPrefix :: string

record 'r node =
  nd_ID :: string
  nd_Status :: node_status
  nd_StartedAt :: gotime
  nd_UpdatedAt :: gotime
  nd_MaxWorkers :: int
  nd_TasksProcessed :: nat
  nd_TasksFailed :: nat
  nd_BytesDownloaded :: int
  nd_ItemsExtracted :: int
  nd_workers :: "worker list"
  nd_taskQueue :: "task list"
  nd_queueCap :: nat
  nd_resultQueue :: "task_result list"
  nd_stopClosed :: bool
  nd_registered :: bool
  nd_config :: node_config
  nd_redis :: 'r
  nd_writes :: "redis_write list"

text \<open>What the node calls: Redis, and the JSON codec (\<open>None\<close> when it fails).\<close>

record 'r node_env =
  ne_redis :: "'r redis"
  ne_marshal :: "task \<Rightarrow> string option"
  ne_unmarshal :: "string \<Rightarrow> task option"
  ne_result :: "task_result \<Rightarrow> string option"

definition resultCap :: nat where "resultCap = 100"
definition DefaultResultTTL :: duration where "DefaultResultTTL = 30 * minute"

definition NewNode :: "node_config \<Rightarrow> 'r \<Rightarrow> 'r node" where
  "NewNode config r =
     \<lparr>nd_ID = nc_ID config, nd_Status = NodeStatusStopped, nd_StartedAt = time_zero, nd_UpdatedAt = time_zero,
      nd_MaxWorkers = nc_MaxWorkers config, nd_TasksProcessed = 0, nd_TasksFailed = 0, nd_BytesDownloaded = 0,
      nd_ItemsExtracted = 0, nd_workers = [], nd_taskQueue = [], nd_queueCap = nc_QueueSize config,
      nd_resultQueue = [], nd_stopClosed = False, nd_registered = False, nd_config = config, nd_redis = r,
      nd_writes = []\<rparr>"

definition getTaskQueueKey :: "'r node \<Rightarrow> string" where
  "getTaskQueueKey n = nc_RedisPrefix (nd_config n) @ '':queue:tasks:'' @ nd_ID n"

definition getEventChannel :: "'r node \<Rightarrow> string" where
  "getEventChannel n = nc_RedisPrefix (nd_config n) @ '':events''"

definition getActiveWorkerCount :: "'r node \<Rightarrow> nat" where
  "getActiveWorkerCount n = length (filter (\<lambda>w. wk_Status w = ''busy'') (nd_workers n))"

section \<open>Life cycle\<close>

datatype 's lifecycle = Okay 's | Refused string 's | Panicked

definition new_workers :: "'r node \<Rightarrow> worker list" where
  "new_workers n = map (\<lambda>i. \<lparr>wk_ID = nd_ID n @ ''-worker-'' @ dec_of_int (int i), wk_Status = ''idle'', wk_Current = None\<rparr>)
     [0..<nat (nd_MaxWorkers n)]"

text \<open>\<open>reg\<close> is the registry's answer to the registration.  The goroutines are started at the end.\<close>

definition node_Start :: "gotime \<Rightarrow> bool \<Rightarrow> 'r node \<Rightarrow> 'r node lifecycle" where
  "node_Start now reg n =
     (if nd_Status n \<noteq> NodeStatusStopped then Refused ''node is not stopped'' n
      else let n1 = n\<lparr>nd_Status := NodeStatusStarting, nd_StartedAt := now, nd_UpdatedAt := now, nd_registered := True\<rparr> in
        if \<not> reg then Refused ''failed to register node'' (n1\<lparr>nd_Status := NodeStatusError\<rparr>)
        else if nd_MaxWorkers n1 < 0 then Panicked
        else Okay (n1\<lparr>nd_workers := new_workers n1, nd_Status := NodeStatusActive\<rparr>))"

text \<open>After the wait for the workers, which ends at the latest with the timeout.\<close>

definition node_Stop :: "'r node \<Rightarrow> 'r node lifecycle" where
  "node_Stop n =
     (if nd_Status n = NodeStatusStopped then Okay n
      else if nd_stopClosed n then Panicked
      else Okay (n\<lparr>nd_stopClosed := True, nd_Status := NodeStatusStopped\<rparr>))"

definition node_Pause :: "'r node \<Rightarrow> 'r node" where
  "node_Pause n = (if nd_Status n = NodeStatusActive then n\<lparr>nd_Status := NodeStatusPaused\<rparr> else n)"

definition node_Resume :: "'r node \<Rightarrow> 'r node" where
  "node_Resume n = (if nd_Status n = NodeStatusPaused then n\<lparr>nd_Status := NodeStatusActive\<rparr> else n)"

record heartbeat =
  hb_NodeID :: string
  hb_Status :: node_status
  hb_ActiveWorkers :: nat
  hb_MaxWorkers :: int
  hb_TasksProcessed :: nat
  hb_TasksFailed :: nat
  hb_Timestamp :: gotime

definition make_heartbeat :: "gotime \<Rightarrow> 'r node \<Rightarrow> heartbeat" where
  "make_heartbeat now n = \<lparr>hb_NodeID = nd_ID n, hb_Status = nd_Status n, hb_ActiveWorkers = getActiveWorkerCount n,
     hb_MaxWorkers = nd_MaxWorkers n, hb_TasksProcessed = nd_TasksProcessed n, hb_TasksFailed = nd_TasksFailed n,
     hb_Timestamp = now\<rparr>"

text \<open>The new state and the heartbeat sent to the registry, when there is one.\<close>

definition updateStatus :: "gotime \<Rightarrow> node_status \<Rightarrow> 'r node \<Rightarrow> 'r node \<times> heartbeat option" where
  "updateStatus now st n =
     (let n1 = n\<lparr>nd_Status := st, nd_UpdatedAt := now\<rparr>
      in (n1, if nd_registered n1 then Some (make_heartbeat now n1) else None))"

section \<open>Fetching tasks\<close>

text \<open>The loop of \<open>fetchBatch\<close>, \<open>k\<close> rounds left.\<close>

fun fetch_loop :: "'r node_env \<Rightarrow> nat \<Rightarrow> 'r node \<Rightarrow> 'r node" where
  "fetch_loop E 0 n = n"
| "fetch_loop E (Suc k) n =
     (case rd_RPop (ne_redis E) (getTaskQueueKey n) (nd_redis n) of
        (None, r1) \<Rightarrow> n\<lparr>nd_redis := r1\<rparr>
      | (Some taskData, r1) \<Rightarrow>
          if taskData = [] then n\<lparr>nd_redis := r1\<rparr>
          else case ne_unmarshal E taskData of
              None \<Rightarrow> fetch_loop E k (n\<lparr>nd_redis := r1\<rparr>)
            | Some t \<Rightarrow>
                if length (nd_taskQueue n) < nd_queueCap n
                then fetch_loop E k (n\<lparr>nd_redis := r1, nd_taskQueue := nd_taskQueue n @ [t]\<rparr>)
                else n\<lparr>nd_redis := snd (rd_LPush (ne_redis E) (nc_RedisPrefix (nd_config n) @ '':queue:pending'') taskData r1)\<rparr>)"

definition fetchBatch :: "'r node_env \<Rightarrow> 'r node \<Rightarrow> 'r node" where
  "fetchBatch E n = fetch_loop E (min 10 (nd_queueCap n - length (nd_taskQueue n))) n"

text \<open>One tick of \<open>fetchTasks\<close>.\<close>

definition fetch_tick :: "'r node_env \<Rightarrow> 'r node \<Rightarrow> 'r node" where
  "fetch_tick E n =
     (if nd_Status n \<noteq> NodeStatusActive then n
      else if length (nd_taskQueue n) < nd_queueCap n div 2 then fetchBatch E n else n)"

text \<open>Both write to the node's own queue; the encoder's failure drops the task.\<close>

definition requeueTask :: "'r node_env \<Rightarrow> task \<Rightarrow> 'r node \<Rightarrow> 'r node" where
  "requeueTask E t n =
     (case ne_marshal E t of None \<Rightarrow> n
      | Some d \<Rightarrow> n\<lparr>nd_redis := snd (rd_LPush (ne_redis E) (getTaskQueueKey n) d (nd_redis n))\<rparr>)"

definition queueTask :: "'r node_env \<Rightarrow> task \<Rightarrow> 'r node \<Rightarrow> bool \<times> 'r node" where
  "queueTask E t n =
     (case ne_marshal E t of None \<Rightarrow> (False, n)
      | Some d \<Rightarrow> (let (ok, r1) = rd_LPush (ne_redis E) (getTaskQueueKey n) d (nd_redis n) in (ok, n\<lparr>nd_redis := r1\<rparr>)))"

section \<open>Execution\<close>

record exec_result =
  xr_Status :: string
  xr_Message :: string
  xr_Data :: "(string \<times> goval) list"
  xr_Links :: "string list"
  xr_Error :: string
  xr_BytesFetched :: int
  xr_ItemsExtracted :: int

record fetch_response =
  fr_StatusCode :: int
  fr_Body :: string
  fr_Duration :: int
  fr_Size :: int

text \<open>
  What one execution answers: the enhanced executor when there is one, or the plain fetcher, each with
  its error text or its result; the clock in nanoseconds as each link is turned into a task.
\<close>

datatype answer = Executed "string + exec_result" | Fetched "string + fetch_response"

record execution =
  ex_answer :: answer
  ex_start :: gotime
  ex_end :: gotime
  ex_nanos :: "nat \<Rightarrow> gotime"

definition extractor_type :: "string \<Rightarrow> string" where
  "extractor_type ty =
     (if ty = ''api'' \<or> ty = ''json'' then ''json'' else if ty = ''html'' \<or> ty = ''web'' then ''html'' else ''css'')"

definition sub_task :: "task \<Rightarrow> string \<Rightarrow> gotime \<Rightarrow> task" where
  "sub_task parent link nanos = zero_task\<lparr>
     t_ID := t_ID parent @ ''_sub_'' @ dec_of_int nanos, t_ParentID := t_ID parent,
     t_Name := ''Sub-task of '' @ t_Name parent, t_URL := link, t_Type := ''detail'',
     t_Priority := t_Priority parent - 1, t_Method := ''GET'', t_MaxRetries := t_MaxRetries parent,
     t_RetryDelay := t_RetryDelay parent, t_Timeout := t_Timeout parent, t_CreatedAt := nanos,
     t_Status := StatusPending, t_StorageConf := t_StorageConf parent, t_PipelineID := t_PipelineID parent\<rparr>"

definition generateSubTasks :: "'r node_env \<Rightarrow> (nat \<Rightarrow> gotime) \<Rightarrow> task \<Rightarrow> string list \<Rightarrow> 'r node \<Rightarrow> 'r node" where
  "generateSubTasks E nanos parent links n =
     foldl (\<lambda>n (i, link). snd (queueTask E (sub_task parent link (nanos i)) n)) n (enumerate 0 links)"

definition executeTaskEnhanced :: "'r node_env \<Rightarrow> execution \<Rightarrow> string + exec_result \<Rightarrow> task \<Rightarrow> task_result \<Rightarrow> 'r node \<Rightarrow>
    string option \<times> task_result \<times> 'r node" where
  "executeTaskEnhanced E X x t result n =
     (case x of
        Inl err \<Rightarrow> (Some err, result\<lparr>tr_Status := ''failed'', tr_Error := err\<rparr>, n)
      | Inr er \<Rightarrow>
          let result1 = result\<lparr>tr_Status := xr_Status er, tr_BytesRead := xr_BytesFetched er,
                tr_Data := [[(''url'', GStr (t_URL t)), (''method'', GStr (t_Method t)), (''task_type'', GStr (t_Type t)),
                  (''task_name'', GStr (t_Name t)), (''extracted'', GMap (xr_Data er))]]\<rparr>
          in if xr_Status er = ''failed''
             then (Some (''task execution failed: '' @ xr_Error er),
                   result1\<lparr>tr_Status := ''failed'', tr_Error := xr_Error er\<rparr>, n)
             else let n1 = n\<lparr>nd_BytesDownloaded := nd_BytesDownloaded n + xr_BytesFetched er,
                             nd_ItemsExtracted := nd_ItemsExtracted n + xr_ItemsExtracted er\<rparr>
               in (None, result1,
                   if length (xr_Links er) > 0 \<and> (t_Type t = ''seed'' \<or> t_Type t = ''list'')
                   then generateSubTasks E (ex_nanos X) t (xr_Links er) n1 else n1))"

definition content_preview :: "string \<Rightarrow> string" where
  "content_preview body = (if length body > 500 then take 500 body @ ''...'' else body)"

definition executeTask :: "'r node_env \<Rightarrow> execution \<Rightarrow> task \<Rightarrow> task_result \<Rightarrow> 'r node \<Rightarrow>
    string option \<times> task_result \<times> 'r node" where
  "executeTask E X t result n =
     (case ex_answer X of
        Executed x \<Rightarrow> executeTaskEnhanced E X x t result n
      | Fetched (Inl err) \<Rightarrow> (Some err, result\<lparr>tr_Status := ''failed'', tr_Error := ''Fetch failed: '' @ err\<rparr>, n)
      | Fetched (Inr resp) \<Rightarrow>
          (None, result\<lparr>tr_Status := ''success'', tr_BytesRead := fr_Size resp,
             tr_Data := [[(''url'', GStr (t_URL t)), (''status_code'', GInt (fr_StatusCode resp)),
               (''size'', GInt (fr_Size resp)), (''duration_ms'', GInt (fr_Duration resp)),
               (''timestamp'', GTime (ex_end X)), (''content_preview'', GStr (content_preview (fr_Body resp)))]]\<rparr>,
           n\<lparr>nd_BytesDownloaded := nd_BytesDownloaded n + fr_Size resp, nd_ItemsExtracted := nd_ItemsExtracted n + 1\<rparr>))"

definition initial_result :: "'r node \<Rightarrow> string \<Rightarrow> gotime \<Rightarrow> task \<Rightarrow> task_result" where
  "initial_result n worker now t =
     \<lparr>tr_TaskID = t_ID t, tr_NodeID = nd_ID n, tr_WorkerID = worker, tr_Status = [],
      tr_Data = [[(''url'', GStr (t_URL t)), (''method'', GStr (t_Method t)), (''type'', GStr (t_Type t))]],
      tr_Error = [], tr_StartTime = now, tr_EndTime = time_zero, tr_Duration = 0, tr_BytesRead = 0,
      tr_BatchID = t_BatchID t, tr_BatchSize = t_BatchSize t, tr_BatchIndex = t_BatchIndex t, tr_BatchType = t_BatchType t,
      tr_ProjectID = t_ProjectID t, tr_Source = t_Source t, tr_Metadata = t_Metadata t\<rparr>"

definition set_worker :: "nat \<Rightarrow> (worker \<Rightarrow> worker) \<Rightarrow> 'r node \<Rightarrow> 'r node" where
  "set_worker w f n = n\<lparr>nd_workers := (nd_workers n)[w := f (nd_workers n ! w)]\<rparr>"

text \<open>A worker marks itself busy, then executes and reports, then is idle again.\<close>

definition worker_begin :: "nat \<Rightarrow> task \<Rightarrow> 'r node \<Rightarrow> 'r node" where
  "worker_begin w t = set_worker w (\<lambda>k. k\<lparr>wk_Status := ''busy'', wk_Current := Some t\<rparr>)"

definition send_result :: "task_result \<Rightarrow> 'r node \<Rightarrow> 'r node" where
  "send_result result n =
     (if length (nd_resultQueue n) < resultCap then n\<lparr>nd_resultQueue := nd_resultQueue n @ [result]\<rparr> else n)"

definition worker_finish :: "'r node_env \<Rightarrow> execution \<Rightarrow> nat \<Rightarrow> task \<Rightarrow> 'r node \<Rightarrow> 'r node" where
  "worker_finish E X w t n =
     (let (err, result, n1) = executeTask E X t (initial_result n (wk_ID (nd_workers n ! w)) (ex_start X) t) n;
          (result2, n2) = (case err of
             Some e \<Rightarrow>
               (let n1f = n1\<lparr>nd_TasksFailed := nd_TasksFailed n1 + 1\<rparr>
                in (result\<lparr>tr_Status := ''failed'', tr_Error := e\<rparr>,
                    if CanRetry (ex_end X) t then requeueTask E (IncrementRetry t) n1f else n1f))
           | None \<Rightarrow> (result\<lparr>tr_Status := ''success''\<rparr>, n1\<lparr>nd_TasksProcessed := nd_TasksProcessed n1 + 1\<rparr>))
      in set_worker w (\<lambda>k. k\<lparr>wk_Status := ''idle'', wk_Current := None\<rparr>)
           (send_result (result2\<lparr>tr_EndTime := ex_end X, tr_Duration := ex_end X - tr_StartTime result2\<rparr>) n2))"

definition processTask :: "'r node_env \<Rightarrow> execution \<Rightarrow> nat \<Rightarrow> task \<Rightarrow> 'r node \<Rightarrow> 'r node" where
  "processTask E X w t n = worker_finish E X w t (worker_begin w t n)"

section \<open>Results\<close>

definition handleResult :: "'r node_env \<Rightarrow> string \<Rightarrow> task_result \<Rightarrow> 'r node \<Rightarrow> 'r node" where
  "handleResult E completed_at result n =
     (let prefix = nc_RedisPrefix (nd_config n); taskKey = prefix @ '':task:'' @ tr_TaskID result in
      case ne_result E result of
        None \<Rightarrow> n
      | Some d \<Rightarrow>
          (let (ok, r1) = rd_Set (ne_redis E) (prefix @ '':result:'' @ tr_TaskID result) d DefaultResultTTL (nd_redis n);
               n1 = n\<lparr>nd_redis := r1\<rparr>
           in if \<not> ok then n1
              else n1\<lparr>nd_writes := nd_writes n1 @
                [Publish (prefix @ '':results'') d, HSet taskKey ''status'' (tr_Status result),
                 HSet taskKey ''completed_at'' completed_at, ExpireKey taskKey DefaultResultTTL,
                 Publish (getEventChannel n)
                   ((if tr_Status result = ''success'' then ''task:completed:'' else ''task:failed:'') @ tr_TaskID result)]\<rparr>))"

text \<open>One round of \<open>processResults\<close>.\<close>

definition result_step :: "'r node_env \<Rightarrow> string \<Rightarrow> 'r node \<Rightarrow> 'r node" where
  "result_step E completed_at n =
     (case nd_resultQueue n of [] \<Rightarrow> n
      | result # rest \<Rightarrow> handleResult E completed_at result (n\<lparr>nd_resultQueue := rest\<rparr>))"

definition collectAndReportMetrics :: "string \<Rightarrow> string \<Rightarrow> 'r node \<Rightarrow> 'r node" where
  "collectAndReportMetrics cpu memory n =
     (let key = nc_RedisPrefix (nd_config n) @ '':metrics:'' @ nd_ID n in
      n\<lparr>nd_writes := nd_writes n @ map (\<lambda>(k, v). HSet key k v)
          [(''tasks_processed'', dec_of_int (int (nd_TasksProcessed n))), (''tasks_failed'', dec_of_int (int (nd_TasksFailed n))),
           (''bytes_downloaded'', dec_of_int (nd_BytesDownloaded n)), (''items_extracted'', dec_of_int (nd_ItemsExtracted n)),
           (''cpu_usage'', cpu), (''memory_usage'', memory), (''queue_size'', dec_of_int (int (length (nd_taskQueue n)))),
           (''active_workers'', dec_of_int (int (getActiveWorkerCount n)))] @ [ExpireKey key hour]\<rparr>)"

section \<open>What the operations leave alone\<close>

text \<open>The parts of a node that execution and Redis traffic do not touch.\<close>

definition same_shape :: "'r node \<Rightarrow> 'r node \<Rightarrow> bool" where
  "same_shape n n' \<longleftrightarrow> nd_ID n' = nd_ID n \<and> nd_Status n' = nd_Status n \<and> nd_MaxWorkers n' = nd_MaxWorkers n \<and>
     nd_workers n' = nd_workers n \<and> nd_taskQueue n' = nd_taskQueue n \<and> nd_queueCap n' = nd_queueCap n \<and>
     nd_resultQueue n' = nd_resultQueue n \<and> nd_stopClosed n' = nd_stopClosed n \<and>
     nd_registered n' = nd_registered n \<and> nd_config n' = nd_config n \<and>
     nd_TasksProcessed n' = nd_TasksProcessed n \<and> nd_TasksFailed n' = nd_TasksFailed n"

lemma same_shape_refl [simp]: "same_shape n n"
  by (simp add: same_shape_def)

lemma same_shape_trans: "same_shape a b \<Longrightarrow> same_shape b c \<Longrightarrow> same_shape a c"
  by (simp add: same_shape_def)

lemma queueTask_shape [simp]: "same_shape n (snd (queueTask E t n))"
  by (simp add: queueTask_def same_shape_def split: option.splits prod.splits)

lemma generateSubTasks_shape [simp]: "same_shape n (generateSubTasks E nanos p links n)"
proof -
  have "same_shape n (foldl (\<lambda>n (i, link). snd (queueTask E (sub_task p link (nanos i)) n)) n xs)" for xs
    by (induction xs arbitrary: n) (auto intro: same_shape_trans [OF queueTask_shape])
  then show ?thesis by (simp add: generateSubTasks_def)
qed

lemma same_shape_metrics [simp]: "same_shape n (n\<lparr>nd_BytesDownloaded := b, nd_ItemsExtracted := i\<rparr>)"
  by (simp add: same_shape_def)

lemma executeTask_shape: "executeTask E X t result n = (err, result1, n1) \<Longrightarrow> same_shape n n1"
  by (auto simp: executeTask_def executeTaskEnhanced_def Let_def
      intro: same_shape_trans [OF same_shape_metrics generateSubTasks_shape]
      split: answer.splits sum.splits if_splits)

lemma executeTask_ids:
  assumes "executeTask E X t result n = (err, result1, n1)"
  shows "tr_TaskID result1 = tr_TaskID result" "tr_BatchID result1 = tr_BatchID result"
    "tr_BatchSize result1 = tr_BatchSize result" "tr_BatchIndex result1 = tr_BatchIndex result"
    "tr_BatchType result1 = tr_BatchType result" "tr_StartTime result1 = tr_StartTime result"
  using assms by (auto simp: executeTask_def executeTaskEnhanced_def Let_def split: answer.splits sum.splits if_splits)

lemma requeueTask_shape [simp]: "same_shape n (requeueTask E t n)"
  by (simp add: requeueTask_def same_shape_def split: option.splits)

lemma handleResult_shape [simp]: "same_shape n (handleResult E at result n)"
  by (simp add: handleResult_def same_shape_def Let_def split: option.splits prod.splits)

lemma fetch_loop_shape:
  "length (nd_taskQueue n) \<le> nd_queueCap n \<Longrightarrow>
   same_shape (n\<lparr>nd_taskQueue := nd_taskQueue (fetch_loop E k n)\<rparr>) (fetch_loop E k n) \<and>
   length (nd_taskQueue (fetch_loop E k n)) \<le> nd_queueCap n"
proof (induction k arbitrary: n)
  case (Suc k)
  obtain v r1 where pop: "rd_RPop (ne_redis E) (getTaskQueueKey n) (nd_redis n) = (v, r1)" by fastforce
  show ?case
  proof (cases "v = None \<or> v = Some []")
    case True
    then show ?thesis using Suc.prems pop by (auto simp: same_shape_def)
  next
    case False
    then obtain d where d: "v = Some d" "d \<noteq> []" by auto
    show ?thesis
    proof (cases "ne_unmarshal E d")
      case None
      then show ?thesis using Suc.IH [of "n\<lparr>nd_redis := r1\<rparr>"] Suc.prems pop d by (simp add: same_shape_def)
    next
      case (Some t)
      then show ?thesis
        using Suc.IH [of "n\<lparr>nd_redis := r1, nd_taskQueue := nd_taskQueue n @ [t]\<rparr>"] Suc.prems pop d
        by (simp add: same_shape_def)
    qed
  qed
qed (simp add: same_shape_def)

section \<open>Interleavings and their invariant\<close>

text \<open>
  The steps of the goroutines, of the hub's client and of the callers.  Between \<open>worker_begin\<close> and
  \<open>worker_finish\<close> of one worker any other step may happen.
\<close>

inductive node_step :: "'r node_env \<Rightarrow> 'r node \<Rightarrow> 'r node \<Rightarrow> bool" for E where
  started: "node_Start now reg n = Okay n' \<Longrightarrow> node_step E n n'"
| start_refused: "node_Start now reg n = Refused e n' \<Longrightarrow> node_step E n n'"
| stopped: "node_Stop n = Okay n' \<Longrightarrow> node_step E n n'"
| paused: "node_step E n (node_Pause n)"
| resumed: "node_step E n (node_Resume n)"
| connection: "st \<in> {NodeStatusActive, NodeStatusDisconnected} \<Longrightarrow> node_step E n (fst (updateStatus now st n))"
| fetch: "node_step E n (fetch_tick E n)"
| assigned: "length (nd_taskQueue n) < nd_queueCap n \<Longrightarrow> node_step E n (n\<lparr>nd_taskQueue := nd_taskQueue n @ [t]\<rparr>)"
| take_task: "nd_taskQueue n = t # q \<Longrightarrow> nd_Status n = NodeStatusActive \<Longrightarrow> w < length (nd_workers n) \<Longrightarrow>
    wk_Current (nd_workers n ! w) = None \<Longrightarrow> node_step E n (worker_begin w t (n\<lparr>nd_taskQueue := q\<rparr>))"
| put_back: "nd_taskQueue n = t # q \<Longrightarrow> nd_Status n \<noteq> NodeStatusActive \<Longrightarrow>
    node_step E n (n\<lparr>nd_taskQueue := q @ [t]\<rparr>)"
| finish: "w < length (nd_workers n) \<Longrightarrow> wk_Current (nd_workers n ! w) = Some t \<Longrightarrow>
    node_step E n (worker_finish E X w t n)"
| result: "node_step E n (result_step E at n)"
| metrics: "node_step E n (collectAndReportMetrics cpu memory n)"

inductive node_reach :: "'r node_env \<Rightarrow> 'r node \<Rightarrow> bool" for E where
  initial: "node_reach E (NewNode config r)"
| more: "node_reach E n \<Longrightarrow> node_step E n n' \<Longrightarrow> node_reach E n'"

definition worker_ok :: "worker \<Rightarrow> bool" where
  "worker_ok k \<longleftrightarrow> wk_Status k \<in> {''idle'', ''busy''} \<and> (wk_Status k = ''busy'' \<longleftrightarrow> wk_Current k \<noteq> None)"

definition node_inv :: "'r node \<Rightarrow> bool" where
  "node_inv n \<longleftrightarrow> length (nd_taskQueue n) \<le> nd_queueCap n \<and> length (nd_resultQueue n) \<le> resultCap \<and>
     list_all worker_ok (nd_workers n) \<and> (nd_workers n \<noteq> [] \<longrightarrow> length (nd_workers n) = nat (nd_MaxWorkers n)) \<and>
     nd_Status n \<notin> {NodeStatusStarting, NodeStatusStopping}"

lemma node_inv_shape: "same_shape n n' \<Longrightarrow> node_inv n' = node_inv n"
  by (simp add: same_shape_def node_inv_def)

lemma set_worker_inv:
  "node_inv n \<Longrightarrow> worker_ok (f (nd_workers n ! w)) \<Longrightarrow> node_inv (set_worker w f n)"
  by (auto simp: node_inv_def set_worker_def list_all_iff dest!: set_update_subset_insert [THEN subsetD])

lemma send_result_inv: "node_inv n \<Longrightarrow> node_inv (send_result r n)"
  by (simp add: node_inv_def send_result_def)

lemma worker_finish_inv: "node_inv n \<Longrightarrow> node_inv (worker_finish E X w t n)"
proof -
  assume inv: "node_inv n"
  obtain err result n1 where ex:
    "executeTask E X t (initial_result n (wk_ID (nd_workers n ! w)) (ex_start X) t) n = (err, result, n1)"
    by (metis surj_pair)
  have n1: "node_inv n1" using inv node_inv_shape [OF executeTask_shape [OF ex]] by simp
  have failed: "node_inv (n1\<lparr>nd_TasksFailed := k\<rparr>)" "node_inv (n1\<lparr>nd_TasksProcessed := k\<rparr>)" for k
    using n1 by (simp_all add: node_inv_def)
  have "node_inv (requeueTask E u (n1\<lparr>nd_TasksFailed := k\<rparr>))" for u k
    using failed node_inv_shape [OF requeueTask_shape] by blast
  then show ?thesis
    unfolding worker_finish_def ex
    by (cases err) (auto simp: Let_def failed intro!: set_worker_inv send_result_inv simp: worker_ok_def)
qed

lemma fetch_tick_inv: "node_inv n \<Longrightarrow> node_inv (fetch_tick E n)"
proof -
  assume inv: "node_inv n"
  then have "length (nd_taskQueue n) \<le> nd_queueCap n" by (simp add: node_inv_def)
  from fetch_loop_shape [OF this, of E] have "node_inv (fetch_loop E k n)" for k
    using inv by (auto simp: same_shape_def node_inv_def)
  then show ?thesis using inv by (simp add: fetch_tick_def fetchBatch_def)
qed

lemma node_step_inv: "node_step E n n' \<Longrightarrow> node_inv n \<Longrightarrow> node_inv n'"
proof (induction rule: node_step.induct)
  case (started now reg n n')
  then show ?case
    by (auto simp: node_Start_def Let_def node_inv_def new_workers_def worker_ok_def list_all_iff split: if_splits)
next
  case (start_refused now reg n e n')
  then show ?case by (auto simp: node_Start_def Let_def node_inv_def split: if_splits)
next
  case (take_task n t q w)
  then have "node_inv (n\<lparr>nd_taskQueue := q\<rparr>)" by (simp add: node_inv_def)
  then show ?case by (simp add: worker_begin_def set_worker_inv worker_ok_def)
next
  case (result n at)
  then show ?case
    by (auto simp: result_step_def node_inv_shape [OF handleResult_shape] split: list.splits) (simp add: node_inv_def)
next
  case (fetch n)
  then show ?case by (simp add: fetch_tick_inv)
next
  case (finish w n t X)
  then show ?case by (simp add: worker_finish_inv)
qed (auto simp: node_inv_def node_Stop_def node_Pause_def node_Resume_def updateStatus_def Let_def
    collectAndReportMetrics_def split: if_splits)

lemma node_reach_inv: "node_reach E n \<Longrightarrow> node_inv n"
proof (induction rule: node_reach.induct)
  case (initial config r)
  show ?case by (simp add: node_inv_def NewNode_def)
qed (rule node_step_inv)


definition idle_env :: "mem_state node_env" where
  "idle_env = \<lparr>ne_redis = mem_redis, ne_marshal = (\<lambda>t. Some (t_ID t)), ne_unmarshal = (\<lambda>s. Some (zero_task\<lparr>t_ID := s\<rparr>)),
     ne_result = (\<lambda>r. Some (tr_TaskID r))\<rparr>"

definition test_config :: node_config where
  "test_config = \<lparr>nc_ID = ''n1'', nc_MaxWorkers = 2, nc_QueueSize = 4, nc_RedisPrefix = ''crawler''\<rparr>"


section \<open>Restarting\<close>

text \<open>
  A node cannot be restarted: \<open>Stop\<close> closes the stop channel for good, a second \<open>Start\<close> reports
  an active node whose stop signal is already raised, so that its loops end at their first select,
  and stopping that node panics.  After a failed registration \<open>Start\<close> is refused until \<open>Stop\<close> has
  closed the channel.
\<close>
theorem node_restart_dead:
  assumes "nd_Status n = NodeStatusStopped" and "\<not> nd_stopClosed n" and "0 \<le> nd_MaxWorkers n"
  shows "(\<exists>n1 n2 n3. node_Start t1 True n = Okay n1 \<and> nd_Status n1 = NodeStatusActive \<and> \<not> nd_stopClosed n1 \<and>
      node_Stop n1 = Okay n2 \<and> node_Start t2 True n2 = Okay n3 \<and>
      nd_Status n3 = NodeStatusActive \<and> nd_stopClosed n3 \<and> node_Stop n3 = Panicked) \<and>
    (\<exists>n1 n2. node_Start t1 False n = Refused ''failed to register node'' n1 \<and>
      node_Start t2 True n1 = Refused ''node is not stopped'' n1 \<and> node_Stop n1 = Okay n2 \<and> nd_stopClosed n2)"
  using assms by (simp add: node_Start_def node_Stop_def Let_def)

theorem node_restart_dead_witness:
  "\<exists>n1 n2 n3. node_Start 0 True (NewNode test_config mem_empty) = Okay n1 \<and> node_Stop n1 = Okay n2 \<and>
    node_Start 1 True n2 = Okay n3 \<and> node_Stop n3 = Panicked"
proof -
  have "nd_Status (NewNode test_config mem_empty) = NodeStatusStopped"
    "\<not> nd_stopClosed (NewNode test_config mem_empty)" "0 \<le> nd_MaxWorkers (NewNode test_config mem_empty)"
    by (simp_all add: NewNode_def test_config_def)
  from node_restart_dead [OF this, of 0 1] show ?thesis by blast
qed

section \<open>Fetching\<close>

text \<open>A Redis that answers: pops of nonempty lists and pushes succeed.\<close>

definition redis_answers :: "'r redis \<Rightarrow> ('r \<Rightarrow> string \<Rightarrow> string list) \<Rightarrow> bool" where
  "redis_answers R lst \<longleftrightarrow> (\<forall>k r. lst r k \<noteq> [] \<longrightarrow> fst (rd_RPop R k r) \<noteq> None) \<and> (\<forall>k v r. fst (rd_LPush R k v r))"

lemma mem_redis_answers: "redis_answers mem_redis ms_lists"
  by (simp add: redis_answers_def mem_redis_def)

lemma redis_pop_answer:
  assumes "redis_lists R lst" and "redis_answers R lst"
  shows "lst r k = [] \<Longrightarrow> \<exists>r1. rd_RPop R k r = (None, r1) \<and> lst r1 = lst r"
    and "lst r k = xs @ [x] \<Longrightarrow> \<exists>r1. rd_RPop R k r = (Some x, r1) \<and> lst r1 = (lst r)(k := xs)"
proof -
  obtain v r1 where pop: "rd_RPop R k r = (v, r1)" by fastforce
  have "v = None" if "lst r k = []"
    using redis_listsD(6) [OF assms(1), of k r _ r1] pop that by (cases v) fastforce+
  then show "lst r k = [] \<Longrightarrow> \<exists>r1. rd_RPop R k r = (None, r1) \<and> lst r1 = lst r"
    using redis_listsD(5) [OF assms(1), of k r r1] pop by blast

  assume k: "lst r k = xs @ [x]"
  then have "fst (rd_RPop R k r) \<noteq> None" using assms(2) by (simp add: redis_answers_def)
  then obtain y where y: "v = Some y" using pop by auto
  from redis_listsD(6) [OF assms(1) pop [unfolded y]] have "y = x" "lst r1 = (lst r)(k := xs)"
    using k by simp_all
  then show "\<exists>r1. rd_RPop R k r = (Some x, r1) \<and> lst r1 = (lst r)(k := xs)" using pop y by blast
qed

lemma fetch_loop_spec:
  assumes lists: "redis_lists (ne_redis E) lst" and up: "redis_answers (ne_redis E) lst"
    and "length (nd_taskQueue n) + k \<le> nd_queueCap n" and "[] \<notin> set (lst (nd_redis n) (getTaskQueueKey n))"
  shows "nd_taskQueue (fetch_loop E k n) = nd_taskQueue n @
      List.map_filter (ne_unmarshal E) (take k (rev (lst (nd_redis n) (getTaskQueueKey n)))) \<and>
    lst (nd_redis (fetch_loop E k n)) = (lst (nd_redis n))(getTaskQueueKey n :=
      rev (drop k (rev (lst (nd_redis n) (getTaskQueueKey n)))))"
  using assms(3,4)
proof (induction k arbitrary: n)
  case (Suc k)
  let ?key = "getTaskQueueKey n"
  have key: "getTaskQueueKey (n\<lparr>nd_redis := r, nd_taskQueue := q\<rparr>) = ?key" "getTaskQueueKey (n\<lparr>nd_redis := r\<rparr>) = ?key"
    for r q by (simp_all add: getTaskQueueKey_def)
  show ?case
  proof (cases "lst (nd_redis n) ?key" rule: rev_cases)
    case Nil
    then show ?thesis using redis_pop_answer(1) [OF lists up Nil] by auto
  next
    case (snoc xs x)
    obtain r1 where pop: "rd_RPop (ne_redis E) ?key (nd_redis n) = (Some x, r1)" "lst r1 = (lst (nd_redis n))(?key := xs)"
      using redis_pop_answer(2) [OF lists up snoc] by blast
    show ?thesis
    proof (cases "ne_unmarshal E x")
      case None
      then show ?thesis
        using Suc.IH [of "n\<lparr>nd_redis := r1\<rparr>"] Suc.prems pop snoc by (auto simp: key fun_eq_iff)
    next
      case (Some t)
      then show ?thesis
        using Suc.IH [of "n\<lparr>nd_redis := r1, nd_taskQueue := nd_taskQueue n @ [t]\<rparr>"] Suc.prems pop snoc
        by (auto simp: key fun_eq_iff)
    qed
  qed
qed simp

text \<open>
  A fetch moves the oldest entries of the node's Redis queue, as many as fit and at most ten, in
  order into the local queue, drops those it cannot decode and leaves the rest; nothing is pushed
  back.  A task retried or queued by the node goes behind every entry already there.
\<close>
theorem fetchBatch_spec:
  assumes "redis_lists (ne_redis E) lst" and "redis_answers (ne_redis E) lst"
    and "length (nd_taskQueue n) \<le> nd_queueCap n" and "[] \<notin> set L"
    and L: "L = lst (nd_redis n) (getTaskQueueKey n)" and k: "k = min 10 (nd_queueCap n - length (nd_taskQueue n))"
  shows "nd_taskQueue (fetchBatch E n) = nd_taskQueue n @ List.map_filter (ne_unmarshal E) (take k (rev L)) \<and>
    lst (nd_redis (fetchBatch E n)) = (lst (nd_redis n))(getTaskQueueKey n := rev (drop k (rev L))) \<and>
    (ne_marshal E t = Some d \<longrightarrow> rev (lst (nd_redis (requeueTask E t n)) (getTaskQueueKey n)) = rev L @ [d])"
proof (intro conjI impI)
  have fits: "length (nd_taskQueue n) + k \<le> nd_queueCap n" using assms(3) k by simp
  note fs = fetch_loop_spec [OF assms(1,2) fits, folded L, OF assms(4)]
  show "nd_taskQueue (fetchBatch E n) = nd_taskQueue n @ List.map_filter (ne_unmarshal E) (take k (rev L))"
    using fs by (simp add: fetchBatch_def k)
  show "lst (nd_redis (fetchBatch E n)) = (lst (nd_redis n))(getTaskQueueKey n := rev (drop k (rev L)))"
    using fs by (simp add: fetchBatch_def k)
  assume m: "ne_marshal E t = Some d"
  obtain ok r1 where push: "rd_LPush (ne_redis E) (getTaskQueueKey n) d (nd_redis n) = (ok, r1)" by fastforce
  moreover have ok using assms(2) push by (metis fst_conv redis_answers_def)
  ultimately show "rev (lst (nd_redis (requeueTask E t n)) (getTaskQueueKey n)) = rev L @ [d]"
    using redis_listsD(4) [OF assms(1) push] m by (simp add: requeueTask_def L)
qed


theorem fetchBatch_spec_witness:
  "nd_taskQueue (fetchBatch idle_env (NewNode test_config
      (mem_empty\<lparr>ms_lists := (\<lambda>_. [])(''crawler:queue:tasks:n1'' := [''t2'', ''t1''])\<rparr>))) =
   [zero_task\<lparr>t_ID := ''t1''\<rparr>, zero_task\<lparr>t_ID := ''t2''\<rparr>]"
proof -
  let ?r = "mem_empty\<lparr>ms_lists := (\<lambda>_. [])(''crawler:queue:tasks:n1'' := [''t2'', ''t1''])\<rparr>"
  let ?n = "NewNode test_config ?r"
  have key: "getTaskQueueKey ?n = ''crawler:queue:tasks:n1''" by (simp add: getTaskQueueKey_def NewNode_def test_config_def)
  have L: "[''t2'', ''t1''] = ms_lists (nd_redis ?n) (getTaskQueueKey ?n)" unfolding key by (simp add: NewNode_def)
  have lists: "redis_lists (ne_redis idle_env) ms_lists" "redis_answers (ne_redis idle_env) ms_lists"
    by (simp_all add: idle_env_def mem_redis_lists mem_redis_answers)
  have len: "length (nd_taskQueue ?n) \<le> nd_queueCap ?n" "([] :: string) \<notin> set [''t2'', ''t1'']"
    "4 = min 10 (nd_queueCap ?n - length (nd_taskQueue ?n))"
    by (simp_all add: NewNode_def test_config_def)
  from fetchBatch_spec [OF lists len(1,2) L len(3), of zero_task "''x''"]
  show ?thesis by (simp add: idle_env_def NewNode_def)
qed

text \<open>A node whose queue has room for one task only never fetches.\<close>

lemma small_queue_never_fetches: "nd_queueCap n \<le> 1 \<Longrightarrow> fetch_tick E n = n"
  by (simp add: fetch_tick_def)

text \<open>The queue an overflowing fetch would push to is not the one that is read.\<close>

lemma overflow_key_differs:
  "nc_RedisPrefix (nd_config n) @ '':queue:pending'' \<noteq> getTaskQueueKey n \<and>
   nc_RedisPrefix (nd_config n) @ '':queue:pending'' \<noteq> nc_RedisPrefix (nd_config n) @ '':queue:tasks:pending''"
  by (simp add: getTaskQueueKey_def)

section \<open>Processing\<close>

definition execution_error :: "execution \<Rightarrow> string option" where
  "execution_error X =
     (case ex_answer X of
        Executed (Inl e) \<Rightarrow> Some e
      | Executed (Inr er) \<Rightarrow> if xr_Status er = ''failed'' then Some (''task execution failed: '' @ xr_Error er) else None
      | Fetched (Inl e) \<Rightarrow> Some e
      | Fetched (Inr _) \<Rightarrow> None)"

lemma executeTask_error: "executeTask E X t result n = (err, result1, n1) \<Longrightarrow> err = execution_error X"
  by (auto simp: executeTask_def executeTaskEnhanced_def execution_error_def Let_def
      split: answer.splits sum.splits if_splits)

lemma executeTask_failed: "executeTask E X t result n = (Some e, result1, n1) \<Longrightarrow> n1 = n"
  by (auto simp: executeTask_def executeTaskEnhanced_def Let_def split: answer.splits sum.splits if_splits)

lemma set_worker_twice:
  "w < length (nd_workers n) \<Longrightarrow> nd_workers (set_worker w f n) ! w = f (nd_workers n ! w)"
  by (simp add: set_worker_def)

text \<open>
  C4: Processing a task reports exactly one result, with the task's identity and batch fields: a
  success, or a failure with the error's text.  A failed task is pushed back to the node's queue with
  its retry count one higher as long as it can be retried, and not otherwise; the worker ends idle and
  one of the two counters goes up by one.
\<close>
theorem processTask_spec:
  assumes lists: "redis_lists (ne_redis E) lst" and up: "redis_answers (ne_redis E) lst"
    and w: "w < length (nd_workers n)" and room: "length (nd_resultQueue n) < resultCap"
    and m: "ne_marshal E (IncrementRetry t) = Some d"
    and n': "n' = processTask E X w t n" and e: "e = execution_error X"
  shows "(\<exists>res. nd_resultQueue n' = nd_resultQueue n @ [res] \<and> tr_TaskID res = t_ID t \<and>
      tr_BatchID res = t_BatchID t \<and> tr_BatchSize res = t_BatchSize t \<and> tr_BatchIndex res = t_BatchIndex t \<and>
      tr_Duration res = ex_end X - ex_start X \<and>
      (case e of None \<Rightarrow> tr_Status res = ''success'' | Some msg \<Rightarrow> tr_Status res = ''failed'' \<and> tr_Error res = msg)) \<and>
    nd_TasksProcessed n' = nd_TasksProcessed n + (if e = None then 1 else 0) \<and>
    nd_TasksFailed n' = nd_TasksFailed n + (if e = None then 0 else 1) \<and>
    wk_Status (nd_workers n' ! w) = ''idle'' \<and> wk_Current (nd_workers n' ! w) = None \<and>
    (e \<noteq> None \<longrightarrow> lst (nd_redis n') = (if CanRetry (ex_end X) t
      then (lst (nd_redis n))(getTaskQueueKey n := d # lst (nd_redis n) (getTaskQueueKey n)) else lst (nd_redis n)))"
proof -
  let ?b = "worker_begin w t n"
  have b: "nd_resultQueue ?b = nd_resultQueue n" "nd_TasksProcessed ?b = nd_TasksProcessed n"
    "nd_TasksFailed ?b = nd_TasksFailed n" "length (nd_workers ?b) = length (nd_workers n)" "nd_redis ?b = nd_redis n"
    "getTaskQueueKey ?b = getTaskQueueKey n"
    by (simp_all add: worker_begin_def set_worker_def getTaskQueueKey_def)
  define r0 where "r0 = initial_result ?b (wk_ID (nd_workers ?b ! w)) (ex_start X) t"
  obtain err res n1 where ex: "executeTask E X t r0 ?b = (err, res, n1)" by (metis surj_pair)
  have err: "err = e" using executeTask_error [OF ex] e by simp
  have sh: "same_shape ?b n1" using executeTask_shape [OF ex] .
  note ids = executeTask_ids [OF ex]
  show ?thesis
  proof (cases e)
    case None
    have n'_eq: "n' = set_worker w (\<lambda>k. k\<lparr>wk_Status := ''idle'', wk_Current := None\<rparr>)
      (send_result (res\<lparr>tr_Status := ''success'', tr_EndTime := ex_end X, tr_Duration := ex_end X - tr_StartTime res\<rparr>)
        (n1\<lparr>nd_TasksProcessed := nd_TasksProcessed n1 + 1\<rparr>))"
      using None by (simp add: n' processTask_def worker_finish_def r0_def [symmetric] ex err)
    show ?thesis unfolding n'_eq using sh w room b ids None
      by (simp add: set_worker_def send_result_def same_shape_def r0_def initial_result_def)
  next
    case (Some msg)
    let ?f = "n1\<lparr>nd_TasksFailed := nd_TasksFailed n1 + 1\<rparr>"
    let ?g = "if CanRetry (ex_end X) t then requeueTask E (IncrementRetry t) ?f else ?f"
    have n1: "n1 = ?b" using executeTask_failed [of E X t r0 ?b msg res n1] ex err Some by simp
    have n'_eq: "n' = set_worker w (\<lambda>k. k\<lparr>wk_Status := ''idle'', wk_Current := None\<rparr>)
      (send_result (res\<lparr>tr_Status := ''failed'', tr_Error := msg, tr_EndTime := ex_end X,
        tr_Duration := ex_end X - tr_StartTime res\<rparr>) ?g)"
      using Some by (simp add: n' processTask_def worker_finish_def r0_def [symmetric] ex err)
    have g: "nd_resultQueue ?g = nd_resultQueue n" "nd_workers ?g = nd_workers ?b" "nd_TasksProcessed ?g = nd_TasksProcessed n"
      "nd_TasksFailed ?g = nd_TasksFailed n + 1"
      using b n1 requeueTask_shape [of ?f E "IncrementRetry t"] by (auto simp: same_shape_def)
    have key: "getTaskQueueKey ?f = getTaskQueueKey n" using n1 b(6) by (simp add: getTaskQueueKey_def)
    obtain ok r1 where push: "rd_LPush (ne_redis E) (getTaskQueueKey n) d (nd_redis n) = (ok, r1)" by fastforce
    have ok using up push by (metis fst_conv redis_answers_def)
    then have "lst r1 = (lst (nd_redis n))(getTaskQueueKey n := d # lst (nd_redis n) (getTaskQueueKey n))"
      using redis_listsD(4) [OF lists push] by simp
    moreover have "nd_redis (requeueTask E (IncrementRetry t) ?f) = r1"
      unfolding requeueTask_def m key using push n1 b(5) by simp
    ultimately have redis: "lst (nd_redis ?g) = (if CanRetry (ex_end X) t
        then (lst (nd_redis n))(getTaskQueueKey n := d # lst (nd_redis n) (getTaskQueueKey n)) else lst (nd_redis n))"
      using n1 b(5) by simp
    have s: "nd_redis (send_result r m) = nd_redis m" "nd_workers (send_result r m) = nd_workers m"
      "nd_TasksProcessed (send_result r m) = nd_TasksProcessed m" "nd_TasksFailed (send_result r m) = nd_TasksFailed m"
      "length (nd_resultQueue m) < resultCap \<Longrightarrow> nd_resultQueue (send_result r m) = nd_resultQueue m @ [r]" for r m
      by (simp_all add: send_result_def)
    have sw: "nd_redis (set_worker w f m) = nd_redis m" "nd_resultQueue (set_worker w f m) = nd_resultQueue m"
      "nd_TasksProcessed (set_worker w f m) = nd_TasksProcessed m" "nd_TasksFailed (set_worker w f m) = nd_TasksFailed m"
      for f and m :: "'r node" by (simp_all add: set_worker_def)
    show ?thesis unfolding n'_eq sw s set_worker_twice [OF w [folded b(4)]] redis
      using Some g s(5) [of ?g] room ids b(4) w
      by (simp add: set_worker_twice s r0_def initial_result_def del: if_split)
  qed
qed

definition failing :: execution where
  "failing = \<lparr>ex_answer = Executed (Inl ''boom''), ex_start = 1, ex_end = 5, ex_nanos = (\<lambda>_. 0)\<rparr>"

theorem processTask_spec_witness:
  "nd_TasksFailed (processTask idle_env failing 0 (zero_task\<lparr>t_ID := ''t'', t_MaxRetries := 1\<rparr>)
      ((NewNode test_config mem_empty)\<lparr>nd_workers := [\<lparr>wk_ID = ''w'', wk_Status = ''idle'', wk_Current = None\<rparr>]\<rparr>)) = 1 \<and>
   ms_lists (nd_redis (processTask idle_env failing 0 (zero_task\<lparr>t_ID := ''t'', t_MaxRetries := 1\<rparr>)
      ((NewNode test_config mem_empty)\<lparr>nd_workers := [\<lparr>wk_ID = ''w'', wk_Status = ''idle'', wk_Current = None\<rparr>]\<rparr>)))
     ''crawler:queue:tasks:n1'' = [''t'']"
proof -
  let ?n = "(NewNode test_config mem_empty)\<lparr>nd_workers := [\<lparr>wk_ID = ''w'', wk_Status = ''idle'', wk_Current = None\<rparr>]\<rparr>"
  let ?t = "zero_task\<lparr>t_ID := ''t'', t_MaxRetries := 1\<rparr>"
  have lists: "redis_lists (ne_redis idle_env) ms_lists" "redis_answers (ne_redis idle_env) ms_lists"
    by (simp_all add: idle_env_def mem_redis_lists mem_redis_answers)
  have w: "0 < length (nd_workers ?n)" and room: "length (nd_resultQueue ?n) < resultCap"
    by (simp_all add: NewNode_def resultCap_def)
  have m: "ne_marshal idle_env (IncrementRetry ?t) = Some ''t''" by (simp add: idle_env_def IncrementRetry_def)
  have e: "Some ''boom'' = execution_error failing" by (simp add: failing_def execution_error_def)
  have c: "CanRetry (ex_end failing) ?t" by (simp add: CanRetry_def IsExpired_def zero_task_def)
  have key: "getTaskQueueKey ?n = ''crawler:queue:tasks:n1''" by (simp add: getTaskQueueKey_def NewNode_def test_config_def)
  from processTask_spec [OF lists w room m refl e] show ?thesis
    using c unfolding key by (simp add: NewNode_def mem_empty_def)
qed

end
