(* ===== verification/NodeClient.thy ===== *)
theory NodeClient
  imports Node Coordinator
begin

text \<open>
  The node's side of the hub connection (src/crawler/distributed/client.go): the decoding of a task
  assignment, commands, acknowledgements, disconnection and reconnection.  The stream is a list of
  the messages sent; \<open>dial\<close> and \<open>send\<close> are the transport's answers.
\<close>

section \<open>Decoding an assignment\<close>

definition selector_name :: "selector_type \<Rightarrow> string" where
  "selector_name st = (case st of SELECTOR_CSS \<Rightarrow> ''css'' | SELECTOR_XPATH \<Rightarrow> ''xpath''
     | SELECTOR_JSONPATH \<Rightarrow> ''json'' | SELECTOR_REGEX \<Rightarrow> ''regex'')"

definition from_pb_rule :: "pb_extract_rule \<Rightarrow> extract_rule" where
  "from_pb_rule r = ExtractRule (pe_Field r) (pe_Selector r) (selector_name (pe_Type r)) (pe_Attribute r)
     (pe_Multiple r) False (GStr (pe_DefaultValue r)) [] []"

definition from_pb_storage :: "pb_storage \<Rightarrow> storage_conf" where
  "from_pb_storage s = \<lparr>sc_Type = pst_Type s, sc_Database = pst_Database s, sc_Collection = pst_Collection s,
     sc_Table = pst_Table s, sc_Bucket = pst_Bucket s, sc_Path = pst_Path s, sc_Format = pst_Format s,
     sc_Options = Some (map_option GStr \<circ> pst_Options s)\<rparr>"

text \<open>The value of a metadata key that is present and not empty.\<close>

definition meta :: "(string \<rightharpoonup> string) \<Rightarrow> string \<Rightarrow> string option" where
  "meta m key = (case m key of Some v \<Rightarrow> if v \<noteq> [] then Some v else None | None \<Rightarrow> None)"

definition batch_fields :: "(string \<rightharpoonup> string) \<Rightarrow> task \<Rightarrow> task" where
  "batch_fields m t =
     (let t1 = (case meta m ''batch_id'' of Some v \<Rightarrow> t\<lparr>t_BatchID := v\<rparr> | None \<Rightarrow> t);
          t2 = (case Option.bind (meta m ''batch_size'') Atoi of Some i \<Rightarrow> t1\<lparr>t_BatchSize := i\<rparr> | None \<Rightarrow> t1);
          t3 = (case Option.bind (meta m ''batch_index'') Atoi of Some i \<Rightarrow> t2\<lparr>t_BatchIndex := i\<rparr> | None \<Rightarrow> t2);
          t4 = (case meta m ''batch_type'' of Some v \<Rightarrow> t3\<lparr>t_BatchType := v\<rparr> | None \<Rightarrow> t3)
      in case meta m ''source'' of Some v \<Rightarrow> t4\<lparr>t_Source := v\<rparr> | None \<Rightarrow> t4)"

definition from_assignment :: "task_assignment \<Rightarrow> task" where
  "from_assignment a =
     (let t0 = zero_task\<lparr>t_ID := as_TaskId a, t_ParentID := as_ParentId a, t_URL := as_Url a,
            t_Type := as_TaskType a, t_Priority := as_Priority a, t_Method := as_Method a, t_Headers := as_Headers a,
            t_Body := as_Body a, t_Cookies := as_Cookies a, t_ProjectID := as_ProjectId a,
            t_LuaScript := as_LuaScript a, t_Metadata := Some Map.empty\<rparr>;
          t1 = (if t_Type t0 = [] then t0\<lparr>t_Type := ''detail''\<rparr> else t0);
          t2 = (if length (as_ExtractRules a) > 0 then t1\<lparr>t_ExtractRules := map from_pb_rule (as_ExtractRules a)\<rparr> else t1);
          t3 = (if as_TimeoutSeconds a > 0 then t2\<lparr>t_Timeout := as_TimeoutSeconds a * second\<rparr> else t2);
          t4 = (if as_MaxRetries a > 0 then t3\<lparr>t_MaxRetries := as_MaxRetries a\<rparr> else t3);
          t5 = (if t_Method t4 = [] then t4\<lparr>t_Method := ''GET''\<rparr> else t4);
          t6 = (case as_Storage a of None \<Rightarrow> t5 | Some s \<Rightarrow> t5\<lparr>t_StorageConf := from_pb_storage s\<rparr>)
      in batch_fields (as_Metadata a) t6)"

section \<open>The client\<close>

datatype node_message =
    RegisterMsg string int
  | HeartbeatMsg string nat nat
  | TaskStatusMsg string string string string
  | MetricsMsg string nat nat int int

text \<open>The status field of \<open>TaskStatusMsg\<close> is its third: the task, the node, the status, the error.\<close>

record client =
  cl_nodeID :: string
  cl_connected :: bool
  cl_stopClosed :: bool
  cl_cancelled :: bool
  cl_sent :: "node_message list"
  cl_messagesSent :: nat
  cl_reconnecting :: nat

definition NewNodeClient :: "string \<Rightarrow> client" where
  "NewNodeClient nodeID = \<lparr>cl_nodeID = nodeID, cl_connected = False, cl_stopClosed = False, cl_cancelled = False,
     cl_sent = [], cl_messagesSent = 0, cl_reconnecting = 0\<rparr>"

text \<open>\<open>send\<close>: the stream takes the message.\<close>

definition stream_send :: "bool \<Rightarrow> node_message \<Rightarrow> client \<Rightarrow> client" where
  "stream_send ok msg c = (if ok then c\<lparr>cl_sent := cl_sent c @ [msg]\<rparr> else c)"

text \<open>\<open>dial\<close>: the connection and the stream are set up.\<close>

definition client_Connect :: "bool \<Rightarrow> bool \<Rightarrow> 'r node \<Rightarrow> client \<Rightarrow> bool \<times> client" where
  "client_Connect dial send n c =
     (if \<not> dial then (False, c)
      else if \<not> send then (False, c)
      else (True, (stream_send True (RegisterMsg (cl_nodeID c) (nd_MaxWorkers n)) c)\<lparr>cl_connected := True\<rparr>))"

text \<open>\<open>None\<close>: the stop channel is closed twice.\<close>

definition client_Disconnect :: "client \<Rightarrow> client option" where
  "client_Disconnect c =
     (if cl_stopClosed c then None
      else Some (c\<lparr>cl_connected := False, cl_cancelled := True, cl_stopClosed := True\<rparr>))"

definition sendTaskAck :: "bool \<Rightarrow> string \<Rightarrow> bool \<Rightarrow> string \<Rightarrow> client \<Rightarrow> client" where
  "sendTaskAck ok taskID success errorMsg c =
     stream_send ok (TaskStatusMsg taskID (cl_nodeID c) ''PENDING'' errorMsg) c"

definition handleTaskAssignment :: "bool \<Rightarrow> task_assignment \<Rightarrow> 'r node \<Rightarrow> client \<Rightarrow> 'r node \<times> client" where
  "handleTaskAssignment ok a n c =
     (let t = from_assignment a in
      if length (nd_taskQueue n) < nd_queueCap n
      then (n\<lparr>nd_taskQueue := nd_taskQueue n @ [t]\<rparr>, sendTaskAck ok (as_TaskId a) True [] c)
      else (n, sendTaskAck ok (as_TaskId a) False ''Task queue full'' c))"

datatype command = CMD_PAUSE | CMD_RESUME | CMD_STOP | CMD_OTHER

text \<open>The node after the command and what is answered: success, and the error text.\<close>

definition handleCommand :: "command \<Rightarrow> 'r node \<Rightarrow> 'r node \<times> bool \<times> string" where
  "handleCommand cmd n =
     (case cmd of
        CMD_PAUSE \<Rightarrow> (node_Pause n, True, [])
      | CMD_RESUME \<Rightarrow> (node_Resume n, True, [])
      | CMD_STOP \<Rightarrow> (n, False, ''Stop not implemented'')
      | CMD_OTHER \<Rightarrow> (n, False, ''Unknown command type''))"

definition SendTaskResult :: "bool \<Rightarrow> string \<Rightarrow> bool \<Rightarrow> string \<Rightarrow> string \<Rightarrow> client \<Rightarrow> bool \<times> client" where
  "SendTaskResult ok taskID success data errorMsg c =
     (if ok then (True, (stream_send True (TaskStatusMsg taskID (cl_nodeID c) ''SUCCESS'' errorMsg) c)
                          \<lparr>cl_messagesSent := cl_messagesSent c + 1\<rparr>)
      else (False, c))"

definition SendMetrics :: "bool \<Rightarrow> 'r node \<Rightarrow> client \<Rightarrow> bool \<times> client" where
  "SendMetrics ok n c =
     (if ok then (True, (stream_send True (MetricsMsg (cl_nodeID c) (nd_TasksProcessed n) (nd_TasksFailed n)
                            (nd_BytesDownloaded n) (nd_ItemsExtracted n)) c)\<lparr>cl_messagesSent := cl_messagesSent c + 1\<rparr>)
      else (False, c))"

text \<open>The node and the client after the stream broke; a reconnecting goroutine is started.\<close>

definition handleDisconnect :: "gotime \<Rightarrow> 'r node \<Rightarrow> client \<Rightarrow> 'r node \<times> client" where
  "handleDisconnect now n c =
     (let c1 = c\<lparr>cl_connected := False\<rparr> in
      if cl_connected c then (fst (updateStatus now NodeStatusDisconnected n), c1\<lparr>cl_reconnecting := cl_reconnecting c + 1\<rparr>)
      else (n, c1))"

definition client_heartbeat :: "bool \<Rightarrow> gotime \<Rightarrow> 'r node \<Rightarrow> client \<Rightarrow> 'r node \<times> client" where
  "client_heartbeat ok now n c =
     (if \<not> cl_connected c then (n, c)
      else if ok then (n, stream_send True (HeartbeatMsg (cl_nodeID c) (getActiveWorkerCount n) (length (nd_taskQueue n))) c)
      else handleDisconnect now n c)"

text \<open>
  The reconnecting goroutine against a transport that refuses the attempts of \<open>fails\<close> and accepts the
  next one: the waits, the node and the client.  It ends without connecting when the stop channel
  is closed, which \<open>stop\<close> says for each round.
\<close>

definition maxBackoff :: duration where "maxBackoff = minute"

fun reconnect :: "gotime \<Rightarrow> (nat \<Rightarrow> bool) \<Rightarrow> nat \<Rightarrow> nat \<Rightarrow> duration \<Rightarrow> 'r node \<Rightarrow> client \<Rightarrow>
    duration list \<times> 'r node \<times> client" where
  "reconnect now stop i 0 backoff n c =
     (if stop i then ([], n, c\<lparr>cl_reconnecting := cl_reconnecting c - 1\<rparr>)
      else let c1 = snd (client_Connect True True n c)
        in ([], fst (updateStatus now NodeStatusActive n), c1\<lparr>cl_reconnecting := cl_reconnecting c1 - 1\<rparr>))"
| "reconnect now stop i (Suc fails) backoff n c =
     (if stop i then ([], n, c\<lparr>cl_reconnecting := cl_reconnecting c - 1\<rparr>)
      else let (ws, n1, c1) = reconnect now stop (Suc i) fails (min (backoff * 2) maxBackoff) n c in (backoff # ws, n1, c1))"

section \<open>What survives the transfer\<close>

definition reserved_keys :: "string set" where
  "reserved_keys = {''batch_id'', ''batch_size'', ''batch_index'', ''batch_type'', ''source''}"

lemma to_int32_id: "- (2 ^ 31) \<le> i \<Longrightarrow> i < 2 ^ 31 \<Longrightarrow> to_int32 i = i"
  by (simp add: to_int32_def int_word_sint)

lemma metadata_keys:
  assumes "\<forall>k \<in> reserved_keys. string_values (t_Metadata t) k = None"
  shows "meta (assignment_metadata t) ''batch_id'' = (if t_BatchID t = [] then None else Some (t_BatchID t))"
    and "meta (assignment_metadata t) ''batch_size'' = (if t_BatchID t = [] then None else Some (dec_of_int (t_BatchSize t)))"
    and "meta (assignment_metadata t) ''batch_index'' = (if t_BatchID t = [] then None else Some (dec_of_int (t_BatchIndex t)))"
    and "meta (assignment_metadata t) ''batch_type'' = (if t_BatchID t = [] \<or> t_BatchType t = [] then None else Some (t_BatchType t))"
    and "meta (assignment_metadata t) ''source'' = (if t_Source t = [] then None else Some (t_Source t))"
  using assms dec_of_int_nonempty
  by (simp_all add: meta_def assignment_metadata_def reserved_keys_def Let_def)

text \<open>
  C3: A task sent to a node and decoded there keeps its identity, address, type, priority, method,
  headers, body, cookies, scripts, batch fields, source, retry limit and the rules' selectors, with
  the defaults for an empty type and method.  Everything else is reset: the retry count and the
  lifetime, name, depth, pipeline and metadata are lost, the timeout is 30 seconds, and a rule keeps
  neither its required flag nor its transformations nor its children.
\<close>
theorem assignment_roundtrip:
  assumes "- (2 ^ 31) \<le> t_Priority t" and "t_Priority t < 2 ^ 31" and "0 \<le> t_MaxRetries t" and "t_MaxRetries t < 2 ^ 31"
    and "- (2 ^ 63) \<le> t_BatchSize t" and "t_BatchSize t < 2 ^ 63"
    and "- (2 ^ 63) \<le> t_BatchIndex t" and "t_BatchIndex t < 2 ^ 63"
    and "\<forall>k \<in> reserved_keys. string_values (t_Metadata t) k = None"
  shows "from_assignment (to_assignment fmt t) = zero_task\<lparr>
    t_ID := t_ID t, t_ParentID := t_ParentID t, t_URL := t_URL t,
    t_Type := (if t_Type t = [] then ''detail'' else t_Type t), t_Priority := t_Priority t,
    t_Method := (if t_Method t = [] then ''GET'' else t_Method t), t_Headers := t_Headers t, t_Body := t_Body t,
    t_Cookies := t_Cookies t, t_ProjectID := t_ProjectID t, t_LuaScript := t_LuaScript t,
    t_Metadata := Some Map.empty, t_MaxRetries := t_MaxRetries t, t_Timeout := 30 * second,
    t_ExtractRules := map (\<lambda>r. ExtractRule (er_Field r) (er_Selector r) (selector_name (selector_of (er_Type r)))
      (er_Attribute r) (er_Multiple r) False (GStr (fmt (er_Default r))) [] []) (t_ExtractRules t),
    t_StorageConf := (if sc_Type (t_StorageConf t) = [] then zero_storage_conf
      else (t_StorageConf t)\<lparr>sc_Options := Some (map_option GStr \<circ> string_values (sc_Options (t_StorageConf t)))\<rparr>),
    t_BatchID := t_BatchID t, t_BatchSize := (if t_BatchID t = [] then 0 else t_BatchSize t),
    t_BatchIndex := (if t_BatchID t = [] then 0 else t_BatchIndex t),
    t_BatchType := (if t_BatchID t = [] then [] else t_BatchType t), t_Source := t_Source t\<rparr>"
proof -
  note keys = metadata_keys [OF assms(9)]
  note ints = to_int32_id [OF assms(1,2)] Atoi_dec_of_int [OF assms(5,6)] Atoi_dec_of_int [OF assms(7,8)]
  have retries: "to_int32 (t_MaxRetries t) = t_MaxRetries t" using assms(3,4) by (intro to_int32_id) simp_all
  have rules: "map from_pb_rule (map (to_pb_rule fmt) rs) = map (\<lambda>r. ExtractRule (er_Field r) (er_Selector r)
      (selector_name (selector_of (er_Type r))) (er_Attribute r) (er_Multiple r) False (GStr (fmt (er_Default r))) [] []) rs"
    for rs by (simp add: from_pb_rule_def to_pb_rule_def)
  have storage: "to_pb_storage (t_StorageConf t) = None \<and> sc_Type (t_StorageConf t) = [] \<or>
      (\<exists>s. to_pb_storage (t_StorageConf t) = Some s \<and> sc_Type (t_StorageConf t) \<noteq> [] \<and> from_pb_storage s =
        (t_StorageConf t)\<lparr>sc_Options := Some (map_option GStr \<circ> string_values (sc_Options (t_StorageConf t)))\<rparr>)"
    by (simp add: to_pb_storage_def from_pb_storage_def)
  have upds: "(if b then u\<lparr>t_Type := ty\<rparr> else u) = u\<lparr>t_Type := if b then ty else t_Type u\<rparr>"
    "(if b then u\<lparr>t_ExtractRules := rs\<rparr> else u) = u\<lparr>t_ExtractRules := if b then rs else t_ExtractRules u\<rparr>"
    "(if b then u\<lparr>t_MaxRetries := i\<rparr> else u) = u\<lparr>t_MaxRetries := if b then i else t_MaxRetries u\<rparr>"
    "(if b then u\<lparr>t_Method := ty\<rparr> else u) = u\<lparr>t_Method := if b then ty else t_Method u\<rparr>"
    for b ty rs i and u :: task by simp_all
  have zero: "t_Type zero_task = []" "t_ExtractRules zero_task = []" "t_MaxRetries zero_task = 0" "t_Method zero_task = []"
    "t_StorageConf zero_task = zero_storage_conf" "t_BatchID zero_task = []" "t_BatchSize zero_task = 0"
    "t_BatchIndex zero_task = 0" "t_BatchType zero_task = []" "t_Source zero_task = []"
    by (simp_all add: zero_task_def)
  have batch: "batch_fields (assignment_metadata t) u = u\<lparr>
      t_BatchID := (if t_BatchID t = [] then t_BatchID u else t_BatchID t),
      t_BatchSize := (if t_BatchID t = [] then t_BatchSize u else t_BatchSize t),
      t_BatchIndex := (if t_BatchID t = [] then t_BatchIndex u else t_BatchIndex t),
      t_BatchType := (if t_BatchID t = [] \<or> t_BatchType t = [] then t_BatchType u else t_BatchType t),
      t_Source := (if t_Source t = [] then t_Source u else t_Source t)\<rparr>" for u
    by (simp add: batch_fields_def keys ints Let_def)
  have conf: "(case to_pb_storage (t_StorageConf t) of None \<Rightarrow> u | Some s \<Rightarrow> u\<lparr>t_StorageConf := from_pb_storage s\<rparr>) =
      u\<lparr>t_StorageConf := if sc_Type (t_StorageConf t) = [] then t_StorageConf u
        else (t_StorageConf t)\<lparr>sc_Options := Some (map_option GStr \<circ> string_values (sc_Options (t_StorageConf t)))\<rparr>\<rparr>" for u :: task
    using storage by auto
  have sel: "as_Storage (to_assignment fmt t) = to_pb_storage (t_StorageConf t)"
    "as_Metadata (to_assignment fmt t) = assignment_metadata t" "as_TimeoutSeconds (to_assignment fmt t) = 30"
    "as_MaxRetries (to_assignment fmt t) = t_MaxRetries t" "as_Priority (to_assignment fmt t) = t_Priority t"
    "as_ExtractRules (to_assignment fmt t) = map (to_pb_rule fmt) (t_ExtractRules t)"
    "as_TaskId (to_assignment fmt t) = t_ID t" "as_ParentId (to_assignment fmt t) = t_ParentID t"
    "as_Url (to_assignment fmt t) = t_URL t" "as_TaskType (to_assignment fmt t) = t_Type t"
    "as_Method (to_assignment fmt t) = (if t_Method t = [] then ''GET'' else t_Method t)"
    "as_Headers (to_assignment fmt t) = t_Headers t" "as_Body (to_assignment fmt t) = t_Body t"
    "as_Cookies (to_assignment fmt t) = t_Cookies t" "as_ProjectId (to_assignment fmt t) = t_ProjectID t"
    "as_LuaScript (to_assignment fmt t) = t_LuaScript t"
    using retries ints(1) by (simp_all add: to_assignment_def)
  show ?thesis
    unfolding from_assignment_def Let_def sel conf batch upds rules
    using assms(3) by (simp add: zero cong: if_cong)
qed

theorem assignment_roundtrip_witness:
  "t_BatchSize (from_assignment (to_assignment (\<lambda>_. []) (zero_task\<lparr>t_ID := ''t'', t_BatchID := ''b'', t_BatchSize := 12,
      t_RetryCount := 2, t_MaxRetries := 3\<rparr>))) = 12 \<and>
   t_RetryCount (from_assignment (to_assignment (\<lambda>_. []) (zero_task\<lparr>t_ID := ''t'', t_BatchID := ''b'', t_BatchSize := 12,
      t_RetryCount := 2, t_MaxRetries := 3\<rparr>))) = 0"
  by (subst (1 2) assignment_roundtrip) (simp_all add: zero_task_def string_values_def)

section \<open>Rejected assignments\<close>

text \<open>
  A node whose queue is full drops an assigned task for good.  Its acknowledgement carries the
  same status as an acceptance; the coordinator has already taken the task off its queue and only
  keeps it as pending, where no timeout finds it because a task that was never started has no start
  time.
\<close>
theorem rejected_assignment_lost:
  assumes "assignTaskToNode W sent t nodeID c = (True, c1)" and "t_StartedAt t = None"
    and "nd_queueCap n \<le> length (nd_taskQueue n)"
    and h: "(n1, cl1) = handleTaskAssignment True (to_assignment (ow_format W) t) n cl"
  shows "n1 = n \<and> cl_sent cl1 = cl_sent cl @ [TaskStatusMsg (t_ID t) (cl_nodeID cl) ''PENDING'' ''Task queue full''] \<and>
    co_pending c1 (t_ID t) = Some t \<and> checkTaskTimeouts W now [t_ID t] c1 = c1"
proof -
  have "co_pending c1 (t_ID t) = Some t"
    using assms(1) by (auto simp: assignTaskToNode_def split: if_splits)
  then show ?thesis using assms(2,3) h
    by (simp add: handleTaskAssignment_def Let_def sendTaskAck_def stream_send_def checkTaskTimeouts_def to_assignment_def)
qed

section \<open>Reconnection\<close>

lemma reconnect_waits:
  assumes "\<forall>i. \<not> stop i" and "0 < b"
  shows "fst (reconnect now stop i fails b n c) = map (\<lambda>k. if k = 0 then b else min (2 ^ k * b) maxBackoff) [0..<fails] \<and>
    nd_Status (fst (snd (reconnect now stop i fails b n c))) = NodeStatusActive \<and>
    cl_connected (snd (snd (reconnect now stop i fails b n c))) \<and>
    cl_reconnecting (snd (snd (reconnect now stop i fails b n c))) = cl_reconnecting c - 1"
  using assms(2)
proof (induction fails arbitrary: i b)
  case 0
  then show ?case using assms(1) by (simp add: updateStatus_def client_Connect_def stream_send_def Let_def)
next
  case (Suc fails)
  let ?b = "min (b * 2) maxBackoff"
  have pos: "0 < ?b" using Suc.prems by (simp add: maxBackoff_def)
  have shift: "(if k = 0 then ?b else min (2 ^ k * ?b) maxBackoff) = min (2 ^ Suc k * b) maxBackoff" for k
  proof (cases "b * 2 \<le> maxBackoff")
    case False
    have one: "x \<le> 2 ^ k * x" if "0 \<le> x" for x :: int using that by (simp add: mult_le_cancel_right1)
    have "min (2 ^ k * maxBackoff) maxBackoff = maxBackoff"
      using one [of maxBackoff] by (simp add: maxBackoff_def)
    moreover have "min (2 ^ Suc k * b) maxBackoff = maxBackoff"
    proof (rule min_absorb2)
      have "b * 2 \<le> 2 ^ k * (b * 2)" by (rule one) (use Suc.prems in simp)
      moreover have "2 ^ Suc k * b = 2 ^ k * (b * 2)" by simp
      ultimately show "maxBackoff \<le> 2 ^ Suc k * b" using False by linarith
    qed
    ultimately show ?thesis using False by simp

  qed (simp add: min_def mult_ac)
  have "map (\<lambda>k. if k = 0 then b else min (2 ^ k * b) maxBackoff) [0..<Suc fails] =
      b # map (\<lambda>k. min (2 ^ Suc k * b) maxBackoff) [0..<fails]"
    by (simp add: upt_conv_Cons map_Suc_upt [symmetric] del: upt_Suc)
  then show ?case
    using Suc.IH [OF pos, of "Suc i"] assms(1) by (simp add: split_def Let_def shift del: upt_Suc)
qed

text \<open>
  Reconnecting waits one second, then twice as long each time up to a minute, and returns with
  the first attempt the hub accepts; the node is then active, also when it had been paused before
  the connection broke.
\<close>
theorem reconnect_spec:
  assumes "\<forall>i. \<not> stop i" and "cl_connected c" and "nd_Status n = NodeStatusPaused"
    and "(n1, c1) = handleDisconnect now n c" and "(ws, n2, c2) = reconnect now stop 0 fails second n1 c1"
  shows "ws = map (\<lambda>k. min (2 ^ k * second) minute) [0..<fails] \<and> nd_Status n1 = NodeStatusDisconnected \<and>
    cl_connected c2 \<and> nd_Status n2 = NodeStatusActive \<and> cl_reconnecting c2 = cl_reconnecting c"
proof -
  have n1: "n1 = fst (updateStatus now NodeStatusDisconnected n)"
    and c1: "c1 = c\<lparr>cl_connected := False, cl_reconnecting := cl_reconnecting c + 1\<rparr>"
    using assms(2,4) by (simp_all add: handleDisconnect_def Let_def)
  have w: "(if k = 0 then second else min (2 ^ k * second) maxBackoff) = min (2 ^ k * second) minute" for k :: nat
    by (simp add: maxBackoff_def)
  have "0 < second" by simp
  from reconnect_waits [OF assms(1) this, where now = now and i = 0 and fails = fails and n = n1 and c = c1]
  have "ws = map (\<lambda>k. min (2 ^ k * second) minute) [0..<fails] \<and> nd_Status n2 = NodeStatusActive \<and> cl_connected c2 \<and>
      cl_reconnecting c2 = cl_reconnecting c1 - 1"
    unfolding w assms(5) [symmetric] by simp
  then show ?thesis by (simp add: n1 c1 updateStatus_def Let_def)
qed

definition sample_client :: client where
  "sample_client = (NewNodeClient ''n1'')\<lparr>cl_connected := True\<rparr>"

theorem reconnect_spec_witness:
  "fst (reconnect 9 (\<lambda>_. False) 0 7 second
     (fst (handleDisconnect 9 ((NewNode test_config mem_empty)\<lparr>nd_Status := NodeStatusPaused\<rparr>) sample_client))
     (snd (handleDisconnect 9 ((NewNode test_config mem_empty)\<lparr>nd_Status := NodeStatusPaused\<rparr>) sample_client))) =
   map (\<lambda>s. s * second) [1, 2, 4, 8, 16, 32, 60]"
proof -
  let ?n = "(NewNode test_config mem_empty)\<lparr>nd_Status := NodeStatusPaused\<rparr>"
  define n1 where "n1 = fst (handleDisconnect 9 ?n sample_client)"
  define c1 where "c1 = snd (handleDisconnect 9 ?n sample_client)"
  obtain ws n2 c2 where run: "(ws, n2, c2) = reconnect 9 (\<lambda>_. False) 0 7 second n1 c1" by (metis surj_pair)
  have "ws = map (\<lambda>k. min (2 ^ k * second) minute) [0..<7] \<and> nd_Status n1 = NodeStatusDisconnected \<and>
      cl_connected c2 \<and> nd_Status n2 = NodeStatusActive \<and> cl_reconnecting c2 = cl_reconnecting sample_client"
    by (rule reconnect_spec [where n = "?n", OF _ _ _ _ run]) (simp_all add: n1_def c1_def sample_client_def)
  moreover have "map (\<lambda>k. min (2 ^ k * second) minute) [0..<7] = map (\<lambda>s. s * second) [1, 2, 4, 8, 16, 32, 60]"
    by (simp add: upt_rec)
  ultimately show ?thesis unfolding n1_def [symmetric] c1_def [symmetric] run [symmetric] by simp
qed

theorem rejected_assignment_lost_witness:
  "let t = zero_task\<lparr>t_ID := ''t9''\<rparr>; n = NewNode (test_config\<lparr>nc_QueueSize := 0\<rparr>) mem_empty;
       c1 = snd (assignTaskToNode sample_outside (\<lambda>_. True) t ''n1'' sample_coord);
       n1 = fst (handleTaskAssignment True (to_assignment (ow_format sample_outside) t) n sample_client)
   in n1 = n \<and> co_pending c1 ''t9'' = Some t \<and> checkTaskTimeouts sample_outside 1000000 [''t9''] c1 = c1"
proof -
  let ?t = "zero_task\<lparr>t_ID := ''t9''\<rparr>" and ?n = "NewNode (test_config\<lparr>nc_QueueSize := 0\<rparr>) mem_empty"
  let ?c1 = "snd (assignTaskToNode sample_outside (\<lambda>_. True) ?t ''n1'' sample_coord)"
  obtain n1 cl1 where h: "(n1, cl1) = handleTaskAssignment True (to_assignment (ow_format sample_outside) ?t) ?n sample_client"
    by (metis surj_pair)
  have a: "assignTaskToNode sample_outside (\<lambda>_. True) ?t ''n1'' sample_coord = (True, ?c1)"
    by (simp add: assignTaskToNode_def)
  have "n1 = ?n \<and> cl_sent cl1 = cl_sent sample_client @ [TaskStatusMsg (t_ID ?t) (cl_nodeID sample_client) ''PENDING'' ''Task queue full''] \<and>
    co_pending ?c1 (t_ID ?t) = Some ?t \<and> checkTaskTimeouts sample_outside 1000000 [t_ID ?t] ?c1 = ?c1"
    by (rule rejected_assignment_lost [OF a _ _ h]) (simp_all add: zero_task_def NewNode_def test_config_def)
  then show ?thesis by (simp add: Let_def h [symmetric])
qed

end
