(* ===== verification/Executor.thy ===== *)
theory Executor
  imports Node AppErrors
begin

text \<open>
  Task execution on a node (src/crawler/executor/executor.go), the fetcher's request
  (src/crawler/fetcher/http.go) and the pipelines and storage lookup of the factory
  (src/crawler/factory/factory.go).  The HTTP client, the Lua engine, the extractors and the
  storage back ends are arguments that answer once per call.
\<close>

section \<open>Requests\<close>

record http_request =
  hr_Method :: string
  hr_URL :: string
  hr_Headers :: "string \<rightharpoonup> string"
  hr_Cookies :: "string \<rightharpoonup> string"
  hr_Body :: "8 word list option"

text \<open>
  \<open>ks\<close> enumerates the headers.  Header names are compared as the caller spelled them; the resty
  client's canonical spelling is outside.
\<close>

definition content_type :: "string list \<Rightarrow> (string \<rightharpoonup> string) \<Rightarrow> string" where
  "content_type ks h = (case find (\<lambda>k. ToLower k = ''content-type'') ks of
     None \<Rightarrow> [] | Some k \<Rightarrow> (case h k of Some v \<Rightarrow> v | None \<Rightarrow> []))"

definition http_method :: "string \<Rightarrow> string" where
  "http_method m = (if m = [] then ''GET''
     else if m \<in> {''GET'', ''POST'', ''PUT'', ''DELETE'', ''HEAD'', ''PATCH''} then m else ''GET'')"

definition build_request :: "string list \<Rightarrow> task \<Rightarrow> http_request" where
  "build_request ks t =
     (let hs = (case t_Headers t of None \<Rightarrow> Map.empty | Some h \<Rightarrow> h);
          h1 = (if hs ''User-Agent'' = None
                then hs(''User-Agent'' \<mapsto> ''Mozilla/5.0 (compatible; Crawler/1.0)'') else hs);
          post = (t_Method t = ''POST'' \<and> length (t_Body t) > 0);
          h2 = (if post \<and> content_type ks hs = [] then h1(''Content-Type'' \<mapsto> ''application/json'') else h1)
      in \<lparr>hr_Method = http_method (t_Method t), hr_URL = t_URL t, hr_Headers = h2,
          hr_Cookies = (case t_Cookies t of None \<Rightarrow> Map.empty | Some c \<Rightarrow> c),
          hr_Body = (if post then Some (t_Body t) else None)\<rparr>)"

record page =
  pg_StatusCode :: int
  pg_Body :: "8 word list"
  pg_URL :: string
  pg_Duration :: int
  pg_Size :: int

record http_answer =
  wr_StatusCode :: int
  wr_Body :: "8 word list"
  wr_URL :: string

definition http_Fetch :: "string list \<Rightarrow> (http_request \<Rightarrow> string + http_answer) \<Rightarrow> gotime \<Rightarrow> gotime \<Rightarrow> task \<Rightarrow> string + page" where
  "http_Fetch ks client start finish t =
     (case client (build_request ks t) of
        Inl e \<Rightarrow> Inl (''request failed: '' @ e)
      | Inr w \<Rightarrow> Inr \<lparr>pg_StatusCode = wr_StatusCode w, pg_Body = wr_Body w, pg_URL = wr_URL w,
          pg_Duration = (finish - start) div 1000000, pg_Size = int (length (wr_Body w))\<rparr>)"

section \<open>Factory\<close>

type_synonym fields = "(string \<times> goval) list"

text \<open>The rules in the order in which the map of rules is visited.\<close>

datatype task_pipeline =
    DefaultPipeline
  | ValidationPipeline "(string \<times> (goval \<Rightarrow> string option)) list"

fun check_fields :: "(string \<times> (goval \<Rightarrow> string option)) list \<Rightarrow> fields \<Rightarrow> string option" where
  "check_fields [] d = None"
| "check_fields ((field, r) # rs) d =
     (case map_of d field of
        None \<Rightarrow> check_fields rs d
      | Some v \<Rightarrow> (case r v of
            Some e \<Rightarrow> Some (''validation failed for field '' @ field @ '': '' @ e)
          | None \<Rightarrow> check_fields rs d))"

definition pipeline_Validate :: "task_pipeline \<Rightarrow> fields \<Rightarrow> string option" where
  "pipeline_Validate p d = (case p of DefaultPipeline \<Rightarrow> None | ValidationPipeline rs \<Rightarrow> check_fields rs d)"

definition trim_value :: "goval \<Rightarrow> goval" where
  "trim_value v = (case v of GStr s \<Rightarrow> GStr (TrimSpace s) | _ \<Rightarrow> v)"

definition pipeline_Process :: "task_pipeline \<Rightarrow> fields \<Rightarrow> string + fields" where
  "pipeline_Process p d =
     (case p of
        DefaultPipeline \<Rightarrow> Inr d
      | ValidationPipeline _ \<Rightarrow>
          (case pipeline_Validate p d of Some e \<Rightarrow> Inl e | None \<Rightarrow> Inr (map (\<lambda>(k, v). (k, trim_value v)) d)))"

text \<open>A storage backend's constructor and its answer to \<open>Save\<close>, as a function of the record saved.\<close>

type_synonym storage_backend = "fields \<Rightarrow> string option"

record factory =
  fc_pipelines :: "string \<rightharpoonup> task_pipeline"
  fc_storages :: "string \<rightharpoonup> (storage_conf \<Rightarrow> string + storage_backend)"

definition RegisterPipeline :: "string \<Rightarrow> task_pipeline \<Rightarrow> factory \<Rightarrow> factory" where
  "RegisterPipeline ident p f = f\<lparr>fc_pipelines := (fc_pipelines f)(ident \<mapsto> p)\<rparr>"

definition RegisterStorage :: "string \<Rightarrow> (storage_conf \<Rightarrow> string + storage_backend) \<Rightarrow> factory \<Rightarrow> factory" where
  "RegisterStorage ty s f = f\<lparr>fc_storages := (fc_storages f)(ty \<mapsto> s)\<rparr>"

text \<open>The four back ends are the argument; a node without MongoDB refuses the first.\<close>

definition NewFactory :: "bool \<Rightarrow> (string \<Rightarrow> storage_conf \<Rightarrow> string + storage_backend) \<Rightarrow> factory" where
  "NewFactory mongodb backend =
     foldr (\<lambda>ty. RegisterStorage ty (backend ty)) [''mysql'', ''redis'', ''file'']
       (RegisterStorage ''mongodb'' (\<lambda>c. if mongodb then backend ''mongodb'' c else Inl ''MongoDB not available'')
         (RegisterPipeline ''validation'' (ValidationPipeline [])
           (RegisterPipeline ''default'' DefaultPipeline \<lparr>fc_pipelines = Map.empty, fc_storages = Map.empty\<rparr>)))"

definition CreatePipeline :: "factory \<Rightarrow> string \<Rightarrow> string + task_pipeline" where
  "CreatePipeline f ident =
     (let i = (if ident = [] then ''default'' else ident) in
      case fc_pipelines f i of None \<Rightarrow> Inl (''pipeline not found: '' @ i) | Some p \<Rightarrow> Inr p)"

definition CreateStorage :: "factory \<Rightarrow> storage_conf \<Rightarrow> string + storage_backend" where
  "CreateStorage f c =
     (case fc_storages f (sc_Type c) of None \<Rightarrow> Inl (''storage type not supported: '' @ sc_Type c) | Some mk \<Rightarrow> mk c)"

section \<open>Execution\<close>

record extractor =
  xt_Type :: string
  xt_Extract :: "page \<Rightarrow> extract_rule list \<Rightarrow> string + fields"
  xt_Links :: "page \<Rightarrow> string + string list"

record executor =
  xe_extractor :: extractor
  xe_factory :: factory

definition SetExtractor :: "extractor \<Rightarrow> executor \<Rightarrow> executor" where
  "SetExtractor x e = e\<lparr>xe_extractor := x\<rparr>"

definition items_count :: "fields \<Rightarrow> int" where
  "items_count d = sum_list (map (\<lambda>(k, v). case v of GList vs \<Rightarrow> int (length vs) | _ \<Rightarrow> 1) d)"

text \<open>What \<open>Execute\<close> returns, and the records the storage took.\<close>

definition failed :: "string \<Rightarrow> int \<Rightarrow> exec_result" where
  "failed e bytes = \<lparr>xr_Status = ''failed'', xr_Message = [], xr_Data = [], xr_Links = [], xr_Error = e,
     xr_BytesFetched = bytes, xr_ItemsExtracted = 0\<rparr>"

definition stored_record :: "task \<Rightarrow> gotime \<Rightarrow> fields \<Rightarrow> fields" where
  "stored_record t now d = [(''task_id'', GStr (t_ID t)), (''parent_id'', GStr (t_ParentID t)), (''url'', GStr (t_URL t)),
     (''timestamp'', GTime now), (''data'', GMap d)]"

definition save_step :: "factory \<Rightarrow> gotime \<Rightarrow> task \<Rightarrow> fields \<Rightarrow> string option \<times> fields list" where
  "save_step f now t d =
     (if sc_Type (t_StorageConf t) = [] then (None, [])
      else case CreateStorage f (t_StorageConf t) of
          Inl _ \<Rightarrow> (None, [])
        | Inr save \<Rightarrow> (case save (stored_record t now d) of
              Some e \<Rightarrow> (Some e, []) | None \<Rightarrow> (None, [stored_record t now d])))"

definition pipeline_step :: "factory \<Rightarrow> task \<Rightarrow> fields \<Rightarrow> string + fields" where
  "pipeline_step f t d =
     (if t_PipelineID t = [] then Inr d
      else case CreatePipeline f (t_PipelineID t) of Inl _ \<Rightarrow> Inr d | Inr p \<Rightarrow> pipeline_Process p d)"

definition extract_step :: "executor \<Rightarrow> page \<Rightarrow> task \<Rightarrow> string + fields" where
  "extract_step e resp t =
     (if length (t_ExtractRules t) > 0 then xt_Extract (xe_extractor e) resp (t_ExtractRules t) else Inr [])"

definition links_step :: "executor \<Rightarrow> page \<Rightarrow> task \<Rightarrow> string list" where
  "links_step e resp t =
     (if t_Type t = ''seed'' \<or> t_Type t = ''list''
      then (case xt_Links (xe_extractor e) resp of Inl _ \<Rightarrow> [] | Inr ls \<Rightarrow> ls) else [])"

text \<open>
  \<open>fetch\<close>, \<open>lua\<close> and the extractor answer for this call.  The error is \<open>Some\<close> when \<open>Execute\<close> returns
  one beside its result.
\<close>

definition Execute :: "(task \<Rightarrow> string + page) \<Rightarrow> (task \<Rightarrow> page \<Rightarrow> string option) \<Rightarrow> gotime \<Rightarrow> executor \<Rightarrow> task \<Rightarrow>
    (exec_result \<times> string option) \<times> fields list" where
  "Execute fetch lua now e t =
     (case fetch t of
        Inl err \<Rightarrow> ((failed (''fetch failed: '' @ err) 0, Some err), [])
      | Inr resp \<Rightarrow>
          let bytes = pg_Size resp in
          if t_ProjectID t \<noteq> [] \<and> t_LuaScript t \<noteq> [] then
            (case lua t resp of
               Some err \<Rightarrow> ((failed (''lua script failed: '' @ err) bytes, Some err), [])
             | None \<Rightarrow> ((\<lparr>xr_Status = ''success'', xr_Message = ''Lua script executed successfully'', xr_Data = [],
                  xr_Links = [], xr_Error = [], xr_BytesFetched = bytes, xr_ItemsExtracted = 0\<rparr>, None), []))
          else
            (case extract_step e resp t of
               Inl err \<Rightarrow> ((failed (''extraction failed: '' @ err) bytes, Some err), [])
             | Inr d \<Rightarrow>
                 let items = (if length (t_ExtractRules t) > 0 then items_count d else 0);
                     links = links_step e resp t
                 in case pipeline_step (xe_factory e) t d of
                      Inl err \<Rightarrow> (((failed (''pipeline failed: '' @ err) bytes)\<lparr>xr_Links := links, xr_ItemsExtracted := items\<rparr>, Some err), [])
                    | Inr d1 \<Rightarrow>
                        (case save_step (xe_factory e) now t d1 of
                           (Some err, saved) \<Rightarrow> (((failed (''storage failed: '' @ err) bytes)\<lparr>xr_Links := links, xr_ItemsExtracted := items\<rparr>, Some err), saved)
                         | (None, saved) \<Rightarrow> ((\<lparr>xr_Status = ''success'', xr_Message = [], xr_Data = d1, xr_Links = links, xr_Error = [],
                             xr_BytesFetched = bytes, xr_ItemsExtracted = items\<rparr>, None), saved))))"

section \<open>What execution guarantees\<close>

text \<open>
  An execution reports a failure exactly when it returns an error.  A success without a script
  carries what the pipeline made of the extracted data, and the storage named by the task took exactly
  that one record, provided the back end could be created.
\<close>
theorem Execute_spec:
  assumes run: "Execute fetch lua now e t = ((res, err), saved)"
  shows "(xr_Status res = ''failed'' \<longleftrightarrow> err \<noteq> None) \<and> (err \<noteq> None \<longrightarrow> saved = [] \<and> xr_Data res = []) \<and>
    (err = None \<and> (t_ProjectID t = [] \<or> t_LuaScript t = []) \<longrightarrow>
      (\<exists>resp d. fetch t = Inr resp \<and> xr_BytesFetched res = pg_Size resp \<and>
        (if t_ExtractRules t = [] then d = [] else xt_Extract (xe_extractor e) resp (t_ExtractRules t) = Inr d) \<and>
        pipeline_step (xe_factory e) t d = Inr (xr_Data res) \<and>
        saved = (if sc_Type (t_StorageConf t) = [] then []
          else case CreateStorage (xe_factory e) (t_StorageConf t) of
              Inl _ \<Rightarrow> [] | Inr _ \<Rightarrow> [stored_record t now (xr_Data res)])))"
proof (cases "fetch t")
  case (Inl e1)
  then show ?thesis using run by (auto simp: Execute_def failed_def)
next
  case (Inr resp)
  show ?thesis
  proof (cases "t_ProjectID t \<noteq> [] \<and> t_LuaScript t \<noteq> []")
    case True
    show ?thesis
    proof (cases "lua t resp")
      case (Some l)
      then have "res = failed (''lua script failed: '' @ l) (pg_Size resp) \<and> err = Some l \<and> saved = []"
        using run Inr True by (simp add: Execute_def Let_def)
      then show ?thesis by (simp add: failed_def)
    qed (use run Inr True in \<open>auto simp: Execute_def Let_def\<close>)
  next
    case False
    show ?thesis
    proof (cases "extract_step e resp t")
      case (Inl e1)
      have "res = failed (''extraction failed: '' @ e1) (pg_Size resp) \<and> err = Some e1 \<and> saved = []"
        using run Inr False Inl by (simp add: Execute_def Let_def)
      then show ?thesis by (simp add: failed_def)
    next
      case d: (Inr d)
      have d': "if t_ExtractRules t = [] then d = [] else xt_Extract (xe_extractor e) resp (t_ExtractRules t) = Inr d"
        using d by (simp add: extract_step_def split: if_splits)
      show ?thesis
      proof (cases "pipeline_step (xe_factory e) t d")
        case (Inl e1)
        have "xr_Status res = ''failed'' \<and> xr_Data res = [] \<and> err = Some e1 \<and> saved = []"
          using run Inr False Inl d by (auto simp: Execute_def Let_def failed_def)
        then show ?thesis by simp
      next
        case d1: (Inr d1)
        obtain er sv where save: "save_step (xe_factory e) now t d1 = (er, sv)" by fastforce
        have sv: "er \<noteq> None \<Longrightarrow> sv = []"
          "er = None \<Longrightarrow> sv = (if sc_Type (t_StorageConf t) = [] then [] else case CreateStorage (xe_factory e) (t_StorageConf t) of
              Inl _ \<Rightarrow> [] | Inr _ \<Rightarrow> [stored_record t now d1])"
          using save by (auto simp: save_step_def split: if_splits sum.splits option.splits)
        show ?thesis
        proof (cases er)
          case None
          have "xr_Status res = ''success'' \<and> xr_Data res = d1 \<and> xr_BytesFetched res = pg_Size resp \<and> err = None \<and> saved = sv"
            using run Inr False d d1 save None by (auto simp: Execute_def Let_def)
          then show ?thesis using Inr d' d1 sv(2) [OF None]
            by (intro conjI impI exI [of _ resp] exI [of _ d]) (simp_all del: if_split cong: sum.case_cong)
        next
          case (Some e1)
          then have "xr_Status res = ''failed'' \<and> xr_Data res = [] \<and> err = Some e1 \<and> saved = []"
            using run Inr False d d1 save sv(1) by (auto simp: Execute_def Let_def failed_def)
          then show ?thesis by simp
        qed
      qed
    qed
  qed
qed

text \<open>
  The workers of a node share one executor and set its extractor before they execute.  When another
  worker sets its own in between, the first task is extracted with the second's extractor.
\<close>

lemma extractor_race:
  "Execute fetch lua now (SetExtractor x2 (SetExtractor x1 e)) t1 = Execute fetch lua now (SetExtractor x2 e) t1"
  by (simp add: SetExtractor_def)

text \<open>A storage that cannot be created is only logged: the task succeeds and nothing is stored.\<close>

lemma missing_storage_ignored:
  assumes "sc_Type (t_StorageConf t) \<noteq> []" and "fc_storages f (sc_Type (t_StorageConf t)) = None"
  shows "save_step f now t d = (None, [])"
  using assms by (simp add: save_step_def CreateStorage_def)

lemma NewFactory_lookup:
  "CreatePipeline (NewFactory db b) ident =
     (if ident \<in> {[], ''default''} then Inr DefaultPipeline
      else if ident = ''validation'' then Inr (ValidationPipeline []) else Inl (''pipeline not found: '' @ ident))"
  by (auto simp: CreatePipeline_def NewFactory_def RegisterPipeline_def RegisterStorage_def)

section \<open>Requests\<close>

text \<open>
  The request carries the task's headers and cookies, a user agent when the task has none, and a
  body exactly for POST, with a JSON content type unless the task names one; a body of a PUT or PATCH
  task is dropped.
\<close>
theorem build_request_spec:
  assumes "enumerates ks (case t_Headers t of None \<Rightarrow> Map.empty | Some h \<Rightarrow> h)"
    and r: "r = build_request ks t" and h: "h = (case t_Headers t of None \<Rightarrow> Map.empty | Some h \<Rightarrow> h)"
  shows "(\<forall>k v. h k = Some v \<longrightarrow> k \<noteq> ''Content-Type'' \<longrightarrow> hr_Headers r k = Some v) \<and>
    (hr_Headers r ''User-Agent'' \<noteq> None) \<and>
    (hr_Body r = (if t_Method t = ''POST'' \<and> t_Body t \<noteq> [] then Some (t_Body t) else None)) \<and>
    (t_Method t = ''POST'' \<and> t_Body t \<noteq> [] \<and> (\<forall>k. h k \<noteq> None \<longrightarrow> ToLower k \<noteq> ''content-type'') \<longrightarrow>
      hr_Headers r ''Content-Type'' = Some ''application/json'') \<and>
    (t_Method t \<in> {''PUT'', ''PATCH''} \<longrightarrow> hr_Method r = t_Method t \<and> hr_Body r = None)"
proof -
  have "content_type ks h = []" if "\<forall>k. h k \<noteq> None \<longrightarrow> ToLower k \<noteq> ''content-type''"
  proof -
    have "find (\<lambda>k. ToLower k = ''content-type'') ks = None"
      using that assms(1) h by (auto simp: find_None_iff enumerates_def dom_def)
    then show ?thesis by (simp add: content_type_def)
  qed
  then show ?thesis
    by (auto simp: r build_request_def h [symmetric] Let_def http_method_def split: if_splits)
qed

theorem build_request_spec_witness:
  "hr_Headers (build_request [] (zero_task\<lparr>t_Method := ''POST'', t_Body := [1]\<rparr>)) ''Content-Type'' = Some ''application/json''"
  using build_request_spec [of "[]" "zero_task\<lparr>t_Method := ''POST'', t_Body := [1]\<rparr>" _ Map.empty]
  by (simp add: zero_task_def enumerates_def)

definition sample_page :: page where
  "sample_page = \<lparr>pg_StatusCode = 500, pg_Body = [1, 2, 3], pg_URL = ''u'', pg_Duration = 1, pg_Size = 3\<rparr>"

definition sample_executor :: executor where
  "sample_executor = \<lparr>xe_extractor = \<lparr>xt_Type = ''css'', xt_Extract = (\<lambda>p rs. Inr [(''a'', GInt 1)]), xt_Links = (\<lambda>p. Inr [])\<rparr>,
     xe_factory = NewFactory False (\<lambda>ty c. Inr (\<lambda>r. None))\<rparr>"

theorem Execute_spec_witness:
  "snd (Execute (\<lambda>_. Inr sample_page) (\<lambda>_ _. None) 7 sample_executor
      (zero_task\<lparr>t_ID := ''t'', t_StorageConf := zero_storage_conf\<lparr>sc_Type := ''redis''\<rparr>\<rparr>)) =
   [stored_record (zero_task\<lparr>t_ID := ''t'', t_StorageConf := zero_storage_conf\<lparr>sc_Type := ''redis''\<rparr>\<rparr>) 7 []]"
proof -
  let ?t = "zero_task\<lparr>t_ID := ''t'', t_StorageConf := zero_storage_conf\<lparr>sc_Type := ''redis''\<rparr>\<rparr>"
  obtain res err saved where run: "Execute (\<lambda>_. Inr sample_page) (\<lambda>_ _. None) 7 sample_executor ?t = ((res, err), saved)"
    by (metis surj_pair)
  have "err = None" using run
    by (auto simp: Execute_def Let_def zero_task_def zero_storage_conf_def pipeline_step_def save_step_def CreateStorage_def
        extract_step_def sample_executor_def NewFactory_def RegisterStorage_def RegisterPipeline_def split: if_splits)
  moreover have "xr_Data res = []" using run
    by (auto simp: Execute_def Let_def zero_task_def zero_storage_conf_def pipeline_step_def save_step_def CreateStorage_def
        extract_step_def sample_executor_def NewFactory_def RegisterStorage_def RegisterPipeline_def split: if_splits)
  ultimately show ?thesis using Execute_spec [OF run] run
    by (auto simp: zero_task_def zero_storage_conf_def pipeline_step_def sample_executor_def NewFactory_def
        RegisterStorage_def RegisterPipeline_def CreateStorage_def)
qed

end
