(* ===== verification/JsonExtractor.thy ===== *)
theory JsonExtractor
  imports Executor "HOL-Library.AList"
begin

text \<open>
  The JSON extractor (src/crawler/extractor/json.go): extraction by rules, links, metadata, value
  transforms, and the flattening of a document, its schema and its paths.  gjson is an argument, a record
  of the operations the code calls; so are \<open>json.Unmarshal\<close> and the conversions between text, floats
  and integers.  A map the code builds is the list of its entries, and a range over a map visits the
  entries in the order listed.
\<close>

section \<open>What the extractor uses of gjson\<close>

record 'j gjson =
  gj_Valid :: "string \<Rightarrow> bool"
  gj_Parse :: "string \<Rightarrow> 'j"
  gj_Get :: "'j \<Rightarrow> string \<Rightarrow> 'j"
  gj_Exists :: "'j \<Rightarrow> bool"
  gj_IsArray :: "'j \<Rightarrow> bool"
  gj_Array :: "'j \<Rightarrow> 'j list"
  gj_Value :: "'j \<Rightarrow> goval"
  gj_String :: "'j \<Rightarrow> string"
  gj_IsString :: "'j \<Rightarrow> bool"

record json_config =
  jc_StrictMode :: bool
  jc_FlattenArrays :: bool
  jc_MaxDepth :: int
  jc_MaxDocumentSize :: int

definition DefaultJSONExtractorConfig :: json_config where
  "DefaultJSONExtractorConfig = \<lparr>jc_StrictMode = False, jc_FlattenArrays = False, jc_MaxDepth = 10,
     jc_MaxDocumentSize = 10 * 1024 * 1024\<rparr>"

definition text_of :: "8 word list \<Rightarrow> string" where
  "text_of bs = map (\<lambda>b. char_of (unat b)) bs"

section \<open>Extraction by rules\<close>

definition json_value :: "('j, 'x) gjson_scheme \<Rightarrow> bool \<Rightarrow> 'j \<Rightarrow> goval" where
  "json_value gj multiple v =
     (if multiple \<and> gj_IsArray gj v then GList (map (gj_Value gj) (gj_Array gj v)) else gj_Value gj v)"

fun json_rules :: "('j, 'x) gjson_scheme \<Rightarrow> 'j \<Rightarrow> extract_rule list \<Rightarrow> fields \<Rightarrow> string + fields" where
  "json_rules gj root [] r = Inr r"
| "json_rules gj root (rule # rules) r =
     (let value = gj_Get gj root (er_Selector rule) in
      if \<not> gj_Exists gj value then
        (if er_Required rule then Inl (''required field '' @ er_Field rule @ '' not found'')
         else json_rules gj root rules (if er_Default rule \<noteq> GNil then AList.update (er_Field rule) (er_Default rule) r else r))
      else json_rules gj root rules (AList.update (er_Field rule) (json_value gj (er_Multiple rule) value) r))"

definition json_invalid :: "string \<Rightarrow> int \<Rightarrow> string" where
  "json_invalid body status =
     (let preview = (if length body > 200 then take 200 body @ ''...'' else body) in
      if Contains preview ''<html'' \<or> Contains preview ''<!DOCTYPE''
      then ''invalid JSON content: received HTML response (status='' @ dec_of_int status @ '')''
      else ''invalid JSON content (status='' @ dec_of_int status @ '', preview: '' @ preview @ '')'')"

definition json_Extract :: "('j, 'x) gjson_scheme \<Rightarrow> (string \<Rightarrow> string + fields) \<Rightarrow> page \<Rightarrow> extract_rule list \<Rightarrow> string + fields" where
  "json_Extract gj unmarshal resp rules =
     (let body = text_of (pg_Body resp) in
      if \<not> gj_Valid gj body then Inl (json_invalid body (pg_StatusCode resp))
      else if rules = [] then
        (case unmarshal body of Inl e \<Rightarrow> Inl (''failed to unmarshal JSON: '' @ e) | Inr d \<Rightarrow> Inr d)
      else json_rules gj (gj_Parse gj body) rules [])"

definition link_fields :: "string list" where
  "link_fields = [''url'', ''link'', ''href'', ''links'', ''urls'']"

definition json_links_of :: "('j, 'x) gjson_scheme \<Rightarrow> 'j \<Rightarrow> string list" where
  "json_links_of gj v =
     (if \<not> gj_Exists gj v then []
      else if gj_IsArray gj v then map (gj_String gj) (filter (gj_IsString gj) (gj_Array gj v))
      else if gj_IsString gj v then [gj_String gj v] else [])"

definition json_ExtractLinks :: "('j, 'x) gjson_scheme \<Rightarrow> page \<Rightarrow> string list" where
  "json_ExtractLinks gj resp =
     (let root = gj_Parse gj (text_of (pg_Body resp)) in
      concat (map (\<lambda>field. json_links_of gj (gj_Get gj root field)) link_fields))"

definition ExtractWithJSONPath :: "('j, 'x) gjson_scheme \<Rightarrow> string \<Rightarrow> string \<Rightarrow> goval list option" where
  "ExtractWithJSONPath gj content path =
     (let result = gj_Get gj (gj_Parse gj content) path in
      if \<not> gj_Exists gj result then None
      else if gj_IsArray gj result then Some (map (gj_Value gj) (gj_Array gj result))
      else Some [gj_Value gj result])"

definition meta_fields :: "string list" where
  "meta_fields = [''title'', ''description'', ''author'', ''date'', ''version'', ''type'', ''category'', ''tags'',
     ''status'', ''source'']"

definition json_ExtractMeta :: "(64 word \<Rightarrow> string) \<Rightarrow> (gotime \<Rightarrow> string) \<Rightarrow> (string \<Rightarrow> string + fields) \<Rightarrow> string \<Rightarrow> string + (string \<rightharpoonup> string)" where
  "json_ExtractMeta ff ft unmarshal content =
     (case unmarshal content of
        Inl e \<Rightarrow> Inl e
      | Inr d \<Rightarrow> Inr ((fold (\<lambda>f m. case map_of d f of Some v \<Rightarrow> m(f \<mapsto> sprint ff ft v) | None \<Rightarrow> m) meta_fields Map.empty)
          (''_size'' \<mapsto> dec_of_nat (length content), ''_type'' \<mapsto> ''json'')))"

section \<open>Transforms\<close>

record number_env =
  ne_ParseFloat :: "string \<Rightarrow> 64 word option"
  ne_trunc :: "64 word \<Rightarrow> int"
  ne_float :: "int \<Rightarrow> 64 word"
  ne_show :: "64 word \<Rightarrow> string"
  ne_time :: "gotime \<Rightarrow> string"

definition str_param :: "transform_rule \<Rightarrow> string \<Rightarrow> string option" where
  "str_param tr k = (case tr_Params tr of None \<Rightarrow> None
     | Some m \<Rightarrow> (case m k of Some (GStr s) \<Rightarrow> Some s | _ \<Rightarrow> None))"

definition transform_string :: "number_env \<Rightarrow> string \<Rightarrow> transform_rule \<Rightarrow> goval" where
  "transform_string env s tr =
     (let ty = tr_Type tr in
      if ty = ''trim'' then GStr (TrimSpace s)
      else if ty = ''replace'' then
        (case (str_param tr ''old'', str_param tr ''new'') of
           (Some x, Some y) \<Rightarrow> GStr (ReplaceAll s x y) | _ \<Rightarrow> GStr s)
      else if ty = ''uppercase'' then GStr (ToUpper s)
      else if ty = ''lowercase'' then GStr (ToLower s)
      else if ty = ''parse_int'' then (case Atoi s of Some i \<Rightarrow> GInt i | None \<Rightarrow> GStr s)
      else if ty = ''parse_float'' then (case ne_ParseFloat env s of Some f \<Rightarrow> GFloat f | None \<Rightarrow> GStr s)
      else if ty = ''split'' then (case str_param tr ''separator'' of Some sep \<Rightarrow> GStrs (Split s sep) | None \<Rightarrow> GStr s)
      else GStr s)"

definition json_transform :: "number_env \<Rightarrow> goval \<Rightarrow> transform_rule \<Rightarrow> goval" where
  "json_transform env v tr =
     (case v of
        GStr s \<Rightarrow> transform_string env s tr
      | GFloat f \<Rightarrow> if tr_Type tr = ''parse_int'' then GInt (ne_trunc env f) else v
      | GInt i \<Rightarrow> if tr_Type tr = ''parse_float'' then GFloat (ne_float env i) else v
      | GList vs \<Rightarrow>
          if tr_Type tr = ''join'' then
            (case str_param tr ''separator'' of
               Some sep \<Rightarrow> GStr (join sep (map (sprint (ne_show env) (ne_time env)) vs)) | None \<Rightarrow> v)
          else v
      | _ \<Rightarrow> v)"

definition processValue :: "number_env \<Rightarrow> goval \<Rightarrow> transform_rule list \<Rightarrow> goval" where
  "processValue env v trs = foldl (json_transform env) v trs"

text \<open>
  \<open>split\<close> gives a \<open>[]string\<close>, which no transform takes: what follows a split has no effect, a \<open>join\<close>
  included.
\<close>

lemma split_is_final: "processValue env (GStrs ss) trs = GStrs ss"
  by (induction trs) (simp_all add: processValue_def json_transform_def)

lemma split_then_join:
  assumes "tr_Type t1 = ''split''" and "str_param t1 ''separator'' = Some sep"
  shows "processValue env (GStr s) (t1 # trs) = GStrs (Split s sep)"
proof -
  have "json_transform env (GStr s) t1 = GStrs (Split s sep)"
    using assms by (simp add: json_transform_def transform_string_def)
  then show ?thesis using split_is_final [of env "Split s sep" trs] by (simp add: processValue_def)
qed

section \<open>Rules of the extractor's own\<close>

record xrule =
  xr_Field :: string
  xr_Selector :: string
  xr_Sel_type :: string
  xr_Multiple :: bool
  xr_DefaultValue :: string
  xr_Transforms :: "transform_rule list"

text \<open>
  A compiled pattern is the function that gives the groups of every match in a text; \<open>compile\<close> is
  \<open>regexp.Compile\<close>.  The cache is threaded through.
\<close>

type_synonym pattern = "string \<Rightarrow> string list list"
type_synonym regex_cache = "string \<rightharpoonup> pattern"

definition cached_regex :: "(string \<rightharpoonup> pattern) \<Rightarrow> string \<Rightarrow> regex_cache \<Rightarrow> pattern option \<times> regex_cache" where
  "cached_regex compile p cache =
     (case cache p of
        Some re \<Rightarrow> (Some re, cache)
      | None \<Rightarrow> (case compile p of None \<Rightarrow> (None, cache) | Some re \<Rightarrow> (Some re, cache(p \<mapsto> re))))"

definition match_value :: "string list \<Rightarrow> string list" where
  "match_value m = (case m of [] \<Rightarrow> [] | [w] \<Rightarrow> [w] | w # g # _ \<Rightarrow> [g])"

definition extractWithRegex :: "(string \<rightharpoonup> pattern) \<Rightarrow> string \<Rightarrow> string \<Rightarrow> regex_cache \<Rightarrow> string list \<times> regex_cache" where
  "extractWithRegex compile text p cache =
     (case cached_regex compile p cache of
        (None, c) \<Rightarrow> ([], c)
      | (Some re, c) \<Rightarrow> (concat (map match_value (re text)), c))"

definition json_extractByRule :: "('j, 'x) gjson_scheme \<Rightarrow> number_env \<Rightarrow> (string \<rightharpoonup> pattern) \<Rightarrow> 'j \<Rightarrow> xrule \<Rightarrow> regex_cache \<Rightarrow> goval list \<times> regex_cache" where
  "json_extractByRule gj env compile root rule cache =
     (if xr_Sel_type rule = ''jsonpath'' then
        (let v = gj_Get gj root (xr_Selector rule) in
         (if \<not> gj_Exists gj v then []
          else if gj_IsArray gj v \<and> xr_Multiple rule then
            map (\<lambda>item. processValue env (gj_Value gj item) (xr_Transforms rule)) (gj_Array gj v)
          else [processValue env (gj_Value gj v) (xr_Transforms rule)], cache))
      else if xr_Sel_type rule = ''regex'' then
        (let (ms, c) = extractWithRegex compile (gj_String gj root) (xr_Selector rule) cache in
         (map (\<lambda>m. processValue env (GStr m) (xr_Transforms rule)) (if xr_Multiple rule then ms else take 1 ms), c))
      else ([], cache))"

fun json_children :: "('j, 'x) gjson_scheme \<Rightarrow> number_env \<Rightarrow> (string \<rightharpoonup> pattern) \<Rightarrow> 'j \<Rightarrow> xrule list \<Rightarrow> fields \<Rightarrow> regex_cache \<Rightarrow> fields \<times> regex_cache" where
  "json_children gj env compile root [] r cache = (r, cache)"
| "json_children gj env compile root (rule # rules) r cache =
     (case json_extractByRule gj env compile root rule cache of
        ([], c) \<Rightarrow> json_children gj env compile root rules
          (if xr_DefaultValue rule \<noteq> [] then AList.update (xr_Field rule) (GStr (xr_DefaultValue rule)) r else r) c
      | (v # vs, c) \<Rightarrow> json_children gj env compile root rules
          (AList.update (xr_Field rule) (if xr_Multiple rule then GList (v # vs) else v) r) c)"

definition json_extractChildren :: "('j, 'x) gjson_scheme \<Rightarrow> number_env \<Rightarrow> (string \<rightharpoonup> pattern) \<Rightarrow> (goval \<rightharpoonup> string) \<Rightarrow> goval \<Rightarrow> xrule list \<Rightarrow> regex_cache \<Rightarrow> fields \<times> regex_cache" where
  "json_extractChildren gj env compile marshal d rules cache =
     (case marshal d of None \<Rightarrow> ([], cache) | Some s \<Rightarrow> json_children gj env compile (gj_Parse gj s) rules [] cache)"

text \<open>A cache holds only what compilation gives, so it changes no result.\<close>

definition cache_ok :: "(string \<rightharpoonup> pattern) \<Rightarrow> regex_cache \<Rightarrow> bool" where
  "cache_ok compile cache \<longleftrightarrow> cache \<subseteq>\<^sub>m compile"

lemma cached_regex_ok:
  assumes "cache_ok compile cache"
  shows "fst (cached_regex compile p cache) = compile p \<and> cache_ok compile (snd (cached_regex compile p cache))"
  using assms by (auto simp: cached_regex_def cache_ok_def map_le_def dom_def split: option.splits)

lemma extractWithRegex_ok:
  assumes "cache_ok compile cache"
  shows "fst (extractWithRegex compile text p cache) = (case compile p of None \<Rightarrow> [] | Some re \<Rightarrow> concat (map match_value (re text)))
    \<and> cache_ok compile (snd (extractWithRegex compile text p cache))"
  using cached_regex_ok [OF assms, of p]
  by (auto simp: extractWithRegex_def split: prod.splits option.splits)

section \<open>Flattening, schema and paths\<close>

definition sub_key :: "string \<Rightarrow> string \<Rightarrow> string" where
  "sub_key pre key = (if pre \<noteq> [] then pre @ ''.'' @ key else key)"

definition index_key :: "string \<Rightarrow> nat \<Rightarrow> string" where
  "index_key pre i = pre @ ''['' @ dec_of_nat i @ '']''"

definition put_key :: "string \<Rightarrow> 'v \<Rightarrow> (string \<times> 'v) list \<Rightarrow> (string \<times> 'v) list" where
  "put_key pre v r = (if pre \<noteq> [] then AList.update pre v r else r)"

function flatten :: "json_config \<Rightarrow> string \<Rightarrow> goval \<Rightarrow> fields \<Rightarrow> int \<Rightarrow> fields" where
  "flatten c pre v r depth =
     (if depth \<ge> jc_MaxDepth c then r
      else case v of
          GMap kvs \<Rightarrow> fold (\<lambda>kv r. flatten c (sub_key pre (fst kv)) (snd kv) r (depth + 1)) kvs r
        | GList vs \<Rightarrow>
            if jc_FlattenArrays c then
              fold (\<lambda>iv r. flatten c (index_key pre (fst iv)) (snd iv) r (depth + 1)) (List.enumerate 0 vs) r
            else put_key pre v r
        | _ \<Rightarrow> put_key pre v r)"
  by pat_completeness auto
termination
  by (relation "measure (\<lambda>(c, p, v, r, d). nat (jc_MaxDepth c - d))") auto

definition json_type_name :: "goval \<Rightarrow> string" where
  "json_type_name v = (case v of GStr _ \<Rightarrow> ''string'' | GFloat _ \<Rightarrow> ''number'' | GBool _ \<Rightarrow> ''boolean'' | GNil \<Rightarrow> ''null''
     | GInt _ \<Rightarrow> ''int64'' | GTime _ \<Rightarrow> ''time.Time'' | GStrs _ \<Rightarrow> ''[]string'' | GList _ \<Rightarrow> ''array''
     | GMap _ \<Rightarrow> ''map[string]interface {}'')"

function extractSchema :: "json_config \<Rightarrow> string \<Rightarrow> goval \<Rightarrow> (string \<times> string) list \<Rightarrow> int \<Rightarrow> (string \<times> string) list" where
  "extractSchema c pre v r depth =
     (if depth \<ge> jc_MaxDepth c then r
      else case v of
          GMap kvs \<Rightarrow> fold (\<lambda>kv r. extractSchema c (sub_key pre (fst kv)) (snd kv) r (depth + 1)) kvs r
        | GList vs \<Rightarrow>
            let r1 = put_key pre ''array'' r in
            (case vs of [] \<Rightarrow> r1 | w # _ \<Rightarrow> extractSchema c (pre @ ''[0]'') w r1 (depth + 1))
        | _ \<Rightarrow> put_key pre (json_type_name v) r)"
  by pat_completeness auto
termination
  by (relation "measure (\<lambda>(c, p, v, r, d). nat (jc_MaxDepth c - d))") auto

function extractPaths :: "json_config \<Rightarrow> string \<Rightarrow> goval \<Rightarrow> string list \<Rightarrow> int \<Rightarrow> string list" where
  "extractPaths c pre v ps depth =
     (if depth \<ge> jc_MaxDepth c then ps
      else case v of
          GMap kvs \<Rightarrow> fold (\<lambda>kv ps. extractPaths c (pre @ ''.'' @ fst kv) (snd kv) ps (depth + 1)) kvs (ps @ [pre])
        | GList vs \<Rightarrow> fold (\<lambda>iv ps. extractPaths c (index_key pre (fst iv)) (snd iv) ps (depth + 1))
            (List.enumerate 0 vs) (ps @ [pre])
        | _ \<Rightarrow> ps @ [pre])"
  by pat_completeness auto
termination
  by (relation "measure (\<lambda>(c, p, v, r, d). nat (jc_MaxDepth c - d))") auto

declare flatten.simps [simp del] extractSchema.simps [simp del] extractPaths.simps [simp del]

definition ExtractFlat :: "json_config \<Rightarrow> goval \<Rightarrow> fields" where
  "ExtractFlat c v = flatten c [] v [] 0"

definition ExtractSchema :: "json_config \<Rightarrow> goval \<Rightarrow> (string \<times> string) list" where
  "ExtractSchema c v = extractSchema c [] v [] 0"

definition ExtractPaths :: "json_config \<Rightarrow> goval \<Rightarrow> string list" where
  "ExtractPaths c v = extractPaths c ''$'' v [] 0"

section \<open>Positions of a document\<close>

datatype step = Key string | Pos nat

text \<open>\<open>leaf_at b v ps x\<close>: the path \<open>ps\<close> of \<open>v\<close> ends in the leaf \<open>x\<close>; an array is a leaf unless \<open>b\<close>.\<close>

inductive leaf_at :: "bool \<Rightarrow> goval \<Rightarrow> step list \<Rightarrow> goval \<Rightarrow> bool" for b where
  here: "(\<And>kvs. v \<noteq> GMap kvs) \<Longrightarrow> (\<And>vs. v = GList vs \<Longrightarrow> \<not> b) \<Longrightarrow> leaf_at b v [] v"
| member: "(k, w) \<in> set kvs \<Longrightarrow> leaf_at b w ps x \<Longrightarrow> leaf_at b (GMap kvs) (Key k # ps) x"
| element: "b \<Longrightarrow> i < length vs \<Longrightarrow> leaf_at b (vs ! i) ps x \<Longrightarrow> leaf_at b (GList vs) (Pos i # ps) x"

inductive_simps leaf_at_simps [simp]:
  "leaf_at b GNil ps x" "leaf_at b (GBool p) ps x" "leaf_at b (GInt i) ps x" "leaf_at b (GFloat f) ps x"
  "leaf_at b (GStr s) ps x" "leaf_at b (GTime t) ps x" "leaf_at b (GStrs ss) ps x"

inductive_simps leaf_at_map: "leaf_at b (GMap kvs) ps x"
inductive_simps leaf_at_list: "leaf_at b (GList vs) ps x"

fun render_key :: "string \<Rightarrow> step \<Rightarrow> string" where
  "render_key p (Key k) = sub_key p k"
| "render_key p (Pos i) = index_key p i"

abbreviation render :: "string \<Rightarrow> step list \<Rightarrow> string" where
  "render p ps \<equiv> foldl render_key p ps"

text \<open>The entries that flattening \<open>v\<close> under the prefix \<open>p\<close> at depth \<open>d\<close> may write.\<close>

definition writes :: "json_config \<Rightarrow> string \<Rightarrow> goval \<Rightarrow> int \<Rightarrow> (string \<times> goval) set" where
  "writes c p v d = {(render p ps, x) | ps x. leaf_at (jc_FlattenArrays c) v ps x \<and>
     d + int (length ps) < jc_MaxDepth c \<and> render p ps \<noteq> []}"

lemma writes_deep: "d \<ge> jc_MaxDepth c \<Longrightarrow> writes c p v d = {}"
  by (auto simp: writes_def)

lemma writes_map:
  "writes c p (GMap kvs) d = (\<Union>kv \<in> set kvs. writes c (sub_key p (fst kv)) (snd kv) (d + 1))" (is "?l = ?r")
proof
  show "?l \<subseteq> ?r"
  proof
    fix e assume "e \<in> ?l"
    then obtain ps x where e: "e = (render p ps, x)" "leaf_at (jc_FlattenArrays c) (GMap kvs) ps x"
        "d + int (length ps) < jc_MaxDepth c" "render p ps \<noteq> []"
      by (auto simp: writes_def)
    then obtain k w qs where "(k, w) \<in> set kvs" "ps = Key k # qs" "leaf_at (jc_FlattenArrays c) w qs x"
      by (auto simp: leaf_at_map)
    then show "e \<in> ?r" using e by (force simp: writes_def)
  qed
  show "?r \<subseteq> ?l"
  proof
    fix e assume "e \<in> ?r"
    then obtain k w qs x where e: "(k, w) \<in> set kvs" "e = (render (sub_key p k) qs, x)" "leaf_at (jc_FlattenArrays c) w qs x"
        "d + 1 + int (length qs) < jc_MaxDepth c" "render (sub_key p k) qs \<noteq> []"
      by (auto simp: writes_def)
    then have "leaf_at (jc_FlattenArrays c) (GMap kvs) (Key k # qs) x" by (auto simp: leaf_at_map)
    then show "e \<in> ?l" using e unfolding writes_def
      by (intro CollectI exI [of _ "Key k # qs"] exI [of _ x]) simp
  qed
qed

lemma writes_list:
  assumes "jc_FlattenArrays c"
  shows "writes c p (GList vs) d = (\<Union>iv \<in> set (List.enumerate 0 vs). writes c (index_key p (fst iv)) (snd iv) (d + 1))" (is "?l = ?r")
proof
  show "?l \<subseteq> ?r"
  proof
    fix e assume "e \<in> ?l"
    then obtain ps x where e: "e = (render p ps, x)" "leaf_at (jc_FlattenArrays c) (GList vs) ps x"
        "d + int (length ps) < jc_MaxDepth c" "render p ps \<noteq> []"
      by (auto simp: writes_def)
    then obtain i qs where "i < length vs" "ps = Pos i # qs" "leaf_at (jc_FlattenArrays c) (vs ! i) qs x"
      using assms by (auto simp: leaf_at_list)
    then have "(i, vs ! i) \<in> set (List.enumerate 0 vs)" "e \<in> writes c (index_key p i) (vs ! i) (d + 1)"
      using e by (auto simp: writes_def in_set_enumerate_eq)
    then show "e \<in> ?r" by force
  qed
  show "?r \<subseteq> ?l"
  proof
    fix e assume "e \<in> ?r"
    then obtain i qs x where e: "i < length vs" "e = (render (index_key p i) qs, x)" "leaf_at (jc_FlattenArrays c) (vs ! i) qs x"
        "d + 1 + int (length qs) < jc_MaxDepth c" "render (index_key p i) qs \<noteq> []"
      by (auto simp: writes_def in_set_enumerate_eq)
    then have "leaf_at (jc_FlattenArrays c) (GList vs) (Pos i # qs) x" using assms by (auto simp: leaf_at_list)
    then show "e \<in> ?l" using e unfolding writes_def
      by (intro CollectI exI [of _ "Pos i # qs"] exI [of _ x]) simp
  qed
qed

text \<open>A fold of flattenings writes the union of what its steps write.\<close>

definition flat_ok :: "(string \<times> goval) set \<Rightarrow> (fields \<Rightarrow> fields) \<Rightarrow> bool" where
  "flat_ok W f \<longleftrightarrow> (\<forall>r. (\<forall>k x. map_of (f r) k = Some x \<longrightarrow> map_of r k = Some x \<or> (k, x) \<in> W) \<and>
     fst ` set (f r) = fst ` set r \<union> fst ` W)"

lemma flat_ok_id [simp]: "flat_ok {} (\<lambda>r. r)"
  by (simp add: flat_ok_def)

lemma flat_ok_put: "flat_ok (if p \<noteq> [] then {(p, v)} else {}) (put_key p v)"
  by (auto simp: flat_ok_def put_key_def update_conv' dom_update split: if_splits)

lemma flat_ok_fold:
  assumes "\<And>x. x \<in> set xs \<Longrightarrow> flat_ok (W x) (f x)"
  shows "flat_ok (\<Union>x \<in> set xs. W x) (fold f xs)"
  using assms
proof (induction xs)
  case (Cons a xs)
  have a: "flat_ok (W a) (f a)" and rest: "flat_ok (\<Union>x \<in> set xs. W x) (fold f xs)" using Cons by auto
  show ?case unfolding flat_ok_def
  proof (intro allI conjI impI)
    fix r k x assume k: "map_of (fold f (a # xs) r) k = Some x"
    then have "map_of (f a r) k = Some x \<or> (k, x) \<in> (\<Union>x \<in> set xs. W x)"
      using rest by (auto simp: flat_ok_def)
    then show "map_of r k = Some x \<or> (k, x) \<in> (\<Union>x \<in> set (a # xs). W x)"
      using a by (auto simp: flat_ok_def)
  next
    fix r show "fst ` set (fold f (a # xs) r) = fst ` set r \<union> fst ` (\<Union>x \<in> set (a # xs). W x)"
      using a rest by (auto simp: flat_ok_def image_Un image_UN)
  qed
qed (simp add: flat_ok_def)

lemma writes_leaf:
  assumes "\<And>ps x. leaf_at (jc_FlattenArrays c) v ps x \<longleftrightarrow> ps = [] \<and> x = v" and "d < jc_MaxDepth c"
  shows "writes c p v d = (if p \<noteq> [] then {(p, v)} else {})"
  using assms by (auto simp: writes_def)

lemma flatten_writes: "flat_ok (writes c p v d) (\<lambda>r. flatten c p v r d)"
proof (induction "nat (jc_MaxDepth c - d)" arbitrary: p v d rule: less_induct)
  case less
  show ?case
  proof (cases "d \<ge> jc_MaxDepth c")
    case True
    then show ?thesis by (simp add: flatten.simps [of c p v _ d] writes_deep)
  next
    case False
    have step: "flat_ok (writes c q w (d + 1)) (\<lambda>r. flatten c q w r (d + 1))" for q w
      using less [of "d + 1" q w] False by auto
    show ?thesis
    proof (cases v)
      case (GMap kvs)
      have "flat_ok (\<Union>kv \<in> set kvs. writes c (sub_key p (fst kv)) (snd kv) (d + 1))
          (fold (\<lambda>kv r. flatten c (sub_key p (fst kv)) (snd kv) r (d + 1)) kvs)"
        by (rule flat_ok_fold) (rule step)
      then show ?thesis using False GMap by (simp add: flatten.simps [of c p "GMap kvs" _ d] writes_map [symmetric])
    next
      case (GList vs)
      show ?thesis
      proof (cases "jc_FlattenArrays c")
        case True
        have "flat_ok (\<Union>iv \<in> set (List.enumerate 0 vs). writes c (index_key p (fst iv)) (snd iv) (d + 1))
            (fold (\<lambda>iv r. flatten c (index_key p (fst iv)) (snd iv) r (d + 1)) (List.enumerate 0 vs))"
          by (rule flat_ok_fold) (rule step)
        then show ?thesis using False GList True
          by (simp add: flatten.simps [of c p "GList vs" _ d] writes_list [OF True, symmetric])
      next
        case arr: False
        have "writes c p v d = (if p \<noteq> [] then {(p, v)} else {})"
          using False arr GList by (intro writes_leaf) (auto simp: leaf_at_list)
        then show ?thesis using False GList arr flat_ok_put [of p v] by (simp add: flatten.simps [of c p "GList vs" _ d])
      qed
    qed (use False flat_ok_put [of p v] writes_leaf [of c v d p] in \<open>simp_all add: flatten.simps [of c p _ _ d]\<close>)
  qed
qed



section \<open>Schema and paths\<close>

inductive node_at :: "goval \<Rightarrow> step list \<Rightarrow> bool" where
  root: "node_at v []"
| child: "(k, w) \<in> set kvs \<Longrightarrow> node_at w ps \<Longrightarrow> node_at (GMap kvs) (Key k # ps)"
| item: "i < length vs \<Longrightarrow> node_at (vs ! i) ps \<Longrightarrow> node_at (GList vs) (Pos i # ps)"

fun path_key :: "string \<Rightarrow> step \<Rightarrow> string" where
  "path_key p (Key k) = p @ ''.'' @ k"
| "path_key p (Pos i) = index_key p i"

definition path_texts :: "json_config \<Rightarrow> string \<Rightarrow> goval \<Rightarrow> int \<Rightarrow> string set" where
  "path_texts c p v d = {foldl path_key p ps | ps. node_at v ps \<and> d + int (length ps) < jc_MaxDepth c}"

lemma path_texts_deep: "d \<ge> jc_MaxDepth c \<Longrightarrow> path_texts c p v d = {}"
  by (auto simp: path_texts_def)

inductive_cases node_atE: "node_at v (s # ps)"

lemma path_texts_split:
  assumes "d < jc_MaxDepth c"
  shows "path_texts c p v d = insert p (case v of
      GMap kvs \<Rightarrow> (\<Union>kv \<in> set kvs. path_texts c (p @ ''.'' @ fst kv) (snd kv) (d + 1))
    | GList vs \<Rightarrow> (\<Union>iv \<in> set (List.enumerate 0 vs). path_texts c (index_key p (fst iv)) (snd iv) (d + 1))
    | _ \<Rightarrow> {})" (is "_ = insert p ?rest")
proof
  show "path_texts c p v d \<subseteq> insert p ?rest"
  proof
    fix e assume "e \<in> path_texts c p v d"
    then obtain ps where e: "e = foldl path_key p ps" "node_at v ps" "d + int (length ps) < jc_MaxDepth c"
      by (auto simp: path_texts_def)
    show "e \<in> insert p ?rest"
    proof (cases ps)
      case (Cons s qs)
      have at: "node_at v (s # qs)" using e Cons by simp
      consider (map) k w kvs where "v = GMap kvs" "s = Key k" "(k, w) \<in> set kvs" "node_at w qs"
        | (list) i vs where "v = GList vs" "s = Pos i" "i < length vs" "node_at (vs ! i) qs"
        using at by (auto elim: node_atE)
      then show ?thesis
      proof cases
        case map
        then have "e \<in> path_texts c (p @ ''.'' @ k) w (d + 1)" using e Cons by (auto simp: path_texts_def)
        then show ?thesis using map by force
      next
        case list
        then have "(i, vs ! i) \<in> set (List.enumerate 0 vs)" "e \<in> path_texts c (index_key p i) (vs ! i) (d + 1)"
          using e Cons by (auto simp: path_texts_def in_set_enumerate_eq)
        then show ?thesis using list by force
      qed
    qed (use e in simp)
  qed
  have p: "p \<in> path_texts c p v d" unfolding path_texts_def
    using assms by (intro CollectI exI [of _ "[]"]) (simp add: root)
  have m: "path_texts c (p @ ''.'' @ k) w (d + 1) \<subseteq> path_texts c p (GMap kvs) d" if "(k, w) \<in> set kvs" for k w kvs
  proof
    fix e assume "e \<in> path_texts c (p @ ''.'' @ k) w (d + 1)"
    then obtain ps where "e = foldl path_key p (Key k # ps)" "node_at w ps" "d + 1 + int (length ps) < jc_MaxDepth c"
      by (auto simp: path_texts_def)
    then show "e \<in> path_texts c p (GMap kvs) d" unfolding path_texts_def using child [OF that]
      by (intro CollectI exI [of _ "Key k # ps"]) simp
  qed
  have l: "path_texts c (index_key p i) (vs ! i) (d + 1) \<subseteq> path_texts c p (GList vs) d" if "i < length vs" for i vs
  proof
    fix e assume "e \<in> path_texts c (index_key p i) (vs ! i) (d + 1)"
    then obtain ps where "e = foldl path_key p (Pos i # ps)" "node_at (vs ! i) ps" "d + 1 + int (length ps) < jc_MaxDepth c"
      by (auto simp: path_texts_def)
    then show "e \<in> path_texts c p (GList vs) d" unfolding path_texts_def using item [OF that]
      by (intro CollectI exI [of _ "Pos i # ps"]) simp
  qed
  show "insert p ?rest \<subseteq> path_texts c p v d"
  proof (cases v)
    case (GMap kvs)
    have "(\<Union>kv \<in> set kvs. path_texts c (p @ ''.'' @ fst kv) (snd kv) (d + 1)) \<subseteq> path_texts c p (GMap kvs) d"
      by (rule UN_least) (metis m prod.collapse)
    then show ?thesis using GMap p by simp
  next
    case (GList vs)
    have "(\<Union>iv \<in> set (List.enumerate 0 vs). path_texts c (index_key p (fst iv)) (snd iv) (d + 1)) \<subseteq> path_texts c p (GList vs) d"
    proof (rule UN_least)
      fix iv assume "iv \<in> set (List.enumerate 0 vs)"
      then show "path_texts c (index_key p (fst iv)) (snd iv) (d + 1) \<subseteq> path_texts c p (GList vs) d"
        using l [of "fst iv" vs] by (simp add: in_set_enumerate_eq)
    qed
    then show ?thesis using GList p by simp
  qed (use p in auto)
qed

lemma fold_set_union:
  assumes "\<And>x ps. x \<in> set xs \<Longrightarrow> set (f x ps) = set ps \<union> W x"
  shows "set (fold f xs ps) = set ps \<union> (\<Union>x \<in> set xs. W x)"
  using assms by (induction xs arbitrary: ps) auto

lemma extractPaths_set: "set (extractPaths c p v ps d) = set ps \<union> path_texts c p v d"
proof (induction "nat (jc_MaxDepth c - d)" arbitrary: p v d ps rule: less_induct)
  case less
  show ?case
  proof (cases "d \<ge> jc_MaxDepth c")
    case True
    then show ?thesis by (simp add: extractPaths.simps [of c p v ps d] path_texts_deep)
  next
    case False
    have step: "set (extractPaths c q w rs (d + 1)) = set rs \<union> path_texts c q w (d + 1)" for q w rs
      using less [of "d + 1" q w rs] False by auto
    have split: "path_texts c p v d = insert p (case v of
          GMap kvs \<Rightarrow> (\<Union>kv \<in> set kvs. path_texts c (p @ ''.'' @ fst kv) (snd kv) (d + 1))
        | GList vs \<Rightarrow> (\<Union>iv \<in> set (List.enumerate 0 vs). path_texts c (index_key p (fst iv)) (snd iv) (d + 1))
        | _ \<Rightarrow> {})"
      using False by (intro path_texts_split) simp
    show ?thesis unfolding split
      using False by (cases v) (simp_all add: extractPaths.simps [of c p _ ps d] fold_set_union [OF step])
  qed
qed

text \<open>
  The paths of a document are exactly the renderings of its positions above the depth limit, inner
  ones included, from \<open>$\<close> on.
\<close>
theorem ExtractPaths_exact:
  "set (ExtractPaths c v) = {foldl path_key ''$'' ps | ps. node_at v ps \<and> int (length ps) < jc_MaxDepth c}"
  using extractPaths_set [of c "''$''" v "[]" 0] by (simp add: ExtractPaths_def path_texts_def)

lemma schema_mono: "fst ` set s \<subseteq> fst ` set (extractSchema c p v s d)"
proof (induction "nat (jc_MaxDepth c - d)" arbitrary: p v d s rule: less_induct)
  case less
  show ?case
  proof (cases "d \<ge> jc_MaxDepth c")
    case False
    have step: "fst ` set s \<subseteq> fst ` set (extractSchema c q w s (d + 1))" for q w s
      using less [of "d + 1" s q w] False by auto
    have put: "fst ` set s \<subseteq> fst ` set (put_key q y s)" for q y and s :: "(string \<times> string) list"
      by (auto simp: put_key_def dom_update)
    have fold: "fst ` set s \<subseteq> fst ` set (fold (\<lambda>kv r. extractSchema c (f kv) (snd kv) r (d + 1)) kvs s)"
      for f s and kvs :: "(string \<times> goval) list"
    proof (induction kvs arbitrary: s)
      case (Cons kv kvs)
      show ?case using subset_trans [OF step [of s "f kv" "snd kv"] Cons.IH] by simp
    qed simp
    show ?thesis
    proof (cases v)
      case (GList vs)
      have "fst ` set s \<subseteq> fst ` set (extractSchema c (p @ ''[0]'') w (put_key p ''array'' s) (d + 1))" for w
        using put step by (rule subset_trans)
      then show ?thesis using False GList put by (auto simp: extractSchema.simps [of c p "GList vs" s d] Let_def split: list.split)
    qed (use False put fold [of _ "\<lambda>kv. sub_key p (fst kv)"] in \<open>auto simp: extractSchema.simps [of c p _ s d]\<close>)
  qed (simp add: extractSchema.simps [of c p v s d])
qed

text \<open>Every key of the flattened document, arrays kept, has a type in the schema.\<close>

lemma schema_covers:
  assumes "\<not> jc_FlattenArrays c"
  shows "fst ` set (ExtractFlat c v) \<subseteq> fst ` set (ExtractSchema c v)"
proof -
  have "fst ` set (flatten c p v r d) \<subseteq> fst ` set (extractSchema c p v s d)" if "fst ` set r \<subseteq> fst ` set s" for p v r s d
    using that
  proof (induction "nat (jc_MaxDepth c - d)" arbitrary: p v d r s rule: less_induct)
    case less
    show ?case
    proof (cases "d \<ge> jc_MaxDepth c")
      case False
      have step: "fst ` set r \<subseteq> fst ` set s \<Longrightarrow>
          fst ` set (flatten c q w r (d + 1)) \<subseteq> fst ` set (extractSchema c q w s (d + 1))" for q w r s
        using less.hyps [of "d + 1"] False by auto
      have fold: "fst ` set (fold (\<lambda>kv r. flatten c (f kv) (snd kv) r (d + 1)) kvs r)
          \<subseteq> fst ` set (fold (\<lambda>kv r. extractSchema c (f kv) (snd kv) r (d + 1)) kvs s)"
        if "fst ` set r \<subseteq> fst ` set s" for f r s and kvs :: "(string \<times> goval) list"
        using that by (induction kvs arbitrary: r s) (simp_all add: step)
      have put: "fst ` set (put_key q y r) \<subseteq> fst ` set (put_key q z s)" for q y and z :: string
        using less.prems by (auto simp: put_key_def dom_update)
      show ?thesis
      proof (cases v)
        case (GList vs)
        have "fst ` set (put_key p v r) \<subseteq> fst ` set (put_key p ''array'' s)" by (rule put)
        also have "\<dots> \<subseteq> fst ` set (extractSchema c p v s d)"
          using False GList schema_mono by (auto simp: extractSchema.simps [of c p "GList vs" s d] Let_def split: list.split)
        finally show ?thesis using False GList assms by (simp add: flatten.simps [of c p "GList vs" r d])
      next
        case (GMap kvs)
        show ?thesis using False GMap fold [OF less.prems, of "\<lambda>kv. sub_key p (fst kv)" kvs]
          by (simp add: flatten.simps [of c p "GMap kvs" r d] extractSchema.simps [of c p "GMap kvs" s d])
      qed (use False put in \<open>simp_all add: flatten.simps [of c p _ r d] extractSchema.simps [of c p _ s d]\<close>)
    qed (use less.prems in \<open>simp add: flatten.simps [of c p v r d] extractSchema.simps [of c p v s d]\<close>)
  qed
  then show ?thesis by (simp add: ExtractFlat_def ExtractSchema_def)
qed

section \<open>What extraction by rules guarantees\<close>

text \<open>What a rule puts in the result, if anything.\<close>

definition rule_entry :: "('j, 'x) gjson_scheme \<Rightarrow> 'j \<Rightarrow> extract_rule \<Rightarrow> (string \<times> goval) option" where
  "rule_entry gj root rule =
     (let v = gj_Get gj root (er_Selector rule) in
      if gj_Exists gj v then Some (er_Field rule, json_value gj (er_Multiple rule) v)
      else if er_Default rule \<noteq> GNil then Some (er_Field rule, er_Default rule) else None)"

definition missing :: "('j, 'x) gjson_scheme \<Rightarrow> 'j \<Rightarrow> extract_rule \<Rightarrow> bool" where
  "missing gj root rule \<longleftrightarrow> er_Required rule \<and> \<not> gj_Exists gj (gj_Get gj root (er_Selector rule))"

lemma json_rules_spec:
  "json_rules gj root rules r = (case find (missing gj root) rules of
     Some rule \<Rightarrow> Inl (''required field '' @ er_Field rule @ '' not found'')
   | None \<Rightarrow> Inr (fold (\<lambda>e. AList.update (fst e) (snd e)) (List.map_filter (rule_entry gj root) rules) r))"
proof (induction rules arbitrary: r)
  case (Cons rule rules)
  then show ?case
    by (cases "gj_Exists gj (gj_Get gj root (er_Selector rule))")
      (simp_all add: missing_def [of gj root rule] rule_entry_def [of gj root rule] Let_def split: option.split)
qed simp

lemma map_of_fold_update:
  "map_of (fold (\<lambda>e. AList.update (fst e) (snd e)) es r) = map_of r ++ map_of (rev es)"
  by (induction es arbitrary: r) (auto simp: update_conv' map_add_def fun_eq_iff split: option.splits)


definition sample_gjson :: "string gjson" where
  "sample_gjson = \<lparr>gj_Valid = (\<lambda>s. s \<noteq> []), gj_Parse = (\<lambda>s. s), gj_Get = (\<lambda>j p. if p = ''a'' then ''1'' else []),
     gj_Exists = (\<lambda>j. j \<noteq> []), gj_IsArray = (\<lambda>j. False), gj_Array = (\<lambda>j. []), gj_Value = GStr,
     gj_String = (\<lambda>j. j), gj_IsString = (\<lambda>j. True)\<rparr>"

definition sample_rule :: "string \<Rightarrow> bool \<Rightarrow> extract_rule" where
  "sample_rule sel req = ExtractRule ''f'' sel ''json'' [] False req (GStr ''d'') [] []"


end
