(* ===== verification/HtmlExtractor.thy ===== *)
theory HtmlExtractor
  imports JsonExtractor
begin

text \<open>
  The CSS extractor (src/crawler/extractor/css.go), which the worker nodes use by default, and the HTML
  extractor (src/crawler/extractor/html.go).  goquery and htmlquery are arguments: a record of the
  operations the code calls on documents and on elements; a selection is the list of its elements.  The
  preparation of a document (scripts, styles and comments removed) is goquery's own work and an argument.
  \<open>None\<close> stands for a panic.
\<close>

record ('d, 's) goquery =
  gq_Parse :: "string \<Rightarrow> string + 'd"
  gq_Find :: "'d \<Rightarrow> string \<Rightarrow> 's list"
  gq_Within :: "'s \<Rightarrow> string \<Rightarrow> 's list"
  gq_Attr :: "'s \<Rightarrow> string \<Rightarrow> string option"
  gq_Text :: "'s \<Rightarrow> string"
  gq_Html :: "'s \<Rightarrow> string"
  gq_DocText :: "'d \<Rightarrow> string"
  gq_DocHtml :: "'d \<Rightarrow> string"

definition first_of :: "'a list \<Rightarrow> 'a option" where
  "first_of xs = (case xs of [] \<Rightarrow> None | x # _ \<Rightarrow> Some x)"

section \<open>The CSS extractor\<close>

definition css_extractValue :: "('d, 's, 'x) goquery_scheme \<Rightarrow> 's option \<Rightarrow> string \<Rightarrow> string" where
  "css_extractValue gq so attribute =
     TrimSpace (case so of
        None \<Rightarrow> []
      | Some s \<Rightarrow> if attribute \<noteq> [] then (case gq_Attr gq s attribute of Some v \<Rightarrow> v | None \<Rightarrow> []) else gq_Text gq s)"

text \<open>
  A compiled pattern here gives the groups of the first match.  An \<open>int\<close> parameter is \<open>GInt\<close>; a number
  of a task decoded from JSON is a float.
\<close>

definition css_transform :: "(string \<rightharpoonup> (string \<rightharpoonup> string list)) \<Rightarrow> string \<Rightarrow> transform_rule \<Rightarrow> string option" where
  "css_transform compile s tr =
     (let ty = tr_Type tr in
      if ty = ''trim'' then Some (TrimSpace s)
      else if ty = ''replace'' then
        (case (str_param tr ''old'', str_param tr ''new'') of
           (Some x, Some y) \<Rightarrow> Some (ReplaceAll s x y) | _ \<Rightarrow> Some s)
      else if ty = ''regex'' then
        (case str_param tr ''pattern'' of
           None \<Rightarrow> Some s
         | Some p \<Rightarrow> (case compile p of
               None \<Rightarrow> Some s
             | Some re \<Rightarrow> (case re s of Some (w # g # gs) \<Rightarrow> Some g | _ \<Rightarrow> Some s)))
      else if ty = ''split'' then
        (case (str_param tr ''separator'', case tr_Params tr of None \<Rightarrow> None | Some m \<Rightarrow> m ''index'') of
           (Some sep, Some (GInt i)) \<Rightarrow>
             (if i < int (length (Split s sep)) then (if i < 0 then None else Some (Split s sep ! nat i)) else Some s)
         | _ \<Rightarrow> Some s)
      else Some s)"

fun css_transforms :: "(string \<rightharpoonup> (string \<rightharpoonup> string list)) \<Rightarrow> string \<Rightarrow> transform_rule list \<Rightarrow> string option" where
  "css_transforms compile s [] = Some s"
| "css_transforms compile s (tr # trs) =
     (case css_transform compile s tr of None \<Rightarrow> None | Some s1 \<Rightarrow> css_transforms compile s1 trs)"

text \<open>The dynamic types a field of the result can have.\<close>

datatype css_value =
    CssText string
  | CssTexts "string list"
  | CssDefault goval
  | CssRecords "(string \<times> string) list list"

fun css_goval :: "css_value \<Rightarrow> goval" where
  "css_goval (CssText s) = GStr s"
| "css_goval (CssTexts ss) = GStrs ss"
| "css_goval (CssDefault v) = v"
| "css_goval (CssRecords rs) = GList (map (\<lambda>r. GMap (map (\<lambda>(k, v). (k, GStr v)) r)) rs)"

definition css_own :: "('d, 's, 'x) goquery_scheme \<Rightarrow> (string \<rightharpoonup> (string \<rightharpoonup> string list)) \<Rightarrow> 'd \<Rightarrow> extract_rule \<Rightarrow>
    (string \<times> css_value) list \<Rightarrow> (string + (string \<times> css_value) list) option" where
  "css_own gq compile doc rule r =
     (let sel = gq_Find gq doc (er_Selector rule);
          missing = Some (if er_Required rule then Inl (''required field '' @ er_Field rule @ '' not found'') else Inr r);
          put = (\<lambda>v. Some (Inr (AList.update (er_Field rule) v r)))
      in if er_Multiple rule then
           (let values = filter (\<lambda>v. v \<noteq> []) (map (\<lambda>s. css_extractValue gq (Some s) (er_Attribute rule)) sel) in
            if values \<noteq> [] then put (CssTexts values)
            else if er_Default rule \<noteq> GNil then put (CssDefault (er_Default rule)) else missing)
         else
           (let value = css_extractValue gq (first_of sel) (er_Attribute rule) in
            if value \<noteq> [] then
              (case css_transforms compile value (er_Transform rule) of None \<Rightarrow> None | Some v \<Rightarrow> put (CssText v))
            else if er_Default rule \<noteq> GNil then put (CssDefault (er_Default rule)) else missing))"

definition css_child :: "('d, 's, 'x) goquery_scheme \<Rightarrow> 'd \<Rightarrow> extract_rule list \<Rightarrow> (string \<times> string) list" where
  "css_child gq doc rules =
     fold (\<lambda>rule r. let v = css_extractValue gq (first_of (gq_Find gq doc (er_Selector rule))) (er_Attribute rule) in
       if v \<noteq> [] then AList.update (er_Field rule) v r else r) rules []"

fun css_nested :: "('d, 's, 'x) goquery_scheme \<Rightarrow> extract_rule \<Rightarrow> 's list \<Rightarrow> (string \<times> css_value) list \<Rightarrow> (string \<times> css_value) list option" where
  "css_nested gq rule [] r = Some r"
| "css_nested gq rule (s # ss) r =
     (case gq_Parse gq (gq_Html gq s) of
        Inl _ \<Rightarrow> None
      | Inr d \<Rightarrow>
          (case css_child gq d (er_Children rule) of
             [] \<Rightarrow> css_nested gq rule ss r
           | c # cs \<Rightarrow> css_nested gq rule ss (AList.update (er_Field rule)
               (CssRecords ((case map_of r (er_Field rule) of Some (CssRecords old) \<Rightarrow> old | _ \<Rightarrow> []) @ [c # cs])) r)))"

fun css_rules :: "('d, 's, 'x) goquery_scheme \<Rightarrow> (string \<rightharpoonup> (string \<rightharpoonup> string list)) \<Rightarrow> 'd \<Rightarrow> extract_rule list \<Rightarrow>
    (string \<times> css_value) list \<Rightarrow> (string + (string \<times> css_value) list) option" where
  "css_rules gq compile doc [] r = Some (Inr r)"
| "css_rules gq compile doc (rule # rules) r =
     (if er_Type rule \<noteq> ''css'' \<and> er_Type rule \<noteq> [] then css_rules gq compile doc rules r
      else case css_own gq compile doc rule r of
          None \<Rightarrow> None
        | Some (Inl e) \<Rightarrow> Some (Inl e)
        | Some (Inr r1) \<Rightarrow>
            (case (if er_Children rule = [] then Some r1 else css_nested gq rule (gq_Find gq doc (er_Selector rule)) r1) of
               None \<Rightarrow> None | Some r2 \<Rightarrow> css_rules gq compile doc rules r2))"

definition css_Extract :: "('d, 's, 'x) goquery_scheme \<Rightarrow> (string \<rightharpoonup> (string \<rightharpoonup> string list)) \<Rightarrow> page \<Rightarrow> extract_rule list \<Rightarrow> (string + fields) option" where
  "css_Extract gq compile resp rules =
     (case gq_Parse gq (text_of (pg_Body resp)) of
        Inl e \<Rightarrow> Some (Inl (''failed to parse HTML: '' @ e))
      | Inr doc \<Rightarrow> (case css_rules gq compile doc rules [] of
            None \<Rightarrow> None
          | Some (Inl e) \<Rightarrow> Some (Inl e)
          | Some (Inr r) \<Rightarrow> Some (Inr (map (\<lambda>(k, v). (k, css_goval v)) r))))"

section \<open>Links of a page\<close>

definition css_absolute :: "string \<Rightarrow> string \<Rightarrow> string option" where
  "css_absolute url href =
     (if HasPrefix href ''http'' \<or> \<not> HasPrefix href ''/'' then Some href
      else if length url < 8 then None
      else case Index (drop 8 url) ''/'' of
          Some (Suc i) \<Rightarrow> Some (take (Suc i + 8) url @ href)
        | _ \<Rightarrow> Some (url @ href))"

definition css_skips :: "string \<Rightarrow> bool" where
  "css_skips href = (href = [] \<or> HasPrefix href ''#'' \<or> HasPrefix href ''javascript:'')"

fun css_links :: "string \<Rightarrow> string list \<Rightarrow> string list \<Rightarrow> string list option" where
  "css_links url [] links = Some links"
| "css_links url (h # hs) links =
     (let href = TrimSpace h in
      if css_skips href then css_links url hs links
      else case css_absolute url href of
          None \<Rightarrow> None
        | Some a \<Rightarrow> css_links url hs (if a \<in> set links then links else links @ [a]))"

definition css_ExtractLinks :: "('d, 's, 'x) goquery_scheme \<Rightarrow> page \<Rightarrow> (string + string list) option" where
  "css_ExtractLinks gq resp =
     (case gq_Parse gq (text_of (pg_Body resp)) of
        Inl e \<Rightarrow> Some (Inl (''failed to parse HTML: '' @ e))
      | Inr doc \<Rightarrow> map_option Inr
          (css_links (pg_URL resp) (List.map_filter (\<lambda>s. gq_Attr gq s ''href'') (gq_Find gq doc ''a[href]'')) []))"

section \<open>The HTML extractor\<close>

record html_config =
  hc_DefaultEncoding :: string
  hc_RemoveScripts :: bool
  hc_RemoveStyles :: bool
  hc_NormalizeWhitespace :: bool
  hc_MaxDocumentSize :: int

definition DefaultHTMLExtractorConfig :: html_config where
  "DefaultHTMLExtractorConfig = \<lparr>hc_DefaultEncoding = ''utf-8'', hc_RemoveScripts = True, hc_RemoveStyles = True,
     hc_NormalizeWhitespace = True, hc_MaxDocumentSize = 10 * 1024 * 1024\<rparr>"

definition normalizeWhitespace :: "string \<Rightarrow> string" where
  "normalizeWhitespace s = TrimSpace (squeeze False s)"

definition clean_text :: "html_config \<Rightarrow> string \<Rightarrow> string" where
  "clean_text cfg s = (if hc_NormalizeWhitespace cfg then normalizeWhitespace s else s)"

definition resolveURL :: "string \<Rightarrow> string \<Rightarrow> string" where
  "resolveURL base rel =
     (let parts = SplitN 4 ''/'' base;
          base1 = (if HasSuffix base ''/'' then base else base @ ''/'')
      in if HasPrefix rel ''http://'' \<or> HasPrefix rel ''https://'' then rel
         else if HasPrefix rel ''//'' then (if HasPrefix base ''https:'' then ''https:'' @ rel else ''http:'' @ rel)
         else if HasPrefix rel ''/'' \<and> length parts \<ge> 3 then parts ! 0 @ ''//'' @ parts ! 2 @ rel
         else base1 @ rel)"

definition element_value :: "('d, 's, 'x) goquery_scheme \<Rightarrow> html_config \<Rightarrow> string \<Rightarrow> 's \<Rightarrow> string" where
  "element_value gq cfg attr s =
     clean_text cfg (if attr \<noteq> [] then (case gq_Attr gq s attr of Some v \<Rightarrow> v | None \<Rightarrow> []) else gq_Text gq s)"

definition ExtractWithCSS :: "('d, 's, 'x) goquery_scheme \<Rightarrow> html_config \<Rightarrow> string \<Rightarrow> string \<Rightarrow> string \<Rightarrow> string + string list" where
  "ExtractWithCSS gq cfg content selector attr =
     (case gq_Parse gq content of
        Inl e \<Rightarrow> Inl e
      | Inr doc \<Rightarrow> Inr (filter (\<lambda>v. v \<noteq> []) (map (element_value gq cfg attr) (gq_Find gq doc selector))))"

text \<open>\<open>query\<close> is \<open>htmlquery\<close>: the inner texts of the nodes an expression selects in a text.\<close>

definition ExtractWithXPath :: "(string \<Rightarrow> string \<Rightarrow> string + string list) \<Rightarrow> html_config \<Rightarrow> string \<Rightarrow> string \<Rightarrow> string + string list" where
  "ExtractWithXPath query cfg content xpath =
     (case query content xpath of
        Inl e \<Rightarrow> Inl (''XPath query failed: '' @ e)
      | Inr texts \<Rightarrow> Inr (filter (\<lambda>v. v \<noteq> []) (map (clean_text cfg) texts)))"

definition ExtractWithRegex :: "(string \<rightharpoonup> pattern) \<Rightarrow> string \<Rightarrow> string \<Rightarrow> regex_cache \<Rightarrow> string list option \<times> regex_cache" where
  "ExtractWithRegex compile text p cache =
     (case cached_regex compile p cache of
        (None, c) \<Rightarrow> (None, c)
      | (Some re, c) \<Rightarrow> (Some (concat (map match_value (re text))), c))"

record html_rule = xrule +
  xr_Attribute :: string

definition html_extractByRule :: "('d, 's, 'x) goquery_scheme \<Rightarrow> (string \<Rightarrow> string \<Rightarrow> string + string list) \<Rightarrow> (string \<rightharpoonup> pattern) \<Rightarrow>
    html_config \<Rightarrow> 'd \<Rightarrow> html_rule \<Rightarrow> regex_cache \<Rightarrow> string list \<times> regex_cache" where
  "html_extractByRule gq query compile cfg doc rule cache =
     (if xr_Sel_type rule = ''css'' then
        (filter (\<lambda>v. v \<noteq> []) (map (element_value gq cfg (xr_Attribute rule)) (gq_Find gq doc (xr_Selector rule))), cache)
      else if xr_Sel_type rule = ''xpath'' then
        ((case query (gq_DocHtml gq doc) (xr_Selector rule) of
            Inl _ \<Rightarrow> []
          | Inr texts \<Rightarrow> (let vs = filter (\<lambda>v. v \<noteq> []) (map (clean_text cfg) texts) in
              if xr_Multiple rule then vs else take 1 vs)), cache)
      else if xr_Sel_type rule = ''regex'' then
        (let (ms, c) = ExtractWithRegex compile (gq_DocHtml gq doc) (xr_Selector rule) cache in
         (case ms of Some vs \<Rightarrow> vs | None \<Rightarrow> [], c))
      else ([], cache))"

definition html_rule_rows :: "html_rule \<Rightarrow> string list \<Rightarrow> (string \<times> string) list list" where
  "html_rule_rows rule extracted =
     (if xr_Multiple rule then map (\<lambda>v. [(xr_Field rule, v)]) extracted
      else case extracted of
          v # _ \<Rightarrow> [[(xr_Field rule, v)]]
        | [] \<Rightarrow> if xr_DefaultValue rule \<noteq> [] then [[(xr_Field rule, xr_DefaultValue rule)]] else [])"

fun html_rows :: "('d, 's, 'x) goquery_scheme \<Rightarrow> (string \<Rightarrow> string \<Rightarrow> string + string list) \<Rightarrow> (string \<rightharpoonup> pattern) \<Rightarrow>
    html_config \<Rightarrow> 'd \<Rightarrow> html_rule list \<Rightarrow> regex_cache \<Rightarrow> (string \<times> string) list list \<times> regex_cache" where
  "html_rows gq query compile cfg doc [] cache = ([], cache)"
| "html_rows gq query compile cfg doc (rule # rules) cache =
     (let (vs, c) = html_extractByRule gq query compile cfg doc rule cache;
          (rows, c') = html_rows gq query compile cfg doc rules c
      in (html_rule_rows rule vs @ rows, c'))"

definition html_Extract :: "('d, 's, 'x) goquery_scheme \<Rightarrow> (string \<Rightarrow> string \<Rightarrow> string + string list) \<Rightarrow> (string \<rightharpoonup> pattern) \<Rightarrow>
    ('d \<Rightarrow> 'd) \<Rightarrow> html_config \<Rightarrow> string \<Rightarrow> html_rule list \<Rightarrow> regex_cache \<Rightarrow>
    (string + (string \<times> string) list list) \<times> regex_cache" where
  "html_Extract gq query compile preprocess cfg content rules cache =
     (if int (length content) > hc_MaxDocumentSize cfg then
        (Inl (''document size exceeds limit: '' @ dec_of_nat (length content) @ '' > '' @ dec_of_int (hc_MaxDocumentSize cfg)), cache)
      else case gq_Parse gq content of
          Inl e \<Rightarrow> (Inl (''failed to parse HTML: '' @ e), cache)
        | Inr doc0 \<Rightarrow>
            let doc = preprocess doc0 in
            if rules = [] then
              (Inr [[(''text'', gq_DocText gq doc), (''title'', concat (map (gq_Text gq) (gq_Find gq doc ''title''))),
                     (''html'', content)]], cache)
            else (case html_rows gq query compile cfg doc rules cache of (rows, c) \<Rightarrow> (Inr rows, c)))"

fun add_links :: "string \<Rightarrow> string list \<Rightarrow> string list \<Rightarrow> string list" where
  "add_links base [] links = links"
| "add_links base (h # hs) links =
     (if h = [] then add_links base hs links
      else let a = (if base \<noteq> [] then resolveURL base h else h) in
        add_links base hs (if a \<in> set links then links else links @ [a]))"

definition html_ExtractLinks :: "('d, 's, 'x) goquery_scheme \<Rightarrow> string \<Rightarrow> string \<Rightarrow> string + string list" where
  "html_ExtractLinks gq content base =
     (case gq_Parse gq content of
        Inl e \<Rightarrow> Inl e
      | Inr doc \<Rightarrow> Inr (add_links base (List.map_filter (\<lambda>s. gq_Attr gq s ''href'') (gq_Find gq doc ''a[href]'')) []))"

definition image_of :: "('d, 's, 'x) goquery_scheme \<Rightarrow> string \<Rightarrow> 's \<Rightarrow> (string \<times> string) list" where
  "image_of gq base s =
     (case gq_Attr gq s ''src'' of
        Some src \<Rightarrow> if src \<noteq> [] then [(''src'', if base \<noteq> [] then resolveURL base src else src)] else []
      | None \<Rightarrow> []) @
     (case gq_Attr gq s ''alt'' of Some a \<Rightarrow> [(''alt'', a)] | None \<Rightarrow> []) @
     (case gq_Attr gq s ''title'' of Some a \<Rightarrow> [(''title'', a)] | None \<Rightarrow> [])"

definition ExtractImages :: "('d, 's, 'x) goquery_scheme \<Rightarrow> string \<Rightarrow> string \<Rightarrow> string + (string \<times> string) list list" where
  "ExtractImages gq content base =
     (case gq_Parse gq content of
        Inl e \<Rightarrow> Inl e
      | Inr doc \<Rightarrow> Inr (filter (\<lambda>m. m \<noteq> []) (map (image_of gq base) (gq_Find gq doc ''img''))))"

definition meta_from :: "('d, 's, 'x) goquery_scheme \<Rightarrow> string \<Rightarrow> string \<Rightarrow> 's \<Rightarrow> (string \<rightharpoonup> string) \<Rightarrow> (string \<rightharpoonup> string)" where
  "meta_from gq attr pre s m =
     (case gq_Attr gq s attr of
        None \<Rightarrow> m
      | Some name \<Rightarrow> if name = [] then m
          else (case gq_Attr gq s ''content'' of None \<Rightarrow> m | Some c \<Rightarrow> m(pre @ name \<mapsto> c)))"

definition html_ExtractMeta :: "('d, 's, 'x) goquery_scheme \<Rightarrow> string \<Rightarrow> string + (string \<rightharpoonup> string)" where
  "html_ExtractMeta gq content =
     (case gq_Parse gq content of
        Inl e \<Rightarrow> Inl e
      | Inr doc \<Rightarrow> Inr (fold (\<lambda>s m. meta_from gq ''http-equiv'' ''http-equiv:'' s
            (meta_from gq ''property'' [] s (meta_from gq ''name'' [] s m)))
          (gq_Find gq doc ''meta'') [''title'' \<mapsto> concat (map (gq_Text gq) (gq_Find gq doc ''title''))]))"

definition ExtractTable :: "('d, 's, 'x) goquery_scheme \<Rightarrow> html_config \<Rightarrow> string \<Rightarrow> string \<Rightarrow> string + string list list" where
  "ExtractTable gq cfg content selector =
     (case gq_Parse gq content of
        Inl e \<Rightarrow> Inl e
      | Inr doc \<Rightarrow> Inr (filter (\<lambda>row. row \<noteq> [])
          (concat (map (\<lambda>table. map (\<lambda>row. map (\<lambda>cell. clean_text cfg (gq_Text gq cell)) (gq_Within gq row ''td, th''))
             (gq_Within gq table ''tr''))
           (gq_Find gq doc (if selector = [] then ''table'' else selector))))))"

section \<open>What link extraction guarantees\<close>

definition first_occurrences :: "'a list \<Rightarrow> 'a list" where
  "first_occurrences xs = rev (remdups (rev xs))"

lemma first_occurrences_snoc:
  "first_occurrences (xs @ [x]) = (if x \<in> set xs then first_occurrences xs else first_occurrences xs @ [x])"
  by (simp add: first_occurrences_def)

lemma set_first_occurrences [simp]: "set (first_occurrences xs) = set xs"
  by (simp add: first_occurrences_def)

lemma distinct_first_occurrences [simp]: "distinct (first_occurrences xs)"
  by (simp add: first_occurrences_def)

text \<open>The addresses kept of a page, in document order, before duplicates go.\<close>

definition kept_links :: "string list \<Rightarrow> string list" where
  "kept_links hs = filter (\<lambda>h. \<not> css_skips h) (map TrimSpace hs)"

lemma kept_links_Cons:
  "kept_links (h # hs) = (if css_skips (TrimSpace h) then kept_links hs else TrimSpace h # kept_links hs)"
  by (simp add: kept_links_def)

lemma css_links_run:
  "css_links url hs (first_occurrences ls) =
     (if \<exists>h \<in> set (kept_links hs). css_absolute url h = None then None
      else Some (first_occurrences (ls @ map (\<lambda>h. the (css_absolute url h)) (kept_links hs))))"
proof (induction hs arbitrary: ls)
  case (Cons h hs)
  show ?case
  proof (cases "css_skips (TrimSpace h)")
    case True
    then show ?thesis using Cons by (simp add: kept_links_Cons Let_def)
  next
    case False
    show ?thesis
    proof (cases "css_absolute url (TrimSpace h)")
      case None
      then show ?thesis using False by (simp add: kept_links_Cons Let_def)
    next
      case (Some a)
      have "css_links url (h # hs) (first_occurrences ls) = css_links url hs (first_occurrences (ls @ [a]))"
        using False Some by (simp add: Let_def first_occurrences_snoc)
      then show ?thesis using False Some Cons.IH [of "ls @ [a]"] by (simp add: kept_links_Cons)
    qed
  qed
qed (simp add: kept_links_def)

text \<open>
  Link extraction returns the page's addresses, made absolute, in document order and each once; none
  is empty, an anchor or a script.  It panics exactly when the address of the page is shorter than eight
  bytes and some link starts with a slash.
\<close>
theorem css_links_spec:
  "(css_links url hs [] = None \<longleftrightarrow>
      length url < 8 \<and> (\<exists>h \<in> set (kept_links hs). HasPrefix h ''/'')) \<and>
   (\<forall>ls. css_links url hs [] = Some ls \<longrightarrow> distinct ls \<and>
      ls = first_occurrences (map (\<lambda>h. the (css_absolute url h)) (kept_links hs)) \<and>
      (\<forall>a. a \<in> set ls \<longleftrightarrow> (\<exists>h \<in> set (kept_links hs). css_absolute url h = Some a)))"
proof -
  have run: "css_links url hs [] = (if \<exists>h \<in> set (kept_links hs). css_absolute url h = None then None
      else Some (first_occurrences (map (\<lambda>h. the (css_absolute url h)) (kept_links hs))))"
    using css_links_run [of url hs "[]"] by (simp add: first_occurrences_def)
  have none: "css_absolute url h = None \<longleftrightarrow> length url < 8 \<and> HasPrefix h ''/''" for h
  proof -
    have "\<not> (HasPrefix h ''http'' \<and> HasPrefix h ''/'')" by (auto simp: HasPrefix_iff)
    then show ?thesis by (auto simp: css_absolute_def split: option.split nat.split)
  qed
  show ?thesis
  proof (cases "\<exists>h \<in> set (kept_links hs). css_absolute url h = None")
    case True
    then show ?thesis using run none by auto
  next
    case False
    then have "\<forall>h \<in> set (kept_links hs). css_absolute url h = Some (the (css_absolute url h))" by simp
    then have "a \<in> set (map (\<lambda>h. the (css_absolute url h)) (kept_links hs)) \<longleftrightarrow> (\<exists>h \<in> set (kept_links hs). css_absolute url h = Some a)" for a
      by (force simp: image_iff)
    then show ?thesis using run none False by auto
  qed
qed

lemma css_links_spec_witness:
  "css_links ''http://site.org/a/b'' [''/x'', ''#top'', '' /x'', ''http://o.org''] [] = Some [''http://site.org/x'', ''http://o.org'']"
  using css_links_spec [of "''http://site.org/a/b''" "[''/x'', ''#top'', '' /x'', ''http://o.org'']"]
  by (simp add: Let_def TrimSpace_def ascii_space_def css_skips_def HasPrefix_def css_absolute_def)

lemma Index_slash:
  "CHR ''/'' \<notin> set a \<Longrightarrow> Index a ''/'' = None"
  "CHR ''/'' \<notin> set a \<Longrightarrow> Index (a @ CHR ''/'' # b) ''/'' = Some (length a)"
  by (induction a) (auto simp: HasPrefix_def)

lemma SplitN_address:
  assumes "CHR ''/'' \<notin> set sch" and "CHR ''/'' \<notin> set host" and "path = [] \<or> hd path = CHR ''/''"
  shows "take 3 (SplitN 4 ''/'' (sch @ ''://'' @ host @ path)) = [sch @ '':'', [], host]"
proof -
  have s: "Index (sch @ ''://'' @ host @ path) ''/'' = Some (length sch + 1)"
    using Index_slash(2) [of "sch @ '':''" "CHR ''/'' # host @ path"] assms(1) by simp
  show ?thesis
  proof (cases path)
    case Nil
    then show ?thesis using s assms(2)
      by (simp add: eval_nat_numeral Index_slash HasPrefix_def)
  next
    case (Cons c r)
    then have "path = CHR ''/'' # r" using assms(3) by simp
    then show ?thesis using s assms(2) Index_slash(2) [OF assms(2), of r]
      by (simp add: eval_nat_numeral HasPrefix_def split: option.split)
  qed
qed

text \<open>
  Both extractors put a link that starts with one slash under the scheme and host of the page,
  whatever the page's path, when scheme and host together have at least six characters; on a shorter
  \<open>http\<close> host with a path the CSS extractor appends the link to the address of the whole page.
\<close>
theorem relative_links:
  assumes "sch = ''http'' \<or> sch = ''https''" and "host \<noteq> []" and "CHR ''/'' \<notin> set host"
    and "path = [] \<or> hd path = CHR ''/''" and "href = CHR ''/'' # r" and "r = [] \<or> hd r \<noteq> CHR ''/''"
    and "url = sch @ ''://'' @ host @ path"
  shows "resolveURL url href = sch @ ''://'' @ host @ href \<and>
    css_absolute url href = Some (if length sch + length host \<ge> 6 \<or> path = [] then resolveURL url href else url @ href)"
proof -
  have "take 3 (SplitN 4 ''/'' url) = [sch @ '':'', [], host]"
    unfolding assms(7) by (rule SplitN_address) (use assms in auto)
  then have parts: "length (SplitN 4 ''/'' url) \<ge> 3" "SplitN 4 ''/'' url ! 0 = sch @ '':''" "SplitN 4 ''/'' url ! 2 = host"
    by (metis length_take length_Cons list.size(3) min.cobounded1 numeral_3_eq_3,
        metis nth_Cons_0 nth_take zero_less_numeral,
        metis nth_Cons_0 nth_Cons_Suc nth_take numeral_2_eq_2 lessI numeral_3_eq_3)
  have res: "resolveURL url href = sch @ ''://'' @ host @ href"
    using parts assms(5,6) by (cases r) (simp_all add: resolveURL_def HasPrefix_def Let_def)
  obtain c h where h: "host = c # h" using assms(2) by (cases host) auto
  have drop: "drop 8 url = (if sch = ''http'' then h else host) @ path"
    using assms(1) by (auto simp: assms(7) h)
  have sl: "css_absolute url href = (case Index (drop 8 url) ''/'' of
      Some (Suc i) \<Rightarrow> Some (take (Suc i + 8) url @ href) | _ \<Rightarrow> Some (url @ href))"
  proof -
    have "\<not> length url < 8" using assms(1) by (auto simp: assms(7) h)
    moreover have "\<not> HasPrefix href ''http''" "HasPrefix href ''/''" using assms(5) by (simp_all add: HasPrefix_def)
    ultimately show ?thesis by (simp add: css_absolute_def)
  qed
  have "css_absolute url href = Some (if length sch + length host \<ge> 6 \<or> path = [] then sch @ ''://'' @ host @ href else url @ href)"
  proof (cases path)
    case Nil
    have "Index (drop 8 url) ''/'' = None" using assms(3) Nil h by (auto simp: drop Index_slash)
    then have "css_absolute url href = Some (url @ href)" using sl by simp
    then show ?thesis using Nil by (simp add: assms(7))
  next
    case (Cons d p)
    then have p: "path = CHR ''/'' # p" using assms(4) by simp
    then have i: "Index (drop 8 url) ''/'' = Some (if sch = ''http'' then length h else length host)"
      using assms(3) h Index_slash(2) [of h p] Index_slash(2) [of host p] by (simp add: drop)
    have "css_absolute url href = Some (case if sch = ''http'' then length h else length host of
        0 \<Rightarrow> url @ href | Suc n \<Rightarrow> take (Suc n + 8) url @ href)"
      by (simp add: sl i split: nat.split)
    then show ?thesis using assms(1) by (cases h) (auto simp: h p assms(7) take_Cons')
  qed
  then show ?thesis using res by simp
qed

lemma relative_links_witness:
  "css_absolute ''http://a/docs'' ''/x'' = Some ''http://a/docs/x'' \<and> resolveURL ''http://a/docs'' ''/x'' = ''http://a/x''"
  using relative_links [of "''http''" "''a''" "''/docs''" "''/x''" "''x''" "''http://a/docs''"] by simp

text \<open>The \<open>index\<close> of a split read from JSON is a float, and the split is skipped; a negative one panics.\<close>

lemma css_split_index:
  assumes "tr_Type tr = ''split''" and "tr_Params tr = Some m" and "m ''separator'' = Some (GStr sep)"
  shows "m ''index'' = Some (GFloat w) \<Longrightarrow> css_transform compile s tr = Some s"
    and "m ''index'' = Some (GInt i) \<Longrightarrow> i < 0 \<Longrightarrow> css_transform compile s tr = None"
  using assms by (simp_all add: css_transform_def str_param_def)

text \<open>A rule with children holds one record for every element with a child value.\<close>

lemma css_nested_spec:
  assumes "\<And>s. s \<in> set ss \<Longrightarrow> gq_Parse gq (gq_Html gq s) = Inr (doc s)"
    and "map_of r (er_Field rule) = Some (CssRecords old) \<or> old = [] \<and> (\<forall>x. map_of r (er_Field rule) \<noteq> Some (CssRecords x))"
    and "cs = filter (\<lambda>c. c \<noteq> []) (map (\<lambda>s. css_child gq (doc s) (er_Children rule)) ss)"
  shows "\<exists>r'. css_nested gq rule ss r = Some r' \<and>
    map_of r' = (if cs = [] then map_of r else (map_of r)(er_Field rule \<mapsto> CssRecords (old @ cs)))"
  using assms
proof (induction ss arbitrary: r old cs)
  case (Cons s ss)
  let ?cs = "filter (\<lambda>c. c \<noteq> []) (map (\<lambda>s. css_child gq (doc s) (er_Children rule)) ss)"
  show ?case
  proof (cases "css_child gq (doc s) (er_Children rule)")
    case Nil
    obtain r' where "css_nested gq rule ss r = Some r'"
        "map_of r' = (if ?cs = [] then map_of r else (map_of r)(er_Field rule \<mapsto> CssRecords (old @ ?cs)))"
      using Cons.IH [of r old ?cs] Cons.prems by auto
    moreover have "cs = ?cs" using Nil Cons.prems(3) by simp
    ultimately show ?thesis using Nil Cons.prems(1) by simp
  next
    case c: (Cons c x)
    have old: "(case map_of r (er_Field rule) of Some (CssRecords o') \<Rightarrow> o' | _ \<Rightarrow> []) = old"
      using Cons.prems(2) by (auto split: option.split css_value.split)
    let ?r = "AList.update (er_Field rule) (CssRecords (old @ [c # x])) r"
    obtain r' where r': "css_nested gq rule ss ?r = Some r'"
        "map_of r' = (if ?cs = [] then map_of ?r else (map_of ?r)(er_Field rule \<mapsto> CssRecords ((old @ [c # x]) @ ?cs)))"
      using Cons.IH [of ?r "old @ [c # x]" ?cs] Cons.prems by (auto simp: update_conv')
    have cs: "cs = (c # x) # ?cs" using c Cons.prems(3) by simp
    have step: "css_nested gq rule (s # ss) r = css_nested gq rule ss ?r"
      using c old Cons.prems(1) [of s] by simp
    have upd: "map_of ?r = (map_of r)(er_Field rule \<mapsto> CssRecords (old @ [c # x]))" by (simp add: update_conv')
    show ?thesis using r'(2) unfolding step r'(1) cs upd by (auto split: if_splits)
  qed
qed simp

end
