(* ===== verification/EventBus.thy ===== *)
theory EventBus
  imports GoText "HOL-Library.Multiset"
begin

text \<open>
  The event bus of the communication hub (src/crawler/communication/eventbus.go): subscribers, the
  buffered stream, the two goroutines that take from it, the Redis subscription and the persisted
  history.  The goroutines' turns are the steps of a relation.  What is written to Redis is the list of
  commands sent; \<open>marshal\<close> and \<open>unmarshal\<close> are the JSON codec.
\<close>

section \<open>Events and subscribers\<close>

record event =
  ev_ID :: string
  ev_Type :: string
  ev_Source :: string
  ev_Target :: string
  ev_Timestamp :: gotime
  ev_Data :: goval

text \<open>A handler is a function value: the code it points to and the instance it is bound to.\<close>

record event_handler =
  hd_code :: nat
  hd_receiver :: string

datatype zcommand =
    ZAdd string int string
  | ZRemRangeByScore string int

record bus =
  eb_redis :: bool
  eb_prefix :: string
  eb_subscribers :: "string \<Rightarrow> event_handler list"
  eb_stream :: "event list"
  eb_running :: bool
  eb_stopClosed :: bool
  eb_batch :: "event list"
  eb_publishing :: "event list"
  eb_commands :: "zcommand list"
  eb_calls :: "(event_handler \<times> event) list"

definition NewEventBus :: "bool \<Rightarrow> string \<Rightarrow> bus" where
  "NewEventBus redis pre = \<lparr>eb_redis = redis, eb_prefix = pre, eb_subscribers = (\<lambda>_. []), eb_stream = [],
     eb_running = False, eb_stopClosed = False, eb_batch = [], eb_publishing = [], eb_commands = [], eb_calls = []\<rparr>"

definition bus_Start :: "bus \<Rightarrow> (string, bus) sum" where
  "bus_Start b = (if eb_running b then Inl ''event bus already running'' else Inr (b\<lparr>eb_running := True, eb_batch := []\<rparr>))"

text \<open>\<open>None\<close>: the stop channel is closed a second time, a panic.\<close>

definition bus_Stop :: "bus \<Rightarrow> (string + bus) option" where
  "bus_Stop b =
     (if \<not> eb_running b then Some (Inl ''event bus not running'')
      else if eb_stopClosed b then None
      else Some (Inr (b\<lparr>eb_stopClosed := True, eb_running := False\<rparr>)))"

text \<open>A zero time is replaced by the current one.\<close>

definition stamped :: "gotime \<Rightarrow> event \<Rightarrow> event" where
  "stamped now e = (if ev_Timestamp e = time_zero then e\<lparr>ev_Timestamp := now\<rparr> else e)"

definition Publish :: "gotime \<Rightarrow> event \<Rightarrow> bus \<Rightarrow> bus" where
  "Publish now e b =
     (if \<not> eb_running b then b
      else let e1 = stamped now e;
               b1 = (if length (eb_stream b) < 1000 then b\<lparr>eb_stream := eb_stream b @ [e1]\<rparr> else b)
           in if eb_redis b then b1\<lparr>eb_publishing := eb_publishing b1 @ [e1]\<rparr> else b1)"

definition Subscribe :: "string \<Rightarrow> event_handler \<Rightarrow> bus \<Rightarrow> bus" where
  "Subscribe ty h b = b\<lparr>eb_subscribers := (eb_subscribers b)(ty := eb_subscribers b ty @ [h])\<rparr>"

text \<open>Handlers are compared by the address of their code.\<close>

definition Unsubscribe :: "string \<Rightarrow> event_handler \<Rightarrow> bus \<Rightarrow> bus" where
  "Unsubscribe ty h b =
     b\<lparr>eb_subscribers := (eb_subscribers b)(ty := remove_first (\<lambda>g. hd_code g = hd_code h) (eb_subscribers b ty))\<rparr>"

definition calls_for :: "event \<Rightarrow> bus \<Rightarrow> (event_handler \<times> event) list" where
  "calls_for e b = map (\<lambda>h. (h, e)) (eb_subscribers b (ev_Type e) @ eb_subscribers b ''*'')"

definition handleEvent :: "event \<Rightarrow> bus \<Rightarrow> bus" where
  "handleEvent e b = b\<lparr>eb_calls := eb_calls b @ calls_for e b\<rparr>"

section \<open>Persistence\<close>

definition history_key :: "string \<Rightarrow> string \<Rightarrow> string" where
  "history_key pre ty = pre @ '':events:history:'' @ ty"

text \<open>Whole seconds of a time, as \<open>Unix\<close> gives them for times after 1970.\<close>

definition unix :: "gotime \<Rightarrow> int" where
  "unix t = t div second"

definition retention :: duration where
  "retention = 7 * 24 * 60 * minute"

definition type_commands :: "(event \<rightharpoonup> string) \<Rightarrow> gotime \<Rightarrow> string \<Rightarrow> event list \<Rightarrow> string \<Rightarrow> zcommand list" where
  "type_commands marshal now pre events ty =
     List.map_filter (\<lambda>e. map_option (ZAdd (history_key pre ty) (unix (ev_Timestamp e))) (marshal e))
       (filter (\<lambda>e. ev_Type e = ty) events)
     @ [ZRemRangeByScore (history_key pre ty) (unix (now - retention))]"

text \<open>\<open>tys\<close>: the order in which the map from types to events is visited.\<close>

definition flushEvents :: "(event \<rightharpoonup> string) \<Rightarrow> gotime \<Rightarrow> string list \<Rightarrow> event list \<Rightarrow> bus \<Rightarrow> bus" where
  "flushEvents marshal now tys events b =
     (if events = [] \<or> \<not> eb_redis b then b
      else b\<lparr>eb_commands := eb_commands b @ concat (map (type_commands marshal now (eb_prefix b) events) tys)\<rparr>)"

definition visits_types :: "string list \<Rightarrow> event list \<Rightarrow> bool" where
  "visits_types tys events \<longleftrightarrow> distinct tys \<and> set tys = ev_Type ` set events"

definition history_of :: "(string \<rightharpoonup> event) \<Rightarrow> string list \<Rightarrow> event list" where
  "history_of unmarshal results = List.map_filter unmarshal results"

text \<open>\<open>query\<close> answers \<open>ZRANGEBYSCORE\<close> with a key, the two scores and a count.\<close>

definition GetEventHistory :: "(string \<Rightarrow> int \<Rightarrow> int \<Rightarrow> int \<Rightarrow> string + string list) \<Rightarrow> (string \<rightharpoonup> event) \<Rightarrow>
    bus \<Rightarrow> string \<Rightarrow> gotime \<Rightarrow> gotime \<Rightarrow> int \<Rightarrow> string + event list" where
  "GetEventHistory query unmarshal b ty t1 t2 limit =
     (if \<not> eb_redis b then Inl ''Redis not available''
      else case query (history_key (eb_prefix b) ty) (unix t1) (unix t2) limit of
          Inl e \<Rightarrow> Inl (''failed to get event history: '' @ e)
        | Inr results \<Rightarrow> Inr (history_of unmarshal results))"

definition cleaned_types :: "string list" where
  "cleaned_types = [''node.online'', ''node.offline'', ''node.heartbeat'', ''task.start'', ''task.complete'',
     ''task.failed'', ''metrics.update'', ''metrics.alert'']"

definition performCleanup :: "gotime \<Rightarrow> bus \<Rightarrow> bus" where
  "performCleanup now b = b\<lparr>eb_commands := eb_commands b @
     map (\<lambda>ty. ZRemRangeByScore (history_key (eb_prefix b) ty) (unix (now - retention))) cleaned_types\<rparr>"

definition GetEventStats :: "(string \<rightharpoonup> int) \<Rightarrow> bus \<Rightarrow> (string \<rightharpoonup> int)" where
  "GetEventStats zcard b =
     (if \<not> eb_redis b then Map.empty
      else (\<lambda>ty. if ty \<in> set cleaned_types then zcard (history_key (eb_prefix b) ty) else None))"

section \<open>The helpers that emit\<close>

definition EmitNodeEvent :: "gotime \<Rightarrow> string \<Rightarrow> string \<Rightarrow> string \<Rightarrow> goval \<Rightarrow> bus \<Rightarrow> bus" where
  "EmitNodeEvent now ident nodeID ty d b = Publish now \<lparr>ev_ID = ident, ev_Type = ty, ev_Source = nodeID,
     ev_Target = ''*'', ev_Timestamp = now, ev_Data = d\<rparr> b"

definition EmitTaskEvent :: "gotime \<Rightarrow> string \<Rightarrow> string \<Rightarrow> string \<Rightarrow> goval \<Rightarrow> bus \<Rightarrow> bus" where
  "EmitTaskEvent now ident taskID ty d b = Publish now \<lparr>ev_ID = ''task_'' @ taskID @ ''_'' @ ident, ev_Type = ty,
     ev_Source = ''task_manager'', ev_Target = ''*'', ev_Timestamp = now, ev_Data = d\<rparr> b"

definition EmitSystemEvent :: "gotime \<Rightarrow> string \<Rightarrow> string \<Rightarrow> goval \<Rightarrow> bus \<Rightarrow> bus" where
  "EmitSystemEvent now ident ty d b = Publish now \<lparr>ev_ID = ''sys_'' @ ident, ev_Type = ty, ev_Source = ''system'',
     ev_Target = ''*'', ev_Timestamp = now, ev_Data = d\<rparr> b"

section \<open>The goroutines\<close>

text \<open>
  The events each consumer took are kept beside the bus: those the local loop handled, those the
  persisting loop put in its batch, those handled from Redis, those published, and those dropped because
  the stream was full.
\<close>

record bus_log =
  bl_local :: "event list"
  bl_persisted :: "event list"
  bl_remote :: "event list"
  bl_published :: "event list"
  bl_dropped :: "event list"

definition no_log :: bus_log where
  "no_log = \<lparr>bl_local = [], bl_persisted = [], bl_remote = [], bl_published = [], bl_dropped = []\<rparr>"

text \<open>What the persisting loop does with an event it takes.\<close>

definition persist_event :: "(event \<rightharpoonup> string) \<Rightarrow> gotime \<Rightarrow> string list \<Rightarrow> event \<Rightarrow> bus \<Rightarrow> bus" where
  "persist_event marshal now tys e b =
     (let batch = eb_batch b @ [e] in
      if length batch \<ge> 100 then (flushEvents marshal now tys batch b)\<lparr>eb_batch := []\<rparr>
      else b\<lparr>eb_batch := batch\<rparr>)"

text \<open>
  An event published with Redis is sent there by a goroutine and comes back through the subscription,
  unless a codec or the transport fails; the subscription also brings the events of other processes.
\<close>

inductive bus_step :: "(event \<rightharpoonup> string) \<Rightarrow> (string \<rightharpoonup> event) \<Rightarrow> bus \<times> bus_log \<Rightarrow> bus \<times> bus_log \<Rightarrow> bool"
  for marshal unmarshal where
  publish: "eb_running b \<Longrightarrow>
    bus_step marshal unmarshal (b, l) (Publish now e b, l\<lparr>bl_published := bl_published l @ [stamped now e],
      bl_dropped := bl_dropped l @ (if length (eb_stream b) < 1000 then [] else [stamped now e])\<rparr>)"
| subscribe: "bus_step marshal unmarshal (b, l) (Subscribe ty h b, l)"
| unsubscribe: "bus_step marshal unmarshal (b, l) (Unsubscribe ty h b, l)"
| local: "eb_stream b = e # es \<Longrightarrow>
    bus_step marshal unmarshal (b, l) (handleEvent e (b\<lparr>eb_stream := es\<rparr>), l\<lparr>bl_local := bl_local l @ [e]\<rparr>)"
| persist: "eb_stream b = e # es \<Longrightarrow> visits_types tys (eb_batch b @ [e]) \<Longrightarrow>
    bus_step marshal unmarshal (b, l)
      (persist_event marshal now tys e (b\<lparr>eb_stream := es\<rparr>), l\<lparr>bl_persisted := bl_persisted l @ [e]\<rparr>)"
| tick: "visits_types tys (eb_batch b) \<Longrightarrow>
    bus_step marshal unmarshal (b, l) ((flushEvents marshal now tys (eb_batch b) b)\<lparr>eb_batch := []\<rparr>, l)"
| returned: "e \<in> set (eb_publishing b) \<Longrightarrow> marshal e = Some s \<Longrightarrow> unmarshal s = Some e' \<Longrightarrow>
    bus_step marshal unmarshal (b, l)
      (handleEvent e' (b\<lparr>eb_publishing := remove1 e (eb_publishing b)\<rparr>), l\<lparr>bl_remote := bl_remote l @ [e']\<rparr>)"
| lost: "e \<in> set (eb_publishing b) \<Longrightarrow>
    bus_step marshal unmarshal (b, l) (b\<lparr>eb_publishing := remove1 e (eb_publishing b)\<rparr>, l)"
| foreign: "eb_redis b \<Longrightarrow> bus_step marshal unmarshal (b, l) (handleEvent e b, l\<lparr>bl_remote := bl_remote l @ [e]\<rparr>)"
| cleanup: "eb_redis b \<Longrightarrow> bus_step marshal unmarshal (b, l) (performCleanup now b, l)"

inductive bus_reach :: "(event \<rightharpoonup> string) \<Rightarrow> (string \<rightharpoonup> event) \<Rightarrow> bus \<Rightarrow> bus \<times> bus_log \<Rightarrow> bool"
  for marshal unmarshal b0 where
  start: "bus_reach marshal unmarshal b0 (b0, no_log)"
| step: "bus_reach marshal unmarshal b0 s \<Longrightarrow> bus_step marshal unmarshal s s' \<Longrightarrow> bus_reach marshal unmarshal b0 s'"

lemmas bus_defs = Publish_def Subscribe_def Unsubscribe_def handleEvent_def persist_event_def flushEvents_def
  performCleanup_def stamped_def Let_def

lemma flushEvents_keeps [simp]:
  "eb_stream (flushEvents m now tys es b) = eb_stream b" "eb_calls (flushEvents m now tys es b) = eb_calls b"
  "eb_redis (flushEvents m now tys es b) = eb_redis b" "eb_publishing (flushEvents m now tys es b) = eb_publishing b"
  "eb_batch (flushEvents m now tys es b) = eb_batch b" "\<not> eb_redis b \<Longrightarrow> eb_commands (flushEvents m now tys es b) = eb_commands b"
  by (simp_all add: flushEvents_def)

definition bus_inv :: "bus \<times> bus_log \<Rightarrow> bool" where
  "bus_inv s = (case s of (b, l) \<Rightarrow>
     mset (bl_published l) = mset (bl_local l) + mset (bl_persisted l) + mset (eb_stream b) + mset (bl_dropped l) \<and>
     length (eb_stream b) \<le> 1000 \<and> length (eb_batch b) < 100 \<and>
     snd ` set (eb_calls b) \<subseteq> set (bl_local l) \<union> set (bl_remote l) \<and>
     (\<not> eb_redis b \<longrightarrow> eb_commands b = [] \<and> bl_remote l = [] \<and> eb_publishing b = []))"

lemma bus_inv_step: "bus_step marshal unmarshal s s' \<Longrightarrow> bus_inv s \<Longrightarrow> bus_inv s'"
  by (induction rule: bus_step.induct) (auto simp: bus_inv_def bus_defs calls_for_def)

lemma bus_reach_redis: "bus_reach marshal unmarshal b0 s \<Longrightarrow> eb_redis (fst s) = eb_redis b0"
proof (induction rule: bus_reach.induct)
  case (step s s')
  have "eb_redis (fst s') = eb_redis (fst s)" using step.hyps(2)
    by (cases rule: bus_step.cases) (simp_all add: bus_defs)
  then show ?case using step.IH by simp
qed simp


definition sample_event :: event where
  "sample_event = \<lparr>ev_ID = ''e'', ev_Type = ''task.start'', ev_Source = ''n'', ev_Target = ''*'', ev_Timestamp = 9, ev_Data = GNil\<rparr>"

definition sample_handler :: event_handler where
  "sample_handler = \<lparr>hd_code = 1, hd_receiver = ''tui''\<rparr>"

text \<open>A subscriber that never hears of the one event published: the persisting loop was first.\<close>

definition sample_bus :: "nat \<Rightarrow> bus" where
  "sample_bus n = (let b1 = Subscribe ''task.start'' sample_handler ((NewEventBus False ''c'')\<lparr>eb_running := True\<rparr>);
     b2 = Publish 9 sample_event b1;
     b3 = persist_event (\<lambda>_. Some ''x'') 9 [''task.start''] sample_event (b2\<lparr>eb_stream := []\<rparr>)
     in if n = 1 then b1 else if n = 2 then b2 else b3)"

definition sample_log :: "nat \<Rightarrow> bus_log" where
  "sample_log n = (if n = 1 then no_log else if n = 2 then no_log\<lparr>bl_published := [sample_event]\<rparr>
     else no_log\<lparr>bl_published := [sample_event], bl_persisted := [sample_event]\<rparr>)"

lemma sample_bus_reach:
  "bus_reach (\<lambda>_. Some ''x'') (\<lambda>_. None) ((NewEventBus False ''c'')\<lparr>eb_running := True\<rparr>) (sample_bus 3, sample_log 3)"
proof -
  let ?r = "bus_reach (\<lambda>_. Some ''x'') (\<lambda>_. None) ((NewEventBus False ''c'')\<lparr>eb_running := True\<rparr>)"
  have "?r (sample_bus 1, sample_log 1)"
    using bus_reach.step [OF bus_reach.start bus_step.subscribe] by (simp add: sample_bus_def sample_log_def Let_def)
  then have "?r (sample_bus 2, sample_log 2)"
    by (rule bus_reach.step)
      (use bus_step.publish [of "sample_bus 1" _ _ "sample_log 1" 9 sample_event] in
        \<open>simp add: sample_bus_def sample_log_def Let_def Subscribe_def NewEventBus_def no_log_def stamped_def sample_event_def\<close>)
  then show ?thesis
    by (rule bus_reach.step)
      (use bus_step.persist [of "sample_bus 2" sample_event "[]" "[''task.start'']" _ _ "sample_log 2" 9] in
        \<open>simp add: sample_bus_def sample_log_def Let_def bus_defs NewEventBus_def no_log_def sample_event_def visits_types_def\<close>)
qed


section \<open>What a flush writes\<close>

lemma set_map_filter: "set (List.map_filter f xs) = {y. \<exists>x \<in> set xs. f x = Some y}"
  by (induction xs) (auto split: option.splits)

text \<open>
  A flush adds every event of the batch to the history of its own type, scored by its time in whole
  seconds, and after each type's events removes what is older than seven days from that type's history
  alone; it writes nothing else.
\<close>
theorem flush_spec:
  assumes "visits_types tys es" and "eb_redis b" and "es \<noteq> []" and "\<forall>e \<in> set es. marshal e \<noteq> None"
    and "eb_commands b = []"
  shows "(\<forall>k t s. ZAdd k t s \<in> set (eb_commands (flushEvents marshal now tys es b)) \<longleftrightarrow>
      (\<exists>e \<in> set es. k = history_key (eb_prefix b) (ev_Type e) \<and> t = unix (ev_Timestamp e) \<and> marshal e = Some s)) \<and>
    (\<forall>k t. ZRemRangeByScore k t \<in> set (eb_commands (flushEvents marshal now tys es b)) \<longleftrightarrow>
      (\<exists>e \<in> set es. k = history_key (eb_prefix b) (ev_Type e)) \<and> t = unix (now - retention)) \<and>
    length (eb_commands (flushEvents marshal now tys es b)) = length es + length tys"
proof -
  have cmds: "eb_commands (flushEvents marshal now tys es b) = concat (map (type_commands marshal now (eb_prefix b) es) tys)"
    using assms by (simp add: flushEvents_def)
  have tys: "set tys = ev_Type ` set es" "distinct tys" using assms(1) by (simp_all add: visits_types_def)
  have one: "set (type_commands marshal now (eb_prefix b) es ty) =
      insert (ZRemRangeByScore (history_key (eb_prefix b) ty) (unix (now - retention)))
        {ZAdd (history_key (eb_prefix b) ty) (unix (ev_Timestamp e)) s | e s. e \<in> set es \<and> ev_Type e = ty \<and> marshal e = Some s}" for ty
    by (auto simp: type_commands_def set_map_filter)
  have len: "length (type_commands marshal now (eb_prefix b) es ty) = Suc (length (filter (\<lambda>e. ev_Type e = ty) es))" for ty
  proof -
    have "filter (\<lambda>x. map_option (ZAdd (history_key (eb_prefix b) ty) (unix (ev_Timestamp x))) (marshal x) \<noteq> None)
        (filter (\<lambda>e. ev_Type e = ty) es) = filter (\<lambda>e. ev_Type e = ty) es"
      using assms(4) by (intro filter_True) auto
    then show ?thesis by (simp add: type_commands_def List.map_filter_def)
  qed
  have split: "sum_list (map (\<lambda>ty. length (filter (\<lambda>e. ev_Type e = ty) xs)) tys) = length xs"
    if "ev_Type ` set xs \<subseteq> set tys" for xs
    using that
  proof (induction xs)
    case (Cons x xs)
    have "sum_list (map (\<lambda>ty. if ev_Type x = ty then 1 else 0) tys) = (1::nat)"
      using Cons.prems tys(2) by (simp add: sum_list_distinct_conv_sum_set)
    moreover have "sum_list (map (\<lambda>ty. length (filter (\<lambda>e. ev_Type e = ty) (x # xs))) tys) =
        sum_list (map (\<lambda>ty. (if ev_Type x = ty then 1 else 0) + length (filter (\<lambda>e. ev_Type e = ty) xs)) tys)"
      by (rule arg_cong [where f = sum_list], rule map_cong) auto
    ultimately show ?case using Cons by (simp add: sum_list_addf)
  qed simp
  have "length (eb_commands (flushEvents marshal now tys es b)) = length es + length tys"
    using split [of es] tys(1) by (simp add: cmds length_concat o_def len sum_list_Suc)
  moreover have "ZAdd k t s \<in> set (eb_commands (flushEvents marshal now tys es b)) \<longleftrightarrow>
      (\<exists>e \<in> set es. k = history_key (eb_prefix b) (ev_Type e) \<and> t = unix (ev_Timestamp e) \<and> marshal e = Some s)" for k t s
    unfolding cmds set_concat set_map using tys(1) by (simp add: one) metis
  moreover have "ZRemRangeByScore k t \<in> set (eb_commands (flushEvents marshal now tys es b)) \<longleftrightarrow>
      (\<exists>e \<in> set es. k = history_key (eb_prefix b) (ev_Type e)) \<and> t = unix (now - retention)" for k t
    unfolding cmds set_concat set_map using tys(1) by (auto simp: one)
  ultimately show ?thesis by simp
qed

lemma flush_spec_witness:
  "length (eb_commands (flushEvents (\<lambda>_. Some ''x'') 9 [''task.start''] [sample_event] (NewEventBus True ''c''))) = 2"
  using flush_spec [of "[''task.start'']" "[sample_event]" "NewEventBus True ''c''" "\<lambda>_. Some ''x''" 9]
  by (simp add: visits_types_def sample_event_def NewEventBus_def)

text \<open>The hourly cleanup knows eight of the twenty types; the others age out only at their next flush.\<close>

lemma cleanup_skips: "''task.retry'' \<notin> set cleaned_types \<and> ''system.error'' \<notin> set cleaned_types"
  by (simp add: cleaned_types_def)

text \<open>
  Method values of one method share their code: unsubscribing one instance takes off whichever instance
  subscribed first.
\<close>

lemma unsubscribe_wrong_instance:
  "hd_code g = hd_code h \<Longrightarrow> eb_subscribers b ty = [g, h] \<Longrightarrow> eb_subscribers (Unsubscribe ty h b) ty = [h]"
  by (simp add: Unsubscribe_def)

text \<open>A stopped bus can be started, but its second stop panics.\<close>

lemma bus_restart_panics:
  "bus_Stop b = Some (Inr b1) \<Longrightarrow> bus_Start b1 = Inr b2 \<Longrightarrow> eb_stopClosed b2 \<and> bus_Stop b2 = None"
  by (auto simp: bus_Stop_def bus_Start_def split: if_splits)

end
