(* ===== verification/HubConnection.thy ===== *)
theory HubConnection
  imports NodeClient EventBus
begin

text \<open>
  A node's connection at the communication hub (src/crawler/communication/connection.go): the messages
  from the node, the bounded queue of messages to it, requests that wait for a response, buffered logs
  and metrics.  The stream's and the clock's answers are arguments.  A counter of the metrics is a 64-bit
  integer.
\<close>

section \<open>Messages\<close>

record register_node =
  rn_NodeId :: string
  rn_Hostname :: string
  rn_Ip :: string
  rn_Port :: int
  rn_Capabilities :: "string list"
  rn_MaxWorkers :: int
  rn_Labels :: "string \<rightharpoonup> string"
  rn_Version :: string

record metrics_update =
  mu_RequestsTotal :: "64 word"
  mu_RequestsSuccess :: "64 word"
  mu_RequestsFailed :: "64 word"
  mu_BytesDownloaded :: "64 word"
  mu_ItemsExtracted :: "64 word"
  mu_SuccessRate :: "64 word"

record node_log_entry =
  le_NodeId :: string
  le_Level :: nat
  le_Message :: string

record pb_response =
  pr_RequestId :: string
  pr_Success :: bool
  pr_ErrorMessage :: string
  pr_Data :: goval

datatype incoming =
    InHeartbeat
  | InMetrics metrics_update
  | InTaskStatus string string
  | InLog node_log_entry
  | InEvent string
  | InResponse pb_response
  | InRegister register_node

datatype request_type = REQUEST_GET_STATUS | REQUEST_GET_QUEUE_SIZE | REQUEST_GET_TASK_INFO | REQUEST_LIST_WORKERS

datatype control_payload =
    RateLimitP int
  | AssignmentP task_assignment
  | ConfigUpdateP "(string \<times> string) list" bool
  | CommandP command
  | RequestP string request_type
  | AckP string bool

record control_message =
  ct_MessageId :: string
  ct_Payload :: control_payload

section \<open>The connection\<close>

text \<open>
  A pending request is a channel of capacity one: open and empty while in \<open>nc_pending\<close>, then holding the
  response (\<open>nc_answers\<close>) or closed (\<open>nc_aborted\<close>).
\<close>

record connection =
  nc_nodeID :: string
  nc_info :: "register_node option"
  nc_connected :: bool
  nc_stopClosed :: bool
  nc_lastHeartbeat :: gotime
  nc_sendCh :: "control_message list"
  nc_sent :: "control_message list"
  nc_sender :: bool
  nc_pending :: "string set"
  nc_answers :: "string \<rightharpoonup> pb_response"
  nc_aborted :: "string set"
  nc_latestMetrics :: "metrics_update option"
  nc_logBuffer :: "node_log_entry list"

definition NewNodeConnection :: "string \<Rightarrow> gotime \<Rightarrow> connection" where
  "NewNodeConnection nodeID now = \<lparr>nc_nodeID = nodeID, nc_info = None, nc_connected = True, nc_stopClosed = False,
     nc_lastHeartbeat = now, nc_sendCh = [], nc_sent = [], nc_sender = True, nc_pending = {}, nc_answers = Map.empty,
     nc_aborted = {}, nc_latestMetrics = None, nc_logBuffer = []\<rparr>"

definition add_log :: "node_log_entry \<Rightarrow> node_log_entry list \<Rightarrow> node_log_entry list" where
  "add_log e b = (let b1 = b @ [e] in if length b1 > 1000 then drop 100 b1 else b1)"

definition handleResponse :: "pb_response \<Rightarrow> connection \<Rightarrow> connection" where
  "handleResponse r c =
     (if pr_RequestId r \<notin> nc_pending c then c
      else c\<lparr>nc_answers := (nc_answers c)(pr_RequestId r \<mapsto> r), nc_pending := nc_pending c - {pr_RequestId r}\<rparr>)"

text \<open>The error is \<open>Some\<close>; a task's status and a node's event are only logged.\<close>

definition handleMessage :: "gotime \<Rightarrow> incoming \<Rightarrow> connection \<Rightarrow> string option \<times> connection" where
  "handleMessage now m c =
     (case m of
        InHeartbeat \<Rightarrow> (None, c\<lparr>nc_lastHeartbeat := now\<rparr>)
      | InMetrics u \<Rightarrow> (None, c\<lparr>nc_latestMetrics := Some u\<rparr>)
      | InTaskStatus _ _ \<Rightarrow> (None, c)
      | InLog e \<Rightarrow> (None, c\<lparr>nc_logBuffer := add_log e (nc_logBuffer c)\<rparr>)
      | InEvent _ \<Rightarrow> (None, c)
      | InResponse r \<Rightarrow> (None, handleResponse r c)
      | InRegister _ \<Rightarrow> (Some ''unknown message type: *proto.NodeMessage_Register'', c))"

text \<open>One round of the sending loop: \<open>ok\<close> says that the stream takes the message.\<close>

definition sendLoop :: "bool \<Rightarrow> connection \<Rightarrow> connection" where
  "sendLoop ok c =
     (if \<not> nc_sender c then c
      else if nc_stopClosed c then c\<lparr>nc_sender := False\<rparr>
      else case nc_sendCh c of
          [] \<Rightarrow> c
        | m # ms \<Rightarrow>
            if ok then c\<lparr>nc_sendCh := ms, nc_sent := nc_sent c @ [m]\<rparr>
            else c\<lparr>nc_sendCh := ms, nc_connected := False, nc_sender := False\<rparr>)"

text \<open>A full queue is waited for, and here still full after the five seconds.\<close>

definition conn_Send :: "control_message \<Rightarrow> connection \<Rightarrow> string option \<times> connection" where
  "conn_Send m c =
     (if \<not> nc_connected c then (Some ''node not connected'', c)
      else if length (nc_sendCh c) < 100 then (None, c\<lparr>nc_sendCh := nc_sendCh c @ [m]\<rparr>)
      else (Some ''send timeout'', c))"

text \<open>\<open>SendWithResponse\<close> up to the point where it waits: the request it sends is its own.\<close>

definition send_request :: "string \<Rightarrow> control_message \<Rightarrow> connection \<Rightarrow> string option \<times> connection" where
  "send_request requestID m c =
     (if \<not> nc_connected c then (Some ''node not connected'', c)
      else let request = \<lparr>ct_MessageId = requestID, ct_Payload = RequestP requestID REQUEST_GET_STATUS\<rparr>;
               c1 = c\<lparr>nc_pending := insert requestID (nc_pending c)\<rparr>
           in case conn_Send request c1 of
                (Some e, c2) \<Rightarrow> (Some e, c2\<lparr>nc_pending := nc_pending c2 - {requestID}\<rparr>)
              | (None, c2) \<Rightarrow> (None, c2))"

datatype wait_end = Cancelled string | TimedOut | Ready

text \<open>
  The rest: the wait ends with the context, with the timeout, or with the channel, which gives the
  response or, closed, nothing.  \<open>Ready\<close> on an empty open channel does not happen and counts as a timeout.
\<close>

definition await_response :: "string \<Rightarrow> wait_end \<Rightarrow> connection \<Rightarrow> (string + pb_response option) \<times> connection" where
  "await_response requestID w c =
     (let gone = c\<lparr>nc_pending := nc_pending c - {requestID}\<rparr> in
      case w of
        Cancelled e \<Rightarrow> (Inl e, gone)
      | TimedOut \<Rightarrow> (Inl ''response timeout'', gone)
      | Ready \<Rightarrow> (case nc_answers c requestID of
            Some r \<Rightarrow> (Inr (Some r), c)
          | None \<Rightarrow> if requestID \<in> nc_aborted c then (Inr None, c) else (Inl ''response timeout'', gone)))"

definition conn_Close :: "connection \<Rightarrow> connection" where
  "conn_Close c =
     (if \<not> nc_connected c then c
      else c\<lparr>nc_connected := False, nc_stopClosed := True, nc_aborted := nc_aborted c \<union> nc_pending c, nc_pending := {}\<rparr>)"

definition UpdateInfo :: "register_node \<Rightarrow> connection \<Rightarrow> connection" where
  "UpdateInfo info c = c\<lparr>nc_info := Some info\<rparr>"

record hub_node_info =
  ni_ID :: string
  ni_Hostname :: string
  ni_IP :: string
  ni_Port :: int
  ni_Capabilities :: "string list"
  ni_MaxWorkers :: int
  ni_Labels :: "string \<rightharpoonup> string"
  ni_Version :: string
  ni_Status :: string
  ni_LastSeen :: gotime

definition GetInfo :: "connection \<Rightarrow> hub_node_info option" where
  "GetInfo c = (case nc_info c of
     None \<Rightarrow> None
   | Some i \<Rightarrow> Some \<lparr>ni_ID = nc_nodeID c, ni_Hostname = rn_Hostname i, ni_IP = rn_Ip i, ni_Port = rn_Port i,
       ni_Capabilities = rn_Capabilities i, ni_MaxWorkers = rn_MaxWorkers i, ni_Labels = rn_Labels i,
       ni_Version = rn_Version i, ni_Status = ''active'', ni_LastSeen = nc_lastHeartbeat c\<rparr>)"

text \<open>The two values answered: requests and the bits of the success rate.\<close>

definition conn_GetMetrics :: "connection \<Rightarrow> string + (string \<times> 64 word) list" where
  "conn_GetMetrics c = (case nc_latestMetrics c of
     None \<Rightarrow> Inl ''no metrics available''
   | Some u \<Rightarrow> Inr [(''requests_total'', mu_RequestsTotal u), (''success_rate'', mu_SuccessRate u)])"

definition GetLogs :: "int \<Rightarrow> connection \<Rightarrow> node_log_entry list" where
  "GetLogs limit c =
     (let n = length (nc_logBuffer c);
          l = (if limit \<le> 0 \<or> limit > int n then n else nat limit)
      in drop (n - l) (nc_logBuffer c))"

section \<open>Logs\<close>

text \<open>
  However many log entries arrive, the connection keeps the last of them, at least 900 once more than a
  thousand came and never more than a thousand; reading a positive number of them gives the latest ones in
  order.
\<close>
theorem log_buffer_spec:
  assumes "c = foldl (\<lambda>c e. snd (handleMessage now (InLog e) c)) (NewNodeConnection n t0) es"
  shows "(\<exists>k. nc_logBuffer c = drop k es) \<and> length (nc_logBuffer c) \<le> 1000 \<and>
    (length es \<le> 1000 \<longrightarrow> nc_logBuffer c = es) \<and> (length es > 1000 \<longrightarrow> 900 < length (nc_logBuffer c)) \<and>
    (0 < l \<and> l \<le> int (length (nc_logBuffer c)) \<longrightarrow> GetLogs l c = drop (length es - nat l) es)"
proof -
  let ?b = "foldl (\<lambda>b e. add_log e b) []"
  have "nc_logBuffer (foldl (\<lambda>c e. snd (handleMessage now (InLog e) c)) c0 es) = foldl (\<lambda>b e. add_log e b) (nc_logBuffer c0) es" for c0
    by (induction es arbitrary: c0) (simp_all add: handleMessage_def)
  then have b: "nc_logBuffer c = ?b es" by (simp add: assms NewNodeConnection_def)
  have inv: "(\<exists>k \<le> length es. ?b es = drop k es) \<and> length (?b es) \<le> 1000 \<and> (length es \<le> 1000 \<longrightarrow> ?b es = es) \<and>
      (length es > 1000 \<longrightarrow> 900 < length (?b es))" for es
  proof (induction es rule: rev_induct)
    case (snoc e es)
    obtain k where k: "k \<le> length es" "?b es = drop k es" using snoc.IH by (elim conjE exE) (rule that)
    have small: "length es - k \<le> 1000" and all: "length es \<le> 1000 \<Longrightarrow> drop k es = es"
      and many: "length es > 1000 \<Longrightarrow> 900 < length es - k"
      using snoc.IH unfolding k(2) by simp_all
    have step: "?b (es @ [e]) = drop (if length es - k = 1000 then 100 + k else k) (es @ [e])"
      using k small by (simp add: add_log_def Let_def add.commute)
    show ?case
    proof (cases "length es - k = 1000")
      case True
      then show ?thesis unfolding step using k(1) all
        by (intro conjI exI [of _ "100 + k"]) auto
    next
      case False
      have "length (es @ [e]) \<le> 1000 \<Longrightarrow> drop k (es @ [e]) = es @ [e]" using all k(1) by simp
      moreover have "length (es @ [e]) > 1000 \<Longrightarrow> 900 < length (drop k (es @ [e]))"
        using many all False k(1) by (cases "length es > 1000") auto
      ultimately show ?thesis unfolding step using k(1) small False
        by (intro conjI exI [of _ k]) auto
    qed
  qed simp
  obtain k where k: "k \<le> length es" "?b es = drop k es" using inv [of es] by (elim conjE exE) (rule that)
  have "GetLogs l c = drop (length es - nat l) es" if "0 < l" "l \<le> int (length (nc_logBuffer c))"
    using that k b by (simp add: GetLogs_def Let_def algebra_simps)
  then show ?thesis using inv [of es] b by auto
qed

definition sample_log_entry :: "string \<Rightarrow> node_log_entry" where
  "sample_log_entry m = \<lparr>le_NodeId = ''n1'', le_Level = 1, le_Message = m\<rparr>"

lemma log_buffer_spec_witness:
  "GetLogs 1 (foldl (\<lambda>c e. snd (handleMessage 5 (InLog e) c)) (NewNodeConnection ''n1'' 0)
     [sample_log_entry ''a'', sample_log_entry ''b'']) = [sample_log_entry ''b'']"
  using log_buffer_spec [OF refl, of 5 "''n1''" 0 "[sample_log_entry ''a'', sample_log_entry ''b'']" 1]
  by simp

end
