(* ===== verification/Hub.thy ===== *)
theory Hub
  imports HubConnection
begin

text \<open>
  The communication hub (src/crawler/communication/hub.go), with its metrics aggregator and terminal
  clients (helpers.go).  Connections are shared between the table of nodes and the goroutine that serves
  the stream, so they live in a store and the table holds their addresses.  The goroutines' turns are the
  steps of a relation.  \<open>None\<close> as the result of an operation stands for a panic or a deadlock, as said there.
\<close>

section \<open>State\<close>

text \<open>Where the goroutine of a \<open>Connect\<close> call stands: registered, in its message loop, past the loop.\<close>

datatype phase = Accepted string | Serving | Closing

record hub =
  hb_running :: bool
  hb_stopClosed :: bool
  hb_conns :: "nat \<rightharpoonup> connection"
  hb_next :: nat
  hb_nodes :: "string \<rightharpoonup> nat"
  hb_serving :: "nat \<rightharpoonup> phase"
  hb_bus :: bus
  hb_tui :: "string \<rightharpoonup> bool"

definition NewCommunicationHub :: "string \<Rightarrow> hub" where
  "NewCommunicationHub pre = \<lparr>hb_running = False, hb_stopClosed = False, hb_conns = Map.empty, hb_next = 0,
     hb_nodes = Map.empty, hb_serving = Map.empty, hb_bus = NewEventBus True pre, hb_tui = Map.empty\<rparr>"

definition hub_Start :: "hub \<Rightarrow> string option \<times> hub" where
  "hub_Start h =
     (if hb_running h then (Some ''hub already running'', h)
      else case bus_Start (hb_bus h) of
          Inl e \<Rightarrow> (Some (''failed to start event bus: '' @ e), h\<lparr>hb_running := True\<rparr>)
        | Inr b \<Rightarrow> (None, h\<lparr>hb_running := True, hb_bus := b\<rparr>))"

abbreviation with_conn :: "nat \<Rightarrow> (connection \<Rightarrow> connection) \<Rightarrow> hub \<Rightarrow> hub" where
  "with_conn c f h \<equiv> h\<lparr>hb_conns := (hb_conns h)(c := map_option f (hb_conns h c))\<rparr>"

section \<open>Events of the hub\<close>

datatype pb_event_type = EVENT_NODE_ONLINE | EVENT_NODE_OFFLINE | EVENT_NODE_ERROR

fun event_number :: "pb_event_type \<Rightarrow> nat" where
  "event_number EVENT_NODE_ONLINE = 10"
| "event_number EVENT_NODE_OFFLINE = 11"
| "event_number EVENT_NODE_ERROR = 12"

text \<open>
  \<open>EventType(eventType)\<close> converts a number to a string, which in Go is the character of that code: all the
  numbers are below 128, so one byte.
\<close>

definition event_type_of :: "pb_event_type \<Rightarrow> string" where
  "event_type_of t = [char_of (event_number t)]"

definition publishNodeEvent :: "gotime \<Rightarrow> string \<Rightarrow> string \<Rightarrow> pb_event_type \<Rightarrow> hub \<Rightarrow> hub" where
  "publishNodeEvent now ident nodeID t h =
     h\<lparr>hb_bus := Publish now \<lparr>ev_ID = ident, ev_Type = event_type_of t, ev_Source = nodeID, ev_Target = ''*'',
         ev_Timestamp = now, ev_Data = GNil\<rparr> (hb_bus h)\<rparr>"

section \<open>Registration\<close>

definition registerNode :: "string \<Rightarrow> nat \<Rightarrow> register_node \<Rightarrow> hub \<Rightarrow> hub" where
  "registerNode nodeID c info h =
     (let h1 = (case hb_nodes h nodeID of Some old \<Rightarrow> with_conn old conn_Close h | None \<Rightarrow> h);
          h2 = h1\<lparr>hb_nodes := (hb_nodes h1)(nodeID \<mapsto> c)\<rparr>
      in with_conn c (UpdateInfo info) h2)"

definition unregisterNode :: "string \<Rightarrow> hub \<Rightarrow> hub" where
  "unregisterNode nodeID h =
     (case hb_nodes h nodeID of
        None \<Rightarrow> h
      | Some c \<Rightarrow> (with_conn c conn_Close h)\<lparr>hb_nodes := (hb_nodes h)(nodeID := None)\<rparr>)"

definition disconnectAllNodes :: "string list \<Rightarrow> hub \<Rightarrow> hub" where
  "disconnectAllNodes ks h =
     (fold (\<lambda>c h. with_conn c conn_Close h) (values_of ks (hb_nodes h)) h)\<lparr>hb_nodes := Map.empty\<rparr>"

text \<open>
  \<open>Connect\<close> up to the acknowledgement: a new connection at a fresh address.  A first message of another
  kind is refused.
\<close>

definition connect_register :: "gotime \<Rightarrow> string \<Rightarrow> incoming \<Rightarrow> hub \<Rightarrow> string + hub" where
  "connect_register now msgID m h =
     (case m of
        InRegister info \<Rightarrow>
          let c = hb_next h;
              h1 = h\<lparr>hb_conns := (hb_conns h)(c \<mapsto> NewNodeConnection (rn_NodeId info) now), hb_next := c + 1,
                    hb_serving := (hb_serving h)(c \<mapsto> Accepted msgID)\<rparr>
          in Inr (registerNode (rn_NodeId info) c info h1)
      | _ \<Rightarrow> Inl ''first message must be registration'')"

text \<open>The acknowledgement, which goes to the stream directly, and what follows it.\<close>

definition connect_ack :: "bool \<Rightarrow> gotime \<Rightarrow> string \<Rightarrow> nat \<Rightarrow> string \<Rightarrow> hub \<Rightarrow> hub" where
  "connect_ack ok now ident c msgID h =
     (case hb_conns h c of
        None \<Rightarrow> h
      | Some cn \<Rightarrow>
          if ok then
            publishNodeEvent now ident (nc_nodeID cn) EVENT_NODE_ONLINE
              ((with_conn c (\<lambda>x. x\<lparr>nc_sent := nc_sent x @ [\<lparr>ct_MessageId = ident, ct_Payload = AckP msgID True\<rparr>]\<rparr>) h)
                 \<lparr>hb_serving := (hb_serving h)(c \<mapsto> Serving)\<rparr>)
          else unregisterNode (nc_nodeID cn) (h\<lparr>hb_serving := (hb_serving h)(c := None)\<rparr>))"

text \<open>The end of the message loop: the connection is closed; then the deferred function of \<open>Connect\<close>.\<close>

definition serve_end :: "nat \<Rightarrow> hub \<Rightarrow> hub" where
  "serve_end c h = (with_conn c conn_Close h)\<lparr>hb_serving := (hb_serving h)(c \<mapsto> Closing)\<rparr>"

definition connect_leave :: "gotime \<Rightarrow> string \<Rightarrow> nat \<Rightarrow> hub \<Rightarrow> hub" where
  "connect_leave now ident c h =
     (case hb_conns h c of
        None \<Rightarrow> h
      | Some cn \<Rightarrow> publishNodeEvent now ident (nc_nodeID cn) EVENT_NODE_OFFLINE
          (unregisterNode (nc_nodeID cn) (h\<lparr>hb_serving := (hb_serving h)(c := None)\<rparr>)))"

section \<open>Periodic checks\<close>

text \<open>The connections are collected first; each stale one is then reported and unregistered by its node's name.\<close>

definition check_one :: "gotime \<Rightarrow> string \<Rightarrow> duration \<Rightarrow> nat \<Rightarrow> hub \<Rightarrow> hub" where
  "check_one now ident timeout c h =
     (case hb_conns h c of
        None \<Rightarrow> h
      | Some cn \<Rightarrow> if now - nc_lastHeartbeat cn > timeout
          then unregisterNode (nc_nodeID cn) (publishNodeEvent now ident (nc_nodeID cn) EVENT_NODE_OFFLINE h)
          else h)"

definition checkHeartbeats :: "string list \<Rightarrow> gotime \<Rightarrow> string \<Rightarrow> duration \<Rightarrow> hub \<Rightarrow> hub" where
  "checkHeartbeats ks now ident timeout h = fold (check_one now ident timeout) (values_of ks (hb_nodes h)) h"

definition hub_cleanup :: "hub \<Rightarrow> hub" where
  "hub_cleanup h =
     h\<lparr>hb_nodes := map_filter_vals (\<lambda>c. case hb_conns h c of Some cn \<Rightarrow> nc_connected cn | None \<Rightarrow> False) (hb_nodes h),
       hb_tui := map_filter_vals (\<lambda>active. active) (hb_tui h)\<rparr>"

text \<open>\<open>None\<close>: the event bus or the hub closes its stop channel a second time.\<close>

definition hub_Stop :: "string list \<Rightarrow> hub \<Rightarrow> (string + hub) option" where
  "hub_Stop ks h =
     (if \<not> hb_running h then Some (Inl ''hub not running'')
      else if hb_stopClosed h then None
      else let h1 = disconnectAllNodes ks (h\<lparr>hb_running := False, hb_stopClosed := True\<rparr>) in
        case bus_Stop (hb_bus h1) of
          None \<Rightarrow> None
        | Some (Inl _) \<Rightarrow> Some (Inr h1)
        | Some (Inr b) \<Rightarrow> Some (Inr (h1\<lparr>hb_bus := b\<rparr>)))"

section \<open>Messages to nodes\<close>

definition not_found :: "string \<Rightarrow> string" where
  "not_found nodeID = ''node not found: '' @ nodeID"

definition node_conn :: "string \<Rightarrow> hub \<Rightarrow> (nat \<times> connection) option" where
  "node_conn nodeID h =
     (case hb_nodes h nodeID of None \<Rightarrow> None | Some c \<Rightarrow> (case hb_conns h c of None \<Rightarrow> None | Some cn \<Rightarrow> Some (c, cn)))"

definition SendToNode :: "string \<Rightarrow> control_message \<Rightarrow> hub \<Rightarrow> string option \<times> hub" where
  "SendToNode nodeID m h =
     (case node_conn nodeID h of
        None \<Rightarrow> (Some (not_found nodeID), h)
      | Some (c, cn) \<Rightarrow> (fst (conn_Send m cn), h\<lparr>hb_conns := (hb_conns h)(c \<mapsto> snd (conn_Send m cn))\<rparr>))"

definition BroadcastToNodes :: "string list \<Rightarrow> control_message \<Rightarrow> hub \<Rightarrow> hub" where
  "BroadcastToNodes ks m h = fold (\<lambda>c h. with_conn c (\<lambda>cn. snd (conn_Send m cn)) h) (values_of ks (hb_nodes h)) h"

definition UpdateConfig :: "string \<Rightarrow> string \<Rightarrow> (string \<times> string) list \<Rightarrow> hub \<Rightarrow> (string + bool) \<times> hub" where
  "UpdateConfig ident nodeID config h =
     (case SendToNode nodeID \<lparr>ct_MessageId = ident, ct_Payload = ConfigUpdateP config False\<rparr> h of
        (Some e, h1) \<Rightarrow> (Inl e, h1)
      | (None, h1) \<Rightarrow> (Inr True, h1))"

definition GetMetrics :: "string \<Rightarrow> hub \<Rightarrow> string + (string \<times> 64 word) list" where
  "GetMetrics nodeID h =
     (case node_conn nodeID h of None \<Rightarrow> Inl (not_found nodeID) | Some (c, cn) \<Rightarrow> conn_GetMetrics cn)"

definition GetNodeMetrics :: "string \<Rightarrow> hub \<Rightarrow> string + metrics_update option" where
  "GetNodeMetrics nodeID h =
     (case node_conn nodeID h of None \<Rightarrow> Inl (not_found nodeID) | Some (c, cn) \<Rightarrow> Inr (nc_latestMetrics cn))"

definition hub_GetNodes :: "hub \<Rightarrow> (string \<rightharpoonup> hub_node_info option)" where
  "hub_GetNodes h nodeID = (case node_conn nodeID h of None \<Rightarrow> None | Some (c, cn) \<Rightarrow> Some (GetInfo cn))"

text \<open>\<open>ExecuteCommand\<close> up to its wait, and after it.  \<open>None\<close>: a nil response is dereferenced.\<close>

definition execute_begin :: "string \<Rightarrow> string \<Rightarrow> command \<Rightarrow> string \<Rightarrow> hub \<Rightarrow> (string + nat) \<times> hub" where
  "execute_begin ident requestID cmd nodeID h =
     (case node_conn nodeID h of
        None \<Rightarrow> (Inl (not_found nodeID), h)
      | Some (c, cn) \<Rightarrow>
          (case send_request requestID \<lparr>ct_MessageId = ident, ct_Payload = CommandP cmd\<rparr> cn of
             (Some e, cn1) \<Rightarrow> (Inl e, h\<lparr>hb_conns := (hb_conns h)(c \<mapsto> cn1)\<rparr>)
           | (None, cn1) \<Rightarrow> (Inr c, h\<lparr>hb_conns := (hb_conns h)(c \<mapsto> cn1)\<rparr>)))"

definition execute_end :: "string \<Rightarrow> wait_end \<Rightarrow> connection \<Rightarrow> (string + bool \<times> string \<times> goval) option" where
  "execute_end requestID w cn =
     (case fst (await_response requestID w cn) of
        Inl e \<Rightarrow> Some (Inl e)
      | Inr None \<Rightarrow> None
      | Inr (Some r) \<Rightarrow> Some (Inr (pr_Success r, pr_ErrorMessage r, pr_Data r)))"

section \<open>Terminal clients\<close>

definition RegisterTUIClient :: "string \<Rightarrow> hub \<Rightarrow> hub" where
  "RegisterTUIClient ident h = h\<lparr>hb_tui := (hb_tui h)(ident \<mapsto> True)\<rparr>"

text \<open>
  Closing an active client unregisters it, and unregistering closes it while it holds the clients' lock,
  which is not reentrant.  \<open>None\<close>: the call waits for a lock it holds itself.
\<close>

definition UnregisterTUIClient :: "string \<Rightarrow> hub \<Rightarrow> hub option" where
  "UnregisterTUIClient ident h =
     (case hb_tui h ident of
        None \<Rightarrow> Some h
      | Some active \<Rightarrow> if active then None else Some (h\<lparr>hb_tui := (hb_tui h)(ident := None)\<rparr>))"

definition tui_Close :: "string \<Rightarrow> hub \<Rightarrow> hub option" where
  "tui_Close ident h =
     (case hb_tui h ident of
        Some True \<Rightarrow> UnregisterTUIClient ident (h\<lparr>hb_tui := (hb_tui h)(ident \<mapsto> False)\<rparr>)
      | _ \<Rightarrow> Some h)"

section \<open>Metrics\<close>

record aggregator =
  ma_nodes :: "string \<rightharpoonup> metrics_update"
  ma_Requests :: "64 word"
  ma_Success :: "64 word"
  ma_Failed :: "64 word"
  ma_Bytes :: "64 word"
  ma_Items :: "64 word"

definition NewMetricsAggregator :: aggregator where
  "NewMetricsAggregator = \<lparr>ma_nodes = Map.empty, ma_Requests = 0, ma_Success = 0, ma_Failed = 0, ma_Bytes = 0, ma_Items = 0\<rparr>"

definition UpdateNodeMetrics :: "string \<Rightarrow> metrics_update \<Rightarrow> aggregator \<Rightarrow> aggregator" where
  "UpdateNodeMetrics nodeID u a =
     (let add = (\<lambda>f. case ma_nodes a nodeID of Some old \<Rightarrow> f u - f old | None \<Rightarrow> f u) in
      a\<lparr>ma_Requests := ma_Requests a + add mu_RequestsTotal, ma_Success := ma_Success a + add mu_RequestsSuccess,
        ma_Failed := ma_Failed a + add mu_RequestsFailed, ma_Bytes := ma_Bytes a + add mu_BytesDownloaded,
        ma_Items := ma_Items a + add mu_ItemsExtracted, ma_nodes := (ma_nodes a)(nodeID \<mapsto> u)\<rparr>)"

definition GetAggregatedMetrics :: "aggregator \<Rightarrow> (string \<times> int) list" where
  "GetAggregatedMetrics a = [(''total_requests'', sint (ma_Requests a)), (''total_success'', sint (ma_Success a)),
     (''total_failed'', sint (ma_Failed a)), (''total_bytes'', sint (ma_Bytes a)), (''total_items'', sint (ma_Items a)),
     (''total_nodes'', int (card (dom (ma_nodes a))))]"

lemma sum_latest:
  fixes f :: "'v \<Rightarrow> 'b :: ab_group_add"
  assumes "finite (dom m)"
  shows "(\<Sum>k \<in> dom (m(n \<mapsto> u)). f (the ((m(n \<mapsto> u)) k))) =
    (\<Sum>k \<in> dom m. f (the (m k))) + (case m n of Some old \<Rightarrow> f u - f old | None \<Rightarrow> f u)"
proof -
  have "(\<Sum>k \<in> dom (m(n \<mapsto> u)). f (the ((m(n \<mapsto> u)) k))) = f u + (\<Sum>k \<in> dom m - {n}. f (the ((m(n \<mapsto> u)) k)))"
    using assms by (simp add: sum.insert_remove)
  also have "(\<Sum>k \<in> dom m - {n}. f (the ((m(n \<mapsto> u)) k))) = (\<Sum>k \<in> dom m - {n}. f (the (m k)))"
    by (rule sum.cong) auto
  finally have eq: "(\<Sum>k \<in> dom (m(n \<mapsto> u)). f (the ((m(n \<mapsto> u)) k))) = f u + (\<Sum>k \<in> dom m - {n}. f (the (m k)))" .
  show ?thesis
  proof (cases "m n")
    case None
    then have "dom m - {n} = dom m" by auto
    then show ?thesis unfolding eq by (simp add: None)
  next
    case (Some old)
    then have "(\<Sum>k \<in> dom m. f (the (m k))) = f old + (\<Sum>k \<in> dom m - {n}. f (the (m k)))"
      using assms by (subst sum.remove [of _ n]) auto
    then show ?thesis unfolding eq by (simp add: Some)
  qed
qed

definition sums_ok :: "aggregator \<Rightarrow> bool" where
  "sums_ok a \<longleftrightarrow> finite (dom (ma_nodes a)) \<and>
     ma_Requests a = (\<Sum>n \<in> dom (ma_nodes a). mu_RequestsTotal (the (ma_nodes a n))) \<and>
     ma_Bytes a = (\<Sum>n \<in> dom (ma_nodes a). mu_BytesDownloaded (the (ma_nodes a n)))"

lemma sums_ok_update: "sums_ok a \<Longrightarrow> sums_ok (UpdateNodeMetrics n u a)"
proof -
  assume a: "sums_ok a"
  have nodes: "ma_nodes (UpdateNodeMetrics n u a) = (ma_nodes a)(n \<mapsto> u)"
    by (simp add: UpdateNodeMetrics_def Let_def)
  have fin: "finite (dom (ma_nodes a))" using a by (simp add: sums_ok_def)
  show ?thesis unfolding sums_ok_def nodes sum_latest [OF fin]
    using a by (simp add: sums_ok_def UpdateNodeMetrics_def Let_def)
qed

text \<open>
  Whatever updates arrive, the total of requests is the sum of the latest counters of the nodes seen, in
  64-bit arithmetic: a node that starts again from zero takes its earlier requests off the total, and a
  node that left stays in it.
\<close>
theorem aggregate_is_sum:
  assumes "a = fold (\<lambda>(n, u). UpdateNodeMetrics n u) us NewMetricsAggregator"
  shows "ma_nodes a = map_of (rev us) \<and>
    ma_Requests a = (\<Sum>n \<in> dom (ma_nodes a). mu_RequestsTotal (the (ma_nodes a n))) \<and>
    ma_Bytes a = (\<Sum>n \<in> dom (ma_nodes a). mu_BytesDownloaded (the (ma_nodes a n)))"
proof -
  have "sums_ok a \<and> ma_nodes a = map_of (rev us)"
    unfolding assms
  proof (induction us rule: rev_induct)
    case Nil
    then show ?case by (simp add: NewMetricsAggregator_def sums_ok_def)
  next
    case (snoc p us)
    have "ma_nodes (UpdateNodeMetrics n u a) = (ma_nodes a)(n \<mapsto> u)" for n u a
      by (simp add: UpdateNodeMetrics_def Let_def)
    then show ?case using snoc by (cases p) (simp add: sums_ok_update)
  qed
  then show ?thesis by (simp add: sums_ok_def)
qed

definition sample_metrics :: "64 word \<Rightarrow> metrics_update" where
  "sample_metrics n = \<lparr>mu_RequestsTotal = n, mu_RequestsSuccess = n, mu_RequestsFailed = 0, mu_BytesDownloaded = n,
     mu_ItemsExtracted = 0, mu_SuccessRate = 0\<rparr>"

lemma aggregate_is_sum_witness:
  "ma_Requests (fold (\<lambda>(n, u). UpdateNodeMetrics n u) [(''a'', sample_metrics 5), (''a'', sample_metrics 2)] NewMetricsAggregator) = 2"
  using aggregate_is_sum [OF refl, of "[(''a'', sample_metrics 5), (''a'', sample_metrics 2)]"]
  by (simp add: sample_metrics_def)

section \<open>The goroutines\<close>

inductive hub_step :: "duration \<Rightarrow> hub \<Rightarrow> hub \<Rightarrow> bool" for timeout where
  register: "connect_register now msgID m h = Inr h' \<Longrightarrow> hub_step timeout h h'"
| ack: "hb_serving h c = Some (Accepted msgID) \<Longrightarrow> hub_step timeout h (connect_ack ok now ident c msgID h)"
| message: "hb_serving h c = Some Serving \<Longrightarrow>
    hub_step timeout h (with_conn c (\<lambda>cn. snd (handleMessage now m cn)) h)"
| finish: "hb_serving h c = Some Serving \<Longrightarrow> hub_step timeout h (serve_end c h)"
| leave: "hb_serving h c = Some Closing \<Longrightarrow> hub_step timeout h (connect_leave now ident c h)"
| deliver: "hub_step timeout h (with_conn c (sendLoop ok) h)"
| post: "hub_step timeout h (snd (SendToNode nodeID m h))"
| request: "hub_step timeout h (snd (execute_begin ident requestID cmd nodeID h))"
| await: "hub_step timeout h (with_conn c (\<lambda>cn. snd (await_response requestID w cn)) h)"
| check: "enumerates ks (hb_nodes h) \<Longrightarrow> hub_step timeout h (checkHeartbeats ks now ident timeout h)"
| cleanup: "hub_step timeout h (hub_cleanup h)"

inductive hub_reach :: "duration \<Rightarrow> hub \<Rightarrow> hub \<Rightarrow> bool" for timeout h0 where
  start: "hub_reach timeout h0 h0"
| step: "hub_reach timeout h0 h \<Longrightarrow> hub_step timeout h h' \<Longrightarrow> hub_reach timeout h0 h'"

definition conn_ok :: "connection \<Rightarrow> bool" where
  "conn_ok cn \<longleftrightarrow> (nc_stopClosed cn \<longrightarrow> \<not> nc_connected cn \<and> nc_pending cn = {}) \<and>
     length (nc_sendCh cn) \<le> 100 \<and> length (nc_logBuffer cn) \<le> 1000"

definition hub_inv :: "hub \<Rightarrow> bool" where
  "hub_inv h \<longleftrightarrow>
     (\<forall>n c. hb_nodes h n = Some c \<longrightarrow> (\<exists>cn. hb_conns h c = Some cn \<and> nc_nodeID cn = n)) \<and>
     (\<forall>c cn. hb_conns h c = Some cn \<longrightarrow> c < hb_next h \<and> conn_ok cn) \<and>
     (\<forall>c p. hb_serving h c = Some p \<longrightarrow> (\<exists>cn. hb_conns h c = Some cn \<and> (p = Closing \<longrightarrow> \<not> nc_connected cn)))"

text \<open>What an operation on one connection has to keep.\<close>

definition conn_op :: "(connection \<Rightarrow> connection) \<Rightarrow> bool" where
  "conn_op f \<longleftrightarrow> (\<forall>cn. nc_nodeID (f cn) = nc_nodeID cn \<and> (\<not> nc_connected cn \<longrightarrow> \<not> nc_connected (f cn)) \<and>
     (conn_ok cn \<longrightarrow> conn_ok (f cn)))"

named_theorems conn_ops

lemma conn_op_Close [conn_ops]: "conn_op conn_Close"
  by (simp add: conn_op_def conn_Close_def conn_ok_def)

lemma conn_op_Info [conn_ops]: "conn_op (UpdateInfo info)"
  by (simp add: conn_op_def UpdateInfo_def conn_ok_def)

lemma conn_op_message [conn_ops]: "conn_op (\<lambda>cn. snd (handleMessage now m cn))"
  by (cases m) (auto simp: conn_op_def handleMessage_def conn_ok_def handleResponse_def add_log_def Let_def)

lemma conn_op_sendLoop [conn_ops]: "conn_op (sendLoop ok)"
  by (auto simp: conn_op_def sendLoop_def conn_ok_def split: list.split)

lemma conn_op_Send [conn_ops]: "conn_op (\<lambda>cn. snd (conn_Send m cn))"
  by (auto simp: conn_op_def conn_Send_def conn_ok_def)

lemma conn_op_request [conn_ops]: "conn_op (\<lambda>cn. snd (send_request r m cn))"
  by (auto simp: conn_op_def send_request_def conn_Send_def conn_ok_def Let_def)

lemma conn_op_await [conn_ops]: "conn_op (\<lambda>cn. snd (await_response r w cn))"
  by (auto simp: conn_op_def await_response_def conn_ok_def Let_def split: wait_end.split option.split)

lemma conn_op_sent [conn_ops]: "conn_op (\<lambda>cn. cn\<lparr>nc_sent := nc_sent cn @ ms\<rparr>)"
  by (simp add: conn_op_def conn_ok_def)

lemma hub_inv_conn:
  assumes f: "conn_op f" and h: "hub_inv h"
  shows "hub_inv (with_conn c f h)"
proof -
  have op: "nc_nodeID (f cn) = nc_nodeID cn" "\<not> nc_connected cn \<Longrightarrow> \<not> nc_connected (f cn)" "conn_ok cn \<Longrightarrow> conn_ok (f cn)" for cn
    using f by (simp_all add: conn_op_def)
  show ?thesis unfolding hub_inv_def
  proof (intro conjI allI impI)
    fix n d assume "hb_nodes (with_conn c f h) n = Some d"
    then show "\<exists>cn. hb_conns (with_conn c f h) d = Some cn \<and> nc_nodeID cn = n"
      using h op(1) by (cases "d = c") (force simp: hub_inv_def)+
  next
    fix d cn assume "hb_conns (with_conn c f h) d = Some cn"
    then show "d < hb_next (with_conn c f h)" "conn_ok cn"
      using h op(3) by (auto simp: hub_inv_def split: if_splits)
  next
    fix d p assume "hb_serving (with_conn c f h) d = Some p"
    then have "hb_serving h d = Some p" by simp
    then obtain cn where "hb_conns h d = Some cn" "p = Closing \<longrightarrow> \<not> nc_connected cn"
      using h unfolding hub_inv_def by blast
    then show "\<exists>cn. hb_conns (with_conn c f h) d = Some cn \<and> (p = Closing \<longrightarrow> \<not> nc_connected cn)"
      using op(2) by (cases "d = c") auto
  qed
qed

lemma hub_inv_bus [simp]: "hub_inv (h\<lparr>hb_bus := b\<rparr>) = hub_inv h"
  by (simp add: hub_inv_def)

lemma publish_inv [simp]: "hub_inv (publishNodeEvent now i n t h) = hub_inv h"
  by (simp add: publishNodeEvent_def)

lemma hub_inv_phase:
  assumes "hub_inv h" and "\<And>p. x = Some p \<Longrightarrow> \<exists>cn. hb_conns h c = Some cn \<and> (p = Closing \<longrightarrow> \<not> nc_connected cn)"
  shows "hub_inv (h\<lparr>hb_serving := (hb_serving h)(c := x)\<rparr>)"
  using assms unfolding hub_inv_def by (auto split: if_splits)

lemma hub_inv_unregister: "hub_inv h \<Longrightarrow> hub_inv (unregisterNode n h)"
proof -
  assume h: "hub_inv h"
  show ?thesis
  proof (cases "hb_nodes h n")
    case (Some c)
    have "hub_inv (with_conn c conn_Close h)" by (rule hub_inv_conn [OF conn_op_Close h])
    then show ?thesis using Some by (simp add: unregisterNode_def hub_inv_def)
  qed (use h in \<open>simp add: unregisterNode_def\<close>)
qed

lemma hub_inv_register:
  assumes "hub_inv h" and "hb_conns h c = Some cn" and "nc_nodeID cn = n"
  shows "hub_inv (registerNode n c info h)"
proof -
  let ?h1 = "case hb_nodes h n of Some old \<Rightarrow> with_conn old conn_Close h | None \<Rightarrow> h"
  have 1: "hub_inv ?h1" using assms(1) by (auto split: option.split intro: hub_inv_conn conn_ops)
  obtain cn1 where "hb_conns ?h1 c = Some cn1" "nc_nodeID cn1 = n"
  proof (cases "hb_nodes h n")
    case None
    then show ?thesis using that assms(2,3) by simp
  next
    case (Some old)
    then show ?thesis using that assms(2,3) by (cases "old = c") (simp_all add: conn_Close_def split: if_splits)
  qed
  then have "hub_inv (?h1\<lparr>hb_nodes := (hb_nodes ?h1)(n \<mapsto> c)\<rparr>)"
    using 1 unfolding hub_inv_def by simp
  then show ?thesis unfolding registerNode_def Let_def by (rule hub_inv_conn [OF conn_op_Info])
qed

lemma hub_inv_connect:
  assumes "hub_inv h" and "connect_register now msgID m h = Inr h'"
  shows "hub_inv h'"
proof -
  obtain info where m: "m = InRegister info" using assms(2) by (cases m) (auto simp: connect_register_def)
  let ?c = "hb_next h" and ?cn = "NewNodeConnection (rn_NodeId info) now"
  let ?h1 = "h\<lparr>hb_conns := (hb_conns h)(?c \<mapsto> ?cn), hb_next := ?c + 1, hb_serving := (hb_serving h)(?c \<mapsto> Accepted msgID)\<rparr>"
  have "conn_ok ?cn" by (simp add: conn_ok_def NewNodeConnection_def)
  moreover have "hb_conns h ?c = None" using assms(1) unfolding hub_inv_def by (metis less_irrefl not_None_eq)
  ultimately have "hub_inv ?h1" using assms(1) unfolding hub_inv_def
    by (auto split: if_splits simp: less_Suc_eq)
  then have "hub_inv (registerNode (rn_NodeId info) ?c info ?h1)"
    by (rule hub_inv_register [where cn = ?cn]) (simp_all add: NewNodeConnection_def)
  then show ?thesis using assms(2) by (simp add: m connect_register_def Let_def)
qed

lemma hub_inv_fold:
  assumes "\<And>x h. hub_inv h \<Longrightarrow> hub_inv (f x h)" and "hub_inv h"
  shows "hub_inv (fold f xs h)"
  using assms(2) by (induction xs arbitrary: h) (auto intro: assms(1))

lemma hub_inv_set_conn:
  assumes "conn_op f" and "hub_inv h" and "hb_conns h c = Some cn"
  shows "hub_inv (h\<lparr>hb_conns := (hb_conns h)(c \<mapsto> f cn)\<rparr>)"
  using hub_inv_conn [OF assms(1,2), of c] assms(3) by simp

lemma hub_inv_step: "hub_step timeout h h' \<Longrightarrow> hub_inv h \<Longrightarrow> hub_inv h'"
proof (induction rule: hub_step.induct)
  case (register now msgID m h h')
  then show ?case using hub_inv_connect by blast
next
  case (ack h c msgID ok now ident)
  then obtain cn where c: "hb_conns h c = Some cn" unfolding hub_inv_def by blast
  have "hub_inv ((with_conn c (\<lambda>x. x\<lparr>nc_sent := nc_sent x @ ms\<rparr>) h)\<lparr>hb_serving := (hb_serving h)(c \<mapsto> Serving)\<rparr>)" for ms
  proof -
    have "hub_inv (with_conn c (\<lambda>x. x\<lparr>nc_sent := nc_sent x @ ms\<rparr>) h)" by (rule hub_inv_conn [OF conn_op_sent ack.prems])
    from hub_inv_phase [OF this, of "Some Serving" c] show ?thesis using c by simp
  qed
  moreover have "hub_inv (h\<lparr>hb_serving := (hb_serving h)(c := None)\<rparr>)" by (rule hub_inv_phase) (use ack in auto)
  ultimately show ?case using c by (simp add: connect_ack_def hub_inv_unregister)
next
  case (finish h c)
  then obtain cn where c: "hb_conns h c = Some cn" unfolding hub_inv_def by blast
  have "hub_inv (with_conn c conn_Close h)" by (rule hub_inv_conn [OF conn_op_Close finish.prems])
  from hub_inv_phase [OF this, of "Some Closing" c] show ?case using c by (simp add: serve_end_def conn_Close_def)
next
  case (leave h c now ident)
  have "hub_inv (h\<lparr>hb_serving := (hb_serving h)(c := None)\<rparr>)" by (rule hub_inv_phase) (use leave in auto)
  then show ?case using leave by (simp add: connect_leave_def hub_inv_unregister split: option.split)
next
  case (post h nodeID m)
  then show ?case using hub_inv_set_conn [OF conn_op_Send [of m] post]
    by (auto simp: SendToNode_def node_conn_def split: option.splits)
next
  case (request h ident requestID cmd nodeID)
  let ?m = "\<lparr>ct_MessageId = ident, ct_Payload = CommandP cmd\<rparr>"
  show ?case
  proof (cases "node_conn nodeID h")
    case (Some p)
    then obtain c cn where p: "p = (c, cn)" "hb_conns h c = Some cn" by (cases p) (auto simp: node_conn_def split: option.splits)
    have "snd (execute_begin ident requestID cmd nodeID h) = h\<lparr>hb_conns := (hb_conns h)(c \<mapsto> snd (send_request requestID ?m cn))\<rparr>"
      using Some p(1) by (simp add: execute_begin_def split: prod.split option.split)
    then show ?thesis using hub_inv_set_conn [OF conn_op_request [of requestID ?m] request p(2)] by simp
  qed (use request in \<open>simp add: execute_begin_def\<close>)
next
  case (check ks h now ident)
  have one: "hub_inv (check_one now ident timeout c g)" if "hub_inv g" for c g
    using that by (simp add: check_one_def hub_inv_unregister split: option.split)
  show ?case unfolding checkHeartbeats_def by (rule hub_inv_fold [OF one check.prems])
next
  case (cleanup h)
  then show ?case unfolding hub_inv_def hub_cleanup_def by auto
qed (auto intro!: hub_inv_conn conn_ops)


section \<open>Reconnecting\<close>

lemma hub_inv_reach: "hub_reach timeout (NewCommunicationHub pre) h \<Longrightarrow> hub_inv h"
proof (induction rule: hub_reach.induct)
  case start
  show ?case by (simp add: hub_inv_def NewCommunicationHub_def)
qed (rule hub_inv_step)

lemma publish_hub [simp]:
  "hb_nodes (publishNodeEvent now i n t h) = hb_nodes h" "hb_conns (publishNodeEvent now i n t h) = hb_conns h"
  "hb_serving (publishNodeEvent now i n t h) = hb_serving h"
  by (simp_all add: publishNodeEvent_def)

text \<open>
  A node that connects again while the goroutine of its first connection still runs loses the new one.
  Registration closes the old connection and puts the new one in the table; the old goroutine then
  ends and unregisters the node by name, which closes the new connection and removes it: the node is
  connected by its own account and unknown to the hub, which answers \<open>node not found\<close>.
\<close>
theorem reconnect_drops_new:
  assumes reach: "hub_reach timeout (NewCommunicationHub pre) h"
    and old: "hb_nodes h n = Some c1" "hb_serving h c1 = Some Serving"
    and info: "rn_NodeId info = n"
    and h1: "connect_register now msgID (InRegister info) h = Inr h1"
    and h2: "h2 = connect_ack True now e1 (hb_next h) msgID h1"
    and h4: "h4 = connect_leave now e2 c1 (serve_end c1 h2)"
  shows "hub_reach timeout (NewCommunicationHub pre) h4 \<and>
    hb_nodes h2 n = Some (hb_next h) \<and> (\<exists>cn. hb_conns h2 (hb_next h) = Some cn \<and> nc_connected cn) \<and>
    hb_nodes h4 n = None \<and> hb_serving h4 (hb_next h) = Some Serving \<and>
    (\<exists>cn. hb_conns h4 (hb_next h) = Some cn \<and> \<not> nc_connected cn \<and> nc_stopClosed cn) \<and>
    fst (SendToNode n m h4) = Some (not_found n)"
proof -
  let ?c2 = "hb_next h"
  have inv: "hub_inv h" by (rule hub_inv_reach [OF reach])
  obtain cn1 where cn1: "hb_conns h c1 = Some cn1" "nc_nodeID cn1 = n" "c1 < ?c2"
    using inv old(1) unfolding hub_inv_def by blast
  have ne: "c1 \<noteq> ?c2" using cn1(3) by simp
  let ?new = "UpdateInfo info (NewNodeConnection n now)"
  let ?ack = "?new\<lparr>nc_sent := [\<lparr>ct_MessageId = e1, ct_Payload = AckP msgID True\<rparr>]\<rparr>"
  have r1: "hb_nodes h1 = (hb_nodes h)(n \<mapsto> ?c2)" "hb_conns h1 = (hb_conns h)(c1 \<mapsto> conn_Close cn1, ?c2 \<mapsto> ?new)"
    "hb_serving h1 = (hb_serving h)(?c2 \<mapsto> Accepted msgID)"
    using h1 ne old(1) cn1 by (auto simp: connect_register_def registerNode_def Let_def info)
  have r2: "hb_nodes h2 = hb_nodes h1" "hb_conns h2 = (hb_conns h1)(?c2 \<mapsto> ?ack)" "hb_serving h2 = (hb_serving h)(?c2 \<mapsto> Serving)"
    using r1 by (simp_all add: h2 connect_ack_def UpdateInfo_def NewNodeConnection_def)
  let ?h3 = "serve_end c1 h2"
  have r3: "hb_nodes ?h3 = hb_nodes h2" "hb_conns ?h3 = (hb_conns h2)(c1 \<mapsto> conn_Close (conn_Close cn1))"
    "hb_serving ?h3 = (hb_serving h2)(c1 \<mapsto> Closing)"
    using r1 r2 ne by (simp_all add: serve_end_def)
  have id: "nc_nodeID (conn_Close (conn_Close cn1)) = n" using cn1(2) by (simp add: conn_Close_def)
  have r4: "hb_nodes h4 = (hb_nodes ?h3)(n := None)" "hb_conns h4 = (hb_conns ?h3)(?c2 \<mapsto> conn_Close ?ack)"
    "hb_serving h4 = (hb_serving ?h3)(c1 := None)"
    using r1 r2 r3 ne id by (simp_all add: h4 connect_leave_def unregisterNode_def)
  have "hub_reach timeout (NewCommunicationHub pre) h1" by (rule hub_reach.step [OF reach hub_step.register [OF h1]])
  then have "hub_reach timeout (NewCommunicationHub pre) h2" unfolding h2
    by (rule hub_reach.step) (rule hub_step.ack, simp add: r1)
  then have "hub_reach timeout (NewCommunicationHub pre) ?h3"
    by (rule hub_reach.step) (rule hub_step.finish, simp add: r2 ne old)
  then have "hub_reach timeout (NewCommunicationHub pre) h4" unfolding h4
    by (rule hub_reach.step) (rule hub_step.leave, simp add: r3)
  then show ?thesis using r1 r2 r3 r4 ne
    by (simp add: SendToNode_def node_conn_def UpdateInfo_def NewNodeConnection_def conn_Close_def)
qed

definition sample_info :: "string \<Rightarrow> register_node" where
  "sample_info n = \<lparr>rn_NodeId = n, rn_Hostname = ''host'', rn_Ip = [], rn_Port = 0, rn_Capabilities = [], rn_MaxWorkers = 2,
     rn_Labels = Map.empty, rn_Version = []\<rparr>"

definition sample_register :: "hub \<Rightarrow> hub" where
  "sample_register h = (case connect_register 5 ''r'' (InRegister (sample_info ''n1'')) h of Inr h1 \<Rightarrow> h1 | Inl _ \<Rightarrow> h)"

definition sample_hub :: hub where
  "sample_hub = connect_ack True 5 ''e'' 0 ''r'' (sample_register (NewCommunicationHub ''c''))"

lemma sample_register_eq: "connect_register 5 ''r'' (InRegister (sample_info ''n1'')) h = Inr (sample_register h)"
  by (simp add: sample_register_def connect_register_def Let_def)

lemmas sample_hub_simps = sample_hub_def sample_register_def connect_register_def connect_ack_def registerNode_def
  NewCommunicationHub_def sample_info_def NewNodeConnection_def UpdateInfo_def Let_def

lemma sample_hub_state: "hb_next sample_hub = 1" "hb_nodes sample_hub ''n1'' = Some 0" "hb_serving sample_hub 0 = Some Serving"
  by (simp_all add: sample_hub_simps publishNodeEvent_def)

lemma sample_hub_reach: "hub_reach 30 (NewCommunicationHub ''c'') sample_hub"
proof -
  have "hub_reach 30 (NewCommunicationHub ''c'') (sample_register (NewCommunicationHub ''c''))"
    by (rule hub_reach.step [OF hub_reach.start hub_step.register [OF sample_register_eq]])
  then show ?thesis unfolding sample_hub_def
    by (rule hub_reach.step) (rule hub_step.ack, simp add: sample_hub_simps)
qed

lemma reconnect_drops_new_witness:
  "fst (SendToNode ''n1'' \<lparr>ct_MessageId = ''m'', ct_Payload = RateLimitP 1\<rparr>
     (connect_leave 5 ''f'' 0 (serve_end 0 (connect_ack True 5 ''e'' 1 ''r'' (sample_register sample_hub))))) = Some (not_found ''n1'')"
  using reconnect_drops_new [OF sample_hub_reach sample_hub_state(2,3) _ sample_register_eq refl refl,
      where m = "\<lparr>ct_MessageId = ''m'', ct_Payload = RateLimitP 1\<rparr>"]
  by (simp add: sample_hub_state(1) sample_info_def)


section \<open>Commands\<close>

text \<open>What the node's client does with a message of the hub; a request is of no kind it knows.\<close>

definition client_handle :: "bool \<Rightarrow> control_payload \<Rightarrow> 'r node \<Rightarrow> client \<Rightarrow> 'r node \<times> client" where
  "client_handle ok p n c =
     (case p of
        AckP _ _ \<Rightarrow> (n, c)
      | AssignmentP a \<Rightarrow> handleTaskAssignment ok a n c
      | CommandP cmd \<Rightarrow> (fst (handleCommand cmd n), c)
      | ConfigUpdateP _ _ \<Rightarrow> (n, c)
      | RateLimitP _ \<Rightarrow> (n, c)
      | RequestP _ _ \<Rightarrow> (n, c))"

text \<open>
  A command sent through the hub never reaches the node: what goes out is a status request without the
  command, which the node's client ignores, so no response ever comes.  The call ends with the timeout,
  or, when the connection is closed while it waits, with a nil response that it dereferences.
\<close>
theorem command_never_sent:
  assumes cn: "node_conn nodeID h = Some (c, cn)" and run: "execute_begin ident requestID cmd nodeID h = (Inr d, h')"
    and fresh: "nc_answers cn requestID = None"
  shows "\<exists>cn'. hb_conns h' c = Some cn' \<and>
    nc_sendCh cn' = nc_sendCh cn @ [\<lparr>ct_MessageId = requestID, ct_Payload = RequestP requestID REQUEST_GET_STATUS\<rparr>] \<and>
    client_handle ok (RequestP requestID REQUEST_GET_STATUS) nd cl = (nd, cl) \<and>
    execute_end requestID TimedOut cn' = Some (Inl ''response timeout'') \<and>
    execute_end requestID Ready (conn_Close cn') = None"
proof -
  let ?m = "\<lparr>ct_MessageId = ident, ct_Payload = CommandP cmd\<rparr>"
  have "fst (send_request requestID ?m cn) = None" and h': "h' = h\<lparr>hb_conns := (hb_conns h)(c \<mapsto> snd (send_request requestID ?m cn))\<rparr>"
    using run cn by (auto simp: execute_begin_def split: prod.splits option.splits)
  then have "nc_connected cn" and req: "snd (send_request requestID ?m cn) =
      cn\<lparr>nc_pending := insert requestID (nc_pending cn),
         nc_sendCh := nc_sendCh cn @ [\<lparr>ct_MessageId = requestID, ct_Payload = RequestP requestID REQUEST_GET_STATUS\<rparr>]\<rparr>"
    by (auto simp: send_request_def conn_Send_def Let_def split: if_splits)
  then show ?thesis using fresh
    by (simp add: h' req client_handle_def execute_end_def await_response_def conn_Close_def)
qed

lemma command_never_sent_witness:
  "execute_end ''q'' TimedOut (the (hb_conns (snd (execute_begin ''i'' ''q'' CMD_PAUSE ''n1'' sample_hub)) 0)) = Some (Inl ''response timeout'')"
proof -
  obtain cn where cn: "node_conn ''n1'' sample_hub = Some (0, cn)" "nc_answers cn = Map.empty" "nc_connected cn" "nc_sendCh cn = []"
    by (simp add: node_conn_def sample_hub_simps)
  have run: "execute_begin ''i'' ''q'' CMD_PAUSE ''n1'' sample_hub = (Inr 0, snd (execute_begin ''i'' ''q'' CMD_PAUSE ''n1'' sample_hub))"
    using cn by (simp add: execute_begin_def send_request_def conn_Send_def)
  show ?thesis using command_never_sent [OF cn(1) run, of True undefined undefined] cn(2) by auto
qed

section \<open>Further behaviour\<close>

text \<open>
  The events the hub publishes have a one-byte type, so a subscriber to \<open>node.online\<close> or \<open>node.offline\<close>
  never hears of them, only a wildcard subscriber does.
\<close>

lemma hub_event_types: "length (event_type_of t) = 1 \<and> event_type_of t \<notin> {''node.online'', ''node.offline'', ''node.error''}"
  by (cases t) (simp_all add: event_type_of_def)

lemma hub_events_unheard:
  assumes "ev_Type e = event_type_of t" and "eb_subscribers b (event_type_of t) = []"
  shows "calls_for e b = map (\<lambda>h. (h, e)) (eb_subscribers b ''*'')"
  using assms by (simp add: calls_for_def)

text \<open>After a failed send the connection counts as closed: \<open>Close\<close> does nothing and its requests wait for the timeout.\<close>

lemma failed_send_never_closes:
  "nc_sender cn \<Longrightarrow> \<not> nc_stopClosed cn \<Longrightarrow> nc_sendCh cn \<noteq> [] \<Longrightarrow>
     conn_Close (sendLoop False cn) = sendLoop False cn \<and> \<not> nc_stopClosed (sendLoop False cn) \<and>
     nc_pending (sendLoop False cn) = nc_pending cn"
  by (auto simp: sendLoop_def conn_Close_def neq_Nil_conv)

text \<open>Unregistering a live client waits for the lock it holds; closing the client first works.\<close>

lemma tui_unregister_deadlock:
  "hb_tui h i = Some True \<Longrightarrow> UnregisterTUIClient i h = None \<and>
     tui_Close i h = Some (h\<lparr>hb_tui := (hb_tui h)(i := None)\<rparr>)"
  by (simp add: UnregisterTUIClient_def tui_Close_def)

lemma disconnect_keeps [simp]:
  "hb_running (disconnectAllNodes ks h) = hb_running h" "hb_stopClosed (disconnectAllNodes ks h) = hb_stopClosed h"
proof -
  have "hb_running (fold (\<lambda>c h. with_conn c conn_Close h) cs h) = hb_running h \<and>
      hb_stopClosed (fold (\<lambda>c h. with_conn c conn_Close h) cs h) = hb_stopClosed h" for cs
    by (induction cs arbitrary: h) simp_all
  then show "hb_running (disconnectAllNodes ks h) = hb_running h" "hb_stopClosed (disconnectAllNodes ks h) = hb_stopClosed h"
    by (simp_all add: disconnectAllNodes_def)
qed

lemma hub_restart_panics:
  "hub_Stop ks h = Some (Inr h1) \<Longrightarrow> snd (hub_Start h1) = h2 \<Longrightarrow> hub_Stop ks2 h2 = None"
  by (auto simp: hub_Stop_def hub_Start_def Let_def split: if_splits option.splits sum.splits)

end
