(* ===== verification/GoTime.thy ===== *)
theory GoTime
  imports GoText
begin

text \<open>
  The calendar part of Go's \<open>time\<close> that the program uses: the civil date of an instant in a zone of fixed
  offset, \<open>AddDate\<close> by days, and the layouts \<open>20060102\<close> and \<open>2006-01-02\<close>.  An instant counts
  nanoseconds from 1970.
\<close>

definition day_length :: duration where "day_length = 24 * 60 * minute"

definition day_number :: "duration \<Rightarrow> gotime \<Rightarrow> int" where
  "day_number tz t = (t + tz) div day_length"

text \<open>Year, month and day of a day counted from 1970-01-01, through a year that begins in March.\<close>

definition year_of_era :: "int \<Rightarrow> int" where
  "year_of_era doe = (doe - doe div 1460 + doe div 36524 - doe div 146096) div 365"

definition march_month :: "int \<Rightarrow> int" where
  "march_month doy = (5 * doy + 2) div 153"

definition civil :: "int \<Rightarrow> int \<times> int \<times> int" where
  "civil d =
     (let era = (d + 719468) div 146097;
          doe = (d + 719468) mod 146097;
          yoe = year_of_era doe;
          doy = doe - (365 * yoe + yoe div 4 - yoe div 100);
          mp = march_month doy;
          month = (if mp < 10 then mp + 3 else mp - 9)
      in (yoe + era * 400 + (if month \<le> 2 then 1 else 0), month, doy - (153 * mp + 2) div 5 + 1))"

definition pad :: "nat \<Rightarrow> int \<Rightarrow> string" where
  "pad w i = (let s = dec_of_int i in replicate (w - length s) (CHR ''0'') @ s)"

definition compact_date :: "duration \<Rightarrow> gotime \<Rightarrow> string" where
  "compact_date tz t = (case civil (day_number tz t) of (y, m, d) \<Rightarrow> pad 4 y @ pad 2 m @ pad 2 d)"

definition dashed_date :: "duration \<Rightarrow> gotime \<Rightarrow> string" where
  "dashed_date tz t = (case civil (day_number tz t) of (y, m, d) \<Rightarrow> pad 4 y @ ''-'' @ pad 2 m @ ''-'' @ pad 2 d)"

definition add_days :: "gotime \<Rightarrow> int \<Rightarrow> gotime" where
  "add_days t n = t + n * day_length"

lemma day_number_add: "day_number tz (add_days t n) = day_number tz t + n"
proof -
  have "(t + n * day_length + tz) div day_length = ((t + tz) + n * day_length) div day_length" by (simp add: algebra_simps)
  also have "\<dots> = (t + tz) div day_length + n" by (simp add: day_length_def)
  finally show ?thesis by (simp add: day_number_def add_days_def)
qed

lemma civil_examples:
  "civil 0 = (1970, 1, 1)" "civil 19782 = (2024, 2, 29)" "civil 19783 = (2024, 3, 1)" "civil 11016 = (2000, 2, 29)"
  by code_simp+

text \<open>From 1970 on the year has four digits, the first of them not zero (as long as it is below 10000).\<close>

lemma yoe_nonneg:
  assumes "0 \<le> x"
  shows "0 \<le> year_of_era x"
proof -
  have "0 \<le> x - x div 1460 + x div 36524 - x div 146096" using assms by linarith
  moreover have "(0 :: int) < 365" by simp
  ultimately show ?thesis unfolding year_of_era_def by (rule pos_imp_zdiv_nonneg_iff [THEN iffD2, rotated])
qed

lemma civil_year_ge:
  assumes "0 \<le> d"
  shows "1600 \<le> fst (civil d)"
proof -
  have "0 \<le> year_of_era ((d + 719468) mod 146097)" by (rule yoe_nonneg) simp
  moreover have "4 \<le> (d + 719468) div 146097" using assms by linarith
  ultimately have year: "1600 \<le> year_of_era ((d + 719468) mod 146097) + (d + 719468) div 146097 * 400" by linarith
  have "0 \<le> (if b then 1 else 0 :: int)" for b by simp
  then show ?thesis unfolding civil_def Let_def fst_conv by (rule add_increasing2 [OF _ year])
qed

lemma dec_of_nat_hd_nonzero:
  assumes "0 < n"
  shows "hd (dec_of_nat n) \<noteq> CHR ''0''"
  using assms
proof (induction n rule: dec_of_nat.induct)
  case (1 n)
  show ?case
  proof (cases "n < 10")
    case True
    have "of_char (digit n) \<noteq> (48 :: nat)" using True 1 of_char_digit [of n] by simp
    then have "digit n \<noteq> CHR ''0''" by auto
    then show ?thesis using True by (simp add: dec_of_nat.simps [of n])
  next
    case False
    then have "dec_of_nat n = dec_of_nat (n div 10) @ [digit (n mod 10)]" by (simp add: dec_of_nat.simps [of n])
    then show ?thesis using 1 False dec_of_nat_digits [of "n div 10"] by simp
  qed
qed

lemma dec_of_nat_length: "10 ^ k \<le> n \<Longrightarrow> k < length (dec_of_nat n)"
proof (induction k arbitrary: n)
  case 0
  then show ?case using dec_of_nat_digits [of n] by simp
next
  case (Suc k)
  have "10 ^ k \<le> n div 10" using Suc.prems by (simp add: less_eq_div_iff_mult_less_eq mult.commute)
  then have "k < length (dec_of_nat (n div 10))" by (rule Suc.IH)
  moreover have "\<not> n < 10"
  proof -
    have "(1 :: nat) \<le> 10 ^ k" by simp
    then have "10 \<le> (10 :: nat) ^ Suc k" by simp
    then show ?thesis using Suc.prems by linarith
  qed
  ultimately show ?case by (simp add: dec_of_nat.simps [of n])
qed

lemma compact_date_hd:
  assumes "0 \<le> t + tz"
  shows "compact_date tz t \<noteq> [] \<and> hd (compact_date tz t) \<noteq> CHR ''0''"
proof -
  obtain y m d where c: "civil (day_number tz t) = (y, m, d)" by (cases "civil (day_number tz t)")
  have "0 \<le> day_number tz t" using assms by (simp add: day_number_def day_length_def)
  then have y: "1600 \<le> y" using civil_year_ge c by (metis fst_conv)
  then have "3 < length (dec_of_nat (nat y))" by (intro dec_of_nat_length) simp
  then have "pad 4 y = dec_of_nat (nat y)" using y by (simp add: pad_def dec_of_int_def Let_def)
  then show ?thesis using dec_of_nat_hd_nonzero [of "nat y"] dec_of_nat_digits [of "nat y"] y
    by (simp add: compact_date_def c)
qed

end
