(* ===== verification/TaskScheduler.thy ===== *)
theory TaskScheduler
  imports GoTime Redis "HOL-Library.AList"
begin

text \<open>
  The scheduler that turns task documents into queued tasks (src/crawler/scheduler/scheduler.go), with the
  document's types (src/crawler/task/schema.go).  MongoDB, Redis and cron are outside: what is written is
  the list of effects, what is read are arguments.  The server's zone has a fixed offset.  \<open>None\<close> as the
  result of a submission stands for a nil pointer panic.
\<close>

section \<open>Task documents\<close>

record date_strategy =
  ds_Mode :: string
  ds_Format :: string
  ds_StartDays :: int
  ds_EndDays :: int
  ds_DayStep :: int
  ds_CustomDays :: "int list"

record variable =
  va_Name :: string
  va_Type :: string
  va_Strategy :: "date_strategy option"

text \<open>
  A request body as MongoDB decodes it: nothing, an ordered document, a map, a text, or another value.  The
  values inside are JSON values.
\<close>

datatype body =
    BodyNil
  | BodyD "(string \<times> goval) list"
  | BodyM "(string \<times> goval) list"
  | BodyText string
  | BodyValue goval

record extraction_rule =
  xn_Field :: string
  xn_Path :: string
  xn_Required :: bool
  xn_Default :: goval

record storage_target =
  tg_Type :: string
  tg_Config :: "(string \<rightharpoonup> goval) option"

record schedule_config =
  sg_Type :: string
  sg_Expression :: string

record task_document =
  td_ID :: string
  td_Name :: string
  td_Type :: string
  td_Category :: string
  td_Enabled :: bool
  td_NextRun :: gotime
  td_Priority :: int
  td_Timeout :: int
  td_MaxRetries :: int
  td_RetryDelay :: int
  td_Schedule :: schedule_config
  td_Method :: string
  td_URL :: string
  td_Headers :: "(string \<rightharpoonup> string) option"
  td_Cookies :: "(string \<rightharpoonup> string) option"
  td_QueryParams :: "(string \<times> goval) list"
  td_Body :: body
  td_Variables :: "variable list"
  td_ExtractionType :: string
  td_Rules :: "extraction_rule list"
  td_Targets :: "storage_target list"
  td_ProjectID :: string
  td_LuaScript :: string

text \<open>
  The conversions the code calls: JSON of values, of tasks and back, \<open>ParseDuration\<close>, the hexadecimal
  check of an identifier, and the renderings of \<open>%v\<close>.
\<close>

record sched_env =
  se_tz :: duration
  se_prefix :: string
  se_json :: "goval \<Rightarrow> string"
  se_parse :: "string \<rightharpoonup> goval"
  se_task :: "task \<rightharpoonup> string"
  se_duration :: "string \<rightharpoonup> duration"
  se_show_duration :: "duration \<Rightarrow> string"
  se_hex :: "string \<Rightarrow> bool"
  se_float :: "64 word \<Rightarrow> string"
  se_time :: "gotime \<Rightarrow> string"

section \<open>Dates\<close>

function range_days :: "int \<Rightarrow> int \<Rightarrow> int \<Rightarrow> int list" where
  "range_days i until step =
     (if i \<le> until then i # range_days (i + (if step \<le> 0 then 1 else step)) until step else [])"
  by pat_completeness auto
termination
  by (relation "measure (\<lambda>(i, until, step). nat (until + 1 - i))") auto

declare range_days.simps [simp del]

definition strategy_days :: "date_strategy option \<Rightarrow> int list" where
  "strategy_days s = (case s of
      None \<Rightarrow> [0..6]
    | Some st \<Rightarrow>
        if ds_Mode st = ''single'' then [ds_StartDays st]
        else if ds_Mode st = ''range'' then range_days (ds_StartDays st) (ds_EndDays st) (ds_DayStep st)
        else if ds_Mode st = ''custom'' then ds_CustomDays st
        else [0])"

section \<open>Bodies\<close>

definition put_date :: "string \<Rightarrow> goval \<Rightarrow> goval" where
  "put_date date v = (if v = GStr ''${DATE}'' then GStr date else v)"

definition put_dates :: "string \<Rightarrow> (string \<times> goval) list \<Rightarrow> (string \<times> goval) list" where
  "put_dates date m = map (\<lambda>(k, v). (k, put_date date v)) m"

text \<open>
  What decoding a JSON array into key-value pairs gives: every element is an object (or null), field names
  are compared without case, absent fields stay empty, and a key that is not a text is an error.
\<close>

definition pair_of :: "goval \<Rightarrow> (string \<times> goval) option" where
  "pair_of v = (case v of
      GNil \<Rightarrow> Some ([], GNil)
    | GMap m \<Rightarrow>
        (let val = (case map_of (rev (map (\<lambda>(k, v). (ToLower k, v)) m)) ''value'' of Some x \<Rightarrow> x | None \<Rightarrow> GNil) in
         case map_of (rev (map (\<lambda>(k, v). (ToLower k, v)) m)) ''key'' of
           None \<Rightarrow> Some ([], val)
         | Some (GStr k) \<Rightarrow> Some (k, val)
         | Some GNil \<Rightarrow> Some ([], val)
         | Some _ \<Rightarrow> None)
    | _ \<Rightarrow> None)"

fun pairs_of :: "goval list \<Rightarrow> (string \<times> goval) list option" where
  "pairs_of [] = Some []"
| "pairs_of (v # vs) = (case (pair_of v, pairs_of vs) of (Some p, Some ps) \<Rightarrow> Some (p # ps) | _ \<Rightarrow> None)"

definition map_from_pairs :: "(string \<times> goval) list \<Rightarrow> (string \<times> goval) list" where
  "map_from_pairs ps = fold (\<lambda>(k, v). AList.update k v) ps []"

definition processRequestBody :: "(sched_env) \<Rightarrow> body \<Rightarrow> gotime \<Rightarrow> string option" where
  "processRequestBody env b t =
     (let date = dashed_date (se_tz env) t;
          json_map = (\<lambda>m. Some (se_json env (GMap (put_dates date m))))
      in case b of
           BodyNil \<Rightarrow> None
         | BodyD kvs \<Rightarrow> json_map (map_from_pairs kvs)
         | BodyM m \<Rightarrow> json_map m
         | BodyText s \<Rightarrow> (case se_parse env s of Some (GMap m) \<Rightarrow> json_map m | _ \<Rightarrow> Some s)
         | BodyValue v \<Rightarrow>
             (case v of
                GMap m \<Rightarrow> json_map m
              | GList vs \<Rightarrow>
                  (case pairs_of vs of
                     Some (p # ps) \<Rightarrow> json_map (map_from_pairs (p # ps))
                   | _ \<Rightarrow> Some (se_json env v))
              | _ \<Rightarrow> Some (se_json env v)))"

section \<open>From a document to a task\<close>

definition string_entry :: "(string \<rightharpoonup> goval) option \<Rightarrow> string \<Rightarrow> string" where
  "string_entry m k = (case m of None \<Rightarrow> [] | Some f \<Rightarrow> (case f k of Some (GStr s) \<Rightarrow> s | _ \<Rightarrow> []))"

definition buildStorageConfig :: "storage_target list \<Rightarrow> storage_conf" where
  "buildStorageConfig ts = (case ts of
      [] \<Rightarrow> zero_storage_conf\<lparr>sc_Options := Some Map.empty\<rparr>
    | t # _ \<Rightarrow> zero_storage_conf\<lparr>sc_Type := tg_Type t, sc_Database := string_entry (tg_Config t) ''database'',
        sc_Collection := string_entry (tg_Config t) ''collection'', sc_Table := string_entry (tg_Config t) ''table'',
        sc_Options := Some (case tg_Config t of None \<Rightarrow> Map.empty | Some m \<Rightarrow> m)\<rparr>)"

definition with_query :: "sched_env \<Rightarrow> string \<Rightarrow> (string \<times> goval) list \<Rightarrow> string" where
  "with_query env url ps =
     (if ps = [] then url
      else url @ (if Contains url ''?'' then ''&'' else ''?'') @
        join ''&'' (map (\<lambda>(k, v). k @ ''='' @ sprint (se_float env) (se_time env) v) ps))"

definition task_rules :: "task_document \<Rightarrow> extract_rule list" where
  "task_rules doc = map (\<lambda>r. ExtractRule (xn_Field r) (xn_Path r)
     (if td_ExtractionType doc = [] then ''css'' else td_ExtractionType doc) [] False (xn_Required r) (xn_Default r) [] []) (td_Rules doc)"

definition bytes_of :: "string \<Rightarrow> 8 word list" where
  "bytes_of s = map (\<lambda>c. of_nat (of_char c)) s"

definition convertToTask :: "sched_env \<Rightarrow> gotime \<Rightarrow> task_document \<Rightarrow> gotime option \<Rightarrow> task" where
  "convertToTask env now doc date =
     (let target = (case date of Some d \<Rightarrow> d | None \<Rightarrow> now);
          instanceID = (case date of
              Some d \<Rightarrow> td_ID doc @ ''_date_'' @ compact_date (se_tz env) d @ ''_'' @ dec_of_int now
            | None \<Rightarrow> td_ID doc @ ''_'' @ dec_of_int now);
          b = (case processRequestBody env (td_Body doc) target of Some s \<Rightarrow> bytes_of s | None \<Rightarrow> [])
      in zero_task\<lparr>t_ID := instanceID, t_ParentID := td_ID doc,
           t_Name := (case date of Some d \<Rightarrow> td_Name doc @ ''_'' @ compact_date (se_tz env) d | None \<Rightarrow> td_Name doc),
           t_Type := td_Type doc, t_Priority := td_Priority doc,
           t_URL := with_query env (td_URL doc) (td_QueryParams doc), t_Method := td_Method doc,
           t_Headers := td_Headers doc, t_Cookies := td_Cookies doc, t_Body := b,
           t_Timeout := td_Timeout doc * second, t_MaxRetries := td_MaxRetries doc, t_RetryDelay := td_RetryDelay doc * second,
           t_CreatedAt := now, t_Status := StatusPending, t_Source := td_Category doc,
           t_StorageConf := buildStorageConfig (td_Targets doc), t_ProjectID := td_ProjectID doc, t_LuaScript := td_LuaScript doc,
           t_ExtractRules := task_rules doc\<rparr>)"

section \<open>Submission\<close>

text \<open>What is written: a key with a lifetime, the left end of a list, and updates of a document.\<close>

datatype effect =
    SetKey string string duration
  | PushLeft string string
  | RecordRun string gotime gotime
  | RecordResult string gotime gotime bool string

text \<open>The zero time stands for no next run.\<close>

definition sched_nextRun :: "sched_env \<Rightarrow> gotime \<Rightarrow> schedule_config \<Rightarrow> gotime" where
  "sched_nextRun env now sg =
     (if sg_Type sg = ''interval'' then
        (case se_duration env (sg_Expression sg) of None \<Rightarrow> now + 5 * minute | Some d \<Rightarrow> now + d)
      else if sg_Type sg = ''cron'' then now + hour
      else time_zero)"

text \<open>\<open>look\<close> answers the query for the document.\<close>

definition updateTaskStatus :: "sched_env \<Rightarrow> (string \<rightharpoonup> task_document) \<Rightarrow> gotime \<Rightarrow> string \<Rightarrow> effect list" where
  "updateTaskStatus env look now ident =
     (case look ident of None \<Rightarrow> [] | Some doc \<Rightarrow> [RecordRun ident now (sched_nextRun env now (td_Schedule doc))])"

definition submitSingleTask :: "sched_env \<Rightarrow> (string \<rightharpoonup> task_document) \<Rightarrow> gotime \<Rightarrow> bool \<times> bool \<Rightarrow> task \<Rightarrow> task_document \<Rightarrow> effect list" where
  "submitSingleTask env look now ok t doc =
     (case se_task env t of
        None \<Rightarrow> []
      | Some d \<Rightarrow>
          if \<not> fst ok then []
          else SetKey (se_prefix env @ '':task:'' @ t_ID t) d (24 * hour) #
            (if \<not> snd ok then []
             else PushLeft (se_prefix env @ '':queue:tasks:pending'') d #
               (if \<not> Contains (t_ID t) ''_date_'' \<or> Contains (t_ID t) ''_date_0''
                then updateTaskStatus env look now (td_ID doc) else [])))"

definition batch_type_of :: "task_document \<Rightarrow> string" where
  "batch_type_of doc = (if td_Name doc \<noteq> [] then ReplaceAll (ToLower (td_Name doc)) '' '' ''_'' else ''scheduled_batch'')"

definition dated_task :: "sched_env \<Rightarrow> gotime \<Rightarrow> gotime \<Rightarrow> task_document \<Rightarrow> string \<Rightarrow> int \<Rightarrow> nat \<Rightarrow> task" where
  "dated_task env now d doc batchID n i =
     (convertToTask env now doc (Some d))\<lparr>t_BatchID := batchID, t_BatchType := batch_type_of doc, t_BatchSize := n, t_BatchIndex := int i\<rparr>"

text \<open>
  \<open>clk\<close> gives the clock for each task of the call and \<open>ok\<close> Redis's two answers for it.
\<close>

definition submitTasksWithDateStrategy :: "sched_env \<Rightarrow> (string \<rightharpoonup> task_document) \<Rightarrow> gotime \<Rightarrow> (nat \<Rightarrow> gotime) \<Rightarrow> (nat \<Rightarrow> bool \<times> bool) \<Rightarrow>
    task_document \<Rightarrow> date_strategy option \<Rightarrow> effect list" where
  "submitTasksWithDateStrategy env look now clk ok doc s =
     (let dates = map (add_days now) (strategy_days s);
          batchID = td_ID doc @ ''_batch_'' @ dec_of_int now
      in case dates of
           [] \<Rightarrow> []
         | [d] \<Rightarrow> submitSingleTask env look now (ok 0) (convertToTask env (clk 0) doc (Some d)) doc
         | _ \<Rightarrow> concat (map (\<lambda>(i, d). submitSingleTask env look now (ok i) (dated_task env (clk i) d doc batchID (int (length dates)) i) doc)
                   (List.enumerate 0 dates)))"

definition is_date_variable :: "variable \<Rightarrow> bool" where
  "is_date_variable v = (va_Type v = ''date'' \<and> va_Name v = ''DATE'')"

definition body_json :: "sched_env \<Rightarrow> body \<Rightarrow> string" where
  "body_json env b = (case b of
      BodyNil \<Rightarrow> []
    | BodyD kvs \<Rightarrow> se_json env (GList (map (\<lambda>(k, v). GMap [(''Key'', GStr k), (''Value'', v)]) kvs))
    | BodyM m \<Rightarrow> se_json env (GMap m)
    | BodyText s \<Rightarrow> se_json env (GStr s)
    | BodyValue v \<Rightarrow> se_json env v)"

text \<open>A date variable without a strategy is dereferenced by the log line.\<close>

definition submitTask :: "sched_env \<Rightarrow> (string \<rightharpoonup> task_document) \<Rightarrow> gotime \<Rightarrow> (nat \<Rightarrow> gotime) \<Rightarrow> (nat \<Rightarrow> bool \<times> bool) \<Rightarrow>
    task_document \<Rightarrow> effect list option" where
  "submitTask env look now clk ok doc =
     (case List.find is_date_variable (td_Variables doc) of
        Some v \<Rightarrow> (case va_Strategy v of
            None \<Rightarrow> None
          | Some s \<Rightarrow> Some (submitTasksWithDateStrategy env look now clk ok doc (Some s)))
      | None \<Rightarrow>
          if td_Body doc \<noteq> BodyNil \<and> Contains (body_json env (td_Body doc)) ''${DATE}''
          then Some (submitTasksWithDateStrategy env look now clk ok doc None)
          else Some (submitSingleTask env look now (ok 0) (convertToTask env (clk 0) doc None) doc))"

text \<open>The overdue documents the query returned, submitted one after the other.\<close>

definition is_overdue :: "gotime \<Rightarrow> task_document \<Rightarrow> bool" where
  "is_overdue now doc = (td_Enabled doc \<and> td_NextRun doc \<le> now \<and> td_NextRun doc \<noteq> time_zero)"

fun submit_all :: "sched_env \<Rightarrow> (string \<rightharpoonup> task_document) \<Rightarrow> gotime \<Rightarrow> (nat \<Rightarrow> gotime) \<Rightarrow> (nat \<Rightarrow> bool \<times> bool) \<Rightarrow>
    task_document list \<Rightarrow> effect list option" where
  "submit_all env look now clk ok [] = Some []"
| "submit_all env look now clk ok (doc # docs) =
     (case submitTask env look now clk ok doc of
        None \<Rightarrow> None
      | Some es \<Rightarrow> map_option (\<lambda>rest. es @ rest) (submit_all env look now clk ok docs))"

definition checkOverdueTasks :: "sched_env \<Rightarrow> (string \<rightharpoonup> task_document) \<Rightarrow> gotime \<Rightarrow> (nat \<Rightarrow> gotime) \<Rightarrow> (nat \<Rightarrow> bool \<times> bool) \<Rightarrow>
    task_document list \<Rightarrow> effect list option" where
  "checkOverdueTasks env look now clk ok docs = submit_all env look now clk ok (filter (is_overdue now) docs)"

definition RunTaskNow :: "sched_env \<Rightarrow> (string \<rightharpoonup> task_document) \<Rightarrow> gotime \<Rightarrow> (nat \<Rightarrow> gotime) \<Rightarrow> (nat \<Rightarrow> bool \<times> bool) \<Rightarrow>
    string \<Rightarrow> (string + effect list) option" where
  "RunTaskNow env look now clk ok ident =
     (if \<not> se_hex env ident then Some (Inl ''invalid task ID'')
      else case look ident of
          None \<Rightarrow> Some (Inl ''task not found'')
        | Some doc \<Rightarrow> map_option Inr (submitTask env look now clk ok doc))"

definition UpdateTaskResult :: "sched_env \<Rightarrow> (string \<rightharpoonup> task_document) \<Rightarrow> gotime \<Rightarrow> string \<Rightarrow> bool \<Rightarrow> string \<Rightarrow> effect list" where
  "UpdateTaskResult env look now instance_id success errorMsg =
     (let parts = Split instance_id ''_'' in
      if length parts < 2 then []
      else if \<not> se_hex env (hd parts) then []
      else case look (hd parts) of
          None \<Rightarrow> []
        | Some doc \<Rightarrow> [RecordResult (hd parts) now (sched_nextRun env now (td_Schedule doc)) success (if success then [] else errorMsg)])"

section \<open>Scheduling\<close>

text \<open>The cron library's entries, the one-shot timers, and the scheduler's own table.\<close>

datatype job = IntervalJob string | CronJob task_document

record scheduler =
  sd_entries :: "nat \<rightharpoonup> job"
  sd_next :: nat
  sd_tasks :: "string \<rightharpoonup> nat"
  sd_timers :: "(gotime \<times> task_document) list"

definition NewTaskScheduler :: scheduler where
  "NewTaskScheduler = \<lparr>sd_entries = Map.empty, sd_next = 0, sd_tasks = Map.empty, sd_timers = []\<rparr>"

definition AddFunc :: "job \<Rightarrow> string \<Rightarrow> scheduler \<Rightarrow> scheduler" where
  "AddFunc j ident s = s\<lparr>sd_entries := (sd_entries s)(sd_next s \<mapsto> j), sd_next := sd_next s + 1,
     sd_tasks := (sd_tasks s)(ident \<mapsto> sd_next s)\<rparr>"

text \<open>\<open>valid\<close>: the cron library takes the expression.\<close>

definition scheduleTask :: "sched_env \<Rightarrow> (string \<Rightarrow> bool) \<Rightarrow> gotime \<Rightarrow> task_document \<Rightarrow> scheduler \<Rightarrow> string option \<times> scheduler" where
  "scheduleTask env valid now doc s =
     (let ident = td_ID doc;
          s1 = (case sd_tasks s ident of
              None \<Rightarrow> s
            | Some e \<Rightarrow> s\<lparr>sd_entries := (sd_entries s)(e := None), sd_tasks := (sd_tasks s)(ident := None)\<rparr>);
          ty = sg_Type (td_Schedule doc); ex = sg_Expression (td_Schedule doc)
      in if ty = ''manual'' then (None, s1)
         else if ty = ''once'' then
           (None, if td_NextRun doc \<noteq> time_zero \<and> td_NextRun doc > now
              then s1\<lparr>sd_timers := sd_timers s1 @ [(td_NextRun doc, doc)]\<rparr> else s1)
         else if ty = ''interval'' then
           (case se_duration env ex of
              None \<Rightarrow> (Some ''invalid interval'', s1)
            | Some d \<Rightarrow> if valid (''@every '' @ se_show_duration env d) then (None, AddFunc (IntervalJob ident) ident s1) else (Some ''invalid schedule'', s1))
         else if ty = ''cron'' then
           (if valid ex then (None, AddFunc (CronJob doc) ident s1) else (Some ''invalid cron expression'', s1))
         else (Some (''unknown schedule type: '' @ ty), s1))"

text \<open>The documents the query returned, those that failed to decode left out; errors are only logged.\<close>

definition loadTasks :: "sched_env \<Rightarrow> (string \<Rightarrow> bool) \<Rightarrow> gotime \<Rightarrow> task_document list \<Rightarrow> scheduler \<Rightarrow> scheduler" where
  "loadTasks env valid now docs s = fold (\<lambda>doc s. snd (scheduleTask env valid now doc s)) docs s"

text \<open>What a cron entry does when it fires.  The interval job reloads its document and looks at the next run only.\<close>

definition fire :: "sched_env \<Rightarrow> (string \<rightharpoonup> task_document) \<Rightarrow> gotime \<Rightarrow> (nat \<Rightarrow> gotime) \<Rightarrow> (nat \<Rightarrow> bool \<times> bool) \<Rightarrow> job \<Rightarrow> effect list option" where
  "fire env look now clk ok j =
     (case j of
        CronJob doc \<Rightarrow> submitTask env look now clk ok doc
      | IntervalJob ident \<Rightarrow> (case look ident of
            None \<Rightarrow> Some []
          | Some doc \<Rightarrow> if td_NextRun doc = time_zero \<or> td_NextRun doc > now then Some []
              else submitTask env look now clk ok doc))"

section \<open>Identifiers\<close>

lemma Contains_Cons: "Contains (c # s) p \<longleftrightarrow> HasPrefix (c # s) p \<or> Contains s p"
  by (auto simp: Contains_def)

lemma Contains_skip: "q \<notin> set h \<Longrightarrow> Contains (h @ s) (q # p) \<longleftrightarrow> Contains s (q # p)"
  by (induction h) (auto simp: Contains_Cons HasPrefix_def)

lemma Contains_without: "q \<notin> set s \<Longrightarrow> \<not> Contains s (q # p)"
  by (auto simp: Contains_iff)

lemma digits_no_underscore: "list_all is_digit s \<Longrightarrow> CHR ''_'' \<notin> set s \<and> CHR ''d'' \<notin> set s"
  by (induction s) (auto simp: char_between_def)

lemma dec_of_int_clean: "CHR ''_'' \<notin> set (dec_of_int i) \<and> CHR ''d'' \<notin> set (dec_of_int i)"
  using dec_of_nat_digits [of "nat i"] dec_of_nat_digits [of "nat (- i)"]
  by (auto simp: dec_of_int_def dest: digits_no_underscore)

lemma compact_date_clean: "CHR ''_'' \<notin> set (compact_date tz t) \<and> CHR ''d'' \<notin> set (compact_date tz t)"
proof -
  have pad: "CHR ''_'' \<notin> set (pad w i) \<and> CHR ''d'' \<notin> set (pad w i)" for w i
    using dec_of_int_clean [of i] by (auto simp: pad_def Let_def)
  obtain y m d where "civil (day_number tz t) = (y, m, d)" by (cases "civil (day_number tz t)")
  then show ?thesis using pad by (simp add: compact_date_def)
qed

text \<open>Dated identifiers contain the marker of a date and never the one of the first task of a batch.\<close>

lemma dated_id:
  assumes "CHR ''_'' \<notin> set h" and "0 \<le> d + tz"
  shows "Contains (h @ ''_date_'' @ compact_date tz d @ ''_'' @ dec_of_int n) ''_date_''"
    and "\<not> Contains (h @ ''_date_'' @ compact_date tz d @ ''_'' @ dec_of_int n) ''_date_0''"
proof -
  let ?c = "compact_date tz d" and ?n = "dec_of_int n"
  show "Contains (h @ ''_date_'' @ ?c @ ''_'' @ ?n) ''_date_''" by (auto simp: Contains_iff)
  obtain x xs where c: "?c = x # xs" "x \<noteq> CHR ''0''" using compact_date_hd [OF assms(2)] by (cases ?c) auto
  have clean: "CHR ''_'' \<notin> set (x # xs)" "CHR ''d'' \<notin> set (x # xs)" "CHR ''_'' \<notin> set ?n" "CHR ''d'' \<notin> set ?n"
    using compact_date_clean [of tz d] dec_of_int_clean [of n] by (simp_all add: c(1))
  have "\<not> Contains ?n ''_date_0''" by (rule Contains_without [OF clean(3)])
  moreover have "\<not> HasPrefix (CHR ''_'' # ?n) ''_date_0''"
  proof
    assume "HasPrefix (CHR ''_'' # ?n) ''_date_0''"
    then have "take 6 ?n = ''date_0''" by (simp add: HasPrefix_def eval_nat_numeral)
    then have "CHR ''d'' \<in> set (take 6 ?n)" by simp
    then show False using clean(4) in_set_takeD by fast
  qed
  ultimately have "\<not> Contains (CHR ''_'' # ?n) ''_date_0''" by (simp add: Contains_Cons)
  then have 1: "\<not> Contains ((x # xs) @ CHR ''_'' # ?n) ''_date_0''" unfolding Contains_skip [OF clean(1)] .
  have "\<not> HasPrefix (CHR ''_'' # (x # xs) @ CHR ''_'' # ?n) ''_date_0''" using clean(2) by (auto simp: HasPrefix_def)
  then have "\<not> Contains (CHR ''_'' # (x # xs) @ CHR ''_'' # ?n) ''_date_0''" using 1 by (simp add: Contains_Cons)
  then have "\<not> Contains (''date'' @ CHR ''_'' # (x # xs) @ CHR ''_'' # ?n) ''_date_0''" by (subst Contains_skip) simp_all
  moreover have "\<not> HasPrefix (CHR ''_'' # ''date'' @ CHR ''_'' # (x # xs) @ CHR ''_'' # ?n) ''_date_0''"
    using c(2) by (simp add: HasPrefix_def)
  ultimately have "\<not> Contains (CHR ''_'' # ''date'' @ CHR ''_'' # (x # xs) @ CHR ''_'' # ?n) ''_date_0''"
    by (subst Contains_Cons) blast
  then have "\<not> Contains (h @ CHR ''_'' # ''date'' @ CHR ''_'' # (x # xs) @ CHR ''_'' # ?n) ''_date_0''"
    by (subst Contains_skip [OF assms(1)])
  then show "\<not> Contains (h @ ''_date_'' @ ?c @ ''_'' @ ?n) ''_date_0''" by (simp add: c(1))
qed

section \<open>What scheduling guarantees\<close>

lemma range_days_nil: "until < i \<Longrightarrow> range_days i until step = []"
  by (simp add: range_days.simps)

lemma range_days_cons:
  "i \<le> until \<Longrightarrow> range_days i until step = i # range_days (i + (if step \<le> 0 then 1 else step)) until step"
  by (simp add: range_days.simps)

lemma le_div_iff_mult:
  fixes k :: int
  assumes "0 < s"
  shows "k \<le> x div s \<longleftrightarrow> k * s \<le> x"
proof
  assume "k \<le> x div s"
  then have "k * s \<le> x div s * s" using assms by simp
  also have "\<dots> \<le> x" using assms by (simp add: div_mult_mod_eq minus_mod_eq_div_mult [symmetric])
  finally show "k * s \<le> x" .
next
  assume "k * s \<le> x"
  then have "k * s div s \<le> x div s" using assms by (rule zdiv_mono1)
  then show "k \<le> x div s" using assms by simp
qed

lemma range_days_closed:
  assumes "s = (if step \<le> 0 then 1 else step)"
  shows "range_days i until step = map (\<lambda>k. i + int k * s) [0..<(if i \<le> until then nat ((until - i) div s) + 1 else 0)]"
  using assms
proof (induction i until step arbitrary: s rule: range_days.induct)
  case (1 i until step)
  have s: "0 < s" using "1.prems" by auto
  show ?case
  proof (cases "i \<le> until")
    case False
    then show ?thesis by (simp add: range_days_nil)
  next
    case True
    have step: "range_days i until step = i # range_days (i + s) until step" using range_days_cons [OF True] "1.prems" by simp
    have IH: "range_days (i + s) until step = map (\<lambda>k. i + s + int k * s) [0..<(if i + s \<le> until then nat ((until - (i + s)) div s) + 1 else 0)]"
      using "1.IH" [OF True refl] "1.prems" by simp
    have count: "(if i + s \<le> until then nat ((until - (i + s)) div s) + 1 else 0) = nat ((until - i) div s)"
    proof (cases "i + s \<le> until")
      case True
      have "(until - i) div s = (until - (i + s)) div s + 1"
        using s div_add_self2 [of s "until - (i + s)"] by (simp add: algebra_simps)
      moreover have "0 \<le> (until - (i + s)) div s" using True s by (simp add: pos_imp_zdiv_nonneg_iff)
      ultimately show ?thesis using True by simp
    next
      case False
      then have "(until - i) div s = 0" using True s by (simp add: div_pos_pos_trivial)
      then show ?thesis using False by simp
    qed
    have shift: "map f [0..<n + 1] = f 0 # map (\<lambda>k. f (Suc k)) [0..<n]" for f :: "nat \<Rightarrow> int" and n
      by (simp add: upt_conv_Cons map_Suc_upt [symmetric] o_def del: upt_Suc)
    show ?thesis unfolding step IH count using True by (simp only: shift if_True) (simp add: algebra_simps)
  qed
qed


lemma range_days_1_8: "range_days 1 8 3 = [1, 4, 7]"
  by (simp add: range_days.simps)



text \<open>
  A task's identifier starts with its document's, so a result reported for any task the scheduler made is
  recorded on the document it came from, with a next run by that document's schedule.
\<close>
theorem instance_roundtrip:
  assumes "CHR ''_'' \<notin> set (td_ID doc)" and "se_hex env (td_ID doc)" and "look (td_ID doc) = Some cur"
  shows "UpdateTaskResult env look now' (t_ID (convertToTask env now doc date)) success msg =
    [RecordResult (td_ID doc) now' (sched_nextRun env now' (td_Schedule cur)) success (if success then [] else msg)]"
proof -
  obtain r where r: "t_ID (convertToTask env now doc date) = td_ID doc @ ''_'' @ r"
    by (cases date) (auto simp: convertToTask_def Let_def)
  have parts: "Split (td_ID doc @ ''_'' @ r) ''_'' = td_ID doc # Split r ''_''"
    using Index_first_char [OF assms(1), of r] by (simp add: Split_def split_at.simps [of _ "td_ID doc @ _"])
  have "Split r ''_'' \<noteq> []" by (simp add: Split_def split_at_nonempty)
  then have "\<not> length (td_ID doc # Split r ''_'') < 2" by (cases "Split r ''_''") simp_all
  then show ?thesis unfolding UpdateTaskResult_def Let_def r parts using assms(2,3) by (simp del: length_Cons)
qed

text \<open>What submitting one dated task writes, and that it never touches the document.\<close>

definition queued :: "sched_env \<Rightarrow> task \<Rightarrow> effect list" where
  "queued env t = [SetKey (se_prefix env @ '':task:'' @ t_ID t) (the (se_task env t)) (24 * hour),
     PushLeft (se_prefix env @ '':queue:tasks:pending'') (the (se_task env t))]"

lemma submit_dated:
  assumes "CHR ''_'' \<notin> set (td_ID doc)" and "0 \<le> d + se_tz env" and "se_task env t \<noteq> None"
    and "t_ID t = td_ID doc @ ''_date_'' @ compact_date (se_tz env) d @ ''_'' @ dec_of_int n"
  shows "submitSingleTask env look now (True, True) t doc = queued env t"
  using dated_id [OF assms(1,2), of n] assms(3,4) by (auto simp: submitSingleTask_def queued_def)

definition day_tasks :: "sched_env \<Rightarrow> gotime \<Rightarrow> (nat \<Rightarrow> gotime) \<Rightarrow> task_document \<Rightarrow> int list \<Rightarrow> task list" where
  "day_tasks env now clk doc days = map (\<lambda>(i, k).
     dated_task env (clk i) (add_days now k) doc (td_ID doc @ ''_batch_'' @ dec_of_int now) (int (length days)) i)
     (List.enumerate 0 days)"

lemma dated_task_ID: "t_ID (dated_task env c d doc b n i) = td_ID doc @ ''_date_'' @ compact_date (se_tz env) d @ ''_'' @ dec_of_int c"
  by (simp add: dated_task_def convertToTask_def Let_def)

lemma concat_singletons: "concat (map f (map g xs)) = concat (map (\<lambda>x. f (g x)) xs)"
  by (simp add: o_def)

lemma submit_days:
  assumes "CHR ''_'' \<notin> set (td_ID doc)" and "1 < length (strategy_days s)"
    and "\<And>k. k \<in> set (strategy_days s) \<Longrightarrow> 0 \<le> add_days now k + se_tz env"
    and "\<And>t. se_task env t \<noteq> None" and "\<And>i. ok i = (True, True)"
  shows "submitTasksWithDateStrategy env look now clk ok doc s = concat (map (queued env) (day_tasks env now clk doc (strategy_days s)))"
proof -
  let ?days = "strategy_days s"
  obtain a b ks where ds: "?days = a # b # ks" using assms(2) by (cases ?days; cases "tl ?days") auto
  let ?B = "td_ID doc @ ''_batch_'' @ dec_of_int now"
  have one: "submitSingleTask env look now (ok i) (dated_task env (clk i) d doc ?B m i) doc = queued env (dated_task env (clk i) d doc ?B m i)"
    if "d \<in> add_days now ` set ?days" for i d m
  proof -
    have "0 \<le> d + se_tz env" using that assms(3) by auto
    then show ?thesis unfolding assms(5) by (rule submit_dated [OF assms(1) _ assms(4) dated_task_ID])
  qed
  have enum: "List.enumerate 0 (map (add_days now) ?days) = map (\<lambda>(i, k). (i, add_days now k)) (List.enumerate 0 ?days)"
    by (simp add: enumerate_eq_zip zip_map2 case_prod_beta')
  have "submitTasksWithDateStrategy env look now clk ok doc s =
      concat (map (\<lambda>(i, d). submitSingleTask env look now (ok i) (dated_task env (clk i) d doc ?B (int (length ?days)) i) doc)
        (List.enumerate 0 (map (add_days now) ?days)))"
    unfolding submitTasksWithDateStrategy_def Let_def using ds by simp
  also have "\<dots> = concat (map (\<lambda>(i, k). queued env (dated_task env (clk i) (add_days now k) doc ?B (int (length ?days)) i)) (List.enumerate 0 ?days))"
    unfolding enum map_map o_def
  proof (rule arg_cong [where f = concat], rule map_cong [OF refl])
    fix p assume p: "p \<in> set (List.enumerate 0 ?days)"
    obtain i k where ik: "p = (i, k)" by (cases p)
    have k: "k \<in> set ?days" using p ik by (auto simp: in_set_enumerate_eq)
    show "(case case p of (i, k) \<Rightarrow> (i, add_days now k) of (i, d) \<Rightarrow>
          submitSingleTask env look now (ok i) (dated_task env (clk i) d doc ?B (int (length ?days)) i) doc) =
        (case p of (i, k) \<Rightarrow> queued env (dated_task env (clk i) (add_days now k) doc ?B (int (length ?days)) i))"
      using one [OF imageI [OF k]] by (simp only: ik prod.case)
  qed
  finally show ?thesis by (simp add: day_tasks_def o_def split_def)
qed

text \<open>
  C18: A document with a date variable whose strategy gives several days is queued as one batch: one task per
  day, in order, with the batch's identifier, size and its index, each stored under its own key and pushed
  on the pending list.  Nothing is written to the document, its next run included: the check for the first
  task of a batch (\<open>_date_0\<close>) never matches a date of this era.
\<close>
theorem dated_submission:
  assumes "List.find is_date_variable (td_Variables doc) = Some v" and "va_Strategy v = Some s"
    and "CHR ''_'' \<notin> set (td_ID doc)" and "1 < length (strategy_days (Some s))"
    and "\<And>k. k \<in> set (strategy_days (Some s)) \<Longrightarrow> 0 \<le> add_days now k + se_tz env"
    and "\<And>t. se_task env t \<noteq> None" and "\<And>i. ok i = (True, True)"
  shows "submitTask env look now clk ok doc = Some (concat (map (queued env) (day_tasks env now clk doc (strategy_days (Some s))))) \<and>
    map t_BatchIndex (day_tasks env now clk doc (strategy_days (Some s))) = map int [0..<length (strategy_days (Some s))] \<and>
    (\<forall>t \<in> set (day_tasks env now clk doc (strategy_days (Some s))). t_ParentID t = td_ID doc \<and>
       t_BatchSize t = int (length (strategy_days (Some s))) \<and> t_BatchID t = td_ID doc @ ''_batch_'' @ dec_of_int now)"
proof -
  let ?days = "strategy_days (Some s)"
  have "map t_BatchIndex (day_tasks env now clk doc ?days) = map (int \<circ> fst) (List.enumerate 0 ?days)"
    by (simp add: day_tasks_def dated_task_def split_def o_def)
  also have "\<dots> = map int [0..<length ?days]" by (simp add: map_map [symmetric] map_fst_enumerate)
  finally have index: "map t_BatchIndex (day_tasks env now clk doc ?days) = map int [0..<length ?days]" .
  have "\<forall>t \<in> set (day_tasks env now clk doc ?days). t_ParentID t = td_ID doc \<and>
       t_BatchSize t = int (length ?days) \<and> t_BatchID t = td_ID doc @ ''_batch_'' @ dec_of_int now"
    by (auto simp: day_tasks_def dated_task_def convertToTask_def Let_def)
  moreover have "submitTask env look now clk ok doc = Some (submitTasksWithDateStrategy env look now clk ok doc (Some s))"
    using assms(1,2) by (simp add: submitTask_def)
  ultimately show ?thesis using submit_days [OF assms(3-7)] index by simp
qed


text \<open>A document asking for three days, and conversions that always succeed.\<close>

definition sample_sched_env :: sched_env where
  "sample_sched_env = \<lparr>se_tz = 0, se_prefix = ''crawler'', se_json = (\<lambda>_. ''{}''), se_parse = (\<lambda>_. None), se_task = (\<lambda>t. Some (t_ID t)),
     se_duration = (\<lambda>s. if s = ''5m'' then Some (5 * minute) else None), se_show_duration = (\<lambda>_. ''5m0s''), se_hex = (\<lambda>s. s = ''65a''),
     se_float = (\<lambda>_. ''0''), se_time = (\<lambda>_. ''t'')\<rparr>"

definition sample_strategy :: date_strategy where
  "sample_strategy = \<lparr>ds_Mode = ''custom'', ds_Format = [], ds_StartDays = 0, ds_EndDays = 0, ds_DayStep = 1, ds_CustomDays = [0, 1, 2]\<rparr>"

definition sample_task_doc :: task_document where
  "sample_task_doc = \<lparr>td_ID = ''65a'', td_Name = ''slots'', td_Type = ''api'', td_Category = [], td_Enabled = True, td_NextRun = minute,
     td_Priority = 0, td_Timeout = 30, td_MaxRetries = 3, td_RetryDelay = 5, td_Schedule = \<lparr>sg_Type = ''interval'', sg_Expression = ''5m''\<rparr>,
     td_Method = ''GET'', td_URL = ''http://a'', td_Headers = None, td_Cookies = None, td_QueryParams = [], td_Body = BodyNil,
     td_Variables = [\<lparr>va_Name = ''DATE'', va_Type = ''date'', va_Strategy = Some sample_strategy\<rparr>],
     td_ExtractionType = [], td_Rules = [], td_Targets = [], td_ProjectID = [], td_LuaScript = []\<rparr>"

lemma sample_days: "strategy_days (Some sample_strategy) = [0, 1, 2]"
  by (simp add: strategy_days_def sample_strategy_def)

lemma instance_roundtrip_witness:
  "UpdateTaskResult sample_sched_env [''65a'' \<mapsto> sample_task_doc] 60 (t_ID (convertToTask sample_sched_env 7 sample_task_doc None)) True [] =
    [RecordResult ''65a'' 60 (60 + 5 * minute) True []]"
  using instance_roundtrip [of sample_task_doc sample_sched_env "[''65a'' \<mapsto> sample_task_doc]" sample_task_doc 60 7 None True "[]"]
  by (simp add: sample_task_doc_def sample_sched_env_def sched_nextRun_def)

lemma sample_doc_simps:
  "td_ID sample_task_doc = ''65a''" "td_Enabled sample_task_doc" "td_NextRun sample_task_doc = minute"
  "List.find is_date_variable (td_Variables sample_task_doc) = Some \<lparr>va_Name = ''DATE'', va_Type = ''date'', va_Strategy = Some sample_strategy\<rparr>"
  "se_tz sample_sched_env = 0" "se_task sample_sched_env t \<noteq> None"
  by (simp_all add: sample_task_doc_def sample_sched_env_def is_date_variable_def)

lemma sample_days_later: "0 \<le> now \<Longrightarrow> k \<in> set (strategy_days (Some sample_strategy)) \<Longrightarrow> 0 \<le> add_days now k + se_tz sample_sched_env"
  by (auto simp: sample_days add_days_def day_length_def sample_doc_simps)

lemma dated_submission_witness:
  "submitTask sample_sched_env Map.empty hour int (\<lambda>_. (True, True)) sample_task_doc =
     Some (concat (map (queued sample_sched_env) (day_tasks sample_sched_env hour int sample_task_doc (strategy_days (Some sample_strategy))))) \<and>
   map t_BatchIndex (day_tasks sample_sched_env hour int sample_task_doc (strategy_days (Some sample_strategy))) = [0, 1, 2]"
proof -
  have 1: "CHR ''_'' \<notin> set (td_ID sample_task_doc)" "1 < length (strategy_days (Some sample_strategy))"
    by (simp_all add: sample_doc_simps sample_days)
  have 2: "0 \<le> add_days hour k + se_tz sample_sched_env" if "k \<in> set (strategy_days (Some sample_strategy))" for k
    using that by (rule sample_days_later [rotated]) simp
  have 3: "va_Strategy \<lparr>va_Name = ''DATE'', va_Type = ''date'', va_Strategy = Some sample_strategy\<rparr> = Some sample_strategy" by simp
  note spec = dated_submission [where ok = "\<lambda>_. (True, True)", OF sample_doc_simps(4) 3 1 2 sample_doc_simps(6) refl]
  have "map int [0..<length (strategy_days (Some sample_strategy))] = [0, 1, 2]" by (simp add: sample_days upt_rec)
  then show ?thesis using spec [of Map.empty int] by metis
qed

section \<open>The overdue check\<close>

text \<open>What the recorded runs and results do to the documents.\<close>

fun next_of :: "effect \<Rightarrow> (string \<times> gotime) option" where
  "next_of (RecordRun ident _ next) = Some (ident, next)"
| "next_of (RecordResult ident _ next _ _) = Some (ident, next)"
| "next_of _ = None"

definition apply_effect :: "effect \<Rightarrow> task_document list \<Rightarrow> task_document list" where
  "apply_effect e docs = (case next_of e of
      None \<Rightarrow> docs
    | Some (ident, next) \<Rightarrow> map (\<lambda>d. if td_ID d = ident then d\<lparr>td_NextRun := next\<rparr> else d) docs)"

definition by_ID :: "task_document list \<Rightarrow> string \<rightharpoonup> task_document" where
  "by_ID docs = map_of (map (\<lambda>d. (td_ID d, d)) docs)"

text \<open>The watcher: a check at each of its ticks, on the documents as the earlier checks left them.\<close>

fun watchTasks :: "sched_env \<Rightarrow> (gotime \<times> (nat \<Rightarrow> gotime)) list \<Rightarrow> task_document list \<Rightarrow> (effect list \<times> task_document list) option" where
  "watchTasks env [] docs = Some ([], docs)"
| "watchTasks env ((now, clk) # ticks) docs =
     (case checkOverdueTasks env (by_ID docs) now clk (\<lambda>_. (True, True)) docs of
        None \<Rightarrow> None
      | Some es \<Rightarrow> map_option (\<lambda>(rest, docs'). (es @ rest, docs')) (watchTasks env ticks (fold apply_effect es docs)))"

lemma queued_leaves [simp]: "fold apply_effect (concat (map (queued env) ts)) docs = docs"
  by (induction ts) (simp_all add: queued_def apply_effect_def)

lemma check_task_one:
  "checkOverdueTasks env look now clk ok [doc] = (if is_overdue now doc then map_option (\<lambda>es. es) (submitTask env look now clk ok doc) else Some [])"
  by (simp add: checkOverdueTasks_def option.map_ident split: option.splits)

text \<open>
  An overdue document of several days is queued again, all its days, at every tick of the watcher: no
  check moves its next run, so every later one finds it overdue.
\<close>
theorem overdue_days_resubmitted:
  assumes "List.find is_date_variable (td_Variables doc) = Some v" and "va_Strategy v = Some s"
    and "CHR ''_'' \<notin> set (td_ID doc)" and "1 < length (strategy_days (Some s))"
    and "\<And>t. se_task env t \<noteq> None"
    and "td_Enabled doc" and "td_NextRun doc \<noteq> time_zero"
    and "\<And>now clk k. (now, clk) \<in> set ticks \<Longrightarrow> k \<in> set (strategy_days (Some s)) \<Longrightarrow> td_NextRun doc \<le> now \<and> 0 \<le> add_days now k + se_tz env"
  shows "watchTasks env ticks [doc] =
    Some (concat (map (\<lambda>(now, clk). concat (map (queued env) (day_tasks env now clk doc (strategy_days (Some s))))) ticks), [doc])"
  using assms(8)
proof (induction ticks)
  case (Cons tick ticks)
  obtain now clk where tick: "tick = (now, clk)" by (cases tick)
  obtain k0 where k0: "k0 \<in> set (strategy_days (Some s))" using assms(4) by (cases "strategy_days (Some s)") auto
  have "is_overdue now doc" using Cons.prems [of now clk k0] k0 tick assms(6,7) by (simp add: is_overdue_def)
  moreover have "submitTask env (by_ID [doc]) now clk (\<lambda>_. (True, True)) doc =
      Some (concat (map (queued env) (day_tasks env now clk doc (strategy_days (Some s)))))"
    by (rule dated_submission [OF assms(1-4) _ assms(5) refl, THEN conjunct1]) (use Cons.prems tick in auto)
  moreover have "watchTasks env ticks [doc] =
      Some (concat (map (\<lambda>(now, clk). concat (map (queued env) (day_tasks env now clk doc (strategy_days (Some s))))) ticks), [doc])"
    by (rule Cons.IH) (use Cons.prems in auto)
  ultimately show ?case by (simp add: tick check_task_one)
qed simp

lemma overdue_days_resubmitted_witness:
  "watchTasks sample_sched_env [(minute, int), (2 * minute, int)] [sample_task_doc] =
    Some (concat (map (\<lambda>(now, clk). concat (map (queued sample_sched_env)
      (day_tasks sample_sched_env now clk sample_task_doc (strategy_days (Some sample_strategy))))) [(minute, int), (2 * minute, int)]), [sample_task_doc])"
  by (rule overdue_days_resubmitted [OF sample_doc_simps(4) _ _ _ sample_doc_simps(6) sample_doc_simps(2)])
    (auto simp: sample_doc_simps sample_days add_days_def day_length_def)

text \<open>A document of one day, in contrast, is queued once: its next run moves behind the tick.\<close>

lemma overdue_single_once:
  assumes "td_Variables doc = []" and "td_Body doc = BodyNil" and "CHR ''_'' \<notin> set (td_ID doc)"
    and "\<And>t. se_task env t \<noteq> None" and "is_overdue now doc"
    and "sg_Type (td_Schedule doc) = ''interval''" and "se_duration env (sg_Expression (td_Schedule doc)) = Some d"
  shows "\<exists>es. watchTasks env [(now, clk)] [doc] = Some (es, [doc\<lparr>td_NextRun := now + d\<rparr>]) \<and> length es = 3"
proof -
  let ?t = "convertToTask env (clk 0) doc None"
  have id: "t_ID ?t = td_ID doc @ ''_'' @ dec_of_int (clk 0)" by (simp add: convertToTask_def Let_def)
  have "\<not> HasPrefix (CHR ''_'' # dec_of_int (clk 0)) ''_date_''"
  proof
    assume "HasPrefix (CHR ''_'' # dec_of_int (clk 0)) ''_date_''"
    then have "take 5 (dec_of_int (clk 0)) = ''date_''" by (simp add: HasPrefix_def eval_nat_numeral)
    then have "CHR ''d'' \<in> set (take 5 (dec_of_int (clk 0)))" by simp
    then show False using dec_of_int_clean [of "clk 0"] in_set_takeD by fast
  qed
  then have "\<not> Contains (t_ID ?t) ''_date_''"
    unfolding id using Contains_skip [OF assms(3), of "''_'' @ dec_of_int (clk 0)" "''date_''"] dec_of_int_clean [of "clk 0"]
    by (simp add: Contains_Cons Contains_without)
  moreover obtain x where "se_task env ?t = Some x" using assms(4) by blast
  ultimately show ?thesis using assms(1,2,5-7)
    by (simp add: check_task_one submitTask_def submitSingleTask_def updateTaskStatus_def by_ID_def apply_effect_def sched_nextRun_def)
qed


section \<open>The table of entries\<close>

fun job_ID :: "job \<Rightarrow> string" where
  "job_ID (IntervalJob ident) = ident"
| "job_ID (CronJob doc) = td_ID doc"

definition sched_inv :: "scheduler \<Rightarrow> bool" where
  "sched_inv s =
     ((\<forall>e j. sd_entries s e = Some j \<longrightarrow> e < sd_next s \<and> sd_tasks s (job_ID j) = Some e) \<and>
      (\<forall>ident e. sd_tasks s ident = Some e \<longrightarrow> (\<exists>j. sd_entries s e = Some j \<and> job_ID j = ident)))"

inductive sched_reach :: "sched_env \<Rightarrow> (string \<Rightarrow> bool) \<Rightarrow> scheduler \<Rightarrow> bool" for env valid where
  new: "sched_reach env valid NewTaskScheduler"
| schedule: "sched_reach env valid s \<Longrightarrow> sched_reach env valid (snd (scheduleTask env valid now doc s))"

definition unscheduled :: "string \<Rightarrow> scheduler \<Rightarrow> scheduler" where
  "unscheduled ident s = (case sd_tasks s ident of
      None \<Rightarrow> s
    | Some e \<Rightarrow> s\<lparr>sd_entries := (sd_entries s)(e := None), sd_tasks := (sd_tasks s)(ident := None)\<rparr>)"

lemma unscheduled_inv: "sched_inv s \<Longrightarrow> sched_inv (unscheduled ident s) \<and> sd_tasks (unscheduled ident s) ident = None \<and> sd_next (unscheduled ident s) = sd_next s"
  by (auto simp: sched_inv_def unscheduled_def split: option.splits) (metis option.inject)

lemma AddFunc_inv: "sched_inv s \<Longrightarrow> sd_tasks s ident = None \<Longrightarrow> job_ID j = ident \<Longrightarrow> sched_inv (AddFunc j ident s)"
  unfolding sched_inv_def AddFunc_def by (auto simp: less_Suc_eq) (metis option.distinct(1), metis less_irrefl)

lemma scheduleTask_cases:
  "snd (scheduleTask env valid now doc s) \<in>
     {unscheduled (td_ID doc) s, (unscheduled (td_ID doc) s)\<lparr>sd_timers := sd_timers (unscheduled (td_ID doc) s) @ [(td_NextRun doc, doc)]\<rparr>,
      AddFunc (IntervalJob (td_ID doc)) (td_ID doc) (unscheduled (td_ID doc) s), AddFunc (CronJob doc) (td_ID doc) (unscheduled (td_ID doc) s)}"
  unfolding scheduleTask_def Let_def unscheduled_def [symmetric] by (auto split: option.splits)

lemma timers_inv: "sched_inv (s\<lparr>sd_timers := ts\<rparr>) = sched_inv s"
  by (simp add: sched_inv_def)

lemma new_inv: "sched_inv NewTaskScheduler"
  by (simp add: sched_inv_def NewTaskScheduler_def)

lemma scheduleTask_inv: "sched_inv s \<Longrightarrow> sched_inv (snd (scheduleTask env valid now doc s))"
  using scheduleTask_cases [of env valid now doc s] unscheduled_inv [of s "td_ID doc"] AddFunc_inv [of "unscheduled (td_ID doc) s" "td_ID doc"]
  by (auto simp: timers_inv)

lemma sched_reach_inv: "sched_reach env valid s \<Longrightarrow> sched_inv s"
  by (induction rule: sched_reach.induct) (simp_all add: scheduleTask_inv new_inv)

text \<open>
  C19: However often documents are scheduled, cron holds one entry per task at most, the scheduler's table
  names exactly the entries cron holds, and scheduling a document again replaces its own entry only; a
  document that is manual, one-shot or refused is left with none.
\<close>
theorem one_entry_per_task:
  assumes "sched_reach env valid s"
  shows "(\<forall>e e' j j'. sd_entries s e = Some j \<and> sd_entries s e' = Some j' \<and> job_ID j = job_ID j' \<longrightarrow> e = e') \<and>
    ran (sd_tasks s) = dom (sd_entries s) \<and>
    (case scheduleTask env valid now doc s of (err, s') \<Rightarrow>
       (\<forall>ident. ident \<noteq> td_ID doc \<longrightarrow> sd_tasks s' ident = sd_tasks s ident) \<and>
       (sd_tasks s' (td_ID doc) \<noteq> None \<longleftrightarrow> err = None \<and> sg_Type (td_Schedule doc) \<in> {''interval'', ''cron''}))"
proof -
  have inv: "sched_inv s" using assms by (rule sched_reach_inv)
  have 1: "\<forall>e e' j j'. sd_entries s e = Some j \<and> sd_entries s e' = Some j' \<and> job_ID j = job_ID j' \<longrightarrow> e = e'"
    using inv unfolding sched_inv_def by (metis option.inject)
  have 2: "ran (sd_tasks s) = dom (sd_entries s)" using inv unfolding sched_inv_def ran_def dom_def by fast
  have frame: "sd_tasks (unscheduled (td_ID doc) s) ident = (if ident = td_ID doc then None else sd_tasks s ident)" for ident
    by (simp add: unscheduled_def split: option.split)
  have 3: "case scheduleTask env valid now doc s of (err, s') \<Rightarrow>
       (\<forall>ident. ident \<noteq> td_ID doc \<longrightarrow> sd_tasks s' ident = sd_tasks s ident) \<and>
       (sd_tasks s' (td_ID doc) \<noteq> None \<longleftrightarrow> err = None \<and> sg_Type (td_Schedule doc) \<in> {''interval'', ''cron''})"
    unfolding scheduleTask_def Let_def unscheduled_def [symmetric] by (simp add: frame AddFunc_def split: option.split)
  show ?thesis using 1 2 3 by blast
qed

lemma one_entry_per_task_witness:
  "ran (sd_tasks (snd (scheduleTask sample_sched_env (\<lambda>_. True) 0 sample_task_doc NewTaskScheduler))) =
   dom (sd_entries (snd (scheduleTask sample_sched_env (\<lambda>_. True) 0 sample_task_doc NewTaskScheduler)))"
  using one_entry_per_task [OF sched_reach.schedule [OF sched_reach.new], of sample_sched_env "\<lambda>_. True" 0 sample_task_doc] by blast

text \<open>A timer, once set, is never cancelled: scheduling a one-shot document twice runs it twice.\<close>

lemma once_twice:
  assumes "sg_Type (td_Schedule doc) = ''once''" and "now' < td_NextRun doc" and "0 < td_NextRun doc" and "now < td_NextRun doc"
  shows "sd_timers (loadTasks env valid now' [doc] (loadTasks env valid now [doc] NewTaskScheduler)) = [(td_NextRun doc, doc), (td_NextRun doc, doc)]"
  using assms by (simp add: loadTasks_def scheduleTask_def NewTaskScheduler_def)

text \<open>An interval document that was never given a next run never starts.\<close>

lemma interval_never_starts: "look ident = Some doc \<Longrightarrow> td_NextRun doc = time_zero \<Longrightarrow> fire env look now clk ok (IntervalJob ident) = Some []"
  by (simp add: fire_def)

text \<open>A date variable without a strategy stops the process.\<close>

lemma date_without_strategy:
  "List.find is_date_variable (td_Variables doc) = Some v \<Longrightarrow> va_Strategy v = None \<Longrightarrow> submitTask env look now clk ok doc = None"
  by (simp add: submitTask_def)

end
