(* ===== verification/KeyLife.thy ===== *)
theory KeyLife
  imports Prelude
begin

text \<open>
  The life of a key of Redis: its value with its expiry, if it has one, and what a read, a change in place, the removal of
  a member and \<open>EXPIRE\<close> make of it.  The laws of the commands, which the components assume, are written with these.
\<close>

definition live :: "gotime \<Rightarrow> ('v \<times> gotime option) option \<Rightarrow> 'v option" where
  "live now c = (case c of
      None \<Rightarrow> None
    | Some (v, None) \<Rightarrow> Some v
    | Some (v, Some e) \<Rightarrow> if now < e then Some v else None)"

definition modify :: "gotime \<Rightarrow> 'v \<Rightarrow> ('v \<Rightarrow> 'v) \<Rightarrow> ('v \<times> gotime option) option \<Rightarrow> ('v \<times> gotime option) option" where
  "modify now v0 f c = (if live now c = None then Some (f v0, None) else map_option (\<lambda>(v, e). (f v, e)) c)"

text \<open>Taking a member out; a key left empty is gone.\<close>

definition lessen :: "gotime \<Rightarrow> ('v \<Rightarrow> 'v) \<Rightarrow> ('v \<Rightarrow> bool) \<Rightarrow> ('v \<times> gotime option) option \<Rightarrow> ('v \<times> gotime option) option" where
  "lessen now f gone c = (case live now c of
      None \<Rightarrow> None
    | Some v \<Rightarrow> if gone (f v) then None else map_option (\<lambda>(v, e). (f v, e)) c)"

definition expire :: "gotime \<Rightarrow> duration \<Rightarrow> ('v \<times> gotime option) option \<Rightarrow> ('v \<times> gotime option) option" where
  "expire now d c = map_option (\<lambda>v. (v, Some (now + d))) (live now c)"

lemma live_None [simp]: "live now None = None"
  by (simp add: live_def)

lemma live_Some: "live now (Some (v, e)) = (if (case e of None \<Rightarrow> True | Some u \<Rightarrow> now < u) then Some v else None)"
  by (simp add: live_def split: option.split)

lemma live_modify: "live now (modify now v0 f c) = Some (f (case live now c of None \<Rightarrow> v0 | Some v \<Rightarrow> v))"
  by (auto simp: live_def modify_def split: option.splits)

lemma live_expire: "live t (expire now d c) = (if t < now + d then live now c else None)"
  by (simp add: live_def expire_def split: option.split)

end
