(* ===== verification/Registry.thy ===== *)
theory Registry
  imports KeyLife
begin

text \<open>
  The node registry (src/crawler/distributed/registry.go): nodes, heartbeats, the sets of nodes by
  capability and tag, and the removal of dead nodes, all kept in Redis.  An operation takes one reading of
  the clock.  Redis and the JSON codec are arguments; floats are their 64-bit patterns.
\<close>

section \<open>Nodes and heartbeats\<close>

record reg_metrics =
  rm_TasksProcessed :: int
  rm_TasksInQueue :: int
  rm_TasksFailed :: int
  rm_BytesDownloaded :: int
  rm_BytesUploaded :: int
  rm_ItemsExtracted :: int
  rm_AverageLatency :: duration
  rm_ErrorRate :: "64 word"
  rm_PagesPerSecond :: "64 word"
  rm_BytesPerSecond :: "64 word"
  rm_ActiveConnections :: int
  rm_QueueDepth :: int
  rm_URLsDiscovered :: int
  rm_URLsDuplicated :: int
  rm_DedupeRate :: "64 word"
  rm_TasksPending :: int
  rm_TasksRunning :: int
  rm_TasksRetrying :: int
  rm_AverageExecTime :: duration
  rm_NetworkErrors :: int
  rm_ParseErrors :: int
  rm_TimeoutErrors :: int
  rm_OtherErrors :: int

record reg_node =
  ri_ID :: string
  ri_Hostname :: string
  ri_IP :: string
  ri_Port :: int
  ri_Status :: string
  ri_Tags :: "string list"
  ri_Labels :: "(string \<rightharpoonup> string) option"
  ri_Capabilities :: "string list"
  ri_MaxWorkers :: int
  ri_CPUCores :: int
  ri_MemoryGB :: "64 word"
  ri_StartedAt :: gotime
  ri_UpdatedAt :: gotime
  ri_LastHeartbeat :: gotime
  ri_TasksProcessed :: int
  ri_TasksFailed :: int
  ri_CPUUsage :: "64 word"
  ri_MemoryUsage :: "64 word"
  ri_ActiveWorkers :: int
  ri_Metrics :: "reg_metrics option"

record reg_heartbeat =
  rh_NodeID :: string
  rh_Status :: string
  rh_ActiveWorkers :: int
  rh_MaxWorkers :: int
  rh_TasksProcessed :: int
  rh_TasksFailed :: int
  rh_CPUUsage :: "64 word"
  rh_MemoryUsage :: "64 word"
  rh_Timestamp :: gotime

section \<open>Redis and the codec\<close>

text \<open>
  The commands, each with the server's clock, since keys may expire; sorted sets have integer scores.  A write reports whether it succeeded, a read gives \<open>None\<close> on an error; the
  results the code ignores are left out.  The JSON texts stored are of some type \<open>'v\<close>.
\<close>

record ('r, 'v) keyspace =
  ks_Set :: "gotime \<Rightarrow> string \<Rightarrow> 'v \<Rightarrow> duration \<Rightarrow> 'r \<Rightarrow> bool \<times> 'r"
  ks_Get :: "gotime \<Rightarrow> string \<Rightarrow> 'r \<Rightarrow> 'v option"
  ks_Del :: "string \<Rightarrow> 'r \<Rightarrow> 'r"
  ks_ZAdd :: "gotime \<Rightarrow> string \<Rightarrow> int \<Rightarrow> string \<Rightarrow> 'r \<Rightarrow> bool \<times> 'r"
  ks_ZRem :: "gotime \<Rightarrow> string \<Rightarrow> string \<Rightarrow> 'r \<Rightarrow> 'r"
  ks_ZRange :: "gotime \<Rightarrow> string \<Rightarrow> 'r \<Rightarrow> string list option"
  ks_ZRangeByScore :: "gotime \<Rightarrow> string \<Rightarrow> int \<Rightarrow> 'r \<Rightarrow> string list option"
  ks_SAdd :: "gotime \<Rightarrow> string \<Rightarrow> string \<Rightarrow> 'r \<Rightarrow> 'r"
  ks_SRem :: "gotime \<Rightarrow> string \<Rightarrow> string \<Rightarrow> 'r \<Rightarrow> 'r"
  ks_SMembers :: "gotime \<Rightarrow> string \<Rightarrow> 'r \<Rightarrow> string list option"
  ks_Expire :: "gotime \<Rightarrow> string \<Rightarrow> duration \<Rightarrow> 'r \<Rightarrow> 'r"
  ks_Publish :: "string \<Rightarrow> 'v \<Rightarrow> 'r \<Rightarrow> 'r"

record 'v reg_codec =
  rc_node :: "reg_node \<Rightarrow> 'v option"
  rc_read :: "'v \<Rightarrow> reg_node option"
  rc_heartbeat :: "reg_heartbeat \<Rightarrow> 'v option"
  rc_event :: "string \<Rightarrow> string \<Rightarrow> gotime \<Rightarrow> 'v"

text \<open>Watchers are known by a number; \<open>rg_calls\<close> lists the goroutines started to notify them.\<close>

datatype reg_change = NodeJoin reg_node | NodeLeave string

record 'r registry =
  rg_redis :: 'r
  rg_prefix :: string
  rg_nodes :: "string \<rightharpoonup> reg_node"
  rg_watchers :: "nat list"
  rg_calls :: "(nat \<times> reg_change) list"

definition NewRegistry :: "'r \<Rightarrow> string \<Rightarrow> 'r registry" where
  "NewRegistry r pre = \<lparr>rg_redis = r, rg_prefix = pre, rg_nodes = Map.empty, rg_watchers = [], rg_calls = []\<rparr>"

definition getNodeKey :: "'r registry \<Rightarrow> string \<Rightarrow> string" where
  "getNodeKey g ident = rg_prefix g @ '':node:'' @ ident"

definition getActiveNodesKey :: "'r registry \<Rightarrow> string" where
  "getActiveNodesKey g = rg_prefix g @ '':nodes:active''"

definition getHeartbeatKey :: "'r registry \<Rightarrow> string \<Rightarrow> string" where
  "getHeartbeatKey g ident = rg_prefix g @ '':heartbeat:'' @ ident"

definition getCapabilityKey :: "'r registry \<Rightarrow> string \<Rightarrow> string" where
  "getCapabilityKey g c = rg_prefix g @ '':capability:'' @ c"

definition getTagKey :: "'r registry \<Rightarrow> string \<Rightarrow> string" where
  "getTagKey g t = rg_prefix g @ '':tag:'' @ t"

definition reg_getEventChannel :: "'r registry \<Rightarrow> string" where
  "reg_getEventChannel g = rg_prefix g @ '':events''"

section \<open>Operations\<close>

text \<open>Adding the node to a set and giving the set an hour.\<close>

definition join_set :: "('r, 'v) keyspace \<Rightarrow> gotime \<Rightarrow> string \<Rightarrow> string \<Rightarrow> 'r \<Rightarrow> 'r" where
  "join_set K now ident k r = ks_Expire K now k hour (ks_SAdd K now k ident r)"

definition AddWatcher :: "nat \<Rightarrow> 'r registry \<Rightarrow> 'r registry" where
  "AddWatcher w g = g\<lparr>rg_watchers := rg_watchers g @ [w]\<rparr>"

definition RemoveWatcher :: "nat \<Rightarrow> 'r registry \<Rightarrow> 'r registry" where
  "RemoveWatcher w g = g\<lparr>rg_watchers := remove_first (\<lambda>x. x = w) (rg_watchers g)\<rparr>"

definition notify :: "reg_change \<Rightarrow> 'r registry \<Rightarrow> 'r registry" where
  "notify e g = g\<lparr>rg_calls := rg_calls g @ map (\<lambda>w. (w, e)) (rg_watchers g)\<rparr>"

definition reg_RegisterNode :: "('r, 'v) keyspace \<Rightarrow> 'v reg_codec \<Rightarrow> gotime \<Rightarrow> reg_node \<Rightarrow> 'r registry \<Rightarrow> string option \<times> 'r registry" where
  "reg_RegisterNode K C now nd g =
     (let node = nd\<lparr>ri_UpdatedAt := now, ri_LastHeartbeat := now\<rparr>
      in case rc_node C node of
           None \<Rightarrow> (Some ''failed to marshal node info'', g)
         | Some data \<Rightarrow>
             (case ks_Set K now (getNodeKey g (ri_ID node)) data hour (rg_redis g) of
                (False, r1) \<Rightarrow> (Some ''failed to store node info'', g\<lparr>rg_redis := r1\<rparr>)
              | (True, r1) \<Rightarrow>
                  (case ks_ZAdd K now (getActiveNodesKey g) (now div second) (ri_ID node) r1 of
                     (False, r2) \<Rightarrow> (Some ''failed to add to active nodes'', g\<lparr>rg_redis := r2\<rparr>)
                   | (True, r2) \<Rightarrow>
                       let r3 = fold (\<lambda>c. join_set K now (ri_ID node) (getCapabilityKey g c)) (ri_Capabilities node) r2;
                           r4 = fold (\<lambda>t. join_set K now (ri_ID node) (getTagKey g t)) (ri_Tags node) r3;
                           g1 = notify (NodeJoin node) (g\<lparr>rg_nodes := (rg_nodes g)(ri_ID node \<mapsto> node)\<rparr>)
                       in (None, g1\<lparr>rg_redis := ks_Publish K (reg_getEventChannel g) (rc_event C ''node_join'' (ri_ID node) now) r4\<rparr>))))"

text \<open>What is known of the node: the cache's word, or else Redis's.\<close>

definition known_node :: "('r, 'v) keyspace \<Rightarrow> 'v reg_codec \<Rightarrow> gotime \<Rightarrow> string \<Rightarrow> 'r registry \<Rightarrow> reg_node option" where
  "known_node K C now ident g = (case rg_nodes g ident of
      Some n \<Rightarrow> Some n
    | None \<Rightarrow> (case ks_Get K now (getNodeKey g ident) (rg_redis g) of None \<Rightarrow> None | Some d \<Rightarrow> rc_read C d))"

definition reg_UnregisterNode :: "('r, 'v) keyspace \<Rightarrow> 'v reg_codec \<Rightarrow> gotime \<Rightarrow> string \<Rightarrow> 'r registry \<Rightarrow> 'r registry" where
  "reg_UnregisterNode K C now ident g =
     (let node = known_node K C now ident g;
          caps = (case node of None \<Rightarrow> [] | Some n \<Rightarrow> ri_Capabilities n);
          tags = (case node of None \<Rightarrow> [] | Some n \<Rightarrow> ri_Tags n);
          r1 = ks_Del K (getNodeKey g ident) (rg_redis g);
          r2 = ks_ZRem K now (getActiveNodesKey g) ident r1;
          r3 = fold (\<lambda>c. ks_SRem K now (getCapabilityKey g c) ident) caps r2;
          r4 = fold (\<lambda>t. ks_SRem K now (getTagKey g t) ident) tags r3;
          r5 = ks_Del K (getHeartbeatKey g ident) r4;
          g1 = notify (NodeLeave ident) (g\<lparr>rg_nodes := (rg_nodes g)(ident := None)\<rparr>)
      in g1\<lparr>rg_redis := ks_Publish K (reg_getEventChannel g) (rc_event C ''node_leave'' ident now) r5\<rparr>)"

definition node_from_heartbeat :: "gotime \<Rightarrow> reg_heartbeat \<Rightarrow> reg_node" where
  "node_from_heartbeat now h = \<lparr>ri_ID = rh_NodeID h, ri_Hostname = [], ri_IP = [], ri_Port = 0, ri_Status = rh_Status h,
     ri_Tags = [], ri_Labels = None, ri_Capabilities = [], ri_MaxWorkers = rh_MaxWorkers h, ri_CPUCores = 0, ri_MemoryGB = 0,
     ri_StartedAt = time_zero, ri_UpdatedAt = now, ri_LastHeartbeat = rh_Timestamp h, ri_TasksProcessed = rh_TasksProcessed h,
     ri_TasksFailed = rh_TasksFailed h, ri_CPUUsage = rh_CPUUsage h, ri_MemoryUsage = rh_MemoryUsage h,
     ri_ActiveWorkers = rh_ActiveWorkers h, ri_Metrics = None\<rparr>"

definition beat :: "gotime \<Rightarrow> reg_heartbeat \<Rightarrow> reg_node \<Rightarrow> reg_node" where
  "beat now h n = n\<lparr>ri_Status := rh_Status h, ri_ActiveWorkers := rh_ActiveWorkers h, ri_TasksProcessed := rh_TasksProcessed h,
     ri_TasksFailed := rh_TasksFailed h, ri_CPUUsage := rh_CPUUsage h, ri_MemoryUsage := rh_MemoryUsage h,
     ri_LastHeartbeat := rh_Timestamp h, ri_UpdatedAt := now\<rparr>"

text \<open>The pipeline sends both commands; it fails when one of them does.\<close>

definition UpdateHeartbeat :: "('r, 'v) keyspace \<Rightarrow> 'v reg_codec \<Rightarrow> gotime \<Rightarrow> reg_heartbeat \<Rightarrow> 'r registry \<Rightarrow> string option \<times> 'r registry" where
  "UpdateHeartbeat K C now h g =
     (case rc_heartbeat C h of
        None \<Rightarrow> (Some ''failed to marshal heartbeat'', g)
      | Some beat_data \<Rightarrow>
          (let (ok1, r1) = ks_Set K now (getHeartbeatKey g (rh_NodeID h)) beat_data (60 * second) (rg_redis g);
               (ok2, r2) = ks_ZAdd K now (getActiveNodesKey g) (now div second) (rh_NodeID h) r1
           in if \<not> (ok1 \<and> ok2) then (Some ''failed to execute heartbeat pipeline'', g\<lparr>rg_redis := r2\<rparr>)
              else
                let nodeKey = getNodeKey g (rh_NodeID h);
                    node = (case Option.bind (ks_Get K now nodeKey r2) (rc_read C) of
                        None \<Rightarrow> node_from_heartbeat now h
                      | Some n \<Rightarrow> beat now h n)
                in case rc_node C node of
                     None \<Rightarrow> (Some ''failed to marshal node info'', g\<lparr>rg_redis := r2\<rparr>)
                   | Some data \<Rightarrow>
                       (case ks_Set K now nodeKey data hour r2 of
                          (ok3, r3) \<Rightarrow> (if ok3 then None else Some ''failed to update node info'', g\<lparr>rg_redis := r3\<rparr>))))"

definition reg_GetNode :: "('r, 'v) keyspace \<Rightarrow> 'v reg_codec \<Rightarrow> gotime \<Rightarrow> string \<Rightarrow> 'r registry \<Rightarrow> reg_node option \<times> 'r registry" where
  "reg_GetNode K C now ident g =
     (case ks_Get K now (getNodeKey g ident) (rg_redis g) of
        None \<Rightarrow> (None, g)
      | Some d \<Rightarrow> (case rc_read C d of
            None \<Rightarrow> (None, g)
          | Some n \<Rightarrow> (Some n, g\<lparr>rg_nodes := (rg_nodes g)(ident \<mapsto> n)\<rparr>)))"

fun load_nodes :: "('r, 'v) keyspace \<Rightarrow> 'v reg_codec \<Rightarrow> gotime \<Rightarrow> string list \<Rightarrow> 'r registry \<Rightarrow> reg_node list \<times> 'r registry" where
  "load_nodes K C now [] g = ([], g)"
| "load_nodes K C now (ident # ids) g =
     (let (n, g1) = reg_GetNode K C now ident g; (ns, g2) = load_nodes K C now ids g1
      in (case n of None \<Rightarrow> ns | Some x \<Rightarrow> x # ns, g2))"

definition load_listed :: "('r, 'v) keyspace \<Rightarrow> 'v reg_codec \<Rightarrow> gotime \<Rightarrow> string list option \<Rightarrow> 'r registry \<Rightarrow> reg_node list option \<times> 'r registry" where
  "load_listed K C now ids g = (case ids of
      None \<Rightarrow> (None, g)
    | Some is \<Rightarrow> (case load_nodes K C now is g of (ns, g1) \<Rightarrow> (Some ns, g1)))"

definition reg_ListNodes :: "('r, 'v) keyspace \<Rightarrow> 'v reg_codec \<Rightarrow> gotime \<Rightarrow> 'r registry \<Rightarrow> reg_node list option \<times> 'r registry" where
  "reg_ListNodes K C now g = load_listed K C now (ks_ZRange K now (getActiveNodesKey g) (rg_redis g)) g"

definition ListNodesByCapability :: "('r, 'v) keyspace \<Rightarrow> 'v reg_codec \<Rightarrow> gotime \<Rightarrow> string \<Rightarrow> 'r registry \<Rightarrow> reg_node list option \<times> 'r registry" where
  "ListNodesByCapability K C now c g = load_listed K C now (ks_SMembers K now (getCapabilityKey g c) (rg_redis g)) g"

definition ListNodesByTag :: "('r, 'v) keyspace \<Rightarrow> 'v reg_codec \<Rightarrow> gotime \<Rightarrow> string \<Rightarrow> 'r registry \<Rightarrow> reg_node list option \<times> 'r registry" where
  "ListNodesByTag K C now t g = load_listed K C now (ks_SMembers K now (getTagKey g t) (rg_redis g)) g"

definition GetHealthyNodes :: "('r, 'v) keyspace \<Rightarrow> 'v reg_codec \<Rightarrow> gotime \<Rightarrow> 'r registry \<Rightarrow> reg_node list option \<times> 'r registry" where
  "GetHealthyNodes K C now g =
     load_listed K C now (ks_ZRangeByScore K now (getActiveNodesKey g) ((now - 30 * second) div second) (rg_redis g)) g"

definition node_dead :: "gotime \<Rightarrow> reg_node \<Rightarrow> bool" where
  "node_dead now n = (now - ri_LastHeartbeat n > 60 * second)"

definition clean_dead :: "('r, 'v) keyspace \<Rightarrow> 'v reg_codec \<Rightarrow> gotime \<Rightarrow> reg_node list \<Rightarrow> 'r registry \<Rightarrow> 'r registry" where
  "clean_dead K C now ns g = fold (\<lambda>n g. if node_dead now n then reg_UnregisterNode K C now (ri_ID n) g else g) ns g"

text \<open>The first component tells whether the nodes could be listed.\<close>

definition CheckAndCleanDeadNodes :: "('r, 'v) keyspace \<Rightarrow> 'v reg_codec \<Rightarrow> gotime \<Rightarrow> 'r registry \<Rightarrow> bool \<times> 'r registry" where
  "CheckAndCleanDeadNodes K C now g =
     (case reg_ListNodes K C now g of
        (None, g1) \<Rightarrow> (False, g1)
      | (Some ns, g1) \<Rightarrow> (True, clean_dead K C now ns g1))"

section \<open>Statistics\<close>

record reg_floats =
  fl_add :: "64 word \<Rightarrow> 64 word \<Rightarrow> 64 word"
  fl_mul :: "64 word \<Rightarrow> 64 word \<Rightarrow> 64 word"
  fl_div :: "64 word \<Rightarrow> 64 word \<Rightarrow> 64 word"
  fl_int :: "int \<Rightarrow> 64 word"

record cluster_stats =
  cs_TotalNodes :: int
  cs_ActiveNodes :: int
  cs_TotalWorkers :: int
  cs_ActiveWorkers :: int
  cs_TasksProcessed :: int
  cs_TasksFailed :: int
  cs_AvgCPUUsage :: "64 word"
  cs_AvgMemoryUsage :: "64 word"
  cs_TotalPagesPerSecond :: "64 word"
  cs_TotalBytesPerSecond :: "64 word"
  cs_TotalBandwidthMbps :: "64 word"
  cs_TasksPending :: int
  cs_TasksRunning :: int
  cs_TasksQueued :: int
  cs_TasksRetrying :: int
  cs_SuccessRate :: "64 word"
  cs_URLsTotal :: int
  cs_URLsDuplicated :: int
  cs_DedupeRate :: "64 word"
  cs_ErrorRate :: "64 word"
  cs_NetworkErrors :: int
  cs_ParseErrors :: int
  cs_TimeoutErrors :: int

definition zero_cluster_stats :: "int \<Rightarrow> cluster_stats" where
  "zero_cluster_stats n = \<lparr>cs_TotalNodes = n, cs_ActiveNodes = 0, cs_TotalWorkers = 0, cs_ActiveWorkers = 0, cs_TasksProcessed = 0,
     cs_TasksFailed = 0, cs_AvgCPUUsage = 0, cs_AvgMemoryUsage = 0, cs_TotalPagesPerSecond = 0, cs_TotalBytesPerSecond = 0,
     cs_TotalBandwidthMbps = 0, cs_TasksPending = 0, cs_TasksRunning = 0, cs_TasksQueued = 0, cs_TasksRetrying = 0,
     cs_SuccessRate = 0, cs_URLsTotal = 0, cs_URLsDuplicated = 0, cs_DedupeRate = 0, cs_ErrorRate = 0, cs_NetworkErrors = 0,
     cs_ParseErrors = 0, cs_TimeoutErrors = 0\<rparr>"

definition add_metrics :: "reg_floats \<Rightarrow> reg_metrics \<Rightarrow> cluster_stats \<Rightarrow> cluster_stats" where
  "add_metrics F m s = s\<lparr>
     cs_TotalPagesPerSecond := fl_add F (cs_TotalPagesPerSecond s) (rm_PagesPerSecond m),
     cs_TotalBytesPerSecond := fl_add F (cs_TotalBytesPerSecond s) (rm_BytesPerSecond m),
     cs_TasksPending := cs_TasksPending s + rm_TasksPending m, cs_TasksRunning := cs_TasksRunning s + rm_TasksRunning m,
     cs_TasksQueued := cs_TasksQueued s + rm_TasksInQueue m, cs_TasksRetrying := cs_TasksRetrying s + rm_TasksRetrying m,
     cs_URLsTotal := cs_URLsTotal s + rm_URLsDiscovered m, cs_URLsDuplicated := cs_URLsDuplicated s + rm_URLsDuplicated m,
     cs_NetworkErrors := cs_NetworkErrors s + rm_NetworkErrors m, cs_ParseErrors := cs_ParseErrors s + rm_ParseErrors m,
     cs_TimeoutErrors := cs_TimeoutErrors s + rm_TimeoutErrors m\<rparr>"

definition add_node :: "reg_floats \<Rightarrow> reg_node \<Rightarrow> cluster_stats \<Rightarrow> cluster_stats" where
  "add_node F n s =
     (let s1 = s\<lparr>cs_ActiveNodes := cs_ActiveNodes s + (if ri_Status n = ''active'' then 1 else 0),
            cs_TotalWorkers := cs_TotalWorkers s + ri_MaxWorkers n, cs_ActiveWorkers := cs_ActiveWorkers s + ri_ActiveWorkers n,
            cs_TasksProcessed := cs_TasksProcessed s + ri_TasksProcessed n, cs_TasksFailed := cs_TasksFailed s + ri_TasksFailed n,
            cs_AvgCPUUsage := fl_add F (cs_AvgCPUUsage s) (ri_CPUUsage n),
            cs_AvgMemoryUsage := fl_add F (cs_AvgMemoryUsage s) (ri_MemoryUsage n)\<rparr>
      in case ri_Metrics n of None \<Rightarrow> s1 | Some m \<Rightarrow> add_metrics F m s1)"

definition derive_stats :: "reg_floats \<Rightarrow> int \<Rightarrow> cluster_stats \<Rightarrow> cluster_stats" where
  "derive_stats F n s =
     (let pct = (\<lambda>a b. fl_mul F (fl_div F (fl_int F a) (fl_int F b)) (fl_int F 100));
          s1 = (if n > 0 then s\<lparr>cs_AvgCPUUsage := fl_div F (cs_AvgCPUUsage s) (fl_int F n),
                 cs_AvgMemoryUsage := fl_div F (cs_AvgMemoryUsage s) (fl_int F n)\<rparr> else s);
          s2 = (if cs_TasksProcessed s1 > 0 then s1\<lparr>cs_SuccessRate := pct (cs_TasksProcessed s1 - cs_TasksFailed s1) (cs_TasksProcessed s1),
                 cs_ErrorRate := pct (cs_TasksFailed s1) (cs_TasksProcessed s1)\<rparr> else s1);
          s3 = (if cs_URLsTotal s2 > 0 then s2\<lparr>cs_DedupeRate := pct (cs_URLsDuplicated s2) (cs_URLsTotal s2)\<rparr> else s2)
      in s3\<lparr>cs_TotalBandwidthMbps := fl_div F (fl_mul F (cs_TotalBytesPerSecond s3) (fl_int F 8)) (fl_int F (1024 * 1024))\<rparr>)"

definition GetClusterStats :: "reg_floats \<Rightarrow> ('r, 'v) keyspace \<Rightarrow> 'v reg_codec \<Rightarrow> gotime \<Rightarrow> 'r registry \<Rightarrow> cluster_stats option \<times> 'r registry" where
  "GetClusterStats F K C now g =
     (case GetHealthyNodes K C now g of
        (None, g1) \<Rightarrow> (None, g1)
      | (Some ns, g1) \<Rightarrow> (Some (derive_stats F (int (length ns)) (fold (add_node F) ns (zero_cluster_stats (int (length ns))))), g1))"


section \<open>What the commands do\<close>

text \<open>
  The three kinds of values the registry uses are kept apart: this is Redis where no key is used with two types, and where every command is answered.
\<close>

record 'v ks_view =
  kv_str :: "string \<rightharpoonup> 'v \<times> gotime option"
  kv_zset :: "string \<rightharpoonup> (string \<rightharpoonup> int) \<times> gotime option"
  kv_set :: "string \<rightharpoonup> string set \<times> gotime option"

definition zset_at :: "gotime \<Rightarrow> 'v ks_view \<Rightarrow> string \<Rightarrow> string \<rightharpoonup> int" where
  "zset_at now w k = (case live now (kv_zset w k) of None \<Rightarrow> Map.empty | Some z \<Rightarrow> z)"

definition set_at :: "gotime \<Rightarrow> 'v ks_view \<Rightarrow> string \<Rightarrow> string set" where
  "set_at now w k = (case live now (kv_set w k) of None \<Rightarrow> {} | Some s \<Rightarrow> s)"

definition answering :: "('r, 'v) keyspace \<Rightarrow> ('r \<Rightarrow> 'v ks_view) \<Rightarrow> bool" where
  "answering K view \<longleftrightarrow>
     (\<forall>now k v d r. fst (ks_Set K now k v d r) \<and>
        view (snd (ks_Set K now k v d r)) = (view r)\<lparr>kv_str := (kv_str (view r))(k \<mapsto> (v, Some (now + d)))\<rparr>) \<and>
     (\<forall>now k r. ks_Get K now k r = live now (kv_str (view r) k)) \<and>
     (\<forall>k r. view (ks_Del K k r) = \<lparr>kv_str = (kv_str (view r))(k := None), kv_zset = (kv_zset (view r))(k := None),
        kv_set = (kv_set (view r))(k := None)\<rparr>) \<and>
     (\<forall>now k s m r. fst (ks_ZAdd K now k s m r) \<and>
        view (snd (ks_ZAdd K now k s m r)) = (view r)\<lparr>kv_zset := (kv_zset (view r))(k := modify now Map.empty (\<lambda>z. z(m \<mapsto> s)) (kv_zset (view r) k))\<rparr>) \<and>
     (\<forall>now k m r. view (ks_ZRem K now k m r) =
        (view r)\<lparr>kv_zset := (kv_zset (view r))(k := lessen now (\<lambda>z. z(m := None)) (\<lambda>z. dom z = {}) (kv_zset (view r) k))\<rparr>) \<and>
     (\<forall>now k r. \<exists>ms. ks_ZRange K now k r = Some ms \<and> distinct ms \<and> set ms = dom (zset_at now (view r) k)) \<and>
     (\<forall>now k lo r. \<exists>ms. ks_ZRangeByScore K now k lo r = Some ms \<and> distinct ms \<and>
        set ms = {m. \<exists>s. zset_at now (view r) k m = Some s \<and> lo \<le> s}) \<and>
     (\<forall>now k m r. view (ks_SAdd K now k m r) =
        (view r)\<lparr>kv_set := (kv_set (view r))(k := modify now {} (insert m) (kv_set (view r) k))\<rparr>) \<and>
     (\<forall>now k m r. view (ks_SRem K now k m r) =
        (view r)\<lparr>kv_set := (kv_set (view r))(k := lessen now (\<lambda>s. s - {m}) (\<lambda>s. s = {}) (kv_set (view r) k))\<rparr>) \<and>
     (\<forall>now k r. \<exists>ms. ks_SMembers K now k r = Some ms \<and> distinct ms \<and> set ms = set_at now (view r) k) \<and>
     (\<forall>now k d r. view (ks_Expire K now k d r) = \<lparr>kv_str = (kv_str (view r))(k := expire now d (kv_str (view r) k)),
        kv_zset = (kv_zset (view r))(k := expire now d (kv_zset (view r) k)),
        kv_set = (kv_set (view r))(k := expire now d (kv_set (view r) k))\<rparr>) \<and>
     (\<forall>ch m r. view (ks_Publish K ch m r) = view r)"

text \<open>The codec gives back what it wrote.\<close>

definition faithful :: "'v reg_codec \<Rightarrow> bool" where
  "faithful C \<longleftrightarrow> (\<forall>n. \<exists>d. rc_node C n = Some d \<and> rc_read C d = Some n) \<and> (\<forall>h. rc_heartbeat C h \<noteq> None)"


lemma set_at_simps [simp]:
  "set_at t (w\<lparr>kv_str := a\<rparr>) k = set_at t w k" "set_at t (w\<lparr>kv_zset := b\<rparr>) k = set_at t w k"
  "zset_at t (w\<lparr>kv_str := a\<rparr>) k = zset_at t w k" "zset_at t (w\<lparr>kv_set := c\<rparr>) k = zset_at t w k"
  by (simp_all add: set_at_def zset_at_def)

lemma answeringD:
  assumes "answering K view"
  shows "fst (ks_Set K now k v d r)"
    and "view (snd (ks_Set K now k v d r)) = (view r)\<lparr>kv_str := (kv_str (view r))(k \<mapsto> (v, Some (now + d)))\<rparr>"
    and "ks_Get K now k r = live now (kv_str (view r) k)"
    and "view (ks_Del K k r) = \<lparr>kv_str = (kv_str (view r))(k := None), kv_zset = (kv_zset (view r))(k := None),
        kv_set = (kv_set (view r))(k := None)\<rparr>"
    and "fst (ks_ZAdd K now k s m r)"
    and "view (snd (ks_ZAdd K now k s m r)) = (view r)\<lparr>kv_zset := (kv_zset (view r))(k := modify now Map.empty (\<lambda>z. z(m \<mapsto> s)) (kv_zset (view r) k))\<rparr>"
    and "view (ks_ZRem K now k m r) =
        (view r)\<lparr>kv_zset := (kv_zset (view r))(k := lessen now (\<lambda>z. z(m := None)) (\<lambda>z. dom z = {}) (kv_zset (view r) k))\<rparr>"
    and "\<exists>ms. ks_ZRange K now k r = Some ms \<and> distinct ms \<and> set ms = dom (zset_at now (view r) k)"
    and "\<exists>ms. ks_ZRangeByScore K now k lo r = Some ms \<and> distinct ms \<and> set ms = {m. \<exists>s. zset_at now (view r) k m = Some s \<and> lo \<le> s}"
    and "view (ks_SAdd K now k m r) = (view r)\<lparr>kv_set := (kv_set (view r))(k := modify now {} (insert m) (kv_set (view r) k))\<rparr>"
    and "view (ks_SRem K now k m r) =
        (view r)\<lparr>kv_set := (kv_set (view r))(k := lessen now (\<lambda>s. s - {m}) (\<lambda>s. s = {}) (kv_set (view r) k))\<rparr>"
    and "\<exists>ms. ks_SMembers K now k r = Some ms \<and> distinct ms \<and> set ms = set_at now (view r) k"
    and "view (ks_Expire K now k d r) = \<lparr>kv_str = (kv_str (view r))(k := expire now d (kv_str (view r) k)),
        kv_zset = (kv_zset (view r))(k := expire now d (kv_zset (view r) k)),
        kv_set = (kv_set (view r))(k := expire now d (kv_set (view r) k))\<rparr>"
    and "view (ks_Publish K ch msg r) = view r"
  using assms unfolding answering_def by - (elim conjE, (erule allE)+, (assumption | (erule conjE, assumption)))+


section \<open>Reading nodes\<close>

text \<open>The node Redis holds under an identifier.\<close>

definition stored_node :: "'v reg_codec \<Rightarrow> ('r \<Rightarrow> 'v ks_view) \<Rightarrow> gotime \<Rightarrow> 'r registry \<Rightarrow> string \<Rightarrow> reg_node option" where
  "stored_node C view now g ident = Option.bind (live now (kv_str (view (rg_redis g)) (getNodeKey g ident))) (rc_read C)"

lemma reg_GetNode_stored:
  assumes "answering K view"
  shows "fst (reg_GetNode K C now ident g) = stored_node C view now g ident"
    and "rg_redis (snd (reg_GetNode K C now ident g)) = rg_redis g" and "rg_prefix (snd (reg_GetNode K C now ident g)) = rg_prefix g"
  by (simp_all add: reg_GetNode_def stored_node_def answeringD(3) [OF assms] split: option.split)

lemma load_nodes_stored:
  assumes "answering K view"
  shows "fst (load_nodes K C now ids g) = List.map_filter (stored_node C view now g) ids \<and>
    rg_redis (snd (load_nodes K C now ids g)) = rg_redis g \<and> rg_prefix (snd (load_nodes K C now ids g)) = rg_prefix g"
proof (induction ids arbitrary: g)
  case (Cons ident ids)
  obtain n g1 where g1: "reg_GetNode K C now ident g = (n, g1)" by (cases "reg_GetNode K C now ident g")
  have same: "rg_redis g1 = rg_redis g" "rg_prefix g1 = rg_prefix g" "n = stored_node C view now g ident"
    using reg_GetNode_stored [OF assms, of C now ident g] by (simp_all add: g1)
  then have "stored_node C view now g1 = stored_node C view now g" by (simp add: fun_eq_iff stored_node_def getNodeKey_def)
  then show ?case using Cons.IH [of g1] same by (simp add: g1 split_def split: option.split)
qed simp

lemma load_listed_stored:
  assumes "answering K view" and "ids = Some is"
  shows "\<exists>ns g'. load_listed K C now ids g = (Some ns, g') \<and> set ns = {n. \<exists>ident \<in> set is. stored_node C view now g ident = Some n} \<and>
    rg_redis g' = rg_redis g \<and> rg_prefix g' = rg_prefix g"
proof -
  obtain ns g' where l: "load_nodes K C now is g = (ns, g')" by (cases "load_nodes K C now is g")
  have "ns = List.map_filter (stored_node C view now g) is" "rg_redis g' = rg_redis g" "rg_prefix g' = rg_prefix g"
    using load_nodes_stored [OF assms(1), of C now "is" g] by (simp_all add: l)
  moreover have "set (List.map_filter f is) = {n. \<exists>ident \<in> set is. f ident = Some n}" for f :: "string \<Rightarrow> reg_node option"
    by (auto simp: List.map_filter_def) force
  ultimately show ?thesis using assms(2) l by (auto simp: load_listed_def)
qed

text \<open>Each listing gives the stored nodes of the identifiers in its set.\<close>

lemma listings:
  assumes "answering K view"
  shows "\<exists>ns g'. reg_ListNodes K C now g = (Some ns, g') \<and> rg_redis g' = rg_redis g \<and> rg_prefix g' = rg_prefix g \<and>
      set ns = {n. \<exists>ident \<in> dom (zset_at now (view (rg_redis g)) (getActiveNodesKey g)). stored_node C view now g ident = Some n}"
    and "\<exists>ns g'. ListNodesByCapability K C now c g = (Some ns, g') \<and>
      set ns = {n. \<exists>ident \<in> set_at now (view (rg_redis g)) (getCapabilityKey g c). stored_node C view now g ident = Some n}"
    and "\<exists>ns g'. ListNodesByTag K C now t g = (Some ns, g') \<and>
      set ns = {n. \<exists>ident \<in> set_at now (view (rg_redis g)) (getTagKey g t). stored_node C view now g ident = Some n}"
    and "\<exists>ns g'. GetHealthyNodes K C now g = (Some ns, g') \<and>
      set ns = {n. \<exists>ident s. zset_at now (view (rg_redis g)) (getActiveNodesKey g) ident = Some s \<and>
        (now - 30 * second) div second \<le> s \<and> stored_node C view now g ident = Some n}"
proof -
  obtain ms where ms: "ks_ZRange K now (getActiveNodesKey g) (rg_redis g) = Some ms" "set ms = dom (zset_at now (view (rg_redis g)) (getActiveNodesKey g))"
    using answeringD(8) [OF assms] by blast
  show "\<exists>ns g'. reg_ListNodes K C now g = (Some ns, g') \<and> rg_redis g' = rg_redis g \<and> rg_prefix g' = rg_prefix g \<and>
      set ns = {n. \<exists>ident \<in> dom (zset_at now (view (rg_redis g)) (getActiveNodesKey g)). stored_node C view now g ident = Some n}"
    unfolding reg_ListNodes_def ms(2) [symmetric] using load_listed_stored [OF assms ms(1)] by blast
  obtain ms where ms: "ks_SMembers K now (getCapabilityKey g c) (rg_redis g) = Some ms" "set ms = set_at now (view (rg_redis g)) (getCapabilityKey g c)"
    using answeringD(12) [OF assms] by blast
  show "\<exists>ns g'. ListNodesByCapability K C now c g = (Some ns, g') \<and>
      set ns = {n. \<exists>ident \<in> set_at now (view (rg_redis g)) (getCapabilityKey g c). stored_node C view now g ident = Some n}"
    unfolding ListNodesByCapability_def ms(2) [symmetric] using load_listed_stored [OF assms ms(1)] by blast
  obtain ms where ms: "ks_SMembers K now (getTagKey g t) (rg_redis g) = Some ms" "set ms = set_at now (view (rg_redis g)) (getTagKey g t)"
    using answeringD(12) [OF assms] by blast
  show "\<exists>ns g'. ListNodesByTag K C now t g = (Some ns, g') \<and>
      set ns = {n. \<exists>ident \<in> set_at now (view (rg_redis g)) (getTagKey g t). stored_node C view now g ident = Some n}"
    unfolding ListNodesByTag_def ms(2) [symmetric] using load_listed_stored [OF assms ms(1)] by blast
  obtain ms where ms: "ks_ZRangeByScore K now (getActiveNodesKey g) ((now - 30 * second) div second) (rg_redis g) = Some ms"
      "set ms = {m. \<exists>s. zset_at now (view (rg_redis g)) (getActiveNodesKey g) m = Some s \<and> (now - 30 * second) div second \<le> s}"
    using answeringD(9) [OF assms] by blast
  show "\<exists>ns g'. GetHealthyNodes K C now g = (Some ns, g') \<and>
      set ns = {n. \<exists>ident s. zset_at now (view (rg_redis g)) (getActiveNodesKey g) ident = Some s \<and>
        (now - 30 * second) div second \<le> s \<and> stored_node C view now g ident = Some n}"
    unfolding GetHealthyNodes_def using load_listed_stored [OF assms ms(1), of C now g] unfolding ms(2) by fast
qed

section \<open>What registering and beating store\<close>

lemmas reg_keys = getNodeKey_def getActiveNodesKey_def getHeartbeatKey_def getCapabilityKey_def getTagKey_def

lemma keys_distinct [simp]:
  "getNodeKey g a \<noteq> getCapabilityKey g b" "getNodeKey g a \<noteq> getTagKey g b" "getNodeKey g a \<noteq> getHeartbeatKey g b"
  "getCapabilityKey g a \<noteq> getTagKey g b" "getActiveNodesKey g \<noteq> getCapabilityKey g b" "getActiveNodesKey g \<noteq> getTagKey g b"
  "getHeartbeatKey g a \<noteq> getActiveNodesKey g" "getHeartbeatKey g a \<noteq> getCapabilityKey g b" "getHeartbeatKey g a \<noteq> getTagKey g b"
  "getNodeKey g a = getNodeKey g b \<longleftrightarrow> a = b"
  by (simp_all add: reg_keys)

lemma join_set_view:
  assumes "answering K view"
  shows "kv_set (view (join_set K now ident k r)) = (kv_set (view r))(k \<mapsto> (insert ident (set_at now (view r) k), Some (now + hour)))"
    and "k' \<noteq> k \<Longrightarrow> kv_str (view (join_set K now ident k r)) k' = kv_str (view r) k'"
    and "k' \<noteq> k \<Longrightarrow> kv_zset (view (join_set K now ident k r)) k' = kv_zset (view r) k'"
  by (simp_all add: join_set_def answeringD(10,13) [OF assms] expire_def live_modify set_at_def)

lemma join_all_view:
  assumes "answering K view"
  shows "(\<forall>k. kv_set (view (fold (\<lambda>c. join_set K now ident (f c)) cs r)) k =
      (if k \<in> f ` set cs then Some (insert ident (set_at now (view r) k), Some (now + hour)) else kv_set (view r) k)) \<and>
    (\<forall>k. k \<notin> f ` set cs \<longrightarrow> kv_str (view (fold (\<lambda>c. join_set K now ident (f c)) cs r)) k = kv_str (view r) k \<and>
      kv_zset (view (fold (\<lambda>c. join_set K now ident (f c)) cs r)) k = kv_zset (view r) k)"
proof (induction cs arbitrary: r)
  case (Cons c cs)
  have "set_at now (view (join_set K now ident (f c) r)) k =
      (if k = f c then insert ident (set_at now (view r) k) else set_at now (view r) k)" for k
    by (simp add: set_at_def join_set_view(1) [OF assms] live_def)
  then show ?case using Cons.IH [of "join_set K now ident (f c) r"] by (auto simp: join_set_view [OF assms])
qed simp


text \<open>The set of active nodes has no expiry: no operation of the registry gives it one.\<close>

definition lasting :: "('r \<Rightarrow> 'v ks_view) \<Rightarrow> 'r registry \<Rightarrow> bool" where
  "lasting view g = (case kv_zset (view (rg_redis g)) (getActiveNodesKey g) of None \<Rightarrow> True | Some (_, e) \<Rightarrow> e = None)"

lemma zset_modified:
  assumes "case c of None \<Rightarrow> True | Some (_, e) \<Rightarrow> e = None"
  shows "modify now Map.empty f c = Some (f (case c of None \<Rightarrow> Map.empty | Some (z, _) \<Rightarrow> z), None)"
  using assms by (auto simp: modify_def live_def split: option.splits)

definition registered :: "gotime \<Rightarrow> reg_node \<Rightarrow> reg_node" where
  "registered now nd = nd\<lparr>ri_UpdatedAt := now, ri_LastHeartbeat := now\<rparr>"

lemma RegisterNode_view:
  assumes "answering K view" and "faithful C" and "lasting view g" and "reg_RegisterNode K C now nd g = (err, g')"
  shows "err = None \<and> rg_prefix g' = rg_prefix g \<and> lasting view g' \<and>
    (\<exists>d. kv_str (view (rg_redis g')) (getNodeKey g (ri_ID nd)) = Some (d, Some (now + hour)) \<and> rc_read C d = Some (registered now nd)) \<and>
    (\<exists>z. kv_zset (view (rg_redis g')) (getActiveNodesKey g) = Some (z(ri_ID nd \<mapsto> now div second), None)) \<and>
    (\<forall>c \<in> set (ri_Capabilities nd). \<exists>s. kv_set (view (rg_redis g')) (getCapabilityKey g c) = Some (insert (ri_ID nd) s, Some (now + hour))) \<and>
    (\<forall>t \<in> set (ri_Tags nd). \<exists>s. kv_set (view (rg_redis g')) (getTagKey g t) = Some (insert (ri_ID nd) s, Some (now + hour)))"
proof -
  let ?n = "registered now nd" and ?id = "ri_ID nd"
  have n: "nd\<lparr>ri_UpdatedAt := now, ri_LastHeartbeat := now\<rparr> = ?n" "ri_ID ?n = ?id" "ri_Capabilities ?n = ri_Capabilities nd" "ri_Tags ?n = ri_Tags nd"
    by (simp_all add: registered_def)
  obtain d where d: "rc_node C ?n = Some d" "rc_read C d = Some ?n" using assms(2) unfolding faithful_def by blast
  obtain r1 where r1: "ks_Set K now (getNodeKey g ?id) d hour (rg_redis g) = (True, r1)"
    using answeringD(1) [OF assms(1)] by (metis eq_fst_iff)
  obtain r2 where r2: "ks_ZAdd K now (getActiveNodesKey g) (now div second) ?id r1 = (True, r2)"
    using answeringD(5) [OF assms(1)] by (metis eq_fst_iff)
  define r3 where "r3 = fold (\<lambda>c. join_set K now ?id (getCapabilityKey g c)) (ri_Capabilities nd) r2"
  define r4 where "r4 = fold (\<lambda>t. join_set K now ?id (getTagKey g t)) (ri_Tags nd) r3"
  have g': "err = None" "rg_prefix g' = rg_prefix g" "rg_redis g' = ks_Publish K (reg_getEventChannel g) (rc_event C ''node_join'' ?id now) r4"
    using assms(4) r1 r2 by (simp_all add: reg_RegisterNode_def n d(1) Let_def notify_def r3_def r4_def, auto)
  then have view': "view (rg_redis g') = view r4" by (simp add: answeringD(14) [OF assms(1)])
  have v2: "view r2 = (view (rg_redis g))\<lparr>kv_str := (kv_str (view (rg_redis g)))(getNodeKey g ?id \<mapsto> (d, Some (now + hour))),
      kv_zset := (kv_zset (view (rg_redis g)))(getActiveNodesKey g :=
        modify now Map.empty (\<lambda>z. z(?id \<mapsto> now div second)) (kv_zset (view (rg_redis g)) (getActiveNodesKey g)))\<rparr>"
    using answeringD(2) [OF assms(1), of now "getNodeKey g ?id" d hour "rg_redis g"]
      answeringD(6) [OF assms(1), of now "getActiveNodesKey g" "now div second" ?id r1] r1 r2 by simp
  note j3 = join_all_view [OF assms(1), of now ?id "getCapabilityKey g" "ri_Capabilities nd" r2, folded r3_def]
  note j4 = join_all_view [OF assms(1), of now ?id "getTagKey g" "ri_Tags nd" r3, folded r4_def]
  have notin: "getNodeKey g ?id \<notin> getCapabilityKey g ` set cs" "getNodeKey g ?id \<notin> getTagKey g ` set cs"
      "getActiveNodesKey g \<notin> getCapabilityKey g ` set cs" "getActiveNodesKey g \<notin> getTagKey g ` set cs"
      "getCapabilityKey g c \<notin> getTagKey g ` set cs" for cs c
    by auto
  have str: "kv_str (view r4) (getNodeKey g ?id) = Some (d, Some (now + hour))" using j3 j4 notin by (simp add: v2)
  have "kv_zset (view r4) (getActiveNodesKey g) = kv_zset (view r2) (getActiveNodesKey g)" using j3 j4 notin by simp
  then have zset: "\<exists>z. kv_zset (view r4) (getActiveNodesKey g) = Some (z(?id \<mapsto> now div second), None)"
    using zset_modified [OF assms(3) [unfolded lasting_def]] by (auto simp: v2)
  have caps: "\<exists>s. kv_set (view r4) (getCapabilityKey g c) = Some (insert ?id s, Some (now + hour))" if "c \<in> set (ri_Capabilities nd)" for c
    using j3 j4 notin(5) [of c "ri_Tags nd"] that by (metis imageI)
  have tags: "\<exists>s. kv_set (view r4) (getTagKey g t) = Some (insert ?id s, Some (now + hour))" if "t \<in> set (ri_Tags nd)" for t
    using j4 that by (metis imageI)
  have "getActiveNodesKey g' = getActiveNodesKey g" using g'(2) by (simp add: getActiveNodesKey_def)
  then have "lasting view g'" using zset by (auto simp: lasting_def view')
  then show ?thesis unfolding view' using g'(1,2) str d(2) zset caps tags by blast
qed

lemma UpdateHeartbeat_view:
  assumes "answering K view" and "faithful C" and "lasting view g" and "UpdateHeartbeat K C now h g = (err, g')"
  shows "err = None \<and> rg_prefix g' = rg_prefix g \<and> rg_nodes g' = rg_nodes g \<and> lasting view g' \<and> kv_set (view (rg_redis g')) = kv_set (view (rg_redis g)) \<and>
    (\<exists>d. kv_str (view (rg_redis g')) (getNodeKey g (rh_NodeID h)) = Some (d, Some (now + hour)) \<and>
       rc_read C d = Some (case stored_node C view now g (rh_NodeID h) of None \<Rightarrow> node_from_heartbeat now h | Some n \<Rightarrow> beat now h n)) \<and>
    (\<exists>z. kv_zset (view (rg_redis g')) (getActiveNodesKey g) = Some (z(rh_NodeID h \<mapsto> now div second), None))"
proof -
  let ?id = "rh_NodeID h"
  let ?node = "case stored_node C view now g ?id of None \<Rightarrow> node_from_heartbeat now h | Some n \<Rightarrow> beat now h n"
  obtain hd where hd: "rc_heartbeat C h = Some hd" using assms(2) unfolding faithful_def by blast
  obtain r1 where r1: "ks_Set K now (getHeartbeatKey g ?id) hd (60 * second) (rg_redis g) = (True, r1)"
    using answeringD(1) [OF assms(1)] by (metis eq_fst_iff)
  obtain r2 where r2: "ks_ZAdd K now (getActiveNodesKey g) (now div second) ?id r1 = (True, r2)"
    using answeringD(5) [OF assms(1)] by (metis eq_fst_iff)
  obtain d where d: "rc_node C ?node = Some d" "rc_read C d = Some ?node" using assms(2) unfolding faithful_def by blast
  obtain r3 where r3: "ks_Set K now (getNodeKey g ?id) d hour r2 = (True, r3)"
    using answeringD(1) [OF assms(1)] by (metis eq_fst_iff)
  have v1: "view r1 = (view (rg_redis g))\<lparr>kv_str := (kv_str (view (rg_redis g)))(getHeartbeatKey g ?id \<mapsto> (hd, Some (now + 60 * second)))\<rparr>"
    using answeringD(2) [OF assms(1), of now "getHeartbeatKey g ?id" hd "60 * second" "rg_redis g"] r1 by simp
  have v2: "view r2 = (view r1)\<lparr>kv_zset := (kv_zset (view r1))(getActiveNodesKey g :=
      modify now Map.empty (\<lambda>z. z(?id \<mapsto> now div second)) (kv_zset (view r1) (getActiveNodesKey g)))\<rparr>"
    using answeringD(6) [OF assms(1), of now "getActiveNodesKey g" "now div second" ?id r1] r2 by simp
  have v3: "view r3 = (view r2)\<lparr>kv_str := (kv_str (view r2))(getNodeKey g ?id \<mapsto> (d, Some (now + hour)))\<rparr>"
    using answeringD(2) [OF assms(1), of now "getNodeKey g ?id" d hour r2] r3 by simp
  have "Option.bind (ks_Get K now (getNodeKey g ?id) r2) (rc_read C) = stored_node C view now g ?id"
    by (simp add: answeringD(3) [OF assms(1)] v2 v1 stored_node_def)
  then have g': "err = None" "g' = g\<lparr>rg_redis := r3\<rparr>"
    using assms(4) r1 r2 r3 d(1) by (simp_all add: UpdateHeartbeat_def hd)
  have zset: "\<exists>z. kv_zset (view r3) (getActiveNodesKey g) = Some (z(?id \<mapsto> now div second), None)"
    using zset_modified [OF assms(3) [unfolded lasting_def]] by (auto simp: v3 v2 v1)
  then have "lasting view g'" by (auto simp: lasting_def g'(2) getActiveNodesKey_def)
  then show ?thesis using zset d(2) by (simp add: g' v3) (simp add: v2 v1)
qed


section \<open>Joining\<close>

text \<open>
  C20: Where Redis answers, registering succeeds, and for an hour the node is found again as it was given,
  with both of its instants set: by its identifier, in the list of nodes, and among the nodes of each of its
  capabilities and tags.
\<close>
theorem registered_found:
  assumes "answering K view" and "faithful C" and "lasting view g"
    and "now \<le> t" and "t < now + hour"
  shows "case reg_RegisterNode K C now nd g of (err, g') \<Rightarrow> err = None \<and>
    fst (reg_GetNode K C t (ri_ID nd) g') = Some (registered now nd) \<and>
    registered now nd \<in> set (the (fst (reg_ListNodes K C t g'))) \<and>
    (\<forall>c \<in> set (ri_Capabilities nd). registered now nd \<in> set (the (fst (ListNodesByCapability K C t c g')))) \<and>
    (\<forall>x \<in> set (ri_Tags nd). registered now nd \<in> set (the (fst (ListNodesByTag K C t x g'))))"
proof -
  obtain err g' where reg: "reg_RegisterNode K C now nd g = (err, g')" by (cases "reg_RegisterNode K C now nd g")
  note v = RegisterNode_view [OF assms(1-3) reg]
  have key: "getNodeKey g' = getNodeKey g" "getActiveNodesKey g' = getActiveNodesKey g"
      "getCapabilityKey g' = getCapabilityKey g" "getTagKey g' = getTagKey g"
    using v by (simp_all add: fun_eq_iff reg_keys)
  have stored: "stored_node C view t g' (ri_ID nd) = Some (registered now nd)"
    using v assms(5) by (auto simp: stored_node_def key live_def)
  have active: "ri_ID nd \<in> dom (zset_at t (view (rg_redis g')) (getActiveNodesKey g'))"
    using v by (auto simp: zset_at_def key live_def)
  have caps: "ri_ID nd \<in> set_at t (view (rg_redis g')) (getCapabilityKey g' c)" if "c \<in> set (ri_Capabilities nd)" for c
    using v that assms(5) by (auto simp: set_at_def key live_def)
  have tags: "ri_ID nd \<in> set_at t (view (rg_redis g')) (getTagKey g' x)" if "x \<in> set (ri_Tags nd)" for x
    using v that assms(5) by (auto simp: set_at_def key live_def)
  have 1: "registered now nd \<in> set (the (fst (reg_ListNodes K C t g')))"
    using listings(1) [OF assms(1), of C t g'] active stored by fastforce
  have 2: "registered now nd \<in> set (the (fst (ListNodesByCapability K C t c g')))" if "c \<in> set (ri_Capabilities nd)" for c
    using listings(2) [OF assms(1), of C t c g'] caps [OF that] stored by fastforce
  have 3: "registered now nd \<in> set (the (fst (ListNodesByTag K C t x g')))" if "x \<in> set (ri_Tags nd)" for x
    using listings(3) [OF assms(1), of C t x g'] tags [OF that] stored by fastforce
  show ?thesis using v reg_GetNode_stored(1) [OF assms(1), of C t "ri_ID nd" g'] stored 1 2 3 by (simp add: reg)
qed

section \<open>Heartbeats\<close>

text \<open>A node that beats at least once an hour, by the registry's clock.\<close>

fun steady :: "string \<Rightarrow> gotime \<Rightarrow> (gotime \<times> reg_heartbeat) list \<Rightarrow> bool" where
  "steady ident t [] = True"
| "steady ident t ((t', h) # hs) = (t \<le> t' \<and> t' < t + hour \<and> rh_NodeID h = ident \<and> steady ident t' hs)"

definition beats :: "('r, 'v) keyspace \<Rightarrow> 'v reg_codec \<Rightarrow> (gotime \<times> reg_heartbeat) list \<Rightarrow> 'r registry \<Rightarrow> 'r registry" where
  "beats K C hs g = fold (\<lambda>(t, h) g. snd (UpdateHeartbeat K C t h g)) hs g"

definition last_beat :: "gotime \<Rightarrow> (gotime \<times> reg_heartbeat) list \<Rightarrow> gotime" where
  "last_beat t hs = (case rev hs of [] \<Rightarrow> t | (t', _) # _ \<Rightarrow> t')"

lemma last_beat_Cons: "last_beat t ((t', h) # hs) = last_beat t' hs"
  by (auto simp: last_beat_def split: list.splits)

text \<open>The node's record, its place among the active nodes, and the sets of nodes.\<close>

definition beating :: "'v reg_codec \<Rightarrow> ('r \<Rightarrow> 'v ks_view) \<Rightarrow> string \<Rightarrow> string list \<Rightarrow> (string \<rightharpoonup> string set \<times> gotime option) \<Rightarrow> gotime \<Rightarrow> 'r registry \<Rightarrow> bool" where
  "beating C view ident caps sets t g =
     (lasting view g \<and> kv_set (view (rg_redis g)) = sets \<and>
      (\<exists>d n. kv_str (view (rg_redis g)) (getNodeKey g ident) = Some (d, Some (t + hour)) \<and> rc_read C d = Some n \<and>
         ri_ID n = ident \<and> ri_Capabilities n = caps) \<and>
      (\<exists>z. kv_zset (view (rg_redis g)) (getActiveNodesKey g) = Some (z(ident \<mapsto> t div second), None)))"

lemma beating_beat:
  assumes "answering K view" and "faithful C" and "beating C view ident caps sets t g"
    and "t' < t + hour" and "rh_NodeID h = ident"
  shows "beating C view ident caps sets t' (snd (UpdateHeartbeat K C t' h g)) \<and>
    rg_prefix (snd (UpdateHeartbeat K C t' h g)) = rg_prefix g"
proof -
  obtain err g' where up: "UpdateHeartbeat K C t' h g = (err, g')" by (cases "UpdateHeartbeat K C t' h g")
  have "lasting view g" using assms(3) by (simp add: beating_def)
  note v = UpdateHeartbeat_view [OF assms(1,2) this up]
  obtain d n where n: "kv_str (view (rg_redis g)) (getNodeKey g ident) = Some (d, Some (t + hour))" "rc_read C d = Some n"
      "ri_ID n = ident" "ri_Capabilities n = caps"
    using assms(3) by (auto simp: beating_def)
  then have "stored_node C view t' g ident = Some n" using assms(4) by (simp add: stored_node_def live_def)
  moreover have "getNodeKey g' = getNodeKey g" "getActiveNodesKey g' = getActiveNodesKey g"
    using v by (simp_all add: fun_eq_iff reg_keys)
  ultimately show ?thesis using v n(3,4) assms(3,5) by (auto simp: beating_def up beat_def)
qed

lemma beating_beats:
  assumes "answering K view" and "faithful C"
  shows "beating C view ident caps sets t g \<Longrightarrow> steady ident t hs \<Longrightarrow>
    beating C view ident caps sets (last_beat t hs) (beats K C hs g) \<and> rg_prefix (beats K C hs g) = rg_prefix g \<and> t \<le> last_beat t hs"
proof (induction hs arbitrary: t g)
  case Nil
  then show ?case by (simp add: beats_def last_beat_def)
next
  case (Cons x hs)
  obtain t' h where x: "x = (t', h)" by (cases x)
  show ?case using beating_beat [OF assms Cons.prems(1), of t' h] Cons.IH [of t' "snd (UpdateHeartbeat K C t' h g)"] Cons.prems(2)
    by (simp add: x last_beat_Cons beats_def)
qed

text \<open>
  A node may beat as it should for ever: from an hour after its registration on it is still healthy,
  listed with its capabilities, yet no search by one of its capabilities finds any node, since heartbeats
  refresh the node's record and never the sets.
\<close>
theorem beating_node_not_found_by_capability:
  assumes "answering K view" and "faithful C" and "lasting view g"
    and "steady (ri_ID nd) now hs" and "last_beat now hs \<le> t" and "t \<le> last_beat now hs + 30 * second" and "now + hour \<le> t"
    and "c \<in> set (ri_Capabilities nd)"
  shows "let g' = beats K C hs (snd (reg_RegisterNode K C now nd g)) in
    (\<exists>n \<in> set (the (fst (GetHealthyNodes K C t g'))). ri_ID n = ri_ID nd \<and> c \<in> set (ri_Capabilities n)) \<and>
    fst (ListNodesByCapability K C t c g') = Some []"
proof -
  obtain err g1 where reg: "reg_RegisterNode K C now nd g = (err, g1)" by (cases "reg_RegisterNode K C now nd g")
  note v = RegisterNode_view [OF assms(1-3) reg]
  have key: "getNodeKey g1 = getNodeKey g" "getActiveNodesKey g1 = getActiveNodesKey g" "getCapabilityKey g1 = getCapabilityKey g"
    using v by (simp_all add: fun_eq_iff reg_keys)
  have "beating C view (ri_ID nd) (ri_Capabilities nd) (kv_set (view (rg_redis g1))) now g1"
    using v by (auto simp: beating_def key registered_def)
  from beating_beats [OF assms(1,2) this assms(4)] have b: "beating C view (ri_ID nd) (ri_Capabilities nd) (kv_set (view (rg_redis g1))) (last_beat now hs) (beats K C hs g1)"
      "rg_prefix (beats K C hs g1) = rg_prefix g1" by simp_all
  define g' where "g' = beats K C hs g1"
  obtain d n z where n: "kv_str (view (rg_redis g')) (getNodeKey g' (ri_ID nd)) = Some (d, Some (last_beat now hs + hour))" "rc_read C d = Some n"
      "ri_ID n = ri_ID nd" "ri_Capabilities n = ri_Capabilities nd" and
    z: "kv_zset (view (rg_redis g')) (getActiveNodesKey g') = Some (z(ri_ID nd \<mapsto> last_beat now hs div second), None)" and
    sets: "kv_set (view (rg_redis g')) = kv_set (view (rg_redis g1))"
    using b(1) unfolding g'_def [symmetric] beating_def by blast
  have stored: "stored_node C view t g' (ri_ID nd) = Some n" using n(1,2) assms(6) by (simp add: stored_node_def live_def)
  have score: "zset_at t (view (rg_redis g')) (getActiveNodesKey g') (ri_ID nd) = Some (last_beat now hs div second)"
    by (simp add: zset_at_def z live_def)
  have "(t - 30 * second) div second \<le> last_beat now hs div second" using assms(6) by (intro zdiv_mono1) simp_all
  then have "n \<in> set (the (fst (GetHealthyNodes K C t g')))"
    using listings(4) [OF assms(1), of C t g'] score stored by fastforce
  then have 1: "\<exists>n \<in> set (the (fst (GetHealthyNodes K C t g'))). ri_ID n = ri_ID nd \<and> c \<in> set (ri_Capabilities n)"
    using n(3,4) assms(8) by (metis (no_types))
  have "getCapabilityKey g' c = getCapabilityKey g c" using b(2) key(3) by (simp add: g'_def reg_keys fun_eq_iff)
  then have "set_at t (view (rg_redis g')) (getCapabilityKey g' c) = {}"
    using v assms(7,8) by (auto simp: set_at_def sets live_def)
  then have 2: "fst (ListNodesByCapability K C t c g') = Some []"
    using listings(2) [OF assms(1), of C t c g'] by auto
  show ?thesis using 1 2 by (simp add: reg g'_def)
qed


section \<open>Leaving\<close>

lemma lessen_gone:
  assumes "\<And>v. P (f v)" and "P v0"
  shows "P (case live t (lessen now f gone c) of None \<Rightarrow> v0 | Some v \<Rightarrow> v)"
  using assms by (auto simp: lessen_def live_def split: option.splits if_splits)

lemma lessen_mono:
  assumes "\<And>v. P v \<Longrightarrow> P (f v)" and "P v0" and "P (case live t c of None \<Rightarrow> v0 | Some v \<Rightarrow> v)"
  shows "P (case live t (lessen now f gone c) of None \<Rightarrow> v0 | Some v \<Rightarrow> v)"
  using assms by (auto simp: lessen_def live_def split: option.splits if_splits)

lemma srem_all_view:
  assumes "answering K view"
  shows "(\<forall>k \<in> f ` set cs. ident \<notin> set_at t (view (fold (\<lambda>c. ks_SRem K now (f c) ident) cs r)) k) \<and>
    (\<forall>k. ident \<notin> set_at t (view r) k \<longrightarrow> ident \<notin> set_at t (view (fold (\<lambda>c. ks_SRem K now (f c) ident) cs r)) k) \<and>
    kv_str (view (fold (\<lambda>c. ks_SRem K now (f c) ident) cs r)) = kv_str (view r) \<and>
    kv_zset (view (fold (\<lambda>c. ks_SRem K now (f c) ident) cs r)) = kv_zset (view r)"
proof (induction cs arbitrary: r)
  case (Cons c cs)
  let ?r = "ks_SRem K now (f c) ident r"
  have gone: "ident \<notin> set_at t (view ?r) (f c)"
    using lessen_gone [of "\<lambda>s. ident \<notin> s" "\<lambda>s. s - {ident}" "{}"] by (simp add: set_at_def answeringD(11) [OF assms])
  have keep: "ident \<notin> set_at t (view ?r) k" if "ident \<notin> set_at t (view r) k" for k
    using that gone by (cases "k = f c") (simp_all add: set_at_def answeringD(11) [OF assms])
  have same: "kv_str (view ?r) = kv_str (view r)" "kv_zset (view ?r) = kv_zset (view r)"
    by (simp_all add: answeringD(11) [OF assms])
  show ?case using Cons.IH [of ?r] gone keep same by auto
qed simp

lemma UnregisterNode_view:
  assumes "answering K view"
    and g'_def: "g' = reg_UnregisterNode K C now ident g"
  shows "rg_prefix g' = rg_prefix g \<and> kv_str (view (rg_redis g')) (getNodeKey g ident) = None \<and>
    (\<forall>x. kv_str (view (rg_redis g)) (getNodeKey g x) = None \<longrightarrow> kv_str (view (rg_redis g')) (getNodeKey g x) = None) \<and>
    zset_at t (view (rg_redis g')) (getActiveNodesKey g) ident = None \<and> (lasting view g \<longrightarrow> lasting view g') \<and>
    (\<forall>n. known_node K C now ident g = Some n \<longrightarrow>
      (\<forall>c \<in> set (ri_Capabilities n). ident \<notin> set_at t (view (rg_redis g')) (getCapabilityKey g c)) \<and>
      (\<forall>x \<in> set (ri_Tags n). ident \<notin> set_at t (view (rg_redis g')) (getTagKey g x)))"
proof -
  define caps where "caps = (case known_node K C now ident g of None \<Rightarrow> [] | Some n \<Rightarrow> ri_Capabilities n)"
  define tags where "tags = (case known_node K C now ident g of None \<Rightarrow> [] | Some n \<Rightarrow> ri_Tags n)"
  define r1 where "r1 = ks_Del K (getNodeKey g ident) (rg_redis g)"
  define r2 where "r2 = ks_ZRem K now (getActiveNodesKey g) ident r1"
  define r3 where "r3 = fold (\<lambda>c. ks_SRem K now (getCapabilityKey g c) ident) caps r2"
  define r4 where "r4 = fold (\<lambda>t. ks_SRem K now (getTagKey g t) ident) tags r3"
  define r5 where "r5 = ks_Del K (getHeartbeatKey g ident) r4"
  have g': "rg_prefix g' = rg_prefix g" "view (rg_redis g') = view r5"
    by (simp_all add: g'_def reg_UnregisterNode_def Let_def notify_def answeringD(14) [OF assms(1)] r5_def r4_def r3_def r2_def r1_def caps_def tags_def)
  note j3 = srem_all_view [OF assms(1), of "getCapabilityKey g" caps ident t now r2, folded r3_def]
  note j4 = srem_all_view [OF assms(1), of "getTagKey g" tags ident t now r3, folded r4_def]
  have v5: "kv_str (view r5) = (kv_str (view r4))(getHeartbeatKey g ident := None)" "kv_zset (view r5) = (kv_zset (view r4))(getHeartbeatKey g ident := None)"
      "kv_set (view r5) = (kv_set (view r4))(getHeartbeatKey g ident := None)"
    by (simp_all add: r5_def answeringD(4) [OF assms(1)])
  have str: "kv_str (view r5) = ((kv_str (view (rg_redis g)))(getNodeKey g ident := None))(getHeartbeatKey g ident := None)"
    using j3 j4 by (simp add: v5 r2_def r1_def answeringD(4,7) [OF assms(1)])
  have zset: "kv_zset (view r5) (getActiveNodesKey g) =
      lessen now (\<lambda>z. z(ident := None)) (\<lambda>z. dom z = {}) (kv_zset (view r1) (getActiveNodesKey g))"
    using j3 j4 keys_distinct(7) [of g ident, symmetric] by (simp add: v5 r2_def answeringD(7) [OF assms(1)])
  have 1: "zset_at t (view r5) (getActiveNodesKey g) ident = None"
    using lessen_gone [of "\<lambda>z. z ident = None" "\<lambda>z. z(ident := None)" Map.empty] by (simp add: zset_at_def zset)
  have "kv_zset (view r1) (getActiveNodesKey g) = None \<or> kv_zset (view r1) (getActiveNodesKey g) = kv_zset (view (rg_redis g)) (getActiveNodesKey g)"
    by (simp add: r1_def answeringD(4) [OF assms(1)])
  then have 2: "lasting view g'" if "lasting view g"
    using that by (auto simp: lasting_def g' getActiveNodesKey_def [of g'] getActiveNodesKey_def [of g, symmetric] zset lessen_def live_def
        split: option.splits if_splits)
  have 3: "ident \<notin> set_at t (view r5) k" if "k \<in> getCapabilityKey g ` set caps \<or> k \<in> getTagKey g ` set tags" for k
  proof -
    have "set_at t (view r5) k \<subseteq> set_at t (view r4) k" by (simp add: set_at_def v5 live_def)
    moreover have "ident \<notin> set_at t (view r4) k" using that j3 j4 by blast
    ultimately show ?thesis by blast
  qed
  show ?thesis using 1 2 3 by (auto simp: g' str caps_def tags_def)
qed

text \<open>
  A node that leaves is gone from everything that knew it: its record, the active nodes, and the sets
  of its known capabilities and tags.  One heartbeat that arrives later brings it back, active, under the
  bare data of the heartbeat: without host, address, tags or capabilities.
\<close>
theorem late_heartbeat_revives:
  assumes "answering K view" and "faithful C" and "lasting view g"
    and "known_node K C now ident g = Some n" and "rh_NodeID h = ident" and "now' \<le> t" and "t \<le> now' + 30 * second"
  shows "let g1 = reg_UnregisterNode K C now ident g; g2 = snd (UpdateHeartbeat K C now' h g1) in
    fst (reg_GetNode K C now' ident g1) = None \<and>
    (\<forall>c \<in> set (ri_Capabilities n). ident \<notin> set_at now' (view (rg_redis g1)) (getCapabilityKey g c)) \<and>
    (\<forall>x \<in> set (ri_Tags n). ident \<notin> set_at now' (view (rg_redis g1)) (getTagKey g x)) \<and>
    ident \<notin> dom (zset_at now' (view (rg_redis g1)) (getActiveNodesKey g)) \<and>
    fst (reg_GetNode K C t ident g2) = Some (node_from_heartbeat now' h) \<and>
    node_from_heartbeat now' h \<in> set (the (fst (GetHealthyNodes K C t g2)))"
proof -
  define g1 where "g1 = reg_UnregisterNode K C now ident g"
  note v1 = UnregisterNode_view [OF assms(1) g1_def, of now']
  obtain err g2 where up: "UpdateHeartbeat K C now' h g1 = (err, g2)" by (cases "UpdateHeartbeat K C now' h g1")
  have "lasting view g1" using v1 assms(3) by simp
  note v2 = UpdateHeartbeat_view [OF assms(1,2) this up]
  have key: "getNodeKey g1 = getNodeKey g" "getNodeKey g2 = getNodeKey g" "getActiveNodesKey g1 = getActiveNodesKey g" "getActiveNodesKey g2 = getActiveNodesKey g"
    using v1 v2 by (simp_all add: fun_eq_iff reg_keys)
  have absent: "stored_node C view now' g1 ident = None" using v1 by (simp add: stored_node_def key live_def)
  have stored: "stored_node C view t g2 ident = Some (node_from_heartbeat now' h)"
    using v2 absent assms(5,7) by (auto simp: stored_node_def key live_def)
  obtain z where "kv_zset (view (rg_redis g2)) (getActiveNodesKey g2) = Some (z(ident \<mapsto> now' div second), None)"
    using v2 assms(5) by (auto simp: key)
  then have score: "zset_at t (view (rg_redis g2)) (getActiveNodesKey g2) ident = Some (now' div second)"
    by (simp add: zset_at_def live_def)
  have "(t - 30 * second) div second \<le> now' div second" using assms(7) by (intro zdiv_mono1) simp_all
  then have healthy: "node_from_heartbeat now' h \<in> set (the (fst (GetHealthyNodes K C t g2)))"
    using listings(4) [OF assms(1), of C t g2] score stored by fastforce
  have "fst (reg_GetNode K C now' ident g1) = None" "fst (reg_GetNode K C t ident g2) = Some (node_from_heartbeat now' h)"
    using reg_GetNode_stored(1) [OF assms(1)] absent stored by metis+
  then show ?thesis using v1 assms(4) healthy by (simp add: g1_def [symmetric] up domIff)
qed


section \<open>Cleaning\<close>

lemma clean_fold:
  assumes "answering K view"
  shows "rg_prefix (clean_dead K C now ns g) = rg_prefix g \<and>
    (kv_str (view (rg_redis g)) (getNodeKey g ident) = None \<or> (\<exists>n \<in> set ns. ri_ID n = ident \<and> node_dead now n) \<longrightarrow>
      kv_str (view (rg_redis (clean_dead K C now ns g))) (getNodeKey g ident) = None)"
proof (induction ns arbitrary: g)
  case Nil
  then show ?case by (simp add: clean_dead_def)
next
  case (Cons n ns)
  let ?g = "if node_dead now n then reg_UnregisterNode K C now (ri_ID n) g else g"
  note v = UnregisterNode_view [OF assms(1) refl, of C now "ri_ID n" g]
  have p: "rg_prefix ?g = rg_prefix g" using v by simp
  then have key: "getNodeKey ?g = getNodeKey g" by (simp add: fun_eq_iff reg_keys)
  have "kv_str (view (rg_redis ?g)) (getNodeKey g ident) = None"
    if "kv_str (view (rg_redis g)) (getNodeKey g ident) = None \<or> ri_ID n = ident \<and> node_dead now n"
    using that v by auto
  then show ?case using Cons.IH [of ?g] p by (auto simp: clean_dead_def key)
qed

text \<open>
  A node whose clock lags the registry's by more than a minute is removed by the next check for dead
  nodes, right after a heartbeat and while it is listed as healthy: the check compares the node's own
  time stamp, the list the registry's.
\<close>
theorem lagging_clock_evicted:
  assumes "answering K view" and "faithful C" and "lasting view g"
    and "case stored_node C view now g (rh_NodeID h) of None \<Rightarrow> True | Some n \<Rightarrow> ri_ID n = rh_NodeID h"
    and "rh_Timestamp h + 60 * second < t" and "now \<le> t" and "t \<le> now + 30 * second"
  shows "let g1 = snd (UpdateHeartbeat K C now h g); (ok, g2) = CheckAndCleanDeadNodes K C t g1 in
    (\<exists>n \<in> set (the (fst (GetHealthyNodes K C t g1))). ri_ID n = rh_NodeID h) \<and> ok \<and> fst (reg_GetNode K C t (rh_NodeID h) g2) = None"
proof -
  let ?id = "rh_NodeID h"
  obtain err g1 where up: "UpdateHeartbeat K C now h g = (err, g1)" by (cases "UpdateHeartbeat K C now h g")
  note v = UpdateHeartbeat_view [OF assms(1-3) up]
  have key: "getNodeKey g1 = getNodeKey g" "getActiveNodesKey g1 = getActiveNodesKey g"
    using v by (simp_all add: fun_eq_iff reg_keys)
  obtain n where n: "stored_node C view t g1 ?id = Some n" "ri_ID n = ?id" "ri_LastHeartbeat n = rh_Timestamp h"
    using v assms(4,7) by (auto simp: stored_node_def key live_def beat_def node_from_heartbeat_def split: option.splits)
  obtain z where z: "kv_zset (view (rg_redis g1)) (getActiveNodesKey g1) = Some (z(?id \<mapsto> now div second), None)"
    using v by (auto simp: key)
  then have score: "zset_at t (view (rg_redis g1)) (getActiveNodesKey g1) ?id = Some (now div second)"
    by (simp add: zset_at_def live_def)
  have "(t - 30 * second) div second \<le> now div second" using assms(7) by (intro zdiv_mono1) simp_all
  then have 1: "n \<in> set (the (fst (GetHealthyNodes K C t g1)))"
    using listings(4) [OF assms(1), of C t g1] score n(1) by fastforce
  obtain ns g' where l: "reg_ListNodes K C t g1 = (Some ns, g')" "rg_redis g' = rg_redis g1" "rg_prefix g' = rg_prefix g1"
      "set ns = {n. \<exists>ident \<in> dom (zset_at t (view (rg_redis g1)) (getActiveNodesKey g1)). stored_node C view t g1 ident = Some n}"
    using listings(1) [OF assms(1), of C t g1] by blast
  have "n \<in> set ns" using score n(1) by (auto simp: l(4))
  moreover have "node_dead t n" using assms(5) n(3) by (simp add: node_dead_def)
  ultimately have dead: "\<exists>n \<in> set ns. ri_ID n = ?id \<and> node_dead t n" using n(2) by blast
  obtain g2 where g2: "CheckAndCleanDeadNodes K C t g1 = (True, g2)" "g2 = clean_dead K C t ns g'"
    by (simp add: CheckAndCleanDeadNodes_def l(1))
  have "rg_prefix g2 = rg_prefix g'" "kv_str (view (rg_redis g2)) (getNodeKey g' ?id) = None"
    using clean_fold [OF assms(1), where now = t and C = C and ns = ns and g = g' and ident = ?id] dead by (simp_all add: g2(2))
  then have "stored_node C view t g2 ?id = None" by (simp add: stored_node_def live_def reg_keys)
  then have "fst (reg_GetNode K C t ?id g2) = None" by (simp add: reg_GetNode_stored(1) [OF assms(1)])
  then show ?thesis using 1 n(2) by (auto simp: up g2(1))
qed

section \<open>Statistics\<close>

definition metric_of :: "(reg_metrics \<Rightarrow> int) \<Rightarrow> reg_node \<Rightarrow> int" where
  "metric_of f n = (case ri_Metrics n of None \<Rightarrow> 0 | Some m \<Rightarrow> f m)"

lemma stats_sums:
  shows "cs_TotalWorkers (fold (add_node F) ns s) = cs_TotalWorkers s + (\<Sum>n\<leftarrow>ns. ri_MaxWorkers n)"
    and "cs_ActiveWorkers (fold (add_node F) ns s) = cs_ActiveWorkers s + (\<Sum>n\<leftarrow>ns. ri_ActiveWorkers n)"
    and "cs_TasksProcessed (fold (add_node F) ns s) = cs_TasksProcessed s + (\<Sum>n\<leftarrow>ns. ri_TasksProcessed n)"
    and "cs_TasksFailed (fold (add_node F) ns s) = cs_TasksFailed s + (\<Sum>n\<leftarrow>ns. ri_TasksFailed n)"
    and "cs_TasksQueued (fold (add_node F) ns s) = cs_TasksQueued s + (\<Sum>n\<leftarrow>ns. metric_of rm_TasksInQueue n)"
    and "cs_URLsTotal (fold (add_node F) ns s) = cs_URLsTotal s + (\<Sum>n\<leftarrow>ns. metric_of rm_URLsDiscovered n)"
    and "cs_TotalNodes (fold (add_node F) ns s) = cs_TotalNodes s"
    and "cs_ActiveNodes (fold (add_node F) ns s) = cs_ActiveNodes s + int (length (filter (\<lambda>n. ri_Status n = ''active'') ns))"
  by (induction ns arbitrary: s)
    (simp_all add: metric_of_def add_node_def add_metrics_def Let_def split: option.split)

text \<open>A heartbeat carries no metrics, so the totals taken from them never leave what the nodes registered with.\<close>

lemma beat_keeps_metrics: "ri_Metrics (beat now h n) = ri_Metrics n" "ri_Metrics (node_from_heartbeat now h) = None"
  by (simp_all add: beat_def node_from_heartbeat_def)

section \<open>An instance in memory\<close>

record 'v mem_keys =
  mk_str :: "string \<rightharpoonup> 'v \<times> gotime option"
  mk_zset :: "string \<rightharpoonup> (string \<times> int) list \<times> gotime option"
  mk_set :: "string \<rightharpoonup> string list \<times> gotime option"

definition mem_view :: "'v mem_keys \<Rightarrow> 'v ks_view" where
  "mem_view r = \<lparr>kv_str = mk_str r, kv_zset = (\<lambda>k. map_option (\<lambda>(z, e). (map_of z, e)) (mk_zset r k)),
     kv_set = (\<lambda>k. map_option (\<lambda>(s, e). (set s, e)) (mk_set r k))\<rparr>"

definition members :: "gotime \<Rightarrow> ('a list \<times> gotime option) option \<Rightarrow> 'a list" where
  "members now c = (case live now c of None \<Rightarrow> [] | Some xs \<Rightarrow> xs)"

definition mem_keyspace :: "('v mem_keys, 'v) keyspace" where
  "mem_keyspace = \<lparr>
     ks_Set = (\<lambda>now k v d r. (True, r\<lparr>mk_str := (mk_str r)(k \<mapsto> (v, Some (now + d)))\<rparr>)),
     ks_Get = (\<lambda>now k r. live now (mk_str r k)),
     ks_Del = (\<lambda>k r. \<lparr>mk_str = (mk_str r)(k := None), mk_zset = (mk_zset r)(k := None), mk_set = (mk_set r)(k := None)\<rparr>),
     ks_ZAdd = (\<lambda>now k s m r. (True, r\<lparr>mk_zset := (mk_zset r)(k := modify now [] (\<lambda>z. (m, s) # z) (mk_zset r k))\<rparr>)),
     ks_ZRem = (\<lambda>now k m r. r\<lparr>mk_zset := (mk_zset r)(k := lessen now (filter (\<lambda>p. fst p \<noteq> m)) (\<lambda>z. z = []) (mk_zset r k))\<rparr>),
     ks_ZRange = (\<lambda>now k r. Some (remdups (map fst (members now (mk_zset r k))))),
     ks_ZRangeByScore = (\<lambda>now k lo r. Some (let z = members now (mk_zset r k) in
        filter (\<lambda>m. case map_of z m of None \<Rightarrow> False | Some s \<Rightarrow> lo \<le> s) (remdups (map fst z)))),
     ks_SAdd = (\<lambda>now k m r. r\<lparr>mk_set := (mk_set r)(k := modify now [] (\<lambda>s. m # s) (mk_set r k))\<rparr>),
     ks_SRem = (\<lambda>now k m r. r\<lparr>mk_set := (mk_set r)(k := lessen now (removeAll m) (\<lambda>s. s = []) (mk_set r k))\<rparr>),
     ks_SMembers = (\<lambda>now k r. Some (remdups (members now (mk_set r k)))),
     ks_Expire = (\<lambda>now k d r. \<lparr>mk_str = (mk_str r)(k := expire now d (mk_str r k)), mk_zset = (mk_zset r)(k := expire now d (mk_zset r k)),
        mk_set = (mk_set r)(k := expire now d (mk_set r k))\<rparr>),
     ks_Publish = (\<lambda>_ _ r. r)\<rparr>"

definition keyed :: "('a \<Rightarrow> 'b) \<Rightarrow> ('a \<times> gotime option) option \<Rightarrow> ('b \<times> gotime option) option" where
  "keyed h c = map_option (\<lambda>(v, e). (h v, e)) c"

lemma keyed_simps:
  "live now (keyed h c) = map_option h (live now c)"
  "(\<And>v. h (f v) = f' (h v)) \<Longrightarrow> h v0 = v0' \<Longrightarrow> keyed h (modify now v0 f c) = modify now v0' f' (keyed h c)"
  "keyed h (expire now d c) = expire now d (keyed h c)"
  by (auto simp: keyed_def live_def modify_def lessen_def expire_def split: option.splits)

lemma keyed_lessen:
  "(\<And>v. h (f v) = f' (h v)) \<Longrightarrow> (\<And>v. gone' (h v) = gone v) \<Longrightarrow> keyed h (lessen now f gone c) = lessen now f' gone' (keyed h c)"
  by (auto simp: keyed_def live_def lessen_def split: option.splits) metis+

lemma map_of_without: "map_of (filter (\<lambda>p. fst p \<noteq> m) z) = (map_of z)(m := None)"
  by (induction z) auto

lemma map_of_empty: "map_of z = Map.empty \<longleftrightarrow> z = []"
  by (cases z) (auto simp: fun_eq_iff split: if_splits)

lemma mem_view_keyed: "mem_view r = \<lparr>kv_str = mk_str r, kv_zset = (\<lambda>k. keyed map_of (mk_zset r k)), kv_set = (\<lambda>k. keyed set (mk_set r k))\<rparr>"
  by (simp add: mem_view_def keyed_def)

lemma mem_members: "set_at now (mem_view r) k = set (members now (mk_set r k))"
  "zset_at now (mem_view r) k = map_of (members now (mk_zset r k))"
  by (simp_all add: set_at_def zset_at_def mem_view_keyed keyed_simps(1) members_def split: option.split)

lemma mem_keyspace_answers: "answering mem_keyspace mem_view"
proof -
  have z: "keyed map_of (modify now [] (\<lambda>z. (m, s) # z) c) = modify now Map.empty (\<lambda>z. z(m \<mapsto> s)) (keyed map_of c)" for now m s and c :: "((string \<times> int) list \<times> gotime option) option"
    by (rule keyed_simps(2)) simp_all
  have zr: "keyed map_of (lessen now (filter (\<lambda>p. fst p \<noteq> m)) (\<lambda>z. z = []) c) = lessen now (\<lambda>z. z(m := None)) (\<lambda>z. dom z = {}) (keyed map_of c)" for now m and c :: "((string \<times> int) list \<times> gotime option) option"
    by (rule keyed_lessen) (simp_all add: map_of_without map_of_empty)
  have s: "keyed set (modify now [] (\<lambda>s. m # s) c) = modify now {} (insert m) (keyed set c)" for now m and c :: "(string list \<times> gotime option) option"
    by (rule keyed_simps(2)) simp_all
  have sr: "keyed set (lessen now (removeAll m) (\<lambda>s. s = []) c) = lessen now (\<lambda>s. s - {m}) (\<lambda>s. s = {}) (keyed set c)" for now m and c :: "(string list \<times> gotime option) option"
    by (rule keyed_lessen) simp_all
  have ranges: "\<exists>ms. ks_ZRange mem_keyspace now k r = Some ms \<and> distinct ms \<and> set ms = dom (zset_at now (mem_view r) k)"
    "\<exists>ms. ks_ZRangeByScore mem_keyspace now k lo r = Some ms \<and> distinct ms \<and> set ms = {m. \<exists>s. zset_at now (mem_view r) k m = Some s \<and> lo \<le> s}"
    "\<exists>ms. ks_SMembers mem_keyspace now k r = Some ms \<and> distinct ms \<and> set ms = set_at now (mem_view r) k" for now k lo and r :: "'v mem_keys"
    by (auto simp: mem_keyspace_def mem_members dom_map_of_conv_image_fst Let_def split: option.splits)
      (force dest: map_of_SomeD simp: image_iff)+
  have "live now (mk_str r k) = live now (kv_str (mem_view r) k)" for now k and r :: "'v mem_keys" by (simp add: mem_view_def)
  moreover have upd: "kv_str (mem_view r) = mk_str r" "kv_zset (mem_view r) = (\<lambda>k. keyed map_of (mk_zset r k))"
      "kv_set (mem_view r) = (\<lambda>k. keyed set (mk_set r k))" for r :: "'v mem_keys"
    by (simp_all add: mem_view_keyed)
  have keyed_None: "keyed h None = None" for h :: "'x \<Rightarrow> 'y" by (simp add: keyed_def)
  show ?thesis unfolding answering_def
  proof (intro conjI allI ranges)
  qed (simp_all add: mem_keyspace_def upd, auto simp: mem_view_keyed z zr s sr keyed_simps keyed_None fun_eq_iff)
qed


text \<open>Texts that are read back as what was written, and a node with one capability.\<close>

datatype reg_wire = WireNode reg_node | WireBeat reg_heartbeat | WireEvent string string gotime

definition mem_codec :: "reg_wire reg_codec" where
  "mem_codec = \<lparr>rc_node = (\<lambda>n. Some (WireNode n)), rc_read = (\<lambda>w. case w of WireNode n \<Rightarrow> Some n | _ \<Rightarrow> None),
     rc_heartbeat = (\<lambda>h. Some (WireBeat h)), rc_event = WireEvent\<rparr>"

definition sample_registry :: "(reg_wire mem_keys) registry" where
  "sample_registry = NewRegistry \<lparr>mk_str = Map.empty, mk_zset = Map.empty, mk_set = Map.empty\<rparr> ''crawler''"

definition sample_beat :: "gotime \<Rightarrow> reg_heartbeat" where
  "sample_beat ts = \<lparr>rh_NodeID = ''n1'', rh_Status = ''active'', rh_ActiveWorkers = 1, rh_MaxWorkers = 4, rh_TasksProcessed = 7,
     rh_TasksFailed = 0, rh_CPUUsage = 0, rh_MemoryUsage = 0, rh_Timestamp = ts\<rparr>"

definition sample_reg_node :: reg_node where
  "sample_reg_node = (node_from_heartbeat 0 (sample_beat 0))\<lparr>ri_Hostname := ''host'', ri_Capabilities := [''lua'']\<rparr>"

lemma mem_codec_faithful: "faithful mem_codec"
  by (simp add: faithful_def mem_codec_def)

lemma sample_registry_simps:
  "lasting mem_view sample_registry" "ri_ID sample_reg_node = ''n1''" "ri_Capabilities sample_reg_node = [''lua'']" "ri_Tags sample_reg_node = []"
  "rh_NodeID (sample_beat ts) = ''n1''" "rh_Timestamp (sample_beat ts) = ts" "stored_node mem_codec mem_view t sample_registry x = None"
  by (simp_all add: lasting_def sample_registry_def NewRegistry_def mem_view_def sample_reg_node_def sample_beat_def node_from_heartbeat_def
      stored_node_def live_def)

lemma registered_found_witness:
  "fst (reg_GetNode mem_keyspace mem_codec minute ''n1'' (snd (reg_RegisterNode mem_keyspace mem_codec 0 sample_reg_node sample_registry))) =
     Some (registered 0 sample_reg_node) \<and>
   registered 0 sample_reg_node \<in> set (the (fst (ListNodesByCapability mem_keyspace mem_codec minute ''lua''
     (snd (reg_RegisterNode mem_keyspace mem_codec 0 sample_reg_node sample_registry)))))"
  using registered_found [OF mem_keyspace_answers mem_codec_faithful sample_registry_simps(1), of 0 minute sample_reg_node]
  by (simp add: sample_registry_simps split_def)

lemma beating_node_not_found_by_capability_witness:
  "\<exists>g'. (\<exists>n \<in> set (the (fst (GetHealthyNodes mem_keyspace mem_codec (hour + minute) g'))). ri_ID n = ''n1'' \<and> ''lua'' \<in> set (ri_Capabilities n)) \<and>
    fst (ListNodesByCapability mem_keyspace mem_codec (hour + minute) ''lua'' g') = Some []"
proof -
  let ?hs = "[(30 * minute, sample_beat (30 * minute)), (hour + minute, sample_beat (hour + minute))]"
  have "steady (ri_ID sample_reg_node) 0 ?hs" "last_beat 0 ?hs = hour + minute"
    by (simp_all add: sample_registry_simps last_beat_def)
  then show ?thesis
    using beating_node_not_found_by_capability [OF mem_keyspace_answers mem_codec_faithful sample_registry_simps(1), of sample_reg_node 0 ?hs "hour + minute" "''lua''"]
    unfolding Let_def by (simp only: sample_registry_simps) (simp, blast)
qed

lemma sample_known:
  "known_node mem_keyspace mem_codec 1 ''n1'' (snd (reg_RegisterNode mem_keyspace mem_codec 0 sample_reg_node sample_registry)) =
    Some (registered 0 sample_reg_node)"
  by (simp add: reg_RegisterNode_def known_node_def mem_keyspace_def mem_codec_def notify_def sample_registry_simps Let_def registered_def)

lemma late_heartbeat_revives_witness:
  "let g = snd (reg_RegisterNode mem_keyspace mem_codec 0 sample_reg_node sample_registry);
       g1 = reg_UnregisterNode mem_keyspace mem_codec 1 ''n1'' g; g2 = snd (UpdateHeartbeat mem_keyspace mem_codec 2 (sample_beat 2) g1) in
    fst (reg_GetNode mem_keyspace mem_codec 2 ''n1'' g1) = None \<and>
    fst (reg_GetNode mem_keyspace mem_codec 3 ''n1'' g2) = Some (node_from_heartbeat 2 (sample_beat 2))"
proof -
  define g where "g = snd (reg_RegisterNode mem_keyspace mem_codec 0 sample_reg_node sample_registry)"
  have "lasting mem_view g"
    using RegisterNode_view [OF mem_keyspace_answers mem_codec_faithful sample_registry_simps(1), of 0 sample_reg_node] unfolding g_def
    by (metis prod.collapse)
  from late_heartbeat_revives [OF mem_keyspace_answers mem_codec_faithful this sample_known [folded g_def] sample_registry_simps(5), of 2 3 2]
  show ?thesis unfolding g_def [symmetric] Let_def by simp
qed

lemma lagging_clock_evicted_witness:
  "let g1 = snd (UpdateHeartbeat mem_keyspace mem_codec (5 * minute) (sample_beat minute) sample_registry);
       (ok, g2) = CheckAndCleanDeadNodes mem_keyspace mem_codec (5 * minute) g1 in
    (\<exists>n \<in> set (the (fst (GetHealthyNodes mem_keyspace mem_codec (5 * minute) g1))). ri_ID n = ''n1'') \<and> ok \<and>
    fst (reg_GetNode mem_keyspace mem_codec (5 * minute) ''n1'' g2) = None"
proof -
  have "case stored_node mem_codec mem_view (5 * minute) sample_registry (rh_NodeID (sample_beat minute)) of
      None \<Rightarrow> True | Some n \<Rightarrow> ri_ID n = rh_NodeID (sample_beat minute)"
    unfolding sample_registry_simps by simp
  from lagging_clock_evicted [OF mem_keyspace_answers mem_codec_faithful sample_registry_simps(1) this, of "5 * minute"]
  show ?thesis unfolding sample_registry_simps by simp
qed

end
