(* ===== verification/CronScheduler.thy ===== *)
theory CronScheduler
  imports Dispatcher
begin

text \<open>
  The in-process scheduler that feeds the dispatcher (src/crawler/task/scheduler.go): schedules by cron
  expression, interval, instant or event.  The cron library is its table of entries and its two parsers;
  goroutines the code starts are the lists of schedules they execute.
\<close>

section \<open>Schedules\<close>

datatype schedule_meta = CronEntryID nat | MetaValue goval

record schedule =
  sch_ID :: string
  sch_Name :: string
  sch_Type :: string
  sch_Expression :: string
  sch_Template :: "task option"
  sch_Enabled :: bool
  sch_LastRun :: "gotime option"
  sch_NextRun :: "gotime option"
  sch_RunCount :: int
  sch_MaxRuns :: int
  sch_Metadata :: "(string \<rightharpoonup> schedule_meta) option"
  sch_CreatedAt :: gotime
  sch_UpdatedAt :: gotime

record trigger_event =
  te_Type :: string
  te_Source :: string
  te_Data :: "(string \<rightharpoonup> goval) option"
  te_Timestamp :: gotime

text \<open>
  \<open>standard\<close> is \<open>cron.ParseStandard\<close> with the next instant, \<open>accepts\<close> the parser of the cron object, which
  wants seconds; then \<open>ParseDuration\<close>, its inverse, and \<open>time.Parse\<close> and \<open>Format\<close> in RFC 3339.
\<close>

record cron_lib =
  cl_standard :: "string \<rightharpoonup> (gotime \<Rightarrow> gotime)"
  cl_accepts :: "string \<Rightarrow> bool"
  cl_duration :: "string \<rightharpoonup> duration"
  cl_show :: "duration \<Rightarrow> string"
  cl_rfc3339 :: "string \<Rightarrow> bool"
  cl_format :: "gotime \<Rightarrow> string"

record cron_sched =
  cr_schedules :: "string \<rightharpoonup> schedule"
  cr_entries :: "nat \<rightharpoonup> string"
  cr_nextEntry :: nat
  cr_dispatcher :: dispatcher
  cr_events :: "trigger_event list"
  cr_stopClosed :: bool
  cr_totalRuns :: int
  cr_failedRuns :: int

definition NewScheduler :: "dispatcher \<Rightarrow> cron_sched" where
  "NewScheduler d = \<lparr>cr_schedules = Map.empty, cr_entries = Map.empty, cr_nextEntry = 1, cr_dispatcher = d, cr_events = [],
     cr_stopClosed = False, cr_totalRuns = 0, cr_failedRuns = 0\<rparr>"

definition validateSchedule :: "cron_lib \<Rightarrow> schedule \<Rightarrow> string option" where
  "validateSchedule L s =
     (if sch_ID s = [] then Some ''schedule ID is required''
      else if sch_Name s = [] then Some ''schedule name is required''
      else if sch_Template s = None then Some ''task template is required''
      else if sch_Type s = ''cron'' then (if cl_standard L (sch_Expression s) = None then Some ''invalid cron expression'' else None)
      else if sch_Type s = ''interval'' then (if cl_duration L (sch_Expression s) = None then Some ''invalid interval expression'' else None)
      else if sch_Type s = ''once'' then (if \<not> cl_rfc3339 L (sch_Expression s) then Some ''invalid time expression'' else None)
      else if sch_Type s = ''event'' then (if sch_Expression s = [] then Some ''event type is required'' else None)
      else Some (''unknown schedule type: '' @ sch_Type s))"

definition cron_nextRun :: "cron_lib \<Rightarrow> gotime \<Rightarrow> string \<Rightarrow> gotime option" where
  "cron_nextRun L now e = map_option (\<lambda>next. next now) (cl_standard L e)"

text \<open>The library's AddFunc for the closure that executes a schedule.\<close>

definition cron_AddFunc :: "cron_lib \<Rightarrow> string \<Rightarrow> string \<Rightarrow> cron_sched \<Rightarrow> nat option \<times> cron_sched" where
  "cron_AddFunc L e ident c =
     (if cl_accepts L e then (Some (cr_nextEntry c), c\<lparr>cr_entries := (cr_entries c)(cr_nextEntry c \<mapsto> ident), cr_nextEntry := cr_nextEntry c + 1\<rparr>)
      else (None, c))"

text \<open>Writing to a nil map panics.\<close>

datatype 's cron_outcome = Done 's | Failed string 's | NilMapPanic

definition note_entry :: "nat \<Rightarrow> schedule \<Rightarrow> schedule option" where
  "note_entry i s = map_option (\<lambda>m. s\<lparr>sch_Metadata := Some (m(''cron_entry_id'' \<mapsto> CronEntryID i))\<rparr>) (sch_Metadata s)"

definition put_schedule :: "schedule \<Rightarrow> cron_sched \<Rightarrow> cron_sched" where
  "put_schedule s c = c\<lparr>cr_schedules := (cr_schedules c)(sch_ID s \<mapsto> s)\<rparr>"

definition AddSchedule :: "cron_lib \<Rightarrow> gotime \<Rightarrow> schedule \<Rightarrow> cron_sched \<Rightarrow> cron_sched cron_outcome" where
  "AddSchedule L now s c =
     (case validateSchedule L s of
        Some e \<Rightarrow> Failed (''invalid schedule: '' @ e) c
      | None \<Rightarrow>
          (let s1 = s\<lparr>sch_CreatedAt := now, sch_UpdatedAt := now\<rparr>;
               s2 = (if sch_Type s1 = ''cron'' then s1\<lparr>sch_NextRun := cron_nextRun L now (sch_Expression s1)\<rparr> else s1)
           in if sch_Type s2 = ''cron'' \<and> sch_Enabled s2
              then (case cron_AddFunc L (sch_Expression s2) (sch_ID s2) c of
                      (None, c1) \<Rightarrow> Failed ''failed to add cron job'' c1
                    | (Some i, c1) \<Rightarrow> (case note_entry i s2 of None \<Rightarrow> NilMapPanic | Some s3 \<Rightarrow> Done (put_schedule s3 c1)))
              else Done (put_schedule s2 c)))"

definition entry_of :: "schedule \<Rightarrow> nat option" where
  "entry_of s = (case sch_Metadata s of
      None \<Rightarrow> None
    | Some m \<Rightarrow> (case m ''cron_entry_id'' of Some (CronEntryID i) \<Rightarrow> Some i | _ \<Rightarrow> None))"

definition cron_Remove :: "nat option \<Rightarrow> cron_sched \<Rightarrow> cron_sched" where
  "cron_Remove i c = (case i of None \<Rightarrow> c | Some e \<Rightarrow> c\<lparr>cr_entries := (cr_entries c)(e := None)\<rparr>)"

definition no_schedule :: "string \<Rightarrow> string" where
  "no_schedule ident = ''schedule not found: '' @ ident"

definition RemoveSchedule :: "string \<Rightarrow> cron_sched \<Rightarrow> cron_sched cron_outcome" where
  "RemoveSchedule ident c = (case cr_schedules c ident of
      None \<Rightarrow> Failed (no_schedule ident) c
    | Some s \<Rightarrow> (let c1 = cron_Remove (entry_of s) c in Done (c1\<lparr>cr_schedules := (cr_schedules c1)(ident := None)\<rparr>)))"

definition EnableSchedule :: "cron_lib \<Rightarrow> gotime \<Rightarrow> string \<Rightarrow> cron_sched \<Rightarrow> cron_sched cron_outcome" where
  "EnableSchedule L now ident c = (case cr_schedules c ident of
      None \<Rightarrow> Failed (no_schedule ident) c
    | Some s \<Rightarrow>
        if sch_Enabled s then Done c
        else
          (let s1 = s\<lparr>sch_Enabled := True, sch_UpdatedAt := now\<rparr>; c1 = c\<lparr>cr_schedules := (cr_schedules c)(ident \<mapsto> s1)\<rparr>
           in if sch_Type s1 \<noteq> ''cron'' then Done c1
              else (case cron_AddFunc L (sch_Expression s1) (sch_ID s1) c1 of
                      (None, c2) \<Rightarrow> Failed ''cron'' c2
                    | (Some i, c2) \<Rightarrow> (case note_entry i s1 of
                          None \<Rightarrow> NilMapPanic
                        | Some s2 \<Rightarrow> Done (c2\<lparr>cr_schedules := (cr_schedules c2)(ident \<mapsto> s2)\<rparr>)))))"

definition DisableSchedule :: "gotime \<Rightarrow> string \<Rightarrow> cron_sched \<Rightarrow> cron_sched cron_outcome" where
  "DisableSchedule now ident c = (case cr_schedules c ident of
      None \<Rightarrow> Failed (no_schedule ident) c
    | Some s \<Rightarrow>
        if \<not> sch_Enabled s then Done c
        else
          (let s1 = s\<lparr>sch_Enabled := False, sch_UpdatedAt := now\<rparr>;
               s2 = (if entry_of s = None then s1 else s1\<lparr>sch_Metadata := map_option (\<lambda>m. m(''cron_entry_id'' := None)) (sch_Metadata s1)\<rparr>);
               c1 = cron_Remove (entry_of s) c
           in Done (c1\<lparr>cr_schedules := (cr_schedules c1)(ident \<mapsto> s2)\<rparr>)))"

section \<open>Execution\<close>

text \<open>
  The submission, with the copy \<open>clone\<close> makes of the template at a fresh reference, and the update of the
  schedule are two critical sections; the tests before them are a third.
\<close>

definition scheduled_task :: "(task \<Rightarrow> task) \<Rightarrow> gotime \<Rightarrow> schedule \<Rightarrow> task" where
  "scheduled_task clone now s = SetMetadata ''scheduled_at'' (GTime now) (SetMetadata ''schedule_name'' (GStr (sch_Name s))
     (SetMetadata ''schedule_id'' (GStr (sch_ID s)) (clone (case sch_Template s of None \<Rightarrow> zero_task | Some t \<Rightarrow> t))))"

datatype exec_check = NotFound | Skip | AtMaxRuns | Go schedule

definition exec_begin :: "string \<Rightarrow> cron_sched \<Rightarrow> exec_check" where
  "exec_begin ident c = (case cr_schedules c ident of
      None \<Rightarrow> NotFound
    | Some s \<Rightarrow> if \<not> sch_Enabled s then Skip else if sch_MaxRuns s > 0 \<and> sch_RunCount s \<ge> sch_MaxRuns s then AtMaxRuns else Go s)"

definition exec_submit :: "(task \<Rightarrow> task) \<Rightarrow> gotime \<Rightarrow> tref \<Rightarrow> schedule \<Rightarrow> cron_sched \<Rightarrow> bool \<times> cron_sched" where
  "exec_submit clone now r s c =
     (let d = cr_dispatcher c; d1 = d\<lparr>d_store := (d_store d)(r := scheduled_task clone now s)\<rparr>
      in case Submit now now r d1 of
           (d2, Some _) \<Rightarrow> (False, c\<lparr>cr_dispatcher := d2, cr_failedRuns := cr_failedRuns c + 1\<rparr>)
         | (d2, None) \<Rightarrow> (True, c\<lparr>cr_dispatcher := d2\<rparr>))"

text \<open>The schedule is updated through its pointer, wherever the table has it by now.\<close>

definition after_run :: "cron_lib \<Rightarrow> gotime \<Rightarrow> schedule \<Rightarrow> schedule" where
  "after_run L now s =
     (let s1 = s\<lparr>sch_LastRun := Some now, sch_RunCount := sch_RunCount s + 1, sch_UpdatedAt := now\<rparr>
      in if sch_Type s1 = ''cron'' then (case cron_nextRun L now (sch_Expression s1) of None \<Rightarrow> s1 | Some t \<Rightarrow> s1\<lparr>sch_NextRun := Some t\<rparr>) else s1)"

definition exec_end :: "cron_lib \<Rightarrow> gotime \<Rightarrow> string \<Rightarrow> cron_sched \<Rightarrow> cron_sched" where
  "exec_end L now ident c = c\<lparr>cr_schedules := (cr_schedules c)(ident := map_option (after_run L now) (cr_schedules c ident)),
     cr_totalRuns := cr_totalRuns c + 1\<rparr>"

definition executeSchedule :: "cron_lib \<Rightarrow> (task \<Rightarrow> task) \<Rightarrow> gotime \<Rightarrow> tref \<Rightarrow> string \<Rightarrow> cron_sched \<Rightarrow> cron_sched cron_outcome" where
  "executeSchedule L clone now r ident c =
     (case exec_begin ident c of
        NotFound \<Rightarrow> Failed (no_schedule ident) c
      | Skip \<Rightarrow> Done c
      | AtMaxRuns \<Rightarrow> (case DisableSchedule now ident c of Done c1 \<Rightarrow> Done c1 | Failed _ c1 \<Rightarrow> Done c1 | NilMapPanic \<Rightarrow> NilMapPanic)
      | Go s \<Rightarrow> (case exec_submit clone now r s c of
            (False, c1) \<Rightarrow> Failed ''submit'' c1
          | (True, c1) \<Rightarrow> Done (exec_end L now ident c1)))"

definition TriggerSchedule :: "cron_lib \<Rightarrow> (task \<Rightarrow> task) \<Rightarrow> gotime \<Rightarrow> tref \<Rightarrow> string \<Rightarrow> cron_sched \<Rightarrow> cron_sched cron_outcome" where
  "TriggerSchedule = executeSchedule"

section \<open>Events, intervals, starting\<close>

definition TriggerEvent :: "trigger_event \<Rightarrow> cron_sched \<Rightarrow> cron_sched" where
  "TriggerEvent e c = (if length (cr_events c) < 100 then c\<lparr>cr_events := cr_events c @ [e]\<rparr> else c)"

definition matchesEventTrigger :: "schedule \<Rightarrow> trigger_event \<Rightarrow> bool" where
  "matchesEventTrigger s e = (sch_Expression s \<noteq> [] \<and> sch_Expression s = te_Type e)"

text \<open>\<open>ks\<close> is the order in which the loops visit the schedules; the results are the goroutines started.\<close>

definition handleEvent_cron :: "string list \<Rightarrow> trigger_event \<Rightarrow> cron_sched \<Rightarrow> string list" where
  "handleEvent_cron ks e c = map sch_ID (filter (\<lambda>s. sch_Type s = ''event'' \<and> sch_Enabled s \<and> matchesEventTrigger s e) (values_of ks (cr_schedules c)))"

definition processEvent :: "string list \<Rightarrow> cron_sched \<Rightarrow> string list \<times> cron_sched" where
  "processEvent ks c = (case cr_events c of [] \<Rightarrow> ([], c) | e # es \<Rightarrow> (handleEvent_cron ks e c, c\<lparr>cr_events := es\<rparr>))"

definition interval_due :: "gotime \<Rightarrow> schedule \<Rightarrow> bool" where
  "interval_due now s = (case sch_NextRun s of None \<Rightarrow> False | Some t \<Rightarrow> now > t)"

definition interval_next :: "cron_lib \<Rightarrow> gotime \<Rightarrow> schedule \<Rightarrow> schedule" where
  "interval_next L now s = (case cl_duration L (sch_Expression s) of None \<Rightarrow> s | Some d \<Rightarrow> s\<lparr>sch_NextRun := Some (now + d)\<rparr>)"

fun check_intervals :: "cron_lib \<Rightarrow> gotime \<Rightarrow> string list \<Rightarrow> cron_sched \<Rightarrow> string list \<times> cron_sched" where
  "check_intervals L now [] c = ([], c)"
| "check_intervals L now (k # ks) c =
     (case cr_schedules c k of
        None \<Rightarrow> check_intervals L now ks c
      | Some s \<Rightarrow>
          if sch_Type s = ''interval'' \<and> sch_Enabled s \<and> interval_due now s
          then (case check_intervals L now ks (c\<lparr>cr_schedules := (cr_schedules c)(k \<mapsto> interval_next L now s)\<rparr>) of
                  (ids, c1) \<Rightarrow> (sch_ID s # ids, c1))
          else check_intervals L now ks c)"

definition checkIntervalSchedules :: "cron_lib \<Rightarrow> gotime \<Rightarrow> string list \<Rightarrow> cron_sched \<Rightarrow> string list \<times> cron_sched" where
  "checkIntervalSchedules L now ks c = check_intervals L now ks c"

definition reloadSchedules :: "cron_lib \<Rightarrow> string list \<Rightarrow> cron_sched \<Rightarrow> cron_sched" where
  "reloadSchedules L ks c =
     fold (\<lambda>s c. if sch_Type s = ''cron'' \<and> sch_Enabled s then snd (cron_AddFunc L (sch_Expression s) (sch_ID s) c) else c)
       (values_of ks (cr_schedules c)) c"

definition sched_Start :: "cron_lib \<Rightarrow> string list \<Rightarrow> cron_sched \<Rightarrow> cron_sched" where
  "sched_Start L ks c = reloadSchedules L ks c"

definition sched_Stop :: "cron_sched \<Rightarrow> cron_sched option" where
  "sched_Stop c = (if cr_stopClosed c then None else Some (c\<lparr>cr_stopClosed := True\<rparr>))"

definition GetSchedule :: "string \<Rightarrow> cron_sched \<Rightarrow> string + schedule" where
  "GetSchedule ident c = (case cr_schedules c ident of None \<Rightarrow> Inl (no_schedule ident) | Some s \<Rightarrow> Inr s)"

definition ListSchedules :: "string list \<Rightarrow> cron_sched \<Rightarrow> schedule list" where
  "ListSchedules ks c = values_of ks (cr_schedules c)"

record sched_stats =
  sst_total :: nat
  sst_enabled :: nat
  sst_disabled :: nat
  sst_by_type :: "string \<Rightarrow> nat"
  sst_total_runs :: int
  sst_failed_runs :: int

definition sched_GetStats :: "string list \<Rightarrow> cron_sched \<Rightarrow> sched_stats" where
  "sched_GetStats ks c =
     (let ss = values_of ks (cr_schedules c); en = length (filter sch_Enabled ss)
      in \<lparr>sst_total = length ss, sst_enabled = en, sst_disabled = length ss - en,
          sst_by_type = (\<lambda>ty. length (filter (\<lambda>s. sch_Type s = ty) ss)), sst_total_runs = cr_totalRuns c, sst_failed_runs = cr_failedRuns c\<rparr>)"

section \<open>The builder\<close>

definition NewScheduleBuilder :: "string \<Rightarrow> schedule" where
  "NewScheduleBuilder nm = \<lparr>sch_ID = nm, sch_Name = nm, sch_Type = [], sch_Expression = [], sch_Template = None, sch_Enabled = True,
     sch_LastRun = None, sch_NextRun = None, sch_RunCount = 0, sch_MaxRuns = 0, sch_Metadata = Some Map.empty,
     sch_CreatedAt = time_zero, sch_UpdatedAt = time_zero\<rparr>"

definition WithCron :: "string \<Rightarrow> schedule \<Rightarrow> schedule" where
  "WithCron e s = s\<lparr>sch_Type := ''cron'', sch_Expression := e\<rparr>"

definition WithInterval :: "cron_lib \<Rightarrow> duration \<Rightarrow> schedule \<Rightarrow> schedule" where
  "WithInterval L d s = s\<lparr>sch_Type := ''interval'', sch_Expression := cl_show L d\<rparr>"

definition WithOnce :: "cron_lib \<Rightarrow> gotime \<Rightarrow> schedule \<Rightarrow> schedule" where
  "WithOnce L t s = s\<lparr>sch_Type := ''once'', sch_Expression := cl_format L t, sch_NextRun := Some t\<rparr>"

definition WithEvent :: "string \<Rightarrow> schedule \<Rightarrow> schedule" where
  "WithEvent e s = s\<lparr>sch_Type := ''event'', sch_Expression := e\<rparr>"

definition WithTask :: "task \<Rightarrow> schedule \<Rightarrow> schedule" where
  "WithTask t s = s\<lparr>sch_Template := Some t\<rparr>"

definition WithMaxRuns :: "int \<Rightarrow> schedule \<Rightarrow> schedule" where
  "WithMaxRuns n s = s\<lparr>sch_MaxRuns := n\<rparr>"


section \<open>Runs\<close>

datatype cron_event =
    EvAdd gotime schedule
  | EvRemove string
  | EvEnable gotime string
  | EvDisable gotime string
  | EvExecute gotime tref string
  | EvIntervals gotime "string list"
  | EvTrigger trigger_event
  | EvProcess "string list"
  | EvFire nat
  | EvStart "string list"

text \<open>The state an operation leaves; after a panic there is no process left, which is no change.\<close>

definition left_by :: "cron_sched \<Rightarrow> cron_sched cron_outcome \<Rightarrow> cron_sched" where
  "left_by c out = (case out of Done c1 \<Rightarrow> c1 | Failed _ c1 \<Rightarrow> c1 | NilMapPanic \<Rightarrow> c)"

fun cron_step :: "cron_lib \<Rightarrow> (task \<Rightarrow> task) \<Rightarrow> cron_event \<Rightarrow> cron_sched \<Rightarrow> cron_sched" where
  "cron_step L clone (EvAdd now s) c = left_by c (AddSchedule L now (s\<lparr>sch_RunCount := 0\<rparr>) c)"
| "cron_step L clone (EvRemove ident) c = left_by c (RemoveSchedule ident c)"
| "cron_step L clone (EvEnable now ident) c = left_by c (EnableSchedule L now ident c)"
| "cron_step L clone (EvDisable now ident) c = left_by c (DisableSchedule now ident c)"
| "cron_step L clone (EvExecute now r ident) c = left_by c (executeSchedule L clone now r ident c)"
| "cron_step L clone (EvIntervals now ks) c = snd (checkIntervalSchedules L now ks c)"
| "cron_step L clone (EvTrigger e) c = TriggerEvent e c"
| "cron_step L clone (EvProcess ks) c = snd (processEvent ks c)"
| "cron_step L clone (EvFire i) c = c"
| "cron_step L clone (EvStart ks) c = sched_Start L ks c"

text \<open>The schedules whose execution an event starts by itself; \<open>EvFire\<close> is a cron entry that comes due.\<close>

fun started :: "cron_lib \<Rightarrow> cron_event \<Rightarrow> cron_sched \<Rightarrow> string list" where
  "started L (EvIntervals now ks) c = fst (checkIntervalSchedules L now ks c)"
| "started L (EvProcess ks) c = fst (processEvent ks c)"
| "started L (EvFire i) c = (case cr_entries c i of None \<Rightarrow> [] | Some ident \<Rightarrow> [ident])"
| "started L _ c = []"

text \<open>
  What an operation may do to the table: every schedule after it was there before or was put there by the
  operation, up to changes that a predicate survives.
\<close>

definition table_ok :: "(string \<Rightarrow> schedule \<Rightarrow> bool) \<Rightarrow> (string \<Rightarrow> bool) \<Rightarrow> cron_sched \<Rightarrow> bool" where
  "table_ok P Q c = ((\<forall>ident s. cr_schedules c ident = Some s \<longrightarrow> P ident s) \<and> (\<forall>i ident. cr_entries c i = Some ident \<longrightarrow> Q ident))"

lemma table_okD: "table_ok P Q c \<Longrightarrow> cr_schedules c ident = Some s \<Longrightarrow> P ident s"
  by (auto simp: table_ok_def)

lemma table_ok_put: "table_ok P Q c \<Longrightarrow> P ident s \<Longrightarrow> table_ok P Q (c\<lparr>cr_schedules := (cr_schedules c)(ident \<mapsto> s)\<rparr>)"
  by (auto simp: table_ok_def)

lemma table_ok_drop: "table_ok P Q c \<Longrightarrow> table_ok P Q (c\<lparr>cr_schedules := (cr_schedules c)(ident := None)\<rparr>)"
  by (auto simp: table_ok_def)

lemma table_ok_cron:
  "table_ok P Q c \<Longrightarrow> table_ok P Q (cron_Remove i c)"
  "table_ok P Q c \<Longrightarrow> Q ident \<Longrightarrow> cron_AddFunc L e ident c = (j, c1) \<Longrightarrow> table_ok P Q c1 \<and> cr_schedules c1 = cr_schedules c"
  by (auto simp: table_ok_def cron_Remove_def cron_AddFunc_def split: option.splits if_splits)

lemma table_ok_frame:
  "table_ok P Q (c\<lparr>cr_dispatcher := d\<rparr>) = table_ok P Q c" "table_ok P Q (c\<lparr>cr_failedRuns := n\<rparr>) = table_ok P Q c"
  "table_ok P Q (c\<lparr>cr_totalRuns := n\<rparr>) = table_ok P Q c" "table_ok P Q (c\<lparr>cr_events := es\<rparr>) = table_ok P Q c"
  by (simp_all add: table_ok_def)

text \<open>Predicates that the operations' changes to a schedule keep.\<close>

definition kept :: "cron_lib \<Rightarrow> (string \<Rightarrow> schedule \<Rightarrow> bool) \<Rightarrow> (string \<Rightarrow> bool) \<Rightarrow> bool" where
  "kept L P Q \<longleftrightarrow>
     (\<forall>ident s. P ident s \<longrightarrow> sch_ID s = ident \<and> (sch_Type s = ''cron'' \<longrightarrow> Q ident)) \<and>
     (\<forall>ident s b now m. P ident s \<longrightarrow> P ident (s\<lparr>sch_Enabled := b, sch_UpdatedAt := now\<rparr>) \<and> P ident (s\<lparr>sch_Metadata := m\<rparr>)) \<and>
     (\<forall>ident s now. P ident s \<longrightarrow> \<not> (sch_MaxRuns s > 0 \<and> sch_RunCount s \<ge> sch_MaxRuns s) \<longrightarrow> P ident (after_run L now s)) \<and>
     (\<forall>ident s now. P ident s \<longrightarrow> sch_Type s = ''interval'' \<longrightarrow> interval_due now s \<longrightarrow> P ident (interval_next L now s))"

lemma note_entry_kept: "kept L P Q \<Longrightarrow> P ident s \<Longrightarrow> note_entry i s = Some s1 \<Longrightarrow> P ident s1"
  by (auto simp: note_entry_def kept_def)

lemma AddSchedule_ok:
  assumes "kept L P Q" and "table_ok P Q c"
    and "\<And>t. sch_Type s = ''cron'' \<Longrightarrow> P (sch_ID s) (s\<lparr>sch_CreatedAt := now, sch_UpdatedAt := now, sch_NextRun := t\<rparr>)"
    and "P (sch_ID s) (s\<lparr>sch_CreatedAt := now, sch_UpdatedAt := now\<rparr>)"
  shows "table_ok P Q (left_by c (AddSchedule L now s c))"
proof -
  let ?s1 = "s\<lparr>sch_CreatedAt := now, sch_UpdatedAt := now\<rparr>"
  let ?s2 = "if sch_Type ?s1 = ''cron'' then ?s1\<lparr>sch_NextRun := cron_nextRun L now (sch_Expression ?s1)\<rparr> else ?s1"
  have P2: "P (sch_ID s) ?s2" using assms(3,4) by auto
  show ?thesis
  proof (cases "validateSchedule L s = None \<and> sch_Type ?s2 = ''cron'' \<and> sch_Enabled ?s2")
    case False
    then show ?thesis using assms(2) table_ok_put [OF assms(2) P2]
      by (auto simp: AddSchedule_def left_by_def put_schedule_def Let_def split: option.splits)
  next
    case True
    obtain j c1 where add: "cron_AddFunc L (sch_Expression ?s2) (sch_ID ?s2) c = (j, c1)" by (cases "cron_AddFunc L (sch_Expression ?s2) (sch_ID ?s2) c")
    have "Q (sch_ID ?s2)" using P2 True assms(1) unfolding kept_def by fastforce
    from table_ok_cron(2) [OF assms(2) this add] have c1: "table_ok P Q c1" by simp
    have "AddSchedule L now s c = (case j of
        None \<Rightarrow> Failed ''failed to add cron job'' c1
      | Some i \<Rightarrow> (case note_entry i ?s2 of None \<Rightarrow> NilMapPanic | Some s3 \<Rightarrow> Done (put_schedule s3 c1)))"
      using True add unfolding AddSchedule_def Let_def by (simp split: option.split)
    moreover have "sch_ID s3 = sch_ID s" if "note_entry i ?s2 = Some s3" for i s3
      using note_entry_kept [OF assms(1) P2 that] assms(1) unfolding kept_def by blast
    ultimately show ?thesis using assms(2) c1 note_entry_kept [OF assms(1) P2]
      by (auto simp: left_by_def put_schedule_def intro: table_ok_put split: option.splits)
  qed
qed


lemma RemoveSchedule_ok: "table_ok P Q c \<Longrightarrow> table_ok P Q (left_by c (RemoveSchedule ident c))"
  by (auto simp: RemoveSchedule_def left_by_def Let_def intro!: table_ok_drop table_ok_cron(1) split: option.split)

lemma EnableSchedule_ok:
  assumes "kept L P Q" and "table_ok P Q c"
  shows "table_ok P Q (left_by c (EnableSchedule L now ident c))"
proof (cases "cr_schedules c ident")
  case (Some s)
  let ?s1 = "s\<lparr>sch_Enabled := True, sch_UpdatedAt := now\<rparr>"
  let ?c1 = "c\<lparr>cr_schedules := (cr_schedules c)(ident \<mapsto> ?s1)\<rparr>"
  have P1: "P ident ?s1" using assms Some unfolding kept_def by (blast dest: table_okD)
  then have c1: "table_ok P Q ?c1" using assms(2) by (intro table_ok_put)
  obtain j c2 where add: "cron_AddFunc L (sch_Expression ?s1) (sch_ID ?s1) ?c1 = (j, c2)" by (cases "cron_AddFunc L (sch_Expression ?s1) (sch_ID ?s1) ?c1")
  show ?thesis
  proof (cases "sch_Enabled s \<or> sch_Type s \<noteq> ''cron''")
    case True
    then show ?thesis using c1 assms(2) Some by (auto simp: EnableSchedule_def left_by_def Let_def)
  next
    case False
    then have "Q (sch_ID ?s1)" using P1 assms(1) unfolding kept_def by fastforce
    from table_ok_cron(2) [OF c1 this add] have "table_ok P Q c2" by simp
    then show ?thesis using False Some add assms(2) note_entry_kept [OF assms(1) P1]
      by (auto simp: EnableSchedule_def left_by_def Let_def intro: table_ok_put split: option.splits)
  qed
qed (use assms(2) in \<open>simp add: EnableSchedule_def left_by_def\<close>)

lemma DisableSchedule_ok:
  assumes "kept L P Q" and "table_ok P Q c"
  shows "table_ok P Q (left_by c (DisableSchedule now ident c))"
proof (cases "cr_schedules c ident")
  case (Some s)
  let ?s1 = "s\<lparr>sch_Enabled := False, sch_UpdatedAt := now\<rparr>"
  have P1: "P ident ?s1" using assms Some unfolding kept_def by (blast dest: table_okD)
  then have "P ident (?s1\<lparr>sch_Metadata := m\<rparr>)" for m using assms(1) unfolding kept_def by blast
  then show ?thesis using P1 Some assms(2)
    by (auto simp: DisableSchedule_def left_by_def Let_def intro!: table_ok_put table_ok_cron(1))
qed (use assms(2) in \<open>simp add: DisableSchedule_def left_by_def\<close>)

lemma exec_submit_frame:
  "cr_schedules (snd (exec_submit clone now r s c)) = cr_schedules c" "cr_entries (snd (exec_submit clone now r s c)) = cr_entries c"
  by (simp_all add: exec_submit_def Let_def split: prod.split option.split)

lemma executeSchedule_ok:
  assumes "kept L P Q" and "table_ok P Q c"
  shows "table_ok P Q (left_by c (executeSchedule L clone now r ident c))"
proof (cases "exec_begin ident c")
  case (Go s)
  then have s: "cr_schedules c ident = Some s" "\<not> (sch_MaxRuns s > 0 \<and> sch_RunCount s \<ge> sch_MaxRuns s)"
    by (auto simp: exec_begin_def split: option.splits if_splits)
  then have "P ident (after_run L now s)" using assms unfolding kept_def by (blast dest: table_okD)
  then have "table_ok P Q (c\<lparr>cr_schedules := (cr_schedules c)(ident \<mapsto> after_run L now s)\<rparr>)" using assms(2) by (intro table_ok_put)
  moreover obtain ok c1 where sub: "exec_submit clone now r s c = (ok, c1)" by (cases "exec_submit clone now r s c")
  ultimately show ?thesis using assms(2) exec_submit_frame [of clone now r s c] s(1)
    by (auto simp: executeSchedule_def Go sub left_by_def exec_end_def table_ok_def split: bool.split)
next
  case AtMaxRuns
  have "left_by c (executeSchedule L clone now r ident c) = left_by c (DisableSchedule now ident c)"
    by (simp add: executeSchedule_def AtMaxRuns left_by_def split: cron_outcome.split)
  then show ?thesis using DisableSchedule_ok [OF assms] by simp
qed (use assms(2) in \<open>simp_all add: executeSchedule_def left_by_def\<close>)

lemma check_intervals_ok:
  assumes "kept L P Q"
  shows "table_ok P Q c \<Longrightarrow> table_ok P Q (snd (check_intervals L now ks c))"
proof (induction ks arbitrary: c)
  case (Cons k ks)
  show ?case
  proof (cases "cr_schedules c k")
    case (Some s)
    then have "table_ok P Q (c\<lparr>cr_schedules := (cr_schedules c)(k \<mapsto> interval_next L now s)\<rparr>)"
      if "sch_Type s = ''interval''" "interval_due now s"
      using that Cons.prems assms unfolding kept_def by (blast intro: table_ok_put dest: table_okD)
    then show ?thesis using Cons Some by (simp add: split_def)
  qed (use Cons in simp)
qed simp

lemma reload_ok:
  assumes "kept L P Q"
  shows "table_ok P Q c \<Longrightarrow> (\<And>s. s \<in> set ss \<Longrightarrow> P (sch_ID s) s) \<Longrightarrow>
    table_ok P Q (fold (\<lambda>s c. if sch_Type s = ''cron'' \<and> sch_Enabled s then snd (cron_AddFunc L (sch_Expression s) (sch_ID s) c) else c) ss c)"
proof (induction ss arbitrary: c)
  case (Cons s ss)
  obtain j c1 where add: "cron_AddFunc L (sch_Expression s) (sch_ID s) c = (j, c1)" by (cases "cron_AddFunc L (sch_Expression s) (sch_ID s) c")
  have "P (sch_ID s) s" by (rule Cons.prems(2)) simp
  then have "Q (sch_ID s)" if "sch_Type s = ''cron''" using that assms unfolding kept_def by blast
  then have "table_ok P Q c1" if "sch_Type s = ''cron''" using table_ok_cron(2) [OF Cons.prems(1) _ add] that by blast
  then have step: "table_ok P Q (if sch_Type s = ''cron'' \<and> sch_Enabled s then snd (cron_AddFunc L (sch_Expression s) (sch_ID s) c) else c)"
    using Cons.prems(1) add by simp
  show ?case unfolding fold.simps comp_def by (rule Cons.IH [OF step]) (rule Cons.prems(2), simp)
qed simp

lemma Start_ok:
  assumes "kept L P Q" and "table_ok P Q c"
  shows "table_ok P Q (sched_Start L ks c)"
proof -
  have "P (sch_ID s) s" if "s \<in> set (values_of ks (cr_schedules c))" for s
  proof -
    obtain k where "cr_schedules c k = Some s" using \<open>s \<in> _\<close> by (auto simp: set_values_of)
    then have "P k s" using assms(2) by (blast dest: table_okD)
    then show ?thesis using assms(1) unfolding kept_def by auto
  qed
  then show ?thesis unfolding sched_Start_def reloadSchedules_def by (rule reload_ok [OF assms])
qed

text \<open>One step keeps a table predicate when added schedules have it.\<close>

fun adds_ok :: "(string \<Rightarrow> schedule \<Rightarrow> bool) \<Rightarrow> cron_event \<Rightarrow> bool" where
  "adds_ok P (EvAdd now s) =
     (let s0 = s\<lparr>sch_RunCount := 0, sch_CreatedAt := now, sch_UpdatedAt := now\<rparr>
      in P (sch_ID s) s0 \<and> (sch_Type s = ''cron'' \<longrightarrow> (\<forall>t. P (sch_ID s) (s0\<lparr>sch_NextRun := t\<rparr>))))"
| "adds_ok P _ = True"

lemma cron_step_ok:
  assumes "kept L P Q" and "table_ok P Q c" and "adds_ok P e"
  shows "table_ok P Q (cron_step L clone e c)"
proof (cases e)
  case (EvAdd now s)
  show ?thesis unfolding EvAdd cron_step.simps
    by (rule AddSchedule_ok [OF assms(1,2)]) (use assms(3) in \<open>simp_all add: EvAdd Let_def\<close>)
qed (use assms in \<open>simp_all add: RemoveSchedule_ok EnableSchedule_ok DisableSchedule_ok executeSchedule_ok check_intervals_ok
    checkIntervalSchedules_def TriggerEvent_def processEvent_def table_ok_frame Start_ok split: list.split\<close>)

lemma cron_run_ok:
  assumes "kept L P Q"
  shows "list_all (adds_ok P) es \<Longrightarrow> table_ok P Q c \<Longrightarrow> table_ok P Q (fold (cron_step L clone) es c)"
  by (induction es arbitrary: c) (auto intro: cron_step_ok [OF assms])

lemma NewScheduler_ok: "table_ok P Q (NewScheduler d)"
  by (simp add: table_ok_def NewScheduler_def)


section \<open>What the scheduler does\<close>


text \<open>Two goroutines that both pass the test before either counts its run go over the limit.\<close>

lemma runs_race:
  assumes "cr_schedules c ident = Some s" and "sch_Enabled s" and "0 < sch_MaxRuns s" and "sch_RunCount s + 1 = sch_MaxRuns s"
  shows "exec_begin ident c = Go s \<and>
    (\<exists>s'. cr_schedules (exec_end L t' ident (exec_end L t ident c)) ident = Some s' \<and> sch_RunCount s' = sch_MaxRuns s' + 1)"
  using assms by (auto simp: exec_begin_def exec_end_def after_run_def Let_def split: option.split)

text \<open>
  A schedule with an interval, made as the builder makes it, and one for a single instant never start
  by themselves: nothing sets the first next run of the one, and nothing looks at the other.  What starts
  by itself, in any run in which a name keeps its type, is a cron or an event schedule.
\<close>
theorem untimed_never_started:
  assumes "list_all (\<lambda>e. case e of EvAdd now s \<Rightarrow> sch_Type s = typ (sch_ID s) \<and> (sch_Type s = ''interval'' \<longrightarrow> sch_NextRun s = None) | _ \<Rightarrow> True) es"
    and "ident \<in> set (started L e (fold (cron_step L clone) es (NewScheduler d)))"
  shows "typ ident = ''cron'' \<or> typ ident = ''event''"
proof -
  define P where "P = (\<lambda>ident (s :: schedule). sch_ID s = ident \<and> sch_Type s = typ ident \<and> (sch_Type s = ''interval'' \<longrightarrow> sch_NextRun s = None))"
  define Q where "Q = (\<lambda>ident. typ ident = ''cron'')"
  have "kept L P Q"
    by (auto simp: kept_def P_def Q_def after_run_def interval_due_def interval_next_def Let_def split: option.splits)
  moreover have "list_all (adds_ok P) es"
    using assms(1) by (induction es) (auto simp: P_def Let_def split: cron_event.splits)
  ultimately have ok: "table_ok P Q (fold (cron_step L clone) es (NewScheduler d))" by (intro cron_run_ok NewScheduler_ok)
  define c where "c = fold (cron_step L clone) es (NewScheduler d)"
  have "fst (check_intervals L now ks c) = []" for now ks
    using ok unfolding c_def [symmetric]
    by (induction ks) (auto simp: table_ok_def P_def interval_due_def split: option.split)
  moreover have "typ ident = ''event''" if started: "ident \<in> set (handleEvent_cron ks ev c)" for ks ev
  proof -
    obtain s where "s \<in> set (values_of ks (cr_schedules c))" "sch_Type s = ''event''" "sch_ID s = ident"
      using started by (auto simp: handleEvent_cron_def)
    then show ?thesis using ok unfolding c_def [symmetric] by (auto simp: set_values_of table_ok_def P_def)
  qed
  moreover have "typ ident = ''cron''" if "cr_entries c i = Some ident" for i
    using that ok unfolding c_def [symmetric] by (auto simp: table_ok_def Q_def)
  ultimately show ?thesis using assms(2) unfolding c_def [symmetric]
    by (cases e) (auto simp: checkIntervalSchedules_def processEvent_def split: list.splits option.splits)
qed

text \<open>
  Schedules are meant to be added before the scheduler starts, yet starting it registers each enabled
  cron schedule a second time: it then fires twice, and removing the schedule leaves one entry behind.
\<close>
theorem start_registers_twice:
  assumes "AddSchedule L now s (NewScheduler d) = Done c" and "sch_Type s = ''cron''" and "sch_Enabled s"
  shows "let c1 = sched_Start L [sch_ID s] c in
    cr_entries c1 = [1 \<mapsto> sch_ID s, 2 \<mapsto> sch_ID s] \<and>
    (\<exists>c2. RemoveSchedule (sch_ID s) c1 = Done c2 \<and> cr_entries c2 = [2 \<mapsto> sch_ID s] \<and> exec_begin (sch_ID s) c2 = NotFound)"
proof -
  let ?s2 = "s\<lparr>sch_CreatedAt := now, sch_UpdatedAt := now, sch_NextRun := cron_nextRun L now (sch_Expression s)\<rparr>"
  have acc: "cl_accepts L (sch_Expression s)" "validateSchedule L s = None"
    using assms by (auto simp: AddSchedule_def cron_AddFunc_def Let_def split: option.splits if_splits)
  obtain m where m: "sch_Metadata s = Some m"
    using assms acc by (auto simp: AddSchedule_def cron_AddFunc_def note_entry_def Let_def split: option.splits)
  define s3 where "s3 = ?s2\<lparr>sch_Metadata := Some (m(''cron_entry_id'' \<mapsto> CronEntryID 1))\<rparr>"
  have s3: "sch_ID s3 = sch_ID s" "sch_Type s3 = ''cron''" "sch_Enabled s3" "sch_Expression s3 = sch_Expression s" "entry_of s3 = Some 1"
    by (simp_all add: s3_def assms(2,3) entry_of_def)
  have "c = (NewScheduler d)\<lparr>cr_entries := [1 \<mapsto> sch_ID s], cr_nextEntry := 2, cr_schedules := [sch_ID s \<mapsto> s3]\<rparr>"
    using assms acc m by (simp add: AddSchedule_def cron_AddFunc_def note_entry_def Let_def put_schedule_def s3_def NewScheduler_def numeral_2_eq_2)
  then have "sched_Start L [sch_ID s] c = c\<lparr>cr_entries := [1 \<mapsto> sch_ID s, 2 \<mapsto> sch_ID s], cr_nextEntry := 3\<rparr>"
      "cr_schedules c = [sch_ID s \<mapsto> s3]"
    by (simp_all add: sched_Start_def reloadSchedules_def cron_AddFunc_def s3 acc(1))
  then show ?thesis
    by (simp add: RemoveSchedule_def s3 cron_Remove_def exec_begin_def Let_def fun_upd_twist)
qed

text \<open>
  An expression in the standard five fields passes the validation and is then refused by the cron object,
  which wants seconds: adding an enabled schedule with it fails; a disabled one is taken, but enabling it fails
  and leaves it marked as enabled without an entry.
\<close>
theorem standard_cron_refused:
  assumes "validateSchedule L s = None" and "sch_Type s = ''cron''" and "\<not> cl_accepts L (sch_Expression s)"
  shows "AddSchedule L now (s\<lparr>sch_Enabled := True\<rparr>) c = Failed ''failed to add cron job'' c \<and>
    (\<exists>c1 c2 s2. AddSchedule L now (s\<lparr>sch_Enabled := False\<rparr>) c = Done c1 \<and> EnableSchedule L now' (sch_ID s) c1 = Failed ''cron'' c2 \<and>
      cr_schedules c2 (sch_ID s) = Some s2 \<and> sch_Enabled s2 \<and> cr_entries c2 = cr_entries c)"
proof -
  have "validateSchedule L (s\<lparr>sch_Enabled := b\<rparr>) = validateSchedule L s" for b by (simp add: validateSchedule_def)
  then have v: "validateSchedule L (s\<lparr>sch_Enabled := b\<rparr>) = None" for b using assms(1) by simp
  have "AddSchedule L now (s\<lparr>sch_Enabled := True\<rparr>) c = Failed ''failed to add cron job'' c"
    using assms(2,3) v [of True] by (simp add: AddSchedule_def cron_AddFunc_def Let_def)
  moreover define s1 where "s1 = s\<lparr>sch_Enabled := False, sch_CreatedAt := now, sch_UpdatedAt := now, sch_NextRun := cron_nextRun L now (sch_Expression s)\<rparr>"
  have "AddSchedule L now (s\<lparr>sch_Enabled := False\<rparr>) c = Done (put_schedule s1 c)"
    using assms(2) v [of False] by (simp add: AddSchedule_def Let_def s1_def)
  moreover have "EnableSchedule L now' (sch_ID s) (put_schedule s1 c) =
      Failed ''cron'' (c\<lparr>cr_schedules := (cr_schedules c)(sch_ID s \<mapsto> s1\<lparr>sch_Enabled := True, sch_UpdatedAt := now'\<rparr>)\<rparr>)"
    using assms(2,3) by (simp add: EnableSchedule_def put_schedule_def s1_def cron_AddFunc_def Let_def)
  ultimately show ?thesis by simp
qed


section \<open>Examples\<close>

definition sample_cron_lib :: cron_lib where
  "sample_cron_lib = \<lparr>cl_standard = (\<lambda>e. if e = ''@hourly'' \<or> e = ''0 9 * * *'' then Some (\<lambda>t. t + hour) else None),
     cl_accepts = (\<lambda>e. e = ''@hourly'' \<or> e = ''0 0 9 * * *''), cl_duration = (\<lambda>e. if e = ''5m'' then Some (5 * minute) else None),
     cl_show = (\<lambda>_. ''5m''), cl_rfc3339 = (\<lambda>_. False), cl_format = (\<lambda>_. [])\<rparr>"

definition sample_schedule :: "string \<Rightarrow> schedule" where
  "sample_schedule e = WithMaxRuns 2 (WithTask zero_task (WithCron e (NewScheduleBuilder ''s'')))"

lemmas builder_defs = sample_schedule_def WithMaxRuns_def WithTask_def WithCron_def WithEvent_def WithInterval_def NewScheduleBuilder_def

definition sample_dispatcher :: dispatcher where
  "sample_dispatcher = NewDispatcher (\<lambda>_. zero_task) StrategyRoundRobin [] 10"

lemma sample_add:
  "AddSchedule sample_cron_lib 0 (sample_schedule ''@hourly'') (NewScheduler sample_dispatcher) =
     Done ((NewScheduler sample_dispatcher)\<lparr>cr_entries := [1 \<mapsto> ''s''], cr_nextEntry := 2,
       cr_schedules := [''s'' \<mapsto> (sample_schedule ''@hourly'')\<lparr>sch_NextRun := Some hour, sch_Metadata := Some [''cron_entry_id'' \<mapsto> CronEntryID 1]\<rparr>]\<rparr>)"
  by (simp add: AddSchedule_def validateSchedule_def builder_defs sample_cron_lib_def cron_nextRun_def cron_AddFunc_def note_entry_def
      put_schedule_def NewScheduler_def Let_def)


lemma untimed_never_started_witness:
  "started sample_cron_lib (EvFire 1) (fold (cron_step sample_cron_lib id) [EvAdd 0 (sample_schedule ''@hourly'')] (NewScheduler sample_dispatcher)) = [''s''] \<and>
   (''cron'' = ''cron'' \<or> ''cron'' = ''event'')"
proof -
  let ?es = "[EvAdd 0 (sample_schedule ''@hourly'')]"
  have same: "(sample_schedule ''@hourly'')\<lparr>sch_RunCount := 0\<rparr> = sample_schedule ''@hourly''" by (simp add: builder_defs)
  have fires: "started sample_cron_lib (EvFire 1) (fold (cron_step sample_cron_lib id) ?es (NewScheduler sample_dispatcher)) = [''s'']"
    by (simp add: same sample_add left_by_def)
  have "list_all (\<lambda>e. case e of EvAdd now s \<Rightarrow> sch_Type s = (\<lambda>_. ''cron'') (sch_ID s) \<and> (sch_Type s = ''interval'' \<longrightarrow> sch_NextRun s = None) | _ \<Rightarrow> True) ?es"
    by (simp add: builder_defs)
  from untimed_never_started [OF this, of "''s''" sample_cron_lib "EvFire 1" id sample_dispatcher] fires show ?thesis by simp
qed

lemma start_registers_twice_witness:
  "\<exists>c. AddSchedule sample_cron_lib 0 (sample_schedule ''@hourly'') (NewScheduler sample_dispatcher) = Done c \<and>
     cr_entries (sched_Start sample_cron_lib [''s''] c) = [1 \<mapsto> ''s'', 2 \<mapsto> ''s'']"
proof -
  have s: "sch_Type (sample_schedule ''@hourly'') = ''cron''" "sch_Enabled (sample_schedule ''@hourly'')" "sch_ID (sample_schedule ''@hourly'') = ''s''"
    by (simp_all add: builder_defs)
  show ?thesis using start_registers_twice [OF sample_add s(1,2)] sample_add unfolding s(3) Let_def by blast
qed

lemma standard_cron_refused_witness:
  "AddSchedule sample_cron_lib 0 ((sample_schedule ''0 9 * * *'')\<lparr>sch_Enabled := True\<rparr>) (NewScheduler sample_dispatcher) =
     Failed ''failed to add cron job'' (NewScheduler sample_dispatcher)"
proof -
  have "validateSchedule sample_cron_lib (sample_schedule ''0 9 * * *'') = None" "sch_Type (sample_schedule ''0 9 * * *'') = ''cron''"
      "\<not> cl_accepts sample_cron_lib (sch_Expression (sample_schedule ''0 9 * * *''))"
    by (simp_all add: builder_defs validateSchedule_def sample_cron_lib_def)
  then show ?thesis using standard_cron_refused by blast
qed

end
