(* ===== verification/DistLock.thy ===== *)
theory DistLock
  imports GoText
begin

text \<open>
  The distributed lock (src/lock/distributed_lock.go).  Redis is an argument: the command SET NX, the
  commands the two Lua scripts call, and whether a call gets an answer.  A script runs as one step.
\<close>

section \<open>Redis\<close>

record 'r lock_redis =
  lr_SetNX :: "gotime \<Rightarrow> string \<Rightarrow> string \<Rightarrow> duration \<Rightarrow> 'r \<Rightarrow> bool \<times> 'r"
  lr_Get :: "gotime \<Rightarrow> string \<Rightarrow> 'r \<Rightarrow> string option"
  lr_Del :: "gotime \<Rightarrow> string \<Rightarrow> 'r \<Rightarrow> int \<times> 'r"
  lr_Expire :: "gotime \<Rightarrow> string \<Rightarrow> int \<Rightarrow> 'r \<Rightarrow> int \<times> 'r"
  lr_TTL :: "gotime \<Rightarrow> string \<Rightarrow> 'r \<Rightarrow> int"

section \<open>Operations\<close>

record lock_result =
  lk_Key :: string
  lk_Value :: string
  lk_Acquired :: bool
  lk_ExpiresAt :: gotime

definition lockKey :: "string \<Rightarrow> string" where
  "lockKey key = ''lock:'' @ key"

text \<open>
  \<open>up\<close> tells whether the call reaches Redis and gets its answer, \<open>now\<close> is the server's instant of the command and \<open>now'\<close> the
  client's reading of its clock once it has the answer.
\<close>

definition AcquireLock :: "'r lock_redis \<Rightarrow> bool \<Rightarrow> gotime \<Rightarrow> gotime \<Rightarrow> string \<Rightarrow> string \<Rightarrow> duration \<Rightarrow> 'r \<Rightarrow> (string + lock_result) \<times> 'r" where
  "AcquireLock R up now now' key value expiration r =
     (if \<not> up then (Inl ''failed to acquire lock'', r)
      else case lr_SetNX R now (lockKey key) value expiration r of
        (ok, r1) \<Rightarrow> (Inr \<lparr>lk_Key = lockKey key, lk_Value = value, lk_Acquired = ok, lk_ExpiresAt = now' + expiration\<rparr>, r1))"

definition release_script :: "'r lock_redis \<Rightarrow> gotime \<Rightarrow> string \<Rightarrow> string \<Rightarrow> 'r \<Rightarrow> int \<times> 'r" where
  "release_script R now key value r = (if lr_Get R now key r = Some value then lr_Del R now key r else (0, r))"

definition extend_script :: "'r lock_redis \<Rightarrow> gotime \<Rightarrow> string \<Rightarrow> string \<Rightarrow> int \<Rightarrow> 'r \<Rightarrow> int \<times> 'r" where
  "extend_script R now key value secs r = (if lr_Get R now key r = Some value then lr_Expire R now key secs r else (0, r))"

definition ReleaseLock :: "'r lock_redis \<Rightarrow> bool \<Rightarrow> gotime \<Rightarrow> lock_result \<Rightarrow> 'r \<Rightarrow> string option \<times> 'r" where
  "ReleaseLock R up now l r =
     (if \<not> up then (Some ''failed to release lock'', r) else (None, snd (release_script R now (lk_Key l) (lk_Value l) r)))"

text \<open>\<open>int(extension.Seconds())\<close> cuts the fraction.\<close>

definition whole_seconds :: "duration \<Rightarrow> int" where
  "whole_seconds d = (if d < 0 then - ((- d) div second) else d div second)"

definition ExtendLock :: "'r lock_redis \<Rightarrow> bool \<Rightarrow> gotime \<Rightarrow> gotime \<Rightarrow> lock_result \<Rightarrow> duration \<Rightarrow> 'r \<Rightarrow> string option \<times> lock_result \<times> 'r" where
  "ExtendLock R up now now' l extension r =
     (if \<not> up then (Some ''failed to extend lock'', l, r)
      else case extend_script R now (lk_Key l) (lk_Value l) (whole_seconds extension) r of
        (n, r1) \<Rightarrow> if n = 1 then (None, l\<lparr>lk_ExpiresAt := now' + extension\<rparr>, r1) else (Some ''lock not extended'', l, r1))"

text \<open>
  \<open>WithLock\<close> and \<open>WithLockT\<close>: \<open>fn\<close> is the protected function, which may take any time and leaves Redis as it
  or others leave it; the release happens at \<open>later\<close>.
\<close>

definition lockValue :: "gotime \<Rightarrow> string \<Rightarrow> string" where
  "lockValue now key = dec_of_int now @ ''_'' @ key"

datatype 'a with_lock = LockError string | NotAcquired | Ran 'a

definition WithLock :: "'r lock_redis \<Rightarrow> bool \<times> bool \<Rightarrow> gotime \<Rightarrow> gotime \<Rightarrow> gotime \<Rightarrow> string \<Rightarrow> duration \<Rightarrow> ('r \<Rightarrow> 'a \<times> 'r) \<Rightarrow> 'r \<Rightarrow> 'a with_lock \<times> 'r" where
  "WithLock R up now now' later key expiration fn r =
     (case AcquireLock R (fst up) now now' key (lockValue now key) expiration r of
        (Inl e, r1) \<Rightarrow> (LockError e, r1)
      | (Inr l, r1) \<Rightarrow>
          if \<not> lk_Acquired l then (NotAcquired, r1)
          else (case fn r1 of (a, r2) \<Rightarrow> (Ran a, snd (ReleaseLock R (snd up) later l r2))))"

definition IsLocked :: "'r lock_redis \<Rightarrow> bool \<Rightarrow> gotime \<Rightarrow> string \<Rightarrow> 'r \<Rightarrow> bool option" where
  "IsLocked R up now key r = (if up then Some (lr_Get R now (lockKey key) r \<noteq> None) else None)"

record lock_info =
  li_key :: string
  li_exists :: bool
  li_value :: "string option"
  li_ttl :: int

definition GetLockInfo :: "'r lock_redis \<Rightarrow> bool \<Rightarrow> gotime \<Rightarrow> string \<Rightarrow> 'r \<Rightarrow> lock_info option" where
  "GetLockInfo R up now key r =
     (if \<not> up then None
      else Some (case lr_Get R now (lockKey key) r of
          None \<Rightarrow> \<lparr>li_key = lockKey key, li_exists = False, li_value = None, li_ttl = - 1\<rparr>
        | Some v \<Rightarrow> \<lparr>li_key = lockKey key, li_exists = True, li_value = Some v, li_ttl = lr_TTL R now (lockKey key) r\<rparr>))"

text \<open>
  The loop of \<open>TryLock\<close>, \<open>n\<close> attempts left.  Each attempt comes with whether the context is done before it
  (it is not looked at before the first), whether Redis answers, its two instants, and what others did to
  Redis since the last attempt.
\<close>

record 'r attempt =
  at_done :: bool
  at_up :: bool
  at_now :: gotime
  at_now' :: gotime
  at_others :: "'r \<Rightarrow> 'r"

datatype try_result = ContextDone | TryError string | Exhausted | Locked lock_result

fun try_loop :: "'r lock_redis \<Rightarrow> (nat \<Rightarrow> 'r attempt) \<Rightarrow> string \<Rightarrow> string \<Rightarrow> duration \<Rightarrow> nat \<Rightarrow> nat \<Rightarrow> 'r \<Rightarrow> try_result \<times> 'r" where
  "try_loop R at key value expiration i 0 r = (Exhausted, r)"
| "try_loop R at key value expiration i (Suc n) r =
     (let r1 = at_others (at i) r
      in if i > 0 \<and> at_done (at i) then (ContextDone, r1)
         else case AcquireLock R (at_up (at i)) (at_now (at i)) (at_now' (at i)) key value expiration r1 of
             (Inl e, r2) \<Rightarrow> (TryError e, r2)
           | (Inr l, r2) \<Rightarrow> if lk_Acquired l then (Locked l, r2) else try_loop R at key value expiration (Suc i) n r2)"

definition TryLock :: "'r lock_redis \<Rightarrow> (nat \<Rightarrow> 'r attempt) \<Rightarrow> string \<Rightarrow> string \<Rightarrow> duration \<Rightarrow> int \<Rightarrow> 'r \<Rightarrow> try_result \<times> 'r" where
  "TryLock R at key value expiration maxRetries r = try_loop R at key value expiration 0 (nat (maxRetries + 1)) r"

record lock_options =
  lo_Expiration :: duration
  lo_MaxRetries :: int
  lo_RetryDelay :: duration
  lo_RefreshInterval :: duration

definition DefaultLockOptions :: lock_options where
  "DefaultLockOptions = \<lparr>lo_Expiration = 30 * second, lo_MaxRetries = 3, lo_RetryDelay = second div 10, lo_RefreshInterval = 10 * second\<rparr>"

text \<open>
  The goroutine that refreshes: the ticks it gets before it is cancelled, with what others did before each; it
  ends at the first extension that fails.
\<close>

fun refresh_loop :: "'r lock_redis \<Rightarrow> duration \<Rightarrow> 'r attempt list \<Rightarrow> lock_result \<Rightarrow> 'r \<Rightarrow> lock_result \<times> 'r" where
  "refresh_loop R ext [] l r = (l, r)"
| "refresh_loop R ext (t # ts) l r =
     (case ExtendLock R (at_up t) (at_now t) (at_now' t) l ext (at_others t r) of
        (Some _, l1, r1) \<Rightarrow> (l1, r1)
      | (None, l1, r1) \<Rightarrow> refresh_loop R ext ts l1 r1)"

definition WithAutoRefresh :: "'r lock_redis \<Rightarrow> (nat \<Rightarrow> 'r attempt) \<Rightarrow> 'r attempt list \<Rightarrow> bool \<Rightarrow> gotime \<Rightarrow> gotime \<Rightarrow> string \<Rightarrow> lock_options option \<Rightarrow> 'a \<Rightarrow> 'r \<Rightarrow>
    (try_result + 'a) \<times> 'r" where
  "WithAutoRefresh R at ticks up now later key opts fnResult r =
     (let o1 = (case opts of None \<Rightarrow> DefaultLockOptions | Some p \<Rightarrow> p)
      in case TryLock R at key (lockValue now key) (lo_Expiration o1) (lo_MaxRetries o1) r of
           (Locked l, r1) \<Rightarrow> (case refresh_loop R (lo_Expiration o1) ticks l r1 of
               (l1, r2) \<Rightarrow> (Inr fnResult, snd (ReleaseLock R up later l1 r2)))
         | (e, r1) \<Rightarrow> (Inl e, r1))"

section \<open>What the commands do\<close>

text \<open>
  A key's value and expiry.  SET NX sets an absent key; a lifetime of zero is none, here left out.  EXPIRE
  with no positive number of seconds deletes the key, and answers 1 all the same.
\<close>

definition holds_at :: "gotime \<Rightarrow> (string \<times> gotime) option \<Rightarrow> string option" where
  "holds_at now c = (case c of None \<Rightarrow> None | Some (v, e) \<Rightarrow> if now < e then Some v else None)"

definition lock_commands :: "'r lock_redis \<Rightarrow> ('r \<Rightarrow> string \<rightharpoonup> string \<times> gotime) \<Rightarrow> bool" where
  "lock_commands R view \<longleftrightarrow>
     (\<forall>now k v d r. 0 < d \<longrightarrow> fst (lr_SetNX R now k v d r) = (holds_at now (view r k) = None) \<and>
        view (snd (lr_SetNX R now k v d r)) = (if holds_at now (view r k) = None then (view r)(k \<mapsto> (v, now + d)) else view r)) \<and>
     (\<forall>now k r. lr_Get R now k r = holds_at now (view r k)) \<and>
     (\<forall>now k r. view (snd (lr_Del R now k r)) = (view r)(k := None)) \<and>
     (\<forall>now k s r. holds_at now (view r k) \<noteq> None \<longrightarrow> fst (lr_Expire R now k s r) = 1 \<and>
        view (snd (lr_Expire R now k s r)) =
          (view r)(k := if s \<le> 0 then None else map_option (\<lambda>(v, e). (v, now + s * second)) (view r k)))"

lemma lock_commandsD:
  assumes "lock_commands R view"
  shows "0 < d \<Longrightarrow> fst (lr_SetNX R now k v d r) = (holds_at now (view r k) = None)"
    and "0 < d \<Longrightarrow> view (snd (lr_SetNX R now k v d r)) = (if holds_at now (view r k) = None then (view r)(k \<mapsto> (v, now + d)) else view r)"
    and "lr_Get R now k r = holds_at now (view r k)"
    and "view (snd (lr_Del R now k r)) = (view r)(k := None)"
    and "holds_at now (view r k) \<noteq> None \<Longrightarrow> fst (lr_Expire R now k s r) = 1"
    and "holds_at now (view r k) \<noteq> None \<Longrightarrow> view (snd (lr_Expire R now k s r)) =
          (view r)(k := if s \<le> 0 then None else map_option (\<lambda>(v, e). (v, now + s * second)) (view r k))"
  using assms by (simp_all add: lock_commands_def)

text \<open>Commands that keep one table are an instance.\<close>

definition table_redis :: "(string \<rightharpoonup> string \<times> gotime) lock_redis" where
  "table_redis = \<lparr>lr_SetNX = (\<lambda>now k v d r. if holds_at now (r k) = None then (True, r(k \<mapsto> (v, now + d))) else (False, r)),
     lr_Get = (\<lambda>now k r. holds_at now (r k)), lr_Del = (\<lambda>now k r. (if holds_at now (r k) = None then 0 else 1, r(k := None))),
     lr_Expire = (\<lambda>now k s r. if holds_at now (r k) = None then (0, r)
        else (1, r(k := if s \<le> 0 then None else map_option (\<lambda>(v, e). (v, now + s * second)) (r k)))),
     lr_TTL = (\<lambda>now k r. case r k of None \<Rightarrow> - 2 | Some (_, e) \<Rightarrow> (e - now) div second)\<rparr>"

lemma table_redis_commands: "lock_commands table_redis id"
  by (auto simp: lock_commands_def table_redis_def)


section \<open>Mutual exclusion\<close>

text \<open>
  Clients take, extend and release one lock, each with a value of its own, at instants of the server that do not
  go back.  \<open>ls_leases\<close> has until when a client's last grant lasts, by the server's clock.
\<close>

record 'r lock_sys =
  ls_redis :: 'r
  ls_clock :: gotime
  ls_leases :: "nat \<rightharpoonup> gotime"

inductive lock_reach :: "'r lock_redis \<Rightarrow> string \<Rightarrow> (nat \<Rightarrow> string) \<Rightarrow> 'r lock_sys \<Rightarrow> bool" for R key val where
  start: "lock_reach R key val \<lparr>ls_redis = r, ls_clock = now, ls_leases = Map.empty\<rparr>"
| acquire: "lock_reach R key val s \<Longrightarrow> ls_clock s \<le> now \<Longrightarrow> 0 < d \<Longrightarrow>
    AcquireLock R up now now' key (val c) d (ls_redis s) = (Inr l, r1) \<Longrightarrow>
    lock_reach R key val (s\<lparr>ls_redis := r1, ls_clock := now,
      ls_leases := (if lk_Acquired l then (ls_leases s)(c \<mapsto> now + d) else ls_leases s)\<rparr>)"
| extend: "lock_reach R key val s \<Longrightarrow> ls_clock s \<le> now \<Longrightarrow> lk_Key l = lockKey key \<Longrightarrow> lk_Value l = val c \<Longrightarrow>
    ExtendLock R up now now' l d (ls_redis s) = (err, l1, r1) \<Longrightarrow>
    lock_reach R key val (s\<lparr>ls_redis := r1, ls_clock := now,
      ls_leases := (if err = None then (ls_leases s)(c \<mapsto> now + whole_seconds d * second) else ls_leases s)\<rparr>)"
| release: "lock_reach R key val s \<Longrightarrow> ls_clock s \<le> now \<Longrightarrow> lk_Key l = lockKey key \<Longrightarrow> lk_Value l = val c \<Longrightarrow>
    ReleaseLock R up now l (ls_redis s) = (err, r1) \<Longrightarrow>
    lock_reach R key val (s\<lparr>ls_redis := r1, ls_clock := now, ls_leases := (ls_leases s)(c := None)\<rparr>)"

definition lease_inv :: "('r \<Rightarrow> string \<rightharpoonup> string \<times> gotime) \<Rightarrow> string \<Rightarrow> (nat \<Rightarrow> string) \<Rightarrow> 'r lock_sys \<Rightarrow> bool" where
  "lease_inv view key val s \<longleftrightarrow>
     (\<forall>c u. ls_leases s c = Some u \<and> ls_clock s < u \<longrightarrow> (\<exists>e. view (ls_redis s) (lockKey key) = Some (val c, e) \<and> u \<le> e))"

lemma holds_at_Some: "holds_at now c = Some v \<longleftrightarrow> (\<exists>e. c = Some (v, e) \<and> now < e)"
  by (auto simp: holds_at_def split: option.splits if_splits)

lemma lease_holds:
  assumes "lease_inv view key val s" and "ls_leases s c = Some u" and "now < u" and "ls_clock s \<le> now"
  shows "\<exists>e. view (ls_redis s) (lockKey key) = Some (val c, e) \<and> u \<le> e \<and> holds_at now (view (ls_redis s) (lockKey key)) = Some (val c)"
proof -
  obtain e where "view (ls_redis s) (lockKey key) = Some (val c, e)" "u \<le> e"
    using assms unfolding lease_inv_def by force
  then show ?thesis using assms(3) by (simp add: holds_at_Some)
qed

lemma AcquireLock_cases:
  assumes "lock_commands R view" and "0 < d" and "AcquireLock R up now now' key v d r = (Inr l, r1)"
  shows "lk_Acquired l = (holds_at now (view r (lockKey key)) = None) \<and>
    view r1 = (if lk_Acquired l then (view r)(lockKey key \<mapsto> (v, now + d)) else view r)"
  using assms(3) lock_commandsD(1,2) [OF assms(1,2), of now "lockKey key" v r]
  by (auto simp: AcquireLock_def split: if_splits prod.splits)

lemma ExtendLock_cases:
  assumes "lock_commands R view" and "ExtendLock R up now now' l d r = (err, l1, r1)"
  shows "(err = None \<longleftrightarrow> up \<and> holds_at now (view r (lk_Key l)) = Some (lk_Value l)) \<and>
    (err \<noteq> None \<longrightarrow> r1 = r) \<and>
    (err = None \<longrightarrow> view r1 = (view r)(lk_Key l :=
       if whole_seconds d \<le> 0 then None else map_option (\<lambda>(v, e). (v, now + whole_seconds d * second)) (view r (lk_Key l))))"
  using assms(2) lock_commandsD(5,6) [OF assms(1), of now r "lk_Key l" "whole_seconds d"]
  by (auto simp: ExtendLock_def extend_script_def lock_commandsD(3) [OF assms(1)] split: if_splits prod.splits)

lemma ReleaseLock_cases:
  assumes "lock_commands R view" and "ReleaseLock R up now l r = (err, r1)"
  shows "view r1 = (if up \<and> holds_at now (view r (lk_Key l)) = Some (lk_Value l) then (view r)(lk_Key l := None) else view r)"
  using assms(2) by (auto simp: ReleaseLock_def release_script_def lock_commandsD(3,4) [OF assms(1)] split: if_splits)

lemma lock_reach_inv:
  assumes "lock_commands R view" and "inj val"
  shows "lock_reach R key val s \<Longrightarrow> lease_inv view key val s"
proof (induction rule: lock_reach.induct)
  case (start r now)
  then show ?case by (simp add: lease_inv_def)
next
  case (acquire s now d up now' c l r1)
  note a = AcquireLock_cases [OF assms(1) acquire.hyps(3,4)]
  show ?case unfolding lease_inv_def
  proof (intro allI impI)
    fix c' u assume u: "ls_leases (s\<lparr>ls_redis := r1, ls_clock := now,
        ls_leases := (if lk_Acquired l then (ls_leases s)(c \<mapsto> now + d) else ls_leases s)\<rparr>) c' = Some u \<and>
      ls_clock (s\<lparr>ls_redis := r1, ls_clock := now, ls_leases := (if lk_Acquired l then (ls_leases s)(c \<mapsto> now + d) else ls_leases s)\<rparr>) < u"
    show "\<exists>e. view (ls_redis (s\<lparr>ls_redis := r1, ls_clock := now,
        ls_leases := (if lk_Acquired l then (ls_leases s)(c \<mapsto> now + d) else ls_leases s)\<rparr>)) (lockKey key) = Some (val c', e) \<and> u \<le> e"
    proof (cases "lk_Acquired l \<and> c' = c")
      case True
      then show ?thesis using a u by auto
    next
      case False
      then have old: "ls_leases s c' = Some u" "now < u" using u by (auto split: if_splits)
      from lease_holds [OF acquire.IH this acquire.hyps(2)] show ?thesis using a by auto
    qed
  qed
next
  case (extend s now l c up now' d err l1 r1)
  note x = ExtendLock_cases [OF assms(1) extend.hyps(5)]
  show ?case
  proof (cases "err = None")
    case False
    then show ?thesis using x extend.hyps(2) lease_holds [OF extend.IH] by (fastforce simp: lease_inv_def)
  next
    case True
    then have held: "holds_at now (view (ls_redis s) (lockKey key)) = Some (val c)" using x extend.hyps(3,4) by simp
    have other: False if "ls_leases s c' = Some u" "now < u" "c' \<noteq> c" for c' u
      using lease_holds [OF extend.IH that(1,2) extend.hyps(2)] held injD [OF assms(2), of c' c] that(3) by auto
    obtain e where "view (ls_redis s) (lockKey key) = Some (val c, e)" using held by (auto simp: holds_at_Some)
    then have "view r1 (lockKey key) = (if whole_seconds d \<le> 0 then None else Some (val c, now + whole_seconds d * second))"
      using x True extend.hyps(3) by simp
    then show ?thesis using True other by (fastforce simp: lease_inv_def split: if_splits)
  qed
next
  case (release s now l c up err r1)
  note x = ReleaseLock_cases [OF assms(1) release.hyps(5)]
  have "\<exists>e. view r1 (lockKey key) = Some (val c', e) \<and> u \<le> e" if "ls_leases s c' = Some u" "now < u" "c' \<noteq> c" for c' u
    using lease_holds [OF release.IH that(1,2) release.hyps(2)] x release.hyps(3,4) injD [OF assms(2), of c' c] that(3) by auto
  then show ?case by (auto simp: lease_inv_def split: if_splits)
qed

text \<open>
  C22: Whatever clients do with a lock, taking, extending and releasing it in any order, with calls that may
  fail to reach Redis, at most one of them has a grant that has not run out by the server's clock.
\<close>
theorem lock_exclusive:
  assumes "lock_commands R view" and "inj val" and "lock_reach R key val s"
    and "ls_leases s c = Some u" and "ls_clock s < u" and "ls_leases s c' = Some u'" and "ls_clock s < u'"
  shows "c = c'"
proof -
  have "lease_inv view key val s" by (rule lock_reach_inv [OF assms(1-3)])
  then obtain e e' where "view (ls_redis s) (lockKey key) = Some (val c, e)" "view (ls_redis s) (lockKey key) = Some (val c', e')"
    using assms(4-7) unfolding lease_inv_def by blast
  then have "val c = val c'" by simp
  then show ?thesis using assms(2) by (rule injD [rotated])
qed

text \<open>
  Extending a lock by less than a second deletes it: the seconds are cut to zero, Redis drops the key and
  answers 1.  The holder is told that its lock lasts until later, while anyone may take it at once.
\<close>
theorem short_extension_unlocks:
  assumes "lock_commands R view" and "0 \<le> ext" and "ext < second" and "0 < d"
    and "holds_at now (view r (lockKey key)) = Some v"
  shows "\<exists>l1 r1 l2 r2. ExtendLock R True now now' \<lparr>lk_Key = lockKey key, lk_Value = v, lk_Acquired = True, lk_ExpiresAt = t\<rparr> ext r = (None, l1, r1) \<and>
    lk_ExpiresAt l1 = now' + ext \<and> AcquireLock R True now now' key v' d r1 = (Inr l2, r2) \<and> lk_Acquired l2"
proof -
  let ?l = "\<lparr>lk_Key = lockKey key, lk_Value = v, lk_Acquired = True, lk_ExpiresAt = t\<rparr>"
  obtain err l1 r1 where ext: "ExtendLock R True now now' ?l ext r = (err, l1, r1)" by (cases "ExtendLock R True now now' ?l ext r")
  note x = ExtendLock_cases [OF assms(1) ext]
  have secs: "whole_seconds ext = 0" using assms(2,3) by (simp add: whole_seconds_def)
  have err: "err = None" using x assms(5) by simp
  then have gone: "view r1 (lockKey key) = None" using x secs by simp
  have "lk_ExpiresAt l1 = now' + ext" using ext err by (auto simp: ExtendLock_def split: prod.splits if_splits)
  moreover obtain l2 r2 where acq: "AcquireLock R True now now' key v' d r1 = (Inr l2, r2)"
    by (cases "lr_SetNX R now (lockKey key) v' d r1") (simp add: AcquireLock_def)
  moreover have "lk_Acquired l2" using AcquireLock_cases [OF assms(1,4) acq] gone by (simp add: holds_at_def)
  ultimately show ?thesis using ext err by blast
qed

section \<open>Retries\<close>

text \<open>The attempt that finds the lock free.\<close>

definition first_free :: "(nat \<Rightarrow> 'r attempt) \<Rightarrow> gotime \<Rightarrow> nat \<Rightarrow> nat \<Rightarrow> nat option" where
  "first_free tries e i n = List.find (\<lambda>i. e \<le> at_now (tries i)) [i..<i + n]"

lemma first_free_Suc: "first_free tries e i (Suc n) = (if e \<le> at_now (tries i) then Some i else first_free tries e (Suc i) n)"
  by (simp add: first_free_def upt_conv_Cons del: upt_Suc)

lemma try_loop_spec:
  assumes "lock_commands R view" and "0 < d"
    and "\<And>i. at_others (tries i) = id \<and> at_up (tries i) \<and> \<not> at_done (tries i)"
  shows "view r (lockKey key) = Some (v, e) \<Longrightarrow>
    fst (try_loop R tries key value d i n r) = (case first_free tries e i n of
        None \<Rightarrow> Exhausted
      | Some j \<Rightarrow> Locked \<lparr>lk_Key = lockKey key, lk_Value = value, lk_Acquired = True, lk_ExpiresAt = at_now' (tries j) + d\<rparr>) \<and>
    view (snd (try_loop R tries key value d i n r)) = (case first_free tries e i n of
        None \<Rightarrow> view r
      | Some j \<Rightarrow> (view r)(lockKey key \<mapsto> (value, at_now (tries j) + d)))"
proof (induction n arbitrary: i r)
  case 0
  then show ?case by (simp add: first_free_def)
next
  case (Suc n)
  have env: "at_others (tries i) r = r" "at_up (tries i)" "\<not> at_done (tries i)" using assms(3) [of i] by simp_all
  obtain ok r1 where nx: "lr_SetNX R (at_now (tries i)) (lockKey key) value d r = (ok, r1)"
    by (cases "lr_SetNX R (at_now (tries i)) (lockKey key) value d r")
  have ok: "ok = (e \<le> at_now (tries i))" and v1: "view r1 = (if ok then (view r)(lockKey key \<mapsto> (value, at_now (tries i) + d)) else view r)"
    using lock_commandsD(1,2) [OF assms(1,2), of "at_now (tries i)" "lockKey key" "value" r] Suc.prems
    by (simp_all add: nx holds_at_def not_less)
  show ?case
  proof (cases "e \<le> at_now (tries i)")
    case True
    then show ?thesis using v1 by (simp add: env AcquireLock_def nx ok first_free_Suc)
  next
    case False
    then have "view r1 (lockKey key) = Some (v, e)" using v1 Suc.prems by (simp add: ok)
    moreover have "view r1 = view r" using v1 False by (simp add: ok)
    ultimately show ?thesis using Suc.IH [of r1 "Suc i"] False
      by (simp add: env AcquireLock_def nx ok first_free_Suc split: option.split)
  qed
qed

text \<open>
  Trying for a lock that another client holds until an instant, with Redis answering and nobody else
  interfering, takes the lock at the first of at most one more than the given number of attempts that comes
  at or after that instant, and fails, the lock untouched, when there is none; with a negative number it
  makes no attempt at all.
\<close>
theorem TryLock_spec:
  assumes "lock_commands R view" and "0 < d"
    and "\<And>i. at_others (tries i) = id \<and> at_up (tries i) \<and> \<not> at_done (tries i)" and "view r (lockKey key) = Some (v, e)"
  shows "fst (TryLock R tries key value d maxRetries r) = (case first_free tries e 0 (nat (maxRetries + 1)) of
        None \<Rightarrow> Exhausted
      | Some j \<Rightarrow> Locked \<lparr>lk_Key = lockKey key, lk_Value = value, lk_Acquired = True, lk_ExpiresAt = at_now' (tries j) + d\<rparr>) \<and>
    view (snd (TryLock R tries key value d maxRetries r)) = (case first_free tries e 0 (nat (maxRetries + 1)) of
        None \<Rightarrow> view r
      | Some j \<Rightarrow> (view r)(lockKey key \<mapsto> (value, at_now (tries j) + d)))"
  unfolding TryLock_def by (rule try_loop_spec [OF assms])

text \<open>A client whose lock was taken over does not release the other's.\<close>

lemma release_own_only:
  assumes "lock_commands R view" and "view r (lk_Key l) = Some (v, e)" and "v \<noteq> lk_Value l" and "ReleaseLock R up now l r = (err, r1)"
  shows "view r1 = view r"
  using ReleaseLock_cases [OF assms(1,4)] assms(2,3) by (auto simp: holds_at_def)

text \<open>Two calls at the same nanosecond use the same value, so either can release the other's lock.\<close>

lemma same_instant_same_value: "lockValue now key = lockValue now key'  \<longleftrightarrow> key = key'"
  by (simp add: lockValue_def)

section \<open>Examples\<close>

definition sample_lock_sys :: "(string \<rightharpoonup> string \<times> gotime) lock_sys" where
  "sample_lock_sys = \<lparr>ls_redis = [''lock:k'' \<mapsto> (''x'', second)], ls_clock = 0, ls_leases = [0 \<mapsto> second]\<rparr>"

lemma sample_lock_reach: "lock_reach table_redis ''k'' (\<lambda>n. replicate (Suc n) (CHR ''x'')) sample_lock_sys"
proof -
  define val where "val = (\<lambda>n. replicate (Suc n) (CHR ''x''))"
  define s0 :: "(string \<rightharpoonup> string \<times> gotime) lock_sys" where "s0 = \<lparr>ls_redis = Map.empty, ls_clock = 0, ls_leases = Map.empty\<rparr>"
  have reach: "lock_reach table_redis ''k'' val s0" unfolding s0_def by (rule lock_reach.start)
  have acq: "AcquireLock table_redis True 0 0 ''k'' (val 0) second (ls_redis s0) =
      (Inr \<lparr>lk_Key = ''lock:k'', lk_Value = ''x'', lk_Acquired = True, lk_ExpiresAt = second\<rparr>, [''lock:k'' \<mapsto> (''x'', second)])"
    by (simp add: AcquireLock_def table_redis_def lockKey_def holds_at_def s0_def val_def)
  have "lock_reach table_redis ''k'' val sample_lock_sys"
    using lock_reach.acquire [OF reach _ _ acq] by (simp add: sample_lock_sys_def s0_def fun_upd_def)
  then show ?thesis unfolding val_def .
qed

lemma lock_exclusive_witness:
  "ls_leases sample_lock_sys 0 = Some second \<and> ls_clock sample_lock_sys < second \<and> (0 :: nat) = 0"
proof -
  have "inj (\<lambda>n. replicate (Suc n) (CHR ''x''))" by (auto simp: inj_def dest: arg_cong [of _ _ length])
  from lock_exclusive [OF table_redis_commands this sample_lock_reach, of 0 second 0 second] show ?thesis
    by (simp add: sample_lock_sys_def)
qed

lemma short_extension_unlocks_witness:
  "\<exists>l1 r1 l2 r2. ExtendLock table_redis True 0 0 \<lparr>lk_Key = ''lock:k'', lk_Value = ''x'', lk_Acquired = True, lk_ExpiresAt = 0\<rparr> 500000000
      [''lock:k'' \<mapsto> (''x'', second)] = (None, l1, r1) \<and>
    lk_ExpiresAt l1 = 500000000 \<and> AcquireLock table_redis True 0 0 ''k'' ''y'' second r1 = (Inr l2, r2) \<and> lk_Acquired l2"
  using short_extension_unlocks [OF table_redis_commands, of 500000000 second 0 "[''lock:k'' \<mapsto> (''x'', second)]" "''k''" "''x''" 0 0 "''y''"]
  by (simp add: lockKey_def holds_at_def)

definition sample_tries :: "nat \<Rightarrow> (string \<rightharpoonup> string \<times> gotime) attempt" where
  "sample_tries i = \<lparr>at_done = False, at_up = True, at_now = int i * second, at_now' = int i * second, at_others = id\<rparr>"

lemma TryLock_spec_witness:
  "fst (TryLock table_redis sample_tries ''k'' ''y'' second 3 [''lock:k'' \<mapsto> (''x'', 2 * second)]) =
     Locked \<lparr>lk_Key = ''lock:k'', lk_Value = ''y'', lk_Acquired = True, lk_ExpiresAt = 3 * second\<rparr>"
proof -
  have "first_free sample_tries (2 * second) 0 (nat (3 + 1)) = Some 2"
    by (simp add: first_free_def sample_tries_def upt_rec eval_nat_numeral)
  then show ?thesis
    using TryLock_spec [OF table_redis_commands, of second sample_tries "[''lock:k'' \<mapsto> (''x'', 2 * second)]" "''k''" "''x''" "2 * second" "''y''" 3]
    by (simp add: lockKey_def sample_tries_def)
qed

end
