(* ===== verification/TaskDefs.thy ===== *)
theory TaskDefs
  imports Dispatcher GoText
begin

text \<open>
  Task definitions and templates and their registry (src/crawler/task/definition.go).  The registry keeps
  both in maps and stores them in Redis as JSON.  The Redis commands and the JSON codec are arguments; a
  stored text is of some type \<open>'v\<close>.
\<close>

section \<open>Definitions\<close>

text \<open>A validator and a hook are known by a number; the code stores them and never calls them.\<close>

record link_rule =
  ln_Name :: string
  ln_Selector :: string
  ln_Type :: string
  ln_Attribute :: string
  ln_Pattern :: string
  ln_TaskType :: string
  ln_Priority :: int
  ln_Depth :: int
  ln_Metadata :: goval

record dedup_config =
  dd_Enabled :: bool
  dd_Strategy :: string
  dd_Fields :: "string list"
  dd_Expiration :: duration

record task_hooks =
  hk_BeforeExecute :: "nat option"
  hk_AfterExecute :: "nat option"
  hk_OnSuccess :: "nat option"
  hk_OnFailure :: "nat option"
  hk_OnRetry :: "nat option"

record task_def =
  df_ID :: string
  df_Name :: string
  df_Version :: string
  df_Description :: string
  df_Author :: string
  df_Category :: string
  df_Type :: string
  df_Priority :: int
  df_Method :: string
  df_Headers :: "(string \<rightharpoonup> string) option"
  df_DefaultTimeout :: duration
  df_MaxRetries :: int
  df_RetryInterval :: duration
  df_ExtractRules :: "extract_rule list"
  df_LinkRules :: "link_rule list"
  df_Pipeline :: string
  df_Processors :: "string list"
  df_Storage :: string
  df_Deduplication :: dedup_config
  df_Validator :: "nat option"
  df_Schema :: goval
  df_Hooks :: task_hooks
  df_Tags :: "string list"
  df_Labels :: "(string \<rightharpoonup> string) option"
  df_Metadata :: "(string \<rightharpoonup> goval) option"
  df_Active :: bool
  df_CreatedAt :: gotime
  df_UpdatedAt :: gotime

record task_template =
  tpl_ID :: string
  tpl_Name :: string
  tpl_Description :: string
  tpl_Definition :: string
  tpl_URLPattern :: string
  tpl_URLParams :: "(string \<rightharpoonup> goval) option"
  tpl_Headers :: "(string \<rightharpoonup> string) option"
  tpl_Metadata :: "(string \<rightharpoonup> goval) option"
  tpl_Priority :: "int option"
  tpl_MaxRetries :: "int option"
  tpl_Schedule :: string
  tpl_Enabled :: bool
  tpl_CreatedAt :: gotime
  tpl_UpdatedAt :: gotime

text \<open>Ranging over a map that may be nil, writing each entry to another map.\<close>

definition entries :: "('k \<rightharpoonup> 'v) option \<Rightarrow> 'k \<rightharpoonup> 'v" where
  "entries mo = (case mo of None \<Rightarrow> Map.empty | Some m \<Rightarrow> m)"

definition def_CreateTask :: "(string \<Rightarrow> string) \<Rightarrow> string \<Rightarrow> gotime \<Rightarrow> task_def \<Rightarrow> string \<Rightarrow> (string \<rightharpoonup> goval) option \<Rightarrow> task" where
  "def_CreateTask hash uuid now d url metadata =
     (let t = NewTask hash uuid now url (df_Type d) (df_Priority d)
      in t\<lparr>t_Method := df_Method d, t_Headers := Some (entries (df_Headers d)), t_Timeout := df_DefaultTimeout d,
           t_MaxRetries := df_MaxRetries d, t_ExtractRules := df_ExtractRules d, t_PipelineID := df_Pipeline d,
           t_Metadata := Some ((entries (t_Metadata t))(''definition_id'' \<mapsto> GStr (df_ID d), ''definition_name'' \<mapsto> GStr (df_Name d))
             ++ entries (df_Metadata d) ++ entries metadata),
           t_Tags := t_Tags t @ df_Tags d\<rparr>)"

datatype def_error = DefIDRequired | DefNameRequired | DefTypeRequired | DefNegativeRetries

text \<open>\<open>Validate\<close> fills in the defaults on its way, also when the last check fails.\<close>

definition def_Validate :: "task_def \<Rightarrow> task_def \<times> def_error option" where
  "def_Validate d =
     (if df_ID d = '''' then (d, Some DefIDRequired)
      else if df_Name d = '''' then (d, Some DefNameRequired)
      else if df_Type d = '''' then (d, Some DefTypeRequired)
      else let d1 = (if df_Method d = '''' then d\<lparr>df_Method := ''GET''\<rparr> else d);
               d2 = (if df_DefaultTimeout d1 \<le> 0 then d1\<lparr>df_DefaultTimeout := 30 * second\<rparr> else d1)
           in if df_MaxRetries d2 < 0 then (d2, Some DefNegativeRetries) else (d2, None))"

section \<open>Child tasks\<close>

definition def_extractURLs :: "(string \<rightharpoonup> goval) list \<Rightarrow> link_rule \<Rightarrow> string list" where
  "def_extractURLs data rule =
     List.map_filter (\<lambda>item. case item (ln_Name rule) of Some (GStr url) \<Rightarrow> Some url | _ \<Rightarrow> None) data"

text \<open>The rule's metadata is copied when it is a map, key by key.\<close>

definition put_entries :: "(string \<times> goval) list \<Rightarrow> (string \<rightharpoonup> goval) \<Rightarrow> string \<rightharpoonup> goval" where
  "put_entries kvs m = fold (\<lambda>(k, v) m. m(k \<mapsto> v)) kvs m"

definition child_task :: "(string \<Rightarrow> string) \<Rightarrow> string \<Rightarrow> gotime \<Rightarrow> task \<Rightarrow> link_rule \<Rightarrow> string \<Rightarrow> task" where
  "child_task hash uuid now parent rule url =
     (let t = NewTask hash uuid now url (ln_TaskType rule) (ln_Priority rule);
          md = (case ln_Metadata rule of GMap kvs \<Rightarrow> put_entries kvs (entries (t_Metadata parent)) | _ \<Rightarrow> entries (t_Metadata parent))
      in t\<lparr>t_ParentID := t_ID parent, t_Depth := t_Depth parent + 1,
           t_Metadata := Some (md(''link_rule'' \<mapsto> GStr (ln_Name rule), ''parent_task'' \<mapsto> GStr (t_ID parent)))\<rparr>)"

text \<open>\<open>fresh\<close> gives the identifier and the instant of the i-th task made.\<close>

definition rule_applies :: "task \<Rightarrow> link_rule \<Rightarrow> bool" where
  "rule_applies parent rule \<longleftrightarrow> \<not> (t_Depth parent \<ge> ln_Depth rule \<and> ln_Depth rule > 0)"

definition GenerateChildTasks :: "(string \<Rightarrow> string) \<Rightarrow> (nat \<Rightarrow> string \<times> gotime) \<Rightarrow> task_def \<Rightarrow> task \<Rightarrow> (string \<rightharpoonup> goval) list \<Rightarrow> task list" where
  "GenerateChildTasks hash fresh d parent data =
     (let links = concat (map (\<lambda>rule. map (Pair rule) (def_extractURLs data rule)) (filter (rule_applies parent) (df_LinkRules d)))
      in map (\<lambda>(i, rule, url). child_task hash (fst (fresh i)) (snd (fresh i)) parent rule url) (enumerate 0 links))"

section \<open>Redis and the codec\<close>

text \<open>
  A write reports whether it succeeded, a read gives \<open>None\<close> when the key is absent or Redis fails; a lifetime
  of zero is none.  What Go stores when encoding fails is \<open>tc_empty\<close>.
\<close>

record ('r, 'v) kv_commands =
  kvs_Set :: "gotime \<Rightarrow> string \<Rightarrow> 'v \<Rightarrow> duration \<Rightarrow> 'r \<Rightarrow> bool \<times> 'r"
  kvs_Get :: "gotime \<Rightarrow> string \<Rightarrow> 'r \<Rightarrow> 'v option"
  kvs_SAdd :: "string \<Rightarrow> string \<Rightarrow> 'r \<Rightarrow> 'r"
  kvs_SMembers :: "string \<Rightarrow> 'r \<Rightarrow> string list option"
  kvs_Keys :: "gotime \<Rightarrow> string \<Rightarrow> 'r \<Rightarrow> string list option"

record 'v def_codec =
  tc_def :: "task_def \<Rightarrow> 'v option"
  tc_read_def :: "'v \<Rightarrow> task_def option"
  tc_tpl :: "task_template \<Rightarrow> 'v option"
  tc_read_tpl :: "'v \<Rightarrow> task_template option"
  tc_empty :: 'v

section \<open>The registry\<close>

text \<open>The Redis of the registry is passed beside it, since the task manager uses the same one.\<close>

record task_registry =
  tg_definitions :: "string \<rightharpoonup> task_def"
  tg_templates :: "string \<rightharpoonup> task_template"
  tg_validators :: "string \<rightharpoonup> nat"
  tg_prefix :: string

definition NewTaskRegistry :: "string \<Rightarrow> task_registry" where
  "NewTaskRegistry pre = \<lparr>tg_definitions = Map.empty, tg_templates = Map.empty, tg_validators = Map.empty, tg_prefix = pre\<rparr>"

datatype registry_error =
    InvalidDefinition def_error
  | AlreadyExists string
  | NotFound string
  | Unreadable string
  | TemplateIDRequired
  | DefinitionMissing registry_error

definition definition_key :: "task_registry \<Rightarrow> string \<Rightarrow> string" where
  "definition_key g i = tg_prefix g @ '':definition:'' @ i"

definition template_key :: "task_registry \<Rightarrow> string \<Rightarrow> string" where
  "template_key g i = tg_prefix g @ '':template:'' @ i"

text \<open>The definition is given by reference: the caller's is validated, and so completed, even when it is refused.\<close>

definition RegisterDefinition :: "('r, 'v) kv_commands \<Rightarrow> 'v def_codec \<Rightarrow> gotime \<Rightarrow> task_def \<Rightarrow> task_registry \<Rightarrow> 'r \<Rightarrow>
    registry_error option \<times> task_def \<times> task_registry \<times> 'r" where
  "RegisterDefinition K C now d g r =
     (case def_Validate d of
        (d1, Some e) \<Rightarrow> (Some (InvalidDefinition e), d1, g, r)
      | (d1, None) \<Rightarrow>
          if tg_definitions g (df_ID d1) \<noteq> None then (Some (AlreadyExists (df_ID d1)), d1, g, r)
          else let data = (case tc_def C d1 of Some w \<Rightarrow> w | None \<Rightarrow> tc_empty C);
                   r1 = snd (kvs_Set K now (definition_key g (df_ID d1)) data 0 r);
                   r2 = kvs_SAdd K (tg_prefix g @ '':definitions'') (df_ID d1) r1
               in (None, d1, g\<lparr>tg_definitions := (tg_definitions g)(df_ID d1 \<mapsto> d1)\<rparr>, r2))"

definition GetDefinition :: "('r, 'v) kv_commands \<Rightarrow> 'v def_codec \<Rightarrow> gotime \<Rightarrow> string \<Rightarrow> task_registry \<Rightarrow> 'r \<Rightarrow>
    (registry_error + task_def) \<times> task_registry" where
  "GetDefinition K C now i g r =
     (case tg_definitions g i of
        Some d \<Rightarrow> (Inr d, g)
      | None \<Rightarrow> (case kvs_Get K now (definition_key g i) r of
            None \<Rightarrow> (Inl (NotFound i), g)
          | Some data \<Rightarrow> (case tc_read_def C data of
                None \<Rightarrow> (Inl (Unreadable i), g)
              | Some d \<Rightarrow> (Inr d, g\<lparr>tg_definitions := (tg_definitions g)(i \<mapsto> d)\<rparr>))))"

text \<open>\<open>ks\<close> is the order in which the loop visits the map.\<close>

definition ListDefinitions :: "string list \<Rightarrow> task_registry \<Rightarrow> task_def list" where
  "ListDefinitions ks g = values_of ks (tg_definitions g)"

definition RegisterTemplate :: "('r, 'v) kv_commands \<Rightarrow> 'v def_codec \<Rightarrow> gotime \<Rightarrow> task_template \<Rightarrow> task_registry \<Rightarrow> 'r \<Rightarrow>
    registry_error option \<times> task_registry \<times> 'r" where
  "RegisterTemplate K C now m g r =
     (if tpl_ID m = '''' then (Some TemplateIDRequired, g, r)
      else case GetDefinition K C now (tpl_Definition m) g r of
          (Inl e, g1) \<Rightarrow> (Some (DefinitionMissing e), g1, r)
        | (Inr _, g1) \<Rightarrow>
            let data = (case tc_tpl C m of Some w \<Rightarrow> w | None \<Rightarrow> tc_empty C);
                r1 = snd (kvs_Set K now (template_key g1 (tpl_ID m)) data 0 r);
                r2 = kvs_SAdd K (tg_prefix g1 @ '':templates'') (tpl_ID m) r1
            in (None, g1\<lparr>tg_templates := (tg_templates g1)(tpl_ID m \<mapsto> m)\<rparr>, r2))"

definition GetTemplate :: "('r, 'v) kv_commands \<Rightarrow> 'v def_codec \<Rightarrow> gotime \<Rightarrow> string \<Rightarrow> task_registry \<Rightarrow> 'r \<Rightarrow>
    (registry_error + task_template) \<times> task_registry" where
  "GetTemplate K C now i g r =
     (case tg_templates g i of
        Some m \<Rightarrow> (Inr m, g)
      | None \<Rightarrow> (case kvs_Get K now (template_key g i) r of
            None \<Rightarrow> (Inl (NotFound i), g)
          | Some data \<Rightarrow> (case tc_read_tpl C data of
                None \<Rightarrow> (Inl (Unreadable i), g)
              | Some m \<Rightarrow> (Inr m, g\<lparr>tg_templates := (tg_templates g)(i \<mapsto> m)\<rparr>))))"

text \<open>One pass over the parameters replaces \<open>{k}\<close> by the value, in the order \<open>ks\<close> of the map.\<close>

definition fill_params :: "(goval \<Rightarrow> string) \<Rightarrow> string list \<Rightarrow> (string \<rightharpoonup> goval) option \<Rightarrow> string \<Rightarrow> string" where
  "fill_params sp ks mo url =
     fold (\<lambda>k u. case entries mo k of None \<Rightarrow> u | Some v \<Rightarrow> ReplaceAll u (CHR ''{'' # k @ ''}'') (sp v)) ks url"

definition CreateTaskFromTemplate :: "('r, 'v) kv_commands \<Rightarrow> 'v def_codec \<Rightarrow> (string \<Rightarrow> string) \<Rightarrow> (goval \<Rightarrow> string) \<Rightarrow> string \<Rightarrow> gotime \<Rightarrow>
    string list \<Rightarrow> string list \<Rightarrow> string \<Rightarrow> (string \<rightharpoonup> goval) option \<Rightarrow> task_registry \<Rightarrow> 'r \<Rightarrow> (registry_error + task) \<times> task_registry" where
  "CreateTaskFromTemplate K C hash sp uuid now ks ks' i params g r =
     (case GetTemplate K C now i g r of
        (Inl e, g1) \<Rightarrow> (Inl e, g1)
      | (Inr m, g1) \<Rightarrow> (case GetDefinition K C now (tpl_Definition m) g1 r of
            (Inl e, g2) \<Rightarrow> (Inl e, g2)
          | (Inr d, g2) \<Rightarrow>
              let url = fill_params sp ks' params (fill_params sp ks (tpl_URLParams m) (tpl_URLPattern m));
                  t = def_CreateTask hash uuid now d url (tpl_Metadata m);
                  t1 = t\<lparr>t_Headers := Some (entries (t_Headers t) ++ entries (tpl_Headers m))\<rparr>;
                  t2 = (case tpl_Priority m of None \<Rightarrow> t1 | Some p \<Rightarrow> t1\<lparr>t_Priority := p\<rparr>);
                  t3 = (case tpl_MaxRetries m of None \<Rightarrow> t2 | Some n \<Rightarrow> t2\<lparr>t_MaxRetries := n\<rparr>)
              in (Inr (t3\<lparr>t_Metadata := Some ((entries (t_Metadata t3))(''template_id'' \<mapsto> GStr (tpl_ID m), ''template_name'' \<mapsto> GStr (tpl_Name m)))\<rparr>), g2)))"

definition RegisterValidator :: "string \<Rightarrow> nat \<Rightarrow> task_registry \<Rightarrow> task_registry" where
  "RegisterValidator name v g = g\<lparr>tg_validators := (tg_validators g)(name \<mapsto> v)\<rparr>"

definition GetValidator :: "string \<Rightarrow> task_registry \<Rightarrow> registry_error + nat" where
  "GetValidator name g = (case tg_validators g name of None \<Rightarrow> Inl (NotFound name) | Some v \<Rightarrow> Inr v)"

text \<open>Loading reads every listed entry; one that fails is skipped.\<close>

definition LoadDefinitionsFromRedis :: "('r, 'v) kv_commands \<Rightarrow> 'v def_codec \<Rightarrow> gotime \<Rightarrow> task_registry \<Rightarrow> 'r \<Rightarrow> bool \<times> task_registry" where
  "LoadDefinitionsFromRedis K C now g r =
     (case kvs_SMembers K (tg_prefix g @ '':definitions'') r of
        None \<Rightarrow> (False, g)
      | Some ids \<Rightarrow> (True, fold (\<lambda>i g. snd (GetDefinition K C now i g r)) ids g))"

definition LoadTemplatesFromRedis :: "('r, 'v) kv_commands \<Rightarrow> 'v def_codec \<Rightarrow> gotime \<Rightarrow> task_registry \<Rightarrow> 'r \<Rightarrow> bool \<times> task_registry" where
  "LoadTemplatesFromRedis K C now g r =
     (case kvs_SMembers K (tg_prefix g @ '':templates'') r of
        None \<Rightarrow> (False, g)
      | Some ids \<Rightarrow> (True, fold (\<lambda>i g. snd (GetTemplate K C now i g r)) ids g))"


section \<open>What the commands do\<close>

text \<open>
  A key's value and its expiry, and a key's set.  Both kinds of values are kept apart: this is Redis where no
  key is used with two types, and where every command is answered.  A pattern is some text without wildcards
  followed by a star.
\<close>

definition kvs_read :: "gotime \<Rightarrow> ('v \<times> gotime option) option \<Rightarrow> 'v option" where
  "kvs_read now c = (case c of
      None \<Rightarrow> None
    | Some (v, None) \<Rightarrow> Some v
    | Some (v, Some e) \<Rightarrow> if now < e then Some v else None)"

definition no_glob :: "string \<Rightarrow> bool" where
  "no_glob p = list_all (\<lambda>c. c \<notin> set ''*?['' \<and> of_char c \<noteq> (92 :: nat)) p"

definition kv_answers :: "('r, 'v) kv_commands \<Rightarrow> ('r \<Rightarrow> string \<rightharpoonup> 'v \<times> gotime option) \<Rightarrow> ('r \<Rightarrow> string \<Rightarrow> string set) \<Rightarrow> bool" where
  "kv_answers K vs ss \<longleftrightarrow>
     (\<forall>now k v d r. fst (kvs_Set K now k v d r) \<and> vs (snd (kvs_Set K now k v d r)) = (vs r)(k \<mapsto> (v, if d = 0 then None else Some (now + d))) \<and>
        ss (snd (kvs_Set K now k v d r)) = ss r) \<and>
     (\<forall>now k r. kvs_Get K now k r = kvs_read now (vs r k)) \<and>
     (\<forall>k m r. vs (kvs_SAdd K k m r) = vs r \<and> ss (kvs_SAdd K k m r) = (ss r)(k := insert m (ss r k))) \<and>
     (\<forall>k r. \<exists>ms. kvs_SMembers K k r = Some ms \<and> distinct ms \<and> set ms = ss r k) \<and>
     (\<forall>now p r. no_glob p \<longrightarrow> (\<exists>ks. kvs_Keys K now (p @ ''*'') r = Some ks \<and> distinct ks \<and>
        set ks = {k. HasPrefix k p \<and> (kvs_read now (vs r k) \<noteq> None \<or> ss r k \<noteq> {})}))"

lemma kv_answersD:
  assumes "kv_answers K vs ss"
  shows "fst (kvs_Set K now k v d r)"
    and "vs (snd (kvs_Set K now k v d r)) = (vs r)(k \<mapsto> (v, if d = 0 then None else Some (now + d)))"
    and "ss (snd (kvs_Set K now k v d r)) = ss r"
    and "kvs_Get K now k r = kvs_read now (vs r k)"
    and "vs (kvs_SAdd K k m r) = vs r"
    and "ss (kvs_SAdd K k m r) = (ss r)(k := insert m (ss r k))"
    and "\<exists>ms. kvs_SMembers K k r = Some ms \<and> distinct ms \<and> set ms = ss r k"
    and "no_glob p \<Longrightarrow> \<exists>ks. kvs_Keys K now (p @ ''*'') r = Some ks \<and> distinct ks \<and>
        set ks = {k. HasPrefix k p \<and> (kvs_read now (vs r k) \<noteq> None \<or> ss r k \<noteq> {})}"
  using assms by (simp_all add: kv_answers_def)

lemma kvs_read_simps [simp]:
  "kvs_read now None = None" "kvs_read now (Some (v, None)) = Some v"
  "kvs_read now (Some (v, Some e)) = (if now < e then Some v else None)"
  by (simp_all add: kvs_read_def)

text \<open>Two association lists are an instance.\<close>

record 'v kv_mem =
  km_str :: "(string \<times> 'v \<times> gotime option) list"
  km_set :: "(string \<times> string) list"

definition km_members :: "'v kv_mem \<Rightarrow> string \<Rightarrow> string set" where
  "km_members r k = {m. (k, m) \<in> set (km_set r)}"

definition mem_kv :: "('v kv_mem, 'v) kv_commands" where
  "mem_kv = \<lparr>kvs_Set = (\<lambda>now k v d r. (True, r\<lparr>km_str := (k, v, if d = 0 then None else Some (now + d)) # km_str r\<rparr>)),
     kvs_Get = (\<lambda>now k r. kvs_read now (map_of (km_str r) k)),
     kvs_SAdd = (\<lambda>k m r. r\<lparr>km_set := (k, m) # km_set r\<rparr>),
     kvs_SMembers = (\<lambda>k r. Some (remdups (map snd (filter (\<lambda>(k', m). k' = k) (km_set r))))),
     kvs_Keys = (\<lambda>now p r. Some (remdups (filter (\<lambda>k. HasPrefix k (butlast p) \<and>
        (kvs_read now (map_of (km_str r) k) \<noteq> None \<or> k \<in> fst ` set (km_set r))) (map fst (km_str r) @ map fst (km_set r)))))\<rparr>"

lemma mem_kv_keys:
  "set (remdups (filter (\<lambda>k. HasPrefix k p \<and> (kvs_read now (map_of (km_str r) k) \<noteq> None \<or> k \<in> fst ` set (km_set r)))
      (map fst (km_str r) @ map fst (km_set r)))) =
    {k. HasPrefix k p \<and> (kvs_read now (map_of (km_str r) k) \<noteq> None \<or> km_members r k \<noteq> {})}"
proof -
  have dom: "k \<in> fst ` set xs" if "kvs_read now (map_of xs k) = Some y" for k now y and xs :: "(string \<times> 'v \<times> gotime option) list"
    using that by (metis kvs_read_simps(1) map_of_eq_None_iff option.distinct(1))
  have sets: "km_members r k \<noteq> {} \<longleftrightarrow> k \<in> fst ` set (km_set r)" for r :: "'v kv_mem" and k
    by (force simp: km_members_def)
  show ?thesis unfolding sets by (auto simp del: map_of_eq_None_iff dest: dom)
qed

lemma mem_kv_answers: "kv_answers mem_kv (\<lambda>r. map_of (km_str r)) km_members"
  unfolding kv_answers_def
proof (intro conjI allI impI)
  fix k and r :: "'v kv_mem"
  have "set (map snd (filter (\<lambda>(k', m). k' = k) (km_set r))) = km_members r k" by (force simp: km_members_def)
  then show "\<exists>ms. kvs_SMembers mem_kv k r = Some ms \<and> distinct ms \<and> set ms = km_members r k"
    by (simp add: mem_kv_def)
next
  fix now p and r :: "'v kv_mem"
  show "\<exists>ks. kvs_Keys mem_kv now (p @ ''*'') r = Some ks \<and> distinct ks \<and>
      set ks = {k. HasPrefix k p \<and> (kvs_read now (map_of (km_str r) k) \<noteq> None \<or> km_members r k \<noteq> {})}"
    using mem_kv_keys [of p now r] by (simp add: mem_kv_def)
qed (auto simp: mem_kv_def km_members_def fun_eq_iff)

section \<open>Definitions across restarts\<close>

lemma def_Validate_ID [simp]: "df_ID (fst (def_Validate d)) = df_ID d"
  by (simp add: def_Validate_def Let_def)

lemma RegisterDefinition_stores:
  assumes "kv_answers K vs ss" and "def_Validate d = (d1, None)" and "tg_definitions g (df_ID d) = None" and "tc_def C d1 = Some w"
  obtains g1 r1 where "RegisterDefinition K C now d g r = (None, d1, g1, r1)" "tg_definitions g1 (df_ID d) = Some d1"
    "vs r1 = (vs r)(definition_key g (df_ID d) \<mapsto> (w, None))"
proof -
  have "df_ID d1 = df_ID d" using def_Validate_ID [of d] assms(2) by simp
  then show ?thesis using that assms(2-4) by (simp add: RegisterDefinition_def kv_answersD [OF assms(1)] Let_def)
qed

lemma GetDefinition_fresh:
  assumes "kv_answers K vs ss" and "vs r (definition_key (NewTaskRegistry p) i) = Some (w, None)" and "tc_read_def C w = Some d"
  shows "fst (GetDefinition K C now i (NewTaskRegistry p) r) = Inr d"
  using assms(2,3) by (simp add: GetDefinition_def kv_answersD [OF assms(1)] NewTaskRegistry_def)

lemma definition_key_prefix: "definition_key (NewTaskRegistry (tg_prefix g)) i = definition_key g i"
  by (simp add: definition_key_def NewTaskRegistry_def)

text \<open>
  A registered definition is found by the process that registered it, completed with its defaults, and
  by every later process as its JSON text reads.  The test for duplicates only looks at the memory of the
  process: a later process may register another definition under the same identifier, which replaces the
  first one for every process after that, while the first keeps its own.
\<close>
theorem definition_survives_restart:
  assumes "kv_answers K vs ss" and "def_Validate d = (d1, None)" and "tg_definitions g (df_ID d) = None"
    and "tc_def C d1 = Some w" and "tc_read_def C w = Some d'"
    and "def_Validate e = (e1, None)" and "df_ID e = df_ID d" and "tc_def C e1 = Some x" and "tc_read_def C x = Some e'"
  shows "\<exists>g1 r1 g2 r2. RegisterDefinition K C now d g r = (None, d1, g1, r1) \<and>
    fst (GetDefinition K C t (df_ID d) g1 r1) = Inr d1 \<and>
    fst (GetDefinition K C t (df_ID d) (NewTaskRegistry (tg_prefix g)) r1) = Inr d' \<and>
    RegisterDefinition K C now e g1 r1 = (Some (AlreadyExists (df_ID d)), e1, g1, r1) \<and>
    RegisterDefinition K C now e (NewTaskRegistry (tg_prefix g)) r1 = (None, e1, g2, r2) \<and>
    fst (GetDefinition K C t (df_ID d) (NewTaskRegistry (tg_prefix g)) r2) = Inr e' \<and>
    fst (GetDefinition K C t (df_ID d) g1 r2) = Inr d1"
proof -
  obtain g1 r1 where reg: "RegisterDefinition K C now d g r = (None, d1, g1, r1)" and mem: "tg_definitions g1 (df_ID d) = Some d1"
    and view: "vs r1 = (vs r)(definition_key g (df_ID d) \<mapsto> (w, None))"
    by (rule RegisterDefinition_stores [OF assms(1-4)])
  let ?n = "NewTaskRegistry (tg_prefix g)"
  have "tg_definitions ?n (df_ID e) = None" by (simp add: NewTaskRegistry_def)
  then obtain g2 r2 where reg2: "RegisterDefinition K C now e ?n r1 = (None, e1, g2, r2)"
    and view2: "vs r2 = (vs r1)(definition_key ?n (df_ID e) \<mapsto> (x, None))"
    by (rule RegisterDefinition_stores [OF assms(1,6) _ assms(8)])
  have "df_ID e1 = df_ID d" using def_Validate_ID [of e] assms(6,7) by simp
  then have dup: "RegisterDefinition K C now e g1 r1 = (Some (AlreadyExists (df_ID d)), e1, g1, r1)"
    using assms(6) mem by (simp add: RegisterDefinition_def)
  have "fst (GetDefinition K C t (df_ID d) ?n r1) = Inr d'"
    by (rule GetDefinition_fresh [OF assms(1) _ assms(5)]) (simp add: view definition_key_prefix)
  moreover have "fst (GetDefinition K C t (df_ID d) ?n r2) = Inr e'"
    by (rule GetDefinition_fresh [OF assms(1) _ assms(9)]) (simp add: view2 assms(7))
  moreover have "fst (GetDefinition K C t (df_ID d) g1 r') = Inr d1" for r' by (simp add: GetDefinition_def mem)
  ultimately show ?thesis using reg reg2 dup by blast
qed


section \<open>Child tasks\<close>

lemma map_snd_enumerate: "map (\<lambda>(i, x). f x) (enumerate n xs) = map f xs"
  by (induction xs arbitrary: n) simp_all

lemma enumerate_member: "(i, x) \<in> set (enumerate n xs) \<Longrightarrow> x \<in> set xs"
  by (induction xs arbitrary: n) auto

lemma child_task_fields:
  "t_URL (child_task hash u now p r url) = url" "t_Depth (child_task hash u now p r url) = t_Depth p + 1"
  "t_ParentID (child_task hash u now p r url) = t_ID p" "t_Type (child_task hash u now p r url) = ln_TaskType r"
  "get_in_map ''link_rule'' (t_Metadata (child_task hash u now p r url)) = Some (GStr (ln_Name r))"
  "t_Headers (child_task hash u now p r url) = None" "t_MaxRetries (child_task hash u now p r url) = 3"
  by (simp_all add: child_task_def NewTask_def zero_task_def get_in_map_def Let_def split: goval.split)

text \<open>
  The children of a task are one for each link a rule still allowed at its depth finds, in the order of
  the rules and of the data; each is one deeper, never deeper than its rule allows, and names its parent and
  its rule.  None takes over the definition's headers or limit on retries.
\<close>
theorem child_tasks_spec:
  "map t_URL (GenerateChildTasks hash fresh d parent data) =
     concat (map (def_extractURLs data) (filter (rule_applies parent) (df_LinkRules d))) \<and>
   (\<forall>c \<in> set (GenerateChildTasks hash fresh d parent data). t_Depth c = t_Depth parent + 1 \<and> t_ParentID c = t_ID parent \<and>
     t_Headers c = None \<and> t_MaxRetries c = 3 \<and>
     (\<exists>rule \<in> set (df_LinkRules d). rule_applies parent rule \<and> get_in_map ''link_rule'' (t_Metadata c) = Some (GStr (ln_Name rule)) \<and>
        t_URL c \<in> set (def_extractURLs data rule) \<and> (ln_Depth rule \<le> 0 \<or> t_Depth c \<le> ln_Depth rule)))"
proof -
  let ?links = "concat (map (\<lambda>rule. map (Pair rule) (def_extractURLs data rule)) (filter (rule_applies parent) (df_LinkRules d)))"
  have urls: "map t_URL (GenerateChildTasks hash fresh d parent data) = map snd ?links"
    by (simp add: GenerateChildTasks_def Let_def comp_def case_prod_unfold child_task_fields(1) flip: map_snd_enumerate [of snd 0 ?links])
  have "map snd ?links = concat (map (def_extractURLs data) (filter (rule_applies parent) (df_LinkRules d)))"
    by (simp add: map_concat comp_def)
  moreover have "t_Depth c = t_Depth parent + 1 \<and> t_ParentID c = t_ID parent \<and> t_Headers c = None \<and> t_MaxRetries c = 3 \<and>
     (\<exists>rule \<in> set (df_LinkRules d). rule_applies parent rule \<and> get_in_map ''link_rule'' (t_Metadata c) = Some (GStr (ln_Name rule)) \<and>
        t_URL c \<in> set (def_extractURLs data rule) \<and> (ln_Depth rule \<le> 0 \<or> t_Depth c \<le> ln_Depth rule))"
    if c_in: "c \<in> set (GenerateChildTasks hash fresh d parent data)" for c
  proof -
    obtain i rule url where c: "c = child_task hash (fst (fresh i)) (snd (fresh i)) parent rule url" and "(i, rule, url) \<in> set (enumerate 0 ?links)"
      using c_in by (auto simp: GenerateChildTasks_def Let_def)
    then have "(rule, url) \<in> set ?links" by - (rule enumerate_member)
    then have rule: "rule \<in> set (df_LinkRules d)" "rule_applies parent rule" "url \<in> set (def_extractURLs data rule)" by auto
    show ?thesis unfolding c child_task_fields using rule by (auto simp: rule_applies_def)
  qed
  ultimately show ?thesis unfolding urls by blast
qed


text \<open>The rule's kind, selector, attribute and pattern play no part.\<close>

lemma rule_pattern_ignored:
  "def_extractURLs data (rule\<lparr>ln_Type := ty, ln_Selector := sel, ln_Attribute := a, ln_Pattern := p\<rparr>) = def_extractURLs data rule"
  by (simp add: def_extractURLs_def)

section \<open>The address of a template\<close>

lemma ReplaceAll_Nil: "old \<noteq> [] \<Longrightarrow> ReplaceAll [] old new = []"
  by (simp add: ReplaceAll_def Split_def split_at.simps)

lemma ReplaceAll_here: "old \<noteq> [] \<Longrightarrow> ReplaceAll (old @ s) old new = new @ ReplaceAll s old new"
proof -
  assume a: "old \<noteq> []"
  then obtain c o' where o: "old = c # o'" by (cases old) auto
  have "Index (old @ s) old = Some 0" by (simp add: o HasPrefix_def)
  then have "split_at old (old @ s) = [] # split_at old s" using a by (subst split_at.simps) simp
  moreover obtain x xs where "split_at old s = x # xs" using split_at_nonempty [OF a] by (meson neq_Nil_conv)
  ultimately show ?thesis using a by (simp add: ReplaceAll_def Split_def join_Cons)
qed

lemma ReplaceAll_skip: "old \<noteq> [] \<Longrightarrow> \<not> HasPrefix (c # s) old \<Longrightarrow> ReplaceAll (c # s) old new = c # ReplaceAll s old new"
proof (cases "Index s old")
  case None
  assume "old \<noteq> []" "\<not> HasPrefix (c # s) old"
  then show ?thesis using None by (simp add: ReplaceAll_def Split_def split_at.simps [of old])
next
  case (Some i)
  assume a: "old \<noteq> []" and "\<not> HasPrefix (c # s) old"
  then have "split_at old (c # s) = (c # take i s) # split_at old (drop (i + length old) s)"
    using Some by (subst split_at.simps) simp
  moreover have "split_at old s = take i s # split_at old (drop (i + length old) s)" using a Some by (subst split_at.simps) simp
  moreover obtain x xs where "split_at old (drop (i + length old) s) = x # xs" using split_at_nonempty [OF a] by (meson neq_Nil_conv)
  ultimately show ?thesis using a by (simp add: ReplaceAll_def Split_def join_Cons)
qed

lemma ReplaceAll_literal: "c \<notin> set a \<Longrightarrow> ReplaceAll (a @ s) (c # o') new = a @ ReplaceAll s (c # o') new"
  by (induction a) (auto simp: ReplaceAll_skip HasPrefix_def)

text \<open>A pattern is a list of literals and parameters; \<open>fill\<close> writes it with the values known so far.\<close>

datatype piece = Lit string | Par string

fun fill :: "(string \<rightharpoonup> string) \<Rightarrow> piece list \<Rightarrow> string" where
  "fill \<sigma> [] = []"
| "fill \<sigma> (Lit s # ps) = s @ fill \<sigma> ps"
| "fill \<sigma> (Par k # ps) = (case \<sigma> k of None \<Rightarrow> ''{'' @ k @ ''}'' | Some v \<Rightarrow> v) @ fill \<sigma> ps"

definition no_braces :: "string \<Rightarrow> bool" where
  "no_braces s = (CHR ''{'' \<notin> set s \<and> CHR ''}'' \<notin> set s)"

fun plain_piece :: "piece \<Rightarrow> bool" where
  "plain_piece (Lit s) = no_braces s"
| "plain_piece (Par k) = no_braces k"

lemma other_param: "no_braces k \<Longrightarrow> no_braces k' \<Longrightarrow> HasPrefix (k' @ ''}'' @ s) (k @ ''}'') \<longleftrightarrow> k' = k"
proof (induction k arbitrary: k')
  case Nil
  then show ?case by (cases k') (auto simp: HasPrefix_def no_braces_def)
next
  case (Cons c k)
  then show ?case by (cases k') (auto simp: HasPrefix_def no_braces_def)
qed

lemma ReplaceAll_fill:
  assumes "no_braces k" and "\<sigma> k = None" and "\<And>k' v'. \<sigma> k' = Some v' \<Longrightarrow> no_braces v'"
    and \<tau>: "\<tau> k = Some v" "\<And>k'. k' \<noteq> k \<Longrightarrow> \<tau> k' = \<sigma> k'"
  shows "list_all plain_piece ps \<Longrightarrow> ReplaceAll (fill \<sigma> ps) (CHR ''{'' # k @ ''}'') v = fill \<tau> ps"
proof (induction ps)
  case Nil
  then show ?case by (simp add: ReplaceAll_Nil)
next
  case (Cons p ps)
  then have IH: "ReplaceAll (fill \<sigma> ps) (CHR ''{'' # k @ ''}'') v = fill \<tau> ps" by simp
  show ?case
  proof (cases p)
    case (Lit s)
    then show ?thesis using Cons.prems by (simp add: ReplaceAll_literal no_braces_def IH)
  next
    case (Par k')
    show ?thesis
    proof (cases "\<sigma> k'")
      case (Some v')
      then have "k' \<noteq> k" and "no_braces v'" using assms(2,3) by auto
      then show ?thesis using Some by (simp add: Par ReplaceAll_literal no_braces_def IH \<tau>)
    next
      case None
      show ?thesis
      proof (cases "k' = k")
        case True
        then show ?thesis using None ReplaceAll_here [of "CHR ''{'' # k @ ''}''" "fill \<sigma> ps" v] by (simp add: Par IH \<tau>(1))
      next
        case False
        have "no_braces k'" using Cons.prems Par by simp
        then have "\<not> HasPrefix (CHR ''{'' # k' @ ''}'' @ fill \<sigma> ps) (CHR ''{'' # k @ ''}'')" and "CHR ''{'' \<notin> set (k' @ ''}'')"
          using other_param [OF assms(1), of k' "fill \<sigma> ps"] False by (simp_all add: HasPrefix_def no_braces_def)
        then show ?thesis using None ReplaceAll_literal [of "CHR ''{''" "k' @ ''}''" "fill \<sigma> ps" "k @ ''}''" v]
          by (simp add: Par ReplaceAll_skip IH \<tau>(2) [OF False])
      qed
    qed
  qed
qed

text \<open>A parameter filled in already is a literal.\<close>

lemma fill_known:
  assumes "\<sigma> k = Some w" and "no_braces w" and "list_all plain_piece ps"
  obtains ps' where "\<And>x. fill (\<sigma>(k := x)) ps' = fill \<sigma> ps" "list_all plain_piece ps'"
proof -
  have "fill (\<sigma>(k := x)) (map (\<lambda>p. if p = Par k then Lit w else p) ps) = fill \<sigma> ps" for x
  proof (induction ps)
    case (Cons p ps)
    then show ?case using assms(1) by (cases p) (auto split: option.splits)
  qed simp
  moreover have "list_all plain_piece (map (\<lambda>p. if p = Par k then Lit w else p) ps)"
    using assms(2,3) by (auto simp: list_all_iff)
  ultimately show ?thesis by (rule that)
qed

lemma ReplaceAll_filled:
  assumes "no_braces k" and "\<sigma> k = Some w" and "\<And>k' v'. \<sigma> k' = Some v' \<Longrightarrow> no_braces v'" and "list_all plain_piece ps"
  shows "ReplaceAll (fill \<sigma> ps) (CHR ''{'' # k @ ''}'') v = fill \<sigma> ps"
proof -
  obtain ps' where ps': "\<And>x. fill (\<sigma>(k := x)) ps' = fill \<sigma> ps" "list_all plain_piece ps'"
    by (rule fill_known [of \<sigma> k w ps]) (use assms in auto)
  have "ReplaceAll (fill (\<sigma>(k := None)) ps') (CHR ''{'' # k @ ''}'') v = fill (\<sigma>(k := Some v)) ps'"
    by (rule ReplaceAll_fill [OF assms(1)]) (use assms(3) ps'(2) in \<open>auto split: if_splits\<close>)
  then show ?thesis by (simp only: ps'(1))
qed

text \<open>One pass, and then both: what the template knows comes first.\<close>

lemma fill_params_pass:
  assumes "list_all plain_piece ps" and "\<And>k v. entries mo k = Some v \<Longrightarrow> no_braces k \<and> no_braces (sp v)"
    and "\<And>k v. \<sigma> k = Some v \<Longrightarrow> no_braces v"
  shows "fill_params sp ks mo (fill \<sigma> ps) =
    fill (\<lambda>k. case \<sigma> k of Some v \<Rightarrow> Some v | None \<Rightarrow> if k \<in> set ks then map_option sp (entries mo k) else None) ps"
  using assms(3)
proof (induction ks arbitrary: \<sigma>)
  case Nil
  have "(\<lambda>k. case \<sigma> k of Some v \<Rightarrow> Some v | None \<Rightarrow> if k \<in> set [] then map_option sp (entries mo k) else None) = \<sigma>"
    by (auto split: option.split)
  then show ?case by (simp only: fill_params_def) simp
next
  case (Cons k ks)
  define \<tau> where "\<tau> = (if \<sigma> k = None then \<sigma>(k := map_option sp (entries mo k)) else \<sigma>)"
  have "(case entries mo k of None \<Rightarrow> fill \<sigma> ps | Some v \<Rightarrow> ReplaceAll (fill \<sigma> ps) (CHR ''{'' # k @ ''}'') (sp v)) = fill \<tau> ps"
  proof (cases "entries mo k")
    case None
    then have "\<tau> = \<sigma>" by (auto simp: \<tau>_def)
    then show ?thesis using None by simp
  next
    case (Some v)
    then have "ReplaceAll (fill \<sigma> ps) (CHR ''{'' # k @ ''}'') (sp v) = fill \<tau> ps"
      using ReplaceAll_filled [of k \<sigma> _ ps "sp v"] ReplaceAll_fill [of k \<sigma> \<tau> "sp v" ps] assms(1,2) Cons.prems
      by (cases "\<sigma> k") (auto simp: \<tau>_def)
    then show ?thesis using Some by simp
  qed
  then have "fill_params sp (k # ks) mo (fill \<sigma> ps) = fill_params sp ks mo (fill \<tau> ps)" by (simp add: fill_params_def)
  also have "\<dots> = fill (\<lambda>k. case \<tau> k of Some v \<Rightarrow> Some v | None \<Rightarrow> if k \<in> set ks then map_option sp (entries mo k) else None) ps"
    by (rule Cons.IH) (use Cons.prems assms(2) in \<open>auto simp: \<tau>_def split: if_splits\<close>)
  also have "(\<lambda>k. case \<tau> k of Some v \<Rightarrow> Some v | None \<Rightarrow> if k \<in> set ks then map_option sp (entries mo k) else None) =
      (\<lambda>k'. case \<sigma> k' of Some v \<Rightarrow> Some v | None \<Rightarrow> if k' \<in> set (k # ks) then map_option sp (entries mo k') else None)"
    by (auto simp: \<tau>_def fun_eq_iff split: option.split)
  finally show ?case .
qed

text \<open>
  However the maps are visited, a template's pattern, made of literals and parameters, becomes the address
  in which each parameter has the template's own value, if it has one, else the caller's, else stays as
  written: the caller cannot override a value of the template.  No name or value may hold a brace.
\<close>
theorem template_url_spec:
  assumes "list_all plain_piece ps" and "enumerates ks (entries own)" and "enumerates ks' (entries params)"
    and "\<And>k v. entries own k = Some v \<or> entries params k = Some v \<Longrightarrow> no_braces k \<and> no_braces (sp v)"
  shows "fill_params sp ks' params (fill_params sp ks own (fill Map.empty ps)) =
    fill (\<lambda>k. map_option sp ((entries params ++ entries own) k)) ps"
proof -
  have own: "fill_params sp ks own (fill Map.empty ps) = fill (\<lambda>k. map_option sp (entries own k)) ps"
  proof -
    have "fill_params sp ks own (fill Map.empty ps) =
        fill (\<lambda>k. case Map.empty k of Some v \<Rightarrow> Some v | None \<Rightarrow> if k \<in> set ks then map_option sp (entries own k) else None) ps"
      by (rule fill_params_pass [OF assms(1)]) (use assms(4) in auto)
    moreover have "(\<lambda>k. case Map.empty k of Some v \<Rightarrow> Some v | None \<Rightarrow> if k \<in> set ks then map_option sp (entries own k) else None) =
        (\<lambda>k. map_option sp (entries own k))"
      using assms(2) by (auto simp: enumerates_def domIff)
    ultimately show ?thesis by (simp only:)
  qed
  have "fill_params sp ks' params (fill (\<lambda>k. map_option sp (entries own k)) ps) =
      fill (\<lambda>k. case map_option sp (entries own k) of Some v \<Rightarrow> Some v | None \<Rightarrow> if k \<in> set ks' then map_option sp (entries params k) else None) ps"
    by (rule fill_params_pass [OF assms(1)]) (use assms(4) in auto)
  also have "\<dots> = fill (\<lambda>k. map_option sp ((entries params ++ entries own) k)) ps"
    using assms(3) by (auto simp: enumerates_def fun_eq_iff map_add_def domIff split: option.split intro!: arg_cong [of _ _ "\<lambda>f. fill f ps"])
  finally show ?thesis unfolding own .
qed

section \<open>Examples\<close>

datatype def_wire = WDef task_def | WTpl task_template | WEmpty

text \<open>Validators and hooks are not written.\<close>

definition no_hooks :: task_hooks where
  "no_hooks = \<lparr>hk_BeforeExecute = None, hk_AfterExecute = None, hk_OnSuccess = None, hk_OnFailure = None, hk_OnRetry = None\<rparr>"

definition plain_codec :: "def_wire def_codec" where
  "plain_codec = \<lparr>tc_def = (\<lambda>d. Some (WDef (d\<lparr>df_Validator := None, df_Hooks := no_hooks\<rparr>))),
     tc_read_def = (\<lambda>w. case w of WDef d \<Rightarrow> Some d | _ \<Rightarrow> None), tc_tpl = (\<lambda>m. Some (WTpl m)),
     tc_read_tpl = (\<lambda>w. case w of WTpl m \<Rightarrow> Some m | _ \<Rightarrow> None), tc_empty = WEmpty\<rparr>"

definition sample_def :: task_def where
  "sample_def = \<lparr>df_ID = ''venue'', df_Name = ''Venue'', df_Version = ''1'', df_Description = '''', df_Author = '''', df_Category = ''page'',
     df_Type = ''detail'', df_Priority = 1, df_Method = ''GET'', df_Headers = None, df_DefaultTimeout = second, df_MaxRetries = 2,
     df_RetryInterval = 0, df_ExtractRules = [], df_LinkRules = [\<lparr>ln_Name = ''next'', ln_Selector = ''a'', ln_Type = ''css'', ln_Attribute = ''href'',
       ln_Pattern = '''', ln_TaskType = ''list'', ln_Priority = 2, ln_Depth = 3, ln_Metadata = GNil\<rparr>],
     df_Pipeline = '''', df_Processors = [], df_Storage = '''',
     df_Deduplication = \<lparr>dd_Enabled = False, dd_Strategy = '''', dd_Fields = [], dd_Expiration = 0\<rparr>,
     df_Validator = Some 7, df_Schema = GNil, df_Hooks = no_hooks, df_Tags = [], df_Labels = None, df_Metadata = None, df_Active = True,
     df_CreatedAt = 0, df_UpdatedAt = 0\<rparr>"

lemma sample_def_simps: "def_Validate sample_def = (sample_def, None)" "df_ID sample_def = ''venue''" "df_MaxRetries sample_def = 2"
  by (simp_all add: def_Validate_def sample_def_def)

lemma definition_survives_restart_witness:
  "\<exists>g1 r1 g2 r2. RegisterDefinition mem_kv plain_codec 0 sample_def (NewTaskRegistry ''crawler'') \<lparr>km_str = [], km_set = []\<rparr> = (None, sample_def, g1, r1) \<and>
    fst (GetDefinition mem_kv plain_codec 5 ''venue'' g1 r1) = Inr sample_def \<and>
    fst (GetDefinition mem_kv plain_codec 5 ''venue'' (NewTaskRegistry ''crawler'') r1) = Inr (sample_def\<lparr>df_Validator := None, df_Hooks := no_hooks\<rparr>) \<and>
    RegisterDefinition mem_kv plain_codec 0 (sample_def\<lparr>df_MaxRetries := 5\<rparr>) (NewTaskRegistry ''crawler'') r1 = (None, sample_def\<lparr>df_MaxRetries := 5\<rparr>, g2, r2) \<and>
    fst (GetDefinition mem_kv plain_codec 5 ''venue'' g1 r2) = Inr sample_def"
proof -
  let ?e = "sample_def\<lparr>df_MaxRetries := 5\<rparr>"
  have e: "def_Validate ?e = (?e, None)" "df_ID ?e = df_ID sample_def" by (simp_all add: def_Validate_def sample_def_def)
  have new: "tg_definitions (NewTaskRegistry ''crawler'') (df_ID sample_def) = None" by (simp add: NewTaskRegistry_def)
  have pre: "tg_prefix (NewTaskRegistry ''crawler'') = ''crawler''" by (simp add: NewTaskRegistry_def)
  have enc: "tc_def plain_codec d = Some (WDef (d\<lparr>df_Validator := None, df_Hooks := no_hooks\<rparr>))" for d by (simp add: plain_codec_def)
  have dec: "tc_read_def plain_codec (WDef d) = Some d" for d by (simp add: plain_codec_def)
  from definition_survives_restart [OF mem_kv_answers sample_def_simps(1) new enc dec e enc dec, of 0 "\<lparr>km_str = [], km_set = []\<rparr>" 5]
  show ?thesis unfolding pre sample_def_simps(2) by blast
qed

lemma child_tasks_spec_witness:
  "map t_URL (GenerateChildTasks id (\<lambda>i. ([], 0)) sample_def (zero_task\<lparr>t_ID := ''p'', t_Depth := 2\<rparr>) [[''next'' \<mapsto> GStr ''a''], Map.empty, [''next'' \<mapsto> GStr ''b'']]) = [''a'', ''b''] \<and>
   t_Depth (hd (GenerateChildTasks id (\<lambda>i. ([], 0)) sample_def (zero_task\<lparr>t_ID := ''p'', t_Depth := 2\<rparr>) [[''next'' \<mapsto> GStr ''a''], Map.empty, [''next'' \<mapsto> GStr ''b'']])) = 3"
proof -
  let ?ts = "GenerateChildTasks id (\<lambda>i. ([], 0)) sample_def (zero_task\<lparr>t_ID := ''p'', t_Depth := 2\<rparr>) [[''next'' \<mapsto> GStr ''a''], Map.empty, [''next'' \<mapsto> GStr ''b'']]"
  note spec = child_tasks_spec [of id "\<lambda>i. ([], 0)" sample_def "zero_task\<lparr>t_ID := ''p'', t_Depth := 2\<rparr>" "[[''next'' \<mapsto> GStr ''a''], Map.empty, [''next'' \<mapsto> GStr ''b'']]"]
  have "concat (map (def_extractURLs [[''next'' \<mapsto> GStr ''a''], Map.empty, [''next'' \<mapsto> GStr ''b'']])
      (filter (rule_applies (zero_task\<lparr>t_ID := ''p'', t_Depth := 2\<rparr>)) (df_LinkRules sample_def))) = [''a'', ''b'']"
    by (simp add: sample_def_def rule_applies_def def_extractURLs_def map_filter_simps)
  then have urls: "map t_URL ?ts = [''a'', ''b'']" using spec [THEN conjunct1] by (simp only:)
  then have "hd ?ts \<in> set ?ts" by (cases ?ts) auto
  then have "t_Depth (hd ?ts) = t_Depth (zero_task\<lparr>t_ID := ''p'', t_Depth := 2\<rparr>) + 1" using spec [THEN conjunct2] by blast
  then show ?thesis using urls by simp
qed

lemma template_url_spec_witness:
  "fill_params (sprint (\<lambda>_. []) (\<lambda>_. [])) [''page'', ''venue''] (Some [''page'' \<mapsto> GStr ''9'', ''venue'' \<mapsto> GStr ''y''])
     (fill_params (sprint (\<lambda>_. []) (\<lambda>_. [])) [''venue''] (Some [''venue'' \<mapsto> GStr ''x'']) ''/v/{venue}?p={page}'') = ''/v/x?p=9''"
proof -
  let ?sp = "sprint (\<lambda>_. []) (\<lambda>_. [])"
  have nb: "no_braces k \<and> no_braces (?sp v)"
    if "entries (Some [''venue'' \<mapsto> GStr ''x'']) k = Some v \<or> entries (Some [''page'' \<mapsto> GStr ''9'', ''venue'' \<mapsto> GStr ''y'']) k = Some v" for k v
    using that by (auto simp: entries_def no_braces_def split: if_splits)
  have ps: "list_all plain_piece [Lit ''/v/'', Par ''venue'', Lit ''?p='', Par ''page'']" by (simp add: no_braces_def)
  have own: "enumerates [''venue''] (entries (Some [''venue'' \<mapsto> GStr ''x'']))" by (simp add: enumerates_def entries_def)
  have params: "enumerates [''page'', ''venue''] (entries (Some [''page'' \<mapsto> GStr ''9'', ''venue'' \<mapsto> GStr ''y'']))"
    by (auto simp: enumerates_def entries_def)
  show ?thesis using template_url_spec [OF ps own params nb] by (simp add: entries_def)
qed

end
