(* ===== verification/TaskManager.thy ===== *)
theory TaskManager
  imports TaskDefs
begin

text \<open>
  The task manager (src/crawler/task/manager.go): instances of tasks, their states and counters, allocation to
  nodes, time-outs, clean-up and restart.  Redis, the JSON codec, the node manager and the allocator are
  arguments; the calls whose results the code ignores are kept in lists.  A clock \<open>ts\<close> gives the i-th reading an operation makes.
\<close>

section \<open>Data\<close>

datatype task_state =
    TaskStateCreated
  | TaskStateAllocated
  | TaskStateRunning
  | TaskStatePaused
  | TaskStateCompleted
  | TaskStateFailed
  | TaskStateCancelled
  | TaskStateTimeout
  | TaskStateOther string

text \<open>The maps for the context and the metrics are made with the instance and never nil.\<close>

record task_instance =
  inst_ID :: string
  inst_DefinitionID :: string
  inst_Task :: task
  inst_State :: task_state
  inst_NodeID :: string
  inst_WorkerID :: string
  inst_Context :: "string \<rightharpoonup> goval"
  inst_Variables :: "(string \<rightharpoonup> goval) option"
  inst_CreatedAt :: gotime
  inst_StartedAt :: "gotime option"
  inst_CompletedAt :: "gotime option"
  inst_Result :: goval
  inst_Error :: string
  inst_RetryCount :: int
  inst_Dependencies :: "string list"
  inst_DependsOn :: "string list"
  inst_LastHeartbeat :: gotime
  inst_Progress :: "64 word"
  inst_Metrics :: "string \<rightharpoonup> goval"

record 'v inst_codec =
  ic_inst :: "task_instance \<Rightarrow> 'v option"
  ic_read :: "'v \<Rightarrow> task_instance option"
  ic_alloc :: "string \<Rightarrow> string \<Rightarrow> gotime \<Rightarrow> 'v"
  ic_progress :: "64 word \<Rightarrow> 'v"

record state_event =
  se_instance :: string
  se_task :: string
  se_old :: task_state
  se_new :: task_state
  se_timestamp :: gotime

text \<open>
  The channels hold identifiers, since a queued instance is only asked for its identifier.  \<open>mg_retrying\<close> is
  the instance the allocation worker sleeps over after a failure.
\<close>

record 'r task_manager =
  mg_tasks :: "string \<rightharpoonup> task_instance"
  mg_registry :: task_registry
  mg_redis :: 'r
  mg_prefix :: string
  mg_totalTasks :: int
  mg_activeTasks :: int
  mg_completedTasks :: int
  mg_failedTasks :: int
  mg_maxActiveTasks :: int
  mg_taskTimeout :: duration
  mg_cleanupInterval :: duration
  mg_stateCheckInterval :: duration
  mg_taskChan :: "string list"
  mg_completeChan :: "string list"
  mg_stopped :: bool
  mg_retrying :: "string option"
  mg_loadCalls :: "(string \<times> int) list"
  mg_events :: "state_event list"

definition or_default :: "int \<Rightarrow> int \<Rightarrow> int" where
  "or_default x d = (if x \<le> 0 then d else x)"

definition NewTaskManager :: "task_registry \<Rightarrow> 'r \<Rightarrow> string \<Rightarrow> int \<Rightarrow> duration \<Rightarrow> duration \<Rightarrow> duration \<Rightarrow> 'r task_manager" where
  "NewTaskManager g r pre maxActive timeout cleanup check =
     \<lparr>mg_tasks = Map.empty, mg_registry = g, mg_redis = r, mg_prefix = pre, mg_totalTasks = 0, mg_activeTasks = 0, mg_completedTasks = 0,
      mg_failedTasks = 0, mg_maxActiveTasks = or_default maxActive 1000, mg_taskTimeout = or_default timeout (30 * minute),
      mg_cleanupInterval = or_default cleanup (5 * minute), mg_stateCheckInterval = or_default check (30 * second),
      mg_taskChan = [], mg_completeChan = [], mg_stopped = False, mg_retrying = None, mg_loadCalls = [], mg_events = []\<rparr>"

section \<open>Storing and finding instances\<close>

definition instance_key :: "string \<Rightarrow> string \<Rightarrow> string" where
  "instance_key pre i = pre @ '':instance:'' @ i"

definition saveInstance :: "('r, 'v) kv_commands \<Rightarrow> 'v inst_codec \<Rightarrow> gotime \<Rightarrow> task_instance \<Rightarrow> 'r task_manager \<Rightarrow> 'r task_manager" where
  "saveInstance K J now i m =
     (case ic_inst J i of
        None \<Rightarrow> m
      | Some data \<Rightarrow> m\<lparr>mg_redis := snd (kvs_Set K now (instance_key (mg_prefix m) (inst_ID i)) data (24 * hour) (mg_redis m))\<rparr>)"

definition loadInstance :: "('r, 'v) kv_commands \<Rightarrow> 'v inst_codec \<Rightarrow> gotime \<Rightarrow> string \<Rightarrow> 'r task_manager \<Rightarrow> task_instance option" where
  "loadInstance K J now i m = Option.bind (kvs_Get K now (instance_key (mg_prefix m) i) (mg_redis m)) (ic_read J)"

definition GetInstance :: "('r, 'v) kv_commands \<Rightarrow> 'v inst_codec \<Rightarrow> gotime \<Rightarrow> string \<Rightarrow> 'r task_manager \<Rightarrow>
    task_instance option \<times> 'r task_manager" where
  "GetInstance K J now i m =
     (case mg_tasks m i of
        Some x \<Rightarrow> (Some x, m)
      | None \<Rightarrow> (case loadInstance K J now i m of
            None \<Rightarrow> (None, m)
          | Some x \<Rightarrow> (Some x, m\<lparr>mg_tasks := (mg_tasks m)(i \<mapsto> x)\<rparr>)))"

text \<open>A send to a full channel is dropped.\<close>

definition queue_instance :: "string \<Rightarrow> 'r task_manager \<Rightarrow> 'r task_manager" where
  "queue_instance i m = (if length (mg_taskChan m) < 100 then m\<lparr>mg_taskChan := mg_taskChan m @ [i]\<rparr> else m)"

section \<open>Creating instances\<close>

datatype manager_error =
    DefinitionFailed registry_error
  | TemplateFailed registry_error
  | URLMissing
  | InstanceNotFound string
  | NodesFailed
  | NoNodes
  | AllocationFailed string

definition new_instance :: "(nat \<Rightarrow> gotime) \<Rightarrow> string \<Rightarrow> string \<Rightarrow> task \<Rightarrow> (string \<rightharpoonup> goval) \<Rightarrow> (string \<rightharpoonup> goval) option \<Rightarrow> task_instance" where
  "new_instance ts uuid defID t ctx params =
     \<lparr>inst_ID = uuid, inst_DefinitionID = defID, inst_Task = t, inst_State = TaskStateCreated, inst_NodeID = '''', inst_WorkerID = '''',
      inst_Context = ctx, inst_Variables = params, inst_CreatedAt = ts 2, inst_StartedAt = None, inst_CompletedAt = None,
      inst_Result = GNil, inst_Error = '''', inst_RetryCount = 0, inst_Dependencies = [], inst_DependsOn = [], inst_LastHeartbeat = ts 3,
      inst_Progress = 0, inst_Metrics = Map.empty\<rparr>"

definition add_instance :: "('r, 'v) kv_commands \<Rightarrow> 'v inst_codec \<Rightarrow> gotime \<Rightarrow> task_instance \<Rightarrow> 'r task_manager \<Rightarrow> 'r task_manager" where
  "add_instance K J now i m =
     queue_instance (inst_ID i) (saveInstance K J now i
       (m\<lparr>mg_tasks := (mg_tasks m)(inst_ID i \<mapsto> i), mg_totalTasks := mg_totalTasks m + 1\<rparr>))"

text \<open>\<open>uuid\<close> and \<open>uuid'\<close> are the fresh identifiers of the task and of the instance.\<close>

definition CreateInstance :: "('r, 'v) kv_commands \<Rightarrow> 'v def_codec \<Rightarrow> 'v inst_codec \<Rightarrow> (string \<Rightarrow> string) \<Rightarrow> (nat \<Rightarrow> gotime) \<Rightarrow> string \<Rightarrow> string \<Rightarrow>
    string \<Rightarrow> (string \<rightharpoonup> goval) option \<Rightarrow> 'r task_manager \<Rightarrow> (manager_error + task_instance) \<times> 'r task_manager" where
  "CreateInstance K C J hash ts uuid uuid' defID params m =
     (case GetDefinition K C (ts 0) defID (mg_registry m) (mg_redis m) of
        (Inl e, g) \<Rightarrow> (Inl (DefinitionFailed e), m\<lparr>mg_registry := g\<rparr>)
      | (Inr d, g) \<Rightarrow> (case get_in_map ''url'' params of
            Some (GStr url) \<Rightarrow>
              let i = new_instance ts uuid' defID (def_CreateTask hash uuid (ts 1) d url params) Map.empty params
              in (Inr i, add_instance K J (ts 4) i (m\<lparr>mg_registry := g\<rparr>))
          | _ \<Rightarrow> (Inl URLMissing, m\<lparr>mg_registry := g\<rparr>)))"

definition CreateInstanceFromTemplate :: "('r, 'v) kv_commands \<Rightarrow> 'v def_codec \<Rightarrow> 'v inst_codec \<Rightarrow> (string \<Rightarrow> string) \<Rightarrow> (goval \<Rightarrow> string) \<Rightarrow>
    (nat \<Rightarrow> gotime) \<Rightarrow> string \<Rightarrow> string \<Rightarrow> string list \<Rightarrow> string list \<Rightarrow> string \<Rightarrow> (string \<rightharpoonup> goval) option \<Rightarrow> 'r task_manager \<Rightarrow>
    (manager_error + task_instance) \<times> 'r task_manager" where
  "CreateInstanceFromTemplate K C J hash sp ts uuid uuid' ks ks' tplID params m =
     (case GetTemplate K C (ts 0) tplID (mg_registry m) (mg_redis m) of
        (Inl e, g) \<Rightarrow> (Inl (TemplateFailed e), m\<lparr>mg_registry := g\<rparr>)
      | (Inr tpl, g) \<Rightarrow> (case CreateTaskFromTemplate K C hash sp uuid (ts 1) ks ks' tplID params g (mg_redis m) of
            (Inl e, g1) \<Rightarrow> (Inl (TemplateFailed e), m\<lparr>mg_registry := g1\<rparr>)
          | (Inr t, g1) \<Rightarrow>
              let i = new_instance ts uuid' (tpl_Definition tpl) t
                    [''template_id'' \<mapsto> GStr tplID, ''template_name'' \<mapsto> GStr (tpl_Name tpl)] params
              in (Inr i, add_instance K J (ts 4) i (m\<lparr>mg_registry := g1\<rparr>))))"

section \<open>States and progress\<close>

text \<open>The change to the instance and the counters, by the new state.\<close>

definition enter_state :: "gotime \<Rightarrow> task_state \<Rightarrow> task_instance \<Rightarrow> 'r task_manager \<Rightarrow> task_instance \<times> 'r task_manager" where
  "enter_state now st i m =
     (let i1 = i\<lparr>inst_State := st\<rparr> in
      case st of
        TaskStateRunning \<Rightarrow>
          if inst_StartedAt i = None then (i1\<lparr>inst_StartedAt := Some now\<rparr>, m\<lparr>mg_activeTasks := mg_activeTasks m + 1\<rparr>) else (i1, m)
      | TaskStateCompleted \<Rightarrow>
          if inst_CompletedAt i = None then (i1\<lparr>inst_CompletedAt := Some now\<rparr>,
            m\<lparr>mg_completedTasks := mg_completedTasks m + 1, mg_activeTasks := mg_activeTasks m - 1\<rparr>) else (i1, m)
      | TaskStateFailed \<Rightarrow>
          if inst_CompletedAt i = None then (i1\<lparr>inst_CompletedAt := Some now\<rparr>,
            m\<lparr>mg_failedTasks := mg_failedTasks m + 1, mg_activeTasks := mg_activeTasks m - 1\<rparr>) else (i1, m)
      | _ \<Rightarrow> (i1, m))"

definition publishStateChange :: "gotime \<Rightarrow> task_instance \<Rightarrow> task_state \<Rightarrow> task_state \<Rightarrow> 'r task_manager \<Rightarrow> 'r task_manager" where
  "publishStateChange now i old new m = m\<lparr>mg_events := mg_events m @
     [\<lparr>se_instance = inst_ID i, se_task = t_ID (inst_Task i), se_old = old, se_new = new, se_timestamp = now\<rparr>]\<rparr>"

definition UpdateState :: "('r, 'v) kv_commands \<Rightarrow> 'v inst_codec \<Rightarrow> (nat \<Rightarrow> gotime) \<Rightarrow> string \<Rightarrow> task_state \<Rightarrow> (string \<rightharpoonup> goval) option \<Rightarrow>
    'r task_manager \<Rightarrow> manager_error option \<times> 'r task_manager" where
  "UpdateState K J ts i st metadata m =
     (case mg_tasks m i of
        None \<Rightarrow> (Some (InstanceNotFound i), m)
      | Some x \<Rightarrow> (case enter_state (ts 0) st x m of (x1, m1) \<Rightarrow>
          let x2 = x1\<lparr>inst_Context := inst_Context x1 ++ entries metadata, inst_LastHeartbeat := ts 0\<rparr>;
              m2 = saveInstance K J (ts 1) x2 (m1\<lparr>mg_tasks := (mg_tasks m1)(i \<mapsto> x2)\<rparr>);
              m3 = publishStateChange (ts 2) x2 (inst_State x) st m2
          in (None, if (st = TaskStateCompleted \<or> st = TaskStateFailed) \<and> length (mg_completeChan m3) < 100
                    then m3\<lparr>mg_completeChan := mg_completeChan m3 @ [i]\<rparr> else m3)))"

definition UpdateProgress :: "('r, 'v) kv_commands \<Rightarrow> 'v inst_codec \<Rightarrow> (nat \<Rightarrow> gotime) \<Rightarrow> string \<Rightarrow> 64 word \<Rightarrow> (string \<rightharpoonup> goval) option \<Rightarrow>
    'r task_manager \<Rightarrow> manager_error option \<times> 'r task_manager" where
  "UpdateProgress K J ts i progress metrics m =
     (case mg_tasks m i of
        None \<Rightarrow> (Some (InstanceNotFound i), m)
      | Some x \<Rightarrow> (None, m\<lparr>
          mg_tasks := (mg_tasks m)(i \<mapsto> x\<lparr>inst_Progress := progress, inst_LastHeartbeat := ts 0, inst_Metrics := inst_Metrics x ++ entries metrics\<rparr>),
          mg_redis := snd (kvs_Set K (ts 1) (mg_prefix m @ '':progress:'' @ i) (ic_progress J progress) minute (mg_redis m))\<rparr>))"

section \<open>Allocation\<close>

text \<open>An allocator may fail, return nil, or crash.\<close>

datatype allocation = Chosen node_info | NoneChosen | AllocatorFailed string | AllocatorPanic

definition allocateLeastLoad :: "node_info list \<Rightarrow> allocation" where
  "allocateLeastLoad nodes =
     (case foldl (\<lambda>(sel, minLoad) n. if n_CurrentLoad n < minLoad then (Some n, n_CurrentLoad n) else (sel, minLoad)) (None, max_int) nodes of
        (None, _) \<Rightarrow> NoneChosen
      | (Some n, _) \<Rightarrow> Chosen n)"

definition of_selection :: "node_info selection \<Rightarrow> allocation" where
  "of_selection s = (case s of Selected n \<Rightarrow> Chosen n | NoNode \<Rightarrow> NoneChosen | IndexPanic \<Rightarrow> AllocatorPanic)"

definition allocateHash :: "task_instance \<Rightarrow> node_info list \<Rightarrow> allocation" where
  "allocateHash i nodes = of_selection (index_node nodes (sint (url_hash (t_URL (inst_Task i))) smod int (length nodes)))"

definition allocateRoundRobin :: "int \<Rightarrow> node_info list \<Rightarrow> allocation" where
  "allocateRoundRobin unixNano nodes = of_selection (index_node nodes (unixNano smod int (length nodes)))"

definition Allocate :: "string \<Rightarrow> int \<Rightarrow> task_instance \<Rightarrow> node_info list \<Rightarrow> allocation" where
  "Allocate strat unixNano i nodes =
     (if nodes = [] then AllocatorFailed ''no available nodes''
      else if strat = ''least-load'' then allocateLeastLoad nodes
      else if strat = ''hash'' then allocateHash i nodes
      else allocateRoundRobin unixNano nodes)"

definition saveAllocation :: "('r, 'v) kv_commands \<Rightarrow> 'v inst_codec \<Rightarrow> (nat \<Rightarrow> gotime) \<Rightarrow> task_instance \<Rightarrow> node_info \<Rightarrow> 'r task_manager \<Rightarrow> 'r task_manager" where
  "saveAllocation K J ts i n m = m\<lparr>mg_redis := snd (kvs_Set K (ts 2) (mg_prefix m @ '':allocation:'' @ inst_ID i)
     (ic_alloc J (inst_ID i) (n_ID n) (ts 1)) (24 * hour) (mg_redis m))\<rparr>"

datatype alloc_result = AllocDone | AllocError manager_error | AllocCrash

text \<open>\<open>nodes\<close> is the node manager's answer, \<open>alloc\<close> the allocator; the node's identifier is read from what it returns.\<close>

definition AllocateTask :: "('r, 'v) kv_commands \<Rightarrow> 'v inst_codec \<Rightarrow> (nat \<Rightarrow> gotime) \<Rightarrow> node_info list option \<Rightarrow> (task_instance \<Rightarrow> node_info list \<Rightarrow> allocation) \<Rightarrow>
    string \<Rightarrow> 'r task_manager \<Rightarrow> alloc_result \<times> 'r task_manager" where
  "AllocateTask K J ts nodes alloc i m =
     (case GetInstance K J (ts 0) i m of
        (None, m1) \<Rightarrow> (AllocError (InstanceNotFound i), m1)
      | (Some x, m1) \<Rightarrow> (case nodes of
            None \<Rightarrow> (AllocError NodesFailed, m1)
          | Some [] \<Rightarrow> (AllocError NoNodes, m1)
          | Some ns \<Rightarrow> (case alloc x ns of
                AllocatorFailed e \<Rightarrow> (AllocError (AllocationFailed e), m1)
              | NoneChosen \<Rightarrow> (AllocCrash, m1)
              | AllocatorPanic \<Rightarrow> (AllocCrash, m1)
              | Chosen n \<Rightarrow>
                  let x1 = x\<lparr>inst_NodeID := n_ID n, inst_State := TaskStateAllocated\<rparr>;
                      m2 = m1\<lparr>mg_tasks := (mg_tasks m1)(i \<mapsto> x1), mg_loadCalls := mg_loadCalls m1 @ [(n_ID n, 1)]\<rparr>
                  in (AllocDone, saveAllocation K J ts x1 n m2))))"

text \<open>
  One step of the worker: it takes the oldest queued instance; after a failure it sleeps, and then puts the
  instance back unless the channel is full.
\<close>

definition allocationWorker :: "('r, 'v) kv_commands \<Rightarrow> 'v inst_codec \<Rightarrow> (nat \<Rightarrow> gotime) \<Rightarrow> node_info list option \<Rightarrow> (task_instance \<Rightarrow> node_info list \<Rightarrow> allocation) \<Rightarrow>
    'r task_manager \<Rightarrow> alloc_result option \<times> 'r task_manager" where
  "allocationWorker K J ts nodes alloc m =
     (if mg_stopped m then (None, m)
      else case mg_retrying m of
        Some i \<Rightarrow> (None, queue_instance i (m\<lparr>mg_retrying := None\<rparr>))
      | None \<Rightarrow> (case mg_taskChan m of
            [] \<Rightarrow> (None, m)
          | i # rest \<Rightarrow> (case AllocateTask K J ts nodes alloc i (m\<lparr>mg_taskChan := rest\<rparr>) of
                (AllocError e, m1) \<Rightarrow> (Some (AllocError e), m1\<lparr>mg_retrying := Some i\<rparr>)
              | (res, m1) \<Rightarrow> (Some res, m1))))"

section \<open>Monitoring\<close>

fun checkDependencies :: "('r, 'v) kv_commands \<Rightarrow> 'v inst_codec \<Rightarrow> gotime \<Rightarrow> string list \<Rightarrow> 'r task_manager \<Rightarrow> bool \<times> 'r task_manager" where
  "checkDependencies K J now [] m = (True, m)"
| "checkDependencies K J now (d # ds) m =
     (case GetInstance K J now d m of
        (None, m1) \<Rightarrow> (False, m1)
      | (Some x, m1) \<Rightarrow> if inst_State x \<noteq> TaskStateCompleted then (False, m1) else checkDependencies K J now ds m1)"

text \<open>\<open>now\<close> is the instant of the tick, \<open>tsf\<close> the clock while an instance is looked at.\<close>

definition overdue :: "gotime \<Rightarrow> duration \<Rightarrow> task_instance \<Rightarrow> bool" where
  "overdue now timeout x \<longleftrightarrow> inst_State x = TaskStateRunning \<and> (case inst_StartedAt x of None \<Rightarrow> False | Some s \<Rightarrow> now - s > timeout)"

definition check_instance :: "('r, 'v) kv_commands \<Rightarrow> 'v inst_codec \<Rightarrow> gotime \<Rightarrow> (string \<Rightarrow> nat \<Rightarrow> gotime) \<Rightarrow> string \<Rightarrow> 'r task_manager \<Rightarrow> 'r task_manager" where
  "check_instance K J now tsf i m =
     (case mg_tasks m i of
        None \<Rightarrow> m
      | Some x \<Rightarrow>
          if overdue now (mg_taskTimeout m) x
          then snd (UpdateState K J (tsf i) i TaskStateTimeout (Some [''reason'' \<mapsto> GStr ''task timeout'']) m)
          else if inst_State x = TaskStateCreated \<and> inst_DependsOn x \<noteq> []
          then (case checkDependencies K J (tsf i 0) (inst_DependsOn x) m of (ok, m1) \<Rightarrow> if ok then queue_instance i m1 else m1)
          else m)"

definition checkTaskStates :: "('r, 'v) kv_commands \<Rightarrow> 'v inst_codec \<Rightarrow> gotime \<Rightarrow> (string \<Rightarrow> nat \<Rightarrow> gotime) \<Rightarrow> string list \<Rightarrow> 'r task_manager \<Rightarrow> 'r task_manager" where
  "checkTaskStates K J now tsf ids m = fold (check_instance K J now tsf) ids m"

definition cleanupOldInstances :: "gotime \<Rightarrow> 'r task_manager \<Rightarrow> 'r task_manager" where
  "cleanupOldInstances now m = m\<lparr>mg_tasks :=
     map_filter_vals (\<lambda>x. \<not> (case inst_CompletedAt x of None \<Rightarrow> False | Some c \<Rightarrow> now - c > 24 * hour)) (mg_tasks m)\<rparr>"

section \<open>Starting and stopping\<close>

definition load_one :: "('r, 'v) kv_commands \<Rightarrow> 'v inst_codec \<Rightarrow> gotime \<Rightarrow> string \<Rightarrow> 'r task_manager \<Rightarrow> 'r task_manager" where
  "load_one K J now key m =
     (case Option.bind (kvs_Get K now key (mg_redis m)) (ic_read J) of
        None \<Rightarrow> m
      | Some x \<Rightarrow> if inst_State x = TaskStateRunning \<or> inst_State x = TaskStateAllocated
                  then m\<lparr>mg_tasks := (mg_tasks m)(inst_ID x \<mapsto> x)\<rparr> else m)"

definition loadInstances :: "('r, 'v) kv_commands \<Rightarrow> 'v inst_codec \<Rightarrow> gotime \<Rightarrow> 'r task_manager \<Rightarrow> 'r task_manager" where
  "loadInstances K J now m =
     (case kvs_Keys K now (instance_key (mg_prefix m) ''*'') (mg_redis m) of
        None \<Rightarrow> m
      | Some keys \<Rightarrow> fold (load_one K J now) keys m)"

definition manager_Start :: "('r, 'v) kv_commands \<Rightarrow> 'v inst_codec \<Rightarrow> gotime \<Rightarrow> 'r task_manager \<Rightarrow> 'r task_manager" where
  "manager_Start K J now m = loadInstances K J now m"

text \<open>Closing the stop channel a second time panics.\<close>

definition manager_Stop :: "'r task_manager \<Rightarrow> 'r task_manager option" where
  "manager_Stop m = (if mg_stopped m then None else Some (m\<lparr>mg_stopped := True\<rparr>))"

record manager_metrics =
  mm_total :: int
  mm_active :: int
  mm_completed :: int
  mm_failed :: int
  mm_cached :: int

definition manager_GetMetrics :: "string list \<Rightarrow> 'r task_manager \<Rightarrow> manager_metrics" where
  "manager_GetMetrics ids m = \<lparr>mm_total = mg_totalTasks m, mm_active = mg_activeTasks m, mm_completed = mg_completedTasks m,
     mm_failed = mg_failedTasks m, mm_cached = int (length ids)\<rparr>"


section \<open>The counters\<close>

definition run_updates :: "('r, 'v) kv_commands \<Rightarrow> 'v inst_codec \<Rightarrow> ((nat \<Rightarrow> gotime) \<times> string \<times> task_state \<times> (string \<rightharpoonup> goval) option) list \<Rightarrow>
    'r task_manager \<Rightarrow> 'r task_manager" where
  "run_updates K J us m = fold (\<lambda>(ts, i, st, md) m. snd (UpdateState K J ts i st md m)) us m"

text \<open>The states given to an instance.\<close>

definition given :: "((nat \<Rightarrow> gotime) \<times> string \<times> task_state \<times> (string \<rightharpoonup> goval) option) list \<Rightarrow> string \<Rightarrow> task_state set" where
  "given us i = {st. \<exists>ts md. (ts, i, st, md) \<in> set us}"

definition have_run :: "((nat \<Rightarrow> gotime) \<times> string \<times> task_state \<times> (string \<rightharpoonup> goval) option) list \<Rightarrow> string set" where
  "have_run us = {i. TaskStateRunning \<in> given us i}"

definition have_ended :: "((nat \<Rightarrow> gotime) \<times> string \<times> task_state \<times> (string \<rightharpoonup> goval) option) list \<Rightarrow> string set" where
  "have_ended us = {i. TaskStateCompleted \<in> given us i \<or> TaskStateFailed \<in> given us i}"

lemma have_run_snoc: "have_run (us @ [(ts, i, st, md)]) = (if st = TaskStateRunning then insert i (have_run us) else have_run us)"
  "have_ended (us @ [(ts, i, st, md)]) = (if st = TaskStateCompleted \<or> st = TaskStateFailed then insert i (have_ended us) else have_ended us)"
  by (auto simp: have_run_def have_ended_def given_def)

lemma finite_have_run: "finite (have_run us)" "finite (have_ended us)"
proof -
  have "have_run us \<union> have_ended us \<subseteq> (\<lambda>(ts, i, st, md). i) ` set us" by (force simp: have_run_def have_ended_def given_def)
  then show "finite (have_run us)" "finite (have_ended us)" by (auto dest: finite_subset)
qed

lemma saveInstance_fields [simp]:
  "mg_tasks (saveInstance K J now i m) = mg_tasks m" "mg_activeTasks (saveInstance K J now i m) = mg_activeTasks m"
  "mg_completedTasks (saveInstance K J now i m) = mg_completedTasks m" "mg_failedTasks (saveInstance K J now i m) = mg_failedTasks m"
  "mg_totalTasks (saveInstance K J now i m) = mg_totalTasks m" "mg_prefix (saveInstance K J now i m) = mg_prefix m"
  "mg_taskChan (saveInstance K J now i m) = mg_taskChan m" "mg_taskTimeout (saveInstance K J now i m) = mg_taskTimeout m"
  "mg_retrying (saveInstance K J now i m) = mg_retrying m" "mg_registry (saveInstance K J now i m) = mg_registry m"
  by (simp_all add: saveInstance_def split: option.split)

text \<open>What an update does to the instances and the counters.\<close>

definition updated :: "(nat \<Rightarrow> gotime) \<Rightarrow> task_state \<Rightarrow> (string \<rightharpoonup> goval) option \<Rightarrow> task_instance \<Rightarrow> task_instance" where
  "updated ts st md x = x\<lparr>inst_State := st,
     inst_StartedAt := (if st = TaskStateRunning \<and> inst_StartedAt x = None then Some (ts 0) else inst_StartedAt x),
     inst_CompletedAt := (if (st = TaskStateCompleted \<or> st = TaskStateFailed) \<and> inst_CompletedAt x = None then Some (ts 0) else inst_CompletedAt x),
     inst_Context := inst_Context x ++ entries md, inst_LastHeartbeat := ts 0\<rparr>"

lemma UpdateState_effect:
  assumes "mg_tasks m i = Some x" and m': "m' = snd (UpdateState K J ts i st md m)"
  shows "mg_tasks m' = (mg_tasks m)(i \<mapsto> updated ts st md x)"
    and "mg_activeTasks m' = mg_activeTasks m + (if st = TaskStateRunning \<and> inst_StartedAt x = None then 1 else 0) -
        (if (st = TaskStateCompleted \<or> st = TaskStateFailed) \<and> inst_CompletedAt x = None then 1 else 0)"
    and "mg_completedTasks m' = mg_completedTasks m + (if st = TaskStateCompleted \<and> inst_CompletedAt x = None then 1 else 0)"
    and "mg_failedTasks m' = mg_failedTasks m + (if st = TaskStateFailed \<and> inst_CompletedAt x = None then 1 else 0)"
    and "mg_totalTasks m' = mg_totalTasks m" and "mg_taskChan m' = mg_taskChan m" and "mg_taskTimeout m' = mg_taskTimeout m"
proof -
  obtain x1 m1 where e: "enter_state (ts 0) st x m = (x1, m1)" by (cases "enter_state (ts 0) st x m")
  then have "mg_tasks m1 = mg_tasks m \<and> x1\<lparr>inst_Context := inst_Context x1 ++ entries md, inst_LastHeartbeat := ts 0\<rparr> = updated ts st md x \<and>
    mg_activeTasks m1 = mg_activeTasks m + (if st = TaskStateRunning \<and> inst_StartedAt x = None then 1 else 0) -
        (if (st = TaskStateCompleted \<or> st = TaskStateFailed) \<and> inst_CompletedAt x = None then 1 else 0) \<and>
    mg_completedTasks m1 = mg_completedTasks m + (if st = TaskStateCompleted \<and> inst_CompletedAt x = None then 1 else 0) \<and>
    mg_failedTasks m1 = mg_failedTasks m + (if st = TaskStateFailed \<and> inst_CompletedAt x = None then 1 else 0) \<and>
    mg_totalTasks m1 = mg_totalTasks m \<and> mg_taskChan m1 = mg_taskChan m \<and> mg_taskTimeout m1 = mg_taskTimeout m"
    by (cases st) (auto simp: enter_state_def updated_def Let_def split: if_splits)
  then show "mg_tasks m' = (mg_tasks m)(i \<mapsto> updated ts st md x)"
    "mg_activeTasks m' = mg_activeTasks m + (if st = TaskStateRunning \<and> inst_StartedAt x = None then 1 else 0) -
        (if (st = TaskStateCompleted \<or> st = TaskStateFailed) \<and> inst_CompletedAt x = None then 1 else 0)"
    "mg_completedTasks m' = mg_completedTasks m + (if st = TaskStateCompleted \<and> inst_CompletedAt x = None then 1 else 0)"
    "mg_failedTasks m' = mg_failedTasks m + (if st = TaskStateFailed \<and> inst_CompletedAt x = None then 1 else 0)"
    "mg_totalTasks m' = mg_totalTasks m" "mg_taskChan m' = mg_taskChan m" "mg_taskTimeout m' = mg_taskTimeout m"
    by (simp_all add: m' UpdateState_def assms(1) e publishStateChange_def Let_def)
qed

text \<open>
  Whatever states instances are given, in any order, the number of active tasks grows by the instances that
  have been running and shrinks by those that have completed or failed; completions and failures are counted
  once for each.  So an instance that times out, pauses or is cancelled counts as active for ever, and one
  that fails before it ran makes the number one too small.
\<close>
theorem counters_spec:
  assumes "\<And>i x. mg_tasks m i = Some x \<Longrightarrow> inst_StartedAt x = None \<and> inst_CompletedAt x = None"
    and "(\<lambda>(ts, i, st, md). i) ` set us \<subseteq> dom (mg_tasks m)"
  shows "mg_activeTasks (run_updates K J us m) = mg_activeTasks m + int (card (have_run us)) - int (card (have_ended us)) \<and>
    mg_completedTasks (run_updates K J us m) + mg_failedTasks (run_updates K J us m) = mg_completedTasks m + mg_failedTasks m + int (card (have_ended us)) \<and>
    mg_totalTasks (run_updates K J us m) = mg_totalTasks m \<and> dom (mg_tasks (run_updates K J us m)) = dom (mg_tasks m)"
proof -
  have "mg_activeTasks (run_updates K J us m) = mg_activeTasks m + int (card (have_run us)) - int (card (have_ended us)) \<and>
    mg_completedTasks (run_updates K J us m) + mg_failedTasks (run_updates K J us m) = mg_completedTasks m + mg_failedTasks m + int (card (have_ended us)) \<and>
    mg_totalTasks (run_updates K J us m) = mg_totalTasks m \<and> dom (mg_tasks (run_updates K J us m)) = dom (mg_tasks m) \<and>
    (\<forall>i x. mg_tasks (run_updates K J us m) i = Some x \<longrightarrow> (inst_StartedAt x \<noteq> None) = (i \<in> have_run us) \<and> (inst_CompletedAt x \<noteq> None) = (i \<in> have_ended us))"
    using assms(2)
  proof (induction us rule: rev_induct)
    case Nil
    then show ?case using assms(1) by (auto simp: run_updates_def have_run_def have_ended_def given_def)
  next
    case (snoc u us)
    obtain ts i st md where u: "u = (ts, i, st, md)" by (cases u) auto
    let ?m = "run_updates K J us m"
    have dom: "dom (mg_tasks ?m) = dom (mg_tasks m)" and "(\<lambda>(ts, i, st, md). i) ` set us \<subseteq> dom (mg_tasks m)" using snoc by auto
    have "i \<in> dom (mg_tasks ?m)" unfolding dom using snoc.prems by (auto simp: u)
    then obtain x where x: "mg_tasks ?m i = Some x" by blast
    have run: "run_updates K J (us @ [u]) m = snd (UpdateState K J ts i st md ?m)" by (simp add: run_updates_def u)
    note IH = snoc.IH [OF \<open>(\<lambda>(ts, i, st, md). i) ` set us \<subseteq> dom (mg_tasks m)\<close>]
    from IH x have "(inst_StartedAt x \<noteq> None) = (i \<in> have_run us) \<and> (inst_CompletedAt x \<noteq> None) = (i \<in> have_ended us)" by blast
    then have here: "(inst_StartedAt x = None) = (i \<notin> have_run us)" "(inst_CompletedAt x = None) = (i \<notin> have_ended us)" by blast+
    have tasks: "\<forall>j y. ((mg_tasks ?m)(i \<mapsto> updated ts st md x)) j = Some y \<longrightarrow>
        (inst_StartedAt y \<noteq> None) = (j \<in> have_run (us @ [u])) \<and> (inst_CompletedAt y \<noteq> None) = (j \<in> have_ended (us @ [u]))"
      using IH here unfolding u have_run_snoc by (auto simp: updated_def)
    have counts: "int (card (have_run (us @ [u]))) = int (card (have_run us)) + (if st = TaskStateRunning \<and> i \<notin> have_run us then 1 else 0)"
      "int (card (have_ended (us @ [u]))) = int (card (have_ended us)) + (if (st = TaskStateCompleted \<or> st = TaskStateFailed) \<and> i \<notin> have_ended us then 1 else 0)"
      by (simp_all add: u have_run_snoc finite_have_run card_insert_if insert_absorb)
    have doms: "dom ((mg_tasks ?m)(i \<mapsto> updated ts st md x)) = dom (mg_tasks m)" using dom domI [of "mg_tasks ?m" i x] x by auto
    show ?case unfolding run UpdateState_effect [OF x refl] counts here
      by (intro conjI doms tasks) (use IH in simp_all)
  qed
  then show ?thesis by blast
qed


section \<open>Time-outs\<close>

text \<open>Entries and counters an operation keeps.\<close>

definition keeps_instances :: "'r task_manager \<Rightarrow> 'r task_manager \<Rightarrow> bool" where
  "keeps_instances m m' \<longleftrightarrow> (\<forall>i x. mg_tasks m i = Some x \<longrightarrow> mg_tasks m' i = Some x) \<and> mg_activeTasks m' = mg_activeTasks m \<and>
     mg_completedTasks m' = mg_completedTasks m \<and> mg_failedTasks m' = mg_failedTasks m \<and> mg_taskTimeout m' = mg_taskTimeout m"

lemma GetInstance_keeps: "GetInstance K J now i m = (res, m') \<Longrightarrow> keeps_instances m m'"
  by (auto simp: GetInstance_def keeps_instances_def split: option.splits)

lemma keeps_trans: "keeps_instances m m1 \<Longrightarrow> keeps_instances m1 m2 \<Longrightarrow> keeps_instances m m2"
  by (simp add: keeps_instances_def)

lemma checkDependencies_keeps: "checkDependencies K J now ds m = (ok, m') \<Longrightarrow> keeps_instances m m'"
proof (induction ds arbitrary: m)
  case (Cons d ds)
  obtain res m1 where g: "GetInstance K J now d m = (res, m1)" by (cases "GetInstance K J now d m")
  show ?case using Cons.prems Cons.IH [of m1] GetInstance_keeps [OF g]
    by (auto simp: g split: option.splits if_splits intro: keeps_trans)
qed (simp add: keeps_instances_def)

lemma queue_instance_keeps: "keeps_instances m (queue_instance i m)"
  by (simp add: keeps_instances_def queue_instance_def)

definition timed_out :: "(nat \<Rightarrow> gotime) \<Rightarrow> task_instance \<Rightarrow> task_instance" where
  "timed_out ts x = updated ts TaskStateTimeout (Some [''reason'' \<mapsto> GStr ''task timeout'']) x"

lemma keeps_refl: "keeps_instances m m"
  by (simp add: keeps_instances_def)

lemma check_instance_keeps:
  assumes "mg_tasks m i = Some x" and "\<not> overdue now (mg_taskTimeout m) x"
  shows "keeps_instances m (check_instance K J now tsf i m)"
proof -
  obtain ok m1 where c: "checkDependencies K J (tsf i 0) (inst_DependsOn x) m = (ok, m1)"
    by (cases "checkDependencies K J (tsf i 0) (inst_DependsOn x) m")
  then show ?thesis using assms checkDependencies_keeps [OF c] keeps_trans [OF _ queue_instance_keeps]
    by (auto simp: check_instance_def keeps_refl)
qed

lemma check_instance_at:
  "mg_tasks m j = Some y \<Longrightarrow> mg_tasks (check_instance K J now tsf i m) j =
     Some (if j = i \<and> overdue now (mg_taskTimeout m) y then timed_out (tsf i) y else y)"
  "mg_activeTasks (check_instance K J now tsf i m) = mg_activeTasks m"
  "mg_taskTimeout (check_instance K J now tsf i m) = mg_taskTimeout m"
proof -
  have "(mg_tasks m j = Some y \<longrightarrow> mg_tasks (check_instance K J now tsf i m) j =
      Some (if j = i \<and> overdue now (mg_taskTimeout m) y then timed_out (tsf i) y else y)) \<and>
    mg_activeTasks (check_instance K J now tsf i m) = mg_activeTasks m \<and>
    mg_taskTimeout (check_instance K J now tsf i m) = mg_taskTimeout m" for y
  proof (cases "mg_tasks m i")
    case None
    then show ?thesis by (auto simp: check_instance_def)
  next
    case (Some x)
    show ?thesis
    proof (cases "overdue now (mg_taskTimeout m) x")
      case True
      then show ?thesis using Some by (auto simp: check_instance_def UpdateState_effect [OF Some refl] timed_out_def)
    next
      case False
      then show ?thesis using check_instance_keeps [OF Some False, of K J tsf] Some by (auto simp: keeps_instances_def)
    qed
  qed
  then show "mg_tasks m j = Some y \<Longrightarrow> mg_tasks (check_instance K J now tsf i m) j =
      Some (if j = i \<and> overdue now (mg_taskTimeout m) y then timed_out (tsf i) y else y)"
    "mg_activeTasks (check_instance K J now tsf i m) = mg_activeTasks m"
    "mg_taskTimeout (check_instance K J now tsf i m) = mg_taskTimeout m" by blast+
qed

lemma not_overdue_again: "\<not> overdue now d (timed_out ts x)"
  by (simp add: overdue_def timed_out_def updated_def)

lemma checkTaskStates_at:
  "mg_tasks m j = Some y \<Longrightarrow> mg_tasks (checkTaskStates K J now tsf ids m) j =
     Some (if j \<in> set ids \<and> overdue now (mg_taskTimeout m) y then timed_out (tsf j) y else y)"
proof (induction ids arbitrary: m y)
  case (Cons i ids)
  from Cons.IH [OF check_instance_at(1) [OF Cons.prems, of K J now tsf i]] show ?case
    by (auto simp: checkTaskStates_def check_instance_at(3) not_overdue_again)
qed (simp add: checkTaskStates_def)

lemma checkTaskStates_active: "mg_activeTasks (checkTaskStates K J now tsf ids m) = mg_activeTasks m"
  by (induction ids arbitrary: m) (simp_all add: checkTaskStates_def check_instance_at(2))

lemma cleanup_keeps_unfinished:
  "mg_tasks m i = Some x \<Longrightarrow> inst_CompletedAt x = None \<Longrightarrow> mg_tasks (fold cleanupOldInstances nows m) i = Some x"
  by (induction nows arbitrary: m) (simp_all add: cleanupOldInstances_def)

text \<open>
  A check of the states times out exactly the instances in memory that have been running for longer than
  the limit, leaves the others and all counters as they are, and no clean-up, however late, removes an
  instance that timed out before it was completed: it stays in memory and in the count of active tasks.
\<close>
theorem overdue_times_out:
  assumes "enumerates ids (mg_tasks m)"
  shows "(\<forall>i x. mg_tasks m i = Some x \<longrightarrow>
      mg_tasks (checkTaskStates K J now tsf ids m) i = Some (if overdue now (mg_taskTimeout m) x then timed_out (tsf i) x else x)) \<and>
    mg_activeTasks (checkTaskStates K J now tsf ids m) = mg_activeTasks m \<and>
    (\<forall>i x. mg_tasks m i = Some x \<and> overdue now (mg_taskTimeout m) x \<and> inst_CompletedAt x = None \<longrightarrow>
      mg_tasks (fold cleanupOldInstances nows (checkTaskStates K J now tsf ids m)) i = Some (timed_out (tsf i) x))"
proof -
  have each: "mg_tasks (checkTaskStates K J now tsf ids m) i = Some (if overdue now (mg_taskTimeout m) x then timed_out (tsf i) x else x)"
    if "mg_tasks m i = Some x" for i x
  proof -
    have "i \<in> set ids" using assms that by (auto simp: enumerates_def)
    then show ?thesis by (simp add: checkTaskStates_at [OF that])
  qed
  moreover have "mg_tasks (fold cleanupOldInstances nows (checkTaskStates K J now tsf ids m)) i = Some (timed_out (tsf i) x)"
    if "mg_tasks m i = Some x" "overdue now (mg_taskTimeout m) x" "inst_CompletedAt x = None" for i x
    by (rule cleanup_keeps_unfinished) (use each [OF that(1)] that in \<open>simp_all add: timed_out_def updated_def\<close>)
  ultimately show ?thesis by (simp add: checkTaskStates_active)
qed


section \<open>Restart\<close>

text \<open>What a process reads from Redis under an instance's key.\<close>

definition stored_instance :: "('r \<Rightarrow> string \<rightharpoonup> 'v \<times> gotime option) \<Rightarrow> 'v inst_codec \<Rightarrow> gotime \<Rightarrow> string \<Rightarrow> 'r \<Rightarrow> task_instance option" where
  "stored_instance vs J now key r = Option.bind (kvs_read now (vs r key)) (ic_read J)"

definition in_flight :: "task_instance \<Rightarrow> bool" where
  "in_flight x \<longleftrightarrow> inst_State x = TaskStateRunning \<or> inst_State x = TaskStateAllocated"

text \<open>Every instance is stored under its own identifier.\<close>

definition well_stored :: "('r \<Rightarrow> string \<rightharpoonup> 'v \<times> gotime option) \<Rightarrow> 'v inst_codec \<Rightarrow> gotime \<Rightarrow> string \<Rightarrow> 'r \<Rightarrow> bool" where
  "well_stored vs J now pre r \<longleftrightarrow>
     (\<forall>k x. HasPrefix k (instance_key pre '''') \<and> stored_instance vs J now k r = Some x \<longrightarrow> k = instance_key pre (inst_ID x))"

lemma instance_key_inject [simp]: "instance_key pre i = instance_key pre j \<longleftrightarrow> i = j"
  by (simp add: instance_key_def)

lemma load_one_effect:
  assumes "kv_answers K vs ss"
  shows "load_one K J now key m = (case stored_instance vs J now key (mg_redis m) of
      None \<Rightarrow> m
    | Some x \<Rightarrow> if in_flight x then m\<lparr>mg_tasks := (mg_tasks m)(inst_ID x \<mapsto> x)\<rparr> else m)"
  by (simp add: load_one_def stored_instance_def in_flight_def kv_answersD(4) [OF assms] split: option.split)

text \<open>Reading a key enters the instance in flight, if there is one; the rest stays.\<close>

definition restored :: "('r \<Rightarrow> string \<rightharpoonup> 'v \<times> gotime option) \<Rightarrow> 'v inst_codec \<Rightarrow> gotime \<Rightarrow> string \<Rightarrow> 'r \<Rightarrow> task_instance option" where
  "restored vs J now key r = (case stored_instance vs J now key r of None \<Rightarrow> None | Some x \<Rightarrow> if in_flight x then Some x else None)"

lemma load_one_frame:
  assumes "kv_answers K vs ss"
  shows "mg_redis (load_one K J now key m) = mg_redis m" and "mg_taskChan (load_one K J now key m) = mg_taskChan m"
    and "mg_activeTasks (load_one K J now key m) = mg_activeTasks m" and "mg_retrying (load_one K J now key m) = mg_retrying m"
    and "mg_prefix (load_one K J now key m) = mg_prefix m"
  by (simp_all add: load_one_effect [OF assms] split: option.split)

lemma load_fold_frame:
  assumes "kv_answers K vs ss"
  shows "mg_redis (fold (load_one K J now) keys m) = mg_redis m" and "mg_taskChan (fold (load_one K J now) keys m) = mg_taskChan m"
    and "mg_activeTasks (fold (load_one K J now) keys m) = mg_activeTasks m" and "mg_retrying (fold (load_one K J now) keys m) = mg_retrying m"
    and "mg_prefix (fold (load_one K J now) keys m) = mg_prefix m"
  by (induction keys arbitrary: m) (simp_all add: load_one_frame [OF assms])

lemma load_fold:
  assumes "kv_answers K vs ss" and "well_stored vs J now pre (mg_redis m)" and "list_all (\<lambda>k. HasPrefix k (instance_key pre '''')) keys"
  shows "mg_tasks (fold (load_one K J now) keys m) i =
    (if instance_key pre i \<in> set keys \<and> restored vs J now (instance_key pre i) (mg_redis m) \<noteq> None
     then restored vs J now (instance_key pre i) (mg_redis m) else mg_tasks m i)"
  using assms(2,3)
proof (induction keys arbitrary: m)
  case (Cons k keys)
  let ?m1 = "load_one K J now k m"
  have redis: "mg_redis ?m1 = mg_redis m" by (rule load_one_frame [OF assms(1)])
  have one: "mg_tasks ?m1 i = (if k = instance_key pre i \<and> restored vs J now k (mg_redis m) \<noteq> None then restored vs J now k (mg_redis m) else mg_tasks m i)"
  proof (cases "restored vs J now k (mg_redis m)")
    case None
    then show ?thesis by (auto simp: load_one_effect [OF assms(1)] restored_def split: option.splits if_splits)
  next
    case (Some x)
    then have x: "stored_instance vs J now k (mg_redis m) = Some x" "in_flight x" by (auto simp: restored_def split: option.splits if_splits)
    then have "k = instance_key pre (inst_ID x)" using Cons.prems by (simp add: well_stored_def)
    then show ?thesis using x Some by (auto simp: load_one_effect [OF assms(1)])
  qed
  have "well_stored vs J now pre (mg_redis ?m1)" "list_all (\<lambda>k. HasPrefix k (instance_key pre '''')) keys" using Cons.prems by (simp_all add: redis)
  from Cons.IH [OF this] show ?case unfolding redis one by auto
qed simp

lemma instances_after_restart:
  assumes "kv_answers K vs ss" and "no_glob pre" and "well_stored vs J now pre r"
  shows "mg_tasks (manager_Start K J now (NewTaskManager g r pre a b c d)) i = restored vs J now (instance_key pre i) r"
    and "mg_taskChan (manager_Start K J now (NewTaskManager g r pre a b c d)) = []"
    and "mg_activeTasks (manager_Start K J now (NewTaskManager g r pre a b c d)) = 0"
    and "mg_redis (manager_Start K J now (NewTaskManager g r pre a b c d)) = r"
    and "mg_retrying (manager_Start K J now (NewTaskManager g r pre a b c d)) = None"
    and "mg_prefix (manager_Start K J now (NewTaskManager g r pre a b c d)) = pre"
proof -
  let ?n = "NewTaskManager g r pre a b c d"
  let ?p = "instance_key pre ''''"
  have "no_glob ?p" using assms(2) by (simp add: no_glob_def instance_key_def)
  then obtain keys where keys: "kvs_Keys K now (?p @ ''*'') r = Some keys"
    and mem: "set keys = {k. HasPrefix k ?p \<and> (kvs_read now (vs r k) \<noteq> None \<or> ss r k \<noteq> {})}"
    using kv_answersD(8) [OF assms(1)] by meson
  have n: "mg_prefix ?n = pre" "mg_redis ?n = r" "mg_tasks ?n = Map.empty" "mg_taskChan ?n = []" "mg_activeTasks ?n = 0" "mg_retrying ?n = None"
    by (simp_all add: NewTaskManager_def)
  have "?p @ ''*'' = instance_key pre ''*''" by (simp add: instance_key_def)
  then have start: "manager_Start K J now ?n = fold (load_one K J now) keys ?n"
    using keys by (simp add: manager_Start_def loadInstances_def n)
  have pre: "list_all (\<lambda>k. HasPrefix k ?p) keys" using mem by (auto simp: list_all_iff)
  have "HasPrefix (instance_key pre i) ?p" by (simp add: HasPrefix_iff instance_key_def)
  then have "instance_key pre i \<in> set keys" if "restored vs J now (instance_key pre i) r = Some x" for x
    using that by (auto simp: mem restored_def stored_instance_def bind_eq_Some_conv split: option.splits)
  then show "mg_tasks (manager_Start K J now ?n) i = restored vs J now (instance_key pre i) r"
    using load_fold [OF assms(1) _ pre, of J now ?n i] assms(3) by (cases "restored vs J now (instance_key pre i) r") (simp_all add: start n)
  show "mg_taskChan (manager_Start K J now ?n) = []" "mg_activeTasks (manager_Start K J now ?n) = 0"
    "mg_redis (manager_Start K J now ?n) = r" "mg_retrying (manager_Start K J now ?n) = None" "mg_prefix (manager_Start K J now ?n) = pre"
    unfolding start load_fold_frame [OF assms(1)] by (simp_all add: n)
qed

text \<open>
  An instance just created is in memory and stored; after a restart, for as long as it is stored, it can
  still be read, but it is neither in memory nor queued, and the worker finds nothing to do: it is never
  allocated.  What was running comes back, with the count of active tasks at zero.
\<close>
theorem created_lost_on_restart:
  assumes "kv_answers K vs ss" and "no_glob (mg_prefix m)"
    and "CreateInstance K C J hash ts uuid uuid' defID params m = (Inr x, m1)"
    and "ic_inst J x = Some w" and "ic_read J w = Some x'" and "inst_State x' = TaskStateCreated"
    and "well_stored vs J now (mg_prefix m) (mg_redis m1)" and "now < ts 4 + 24 * hour"
  shows "fst (GetInstance K J now uuid' m1) = Some x \<and>
    (\<exists>n. manager_Start K J now (NewTaskManager g (mg_redis m1) (mg_prefix m) a b c d) = n \<and> mg_tasks n uuid' = None \<and>
      fst (GetInstance K J now uuid' n) = Some x' \<and> allocationWorker K J ts' nodes alloc n = (None, n) \<and>
      (\<forall>i y. stored_instance vs J now (instance_key (mg_prefix m) i) (mg_redis m1) = Some y \<and> inst_State y = TaskStateRunning \<longrightarrow>
        mg_tasks n i = Some y) \<and> mg_activeTasks n = 0)"
proof -
  let ?n = "manager_Start K J now (NewTaskManager g (mg_redis m1) (mg_prefix m) a b c d)"
  note rs = instances_after_restart [OF assms(1,2,7)]
  obtain gr d0 url where "GetDefinition K C (ts 0) defID (mg_registry m) (mg_redis m) = (Inr d0, gr)"
    and x: "x = new_instance ts uuid' defID (def_CreateTask hash uuid (ts 1) d0 url params) Map.empty params"
    and m1: "m1 = add_instance K J (ts 4) x (m\<lparr>mg_registry := gr\<rparr>)"
    using assms(3) by (auto simp: CreateInstance_def Let_def split: prod.splits sum.splits option.splits goval.splits)
  have id: "inst_ID x = uuid'" by (simp add: x new_instance_def)
  have view: "vs (mg_redis m1) (instance_key (mg_prefix m) uuid') = Some (w, Some (ts 4 + 24 * hour))"
    by (simp add: m1 add_instance_def queue_instance_def saveInstance_def assms(4) id kv_answersD(2) [OF assms(1)])
  have mem: "mg_tasks m1 uuid' = Some x" by (simp add: m1 add_instance_def queue_instance_def id)
  have st: "stored_instance vs J now (instance_key (mg_prefix m) uuid') (mg_redis m1) = Some x'"
    using assms(5,8) by (simp add: stored_instance_def view)
  have none: "mg_tasks ?n uuid' = None" unfolding rs(1) by (simp add: restored_def st in_flight_def assms(6))
  have "fst (GetInstance K J now uuid' ?n) = Some x'"
    using st by (simp add: GetInstance_def none loadInstance_def rs(4,6) kv_answersD(4) [OF assms(1)] stored_instance_def)
  moreover have "allocationWorker K J ts' nodes alloc ?n = (None, ?n)"
    by (simp add: allocationWorker_def rs(2,5))
  moreover have "mg_tasks ?n i = Some y"
    if "stored_instance vs J now (instance_key (mg_prefix m) i) (mg_redis m1) = Some y" "inst_State y = TaskStateRunning" for i y
    using that unfolding rs(1) by (simp add: restored_def in_flight_def)
  ultimately show ?thesis using none mem rs(3) by (auto simp: GetInstance_def)
qed


section \<open>Allocation\<close>

text \<open>
  Whatever state an instance is in and whether or not what it depends on is done, allocating it sets its
  state back to allocated, gives it to the node the allocator chose and adds one to that node's load: an
  instance that was queued twice, or is completed, is handed out again and counts twice.
\<close>
theorem allocation_ignores_state:
  assumes "mg_tasks m i = Some x" and "ns \<noteq> []" and "\<And>y. alloc y ns = Chosen n"
  shows "\<exists>m1 m2. AllocateTask K J ts (Some ns) alloc i m = (AllocDone, m1) \<and>
    mg_tasks m1 = (mg_tasks m)(i \<mapsto> x\<lparr>inst_NodeID := n_ID n, inst_State := TaskStateAllocated\<rparr>) \<and>
    AllocateTask K J ts' (Some ns) alloc i m1 = (AllocDone, m2) \<and> mg_tasks m2 = mg_tasks m1 \<and>
    mg_loadCalls m2 = mg_loadCalls m @ [(n_ID n, 1), (n_ID n, 1)]"
proof -
  obtain n0 ns' where ns: "ns = n0 # ns'" using assms(2) by (cases ns) auto
  have once: "\<exists>m1. AllocateTask K J ts (Some ns) alloc i m = (AllocDone, m1) \<and>
    mg_tasks m1 = (mg_tasks m)(i \<mapsto> x\<lparr>inst_NodeID := n_ID n, inst_State := TaskStateAllocated\<rparr>) \<and>
    mg_loadCalls m1 = mg_loadCalls m @ [(n_ID n, 1)]" if "mg_tasks m i = Some x" for m x ts
    using that assms(3) by (simp add: AllocateTask_def GetInstance_def saveAllocation_def Let_def ns)
  from once [OF assms(1), of ts] obtain m1 where m1: "AllocateTask K J ts (Some ns) alloc i m = (AllocDone, m1)"
    "mg_tasks m1 = (mg_tasks m)(i \<mapsto> x\<lparr>inst_NodeID := n_ID n, inst_State := TaskStateAllocated\<rparr>)"
    "mg_loadCalls m1 = mg_loadCalls m @ [(n_ID n, 1)]" by blast
  then have "mg_tasks m1 i = Some (x\<lparr>inst_NodeID := n_ID n, inst_State := TaskStateAllocated\<rparr>)" by simp
  from once [OF this, of ts'] m1 show ?thesis by (fastforce simp: fun_eq_iff)
qed

text \<open>A chosen node is one of those offered; the default allocator crashes on a hash that went negative.\<close>

lemma Allocate_hash_crash:
  assumes "nodes \<noteq> []" and "sint (url_hash (t_URL (inst_Task i))) smod int (length nodes) < 0"
  shows "Allocate ''hash'' now i nodes = AllocatorPanic"
  using assms by (simp add: Allocate_def allocateHash_def index_node_def of_selection_def)

lemma allocate_index: "of_selection (index_node nodes k) = Chosen n \<Longrightarrow> n \<in> set nodes"
  by (auto simp: of_selection_def split: selection.splits intro: index_node_member)

lemma allocate_least: "foldl (\<lambda>(sel, minLoad) n. if n_CurrentLoad n < minLoad then (Some n, n_CurrentLoad n) else (sel, minLoad)) (sel, b) nodes = (Some n, c) \<Longrightarrow>
   n \<in> set nodes \<or> sel = Some n"
  by (induction nodes arbitrary: sel b) (auto split: if_splits)

lemma Allocate_member: "Allocate strat now i nodes = Chosen n \<Longrightarrow> n \<in> set nodes"
  by (auto simp: Allocate_def allocateLeastLoad_def allocateHash_def allocateRoundRobin_def
      split: if_splits prod.splits option.splits dest!: allocate_index dest: allocate_least)

section \<open>Examples\<close>

datatype man_wire = MDef task_def | MInst task_instance | MOther

definition man_defs :: "man_wire def_codec" where
  "man_defs = \<lparr>tc_def = (\<lambda>d. Some (MDef d)), tc_read_def = (\<lambda>w. case w of MDef d \<Rightarrow> Some d | _ \<Rightarrow> None),
     tc_tpl = (\<lambda>_. None), tc_read_tpl = (\<lambda>_. None), tc_empty = MOther\<rparr>"

definition man_insts :: "man_wire inst_codec" where
  "man_insts = \<lparr>ic_inst = (\<lambda>x. Some (MInst x)), ic_read = (\<lambda>w. case w of MInst x \<Rightarrow> Some x | _ \<Rightarrow> None),
     ic_alloc = (\<lambda>_ _ _. MOther), ic_progress = (\<lambda>_. MOther)\<rparr>"

definition sample_manager :: "(man_wire kv_mem) task_manager" where
  "sample_manager = NewTaskManager (\<lparr>tg_definitions = [''venue'' \<mapsto> sample_def], tg_templates = Map.empty, tg_validators = Map.empty, tg_prefix = ''crawler''\<rparr>)
     \<lparr>km_str = [], km_set = []\<rparr> ''crawler'' 0 0 0 0"

definition sample_params :: "(string \<rightharpoonup> goval) option" where
  "sample_params = Some [''url'' \<mapsto> GStr ''http://x'']"

definition sample_instance :: task_instance where
  "sample_instance = new_instance (\<lambda>_. 0) ''i1'' ''venue'' (def_CreateTask id ''t1'' 0 sample_def ''http://x'' sample_params) Map.empty sample_params"

lemma sample_create:
  "CreateInstance mem_kv man_defs man_insts id (\<lambda>_. 0) ''t1'' ''i1'' ''venue'' sample_params sample_manager =
     (Inr sample_instance, add_instance mem_kv man_insts 0 sample_instance sample_manager)"
  by (simp add: CreateInstance_def GetDefinition_def sample_manager_def NewTaskManager_def sample_params_def get_in_map_def sample_instance_def Let_def)

lemma sample_created:
  "mg_redis (add_instance mem_kv man_insts 0 sample_instance sample_manager) =
     \<lparr>km_str = [(instance_key ''crawler'' ''i1'', MInst sample_instance, Some (24 * hour))], km_set = []\<rparr>"
  "mg_prefix sample_manager = ''crawler''" "inst_ID sample_instance = ''i1''" "inst_State sample_instance = TaskStateCreated"
proof -
  show id: "inst_ID sample_instance = ''i1''" "inst_State sample_instance = TaskStateCreated" by (simp_all add: sample_instance_def new_instance_def)
  show pre: "mg_prefix sample_manager = ''crawler''" by (simp add: sample_manager_def NewTaskManager_def)
  have "mg_redis sample_manager = \<lparr>km_str = [], km_set = []\<rparr>" by (simp add: sample_manager_def NewTaskManager_def)
  then show "mg_redis (add_instance mem_kv man_insts 0 sample_instance sample_manager) =
     \<lparr>km_str = [(instance_key ''crawler'' ''i1'', MInst sample_instance, Some (24 * hour))], km_set = []\<rparr>"
    by (simp add: add_instance_def queue_instance_def saveInstance_def man_insts_def mem_kv_def id pre)
qed

lemma created_lost_on_restart_witness:
  "\<exists>n. manager_Start mem_kv man_insts second (NewTaskManager (NewTaskRegistry ''crawler'')
      (mg_redis (add_instance mem_kv man_insts 0 sample_instance sample_manager)) ''crawler'' 0 0 0 0) = n \<and>
    mg_tasks n ''i1'' = None \<and> fst (GetInstance mem_kv man_insts second ''i1'' n) = Some sample_instance \<and>
    allocationWorker mem_kv man_insts (\<lambda>_. second) None (\<lambda>_ _. NoneChosen) n = (None, n)"
proof -
  have glob: "no_glob (mg_prefix sample_manager)" by (simp add: sample_created no_glob_def)
  have enc: "ic_inst man_insts sample_instance = Some (MInst sample_instance)" and dec: "ic_read man_insts (MInst sample_instance) = Some sample_instance"
    by (simp_all add: man_insts_def)
  have stored: "well_stored (\<lambda>r. map_of (km_str r)) man_insts second (mg_prefix sample_manager)
      (mg_redis (add_instance mem_kv man_insts 0 sample_instance sample_manager))"
    unfolding well_stored_def stored_instance_def sample_created by (auto simp: man_insts_def sample_created split: if_splits)
  have now: "second < (\<lambda>_. 0) (4 :: nat) + 24 * hour" by simp
  from created_lost_on_restart [OF mem_kv_answers glob sample_create enc dec sample_created(4) stored now,
      where g = "NewTaskRegistry ''crawler''" and a = 0 and b = 0 and c = 0 and d = 0 and ts' = "\<lambda>_. second" and nodes = None and alloc = "\<lambda>_ _. NoneChosen"]
  show ?thesis unfolding sample_created(2) by blast
qed

definition running_manager :: "(man_wire kv_mem) task_manager" where
  "running_manager = sample_manager\<lparr>mg_tasks := [''i1'' \<mapsto> sample_instance\<lparr>inst_State := TaskStateRunning, inst_StartedAt := Some 0\<rparr>]\<rparr>"

lemma overdue_times_out_witness:
  "mg_tasks (fold cleanupOldInstances [2 * hour, 72 * hour] (checkTaskStates mem_kv man_insts hour (\<lambda>_ _. hour) [''i1''] running_manager)) ''i1'' =
     Some (timed_out (\<lambda>_. hour) (sample_instance\<lparr>inst_State := TaskStateRunning, inst_StartedAt := Some 0\<rparr>))"
proof -
  have m: "mg_tasks running_manager = [''i1'' \<mapsto> sample_instance\<lparr>inst_State := TaskStateRunning, inst_StartedAt := Some 0\<rparr>]"
    "mg_taskTimeout running_manager = 30 * minute"
    by (simp_all add: running_manager_def sample_manager_def NewTaskManager_def or_default_def)
  have ids: "enumerates [''i1''] (mg_tasks running_manager)" by (simp add: m enumerates_def)
  have x: "overdue hour (mg_taskTimeout running_manager) (sample_instance\<lparr>inst_State := TaskStateRunning, inst_StartedAt := Some 0\<rparr>)"
    "inst_CompletedAt (sample_instance\<lparr>inst_State := TaskStateRunning, inst_StartedAt := Some 0\<rparr>) = None"
    by (simp_all add: m overdue_def sample_instance_def new_instance_def)
  show ?thesis using overdue_times_out [OF ids, where K = mem_kv and J = man_insts and now = hour and tsf = "\<lambda>_ _. hour" and nows = "[2 * hour, 72 * hour]"] x by (simp only: m(1)) simp
qed

lemma counters_spec_witness:
  "mg_activeTasks (run_updates mem_kv man_insts
      [(\<lambda>_. 0, ''i1'', TaskStateFailed, None), (\<lambda>_. 1, ''i1'', TaskStateFailed, None)]
      (sample_manager\<lparr>mg_tasks := [''i1'' \<mapsto> sample_instance]\<rparr>)) = - 1"
proof -
  let ?us = "[(\<lambda>_ :: nat. 0 :: gotime, ''i1'', TaskStateFailed, None :: (string \<rightharpoonup> goval) option), (\<lambda>_. 1, ''i1'', TaskStateFailed, None)]"
  let ?m = "sample_manager\<lparr>mg_tasks := [''i1'' \<mapsto> sample_instance]\<rparr>"
  have sets: "have_run ?us = {}" "have_ended ?us = {''i1''}" by (auto simp: have_run_def have_ended_def given_def)
  have fresh: "inst_StartedAt x = None \<and> inst_CompletedAt x = None" if "mg_tasks ?m i = Some x" for i x
    using that by (auto simp: sample_instance_def new_instance_def split: if_splits)
  have "(\<lambda>(ts, i, st, md). i) ` set ?us \<subseteq> dom (mg_tasks ?m)" by simp
  from counters_spec [OF fresh this, where K = mem_kv and J = man_insts] show ?thesis
    unfolding sets by (simp add: sample_manager_def NewTaskManager_def)
qed

lemma allocation_ignores_state_witness:
  "\<exists>m1 m2. AllocateTask mem_kv man_insts (\<lambda>_. 0) (Some [\<lparr>n_ID = ''n1'', n_Address = '''', n_Capacity = 1, n_CurrentLoad = 0, n_Status = ''active'', n_LastHeartbeat = 0,
       n_Tags = [], n_Capabilities = []\<rparr>]) (\<lambda>_ ns. Chosen (hd ns)) ''i1'' running_manager = (AllocDone, m1) \<and>
    AllocateTask mem_kv man_insts (\<lambda>_. 0) (Some [\<lparr>n_ID = ''n1'', n_Address = '''', n_Capacity = 1, n_CurrentLoad = 0, n_Status = ''active'', n_LastHeartbeat = 0,
       n_Tags = [], n_Capabilities = []\<rparr>]) (\<lambda>_ ns. Chosen (hd ns)) ''i1'' m1 = (AllocDone, m2) \<and>
    mg_loadCalls m2 = [(''n1'', 1), (''n1'', 1)]"
proof -
  let ?n = "\<lparr>n_ID = ''n1'', n_Address = '''', n_Capacity = 1, n_CurrentLoad = 0, n_Status = ''active'', n_LastHeartbeat = 0, n_Tags = [], n_Capabilities = []\<rparr> :: node_info"
  have "mg_tasks running_manager ''i1'' = Some (sample_instance\<lparr>inst_State := TaskStateRunning, inst_StartedAt := Some 0\<rparr>)"
    by (simp add: running_manager_def)
  from allocation_ignores_state [OF this, where ns = "[?n]" and alloc = "\<lambda>_ ns. Chosen (hd ns)" and n = ?n and K = mem_kv and J = man_insts and ts = "\<lambda>_. 0" and ts' = "\<lambda>_. 0"]
  show ?thesis by (auto simp: running_manager_def sample_manager_def NewTaskManager_def)
qed

end
