(* ===== verification/CrawlerApp.thy ===== *)
theory CrawlerApp
  imports TaskQueue FetchMiddleware
begin

text \<open>
  The crawler of one process (src/crawler/crawler.go): configuration, construction, start and stop, the worker's
  loop, what a task goes through, seeds and metrics.  The fetcher, the pipeline and the storage answer as the environment
  says; the queue is an interface, given by its operations.
\<close>

section \<open>Configuration\<close>

record crawler_config =
  cc_ID :: string
  cc_Name :: string
  cc_Version :: string
  cc_Mode :: string
  cc_Storage :: "string option"
  cc_TaskQueue :: string
  cc_Workers :: int
  cc_MaxConcurrent :: int
  cc_MaxDepth :: int
  cc_MaxRetries :: int
  cc_Timeout :: duration
  cc_RedisAddr :: string
  cc_RedisPrefix :: string
  cc_EnableScheduler :: bool
  cc_EnableDistributed :: bool
  cc_EnableMetrics :: bool
  cc_LogLevel :: string

definition ModeStandalone :: string where "ModeStandalone = ''standalone''"
definition ModeDistributed :: string where "ModeDistributed = ''distributed''"
definition ModeCluster :: string where "ModeCluster = ''cluster''"

definition text_or :: "string \<Rightarrow> string \<Rightarrow> string" where
  "text_or s d = (if s = '''' then d else s)"

definition int_or :: "int \<Rightarrow> int \<Rightarrow> int" where
  "int_or x d = (if x \<le> 0 then d else x)"

text \<open>\<open>unix\<close> is the clock in seconds.\<close>

definition validateConfig :: "int \<Rightarrow> crawler_config \<Rightarrow> crawler_config" where
  "validateConfig unix c = c\<lparr>
     cc_ID := text_or (cc_ID c) (''crawler-'' @ dec_of_int unix), cc_Name := text_or (cc_Name c) ''Default Crawler'',
     cc_Version := text_or (cc_Version c) ''1.0.0'', cc_Mode := text_or (cc_Mode c) ModeStandalone,
     cc_Workers := int_or (cc_Workers c) 10, cc_MaxConcurrent := int_or (cc_MaxConcurrent c) 100, cc_MaxDepth := int_or (cc_MaxDepth c) 3,
     cc_MaxRetries := int_or (cc_MaxRetries c) 3, cc_Timeout := int_or (cc_Timeout c) (30 * second),
     cc_RedisAddr := text_or (cc_RedisAddr c) ''localhost:6379'', cc_RedisPrefix := text_or (cc_RedisPrefix c) ''crawler'',
     cc_LogLevel := text_or (cc_LogLevel c) ''info''\<rparr>"

section \<open>The crawler\<close>

datatype crawler_status =
    StatusIdle
  | StatusStarting
  | StatusRunningC
  | StatusPausing
  | StatusPaused
  | StatusStopping
  | StatusStopped
  | StatusErrorC

text \<open>Rates are floats, here their patterns.\<close>

record crawler_metrics =
  cm_RequestsTotal :: int
  cm_RequestsSuccess :: int
  cm_RequestsFailed :: int
  cm_BytesDownloaded :: int
  cm_ItemsExtracted :: int
  cm_ItemsProcessed :: int
  cm_ItemsStored :: int
  cm_TasksCreated :: int
  cm_TasksCompleted :: int
  cm_TasksFailed :: int
  cm_QueueSize :: int
  cm_ActiveWorkers :: int
  cm_AvgResponseTime :: duration
  cm_AvgProcessTime :: duration
  cm_RequestRate :: "64 word"
  cm_SuccessRate :: "64 word"
  cm_ErrorRate :: "64 word"
  cm_StartTime :: gotime
  cm_LastRequestTime :: gotime
  cm_TotalRuntime :: duration

definition zero_crawler_metrics :: crawler_metrics where
  "zero_crawler_metrics = \<lparr>cm_RequestsTotal = 0, cm_RequestsSuccess = 0, cm_RequestsFailed = 0, cm_BytesDownloaded = 0, cm_ItemsExtracted = 0,
     cm_ItemsProcessed = 0, cm_ItemsStored = 0, cm_TasksCreated = 0, cm_TasksCompleted = 0, cm_TasksFailed = 0, cm_QueueSize = 0,
     cm_ActiveWorkers = 0, cm_AvgResponseTime = 0, cm_AvgProcessTime = 0, cm_RequestRate = 0, cm_SuccessRate = 0, cm_ErrorRate = 0,
     cm_StartTime = time_zero, cm_LastRequestTime = time_zero, cm_TotalRuntime = 0\<rparr>"

text \<open>The item \<open>extractData\<close> makes of every response, and what the pipeline may make of the list of them.\<close>

record extracted =
  ex_url :: string
  ex_status_code :: int
  ex_headers :: "(string \<rightharpoonup> string) option"
  ex_body_size :: int
  ex_timestamp :: gotime

datatype processed =
    PItems "goval list"
  | PMap "(string \<times> goval) list"
  | PExtracted "extracted list"
  | POther goval

text \<open>A stored record is a map as it is, or wraps what is none with the task's identifier, address and an instant.\<close>

datatype stored =
    SMap "(string \<times> goval) list"
  | SItem goval string string gotime
  | SWhole processed string string gotime

text \<open>
  \<open>cr_workers\<close> counts the worker goroutines; the four parts below it tell what construction has made;
  \<open>cr_saved\<close> lists what was saved.
\<close>

record 'q crawler =
  cr_config :: crawler_config
  cr_status :: crawler_status
  cr_startTime :: gotime
  cr_stopClosed :: bool
  cr_workers :: int
  cr_dispatcher :: bool
  cr_scheduler :: bool
  cr_node :: bool
  cr_cluster :: bool
  cr_queue :: 'q
  cr_saved :: "(string \<times> stored list) list"
  cr_metrics :: crawler_metrics

datatype new_error = RedisDown | StorageUnsupported string | QueueUnsupported string | NodeFailed

text \<open>The parts are made in this order, and the first that fails ends the construction.\<close>

definition initStorage :: "'q crawler \<Rightarrow> new_error option" where
  "initStorage c = (let ty = (case cc_Storage (cr_config c) of None \<Rightarrow> ''redis'' | Some ty \<Rightarrow> ty)
     in if ty = ''memory'' \<or> ty = ''redis'' then None else Some (StorageUnsupported ty))"

definition initTaskQueue :: "(string \<Rightarrow> 'q) \<Rightarrow> 'q crawler \<Rightarrow> new_error + 'q crawler" where
  "initTaskQueue queues c = (let ty = text_or (cc_TaskQueue (cr_config c)) ''redis''
     in if ty = ''redis'' \<or> ty = ''memory'' then Inr (c\<lparr>cr_queue := queues ty\<rparr>) else Inl (QueueUnsupported ty))"

definition initDispatcher :: "'q crawler \<Rightarrow> 'q crawler" where
  "initDispatcher c = c\<lparr>cr_dispatcher := True\<rparr>"

definition initScheduler :: "'q crawler \<Rightarrow> 'q crawler" where
  "initScheduler c = c\<lparr>cr_scheduler := True\<rparr>"

definition initDistributed :: "bool \<Rightarrow> 'q crawler \<Rightarrow> new_error + 'q crawler" where
  "initDistributed node_ok c =
     (if \<not> node_ok then Inl NodeFailed else Inr (c\<lparr>cr_node := True, cr_cluster := (cc_Mode (cr_config c) = ModeCluster)\<rparr>))"

definition initComponents :: "bool \<Rightarrow> (string \<Rightarrow> 'q) \<Rightarrow> 'q crawler \<Rightarrow> new_error + 'q crawler" where
  "initComponents node_ok queues c =
     (case initStorage c of
        Some e \<Rightarrow> Inl e
      | None \<Rightarrow> (case initTaskQueue queues c of
            Inl e \<Rightarrow> Inl e
          | Inr c1 \<Rightarrow>
              let c2 = (if cc_Mode (cr_config c1) \<noteq> ModeStandalone then initDispatcher c1 else c1);
                  c3 = (if cc_EnableScheduler (cr_config c2) then initScheduler c2 else c2)
              in if cc_EnableDistributed (cr_config c3) then initDistributed node_ok c3 else Inr c3))"

text \<open>
  \<open>queues\<close> makes the queue of a kind; \<open>ping\<close> and \<open>node_ok\<close> tell whether Redis answers and the node can be made.
  \<open>no_queue\<close> stands for the queue not yet made.
\<close>

definition NewCrawler :: "int \<Rightarrow> bool \<Rightarrow> bool \<Rightarrow> (string \<Rightarrow> 'q) \<Rightarrow> 'q \<Rightarrow> crawler_config \<Rightarrow> new_error + 'q crawler" where
  "NewCrawler unix ping node_ok queues no_queue cfg =
     (if \<not> ping then Inl RedisDown
      else initComponents node_ok queues
        \<lparr>cr_config = validateConfig unix cfg, cr_status = StatusIdle, cr_startTime = time_zero, cr_stopClosed = False, cr_workers = 0,
         cr_dispatcher = False, cr_scheduler = False, cr_node = False, cr_cluster = False, cr_queue = no_queue, cr_saved = [],
         cr_metrics = zero_crawler_metrics\<rparr>)"

section \<open>Start and stop\<close>

text \<open>What the parts answer when started: an error or none.\<close>

record part_answers =
  pa_node :: "string option"
  pa_cluster :: "string option"
  pa_scheduler :: "string option"

datatype start_error = AlreadyRunning | NodeNotInitialized | PartFailed string

definition startStandalone :: "'q crawler \<Rightarrow> 'q crawler" where
  "startStandalone c = c\<lparr>cr_workers := cr_workers c + cc_Workers (cr_config c)\<rparr>"

definition startDistributed :: "part_answers \<Rightarrow> 'q crawler \<Rightarrow> start_error option" where
  "startDistributed a c = (if \<not> cr_node c then Some NodeNotInitialized else map_option PartFailed (pa_node a))"

definition startCluster :: "part_answers \<Rightarrow> 'q crawler \<Rightarrow> start_error option" where
  "startCluster a c =
     (case startDistributed a c of
        Some e \<Rightarrow> Some e
      | None \<Rightarrow> if cr_cluster c then map_option PartFailed (pa_cluster a) else None)"

definition start_mode :: "part_answers \<Rightarrow> 'q crawler \<Rightarrow> start_error option \<times> 'q crawler" where
  "start_mode a c =
     (if cc_Mode (cr_config c) = ModeStandalone then (None, startStandalone c)
      else if cc_Mode (cr_config c) = ModeDistributed then (startDistributed a c, c)
      else if cc_Mode (cr_config c) = ModeCluster then (startCluster a c, c)
      else (None, c))"

definition crawler_Start :: "gotime \<Rightarrow> part_answers \<Rightarrow> 'q crawler \<Rightarrow> start_error option \<times> 'q crawler" where
  "crawler_Start now a c =
     (if cr_status c \<noteq> StatusIdle \<and> cr_status c \<noteq> StatusStopped then (Some AlreadyRunning, c)
      else case start_mode a (c\<lparr>cr_status := StatusStarting, cr_startTime := now\<rparr>) of
          (Some e, c1) \<Rightarrow> (Some e, c1)
        | (None, c1) \<Rightarrow> (case (if cc_EnableScheduler (cr_config c1) \<and> cr_scheduler c1 then pa_scheduler a else None) of
              Some s \<Rightarrow> (Some (PartFailed s), c1)
            | None \<Rightarrow> (None, c1\<lparr>cr_status := StatusRunningC\<rparr>)))"

text \<open>The parts' own errors are logged.  Closing the closed stop channel panics.\<close>

datatype stop_result = StopDone | NotRunning | StopPanic

definition crawler_Stop :: "'q crawler \<Rightarrow> stop_result \<times> 'q crawler" where
  "crawler_Stop c =
     (if cr_status c \<noteq> StatusRunningC then (NotRunning, c)
      else if cr_stopClosed c then (StopPanic, c\<lparr>cr_status := StatusStopping\<rparr>)
      else (StopDone, c\<lparr>cr_stopClosed := True, cr_status := StatusStopped\<rparr>))"

section \<open>The queue\<close>

datatype pop_answer = PopError | PopNil | Popped task

record 'q queue_api =
  qa_Push :: "gotime \<Rightarrow> task \<Rightarrow> 'q \<Rightarrow> bool \<times> 'q"
  qa_Pop :: "'q \<Rightarrow> pop_answer \<times> 'q"
  qa_Size :: "'q \<Rightarrow> int"

text \<open>The priority queue in memory, with the tasks it points to.\<close>

record mem_queue =
  me_store :: store
  me_next :: nat
  me_pq :: pqueue

definition memory_api :: "mem_queue queue_api" where
  "memory_api = \<lparr>
     qa_Push = (\<lambda>now t q. case pq_Push now now (me_next q) ((me_store q)(me_next q := t)) (me_pq q) of
        (h, pq, e) \<Rightarrow> (e = None, \<lparr>me_store = h, me_next = Suc (me_next q), me_pq = pq\<rparr>)),
     qa_Pop = (\<lambda>q. case pq_Pop (me_pq q) of None \<Rightarrow> (PopError, q) | Some (r, pq) \<Rightarrow> (Popped (me_store q r), q\<lparr>me_pq := pq\<rparr>)),
     qa_Size = (\<lambda>q. pq_Size (me_pq q))\<rparr>"

section \<open>Processing a task\<close>

text \<open>The clock's readings and the answers of fetcher, pipeline and storage.\<close>

record app_env =
  ae_now :: "nat \<Rightarrow> gotime"
  ae_fetch :: "request \<Rightarrow> string + response"
  ae_pipeline :: "extracted list \<Rightarrow> processed \<times> string option"
  ae_save :: "string option"

definition task_request :: "crawler_config \<Rightarrow> task \<Rightarrow> request" where
  "task_request cfg t = \<lparr>rq_ID = t_ID t, rq_URL = t_URL t, rq_Method = ''GET'', rq_Headers = t_Headers t, rq_Cookies = [], rq_Body = GNil,
     rq_FormData = None, rq_Proxy = '''', rq_UserAgent = '''', rq_Timeout = cc_Timeout cfg, rq_RetryCount = cc_MaxRetries cfg,
     rq_RetryCondition = None, rq_FollowRedirect = False, rq_DisableKeepAlive = False, rq_SkipTLSVerify = False,
     rq_Metadata = t_Metadata t, rq_Priority = t_Priority t\<rparr>"

definition extractData :: "gotime \<Rightarrow> response \<Rightarrow> extracted list" where
  "extractData now resp = [\<lparr>ex_url = rs_URL resp, ex_status_code = rs_StatusCode resp, ex_headers = rs_Headers resp,
     ex_body_size = int (length (rs_Body resp)), ex_timestamp = now\<rparr>]"

definition processedCount :: "processed \<Rightarrow> int" where
  "processedCount p = (case p of PItems xs \<Rightarrow> int (length xs) | PMap m \<Rightarrow> int (length m) | _ \<Rightarrow> 1)"

definition storeData :: "gotime \<Rightarrow> task \<Rightarrow> processed \<Rightarrow> stored list" where
  "storeData now t p =
     (case p of
        PItems xs \<Rightarrow> map (\<lambda>x. case x of GMap m \<Rightarrow> SMap m | _ \<Rightarrow> SItem x (t_ID t) (t_URL t) now) xs
      | PMap m \<Rightarrow> [SMap m]
      | _ \<Rightarrow> [SWhole p (t_ID t) (t_URL t) now])"

definition extractTasks :: "crawler_config \<Rightarrow> task \<Rightarrow> task list" where
  "extractTasks cfg parent =
     filter (\<lambda>t. t_Depth t \<le> cc_MaxDepth cfg)
       (map (\<lambda>i. zero_task\<lparr>t_ID := t_ID parent @ ''-child-'' @ dec_of_int (int i), t_URL := t_URL parent @ ''/page/'' @ dec_of_int (int i),
          t_Type := TypeDetail, t_Priority := PriorityNormal, t_Depth := t_Depth parent + 1, t_ParentID := t_ID parent,
          t_Metadata := t_Metadata parent\<rparr>) [0..<5])"

definition on_metrics :: "(crawler_metrics \<Rightarrow> crawler_metrics) \<Rightarrow> 'q crawler \<Rightarrow> 'q crawler" where
  "on_metrics f c = c\<lparr>cr_metrics := f (cr_metrics c)\<rparr>"

definition handleTaskError :: "'q queue_api \<Rightarrow> app_env \<Rightarrow> task \<Rightarrow> string \<Rightarrow> 'q crawler \<Rightarrow> 'q crawler" where
  "handleTaskError Q env t err c =
     (let t1 = task_Fail (ae_now env 1) (ae_now env 2) err t;
          c1 = on_metrics (\<lambda>m. m\<lparr>cm_TasksFailed := cm_TasksFailed m + 1\<rparr>) c
      in if CanRetry (ae_now env 3) t1 then c1\<lparr>cr_queue := snd (qa_Push Q (ae_now env 4) (IncrementRetry t1) (cr_queue c1))\<rparr> else c1)"

definition push_new :: "'q queue_api \<Rightarrow> gotime \<Rightarrow> task \<Rightarrow> 'q crawler \<Rightarrow> 'q crawler" where
  "push_new Q now t c =
     (case qa_Push Q now t (cr_queue c) of
        (ok, q) \<Rightarrow> let c1 = c\<lparr>cr_queue := q\<rparr>
                   in if ok then on_metrics (\<lambda>m. m\<lparr>cm_TasksCreated := cm_TasksCreated m + 1\<rparr>) c1 else c1)"

text \<open>Go's division cuts towards zero.\<close>

definition half :: "int \<Rightarrow> int" where
  "half x = (if x < 0 then - ((- x) div 2) else x div 2)"

definition updateAvgTimes :: "gotime \<Rightarrow> duration \<Rightarrow> duration \<Rightarrow> crawler_metrics \<Rightarrow> crawler_metrics" where
  "updateAvgTimes now resp proc m = m\<lparr>
     cm_AvgResponseTime := (if cm_AvgResponseTime m = 0 then resp else half (cm_AvgResponseTime m + resp)),
     cm_AvgProcessTime := (if cm_AvgProcessTime m = 0 then proc else half (cm_AvgProcessTime m + proc)),
     cm_LastRequestTime := now\<rparr>"

text \<open>Nobody refers to the task once it is completed.\<close>

definition process_body :: "'q queue_api \<Rightarrow> app_env \<Rightarrow> task \<Rightarrow> 'q crawler \<Rightarrow> 'q crawler" where
  "process_body Q env t0 c =
     (let t = task_Start (ae_now env 0) t0 in
      case ae_fetch env (task_request (cr_config c) t) of
        Inl err \<Rightarrow> handleTaskError Q env t err
          (on_metrics (\<lambda>m. m\<lparr>cm_RequestsTotal := cm_RequestsTotal m + 1, cm_RequestsFailed := cm_RequestsFailed m + 1\<rparr>) c)
      | Inr resp \<Rightarrow>
          let data = extractData (ae_now env 5) resp;
              c1 = on_metrics (\<lambda>m. m\<lparr>cm_RequestsTotal := cm_RequestsTotal m + 1, cm_RequestsSuccess := cm_RequestsSuccess m + 1,
                 cm_BytesDownloaded := cm_BytesDownloaded m + int (length (rs_Body resp)), cm_ItemsExtracted := cm_ItemsExtracted m + int (length data)\<rparr>) c
          in case ae_pipeline env data of
               (_, Some err) \<Rightarrow> handleTaskError Q env t err c1
             | (p, None) \<Rightarrow>
                 let n = processedCount p;
                     c2 = on_metrics (\<lambda>m. m\<lparr>cm_ItemsProcessed := cm_ItemsProcessed m + n\<rparr>) c1
                 in case ae_save env of
                      Some err \<Rightarrow> handleTaskError Q env t err c2
                    | None \<Rightarrow>
                        let c3 = on_metrics (\<lambda>m. m\<lparr>cm_ItemsStored := cm_ItemsStored m + n\<rparr>)
                               (c2\<lparr>cr_saved := cr_saved c2 @ [(''crawled_data'', storeData (ae_now env 6) t p)]\<rparr>);
                            c4 = (if t_Type t = TypeSeed then fold (push_new Q (ae_now env 7)) (extractTasks (cr_config c3) t) c3 else c3)
                        in on_metrics (\<lambda>m. updateAvgTimes (ae_now env 9) (rs_Duration resp) (ae_now env 8 - ae_now env 10)
                             (m\<lparr>cm_TasksCompleted := cm_TasksCompleted m + 1\<rparr>)) c4)"

definition processTask_app :: "'q queue_api \<Rightarrow> app_env \<Rightarrow> task \<Rightarrow> 'q crawler \<Rightarrow> 'q crawler" where
  "processTask_app Q env t c =
     on_metrics (\<lambda>m. m\<lparr>cm_ActiveWorkers := cm_ActiveWorkers m - 1\<rparr>)
       (process_body Q env t (on_metrics (\<lambda>m. m\<lparr>cm_ActiveWorkers := cm_ActiveWorkers m + 1\<rparr>) c))"

text \<open>One turn of a worker's loop.\<close>

datatype worker_turn = WorkerExit | WorkerIdle | WorkerWorked

definition runWorker :: "'q queue_api \<Rightarrow> app_env \<Rightarrow> 'q crawler \<Rightarrow> worker_turn \<times> 'q crawler" where
  "runWorker Q env c =
     (if cr_stopClosed c then (WorkerExit, c\<lparr>cr_workers := cr_workers c - 1\<rparr>)
      else case qa_Pop Q (cr_queue c) of
          (Popped t, q) \<Rightarrow> (WorkerWorked, processTask_app Q env t (c\<lparr>cr_queue := q\<rparr>))
        | (_, q) \<Rightarrow> (WorkerIdle, c\<lparr>cr_queue := q\<rparr>))"

section \<open>Seeds, metrics\<close>

definition AddSeed :: "'q queue_api \<Rightarrow> gotime \<Rightarrow> int \<Rightarrow> string \<Rightarrow> (string \<rightharpoonup> goval) option \<Rightarrow> 'q crawler \<Rightarrow> bool \<times> 'q crawler" where
  "AddSeed Q now unixNano url metadata c =
     (let t = zero_task\<lparr>t_ID := ''seed-'' @ dec_of_int unixNano, t_URL := url, t_Type := TypeSeed, t_Priority := PriorityHigh,
            t_Metadata := metadata, t_Status := StatusPending\<rparr>
      in case qa_Push Q now t (cr_queue c) of
           (ok, q) \<Rightarrow> (ok, let c1 = c\<lparr>cr_queue := q\<rparr>
                          in if ok then on_metrics (\<lambda>m. m\<lparr>cm_TasksCreated := cm_TasksCreated m + 1\<rparr>) c1 else c1))"

text \<open>Float arithmetic: requests per second of a duration, and the per cent a count is of another.\<close>

record rate_ops =
  ro_per_second :: "int \<Rightarrow> duration \<Rightarrow> 64 word"
  ro_percent :: "int \<Rightarrow> int \<Rightarrow> 64 word"

definition updateMetrics :: "rate_ops \<Rightarrow> 'q queue_api \<Rightarrow> gotime \<Rightarrow> gotime \<Rightarrow> 'q crawler \<Rightarrow> 'q crawler" where
  "updateMetrics F Q now now' c =
     (let runtime = now - cr_startTime c;
          c1 = (if runtime > 0 then on_metrics (\<lambda>m. m\<lparr>cm_RequestRate := ro_per_second F (cm_RequestsTotal m) runtime,
                 cm_SuccessRate := ro_percent F (cm_RequestsSuccess m) (cm_RequestsTotal m),
                 cm_ErrorRate := ro_percent F (cm_RequestsFailed m) (cm_RequestsTotal m)\<rparr>) c else c)
      in on_metrics (\<lambda>m. m\<lparr>cm_TotalRuntime := now' - cr_startTime c, cm_QueueSize := qa_Size Q (cr_queue c)\<rparr>) c1)"

definition GetStatus :: "'q crawler \<Rightarrow> crawler_status" where
  "GetStatus c = cr_status c"

definition crawler_GetMetrics :: "'q crawler \<Rightarrow> crawler_metrics" where
  "crawler_GetMetrics c = cr_metrics c"


section \<open>Life cycle\<close>

lemma start_mode_frame:
  "start_mode a c = (e, c1) \<Longrightarrow> cr_stopClosed c1 = cr_stopClosed c \<and> cr_status c1 = cr_status c \<and> e \<noteq> Some AlreadyRunning"
  by (auto simp: start_mode_def startStandalone_def startDistributed_def startCluster_def split: if_splits option.splits)

lemma crawler_Start_idle:
  assumes "cr_status c = StatusIdle \<or> cr_status c = StatusStopped" and "crawler_Start now a c = (res, c1)"
  shows "cr_stopClosed c1 = cr_stopClosed c \<and> cr_status c1 = (if res = None then StatusRunningC else StatusStarting) \<and> res \<noteq> Some AlreadyRunning"
proof -
  obtain e c2 where mode: "start_mode a (c\<lparr>cr_status := StatusStarting, cr_startTime := now\<rparr>) = (e, c2)"
    by (cases "start_mode a (c\<lparr>cr_status := StatusStarting, cr_startTime := now\<rparr>)")
  then show ?thesis using assms start_mode_frame [OF mode] by (auto simp: crawler_Start_def split: option.splits if_splits)
qed

lemma validateConfig_fields [simp]: "cc_EnableDistributed (validateConfig unix c) = cc_EnableDistributed c"
  "cc_Mode (validateConfig unix c) = text_or (cc_Mode c) ModeStandalone"
  by (simp_all add: validateConfig_def)

lemma initComponents_frame:
  assumes "initComponents node_ok queues c = Inr c1"
  shows "cr_status c1 = cr_status c \<and> cr_config c1 = cr_config c \<and> (\<not> cr_node c \<longrightarrow> cr_node c1 = cc_EnableDistributed (cr_config c))"
  using assms
  by (auto simp: initComponents_def initTaskQueue_def initDispatcher_def initScheduler_def initDistributed_def Let_def
      split: option.splits sum.splits if_splits)

lemma NewCrawler_made:
  assumes "NewCrawler unix ping node_ok queues no_queue cfg = Inr c"
  shows "cr_status c = StatusIdle \<and> cr_node c = cc_EnableDistributed cfg \<and> cr_config c = validateConfig unix cfg"
proof -
  let ?c0 = "\<lparr>cr_config = validateConfig unix cfg, cr_status = StatusIdle, cr_startTime = time_zero, cr_stopClosed = False, cr_workers = 0,
         cr_dispatcher = False, cr_scheduler = False, cr_node = False, cr_cluster = False, cr_queue = no_queue, cr_saved = [],
         cr_metrics = zero_crawler_metrics\<rparr>"
  have "initComponents node_ok queues ?c0 = Inr c" using assms by (simp add: NewCrawler_def split: if_split_asm)
  from initComponents_frame [OF this] show ?thesis by simp
qed

text \<open>
  A start that fails leaves the crawler starting for ever: every later start finds it running and every
  stop finds it not running.  In a distributed mode whose flag is off, construction succeeds and each start
  fails so.  After a stop a start succeeds, but its workers end at once and the next stop panics.
\<close>
theorem crawler_life_cycle:
  "(crawler_Start now a c = (Some e, c1) \<and> e \<noteq> AlreadyRunning \<longrightarrow>
      crawler_Start now' a' c1 = (Some AlreadyRunning, c1) \<and> crawler_Stop c1 = (NotRunning, c1)) \<and>
   (NewCrawler unix True True queues no_queue cfg = Inr c \<and> cc_Mode cfg \<in> {ModeDistributed, ModeCluster} \<and> \<not> cc_EnableDistributed cfg \<longrightarrow>
      (\<exists>c1. crawler_Start now a c = (Some NodeNotInitialized, c1))) \<and>
   (crawler_Stop c = (StopDone, c1) \<and> crawler_Start now a c1 = (None, c2) \<longrightarrow>
      fst (crawler_Stop c2) = StopPanic \<and> (\<forall>env. fst (runWorker Q env c2) = WorkerExit))"
proof (intro conjI impI)
  assume fail: "crawler_Start now a c = (Some e, c1) \<and> e \<noteq> AlreadyRunning"
  then have "cr_status c = StatusIdle \<or> cr_status c = StatusStopped" by (auto simp: crawler_Start_def split: if_splits)
  from crawler_Start_idle [OF this, of now a "Some e" c1] fail have "cr_status c1 = StatusStarting" by simp
  then show "crawler_Start now' a' c1 = (Some AlreadyRunning, c1)" "crawler_Stop c1 = (NotRunning, c1)"
    by (simp_all add: crawler_Start_def crawler_Stop_def)
next
  assume new: "NewCrawler unix True True queues no_queue cfg = Inr c \<and> cc_Mode cfg \<in> {ModeDistributed, ModeCluster} \<and> \<not> cc_EnableDistributed cfg"
  then have "cr_status c = StatusIdle" "\<not> cr_node c" "cc_Mode (cr_config c) = cc_Mode cfg"
    using NewCrawler_made [of unix True True queues no_queue cfg c] by (auto simp: text_or_def ModeDistributed_def ModeCluster_def)
  moreover have "startDistributed a x = Some NodeNotInitialized" if "\<not> cr_node x" for x :: "'a crawler"
    using that by (simp add: startDistributed_def)
  ultimately show "\<exists>c1. crawler_Start now a c = (Some NodeNotInitialized, c1)"
    using new by (auto simp: crawler_Start_def start_mode_def startCluster_def startDistributed_def ModeStandalone_def ModeDistributed_def ModeCluster_def)
next
  assume run: "crawler_Stop c = (StopDone, c1) \<and> crawler_Start now a c1 = (None, c2)"
  then have "cr_stopClosed c1" by (auto simp: crawler_Stop_def split: if_splits)
  moreover have "cr_status c1 = StatusStopped" using run by (auto simp: crawler_Stop_def split: if_splits)
  ultimately have "cr_stopClosed c2 \<and> cr_status c2 = StatusRunningC" using crawler_Start_idle [of c1 now a None c2] run by simp
  then show "fst (crawler_Stop c2) = StopPanic" "\<forall>env. fst (runWorker Q env c2) = WorkerExit"
    by (simp_all add: crawler_Stop_def runWorker_def)
qed

section \<open>Children of a seed\<close>

lemma queue_frame [simp]: "cr_queue (on_metrics f c) = cr_queue c" "cr_stopClosed (on_metrics f c) = cr_stopClosed c"
  "cr_config (on_metrics f c) = cr_config c" "cr_metrics (on_metrics f c) = f (cr_metrics c)"
  by (simp_all add: on_metrics_def)

text \<open>A task that may not be retried and is no seed leaves the queue alone, whatever happens to it.\<close>

lemma CanRetry_task_Fail: "CanRetry now (task_Fail n1 n2 err t) \<Longrightarrow> t_RetryCount t < t_MaxRetries t"
  by (auto simp: task_Fail_def SetError_def CanRetry_def IncrementRetry_def IsExpired_def Let_def split: if_splits)

lemma handleTaskError_no_retry:
  "t_MaxRetries t \<le> t_RetryCount t \<Longrightarrow> cr_queue (handleTaskError Q env t err c) = cr_queue c"
  using CanRetry_task_Fail [of "ae_now env 3" "ae_now env 1" "ae_now env 2" err t] by (auto simp: handleTaskError_def Let_def)

lemma task_Start_fields [simp]:
  "t_MaxRetries (task_Start now t) = t_MaxRetries t" "t_RetryCount (task_Start now t) = t_RetryCount t" "t_Type (task_Start now t) = t_Type t"
  "t_ExpiresAt (task_Start now t) = t_ExpiresAt t" "t_Priority (task_Start now t) = t_Priority t" "t_Depth (task_Start now t) = t_Depth t"
  by (simp_all add: task_Start_def)

lemma process_leaves_queue:
  assumes "t_MaxRetries t \<le> t_RetryCount t" and "t_Type t \<noteq> TypeSeed"
  shows "cr_queue (processTask_app Q env t c) = cr_queue c"
  using assms by (simp add: processTask_app_def process_body_def handleTaskError_no_retry Let_def split: sum.split prod.split option.split)

text \<open>
  A seed above the limit on depth gives five children with different identifiers, all one deeper, and one at the
  limit none; no child, whether it succeeds or fails, ever puts a task in the queue: a crawl ends after its
  seeds and their children.
\<close>
theorem seed_crawl_ends:
  "length (extractTasks cfg t) = (if t_Depth t < cc_MaxDepth cfg then 5 else 0) \<and> distinct (map t_ID (extractTasks cfg t)) \<and>
   (\<forall>child \<in> set (extractTasks cfg t). t_Depth child = t_Depth t + 1 \<and> t_ParentID child = t_ID t \<and>
      (\<forall>Q env c. cr_queue (processTask_app Q env child c) = (cr_queue c :: 'q)))"
proof -
  have "distinct (map t_ID (extractTasks cfg t))"
    by (simp add: extractTasks_def filter_map comp_def upt_rec dec_of_int_def dec_of_nat.simps digit_def)
  moreover have "length (extractTasks cfg t) = (if t_Depth t < cc_MaxDepth cfg then 5 else 0)"
    by (simp add: extractTasks_def filter_map comp_def upt_rec)
  moreover have "t_Depth child = t_Depth t + 1 \<and> t_ParentID child = t_ID t \<and>
      (\<forall>Q env c. cr_queue (processTask_app Q env child c) = (cr_queue c :: 'q))" if "child \<in> set (extractTasks cfg t)" for child
  proof -
    have "t_MaxRetries child = 0 \<and> t_RetryCount child = 0 \<and> t_Type child \<noteq> TypeSeed \<and> t_Depth child = t_Depth t + 1 \<and> t_ParentID child = t_ID t"
      using that by (auto simp: extractTasks_def zero_task_def TypeDetail_def TypeSeed_def)
    then show ?thesis by (simp add: process_leaves_queue)
  qed
  ultimately show ?thesis by blast
qed

section \<open>Retries\<close>

text \<open>
  The part of a queue's contract the retries need: what is put in an empty queue is what comes out of it next,
  marked as queued.  \<open>fits\<close> are the tasks the queue takes.
\<close>

locale single_task_queue =
  fixes Q :: "'q queue_api" and empty :: "'q \<Rightarrow> bool" and fits :: "task \<Rightarrow> bool"
  assumes push_pop: "empty q \<Longrightarrow> fits t \<Longrightarrow> \<exists>q1 q2. qa_Push Q now t q = (True, q1) \<and> qa_Pop Q q1 = (Popped (task_Queue now t), q2) \<and> empty q2"
    and pop_empty: "empty q \<Longrightarrow> qa_Pop Q q = (PopError, q)"
    and fits_priority: "fits t \<Longrightarrow> t_Priority t' = t_Priority t \<Longrightarrow> fits t'"
begin

definition holds :: "'q \<Rightarrow> task \<Rightarrow> bool" where
  "holds q t \<longleftrightarrow> (\<exists>q2. qa_Pop Q q = (Popped t, q2) \<and> empty q2)"

lemma turns_idle:
  "\<not> cr_stopClosed c \<Longrightarrow> empty (cr_queue c) \<Longrightarrow> fold (\<lambda>env c. snd (runWorker Q env c)) envs c = c"
  by (induction envs) (simp_all add: runWorker_def pop_empty)

lemma failed_turn:
  assumes "\<not> cr_stopClosed c" and "holds (cr_queue c) t" and "fits t" and "t_ExpiresAt t = None" and "\<And>r. ae_fetch env r = Inl err"
  defines "c' \<equiv> snd (runWorker Q env c)"
  shows "cm_RequestsTotal (cr_metrics c') = cm_RequestsTotal (cr_metrics c) + 1 \<and> cm_TasksFailed (cr_metrics c') = cm_TasksFailed (cr_metrics c) + 1 \<and>
    \<not> cr_stopClosed c' \<and>
    (if t_RetryCount t + 1 < t_MaxRetries t
     then \<exists>t'. holds (cr_queue c') t' \<and> fits t' \<and> t_ExpiresAt t' = None \<and> t_RetryCount t' = t_RetryCount t + 2 \<and> t_MaxRetries t' = t_MaxRetries t
     else empty (cr_queue c'))"
proof -
  obtain q2 where q2: "qa_Pop Q (cr_queue c) = (Popped t, q2)" "empty q2" using assms(2) by (auto simp: holds_def)
  define t1 where "t1 = task_Fail (ae_now env 1) (ae_now env 2) err (task_Start (ae_now env 0) t)"
  have c': "c' = on_metrics (\<lambda>m. m\<lparr>cm_ActiveWorkers := cm_ActiveWorkers m - 1\<rparr>) (handleTaskError Q env (task_Start (ae_now env 0) t) err
      (on_metrics (\<lambda>m. m\<lparr>cm_RequestsTotal := cm_RequestsTotal m + 1, cm_RequestsFailed := cm_RequestsFailed m + 1\<rparr>)
      (on_metrics (\<lambda>m. m\<lparr>cm_ActiveWorkers := cm_ActiveWorkers m + 1\<rparr>) (c\<lparr>cr_queue := q2\<rparr>))))"
    using assms(1) by (simp add: c'_def runWorker_def q2 processTask_app_def process_body_def assms(5) Let_def)
  have can: "CanRetry (ae_now env 3) t1 \<longleftrightarrow> t_RetryCount t + 1 < t_MaxRetries t"
    using assms(4) by (auto simp: t1_def task_Fail_def SetError_def CanRetry_def IncrementRetry_def IsExpired_def Let_def)
  have inc: "t_ExpiresAt (IncrementRetry t1) = None \<and> t_RetryCount (IncrementRetry t1) = t_RetryCount t + 2 \<and>
      t_MaxRetries (IncrementRetry t1) = t_MaxRetries t \<and> t_Priority (IncrementRetry t1) = t_Priority t" if "t_RetryCount t + 1 < t_MaxRetries t"
    using that assms(4) by (simp add: t1_def task_Fail_def SetError_def CanRetry_def IncrementRetry_def IsExpired_def Let_def)
  show ?thesis
  proof (cases "t_RetryCount t + 1 < t_MaxRetries t")
    case False
    then show ?thesis using assms(1) q2 can by (simp add: c' handleTaskError_def Let_def t1_def)
  next
    case True
    then have fits: "fits (IncrementRetry t1)" using fits_priority [OF assms(3)] inc by simp
    from push_pop [OF q2(2) fits, of "ae_now env 4"] obtain q3 q4 where
      p: "qa_Push Q (ae_now env 4) (IncrementRetry t1) q2 = (True, q3)" "qa_Pop Q q3 = (Popped (task_Queue (ae_now env 4) (IncrementRetry t1)), q4)" "empty q4"
      by blast
    have queued: "t_ExpiresAt (task_Queue now x) = t_ExpiresAt x" "t_RetryCount (task_Queue now x) = t_RetryCount x"
      "t_MaxRetries (task_Queue now x) = t_MaxRetries x" "t_Priority (task_Queue now x) = t_Priority x" for now x by (simp_all add: task_Queue_def)
    have q': "cr_queue c' = q3" using True can p(1) by (simp add: c' handleTaskError_def Let_def t1_def)
    have "holds (cr_queue c') (task_Queue (ae_now env 4) (IncrementRetry t1))" using p by (simp add: holds_def q')
    moreover have "fits (task_Queue (ae_now env 4) (IncrementRetry t1))" using fits_priority [OF fits] by (simp add: queued)
    moreover have "cm_RequestsTotal (cr_metrics c') = cm_RequestsTotal (cr_metrics c) + 1 \<and>
        cm_TasksFailed (cr_metrics c') = cm_TasksFailed (cr_metrics c) + 1 \<and> \<not> cr_stopClosed c'"
      using assms(1) by (simp add: c' handleTaskError_def Let_def)
    ultimately show ?thesis using True inc by (auto simp: queued)
  qed
qed

text \<open>So with \<open>k\<close> retries left there are \<open>k div 2 + 1\<close> attempts, if there are turns enough.\<close>

lemma failing_turns:
  assumes "\<not> cr_stopClosed c" and "holds (cr_queue c) t" and "fits t" and "t_ExpiresAt t = None"
    and "\<And>env r. env \<in> set envs \<Longrightarrow> \<exists>err. \<forall>r. ae_fetch env r = Inl err"
  shows "cm_RequestsTotal (cr_metrics (fold (\<lambda>env c. snd (runWorker Q env c)) envs c)) =
      cm_RequestsTotal (cr_metrics c) + int (min (length envs) (nat (t_MaxRetries t - t_RetryCount t) div 2 + 1))"
  using assms
proof (induction envs arbitrary: c t)
  case (Cons env envs)
  obtain err where err: "\<And>r. ae_fetch env r = Inl err" using Cons.prems(5) [of env] by auto
  let ?c = "snd (runWorker Q env c)"
  note turn = failed_turn [OF Cons.prems(1-4) err]
  show ?case
  proof (cases "t_RetryCount t + 1 < t_MaxRetries t")
    case True
    then obtain t' where t': "holds (cr_queue ?c) t'" "fits t'" "t_ExpiresAt t' = None"
      "t_RetryCount t' = t_RetryCount t + 2" "t_MaxRetries t' = t_MaxRetries t" using turn by auto
    have "nat (t_MaxRetries t - t_RetryCount t) div 2 = Suc (nat (t_MaxRetries t' - t_RetryCount t') div 2)"
      using True t'(4,5) by (simp add: nat_diff_distrib' algebra_simps)
    then show ?thesis using Cons.IH [OF _ t'(1-3)] turn Cons.prems(5) by auto
  next
    case False
    then have "nat (t_MaxRetries t - t_RetryCount t) div 2 = 0" by simp
    moreover have "fold (\<lambda>env c. snd (runWorker Q env c)) envs ?c = ?c" using turn False by (intro turns_idle) auto
    ultimately show ?thesis using turn by simp
  qed
qed simp

end


section \<open>The priority queue as the crawler's queue\<close>

definition memory_empty :: "mem_queue \<Rightarrow> bool" where
  "memory_empty q \<longleftrightarrow> (\<forall>p m. pq_queues (me_pq q) p = Some m \<longrightarrow> mq_tasks m = [] \<and> mq_capacity m = 1000)"

definition known_priority :: "task \<Rightarrow> bool" where
  "known_priority t = (t_Priority t \<in> set pop_order)"

lemma pop_scan_single:
  assumes "pq_queues pq p = Some m" and "mq_tasks m = [r]" and "\<And>p' m'. p' \<noteq> p \<Longrightarrow> pq_queues pq p' = Some m' \<Longrightarrow> mq_tasks m' = []"
  shows "p \<in> set ps \<Longrightarrow> pq_pop_scan ps pq = Some (r, pq\<lparr>pq_queues := (pq_queues pq)(p \<mapsto> m\<lparr>mq_tasks := []\<rparr>), pq_counter := pq_counter pq - 1\<rparr>)"
proof (induction ps)
  case (Cons p' ps)
  show ?case
  proof (cases "p' = p")
    case True
    then show ?thesis using assms(1,2) by (simp add: mq_Pop_def fun_upd_def)
  next
    case False
    then show ?thesis using Cons assms(3) [OF False] by (auto simp: mq_Pop_def split: option.split)
  qed
qed simp

lemma pop_scan_none: "(\<And>p m. pq_queues pq p = Some m \<Longrightarrow> mq_tasks m = []) \<Longrightarrow> pq_pop_scan ps pq = None"
  by (induction ps) (auto simp: mq_Pop_def split: option.split)

lemma memory_push_pop:
  assumes "memory_empty q" and "known_priority t"
  shows "\<exists>q1 q2. qa_Push memory_api now t q = (True, q1) \<and> qa_Pop memory_api q1 = (Popped (task_Queue now t), q2) \<and> memory_empty q2"
proof -
  let ?p = "t_Priority t" and ?r = "me_next q"
  define m where "m = (case pq_queues (me_pq q) ?p of None \<Rightarrow> NewMemoryQueue 1000 | Some m \<Rightarrow> m)"
  have m: "mq_tasks m = [] \<and> mq_capacity m = 1000" using assms(1) by (auto simp: m_def memory_empty_def NewMemoryQueue_def split: option.split)
  define pq1 where "pq1 = (me_pq q)\<lparr>pq_queues := (pq_queues (me_pq q))(?p \<mapsto> m\<lparr>mq_tasks := [?r]\<rparr>), pq_counter := pq_counter (me_pq q) + 1\<rparr>"
  define h1 where "h1 = (me_store q)(?r := task_Queue now (task_Queue now t))"
  have push: "qa_Push memory_api now t q = (True, \<lparr>me_store = h1, me_next = Suc ?r, me_pq = pq1\<rparr>)"
    using m by (simp add: memory_api_def pq_Push_def Let_def mq_Push_def pq1_def h1_def flip: m_def)
  define pq2 where "pq2 = pq1\<lparr>pq_queues := (pq_queues pq1)(?p \<mapsto> m\<lparr>mq_tasks := []\<rparr>), pq_counter := pq_counter pq1 - 1\<rparr>"
  have "pq_Pop pq1 = Some (?r, pq2)"
    using pop_scan_single [of pq1 ?p "m\<lparr>mq_tasks := [?r]\<rparr>" ?r pop_order] assms
    by (auto simp: pq_Pop_def pq1_def pq2_def memory_empty_def known_priority_def)
  moreover have "h1 ?r = task_Queue now t" by (simp add: h1_def task_Queue_def)
  ultimately have pop: "qa_Pop memory_api \<lparr>me_store = h1, me_next = Suc ?r, me_pq = pq1\<rparr> = (Popped (task_Queue now t), \<lparr>me_store = h1, me_next = Suc ?r, me_pq = pq2\<rparr>)"
    by (simp add: memory_api_def)
  have "memory_empty \<lparr>me_store = h1, me_next = Suc ?r, me_pq = pq2\<rparr>"
    using assms(1) m by (auto simp: memory_empty_def pq2_def pq1_def)
  then show ?thesis using push pop by blast
qed

interpretation memory: single_task_queue memory_api memory_empty known_priority
proof
  fix q :: mem_queue and t t' :: task and now
  show "memory_empty q \<Longrightarrow> known_priority t \<Longrightarrow>
      \<exists>q1 q2. qa_Push memory_api now t q = (True, q1) \<and> qa_Pop memory_api q1 = (Popped (task_Queue now t), q2) \<and> memory_empty q2"
    by (rule memory_push_pop)
  show "memory_empty q \<Longrightarrow> qa_Pop memory_api q = (PopError, q)"
    using pop_scan_none [of "me_pq q" pop_order] by (auto simp: memory_api_def pq_Pop_def memory_empty_def)
  show "known_priority t \<Longrightarrow> t_Priority t' = t_Priority t \<Longrightarrow> known_priority t'" by (simp add: known_priority_def)
qed

text \<open>
  C23: A worker whose only task fails every time makes half as many attempts as the task's retries allow, and one
  more, however long it runs: a failure is counted as a retry twice, when it is recorded and again when the
  task is put back.
\<close>
theorem retries_halved:
  assumes "\<not> cr_stopClosed c" and "memory_empty q" and "cr_queue c = snd (qa_Push memory_api now t q)"
    and "known_priority t" and "t_ExpiresAt t = None" and "t_RetryCount t = 0"
    and "\<And>env. env \<in> set envs \<Longrightarrow> \<exists>err. \<forall>r. ae_fetch env r = Inl err"
  shows "cm_RequestsTotal (cr_metrics (fold (\<lambda>env c. snd (runWorker memory_api env c)) envs c)) =
    cm_RequestsTotal (cr_metrics c) + int (min (length envs) (nat (t_MaxRetries t) div 2 + 1))"
proof -
  from memory_push_pop [OF assms(2,4), of now] have "memory.holds (cr_queue c) (task_Queue now t)"
    using assms(3) by (auto simp: memory.holds_def)
  moreover have "known_priority (task_Queue now t)" "t_ExpiresAt (task_Queue now t) = None"
    "t_MaxRetries (task_Queue now t) = t_MaxRetries t" "t_RetryCount (task_Queue now t) = 0"
    using assms(4-6) by (simp_all add: task_Queue_def known_priority_def)
  ultimately show ?thesis using memory.failing_turns [OF assms(1), of "task_Queue now t" envs] assms(7) by simp
qed

text \<open>What the pipeline leaves as it is, it stores as one record around the whole list, and counts as one item.\<close>

lemma default_storage: "storeData now t (PExtracted xs) = [SWhole (PExtracted xs) (t_ID t) (t_URL t) now]"
  "processedCount (PExtracted xs) = 1" "processedCount (PMap m) = int (length m)"
  by (simp_all add: storeData_def processedCount_def)

section \<open>Examples\<close>

definition sample_app_config :: crawler_config where
  "sample_app_config = \<lparr>cc_ID = ''c'', cc_Name = '''', cc_Version = '''', cc_Mode = ModeCluster, cc_Storage = Some ''memory'', cc_TaskQueue = ''memory'',
     cc_Workers = 0, cc_MaxConcurrent = 0, cc_MaxDepth = 2, cc_MaxRetries = 0, cc_Timeout = 0, cc_RedisAddr = '''', cc_RedisPrefix = '''',
     cc_EnableScheduler = False, cc_EnableDistributed = False, cc_EnableMetrics = False, cc_LogLevel = ''''\<rparr>"

definition empty_memory :: mem_queue where
  "empty_memory = \<lparr>me_store = (\<lambda>_. zero_task), me_next = 0, me_pq = NewPriorityQueue\<rparr>"

definition sample_crawler :: "crawler_config \<Rightarrow> mem_queue \<Rightarrow> mem_queue crawler" where
  "sample_crawler cfg q = \<lparr>cr_config = cfg, cr_status = StatusIdle, cr_startTime = 0, cr_stopClosed = False, cr_workers = 0, cr_dispatcher = False,
     cr_scheduler = False, cr_node = False, cr_cluster = False, cr_queue = q, cr_saved = [], cr_metrics = zero_crawler_metrics\<rparr>"

definition no_errors :: part_answers where
  "no_errors = \<lparr>pa_node = None, pa_cluster = None, pa_scheduler = None\<rparr>"

definition down_env :: app_env where
  "down_env = \<lparr>ae_now = (\<lambda>_. 0), ae_fetch = (\<lambda>_. Inl ''down''), ae_pipeline = (\<lambda>xs. (PExtracted xs, None)), ae_save = None\<rparr>"

lemma empty_memory_empty: "memory_empty empty_memory"
  by (auto simp: memory_empty_def empty_memory_def NewPriorityQueue_def NewMemoryQueue_def split: if_splits)

lemma retries_halved_witness:
  "cm_RequestsTotal (cr_metrics (fold (\<lambda>env c. snd (runWorker memory_api env c)) (replicate 10 down_env)
      (sample_crawler sample_app_config (snd (qa_Push memory_api 0 (zero_task\<lparr>t_MaxRetries := 3\<rparr>) empty_memory))))) = 2"
proof -
  let ?t = "zero_task\<lparr>t_MaxRetries := 3\<rparr>"
  let ?c = "sample_crawler sample_app_config (snd (qa_Push memory_api 0 ?t empty_memory))"
  have c: "\<not> cr_stopClosed ?c" "cr_queue ?c = snd (qa_Push memory_api 0 ?t empty_memory)" "cr_metrics ?c = zero_crawler_metrics"
    by (simp_all add: sample_crawler_def)
  have t: "known_priority ?t" "t_ExpiresAt ?t = None" "t_RetryCount ?t = 0" by (simp_all add: zero_task_def known_priority_def pop_order_def priority_defs)
  have "\<exists>err. \<forall>r. ae_fetch env r = Inl err" if "env \<in> set (replicate 10 down_env)" for env
    using that by (simp add: down_env_def)
  then have "cm_RequestsTotal (cr_metrics (fold (\<lambda>env c. snd (runWorker memory_api env c)) (replicate 10 down_env) ?c)) =
      cm_RequestsTotal (cr_metrics ?c) + int (min (length (replicate 10 down_env)) (nat (t_MaxRetries ?t) div 2 + 1))"
    by (rule retries_halved [OF c(1) empty_memory_empty c(2) t])
  then show ?thesis unfolding c(3) by (simp add: zero_crawler_metrics_def)
qed

lemma crawler_life_cycle_witness:
  "fst (crawler_Stop (snd (crawler_Start 0 no_errors (snd (crawler_Start 0 no_errors (sample_crawler sample_app_config empty_memory)))))) = NotRunning \<and>
   (\<exists>c. NewCrawler 0 True True (\<lambda>_. empty_memory) empty_memory sample_app_config = Inr c \<and> fst (crawler_Start 0 no_errors c) = Some NodeNotInitialized) \<and>
   fst (crawler_Stop (snd (crawler_Start 0 no_errors (snd (crawler_Stop (snd (crawler_Start 0 no_errors
     (sample_crawler (sample_app_config\<lparr>cc_Mode := ModeStandalone\<rparr>) empty_memory)))))))) = StopPanic"
proof (intro conjI)
  let ?c = "sample_crawler sample_app_config empty_memory"
  have fail: "crawler_Start 0 no_errors ?c = (Some NodeNotInitialized, ?c\<lparr>cr_status := StatusStarting, cr_startTime := 0\<rparr>)"
    by (simp add: crawler_Start_def sample_crawler_def sample_app_config_def start_mode_def startCluster_def startDistributed_def
        ModeStandalone_def ModeDistributed_def ModeCluster_def)
  then show "fst (crawler_Stop (snd (crawler_Start 0 no_errors (snd (crawler_Start 0 no_errors ?c))))) = NotRunning"
    using crawler_life_cycle [of 0 no_errors ?c NodeNotInitialized "?c\<lparr>cr_status := StatusStarting, cr_startTime := 0\<rparr>" 0 no_errors] by simp
next
  have "\<exists>c. NewCrawler 0 True True (\<lambda>_. empty_memory) empty_memory sample_app_config = Inr c"
    by (simp add: NewCrawler_def initComponents_def initStorage_def initTaskQueue_def initDispatcher_def Let_def sample_app_config_def validateConfig_def text_or_def)
  then obtain c where c: "NewCrawler 0 True True (\<lambda>_. empty_memory) empty_memory sample_app_config = Inr c" ..
  moreover have "cc_Mode sample_app_config \<in> {ModeDistributed, ModeCluster}" "\<not> cc_EnableDistributed sample_app_config" by (simp_all add: sample_app_config_def)
  ultimately show "\<exists>c. NewCrawler 0 True True (\<lambda>_. empty_memory) empty_memory sample_app_config = Inr c \<and> fst (crawler_Start 0 no_errors c) = Some NodeNotInitialized"
    using crawler_life_cycle [of 0 no_errors c] by fastforce
next
  let ?c = "snd (crawler_Start 0 no_errors (sample_crawler (sample_app_config\<lparr>cc_Mode := ModeStandalone\<rparr>) empty_memory))"
  have stop: "crawler_Stop ?c = (StopDone, snd (crawler_Stop ?c))"
    by (simp add: crawler_Start_def crawler_Stop_def sample_crawler_def sample_app_config_def start_mode_def startStandalone_def ModeStandalone_def)
  have "crawler_Start 0 no_errors (snd (crawler_Stop ?c)) = (None, snd (crawler_Start 0 no_errors (snd (crawler_Stop ?c))))"
    by (simp add: crawler_Start_def crawler_Stop_def sample_crawler_def sample_app_config_def start_mode_def startStandalone_def ModeStandalone_def)
  then show "fst (crawler_Stop (snd (crawler_Start 0 no_errors (snd (crawler_Stop ?c))))) = StopPanic"
    using crawler_life_cycle [of 0 no_errors ?c] stop by blast
qed

lemma seed_crawl_ends_witness:
  "length (extractTasks sample_app_config (zero_task\<lparr>t_ID := ''s''\<rparr>)) = 5 \<and>
   cr_queue (processTask_app memory_api down_env (hd (extractTasks sample_app_config (zero_task\<lparr>t_ID := ''s''\<rparr>))) (sample_crawler sample_app_config empty_memory)) = empty_memory"
proof -
  let ?ts = "extractTasks sample_app_config (zero_task\<lparr>t_ID := ''s''\<rparr>)"
  note spec = seed_crawl_ends [of sample_app_config "zero_task\<lparr>t_ID := ''s''\<rparr>", where 'q = mem_queue]
  have len: "length ?ts = 5" using spec [THEN conjunct1] by (simp add: sample_app_config_def zero_task_def)
  then have "hd ?ts \<in> set ?ts" by (cases ?ts) auto
  then show ?thesis using spec len by (simp add: sample_crawler_def)
qed

end
