(* ===== verification/RateLimit.thy ===== *)
theory RateLimit
  imports GoText
begin

text \<open>
  The rate limiter (src/middleware/ratelimit.go): the handler, its keys, the sliding log and the fixed window.
  Instants are \<open>UnixNano\<close>.  Redis, \<open>ParseDuration\<close> and the conversion of an instant to a float64, as the
  integer the float is, are arguments.
\<close>

section \<open>Redis and the request\<close>

record 'r limit_redis =
  lm_ZRemRangeByScore :: "gotime \<Rightarrow> string \<Rightarrow> int \<Rightarrow> int \<Rightarrow> 'r \<Rightarrow> 'r"
  lm_ZCard :: "gotime \<Rightarrow> string \<Rightarrow> 'r \<Rightarrow> int"
  lm_ZAdd :: "gotime \<Rightarrow> string \<Rightarrow> int \<Rightarrow> string \<Rightarrow> 'r \<Rightarrow> 'r"
  lm_Expire :: "gotime \<Rightarrow> string \<Rightarrow> int \<Rightarrow> 'r \<Rightarrow> 'r"
  lm_Incr :: "gotime \<Rightarrow> string \<Rightarrow> 'r \<Rightarrow> int \<times> 'r"
  lm_Del :: "string \<Rightarrow> 'r \<Rightarrow> 'r"

record limit_config =
  lc_Enable :: bool
  lc_SkipPaths :: "string list"
  lc_KeyGenerator :: string
  lc_Window :: string
  lc_Limit :: int
  lc_Headers :: bool

record limit_request =
  hq_path :: string
  hq_clientIP :: string
  hq_user_id :: "goval option"

text \<open>The key; a user identifier that is no string panics.\<close>

definition by_ip :: "limit_request \<Rightarrow> string list" where
  "by_ip q = [''ratelimit'', ''ip'', hq_clientIP q]"

definition by_user :: "limit_request \<Rightarrow> string list option" where
  "by_user q = (case hq_user_id q of
      Some (GStr u) \<Rightarrow> Some [''ratelimit'', ''user'', u]
    | Some _ \<Rightarrow> None
    | None \<Rightarrow> Some (by_ip q))"

definition generateKey :: "limit_config \<Rightarrow> limit_request \<Rightarrow> string option" where
  "generateKey cfg q = map_option (join '':'')
     (if lc_KeyGenerator cfg = ''ip'' then Some (by_ip q)
      else if lc_KeyGenerator cfg = ''user'' then by_user q
      else if lc_KeyGenerator cfg = ''ip_path'' then Some (by_ip q @ [''path'', hq_path q])
      else if lc_KeyGenerator cfg = ''user_path'' then map_option (\<lambda>ps. ps @ [''path'', hq_path q]) (by_user q)
      else Some (by_ip q))"

section \<open>The sliding log\<close>

text \<open>The client rounds a lifetime down to seconds, and up to one below that.\<close>

definition expire_seconds :: "duration \<Rightarrow> int" where
  "expire_seconds d = (if 0 < d \<and> d < second then 1 else if d < 0 then - ((- d) div second) else d div second)"

text \<open>\<open>fl\<close> rounds an instant to a float64; \<open>srv\<close> is the server's clock and \<open>up\<close> whether the pipeline gets through.\<close>

record limit_answer =
  la_allowed :: bool
  la_remaining :: int
  la_reset :: gotime

definition prune :: "'r limit_redis \<Rightarrow> (int \<Rightarrow> int) \<Rightarrow> gotime \<Rightarrow> gotime \<Rightarrow> string \<Rightarrow> 'r \<Rightarrow> 'r" where
  "prune R fl srv since key r = lm_ZRemRangeByScore R srv key 0 (fl since) r"

definition checkRateLimit :: "'r limit_redis \<Rightarrow> (string \<Rightarrow> duration option) \<Rightarrow> (int \<Rightarrow> int) \<Rightarrow> bool \<Rightarrow> gotime \<Rightarrow> gotime \<Rightarrow> limit_config \<Rightarrow> string \<Rightarrow> 'r \<Rightarrow>
    limit_answer option \<times> 'r" where
  "checkRateLimit R pd fl up srv now cfg key r =
     (case pd (lc_Window cfg) of
        None \<Rightarrow> (None, r)
      | Some window \<Rightarrow>
          if \<not> up then (None, r)
          else let r1 = prune R fl srv (now - window) key r;
                   currentCount = lm_ZCard R srv key r1;
                   r2 = lm_ZAdd R srv key (fl now) (dec_of_int now) r1;
                   r3 = lm_Expire R srv key (expire_seconds window) r2
               in (Some \<lparr>la_allowed = (currentCount < lc_Limit cfg), la_remaining = max 0 (lc_Limit cfg - currentCount), la_reset = now + window\<rparr>, r3))"

definition GetRateLimitStatus :: "'r limit_redis \<Rightarrow> (string \<Rightarrow> duration option) \<Rightarrow> (int \<Rightarrow> int) \<Rightarrow> bool \<Rightarrow> gotime \<Rightarrow> gotime \<Rightarrow> limit_config \<Rightarrow> string \<Rightarrow> 'r \<Rightarrow>
    (int \<times> gotime) option \<times> 'r" where
  "GetRateLimitStatus R pd fl up srv now cfg key r =
     (case pd (lc_Window cfg) of
        None \<Rightarrow> (None, r)
      | Some window \<Rightarrow>
          if \<not> up then (None, r)
          else let r1 = prune R fl srv (now - window) key r in (Some (lm_ZCard R srv key r1, now + window), r1))"

definition ClearRateLimit :: "'r limit_redis \<Rightarrow> string \<Rightarrow> 'r \<Rightarrow> 'r" where
  "ClearRateLimit R key r = lm_Del R key r"

section \<open>The handler\<close>

datatype limit_outcome = Next "(string \<times> string) list" | TooMany "(string \<times> string) list" | LimitPanic

definition limit_Handler :: "'r limit_redis \<Rightarrow> (string \<Rightarrow> duration option) \<Rightarrow> (int \<Rightarrow> int) \<Rightarrow> bool \<Rightarrow> gotime \<Rightarrow> gotime \<Rightarrow> limit_config \<Rightarrow> limit_request \<Rightarrow> 'r \<Rightarrow>
    limit_outcome \<times> 'r" where
  "limit_Handler R pd fl up srv now cfg q r =
     (if \<not> lc_Enable cfg then (Next [], r)
      else if list_ex (HasPrefix (hq_path q)) (lc_SkipPaths cfg) then (Next [], r)
      else case generateKey cfg q of
          None \<Rightarrow> (LimitPanic, r)
        | Some key \<Rightarrow> (case checkRateLimit R pd fl up srv now cfg key r of
              (None, r1) \<Rightarrow> (Next [], r1)
            | (Some a, r1) \<Rightarrow>
                let hs = (if lc_Headers cfg then [(''X-RateLimit-Limit'', dec_of_int (lc_Limit cfg)), (''X-RateLimit-Remaining'', dec_of_int (la_remaining a)),
                           (''X-RateLimit-Reset'', dec_of_int (la_reset a div second))] else [])
                in (if la_allowed a then Next hs else TooMany hs, r1)))"

section \<open>The fixed window\<close>

text \<open>\<open>Truncate\<close> counts from the zero time, January 1 of the year 1.\<close>

definition epoch :: int where
  "epoch = 62135596800 * second"

definition go_Truncate :: "duration \<Rightarrow> gotime \<Rightarrow> gotime" where
  "go_Truncate d t = (if d \<le> 0 then t else t - (t + epoch) mod d)"

definition window_key :: "string \<Rightarrow> gotime \<Rightarrow> string" where
  "window_key key start = key @ '':'' @ dec_of_int (start div second)"

definition FixedWindowRateLimit :: "'r limit_redis \<Rightarrow> (string \<Rightarrow> duration option) \<Rightarrow> bool \<Rightarrow> gotime \<Rightarrow> gotime \<Rightarrow> limit_config \<Rightarrow> string \<Rightarrow> 'r \<Rightarrow>
    limit_answer option \<times> 'r" where
  "FixedWindowRateLimit R pd up srv now cfg key r =
     (case pd (lc_Window cfg) of
        None \<Rightarrow> (None, r)
      | Some window \<Rightarrow>
          if \<not> up then (None, r)
          else let start = go_Truncate window now;
                   k = window_key key start
               in case lm_Incr R srv k r of
                    (n, r1) \<Rightarrow>
                      (Some \<lparr>la_allowed = (n \<le> lc_Limit cfg), la_remaining = max 0 (lc_Limit cfg - n), la_reset = start + window\<rparr>,
                       if n = 1 then lm_Expire R srv k (expire_seconds window) r1 else r1))"

section \<open>What the commands do\<close>

text \<open>
  A key holds a sorted set or a counter, and an expiry if it has one.  These are the laws of a server that answers every
  command; \<open>EXPIRE\<close> is used with a positive number of seconds only.
\<close>

record limit_cell =
  lv_set :: "string \<rightharpoonup> int"
  lv_count :: int
  lv_until :: "gotime option"

definition no_cell :: limit_cell where
  "no_cell = \<lparr>lv_set = Map.empty, lv_count = 0, lv_until = None\<rparr>"

definition cell_at :: "gotime \<Rightarrow> limit_cell \<Rightarrow> limit_cell" where
  "cell_at srv c = (case lv_until c of None \<Rightarrow> c | Some u \<Rightarrow> if srv < u then c else no_cell)"

text \<open>A set left empty is gone, and its expiry with it.\<close>

definition tidy :: "limit_cell \<Rightarrow> limit_cell" where
  "tidy c = (if lv_set c = Map.empty \<and> lv_count c = 0 then no_cell else c)"

definition limit_commands :: "'r limit_redis \<Rightarrow> ('r \<Rightarrow> string \<Rightarrow> limit_cell) \<Rightarrow> bool" where
  "limit_commands R view \<longleftrightarrow>
     (\<forall>srv k lo hi r. view (lm_ZRemRangeByScore R srv k lo hi r) = (let c = cell_at srv (view r k) in
        (view r)(k := tidy (c\<lparr>lv_set := map_filter_vals (\<lambda>s. \<not> (lo \<le> s \<and> s \<le> hi)) (lv_set c)\<rparr>)))) \<and>
     (\<forall>srv k r. finite (dom (lv_set (cell_at srv (view r k)))) \<longrightarrow> lm_ZCard R srv k r = int (card (dom (lv_set (cell_at srv (view r k)))))) \<and>
     (\<forall>srv k s m r. view (lm_ZAdd R srv k s m r) = (let c = cell_at srv (view r k) in (view r)(k := c\<lparr>lv_set := (lv_set c)(m \<mapsto> s)\<rparr>))) \<and>
     (\<forall>srv k n r. 0 < n \<longrightarrow> view (lm_Expire R srv k n r) = (let c = cell_at srv (view r k) in
        (view r)(k := (if c = no_cell then c else c\<lparr>lv_until := Some (srv + n * second)\<rparr>)))) \<and>
     (\<forall>srv k r. (let c = cell_at srv (view r k) in fst (lm_Incr R srv k r) = lv_count c + 1 \<and>
        view (snd (lm_Incr R srv k r)) = (view r)(k := c\<lparr>lv_count := lv_count c + 1\<rparr>)))"

lemma limit_commandsD:
  assumes "limit_commands R view"
  shows "view (lm_ZRemRangeByScore R srv k lo hi r) = (view r)(k := tidy ((cell_at srv (view r k))
        \<lparr>lv_set := map_filter_vals (\<lambda>s. \<not> (lo \<le> s \<and> s \<le> hi)) (lv_set (cell_at srv (view r k)))\<rparr>))"
    and "finite (dom (lv_set (cell_at srv (view r k)))) \<Longrightarrow> lm_ZCard R srv k r = int (card (dom (lv_set (cell_at srv (view r k)))))"
    and "view (lm_ZAdd R srv k s m r) = (view r)(k := (cell_at srv (view r k))\<lparr>lv_set := (lv_set (cell_at srv (view r k)))(m \<mapsto> s)\<rparr>)"
    and "0 < n \<Longrightarrow> view (lm_Expire R srv k n r) = (view r)(k := (if cell_at srv (view r k) = no_cell then no_cell
        else (cell_at srv (view r k))\<lparr>lv_until := Some (srv + n * second)\<rparr>))"
    and "fst (lm_Incr R srv k r) = lv_count (cell_at srv (view r k)) + 1"
    and "view (snd (lm_Incr R srv k r)) = (view r)(k := (cell_at srv (view r k))\<lparr>lv_count := lv_count (cell_at srv (view r k)) + 1\<rparr>)"
  using assms by (simp_all add: limit_commands_def Let_def)


section \<open>The sliding log against its reference\<close>

text \<open>The log of the instants \<open>us\<close>.\<close>

definition log_of :: "(int \<Rightarrow> int) \<Rightarrow> gotime list \<Rightarrow> string \<rightharpoonup> int" where
  "log_of fl us = map_of (map (\<lambda>u. (dec_of_int u, fl u)) us)"

lemma log_of_keys: "distinct us \<Longrightarrow> distinct (map fst (map (\<lambda>u. (dec_of_int u, fl u)) us))"
  by (simp add: comp_def distinct_map inj_on_def dec_of_int_inj)

lemma card_log_of: "distinct us \<Longrightarrow> finite (dom (log_of fl us)) \<and> card (dom (log_of fl us)) = length us"
proof -
  assume a: "distinct us"
  have "dom (log_of fl us) = dec_of_int ` set us" by (auto simp: log_of_def dom_map_of_conv_image_fst image_image)
  then show ?thesis using a by (simp add: card_image inj_on_def dec_of_int_inj distinct_card)
qed

lemma log_of_filter: "distinct us \<Longrightarrow> map_filter_vals P (log_of fl us) = log_of fl (filter (\<lambda>u. P (fl u)) us)"
proof (induction us)
  case Nil
  show ?case by (simp add: log_of_def map_filter_vals_def)
next
  case (Cons u us)
  have "log_of fl us (dec_of_int u) = None" using Cons.prems by (auto simp: log_of_def map_of_eq_None_iff dec_of_int_inj)
  then have "log_of fl (filter (\<lambda>u. P (fl u)) us) (dec_of_int u) = None" using Cons by (simp flip: Cons.IH add: map_filter_vals_def)
  moreover have "map_filter_vals P (log_of fl us) = log_of fl (filter (\<lambda>u. P (fl u)) us)" using Cons by simp
  ultimately show ?case by (auto simp: log_of_def map_filter_vals_def fun_eq_iff split: option.splits)
qed

lemma log_of_snoc: "t \<notin> set us \<Longrightarrow> (log_of fl us)(dec_of_int t \<mapsto> fl t) = log_of fl (us @ [t])"
proof -
  assume "t \<notin> set us"
  then have "log_of fl us (dec_of_int t) = None" by (auto simp: log_of_def map_of_eq_None_iff dec_of_int_inj)
  then show ?thesis by (auto simp: log_of_def map_add_def fun_eq_iff split: option.split)
qed

lemma tidy_fields [simp]: "lv_set (tidy c) = lv_set c" "lv_count (tidy c) = lv_count c"
  by (auto simp: tidy_def no_cell_def)

lemma cell_at_again [simp]:
  "cell_at srv (cell_at srv c) = cell_at srv c" "cell_at srv (tidy ((cell_at srv c)\<lparr>lv_set := z\<rparr>)) = tidy ((cell_at srv c)\<lparr>lv_set := z\<rparr>)"
  "cell_at srv ((cell_at srv c)\<lparr>lv_set := z\<rparr>) = (cell_at srv c)\<lparr>lv_set := z\<rparr>"
  by (auto simp: cell_at_def tidy_def no_cell_def split: option.splits)

lemma one_request:
  assumes "limit_commands R view" and "pd (lc_Window cfg) = Some (k * second)" and "0 < k" and "fl 0 = 0" and "mono fl"
    and "lv_set (cell_at t (view r key)) = log_of fl us" and "distinct us" and "\<And>u. u \<in> set us \<Longrightarrow> 0 \<le> u \<and> u < t"
  obtains a r1 where "checkRateLimit R pd fl True t t cfg key r = (Some a, r1)"
    and "la_allowed a \<longleftrightarrow> int (length (filter (\<lambda>u. fl (t - k * second) < fl u) us)) < lc_Limit cfg"
    and "lv_set (view r1 key) = log_of fl (filter (\<lambda>u. fl (t - k * second) < fl u) us @ [t])"
    and "lv_until (view r1 key) = Some (t + k * second)"
proof -
  define kept where "kept = filter (\<lambda>u. fl (t - k * second) < fl u) us"
  let ?c = "cell_at t (view r key)"
  let ?c1 = "tidy (?c\<lparr>lv_set := log_of fl kept\<rparr>)"
  define r1 where "r1 = prune R fl t (t - k * second) key r"
  define r2 where "r2 = lm_ZAdd R t key (fl t) (dec_of_int t) r1"
  define r3 where "r3 = lm_Expire R t key k r2"
  have pos: "0 \<le> fl u" if "u \<in> set us" for u using monoD [OF assms(5), of 0 u] assms(4,8) that by simp
  have "map_filter_vals (\<lambda>s. \<not> (0 \<le> s \<and> s \<le> fl (t - k * second))) (log_of fl us) = log_of fl (filter (\<lambda>u. \<not> (0 \<le> fl u \<and> fl u \<le> fl (t - k * second))) us)"
    using assms(7) by (rule log_of_filter)
  also have "filter (\<lambda>u. \<not> (0 \<le> fl u \<and> fl u \<le> fl (t - k * second))) us = kept" unfolding kept_def by (rule filter_cong) (use pos in auto)
  finally have v1: "view r1 key = ?c1" by (simp add: r1_def prune_def limit_commandsD(1) [OF assms(1)] assms(6))
  have kept: "distinct kept" "t \<notin> set kept" using assms(7) assms(8) by (auto simp: kept_def)
  have at1: "cell_at t (view r1 key) = ?c1" by (simp only: v1 cell_at_again)
  then have count: "lm_ZCard R t key r1 = int (length kept)"
    using card_log_of [OF kept(1), of fl] limit_commandsD(2) [OF assms(1), of t r1 key] by simp
  have v2: "view r2 key = ?c1\<lparr>lv_set := log_of fl (kept @ [t])\<rparr>"
    using log_of_snoc [OF kept(2), of fl] by (simp add: r2_def limit_commandsD(3) [OF assms(1)] at1)
  have "log_of fl (kept @ [t]) (dec_of_int t) \<noteq> None" using log_of_snoc [OF kept(2), of fl] by (metis fun_upd_same option.distinct(1))
  then have some: "log_of fl (kept @ [t]) \<noteq> Map.empty" by auto
  have at2 [simp]: "cell_at t (view r2 key) = view r2 key"
    unfolding v2 by (metis at1 cell_at_again(3))
  have ne: "view r2 key \<noteq> no_cell" using some by (auto simp: v2 no_cell_def dest!: arg_cong [where f = lv_set])
  then have v3: "view r3 key = (view r2 key)\<lparr>lv_until := Some (t + k * second)\<rparr>"
    using ne by (simp add: r3_def limit_commandsD(4) [OF assms(1,3)])
  have secs: "expire_seconds (k * second) = k" using assms(3) by (simp add: expire_seconds_def)
  have "checkRateLimit R pd fl True t t cfg key r =
      (Some \<lparr>la_allowed = (int (length kept) < lc_Limit cfg), la_remaining = max 0 (lc_Limit cfg - int (length kept)), la_reset = t + k * second\<rparr>, r3)"
    by (simp add: checkRateLimit_def assms(2) Let_def secs count flip: r1_def r2_def r3_def)
  from that [OF this] show ?thesis using v3 by (simp add: v2 kept_def)
qed


text \<open>The decisions on the requests of a client, and what they are by the definition of a sliding window.\<close>

fun limit_requests :: "'r limit_redis \<Rightarrow> (string \<Rightarrow> duration option) \<Rightarrow> (int \<Rightarrow> int) \<Rightarrow> limit_config \<Rightarrow> string \<Rightarrow> gotime list \<Rightarrow> 'r \<Rightarrow>
    bool option list" where
  "limit_requests R pd fl cfg key [] r = []"
| "limit_requests R pd fl cfg key (t # ts) r =
     (case checkRateLimit R pd fl True t t cfg key r of (a, r1) \<Rightarrow> map_option la_allowed a # limit_requests R pd fl cfg key ts r1)"

fun sliding_window :: "(int \<Rightarrow> int) \<Rightarrow> duration \<Rightarrow> int \<Rightarrow> gotime list \<Rightarrow> gotime list \<Rightarrow> bool list" where
  "sliding_window fl w limit past [] = []"
| "sliding_window fl w limit past (t # ts) =
     (int (length (filter (\<lambda>u. fl (t - w) < fl u) past)) < limit) # sliding_window fl w limit (past @ [t]) ts"

definition log_state :: "(int \<Rightarrow> int) \<Rightarrow> duration \<Rightarrow> gotime list \<Rightarrow> limit_cell \<Rightarrow> bool" where
  "log_state fl w past c \<longleftrightarrow>
     (if past = [] then c = no_cell
      else lv_until c = Some (last past + w) \<and>
        (\<exists>us. lv_set c = log_of fl us \<and> distinct us \<and> set us \<subseteq> set past \<and>
           filter (\<lambda>u. fl (last past - w) < fl u) us = filter (\<lambda>u. fl (last past - w) < fl u) past))"

lemma log_of_Nil [simp]: "log_of fl [] = Map.empty"
  by (simp add: log_of_def)

lemma log_state_later:
  assumes "log_state fl w past c" and "mono fl" and "sorted_wrt (<) (past @ [t])"
  obtains us where "lv_set (cell_at t c) = log_of fl us" and "set us \<subseteq> set past" and "distinct us"
    and "filter (\<lambda>u. fl (t - w) < fl u) us = filter (\<lambda>u. fl (t - w) < fl u) past"
proof (cases "past = []")
  case True
  then show ?thesis using assms(1) by (intro that [of "[]"]) (simp_all add: log_state_def cell_at_def no_cell_def)
next
  case False
  then have l: "last past < t" "last past \<in> set past" using assms(3) by (auto simp: sorted_wrt_append)
  have le: "u \<le> last past" if "u \<in> set past" for u
    using that assms(3) False by (metis append_butlast_last_id in_set_conv_decomp less_imp_le order_refl rotate1.simps(2) set_ConsD set_rotate1 sorted_wrt_append list.set_intros(1))
  have d: "distinct past" using assms(3) by (simp add: sorted_wrt_append strict_sorted_iff)
  show ?thesis
  proof (cases "t < last past + w")
    case True
    have le: "fl (last past - w) \<le> fl (t - w)" using l by (intro monoD [OF assms(2)]) simp
    obtain us where us: "lv_set c = log_of fl us" "distinct us" "set us \<subseteq> set past"
        "filter (\<lambda>u. fl (last past - w) < fl u) us = filter (\<lambda>u. fl (last past - w) < fl u) past" "lv_until c = Some (last past + w)"
      using assms(1) False by (auto simp: log_state_def)
    have "filter (\<lambda>u. fl (t - w) < fl u) (filter (\<lambda>u. fl (last past - w) < fl u) xs) = filter (\<lambda>u. fl (t - w) < fl u) xs" for xs
      using le by (auto intro: filter_cong)
    from this [of us] this [of past] have "filter (\<lambda>u. fl (t - w) < fl u) us = filter (\<lambda>u. fl (t - w) < fl u) past" using us(4) by simp
    then show ?thesis using us True by (intro that [of us]) (auto simp: cell_at_def)
  next
    case expired: False
    have "\<not> fl (t - w) < fl u" if "u \<in> set past" for u
      using monoD [OF assms(2), of u "t - w"] le [OF that] expired by simp
    then have "filter (\<lambda>u. fl (t - w) < fl u) past = []" by (simp add: filter_empty_conv)
    then show ?thesis using assms(1) False expired by (intro that [of "[]"]) (simp_all add: log_state_def cell_at_def no_cell_def)
  qed
qed

lemma limit_requests_from:
  assumes R: "limit_commands R view" and w: "pd (lc_Window cfg) = Some (k * second)" "0 < k" and fl: "fl 0 = 0" "mono fl"
  shows "log_state fl (k * second) past (view r key) \<Longrightarrow> sorted_wrt (<) (past @ ts) \<Longrightarrow> list_all (\<lambda>t. 0 \<le> t) (past @ ts) \<Longrightarrow>
     limit_requests R pd fl cfg key ts r = map Some (sliding_window fl (k * second) (lc_Limit cfg) past ts)"
proof (induction ts arbitrary: past r)
  case Nil
  show ?case by simp
next
  case (Cons t ts)
  have s: "sorted_wrt (<) (past @ [t])" using Cons.prems(2) by (auto simp: sorted_wrt_append)
  obtain us where us: "lv_set (cell_at t (view r key)) = log_of fl us" "set us \<subseteq> set past" "distinct us"
      "filter (\<lambda>u. fl (t - k * second) < fl u) us = filter (\<lambda>u. fl (t - k * second) < fl u) past"
    using log_state_later [OF Cons.prems(1) fl(2) s] .
  have before: "0 \<le> u \<and> u < t" if "u \<in> set us" for u
    using that us(2) s Cons.prems(3) by (auto simp: sorted_wrt_append list_all_iff)
  obtain a r1 where a: "checkRateLimit R pd fl True t t cfg key r = (Some a, r1)"
      "la_allowed a \<longleftrightarrow> int (length (filter (\<lambda>u. fl (t - k * second) < fl u) us)) < lc_Limit cfg"
      "lv_set (view r1 key) = log_of fl (filter (\<lambda>u. fl (t - k * second) < fl u) us @ [t])"
      "lv_until (view r1 key) = Some (t + k * second)"
    using one_request [where r = r and key = key and t = t and fl = fl and pd = pd and cfg = cfg and view = view and us = us, OF R w(1,2) fl us(1) us(3)] before by blast
  have "distinct past" "t \<notin> set past" using s by (auto simp: sorted_wrt_append strict_sorted_iff)
  then have "log_state fl (k * second) (past @ [t]) (view r1 key)"
    unfolding log_state_def using a(3,4) us before
    by (auto intro!: exI [of _ "filter (\<lambda>u. fl (t - k * second) < fl u) us @ [t]"])
  then show ?case using Cons.IH [of "past @ [t]" r1] Cons.prems(2,3) a(1,2) us(4) by simp
qed


text \<open>
  C24: the sliding log decides as a sliding window does: a request passes if and only if fewer than the limit came
  before it in the window, those turned away included.
\<close>
theorem sliding_log_spec:
  assumes "limit_commands R view" and "pd (lc_Window cfg) = Some (k * second)" and "0 < k"
    and "fl 0 = 0" and "mono fl" and "view r key = no_cell"
    and "sorted_wrt (<) ts" and "list_all (\<lambda>t. 0 \<le> t) ts"
  shows "limit_requests R pd fl cfg key ts r = map Some (sliding_window fl (k * second) (lc_Limit cfg) [] ts)"
  using limit_requests_from [where pd = pd and cfg = cfg, OF assms(1,2,3,4,5), of "[]" r key ts] assms(6,7,8) by (simp add: log_state_def)

text \<open>At a steady rate above the limit, the reference lets the first requests pass and no other.\<close>

lemma sliding_window_nth:
  "i < length ts \<Longrightarrow> sliding_window fl w limit past ts ! i = (int (length (filter (\<lambda>u. fl (ts ! i - w) < fl u) (past @ take i ts))) < limit)"
  by (induction ts arbitrary: past i) (auto simp: nth_Cons' take_Cons' simp del: filter_append split: if_splits)

lemma length_sliding_window [simp]: "length (sliding_window fl w limit past ts) = length ts"
  by (induction ts arbitrary: past) simp_all

definition steady_rate :: "gotime \<Rightarrow> duration \<Rightarrow> nat \<Rightarrow> gotime list" where
  "steady_rate t0 d n = map (\<lambda>i. t0 + int i * d) [0..<n]"

lemma steady_window:
  assumes fl: "\<And>x y. x + 512 \<le> y \<Longrightarrow> fl x < fl y" and d: "0 < d" and w: "int limit * d + 512 \<le> w"
  shows "sliding_window fl w (int limit) [] (steady_rate t0 d n) = map (\<lambda>i. i < limit) [0..<n]"
proof (rule nth_equalityI)
  fix i assume "i < length (sliding_window fl w (int limit) [] (steady_rate t0 d n))"
  then have i: "i < n" by (simp add: steady_rate_def)
  let ?P = "\<lambda>u. fl (t0 + int i * d - w) < fl u"
  have kept: "?P (t0 + int j * d)" if "j < i" "i \<le> j + limit" for j
  proof (rule fl)
    have "int i * d \<le> (int j + int limit) * d" using that d by (intro mult_right_mono) auto
    then show "t0 + int i * d - w + 512 \<le> t0 + int j * d" using w by (simp add: algebra_simps)
  qed
  have "filter ?P (take i (steady_rate t0 d n)) = map (\<lambda>j. t0 + int j * d) (filter (\<lambda>j. ?P (t0 + int j * d)) [0..<i])"
    using i by (simp add: steady_rate_def take_map filter_map comp_def)
  then have len: "length (filter ?P (take i (steady_rate t0 d n))) = length (filter (\<lambda>j. ?P (t0 + int j * d)) [0..<i])" by simp
  have "length (filter (\<lambda>j. ?P (t0 + int j * d)) [0..<i]) < limit \<longleftrightarrow> i < limit"
  proof (cases "i < limit")
    case True
    then show ?thesis using length_filter_le [of _ "[0..<i]"] by (auto intro: le_less_trans)
  next
    case False
    then have split: "[0..<i] = [0..<i - limit] @ [i - limit..<i]" using upt_add_eq_append [of 0 "i - limit" limit] by simp
    have "filter (\<lambda>j. ?P (t0 + int j * d)) [i - limit..<i] = [i - limit..<i]" by (rule filter_True) (use kept False in auto)
    then have "limit \<le> length (filter (\<lambda>j. ?P (t0 + int j * d)) [0..<i])" using False by (simp add: split)
    then show ?thesis using False by simp
  qed
  then show "sliding_window fl w (int limit) [] (steady_rate t0 d n) ! i = map (\<lambda>i. i < limit) [0..<n] ! i"
    using i len by (simp add: sliding_window_nth steady_rate_def)
qed (simp add: steady_rate_def)

text \<open>
  a client that keeps sending at a steady rate above the limit gets its first requests through and then none, however
  long it goes on: requests turned away count against it.  Two instants half a microsecond apart have different floats.
\<close>
theorem steady_client_blocked:
  assumes "limit_commands R view" and "pd (lc_Window cfg) = Some (k * second)" and "0 < k"
    and "fl 0 = 0" and "mono fl" and "\<And>x y. x + 512 \<le> y \<Longrightarrow> fl x < fl y" and "view r key = no_cell"
    and "0 \<le> t0" and "0 < d" and "lc_Limit cfg = int limit" and "int limit * d + 512 \<le> k * second"
  shows "limit_requests R pd fl cfg key (steady_rate t0 d n) r = map (\<lambda>i. Some (i < limit)) [0..<n]"
proof -
  have "sorted_wrt (<) (steady_rate t0 d n)" "list_all (\<lambda>t. 0 \<le> t) (steady_rate t0 d n)"
    using assms(8,9) by (auto simp: steady_rate_def sorted_wrt_iff_nth_less list_all_iff)
  then have "limit_requests R pd fl cfg key (steady_rate t0 d n) r = map Some (sliding_window fl (k * second) (lc_Limit cfg) [] (steady_rate t0 d n))"
    using limit_requests_from [where pd = pd and cfg = cfg, OF assms(1,2,3,4,5), of "[]" r key "steady_rate t0 d n"] assms(7) by (simp add: log_state_def)
  also have "\<dots> = map Some (map (\<lambda>i. i < limit) [0..<n])" using steady_window [OF assms(6,9,11)] assms(10) by simp
  finally show ?thesis by simp
qed


section \<open>The fixed window\<close>

fun window_requests :: "'r limit_redis \<Rightarrow> (string \<Rightarrow> duration option) \<Rightarrow> limit_config \<Rightarrow> string \<Rightarrow> gotime list \<Rightarrow> 'r \<Rightarrow>
    limit_answer option list" where
  "window_requests R pd cfg key [] r = []"
| "window_requests R pd cfg key (t # ts) r =
     (case FixedWindowRateLimit R pd True t t cfg key r of (a, r1) \<Rightarrow> a # window_requests R pd cfg key ts r1)"

lemma go_Truncate_spec:
  assumes "0 < d"
  shows "go_Truncate d t \<le> t" and "t < go_Truncate d t + d" and "go_Truncate d (go_Truncate d t) = go_Truncate d t"
proof -
  have m: "0 \<le> (t + epoch) mod d" "(t + epoch) mod d < d" using assms by simp_all
  then show "go_Truncate d t \<le> t" "t < go_Truncate d t + d" using assms by (simp_all add: go_Truncate_def del: pos_mod_sign pos_mod_bound)
  show "go_Truncate d (go_Truncate d t) = go_Truncate d t"
    using assms by (simp add: go_Truncate_def) (metis add_diff_eq diff_add_eq minus_mod_eq_mult_div mod_mult_self2_is_0 mult.commute)
qed

lemma window_requests_from:
  assumes R: "limit_commands R view" and w: "pd (lc_Window cfg) = Some (k * second)" "0 < k"
  shows "list_all (\<lambda>t. start \<le> t \<and> go_Truncate (k * second) t = start) ts \<Longrightarrow>
    (if n = 0 then view r (window_key key start) = no_cell
     else lv_count (view r (window_key key start)) = int n \<and> (\<exists>u. lv_until (view r (window_key key start)) = Some u \<and> start + k * second \<le> u)) \<Longrightarrow>
    map (map_option la_allowed) (window_requests R pd cfg key ts r) = map (\<lambda>i. Some (int i < lc_Limit cfg)) [n..<n + length ts]"
proof (induction ts arbitrary: n r)
  case Nil
  show ?case by simp
next
  case (Cons t ts)
  let ?k = "window_key key start"
  let ?c = "view r ?k"
  define c where "c = cell_at t ?c"
  have t: "go_Truncate (k * second) t = start" "start \<le> t" using Cons.prems(1) by simp_all
  have lt: "t < start + k * second" using go_Truncate_spec(2) [of "k * second" t] w(2) t by simp
  have c: "c = ?c" using Cons.prems(2) lt by (auto simp: c_def cell_at_def no_cell_def split: if_splits)
  have count: "lv_count c = int n" using Cons.prems(2) by (auto simp: c no_cell_def split: if_splits)
  obtain m r1 where m: "lm_Incr R t ?k r = (m, r1)" by fastforce
  have m1: "m = int n + 1" and r1: "view r1 ?k = c\<lparr>lv_count := int n + 1\<rparr>"
    using limit_commandsD(5,6) [OF R, of t ?k r] m count by (simp_all flip: c_def)
  define r2 where "r2 = (if m = 1 then lm_Expire R t ?k (expire_seconds (k * second)) r1 else r1)"
  have secs: "expire_seconds (k * second) = k" using w(2) by (simp add: expire_seconds_def)
  have r2: "lv_count (view r2 ?k) = int n + 1 \<and> (\<exists>u. lv_until (view r2 ?k) = Some u \<and> start + k * second \<le> u)"
  proof (cases "n = 0")
    case True
    then have "c = no_cell" using Cons.prems(2) c by simp
    then have "cell_at t (view r1 ?k) = view r1 ?k" "view r1 ?k \<noteq> no_cell" using True r1 by (simp_all add: cell_at_def no_cell_def)
    then show ?thesis using True m1 r1 t(2) by (simp add: r2_def secs limit_commandsD(4) [OF R w(2)])
  next
    case False
    then show ?thesis using m1 r1 Cons.prems(2) c by (simp add: r2_def)
  qed
  have "FixedWindowRateLimit R pd True t t cfg key r =
      (Some \<lparr>la_allowed = (int n + 1 \<le> lc_Limit cfg), la_remaining = max 0 (lc_Limit cfg - (int n + 1)), la_reset = start + k * second\<rparr>, r2)"
    by (simp add: FixedWindowRateLimit_def w(1) t(1) m m1 r2_def Let_def)
  moreover have "map (map_option la_allowed) (window_requests R pd cfg key ts r2) = map (\<lambda>i. Some (int i < lc_Limit cfg)) [Suc n..<Suc n + length ts]"
    using Cons.IH [where n = "Suc n" and r = r2] Cons.prems(1) r2 by simp
  moreover have "[n..<n + length (t # ts)] = n # [Suc n..<Suc n + length ts]" by (simp add: upt_conv_Cons del: upt_Suc)
  moreover have "int n + 1 \<le> lc_Limit cfg \<longleftrightarrow> int n < lc_Limit cfg" by linarith
  ultimately show ?case by (simp del: upt_Suc)
qed

text \<open>
  of the requests of one fixed window exactly the first ones, up to the limit, pass, and no expiry resets the count
  within the window.
\<close>
theorem fixed_window_spec:
  assumes "limit_commands R view" and "pd (lc_Window cfg) = Some (k * second)" and "0 < k"
    and "list_all (\<lambda>t. go_Truncate (k * second) t = start) ts" and "view r (window_key key start) = no_cell"
  shows "map (map_option la_allowed) (window_requests R pd cfg key ts r) = map (\<lambda>i. Some (int i < lc_Limit cfg)) [0..<length ts]"
proof -
  have "list_all (\<lambda>t. start \<le> t \<and> go_Truncate (k * second) t = start) ts"
    using assms(4) go_Truncate_spec(1) [of "k * second"] assms(3) by (auto simp: list_all_iff)
  from window_requests_from [where pd = pd and cfg = cfg and n = 0, OF assms(1,2,3) this] assms(5) show ?thesis by simp
qed


section \<open>A server in memory\<close>

definition memory_limits :: "(string \<Rightarrow> limit_cell) limit_redis" where
  "memory_limits = \<lparr>
     lm_ZRemRangeByScore = (\<lambda>srv k lo hi r. let c = cell_at srv (r k) in
        r(k := tidy (c\<lparr>lv_set := map_filter_vals (\<lambda>s. \<not> (lo \<le> s \<and> s \<le> hi)) (lv_set c)\<rparr>))),
     lm_ZCard = (\<lambda>srv k r. int (card (dom (lv_set (cell_at srv (r k)))))),
     lm_ZAdd = (\<lambda>srv k s m r. let c = cell_at srv (r k) in r(k := c\<lparr>lv_set := (lv_set c)(m \<mapsto> s)\<rparr>)),
     lm_Expire = (\<lambda>srv k n r. let c = cell_at srv (r k) in
        r(k := (if c = no_cell then c else c\<lparr>lv_until := Some (srv + n * second)\<rparr>))),
     lm_Incr = (\<lambda>srv k r. let c = cell_at srv (r k) in (lv_count c + 1, r(k := c\<lparr>lv_count := lv_count c + 1\<rparr>))),
     lm_Del = (\<lambda>k r. r(k := no_cell))\<rparr>"

lemma memory_limits_ok: "limit_commands memory_limits (\<lambda>r. r)"
  by (simp add: limit_commands_def memory_limits_def Let_def)

definition sample_limit :: limit_config where
  "sample_limit = \<lparr>lc_Enable = True, lc_SkipPaths = [], lc_KeyGenerator = ''ip'', lc_Window = ''1s'', lc_Limit = 2, lc_Headers = False\<rparr>"

definition one_second :: "string \<Rightarrow> duration option" where
  "one_second s = (if s = ''1s'' then Some (1 * second) else None)"

lemma sample_window: "one_second (lc_Window sample_limit) = Some (1 * second)"
  by (simp add: one_second_def sample_limit_def)

text \<open>The third request of a second is turned away; one a second after the first passes.\<close>

lemma sliding_log_spec_witness:
  "limit_requests memory_limits one_second (\<lambda>x. x) sample_limit ''k'' [10, 20, 30, 1000000025] (\<lambda>_. no_cell) = [Some True, Some True, Some False, Some True]"
  by (subst sliding_log_spec [where pd = one_second and cfg = sample_limit, OF memory_limits_ok sample_window]) (simp_all add: mono_def sample_limit_def)

lemma steady_client_blocked_witness:
  "limit_requests memory_limits one_second (\<lambda>x. x) sample_limit ''k'' (steady_rate 0 1000 4) (\<lambda>_. no_cell) = [Some True, Some True, Some False, Some False]"
  by (subst steady_client_blocked [where pd = one_second and cfg = sample_limit and limit = 2, OF memory_limits_ok sample_window])
    (simp_all add: mono_def sample_limit_def upt_rec)

lemma fixed_window_spec_witness:
  "map (map_option la_allowed) (window_requests memory_limits one_second sample_limit ''k'' [10, 20, 30] (\<lambda>_. no_cell)) = [Some True, Some True, Some False]"
  by (subst fixed_window_spec [where pd = one_second and cfg = sample_limit and start = 0, OF memory_limits_ok sample_window])
    (simp_all add: sample_limit_def go_Truncate_def epoch_def upt_rec)

text \<open>Windows below a second share their key with every other of the same second.\<close>

lemma short_windows_share_key:
  assumes "start div second = start' div second"
  shows "window_key key start = window_key key start'"
  using assms by (simp add: window_key_def)

text \<open>The status does not record a request, and the count it gives includes the requests turned away.\<close>

lemma GetRateLimitStatus_sees:
  assumes "limit_commands R view" and "pd (lc_Window cfg) = Some w" and "finite (dom (lv_set (cell_at srv (view (prune R fl srv (now - w) key r) key))))"
  shows "fst (GetRateLimitStatus R pd fl True srv now cfg key r) =
      Some (int (card (dom (lv_set (cell_at srv (view (prune R fl srv (now - w) key r) key))))), now + w)"
  using limit_commandsD(2) [OF assms(1,3)] assms(2) by (simp add: GetRateLimitStatus_def Let_def)

text \<open>A window that does not parse, or a server that does not answer, lets every request through without headers.\<close>

lemma limit_Handler_open:
  assumes "generateKey cfg q \<noteq> None" and "pd (lc_Window cfg) = None \<or> \<not> up"
  shows "limit_Handler R pd fl up srv now cfg q r = (Next [], r)"
  using assms by (auto simp: limit_Handler_def checkRateLimit_def split: option.splits)

end
