(* ===== verification/JwtAuth.thy ===== *)
theory JwtAuth
  imports GoText KeyLife
begin

text \<open>
  Token services and the authentication middleware (src/middleware/jwt_service.go and auth.go).  The JWT library, the
  random identifiers and Redis are arguments; every token service signs with HS256 under its one key.
\<close>

section \<open>The JWT library\<close>

record 'c jwt_lib =
  jw_SignedString :: "string \<Rightarrow> 'c \<Rightarrow> string option"
  jw_ParseWithClaims :: "string \<Rightarrow> gotime \<Rightarrow> string \<Rightarrow> 'c option"

text \<open>A numeric date is a time cut to the second.\<close>

definition NewNumericDate :: "gotime \<Rightarrow> gotime" where
  "NewNumericDate t = t - t mod second"

abbreviation minute_ns :: int where
  "minute_ns \<equiv> 60000000000"

section \<open>The enhanced service\<close>

datatype TokenType = AccessTokenType | RefreshTokenType | OtherTokenType string

record enhanced_claims =
  ec_UserID :: string
  ec_UserType :: string
  ec_TokenType :: TokenType
  ec_JTI :: string
  ec_DeviceID :: string
  ec_SessionID :: string
  ec_IP :: string
  ec_UserAgent :: string
  ec_Extra :: "string \<rightharpoonup> string"
  ec_Issuer :: string
  ec_Subject :: string
  ec_ExpiresAt :: "gotime option"
  ec_NotBefore :: "gotime option"
  ec_IssuedAt :: "gotime option"

record jwt_config =
  jc_SecretKey :: string
  jc_AccessExpirationMins :: int
  jc_RefreshExpirationMins :: int
  jc_Issuer :: string
  jc_EnableJTI :: bool
  jc_EnableDeviceTracking :: bool
  jc_EnableSessionTracking :: bool

definition NewEnhancedJWTService :: "jwt_config \<Rightarrow> jwt_config" where
  "NewEnhancedJWTService c =
     (let c1 = (if jc_Issuer c = [] then c\<lparr>jc_Issuer := ''go-backend-kit''\<rparr> else c);
          c2 = (if jc_AccessExpirationMins c1 = 0 then c1\<lparr>jc_AccessExpirationMins := 15\<rparr> else c1)
      in if jc_RefreshExpirationMins c2 = 0 then c2\<lparr>jc_RefreshExpirationMins := 10080\<rparr> else c2)"

record token_options =
  tk_deviceID :: string
  tk_sessionID :: string
  tk_ip :: string
  tk_userAgent :: string
  tk_extra :: "(string \<rightharpoonup> string) option"

definition no_options :: token_options where
  "no_options = \<lparr>tk_deviceID = [], tk_sessionID = [], tk_ip = [], tk_userAgent = [], tk_extra = None\<rparr>"

datatype TokenOption = WithDeviceID string | WithSessionID string | WithIP string | WithUserAgent string | WithExtra "string \<rightharpoonup> string"

fun apply_option :: "TokenOption \<Rightarrow> token_options \<Rightarrow> token_options" where
  "apply_option (WithDeviceID d) o1 = o1\<lparr>tk_deviceID := d\<rparr>"
| "apply_option (WithSessionID s) o1 = o1\<lparr>tk_sessionID := s\<rparr>"
| "apply_option (WithIP i) o1 = o1\<lparr>tk_ip := i\<rparr>"
| "apply_option (WithUserAgent u) o1 = o1\<lparr>tk_userAgent := u\<rparr>"
| "apply_option (WithExtra e) o1 = o1\<lparr>tk_extra := Some e\<rparr>"

definition collect_options :: "TokenOption list \<Rightarrow> token_options" where
  "collect_options ops = fold apply_option ops no_options"

text \<open>\<open>jti\<close> and \<open>sess\<close> are the random identifiers drawn, if any is.\<close>

definition token_claims :: "jwt_config \<Rightarrow> gotime \<Rightarrow> string \<Rightarrow> string \<Rightarrow> string \<Rightarrow> string \<Rightarrow> TokenType \<Rightarrow> int \<Rightarrow> token_options \<Rightarrow> enhanced_claims" where
  "token_claims s now jti sess userID userType ty mins opts =
     \<lparr>ec_UserID = userID, ec_UserType = userType, ec_TokenType = ty,
      ec_JTI = (if jc_EnableJTI s then jti else []),
      ec_DeviceID = (if jc_EnableDeviceTracking s then tk_deviceID opts else []),
      ec_SessionID = (if jc_EnableSessionTracking s then (if tk_sessionID opts \<noteq> [] then tk_sessionID opts else sess) else []),
      ec_IP = tk_ip opts, ec_UserAgent = tk_userAgent opts,
      ec_Extra = (case tk_extra opts of None \<Rightarrow> Map.empty | Some e \<Rightarrow> e),
      ec_Issuer = jc_Issuer s, ec_Subject = userID,
      ec_ExpiresAt = Some (NewNumericDate (now + mins * minute_ns)),
      ec_NotBefore = Some (NewNumericDate now), ec_IssuedAt = Some (NewNumericDate now)\<rparr>"

definition generateToken :: "enhanced_claims jwt_lib \<Rightarrow> jwt_config \<Rightarrow> gotime \<Rightarrow> string \<Rightarrow> string \<Rightarrow> string \<Rightarrow> string \<Rightarrow> TokenType \<Rightarrow> int \<Rightarrow> token_options \<Rightarrow> string option" where
  "generateToken J s now jti sess userID userType ty mins opts =
     jw_SignedString J (jc_SecretKey s) (token_claims s now jti sess userID userType ty mins opts)"

definition GenerateAccessToken :: "enhanced_claims jwt_lib \<Rightarrow> jwt_config \<Rightarrow> gotime \<Rightarrow> string \<Rightarrow> string \<Rightarrow> string \<Rightarrow> string \<Rightarrow> TokenOption list \<Rightarrow> string option" where
  "GenerateAccessToken J s now jti sess userID userType ops =
     generateToken J s now jti sess userID userType AccessTokenType (jc_AccessExpirationMins s) (collect_options ops)"

definition GenerateRefreshToken :: "enhanced_claims jwt_lib \<Rightarrow> jwt_config \<Rightarrow> gotime \<Rightarrow> string \<Rightarrow> string \<Rightarrow> string \<Rightarrow> string \<Rightarrow> TokenOption list \<Rightarrow> string option" where
  "GenerateRefreshToken J s now jti sess userID userType ops =
     generateToken J s now jti sess userID userType RefreshTokenType (jc_RefreshExpirationMins s) (collect_options ops)"

text \<open>The two tokens of a pair draw identifiers and read the clock on their own.\<close>

definition GenerateTokenPair :: "enhanced_claims jwt_lib \<Rightarrow> jwt_config \<Rightarrow> gotime \<Rightarrow> gotime \<Rightarrow> (nat \<Rightarrow> string) \<Rightarrow> string \<Rightarrow> string \<Rightarrow> TokenOption list \<Rightarrow>
    string + string \<times> string" where
  "GenerateTokenPair J s now now' rand userID userType ops =
     (case generateToken J s now (rand 0) (rand 1) userID userType AccessTokenType (jc_AccessExpirationMins s) (collect_options ops) of
        None \<Rightarrow> Inl ''failed to generate access token''
      | Some a \<Rightarrow>
          (case generateToken J s now' (rand 2) (rand 3) userID userType RefreshTokenType (jc_RefreshExpirationMins s) (collect_options ops) of
             None \<Rightarrow> Inl ''failed to generate refresh token''
           | Some b \<Rightarrow> Inr (a, b)))"

definition ParseToken :: "'c jwt_lib \<Rightarrow> string \<Rightarrow> gotime \<Rightarrow> string \<Rightarrow> string + 'c" where
  "ParseToken J key now tok = (case jw_ParseWithClaims J key now tok of None \<Rightarrow> Inl ''failed to parse token'' | Some c \<Rightarrow> Inr c)"

definition ValidateAccessToken :: "enhanced_claims jwt_lib \<Rightarrow> jwt_config \<Rightarrow> gotime \<Rightarrow> string \<Rightarrow> string + enhanced_claims" where
  "ValidateAccessToken J s now tok =
     (case ParseToken J (jc_SecretKey s) now tok of
        Inl e \<Rightarrow> Inl e
      | Inr c \<Rightarrow> if ec_TokenType c \<noteq> AccessTokenType then Inl ''invalid token type: expected access token'' else Inr c)"

definition ValidateRefreshToken :: "enhanced_claims jwt_lib \<Rightarrow> jwt_config \<Rightarrow> gotime \<Rightarrow> string \<Rightarrow> string + enhanced_claims" where
  "ValidateRefreshToken J s now tok =
     (case ParseToken J (jc_SecretKey s) now tok of
        Inl e \<Rightarrow> Inl e
      | Inr c \<Rightarrow> if ec_TokenType c \<noteq> RefreshTokenType then Inl ''invalid token type: expected refresh token'' else Inr c)"

text \<open>\<open>now'\<close> is the second reading of the clock, after parsing.\<close>

definition GetTokenRemainingTime :: "enhanced_claims jwt_lib \<Rightarrow> jwt_config \<Rightarrow> gotime \<Rightarrow> gotime \<Rightarrow> string \<Rightarrow> string + duration" where
  "GetTokenRemainingTime J s now now' tok =
     (case ParseToken J (jc_SecretKey s) now tok of
        Inl e \<Rightarrow> Inl e
      | Inr c \<Rightarrow> (case ec_ExpiresAt c of
          None \<Rightarrow> Inl ''token has no expiration time''
        | Some e \<Rightarrow> if e - now' < 0 then Inl ''token has expired'' else Inr (e - now')))"

definition IsTokenExpired :: "enhanced_claims jwt_lib \<Rightarrow> jwt_config \<Rightarrow> gotime \<Rightarrow> gotime \<Rightarrow> string \<Rightarrow> bool" where
  "IsTokenExpired J s now now' tok = (case GetTokenRemainingTime J s now now' tok of Inl _ \<Rightarrow> True | Inr d \<Rightarrow> d \<le> 0)"

section \<open>The plain service\<close>

record plain_claims =
  pc_UserID :: string
  pc_Role :: string
  pc_IssuedAt :: gotime
  pc_ExpiresAt :: gotime

record JWTService =
  js_secretKey :: string
  js_accessExpirationMins :: int
  js_refreshExpirationMins :: int

definition plain_token :: "plain_claims jwt_lib \<Rightarrow> string \<Rightarrow> gotime \<Rightarrow> int \<Rightarrow> string \<Rightarrow> string \<Rightarrow> string option" where
  "plain_token J key now mins userID role = jw_SignedString J key
     \<lparr>pc_UserID = userID, pc_Role = role, pc_IssuedAt = NewNumericDate now, pc_ExpiresAt = NewNumericDate (now + mins * minute_ns)\<rparr>"

definition GenerateTokens :: "plain_claims jwt_lib \<Rightarrow> JWTService \<Rightarrow> gotime \<Rightarrow> string \<Rightarrow> string \<Rightarrow> string + string \<times> string" where
  "GenerateTokens J j now userID role =
     (case plain_token J (js_secretKey j) now (js_accessExpirationMins j) userID role of
        None \<Rightarrow> Inl ''failed to generate access token''
      | Some a \<Rightarrow> (case plain_token J (js_secretKey j) now (js_refreshExpirationMins j) userID role of
          None \<Rightarrow> Inl ''failed to generate refresh token''
        | Some b \<Rightarrow> Inr (a, b)))"

definition ValidateToken :: "plain_claims jwt_lib \<Rightarrow> JWTService \<Rightarrow> gotime \<Rightarrow> string \<Rightarrow> string + plain_claims" where
  "ValidateToken J j now tok = ParseToken J (js_secretKey j) now tok"

section \<open>The middleware\<close>

record auth_config =
  ac_SkipPaths :: "string list"
  ac_TokenHeader :: string
  ac_RequireBearer :: bool
  ac_TokenQueryParam :: string
  ac_EnableBlacklist :: bool

text \<open>A request with its headers and query as the framework reads them: an absent one is empty.\<close>

record auth_request =
  aq_path :: string
  aq_header :: "string \<Rightarrow> string"
  aq_query :: "string \<Rightarrow> string"

definition extractToken :: "auth_config \<Rightarrow> auth_request \<Rightarrow> string" where
  "extractToken cfg q =
     (let h = aq_header q (ac_TokenHeader cfg);
          from_query = (if ac_TokenQueryParam cfg \<noteq> [] then aq_query q (ac_TokenQueryParam cfg) else [])
      in if h = [] then from_query
         else if ac_RequireBearer cfg then (if HasPrefix h ''Bearer '' then drop 7 h else from_query)
         else h)"

text \<open>The client is \<open>None\<close> when there is none; an answer is \<open>None\<close> when the call fails.\<close>

record 'r black_redis =
  bl_Exists :: "gotime \<Rightarrow> string \<Rightarrow> 'r \<Rightarrow> int option"
  bl_SetEX :: "gotime \<Rightarrow> string \<Rightarrow> string \<Rightarrow> duration \<Rightarrow> 'r \<Rightarrow> bool \<times> 'r"

definition black_key :: "string \<Rightarrow> string" where
  "black_key tok = ''blacklist:token:'' @ tok"

definition isTokenBlacklisted :: "'r black_redis option \<Rightarrow> gotime \<Rightarrow> string \<Rightarrow> 'r \<Rightarrow> bool" where
  "isTokenBlacklisted B now tok r =
     (case B of None \<Rightarrow> False | Some b \<Rightarrow> (case bl_Exists b now (black_key tok) r of None \<Rightarrow> False | Some n \<Rightarrow> n > 0))"

definition BlacklistToken :: "'r black_redis option \<Rightarrow> gotime \<Rightarrow> string \<Rightarrow> duration \<Rightarrow> 'r \<Rightarrow> string option \<times> 'r" where
  "BlacklistToken B now tok expiry r =
     (case B of
        None \<Rightarrow> (Some ''redis client not available'', r)
      | Some b \<Rightarrow> (case bl_SetEX b now (black_key tok) ''1'' expiry r of
          (ok, r1) \<Rightarrow> (if ok then None else Some ''setex'', r1)))"

datatype auth_outcome = Skipped | Refused string | Authenticated string string string

definition auth_Handler :: "plain_claims jwt_lib \<Rightarrow> JWTService \<Rightarrow> 'r black_redis option \<Rightarrow> auth_config \<Rightarrow> gotime \<Rightarrow> auth_request \<Rightarrow> 'r \<Rightarrow> auth_outcome" where
  "auth_Handler J j B cfg now q r =
     (if list_ex (HasPrefix (aq_path q)) (ac_SkipPaths cfg) then Skipped
      else let tok = extractToken cfg q
           in if tok = [] then Refused ''missing_token''
              else if ac_EnableBlacklist cfg \<and> isTokenBlacklisted B now tok r then Refused ''token_blacklisted''
              else case ValidateToken J j now tok of
                  Inl _ \<Rightarrow> Refused ''invalid_token''
                | Inr c \<Rightarrow> Authenticated (pc_UserID c) (pc_Role c) tok)"

text \<open>The context of a request, as the later handlers see it.\<close>

definition auth_context :: "auth_outcome \<Rightarrow> (string \<rightharpoonup> goval) \<Rightarrow> (string \<rightharpoonup> goval)" where
  "auth_context a ctx = (case a of
      Authenticated u role tok \<Rightarrow> ctx(''user_id'' \<mapsto> GStr u, ''user_role'' \<mapsto> GStr role, ''token'' \<mapsto> GStr tok)
    | _ \<Rightarrow> ctx)"

datatype role_outcome = RolePasses | RoleUnauthorized | RoleForbidden

definition RequireRole :: "string \<Rightarrow> (string \<rightharpoonup> goval) \<Rightarrow> role_outcome" where
  "RequireRole role ctx = (case ctx ''user_role'' of
      None \<Rightarrow> RoleUnauthorized
    | Some v \<Rightarrow> if v \<noteq> GStr role then RoleForbidden else RolePasses)"

definition RequireAnyRole :: "string list \<Rightarrow> (string \<rightharpoonup> goval) \<Rightarrow> role_outcome" where
  "RequireAnyRole roles ctx = (case ctx ''user_role'' of
      None \<Rightarrow> RoleUnauthorized
    | Some v \<Rightarrow> if list_ex (\<lambda>role. v = GStr role) roles then RolePasses else RoleForbidden)"

definition context_string :: "string \<Rightarrow> (string \<rightharpoonup> goval) \<Rightarrow> string \<times> bool" where
  "context_string k ctx = (case ctx k of Some (GStr s) \<Rightarrow> (s, True) | _ \<Rightarrow> ([], False))"

definition GetUserID :: "(string \<rightharpoonup> goval) \<Rightarrow> string \<times> bool" where
  "GetUserID ctx = context_string ''user_id'' ctx"

definition GetUserRole :: "(string \<rightharpoonup> goval) \<Rightarrow> string \<times> bool" where
  "GetUserRole ctx = context_string ''user_role'' ctx"


section \<open>What the library does\<close>

text \<open>
  Claims the library carries faithfully, \<open>ok\<close> of them, are signed, and the token parses under its key exactly from its
  not-before time until its expiry.
\<close>

definition in_time :: "gotime option \<Rightarrow> gotime option \<Rightarrow> gotime \<Rightarrow> bool" where
  "in_time nbf exp t \<longleftrightarrow> (case nbf of None \<Rightarrow> True | Some n \<Rightarrow> n \<le> t) \<and> (case exp of None \<Rightarrow> True | Some e \<Rightarrow> t < e)"

definition signs :: "'c jwt_lib \<Rightarrow> ('c \<Rightarrow> gotime option) \<Rightarrow> ('c \<Rightarrow> gotime option) \<Rightarrow> ('c \<Rightarrow> bool) \<Rightarrow> bool" where
  "signs J nbf exp ok \<longleftrightarrow> (\<forall>key c. ok c \<longrightarrow> (\<exists>s. jw_SignedString J key c = Some s \<and>
     (\<forall>t. jw_ParseWithClaims J key t s = (if in_time (nbf c) (exp c) t then Some c else None))))"

lemma signsD:
  assumes "signs J nbf exp ok" and "ok c"
  shows "\<exists>s. jw_SignedString J key c = Some s \<and>
    (\<forall>t. ParseToken J key t s = (if in_time (nbf c) (exp c) t then Inr c else Inl ''failed to parse token''))"
  using assms by (force simp: signs_def ParseToken_def)

text \<open>A numeric date lies less than a second before its time.\<close>

lemma NewNumericDate_bounds: "NewNumericDate t \<le> t" "t < NewNumericDate t + second"
  using pos_mod_sign [of second t] pos_mod_bound [of second t] by (simp_all add: NewNumericDate_def del: pos_mod_sign pos_mod_bound)

lemma NewNumericDate_minutes: "NewNumericDate (t + m * minute_ns) = NewNumericDate t + m * minute_ns"
proof -
  have "m * minute_ns = (60 * m) * second" by simp
  then have "(t + m * minute_ns) mod second = t mod second" by (metis mod_mult_self2 mult.commute)
  then show ?thesis by (simp add: NewNumericDate_def)
qed

section \<open>Token pairs\<close>

text \<open>
  C25: each token of a pair validates as what it is, with the claims it was made from, from its second on for its minutes,
  and never as the other.
\<close>
theorem token_pair_spec:
  fixes s :: jwt_config
  assumes "signs J ec_NotBefore ec_ExpiresAt ok"
    and "ca = token_claims s now (rand 0) (rand 1) u ty AccessTokenType (jc_AccessExpirationMins s) (collect_options ops)" and "ok ca"
    and "cb = token_claims s now' (rand 2) (rand 3) u ty RefreshTokenType (jc_RefreshExpirationMins s) (collect_options ops)" and "ok cb"
  shows "\<exists>a b. GenerateTokenPair J s now now' rand u ty ops = Inr (a, b) \<and>
    (\<forall>t. ValidateAccessToken J s t a = (if NewNumericDate now \<le> t \<and> t < NewNumericDate now + jc_AccessExpirationMins s * minute_ns
        then Inr ca else Inl ''failed to parse token'')) \<and>
    (\<forall>t. ValidateRefreshToken J s t b = (if NewNumericDate now' \<le> t \<and> t < NewNumericDate now' + jc_RefreshExpirationMins s * minute_ns
        then Inr cb else Inl ''failed to parse token'')) \<and>
    (\<forall>t. isl (ValidateAccessToken J s t b) \<and> isl (ValidateRefreshToken J s t a))"
proof -
  obtain a where a: "jw_SignedString J (jc_SecretKey s) ca = Some a"
      "\<And>t. ParseToken J (jc_SecretKey s) t a = (if in_time (ec_NotBefore ca) (ec_ExpiresAt ca) t then Inr ca else Inl ''failed to parse token'')"
    using signsD [where key = "jc_SecretKey s", OF assms(1,3)] by blast
  obtain b where b: "jw_SignedString J (jc_SecretKey s) cb = Some b"
      "\<And>t. ParseToken J (jc_SecretKey s) t b = (if in_time (ec_NotBefore cb) (ec_ExpiresAt cb) t then Inr cb else Inl ''failed to parse token'')"
    using signsD [where key = "jc_SecretKey s", OF assms(1,5)] by blast
  have c: "ec_TokenType ca = AccessTokenType" "ec_TokenType cb = RefreshTokenType"
    by (simp_all add: assms(2,4) token_claims_def)
  have ta: "in_time (ec_NotBefore ca) (ec_ExpiresAt ca) t \<longleftrightarrow> NewNumericDate now \<le> t \<and> t < NewNumericDate now + jc_AccessExpirationMins s * minute_ns" for t
    by (simp add: assms(2) token_claims_def in_time_def NewNumericDate_minutes)
  have tb: "in_time (ec_NotBefore cb) (ec_ExpiresAt cb) t \<longleftrightarrow> NewNumericDate now' \<le> t \<and> t < NewNumericDate now' + jc_RefreshExpirationMins s * minute_ns" for t
    by (simp add: assms(4) token_claims_def in_time_def NewNumericDate_minutes)
  have "GenerateTokenPair J s now now' rand u ty ops = Inr (a, b)"
    by (simp only: GenerateTokenPair_def generateToken_def option.simps sum.simps a(1) b(1) flip: assms(2,4))
  then show ?thesis
    by (intro exI [of _ a] exI [of _ b])
      (simp add: ValidateAccessToken_def ValidateRefreshToken_def a(2) b(2) ta tb c split: if_split)
qed

text \<open>A token near its end has a remaining time although it is refused the next instant.\<close>

lemma IsTokenExpired_parsed:
  assumes "ParseToken J (jc_SecretKey s) now tok = Inr c" and "ec_ExpiresAt c = Some e"
  shows "IsTokenExpired J s now now' tok \<longleftrightarrow> e \<le> now'"
  using assms by (simp add: IsTokenExpired_def GetTokenRemainingTime_def)

section \<open>The plain service's refresh token\<close>

text \<open>
  the plain service's tokens differ in nothing but their expiry: the refresh token authenticates requests as the access
  token does, and goes on doing so after the access token has expired, until its own expiry.
\<close>
theorem refresh_token_authenticates:
  assumes "signs J (\<lambda>_. None) (\<lambda>c. Some (pc_ExpiresAt c)) ok"
    and "\<And>m. m \<in> {js_accessExpirationMins j, js_refreshExpirationMins j} \<Longrightarrow>
      ok \<lparr>pc_UserID = u, pc_Role = role, pc_IssuedAt = NewNumericDate now, pc_ExpiresAt = NewNumericDate (now + m * minute_ns)\<rparr>"
    and "list_all (\<lambda>p. \<not> HasPrefix path p) (ac_SkipPaths cfg)" and "\<not> ac_RequireBearer cfg" and "\<not> ac_EnableBlacklist cfg"
    and "GenerateTokens J j now u role = Inr (a, b)" and "a \<noteq> []" and "b \<noteq> []"
    and "NewNumericDate now + js_accessExpirationMins j * minute_ns \<le> t"
    and "t < NewNumericDate now + js_refreshExpirationMins j * minute_ns"
  shows "auth_Handler J j B cfg t \<lparr>aq_path = path, aq_header = (\<lambda>_. a), aq_query = no_q\<rparr> r = Refused ''invalid_token'' \<and>
    auth_Handler J j B cfg t \<lparr>aq_path = path, aq_header = (\<lambda>_. b), aq_query = no_q\<rparr> r = Authenticated u role b"
proof -
  let ?c = "\<lambda>m. \<lparr>pc_UserID = u, pc_Role = role, pc_IssuedAt = NewNumericDate now, pc_ExpiresAt = NewNumericDate (now + m * minute_ns)\<rparr>"
  have parse: "\<exists>s. jw_SignedString J (js_secretKey j) (?c m) = Some s \<and>
      (\<forall>t. ParseToken J (js_secretKey j) t s = (if t < NewNumericDate now + m * minute_ns then Inr (?c m) else Inl ''failed to parse token''))"
    if "m \<in> {js_accessExpirationMins j, js_refreshExpirationMins j}" for m
    using signsD [OF assms(1), of "?c m" "js_secretKey j"] assms(2) [OF that] by (simp add: in_time_def NewNumericDate_minutes)
  obtain a' where a': "jw_SignedString J (js_secretKey j) (?c (js_accessExpirationMins j)) = Some a'"
      "ParseToken J (js_secretKey j) t a' = Inl ''failed to parse token''"
    using parse [of "js_accessExpirationMins j"] assms(9) by auto
  obtain b' where b': "jw_SignedString J (js_secretKey j) (?c (js_refreshExpirationMins j)) = Some b'"
      "ParseToken J (js_secretKey j) t b' = Inr (?c (js_refreshExpirationMins j))"
    using parse [of "js_refreshExpirationMins j"] assms(10) by auto
  have ab: "a = a'" "b = b'" using assms(6) a'(1) b'(1) by (simp_all add: GenerateTokens_def plain_token_def)
  have skip: "\<not> list_ex (HasPrefix path) (ac_SkipPaths cfg)" using assms(3) by (auto simp: list_ex_iff list_all_iff)
  show ?thesis using skip assms(4,5,7,8) a'(2) b'(2)
    by (simp add: auth_Handler_def extractToken_def Let_def ValidateToken_def ab)
qed

section \<open>The blacklist\<close>

text \<open>The commands of a Redis that answers; \<open>SETEX\<close> takes a positive time, which the client rounds up from less than a second.\<close>

definition blacklists :: "'r black_redis \<Rightarrow> ('r \<Rightarrow> string \<rightharpoonup> string \<times> gotime option) \<Rightarrow> bool" where
  "blacklists b view \<longleftrightarrow>
     (\<forall>now k r. bl_Exists b now k r = Some (if live now (view r k) = None then 0 else 1)) \<and>
     (\<forall>now k v d r. second \<le> d \<longrightarrow> fst (bl_SetEX b now k v d r) \<and>
        view (snd (bl_SetEX b now k v d r)) = (view r)(k \<mapsto> (v, Some (now + d - d mod second))))"

text \<open>
  a blacklisted token is refused for the whole seconds it was blacklisted for, and every other request is answered as
  before.
\<close>
theorem blacklist_spec:
  assumes "blacklists b view" and "ac_EnableBlacklist cfg" and "second \<le> d"
    and "list_all (\<lambda>p. \<not> HasPrefix (aq_path q) p) (ac_SkipPaths cfg)" and "extractToken cfg q = tok" and "tok \<noteq> []"
    and "t < now + d - d mod second"
    and "extractToken cfg q' \<noteq> tok"
  shows "\<exists>r1. BlacklistToken (Some b) now tok d r = (None, r1) \<and>
    auth_Handler J j (Some b) cfg t q r1 = Refused ''token_blacklisted'' \<and>
    auth_Handler J j (Some b) cfg t q' r1 = auth_Handler J j (Some b) cfg t q' r"
proof -
  have law: "bl_Exists b n k r' = Some (if live n (view r' k) = None then 0 else 1)"
      "fst (bl_SetEX b now k v d r)" "view (snd (bl_SetEX b now k v d r)) = (view r)(k \<mapsto> (v, Some (now + d - d mod second)))" for n k v r'
    using assms(1,3) by (simp_all add: blacklists_def)
  obtain r1 where r1: "bl_SetEX b now (black_key tok) ''1'' d r = (True, r1)" using law(2) by (metis prod.collapse)
  have v1: "view r1 = (view r)(black_key tok \<mapsto> (''1'', Some (now + d - d mod second)))"
    using law(3) [of "black_key tok" "''1''"] r1 by simp
  have inj: "black_key x = black_key tok \<longleftrightarrow> x = tok" for x by (simp add: black_key_def)
  have "isTokenBlacklisted (Some b) t tok r1" using assms(7) by (simp add: isTokenBlacklisted_def law(1) v1 live_Some)
  moreover have "isTokenBlacklisted (Some b) t x r1 = isTokenBlacklisted (Some b) t x r" if "x \<noteq> tok" for x
    using that by (simp add: isTokenBlacklisted_def law(1) v1 inj)
  moreover have "BlacklistToken (Some b) now tok d r = (None, r1)" using r1 by (simp add: BlacklistToken_def)
  moreover have "\<not> list_ex (HasPrefix (aq_path q)) (ac_SkipPaths cfg)" using assms(4) by (auto simp: list_ex_iff list_all_iff)
  ultimately show ?thesis using assms(2,5,6,8) by (simp add: auth_Handler_def Let_def)
qed


section \<open>An instance of the library\<close>

text \<open>A library that carries two claims, and a server in memory.\<close>

definition two_claims :: "'c \<Rightarrow> 'c \<Rightarrow> ('c \<Rightarrow> gotime option) \<Rightarrow> ('c \<Rightarrow> gotime option) \<Rightarrow> 'c jwt_lib" where
  "two_claims c1 c2 nbf exp = \<lparr>
     jw_SignedString = (\<lambda>key c. if c = c1 then Some ''one'' else if c = c2 then Some ''two'' else None),
     jw_ParseWithClaims = (\<lambda>key t s. if s = ''one'' \<and> in_time (nbf c1) (exp c1) t then Some c1
        else if s = ''two'' \<and> in_time (nbf c2) (exp c2) t then Some c2 else None)\<rparr>"

lemma two_claims_sign: "signs (two_claims c1 c2 nbf exp) nbf exp (\<lambda>c. c = c1 \<or> c = c2)"
  by (auto simp: signs_def two_claims_def)

definition memory_blacklist :: "(string \<rightharpoonup> string \<times> gotime option) black_redis" where
  "memory_blacklist = \<lparr>
     bl_Exists = (\<lambda>now k r. Some (if live now (r k) = None then 0 else 1)),
     bl_SetEX = (\<lambda>now k v d r. (True, r(k \<mapsto> (v, Some (now + d - d mod second)))))\<rparr>"

lemma memory_blacklists: "blacklists memory_blacklist (\<lambda>r. r)"
  by (simp add: blacklists_def memory_blacklist_def)

definition sample_jwt :: jwt_config where
  "sample_jwt = NewEnhancedJWTService \<lparr>jc_SecretKey = ''key'', jc_AccessExpirationMins = 0, jc_RefreshExpirationMins = 0, jc_Issuer = [],
     jc_EnableJTI = True, jc_EnableDeviceTracking = True, jc_EnableSessionTracking = True\<rparr>"

definition sample_claims :: "gotime \<Rightarrow> TokenType \<Rightarrow> enhanced_claims" where
  "sample_claims now ty = token_claims sample_jwt now ''j'' ''s'' ''u'' ''REGULAR'' ty (if ty = AccessTokenType then 15 else 10080) (collect_options [])"

definition sample_lib :: "enhanced_claims jwt_lib" where
  "sample_lib = two_claims (sample_claims 5 AccessTokenType) (sample_claims 7 RefreshTokenType) ec_NotBefore ec_ExpiresAt"

definition sample_rand :: "nat \<Rightarrow> string" where
  "sample_rand i = (if i mod 2 = 0 then ''j'' else ''s'')"

lemma sample_mins: "jc_AccessExpirationMins sample_jwt = 15" "jc_RefreshExpirationMins sample_jwt = 10080"
  by (simp_all add: sample_jwt_def NewEnhancedJWTService_def Let_def)

lemma sample_pair:
  "sample_claims 5 AccessTokenType =
     token_claims sample_jwt 5 (sample_rand 0) (sample_rand 1) ''u'' ''REGULAR'' AccessTokenType (jc_AccessExpirationMins sample_jwt) (collect_options [])"
  "sample_claims 7 RefreshTokenType =
     token_claims sample_jwt 7 (sample_rand 2) (sample_rand 3) ''u'' ''REGULAR'' RefreshTokenType (jc_RefreshExpirationMins sample_jwt) (collect_options [])"
  by (simp_all add: sample_claims_def sample_mins sample_rand_def)

lemma sample_lib_signs:
  "signs sample_lib ec_NotBefore ec_ExpiresAt (\<lambda>c. c = sample_claims 5 AccessTokenType \<or> c = sample_claims 7 RefreshTokenType)"
  unfolding sample_lib_def by (rule two_claims_sign)

lemma token_pair_spec_witness:
  "\<exists>a b. GenerateTokenPair sample_lib sample_jwt 5 7 sample_rand ''u'' ''REGULAR'' [] = Inr (a, b) \<and>
     ValidateAccessToken sample_lib sample_jwt 100 a = Inr (sample_claims 5 AccessTokenType) \<and>
     ValidateAccessToken sample_lib sample_jwt (900 * second) a = Inl ''failed to parse token'' \<and> isl (ValidateAccessToken sample_lib sample_jwt 100 b)"
  using token_pair_spec [OF sample_lib_signs sample_pair(1) _ sample_pair(2)]
  by (auto simp: sample_mins NewNumericDate_def)

definition sample_plain :: "gotime \<Rightarrow> int \<Rightarrow> plain_claims" where
  "sample_plain now mins = \<lparr>pc_UserID = ''u'', pc_Role = ''user'', pc_IssuedAt = NewNumericDate now, pc_ExpiresAt = NewNumericDate (now + mins * minute_ns)\<rparr>"

definition sample_auth :: auth_config where
  "sample_auth = \<lparr>ac_SkipPaths = [''/health''], ac_TokenHeader = ''Authorization'', ac_RequireBearer = False, ac_TokenQueryParam = [], ac_EnableBlacklist = True\<rparr>"

lemma blacklist_spec_witness:
  "\<exists>r1. BlacklistToken (Some memory_blacklist) 0 ''tok'' (60 * second) Map.empty = (None, r1) \<and>
    auth_Handler (two_claims (sample_plain 0 1) (sample_plain 0 2) (\<lambda>_. None) (\<lambda>c. Some (pc_ExpiresAt c))) (JWTService.make ''k'' 1 2)
      (Some memory_blacklist) sample_auth (59 * second) \<lparr>aq_path = ''/a'', aq_header = (\<lambda>_. ''tok''), aq_query = (\<lambda>_. [])\<rparr> r1 = Refused ''token_blacklisted''"
  using blacklist_spec [OF memory_blacklists, where cfg = sample_auth and d = "60 * second" and q = "\<lparr>aq_path = ''/a'', aq_header = (\<lambda>_. ''tok''), aq_query = (\<lambda>_. [])\<rparr>"
      and q' = "\<lparr>aq_path = ''/a'', aq_header = (\<lambda>_. ''other''), aq_query = (\<lambda>_. [])\<rparr>" and tok = "''tok''" and t = "59 * second" and now = 0 and r = Map.empty]
  by (fastforce simp: sample_auth_def extractToken_def HasPrefix_def)


definition sample_plain_lib :: "plain_claims jwt_lib" where
  "sample_plain_lib = two_claims (sample_plain 0 1) (sample_plain 0 2) (\<lambda>_. None) (\<lambda>c. Some (pc_ExpiresAt c))"

definition sample_service :: JWTService where
  "sample_service = \<lparr>js_secretKey = ''k'', js_accessExpirationMins = 1, js_refreshExpirationMins = 2\<rparr>"

lemma sample_plain_pair: "GenerateTokens sample_plain_lib sample_service 0 ''u'' ''user'' = Inr (''one'', ''two'')"
  by (simp add: GenerateTokens_def plain_token_def sample_service_def sample_plain_lib_def two_claims_def sample_plain_def NewNumericDate_def)

definition open_auth :: auth_config where
  "open_auth = sample_auth\<lparr>ac_EnableBlacklist := False\<rparr>"

lemma open_auth_facts:
  "list_all (\<lambda>p. \<not> HasPrefix ''/a'' p) (ac_SkipPaths open_auth)" "\<not> ac_RequireBearer open_auth" "\<not> ac_EnableBlacklist open_auth"
  by (simp_all add: open_auth_def sample_auth_def HasPrefix_def)

lemma refresh_token_authenticates_witness:
  "auth_Handler sample_plain_lib sample_service None open_auth (90 * second) \<lparr>aq_path = ''/a'', aq_header = (\<lambda>_. ''two''), aq_query = (\<lambda>_. [])\<rparr> (0::nat) =
    Authenticated ''u'' ''user'' ''two''"
proof (rule refresh_token_authenticates [THEN conjunct2, OF _ _ open_auth_facts sample_plain_pair])
  show "signs sample_plain_lib (\<lambda>_. None) (\<lambda>c. Some (pc_ExpiresAt c)) (\<lambda>c. c = sample_plain 0 1 \<or> c = sample_plain 0 2)"
    unfolding sample_plain_lib_def by (rule two_claims_sign)
qed (auto simp: sample_service_def sample_plain_def NewNumericDate_def)

end
