(* ===== verification/RefreshTokens.thy ===== *)
theory RefreshTokens
  imports JwtAuth
begin

text \<open>
  The life of refresh tokens in Redis (src/middleware/refresh_token.go): storing, validating, rotating and revoking them, by
  user, device and family.  The commands of one operation run at one instant of the server's clock.  Redis and the order of
  a map are arguments.
\<close>

section \<open>Redis\<close>

datatype 'a reply = Nil_reply | Failed | Got 'a

record 'r token_redis =
  tr_Set :: "gotime \<Rightarrow> string \<Rightarrow> string \<Rightarrow> duration \<Rightarrow> 'r \<Rightarrow> bool \<times> 'r"
  tr_Get :: "gotime \<Rightarrow> string \<Rightarrow> 'r \<Rightarrow> string reply"
  tr_Exists :: "gotime \<Rightarrow> string \<Rightarrow> 'r \<Rightarrow> int option"
  tr_Del :: "string \<Rightarrow> 'r \<Rightarrow> bool \<times> 'r"
  tr_Expire :: "gotime \<Rightarrow> string \<Rightarrow> duration \<Rightarrow> 'r \<Rightarrow> 'r"
  tr_HSet :: "gotime \<Rightarrow> string \<Rightarrow> string \<Rightarrow> string \<Rightarrow> 'r \<Rightarrow> bool \<times> 'r"
  tr_HGetAll :: "gotime \<Rightarrow> string \<Rightarrow> 'r \<Rightarrow> (string \<rightharpoonup> string) option"
  tr_SAdd :: "gotime \<Rightarrow> string \<Rightarrow> string \<Rightarrow> 'r \<Rightarrow> 'r"
  tr_SRem :: "gotime \<Rightarrow> string \<Rightarrow> string \<Rightarrow> 'r \<Rightarrow> 'r"
  tr_SMembers :: "gotime \<Rightarrow> string \<Rightarrow> 'r \<Rightarrow> string list option"
  tr_LPush :: "gotime \<Rightarrow> string \<Rightarrow> string \<Rightarrow> 'r \<Rightarrow> 'r"
  tr_LTrim :: "gotime \<Rightarrow> string \<Rightarrow> int \<Rightarrow> int \<Rightarrow> 'r \<Rightarrow> 'r"
  tr_Scan :: "gotime \<Rightarrow> string \<Rightarrow> 'r \<Rightarrow> string list"

section \<open>The manager and its keys\<close>

record refresh_manager =
  rm_refreshExpirationMins :: int
  rm_enableRotation :: bool
  rm_tokenFamily :: bool

definition NewRefreshTokenManager :: "int \<Rightarrow> bool \<Rightarrow> refresh_manager" where
  "NewRefreshTokenManager mins rotation =
     \<lparr>rm_refreshExpirationMins = (if mins = 0 then 10080 else mins), rm_enableRotation = rotation, rm_tokenFamily = True\<rparr>"

definition getRefreshTokenKey :: "string \<Rightarrow> string" where
  "getRefreshTokenKey u = ''refresh_token:'' @ u"

definition getActiveTokensKey :: "string \<Rightarrow> string" where
  "getActiveTokensKey u = ''refresh_token:active:'' @ u"

definition getDeviceTokenKey :: "string \<Rightarrow> string \<Rightarrow> string" where
  "getDeviceTokenKey u d = ''refresh_token:'' @ u @ '':device:'' @ d"

definition metaKey :: "string \<Rightarrow> string" where
  "metaKey u = getRefreshTokenKey u @ '':meta''"

definition historyKey :: "string \<Rightarrow> string" where
  "historyKey u = ''refresh_token:history:'' @ u"

definition revocationKey :: "string \<Rightarrow> string" where
  "revocationKey u = ''refresh_token:revoked:'' @ u"

definition revokedFamilyKey :: "string \<Rightarrow> string \<Rightarrow> string" where
  "revokedFamilyKey u f = ''refresh_token:family:revoked:'' @ u @ '':'' @ f"

definition token_lifetime :: "refresh_manager \<Rightarrow> duration" where
  "token_lifetime m = rm_refreshExpirationMins m * minute_ns"

section \<open>Storing and validating\<close>

datatype token_result = TokenOk | TokenError string | TokenPanic

definition token_data :: "refresh_manager \<Rightarrow> string \<Rightarrow> enhanced_claims \<Rightarrow> gotime \<Rightarrow> gotime \<Rightarrow> (string \<times> string) list" where
  "token_data m tok c iat exp =
     [(''token'', tok), (''jti'', ec_JTI c), (''device_id'', ec_DeviceID c), (''session_id'', ec_SessionID c),
      (''issued_at'', dec_of_int (iat div second)), (''expires_at'', dec_of_int (exp div second)),
      (''ip'', ec_IP c), (''user_agent'', ec_UserAgent c)] @
     (if rm_tokenFamily m \<and> ec_SessionID c \<noteq> [] then [(''family_id'', ec_SessionID c)] else [])"

fun hset_all :: "'r token_redis \<Rightarrow> gotime \<Rightarrow> string \<Rightarrow> (string \<times> string) list \<Rightarrow> 'r \<Rightarrow> bool \<times> 'r" where
  "hset_all R now k [] r = (True, r)"
| "hset_all R now k ((f, v) # fs) r = (case tr_HSet R now k f v r of (ok, r1) \<Rightarrow> if ok then hset_all R now k fs r1 else (False, r1))"

text \<open>\<open>shuffle\<close> is the order in which the map is walked.\<close>

definition StoreRefreshToken :: "'r token_redis \<Rightarrow> ((string \<times> string) list \<Rightarrow> (string \<times> string) list) \<Rightarrow> refresh_manager \<Rightarrow> gotime \<Rightarrow> string \<Rightarrow> string \<Rightarrow> enhanced_claims \<Rightarrow> 'r \<Rightarrow>
    token_result \<times> 'r" where
  "StoreRefreshToken R shuffle m now u tok c r =
     (case (ec_IssuedAt c, ec_ExpiresAt c) of
        (Some iat, Some exp) \<Rightarrow>
          (case tr_Set R now (getRefreshTokenKey u) tok (token_lifetime m) r of
             (False, r1) \<Rightarrow> (TokenError ''failed to store refresh token'', r1)
           | (True, r1) \<Rightarrow>
               (case hset_all R now (metaKey u) (shuffle (token_data m tok c iat exp)) r1 of
                  (False, r2) \<Rightarrow> (TokenError ''failed to store token metadata'', r2)
                | (True, r2) \<Rightarrow>
                    let r3 = tr_Expire R now (metaKey u) (token_lifetime m) r2;
                        r4 = tr_SAdd R now (getActiveTokensKey u) (ec_JTI c) r3;
                        r5 = tr_Expire R now (getActiveTokensKey u) (token_lifetime m) r4
                    in (TokenOk, if ec_DeviceID c \<noteq> [] then snd (tr_Set R now (getDeviceTokenKey u (ec_DeviceID c)) tok (token_lifetime m) r5) else r5)))
      | _ \<Rightarrow> (TokenPanic, r))"

definition rm_ValidateRefreshToken :: "'r token_redis \<Rightarrow> gotime \<Rightarrow> string \<Rightarrow> string \<Rightarrow> 'r \<Rightarrow> string + bool" where
  "rm_ValidateRefreshToken R now u tok r =
     (case tr_Get R now (getRefreshTokenKey u) r of
        Nil_reply \<Rightarrow> Inr False
      | Failed \<Rightarrow> Inl ''failed to get refresh token''
      | Got stored \<Rightarrow> Inr (stored = tok))"

section \<open>Revoking\<close>

definition field :: "(string \<rightharpoonup> string) \<Rightarrow> string \<Rightarrow> string" where
  "field h f = (case h f of None \<Rightarrow> [] | Some v \<Rightarrow> v)"

text \<open>A failed read of the metadata counts as none.\<close>

definition RevokeRefreshToken :: "'r token_redis \<Rightarrow> gotime \<Rightarrow> string \<Rightarrow> 'r \<Rightarrow> token_result \<times> 'r" where
  "RevokeRefreshToken R now u r =
     (let meta = (case tr_HGetAll R now (metaKey u) r of None \<Rightarrow> Map.empty | Some h \<Rightarrow> h)
      in case tr_Del R (getRefreshTokenKey u) r of
           (False, r1) \<Rightarrow> (TokenError ''failed to delete refresh token'', r1)
         | (True, r1) \<Rightarrow>
             (case tr_Del R (metaKey u) r1 of
                (False, r2) \<Rightarrow> (TokenError ''failed to delete token metadata'', r2)
              | (True, r2) \<Rightarrow>
                  let r3 = (if field meta ''jti'' \<noteq> [] then tr_SRem R now (getActiveTokensKey u) (field meta ''jti'') r2 else r2)
                  in (TokenOk, if field meta ''device_id'' \<noteq> [] then snd (tr_Del R (getDeviceTokenKey u (field meta ''device_id'')) r3) else r3)))"

definition RevokeAllUserTokens :: "'r token_redis \<Rightarrow> refresh_manager \<Rightarrow> gotime \<Rightarrow> string \<Rightarrow> 'r \<Rightarrow> token_result \<times> 'r" where
  "RevokeAllUserTokens R m now u r =
     (if tr_SMembers R now (getActiveTokensKey u) r = None then (TokenError ''failed to get active tokens'', r)
      else case RevokeRefreshToken R now u r of
          (TokenOk, r1) \<Rightarrow>
            let r2 = fold (\<lambda>k r. snd (tr_Del R k r)) (tr_Scan R now (getDeviceTokenKey u ''*'') r1) r1;
                r3 = snd (tr_Del R (getActiveTokensKey u) r2)
            in (TokenOk, snd (tr_Set R now (revocationKey u) (dec_of_int (now div second)) (token_lifetime m) r3))
        | (e, r1) \<Rightarrow> (e, r1))"

definition got :: "string reply \<Rightarrow> string" where
  "got a = (case a of Got s \<Rightarrow> s | _ \<Rightarrow> [])"

definition RevokeDeviceTokens :: "'r token_redis \<Rightarrow> gotime \<Rightarrow> string \<Rightarrow> string \<Rightarrow> 'r \<Rightarrow> token_result \<times> 'r" where
  "RevokeDeviceTokens R now u d r =
     (case tr_Get R now (getDeviceTokenKey u d) r of
        Failed \<Rightarrow> (TokenError ''failed to get device token'', r)
      | a \<Rightarrow>
          let r1 = snd (tr_Del R (getDeviceTokenKey u d) r)
          in if got (tr_Get R now (getRefreshTokenKey u) r1) = got a then RevokeRefreshToken R now u r1 else (TokenOk, r1))"

section \<open>Rotating\<close>

fun wrap_error :: "string \<Rightarrow> token_result \<Rightarrow> token_result" where
  "wrap_error msg (TokenError e) = TokenError msg"
| "wrap_error msg a = a"

definition RotateRefreshToken :: "'r token_redis \<Rightarrow> ((string \<times> string) list \<Rightarrow> (string \<times> string) list) \<Rightarrow> refresh_manager \<Rightarrow> gotime \<Rightarrow> string \<Rightarrow> string \<Rightarrow> string \<Rightarrow> enhanced_claims \<Rightarrow> 'r \<Rightarrow>
    token_result \<times> 'r" where
  "RotateRefreshToken R shuffle m now u oldToken newToken c r =
     (if \<not> rm_enableRotation m then
        (case rm_ValidateRefreshToken R now u oldToken r of
           Inl e \<Rightarrow> (TokenError e, r)
         | Inr valid \<Rightarrow> (if valid then TokenOk else TokenError ''invalid refresh token'', r))
      else case tr_HGetAll R now (metaKey u) r of
          None \<Rightarrow> (TokenError ''failed to get old token metadata'', r)
        | Some oldMeta \<Rightarrow>
            (case RevokeRefreshToken R now u r of
               (TokenOk, r1) \<Rightarrow>
                 let c1 = (if rm_tokenFamily m \<and> field oldMeta ''family_id'' \<noteq> [] then c\<lparr>ec_SessionID := field oldMeta ''family_id''\<rparr> else c)
                 in (case StoreRefreshToken R shuffle m now u newToken c1 r1 of
                       (TokenOk, r2) \<Rightarrow>
                         let entry = field oldMeta ''jti'' @ ''->'' @ ec_JTI c1 @ ''@'' @ dec_of_int (now div second);
                             r3 = tr_LPush R now (historyKey u) entry r2;
                             r4 = tr_LTrim R now (historyKey u) 0 9 r3
                         in (TokenOk, tr_Expire R now (historyKey u) (token_lifetime m) r4)
                     | (e, r2) \<Rightarrow> (wrap_error ''failed to store new token'' e, r2))
             | (e, r1) \<Rightarrow> (wrap_error ''failed to revoke old token'' e, r1)))"

section \<open>Families and active tokens\<close>

definition CheckTokenFamily :: "'r token_redis \<Rightarrow> refresh_manager \<Rightarrow> gotime \<Rightarrow> string \<Rightarrow> string \<Rightarrow> 'r \<Rightarrow> string + bool" where
  "CheckTokenFamily R m now u f r =
     (if \<not> rm_tokenFamily m then Inr True
      else case tr_Exists R now (revokedFamilyKey u f) r of
          None \<Rightarrow> Inl ''failed to check family revocation''
        | Some n \<Rightarrow> Inr (n = 0))"

definition RevokeFamilyTokens :: "'r token_redis \<Rightarrow> refresh_manager \<Rightarrow> gotime \<Rightarrow> string \<Rightarrow> string \<Rightarrow> 'r \<Rightarrow> 'r" where
  "RevokeFamilyTokens R m now u f r =
     (if \<not> rm_tokenFamily m then r
      else snd (tr_Set R now (revokedFamilyKey u f) (dec_of_int (now div second)) (token_lifetime m) r))"

text \<open>Of an active token only the identifier is what was stored: the times are those of the question.\<close>

record token_info =
  ti_JTI :: string
  ti_IssuedAt :: gotime
  ti_ExpiresAt :: gotime

definition GetActiveTokens :: "'r token_redis \<Rightarrow> refresh_manager \<Rightarrow> gotime \<Rightarrow> string \<Rightarrow> 'r \<Rightarrow> token_info list option" where
  "GetActiveTokens R m now u r =
     map_option (map (\<lambda>j. \<lparr>ti_JTI = j, ti_IssuedAt = now, ti_ExpiresAt = now + token_lifetime m\<rparr>)) (tr_SMembers R now (getActiveTokensKey u) r)"


section \<open>What the commands do\<close>

text \<open>A key has a value of one type; a command for another type fails and changes nothing.\<close>

datatype rvalue = VStr string | VHash "string \<rightharpoonup> string" | VSet "string set" | VList "string list"

fun as_hash :: "rvalue option \<Rightarrow> (string \<rightharpoonup> string) option" where
  "as_hash None = Some Map.empty"
| "as_hash (Some (VHash h)) = Some h"
| "as_hash (Some _) = None"

fun as_set :: "rvalue option \<Rightarrow> string set option" where
  "as_set None = Some {}"
| "as_set (Some (VSet s)) = Some s"
| "as_set (Some _) = None"

fun as_list :: "rvalue option \<Rightarrow> string list option" where
  "as_list None = Some []"
| "as_list (Some (VList l)) = Some l"
| "as_list (Some _) = None"

fun as_string :: "rvalue option \<Rightarrow> string reply" where
  "as_string None = Nil_reply"
| "as_string (Some (VStr s)) = Got s"
| "as_string (Some _) = Failed"

type_synonym tokens_view = "string \<rightharpoonup> rvalue \<times> gotime option"

definition put :: "gotime \<Rightarrow> string \<Rightarrow> rvalue option \<Rightarrow> tokens_view \<Rightarrow> tokens_view" where
  "put now k v w = (case v of None \<Rightarrow> w | Some x \<Rightarrow> w(k := modify now x (\<lambda>_. x) (w k)))"

definition glob_free :: "string \<Rightarrow> bool" where
  "glob_free p \<longleftrightarrow> list_all (\<lambda>c. c \<notin> set ''*?[]^'' \<and> c \<noteq> CHR 0x5C) p"

definition token_commands :: "'r token_redis \<Rightarrow> ('r \<Rightarrow> tokens_view) \<Rightarrow> bool" where
  "token_commands R view \<longleftrightarrow>
     (\<forall>now k v d r. 0 < d \<longrightarrow> fst (tr_Set R now k v d r) \<and> view (snd (tr_Set R now k v d r)) = (view r)(k \<mapsto> (VStr v, Some (now + d)))) \<and>
     (\<forall>now k r. tr_Get R now k r = as_string (live now (view r k))) \<and>
     (\<forall>now k r. tr_Exists R now k r = Some (if live now (view r k) = None then 0 else 1)) \<and>
     (\<forall>k r. fst (tr_Del R k r) \<and> view (snd (tr_Del R k r)) = (view r)(k := None)) \<and>
     (\<forall>now k d r. 0 < d \<longrightarrow> view (tr_Expire R now k d r) = (view r)(k := expire now d (view r k))) \<and>
     (\<forall>now k f x r. fst (tr_HSet R now k f x r) = (as_hash (live now (view r k)) \<noteq> None) \<and>
        view (snd (tr_HSet R now k f x r)) = put now k (map_option (\<lambda>h. VHash (h(f \<mapsto> x))) (as_hash (live now (view r k)))) (view r)) \<and>
     (\<forall>now k r. tr_HGetAll R now k r = as_hash (live now (view r k))) \<and>
     (\<forall>now k m r. view (tr_SAdd R now k m r) = put now k (map_option (\<lambda>s. VSet (insert m s)) (as_set (live now (view r k)))) (view r)) \<and>
     (\<forall>now k m r. view (tr_SRem R now k m r) = (case as_set (live now (view r k)) of
        None \<Rightarrow> view r
      | Some s \<Rightarrow> if s - {m} = {} then (view r)(k := None) else put now k (Some (VSet (s - {m}))) (view r))) \<and>
     (\<forall>now k r. map_option set (tr_SMembers R now k r) = as_set (live now (view r k))) \<and>
     (\<forall>now k x r. view (tr_LPush R now k x r) = put now k (map_option (\<lambda>l. VList (x # l)) (as_list (live now (view r k)))) (view r)) \<and>
     (\<forall>now k n r. 0 \<le> n \<longrightarrow> view (tr_LTrim R now k 0 n r) = (if live now (view r k) = None then view r
        else put now k (map_option (\<lambda>l. VList (take (nat (n + 1)) l)) (as_list (live now (view r k)))) (view r))) \<and>
     (\<forall>now p r. glob_free p \<longrightarrow> set (tr_Scan R now (p @ ''*'') r) = {k. live now (view r k) \<noteq> None \<and> HasPrefix k p})"

lemma token_commandsD:
  assumes "token_commands R view"
  shows "0 < d \<Longrightarrow> fst (tr_Set R now k v d r)" "0 < d \<Longrightarrow> view (snd (tr_Set R now k v d r)) = (view r)(k \<mapsto> (VStr v, Some (now + d)))"
    and "tr_Get R now k r = as_string (live now (view r k))"
    and "tr_Exists R now k r = Some (if live now (view r k) = None then 0 else 1)"
    and "fst (tr_Del R k r)" "view (snd (tr_Del R k r)) = (view r)(k := None)"
    and "0 < d \<Longrightarrow> view (tr_Expire R now k d r) = (view r)(k := expire now d (view r k))"
    and "fst (tr_HSet R now k f x r) = (as_hash (live now (view r k)) \<noteq> None)"
    and "view (snd (tr_HSet R now k f x r)) = put now k (map_option (\<lambda>h. VHash (h(f \<mapsto> x))) (as_hash (live now (view r k)))) (view r)"
    and "tr_HGetAll R now k r = as_hash (live now (view r k))"
    and "view (tr_SAdd R now k m r) = put now k (map_option (\<lambda>s. VSet (insert m s)) (as_set (live now (view r k)))) (view r)"
    and "view (tr_SRem R now k m r) = (case as_set (live now (view r k)) of
        None \<Rightarrow> view r
      | Some s \<Rightarrow> if s - {m} = {} then (view r)(k := None) else put now k (Some (VSet (s - {m}))) (view r))"
    and "map_option set (tr_SMembers R now k r) = as_set (live now (view r k))"
    and "view (tr_LPush R now k x r) = put now k (map_option (\<lambda>l. VList (x # l)) (as_list (live now (view r k)))) (view r)"
    and "0 \<le> n \<Longrightarrow> view (tr_LTrim R now k 0 n r) = (if live now (view r k) = None then view r
        else put now k (map_option (\<lambda>l. VList (take (nat (n + 1)) l)) (as_list (live now (view r k)))) (view r))"
    and "glob_free p \<Longrightarrow> set (tr_Scan R now (p @ ''*'') r) = {k. live now (view r k) \<noteq> None \<and> HasPrefix k p}"
  using assms unfolding token_commands_def by - (elim conjE, (erule allE)+, (assumption | (erule conjE, assumption) | (erule (1) impE, (assumption | (erule conjE, assumption)))))+


section \<open>The keys of different users\<close>

text \<open>Identifiers with a colon, and the words the keys themselves use, name each other's keys.\<close>

definition plain_id :: "string \<Rightarrow> bool" where
  "plain_id u \<longleftrightarrow> CHR '':'' \<notin> set u \<and> glob_free u \<and> u \<notin> {''active'', ''history'', ''revoked'', ''family''}"

lemma metaKey_collides: "metaKey ''active'' = getActiveTokensKey ''meta''"
  by (simp add: metaKey_def getRefreshTokenKey_def getActiveTokensKey_def)

lemma colon_seg: "CHR '':'' \<notin> set u \<Longrightarrow> takeWhile (\<lambda>c. c \<noteq> CHR '':'') (u @ CHR '':'' # v) = u"
  by (induction u) auto

lemma colon_split: "CHR '':'' \<notin> set u \<Longrightarrow> CHR '':'' \<notin> set u' \<Longrightarrow> u @ CHR '':'' # v = u' @ CHR '':'' # v' \<longleftrightarrow> u = u' \<and> v = v'"
  by (metis colon_seg same_append_eq list.inject)

text \<open>Keys after their common beginning.\<close>

lemma token_keys:
  "getRefreshTokenKey u = ''refresh_token:'' @ u"
  "metaKey u = ''refresh_token:'' @ u @ CHR '':'' # ''meta''"
  "getDeviceTokenKey u d = ''refresh_token:'' @ u @ CHR '':'' # ''device:'' @ d"
  "getActiveTokensKey u = ''refresh_token:'' @ ''active'' @ CHR '':'' # u"
  "historyKey u = ''refresh_token:'' @ ''history'' @ CHR '':'' # u"
  "revocationKey u = ''refresh_token:'' @ ''revoked'' @ CHR '':'' # u"
  "revokedFamilyKey u f = ''refresh_token:'' @ ''family'' @ CHR '':'' # ''revoked:'' @ u @ '':'' @ f"
  by (simp_all add: getRefreshTokenKey_def metaKey_def getDeviceTokenKey_def getActiveTokensKey_def historyKey_def revocationKey_def revokedFamilyKey_def)

text \<open>A key of one of the three kinds a user's token rests on.\<close>

definition core_key :: "string \<Rightarrow> bool" where
  "core_key k \<longleftrightarrow> (\<exists>u. plain_id u \<and> k \<in> {getRefreshTokenKey u, metaKey u, getActiveTokensKey u})"

lemma plain_idD: "plain_id u \<Longrightarrow> CHR '':'' \<notin> set u" "plain_id u \<Longrightarrow> glob_free u"
  "plain_id u \<Longrightarrow> u \<noteq> ''active''" "plain_id u \<Longrightarrow> u \<noteq> ''history''" "plain_id u \<Longrightarrow> u \<noteq> ''revoked''" "plain_id u \<Longrightarrow> u \<noteq> ''family''"
  by (simp_all add: plain_id_def)

lemma no_colon_word: "CHR '':'' \<notin> set ''active''" "CHR '':'' \<notin> set ''history''" "CHR '':'' \<notin> set ''revoked''" "CHR '':'' \<notin> set ''family''"
  by simp_all

lemma main_not_colon: "CHR '':'' \<notin> set u \<Longrightarrow> u \<noteq> v @ CHR '':'' # x"
  by auto

lemma main_keys:
  assumes "plain_id u" and "plain_id u'"
  shows "getRefreshTokenKey u = getRefreshTokenKey u' \<longleftrightarrow> u = u'" "getRefreshTokenKey u \<noteq> metaKey u'" "metaKey u' \<noteq> getRefreshTokenKey u"
    "getRefreshTokenKey u \<noteq> getActiveTokensKey v" "getActiveTokensKey v \<noteq> getRefreshTokenKey u"
    "metaKey u = metaKey u' \<longleftrightarrow> u = u'" "metaKey u \<noteq> getActiveTokensKey v" "getActiveTokensKey v \<noteq> metaKey u"
    "getActiveTokensKey u = getActiveTokensKey v \<longleftrightarrow> u = v"
proof -
  note u = plain_idD [OF assms(1)] and u' = plain_idD [OF assms(2)]
  show "getRefreshTokenKey u = getRefreshTokenKey u' \<longleftrightarrow> u = u'" by (simp add: getRefreshTokenKey_def)
  show a: "getRefreshTokenKey u \<noteq> metaKey u'" unfolding token_keys same_append_eq by (rule main_not_colon [OF u(1)])
  then show "metaKey u' \<noteq> getRefreshTokenKey u" by simp
  show b: "getRefreshTokenKey u \<noteq> getActiveTokensKey v" unfolding token_keys same_append_eq by (rule main_not_colon [OF u(1)])
  then show "getActiveTokensKey v \<noteq> getRefreshTokenKey u" by simp
  show "metaKey u = metaKey u' \<longleftrightarrow> u = u'" unfolding token_keys same_append_eq colon_split [OF u(1) u'(1)] by simp
  show c: "metaKey u \<noteq> getActiveTokensKey v" unfolding token_keys same_append_eq colon_split [OF u(1) no_colon_word(1)] using u(3) by simp
  then show "getActiveTokensKey v \<noteq> metaKey u" by simp
  show "getActiveTokensKey u = getActiveTokensKey v \<longleftrightarrow> u = v" by (simp add: getActiveTokensKey_def)
qed

lemma other_keys:
  assumes "plain_id u"
  shows "\<not> core_key (getDeviceTokenKey u d)" "\<not> core_key (historyKey v)" "\<not> core_key (revocationKey v)" "\<not> core_key (revokedFamilyKey v f)"
proof -
  note u = plain_idD [OF assms]
  have gen: "\<not> core_key (''refresh_token:'' @ x @ CHR '':'' # y)" if x: "CHR '':'' \<notin> set x" "x \<noteq> ''active''" "y \<noteq> ''meta'' \<or> \<not> plain_id x" for x y
    using x colon_split [OF _ x(1)] colon_split [OF x(1) no_colon_word(1)] main_not_colon
    unfolding core_key_def token_keys same_append_eq by (metis (no_types, lifting) empty_iff insert_iff plain_idD(1) same_append_eq)
  show "\<not> core_key (getDeviceTokenKey u d)" unfolding token_keys by (rule gen) (use u in simp_all)
  show "\<not> core_key (historyKey v)" unfolding token_keys by (rule gen) (simp_all add: plain_id_def)
  show "\<not> core_key (revocationKey v)" unfolding token_keys by (rule gen) (simp_all add: plain_id_def)
  show "\<not> core_key (revokedFamilyKey v f)" unfolding token_keys by (rule gen) (simp_all add: plain_id_def)
qed


section \<open>The tokens of all users\<close>

text \<open>
  What the manager promises: of each user the token stored last, until its expiry or its revocation.  A run is a
  list of operations with their instants.
\<close>

datatype token_op =
    OpStore gotime string string enhanced_claims
  | OpRotate gotime string string string enhanced_claims
  | OpRevoke gotime string
  | OpRevokeAll gotime string
  | OpRevokeFamily gotime string string

type_synonym user_tokens = "string \<rightharpoonup> string \<times> gotime"

fun exec_token :: "'r token_redis \<Rightarrow> ((string \<times> string) list \<Rightarrow> (string \<times> string) list) \<Rightarrow> refresh_manager \<Rightarrow> token_op \<Rightarrow> 'r \<Rightarrow> 'r" where
  "exec_token R sh m (OpStore now u tok c) r = snd (StoreRefreshToken R sh m now u tok c r)"
| "exec_token R sh m (OpRotate now u old new c) r = snd (RotateRefreshToken R sh m now u old new c r)"
| "exec_token R sh m (OpRevoke now u) r = snd (RevokeRefreshToken R now u r)"
| "exec_token R sh m (OpRevokeAll now u) r = snd (RevokeAllUserTokens R m now u r)"
| "exec_token R sh m (OpRevokeFamily now u f) r = RevokeFamilyTokens R m now u f r"

fun spec_token :: "refresh_manager \<Rightarrow> token_op \<Rightarrow> user_tokens \<Rightarrow> user_tokens" where
  "spec_token m (OpStore now u tok c) L = L(u \<mapsto> (tok, now + token_lifetime m))"
| "spec_token m (OpRotate now u old new c) L = (if rm_enableRotation m then L(u \<mapsto> (new, now + token_lifetime m)) else L)"
| "spec_token m (OpRevoke now u) L = L(u := None)"
| "spec_token m (OpRevokeAll now u) L = L(u := None)"
| "spec_token m (OpRevokeFamily now u f) L = L"

fun op_user :: "token_op \<Rightarrow> string" where
  "op_user (OpStore now u tok c) = u"
| "op_user (OpRotate now u old new c) = u"
| "op_user (OpRevoke now u) = u"
| "op_user (OpRevokeAll now u) = u"
| "op_user (OpRevokeFamily now u f) = u"

definition dated :: "enhanced_claims \<Rightarrow> bool" where
  "dated c \<longleftrightarrow> ec_IssuedAt c \<noteq> None \<and> ec_ExpiresAt c \<noteq> None"

fun token_op_ok :: "token_op \<Rightarrow> bool" where
  "token_op_ok (OpStore now u tok c) = (plain_id u \<and> dated c)"
| "token_op_ok (OpRotate now u old new c) = (plain_id u \<and> dated c)"
| "token_op_ok op1 = plain_id (op_user op1)"

text \<open>The keys of the users hold what they should: their tokens, hashes of metadata and sets of active tokens.\<close>

definition cell_ok :: "(rvalue \<Rightarrow> bool) \<Rightarrow> (rvalue \<times> gotime option) option \<Rightarrow> bool" where
  "cell_ok P c = (case c of None \<Rightarrow> True | Some (v, _) \<Rightarrow> P v)"

definition is_hash :: "rvalue \<Rightarrow> bool" where "is_hash v = (\<exists>h. v = VHash h)"
definition is_set :: "rvalue \<Rightarrow> bool" where "is_set v = (\<exists>s. v = VSet s)"

definition tokens_inv :: "user_tokens \<Rightarrow> tokens_view \<Rightarrow> bool" where
  "tokens_inv L w \<longleftrightarrow> (\<forall>u. plain_id u \<longrightarrow>
     w (getRefreshTokenKey u) = map_option (\<lambda>(t, e). (VStr t, Some e)) (L u) \<and>
     cell_ok is_hash (w (metaKey u)) \<and> cell_ok is_set (w (getActiveTokensKey u)))"

lemma cell_ok_simps [simp]: "cell_ok P None" "cell_ok P (Some (v, e)) = P v"
  by (simp_all add: cell_ok_def)

lemma cell_ok_live: "cell_ok P c \<Longrightarrow> live now c = Some v \<Longrightarrow> P v"
  by (auto simp: cell_ok_def live_def split: option.splits if_splits)

lemma cell_ok_modify: "P x \<Longrightarrow> cell_ok P (modify now x (\<lambda>_. x) c)"
  by (auto simp: cell_ok_def modify_def split: option.split)

lemma cell_ok_expire: "cell_ok P c \<Longrightarrow> cell_ok P (expire now d c)"
  by (auto simp: expire_def cell_ok_def live_def split: option.splits if_splits)

lemma hash_cell: "cell_ok is_hash c \<Longrightarrow> \<exists>h. as_hash (live now c) = Some h"
  by (cases "live now c") (use cell_ok_live [of is_hash c now] in \<open>auto simp: is_hash_def\<close>)

lemma set_cell: "cell_ok is_set c \<Longrightarrow> \<exists>s. as_set (live now c) = Some s"
  by (cases "live now c") (use cell_ok_live [of is_set c now] in \<open>auto simp: is_set_def\<close>)

lemma tokens_invD:
  assumes "tokens_inv L w" and "plain_id u"
  shows "w (getRefreshTokenKey u) = map_option (\<lambda>(t, e). (VStr t, Some e)) (L u)"
    and "cell_ok is_hash (w (metaKey u))" and "cell_ok is_set (w (getActiveTokensKey u))"
  using assms by (simp_all add: tokens_inv_def)

lemma inv_other: "tokens_inv L w \<Longrightarrow> \<not> core_key k \<Longrightarrow> tokens_inv L (w(k := c))"
  by (auto simp: tokens_inv_def core_key_def)

lemma inv_main: "tokens_inv L w \<Longrightarrow> plain_id u \<Longrightarrow> tokens_inv (L(u := x)) (w(getRefreshTokenKey u := map_option (\<lambda>(t, e). (VStr t, Some e)) x))"
  by (auto simp: tokens_inv_def main_keys)

lemma inv_meta: "tokens_inv L w \<Longrightarrow> plain_id u \<Longrightarrow> cell_ok is_hash c \<Longrightarrow> tokens_inv L (w(metaKey u := c))"
  by (auto simp: tokens_inv_def main_keys)

lemma inv_active: "tokens_inv L w \<Longrightarrow> plain_id u \<Longrightarrow> cell_ok is_set c \<Longrightarrow> tokens_inv L (w(getActiveTokensKey u := c))"
  by (auto simp: tokens_inv_def main_keys)

lemma inv_put: "tokens_inv L w \<Longrightarrow> \<not> core_key k \<Longrightarrow> tokens_inv L (put now k v w)"
  by (auto simp: put_def inv_other split: option.split)

lemma inv_hset_all:
  assumes R: "token_commands R view" and u: "plain_id u"
  shows "tokens_inv L (view r) \<Longrightarrow> \<exists>r1. hset_all R now (metaKey u) fs r = (True, r1) \<and> tokens_inv L (view r1)"
proof (induction fs arbitrary: r)
  case Nil
  then show ?case by simp
next
  case (Cons fv fs)
  obtain f v where [simp]: "fv = (f, v)" by fastforce
  obtain h where h: "as_hash (live now (view r (metaKey u))) = Some h" using hash_cell [OF tokens_invD(2) [OF Cons.prems u]] by blast
  obtain r1 where r1: "tr_HSet R now (metaKey u) f v r = (True, r1)"
    using token_commandsD(8) [OF R, of now "metaKey u" f v r] h by (metis option.distinct(1) prod.collapse)
  have "view r1 = put now (metaKey u) (Some (VHash (h(f \<mapsto> v)))) (view r)"
    using token_commandsD(9) [OF R, of now "metaKey u" f v r] r1 h by simp
  then have "tokens_inv L (view r1)" using inv_meta [OF Cons.prems u] by (simp add: put_def cell_ok_modify is_hash_def)
  then show ?case using Cons.IH [of r1] r1 by simp
qed

lemma inv_sadd:
  assumes R: "token_commands R view" and u: "plain_id u" and inv: "tokens_inv L (view r)"
  shows "tokens_inv L (view (tr_SAdd R now (getActiveTokensKey u) j r))" and "tokens_inv L (view (tr_SRem R now (getActiveTokensKey u) j r))"
proof -
  obtain s where s: "as_set (live now (view r (getActiveTokensKey u))) = Some s" using set_cell [OF tokens_invD(3) [OF inv u]] by blast
  show "tokens_inv L (view (tr_SAdd R now (getActiveTokensKey u) j r))"
    by (simp add: token_commandsD(11) [OF R] s put_def inv_active [OF inv u] cell_ok_modify is_set_def)
  show "tokens_inv L (view (tr_SRem R now (getActiveTokensKey u) j r))"
    by (simp add: token_commandsD(12) [OF R] s put_def inv_active [OF inv u] cell_ok_modify is_set_def)
qed

lemma inv_expire:
  assumes R: "token_commands R view" and u: "plain_id u" and inv: "tokens_inv L (view r)" and d: "0 < d"
  shows "tokens_inv L (view (tr_Expire R now (metaKey u) d r))" and "tokens_inv L (view (tr_Expire R now (getActiveTokensKey u) d r))"
  using tokens_invD [OF inv u]
  by (simp_all add: token_commandsD(7) [OF R d] inv_meta [OF inv u] inv_active [OF inv u] cell_ok_expire)

lemma inv_store:
  assumes R: "token_commands R view" and u: "plain_id u" and inv: "tokens_inv L (view r)" and d: "0 < rm_refreshExpirationMins m" and c: "dated c"
  shows "\<exists>r1. StoreRefreshToken R sh m now u tok c r = (TokenOk, r1) \<and> tokens_inv (L(u \<mapsto> (tok, now + token_lifetime m))) (view r1)"
proof -
  let ?L = "L(u \<mapsto> (tok, now + token_lifetime m))"
  have life: "0 < token_lifetime m" using d by (simp add: token_lifetime_def)
  obtain iat exp where dates: "ec_IssuedAt c = Some iat" "ec_ExpiresAt c = Some exp" using c by (auto simp: dated_def)
  obtain r1 where r1: "tr_Set R now (getRefreshTokenKey u) tok (token_lifetime m) r = (True, r1)"
    using token_commandsD(1) [OF R life] by (metis (full_types) prod.collapse)
  have "view r1 = (view r)(getRefreshTokenKey u \<mapsto> (VStr tok, Some (now + token_lifetime m)))"
    using token_commandsD(2) [OF R life, of now "getRefreshTokenKey u" tok r] r1 by simp
  then have i1: "tokens_inv ?L (view r1)" using inv_main [OF inv u, of "Some (tok, now + token_lifetime m)"] by simp
  obtain r2 where r2: "hset_all R now (metaKey u) (sh (token_data m tok c iat exp)) r1 = (True, r2)" "tokens_inv ?L (view r2)"
    using inv_hset_all [OF R u i1] by blast
  define r5 where "r5 = tr_Expire R now (getActiveTokensKey u) (token_lifetime m) (tr_SAdd R now (getActiveTokensKey u) (ec_JTI c) (tr_Expire R now (metaKey u) (token_lifetime m) r2))"
  have i5: "tokens_inv ?L (view r5)"
    unfolding r5_def by (intro inv_expire(2) [OF R u _ life] inv_sadd(1) [OF R u] inv_expire(1) [OF R u _ life] r2(2))
  have "tokens_inv ?L (view (snd (tr_Set R now (getDeviceTokenKey u (ec_DeviceID c)) tok (token_lifetime m) r5)))"
    unfolding token_commandsD(2) [OF R life] by (rule inv_other [OF i5 other_keys(1) [OF u]])
  then show ?thesis using i5 by (simp add: StoreRefreshToken_def dates r1 r2(1) Let_def flip: r5_def)
qed

lemma del_ok: "token_commands R view \<Longrightarrow> \<exists>r1. tr_Del R k r = (True, r1) \<and> view r1 = (view r)(k := None)"
  using token_commandsD(5,6) [of R view k r] by (metis (full_types) prod.collapse)

lemma inv_revoke:
  assumes R: "token_commands R view" and u: "plain_id u" and inv: "tokens_inv L (view r)"
  shows "\<exists>r1. RevokeRefreshToken R now u r = (TokenOk, r1) \<and> tokens_inv (L(u := None)) (view r1)"
proof -
  obtain meta where meta: "tr_HGetAll R now (metaKey u) r = Some meta"
    using hash_cell [OF tokens_invD(2) [OF inv u]] by (auto simp: token_commandsD(10) [OF R])
  obtain r1 where r1: "tr_Del R (getRefreshTokenKey u) r = (True, r1)" "view r1 = (view r)(getRefreshTokenKey u := None)" using del_ok [OF R] by blast
  obtain r2 where r2: "tr_Del R (metaKey u) r1 = (True, r2)" "view r2 = (view r1)(metaKey u := None)" using del_ok [OF R] by blast
  have "tokens_inv (L(u := None)) (view r1)" using inv_main [OF inv u, of None] by (simp add: r1(2))
  then have i2: "tokens_inv (L(u := None)) (view r2)" using inv_meta [OF _ u] by (simp add: r2(2))
  define r3 where "r3 = (if field meta ''jti'' \<noteq> [] then tr_SRem R now (getActiveTokensKey u) (field meta ''jti'') r2 else r2)"
  have i3: "tokens_inv (L(u := None)) (view r3)" unfolding r3_def by (simp only: i2 inv_sadd(2) [OF R u i2] simp_thms split: if_split)
  have "tokens_inv (L(u := None)) (view (snd (tr_Del R (getDeviceTokenKey u d) r3)))" for d
    unfolding token_commandsD(6) [OF R] by (rule inv_other [OF i3 other_keys(1) [OF u]])
  then show ?thesis using i3 by (simp add: RevokeRefreshToken_def meta r1(1) r2(1) Let_def flip: r3_def)
qed

lemma inv_del_all:
  assumes "token_commands R view"
  shows "tokens_inv L (view r) \<Longrightarrow> (\<And>k. k \<in> set ks \<Longrightarrow> \<not> core_key k) \<Longrightarrow> tokens_inv L (view (fold (\<lambda>k r. snd (tr_Del R k r)) ks r))"
  by (induction ks arbitrary: r) (simp_all add: token_commandsD(6) [OF assms] inv_other)

lemma device_scan:
  assumes "token_commands R view" and "plain_id u" and "k \<in> set (tr_Scan R now (getDeviceTokenKey u ''*'') r)"
  shows "\<not> core_key k"
proof -
  have glob: "glob_free (getDeviceTokenKey u [])" using plain_idD(2) [OF assms(2)] by (simp add: glob_free_def getDeviceTokenKey_def)
  have "getDeviceTokenKey u ''*'' = getDeviceTokenKey u [] @ ''*''" by (simp add: getDeviceTokenKey_def)
  then have "HasPrefix k (getDeviceTokenKey u [])" using token_commandsD(16) [OF assms(1) glob, of now r] assms(3) by simp
  then have "k = getDeviceTokenKey u [] @ drop (length (getDeviceTokenKey u [])) k" unfolding HasPrefix_def by (metis append_take_drop_id)
  then have "\<exists>d. k = getDeviceTokenKey u d" by (auto simp: getDeviceTokenKey_def)
  then show ?thesis using other_keys(1) [OF assms(2)] by blast
qed


lemma inv_revoke_all:
  assumes R: "token_commands R view" and u: "plain_id u" and inv: "tokens_inv L (view r)" and d: "0 < rm_refreshExpirationMins m"
  shows "\<exists>r1. RevokeAllUserTokens R m now u r = (TokenOk, r1) \<and> tokens_inv (L(u := None)) (view r1)"
proof -
  have life: "0 < token_lifetime m" using d by (simp add: token_lifetime_def)
  have "map_option set (tr_SMembers R now (getActiveTokensKey u) r) \<noteq> None"
    using set_cell [OF tokens_invD(3) [OF inv u]] by (auto simp: token_commandsD(13) [OF R])
  then have members: "tr_SMembers R now (getActiveTokensKey u) r \<noteq> None" by simp
  obtain r1 where r1: "RevokeRefreshToken R now u r = (TokenOk, r1)" "tokens_inv (L(u := None)) (view r1)" using inv_revoke [OF R u inv] by blast
  define r2 where "r2 = fold (\<lambda>k r. snd (tr_Del R k r)) (tr_Scan R now (getDeviceTokenKey u ''*'') r1) r1"
  have i2: "tokens_inv (L(u := None)) (view r2)" unfolding r2_def by (rule inv_del_all [OF R r1(2)]) (rule device_scan [OF R u])
  define r3 where "r3 = snd (tr_Del R (getActiveTokensKey u) r2)"
  have i3: "tokens_inv (L(u := None)) (view r3)" unfolding r3_def token_commandsD(6) [OF R] by (rule inv_active [OF i2 u]) simp
  have "tokens_inv (L(u := None)) (view (snd (tr_Set R now (revocationKey u) (dec_of_int (now div second)) (token_lifetime m) r3)))"
    unfolding token_commandsD(2) [OF R life] by (rule inv_other [OF i3 other_keys(3) [OF u]])
  then show ?thesis using members by (simp add: RevokeAllUserTokens_def r1(1) Let_def flip: r2_def r3_def)
qed

lemma inv_list:
  assumes R: "token_commands R view" and u: "plain_id u" and inv: "tokens_inv L (view r)" and d: "0 < d"
  shows "tokens_inv L (view (tr_Expire R now (historyKey u) d (tr_LTrim R now (historyKey u) 0 9 (tr_LPush R now (historyKey u) x r))))"
proof -
  let ?r1 = "tr_LPush R now (historyKey u) x r"
  let ?r2 = "tr_LTrim R now (historyKey u) 0 9 ?r1"
  have i1: "tokens_inv L (view ?r1)" unfolding token_commandsD(14) [OF R] by (rule inv_put [OF inv other_keys(2) [OF u]])
  have i2: "tokens_inv L (view ?r2)" using i1 inv_put [OF i1 other_keys(2) [OF u]] by (simp add: token_commandsD(15) [OF R])
  show ?thesis unfolding token_commandsD(7) [OF R d] by (rule inv_other [OF i2 other_keys(2) [OF u]])
qed

lemma inv_rotate:
  assumes R: "token_commands R view" and u: "plain_id u" and inv: "tokens_inv L (view r)" and d: "0 < rm_refreshExpirationMins m" and c: "dated c"
    and on: "rm_enableRotation m"
  shows "\<exists>r1. RotateRefreshToken R sh m now u old new c r = (TokenOk, r1) \<and> tokens_inv (L(u \<mapsto> (new, now + token_lifetime m))) (view r1)"
proof -
  have life: "0 < token_lifetime m" using d by (simp add: token_lifetime_def)
  obtain meta where meta: "tr_HGetAll R now (metaKey u) r = Some meta"
    using hash_cell [OF tokens_invD(2) [OF inv u]] by (auto simp: token_commandsD(10) [OF R])
  obtain r1 where r1: "RevokeRefreshToken R now u r = (TokenOk, r1)" "tokens_inv (L(u := None)) (view r1)" using inv_revoke [OF R u inv] by blast
  define c1 where "c1 = (if rm_tokenFamily m \<and> field meta ''family_id'' \<noteq> [] then c\<lparr>ec_SessionID := field meta ''family_id''\<rparr> else c)"
  have "dated c1" using c by (simp add: c1_def dated_def)
  from inv_store [OF R u r1(2) d this, of sh now new]
  obtain r2 where r2: "StoreRefreshToken R sh m now u new c1 r1 = (TokenOk, r2)" "tokens_inv (L(u \<mapsto> (new, now + token_lifetime m))) (view r2)"
    unfolding fun_upd_upd by blast
  show ?thesis
    by (simp add: RotateRefreshToken_def on meta r1(1) r2(1) Let_def flip: c1_def) (rule inv_list [OF R u r2(2) life])
qed

lemma rotation_off: "\<not> rm_enableRotation m \<Longrightarrow> snd (RotateRefreshToken R sh m now u old new c r) = r"
  by (simp add: RotateRefreshToken_def split: sum.split)

lemma inv_exec:
  assumes R: "token_commands R view" and d: "0 < rm_refreshExpirationMins m"
  shows "token_op_ok op1 \<Longrightarrow> tokens_inv L (view r) \<Longrightarrow> tokens_inv (spec_token m op1 L) (view (exec_token R sh m op1 r))"
proof (induction op1)
  case (OpStore now u tok c)
  then show ?case using inv_store [OF R _ _ d, of u L r c sh now tok] by (auto simp: fun_upd_def)
next
  case (OpRotate now u old new c)
  then show ?case
    using inv_rotate [OF R _ _ d, of u L r c sh now old new] rotation_off [of m R sh now u old new c r]
    by (cases "rm_enableRotation m") (auto simp: fun_upd_def)
next
  case (OpRevoke now u)
  then show ?case using inv_revoke [OF R, of u L r now] by (auto simp: fun_upd_def)
next
  case (OpRevokeAll now u)
  then show ?case using inv_revoke_all [OF R _ _ d, of u L r now] by (auto simp: fun_upd_def)
next
  case (OpRevokeFamily now u f)
  have life: "0 < token_lifetime m" using d by (simp add: token_lifetime_def)
  have "tokens_inv L (view (snd (tr_Set R now (revokedFamilyKey u f) x (token_lifetime m) r)))" for x
    unfolding token_commandsD(2) [OF R life] using OpRevokeFamily by (intro inv_other other_keys(4) [of u]) simp_all
  then show ?case using OpRevokeFamily by (simp add: RevokeFamilyTokens_def)
qed

lemma inv_run:
  assumes R: "token_commands R view" and d: "0 < rm_refreshExpirationMins m"
  shows "list_all token_op_ok ops \<Longrightarrow> tokens_inv L (view r) \<Longrightarrow> tokens_inv (fold (spec_token m) ops L) (view (fold (exec_token R sh m) ops r))"
  by (induction ops arbitrary: L r) (simp_all add: inv_exec [OF R d])

text \<open>
  C26: after any operations, in any order and at any instants, a token validates for a user if and only if it is the one
  stored last for that user, by storing or rotating, not revoked since and not expired.  Revoking a family revokes nothing,
  and a rotation asks nothing of the old token.
\<close>
theorem refresh_tokens_refine:
  assumes "token_commands R view" and "0 < rm_refreshExpirationMins m" and "view r = Map.empty" and "list_all token_op_ok ops" and "plain_id u"
  shows "rm_ValidateRefreshToken R t u tok (fold (exec_token R sh m) ops r) =
    Inr (\<exists>e. fold (spec_token m) ops Map.empty u = Some (tok, e) \<and> t < e)"
proof -
  have "tokens_inv Map.empty (view r)" by (simp add: tokens_inv_def assms(3))
  from inv_run [OF assms(1,2,4) this, of sh]
  have "tokens_inv (fold (spec_token m) ops Map.empty) (view (fold (exec_token R sh m) ops r))" .
  from tokens_invD(1) [OF this assms(5)] show ?thesis
    by (cases "fold (spec_token m) ops Map.empty u") (auto simp: rm_ValidateRefreshToken_def token_commandsD(3) [OF assms(1)] live_Some)
qed


section \<open>A server in memory\<close>

datatype mval = MStr string | MHash "string \<rightharpoonup> string" | MSet "string list" | MList "string list"

type_synonym mem_tokens = "(string \<times> mval \<times> gotime option) list"

fun mval_view :: "mval \<Rightarrow> rvalue" where
  "mval_view (MStr s) = VStr s"
| "mval_view (MHash h) = VHash h"
| "mval_view (MSet xs) = VSet (set xs)"
| "mval_view (MList xs) = VList xs"

definition mem_tokens_view :: "mem_tokens \<Rightarrow> tokens_view" where
  "mem_tokens_view s k = map_option (\<lambda>(v, e). (mval_view v, e)) (map_of s k)"

definition mem_del :: "string \<Rightarrow> mem_tokens \<Rightarrow> mem_tokens" where
  "mem_del k s = filter (\<lambda>(k', c). k' \<noteq> k) s"

definition mem_put :: "gotime \<Rightarrow> string \<Rightarrow> mval option \<Rightarrow> mem_tokens \<Rightarrow> mem_tokens" where
  "mem_put now k v s = (case v of None \<Rightarrow> s | Some x \<Rightarrow> (k, the (modify now x (\<lambda>_. x) (map_of s k))) # s)"

definition mem_live :: "gotime \<Rightarrow> string \<Rightarrow> mem_tokens \<Rightarrow> mval option" where
  "mem_live now k s = live now (map_of s k)"

definition mem_hash :: "mval option \<Rightarrow> (string \<rightharpoonup> string) option" where
  "mem_hash v = (case v of None \<Rightarrow> Some Map.empty | Some (MHash h) \<Rightarrow> Some h | _ \<Rightarrow> None)"

definition mem_set :: "mval option \<Rightarrow> string list option" where
  "mem_set v = (case v of None \<Rightarrow> Some [] | Some (MSet xs) \<Rightarrow> Some xs | _ \<Rightarrow> None)"

definition mem_list :: "mval option \<Rightarrow> string list option" where
  "mem_list v = (case v of None \<Rightarrow> Some [] | Some (MList xs) \<Rightarrow> Some xs | _ \<Rightarrow> None)"

definition memory_tokens :: "mem_tokens token_redis" where
  "memory_tokens = \<lparr>
     tr_Set = (\<lambda>now k v d s. (True, (k, MStr v, Some (now + d)) # s)),
     tr_Get = (\<lambda>now k s. case mem_live now k s of None \<Rightarrow> Nil_reply | Some (MStr v) \<Rightarrow> Got v | _ \<Rightarrow> Failed),
     tr_Exists = (\<lambda>now k s. Some (if mem_live now k s = None then 0 else 1)),
     tr_Del = (\<lambda>k s. (True, mem_del k s)),
     tr_Expire = (\<lambda>now k d s. case mem_live now k s of None \<Rightarrow> mem_del k s | Some v \<Rightarrow> (k, v, Some (now + d)) # s),
     tr_HSet = (\<lambda>now k f x s. case mem_hash (mem_live now k s) of None \<Rightarrow> (False, s) | Some h \<Rightarrow> (True, mem_put now k (Some (MHash (h(f \<mapsto> x)))) s)),
     tr_HGetAll = (\<lambda>now k s. mem_hash (mem_live now k s)),
     tr_SAdd = (\<lambda>now k m s. mem_put now k (map_option (\<lambda>xs. MSet (m # xs)) (mem_set (mem_live now k s))) s),
     tr_SRem = (\<lambda>now k m s. case mem_set (mem_live now k s) of
        None \<Rightarrow> s
      | Some xs \<Rightarrow> if removeAll m xs = [] then mem_del k s else mem_put now k (Some (MSet (removeAll m xs))) s),
     tr_SMembers = (\<lambda>now k s. mem_set (mem_live now k s)),
     tr_LPush = (\<lambda>now k x s. mem_put now k (map_option (\<lambda>l. MList (x # l)) (mem_list (mem_live now k s))) s),
     tr_LTrim = (\<lambda>now k a n s. if mem_live now k s = None then s else mem_put now k (map_option (\<lambda>l. MList (take (nat (n + 1)) l)) (mem_list (mem_live now k s))) s),
     tr_Scan = (\<lambda>now p s. filter (\<lambda>k. mem_live now k s \<noteq> None \<and> HasPrefix k (butlast p)) (map fst s))\<rparr>"

lemma mem_view_live: "live now (mem_tokens_view s k) = map_option mval_view (mem_live now k s)"
  by (auto simp: mem_tokens_view_def mem_live_def live_def split: option.split)

lemma mem_view_del: "mem_tokens_view (mem_del k s) = (mem_tokens_view s)(k := None)"
proof
  fix k'
  have "map_of (filter (\<lambda>(k', c). k' \<noteq> k) s) k' = (if k' = k then None else map_of s k')"
    by (induction s) auto
  then show "mem_tokens_view (mem_del k s) k' = ((mem_tokens_view s)(k := None)) k'" by (simp add: mem_tokens_view_def mem_del_def)
qed

lemma mem_view_cons: "mem_tokens_view ((k, v, e) # s) = (mem_tokens_view s)(k \<mapsto> (mval_view v, e))"
  by (auto simp: mem_tokens_view_def)

lemma mem_view_put: "mem_tokens_view (mem_put now k v s) = put now k (map_option mval_view v) (mem_tokens_view s)"
proof (cases v)
  case None
  then show ?thesis by (simp add: mem_put_def put_def)
next
  case (Some x)
  have "live now (map_of s k) = None \<longleftrightarrow> live now (mem_tokens_view s k) = None" by (simp add: mem_view_live mem_live_def)
  then have "map_option (\<lambda>(v, e). (mval_view v, e)) (modify now x (\<lambda>_. x) (map_of s k)) = modify now (mval_view x) (\<lambda>_. mval_view x) (mem_tokens_view s k)"
    by (auto simp: modify_def mem_tokens_view_def option.map_comp comp_def split_def)
  moreover have "modify now x (\<lambda>_. x) (map_of s k) \<noteq> None" by (cases "map_of s k") (auto simp: modify_def)
  ultimately show ?thesis using Some by (auto simp: mem_put_def put_def mem_tokens_view_def fun_eq_iff)
qed

lemma mem_typed:
  "as_hash (map_option mval_view v) = mem_hash v" "as_set (map_option mval_view v) = map_option set (mem_set v)"
  "as_list (map_option mval_view v) = mem_list v"
proof -
  have "as_hash (map_option mval_view v) = mem_hash v \<and> as_set (map_option mval_view v) = map_option set (mem_set v) \<and>
      as_list (map_option mval_view v) = mem_list v"
  proof (cases v)
    case None
    then show ?thesis by (simp add: mem_hash_def mem_set_def mem_list_def)
  next
    case (Some x)
    then show ?thesis by (cases x) (simp_all add: mem_hash_def mem_set_def mem_list_def)
  qed
  then show "as_hash (map_option mval_view v) = mem_hash v" "as_set (map_option mval_view v) = map_option set (mem_set v)"
    "as_list (map_option mval_view v) = mem_list v" by simp_all
qed

lemma mem_string: "as_string (map_option mval_view v) = (case v of None \<Rightarrow> Nil_reply | Some (MStr x) \<Rightarrow> Got x | _ \<Rightarrow> Failed)"
proof (cases v)
  case (Some x)
  then show ?thesis by (cases x) simp_all
qed simp

lemma memory_tokens_ok: "token_commands memory_tokens mem_tokens_view"
  unfolding token_commands_def
proof (intro conjI allI impI)
  fix now k d r
  show "mem_tokens_view (tr_Expire memory_tokens now k d r) = (mem_tokens_view r)(k := expire now d (mem_tokens_view r k))"
    by (simp add: memory_tokens_def mem_view_live expire_def mem_view_del mem_view_cons split: option.split)
next
  fix now k f x r
  show "mem_tokens_view (snd (tr_HSet memory_tokens now k f x r)) =
      put now k (map_option (\<lambda>h. VHash (h(f \<mapsto> x))) (as_hash (live now (mem_tokens_view r k)))) (mem_tokens_view r)"
    by (simp add: memory_tokens_def mem_view_live mem_typed mem_view_put split: option.split) (simp add: put_def)
next
  fix now k m r
  show "mem_tokens_view (tr_SAdd memory_tokens now k m r) =
      put now k (map_option (\<lambda>s. VSet (insert m s)) (as_set (live now (mem_tokens_view r k)))) (mem_tokens_view r)"
    by (simp add: memory_tokens_def mem_view_live mem_typed mem_view_put option.map_comp comp_def)
next
  fix now k r and m :: string
  have "removeAll m xs = [] \<longleftrightarrow> set xs - {m} = {}" for xs :: "string list" by (metis set_empty set_removeAll)
  then show "mem_tokens_view (tr_SRem memory_tokens now k m r) = (case as_set (live now (mem_tokens_view r k)) of
        None \<Rightarrow> mem_tokens_view r
      | Some s \<Rightarrow> if s - {m} = {} then (mem_tokens_view r)(k := None) else put now k (Some (VSet (s - {m}))) (mem_tokens_view r))"
    by (simp add: memory_tokens_def mem_view_live mem_typed mem_view_put mem_view_del split: option.split)
next
  fix now k x r
  show "mem_tokens_view (tr_LPush memory_tokens now k x r) =
      put now k (map_option (\<lambda>l. VList (x # l)) (as_list (live now (mem_tokens_view r k)))) (mem_tokens_view r)"
    by (simp add: memory_tokens_def mem_view_live mem_typed mem_view_put option.map_comp comp_def)
next
  fix now k r and n :: int
  show "mem_tokens_view (tr_LTrim memory_tokens now k 0 n r) = (if live now (mem_tokens_view r k) = None then mem_tokens_view r
        else put now k (map_option (\<lambda>l. VList (take (nat (n + 1)) l)) (as_list (live now (mem_tokens_view r k)))) (mem_tokens_view r))"
    by (simp add: memory_tokens_def mem_view_live mem_typed mem_view_put option.map_comp comp_def)
next
  fix now p r
  have "k \<in> fst ` set r" if "live now (mem_tokens_view r k) \<noteq> None" for k
    using that by (cases "map_of r k") (auto simp: mem_tokens_view_def dest: map_of_SomeD intro: rev_image_eqI)
  then show "set (tr_Scan memory_tokens now (p @ ''*'') r) = {k. live now (mem_tokens_view r k) \<noteq> None \<and> HasPrefix k p}"
    by (auto simp: memory_tokens_def mem_view_live)
qed (simp_all add: memory_tokens_def mem_view_live mem_typed mem_string mem_view_cons mem_view_del split: option.split)

definition day_claims :: enhanced_claims where
  "day_claims = sample_claims 7 RefreshTokenType"

text \<open>A rotated token is no longer valid, its successor is until an hour has passed, and another user's is not touched.\<close>

definition token_run :: "token_op list" where
  "token_run = [OpStore 0 ''ann'' ''t1'' day_claims, OpStore 1 ''bob'' ''t2'' day_claims, OpRotate 2 ''ann'' ''t1'' ''t3'' day_claims, OpRevokeFamily 3 ''ann'' ''s'']"

lemma token_run_ok: "list_all token_op_ok token_run" "plain_id ''ann''"
  by (simp_all add: token_run_def plain_id_def glob_free_def dated_def day_claims_def sample_claims_def token_claims_def)

lemma refresh_tokens_refine_witness:
  "map (\<lambda>tok. rm_ValidateRefreshToken memory_tokens 10 ''ann'' tok
      (fold (exec_token memory_tokens (\<lambda>fs. fs) (NewRefreshTokenManager 60 True)) token_run [])) [''t1'', ''t3''] = [Inr False, Inr True]"
proof -
  have "rm_ValidateRefreshToken memory_tokens 10 ''ann'' tok (fold (exec_token memory_tokens (\<lambda>fs. fs) (NewRefreshTokenManager 60 True)) token_run []) =
      Inr (\<exists>e. fold (spec_token (NewRefreshTokenManager 60 True)) token_run Map.empty ''ann'' = Some (tok, e) \<and> 10 < e)" for tok
    by (rule refresh_tokens_refine [OF memory_tokens_ok _ _ token_run_ok]) (simp_all add: NewRefreshTokenManager_def mem_tokens_view_def fun_eq_iff)
  then show ?thesis by (simp add: token_run_def NewRefreshTokenManager_def token_lifetime_def)
qed




end
