(* ===== verification/Pagination.thy ===== *)
theory Pagination
  imports GoText
begin

text \<open>
  Parameters of a listing request and the pages of a result (src/utils/pagination.go).  \<open>int\<close> and \<open>int64\<close> have 64 bits;
  a query gives the values of each parameter in order.
\<close>

section \<open>Machine integers\<close>

text \<open>Division cuts towards zero.\<close>

definition go_quot :: "int \<Rightarrow> int \<Rightarrow> int" where
  "go_quot a b = sgn a * sgn b * (\<bar>a\<bar> div \<bar>b\<bar>)"

lemma go_quot_nonneg: "0 \<le> a \<Longrightarrow> 0 < b \<Longrightarrow> go_quot a b = a div b"
  by (cases "a = 0") (simp_all add: go_quot_def)

section \<open>Parameters\<close>

type_synonym query = "string \<Rightarrow> string list"

definition Query :: "query \<Rightarrow> string \<Rightarrow> string" where
  "Query q k = (case q k of [] \<Rightarrow> [] | v # _ \<Rightarrow> v)"

definition getIntParam :: "query \<Rightarrow> string \<Rightarrow> int \<Rightarrow> int" where
  "getIntParam q k d = (if Query q k = [] then d else case Atoi (Query q k) of None \<Rightarrow> d | Some i \<Rightarrow> i)"

record page_params =
  pp_Page :: int
  pp_PerPage :: int
  pp_Offset :: int

definition GetPaginationParams :: "query \<Rightarrow> page_params" where
  "GetPaginationParams q =
     (let page = getIntParam q ''page'' 1;
          perPage = getIntParam q ''per_page'' 10;
          offset = getIntParam q ''offset'' 0;
          page1 = (if page < 1 then 1 else page);
          perPage1 = (if perPage < 1 then 10 else perPage);
          perPage2 = (if perPage1 > 100 then 100 else perPage1);
          offset1 = (if offset < 0 then 0 else offset);
          offset2 = (if offset1 = 0 then wrap64 (wrap64 (page1 - 1) * perPage2) else offset1)
      in \<lparr>pp_Page = page1, pp_PerPage = perPage2, pp_Offset = offset2\<rparr>)"

definition GetPaginationParamsWithDefaults :: "query \<Rightarrow> int \<Rightarrow> int \<Rightarrow> int \<Rightarrow> page_params" where
  "GetPaginationParamsWithDefaults q defaultPage defaultPerPage maxPerPage =
     (let page = getIntParam q ''page'' defaultPage;
          perPage = getIntParam q ''per_page'' defaultPerPage;
          offset = getIntParam q ''offset'' 0;
          page1 = (if page < 1 then defaultPage else page);
          perPage1 = (if perPage < 1 then defaultPerPage else perPage);
          perPage2 = (if perPage1 > maxPerPage then maxPerPage else perPage1);
          offset1 = (if offset < 0 then 0 else offset);
          offset2 = (if offset1 = 0 then wrap64 (wrap64 (page1 - 1) * perPage2) else offset1)
      in \<lparr>pp_Page = page1, pp_PerPage = perPage2, pp_Offset = offset2\<rparr>)"

record page_result =
  pr_Page :: int
  pr_PerPage :: int
  pr_Total :: int
  pr_TotalPages :: int
  pr_HasNext :: bool
  pr_HasPrev :: bool
  pr_Offset :: int

definition CalculatePagination :: "int \<Rightarrow> int \<Rightarrow> int \<Rightarrow> page_result" where
  "CalculatePagination page perPage items =
     (let page1 = (if page < 1 then 1 else page);
          perPage1 = (if perPage < 1 then 10 else perPage);
          pages = wrap64 (go_quot (wrap64 (wrap64 (items + perPage1) - 1)) perPage1);
          pages1 = (if pages < 1 then 1 else pages);
          offset = wrap64 (wrap64 (page1 - 1) * perPage1)
      in \<lparr>pr_Page = page1, pr_PerPage = perPage1, pr_Total = items, pr_TotalPages = pages1,
          pr_HasNext = (page1 < pages1), pr_HasPrev = (page1 > 1), pr_Offset = offset\<rparr>)"

record offset_page =
  op_Offset :: int
  op_Limit :: int

definition limit_param :: "query \<Rightarrow> int" where
  "limit_param q =
     (let limit = getIntParam q ''limit'' 10;
          limit1 = (if limit < 1 then 10 else limit)
      in if limit1 > 100 then 100 else limit1)"

definition GetOffsetPagination :: "query \<Rightarrow> offset_page" where
  "GetOffsetPagination q =
     (let offset = getIntParam q ''offset'' 0
      in \<lparr>op_Offset = (if offset < 0 then 0 else offset), op_Limit = limit_param q\<rparr>)"

record cursor_page =
  cu_After :: string
  cu_Before :: string
  cu_Limit :: int

definition GetCursorPagination :: "query \<Rightarrow> cursor_page" where
  "GetCursorPagination q = \<lparr>cu_After = Query q ''after'', cu_Before = Query q ''before'', cu_Limit = limit_param q\<rparr>"

record sort_params =
  so_Field :: string
  so_Order :: string

definition GetSortParams :: "query \<Rightarrow> string \<Rightarrow> string \<Rightarrow> sort_params" where
  "GetSortParams q defaultField defaultOrder =
     \<lparr>so_Field = (if Query q ''sort'' = [] then defaultField else Query q ''sort''),
      so_Order = (if Query q ''order'' \<noteq> ''asc'' \<and> Query q ''order'' \<noteq> ''desc'' then defaultOrder else Query q ''order'')\<rparr>"

text \<open>The index into an empty field panics: \<open>None\<close>.\<close>

fun sort_field :: "string \<Rightarrow> sort_params option" where
  "sort_field [] = None"
| "sort_field (c # cs) = Some (if c = CHR ''-'' then \<lparr>so_Field = cs, so_Order = ''desc''\<rparr> else \<lparr>so_Field = c # cs, so_Order = ''asc''\<rparr>)"

fun sort_fields :: "string list \<Rightarrow> sort_params list option" where
  "sort_fields [] = Some []"
| "sort_fields (f # fs) = (case sort_field f of
      None \<Rightarrow> None
    | Some s \<Rightarrow> map_option (\<lambda>ss. s # ss) (sort_fields fs))"

definition GetMultipleSortParams :: "query \<Rightarrow> sort_params list \<Rightarrow> sort_params list option" where
  "GetMultipleSortParams q defaults = (if q ''sort'' = [] then Some defaults else sort_fields (q ''sort''))"

definition GetFilterParams :: "query \<Rightarrow> string list \<Rightarrow> (string \<rightharpoonup> string)" where
  "GetFilterParams q allowed = fold (\<lambda>f m. if Query q f \<noteq> [] then m(f \<mapsto> Query q f) else m) allowed Map.empty"

record search_params =
  se_Query :: string
  se_Fields :: "string list"

definition GetSearchParams :: "query \<Rightarrow> string list \<Rightarrow> search_params" where
  "GetSearchParams q defaults =
     \<lparr>se_Query = (if Query q ''q'' = [] then Query q ''search'' else Query q ''q''),
      se_Fields = (if q ''fields'' = [] then defaults else q ''fields'')\<rparr>"

section \<open>Bounds\<close>

lemma getIntParam_range: "int64 d \<Longrightarrow> int64 (getIntParam q k d)"
  by (auto simp: getIntParam_def int64_def Atoi_def Let_def split: option.split if_splits list.splits)

text \<open>
  whatever the query, the page is at least one and a page has between one and a hundred items; without an offset the
  listing starts where the page does, except that the product wraps for pages past the ninety-two quadrillionth.
\<close>
theorem page_params_bounds:
  "let p = GetPaginationParams q in 1 \<le> pp_Page p \<and> 1 \<le> pp_PerPage p \<and> pp_PerPage p \<le> 100 \<and> int64 (pp_Offset p) \<and>
    (getIntParam q ''offset'' 0 > 0 \<longrightarrow> pp_Offset p = getIntParam q ''offset'' 0) \<and>
    (getIntParam q ''offset'' 0 \<le> 0 \<and> pp_Page p \<le> 92233720368547758 \<longrightarrow> pp_Offset p = (pp_Page p - 1) * pp_PerPage p \<and> 0 \<le> pp_Offset p)"
proof -
  define p where "p = GetPaginationParams q"
  define o1 where "o1 = getIntParam q ''offset'' 0"
  have pg: "1 \<le> pp_Page p" "1 \<le> pp_PerPage p" "pp_PerPage p \<le> 100" by (simp_all add: p_def GetPaginationParams_def Let_def)
  have off: "pp_Offset p = (if o1 > 0 then o1 else wrap64 (wrap64 (pp_Page p - 1) * pp_PerPage p))"
    by (auto simp: p_def o1_def GetPaginationParams_def Let_def)
  have "int64 o1" unfolding o1_def by (rule getIntParam_range) (simp add: int64_def)
  then have range: "int64 (pp_Offset p)" by (simp add: off wrap64_in)
  have "pp_Offset p = (pp_Page p - 1) * pp_PerPage p \<and> 0 \<le> pp_Offset p" if small: "o1 \<le> 0" "pp_Page p \<le> 92233720368547758"
  proof -
    have "(pp_Page p - 1) * pp_PerPage p \<le> 92233720368547757 * 100" using pg small(2) by (intro mult_mono) simp_all
    moreover have "0 \<le> (pp_Page p - 1) * pp_PerPage p" using pg by (intro mult_nonneg_nonneg) simp_all
    moreover have "wrap64 (pp_Page p - 1) = pp_Page p - 1" using pg small(2) by (intro wrap64_id) (simp add: int64_def)
    ultimately show ?thesis using small(1) by (simp add: off wrap64_id int64_def)
  qed
  then show ?thesis using pg range off by (simp add: Let_def flip: p_def o1_def)
qed

lemma div_window:
  fixes i :: int
  assumes p: "0 < p"
  shows "i div p = k \<longleftrightarrow> k * p \<le> i \<and> i < k * p + p"
proof
  assume "i div p = k"
  have "i div p * p + i mod p = i" by (rule div_mult_mod_eq)
  moreover have "0 \<le> i mod p" "i mod p < p" using p by simp_all
  ultimately show "k * p \<le> i \<and> i < k * p + p" unfolding \<open>i div p = k\<close> by linarith
next
  assume "k * p \<le> i \<and> i < k * p + p"
  then show "i div p = k" by (intro int_div_pos_eq [where r = "i - k * p"]) (simp_all add: mult.commute p)
qed

text \<open>
  the pages of a result partition it: an item is on the page its index gives, that page is one of the pages there are,
  a next page is announced exactly when there are items beyond this one, and every page but a first empty one has items.
\<close>
theorem pages_partition:
  assumes "1 \<le> page" and "1 \<le> perPage" and "0 \<le> items" and "items + perPage \<le> 2 ^ 63" and "(page - 1) * perPage < 2 ^ 63"
    and "page < 2 ^ 63" and "perPage < 2 ^ 63"
  shows "let r = CalculatePagination page perPage items in
    pr_Offset r = (page - 1) * perPage \<and> pr_HasNext r = (page * perPage < items) \<and> pr_HasPrev r = (1 < page) \<and>
    (\<forall>i. 0 \<le> i \<and> i < items \<longrightarrow> i div perPage + 1 \<le> pr_TotalPages r \<and>
       (pr_Offset r \<le> i \<and> i < pr_Offset r + perPage \<longleftrightarrow> page = i div perPage + 1)) \<and>
    (0 < items \<longrightarrow> (pr_TotalPages r - 1) * perPage < items)"
proof -
  define n where "n = (items + perPage - 1) div perPage"
  have m: "n * perPage + (items + perPage - 1) mod perPage = items + perPage - 1" by (simp add: n_def)
  have "0 \<le> (items + perPage - 1) mod perPage" "(items + perPage - 1) mod perPage < perPage" using assms(2) by simp_all
  then have n: "(n - 1) * perPage < items" "items \<le> n * perPage" using m by (simp_all add: left_diff_distrib)
  have n0: "0 \<le> n" using assms(2,3) by (simp add: n_def pos_imp_zdiv_nonneg_iff)
  have lt: "x < y \<longleftrightarrow> x * perPage < y * perPage" for x y using assms(2) by simp
  have "n \<le> items + perPage - 1" using mult_left_mono [of 1 perPage n] n0 assms(2) m \<open>0 \<le> (items + perPage - 1) mod perPage\<close> by linarith
  then have w: "wrap64 n = n" using n0 assms(4) by (intro wrap64_id) (simp add: int64_def)
  have "wrap64 (wrap64 (items + perPage) - 1) = items + perPage - 1"
    using assms(2,3,4) by (cases "items + perPage = 2 ^ 63") (simp_all add: wrap64_def)
  then have pages: "wrap64 (go_quot (wrap64 (wrap64 (items + perPage) - 1)) perPage) = n"
    using assms(2,3) w by (simp add: go_quot_nonneg n_def)
  have "0 \<le> (page - 1) * perPage" using assms(1,2) by simp
  then have off: "wrap64 (wrap64 (page - 1) * perPage) = (page - 1) * perPage"
    using assms(1,5,6) by (simp add: wrap64_id int64_def)
  define r where "r = CalculatePagination page perPage items"
  have r: "pr_Offset r = (page - 1) * perPage" "pr_HasPrev r = (1 < page)" "pr_TotalPages r = max 1 n" "pr_HasNext r = (page < max 1 n)"
    using assms(1,2) by (auto simp: r_def CalculatePagination_def Let_def pages off)
  have nxt: "page < max 1 n \<longleftrightarrow> page * perPage < items"
  proof
    assume "page < max 1 n"
    then have "page * perPage \<le> (n - 1) * perPage" using assms(1,2) by (intro mult_right_mono) simp_all
    then show "page * perPage < items" using n(1) by linarith
  next
    assume "page * perPage < items"
    then show "page < max 1 n" using n(2) lt [of page n] by linarith
  qed
  have item: "i div perPage + 1 \<le> max 1 n \<and> ((page - 1) * perPage \<le> i \<and> i < (page - 1) * perPage + perPage \<longleftrightarrow> page = i div perPage + 1)"
    if "0 \<le> i" "i < items" for i
  proof -
    have "(i div perPage) * perPage \<le> i" using div_window [of perPage i "i div perPage"] assms(2) by simp
    then have "i div perPage < n" using that n(2) lt [of "i div perPage" n] by linarith
    moreover have "(page - 1) * perPage \<le> i \<and> i < (page - 1) * perPage + perPage \<longleftrightarrow> i div perPage = page - 1"
      using div_window [of perPage i "page - 1"] assms(2) by simp
    ultimately show ?thesis by linarith
  qed
  have last: "0 < items \<longrightarrow> (max 1 n - 1) * perPage < items" using n(1) by (cases "n \<le> 1") (simp_all add: max_def)
  show ?thesis using r nxt item last by (simp add: Let_def flip: r_def)
qed


text \<open>The twenty-first item of twenty-one, ten a page, is alone on the third page.\<close>

lemma pages_partition_witness:
  "pr_Offset (CalculatePagination 3 10 21) = (3 - 1) * 10 \<and> pr_HasNext (CalculatePagination 3 10 21) = (3 * 10 < (21::int))"
proof -
  have "1 \<le> (3::int)" "1 \<le> (10::int)" "0 \<le> (21::int)" "21 + 10 \<le> (2::int) ^ 63" "(3 - 1) * 10 < (2::int) ^ 63" "3 < (2::int) ^ 63" "10 < (2::int) ^ 63" by simp_all
  from pages_partition [OF this] show ?thesis unfolding Let_def by (elim conjE) (intro conjI)
qed

text \<open>A page so far out that the product wraps starts before the first item.\<close>

lemma far_page_negative:
  assumes "getIntParam q ''page'' 1 = 92233720368547760" and "getIntParam q ''per_page'' 10 = 100" and "getIntParam q ''offset'' 0 = 0"
  shows "pp_Offset (GetPaginationParams q) < 0"
  unfolding GetPaginationParams_def assms by (simp add: Let_def wrap64_def)

text \<open>Sorting by several fields fails exactly on an empty one, and reads a minus as descending.\<close>

lemma sort_fields_panics: "sort_fields fs = None \<longleftrightarrow> [] \<in> set fs"
proof (induction fs)
  case (Cons f fs)
  then show ?case by (cases f) auto
qed simp

lemma sort_field_reads: "sort_field (CHR ''-'' # f) = Some \<lparr>so_Field = f, so_Order = ''desc''\<rparr>"
  by simp

text \<open>The filters are the non-empty parameters among the allowed ones.\<close>

lemma GetFilterParams_spec: "GetFilterParams q allowed f = (if f \<in> set allowed \<and> Query q f \<noteq> [] then Some (Query q f) else None)"
proof -
  have "fold (\<lambda>f m. if Query q f \<noteq> [] then m(f \<mapsto> Query q f) else m) allowed m f =
      (if f \<in> set allowed \<and> Query q f \<noteq> [] then Some (Query q f) else m f)" for m
    by (induction allowed arbitrary: m) auto
  then show ?thesis by (simp add: GetFilterParams_def)
qed

text \<open>A maximum below one is taken as it is: a page of no items.\<close>

lemma zero_maximum: "pp_PerPage (GetPaginationParamsWithDefaults q 1 10 0) = 0"
  by (simp add: GetPaginationParamsWithDefaults_def Let_def)

lemma limit_param_range: "1 \<le> limit_param q \<and> limit_param q \<le> 100"
  by (simp add: limit_param_def Let_def)

end
