(* ===== verification/Money.thy ===== *)
theory Money
  imports Complex_Main Pagination
begin

text \<open>
  Amounts of money (src/decimal/money.go): splitting, allocating, summing, reading and writing.  The decimal library and
  the floats are arguments; the methods that only call the library's method of the same name are not repeated here.
\<close>

section \<open>The decimal library\<close>

record ('d, 'f) decimals =
  dl_NewFromFloat :: "'f \<Rightarrow> 'd"
  dl_NewFromString :: "string \<Rightarrow> 'd option"
  dl_NewFromInt :: "int \<Rightarrow> 'd"
  dl_Zero :: 'd
  dl_Add :: "'d \<Rightarrow> 'd \<Rightarrow> 'd"
  dl_Sub :: "'d \<Rightarrow> 'd \<Rightarrow> 'd"
  dl_Mul :: "'d \<Rightarrow> 'd \<Rightarrow> 'd"
  dl_Div :: "'d \<Rightarrow> 'd \<Rightarrow> 'd option"
  dl_LessThan :: "'d \<Rightarrow> 'd \<Rightarrow> bool"
  dl_GreaterThan :: "'d \<Rightarrow> 'd \<Rightarrow> bool"
  dl_IsZero :: "'d \<Rightarrow> bool"
  dl_Floor :: "'d \<Rightarrow> 'd"
  dl_Round :: "int \<Rightarrow> 'd \<Rightarrow> 'd"
  dl_IntPart :: "'d \<Rightarrow> int"
  dl_InexactFloat64 :: "'d \<Rightarrow> 'f"
  dl_String :: "'d \<Rightarrow> string"
  dl_StringFixed :: "int \<Rightarrow> 'd \<Rightarrow> string"

record 'f floats =
  fp_of_int :: "int \<Rightarrow> 'f"
  fp_div :: "'f \<Rightarrow> 'f \<Rightarrow> 'f"
  fp_cent :: 'f
  fp_zero :: 'f
  fp_ParseFloat :: "string \<Rightarrow> 'f option"

section \<open>Amounts\<close>

text \<open>A division by zero panics: \<open>None\<close>.\<close>

definition NewMoney :: "('d, 'f) decimals \<Rightarrow> 'f \<Rightarrow> 'd" where
  "NewMoney D f = dl_NewFromFloat D f"

definition MulFloat :: "('d, 'f) decimals \<Rightarrow> 'f \<Rightarrow> 'd \<Rightarrow> 'd" where
  "MulFloat D f m = dl_Mul D m (dl_NewFromFloat D f)"

definition DivFloat :: "('d, 'f) decimals \<Rightarrow> 'f \<Rightarrow> 'd \<Rightarrow> 'd option" where
  "DivFloat D f m = dl_Div D m (dl_NewFromFloat D f)"

definition money_Min :: "('d, 'f) decimals \<Rightarrow> 'd \<Rightarrow> 'd \<Rightarrow> 'd" where
  "money_Min D a b = (if dl_LessThan D a b then a else b)"

definition money_Max :: "('d, 'f) decimals \<Rightarrow> 'd \<Rightarrow> 'd \<Rightarrow> 'd" where
  "money_Max D a b = (if dl_GreaterThan D a b then a else b)"

definition money_Sum :: "('d, 'f) decimals \<Rightarrow> 'd list \<Rightarrow> 'd" where
  "money_Sum D vs = foldl (dl_Add D) (dl_Zero D) vs"

definition Average :: "('d, 'f) decimals \<Rightarrow> 'f floats \<Rightarrow> 'd list \<Rightarrow> 'd option" where
  "Average D F vs = (if vs = [] then Some (dl_Zero D) else DivFloat D (fp_of_int F (int (length vs))) (money_Sum D vs))"

definition Percentage :: "('d, 'f) decimals \<Rightarrow> 'f floats \<Rightarrow> 'f \<Rightarrow> 'd \<Rightarrow> 'd" where
  "Percentage D F percent m = MulFloat D (fp_div F percent (fp_of_int F 100)) m"

definition PercentageOf :: "('d, 'f) decimals \<Rightarrow> 'f floats \<Rightarrow> 'd \<Rightarrow> 'd \<Rightarrow> 'f option" where
  "PercentageOf D F whole m =
     (if dl_IsZero D whole then Some (fp_zero F)
      else map_option (\<lambda>q. dl_InexactFloat64 D (dl_Mul D q (dl_NewFromInt D 100))) (dl_Div D m whole))"

section \<open>Splitting and allocating\<close>

fun give_pennies :: "('d, 'f) decimals \<Rightarrow> 'd \<Rightarrow> int \<Rightarrow> 'd list \<Rightarrow> 'd list" where
  "give_pennies D cent p [] = []"
| "give_pennies D cent p (x # xs) = (if 0 < p then dl_Add D x cent # give_pennies D cent (p - 1) xs else x # xs)"

definition money_Split :: "('d, 'f) decimals \<Rightarrow> 'f floats \<Rightarrow> int \<Rightarrow> 'd \<Rightarrow> 'd list option" where
  "money_Split D F n m =
     (if n \<le> 0 then Some []
      else case DivFloat D (fp_of_int F n) m of
          None \<Rightarrow> None
        | Some q \<Rightarrow>
            let baseAmount = dl_Floor D q;
                results = replicate (nat n) baseAmount;
                distributed = foldl (dl_Add D) (dl_Zero D) results;
                remainder = dl_Sub D m distributed;
                pennies = dl_IntPart D (dl_Mul D remainder (dl_NewFromInt D 100))
            in Some (give_pennies D (NewMoney D (fp_cent F)) pennies results))"

definition total_ratio :: "int list \<Rightarrow> int" where
  "total_ratio ratios = foldl (\<lambda>a r. wrap64 (a + r)) 0 ratios"

definition largest_index :: "('d, 'f) decimals \<Rightarrow> 'd list \<Rightarrow> nat" where
  "largest_index D rs = foldl (\<lambda>k i. if dl_GreaterThan D (rs ! i) (rs ! k) then i else k) 0 [1..<length rs]"

definition money_Allocate :: "('d, 'f) decimals \<Rightarrow> 'f floats \<Rightarrow> int list \<Rightarrow> 'd \<Rightarrow> 'd list" where
  "money_Allocate D F ratios m =
     (if ratios = [] then []
      else if total_ratio ratios = 0 then replicate (length ratios) (dl_Zero D)
      else let results = map (\<lambda>r. dl_Round D 2 (MulFloat D (fp_div F (fp_of_int F r) (fp_of_int F (total_ratio ratios))) m)) ratios;
               allocated = foldl (dl_Add D) (dl_Zero D) results;
               diff = dl_Sub D m allocated
           in if dl_IsZero D diff then results
              else let k = largest_index D results in results[k := dl_Add D (results ! k) diff])"

section \<open>Reading and writing\<close>

text \<open>A value of the database; anything else is refused.\<close>

datatype 'f db_value = DbNull | DbString string | DbBytes string | DbInt int | DbFloat 'f | DbOther

definition money_Scan :: "('d, 'f) decimals \<Rightarrow> 'f db_value \<Rightarrow> 'd option" where
  "money_Scan D v = (case v of
      DbNull \<Rightarrow> Some (dl_Zero D)
    | DbString s \<Rightarrow> dl_NewFromString D s
    | DbBytes s \<Rightarrow> dl_NewFromString D s
    | DbInt i \<Rightarrow> Some (dl_NewFromInt D i)
    | DbFloat f \<Rightarrow> Some (dl_NewFromFloat D f)
    | DbOther \<Rightarrow> None)"

definition money_Value :: "('d, 'f) decimals \<Rightarrow> 'd \<Rightarrow> 'f db_value" where
  "money_Value D m = DbString (dl_String D m)"

definition quote_char :: char where
  "quote_char = CHR 0x22"

definition money_MarshalJSON :: "('d, 'f) decimals \<Rightarrow> 'd \<Rightarrow> string" where
  "money_MarshalJSON D m = quote_char # dl_StringFixed D 2 m @ [quote_char]"

definition trim_quotes :: "string \<Rightarrow> string" where
  "trim_quotes s = rev (dropWhile (\<lambda>c. c = quote_char) (rev (dropWhile (\<lambda>c. c = quote_char) s)))"

definition money_UnmarshalJSON :: "('d, 'f) decimals \<Rightarrow> 'f floats \<Rightarrow> string \<Rightarrow> 'd option" where
  "money_UnmarshalJSON D F s =
     (let str = trim_quotes s
      in if str = ''null'' then Some (dl_Zero D)
         else case fp_ParseFloat F str of
             Some f \<Rightarrow> Some (NewMoney D f)
           | None \<Rightarrow> dl_NewFromString D str)"

section \<open>What the library does\<close>

text \<open>
  \<open>val\<close> is the number an amount stands for.  Addition, subtraction and multiplication are exact, a division is
  rounded to sixteen digits, half away from zero; the floats used here become the decimals they are written as.
\<close>

definition round_dec :: "nat \<Rightarrow> rat \<Rightarrow> rat" where
  "round_dec p x = sgn x * of_int \<lfloor>\<bar>x\<bar> * 10 ^ p + 1 / 2\<rfloor> / 10 ^ p"

definition exact_decimals :: "('d, 'f) decimals \<Rightarrow> 'f floats \<Rightarrow> ('d \<Rightarrow> rat) \<Rightarrow> bool" where
  "exact_decimals D F val \<longleftrightarrow>
     (\<forall>a b. val (dl_Add D a b) = val a + val b) \<and> (\<forall>a b. val (dl_Sub D a b) = val a - val b) \<and> (\<forall>a b. val (dl_Mul D a b) = val a * val b) \<and>
     (\<forall>i. val (dl_NewFromInt D i) = of_int i) \<and> val (dl_Zero D) = 0 \<and>
     (\<forall>a b. val b \<noteq> 0 \<longrightarrow> (\<exists>c. dl_Div D a b = Some c \<and> val c = round_dec 16 (val a / val b))) \<and>
     (\<forall>a. val (dl_Floor D a) = of_int \<lfloor>val a\<rfloor>) \<and>
     (\<forall>a. 0 \<le> val a \<and> val a < 2 ^ 63 \<longrightarrow> dl_IntPart D a = \<lfloor>val a\<rfloor>) \<and>
     (\<forall>a. dl_IsZero D a \<longleftrightarrow> val a = 0) \<and>
     (\<forall>i. \<bar>i\<bar> \<le> 2 ^ 53 \<longrightarrow> val (dl_NewFromFloat D (fp_of_int F i)) = of_int i) \<and>
     val (dl_NewFromFloat D (fp_cent F)) = 1 / 100"

lemma exact_decimalsD:
  assumes "exact_decimals D F val"
  shows "val (dl_Add D a b) = val a + val b" "val (dl_Sub D a b) = val a - val b" "val (dl_Mul D a b) = val a * val b"
    "val (dl_NewFromInt D i) = of_int i" "val (dl_Zero D) = 0"
    "val b \<noteq> 0 \<Longrightarrow> \<exists>c. dl_Div D a b = Some c \<and> val c = round_dec 16 (val a / val b)"
    "val (dl_Floor D a) = of_int \<lfloor>val a\<rfloor>" "0 \<le> val a \<Longrightarrow> val a < 2 ^ 63 \<Longrightarrow> dl_IntPart D a = \<lfloor>val a\<rfloor>"
    "dl_IsZero D a \<longleftrightarrow> val a = 0" "\<bar>i\<bar> \<le> 2 ^ 53 \<Longrightarrow> val (dl_NewFromFloat D (fp_of_int F i)) = of_int i"
    "val (dl_NewFromFloat D (fp_cent F)) = 1 / 100"
  using assms by (simp_all add: exact_decimals_def)

lemma val_foldl_add:
  assumes "exact_decimals D F val"
  shows "val (foldl (dl_Add D) a xs) = val a + sum_list (map val xs)"
  by (induction xs arbitrary: a) (simp_all add: exact_decimalsD [OF assms])

lemma val_give_pennies:
  assumes "exact_decimals D F val" and "val cent = 1 / 100"
  shows "sum_list (map val (give_pennies D cent p xs)) = sum_list (map val xs) + of_int (max 0 (min p (int (length xs)))) / 100"
proof (induction xs arbitrary: p)
  case (Cons x xs)
  have "max 0 (min p (int (length (x # xs)))) = 1 + max 0 (min (p - 1) (int (length xs)))" if "0 < p" using that by simp
  then show ?case using Cons.IH [of "p - 1"] by (simp add: exact_decimalsD(1) [OF assms(1)] assms(2) add_divide_distrib)
qed simp

lemma length_give_pennies [simp]: "length (give_pennies D cent p xs) = length xs"
  by (induction xs arbitrary: p) simp_all


section \<open>Splitting\<close>

text \<open>Rounding a share of whole pennies to sixteen digits does not reach the next whole amount.\<close>

lemma round_dec_bounds:
  assumes "0 \<le> x"
  shows "round_dec 16 x \<le> x + 1 / (2 * 10 ^ 16)" and "of_int q \<le> x \<Longrightarrow> of_int q \<le> round_dec 16 x"
proof -
  let ?s = "10 ^ 16 :: rat"
  have r: "round_dec 16 x = of_int \<lfloor>x * ?s + 1 / 2\<rfloor> / ?s" using assms floor_unique [of 0 "1 / 2 :: rat"] by (cases "x = 0") (simp_all add: round_dec_def)
  have "of_int \<lfloor>x * ?s + 1 / 2\<rfloor> \<le> x * ?s + 1 / 2" by (rule of_int_floor_le)
  then show "round_dec 16 x \<le> x + 1 / (2 * 10 ^ 16)" by (simp add: r field_simps)
  assume "of_int q \<le> x"
  then have "of_int (q * 10 ^ 16) \<le> x * ?s + 1 / 2" by simp
  then have "q * 10 ^ 16 \<le> \<lfloor>x * ?s + 1 / 2\<rfloor>" by (simp only: le_floor_iff)
  then have "(of_int (q * 10 ^ 16) :: rat) \<le> of_int \<lfloor>x * ?s + 1 / 2\<rfloor>" by (simp only: of_int_le_iff)
  then show "of_int q \<le> round_dec 16 x" by (simp add: r field_simps)
qed

lemma floor_share:
  assumes "0 \<le> k" and "0 < N" and "N \<le> 10 ^ 15"
  shows "\<lfloor>round_dec 16 (of_int k / of_int N)\<rfloor> = k div N"
proof (rule floor_unique)
  have N: "0 < (of_int N :: rat)" "(of_int N :: rat) \<le> 10 ^ 15" using assms(2,3) by (simp_all only: of_int_0_less_iff) (metis of_int_le_iff of_int_numeral of_int_power)
  have x0: "0 \<le> (of_int k :: rat) / of_int N" using assms(1) N(1) by simp
  have "k div N * N \<le> k" "k + 1 \<le> (k div N + 1) * N" using div_window [of N k "k div N"] assms(2) by (auto simp: algebra_simps)
  then have "(of_int (k div N * N) :: rat) \<le> of_int k" "(of_int (k + 1) :: rat) \<le> of_int ((k div N + 1) * N)" by (simp_all only: of_int_le_iff)
  then have lo: "(of_int (k div N) :: rat) \<le> of_int k / of_int N" and hi: "of_int k / of_int N + 1 / of_int N \<le> (of_int (k div N) + 1 :: rat)"
    using N(1) by (simp_all add: field_simps)
  show "of_int (k div N) \<le> round_dec 16 (of_int k / of_int N)" by (rule round_dec_bounds(2) [OF x0 lo])
  have "1 / (10 ^ 15 :: rat) \<le> 1 / of_int N" using N by (simp add: frac_le)
  moreover have "1 / (2 * 10 ^ 16) < 1 / (10 ^ 15 :: rat)" by simp
  ultimately have "round_dec 16 (of_int k / of_int N) < of_int k / of_int N + (1 / of_int N :: rat)"
    using round_dec_bounds(1) [OF x0] by linarith
  then show "round_dec 16 (of_int k / of_int N) < of_int (k div N) + 1" using hi by linarith
qed

lemma sum_list_replicate_rat: "sum_list (replicate n (x :: rat)) = of_nat n * x"
  by (induction n) (simp_all add: algebra_simps)

text \<open>
  splitting pennies among parts gives each the whole amounts, and at most one penny of what remains: of a remainder
  beyond one penny a part the rest is lost, and the parts add up to the amount exactly when there is no such remainder.
\<close>
theorem split_spec:
  fixes val :: "'d \<Rightarrow> rat"
  assumes "exact_decimals D F val" and "val m = of_int k / 100" and "0 \<le> k" and "0 < n" and "n \<le> 10 ^ 13"
  shows "\<exists>parts. money_Split D F n m = Some parts \<and> length parts = nat n \<and>
    sum_list (map val parts) = of_int (100 * n * (k div (100 * n)) + min n (k mod (100 * n))) / 100 \<and>
    (sum_list (map val parts) = val m \<longleftrightarrow> k mod (100 * n) \<le> n)"
proof -
  note laws = exact_decimalsD [OF assms(1)]
  let ?q = "k div (100 * n)" and ?r = "k mod (100 * n)"
  have vn: "val (dl_NewFromFloat D (fp_of_int F n)) = of_int n" using assms(4,5) by (intro laws(10)) simp
  then obtain c where c: "DivFloat D (fp_of_int F n) m = Some c" "val c = round_dec 16 (val m / of_int n)"
    using laws(6) [of "dl_NewFromFloat D (fp_of_int F n)" m] assms(4) by (auto simp: DivFloat_def)
  have "val m / of_int n = of_int k / of_int (100 * n)" by (simp add: assms(2))
  then have base: "val (dl_Floor D c) = of_int ?q" using floor_share [of k "100 * n"] assms(3,4,5) by (simp add: laws(7) c(2))
  define rs where "rs = replicate (nat n) (dl_Floor D c)"
  have rs: "sum_list (map val rs) = of_int (n * ?q)" using assms(4) by (simp add: rs_def sum_list_replicate_rat base)
  define p where "p = dl_IntPart D (dl_Mul D (dl_Sub D m (foldl (dl_Add D) (dl_Zero D) rs)) (dl_NewFromInt D 100))"
  have k: "k = 100 * n * ?q + ?r" by simp
  have r: "0 \<le> ?r" "?r < 100 * n" using assms(4) by simp_all
  have kr: "(of_int k :: rat) = 100 * of_int n * of_int ?q + of_int ?r" by (subst k) (simp only: of_int_add of_int_mult of_int_numeral)
  have "val (dl_Mul D (dl_Sub D m (foldl (dl_Add D) (dl_Zero D) rs)) (dl_NewFromInt D 100)) = of_int ?r"
    by (simp add: laws(2,3,4,5) val_foldl_add [OF assms(1)] rs assms(2) kr algebra_simps)
  moreover have "(of_int ?r :: rat) < 2 ^ 63"
  proof -
    have "?r < 2 ^ 63" using r(2) assms(5) by simp
    then have "(of_int ?r :: rat) < of_int (2 ^ 63)" by (simp only: of_int_less_iff)
    then show ?thesis by simp
  qed
  ultimately have p: "p = ?r" using r(1) by (simp add: p_def laws(8))
  have cent: "val (NewMoney D (fp_cent F)) = 1 / 100" by (simp add: NewMoney_def laws(11))
  define parts where "parts = give_pennies D (NewMoney D (fp_cent F)) p rs"
  have split: "money_Split D F n m = Some parts" using assms(4) by (simp add: money_Split_def c(1) Let_def parts_def p_def rs_def)
  have len: "length parts = nat n" by (simp add: parts_def rs_def)
  have mn: "max 0 (min ?r (int (length rs))) = min n ?r" using r(1) assms(4) by (simp add: rs_def)
  have total: "sum_list (map val parts) = of_int (100 * n * ?q + min n ?r) / 100"
    using val_give_pennies [OF assms(1) cent, of p rs] by (simp only: parts_def p rs mn) (simp add: add_divide_distrib)
  have "sum_list (map val parts) = val m \<longleftrightarrow> (of_int (100 * n * ?q + min n ?r) :: rat) = of_int k" 
    unfolding total assms(2) by (subst divide_cancel_right) simp
  also have "\<dots> \<longleftrightarrow> 100 * n * ?q + min n ?r = k" by (simp only: of_int_eq_iff)
  also have "\<dots> \<longleftrightarrow> min n ?r = ?r" using k by linarith
  also have "\<dots> \<longleftrightarrow> ?r \<le> n" by linarith
  finally have "sum_list (map val parts) = val m \<longleftrightarrow> ?r \<le> n" .
  with split len total show ?thesis by (intro exI [of _ parts] conjI)
qed

section \<open>Allocating\<close>

lemma largest_index_lt: "rs \<noteq> [] \<Longrightarrow> largest_index D rs < length rs"
proof -
  assume rs: "rs \<noteq> []"
  have "foldl (\<lambda>k i. if dl_GreaterThan D (rs ! i) (rs ! k) then i else k) a is < length rs" if "a < length rs" "list_all (\<lambda>i. i < length rs) is" for a "is"
    using that by (induction "is" arbitrary: a) simp_all
  from this [of 0 "[1..<length rs]"] show ?thesis using rs by (simp add: largest_index_def list_all_iff)
qed

lemma sum_list_upd: "k < length xs \<Longrightarrow> sum_list (xs[k := x]) = sum_list xs + x - (xs ! k :: rat)"
proof (induction xs arbitrary: k)
  case (Cons y ys)
  then show ?case by (cases k) simp_all
qed simp

text \<open>
  C27: an allocation by ratios that do not add up to zero gives one part a ratio, and the parts add up to the amount, to the last
  digit, whatever the floats make of the ratios.
\<close>
theorem allocate_conserves:
  fixes val :: "'d \<Rightarrow> rat"
  assumes "exact_decimals D F val" and "total_ratio ratios \<noteq> 0"
  shows "length (money_Allocate D F ratios m) = length ratios \<and> sum_list (map val (money_Allocate D F ratios m)) = val m"
proof -
  note laws = exact_decimalsD [OF assms(1)]
  have ne: "ratios \<noteq> []" using assms(2) by (auto simp: total_ratio_def)
  define rs where "rs = map (\<lambda>r. dl_Round D 2 (MulFloat D (fp_div F (fp_of_int F r) (fp_of_int F (total_ratio ratios))) m)) ratios"
  define diff where "diff = dl_Sub D m (foldl (dl_Add D) (dl_Zero D) rs)"
  have diff: "val diff = val m - sum_list (map val rs)" by (simp add: diff_def laws(2,5) val_foldl_add [OF assms(1)])
  have k: "largest_index D rs < length rs" by (rule largest_index_lt) (simp add: rs_def ne)
  have a: "money_Allocate D F ratios m = (if dl_IsZero D diff then rs else rs[largest_index D rs := dl_Add D (rs ! largest_index D rs) diff])"
    using ne assms(2) by (simp add: money_Allocate_def Let_def rs_def diff_def)
  have "sum_list (map val (rs[largest_index D rs := dl_Add D (rs ! largest_index D rs) diff])) = val m"
    using k by (simp add: map_update sum_list_upd laws(1) diff)
  moreover have "dl_IsZero D diff \<Longrightarrow> sum_list (map val rs) = val m" using diff by (simp add: laws(9))
  ultimately show ?thesis by (simp add: a rs_def)
qed


section \<open>Rational numbers as an instance\<close>

definition rat_decimals :: "(rat, rat) decimals" where
  "rat_decimals = \<lparr>dl_NewFromFloat = (\<lambda>f. f), dl_NewFromString = (\<lambda>s. None), dl_NewFromInt = of_int, dl_Zero = 0,
     dl_Add = (+), dl_Sub = (-), dl_Mul = (*), dl_Div = (\<lambda>a b. if b = 0 then None else Some (round_dec 16 (a / b))),
     dl_LessThan = (<), dl_GreaterThan = (\<lambda>a b. b < a), dl_IsZero = (\<lambda>a. a = 0), dl_Floor = (\<lambda>a. of_int \<lfloor>a\<rfloor>),
     dl_Round = (\<lambda>p. round_dec (nat p)), dl_IntPart = (\<lambda>a. if a < 0 then - \<lfloor>- a\<rfloor> else \<lfloor>a\<rfloor>), dl_InexactFloat64 = (\<lambda>a. a),
     dl_String = (\<lambda>a. []), dl_StringFixed = (\<lambda>p a. [])\<rparr>"

definition rat_floats :: "rat floats" where
  "rat_floats = \<lparr>fp_of_int = of_int, fp_div = (/), fp_cent = 1 / 100, fp_zero = 0, fp_ParseFloat = (\<lambda>s. None)\<rparr>"

lemma rat_decimals_exact: "exact_decimals rat_decimals rat_floats (\<lambda>a. a)"
  by (simp add: exact_decimals_def rat_decimals_def rat_floats_def)

text \<open>Ten pounds split three ways lose ninety-seven pence; ten pounds and two pence split five ways lose nothing.\<close>

lemma split_spec_witness:
  "\<exists>parts. money_Split rat_decimals rat_floats 3 10 = Some parts \<and> sum_list parts = 903 / 100 \<and> length parts = 3"
  using split_spec [OF rat_decimals_exact, of 10 1000 3] by auto

lemma allocate_conserves_witness:
  "sum_list (money_Allocate rat_decimals rat_floats [1, 1, 1] 10) = 10"
  using allocate_conserves [OF rat_decimals_exact, of "[1, 1, 1]" 10] by (simp add: total_ratio_def wrap64_def)

text \<open>Ratios that add up to zero allocate nothing: the amount is lost.\<close>

lemma zero_ratios: "total_ratio ratios = 0 \<Longrightarrow> ratios \<noteq> [] \<Longrightarrow> money_Allocate D F ratios m = replicate (length ratios) (dl_Zero D)"
  by (simp add: money_Allocate_def)

text \<open>The sum of no amounts is zero, and their average too.\<close>

lemma money_Sum_val: "exact_decimals D F val \<Longrightarrow> val (money_Sum D vs) = sum_list (map val vs)"
  by (simp add: money_Sum_def val_foldl_add exact_decimalsD(5))

text \<open>A value written for the database is read back, if the library reads what it writes.\<close>

lemma money_db_roundtrip: "dl_NewFromString D (dl_String D m) = Some m \<Longrightarrow> money_Scan D (money_Value D m) = Some m"
  by (simp add: money_Scan_def money_Value_def)

end
