(* ===== verification/RedisQueue.thy ===== *)
theory RedisQueue
  imports TaskQueue GoText Pagination "HOL-Library.Product_Lexorder"
begin

text \<open>
  The distributed queue and the queue of delayed tasks (src/crawler/task/queue.go): sorted sets of Redis.  Redis and the
  JSON codec are arguments.  A score is a float64 of an integer far below \<open>2 ^ 53\<close>, so it is that integer.
\<close>

section \<open>Redis and the codec\<close>

record 'r queue_redis =
  qr_ZAdd :: "string \<Rightarrow> int \<Rightarrow> string \<Rightarrow> 'r \<Rightarrow> bool \<times> 'r"
  qr_ZPopMin :: "string \<Rightarrow> 'r \<Rightarrow> string option \<times> 'r"
  qr_ZFirst :: "string \<Rightarrow> 'r \<Rightarrow> string option"
  qr_ZCard :: "string \<Rightarrow> 'r \<Rightarrow> int option"
  qr_ZRangeByScore :: "string \<Rightarrow> int \<Rightarrow> int \<Rightarrow> 'r \<Rightarrow> string list option"
  qr_ZRem :: "string \<Rightarrow> string \<Rightarrow> 'r \<Rightarrow> 'r"
  qr_HIncrBy :: "string \<Rightarrow> string \<Rightarrow> int \<Rightarrow> 'r \<Rightarrow> bool \<times> 'r"
  qr_Set :: "string \<Rightarrow> string \<Rightarrow> duration \<Rightarrow> 'r \<Rightarrow> bool \<times> 'r"
  qr_Scan :: "string \<Rightarrow> 'r \<Rightarrow> string list option"
  qr_Del :: "string \<Rightarrow> 'r \<Rightarrow> bool \<times> 'r"

record task_codec =
  tk_marshal :: "task \<Rightarrow> string option"
  tk_unmarshal :: "string \<Rightarrow> task option"

datatype rq_error = MarshalFailed | PushFailed | ExecFailed | UnmarshalFailed | NoTasks | CommandFailed

section \<open>Keys and scores\<close>

definition getQueueKey :: "string \<Rightarrow> int \<Rightarrow> string" where
  "getQueueKey pre p = pre @ '':queue:'' @ dec_of_int p"

definition stats_key :: "string \<Rightarrow> string" where
  "stats_key pre = pre @ '':stats''"

definition task_key :: "string \<Rightarrow> string \<Rightarrow> string" where
  "task_key pre i = pre @ '':task:'' @ i"

definition task_score :: "gotime \<Rightarrow> task \<Rightarrow> int" where
  "task_score now t = (now div second) * 1000 - wrap64 (t_Priority t * 1000000)"

definition status_text :: "status \<Rightarrow> string" where
  "status_text s = (case s of
      StatusPending \<Rightarrow> ''pending'' | StatusQueued \<Rightarrow> ''queued'' | StatusRunning \<Rightarrow> ''running'' | StatusCompleted \<Rightarrow> ''completed''
    | StatusFailed \<Rightarrow> ''failed'' | StatusRetrying \<Rightarrow> ''retrying'' | StatusCancelled \<Rightarrow> ''cancelled'' | StatusOther t \<Rightarrow> t)"

section \<open>Pushing\<close>

text \<open>A pipeline runs all its commands and fails if one of them does.\<close>

definition also_run :: "('r \<Rightarrow> bool \<times> 'r) \<Rightarrow> bool \<times> 'r \<Rightarrow> bool \<times> 'r" where
  "also_run f s = (case s of (ok, r) \<Rightarrow> case f r of (ok1, r1) \<Rightarrow> (ok \<and> ok1, r1))"

definition updateMetadataPipe :: "'r queue_redis \<Rightarrow> task_codec \<Rightarrow> string \<Rightarrow> task \<Rightarrow> bool \<times> 'r \<Rightarrow> bool \<times> 'r" where
  "updateMetadataPipe R C pre t s =
     also_run (qr_Set R (task_key pre (t_ID t)) (case tk_marshal C t of None \<Rightarrow> [] | Some d \<Rightarrow> d) (24 * hour))
       (also_run (qr_HIncrBy R (stats_key pre) (''status:'' @ status_text (t_Status t)) 1)
         (also_run (qr_HIncrBy R (stats_key pre) (''type:'' @ t_Type t) 1)
           (also_run (qr_HIncrBy R (stats_key pre) ''total'' 1) s)))"

definition updateMetadata :: "'r queue_redis \<Rightarrow> task_codec \<Rightarrow> string \<Rightarrow> task \<Rightarrow> 'r \<Rightarrow> 'r" where
  "updateMetadata R C pre t r = snd (updateMetadataPipe R C pre t (True, r))"

text \<open>\<open>now\<close> is the clock read by \<open>Queue()\<close>, \<open>now'\<close> the one of the score; the task is written through its pointer.\<close>

definition rq_Push :: "'r queue_redis \<Rightarrow> task_codec \<Rightarrow> string \<Rightarrow> gotime \<Rightarrow> gotime \<Rightarrow> task \<Rightarrow> 'r \<Rightarrow> task \<times> rq_error option \<times> 'r" where
  "rq_Push R C pre now now' t r =
     (let t1 = task_Queue now t
      in case tk_marshal C t1 of
           None \<Rightarrow> (t1, Some MarshalFailed, r)
         | Some d \<Rightarrow> (case qr_ZAdd R (getQueueKey pre (t_Priority t1)) (task_score now' t1) d r of
               (False, r1) \<Rightarrow> (t1, Some PushFailed, r1)
             | (True, r1) \<Rightarrow> (t1, None, updateMetadata R C pre t1 r1)))"

text \<open>A task that does not encode ends a batch before any command is sent.\<close>

fun batch_pipe :: "'r queue_redis \<Rightarrow> task_codec \<Rightarrow> string \<Rightarrow> (gotime \<times> gotime \<times> task) list \<Rightarrow> (bool \<times> 'r \<Rightarrow> bool \<times> 'r) option" where
  "batch_pipe R C pre [] = Some (\<lambda>s. s)"
| "batch_pipe R C pre ((now, now', t) # ts) =
     (let t1 = task_Queue now t
      in case tk_marshal C t1 of
           None \<Rightarrow> None
         | Some d \<Rightarrow> map_option (\<lambda>rest s. rest (updateMetadataPipe R C pre t1
               (also_run (qr_ZAdd R (getQueueKey pre (t_Priority t1)) (task_score now' t1) d) s))) (batch_pipe R C pre ts))"

definition rq_PushBatch :: "'r queue_redis \<Rightarrow> task_codec \<Rightarrow> string \<Rightarrow> (gotime \<times> gotime \<times> task) list \<Rightarrow> 'r \<Rightarrow> rq_error option \<times> 'r" where
  "rq_PushBatch R C pre ts r =
     (case batch_pipe R C pre ts of
        None \<Rightarrow> (Some MarshalFailed, r)
      | Some exec \<Rightarrow> (case exec (True, r) of (ok, r1) \<Rightarrow> (if ok then None else Some ExecFailed, r1)))"

section \<open>Popping\<close>

text \<open>A failed command and an empty set are not told apart: the next priority is tried.\<close>

fun rq_pop_from :: "'r queue_redis \<Rightarrow> task_codec \<Rightarrow> string \<Rightarrow> int list \<Rightarrow> 'r \<Rightarrow> (rq_error + task) \<times> 'r" where
  "rq_pop_from R C pre [] r = (Inl NoTasks, r)"
| "rq_pop_from R C pre (p # ps) r =
     (case qr_ZPopMin R (getQueueKey pre p) r of
        (None, r1) \<Rightarrow> rq_pop_from R C pre ps r1
      | (Some d, r1) \<Rightarrow> (case tk_unmarshal C d of
            None \<Rightarrow> (Inl UnmarshalFailed, r1)
          | Some t \<Rightarrow> (Inr t, snd (qr_HIncrBy R (stats_key pre) ''processed'' 1 r1))))"

definition rq_Pop :: "'r queue_redis \<Rightarrow> task_codec \<Rightarrow> string \<Rightarrow> 'r \<Rightarrow> (rq_error + task) \<times> 'r" where
  "rq_Pop R C pre r = rq_pop_from R C pre pop_order r"

fun rq_pops :: "'r queue_redis \<Rightarrow> task_codec \<Rightarrow> string \<Rightarrow> nat \<Rightarrow> 'r \<Rightarrow> task list \<times> 'r" where
  "rq_pops R C pre 0 r = ([], r)"
| "rq_pops R C pre (Suc n) r =
     (case rq_Pop R C pre r of
        (Inl e, r1) \<Rightarrow> ([], r1)
      | (Inr t, r1) \<Rightarrow> (case rq_pops R C pre n r1 of (ts, r2) \<Rightarrow> (t # ts, r2)))"

definition rq_PopN :: "'r queue_redis \<Rightarrow> task_codec \<Rightarrow> string \<Rightarrow> int \<Rightarrow> 'r \<Rightarrow> task list \<times> 'r" where
  "rq_PopN R C pre n r = rq_pops R C pre (nat n) r"

fun rq_peek_from :: "'r queue_redis \<Rightarrow> task_codec \<Rightarrow> string \<Rightarrow> int list \<Rightarrow> 'r \<Rightarrow> rq_error + task" where
  "rq_peek_from R C pre [] r = Inl NoTasks"
| "rq_peek_from R C pre (p # ps) r =
     (case qr_ZFirst R (getQueueKey pre p) r of
        None \<Rightarrow> rq_peek_from R C pre ps r
      | Some d \<Rightarrow> (case tk_unmarshal C d of None \<Rightarrow> Inl UnmarshalFailed | Some t \<Rightarrow> Inr t))"

definition rq_Peek :: "'r queue_redis \<Rightarrow> task_codec \<Rightarrow> string \<Rightarrow> 'r \<Rightarrow> rq_error + task" where
  "rq_Peek R C pre r = rq_peek_from R C pre pop_order r"

fun rq_size_from :: "'r queue_redis \<Rightarrow> string \<Rightarrow> int list \<Rightarrow> int \<Rightarrow> 'r \<Rightarrow> int option" where
  "rq_size_from R pre [] n r = Some n"
| "rq_size_from R pre (p # ps) n r =
     (case qr_ZCard R (getQueueKey pre p) r of None \<Rightarrow> None | Some c \<Rightarrow> rq_size_from R pre ps (n + c) r)"

definition rq_Size :: "'r queue_redis \<Rightarrow> string \<Rightarrow> 'r \<Rightarrow> int option" where
  "rq_Size R pre r = rq_size_from R pre pop_order 0 r"

fun del_each :: "'r queue_redis \<Rightarrow> string list \<Rightarrow> 'r \<Rightarrow> bool \<times> 'r" where
  "del_each R [] r = (True, r)"
| "del_each R (k # ks) r = (case qr_Del R k r of (ok, r1) \<Rightarrow> if ok then del_each R ks r1 else (False, r1))"

definition rq_Clear :: "'r queue_redis \<Rightarrow> string \<Rightarrow> 'r \<Rightarrow> bool \<times> 'r" where
  "rq_Clear R pre r = (case qr_Scan R (pre @ '':queue:*'') r of None \<Rightarrow> (False, r) | Some ks \<Rightarrow> del_each R ks r)"

text \<open>A count that fails is zero; the other figures of the statistics stay as they are made.\<close>

definition rq_Stats :: "'r queue_redis \<Rightarrow> string \<Rightarrow> 'r \<Rightarrow> queue_stats" where
  "rq_Stats R pre r = foldl (\<lambda>s p.
       let c = (case qr_ZCard R (getQueueKey pre p) r of None \<Rightarrow> 0 | Some c \<Rightarrow> c)
       in s\<lparr>qs_ByPriority := (qs_ByPriority s)(p \<mapsto> c), qs_Total := qs_Total s + c\<rparr>)
     \<lparr>qs_Total = 0, qs_ByStatus = Map.empty, qs_ByPriority = Map.empty, qs_ByType = Map.empty, qs_OldestTask = time_zero, qs_NewestTask = time_zero\<rparr>
     pop_order"

section \<open>Delayed tasks\<close>

definition delayed_key :: "string \<Rightarrow> string" where
  "delayed_key pre = pre @ '':delayed''"

definition PushDelayed :: "'r queue_redis \<Rightarrow> task_codec \<Rightarrow> string \<Rightarrow> gotime \<Rightarrow> duration \<Rightarrow> task \<Rightarrow> 'r \<Rightarrow> rq_error option \<times> 'r" where
  "PushDelayed R C pre now delay t r =
     (case tk_marshal C t of
        None \<Rightarrow> (Some MarshalFailed, r)
      | Some d \<Rightarrow> (case qr_ZAdd R (delayed_key pre) ((now + delay) div second) d r of
          (ok, r1) \<Rightarrow> (if ok then None else Some PushFailed, r1)))"

text \<open>\<open>push\<close> is the queue behind; it may share Redis with the delayed tasks.\<close>

definition move_delayed :: "'r queue_redis \<Rightarrow> task_codec \<Rightarrow> string \<Rightarrow> (task \<Rightarrow> 'r \<Rightarrow> bool \<times> 'r) \<Rightarrow> string \<Rightarrow> 'r \<Rightarrow> 'r" where
  "move_delayed R C pre push d r =
     (case tk_unmarshal C d of
        None \<Rightarrow> r
      | Some t \<Rightarrow> (case push t r of
          (False, r1) \<Rightarrow> r1
        | (True, r1) \<Rightarrow> qr_ZRem R (delayed_key pre) d r1))"

definition ProcessDelayed :: "'r queue_redis \<Rightarrow> task_codec \<Rightarrow> string \<Rightarrow> (task \<Rightarrow> 'r \<Rightarrow> bool \<times> 'r) \<Rightarrow> gotime \<Rightarrow> 'r \<Rightarrow> rq_error option \<times> 'r" where
  "ProcessDelayed R C pre push now r =
     (case qr_ZRangeByScore R (delayed_key pre) 0 (now div second) r of
        None \<Rightarrow> (Some CommandFailed, r)
      | Some ds \<Rightarrow> (None, fold (move_delayed R C pre push) ds r))"


section \<open>What the commands do\<close>

text \<open>
  A sorted set is the list of its members with their scores, in order; members of equal score are ordered by their bytes.
  The counters and the copies of the tasks are under other keys.
\<close>

type_synonym zset = "(int \<times> string) list"

definition zadd :: "int \<Rightarrow> string \<Rightarrow> zset \<Rightarrow> zset" where
  "zadd s m l = insort (s, m) (filter (\<lambda>e. snd e \<noteq> m) l)"

definition zset_commands :: "'r queue_redis \<Rightarrow> ('r \<Rightarrow> string \<Rightarrow> zset) \<Rightarrow> bool" where
  "zset_commands R view \<longleftrightarrow>
     (\<forall>k s m r. fst (qr_ZAdd R k s m r) \<and> view (snd (qr_ZAdd R k s m r)) = (view r)(k := zadd s m (view r k))) \<and>
     (\<forall>k r. fst (qr_ZPopMin R k r) = map_option snd (if view r k = [] then None else Some (hd (view r k))) \<and>
        view (snd (qr_ZPopMin R k r)) = (view r)(k := tl (view r k))) \<and>
     (\<forall>k r. qr_ZFirst R k r = map_option snd (if view r k = [] then None else Some (hd (view r k)))) \<and>
     (\<forall>k r. qr_ZCard R k r = Some (int (length (view r k)))) \<and>
     (\<forall>k lo hi r. qr_ZRangeByScore R k lo hi r = Some (map snd (filter (\<lambda>e. lo \<le> fst e \<and> fst e \<le> hi) (view r k)))) \<and>
     (\<forall>k m r. view (qr_ZRem R k m r) = (view r)(k := filter (\<lambda>e. snd e \<noteq> m) (view r k))) \<and>
     (\<forall>k f n r. view (snd (qr_HIncrBy R k f n r)) = view r) \<and>
     (\<forall>k d ttl r. view (snd (qr_Set R k d ttl r)) = (view r)(k := [])) \<and>
     (\<forall>k r. fst (qr_Del R k r) \<and> view (snd (qr_Del R k r)) = (view r)(k := []))"

lemma zset_commandsD:
  assumes "zset_commands R view"
  shows "fst (qr_ZAdd R k s m r)" "view (snd (qr_ZAdd R k s m r)) = (view r)(k := zadd s m (view r k))"
    "fst (qr_ZPopMin R k r) = map_option snd (if view r k = [] then None else Some (hd (view r k)))"
    "view (snd (qr_ZPopMin R k r)) = (view r)(k := tl (view r k))"
    "qr_ZFirst R k r = map_option snd (if view r k = [] then None else Some (hd (view r k)))"
    "qr_ZCard R k r = Some (int (length (view r k)))"
    "qr_ZRangeByScore R k lo hi r = Some (map snd (filter (\<lambda>e. lo \<le> fst e \<and> fst e \<le> hi) (view r k)))"
    "view (qr_ZRem R k m r) = (view r)(k := filter (\<lambda>e. snd e \<noteq> m) (view r k))"
    "view (snd (qr_HIncrBy R k f n r)) = view r"
    "view (snd (qr_Set R k d ttl r)) = (view r)(k := [])"
    "fst (qr_Del R k r)" "view (snd (qr_Del R k r)) = (view r)(k := [])"
  using assms unfolding zset_commands_def by auto

lemma queue_keys [simp]:
  "getQueueKey pre p = getQueueKey pre q \<longleftrightarrow> p = q" "getQueueKey pre p \<noteq> task_key pre i" "task_key pre i \<noteq> getQueueKey pre p"
  by (simp_all add: getQueueKey_def task_key_def dec_of_int_inj)

lemma view_also_run: "view (snd (also_run f s)) = view (snd (f (snd s)))"
  by (simp add: also_run_def split: prod.split)

lemma view_metadata:
  assumes "zset_commands R view"
  shows "view (updateMetadata R C pre t r) = (view r)(task_key pre (t_ID t) := [])"
  by (simp add: updateMetadata_def updateMetadataPipe_def view_also_run zset_commandsD(9,10) [OF assms])

section \<open>The order of the queue\<close>

text \<open>What is in the queue, in the order it is popped.\<close>

definition rq_listing :: "('r \<Rightarrow> string \<Rightarrow> zset) \<Rightarrow> string \<Rightarrow> 'r \<Rightarrow> string list" where
  "rq_listing view pre r = concat (map (\<lambda>p. map snd (view r (getQueueKey pre p))) pop_order)"

lemma rq_pop_from_other:
  assumes R: "zset_commands R view"
  shows "p \<notin> set qs \<Longrightarrow> view (snd (rq_pop_from R C pre qs r)) (getQueueKey pre p) = view r (getQueueKey pre p)"
proof (induction qs arbitrary: r)
  case (Cons q qs)
  obtain a r1 where pop: "qr_ZPopMin R (getQueueKey pre q) r = (a, r1)" by fastforce
  then have "view r1 = (view r)(getQueueKey pre q := tl (view r (getQueueKey pre q)))"
    using zset_commandsD(4) [OF R, of "getQueueKey pre q" r] by simp
  then have "view r1 (getQueueKey pre p) = view r (getQueueKey pre p)" using Cons.prems by simp
  then show ?case using Cons by (simp add: pop zset_commandsD(9) [OF R] split: option.split)
qed simp

lemma rq_pop_from_listing:
  assumes R: "zset_commands R view"
  shows "distinct ps \<Longrightarrow> (case concat (map (\<lambda>p. map snd (view r (getQueueKey pre p))) ps) of
      [] \<Rightarrow> fst (rq_pop_from R C pre ps r) = Inl NoTasks
    | d # ds \<Rightarrow> fst (rq_pop_from R C pre ps r) = (case tk_unmarshal C d of None \<Rightarrow> Inl UnmarshalFailed | Some t \<Rightarrow> Inr t) \<and>
        concat (map (\<lambda>p. map snd (view (snd (rq_pop_from R C pre ps r)) (getQueueKey pre p))) ps) = ds)"
proof (induction ps arbitrary: r)
  case Nil
  show ?case by simp
next
  case (Cons p ps)
  let ?k = "getQueueKey pre p"
  obtain a r1 where pop: "qr_ZPopMin R ?k r = (a, r1)" by fastforce
  have a: "a = map_option snd (if view r ?k = [] then None else Some (hd (view r ?k)))" and r1: "view r1 = (view r)(?k := tl (view r ?k))"
    using zset_commandsD(3,4) [OF R, of ?k r] pop by simp_all
  show ?case
  proof (cases "view r ?k")
    case Nil
    then have "view r1 = view r" using r1 by auto
    moreover have scan: "rq_pop_from R C pre (p # ps) r = rq_pop_from R C pre ps r1" using Nil a by (simp add: pop)
    moreover have "view (snd (rq_pop_from R C pre ps r1)) ?k = []"
      using rq_pop_from_other [OF R, of p ps C pre r1] Cons.prems Nil \<open>view r1 = view r\<close> by simp
    ultimately show ?thesis using Cons.IH [of r1] Cons.prems Nil
      by (cases "concat (map (\<lambda>p. map snd (view r (getQueueKey pre p))) ps)") (simp_all add: scan del: rq_pop_from.simps concat_eq_Nil_conv)
  next
    case head: (Cons e es)
    have rest: "map (\<lambda>p. map snd (view r1 (getQueueKey pre p))) ps = map (\<lambda>p. map snd (view r (getQueueKey pre p))) ps"
      using Cons.prems r1 by (auto intro: map_cong)
    have "view r1 ?k = es" using r1 head by simp
    then show ?thesis using a head rest
      by (simp add: pop zset_commandsD(9) [OF R] del: map_eq_conv split: option.split)
  qed
qed

lemma rq_pops_take:
  assumes R: "zset_commands R view"
  shows "list_all (\<lambda>d. tk_unmarshal C d \<noteq> None) (rq_listing view pre r) \<Longrightarrow>
    fst (rq_pops R C pre n r) = map (\<lambda>d. the (tk_unmarshal C d)) (take n (rq_listing view pre r)) \<and>
    rq_listing view pre (snd (rq_pops R C pre n r)) = drop n (rq_listing view pre r)"
proof (induction n arbitrary: r)
  case 0
  show ?case by simp
next
  case (Suc n)
  have d: "distinct pop_order" by (simp add: pop_order_simps)
  note step = rq_pop_from_listing [where pre = pre and r = r and C = C, OF R d, folded rq_listing_def rq_Pop_def]
  obtain a r1 where pop: "rq_Pop R C pre r = (a, r1)" by fastforce
  show ?case
  proof (cases "rq_listing view pre r")
    case Nil
    then have a: "a = Inl NoTasks" using step pop by simp
    have "rq_listing view pre r1 = []"
    proof -
      have "view (snd (rq_pop_from R C pre ps r)) k = view r k" if "\<And>p. p \<in> set ps \<Longrightarrow> view r (getQueueKey pre p) = []" for ps k
        using that
      proof (induction ps arbitrary: r)
        case (Cons p ps)
        obtain b r2 where b: "qr_ZPopMin R (getQueueKey pre p) r = (b, r2)" by fastforce
        have "view r (getQueueKey pre p) = []" using Cons.prems by simp
        then have "b = None" "view r2 = view r" using zset_commandsD(3,4) [OF R, of "getQueueKey pre p" r] b by auto
        then show ?case using Cons.IH [of r2] Cons.prems by (simp add: b)
      qed simp
      moreover have "\<And>p. p \<in> set pop_order \<Longrightarrow> view r (getQueueKey pre p) = []" using Nil by (simp add: rq_listing_def)
      ultimately have "view r1 = view r" using pop unfolding rq_Pop_def by (metis ext snd_conv)
      then show ?thesis using Nil by (simp add: rq_listing_def)
    qed
    then show ?thesis using Nil by (simp add: pop a)
  next
    case head: (Cons m ms)
    obtain t where t: "tk_unmarshal C m = Some t" using Suc.prems head by auto
    then have a: "a = Inr t" "rq_listing view pre r1 = ms" using step pop head by simp_all
    obtain ts r2 where rest: "rq_pops R C pre n r1 = (ts, r2)" by fastforce
    then show ?thesis using Suc.IH [of r1] Suc.prems head a t by (simp add: pop)
  qed
qed


section \<open>Pushing and popping\<close>

text \<open>What a task becomes on its way: the interfaces it holds are not written.\<close>

definition on_wire :: "task \<Rightarrow> task" where
  "on_wire t = t\<lparr>t_Pipeline := None, t_Storage := None\<rparr>"

type_synonym timed_task = "gotime \<times> gotime \<times> task"

definition queued_as :: "task_codec \<Rightarrow> timed_task \<Rightarrow> string" where
  "queued_as C x = (case x of (now, now', t) \<Rightarrow> the (tk_marshal C (task_Queue now t)))"

definition queue_entry :: "task_codec \<Rightarrow> timed_task \<Rightarrow> int \<times> string" where
  "queue_entry C x = (case x of (now, now', t) \<Rightarrow> (task_score now' t, queued_as C x))"

definition encodes :: "task_codec \<Rightarrow> timed_task \<Rightarrow> bool" where
  "encodes C x = (case x of (now, now', t) \<Rightarrow>
     (\<exists>d. tk_marshal C (task_Queue now t) = Some d \<and> tk_unmarshal C d = Some (on_wire (task_Queue now t))))"

fun rq_push_all :: "'r queue_redis \<Rightarrow> task_codec \<Rightarrow> string \<Rightarrow> timed_task list \<Rightarrow> 'r \<Rightarrow> 'r" where
  "rq_push_all R C pre [] r = r"
| "rq_push_all R C pre ((now, now', t) # ts) r = rq_push_all R C pre ts (snd (snd (rq_Push R C pre now now' t r)))"

text \<open>
  The order in which tasks are due: by priority, then by the second in which they were queued, then by their encoding.
\<close>

definition of_priority :: "int \<Rightarrow> timed_task list \<Rightarrow> timed_task list" where
  "of_priority p ts = filter (\<lambda>(now, now', t). t_Priority t = p) ts"

definition in_turn :: "task_codec \<Rightarrow> timed_task list \<Rightarrow> task list" where
  "in_turn C ts = concat (map (\<lambda>p. map (\<lambda>(now, now', t). on_wire (task_Queue now t)) (sort_key (queue_entry C) (of_priority p ts))) pop_order)"

lemma rq_Push_view:
  assumes R: "zset_commands R view" and "encodes C (now, now', t)"
  shows "view (snd (snd (rq_Push R C pre now now' t r))) (getQueueKey pre p) =
    (if p = t_Priority t then zadd (task_score now' t) (queued_as C (now, now', t)) (view r (getQueueKey pre p)) else view r (getQueueKey pre p))"
proof -
  obtain d where d: "tk_marshal C (task_Queue now t) = Some d" using assms(2) by (auto simp: encodes_def)
  obtain ok r1 where z: "qr_ZAdd R (getQueueKey pre (t_Priority t)) (task_score now' t) d r = (ok, r1)" by fastforce
  have zv: "ok" "view r1 = (view r)(getQueueKey pre (t_Priority t) := zadd (task_score now' t) d (view r (getQueueKey pre (t_Priority t))))"
    using zset_commandsD(1,2) [OF R, of "getQueueKey pre (t_Priority t)" "task_score now' t" d r] z by simp_all
  have sc: "task_score now' (task_Queue now t) = task_score now' t" by (simp add: task_score_def)
  show ?thesis using zv by (simp add: rq_Push_def Let_def d z sc queued_as_def view_metadata [OF R])
qed

lemma sort_key_map: "map f (sort_key f xs) = sort (map f xs)" for f :: "'a \<Rightarrow> 'b::linorder"
  by (rule properties_for_sort [symmetric]) simp_all

lemma zadd_new: "m \<notin> snd ` set l \<Longrightarrow> zadd s m l = insort (s, m) l"
proof -
  assume "m \<notin> snd ` set l"
  then have "filter (\<lambda>e. snd e \<noteq> m) l = l" by (auto simp: filter_id_conv)
  then show ?thesis by (simp add: zadd_def)
qed

lemma rq_push_all_view:
  assumes R: "zset_commands R view"
  shows "list_all (encodes C) ts \<Longrightarrow> distinct (map (queued_as C) ts) \<Longrightarrow> snd ` set (view r (getQueueKey pre p)) \<inter> set (map (queued_as C) ts) = {} \<Longrightarrow>
    sorted (view r (getQueueKey pre p)) \<Longrightarrow>
    view (rq_push_all R C pre ts r) (getQueueKey pre p) = sort (view r (getQueueKey pre p) @ map (queue_entry C) (of_priority p ts))"
proof (induction ts arbitrary: r)
  case Nil
  then show ?case by (simp add: of_priority_def sorted_sort_id)
next
  case (Cons x ts)
  obtain now now' t where x: "x = (now, now', t)" by (cases x)
  define r1 where "r1 = snd (snd (rq_Push R C pre now now' t r))"
  let ?l = "view r (getQueueKey pre p)"
  have v1: "view r1 (getQueueKey pre p) = (if p = t_Priority t then insort (queue_entry C x) ?l else ?l)"
    using Cons.prems(1,3) by (cases "p = t_Priority t") (simp_all add: r1_def rq_Push_view [OF R] x zadd_new queue_entry_def)
  have "snd ` set (view r1 (getQueueKey pre p)) \<inter> set (map (queued_as C) ts) = {}"
    using Cons.prems(2,3) by (auto simp: v1 set_insort_key queue_entry_def x)
  moreover have "sorted (view r1 (getQueueKey pre p))" unfolding v1 using Cons.prems(4) by (simp only: sorted_insort split: if_split) simp
  ultimately have "view (rq_push_all R C pre ts r1) (getQueueKey pre p) = sort (view r1 (getQueueKey pre p) @ map (queue_entry C) (of_priority p ts))"
    using Cons.IH [of r1] Cons.prems(1,2) by simp
  also have "\<dots> = sort (?l @ map (queue_entry C) (of_priority p (x # ts)))"
    by (rule properties_for_sort [symmetric]) (auto simp: v1 of_priority_def x)
  finally show ?case by (simp add: x r1_def)
qed

text \<open>
  C28: popping gives the tasks pushed in turn: the most urgent first, among equals the one of an earlier second, each as it was
  queued, without its interfaces.
\<close>
theorem redis_queue_order:
  assumes "zset_commands R view" and "list_all (encodes C) ts" and "distinct (map (queued_as C) ts)"
    and "list_all (\<lambda>(now, now', t). t_Priority t \<in> set pop_order) ts" and "\<And>p. view r (getQueueKey pre p) = []"
  shows "fst (rq_PopN R C pre n (rq_push_all R C pre ts r)) = take (nat n) (in_turn C ts) \<and> length (in_turn C ts) = length ts"
proof -
  let ?r = "rq_push_all R C pre ts r"
  have v: "view ?r (getQueueKey pre p) = map (queue_entry C) (sort_key (queue_entry C) (of_priority p ts))" for p
    using rq_push_all_view [OF assms(1,2,3), of r pre p] assms(5) by (simp add: sort_key_map)
  have dec: "map (\<lambda>d. the (tk_unmarshal C d)) (map snd (map (queue_entry C) xs)) = map (\<lambda>(now, now', t). on_wire (task_Queue now t)) xs \<and>
      list_all (\<lambda>d. tk_unmarshal C d \<noteq> None) (map snd (map (queue_entry C) xs))" if "set xs \<subseteq> set ts" for xs
    using that assms(2) by (induction xs) (auto simp: queue_entry_def queued_as_def encodes_def list_all_iff)
  have sub: "set (sort_key (queue_entry C) (of_priority p ts)) \<subseteq> set ts" for p by (auto simp: of_priority_def)
  have ok: "list_all (\<lambda>d. tk_unmarshal C d \<noteq> None) (rq_listing view pre ?r)"
    using dec [OF sub] by (auto simp: rq_listing_def v list_all_iff)
  have "map (\<lambda>d. the (tk_unmarshal C d)) (rq_listing view pre ?r) = in_turn C ts"
  proof -
    have "map (\<lambda>d. the (tk_unmarshal C d)) (map snd (map (queue_entry C) (sort_key (queue_entry C) (of_priority p ts)))) =
        map (\<lambda>(now, now', t). on_wire (task_Queue now t)) (sort_key (queue_entry C) (of_priority p ts))" for p
      using dec [OF sub] by blast
    then show ?thesis unfolding rq_listing_def v in_turn_def map_concat map_map comp_def
      by (intro arg_cong [where f = concat] map_cong [OF refl]) simp
  qed
  then have turn: "map (\<lambda>d. the (tk_unmarshal C d)) (take n' (rq_listing view pre ?r)) = take n' (in_turn C ts)" for n' by (simp flip: take_map)
  have "length (in_turn C ts) = length ts"
  proof -
    have "length (concat (map (\<lambda>p. of_priority p xs) pop_order)) = length xs" if "list_all (\<lambda>(now, now', t). t_Priority t \<in> set pop_order) xs" for xs
      using that by (induction xs) (auto simp: pop_order_simps of_priority_def)
    from this [OF assms(4)] show ?thesis by (simp add: in_turn_def length_concat comp_def)
  qed
  then show ?thesis using rq_pops_take [OF assms(1) ok, of "nat n"] turn by (simp add: rq_PopN_def)
qed


section \<open>Delayed tasks are neither lost nor doubled\<close>

text \<open>The queue behind: \<open>got\<close> is what it has accepted, and it leaves the delayed tasks alone.\<close>

definition accepting :: "'r queue_redis \<Rightarrow> ('r \<Rightarrow> string \<Rightarrow> zset) \<Rightarrow> string \<Rightarrow> (task \<Rightarrow> 'r \<Rightarrow> bool \<times> 'r) \<Rightarrow> ('r \<Rightarrow> task list) \<Rightarrow> bool" where
  "accepting R view pre push got \<longleftrightarrow>
     (\<forall>t r. got (snd (push t r)) = (if fst (push t r) then got r @ [t] else got r) \<and> view (snd (push t r)) (delayed_key pre) = view r (delayed_key pre)) \<and>
     (\<forall>m r. got (qr_ZRem R (delayed_key pre) m r) = got r)"

definition decoded :: "task_codec \<Rightarrow> int \<times> string \<Rightarrow> task" where
  "decoded C e = the (tk_unmarshal C (snd e))"

definition due_entries :: "gotime \<Rightarrow> zset \<Rightarrow> zset" where
  "due_entries now l = filter (\<lambda>e. 0 \<le> fst e \<and> fst e \<le> now div second) l"

lemma move_all:
  assumes R: "zset_commands R view" and A: "accepting R view pre push got"
  shows "\<exists>taken. subseq taken es \<and> list_all (\<lambda>e. tk_unmarshal C (snd e) \<noteq> None) taken \<and>
    ((\<forall>t r. fst (push t r)) \<longrightarrow> taken = filter (\<lambda>e. tk_unmarshal C (snd e) \<noteq> None) es) \<and>
    got (fold (move_delayed R C pre push) (map snd es) r) = got r @ map (decoded C) taken \<and>
    view (fold (move_delayed R C pre push) (map snd es) r) (delayed_key pre) = filter (\<lambda>e. snd e \<notin> snd ` set taken) (view r (delayed_key pre))"
proof (induction es arbitrary: r)
  case Nil
  show ?case by (intro exI [of _ "[]"]) simp
next
  case (Cons e es)
  define r1 where "r1 = move_delayed R C pre push (snd e) r"
  obtain taken where taken: "subseq taken es" "list_all (\<lambda>e. tk_unmarshal C (snd e) \<noteq> None) taken"
      "(\<forall>t r. fst (push t r)) \<longrightarrow> taken = filter (\<lambda>e. tk_unmarshal C (snd e) \<noteq> None) es"
      "got (fold (move_delayed R C pre push) (map snd es) r1) = got r1 @ map (decoded C) taken"
      "view (fold (move_delayed R C pre push) (map snd es) r1) (delayed_key pre) = filter (\<lambda>e. snd e \<notin> snd ` set taken) (view r1 (delayed_key pre))"
    using Cons.IH [of r1] by blast
  have push: "got (snd (push t r)) = (if fst (push t r) then got r @ [t] else got r)" "view (snd (push t r)) (delayed_key pre) = view r (delayed_key pre)" for t
    using A by (simp_all add: accepting_def)
  have rem: "got (qr_ZRem R (delayed_key pre) m x) = got x" for m x using A by (simp add: accepting_def)
  have skip: ?case if s: "got r1 = got r" "view r1 (delayed_key pre) = view r (delayed_key pre)" "(\<forall>t r. fst (push t r)) \<longrightarrow> tk_unmarshal C (snd e) = None"
    using taken s by (intro exI [of _ taken]) (auto simp flip: r1_def)
  show ?case
  proof (cases "tk_unmarshal C (snd e)")
    case None
    then show ?thesis by (intro skip) (simp_all add: r1_def move_delayed_def)
  next
    case (Some t)
    obtain ok r2 where p: "push t r = (ok, r2)" by fastforce
    show ?thesis
    proof (cases ok)
      case False
      then show ?thesis using push [of t] p Some by (intro skip) (auto simp: r1_def move_delayed_def intro!: exI [of _ t] exI [of _ r])
    next
      case True
      then have "r1 = qr_ZRem R (delayed_key pre) (snd e) r2" by (simp add: r1_def move_delayed_def Some p)
      then have "got r1 = got r @ [t]" "view r1 (delayed_key pre) = filter (\<lambda>x. snd x \<noteq> snd e) (view r (delayed_key pre))"
        using push [of t] p True by (simp_all add: rem zset_commandsD(8) [OF R])
      then show ?thesis using taken Some
        by (intro exI [of _ "e # taken"]) (auto simp: decoded_def conj_commute simp flip: r1_def intro!: filter_cong)
    qed
  qed
qed

lemma subseq_set: "subseq xs ys \<Longrightarrow> set xs \<subseteq> set ys"
  by (induction rule: list_emb.induct) auto



section \<open>A server in memory\<close>

text \<open>The sorted sets, and the tasks a queue behind has accepted.\<close>

type_synonym rq_memory = "(string \<Rightarrow> zset) \<times> task list"

definition on_zset :: "string \<Rightarrow> (zset \<Rightarrow> zset) \<Rightarrow> rq_memory \<Rightarrow> rq_memory" where
  "on_zset k f r = ((fst r)(k := f (fst r k)), snd r)"

definition memory_queue :: "rq_memory queue_redis" where
  "memory_queue = \<lparr>
     qr_ZAdd = (\<lambda>k s m r. (True, on_zset k (zadd s m) r)),
     qr_ZPopMin = (\<lambda>k r. (map_option snd (if fst r k = [] then None else Some (hd (fst r k))), on_zset k tl r)),
     qr_ZFirst = (\<lambda>k r. map_option snd (if fst r k = [] then None else Some (hd (fst r k)))),
     qr_ZCard = (\<lambda>k r. Some (int (length (fst r k)))),
     qr_ZRangeByScore = (\<lambda>k lo hi r. Some (map snd (filter (\<lambda>e. lo \<le> fst e \<and> fst e \<le> hi) (fst r k)))),
     qr_ZRem = (\<lambda>k m r. on_zset k (filter (\<lambda>e. snd e \<noteq> m)) r),
     qr_HIncrBy = (\<lambda>k f n r. (True, r)),
     qr_Set = (\<lambda>k d ttl r. (True, on_zset k (\<lambda>_. []) r)),
     qr_Scan = (\<lambda>p r. None),
     qr_Del = (\<lambda>k r. (True, on_zset k (\<lambda>_. []) r))\<rparr>"

lemma memory_queue_ok: "zset_commands memory_queue fst"
  by (simp add: zset_commands_def memory_queue_def on_zset_def)

definition id_codec :: task_codec where
  "id_codec = \<lparr>tk_marshal = (\<lambda>t. Some (t_ID t)),
     tk_unmarshal = (\<lambda>d. if d = ''a'' \<or> d = ''b'' \<or> d = ''c'' then Some (task_Queue 0 (zero_task\<lparr>t_ID := d, t_Priority := (if d = ''b'' then 3 else 1)\<rparr>)) else None)\<rparr>"

definition sample_task :: "string \<Rightarrow> int \<Rightarrow> task" where
  "sample_task i p = zero_task\<lparr>t_ID := i, t_Priority := p\<rparr>"

lemma redis_queue_order_witness:
  "map t_ID (fst (rq_PopN memory_queue id_codec ''q'' 3
     (rq_push_all memory_queue id_codec ''q'' [(0, 2000000000, sample_task ''c'' 1), (0, 1000000000, sample_task ''a'' 1), (0, 3000000000, sample_task ''b'' 3)]
        (\<lambda>_. [], [])))) = [''b'', ''a'', ''c'']"
  by (subst redis_queue_order [OF memory_queue_ok, THEN conjunct1])
    (simp_all add: encodes_def id_codec_def sample_task_def on_wire_def task_Queue_def zero_task_def queued_as_def pop_order_simps
      in_turn_def of_priority_def queue_entry_def task_score_def wrap64_def)


text \<open>Clearing a queue deletes every key under its prefix, the coordinator's queue of pending tasks among them.\<close>

lemma coordinator_queue_matches: "HasPrefix (''crawler:queue:tasks:pending'') (''crawler'' @ '':queue:'')"
  by (simp add: HasPrefix_def)

text \<open>A task that does not decode is taken off the queue and ends a pop of several; the queue behind is not asked.\<close>

lemma undecodable_dropped:
  assumes "qr_ZPopMin R (getQueueKey pre PriorityUrgent) r = (Some d, r1)" and "tk_unmarshal C d = None"
  shows "rq_pops R C pre (Suc n) r = ([], r1)"
  using assms by (simp add: rq_Pop_def pop_order_def)

end
