(* ===== verification/ConfigLoader.thy ===== *)
theory ConfigLoader
  imports TaskDefs RedisQueue "HOL-Library.AList"
begin

text \<open>
  The loader of task configurations (src/crawler/task/config_loader.go): its file and Redis sources, the
  processing of definitions, templates and Lua scripts, the functions that scripts call, and the conversion
  of values between Go and Lua.  The Lua machine is an argument: its tables live in its state \<open>'l\<close> and are
  known by their address.  Files, the parsers of JSON and YAML and the Redis commands are arguments too.
\<close>

section \<open>Lua values and the machine\<close>

datatype lval = LNil | LBool bool | LNumber "64 word" | LString string | LTable nat | LFunction nat

datatype host_fn =
    LuaLog | LuaHTTPGet | LuaJSONDecode | LuaJSONEncode | LuaRedisGet | LuaRedisSet
  | LuaCreateTask | LuaCreateDefinition | LuaCreateTemplate
  | LuaSubmitTask | LuaGetTask | LuaUpdateTask | LuaExtractLinks | LuaExtractData | LuaSaveData | LuaQueryData

text \<open>
  A call of a Go function by a script returns values, panics (which \<open>PCall\<close> turns into an error), or
  exhausts the stack, which ends the process.
\<close>

datatype ('l, 'r) called = Returned "lval list" 'l 'r | Panicked 'l 'r | StackOverflow

text \<open>
  \<open>ForEach\<close> is given as the pairs it visits, in its order.  \<open>PCall\<close> runs a compiled function; it takes what
  a call of a host function does, where each call has its own identifier and instant, and the Redis those
  calls change.  It gives \<open>None\<close> when the process dies, and otherwise whether the script ended well.
\<close>

record ('l, 'r) lua =
  lu_NewTable :: "'l \<Rightarrow> nat \<times> 'l"
  lu_RawSetString :: "nat \<Rightarrow> string \<Rightarrow> lval \<Rightarrow> 'l \<Rightarrow> 'l"
  lu_RawSetInt :: "nat \<Rightarrow> int \<Rightarrow> lval \<Rightarrow> 'l \<Rightarrow> 'l"
  lu_RawGetInt :: "nat \<Rightarrow> int \<Rightarrow> 'l \<Rightarrow> lval"
  lu_ForEach :: "nat \<Rightarrow> 'l \<Rightarrow> (lval \<times> lval) list"
  lu_String :: "lval \<Rightarrow> string"
  lu_ToString :: "lval \<Rightarrow> string"
  lu_ToInt :: "lval \<Rightarrow> int"
  lu_NewFunction :: "host_fn \<Rightarrow> 'l \<Rightarrow> lval \<times> 'l"
  lu_SetGlobal :: "string \<Rightarrow> lval \<Rightarrow> 'l \<Rightarrow> 'l"
  lu_GetGlobal :: "string \<Rightarrow> 'l \<Rightarrow> lval"
  lu_LoadString :: "string \<Rightarrow> 'l \<Rightarrow> nat option \<times> 'l"
  lu_PCall :: "(string \<Rightarrow> gotime \<Rightarrow> host_fn \<Rightarrow> lval list \<Rightarrow> 'l \<Rightarrow> 'r \<Rightarrow> ('l, 'r) called) \<Rightarrow>
     nat \<Rightarrow> 'l \<Rightarrow> 'r \<Rightarrow> (bool \<times> 'l \<times> 'r) option"
  lu_of_int :: "int \<Rightarrow> 64 word"
  lu_to_int :: "64 word \<Rightarrow> int"

section \<open>Conversions\<close>

text \<open>\<open>sp\<close> is \<open>fmt.Sprint\<close>.\<close>

fun goToLua :: "('l, 'r) lua \<Rightarrow> (goval \<Rightarrow> string) \<Rightarrow> goval \<Rightarrow> 'l \<Rightarrow> lval \<times> 'l"
  and set_items :: "('l, 'r) lua \<Rightarrow> (goval \<Rightarrow> string) \<Rightarrow> nat \<Rightarrow> int \<Rightarrow> goval list \<Rightarrow> 'l \<Rightarrow> 'l"
  and set_fields :: "('l, 'r) lua \<Rightarrow> (goval \<Rightarrow> string) \<Rightarrow> nat \<Rightarrow> (string \<times> goval) list \<Rightarrow> 'l \<Rightarrow> 'l" where
  "goToLua L sp GNil l = (LNil, l)"
| "goToLua L sp (GBool b) l = (LBool b, l)"
| "goToLua L sp (GInt n) l = (LNumber (lu_of_int L n), l)"
| "goToLua L sp (GFloat f) l = (LNumber f, l)"
| "goToLua L sp (GStr s) l = (LString s, l)"
| "goToLua L sp (GList vs) l = (case lu_NewTable L l of (a, l1) \<Rightarrow> (LTable a, set_items L sp a 0 vs l1))"
| "goToLua L sp (GMap m) l = (case lu_NewTable L l of (a, l1) \<Rightarrow> (LTable a, set_fields L sp a m l1))"
| "goToLua L sp (GTime t) l = (LString (sp (GTime t)), l)"
| "goToLua L sp (GStrs ss) l = (LString (sp (GStrs ss)), l)"
| "set_items L sp a i [] l = l"
| "set_items L sp a i (v # vs) l =
     (case goToLua L sp v l of (x, l1) \<Rightarrow> set_items L sp a (i + 1) vs (lu_RawSetInt L a (i + 1) x l1))"
| "set_fields L sp a [] l = l"
| "set_fields L sp a ((k, v) # m) l =
     (case goToLua L sp v l of (x, l1) \<Rightarrow> set_fields L sp a m (lu_RawSetString L a k x l1))"

definition is_number :: "lval \<Rightarrow> bool" where
  "is_number x = (case x of LNumber _ \<Rightarrow> True | _ \<Rightarrow> False)"

text \<open>What \<open>luaToGo\<close> learns of a table: whether all keys are numbers, and the largest one as an integer.\<close>

definition table_shape :: "('l, 'r) lua \<Rightarrow> (lval \<times> lval) list \<Rightarrow> bool \<times> int" where
  "table_shape L kvs = fold (\<lambda>(key, _) (isArray, maxIndex). case key of
       LNumber w \<Rightarrow> (isArray, if lu_to_int L w > maxIndex then lu_to_int L w else maxIndex)
     | _ \<Rightarrow> (False, maxIndex)) kvs (True, 0)"

definition all_some :: "'a option list \<Rightarrow> 'a list option" where
  "all_some xs = (if None \<in> set xs then None else Some (List.map_filter id xs))"

text \<open>
  A table may contain itself; the code's recursion then ends only with the stack.  The first number is the
  stack that is left, and \<open>None\<close> its overflow.
\<close>

fun luaToGo :: "('l, 'r) lua \<Rightarrow> nat \<Rightarrow> 'l \<Rightarrow> lval \<Rightarrow> goval option" where
  "luaToGo L 0 l x = None"
| "luaToGo L (Suc n) l LNil = Some GNil"
| "luaToGo L (Suc n) l (LBool b) = Some (GBool b)"
| "luaToGo L (Suc n) l (LNumber w) = Some (GFloat w)"
| "luaToGo L (Suc n) l (LString s) = Some (GStr s)"
| "luaToGo L (Suc n) l (LFunction f) = Some (GStr (lu_String L (LFunction f)))"
| "luaToGo L (Suc n) l (LTable a) =
     (case table_shape L (lu_ForEach L a l) of (isArray, maxIndex) \<Rightarrow>
        if isArray \<and> maxIndex > 0
        then map_option GList (all_some (map (\<lambda>i. luaToGo L n l (lu_RawGetInt L a i l)) [1..maxIndex]))
        else map_option (\<lambda>vs. GMap (fold (\<lambda>(k, v) m. AList.update (lu_String L k) v m)
                 (zip (map fst (lu_ForEach L a l)) vs) []))
               (all_some (map (\<lambda>(k, v). luaToGo L n l v) (lu_ForEach L a l))))"

section \<open>Tasks and definitions as tables\<close>

definition taskToLuaTable :: "('l, 'r) lua \<Rightarrow> task \<Rightarrow> 'l \<Rightarrow> lval \<times> 'l" where
  "taskToLuaTable L t l =
     (case lu_NewTable L l of (a, l1) \<Rightarrow>
        (LTable a, lu_RawSetString L a ''status'' (LString (status_text (t_Status t)))
           (lu_RawSetString L a ''priority'' (LNumber (lu_of_int L (t_Priority t)))
             (lu_RawSetString L a ''type'' (LString (t_Type t))
               (lu_RawSetString L a ''url'' (LString (t_URL t))
                 (lu_RawSetString L a ''id'' (LString (t_ID t)) l1))))))"

definition status_of_text :: "string \<Rightarrow> status" where
  "status_of_text s = (if s = ''pending'' then StatusPending else if s = ''queued'' then StatusQueued
     else if s = ''running'' then StatusRunning else if s = ''completed'' then StatusCompleted
     else if s = ''failed'' then StatusFailed else if s = ''retrying'' then StatusRetrying
     else if s = ''cancelled'' then StatusCancelled else StatusOther s)"

definition task_field :: "('l, 'r) lua \<Rightarrow> lval \<times> lval \<Rightarrow> task \<Rightarrow> task" where
  "task_field L kv t = (case kv of (key, v) \<Rightarrow>
     let k = lu_String L key; s = lu_String L v
     in if k = ''id'' then t\<lparr>t_ID := s\<rparr>
        else if k = ''url'' then t\<lparr>t_URL := s\<rparr>
        else if k = ''type'' then t\<lparr>t_Type := s\<rparr>
        else if k = ''priority'' then (case v of LNumber w \<Rightarrow> t\<lparr>t_Priority := lu_to_int L w\<rparr> | _ \<Rightarrow> t)
        else if k = ''status'' then t\<lparr>t_Status := status_of_text s\<rparr>
        else t)"

definition luaTableToTask :: "('l, 'r) lua \<Rightarrow> nat \<Rightarrow> 'l \<Rightarrow> task" where
  "luaTableToTask L a l = fold (task_field L) (lu_ForEach L a l) zero_task"

text \<open>The zero value of a definition, with the maps that the conversion makes.\<close>

definition blank_def :: task_def where
  "blank_def = \<lparr>df_ID = '''', df_Name = '''', df_Version = '''', df_Description = '''', df_Author = '''', df_Category = '''',
     df_Type = '''', df_Priority = 0, df_Method = '''', df_Headers = Some Map.empty, df_DefaultTimeout = 0, df_MaxRetries = 0,
     df_RetryInterval = 0, df_ExtractRules = [], df_LinkRules = [], df_Pipeline = '''', df_Processors = [], df_Storage = '''',
     df_Deduplication = \<lparr>dd_Enabled = False, dd_Strategy = '''', dd_Fields = [], dd_Expiration = 0\<rparr>, df_Validator = None,
     df_Schema = GNil, df_Hooks = \<lparr>hk_BeforeExecute = None, hk_AfterExecute = None, hk_OnSuccess = None, hk_OnFailure = None, hk_OnRetry = None\<rparr>,
     df_Tags = [], df_Labels = Some Map.empty, df_Metadata = Some Map.empty, df_Active = False,
     df_CreatedAt = time_zero, df_UpdatedAt = time_zero\<rparr>"

definition def_field :: "('l, 'r) lua \<Rightarrow> lval \<times> lval \<Rightarrow> task_def \<Rightarrow> task_def" where
  "def_field L kv d = (case kv of (key, v) \<Rightarrow>
     let k = lu_String L key; s = lu_String L v
     in if k = ''id'' then d\<lparr>df_ID := s\<rparr>
        else if k = ''name'' then d\<lparr>df_Name := s\<rparr>
        else if k = ''type'' then d\<lparr>df_Type := s\<rparr>
        else if k = ''priority'' then (case v of LNumber w \<Rightarrow> d\<lparr>df_Priority := lu_to_int L w\<rparr> | _ \<Rightarrow> d)
        else d)"

definition luaTableToTaskDef :: "('l, 'r) lua \<Rightarrow> nat \<Rightarrow> 'l \<Rightarrow> task_def" where
  "luaTableToTaskDef L a l = fold (def_field L) (lu_ForEach L a l) blank_def"

section \<open>What scripts can call\<close>

text \<open>
  The environment of the loader: \<open>fmt.Sprint\<close>, the JSON functions (an \<open>Inl\<close> is the text of the error), the
  contents of files, the parsers of configurations, and the digest of addresses.
\<close>

record script_conf =
  cs_ID :: string
  cs_Name :: string
  cs_Description :: string
  cs_Language :: string
  cs_Source :: string
  cs_Content :: string
  cs_File :: string
  cs_URL :: string
  cs_Parameters :: "(string \<rightharpoonup> goval) option"
  cs_Schedule :: string

record task_config =
  tcf_Type :: string
  tcf_Definition :: "task_def option"
  tcf_Template :: "task_template option"
  tcf_Script :: "script_conf option"
  tcf_Metadata :: "(string \<rightharpoonup> goval) option"

text \<open>The elements of a list of configurations are pointers: a JSON \<open>null\<close> gives a nil one.\<close>

record config_env =
  ce_Sprint :: "goval \<Rightarrow> string"
  ce_Unmarshal :: "string \<Rightarrow> string + goval"
  ce_Marshal :: "goval \<Rightarrow> string + string"
  ce_ReadFile :: "string \<Rightarrow> string option"
  ce_json_configs :: "string \<Rightarrow> task_config option list option"
  ce_yaml_configs :: "string \<Rightarrow> task_config option list option"
  ce_json_config :: "string \<Rightarrow> task_config option"
  ce_hash :: "string \<Rightarrow> string"
  ce_stack :: nat

text \<open>A missing argument is nil.\<close>

definition lua_arg :: "nat \<Rightarrow> lval list \<Rightarrow> lval" where
  "lua_arg i args = (if i \<le> length args then args ! (i - 1) else LNil)"

definition luaJSONDecode :: "('l, 'r) lua \<Rightarrow> config_env \<Rightarrow> lval list \<Rightarrow> 'l \<Rightarrow> 'r \<Rightarrow> ('l, 'r) called" where
  "luaJSONDecode L E args l r =
     (case ce_Unmarshal E (lu_ToString L (lua_arg 1 args)) of
        Inl e \<Rightarrow> Returned [LNil, LString e] l r
      | Inr data \<Rightarrow> (case goToLua L (ce_Sprint E) data l of (x, l1) \<Rightarrow> Returned [x] l1 r))"

definition luaJSONEncode :: "('l, 'r) lua \<Rightarrow> config_env \<Rightarrow> lval list \<Rightarrow> 'l \<Rightarrow> 'r \<Rightarrow> ('l, 'r) called" where
  "luaJSONEncode L E args l r =
     (case luaToGo L (ce_stack E) l (lua_arg 1 args) of
        None \<Rightarrow> StackOverflow
      | Some v \<Rightarrow> (case ce_Marshal E v of
            Inl e \<Rightarrow> Returned [LNil, LString e] l r
          | Inr s \<Rightarrow> Returned [LString s] l r))"

definition luaRedisGet :: "('l, 'r) lua \<Rightarrow> ('r, string) kv_commands \<Rightarrow> gotime \<Rightarrow> lval list \<Rightarrow> 'l \<Rightarrow> 'r \<Rightarrow> ('l, 'r) called" where
  "luaRedisGet L K now args l r =
     (case kvs_Get K now (lu_ToString L (lua_arg 1 args)) r of
        None \<Rightarrow> Returned [LNil] l r
      | Some s \<Rightarrow> Returned [LString s] l r)"

definition luaRedisSet :: "('l, 'r) lua \<Rightarrow> ('r, string) kv_commands \<Rightarrow> gotime \<Rightarrow> lval list \<Rightarrow> 'l \<Rightarrow> 'r \<Rightarrow> ('l, 'r) called" where
  "luaRedisSet L K now args l r =
     (case kvs_Set K now (lu_ToString L (lua_arg 1 args)) (lu_ToString L (lua_arg 2 args)) 0 r of
        (ok, r1) \<Rightarrow> Returned [LBool ok] l r1)"

definition luaCreateTask :: "('l, 'r) lua \<Rightarrow> config_env \<Rightarrow> string \<Rightarrow> gotime \<Rightarrow> lval list \<Rightarrow> 'l \<Rightarrow> 'r \<Rightarrow> ('l, 'r) called" where
  "luaCreateTask L E uuid now args l r =
     (let t = NewTask (ce_hash E) uuid now (lu_ToString L (lua_arg 1 args)) (lu_ToString L (lua_arg 2 args)) (lu_ToInt L (lua_arg 3 args))
      in case taskToLuaTable L t l of (x, l1) \<Rightarrow> Returned [x] l1 r)"

text \<open>Submitting converts the table and logs; nothing else happens.  An argument that is no table is a nil pointer.\<close>

definition luaSubmitTask :: "('l, 'r) lua \<Rightarrow> lval list \<Rightarrow> 'l \<Rightarrow> 'r \<Rightarrow> ('l, 'r) called" where
  "luaSubmitTask L args l r = (case lua_arg 1 args of LTable _ \<Rightarrow> Returned [] l r | _ \<Rightarrow> Panicked l r)"

definition luaHTTPGet :: "'l \<Rightarrow> 'r \<Rightarrow> ('l, 'r) called" where
  "luaHTTPGet l r = Returned [LString ''{\"status\": 200, \"body\": \"mock response\"}''] l r"

definition host_call :: "('l, 'r) lua \<Rightarrow> config_env \<Rightarrow> ('r, string) kv_commands \<Rightarrow> string \<Rightarrow> gotime \<Rightarrow> host_fn \<Rightarrow> lval list \<Rightarrow>
    'l \<Rightarrow> 'r \<Rightarrow> ('l, 'r) called" where
  "host_call L E K uuid now f args l r = (case f of
       LuaHTTPGet \<Rightarrow> luaHTTPGet l r
     | LuaJSONDecode \<Rightarrow> luaJSONDecode L E args l r
     | LuaJSONEncode \<Rightarrow> luaJSONEncode L E args l r
     | LuaRedisGet \<Rightarrow> luaRedisGet L K now args l r
     | LuaRedisSet \<Rightarrow> luaRedisSet L K now args l r
     | LuaCreateTask \<Rightarrow> luaCreateTask L E uuid now args l r
     | LuaSubmitTask \<Rightarrow> luaSubmitTask L args l r
     | _ \<Rightarrow> Returned [] l r)"

definition lua_constants :: "('l, 'r) lua \<Rightarrow> (string \<times> lval) list" where
  "lua_constants L =
     [(''TYPE_SEED'', LString ''seed''), (''TYPE_DETAIL'', LString ''detail''), (''TYPE_LIST'', LString ''list''),
      (''TYPE_API'', LString ''api''), (''TYPE_BROWSER'', LString ''browser''), (''TYPE_AGGREGATE'', LString ''aggregate''),
      (''PRIORITY_LOW'', LNumber (lu_of_int L PriorityLow)), (''PRIORITY_NORMAL'', LNumber (lu_of_int L PriorityNormal)),
      (''PRIORITY_HIGH'', LNumber (lu_of_int L PriorityHigh)), (''PRIORITY_URGENT'', LNumber (lu_of_int L PriorityUrgent)),
      (''STATUS_PENDING'', LString ''pending''), (''STATUS_QUEUED'', LString ''queued''), (''STATUS_RUNNING'', LString ''running''),
      (''STATUS_COMPLETED'', LString ''completed''), (''STATUS_FAILED'', LString ''failed''), (''STATUS_RETRYING'', LString ''retrying''),
      (''STATUS_CANCELLED'', LString ''cancelled'')]"

definition set_function :: "('l, 'r) lua \<Rightarrow> (string \<Rightarrow> lval \<Rightarrow> 'l \<Rightarrow> 'l) \<Rightarrow> string \<times> host_fn \<Rightarrow> 'l \<Rightarrow> 'l" where
  "set_function L put nf l = (case lu_NewFunction L (snd nf) l of (x, l1) \<Rightarrow> put (fst nf) x l1)"

definition createCrawlerAPI :: "('l, 'r) lua \<Rightarrow> 'l \<Rightarrow> lval \<times> 'l" where
  "createCrawlerAPI L l =
     (case lu_NewTable L l of (a, l1) \<Rightarrow>
        (LTable a, fold (set_function L (lu_RawSetString L a))
           [(''submit_task'', LuaSubmitTask), (''get_task'', LuaGetTask), (''update_task'', LuaUpdateTask),
            (''extract_links'', LuaExtractLinks), (''extract_data'', LuaExtractData),
            (''save_data'', LuaSaveData), (''query_data'', LuaQueryData)] l1))"

definition setupLuaEnvironment :: "('l, 'r) lua \<Rightarrow> 'l \<Rightarrow> 'l" where
  "setupLuaEnvironment L l =
     (let l1 = fold (\<lambda>(n, x). lu_SetGlobal L n x) (lua_constants L) l;
          l3 = (case createCrawlerAPI L l1 of (x, l2) \<Rightarrow> lu_SetGlobal L ''crawler'' x l2)
      in fold (set_function L (lu_SetGlobal L))
           [(''log'', LuaLog), (''http_get'', LuaHTTPGet), (''json_decode'', LuaJSONDecode), (''json_encode'', LuaJSONEncode),
            (''redis_get'', LuaRedisGet), (''redis_set'', LuaRedisSet), (''create_task'', LuaCreateTask),
            (''create_definition'', LuaCreateDefinition), (''create_template'', LuaCreateTemplate)] l3)"

section \<open>The loader\<close>

datatype config_source = FileSource string | RedisSource string

record 'l config_loader =
  cl_registry :: task_registry
  cl_prefix :: string
  cl_lua :: 'l
  cl_sources :: "config_source list"
  cl_scriptCache :: "string \<rightharpoonup> nat"

definition AddSource :: "config_source \<Rightarrow> 'l config_loader \<Rightarrow> 'l config_loader" where
  "AddSource s cl = cl\<lparr>cl_sources := cl_sources cl @ [s]\<rparr>"

text \<open>\<open>l\<close> is the state of a new Lua machine.\<close>

definition NewConfigLoader :: "('l, 'r) lua \<Rightarrow> 'l \<Rightarrow> task_registry \<Rightarrow> string \<Rightarrow> string list \<Rightarrow> 'l config_loader" where
  "NewConfigLoader L l g pre paths =
     AddSource (RedisSource pre) (fold (\<lambda>p. AddSource (FileSource p)) paths
       \<lparr>cl_registry = g, cl_prefix = pre, cl_lua = setupLuaEnvironment L l, cl_sources = [], cl_scriptCache = Map.empty\<rparr>)"

datatype load_error =
    UnknownType string
  | NotRegistered registry_error
  | ScriptUnreadable
  | URLNotImplemented
  | UnknownScriptSource string
  | NotCompiled
  | ScriptFailed
  | TasksNotTable

text \<open>
  A script's tasks are read from the global \<open>tasks\<close>.  An entry that is no table ends the process: the type
  assertion is outside \<open>PCall\<close>.  A definition that is refused is only logged.
\<close>

definition script_def :: "script_conf \<Rightarrow> task_def \<Rightarrow> task_def" where
  "script_def s d = d\<lparr>df_Metadata := Some ((entries (df_Metadata d))(''script_id'' \<mapsto> GStr (cs_ID s), ''script_name'' \<mapsto> GStr (cs_Name s)))\<rparr>"

fun register_tasks :: "('l, 'r) lua \<Rightarrow> ('r, string) kv_commands \<Rightarrow> string def_codec \<Rightarrow> gotime \<Rightarrow> script_conf \<Rightarrow> (lval \<times> lval) list \<Rightarrow> 'l \<Rightarrow>
    task_registry \<Rightarrow> 'r \<Rightarrow> (task_registry \<times> 'r) option" where
  "register_tasks L K C now s [] l g r = Some (g, r)"
| "register_tasks L K C now s ((key, value) # kvs) l g r = (case value of
       LTable a \<Rightarrow> (case RegisterDefinition K C now (script_def s (luaTableToTaskDef L a l)) g r of
           (e, d, g1, r1) \<Rightarrow> register_tasks L K C now s kvs l g1 r1)
     | _ \<Rightarrow> None)"

definition registerScriptTasks :: "('l, 'r) lua \<Rightarrow> config_env \<Rightarrow> ('r, string) kv_commands \<Rightarrow> string def_codec \<Rightarrow> gotime \<Rightarrow> script_conf \<Rightarrow> nat \<Rightarrow>
    'l config_loader \<Rightarrow> 'r \<Rightarrow> (load_error option \<times> 'l config_loader \<times> 'r) option" where
  "registerScriptTasks L E K C now s fn cl r =
     (case lu_PCall L (host_call L E K) fn (cl_lua cl) r of
        None \<Rightarrow> None
      | Some (ok, l1, r1) \<Rightarrow>
          let cl1 = cl\<lparr>cl_lua := l1\<rparr>
          in if \<not> ok then Some (Some ScriptFailed, cl1, r1)
             else (case lu_GetGlobal L ''tasks'' l1 of
                 LNil \<Rightarrow> Some (None, cl1, r1)
               | LTable a \<Rightarrow> (case register_tasks L K C now s (lu_ForEach L a l1) l1 (cl_registry cl1) r1 of
                     None \<Rightarrow> None
                   | Some (g, r2) \<Rightarrow> Some (None, cl1\<lparr>cl_registry := g\<rparr>, r2))
               | _ \<Rightarrow> Some (Some TasksNotTable, cl1, r1)))"

definition script_text :: "config_env \<Rightarrow> script_conf \<Rightarrow> load_error + string" where
  "script_text E s =
     (if cs_Source s = ''inline'' then Inr (cs_Content s)
      else if cs_Source s = ''file'' then (case ce_ReadFile E (cs_File s) of None \<Rightarrow> Inl ScriptUnreadable | Some t \<Rightarrow> Inr t)
      else if cs_Source s = ''url'' then Inl URLNotImplemented
      else Inl (UnknownScriptSource (cs_Source s)))"

definition loadScript :: "('l, 'r) lua \<Rightarrow> config_env \<Rightarrow> ('r, string) kv_commands \<Rightarrow> string def_codec \<Rightarrow> gotime \<Rightarrow> script_conf \<Rightarrow>
    'l config_loader \<Rightarrow> 'r \<Rightarrow> (load_error option \<times> 'l config_loader \<times> 'r) option" where
  "loadScript L E K C now s cl r =
     (case script_text E s of
        Inl e \<Rightarrow> Some (Some e, cl, r)
      | Inr t \<Rightarrow> (case lu_LoadString L t (cl_lua cl) of
            (None, l1) \<Rightarrow> Some (Some NotCompiled, cl\<lparr>cl_lua := l1\<rparr>, r)
          | (Some fn, l1) \<Rightarrow>
              registerScriptTasks L E K C now s fn
                (cl\<lparr>cl_lua := l1, cl_scriptCache := (cl_scriptCache cl)(cs_ID s \<mapsto> fn)\<rparr>) r))"

text \<open>A configuration whose body is missing is accepted.\<close>

definition processConfig :: "('l, 'r) lua \<Rightarrow> config_env \<Rightarrow> ('r, string) kv_commands \<Rightarrow> string def_codec \<Rightarrow> gotime \<Rightarrow> task_config \<Rightarrow>
    'l config_loader \<Rightarrow> 'r \<Rightarrow> (load_error option \<times> 'l config_loader \<times> 'r) option" where
  "processConfig L E K C now c cl r =
     (if tcf_Type c = ''definition'' then (case tcf_Definition c of
          None \<Rightarrow> Some (None, cl, r)
        | Some d \<Rightarrow> (case RegisterDefinition K C now d (cl_registry cl) r of
              (e, _, g, r1) \<Rightarrow> Some (map_option NotRegistered e, cl\<lparr>cl_registry := g\<rparr>, r1)))
      else if tcf_Type c = ''template'' then (case tcf_Template c of
          None \<Rightarrow> Some (None, cl, r)
        | Some m \<Rightarrow> (case RegisterTemplate K C now m (cl_registry cl) r of
              (e, g, r1) \<Rightarrow> Some (map_option NotRegistered e, cl\<lparr>cl_registry := g\<rparr>, r1)))
      else if tcf_Type c = ''script'' then (case tcf_Script c of
          None \<Rightarrow> Some (None, cl, r)
        | Some s \<Rightarrow> loadScript L E K C now s cl r)
      else Some (Some (UnknownType (tcf_Type c)), cl, r))"

text \<open>Reading the type of a nil configuration ends the process.  The count is that of the configurations accepted.\<close>

fun process_configs :: "('l, 'r) lua \<Rightarrow> config_env \<Rightarrow> ('r, string) kv_commands \<Rightarrow> string def_codec \<Rightarrow> gotime \<Rightarrow> task_config option list \<Rightarrow>
    nat \<times> 'l config_loader \<times> 'r \<Rightarrow> (nat \<times> 'l config_loader \<times> 'r) option" where
  "process_configs L E K C now [] s = Some s"
| "process_configs L E K C now (None # cs) s = None"
| "process_configs L E K C now (Some c # cs) (n, cl, r) =
     (case processConfig L E K C now c cl r of
        None \<Rightarrow> None
      | Some (e, cl1, r1) \<Rightarrow> process_configs L E K C now cs (if e = None then n + 1 else n, cl1, r1))"

section \<open>Sources\<close>

text \<open>\<open>filepath.Ext\<close> and \<open>filepath.Base\<close> on a path with slashes.\<close>

definition path_Ext :: "string \<Rightarrow> string" where
  "path_Ext p =
     (let e = takeWhile (\<lambda>c. c \<noteq> CHR ''.'' \<and> c \<noteq> CHR ''/'') (rev p)
      in if length e < length p \<and> rev p ! length e = CHR ''.'' then CHR ''.'' # rev e else [])"

definition path_Base :: "string \<Rightarrow> string" where
  "path_Base p =
     (let q = dropWhile (\<lambda>c. c = CHR ''/'') (rev p)
      in if p = [] then ''.'' else if q = [] then ''/'' else rev (takeWhile (\<lambda>c. c \<noteq> CHR ''/'') q))"

definition source_Name :: "config_source \<Rightarrow> string" where
  "source_Name s = (case s of FileSource p \<Rightarrow> ''file:'' @ p | RedisSource _ \<Rightarrow> ''redis'')"

definition lua_file_config :: "string \<Rightarrow> task_config" where
  "lua_file_config p = \<lparr>tcf_Type = ''script'', tcf_Definition = None, tcf_Template = None,
     tcf_Script = Some \<lparr>cs_ID = path_Base p, cs_Name = path_Base p, cs_Description = '''', cs_Language = ''lua'', cs_Source = ''file'',
       cs_Content = '''', cs_File = p, cs_URL = '''', cs_Parameters = None, cs_Schedule = ''''\<rparr>, tcf_Metadata = None\<rparr>"

definition file_Load :: "config_env \<Rightarrow> string \<Rightarrow> task_config option list option" where
  "file_Load E p =
     (let ext = ToLower (path_Ext p)
      in case ce_ReadFile E p of
           None \<Rightarrow> None
         | Some data \<Rightarrow>
             if ext = ''.json'' then ce_json_configs E data
             else if ext = ''.yaml'' \<or> ext = ''.yml'' then ce_yaml_configs E data
             else if ext = ''.lua'' then Some [Some (lua_file_config p)]
             else None)"

text \<open>A key that cannot be read or parsed is skipped.\<close>

definition redis_Load :: "config_env \<Rightarrow> ('r, string) kv_commands \<Rightarrow> gotime \<Rightarrow> string \<Rightarrow> 'r \<Rightarrow> task_config option list option" where
  "redis_Load E K now pre r =
     map_option (List.map_filter (\<lambda>key. case kvs_Get K now key r of
          None \<Rightarrow> None
        | Some data \<Rightarrow> map_option Some (ce_json_config E data)))
       (kvs_Keys K now (pre @ '':config:*'') r)"

definition source_Load :: "config_env \<Rightarrow> ('r, string) kv_commands \<Rightarrow> gotime \<Rightarrow> config_source \<Rightarrow> 'r \<Rightarrow> task_config option list option" where
  "source_Load E K now s r = (case s of FileSource p \<Rightarrow> file_Load E p | RedisSource pre \<Rightarrow> redis_Load E K now pre r)"

fun load_sources :: "('l, 'r) lua \<Rightarrow> config_env \<Rightarrow> ('r, string) kv_commands \<Rightarrow> string def_codec \<Rightarrow> gotime \<Rightarrow> config_source list \<Rightarrow>
    nat \<times> 'l config_loader \<times> 'r \<Rightarrow> (nat \<times> 'l config_loader \<times> 'r) option" where
  "load_sources L E K C now [] s = Some s"
| "load_sources L E K C now (src # srcs) (n, cl, r) =
     (case source_Load E K now src r of
        None \<Rightarrow> load_sources L E K C now srcs (n, cl, r)
      | Some cs \<Rightarrow> (case process_configs L E K C now cs (n, cl, r) of
            None \<Rightarrow> None
          | Some s \<Rightarrow> load_sources L E K C now srcs s))"

definition LoadAll :: "('l, 'r) lua \<Rightarrow> config_env \<Rightarrow> ('r, string) kv_commands \<Rightarrow> string def_codec \<Rightarrow> gotime \<Rightarrow> 'l config_loader \<Rightarrow> 'r \<Rightarrow>
    (nat \<times> 'l config_loader \<times> 'r) option" where
  "LoadAll L E K C now cl r = load_sources L E K C now (cl_sources cl) (0, cl, r)"

section \<open>Values that pass through Lua\<close>

text \<open>
  What the code relies on of Lua tables, which it can only reach by their address: a new table is empty and
  of a new address, a write changes one entry of one table (writing nil removes it), a read gives nil where
  there is no entry, \<open>ForEach\<close> visits each entry once, in any order, and a number is a float that holds an
  integer of 53 bits exactly.
\<close>

definition put_entry :: "lval \<Rightarrow> lval \<Rightarrow> (lval \<rightharpoonup> lval) \<Rightarrow> lval \<rightharpoonup> lval" where
  "put_entry k x m = m(k := (if x = LNil then None else Some x))"

definition table_read :: "lval option \<Rightarrow> lval" where
  "table_read x = (case x of None \<Rightarrow> LNil | Some y \<Rightarrow> y)"

abbreviation max_index :: int where "max_index \<equiv> 2 ^ 53"

definition lua_tables :: "('l, 'r) lua \<Rightarrow> ('l \<Rightarrow> nat \<Rightarrow> lval \<rightharpoonup> lval) \<Rightarrow> ('l \<Rightarrow> nat set) \<Rightarrow> bool" where
  "lua_tables L view made \<longleftrightarrow>
     (\<forall>l a l'. lu_NewTable L l = (a, l') \<longrightarrow>
        a \<notin> made l \<and> made l' = insert a (made l) \<and> view l' = (view l)(a := Map.empty)) \<and>
     (\<forall>l a k x. made (lu_RawSetString L a k x l) = made l \<and>
        view (lu_RawSetString L a k x l) = (view l)(a := put_entry (LString k) x (view l a))) \<and>
     (\<forall>l a i x. made (lu_RawSetInt L a i x l) = made l \<and>
        view (lu_RawSetInt L a i x l) = (view l)(a := put_entry (LNumber (lu_of_int L i)) x (view l a))) \<and>
     (\<forall>l a i. lu_RawGetInt L a i l = table_read (view l a (LNumber (lu_of_int L i)))) \<and>
     (\<forall>l a. distinct (map fst (lu_ForEach L a l)) \<and> map_of (lu_ForEach L a l) = view l a) \<and>
     (\<forall>s. lu_String L (LString s) = s) \<and>
     (\<forall>i. 0 \<le> i \<and> i \<le> max_index \<longrightarrow> lu_to_int L (lu_of_int L i) = i)"

lemma lua_tablesD:
  assumes "lua_tables L view made"
  shows "lu_NewTable L l = (a, l') \<Longrightarrow> a \<notin> made l" "lu_NewTable L l = (a, l') \<Longrightarrow> made l' = insert a (made l)"
    "lu_NewTable L l = (a, l') \<Longrightarrow> view l' = (view l)(a := Map.empty)"
    "made (lu_RawSetString L a k x l) = made l"
    "view (lu_RawSetString L a k x l) = (view l)(a := put_entry (LString k) x (view l a))"
    "made (lu_RawSetInt L a i x l) = made l"
    "view (lu_RawSetInt L a i x l) = (view l)(a := put_entry (LNumber (lu_of_int L i)) x (view l a))"
    "lu_RawGetInt L a i l = table_read (view l a (LNumber (lu_of_int L i)))"
    "distinct (map fst (lu_ForEach L a l))" "map_of (lu_ForEach L a l) = view l a"
    "lu_String L (LString s) = s"
    "0 \<le> i \<Longrightarrow> i \<le> max_index \<Longrightarrow> lu_to_int L (lu_of_int L i) = i"
  using assms by (simp_all add: lua_tables_def)

text \<open>The entries that the two loops of \<open>goToLua\<close> write.\<close>

fun items_map :: "('l, 'r) lua \<Rightarrow> int \<Rightarrow> lval list \<Rightarrow> (lval \<rightharpoonup> lval) \<Rightarrow> lval \<rightharpoonup> lval" where
  "items_map L i [] m = m"
| "items_map L i (x # xs) m = items_map L (i + 1) xs (put_entry (LNumber (lu_of_int L (i + 1))) x m)"

fun fields_map :: "string list \<Rightarrow> lval list \<Rightarrow> (lval \<rightharpoonup> lval) \<Rightarrow> lval \<rightharpoonup> lval" where
  "fields_map (k # ks) (x # xs) m = fields_map ks xs (put_entry (LString k) x m)"
| "fields_map _ _ m = m"

text \<open>A Lua value stands for a Go value, through tables at the addresses of a set.\<close>

inductive stands :: "('l, 'r) lua \<Rightarrow> (goval \<Rightarrow> string) \<Rightarrow> (nat \<Rightarrow> lval \<rightharpoonup> lval) \<Rightarrow> nat set \<Rightarrow> goval \<Rightarrow> lval \<Rightarrow> bool"
  for L sp c S where
  "stands L sp c S GNil LNil"
| "stands L sp c S (GBool b) (LBool b)"
| "stands L sp c S (GInt n) (LNumber (lu_of_int L n))"
| "stands L sp c S (GFloat f) (LNumber f)"
| "stands L sp c S (GStr s) (LString s)"
| "stands L sp c S (GTime t) (LString (sp (GTime t)))"
| "stands L sp c S (GStrs ss) (LString (sp (GStrs ss)))"
| "list_all2 (stands L sp c S) vs xs \<Longrightarrow> a \<in> S \<Longrightarrow> c a = items_map L 0 xs Map.empty \<Longrightarrow> stands L sp c S (GList vs) (LTable a)"
| "list_all2 (stands L sp c S) (map snd m) xs \<Longrightarrow> a \<in> S \<Longrightarrow> c a = fields_map (map fst m) xs Map.empty \<Longrightarrow>
     stands L sp c S (GMap m) (LTable a)"

lemma stands_mono: "stands L sp c S v x \<Longrightarrow> S \<subseteq> S' \<Longrightarrow> (\<And>a. a \<in> S \<Longrightarrow> c' a = c a) \<Longrightarrow> stands L sp c' S' v x"
proof (induction rule: stands.induct)
  case (8 vs xs a)
  then show ?case by (auto intro!: stands.intros(8) elim!: list_all2_mono)
next
  case (9 m xs a)
  then show ?case by (auto intro!: stands.intros(9) elim!: list_all2_mono split: prod.splits)
qed (auto intro: stands.intros)

lemma stands_list_mono:
  "list_all2 (stands L sp c S) vs xs \<Longrightarrow> S \<subseteq> S' \<Longrightarrow> (\<And>a. a \<in> S \<Longrightarrow> c' a = c a) \<Longrightarrow> list_all2 (stands L sp c' S') vs xs"
  by (erule list_all2_mono) (rule stands_mono)

lemma stands_nil: "stands L sp c S v x \<Longrightarrow> x = LNil \<longleftrightarrow> v = GNil"
  by (auto elim: stands.cases intro: stands.intros)

text \<open>Writing a value touches no table that was there before.\<close>

definition only_adds :: "('l \<Rightarrow> nat \<Rightarrow> lval \<rightharpoonup> lval) \<Rightarrow> ('l \<Rightarrow> nat set) \<Rightarrow> nat set \<Rightarrow> 'l \<Rightarrow> 'l \<Rightarrow> bool" where
  "only_adds view made W l l' \<longleftrightarrow> made l \<subseteq> made l' \<and> (\<forall>b \<in> made l - W. view l' b = view l b)"

lemma only_adds_trans: "only_adds view made W l l1 \<Longrightarrow> only_adds view made W l1 l2 \<Longrightarrow> only_adds view made W l l2"
  unfolding only_adds_def by (auto simp: subset_iff)

lemma goToLua_stands:
  assumes L: "lua_tables L view made"
  shows "goToLua L sp v l = (x, l') \<Longrightarrow>
           only_adds view made {} l l' \<and> stands L sp (view l') (made l' - made l) v x"
    and "a \<in> made l \<Longrightarrow> set_items L sp a i vs l = l' \<Longrightarrow>
           \<exists>xs. only_adds view made {a} l l' \<and> list_all2 (stands L sp (view l') (made l' - made l)) vs xs \<and>
                view l' a = items_map L i xs (view l a)"
    and "a \<in> made l \<Longrightarrow> set_fields L sp a m l = l' \<Longrightarrow>
           \<exists>xs. only_adds view made {a} l l' \<and> list_all2 (stands L sp (view l') (made l' - made l)) (map snd m) xs \<and>
                view l' a = fields_map (map fst m) xs (view l a)"
  using L
proof (induction L sp v l and L sp a i vs l and L sp a m l arbitrary: x l' and l' and l' rule: goToLua_set_items_set_fields.induct)
  case (6 L sp vs l)
  obtain a l1 where n: "lu_NewTable L l = (a, l1)" by (cases "lu_NewTable L l")
  note new = lua_tablesD(1-3)[OF "6.prems"(2) n]
  have x: "x = LTable a" and l': "set_items L sp a 0 vs l1 = l'" using "6.prems"(1) n by auto
  obtain xs where xs: "only_adds view made {a} l1 l'" "list_all2 (stands L sp (view l') (made l' - made l1)) vs xs"
      "view l' a = items_map L 0 xs (view l1 a)"
    using "6.IH"[OF n[symmetric] _ l' "6.prems"(2)] new by auto
  show ?case
    using new xs x by (auto simp: only_adds_def intro!: stands.intros(8) intro: stands_list_mono)
next
  case (7 L sp m l)
  obtain a l1 where n: "lu_NewTable L l = (a, l1)" by (cases "lu_NewTable L l")
  note new = lua_tablesD(1-3)[OF "7.prems"(2) n]
  have x: "x = LTable a" and l': "set_fields L sp a m l1 = l'" using "7.prems"(1) n by auto
  obtain xs where xs: "only_adds view made {a} l1 l'" "list_all2 (stands L sp (view l') (made l' - made l1)) (map snd m) xs"
      "view l' a = fields_map (map fst m) xs (view l1 a)"
    using "7.IH"[OF n[symmetric] _ l' "7.prems"(2)] new by auto
  show ?case
    using new xs x by (auto simp: only_adds_def intro!: stands.intros(9) intro: stands_list_mono)
next
  case (11 L sp a i v vs l)
  obtain y l1 where g: "goToLua L sp v l = (y, l1)" by (cases "goToLua L sp v l")
  let ?l2 = "lu_RawSetInt L a (i + 1) y l1"
  note w = lua_tablesD(6,7)[OF "11.prems"(3), of a "i + 1" y l1]
  have v: "only_adds view made {} l l1" "stands L sp (view l1) (made l1 - made l) v y"
    using "11.IH"(1)[OF g "11.prems"(3)] by auto
  have "a \<in> made ?l2" using v(1) w(1) "11.prems"(1) by (auto simp: only_adds_def)
  then obtain xs where xs: "only_adds view made {a} ?l2 l'" "list_all2 (stands L sp (view l') (made l' - made ?l2)) vs xs"
      "view l' a = items_map L (i + 1) xs (view ?l2 a)"
    using "11.IH"(2)[OF g[symmetric] _ _ "11.prems"(3)] "11.prems"(2) g by auto
  note moved = "11.prems"(1) v xs w
  have "stands L sp (view l') (made l' - made l) v y"
    using moved by (auto simp: only_adds_def intro!: stands_mono[OF v(2)])
  moreover have "list_all2 (stands L sp (view l') (made l' - made l)) vs xs"
    using moved by (auto simp: only_adds_def intro!: stands_list_mono[OF xs(2)])
  moreover have "only_adds view made {a} l l'" using v(1) xs(1) w by (simp add: only_adds_def subset_iff)
  moreover have "view l' a = items_map L i (y # xs) (view l a)" using moved by (auto simp: only_adds_def)
  ultimately show ?case by (intro exI[of _ "y # xs"]) simp
next
  case (13 L sp a k v m l)
  obtain y l1 where g: "goToLua L sp v l = (y, l1)" by (cases "goToLua L sp v l")
  let ?l2 = "lu_RawSetString L a k y l1"
  note w = lua_tablesD(4,5)[OF "13.prems"(3), of a k y l1]
  have v: "only_adds view made {} l l1" "stands L sp (view l1) (made l1 - made l) v y"
    using "13.IH"(1)[OF g "13.prems"(3)] by auto
  have "a \<in> made ?l2" using v(1) w(1) "13.prems"(1) by (auto simp: only_adds_def)
  then obtain xs where xs: "only_adds view made {a} ?l2 l'" "list_all2 (stands L sp (view l') (made l' - made ?l2)) (map snd m) xs"
      "view l' a = fields_map (map fst m) xs (view ?l2 a)"
    using "13.IH"(2)[OF g[symmetric] _ _ "13.prems"(3)] "13.prems"(2) g by auto
  note moved = "13.prems"(1) v xs w
  have "stands L sp (view l') (made l' - made l) v y"
    using moved by (auto simp: only_adds_def intro!: stands_mono[OF v(2)])
  moreover have "list_all2 (stands L sp (view l') (made l' - made l)) (map snd m) xs"
    using moved by (auto simp: only_adds_def intro!: stands_list_mono[OF xs(2)])
  moreover have "only_adds view made {a} l l'" using v(1) xs(1) w by (simp add: only_adds_def subset_iff)
  moreover have "view l' a = fields_map (map fst ((k, v) # m)) (y # xs) (view l a)" using moved by (auto simp: only_adds_def)
  ultimately show ?case by (intro exI[of _ "y # xs"]) simp
qed (auto simp: only_adds_def intro: stands.intros)

text \<open>What is left of a value: numbers are floats, the nulls at the end of a list and of a map are gone, and an empty list is a map.\<close>

definition rstrip :: "('a \<Rightarrow> bool) \<Rightarrow> 'a list \<Rightarrow> 'a list" where
  "rstrip P xs = rev (dropWhile P (rev xs))"

fun lua_norm :: "('l, 'r) lua \<Rightarrow> (goval \<Rightarrow> string) \<Rightarrow> goval \<Rightarrow> goval" where
  "lua_norm L sp (GInt n) = GFloat (lu_of_int L n)"
| "lua_norm L sp (GTime t) = GStr (sp (GTime t))"
| "lua_norm L sp (GStrs ss) = GStr (sp (GStrs ss))"
| "lua_norm L sp (GList vs) =
     (let ws = rstrip (\<lambda>w. w = GNil) (map (lua_norm L sp) vs) in if ws = [] then GMap [] else GList ws)"
| "lua_norm L sp (GMap m) = GMap (filter (\<lambda>(k, w). w \<noteq> GNil) (map (\<lambda>(k, v). (k, lua_norm L sp v)) m))"
| "lua_norm L sp v = v"

text \<open>Maps are compared without the order of their entries.\<close>

datatype meaning = MAtom goval | MList "meaning list" | MMap "string \<rightharpoonup> meaning"

fun meaning_of :: "goval \<Rightarrow> meaning" where
  "meaning_of (GList vs) = MList (map meaning_of vs)"
| "meaning_of (GMap m) = MMap (map_of (map (\<lambda>(k, v). (k, meaning_of v)) m))"
| "meaning_of v = MAtom v"

fun depth :: "goval \<Rightarrow> nat" where
  "depth (GList vs) = Suc (foldr max (map depth vs) 0)"
| "depth (GMap m) = Suc (foldr max (map (\<lambda>(k, v). depth v) m) 0)"
| "depth v = 1"

text \<open>Lists that an exact index reaches, and maps whose keys are distinct, as Go's are.\<close>

fun lua_sized :: "goval \<Rightarrow> bool" where
  "lua_sized (GList vs) \<longleftrightarrow> int (length vs) \<le> max_index \<and> list_all lua_sized vs"
| "lua_sized (GMap m) \<longleftrightarrow> distinct (map fst m) \<and> list_all (\<lambda>(k, v). lua_sized v) m"
| "lua_sized v \<longleftrightarrow> True"

lemma rstrip_append: "\<exists>ys. xs = rstrip P xs @ ys \<and> list_all P ys"
proof -
  have "rev xs = takeWhile P (rev xs) @ dropWhile P (rev xs)" by simp
  then have "xs = rstrip P xs @ rev (takeWhile P (rev xs))"
    unfolding rstrip_def by (metis rev_append rev_rev_ident)
  moreover have "list_all P (rev (takeWhile P (rev xs)))" by (auto simp: list_all_iff dest: set_takeWhileD)
  ultimately show ?thesis by blast
qed

lemma rstrip_last: "rstrip P xs \<noteq> [] \<Longrightarrow> \<not> P (last (rstrip P xs))"
  by (simp add: rstrip_def last_rev hd_dropWhile)

lemma rstrip_rel:
  assumes "list_all2 R xs ys" and "\<And>x y. R x y \<Longrightarrow> P x = Q y"
  shows "list_all2 R (rstrip P xs) (rstrip Q ys)"
proof -
  have "list_all2 R us vs \<Longrightarrow> list_all2 R (dropWhile P us) (dropWhile Q vs)" for us vs
    by (induction rule: list_all2_induct) (use assms(2) in auto)
  then show ?thesis using assms(1) by (simp add: rstrip_def list_all2_rev)
qed

lemma lua_norm_nil [simp]: "lua_norm L sp v = GNil \<longleftrightarrow> v = GNil"
  by (cases v) (auto simp: Let_def)

lemma max_le [simp]: "foldr max xs (0 :: nat) \<le> n \<longleftrightarrow> (\<forall>x \<in> set xs. x \<le> n)"
  by (induction xs) auto

lemma all_some_map: "(\<And>x. x \<in> set xs \<Longrightarrow> f x = Some (g x)) \<Longrightarrow> all_some (map f xs) = Some (map g xs)"
  by (induction xs) (auto simp: all_some_def List.map_filter_simps split: if_splits)

lemma put_entry_at: "put_entry k x m k' = (if k' = k then if x = LNil then None else Some x else m k')"
  by (simp add: put_entry_def)

lemma items_map_other:
  "(\<And>j. j < length xs \<Longrightarrow> k \<noteq> LNumber (lu_of_int L (i + 1 + int j))) \<Longrightarrow> items_map L i xs m k = m k"
proof (induction L i xs m rule: items_map.induct)
  case (2 L i x xs m)
  have "k \<noteq> LNumber (lu_of_int L (i + 1 + 1 + int j))" if "j < length xs" for j
    using 2(2)[of "Suc j"] that by (simp add: algebra_simps)
  then have "items_map L (i + 1) xs (put_entry (LNumber (lu_of_int L (i + 1))) x m) k = put_entry (LNumber (lu_of_int L (i + 1))) x m k"
    by (rule "2.IH")
  moreover have "k \<noteq> LNumber (lu_of_int L (i + 1))" using 2(2)[of 0] by simp
  ultimately show ?case by (simp add: put_entry_at)
qed simp

lemma items_map_at:
  assumes "\<And>p q. i < p \<Longrightarrow> p \<le> i + int (length xs) \<Longrightarrow> i < q \<Longrightarrow> q \<le> i + int (length xs) \<Longrightarrow>
      lu_of_int L p = lu_of_int L q \<Longrightarrow> p = q" and "j < length xs"
  shows "items_map L i xs m (LNumber (lu_of_int L (i + 1 + int j))) = (if xs ! j = LNil then None else Some (xs ! j))"
  using assms
proof (induction L i xs m arbitrary: j rule: items_map.induct)
  case (2 L i x xs m)
  show ?case
  proof (cases j)
    case 0
    have "lu_of_int L (i + 1) \<noteq> lu_of_int L (i + 1 + 1 + int j')" if "j' < length xs" for j'
      using 2(2)[of "i + 1" "i + 1 + 1 + int j'"] that by auto
    then show ?thesis using 0 by (simp add: items_map_other put_entry_at)
  next
    case (Suc j')
    have "items_map L (i + 1) xs (put_entry (LNumber (lu_of_int L (i + 1))) x m) (LNumber (lu_of_int L (i + 1 + 1 + int j'))) =
        (if xs ! j' = LNil then None else Some (xs ! j'))"
      by (rule "2.IH") (use 2(2,3) Suc in auto)
    then show ?thesis using Suc by (simp add: algebra_simps)
  qed
qed simp

lemma fields_map_at:
  "length ks = length xs \<Longrightarrow> distinct ks \<Longrightarrow>
   fields_map ks xs m (LString s) = (case map_of (zip ks xs) s of None \<Rightarrow> m (LString s) | Some y \<Rightarrow> if y = LNil then None else Some y)"
proof (induction ks xs m rule: fields_map.induct)
  case (1 k ks x xs m)
  have "fields_map ks xs (put_entry (LString k) x m) (LString s) =
      (case map_of (zip ks xs) s of None \<Rightarrow> put_entry (LString k) x m (LString s) | Some y \<Rightarrow> if y = LNil then None else Some y)"
    by (rule "1.IH") (use 1(2,3) in auto)
  moreover have "s = k \<Longrightarrow> map_of (zip ks xs) s = None" using 1(2,3) by (simp add: map_of_zip_is_None)
  ultimately show ?case by (auto simp: put_entry_at split: option.splits)
qed auto

lemma fields_map_other: "(\<And>s. k \<noteq> LString s) \<Longrightarrow> fields_map ks xs m k = m k"
  by (induction ks xs m rule: fields_map.induct) (auto simp: put_entry_at)

lemma table_shape_snoc:
  "table_shape L (kvs @ [(k, v)]) = (case table_shape L kvs of (isArray, n) \<Rightarrow>
     case k of LNumber w \<Rightarrow> (isArray, max n (lu_to_int L w)) | _ \<Rightarrow> (False, n))"
  by (simp add: table_shape_def max_def split: lval.splits prod.splits)

lemma table_shape_numbers:
  assumes "\<And>k v. (k, v) \<in> set kvs \<Longrightarrow> \<exists>w. k = LNumber w"
  obtains n where "table_shape L kvs = (True, n)" "0 \<le> n" "n = 0 \<or> (\<exists>w v. (LNumber w, v) \<in> set kvs \<and> n = lu_to_int L w)"
    "\<And>w v. (LNumber w, v) \<in> set kvs \<Longrightarrow> lu_to_int L w \<le> n"
proof -
  have "\<exists>n. table_shape L kvs = (True, n) \<and> 0 \<le> n \<and> (n = 0 \<or> (\<exists>w v. (LNumber w, v) \<in> set kvs \<and> n = lu_to_int L w)) \<and>
      (\<forall>w v. (LNumber w, v) \<in> set kvs \<longrightarrow> lu_to_int L w \<le> n)"
    using assms
  proof (induction kvs rule: rev_induct)
    case Nil
    show ?case by (simp add: table_shape_def)
  next
    case (snoc kv kvs)
    obtain w v where kv: "kv = (LNumber w, v)" using snoc.prems[of "fst kv" "snd kv"] by (cases kv) auto
    obtain n where n: "table_shape L kvs = (True, n)" "0 \<le> n" "n = 0 \<or> (\<exists>w v. (LNumber w, v) \<in> set kvs \<and> n = lu_to_int L w)"
        "\<forall>w v. (LNumber w, v) \<in> set kvs \<longrightarrow> lu_to_int L w \<le> n"
      using snoc by (metis UnCI set_append)
    show ?case
      by (rule exI[of _ "max n (lu_to_int L w)"]) (use n kv in \<open>auto simp: table_shape_snoc max_def\<close>)
  qed
  then show ?thesis using that by blast
qed

lemma table_shape_string: "(LString s, v) \<in> set kvs \<Longrightarrow> \<not> fst (table_shape L kvs)"
proof (induction kvs rule: rev_induct)
  case (snoc kv kvs)
  then show ?case by (cases kv) (auto simp: table_shape_snoc split: prod.splits lval.splits)
qed simp

lemma table_shape_nothing [simp]: "table_shape L [] = (True, 0)"
  by (simp add: table_shape_def)

text \<open>A table that holds the items of a list has the stripped list as its array.\<close>

lemma items_shape:
  assumes L: "lua_tables L view made" and c: "view l a = items_map L 0 xs Map.empty" and n: "int (length xs) \<le> max_index"
  shows "table_shape L (lu_ForEach L a l) = (True, int (length (rstrip (\<lambda>x. x = LNil) xs)))"
    and "j < length xs \<Longrightarrow> lu_RawGetInt L a (int j + 1) l = xs ! j"
proof -
  note T = lua_tablesD[OF L]
  have inj: "p = q" if "lu_of_int L p = lu_of_int L q" "0 < p" "p \<le> int (length xs)" "0 < q" "q \<le> int (length xs)" for p q
  proof -
    have "lu_to_int L (lu_of_int L p) = p" by (rule T(12)) (use that n in linarith)+
    moreover have "lu_to_int L (lu_of_int L q) = q" by (rule T(12)) (use that n in linarith)+
    ultimately show "p = q" using that(1) by metis
  qed
  have at: "view l a (LNumber (lu_of_int L (int j + 1))) = (if xs ! j = LNil then None else Some (xs ! j))" if "j < length xs" for j
  proof -
    have "items_map L 0 xs Map.empty (LNumber (lu_of_int L (0 + 1 + int j))) = (if xs ! j = LNil then None else Some (xs ! j))"
      by (rule items_map_at[OF _ that]) (use inj in simp)
    then show ?thesis by (simp add: c add.commute)
  qed
  then show "lu_RawGetInt L a (int j + 1) l = xs ! j" if "j < length xs"
    using that by (auto simp: T(8) table_read_def)
  have keys: "\<exists>j < length xs. k = LNumber (lu_of_int L (int j + 1)) \<and> xs ! j \<noteq> LNil" if "view l a k \<noteq> None" for k
  proof (rule ccontr)
    assume none: "\<not> ?thesis"
    have "items_map L 0 xs Map.empty k = Map.empty k"
    proof (rule items_map_other, rule notI)
      fix j assume j: "j < length xs" "k = LNumber (lu_of_int L (0 + 1 + int j))"
      then show False using none at[OF j(1)] that by (auto simp: add.commute)
    qed
    then show False using that c by simp
  qed
  have visited: "(k, v) \<in> set (lu_ForEach L a l) \<longleftrightarrow> view l a k = Some v" for k v
    using T(9,10) by (metis map_of_eq_Some_iff)
  let ?ys = "rstrip (\<lambda>x. x = LNil) xs"
  obtain zs where zs: "xs = ?ys @ zs" "list_all (\<lambda>x. x = LNil) zs" using rstrip_append by blast
  have number: "lu_to_int L (lu_of_int L (int j + 1)) = int j + 1" if "j < length xs" for j
    by (rule T(12)) (use that n in linarith)+
  show "table_shape L (lu_ForEach L a l) = (True, int (length ?ys))"
  proof (rule table_shape_numbers[of "lu_ForEach L a l" L])
    show "\<exists>w. k = LNumber w" if "(k, v) \<in> set (lu_ForEach L a l)" for k v
      using keys[of k] that by (auto simp: visited)
  next
    fix m
    assume m: "table_shape L (lu_ForEach L a l) = (True, m)" "0 \<le> m"
      "m = 0 \<or> (\<exists>w v. (LNumber w, v) \<in> set (lu_ForEach L a l) \<and> m = lu_to_int L w)"
      "\<And>w v. (LNumber w, v) \<in> set (lu_ForEach L a l) \<Longrightarrow> lu_to_int L w \<le> m"
    have "m \<le> int (length ?ys)"
    proof (cases "m = 0")
      case False
      then obtain w v where w: "view l a (LNumber w) = Some v" "m = lu_to_int L w" using m(3) visited by blast
      then obtain j where j: "j < length xs" "w = lu_of_int L (int j + 1)" "xs ! j \<noteq> LNil" using keys[of "LNumber w"] by auto
      have "j < length ?ys"
      proof (rule ccontr)
        assume "\<not> j < length ?ys"
        then have "xs ! j = zs ! (j - length ?ys)" "j - length ?ys < length zs"
          using zs(1) j(1) by (metis nth_append, metis length_append not_less less_diff_conv2 add.commute)
        then show False using zs(2) j(3) by (auto simp: list_all_length)
      qed
      then show ?thesis using w(2) j(2) number[OF j(1)] by simp
    qed simp
    moreover have "int (length ?ys) \<le> m"
    proof (cases "?ys = []")
      case False
      let ?j = "length ?ys - 1"
      have j: "?j < length xs" using False zs(1) by (metis diff_less length_append length_greater_0_conv less_add_same_cancel1 less_one trans_less_add1)
      have "xs ! ?j = last ?ys" using False zs(1) by (metis diff_less last_conv_nth length_greater_0_conv less_one nth_append)
      then have "view l a (LNumber (lu_of_int L (int ?j + 1))) = Some (xs ! ?j)"
        using at[OF j] rstrip_last[OF False] by simp
      then have "lu_to_int L (lu_of_int L (int ?j + 1)) \<le> m" using m(4) visited by blast
      moreover have "lu_to_int L (lu_of_int L (int ?j + 1)) = int (length ?ys)"
        using number[OF j] False by (simp add: Suc_leI of_nat_diff)
      ultimately show ?thesis by simp
    qed (use m(2) in simp)
    ultimately show ?thesis using m(1) by simp
  qed
qed

lemma assoc_put:
  assumes "distinct (map fst kvs)" "\<And>k v. (k, v) \<in> set kvs \<Longrightarrow> \<exists>s. k = LString s" "\<And>s. lu_String L (LString s) = s"
  shows "map_of (fold (\<lambda>(k, v) m. AList.update (lu_String L k) v m) (zip (map fst kvs) (map (\<lambda>(k, v). g v) kvs)) m) s =
     (case map_of kvs (LString s) of None \<Rightarrow> map_of m s | Some y \<Rightarrow> Some (g y))"
  using assms
proof (induction kvs arbitrary: m)
  case (Cons kv kvs)
  obtain t v where kv: "kv = (LString t, v)" using Cons.prems(2)[of "fst kv" "snd kv"] by (cases kv) auto
  have "map_of kvs (LString t) = None" using Cons.prems(1) kv by (simp add: map_of_eq_None_iff)
  moreover have "map_of (fold (\<lambda>(k, v) m. AList.update (lu_String L k) v m) (zip (map fst kvs) (map (\<lambda>(k, v). g v) kvs))
      (AList.update t (g v) m)) s =
     (case map_of kvs (LString s) of None \<Rightarrow> map_of (AList.update t (g v) m) s | Some y \<Rightarrow> Some (g y))"
    by (rule Cons.IH) (use Cons.prems in auto)
  ultimately show ?case using kv Cons.prems(3) by (auto simp: update_conv split: option.splits)
qed simp

lemma map_of_rel:
  "list_all2 R (map snd m) xs \<Longrightarrow> rel_option R (map_of m k) (map_of (zip (map fst m) xs) k)"
proof (induction m arbitrary: xs)
  case (Cons kv m)
  then show ?case by (cases kv) (auto simp: list_all2_Cons1)
qed simp

text \<open>The value read back, when the parts of a table are read back.\<close>

definition read_back :: "('l, 'r) lua \<Rightarrow> (goval \<Rightarrow> string) \<Rightarrow> nat \<Rightarrow> 'l \<Rightarrow> goval \<Rightarrow> lval \<Rightarrow> bool" where
  "read_back L sp n l v x \<longleftrightarrow> (x = LNil \<longleftrightarrow> v = GNil) \<and>
     (\<exists>w. luaToGo L n l x = Some w \<and> meaning_of w = meaning_of (lua_norm L sp v))"

lemma read_back_list:
  assumes L: "lua_tables L view made" and c: "view l a = items_map L 0 xs Map.empty" and n: "int (length vs) \<le> max_index"
    and parts: "list_all2 (read_back L sp n l) vs xs"
  shows "read_back L sp (Suc n) l (GList vs) (LTable a)"
proof -
  let ?ys = "rstrip (\<lambda>x. x = LNil) xs" and ?ws = "rstrip (\<lambda>w. w = GNil) (map (lua_norm L sp) vs)"
  let ?f = "\<lambda>x. the (luaToGo L n l x)"
  have len: "length xs = length vs" using parts by (simp add: list_all2_lengthD)
  note shape = items_shape[OF L c]
  define R where "R w x \<longleftrightarrow> (w = GNil \<longleftrightarrow> x = LNil) \<and> (\<exists>u. luaToGo L n l x = Some u \<and> meaning_of u = meaning_of w)" for w x
  have "list_all2 R (map (lua_norm L sp) vs) xs"
    unfolding list_all2_map1 using parts by (rule list_all2_mono) (auto simp: read_back_def R_def)
  then have rel: "list_all2 R ?ws ?ys" by (rule rstrip_rel) (auto simp: R_def)
  then have lens: "length ?ws = length ?ys" by (rule list_all2_lengthD)
  obtain zs where zs: "xs = ?ys @ zs" using rstrip_append by blast
  have get: "lu_RawGetInt L a (1 + int j) l = ?ys ! j" if "j < length ?ys" for j
  proof -
    have "j < length xs" using that zs by (metis length_append trans_less_add1)
    then show ?thesis using shape(2)[of j] n len that zs by (metis add.commute nth_append)
  qed
  show ?thesis
  proof (cases "?ys = []")
    case True
    then have "table_shape L (lu_ForEach L a l) = (True, 0)" using shape(1) n len by simp
    moreover have "lu_ForEach L a l = []"
    proof (rule ccontr)
      assume "lu_ForEach L a l \<noteq> []"
      then obtain k v where kv: "view l a k = Some v"
        using lua_tablesD(10)[OF L, of a l] by (metis map_of_eq_empty_iff not_None_eq ext)
      have "list_all (\<lambda>x. x = LNil) xs" using rstrip_append[of xs "\<lambda>x. x = LNil"] True by auto
      then have "items_map L i xs m k = m k" if "m k = None" for i m
        using that by (induction L i xs m rule: items_map.induct) (auto simp: put_entry_def)
      then show False using kv c by simp
    qed
    ultimately show ?thesis using True lens by (simp add: read_back_def all_some_def List.map_filter_simps)
  next
    case False
    have "map (\<lambda>i. luaToGo L n l (lu_RawGetInt L a i l)) [1..int (length ?ys)] = map (luaToGo L n l) ?ys"
      by (rule nth_equalityI) (simp_all add: get)
    moreover have "luaToGo L n l y = Some (?f y)" if y: "y \<in> set ?ys" for y
      using rel y by (auto simp: list_all2_conv_all_nth in_set_conv_nth R_def)
    ultimately have "luaToGo L (Suc n) l (LTable a) = Some (GList (map ?f ?ys))"
      using False shape(1) n len all_some_map[of ?ys "luaToGo L n l" ?f] by simp
    moreover have "map meaning_of (map ?f ?ys) = map meaning_of ?ws"
      by (rule nth_equalityI) (use rel lens in \<open>auto simp: list_all2_conv_all_nth R_def\<close>)
    ultimately show ?thesis using False lens by (auto simp: read_back_def Let_def)
  qed
qed

lemma read_back_map:
  assumes L: "lua_tables L view made" and c: "view l a = fields_map (map fst m) xs Map.empty" and m: "distinct (map fst m)"
    and parts: "list_all2 (read_back L sp n l) (map snd m) xs"
  shows "read_back L sp (Suc n) l (GMap m) (LTable a)"
proof -
  let ?kvs = "lu_ForEach L a l" and ?f = "\<lambda>x. the (luaToGo L n l x)"
  note T = lua_tablesD(9,10)[OF L, of a l]
  have len: "length (map fst m) = length xs" using parts by (auto dest: list_all2_lengthD)
  have at: "view l a (LString s) = (case map_of (zip (map fst m) xs) s of None \<Rightarrow> None | Some y \<Rightarrow> if y = LNil then None else Some y)" for s
    using fields_map_at[OF len m] by (simp add: c)
  have keys: "\<exists>s. k = LString s" if "(k, v) \<in> set ?kvs" for k v
  proof (rule ccontr)
    assume "\<not> ?thesis"
    then have "view l a k = None" using fields_map_other[of k "map fst m" xs Map.empty] c by simp
    then show False using that T by (metis map_of_eq_Some_iff option.distinct(1))
  qed
  have visited: "luaToGo L n l y = Some (?f y)" if y: "(k, y) \<in> set ?kvs" for k y
  proof -
    obtain s where s: "k = LString s" using keys[OF y] by blast
    then have "view l a (LString s) = Some y" using y T by (metis map_of_eq_Some_iff)
    then have "map_of (zip (map fst m) xs) s = Some y" by (simp add: at split: option.splits if_splits)
    then show ?thesis using map_of_rel[OF parts, of s] by (cases "map_of m s") (auto simp: read_back_def)
  qed
  have "\<not> (fst (table_shape L ?kvs) \<and> snd (table_shape L ?kvs) > 0)"
  proof (cases "?kvs = []")
    case False
    then obtain k v where kv: "(k, v) \<in> set ?kvs" by (cases ?kvs) auto
    then obtain s where "k = LString s" using keys[OF kv] by blast
    then show ?thesis using table_shape_string kv by fast
  qed simp
  then have "luaToGo L (Suc n) l (LTable a) = map_option (\<lambda>vs. GMap (fold (\<lambda>(k, v) m. AList.update (lu_String L k) v m) (zip (map fst ?kvs) vs) []))
      (all_some (map (\<lambda>(k, v). luaToGo L n l v) ?kvs))"
    by (auto simp: split: prod.splits)
  also have "all_some (map (\<lambda>(k, v). luaToGo L n l v) ?kvs) = Some (map (\<lambda>(k, v). ?f v) ?kvs)"
    by (rule all_some_map) (use visited in auto)
  finally obtain w where w: "luaToGo L (Suc n) l (LTable a) = Some (GMap w)"
      "w = fold (\<lambda>(k, v) m. AList.update (lu_String L k) v m) (zip (map fst ?kvs) (map (\<lambda>(k, v). ?f v) ?kvs)) []" by simp
  have "map_option meaning_of (map_of w s) = map_option meaning_of
      (map_of (filter (\<lambda>(k, w). w \<noteq> GNil) (map (\<lambda>(k, v). (k, lua_norm L sp v)) m)) s)" for s
  proof -
    have "map_of w s = (case view l a (LString s) of None \<Rightarrow> None | Some y \<Rightarrow> Some (?f y))"
    proof -
      have "map_of w s = (case map_of ?kvs (LString s) of None \<Rightarrow> map_of [] s | Some y \<Rightarrow> Some (?f y))"
        unfolding w(2) by (rule assoc_put[OF T(1) _ lua_tablesD(11)[OF L]]) (rule keys)
      then show ?thesis by (simp add: T(2) cong: option.case_cong)
    qed
    moreover have "map_of (filter (\<lambda>(k, w). w \<noteq> GNil) (map (\<lambda>(k, v). (k, lua_norm L sp v)) m)) s =
        (case map_of m s of None \<Rightarrow> None | Some v \<Rightarrow> if v = GNil then None else Some (lua_norm L sp v))"
      using m by (induction m) (auto simp: map_of_eq_None_iff intro: rev_image_eqI split: option.splits)
    ultimately show ?thesis
      using map_of_rel[OF parts, of s] by (auto simp: at read_back_def split: option.splits elim: option.rel_cases)
  qed
  then show ?thesis using w(1) by (auto simp: read_back_def map_of_map fun_eq_iff comp_def)
qed

lemma luaToGo_stands:
  assumes L: "lua_tables L view made"
  shows "stands L sp (view l) S v x \<Longrightarrow> lua_sized v \<Longrightarrow> depth v \<le> n \<Longrightarrow> read_back L sp n l v x"
proof (induction arbitrary: n rule: stands.induct)
  case (8 vs xs a)
  then obtain k where k: "n = Suc k" by (cases n) auto
  have "list_all2 (read_back L sp k l) vs xs"
    using 8 k by (auto simp: list_all2_conv_all_nth list_all_length)
  then show ?case using read_back_list[OF L] 8 k by simp
next
  case (9 m xs a)
  then obtain k where k: "n = Suc k" by (cases n) auto
  have "lua_sized v" "depth v \<le> k" if "v \<in> set (map snd m)" for v
    using that 9(4,5) k by (force simp: list_all_iff)+
  then have "list_all2 (read_back L sp k l) (map snd m) xs"
    using 9(1) by (auto simp: list_all2_conv_all_nth)
  then show ?case using read_back_map[OF L] 9 k by simp
qed (auto simp: read_back_def Suc_le_eq gr0_conv_Suc)

text \<open>
  C31: lua_roundtrip. A Go value handed to a script and read back is, up to the order of maps, the value with its
  numbers as floats, times and string lists as text, without the nulls at the end of lists and in maps, and with a
  list of nulls turned into an empty map; no table that a script already holds is touched.
\<close>

theorem lua_roundtrip:
  assumes "lua_tables L view made" and "lua_sized v" and "depth v \<le> n" and "goToLua L sp v l = (x, l')"
  shows "(\<exists>w. luaToGo L n l' x = Some w \<and> meaning_of w = meaning_of (lua_norm L sp v)) \<and> (\<forall>b \<in> made l. view l' b = view l b)"
  using goToLua_stands(1)[OF assms(1,4)] luaToGo_stands[OF assms(1) _ assms(2,3)]
  by (auto simp: read_back_def only_adds_def)

text \<open>Values that lose nothing.\<close>

fun lua_exact :: "goval \<Rightarrow> bool" where
  "lua_exact (GList vs) \<longleftrightarrow> vs \<noteq> [] \<and> last vs \<noteq> GNil \<and> list_all lua_exact vs"
| "lua_exact (GMap m) \<longleftrightarrow> list_all (\<lambda>(k, v). v \<noteq> GNil \<and> lua_exact v) m"
| "lua_exact (GInt n) \<longleftrightarrow> False"
| "lua_exact (GTime t) \<longleftrightarrow> False"
| "lua_exact (GStrs ss) \<longleftrightarrow> False"
| "lua_exact v \<longleftrightarrow> True"

lemma rstrip_id: "xs \<noteq> [] \<Longrightarrow> \<not> P (last xs) \<Longrightarrow> rstrip P xs = xs"
  by (cases xs rule: rev_cases) (auto simp: rstrip_def)

lemma lua_norm_exact: "lua_exact v \<Longrightarrow> lua_norm L sp v = v"
proof (induction v rule: lua_exact.induct)
  case (1 vs)
  then have "map (lua_norm L sp) vs = vs" by (simp add: list_all_iff map_idI)
  then show ?case using 1 by (simp add: rstrip_id)
next
  case (2 m)
  then have "map (\<lambda>(k, v). (k, lua_norm L sp v)) m = m" by (auto simp: list_all_iff intro!: map_idI)
  then show ?case using 2 by (auto simp: list_all_iff intro!: filter_True)
qed auto

text \<open>A table that contains itself cannot be encoded: the process runs out of stack.\<close>

lemma all_some_none: "None \<in> set xs \<Longrightarrow> all_some xs = None"
  by (simp add: all_some_def)

lemma self_table_unreadable:
  assumes L: "lua_tables L view made" and self: "view l a (LString k) = Some (LTable a)"
  shows "luaToGo L n l (LTable a) = None"
proof (induction n)
  case (Suc n)
  have kv: "(LString k, LTable a) \<in> set (lu_ForEach L a l)"
    using self lua_tablesD(10)[OF L, of a l] by (metis map_of_SomeD)
  then have "None \<in> set (map (\<lambda>(k, v). luaToGo L n l v) (lu_ForEach L a l))" using Suc.IH by force
  then show ?case using table_shape_string[OF kv, of L] by (auto simp: all_some_none split: prod.splits)
qed simp

lemma self_table_kills:
  "lua_tables L view made \<Longrightarrow> view l a (LString k) = Some (LTable a) \<Longrightarrow> luaJSONEncode L E [LTable a] l r = StackOverflow"
  by (simp add: luaJSONEncode_def lua_arg_def self_table_unreadable)

section \<open>Loading\<close>

text \<open>No step replaces a definition, so the first one of an identifier stays.\<close>

lemma Register_keeps:
  assumes "RegisterDefinition K C now d g r = (e, d', g', r')"
  shows "map_le (tg_definitions g) (tg_definitions g')"
    and "def_Validate d = (d1, None) \<Longrightarrow> tg_definitions g' (df_ID d) \<noteq> None"
proof -
  show "map_le (tg_definitions g) (tg_definitions g')"
    using assms by (auto simp: RegisterDefinition_def map_le_def Let_def split: prod.splits option.splits if_splits)
  assume v: "def_Validate d = (d1, None)"
  then have "df_ID d1 = df_ID d" using def_Validate_ID[of d] by simp
  then show "tg_definitions g' (df_ID d) \<noteq> None"
    using assms v by (auto simp: RegisterDefinition_def Let_def split: if_splits)
qed

lemma GetDefinition_grows: "GetDefinition K C now i g r = (x, g') \<Longrightarrow> map_le (tg_definitions g) (tg_definitions g')"
  by (auto simp: GetDefinition_def map_le_def split: option.splits)

lemma RegisterTemplate_keeps: "RegisterTemplate K C now m g r = (e, g', r') \<Longrightarrow> map_le (tg_definitions g) (tg_definitions g')"
  by (auto simp: RegisterTemplate_def Let_def dest: GetDefinition_grows split: if_splits prod.splits sum.splits)

lemma register_tasks_keeps:
  "register_tasks L K C now s kvs l g r = Some (g', r') \<Longrightarrow> map_le (tg_definitions g) (tg_definitions g')"
proof (induction L K C now s kvs l g r rule: register_tasks.induct)
  case (2 L K C now s key v kvs l g r)
  then show ?case
    by (auto split: lval.splits prod.splits intro: map_le_trans dest: Register_keeps(1))
qed simp

lemma processConfig_keeps:
  assumes "processConfig L E K C now c cl r = Some (e, cl', r')"
  shows "map_le (tg_definitions (cl_registry cl)) (tg_definitions (cl_registry cl'))"
    and "tcf_Type c = ''definition'' \<Longrightarrow> tcf_Definition c = Some d \<Longrightarrow> def_Validate d = (d1, None) \<Longrightarrow>
      tg_definitions (cl_registry cl') (df_ID d) \<noteq> None"
  using assms
  by (auto simp: processConfig_def loadScript_def registerScriptTasks_def Let_def
      dest: Register_keeps RegisterTemplate_keeps register_tasks_keeps
      split: if_splits option.splits prod.splits sum.splits lval.splits)

lemma process_configs_keeps:
  "process_configs L E K C now cs (n, cl, r) = Some (n', cl', r') \<Longrightarrow>
     map_le (tg_definitions (cl_registry cl)) (tg_definitions (cl_registry cl')) \<and>
     (\<forall>c d d1. Some c \<in> set cs \<and> tcf_Type c = ''definition'' \<and> tcf_Definition c = Some d \<and> def_Validate d = (d1, None) \<longrightarrow>
        tg_definitions (cl_registry cl') (df_ID d) \<noteq> None)"
proof (induction cs arbitrary: n cl r)
  case (Cons oc cs)
  then obtain c where c: "oc = Some c" by (cases oc) auto
  then obtain e cl1 r1 where p: "processConfig L E K C now c cl r = Some (e, cl1, r1)"
    using Cons.prems by (auto split: option.splits)
  note IH = Cons.IH[of "if e = None then n + 1 else n" cl1 r1]
  have rest: "process_configs L E K C now cs (if e = None then n + 1 else n, cl1, r1) = Some (n', cl', r')"
    using Cons.prems c p by simp
  have le: "map_le (tg_definitions (cl_registry cl1)) (tg_definitions (cl_registry cl'))" using IH rest by blast
  have "tg_definitions (cl_registry cl') (df_ID d) \<noteq> None"
    if "tcf_Type c = ''definition''" "tcf_Definition c = Some d" "def_Validate d = (d1, None)" for d d1
    using processConfig_keeps(2)[OF p that] le by (auto simp: map_le_def dom_def)
  then show ?case using c IH rest map_le_trans[OF processConfig_keeps(1)[OF p] le] by auto
qed simp

lemma load_sources_keeps:
  "load_sources L E K C now srcs (n, cl, r) = Some (n', cl', r') \<Longrightarrow>
     map_le (tg_definitions (cl_registry cl)) (tg_definitions (cl_registry cl')) \<and>
     (\<forall>p cs c d d1. FileSource p \<in> set srcs \<and> file_Load E p = Some cs \<and> Some c \<in> set cs \<and> tcf_Type c = ''definition'' \<and>
        tcf_Definition c = Some d \<and> def_Validate d = (d1, None) \<longrightarrow> tg_definitions (cl_registry cl') (df_ID d) \<noteq> None)"
proof (induction srcs arbitrary: n cl r)
  case (Cons src srcs)
  show ?case
  proof (cases "source_Load E K now src r")
    case None
    then have "src \<noteq> FileSource p" if "file_Load E p = Some cs" for p cs using that by (auto simp: source_Load_def)
    then show ?thesis using Cons None by fastforce
  next
    case (Some cs)
    obtain n1 cl1 r1 where p: "process_configs L E K C now cs (n, cl, r) = Some (n1, cl1, r1)"
      using Cons.prems Some by (auto split: option.splits)
    have rest: "load_sources L E K C now srcs (n1, cl1, r1) = Some (n', cl', r')" using Cons.prems Some p by simp
    note IH = Cons.IH[OF rest] and here = process_configs_keeps[OF p]
    have "src = FileSource q \<Longrightarrow> file_Load E q = Some cs' \<Longrightarrow> cs' = cs" for q cs' using Some by (simp add: source_Load_def)
    then show ?thesis using IH here by (auto intro: map_le_trans simp: map_le_def dom_def; metis option.distinct(1))
  qed
qed simp


text \<open>Loading returns when no list holds a null and there are no scripts.\<close>

lemma processConfig_returns: "tcf_Type c \<noteq> ''script'' \<Longrightarrow> processConfig L E K C now c cl r \<noteq> None"
  by (auto simp: processConfig_def split: option.splits prod.splits)

lemma process_configs_returns:
  "(\<And>c. c \<in> set cs \<Longrightarrow> \<exists>c'. c = Some c' \<and> tcf_Type c' \<noteq> ''script'') \<Longrightarrow> process_configs L E K C now cs s \<noteq> None"
proof (induction cs arbitrary: s)
  case (Cons oc cs)
  obtain c where c: "oc = Some c" "tcf_Type c \<noteq> ''script''" by (metis Cons.prems list.set_intros(1))
  have rest: "process_configs L E K C now cs t \<noteq> None" for t
    by (rule Cons.IH) (rule Cons.prems[OF list.set_intros(2)])
  show ?case using processConfig_returns[OF c(2)] rest c(1) by (cases s) (auto split: option.splits)
qed simp

lemma loading_returns:
  assumes "\<And>s r cs c. s \<in> set srcs \<Longrightarrow> source_Load E K now s r = Some cs \<Longrightarrow> c \<in> set cs \<Longrightarrow>
      \<exists>c'. c = Some c' \<and> tcf_Type c' \<noteq> ''script''"
  shows "load_sources L E K C now srcs s \<noteq> None"
  using assms
proof (induction srcs arbitrary: s)
  case (Cons src srcs)
  obtain n cl r where s: "s = (n, cl, r)" by (cases s)
  have rest: "load_sources L E K C now srcs t \<noteq> None" for t
    by (rule Cons.IH) (rule Cons.prems[OF list.set_intros(2)])
  show ?case
  proof (cases "source_Load E K now src r")
    case (Some cs)
    have "process_configs L E K C now cs (n, cl, r) \<noteq> None"
      by (rule process_configs_returns) (rule Cons.prems[OF list.set_intros(1) Some])
    then show ?thesis using rest Some s by auto
  qed (use rest s in auto)
qed simp

text \<open>A JSON null in a list of configurations, or an entry of \<open>tasks\<close> that is no table, ends the process.\<close>

lemma null_config_kills: "process_configs L E K C now (None # cs) s = None"
  by simp

lemma plain_task_kills:
  assumes "script_text E s = Inr t" and "lu_LoadString L t (cl_lua cl) = (Some fn, l1)" and "lu_PCall L (host_call L E K) fn l1 r = Some (True, l2, r2)"
    and "lu_GetGlobal L ''tasks'' l2 = LTable a" and "lu_ForEach L a l2 = [(k, LString x)]"
  shows "loadScript L E K C now s cl r = None"
  using assms by (simp add: loadScript_def registerScriptTasks_def Let_def)

text \<open>A configuration without a body counts as loaded.\<close>

lemma empty_config_counted:
  "processConfig L E K C now \<lparr>tcf_Type = ''definition'', tcf_Definition = None, tcf_Template = None, tcf_Script = None, tcf_Metadata = md\<rparr> cl r
     = Some (None, cl, r)"
  by (simp add: processConfig_def)

section \<open>A Lua machine\<close>

text \<open>Tables are association lists, numbered as they are made; scripts compile and do nothing.\<close>

type_synonym lua_mem = "nat \<times> (nat \<Rightarrow> (lval \<times> lval) list)"

definition lset :: "lval \<Rightarrow> lval \<Rightarrow> (lval \<times> lval) list \<Rightarrow> (lval \<times> lval) list" where
  "lset k x m = (if x = LNil then AList.delete k m else AList.update k x m)"

definition mem_lua :: "(lua_mem, 'r) lua" where
  "mem_lua = \<lparr>lu_NewTable = (\<lambda>(n, f). (n, n + 1, f(n := []))),
     lu_RawSetString = (\<lambda>a k x (n, f). (n, f(a := lset (LString k) x (f a)))),
     lu_RawSetInt = (\<lambda>a i x (n, f). (n, f(a := lset (LNumber (word_of_int i)) x (f a)))),
     lu_RawGetInt = (\<lambda>a i (n, f). table_read (map_of (f a) (LNumber (word_of_int i)))),
     lu_ForEach = (\<lambda>a (n, f). AList.clearjunk (f a)),
     lu_String = (\<lambda>x. case x of LString s \<Rightarrow> s | _ \<Rightarrow> ''nil''),
     lu_ToString = (\<lambda>x. case x of LString s \<Rightarrow> s | _ \<Rightarrow> ''''),
     lu_ToInt = (\<lambda>x. case x of LNumber w \<Rightarrow> uint w | _ \<Rightarrow> 0),
     lu_NewFunction = (\<lambda>h l. (LFunction 0, l)), lu_SetGlobal = (\<lambda>s x l. l), lu_GetGlobal = (\<lambda>s l. LNil),
     lu_LoadString = (\<lambda>s l. (Some 0, l)), lu_PCall = (\<lambda>h f l r. Some (True, l, r)),
     lu_of_int = word_of_int, lu_to_int = uint\<rparr>"

definition mem_made :: "lua_mem \<Rightarrow> nat set" where "mem_made l = {..<fst l}"

definition mem_tables :: "lua_mem \<Rightarrow> nat \<Rightarrow> lval \<rightharpoonup> lval" where "mem_tables l a = map_of (snd l a)"

lemma lset_entry: "map_of (lset k x m) = put_entry k x (map_of m)"
  by (auto simp: lset_def put_entry_def update_conv' delete_conv')

lemma mem_lua_tables: "lua_tables mem_lua mem_tables mem_made"
proof -
  have int: "uint (word_of_int i :: 64 word) = i" if "0 \<le> i" "i \<le> max_index" for i
    using that by (simp add: uint_word_of_int)
  show ?thesis
    unfolding lua_tables_def
  proof (intro conjI allI impI)
    fix i :: int assume "0 \<le> i \<and> i \<le> max_index"
    then show "lu_to_int mem_lua (lu_of_int mem_lua i) = i" by (simp add: mem_lua_def int)
  qed (auto simp: mem_lua_def mem_tables_def mem_made_def lset_entry fun_eq_iff distinct_clearjunk map_of_clearjunk split: prod.splits)
qed

definition sample_json :: goval where
  "sample_json = GMap [(''id'', GInt 3), (''none'', GNil), (''tags'', GList [GStr ''x'', GNil])]"

lemma lua_roundtrip_witness:
  "\<exists>w. luaToGo (mem_lua :: (lua_mem, unit) lua) 3 (snd (goToLua (mem_lua :: (lua_mem, unit) lua) (\<lambda>v. '''') sample_json (0, \<lambda>a. [])))
       (fst (goToLua (mem_lua :: (lua_mem, unit) lua) (\<lambda>v. '''') sample_json (0, \<lambda>a. []))) = Some w \<and>
     meaning_of w = meaning_of (GMap [(''id'', GFloat 3), (''tags'', GList [GStr ''x''])])"
proof -
  have n: "lua_norm (mem_lua :: (lua_mem, unit) lua) (\<lambda>v. '''') sample_json = GMap [(''id'', GFloat 3), (''tags'', GList [GStr ''x''])]"
    by (simp add: sample_json_def mem_lua_def rstrip_def)
  have s: "lua_sized sample_json" "depth sample_json \<le> 3" by (simp_all add: sample_json_def)
  have L: "lua_tables (mem_lua :: (lua_mem, unit) lua) mem_tables mem_made" by (rule mem_lua_tables)
  show ?thesis
    using lua_roundtrip[OF L s, where sp = "\<lambda>v. ''''" and l = "(0, \<lambda>a. [])", OF prod.collapse[symmetric]]
    unfolding n by (rule conjunct1)
qed

definition sample_file :: task_config where
  "sample_file = \<lparr>tcf_Type = ''definition'', tcf_Definition = Some sample_def, tcf_Template = None, tcf_Script = None, tcf_Metadata = None\<rparr>"

definition sample_env :: config_env where
  "sample_env = \<lparr>ce_Sprint = (\<lambda>v. ''''), ce_Unmarshal = (\<lambda>s. Inl s), ce_Marshal = (\<lambda>v. Inl ''''),
     ce_ReadFile = (\<lambda>p. if p = ''tasks.json'' then Some '''' else None),
     ce_json_configs = (\<lambda>s. Some [Some (sample_file\<lparr>tcf_Type := ''other''\<rparr>), Some sample_file]),
     ce_yaml_configs = (\<lambda>s. None), ce_json_config = (\<lambda>s. None), ce_hash = (\<lambda>s. s), ce_stack = 100\<rparr>"

definition sample_codec :: "string def_codec" where
  "sample_codec = \<lparr>tc_def = (\<lambda>d. Some ''''), tc_read_def = (\<lambda>s. None), tc_tpl = (\<lambda>t. Some ''''), tc_read_tpl = (\<lambda>s. None), tc_empty = ''''\<rparr>"

definition sample_loader :: "lua_mem config_loader" where
  "sample_loader = NewConfigLoader (mem_lua :: (lua_mem, string kv_mem) lua) (0, \<lambda>a. []) (NewTaskRegistry ''app'') ''app'' [''missing.yaml'', ''tasks.json'']"


end
