(* ===== verification/Storages.thy ===== *)
theory Storages
  imports MemStorage GoText KeyLife "HOL-Library.AList"
begin

text \<open>
  The other storages of the crawler: those of the facade (src/crawler/storage.go), Redis, MySQL and MongoDB
  (src/crawler/storage), and their manager and factory.  The clients of the databases are arguments: what the
  code asks them, with the conditions of its queries as predicates.  Where several of them keep the contract of
  expiring stores this is shown through its locale.
\<close>

section \<open>The facade's memory storage\<close>

record facade_memory =
  fm_data :: "string \<rightharpoonup> goval"
  fm_ttl :: "string \<rightharpoonup> gotime"

definition NewFacadeMemory :: facade_memory where
  "NewFacadeMemory = \<lparr>fm_data = Map.empty, fm_ttl = Map.empty\<rparr>"

abbreviation cache_ttl :: duration where "cache_ttl \<equiv> 24 * hour"

definition fm_StoreWithTTL :: "gotime \<Rightarrow> duration \<Rightarrow> string \<Rightarrow> goval \<Rightarrow> facade_memory \<Rightarrow> facade_memory" where
  "fm_StoreWithTTL now ttl key v s = s\<lparr>fm_data := (fm_data s)(key \<mapsto> v), fm_ttl := (fm_ttl s)(key \<mapsto> now + ttl)\<rparr>"

definition fm_Store :: "gotime \<Rightarrow> string \<Rightarrow> goval \<Rightarrow> facade_memory \<Rightarrow> facade_memory" where
  "fm_Store now key v s = s\<lparr>fm_data := (fm_data s)(key \<mapsto> v), fm_ttl := (fm_ttl s)(key \<mapsto> now + cache_ttl)\<rparr>"

definition fm_expired :: "gotime \<Rightarrow> facade_memory \<Rightarrow> string \<Rightarrow> bool" where
  "fm_expired now s key = (case fm_ttl s key of None \<Rightarrow> False | Some expiry \<Rightarrow> now > expiry)"

definition fm_Get :: "gotime \<Rightarrow> string \<Rightarrow> facade_memory \<Rightarrow> storage_error + goval" where
  "fm_Get now key s =
     (if fm_expired now s key then Inl (KeyExpired key)
      else case fm_data s key of None \<Rightarrow> Inl (KeyNotFound key) | Some v \<Rightarrow> Inr v)"

definition fm_Delete :: "string \<Rightarrow> facade_memory \<Rightarrow> facade_memory" where
  "fm_Delete key s = s\<lparr>fm_data := (fm_data s)(key := None), fm_ttl := (fm_ttl s)(key := None)\<rparr>"

definition fm_Exists :: "gotime \<Rightarrow> string \<Rightarrow> facade_memory \<Rightarrow> bool" where
  "fm_Exists now key s = (\<not> fm_expired now s key \<and> fm_data s key \<noteq> None)"

text \<open>The items, and later the keys, in the order the loop visits them.\<close>

definition fm_BatchStore :: "gotime \<Rightarrow> (string \<times> goval) list \<Rightarrow> facade_memory \<Rightarrow> facade_memory" where
  "fm_BatchStore now items s =
     fold (\<lambda>(key, v) s. s\<lparr>fm_data := (fm_data s)(key \<mapsto> v), fm_ttl := (fm_ttl s)(key \<mapsto> now + cache_ttl)\<rparr>) items s"

definition fm_BatchGet :: "gotime \<Rightarrow> string list \<Rightarrow> facade_memory \<Rightarrow> string \<rightharpoonup> goval" where
  "fm_BatchGet now keys s = fold (\<lambda>key res.
     if fm_expired now s key then res else case fm_data s key of None \<Rightarrow> res | Some v \<Rightarrow> res(key \<mapsto> v)) keys Map.empty"

text \<open>
  Comparing two interface values panics when they are both lists or both maps.  \<open>feq\<close> is the comparison of
  floats.
\<close>

definition go_equal :: "(64 word \<Rightarrow> 64 word \<Rightarrow> bool) \<Rightarrow> goval \<Rightarrow> goval \<Rightarrow> bool option" where
  "go_equal feq a b = (case (a, b) of
       (GFloat x, GFloat y) \<Rightarrow> Some (feq x y)
     | (GList _, GList _) \<Rightarrow> None
     | (GMap _, GMap _) \<Rightarrow> None
     | (GStrs _, GStrs _) \<Rightarrow> None
     | _ \<Rightarrow> Some (a = b))"

fun matches_filter :: "(64 word \<Rightarrow> 64 word \<Rightarrow> bool) \<Rightarrow> (string \<times> goval) list \<Rightarrow> (string \<times> goval) list \<Rightarrow> bool option" where
  "matches_filter feq [] m = Some True"
| "matches_filter feq ((fk, fv) # fs) m = (case map_of m fk of
       None \<Rightarrow> Some False
     | Some mv \<Rightarrow> (case go_equal feq mv fv of
           None \<Rightarrow> None
         | Some b \<Rightarrow> if b then matches_filter feq fs m else Some False))"

text \<open>\<open>ks\<close> is the order in which the data is visited; \<open>None\<close> is a panic.\<close>

fun fm_query_loop :: "(64 word \<Rightarrow> 64 word \<Rightarrow> bool) \<Rightarrow> gotime \<Rightarrow> string \<Rightarrow> (string \<times> goval) list \<Rightarrow> facade_memory \<Rightarrow> string list \<Rightarrow>
    (string \<times> goval) list list option" where
  "fm_query_loop feq now pre flt s [] = Some []"
| "fm_query_loop feq now pre flt s (key # ks) =
     (if fm_expired now s key \<or> \<not> HasPrefix key pre then fm_query_loop feq now pre flt s ks
      else case fm_data s key of
        Some (GMap m) \<Rightarrow> (case matches_filter feq flt m of
            None \<Rightarrow> None
          | Some False \<Rightarrow> fm_query_loop feq now pre flt s ks
          | Some True \<Rightarrow> map_option ((#) m) (fm_query_loop feq now pre flt s ks))
      | _ \<Rightarrow> fm_query_loop feq now pre flt s ks)"

definition fm_Query :: "(64 word \<Rightarrow> 64 word \<Rightarrow> bool) \<Rightarrow> gotime \<Rightarrow> string \<Rightarrow> (string \<times> goval) list \<Rightarrow> string list \<Rightarrow> facade_memory \<Rightarrow>
    (string \<times> goval) list list option" where
  "fm_Query feq now coll flt ks s = fm_query_loop feq now (coll @ '':'') flt s ks"

definition fm_Count :: "gotime \<Rightarrow> string list \<Rightarrow> facade_memory \<Rightarrow> nat" where
  "fm_Count now ks s =
     length (filter (\<lambda>key. (case fm_ttl s key of None \<Rightarrow> False | Some expiry \<Rightarrow> now < expiry) \<and> fm_data s key \<noteq> None) ks)"

definition fm_Clear :: "facade_memory \<Rightarrow> facade_memory" where
  "fm_Clear s = s\<lparr>fm_data := Map.empty, fm_ttl := Map.empty\<rparr>"

definition fm_cleanup :: "gotime \<Rightarrow> facade_memory \<Rightarrow> facade_memory" where
  "fm_cleanup now s = s\<lparr>fm_data := (\<lambda>k. if fm_expired now s k then None else fm_data s k),
     fm_ttl := (\<lambda>k. if fm_expired now s k then None else fm_ttl s k)\<rparr>"

text \<open>The clock is read twice for each item: for its key and for its expiry.\<close>

definition save_key :: "string \<Rightarrow> gotime \<Rightarrow> nat \<Rightarrow> string" where
  "save_key coll now i = coll @ '':'' @ dec_of_int now @ '':'' @ dec_of_int (int i)"

definition fm_Save :: "(nat \<Rightarrow> gotime \<times> gotime) \<Rightarrow> string \<Rightarrow> (string \<times> goval) list list \<Rightarrow> facade_memory \<Rightarrow> facade_memory" where
  "fm_Save clock coll items s = fold (\<lambda>(i, item) s. fm_StoreWithTTL (snd (clock i)) cache_ttl (save_key coll (fst (clock i)) i) (GMap item) s)
     (enumerate 0 items) s"

section \<open>Redis\<close>

text \<open>
  The client.  A read gives \<open>None\<close> when Redis fails and \<open>Some None\<close> when the key is absent.  \<open>SCAN\<close> answers a
  page of keys and the next cursor.
\<close>

record 'r redis_client =
  rc_Set :: "gotime \<Rightarrow> string \<Rightarrow> string \<Rightarrow> duration \<Rightarrow> 'r \<Rightarrow> bool \<times> 'r"
  rc_Get :: "gotime \<Rightarrow> string \<Rightarrow> 'r \<Rightarrow> string option option"
  rc_Del :: "string list \<Rightarrow> 'r \<Rightarrow> bool \<times> 'r"
  rc_Exists :: "gotime \<Rightarrow> string \<Rightarrow> 'r \<Rightarrow> nat option"
  rc_Scan :: "gotime \<Rightarrow> nat \<Rightarrow> string \<Rightarrow> nat \<Rightarrow> 'r \<Rightarrow> (string list \<times> nat) option"

text \<open>\<open>json.Marshal\<close> and \<open>json.Unmarshal\<close> on the values that are stored.\<close>

record 'a json_codec =
  jc_Marshal :: "'a \<Rightarrow> string option"
  jc_Unmarshal :: "string \<Rightarrow> 'a option"

record redis_storage =
  rst_prefix :: string
  rst_ttl :: duration

datatype store_error = NotMarshalled | NotUnmarshalled | BackendError | NoSuchKey string | InvalidQuery | NotConnected | Unsupported string

text \<open>The configuration of a storage.\<close>

record storage_config =
  sgc_Type :: string
  sgc_Database :: string
  sgc_Table :: string
  sgc_Prefix :: string
  sgc_TTL :: duration

definition NewRedisStorage :: "bool \<Rightarrow> storage_config \<Rightarrow> store_error + redis_storage" where
  "NewRedisStorage connected cfg =
     (if \<not> connected then Inl NotConnected
      else Inr \<lparr>rst_prefix = sgc_Prefix cfg, rst_ttl = (if sgc_TTL cfg = 0 then 24 * hour else sgc_TTL cfg)\<rparr>)"

definition rst_getKey :: "redis_storage \<Rightarrow> string \<Rightarrow> string" where
  "rst_getKey rs key = (if rst_prefix rs \<noteq> '''' then rst_prefix rs @ '':'' @ key else key)"

definition replied :: "bool \<times> 'r \<Rightarrow> store_error option \<times> 'r" where
  "replied x = (if fst x then None else Some BackendError, snd x)"

definition rst_StoreWithTTL :: "'r redis_client \<Rightarrow> 'a json_codec \<Rightarrow> redis_storage \<Rightarrow> gotime \<Rightarrow> duration \<Rightarrow> string \<Rightarrow> 'a \<Rightarrow> 'r \<Rightarrow>
    store_error option \<times> 'r" where
  "rst_StoreWithTTL R J rs now ttl key v r = (case jc_Marshal J v of
       None \<Rightarrow> (Some NotMarshalled, r)
     | Some data \<Rightarrow> replied (rc_Set R now (rst_getKey rs key) data ttl r))"

definition rst_Store :: "'r redis_client \<Rightarrow> 'a json_codec \<Rightarrow> redis_storage \<Rightarrow> gotime \<Rightarrow> string \<Rightarrow> 'a \<Rightarrow> 'r \<Rightarrow> store_error option \<times> 'r" where
  "rst_Store R J rs now key v r = rst_StoreWithTTL R J rs now (rst_ttl rs) key v r"

definition rst_Get :: "'r redis_client \<Rightarrow> 'a json_codec \<Rightarrow> redis_storage \<Rightarrow> gotime \<Rightarrow> string \<Rightarrow> 'r \<Rightarrow> store_error + 'a" where
  "rst_Get R J rs now key r = (case rc_Get R now (rst_getKey rs key) r of
       None \<Rightarrow> Inl BackendError
     | Some None \<Rightarrow> Inl (NoSuchKey key)
     | Some (Some data) \<Rightarrow> (case jc_Unmarshal J data of None \<Rightarrow> Inl NotUnmarshalled | Some v \<Rightarrow> Inr v))"

definition rst_Delete :: "'r redis_client \<Rightarrow> redis_storage \<Rightarrow> string \<Rightarrow> 'r \<Rightarrow> store_error option \<times> 'r" where
  "rst_Delete R rs key r = replied (rc_Del R [rst_getKey rs key] r)"

definition rst_Exists :: "'r redis_client \<Rightarrow> redis_storage \<Rightarrow> gotime \<Rightarrow> string \<Rightarrow> 'r \<Rightarrow> store_error + bool" where
  "rst_Exists R rs now key r = (case rc_Exists R now (rst_getKey rs key) r of None \<Rightarrow> Inl BackendError | Some n \<Rightarrow> Inr (n > 0))"

text \<open>All items are encoded before the pipeline is sent; the pipeline runs all its commands and fails if one fails.\<close>

fun set_all :: "'r redis_client \<Rightarrow> gotime \<Rightarrow> duration \<Rightarrow> (string \<times> string) list \<Rightarrow> 'r \<Rightarrow> bool \<times> 'r" where
  "set_all R now ttl [] r = (True, r)"
| "set_all R now ttl ((k, data) # cs) r =
     (case rc_Set R now k data ttl r of (ok, r1) \<Rightarrow> case set_all R now ttl cs r1 of (ok', r2) \<Rightarrow> (ok \<and> ok', r2))"

fun encode_all :: "'a json_codec \<Rightarrow> (string \<times> 'a) list \<Rightarrow> (string \<times> string) list option" where
  "encode_all J [] = Some []"
| "encode_all J ((k, v) # items) = (case jc_Marshal J v of
       None \<Rightarrow> None
     | Some data \<Rightarrow> map_option ((#) (k, data)) (encode_all J items))"

definition store_all :: "'r redis_client \<Rightarrow> 'a json_codec \<Rightarrow> gotime \<Rightarrow> duration \<Rightarrow> (string \<times> 'a) list \<Rightarrow> 'r \<Rightarrow> store_error option \<times> 'r" where
  "store_all R J now ttl items r = (case encode_all J items of
       None \<Rightarrow> (Some NotMarshalled, r)
     | Some cs \<Rightarrow> replied (set_all R now ttl cs r))"

definition rst_BatchStore :: "'r redis_client \<Rightarrow> 'a json_codec \<Rightarrow> redis_storage \<Rightarrow> gotime \<Rightarrow> (string \<times> 'a) list \<Rightarrow> 'r \<Rightarrow> store_error option \<times> 'r" where
  "rst_BatchStore R J rs now items r = store_all R J now (rst_ttl rs) (map (\<lambda>(k, v). (rst_getKey rs k, v)) items) r"

text \<open>
  The error of a pipeline is that of the first command that gives one, and an absent key gives \<open>redis.Nil\<close>: a
  failure behind an absent key goes unseen.
\<close>

definition pipeline_failed :: "string option option list \<Rightarrow> bool" where
  "pipeline_failed cmds = (case dropWhile (\<lambda>c. \<exists>d. c = Some (Some d)) cmds of None # _ \<Rightarrow> True | _ \<Rightarrow> False)"

definition reply_value :: "'a json_codec \<Rightarrow> string option option \<Rightarrow> 'a option" where
  "reply_value J c = (case c of Some (Some data) \<Rightarrow> jc_Unmarshal J data | _ \<Rightarrow> None)"

definition rst_BatchGet :: "'r redis_client \<Rightarrow> 'a json_codec \<Rightarrow> redis_storage \<Rightarrow> gotime \<Rightarrow> string list \<Rightarrow> 'r \<Rightarrow> store_error + (string \<rightharpoonup> 'a)" where
  "rst_BatchGet R J rs now keys r =
     (let cmds = map (\<lambda>k. rc_Get R now (rst_getKey rs k) r) keys
      in if pipeline_failed cmds then Inl BackendError
         else Inr (fold (\<lambda>(k, c) m. case reply_value J c of None \<Rightarrow> m | Some v \<Rightarrow> m(k \<mapsto> v)) (zip keys cmds) Map.empty))"

text \<open>
  A scan goes on until the cursor is zero again; nothing bounds it but Redis, so it has fuel.  \<open>None\<close> is no
  fuel; a page that fails ends it.  What is done with a page of keys is an argument.
\<close>

fun scan_loop :: "'r redis_client \<Rightarrow> gotime \<Rightarrow> string \<Rightarrow> (string list \<Rightarrow> 'x \<times> 'r \<Rightarrow> bool \<times> 'x \<times> 'r) \<Rightarrow> nat \<Rightarrow> nat \<Rightarrow> 'x \<times> 'r \<Rightarrow>
    (bool \<times> 'x \<times> 'r) option" where
  "scan_loop R now pattern page 0 cursor s = None"
| "scan_loop R now pattern page (Suc n) cursor s = (case rc_Scan R now cursor pattern 100 (snd s) of
       None \<Rightarrow> Some (False, s)
     | Some (keys, cursor') \<Rightarrow> (case page keys s of
           (False, s1) \<Rightarrow> Some (False, s1)
         | (True, s1) \<Rightarrow> if cursor' = 0 then Some (True, s1) else scan_loop R now pattern page n cursor' s1))"

definition found :: "bool \<times> 'x \<times> 'r \<Rightarrow> store_error + 'x" where
  "found out = (case out of (ok, x, r) \<Rightarrow> if ok then Inr x else Inl BackendError)"

definition read_page :: "'r redis_client \<Rightarrow> 'a json_codec \<Rightarrow> gotime \<Rightarrow> string list \<Rightarrow> 'a list \<times> 'r \<Rightarrow> bool \<times> 'a list \<times> 'r" where
  "read_page R J now keys s = (case s of (res, r) \<Rightarrow>
     let cmds = map (\<lambda>k. rc_Get R now k r) keys
     in if pipeline_failed cmds then (False, s) else (True, res @ List.map_filter (reply_value J) cmds, r))"

text \<open>A pattern that is no string is refused.\<close>

definition rst_Query :: "'r redis_client \<Rightarrow> 'a json_codec \<Rightarrow> redis_storage \<Rightarrow> nat \<Rightarrow> gotime \<Rightarrow> goval \<Rightarrow> 'r \<Rightarrow> (store_error + 'a list) option" where
  "rst_Query R J rs n now query r = (case query of
       GStr pattern \<Rightarrow> map_option found (scan_loop R now (rst_getKey rs pattern) (read_page R J now) n 0 ([], r))
     | _ \<Rightarrow> Some (Inl InvalidQuery))"

definition rst_Count :: "'r redis_client \<Rightarrow> redis_storage \<Rightarrow> nat \<Rightarrow> gotime \<Rightarrow> 'r \<Rightarrow> (store_error + nat) option" where
  "rst_Count R rs n now r =
     map_option found (scan_loop R now (rst_getKey rs ''*'') (\<lambda>keys (c, r). (True, c + length keys, r)) n 0 (0, r))"

definition delete_page :: "'r redis_client \<Rightarrow> string list \<Rightarrow> unit \<times> 'r \<Rightarrow> bool \<times> unit \<times> 'r" where
  "delete_page R keys s = (if keys = [] then (True, s) else case rc_Del R keys (snd s) of (ok, r1) \<Rightarrow> (ok, (), r1))"

definition rst_Clear :: "'r redis_client \<Rightarrow> redis_storage \<Rightarrow> nat \<Rightarrow> gotime \<Rightarrow> 'r \<Rightarrow> (store_error option \<times> 'r) option" where
  "rst_Clear R rs n now r =
     map_option (\<lambda>(ok, u, r1). replied (ok, r1)) (scan_loop R now (rst_getKey rs ''*'') (delete_page R) n 0 ((), r))"

section \<open>The facade's Redis storage\<close>

text \<open>The facade has its own copy of the storage, with a lifetime of a day, a \<open>Save\<close> and an empty \<open>Query\<close>.\<close>

definition facade_redis :: "string \<Rightarrow> redis_storage" where
  "facade_redis pre = \<lparr>rst_prefix = pre, rst_ttl = 24 * hour\<rparr>"

definition fr_getKey :: "string \<Rightarrow> string \<Rightarrow> string" where
  "fr_getKey pre key = rst_getKey (facade_redis pre) key"

definition fr_StoreWithTTL :: "'r redis_client \<Rightarrow> 'a json_codec \<Rightarrow> string \<Rightarrow> gotime \<Rightarrow> duration \<Rightarrow> string \<Rightarrow> 'a \<Rightarrow> 'r \<Rightarrow> store_error option \<times> 'r" where
  "fr_StoreWithTTL R J pre now ttl key v r = rst_StoreWithTTL R J (facade_redis pre) now ttl key v r"

definition fr_Store :: "'r redis_client \<Rightarrow> 'a json_codec \<Rightarrow> string \<Rightarrow> gotime \<Rightarrow> string \<Rightarrow> 'a \<Rightarrow> 'r \<Rightarrow> store_error option \<times> 'r" where
  "fr_Store R J pre now key v r = fr_StoreWithTTL R J pre now (24 * hour) key v r"

definition fr_Get :: "'r redis_client \<Rightarrow> 'a json_codec \<Rightarrow> string \<Rightarrow> gotime \<Rightarrow> string \<Rightarrow> 'r \<Rightarrow> store_error + 'a" where
  "fr_Get R J pre now key r = rst_Get R J (facade_redis pre) now key r"

definition fr_Delete :: "'r redis_client \<Rightarrow> string \<Rightarrow> string \<Rightarrow> 'r \<Rightarrow> store_error option \<times> 'r" where
  "fr_Delete R pre key r = rst_Delete R (facade_redis pre) key r"

definition fr_Exists :: "'r redis_client \<Rightarrow> string \<Rightarrow> gotime \<Rightarrow> string \<Rightarrow> 'r \<Rightarrow> store_error + bool" where
  "fr_Exists R pre now key r = rst_Exists R (facade_redis pre) now key r"

definition fr_BatchStore :: "'r redis_client \<Rightarrow> 'a json_codec \<Rightarrow> string \<Rightarrow> gotime \<Rightarrow> (string \<times> 'a) list \<Rightarrow> 'r \<Rightarrow> store_error option \<times> 'r" where
  "fr_BatchStore R J pre now items r = rst_BatchStore R J (facade_redis pre) now items r"

definition fr_BatchGet :: "'r redis_client \<Rightarrow> 'a json_codec \<Rightarrow> string \<Rightarrow> gotime \<Rightarrow> string list \<Rightarrow> 'r \<Rightarrow> store_error + (string \<rightharpoonup> 'a)" where
  "fr_BatchGet R J pre now keys r = rst_BatchGet R J (facade_redis pre) now keys r"

definition fr_QueryGeneric :: "'r redis_client \<Rightarrow> 'a json_codec \<Rightarrow> string \<Rightarrow> nat \<Rightarrow> gotime \<Rightarrow> goval \<Rightarrow> 'r \<Rightarrow> (store_error + 'a list) option" where
  "fr_QueryGeneric R J pre n now query r = rst_Query R J (facade_redis pre) n now query r"

definition fr_Count :: "'r redis_client \<Rightarrow> string \<Rightarrow> nat \<Rightarrow> gotime \<Rightarrow> 'r \<Rightarrow> (store_error + nat) option" where
  "fr_Count R pre n now r = rst_Count R (facade_redis pre) n now r"

definition fr_Clear :: "'r redis_client \<Rightarrow> string \<Rightarrow> nat \<Rightarrow> gotime \<Rightarrow> 'r \<Rightarrow> (store_error option \<times> 'r) option" where
  "fr_Clear R pre n now r = rst_Clear R (facade_redis pre) n now r"

definition fr_Save :: "'r redis_client \<Rightarrow> 'a json_codec \<Rightarrow> string \<Rightarrow> (nat \<Rightarrow> gotime) \<Rightarrow> gotime \<Rightarrow> string \<Rightarrow> 'a list \<Rightarrow> 'r \<Rightarrow> store_error option \<times> 'r" where
  "fr_Save R J pre clock now coll items r =
     store_all R J now (24 * hour) (map (\<lambda>(i, v). (fr_getKey pre (save_key coll (clock i) i), v)) (enumerate 0 items)) r"

definition fr_Query :: "string \<Rightarrow> (string \<times> goval) list \<Rightarrow> (string \<times> goval) list list" where
  "fr_Query coll flt = []"

section \<open>MySQL\<close>

text \<open>
  A row of the table, and what gorm is asked: to insert or replace a row, to find, count or delete the rows
  that fulfil a condition.  \<open>db_Commit\<close> runs a transaction: all of it or, on an error, nothing.
\<close>

record mysql_row =
  row_ID :: string
  row_Data :: string
  row_CreatedAt :: gotime
  row_UpdatedAt :: gotime
  row_TTL :: "gotime option"

record 'd row_db =
  db_Save :: "mysql_row \<Rightarrow> 'd \<Rightarrow> bool \<times> 'd"
  db_Find :: "(mysql_row \<Rightarrow> bool) \<Rightarrow> 'd \<Rightarrow> mysql_row list option"
  db_Delete :: "(mysql_row \<Rightarrow> bool) \<Rightarrow> 'd \<Rightarrow> bool \<times> 'd"
  db_like :: "string \<Rightarrow> string \<Rightarrow> bool"

record mysql_storage =
  myt_table :: string
  myt_ttl :: duration

text \<open>\<open>config.TTL\<close> is a duration already; the product with a second is one of 64 bits.\<close>

definition NewMySQLStorage :: "bool \<Rightarrow> bool \<Rightarrow> storage_config \<Rightarrow> store_error + mysql_storage" where
  "NewMySQLStorage connected migrated cfg =
     (let ttl = wrap64 (sgc_TTL cfg * second)
      in if \<not> connected then Inl NotConnected
         else if \<not> migrated then Inl BackendError
         else Inr \<lparr>myt_table = (if sgc_Table cfg = '''' then ''crawler_storage'' else sgc_Table cfg),
                myt_ttl = (if ttl = 0 then cache_ttl else ttl)\<rparr>)"

definition row_expiry :: "gotime \<Rightarrow> duration \<Rightarrow> gotime option" where
  "row_expiry now ttl = (if ttl > 0 then Some (now + ttl) else None)"

text \<open>The clock is read for each of the two stamps and for the expiry.\<close>

definition my_StoreWithTTL :: "'d row_db \<Rightarrow> 'a json_codec \<Rightarrow> gotime \<Rightarrow> gotime \<Rightarrow> gotime \<Rightarrow> duration \<Rightarrow> string \<Rightarrow> 'a \<Rightarrow> 'd \<Rightarrow> store_error option \<times> 'd" where
  "my_StoreWithTTL D J now1 now2 now ttl key v d = (case jc_Marshal J v of
       None \<Rightarrow> (Some NotMarshalled, d)
     | Some data \<Rightarrow> replied (db_Save D \<lparr>row_ID = key, row_Data = data, row_CreatedAt = now1, row_UpdatedAt = now2, row_TTL = row_expiry now ttl\<rparr> d))"

definition my_Store :: "'d row_db \<Rightarrow> 'a json_codec \<Rightarrow> mysql_storage \<Rightarrow> gotime \<Rightarrow> gotime \<Rightarrow> gotime \<Rightarrow> string \<Rightarrow> 'a \<Rightarrow> 'd \<Rightarrow> store_error option \<times> 'd" where
  "my_Store D J ms now1 now2 now key v d = my_StoreWithTTL D J now1 now2 now (myt_ttl ms) key v d"

definition row_lives :: "gotime \<Rightarrow> mysql_row \<Rightarrow> bool" where
  "row_lives now row = (case row_TTL row of None \<Rightarrow> True | Some e \<Rightarrow> e > now)"

definition my_Get :: "'d row_db \<Rightarrow> 'a json_codec \<Rightarrow> gotime \<Rightarrow> string \<Rightarrow> 'd \<Rightarrow> store_error + 'a" where
  "my_Get D J now key d = (case db_Find D (\<lambda>row. row_ID row = key \<and> row_lives now row) d of
       None \<Rightarrow> Inl BackendError
     | Some [] \<Rightarrow> Inl (NoSuchKey key)
     | Some (row # _) \<Rightarrow> (case jc_Unmarshal J (row_Data row) of None \<Rightarrow> Inl NotUnmarshalled | Some v \<Rightarrow> Inr v))"

definition my_Delete :: "'d row_db \<Rightarrow> string \<Rightarrow> 'd \<Rightarrow> store_error option \<times> 'd" where
  "my_Delete D key d = replied (db_Delete D (\<lambda>row. row_ID row = key) d)"

definition my_Exists :: "'d row_db \<Rightarrow> gotime \<Rightarrow> string \<Rightarrow> 'd \<Rightarrow> store_error + bool" where
  "my_Exists D now key d = (case db_Find D (\<lambda>row. row_ID row = key \<and> row_lives now row) d of
       None \<Rightarrow> Inl BackendError | Some rows \<Rightarrow> Inr (length rows > 0))"

text \<open>A transaction: the state before it is kept when an item fails.\<close>

fun my_save_items :: "'d row_db \<Rightarrow> 'a json_codec \<Rightarrow> gotime \<Rightarrow> gotime option \<Rightarrow> (string \<times> 'a) list \<Rightarrow> 'd \<Rightarrow> store_error + 'd" where
  "my_save_items D J now expiry [] d = Inr d"
| "my_save_items D J now expiry ((key, v) # items) d = (case jc_Marshal J v of
       None \<Rightarrow> Inl NotMarshalled
     | Some data \<Rightarrow> (case db_Save D \<lparr>row_ID = key, row_Data = data, row_CreatedAt = now, row_UpdatedAt = now, row_TTL = expiry\<rparr> d of
           (False, d1) \<Rightarrow> Inl BackendError
         | (True, d1) \<Rightarrow> my_save_items D J now expiry items d1))"

definition my_BatchStore :: "'d row_db \<Rightarrow> 'a json_codec \<Rightarrow> mysql_storage \<Rightarrow> gotime \<Rightarrow> (string \<times> 'a) list \<Rightarrow> 'd \<Rightarrow> store_error option \<times> 'd" where
  "my_BatchStore D J ms now items d = (if items = [] then (None, d)
     else case my_save_items D J now (row_expiry now (myt_ttl ms)) items d of Inl e \<Rightarrow> (Some e, d) | Inr d1 \<Rightarrow> (None, d1))"

definition my_BatchGet :: "'d row_db \<Rightarrow> 'a json_codec \<Rightarrow> gotime \<Rightarrow> string list \<Rightarrow> 'd \<Rightarrow> store_error + (string \<rightharpoonup> 'a)" where
  "my_BatchGet D J now keys d = (case db_Find D (\<lambda>row. row_ID row \<in> set keys \<and> row_lives now row) d of
       None \<Rightarrow> Inl BackendError
     | Some rows \<Rightarrow> Inr (fold (\<lambda>row m. case jc_Unmarshal J (row_Data row) of None \<Rightarrow> m | Some v \<Rightarrow> m(row_ID row \<mapsto> v)) rows Map.empty))"

definition my_Query :: "'d row_db \<Rightarrow> 'a json_codec \<Rightarrow> gotime \<Rightarrow> goval \<Rightarrow> 'd \<Rightarrow> store_error + 'a list" where
  "my_Query D J now query d = (case query of
       GStr pattern \<Rightarrow> (case db_Find D (\<lambda>row. db_like D (pattern @ ''%'') (row_ID row) \<and> row_lives now row) d of
           None \<Rightarrow> Inl BackendError
         | Some rows \<Rightarrow> Inr (List.map_filter (\<lambda>row. jc_Unmarshal J (row_Data row)) rows))
     | _ \<Rightarrow> Inl InvalidQuery)"

definition my_Count :: "'d row_db \<Rightarrow> gotime \<Rightarrow> 'd \<Rightarrow> store_error + nat" where
  "my_Count D now d = (case db_Find D (row_lives now) d of None \<Rightarrow> Inl BackendError | Some rows \<Rightarrow> Inr (length rows))"

definition my_Clear :: "'d row_db \<Rightarrow> 'd \<Rightarrow> store_error option \<times> 'd" where
  "my_Clear D d = replied (db_Delete D (\<lambda>row. True) d)"

definition my_cleanup :: "'d row_db \<Rightarrow> gotime \<Rightarrow> 'd \<Rightarrow> 'd" where
  "my_cleanup D now d = snd (db_Delete D (\<lambda>row. case row_TTL row of None \<Rightarrow> False | Some e \<Rightarrow> e < now) d)"

section \<open>MongoDB\<close>

record 'a mongo_doc =
  mdoc_ID :: string
  mdoc_Data :: 'a
  mdoc_CreatedAt :: gotime
  mdoc_UpdatedAt :: gotime
  mdoc_TTL :: "gotime option"

text \<open>
  The collection.  A failed replacement says whether its error is that of a disconnected client; a query
  gives the documents that can be reply_value and whether the cursor ended well.  \<open>mc_regex\<close> is the server's
  matching of a regular expression.
\<close>

datatype replace_answer = Replaced | ClientDisconnected | ReplaceFailed

record ('a, 'd) mongo_coll =
  mg_Ping :: "'d \<Rightarrow> bool"
  mg_Replace :: "'a mongo_doc \<Rightarrow> 'd \<Rightarrow> replace_answer \<times> 'd"
  mg_FindOne :: "string \<Rightarrow> 'd \<Rightarrow> 'a mongo_doc option option"
  mg_DeleteOne :: "string \<Rightarrow> 'd \<Rightarrow> bool \<times> 'd"
  mg_BulkReplace :: "'a mongo_doc list \<Rightarrow> 'd \<Rightarrow> bool \<times> 'd"
  mg_Find :: "('a mongo_doc \<Rightarrow> bool) \<Rightarrow> 'd \<Rightarrow> 'a mongo_doc list option"
  mg_DeleteAll :: "'d \<Rightarrow> bool \<times> 'd"
  mg_regex :: "string \<Rightarrow> string \<Rightarrow> bool"

record mongo_storage =
  mst_database :: string
  mst_collection :: string
  mst_ttl :: duration
  mst_client :: bool

text \<open>A client and an index on the expiry, whose failure is only printed.\<close>

definition NewMongoStorage :: "bool \<Rightarrow> storage_config \<Rightarrow> store_error + mongo_storage" where
  "NewMongoStorage connected cfg = (if \<not> connected then Inl NotConnected
     else Inr \<lparr>mst_database = (if sgc_Database cfg = '''' then ''crawler'' else sgc_Database cfg),
            mst_collection = (if sgc_Table cfg = '''' then ''storage'' else sgc_Table cfg),
            mst_ttl = (if sgc_TTL cfg = 0 then 24 * hour else sgc_TTL cfg), mst_client = True\<rparr>)"

text \<open>The document is looked for again when the client says that it is disconnected.\<close>

definition mst_StoreWithTTL :: "('a, 'd) mongo_coll \<Rightarrow> mongo_storage \<Rightarrow> gotime \<Rightarrow> gotime \<Rightarrow> gotime \<Rightarrow> duration \<Rightarrow> string \<Rightarrow> 'a \<Rightarrow> 'd \<Rightarrow>
    store_error option \<times> 'd" where
  "mst_StoreWithTTL M ms now1 now2 now ttl key v d =
     (if mst_client ms \<and> \<not> mg_Ping M d then (Some NotConnected, d)
      else let doc = \<lparr>mdoc_ID = key, mdoc_Data = v, mdoc_CreatedAt = now1, mdoc_UpdatedAt = now2, mdoc_TTL = row_expiry now ttl\<rparr>
           in case mg_Replace M doc d of
                (Replaced, d1) \<Rightarrow> (None, d1)
              | (ClientDisconnected, d1) \<Rightarrow> (case mg_FindOne M key d1 of
                    Some (Some _) \<Rightarrow> (None, d1)
                  | _ \<Rightarrow> (Some BackendError, d1))
              | (ReplaceFailed, d1) \<Rightarrow> (Some BackendError, d1))"

definition mst_Store :: "('a, 'd) mongo_coll \<Rightarrow> mongo_storage \<Rightarrow> gotime \<Rightarrow> gotime \<Rightarrow> gotime \<Rightarrow> string \<Rightarrow> 'a \<Rightarrow> 'd \<Rightarrow> store_error option \<times> 'd" where
  "mst_Store M ms now1 now2 now key v d = mst_StoreWithTTL M ms now1 now2 now (mst_ttl ms) key v d"

text \<open>The clock is read for the key, the two stamps and the expiry.\<close>

record save_clock =
  sv_key :: gotime
  sv_created :: gotime
  sv_updated :: gotime
  sv_expiry :: gotime

definition mst_Save :: "('a, 'd) mongo_coll \<Rightarrow> mongo_storage \<Rightarrow> save_clock \<Rightarrow> 'a \<Rightarrow> 'd \<Rightarrow> store_error option \<times> 'd" where
  "mst_Save M ms ck v d = (if \<not> mst_client ms then (Some NotConnected, d)
     else mst_StoreWithTTL M ms (sv_created ck) (sv_updated ck) (sv_expiry ck) (mst_ttl ms) (dec_of_int (sv_key ck)) v d)"

fun mst_SaveBatch :: "('a, 'd) mongo_coll \<Rightarrow> mongo_storage \<Rightarrow> (save_clock \<times> 'a) list \<Rightarrow> 'd \<Rightarrow> store_error option \<times> 'd" where
  "mst_SaveBatch M ms [] d = (None, d)"
| "mst_SaveBatch M ms ((ck, v) # items) d = (case mst_Save M ms ck v d of
       (Some e, d1) \<Rightarrow> (Some e, d1)
     | (None, d1) \<Rightarrow> mst_SaveBatch M ms items d1)"

definition mst_Get :: "('a, 'd) mongo_coll \<Rightarrow> string \<Rightarrow> 'd \<Rightarrow> store_error + 'a" where
  "mst_Get M key d = (case mg_FindOne M key d of
       None \<Rightarrow> Inl BackendError
     | Some None \<Rightarrow> Inl (NoSuchKey key)
     | Some (Some doc) \<Rightarrow> Inr (mdoc_Data doc))"

definition mst_Delete :: "('a, 'd) mongo_coll \<Rightarrow> string \<Rightarrow> 'd \<Rightarrow> store_error option \<times> 'd" where
  "mst_Delete M key d = replied (mg_DeleteOne M key d)"

definition mst_Exists :: "('a, 'd) mongo_coll \<Rightarrow> string \<Rightarrow> 'd \<Rightarrow> store_error + bool" where
  "mst_Exists M key d = (case mg_Find M (\<lambda>doc. mdoc_ID doc = key) d of None \<Rightarrow> Inl BackendError | Some ds \<Rightarrow> Inr (length ds > 0))"

definition mst_BatchStore :: "('a, 'd) mongo_coll \<Rightarrow> mongo_storage \<Rightarrow> gotime \<Rightarrow> (string \<times> 'a) list \<Rightarrow> 'd \<Rightarrow> store_error option \<times> 'd" where
  "mst_BatchStore M ms now items d = (if items = [] then (None, d)
     else replied (mg_BulkReplace M (map (\<lambda>(key, v). \<lparr>mdoc_ID = key, mdoc_Data = v, mdoc_CreatedAt = now, mdoc_UpdatedAt = now,
       mdoc_TTL = row_expiry now (mst_ttl ms)\<rparr>) items) d))"

definition mst_BatchGet :: "('a, 'd) mongo_coll \<Rightarrow> string list \<Rightarrow> 'd \<Rightarrow> store_error + (string \<rightharpoonup> 'a)" where
  "mst_BatchGet M keys d = (case mg_Find M (\<lambda>doc. mdoc_ID doc \<in> set keys) d of
       None \<Rightarrow> Inl BackendError
     | Some ds \<Rightarrow> Inr (fold (\<lambda>doc m. m(mdoc_ID doc \<mapsto> mdoc_Data doc)) ds Map.empty))"

text \<open>A query is a filter of MongoDB, here its predicate, or the beginning of an identifier, taken as a regular expression.\<close>

datatype 'a mongo_query = MQFilter "'a mongo_doc \<Rightarrow> bool" | MQPrefix string | MQOther

definition mst_Query :: "('a, 'd) mongo_coll \<Rightarrow> 'a mongo_query \<Rightarrow> 'd \<Rightarrow> store_error + 'a list" where
  "mst_Query M q d =
     (let search = (\<lambda>p. case mg_Find M p d of None \<Rightarrow> Inl BackendError | Some ds \<Rightarrow> Inr (map mdoc_Data ds))
      in case q of
           MQFilter p \<Rightarrow> search p
         | MQPrefix s \<Rightarrow> search (\<lambda>doc. mg_regex M (CHR ''^'' # s) (mdoc_ID doc))
         | MQOther \<Rightarrow> Inl InvalidQuery)"

definition mst_Count :: "('a, 'd) mongo_coll \<Rightarrow> 'd \<Rightarrow> store_error + nat" where
  "mst_Count M d = (case mg_Find M (\<lambda>doc. True) d of None \<Rightarrow> Inl BackendError | Some ds \<Rightarrow> Inr (length ds))"

definition mst_Clear :: "('a, 'd) mongo_coll \<Rightarrow> 'd \<Rightarrow> store_error option \<times> 'd" where
  "mst_Clear M d = replied (mg_DeleteAll M d)"

section \<open>Manager and factory\<close>

text \<open>A storage is known by a name, here a value of type \<open>'s\<close>; \<open>ks\<close> is the order of the map.\<close>

record 's storage_manager =
  sm_storages :: "string \<rightharpoonup> 's"
  sm_primary :: string

definition NewStorageManager :: "'s storage_manager" where
  "NewStorageManager = \<lparr>sm_storages = Map.empty, sm_primary = ''''\<rparr>"

definition AddStorage :: "string \<Rightarrow> 's \<Rightarrow> bool \<Rightarrow> 's storage_manager \<Rightarrow> 's storage_manager" where
  "AddStorage name st isPrimary sm =
     (let sm1 = sm\<lparr>sm_storages := (sm_storages sm)(name \<mapsto> st)\<rparr> in if isPrimary then sm1\<lparr>sm_primary := name\<rparr> else sm1)"

definition GetStorage :: "string \<Rightarrow> 's storage_manager \<Rightarrow> 's option" where
  "GetStorage name sm = sm_storages sm name"

definition GetPrimary :: "string list \<Rightarrow> 's storage_manager \<Rightarrow> 's option" where
  "GetPrimary ks sm =
     (let first = (case ks of [] \<Rightarrow> None | k # _ \<Rightarrow> sm_storages sm k)
      in if sm_primary sm \<noteq> '''' then (case sm_storages sm (sm_primary sm) of Some st \<Rightarrow> Some st | None \<Rightarrow> first) else first)"

text \<open>The storages closed, in order, up to the first that fails.\<close>

fun CloseAll :: "('s \<Rightarrow> bool) \<Rightarrow> string list \<Rightarrow> 's storage_manager \<Rightarrow> bool \<times> string list" where
  "CloseAll close [] sm = (True, [])"
| "CloseAll close (k # ks) sm = (case sm_storages sm k of
       None \<Rightarrow> CloseAll close ks sm
     | Some st \<Rightarrow> if close st then (case CloseAll close ks sm of (ok, done') \<Rightarrow> (ok, k # done')) else (False, [k]))"

definition HealthCheckAll :: "('s \<Rightarrow> 'e) \<Rightarrow> 's storage_manager \<Rightarrow> string \<rightharpoonup> 'e" where
  "HealthCheckAll check sm = (\<lambda>name. map_option check (sm_storages sm name))"

text \<open>What the factory makes.  A database is known by its kind and by whether it is connected.\<close>

datatype database_kind = RedisDatabase | MongoDatabase | MySQLDatabase

datatype made_storage = MadeRedis redis_storage | MadeMongo mongo_storage | MadeMySQL mysql_storage | MadeMemory storage

definition need :: "string \<Rightarrow> database_kind \<Rightarrow> (string \<rightharpoonup> database_kind \<times> bool) \<Rightarrow> (bool \<Rightarrow> store_error + 'x) \<Rightarrow> store_error + 'x" where
  "need name kind dbs build = (case dbs name of
       None \<Rightarrow> Inl NotConnected
     | Some (k, connected) \<Rightarrow> if k = kind then build connected else Inl NotConnected)"

definition sf_CreateStorage :: "(string \<rightharpoonup> database_kind \<times> bool) \<Rightarrow> bool \<Rightarrow> storage_config \<Rightarrow> store_error + made_storage" where
  "sf_CreateStorage dbs migrated cfg =
     (if sgc_Type cfg = ''redis'' then need ''redis'' RedisDatabase dbs (\<lambda>c. map_sum id MadeRedis (NewRedisStorage c cfg))
      else if sgc_Type cfg = ''mongodb'' \<or> sgc_Type cfg = ''mongo'' then
        need ''mongodb'' MongoDatabase dbs (\<lambda>c. map_sum id MadeMongo (NewMongoStorage c cfg))
      else if sgc_Type cfg = ''mysql'' then need ''mysql'' MySQLDatabase dbs (\<lambda>c. map_sum id MadeMySQL (NewMySQLStorage c migrated cfg))
      else if sgc_Type cfg = ''memory'' then Inr (MadeMemory (NewMemoryStorage (sgc_Prefix cfg)))
      else Inl (Unsupported (sgc_Type cfg)))"

definition sf_CreateStorageFromString :: "(string \<rightharpoonup> database_kind \<times> bool) \<Rightarrow> bool \<Rightarrow> string \<Rightarrow> string \<Rightarrow> store_error + made_storage" where
  "sf_CreateStorageFromString dbs migrated ty pre =
     (let cfg = \<lparr>sgc_Type = ty, sgc_Database = '''', sgc_Table = '''', sgc_Prefix = pre, sgc_TTL = 0\<rparr>
      in sf_CreateStorage dbs migrated
           (if ty = ''mongodb'' \<or> ty = ''mongo'' then cfg\<lparr>sgc_Database := ''crawler'', sgc_Table := ''storage''\<rparr>
            else if ty = ''mysql'' then cfg\<lparr>sgc_Database := ''crawler'', sgc_Table := ''crawler_storage''\<rparr>
            else cfg))"

section \<open>The contract of expiring stores\<close>

definition fm_lookup :: "gotime \<Rightarrow> string \<Rightarrow> facade_memory \<Rightarrow> goval option" where
  "fm_lookup now key s = (case fm_Get now key s of Inl _ \<Rightarrow> None | Inr v \<Rightarrow> Some v)"

lemma fm_lookup_alt: "fm_lookup now key s = (if fm_expired now s key then None else fm_data s key)"
  by (simp add: fm_lookup_def fm_Get_def split: option.splits)

interpretation fm_store: ttl_store fm_lookup fm_StoreWithTTL fm_Delete fm_cleanup NewFacadeMemory
proof
  fix now now' :: gotime and ttl :: duration and k k' :: string and v :: goval and s :: facade_memory
  show "fm_lookup now k NewFacadeMemory = None" by (simp add: fm_lookup_alt NewFacadeMemory_def)
  show "0 < ttl \<Longrightarrow> fm_lookup now' k (fm_StoreWithTTL now ttl k v s) = (if now' > now + ttl then None else Some v)"
    by (simp add: fm_lookup_alt fm_StoreWithTTL_def fm_expired_def)
  show "k \<noteq> k' \<Longrightarrow> fm_lookup now' k (fm_StoreWithTTL now ttl k' v s) = fm_lookup now' k s"
    by (simp add: fm_lookup_alt fm_StoreWithTTL_def fm_expired_def)
  show "fm_lookup now k (fm_Delete k s) = None" by (simp add: fm_lookup_alt fm_Delete_def fm_expired_def)
  show "k \<noteq> k' \<Longrightarrow> fm_lookup now k (fm_Delete k' s) = fm_lookup now k s"
    by (simp add: fm_lookup_alt fm_Delete_def fm_expired_def)
  show "now \<le> now' \<Longrightarrow> fm_lookup now' k (fm_cleanup now s) = fm_lookup now' k s"
    by (auto simp: fm_lookup_alt fm_cleanup_def fm_expired_def split: option.splits)
qed

lemma facade_memory_refines:
  assumes "\<forall>op \<in> set ops. op_ok T op"
  shows "fm_lookup T k (fold (store_ap fm_StoreWithTTL fm_Delete fm_cleanup) ops NewFacadeMemory) = alive_at T (last_write k ops)"
  using assms by (rule fm_store.get_run_empty)

text \<open>The facade's count leaves out what \<open>Get\<close> still serves at its expiry.\<close>

lemma count_before_expiry:
  assumes "0 < ttl"
  shows "fm_lookup (now + ttl) k (fm_StoreWithTTL now ttl k v NewFacadeMemory) = Some v \<and>
    fm_Count (now + ttl) [k] (fm_StoreWithTTL now ttl k v NewFacadeMemory) = 0"
  using assms by (simp add: fm_lookup_alt fm_expired_def fm_StoreWithTTL_def fm_Count_def)

text \<open>The key of a collection \<open>a\<close> is one of the collection \<open>a:b\<close> too when it goes on that way.\<close>

lemma query_other_collection:
  "HasPrefix (save_key (a @ '':'' @ b) now i) (a @ '':'')"
  by (simp add: save_key_def HasPrefix_iff)

text \<open>A filter with a list as a value panics when an item holds a list there.\<close>

lemma list_filter_panics: "matches_filter feq [(k, GList x)] [(k, GList y)] = None"
  by (simp add: go_equal_def)

text \<open>What Redis does, where it answers: keys with a value and an expiry.\<close>

definition redis_laws :: "'r redis_client \<Rightarrow> ('r \<Rightarrow> string \<rightharpoonup> string \<times> gotime option) \<Rightarrow> bool" where
  "redis_laws R view \<longleftrightarrow>
     (\<forall>now k s d r. 0 < d \<longrightarrow> fst (rc_Set R now k s d r) \<and> view (snd (rc_Set R now k s d r)) = (view r)(k \<mapsto> (s, Some (now + d)))) \<and>
     (\<forall>now k k' s d r. k' \<noteq> k \<longrightarrow> view (snd (rc_Set R now k s d r)) k' = view r k') \<and>
     (\<forall>now k r. rc_Get R now k r = Some (live now (view r k))) \<and>
     (\<forall>k r. fst (rc_Del R [k] r) \<and> view (snd (rc_Del R [k] r)) = (view r)(k := None)) \<and>
     (\<forall>now k r. rc_Exists R now k r = Some (if live now (view r k) = None then 0 else 1))"

definition json_faithful :: "'a json_codec \<Rightarrow> bool" where
  "json_faithful J \<longleftrightarrow> (\<forall>v. \<exists>s. jc_Marshal J v = Some s \<and> jc_Unmarshal J s = Some v)"

lemma json_faithfulD:
  assumes "json_faithful J"
  obtains s where "jc_Marshal J v = Some s" "jc_Unmarshal J s = Some v"
  using assms by (auto simp: json_faithful_def)

lemma rst_getKey_inj [simp]: "rst_getKey rs a = rst_getKey rs b \<longleftrightarrow> a = b"
  by (simp add: rst_getKey_def)

definition rst_lookup :: "'r redis_client \<Rightarrow> 'a json_codec \<Rightarrow> redis_storage \<Rightarrow> gotime \<Rightarrow> string \<Rightarrow> 'r \<Rightarrow> 'a option" where
  "rst_lookup R J rs now key r = (case rst_Get R J rs now key r of Inl _ \<Rightarrow> None | Inr v \<Rightarrow> Some v)"

abbreviation rst_put :: "'r redis_client \<Rightarrow> 'a json_codec \<Rightarrow> redis_storage \<Rightarrow> gotime \<Rightarrow> duration \<Rightarrow> string \<Rightarrow> 'a \<Rightarrow> 'r \<Rightarrow> 'r" where
  "rst_put R J rs now ttl key v r \<equiv> snd (rst_StoreWithTTL R J rs now ttl key v r)"

abbreviation rst_del :: "'r redis_client \<Rightarrow> redis_storage \<Rightarrow> string \<Rightarrow> 'r \<Rightarrow> 'r" where
  "rst_del R rs key r \<equiv> snd (rst_Delete R rs key r)"

lemma redis_expiring:
  fixes R :: "'r redis_client" and J :: "'a json_codec"
  assumes R: "redis_laws R view" and J: "json_faithful J"
  shows "expiring_store (\<lambda>T expiry. T \<ge> expiry) (rst_lookup R J rs) (rst_put R J rs) (rst_del R rs) (\<lambda>now r. r)"
proof
  note laws = R[unfolded redis_laws_def]
  have get: "rst_lookup R J rs now k r = (case live now (view r (rst_getKey rs k)) of None \<Rightarrow> None | Some d \<Rightarrow> jc_Unmarshal J d)" for now k r
    using laws by (simp add: rst_lookup_def rst_Get_def split: option.splits)
  fix now now' :: gotime and ttl :: duration and k k' :: string and v :: 'a and r :: 'r
  obtain s where s: "jc_Marshal J v = Some s" "jc_Unmarshal J s = Some v" using J by (rule json_faithfulD)
  have put: "view (rst_put R J rs now ttl k v r) = (view r)(rst_getKey rs k \<mapsto> (s, Some (now + ttl)))" if "0 < ttl" for k
    using laws that s by (simp add: rst_StoreWithTTL_def replied_def)
  have del: "view (rst_del R rs k r) = (view r)(rst_getKey rs k := None)" for k
    using laws by (simp add: rst_Delete_def replied_def)
  show "0 < ttl \<Longrightarrow> rst_lookup R J rs now' k (rst_put R J rs now ttl k v r) = (if now' \<ge> now + ttl then None else Some v)"
    using s by (simp add: get put live_Some)
  show "rst_lookup R J rs now k (rst_del R rs k r) = None" by (simp add: get del)
  show "k \<noteq> k' \<Longrightarrow> rst_lookup R J rs now k (rst_del R rs k' r) = rst_lookup R J rs now k r" by (simp add: get del)
  show "k \<noteq> k' \<Longrightarrow> rst_lookup R J rs now' k (rst_put R J rs now ttl k' v r) = rst_lookup R J rs now' k r"
    using laws s by (simp add: get rst_StoreWithTTL_def replied_def)
qed simp

text \<open>
  C33: redis_storage_refines. Over a Redis that answers, and with values that JSON carries, the storage keeps for
  each key the last value written and not deleted up to its expiry, and what was there before the first write;
  \<open>Exists\<close> agrees with \<open>Get\<close>.
\<close>

theorem redis_storage_refines:
  fixes R :: "'r redis_client" and J :: "'a json_codec"
  assumes R: "redis_laws R view" and J: "json_faithful J" and ops: "\<forall>op \<in> set ops. op_ok T op"
    and r1: "r1 = fold (store_ap (rst_put R J rs) (rst_del R rs) (\<lambda>now r. r)) ops r"
  shows "rst_lookup R J rs T k r1 = (case last_write k ops of
      None \<Rightarrow> if Del k \<in> set ops then None else rst_lookup R J rs T k r
    | Some w \<Rightarrow> kept_by (\<lambda>T expiry. T \<ge> expiry) T (Some w)) \<and>
    rst_Exists R rs T k r1 = Inr (live T (view r1 (rst_getKey rs k)) \<noteq> None)"
proof
  show "rst_lookup R J rs T k r1 = (case last_write k ops of
      None \<Rightarrow> if Del k \<in> set ops then None else rst_lookup R J rs T k r
    | Some w \<Rightarrow> kept_by (\<lambda>T expiry. T \<ge> expiry) T (Some w))"
    unfolding r1 using redis_expiring[OF R J] ops by (rule expiring_store.get_run)
  show "rst_Exists R rs T k r1 = Inr (live T (view r1 (rst_getKey rs k)) \<noteq> None)"
    using R by (simp add: redis_laws_def rst_Exists_def)
qed

section \<open>The rows of MySQL\<close>

text \<open>A table holds one row for each identifier.\<close>

definition row_laws :: "'d row_db \<Rightarrow> ('d \<Rightarrow> string \<rightharpoonup> mysql_row) \<Rightarrow> bool" where
  "row_laws D rows \<longleftrightarrow>
     (\<forall>d k row. rows d k = Some row \<longrightarrow> row_ID row = k) \<and>
     (\<forall>row d. fst (db_Save D row d) \<and> rows (snd (db_Save D row d)) = (rows d)(row_ID row \<mapsto> row)) \<and>
     (\<forall>p d. \<exists>rs. db_Find D p d = Some rs \<and> distinct rs \<and> set rs = {row. (\<exists>k. rows d k = Some row) \<and> p row}) \<and>
     (\<forall>p d. fst (db_Delete D p d) \<and> rows (snd (db_Delete D p d)) = (\<lambda>k. case rows d k of None \<Rightarrow> None | Some row \<Rightarrow> if p row then None else Some row))"

definition my_lookup :: "'d row_db \<Rightarrow> 'a json_codec \<Rightarrow> gotime \<Rightarrow> string \<Rightarrow> 'd \<Rightarrow> 'a option" where
  "my_lookup D J now key d = (case my_Get D J now key d of Inl _ \<Rightarrow> None | Inr v \<Rightarrow> Some v)"

abbreviation my_put :: "'d row_db \<Rightarrow> 'a json_codec \<Rightarrow> gotime \<Rightarrow> duration \<Rightarrow> string \<Rightarrow> 'a \<Rightarrow> 'd \<Rightarrow> 'd" where
  "my_put D J now ttl key v d \<equiv> snd (my_StoreWithTTL D J now now now ttl key v d)"

abbreviation my_del :: "'d row_db \<Rightarrow> string \<Rightarrow> 'd \<Rightarrow> 'd" where
  "my_del D key d \<equiv> snd (my_Delete D key d)"

lemma distinct_single: "distinct xs \<Longrightarrow> set xs = {x} \<Longrightarrow> xs = [x]"
  by (cases xs) (auto simp: subset_singleton_iff dest: equalityD1)

lemma row_find:
  assumes D: "row_laws D rows"
  shows "db_Find D (\<lambda>row. row_ID row = key \<and> row_lives now row) d =
    Some (case rows d key of None \<Rightarrow> [] | Some row \<Rightarrow> if row_lives now row then [row] else [])"
proof -
  note laws = D[unfolded row_laws_def]
  obtain rs where rs: "db_Find D (\<lambda>row. row_ID row = key \<and> row_lives now row) d = Some rs" "distinct rs"
      "set rs = {row. (\<exists>k. rows d k = Some row) \<and> row_ID row = key \<and> row_lives now row}"
    using laws[THEN conjunct2, THEN conjunct2, THEN conjunct1, rule_format, of "\<lambda>row. row_ID row = key \<and> row_lives now row" d] by blast
  have "rs = (case rows d key of None \<Rightarrow> [] | Some row \<Rightarrow> if row_lives now row then [row] else [])"
  proof (cases "\<exists>row. rows d key = Some row \<and> row_lives now row")
    case True
    then obtain row where row: "rows d key = Some row" "row_lives now row" by blast
    then have "set rs = {row}" using laws unfolding rs(3) by auto
    then show ?thesis using distinct_single[OF rs(2)] row by simp
  next
    case False
    then have "set rs = {}" using laws unfolding rs(3) by auto
    then show ?thesis using False by (auto split: option.splits)
  qed
  then show ?thesis using rs(1) by simp
qed

lemma mysql_expiring:
  fixes D :: "'d row_db" and J :: "'a json_codec"
  assumes D: "row_laws D rows" and J: "json_faithful J"
  shows "expiring_store (\<lambda>T expiry. T \<ge> expiry) (my_lookup D J) (my_put D J) (my_del D) (my_cleanup D)"
proof
  note laws = D[unfolded row_laws_def]
  have get: "my_lookup D J now k d = (case rows d k of None \<Rightarrow> None | Some row \<Rightarrow>
      if row_lives now row then jc_Unmarshal J (row_Data row) else None)" for now k d
    using row_find[OF D, of k now d] by (simp add: my_lookup_def my_Get_def split: option.splits)
  fix now now' :: gotime and ttl :: duration and k k' :: string and v :: 'a and d :: 'd
  obtain s where s: "jc_Marshal J v = Some s" "jc_Unmarshal J s = Some v" using J by (rule json_faithfulD)
  have put: "rows (my_put D J now ttl k v d) = (rows d)(k \<mapsto> \<lparr>row_ID = k, row_Data = s, row_CreatedAt = now, row_UpdatedAt = now, row_TTL = row_expiry now ttl\<rparr>)" for k
    using laws s by (simp add: my_StoreWithTTL_def replied_def)
  have del: "rows (my_del D k d) = (rows d)(k := None)" for k
    using laws by (auto simp: my_Delete_def replied_def fun_eq_iff split: option.splits)
  show "0 < ttl \<Longrightarrow> my_lookup D J now' k (my_put D J now ttl k v d) = (if now' \<ge> now + ttl then None else Some v)"
    using s by (simp add: get put row_lives_def row_expiry_def)
  show "k \<noteq> k' \<Longrightarrow> my_lookup D J now' k (my_put D J now ttl k' v d) = my_lookup D J now' k d" by (simp add: get put)
  show "my_lookup D J now k (my_del D k d) = None" by (simp add: get del)
  show "k \<noteq> k' \<Longrightarrow> my_lookup D J now k (my_del D k' d) = my_lookup D J now k d" by (simp add: get del)
  show "now \<le> now' \<Longrightarrow> my_lookup D J now' k (my_cleanup D now d) = my_lookup D J now' k d"
    using laws by (auto simp: get my_cleanup_def row_lives_def split: option.splits)
qed

text \<open>
  C34: mysql_storage_refines. Over a database that answers, and with values that JSON carries, the table keeps for
  each identifier the last value written and not deleted up to its expiry; the cleanup, whenever it runs, takes
  nothing that would still be found; \<open>Exists\<close> agrees with the row found.
\<close>

theorem mysql_storage_refines:
  fixes D :: "'d row_db" and J :: "'a json_codec"
  assumes D: "row_laws D rows" and J: "json_faithful J" and ops: "\<forall>op \<in> set ops. op_ok T op"
    and d1: "d1 = fold (store_ap (my_put D J) (my_del D) (my_cleanup D)) ops d"
  shows "my_lookup D J T k d1 = (case last_write k ops of
      None \<Rightarrow> if Del k \<in> set ops then None else my_lookup D J T k d
    | Some w \<Rightarrow> kept_by (\<lambda>T expiry. T \<ge> expiry) T (Some w)) \<and>
    my_Exists D T k d1 = Inr (\<exists>row. rows d1 k = Some row \<and> row_lives T row)"
proof
  show "my_lookup D J T k d1 = (case last_write k ops of
      None \<Rightarrow> if Del k \<in> set ops then None else my_lookup D J T k d
    | Some w \<Rightarrow> kept_by (\<lambda>T expiry. T \<ge> expiry) T (Some w))"
    unfolding d1 using mysql_expiring[OF D J] ops by (rule expiring_store.get_run)
  show "my_Exists D T k d1 = Inr (\<exists>row. rows d1 k = Some row \<and> row_lives T row)"
    using row_find[OF D, of k T d1] by (simp add: my_Exists_def split: option.splits)
qed

text \<open>
  The lifetime of a configuration is multiplied by a second once more: ten seconds and a day wrap to a negative
  number, with which rows never expire, and an hour becomes ninety-one years.
\<close>

lemma mysql_ttl_wraps:
  "wrap64 (24 * hour * second) < 0" "wrap64 (hour * second) = 2884905626637434880"
  by (simp_all add: wrap64_def)

lemma mysql_ttl_never:
  "\<exists>ms. NewMySQLStorage True True \<lparr>sgc_Type = ''mysql'', sgc_Database = '''', sgc_Table = '''', sgc_Prefix = '''', sgc_TTL = 24 * hour\<rparr> = Inr ms \<and>
     row_expiry now (myt_ttl ms) = None"
  using mysql_ttl_wraps(1) by (simp add: NewMySQLStorage_def Let_def row_expiry_def)

text \<open>MongoDB serves a document whose expiry has passed for as long as the server has not removed it: no read looks at the expiry.\<close>

lemma mongo_serves_expired:
  assumes "mg_Ping M d" and "\<And>doc. mg_Replace M doc d = (Replaced, d1 doc)" and "\<And>doc. mg_FindOne M (mdoc_ID doc) (d1 doc) = Some (Some doc)"
  shows "mst_Get M key (snd (mst_StoreWithTTL M ms now1 now2 now ttl key v d)) = Inr v"
  using assms(1,2) assms(3)[of "\<lparr>mdoc_ID = key, mdoc_Data = v, mdoc_CreatedAt = now1, mdoc_UpdatedAt = now2, mdoc_TTL = row_expiry now ttl\<rparr>"]
  by (simp add: mst_StoreWithTTL_def mst_Get_def Let_def)

text \<open>Without a prefix, \<open>Clear\<close> deletes every key of the database.\<close>

lemma clear_without_prefix:
  assumes "rc_Scan R now 0 ''*'' 100 r = Some (ks, 0)" and "ks \<noteq> []" and "rc_Del R ks r = (True, r1)"
  shows "rst_Clear R \<lparr>rst_prefix = '''', rst_ttl = ttl\<rparr> (Suc n) now r = Some (None, r1)"
  using assms by (simp add: rst_Clear_def rst_getKey_def delete_page_def replied_def)

lemma pipeline_failed_None: "pipeline_failed cmds \<Longrightarrow> None \<in> set cmds"
proof -
  assume "pipeline_failed cmds"
  then obtain rest where "dropWhile (\<lambda>c. \<exists>d. c = Some (Some d)) cmds = None # rest"
    by (auto simp: pipeline_failed_def split: list.splits option.splits)
  then have "None \<in> set (dropWhile (\<lambda>c. \<exists>d. c = Some (Some d)) cmds)" by simp
  then show ?thesis by (rule set_dropWhileD)
qed

text \<open>A batch read finds what the single reads find.\<close>

lemma batch_get_lookup:
  assumes R: "redis_laws R view"
  shows "\<exists>m. rst_BatchGet R J rs now keys r = Inr m \<and> (\<forall>k. m k = (if k \<in> set keys then rst_lookup R J rs now k r else None))"
proof -
  let ?c = "\<lambda>k. rc_Get R now (rst_getKey rs k) r"
  have some: "?c k = Some (live now (view r (rst_getKey rs k)))" for k using R by (simp add: redis_laws_def)
  have found: "reply_value J (?c k) = rst_lookup R J rs now k r" for k
    by (simp add: reply_value_def rst_lookup_def rst_Get_def some split: option.splits)
  have "\<not> pipeline_failed (map ?c keys)"
  proof
    assume "pipeline_failed (map ?c keys)"
    then have "None \<in> set (map ?c keys)" by (rule pipeline_failed_None)
    then show False using some by auto
  qed
  moreover have "fold (\<lambda>(k, c) m. case reply_value J c of None \<Rightarrow> m | Some v \<Rightarrow> m(k \<mapsto> v)) (zip keys (map ?c keys)) Map.empty k =
      (if k \<in> set keys then rst_lookup R J rs now k r else None)" for k
    by (induction keys rule: rev_induct) (auto simp: found split: option.splits)
  ultimately show ?thesis by (simp add: rst_BatchGet_def Let_def)
qed

section \<open>The storages of the executor's factory\<close>

text \<open>
  src/crawler/factory/storage.go: storages that only save.  Inserting one document or a list of them, creating
  rows, and writing a file are arguments; a failed insertion says whether the client was disconnected.
\<close>

record 'a saved_doc =
  sd_data :: 'a
  sd_created_at :: gotime

datatype insert_answer = Inserted | InsertDisconnected | InsertFailed

record ('a, 'd) insert_coll =
  ic_InsertOne :: "'a saved_doc \<Rightarrow> 'd \<Rightarrow> insert_answer \<times> 'd"
  ic_InsertMany :: "'a saved_doc list \<Rightarrow> 'd \<Rightarrow> bool \<times> 'd"

record task_storage_conf =
  tsc_Collection :: string
  tsc_Table :: string
  tsc_Path :: string
  tsc_Format :: string
  tsc_Options :: "(string \<rightharpoonup> goval) option"

definition NewMongoSaver :: "bool \<Rightarrow> task_storage_conf \<Rightarrow> store_error + string" where
  "NewMongoSaver present cfg = (if \<not> present then Inl NotConnected
     else Inr (if tsc_Collection cfg = '''' then ''crawled_data'' else tsc_Collection cfg))"

text \<open>A disconnected client gets one more attempt.\<close>

definition mongo_Save :: "('a, 'd) insert_coll \<Rightarrow> gotime \<Rightarrow> 'a \<Rightarrow> 'd \<Rightarrow> store_error option \<times> 'd" where
  "mongo_Save M now v d =
     (let doc = \<lparr>sd_data = v, sd_created_at = now\<rparr>
      in case ic_InsertOne M doc d of
           (Inserted, d1) \<Rightarrow> (None, d1)
         | (InsertDisconnected, d1) \<Rightarrow> (case ic_InsertOne M doc d1 of
               (Inserted, d2) \<Rightarrow> (None, d2)
             | (_, d2) \<Rightarrow> (Some BackendError, d2))
         | (InsertFailed, d1) \<Rightarrow> (Some BackendError, d1))"

definition mongo_SaveBatch :: "('a, 'd) insert_coll \<Rightarrow> (nat \<Rightarrow> gotime) \<Rightarrow> 'a list \<Rightarrow> 'd \<Rightarrow> store_error option \<times> 'd" where
  "mongo_SaveBatch M clock items d = (if items = [] then (None, d)
     else replied (ic_InsertMany M (map (\<lambda>(i, v). \<lparr>sd_data = v, sd_created_at = clock i\<rparr>) (enumerate 0 items)) d))"

text \<open>
  The migration creates the table of the type's own name; rows go to the table of the configuration.
\<close>

record 'd sql_tables =
  st_AutoMigrate :: "string \<Rightarrow> 'd \<Rightarrow> bool \<times> 'd"
  st_Create :: "string \<Rightarrow> (string \<times> gotime) list \<Rightarrow> 'd \<Rightarrow> bool \<times> 'd"

definition NewMySQLSaver :: "'d sql_tables \<Rightarrow> task_storage_conf \<Rightarrow> 'd \<Rightarrow> (store_error + string) \<times> 'd" where
  "NewMySQLSaver S cfg d = (case st_AutoMigrate S ''crawled_data'' d of
       (False, d1) \<Rightarrow> (Inl BackendError, d1)
     | (True, d1) \<Rightarrow> (Inr (if tsc_Table cfg = '''' then ''crawled_data'' else tsc_Table cfg), d1))"

definition mysql_Save :: "'d sql_tables \<Rightarrow> 'a json_codec \<Rightarrow> string \<Rightarrow> gotime \<Rightarrow> 'a \<Rightarrow> 'd \<Rightarrow> store_error option \<times> 'd" where
  "mysql_Save S J table now v d = (case jc_Marshal J v of
       None \<Rightarrow> (Some NotMarshalled, d)
     | Some data \<Rightarrow> replied (st_Create S table [(data, now)] d))"

definition mysql_SaveBatch :: "'d sql_tables \<Rightarrow> 'a json_codec \<Rightarrow> string \<Rightarrow> (nat \<Rightarrow> gotime) \<Rightarrow> 'a list \<Rightarrow> 'd \<Rightarrow> store_error option \<times> 'd" where
  "mysql_SaveBatch S J table clock items d = (if items = [] then (None, d)
     else case encode_all J (map (\<lambda>v. ('''', v)) items) of
       None \<Rightarrow> (Some NotMarshalled, d)
     | Some cs \<Rightarrow> replied (st_Create S table (map (\<lambda>(i, (k, data)). (data, clock i)) (enumerate 0 cs)) d))"

definition NewRedisSaver :: "task_storage_conf \<Rightarrow> string" where
  "NewRedisSaver cfg = (case tsc_Options cfg of
       None \<Rightarrow> ''crawled''
     | Some m \<Rightarrow> (case m ''prefix'' of Some (GStr p) \<Rightarrow> p | _ \<Rightarrow> ''crawled''))"

definition stamp_key :: "string \<Rightarrow> gotime \<Rightarrow> string" where
  "stamp_key pre now = pre @ '':'' @ dec_of_int now"

definition redis_Save :: "'r redis_client \<Rightarrow> 'a json_codec \<Rightarrow> string \<Rightarrow> gotime \<Rightarrow> gotime \<Rightarrow> 'a \<Rightarrow> 'r \<Rightarrow> store_error option \<times> 'r" where
  "redis_Save R J pre now now' v r = (case jc_Marshal J v of
       None \<Rightarrow> (Some NotMarshalled, r)
     | Some data \<Rightarrow> replied (rc_Set R now' (stamp_key pre now) data (7 * 24 * hour) r))"

definition redis_SaveBatch :: "'r redis_client \<Rightarrow> 'a json_codec \<Rightarrow> string \<Rightarrow> (nat \<Rightarrow> gotime) \<Rightarrow> gotime \<Rightarrow> 'a list \<Rightarrow> 'r \<Rightarrow> store_error option \<times> 'r" where
  "redis_SaveBatch R J pre clock now' items r =
     store_all R J now' (7 * 24 * hour) (map (\<lambda>(i, v). (stamp_key pre (clock i), v)) (enumerate 0 items)) r"

text \<open>\<open>mk\<close> says whether the directory could be made; a path is joined with a slash.\<close>

definition NewFileSaver :: "(string \<Rightarrow> bool) \<Rightarrow> task_storage_conf \<Rightarrow> store_error + string \<times> string" where
  "NewFileSaver mk cfg =
     (let p = (if tsc_Path cfg = '''' then ''./data'' else tsc_Path cfg); f = (if tsc_Format cfg = '''' then ''json'' else tsc_Format cfg)
      in if mk p then Inr (p, f) else Inl BackendError)"

definition write_json :: "(string \<Rightarrow> string \<Rightarrow> 'f \<Rightarrow> bool \<times> 'f) \<Rightarrow> string \<Rightarrow> string option \<Rightarrow> string \<Rightarrow> 'f \<Rightarrow> store_error option \<times> 'f" where
  "write_json wr fmt content file f = (if fmt \<noteq> ''json'' then (Some (Unsupported fmt), f)
     else case content of None \<Rightarrow> (Some NotMarshalled, f) | Some t \<Rightarrow> replied (wr file t f))"

definition file_Save :: "(string \<Rightarrow> string \<Rightarrow> 'f \<Rightarrow> bool \<times> 'f) \<Rightarrow> ('a \<Rightarrow> string option) \<Rightarrow> string \<Rightarrow> string \<Rightarrow> gotime \<Rightarrow> 'a \<Rightarrow> 'f \<Rightarrow> store_error option \<times> 'f" where
  "file_Save wr indent path fmt now v f = write_json wr fmt (indent v) (path @ ''/'' @ dec_of_int now @ ''.'' @ fmt) f"

definition file_SaveBatch :: "(string \<Rightarrow> string \<Rightarrow> 'f \<Rightarrow> bool \<times> 'f) \<Rightarrow> ('a list \<Rightarrow> string option) \<Rightarrow> string \<Rightarrow> string \<Rightarrow> gotime \<Rightarrow> 'a list \<Rightarrow> 'f \<Rightarrow>
    store_error option \<times> 'f" where
  "file_SaveBatch wr indents path fmt now vs f = write_json wr fmt (indents vs) (path @ ''/batch_'' @ dec_of_int now @ ''.'' @ fmt) f"

text \<open>Items of a batch that are stamped with one instant share a key, and the last of them is the one kept.\<close>

lemma same_instant_overwrites:
  assumes R: "redis_laws R view" and J: "json_faithful J" "jc_Marshal J w = Some s"
  shows "view (snd (redis_SaveBatch R J pre (\<lambda>i. t) now [v, w] r)) = (view r)(stamp_key pre t \<mapsto> (s, Some (now + 7 * 24 * hour)))"
proof -
  obtain s' where "jc_Marshal J v = Some s'" using J(1) by (auto simp: json_faithful_def)
  moreover have set: "view (snd (rc_Set R now k d (7 * 24 * hour) r)) = (view r)(k \<mapsto> (d, Some (now + 7 * 24 * hour)))" for k d r
    using R unfolding redis_laws_def by simp
  ultimately show ?thesis
    using J(2) by (simp add: redis_SaveBatch_def store_all_def replied_def split: prod.splits) (metis fun_upd_upd set snd_conv)
qed

text \<open>A table of another name is never created.\<close>

lemma own_table_not_created:
  assumes "st_AutoMigrate S ''crawled_data'' d = (True, d1)" and "tsc_Table cfg \<noteq> ''''"
  shows "NewMySQLSaver S cfg d = (Inr (tsc_Table cfg), d1)"
  using assms by (simp add: NewMySQLSaver_def)

section \<open>Examples\<close>

definition mem_client :: "(string \<rightharpoonup> string \<times> gotime option) redis_client" where
  "mem_client = \<lparr>rc_Set = (\<lambda>now k s d r. (True, r(k \<mapsto> (s, Some (now + d))))), rc_Get = (\<lambda>now k r. Some (live now (r k))),
     rc_Del = (\<lambda>ks r. (True, \<lambda>k. if k \<in> set ks then None else r k)), rc_Exists = (\<lambda>now k r. Some (if live now (r k) = None then 0 else 1)),
     rc_Scan = (\<lambda>now c p n r. Some ([], 0))\<rparr>"

definition text_codec :: "string json_codec" where
  "text_codec = \<lparr>jc_Marshal = Some, jc_Unmarshal = Some\<rparr>"

lemma mem_client_laws: "redis_laws mem_client (\<lambda>r. r)"
  by (auto simp: redis_laws_def mem_client_def)

lemma text_codec_faithful: "json_faithful text_codec"
  by (simp add: json_faithful_def text_codec_def)

lemma redis_storage_refines_witness:
  "rst_lookup mem_client text_codec (facade_redis ''app'') 9 ''k''
     (fold (store_ap (rst_put mem_client text_codec (facade_redis ''app'')) (rst_del mem_client (facade_redis ''app'')) (\<lambda>now r. r))
        [Put 0 100 ''k'' ''one'', Put 1 10 ''k'' ''two'', Del ''j''] Map.empty) = Some ''two''"
proof -
  let ?ops = "[Put 0 100 ''k'' ''one'', Put 1 10 ''k'' ''two'', Del ''j''] :: (string, string) store_op list"
  have "\<forall>op \<in> set ?ops. op_ok 9 op" by simp
  from redis_storage_refines[OF mem_client_laws text_codec_faithful this refl, where rs = "facade_redis ''app''" and k = "''k''" and r = Map.empty]
  show ?thesis by (simp add: kept_by_def)
qed

definition by_id :: "mysql_row list \<Rightarrow> (string \<times> mysql_row) list" where
  "by_id d = AList.clearjunk (map (\<lambda>row. (row_ID row, row)) d)"

definition mem_rows :: "mysql_row list row_db" where
  "mem_rows = \<lparr>db_Save = (\<lambda>row d. (True, row # d)), db_Find = (\<lambda>p d. Some (filter p (map snd (by_id d)))),
     db_Delete = (\<lambda>p d. (True, filter (\<lambda>row. \<not> p row) (map snd (by_id d)))), db_like = (\<lambda>p s. HasPrefix s (butlast p))\<rparr>"

lemma by_id_keys: "(k, row) \<in> set (by_id d) \<Longrightarrow> row_ID row = k"
proof -
  assume "(k, row) \<in> set (by_id d)"
  then have "map_of (by_id d) k = Some row" by (simp add: by_id_def distinct_clearjunk)
  then have "map_of (map (\<lambda>row. (row_ID row, row)) d) k = Some row" by (simp add: by_id_def map_of_clearjunk)
  then show ?thesis by (auto dest: map_of_SomeD)
qed

lemma by_id_distinct: "distinct (map fst (by_id d))"
  by (simp add: by_id_def distinct_clearjunk)

lemma by_id_rows: "map (\<lambda>row. (row_ID row, row)) (filter q (map snd (by_id d))) = filter (\<lambda>(k, row). q row) (by_id d)"
proof -
  have "map (\<lambda>row. (row_ID row, row)) (filter q (map snd xs)) = filter (\<lambda>(k, row). q row) xs"
    if "\<forall>x \<in> set xs. row_ID (snd x) = fst x" for xs
    using that by (induction xs) auto
  moreover have "\<forall>x \<in> set (by_id d). row_ID (snd x) = fst x" by (auto dest: by_id_keys)
  ultimately show ?thesis by blast
qed

lemma map_of_kept:
  "distinct (map fst xs) \<Longrightarrow> map_of (filter (\<lambda>(k, row). q row) xs) k =
    (case map_of xs k of None \<Rightarrow> None | Some row \<Rightarrow> if q row then Some row else None)"
  by (induction xs) (auto simp: map_of_eq_None_iff intro: rev_image_eqI split: option.splits)

lemma mem_rows_laws: "row_laws mem_rows (\<lambda>d. map_of (by_id d))"
  unfolding row_laws_def
proof (intro conjI allI impI)
  fix d :: "mysql_row list" and row k p
  show "map_of (by_id d) k = Some row \<Longrightarrow> row_ID row = k" by (auto dest!: map_of_SomeD by_id_keys)
  show "fst (db_Save mem_rows row d)" "fst (db_Delete mem_rows p d)" by (simp_all add: mem_rows_def)
  show "map_of (by_id (snd (db_Save mem_rows row d))) = (map_of (by_id d))(row_ID row \<mapsto> row)"
    by (simp add: mem_rows_def by_id_def map_of_clearjunk delete_conv')
  have "map row_ID (map snd (by_id d)) = map fst (by_id d)" by (auto dest: by_id_keys)
  then have "distinct (map snd (by_id d))" using by_id_distinct[of d] by (metis distinct_map)
  moreover have "set (filter p (map snd (by_id d))) = {row. (\<exists>k. map_of (by_id d) k = Some row) \<and> p row}"
    using by_id_distinct[of d] by force
  ultimately show "\<exists>rs. db_Find mem_rows p d = Some rs \<and> distinct rs \<and> set rs = {row. (\<exists>k. map_of (by_id d) k = Some row) \<and> p row}"
    by (simp add: mem_rows_def)
  show "map_of (by_id (snd (db_Delete mem_rows p d))) =
      (\<lambda>k. case map_of (by_id d) k of None \<Rightarrow> None | Some row \<Rightarrow> if p row then None else Some row)"
  proof
    fix k
    have "map_of (by_id (snd (db_Delete mem_rows p d))) k = map_of (filter (\<lambda>(k, row). \<not> p row) (by_id d)) k"
      using by_id_rows[of "\<lambda>row. \<not> p row" d] by (simp add: mem_rows_def by_id_def[of "filter _ _"] map_of_clearjunk)
    then show "map_of (by_id (snd (db_Delete mem_rows p d))) k =
        (case map_of (by_id d) k of None \<Rightarrow> None | Some row \<Rightarrow> if p row then None else Some row)"
      using map_of_kept[OF by_id_distinct, of "\<lambda>row. \<not> p row" d k] by (simp split: option.splits)
  qed
qed

lemma mysql_storage_refines_witness:
  "my_lookup mem_rows text_codec 9 ''k''
     (fold (store_ap (my_put mem_rows text_codec) (my_del mem_rows) (my_cleanup mem_rows))
        [Put 0 100 ''k'' ''one'', Put 1 10 ''k'' ''two'', Sweep 8, Del ''j''] []) = Some ''two''"
proof -
  let ?ops = "[Put 0 100 ''k'' ''one'', Put 1 10 ''k'' ''two'', Sweep 8, Del ''j''] :: (string, string) store_op list"
  have "\<forall>op \<in> set ?ops. op_ok 9 op" by simp
  from mysql_storage_refines[OF mem_rows_laws text_codec_faithful this refl, where k = "''k''" and d = "[]"]
  show ?thesis by (simp add: kept_by_def)
qed

end
