(* ===== verification/TaskService.thy ===== *)
theory TaskService
  imports TaskScheduler
begin

text \<open>
  The service that keeps the task documents in MongoDB (src/crawler/task/service.go).  The collection is an
  argument; its filters are predicates, its updates lists of fields to set.  The documents are those that the
  scheduler reads.
\<close>

section \<open>Documents and the collection\<close>

record service_doc =
  sv_doc :: task_document
  sv_Tags :: "string list"
  sv_StartTime :: "gotime option"
  sv_CreatedAt :: gotime
  sv_UpdatedAt :: gotime

text \<open>A field by its path; other paths than these are named by text.\<close>

datatype doc_set = SetEnabled bool | SetNextRun gotime | SetUpdatedAt gotime | SetPath string goval

text \<open>Sorting and cutting of a search, as they are asked of the server.\<close>

record find_options =
  fo_Sort :: "(string \<times> int) option"
  fo_Limit :: "int option"
  fo_Skip :: "int option"

record 'd task_coll =
  tk_NewID :: "'d \<Rightarrow> string"
  tk_Insert :: "service_doc \<Rightarrow> 'd \<Rightarrow> bool \<times> 'd"
  tk_FindOne :: "string \<Rightarrow> 'd \<Rightarrow> service_doc option option"
  tk_Find :: "(service_doc \<Rightarrow> bool) \<Rightarrow> find_options \<Rightarrow> 'd \<Rightarrow> service_doc list option"
  tk_Update :: "string \<Rightarrow> doc_set list \<Rightarrow> 'd \<Rightarrow> bool \<times> 'd"
  tk_Delete :: "string \<Rightarrow> 'd \<Rightarrow> nat option \<times> 'd"

datatype service_error = InvalidTaskID | TaskNotFound | InsertTaskFailed | FindTaskFailed | UpdateTaskFailed | DeleteTaskFailed

section \<open>Operations\<close>

definition calculateNextRun :: "gotime \<Rightarrow> schedule_config \<Rightarrow> gotime option \<Rightarrow> gotime" where
  "calculateNextRun now sg start =
     (if sg_Type sg = ''interval'' then now + 30 * second
      else if sg_Type sg = ''cron'' then now + hour
      else if sg_Type sg = ''once'' then (case start of Some t \<Rightarrow> t | None \<Rightarrow> now)
      else time_zero)"

text \<open>The clock is read for each of the two stamps and for the next run.\<close>

definition svc_CreateTask :: "'d task_coll \<Rightarrow> gotime \<Rightarrow> gotime \<Rightarrow> gotime \<Rightarrow> service_doc \<Rightarrow> 'd \<Rightarrow> (service_error + service_doc) \<times> 'd" where
  "svc_CreateTask C now1 now2 now t d =
     (let t1 = t\<lparr>sv_doc := (sv_doc t)\<lparr>td_ID := tk_NewID C d\<rparr>, sv_CreatedAt := now1, sv_UpdatedAt := now2\<rparr>;
          t2 = (if td_Enabled (sv_doc t1)
                then t1\<lparr>sv_doc := (sv_doc t1)\<lparr>td_NextRun := calculateNextRun now (td_Schedule (sv_doc t1)) (sv_StartTime t1)\<rparr>\<rparr> else t1)
      in case tk_Insert C t2 d of (ok, d1) \<Rightarrow> (if ok then Inr t2 else Inl InsertTaskFailed, d1))"

text \<open>\<open>hex\<close> says whether a text is an identifier of the database.\<close>

definition svc_GetTask :: "'d task_coll \<Rightarrow> (string \<Rightarrow> bool) \<Rightarrow> string \<Rightarrow> 'd \<Rightarrow> service_error + service_doc" where
  "svc_GetTask C hex i d = (if \<not> hex i then Inl InvalidTaskID else case tk_FindOne C i d of
       None \<Rightarrow> Inl FindTaskFailed
     | Some None \<Rightarrow> Inl TaskNotFound
     | Some (Some t) \<Rightarrow> Inr t)"

record task_filter =
  fi_Type :: string
  fi_Category :: string
  fi_Enabled :: "bool option"
  fi_Tags :: "string list"
  fi_SortBy :: string
  fi_SortDesc :: bool
  fi_Limit :: int
  fi_Offset :: int

definition filter_query :: "task_filter \<Rightarrow> service_doc \<Rightarrow> bool" where
  "filter_query f t \<longleftrightarrow>
     (fi_Type f \<noteq> '''' \<longrightarrow> td_Type (sv_doc t) = fi_Type f) \<and>
     (fi_Category f \<noteq> '''' \<longrightarrow> td_Category (sv_doc t) = fi_Category f) \<and>
     (case fi_Enabled f of None \<Rightarrow> True | Some b \<Rightarrow> td_Enabled (sv_doc t) = b) \<and>
     (fi_Tags f \<noteq> [] \<longrightarrow> set (sv_Tags t) \<inter> set (fi_Tags f) \<noteq> {})"

definition filter_options :: "task_filter \<Rightarrow> find_options" where
  "filter_options f = \<lparr>fo_Sort = (if fi_SortBy f \<noteq> '''' then Some (fi_SortBy f, if fi_SortDesc f then -1 else 1) else None),
     fo_Limit = (if fi_Limit f > 0 then Some (fi_Limit f) else None), fo_Skip = (if fi_Offset f > 0 then Some (fi_Offset f) else None)\<rparr>"

definition found_tasks :: "service_doc list option \<Rightarrow> service_error + service_doc list" where
  "found_tasks r = (case r of None \<Rightarrow> Inl FindTaskFailed | Some ts \<Rightarrow> Inr ts)"

definition svc_ListTasks :: "'d task_coll \<Rightarrow> task_filter \<Rightarrow> 'd \<Rightarrow> service_error + service_doc list" where
  "svc_ListTasks C f d = found_tasks (tk_Find C (filter_query f) (filter_options f) d)"

text \<open>How many documents the update reached is not looked at.\<close>

definition svc_UpdateTask :: "'d task_coll \<Rightarrow> (string \<Rightarrow> bool) \<Rightarrow> gotime \<Rightarrow> string \<Rightarrow> doc_set list \<Rightarrow> 'd \<Rightarrow> service_error option \<times> 'd" where
  "svc_UpdateTask C hex now i sets d = (if \<not> hex i then (Some InvalidTaskID, d)
     else case tk_Update C i (sets @ [SetUpdatedAt now]) d of (ok, d1) \<Rightarrow> (if ok then None else Some UpdateTaskFailed, d1))"

definition svc_DeleteTask :: "'d task_coll \<Rightarrow> (string \<Rightarrow> bool) \<Rightarrow> string \<Rightarrow> 'd \<Rightarrow> service_error option \<times> 'd" where
  "svc_DeleteTask C hex i d = (if \<not> hex i then (Some InvalidTaskID, d)
     else case tk_Delete C i d of
       (None, d1) \<Rightarrow> (Some DeleteTaskFailed, d1)
     | (Some n, d1) \<Rightarrow> (if n = 0 then Some TaskNotFound else None, d1))"

definition svc_EnableTask :: "'d task_coll \<Rightarrow> (string \<Rightarrow> bool) \<Rightarrow> gotime \<Rightarrow> gotime \<Rightarrow> string \<Rightarrow> 'd \<Rightarrow> service_error option \<times> 'd" where
  "svc_EnableTask C hex now now' i d = svc_UpdateTask C hex now' i [SetEnabled True, SetNextRun now] d"

definition svc_DisableTask :: "'d task_coll \<Rightarrow> (string \<Rightarrow> bool) \<Rightarrow> gotime \<Rightarrow> string \<Rightarrow> 'd \<Rightarrow> service_error option \<times> 'd" where
  "svc_DisableTask C hex now i d = svc_UpdateTask C hex now i [SetEnabled False] d"

definition svc_UpdateTaskRaw :: "'d task_coll \<Rightarrow> string \<Rightarrow> doc_set list \<Rightarrow> 'd \<Rightarrow> bool \<times> 'd" where
  "svc_UpdateTaskRaw C i sets d = tk_Update C i sets d"

definition ready :: "gotime \<Rightarrow> service_doc \<Rightarrow> bool" where
  "ready now t \<longleftrightarrow> td_Enabled (sv_doc t) \<and> td_NextRun (sv_doc t) \<le> now"

definition svc_GetReadyTasks :: "'d task_coll \<Rightarrow> gotime \<Rightarrow> 'd \<Rightarrow> service_error + service_doc list" where
  "svc_GetReadyTasks C now d = found_tasks (tk_Find C (ready now) \<lparr>fo_Sort = None, fo_Limit = None, fo_Skip = None\<rparr> d)"

section \<open>What the collection does\<close>

text \<open>
  Documents by identifier, for a database that answers: an insertion adds a document under a new identifier, an
  update changes the fields of the document if there is one, and an unsorted, unlimited search finds exactly
  the documents that match.
\<close>

fun set_field :: "doc_set \<Rightarrow> service_doc \<Rightarrow> service_doc" where
  "set_field (SetEnabled b) t = t\<lparr>sv_doc := (sv_doc t)\<lparr>td_Enabled := b\<rparr>\<rparr>"
| "set_field (SetNextRun u) t = t\<lparr>sv_doc := (sv_doc t)\<lparr>td_NextRun := u\<rparr>\<rparr>"
| "set_field (SetUpdatedAt u) t = t\<lparr>sv_UpdatedAt := u\<rparr>"
| "set_field (SetPath p v) t = t"

definition coll_laws :: "'d task_coll \<Rightarrow> ('d \<Rightarrow> string \<rightharpoonup> service_doc) \<Rightarrow> bool" where
  "coll_laws C docs \<longleftrightarrow>
     (\<forall>d. docs d (tk_NewID C d) = None) \<and>
     (\<forall>t d. docs d (td_ID (sv_doc t)) = None \<longrightarrow> fst (tk_Insert C t d) \<and> docs (snd (tk_Insert C t d)) = (docs d)(td_ID (sv_doc t) \<mapsto> t)) \<and>
     (\<forall>i d. tk_FindOne C i d = Some (docs d i)) \<and>
     (\<forall>p d. \<exists>ts. tk_Find C p \<lparr>fo_Sort = None, fo_Limit = None, fo_Skip = None\<rparr> d = Some ts \<and> set ts = {t. t \<in> ran (docs d) \<and> p t}) \<and>
     (\<forall>i sets d. (\<forall>p v. SetPath p v \<notin> set sets) \<longrightarrow> fst (tk_Update C i sets d) \<and>
        docs (snd (tk_Update C i sets d)) = (docs d)(i := map_option (fold set_field sets) (docs d i))) \<and>
     (\<forall>i d. tk_Delete C i d = (Some (if docs d i = None then 0 else 1), snd (tk_Delete C i d)) \<and> docs (snd (tk_Delete C i d)) = (docs d)(i := None))"

lemma coll_lawsD:
  assumes "coll_laws C docs"
  shows "docs d (tk_NewID C d) = None"
    and "docs d (td_ID (sv_doc t)) = None \<Longrightarrow> fst (tk_Insert C t d)"
    and "docs d (td_ID (sv_doc t)) = None \<Longrightarrow> docs (snd (tk_Insert C t d)) = (docs d)(td_ID (sv_doc t) \<mapsto> t)"
    and "tk_FindOne C i d = Some (docs d i)"
    and "\<exists>ts. tk_Find C p \<lparr>fo_Sort = None, fo_Limit = None, fo_Skip = None\<rparr> d = Some ts \<and> set ts = {t. t \<in> ran (docs d) \<and> p t}"
    and "(\<And>p v. SetPath p v \<notin> set sets) \<Longrightarrow> fst (tk_Update C i sets d)"
    and "(\<And>p v. SetPath p v \<notin> set sets) \<Longrightarrow> docs (snd (tk_Update C i sets d)) = (docs d)(i := map_option (fold set_field sets) (docs d i))"
    and "fst (tk_Delete C i d) = Some (if docs d i = None then 0 else 1)"
    and "docs (snd (tk_Delete C i d)) = (docs d)(i := None)"
  using assms unfolding coll_laws_def by (blast, blast, blast, blast, blast, blast, blast, metis fst_conv, blast)

section \<open>Enabling and disabling\<close>

lemma fold_fields: "(\<And>p v. SetPath p v \<notin> set sets) \<Longrightarrow> td_ID (sv_doc (fold set_field sets t)) = td_ID (sv_doc t)"
proof (induction sets arbitrary: t)
  case (Cons a sets)
  then show ?case by (cases a) auto
qed simp

lemma EnableTask_docs:
  assumes C: "coll_laws C docs" and i: "hex i"
  shows "fst (svc_EnableTask C hex now now' i d) = None"
    and "docs (snd (svc_EnableTask C hex now now' i d)) = (docs d)(i := map_option
       (\<lambda>t. t\<lparr>sv_doc := (sv_doc t)\<lparr>td_Enabled := True, td_NextRun := now\<rparr>, sv_UpdatedAt := now'\<rparr>) (docs d i))"
  using i coll_lawsD(6,7)[OF C, of "[SetEnabled True, SetNextRun now, SetUpdatedAt now']" i d]
  by (auto simp: svc_EnableTask_def svc_UpdateTask_def comp_def split: prod.splits)

lemma DisableTask_docs:
  assumes C: "coll_laws C docs" and i: "hex i"
  shows "fst (svc_DisableTask C hex now i d) = None"
    and "docs (snd (svc_DisableTask C hex now i d)) = (docs d)(i := map_option
       (\<lambda>t. t\<lparr>sv_doc := (sv_doc t)\<lparr>td_Enabled := False\<rparr>, sv_UpdatedAt := now\<rparr>) (docs d i))"
  using i coll_lawsD(6,7)[OF C, of "[SetEnabled False, SetUpdatedAt now]" i d]
  by (auto simp: svc_DisableTask_def svc_UpdateTask_def comp_def split: prod.splits)

lemma ready_tasks:
  assumes C: "coll_laws C docs"
  shows "\<exists>ts. svc_GetReadyTasks C now d = Inr ts \<and> (\<forall>t. t \<in> set ts \<longleftrightarrow> (\<exists>i. docs d i = Some t) \<and> ready now t)"
  using coll_lawsD(5)[OF C, of "ready now" d] by (auto simp: svc_GetReadyTasks_def found_tasks_def ran_def)

text \<open>
  enable_then_overdue. A task that exists and is enabled is, from then on, both among the ready tasks and overdue
  for the scheduler's watcher, until it is disabled, and then it is neither; no other document changes.
\<close>

theorem enable_then_overdue:
  assumes C: "coll_laws C docs" and i: "hex i" "docs d i = Some t" and now: "now \<noteq> time_zero" "now \<le> T"
    and d1: "d1 = snd (svc_EnableTask C hex now now' i d)" and d2: "d2 = snd (svc_DisableTask C hex now'' i d1)"
  shows "\<exists>t1 t2. docs d1 i = Some t1 \<and> docs d2 i = Some t2 \<and> ready T t1 \<and> is_overdue T (sv_doc t1) \<and>
    (\<exists>ts. svc_GetReadyTasks C T d1 = Inr ts \<and> t1 \<in> set ts) \<and> \<not> ready T' t2 \<and> \<not> is_overdue T' (sv_doc t2) \<and>
    (\<forall>j. j \<noteq> i \<longrightarrow> docs d2 j = docs d j)"
proof -
  let ?t1 = "t\<lparr>sv_doc := (sv_doc t)\<lparr>td_Enabled := True, td_NextRun := now\<rparr>, sv_UpdatedAt := now'\<rparr>"
  let ?t2 = "?t1\<lparr>sv_doc := (sv_doc ?t1)\<lparr>td_Enabled := False\<rparr>, sv_UpdatedAt := now''\<rparr>"
  have docs1: "docs d1 = (docs d)(i \<mapsto> ?t1)" unfolding d1 EnableTask_docs(2)[where hex = hex and i = i, OF C i(1)] using i(2) by simp
  have docs2: "docs d2 = (docs d)(i \<mapsto> ?t2)" unfolding d2 DisableTask_docs(2)[where hex = hex and i = i, OF C i(1)] docs1 by simp
  have r: "ready T ?t1" using now(2) by (simp add: ready_def)
  moreover have "\<exists>ts. svc_GetReadyTasks C T d1 = Inr ts \<and> ?t1 \<in> set ts"
    using ready_tasks[OF C, of T d1] r docs1 by fastforce
  ultimately show ?thesis using docs1 docs2 now by (auto simp: is_overdue_def ready_def)
qed

text \<open>
  Enabling a task that does not exist is reported as done; deleting one is not.
\<close>

lemma update_unknown_succeeds:
  assumes C: "coll_laws C docs" and i: "hex i" "docs d i = None"
  shows "fst (svc_EnableTask C hex now now' i d) = None \<and> docs (snd (svc_EnableTask C hex now now' i d)) = docs d \<and>
    fst (svc_DeleteTask C hex i d) = Some TaskNotFound"
  using EnableTask_docs[where hex = hex and i = i, OF C i(1)] i coll_lawsD(8)[OF C, of i d] by (auto simp: svc_DeleteTask_def fun_eq_iff split: prod.splits)

text \<open>
  What is created is found again; the first run of a task by interval or by cron does not depend on its
  expression, and an enabled task of another kind is ready at once, though the watcher never runs it.
\<close>

lemma CreateTask_found:
  assumes C: "coll_laws C docs" and hex: "hex (tk_NewID C d)"
  shows "\<exists>t1. fst (svc_CreateTask C now1 now2 now t d) = Inr t1 \<and> svc_GetTask C hex (td_ID (sv_doc t1)) (snd (svc_CreateTask C now1 now2 now t d)) = Inr t1"
proof -
  have new: "docs d (tk_NewID C d) = None" by (rule coll_lawsD(1)[OF C])
  let ?t1 = "t\<lparr>sv_doc := (sv_doc t)\<lparr>td_ID := tk_NewID C d\<rparr>, sv_CreatedAt := now1, sv_UpdatedAt := now2\<rparr>"
  define t2 where "t2 = (if td_Enabled (sv_doc ?t1)
    then ?t1\<lparr>sv_doc := (sv_doc ?t1)\<lparr>td_NextRun := calculateNextRun now (td_Schedule (sv_doc ?t1)) (sv_StartTime ?t1)\<rparr>\<rparr> else ?t1)"
  have id: "td_ID (sv_doc t2) = tk_NewID C d" by (simp add: t2_def)
  then have ins: "fst (tk_Insert C t2 d)" "docs (snd (tk_Insert C t2 d)) = (docs d)(tk_NewID C d \<mapsto> t2)"
    using new coll_lawsD(2,3)[OF C, of d t2] by simp_all
  have "svc_CreateTask C now1 now2 now t d = (Inr t2, snd (tk_Insert C t2 d))"
    unfolding svc_CreateTask_def Let_def t2_def[symmetric] using ins(1) by (cases "tk_Insert C t2 d") simp
  then show ?thesis using hex id ins(2) coll_lawsD(4)[OF C] by (simp add: svc_GetTask_def)
qed

lemma expression_ignored:
  "calculateNextRun now (sg\<lparr>sg_Expression := e\<rparr>) start = calculateNextRun now sg start"
  by (simp add: calculateNextRun_def)

lemma manual_task_ready:
  assumes "sg_Type sg = ''manual''" and "time_zero \<le> now" and "td_Enabled (sv_doc t)" and "td_NextRun (sv_doc t) = calculateNextRun now' sg start"
  shows "ready now t \<and> \<not> is_overdue now (sv_doc t)"
  using assms by (simp add: ready_def is_overdue_def calculateNextRun_def)

section \<open>An example\<close>

definition mem_tasks :: "(service_doc list) task_coll" where
  "mem_tasks = \<lparr>tk_NewID = (\<lambda>d. concat (map (\<lambda>t. td_ID (sv_doc t)) d) @ ''x''),
     tk_Insert = (\<lambda>t d. (True, t # d)),
     tk_FindOne = (\<lambda>i d. Some (map_of (map (\<lambda>t. (td_ID (sv_doc t), t)) d) i)),
     tk_Find = (\<lambda>p fo d. Some (filter p (map snd (AList.clearjunk (map (\<lambda>t. (td_ID (sv_doc t), t)) d))))),
     tk_Update = (\<lambda>i sets d. (True, map (\<lambda>t. if td_ID (sv_doc t) = i then fold set_field sets t else t) d)),
     tk_Delete = (\<lambda>i d. (Some (if map_of (map (\<lambda>t. (td_ID (sv_doc t), t)) d) i = None then 0 else 1), filter (\<lambda>t. td_ID (sv_doc t) \<noteq> i) d))\<rparr>"

definition mem_docs :: "service_doc list \<Rightarrow> string \<rightharpoonup> service_doc" where
  "mem_docs d = map_of (map (\<lambda>t. (td_ID (sv_doc t), t)) d)"

lemma mem_docs_simps [simp]:
  "mem_docs [] i = None" "mem_docs (t # d) i = (if td_ID (sv_doc t) = i then Some t else mem_docs d i)"
  by (auto simp: mem_docs_def)

lemma mem_tasks_laws: "coll_laws mem_tasks mem_docs"
  unfolding coll_laws_def
proof (intro conjI allI impI)
  fix d :: "service_doc list" and t i p
  have longer: "mem_docs d i = None" if "length i > length (concat (map (\<lambda>t. td_ID (sv_doc t)) d))" for i
    using that by (induction d) auto
  show "mem_docs d (tk_NewID mem_tasks d) = None" by (rule longer) (simp add: mem_tasks_def)
  show "fst (tk_Insert mem_tasks t d)" "mem_docs (snd (tk_Insert mem_tasks t d)) = (mem_docs d)(td_ID (sv_doc t) \<mapsto> t)"
    by (auto simp: mem_tasks_def)
  show "tk_FindOne mem_tasks i d = Some (mem_docs d i)" by (simp add: mem_tasks_def mem_docs_def)
  let ?al = "AList.clearjunk (map (\<lambda>t. (td_ID (sv_doc t), t)) d)"
  have "(i, t) \<in> set ?al \<longleftrightarrow> mem_docs d i = Some t" for i t
    by (metis distinct_clearjunk map_of_clearjunk map_of_eq_Some_iff mem_docs_def)
  then have "set (map snd ?al) = ran (mem_docs d)" by (force simp: ran_def)
  then show "\<exists>ts. tk_Find mem_tasks p \<lparr>fo_Sort = None, fo_Limit = None, fo_Skip = None\<rparr> d = Some ts \<and> set ts = {t. t \<in> ran (mem_docs d) \<and> p t}"
    by (auto simp: mem_tasks_def)
  show "tk_Delete mem_tasks i d = (Some (if mem_docs d i = None then 0 else 1), snd (tk_Delete mem_tasks i d))"
    by (simp add: mem_tasks_def mem_docs_def)
  show "mem_docs (snd (tk_Delete mem_tasks i d)) = (mem_docs d)(i := None)"
    by (induction d) (auto simp: mem_tasks_def)
next
  fix d :: "service_doc list" and i sets
  assume s: "\<forall>p v. SetPath p v \<notin> set sets"
  show "fst (tk_Update mem_tasks i sets d)" by (simp add: mem_tasks_def)
  have "td_ID (sv_doc (fold set_field sets t)) = td_ID (sv_doc t)" for t using s by (intro fold_fields) auto
  then show "mem_docs (snd (tk_Update mem_tasks i sets d)) = (mem_docs d)(i := map_option (fold set_field sets) (mem_docs d i))"
    by (induction d) (auto simp: mem_tasks_def)
qed

definition sample_service_doc :: service_doc where
  "sample_service_doc = \<lparr>sv_doc = sample_task_doc, sv_Tags = [], sv_StartTime = None, sv_CreatedAt = 0, sv_UpdatedAt = 0\<rparr>"

lemma enable_then_overdue_witness:
  "\<exists>ts. svc_GetReadyTasks mem_tasks 20 (snd (svc_EnableTask mem_tasks (\<lambda>s. True) 10 11 (td_ID sample_task_doc) [sample_service_doc])) = Inr ts \<and> ts \<noteq> []"
proof -
  have d: "mem_docs [sample_service_doc] (td_ID sample_task_doc) = Some sample_service_doc" by (simp add: sample_service_doc_def)
  have z: "(10::int) \<noteq> time_zero" by simp
  from enable_then_overdue[where hex = "\<lambda>s. True" and T = 20 and now' = 11, OF mem_tasks_laws TrueI d z _ refl refl]
  show ?thesis by fastforce
qed

end
