(* ===== verification/LogStore.thy ===== *)
theory LogStore
  imports GoText "HOL-Library.Sublist" "HOL-Library.Multiset" "HOL-Library.AList"
begin

text \<open>
  The log store over a Redis stream (src/logging/store/redis.go), the forwarder of a node's logs
  (src/crawler/distributed/log_forwarder.go), the filters of log entries (src/logging/filters/filters.go) and
  the levels and the pipeline of src/logging/core.go.  Redis, JSON and regular expressions are arguments; the
  writers and the loop that empties the buffer are the steps of a machine.
\<close>

section \<open>Entries and levels\<close>

record log_entry =
  le_ID :: string
  le_Timestamp :: gotime
  le_Level :: int
  le_Source :: string
  le_Message :: string
  le_Fields :: "(string \<times> goval) list"

definition level_String :: "int \<Rightarrow> string" where
  "level_String l = (if l = 0 then ''DEBUG'' else if l = 1 then ''INFO'' else if l = 2 then ''WARN'' else if l = 3 then ''ERROR''
     else if l = 4 then ''FATAL'' else ''UNKNOWN'')"

definition ParseLevel :: "string \<Rightarrow> int" where
  "ParseLevel s = (if s = ''DEBUG'' then 0 else if s = ''INFO'' then 1 else if s = ''WARN'' \<or> s = ''WARNING'' then 2
     else if s = ''ERROR'' then 3 else if s = ''FATAL'' then 4 else 1)"

lemma ParseLevel_String: "ParseLevel (level_String l) = (if 0 \<le> l \<and> l \<le> 4 then l else 1)"
  by (auto simp: ParseLevel_def level_String_def)

section \<open>Filters\<close>

text \<open>
  A filter with its state; \<open>rates\<close> holds for each source the tokens left and the second of the last refill.
  A regular expression is a predicate.
\<close>

datatype log_filter =
    LevelFilter int
  | SourceFilter "string \<Rightarrow> bool" bool
  | MessageFilter "string list" "string list"
  | RateLimitFilter "string \<rightharpoonup> int \<times> int" int
  | CompositeFilter "log_filter list" string

definition source_matches :: "(string \<Rightarrow> bool) \<Rightarrow> bool \<Rightarrow> log_entry \<Rightarrow> bool" where
  "source_matches re incl e = (re (le_Source e) = incl)"

definition message_passes :: "string list \<Rightarrow> string list \<Rightarrow> log_entry \<Rightarrow> bool" where
  "message_passes contains excludes e =
     (let msg = ToLower (le_Message e)
      in if \<exists>x \<in> set excludes. Contains msg (ToLower x) then False
         else if contains \<noteq> [] then \<exists>x \<in> set contains. Contains msg (ToLower x)
         else True)"

text \<open>\<open>Timestamp.Unix()\<close> is the second of the entry.\<close>

definition rate_step :: "int \<Rightarrow> int \<Rightarrow> int \<times> int \<Rightarrow> bool \<times> int \<times> int" where
  "rate_step limit now b = (case b of (tokens, lastFill) \<Rightarrow>
     let (tokens1, lastFill1) = (if now > lastFill then (min limit (tokens + (now - lastFill)), now) else (tokens, lastFill))
     in if tokens1 > 0 then (True, tokens1 - 1, lastFill1) else (False, tokens1, lastFill1))"

definition rate_passes :: "int \<Rightarrow> log_entry \<Rightarrow> (string \<rightharpoonup> int \<times> int) \<Rightarrow> bool \<times> (string \<rightharpoonup> int \<times> int)" where
  "rate_passes limit e rates =
     (case rate_step limit (le_Timestamp e div second) (case rates (le_Source e) of None \<Rightarrow> (limit, 0) | Some b \<Rightarrow> b) of
        (ok, b) \<Rightarrow> (ok, rates(le_Source e \<mapsto> b)))"

fun log_Filter :: "log_entry \<Rightarrow> log_filter \<Rightarrow> bool \<times> log_filter"
  and any_Filter :: "log_entry \<Rightarrow> log_filter list \<Rightarrow> bool \<times> log_filter list"
  and all_Filter :: "log_entry \<Rightarrow> log_filter list \<Rightarrow> bool \<times> log_filter list" where
  "log_Filter e (LevelFilter m) = (le_Level e \<ge> m, LevelFilter m)"
| "log_Filter e (SourceFilter re incl) = (source_matches re incl e, SourceFilter re incl)"
| "log_Filter e (MessageFilter cs xs) = (message_passes cs xs e, MessageFilter cs xs)"
| "log_Filter e (RateLimitFilter rates limit) = (case rate_passes limit e rates of (ok, rates1) \<Rightarrow> (ok, RateLimitFilter rates1 limit))"
| "log_Filter e (CompositeFilter fs mode) =
     (if fs = [] then (True, CompositeFilter fs mode)
      else case (if mode = ''OR'' then any_Filter e fs else all_Filter e fs) of (ok, fs1) \<Rightarrow> (ok, CompositeFilter fs1 mode))"
| "any_Filter e [] = (False, [])"
| "any_Filter e (f # fs) = (case log_Filter e f of
      (True, f1) \<Rightarrow> (True, f1 # fs)
    | (False, f1) \<Rightarrow> (case any_Filter e fs of (ok, fs1) \<Rightarrow> (ok, f1 # fs1)))"
| "all_Filter e [] = (True, [])"
| "all_Filter e (f # fs) = (case log_Filter e f of
      (False, f1) \<Rightarrow> (False, f1 # fs)
    | (True, f1) \<Rightarrow> (case all_Filter e fs of (ok, fs1) \<Rightarrow> (ok, f1 # fs1)))"

section \<open>The pipeline\<close>

text \<open>A writer acts on the state it is given; its error is not looked at.\<close>

record 'w log_pipeline =
  lp_filters :: "log_filter list"
  lp_transformers :: "(log_entry \<Rightarrow> log_entry option) list"
  lp_writers :: "(log_entry \<Rightarrow> 'w \<Rightarrow> bool \<times> 'w) list"

fun transform_all :: "(log_entry \<Rightarrow> log_entry option) list \<Rightarrow> log_entry \<Rightarrow> log_entry option" where
  "transform_all [] e = Some e"
| "transform_all (t # ts) e = (case t e of None \<Rightarrow> None | Some e1 \<Rightarrow> transform_all ts e1)"

definition lp_Process :: "log_entry \<Rightarrow> 'w log_pipeline \<Rightarrow> 'w \<Rightarrow> 'w log_pipeline \<times> 'w" where
  "lp_Process e p w = (case all_Filter e (lp_filters p) of
       (False, fs) \<Rightarrow> (p\<lparr>lp_filters := fs\<rparr>, w)
     | (True, fs) \<Rightarrow> (case transform_all (lp_transformers p) e of
           None \<Rightarrow> (p\<lparr>lp_filters := fs\<rparr>, w)
         | Some e1 \<Rightarrow> (p\<lparr>lp_filters := fs\<rparr>, fold (\<lambda>wr w. snd (wr e1 w)) (lp_writers p) w)))"

section \<open>The Redis stream\<close>

text \<open>
  \<open>XADD\<close>, \<open>PUBLISH\<close> and \<open>XRANGE\<close> or \<open>XREVRANGE\<close>, with the texts that the client makes of the values.  A
  marshalled entry, and its fields, are texts.
\<close>

record 'r log_redis =
  lr_XAdd :: "string \<Rightarrow> int \<Rightarrow> (string \<times> string) list \<Rightarrow> 'r \<Rightarrow> bool \<times> 'r"
  lr_Publish :: "string \<Rightarrow> string \<Rightarrow> 'r \<Rightarrow> bool \<times> 'r"
  lr_Range :: "string \<Rightarrow> string \<Rightarrow> string \<Rightarrow> bool \<Rightarrow> 'r \<Rightarrow> (string \<times> string) list list option"

record log_codec =
  lc_fields :: "(string \<times> goval) list \<Rightarrow> string option"
  lc_read_fields :: "string \<Rightarrow> (string \<times> goval) list option"
  lc_entry :: "log_entry \<Rightarrow> string option"
  lc_read_entry :: "string \<Rightarrow> log_entry option"

record log_conf =
  lgc_streamKey :: string
  lgc_pubsubKey :: string
  lgc_maxLen :: int
  lgc_bufferSize :: nat

definition redis_log_conf :: "string \<Rightarrow> string \<Rightarrow> int \<Rightarrow> nat \<Rightarrow> log_conf" where
  "redis_log_conf stream pubsub maxLen bufsize =
     \<lparr>lgc_streamKey = (if stream = '''' then ''logs:stream'' else stream), lgc_pubsubKey = (if pubsub = '''' then ''logs:pubsub'' else pubsub),
      lgc_maxLen = (if maxLen = 0 then 1000 else maxLen), lgc_bufferSize = (if bufsize = 0 then 100 else bufsize)\<rparr>"

abbreviation milli :: duration where "milli \<equiv> 1000000"

definition stream_values :: "log_codec \<Rightarrow> log_entry \<Rightarrow> (string \<times> string) list" where
  "stream_values J e =
     [(''timestamp'', dec_of_int (le_Timestamp e div milli)), (''level'', level_String (le_Level e)), (''message'', le_Message e)]
     @ (if le_Source e \<noteq> '''' then [(''source'', le_Source e)] else [])
     @ (if le_Fields e \<noteq> [] then (case lc_fields J (le_Fields e) of None \<Rightarrow> [] | Some t \<Rightarrow> [(''fields'', t)]) else [])"

definition addToStream :: "'r log_redis \<Rightarrow> log_codec \<Rightarrow> log_conf \<Rightarrow> log_entry \<Rightarrow> 'r \<Rightarrow> bool \<times> 'r" where
  "addToStream R J c e r = lr_XAdd R (lgc_streamKey c) (lgc_maxLen c) (stream_values J e) r"

definition publishEntry :: "'r log_redis \<Rightarrow> log_codec \<Rightarrow> log_conf \<Rightarrow> log_entry \<Rightarrow> 'r \<Rightarrow> bool \<times> 'r" where
  "publishEntry R J c e r = (case lc_entry J e of None \<Rightarrow> (True, r) | Some t \<Rightarrow> lr_Publish R (lgc_pubsubKey c) t r)"

definition writeEntry :: "'r log_redis \<Rightarrow> log_codec \<Rightarrow> log_conf \<Rightarrow> log_entry \<Rightarrow> 'r \<Rightarrow> bool \<times> 'r" where
  "writeEntry R J c e r = (case addToStream R J c e r of (ok, r1) \<Rightarrow> case publishEntry R J c e r1 of (ok', r2) \<Rightarrow> (ok \<and> ok', r2))"

definition writeBatch :: "'r log_redis \<Rightarrow> log_codec \<Rightarrow> log_conf \<Rightarrow> log_entry list \<Rightarrow> 'r \<Rightarrow> 'r" where
  "writeBatch R J c es r = fold (\<lambda>e r. snd (writeEntry R J c e r)) es r"

section \<open>Reading\<close>

text \<open>\<open>fmt.Sscanf\<close> with \<open>%d\<close>: white space but no end of line, a sign, and the digits that follow.\<close>

definition scan_int :: "string \<Rightarrow> int option" where
  "scan_int s =
     (let t = dropWhile (\<lambda>c. ascii_space c \<and> of_char c \<noteq> (10 :: nat)) s;
          sign = (if t \<noteq> [] \<and> (hd t = CHR ''-'' \<or> hd t = CHR ''+'') then [hd t] else []);
          ds = takeWhile is_digit (drop (length sign) t)
      in if ds = [] then None else Atoi (sign @ ds))"

text \<open>The values in the order of the map; the last of the two fields for the source wins.  \<open>now\<close> stands in for a missing time.\<close>

definition parse_value :: "log_codec \<Rightarrow> string \<times> string \<Rightarrow> gotime option \<times> log_entry \<Rightarrow> gotime option \<times> log_entry" where
  "parse_value J kv te = (case kv of (key, s) \<Rightarrow> case te of (t, e) \<Rightarrow>
     if key = ''timestamp'' then (case scan_int s of Some ts \<Rightarrow> (Some (ts * milli), e) | None \<Rightarrow> (t, e))
     else if key = ''level'' then (t, e\<lparr>le_Level := ParseLevel s\<rparr>)
     else if key = ''source'' \<or> key = ''node_id'' then (t, e\<lparr>le_Source := s\<rparr>)
     else if key = ''message'' then (t, e\<lparr>le_Message := s\<rparr>)
     else if key = ''fields'' then (t, case lc_read_fields J s of Some m \<Rightarrow> e\<lparr>le_Fields := m\<rparr> | None \<Rightarrow> e)
     else (t, e))"

definition blank_entry :: log_entry where
  "blank_entry = \<lparr>le_ID = '''', le_Timestamp = time_zero, le_Level = 0, le_Source = '''', le_Message = '''', le_Fields = []\<rparr>"

text \<open>The instant that Go calls zero, counted from 1970.\<close>

abbreviation go_zero :: gotime where "go_zero \<equiv> - 62135596800 * second"

definition parseEntry :: "log_codec \<Rightarrow> gotime \<Rightarrow> (string \<times> string) list \<Rightarrow> log_entry" where
  "parseEntry J now values = (case fold (parse_value J) values (None, blank_entry) of
       (t, e) \<Rightarrow> e\<lparr>le_Timestamp := (case t of None \<Rightarrow> now | Some u \<Rightarrow> if u = go_zero then now else u)\<rparr>)"

record read_options =
  ro_Limit :: int
  ro_Since :: "gotime option"
  ro_Until :: "gotime option"
  ro_Level :: int
  ro_Source :: string
  ro_Search :: string
  ro_Ascending :: bool

text \<open>The search looks at the beginning of the message only.\<close>

definition read_keeps :: "read_options \<Rightarrow> log_entry \<Rightarrow> bool" where
  "read_keeps o1 e \<longleftrightarrow> \<not> (ro_Level o1 > 0 \<and> le_Level e < ro_Level o1) \<and> \<not> (ro_Source o1 \<noteq> '''' \<and> le_Source e \<noteq> ro_Source o1) \<and>
     \<not> (ro_Search o1 \<noteq> '''' \<and> \<not> HasPrefix (le_Message e) (ro_Search o1))"

fun read_loop :: "log_codec \<Rightarrow> gotime \<Rightarrow> read_options \<Rightarrow> (string \<times> string) list list \<Rightarrow> log_entry list \<Rightarrow> log_entry list" where
  "read_loop J now o1 [] acc = acc"
| "read_loop J now o1 (m # ms) acc =
     (let e = parseEntry J now m
      in if read_keeps o1 e
         then (let acc1 = acc @ [e] in if ro_Limit o1 > 0 \<and> int (length acc1) \<ge> ro_Limit o1 then acc1 else read_loop J now o1 ms acc1)
         else read_loop J now o1 ms acc)"

definition log_Read :: "'r log_redis \<Rightarrow> log_codec \<Rightarrow> log_conf \<Rightarrow> gotime \<Rightarrow> read_options \<Rightarrow> 'r \<Rightarrow> log_entry list option" where
  "log_Read R J c now o1 r =
     (let start = (case ro_Since o1 of None \<Rightarrow> ''-'' | Some t \<Rightarrow> dec_of_int (t div milli) @ ''-0'');
          stop = (case ro_Until o1 of None \<Rightarrow> ''+'' | Some t \<Rightarrow> dec_of_int (t div milli) @ ''-0'')
      in map_option (\<lambda>ms. read_loop J now o1 ms [])
           (if ro_Ascending o1 then lr_Range R (lgc_streamKey c) start stop True r else lr_Range R (lgc_streamKey c) stop start False r))"


section \<open>The store as a machine\<close>

text \<open>
  Writers and the loop share the buffer.  What the loop has taken and not yet written is \<open>rs_batch\<close>; \<open>rs_sent\<close>
  is the history of what went to Redis, marked with whether a writer sent it itself, and \<open>rs_queued\<close> and
  \<open>rs_direct\<close> those of what the writers handed over.
\<close>

record 'r redis_store =
  rs_redis :: 'r
  rs_buffer :: "log_entry list"
  rs_batch :: "log_entry list"
  rs_stopped :: bool
  rs_running :: bool
  rs_sent :: "(bool \<times> log_entry) list"
  rs_queued :: "log_entry list"
  rs_direct :: "log_entry list"

definition NewRedisStore :: "'r \<Rightarrow> 'r redis_store" where
  "NewRedisStore r = \<lparr>rs_redis = r, rs_buffer = [], rs_batch = [], rs_stopped = False, rs_running = True, rs_sent = [], rs_queued = [], rs_direct = []\<rparr>"

text \<open>The outcome of a write: accepted, or the error of Redis.\<close>

definition store_Write :: "'r log_redis \<Rightarrow> log_codec \<Rightarrow> log_conf \<Rightarrow> log_entry \<Rightarrow> 'r redis_store \<Rightarrow> bool \<times> 'r redis_store" where
  "store_Write R J c e s =
     (if length (rs_buffer s) < lgc_bufferSize c then (True, s\<lparr>rs_buffer := rs_buffer s @ [e], rs_queued := rs_queued s @ [e]\<rparr>)
      else case writeEntry R J c e (rs_redis s) of
        (ok, r) \<Rightarrow> (ok, s\<lparr>rs_redis := r, rs_sent := rs_sent s @ [(True, e)], rs_direct := rs_direct s @ [e]\<rparr>))"

definition flush_batch :: "'r log_redis \<Rightarrow> log_codec \<Rightarrow> log_conf \<Rightarrow> 'r redis_store \<Rightarrow> 'r redis_store" where
  "flush_batch R J c s = s\<lparr>rs_redis := writeBatch R J c (rs_batch s) (rs_redis s), rs_sent := rs_sent s @ map (Pair False) (rs_batch s), rs_batch := []\<rparr>"

definition loop_take :: "'r log_redis \<Rightarrow> log_codec \<Rightarrow> log_conf \<Rightarrow> 'r redis_store \<Rightarrow> 'r redis_store" where
  "loop_take R J c s = (case rs_buffer s of
       [] \<Rightarrow> s
     | e # es \<Rightarrow> (let s1 = s\<lparr>rs_buffer := es, rs_batch := rs_batch s @ [e]\<rparr>
                in if length (rs_batch s1) \<ge> 10 then flush_batch R J c s1 else s1))"

definition loop_tick :: "'r log_redis \<Rightarrow> log_codec \<Rightarrow> log_conf \<Rightarrow> 'r redis_store \<Rightarrow> 'r redis_store" where
  "loop_tick R J c s = (if rs_batch s \<noteq> [] then flush_batch R J c s else s)"

definition loop_stop :: "'r log_redis \<Rightarrow> log_codec \<Rightarrow> log_conf \<Rightarrow> 'r redis_store \<Rightarrow> 'r redis_store" where
  "loop_stop R J c s = (if rs_batch s \<noteq> [] then flush_batch R J c s else s)\<lparr>rs_running := False\<rparr>"

text \<open>Closing a closed store closes a closed channel: \<open>None\<close> is the panic.\<close>

definition store_Close :: "'r redis_store \<Rightarrow> 'r redis_store option" where
  "store_Close s = (if rs_stopped s then None else Some (s\<lparr>rs_stopped := True\<rparr>))"

text \<open>
  When several cases of a select are ready, Go takes any of them; a write under a cancelled context may end
  without doing anything.
\<close>

inductive store_step :: "'r log_redis \<Rightarrow> log_codec \<Rightarrow> log_conf \<Rightarrow> 'r redis_store \<Rightarrow> 'r redis_store \<Rightarrow> bool"
  for R :: "'r log_redis" and J c where
  written: "store_step R J c s (snd (store_Write R J c e s))"
| cancelled: "store_step R J c s s"
| taken: "rs_running s \<Longrightarrow> rs_buffer s \<noteq> [] \<Longrightarrow> store_step R J c s (loop_take R J c s)"
| ticked: "rs_running s \<Longrightarrow> store_step R J c s (loop_tick R J c s)"
| closed: "store_Close s = Some s1 \<Longrightarrow> store_step R J c s s1"
| ended: "rs_running s \<Longrightarrow> rs_stopped s \<Longrightarrow> store_step R J c s (loop_stop R J c s)"

definition store_good :: "'r log_redis \<Rightarrow> log_codec \<Rightarrow> log_conf \<Rightarrow> 'r \<Rightarrow> 'r redis_store \<Rightarrow> bool" where
  "store_good R J c r0 s \<longleftrightarrow>
     rs_redis s = writeBatch R J c (map snd (rs_sent s)) r0 \<and>
     map snd (filter (Not \<circ> fst) (rs_sent s)) @ rs_batch s @ rs_buffer s = rs_queued s \<and>
     map snd (filter fst (rs_sent s)) = rs_direct s \<and>
     length (rs_buffer s) \<le> lgc_bufferSize c \<and> length (rs_batch s) < 10"

lemma store_goodI:
  "rs_redis s = writeBatch R J c (map snd (rs_sent s)) r0 \<Longrightarrow>
   map snd (filter (Not \<circ> fst) (rs_sent s)) @ rs_batch s @ rs_buffer s = rs_queued s \<Longrightarrow>
   map snd (filter fst (rs_sent s)) = rs_direct s \<Longrightarrow>
   length (rs_buffer s) \<le> lgc_bufferSize c \<Longrightarrow> length (rs_batch s) < 10 \<Longrightarrow> store_good R J c r0 s"
  by (simp add: store_good_def)

lemma sent_by_loop [simp]:
  "filter fst (map (Pair False) es) = []" "filter (Not \<circ> fst) (map (Pair False) es) = map (Pair False) es" "map snd (map (Pair b) es) = es"
  by (induction es) auto

lemma writeBatch_append: "writeBatch R J c (es @ fs) r = writeBatch R J c fs (writeBatch R J c es r)"
  by (simp add: writeBatch_def)

lemma flush_good:
  assumes "rs_redis s = writeBatch R J c (map snd (rs_sent s)) r0"
    and "map snd (filter (Not \<circ> fst) (rs_sent s)) @ rs_batch s @ rs_buffer s = rs_queued s"
    and "map snd (filter fst (rs_sent s)) = rs_direct s" and "length (rs_buffer s) \<le> lgc_bufferSize c"
  shows "store_good R J c r0 (flush_batch R J c s)"
  using assms by (intro store_goodI) (simp_all add: flush_batch_def writeBatch_append del: map_map)

lemma Write_good:
  assumes "store_good R J c r0 s"
  shows "store_good R J c r0 (snd (store_Write R J c e s))"
proof (cases "length (rs_buffer s) < lgc_bufferSize c")
  case True
  then show ?thesis using assms by (auto simp: store_good_def store_Write_def)
next
  case False
  have "writeBatch R J c [e] r = snd (writeEntry R J c e r)" for r by (simp add: writeBatch_def)
  then show ?thesis using False assms
    by (auto simp: store_good_def store_Write_def writeBatch_append split: prod.split)
qed

lemma take_good: "store_good R J c r0 s \<Longrightarrow> store_good R J c r0 (loop_take R J c s)"
  unfolding loop_take_def Let_def
  by (auto split: list.split intro!: flush_good) (auto simp: store_good_def)

lemma flush_store_good: "store_good R J c r0 s \<Longrightarrow> store_good R J c r0 (flush_batch R J c s)"
  by (rule flush_good) (auto simp: store_good_def)

lemma tick_good: "store_good R J c r0 s \<Longrightarrow> store_good R J c r0 (loop_tick R J c s)"
  by (simp add: loop_tick_def flush_store_good)

lemma running_irrelevant [simp]: "store_good R J c r0 (s\<lparr>rs_running := b\<rparr>) = store_good R J c r0 s"
  "store_good R J c r0 (s\<lparr>rs_stopped := b\<rparr>) = store_good R J c r0 s"
  by (simp_all add: store_good_def)

lemma stop_good: "store_good R J c r0 s \<Longrightarrow> store_good R J c r0 (loop_stop R J c s)"
  by (simp add: loop_stop_def flush_store_good)

lemma step_good: "store_step R J c s s1 \<Longrightarrow> store_good R J c r0 s \<Longrightarrow> store_good R J c r0 s1"
  by (induction rule: store_step.induct)
     (auto simp: Write_good take_good tick_good stop_good store_Close_def split: if_splits)

lemma New_good: "store_good R J c r0 (NewRedisStore r0)"
  by (simp add: store_good_def NewRedisStore_def writeBatch_def)

lemma reachable_good: "(store_step R J c)\<^sup>*\<^sup>* (NewRedisStore r0) s \<Longrightarrow> store_good R J c r0 s"
  by (induction rule: rtranclp_induct) (auto simp: New_good intro: step_good)

text \<open>Once the loop has ended, what is in the buffer stays there.\<close>

lemma ended_keeps_buffer:
  assumes "store_step R J c s s1" and "\<not> rs_running s"
  shows "\<not> rs_running s1 \<and> prefix (rs_buffer s) (rs_buffer s1)"
  using assms by (induction rule: store_step.induct) (auto simp: store_Write_def store_Close_def split: if_splits prod.splits)

lemma ended_for_ever:
  assumes "(store_step R J c)\<^sup>*\<^sup>* s s1" and "\<not> rs_running s"
  shows "\<not> rs_running s1 \<and> prefix (rs_buffer s) (rs_buffer s1)"
  using assms by (induction rule: rtranclp_induct) (auto dest: ended_keeps_buffer intro: prefix_order.trans)

text \<open>
  C36: log_store_conserves. However writers, the loop and closing interleave, Redis has been given exactly the entries
  that are neither in the batch nor in the buffer: those that the writers queued in their order, and those that
  found the buffer full as well, which overtake the queued ones.  What is in the buffer when the loop ends never
  gets there, and nor does what is queued afterwards.
\<close>

theorem log_store_conserves:
  assumes "(store_step R J c)\<^sup>*\<^sup>* (NewRedisStore r0) s"
  shows "rs_redis s = writeBatch R J c (map snd (rs_sent s)) r0 \<and>
    map snd (filter (Not \<circ> fst) (rs_sent s)) @ rs_batch s @ rs_buffer s = rs_queued s \<and>
    map snd (filter fst (rs_sent s)) = rs_direct s \<and>
    length (rs_buffer s) \<le> lgc_bufferSize c \<and> length (rs_batch s) < 10 \<and>
    (\<forall>s1. \<not> rs_running s \<and> (store_step R J c)\<^sup>*\<^sup>* s s1 \<longrightarrow> (\<exists>es. rs_buffer s1 = rs_buffer s @ es \<and>
      map snd (filter (Not \<circ> fst) (rs_sent s1)) @ rs_batch s1 @ rs_buffer s @ es = rs_queued s1))"
proof -
  have ended: "\<exists>es. rs_buffer s1 = rs_buffer s @ es \<and>
      map snd (filter (Not \<circ> fst) (rs_sent s1)) @ rs_batch s1 @ rs_buffer s @ es = rs_queued s1"
    if "\<not> rs_running s" "(store_step R J c)\<^sup>*\<^sup>* s s1" for s1
  proof -
    have "store_good R J c r0 s1" using reachable_good assms that(2) by (metis rtranclp_trans)
    then show ?thesis using ended_for_ever[OF that(2,1)] by (auto simp: store_good_def prefix_def)
  qed
  show ?thesis using reachable_good[OF assms] ended by (auto simp: store_good_def)
qed

section \<open>What is read back\<close>

text \<open>The values of a message come in any order; all their keys are different.\<close>

definition read_map :: "log_codec \<Rightarrow> (string \<rightharpoonup> string) \<Rightarrow> gotime option \<times> log_entry \<Rightarrow> gotime option \<times> log_entry" where
  "read_map J m te = (case te of (t, e) \<Rightarrow>
     (case Option.bind (m ''timestamp'') scan_int of Some ts \<Rightarrow> Some (ts * milli) | None \<Rightarrow> t,
      e\<lparr>le_Level := (case m ''level'' of Some s \<Rightarrow> ParseLevel s | None \<Rightarrow> le_Level e),
        le_Source := (case m ''source'' of Some s \<Rightarrow> s | None \<Rightarrow> le_Source e),
        le_Message := (case m ''message'' of Some s \<Rightarrow> s | None \<Rightarrow> le_Message e),
        le_Fields := (case Option.bind (m ''fields'') (lc_read_fields J) of Some f \<Rightarrow> f | None \<Rightarrow> le_Fields e)\<rparr>))"

lemma read_map_step:
  assumes "k \<noteq> ''node_id''" and "m k = None"
  shows "read_map J m (parse_value J (k, s) te) = read_map J (m(k \<mapsto> s)) te"
proof -
  obtain t e where te: "te = (t, e)" by (cases te)
  consider "k = ''timestamp''" | "k = ''level''" | "k = ''source''" | "k = ''message''" | "k = ''fields''"
    | "k \<noteq> ''timestamp''" "k \<noteq> ''level''" "k \<noteq> ''source''" "k \<noteq> ''message''" "k \<noteq> ''fields''" by blast
  then show ?thesis using assms unfolding te
    by cases (simp_all add: read_map_def parse_value_def split: option.split)
qed

lemma fold_parse_value:
  assumes "distinct (map fst vs)" and "''node_id'' \<notin> fst ` set vs"
  shows "fold (parse_value J) vs te = read_map J (map_of vs) te"
  using assms
proof (induction vs arbitrary: te)
  case Nil
  show ?case by (cases te) (simp add: read_map_def)
next
  case (Cons kv vs)
  obtain k s where kv: "kv = (k, s)" by (cases kv)
  have "map_of vs k = None" using Cons.prems kv by (simp add: map_of_eq_None_iff)
  then have "read_map J (map_of vs) (parse_value J (k, s) te) = read_map J (map_of ((k, s) # vs)) te"
    using Cons.prems kv by (subst read_map_step) (auto simp del: fun_upd_apply)
  then show ?case using Cons kv by (simp del: fun_upd_apply)
qed

lemma stream_values_keys:
  "distinct (map fst (stream_values J e)) \<and> ''node_id'' \<notin> fst ` set (stream_values J e)"
  by (cases "lc_fields J (le_Fields e)"; cases "le_Source e = ''''"; cases "le_Fields e = []") (simp_all add: stream_values_def)

lemma scan_dec_of_int:
  assumes "- (2 ^ 63) \<le> i" and "i < 2 ^ 63"
  shows "scan_int (dec_of_int i) = Some i"
proof -
  have digits: "\<forall>c \<in> set (dec_of_nat n). is_digit c" "dec_of_nat n \<noteq> []" for n
    using dec_of_nat_digits[of n] by (auto simp: list_all_iff)
  have ns: "\<not> ascii_space c" "c \<noteq> CHR ''-''" "c \<noteq> CHR ''+''" if "is_digit c" for c
    using that by (auto simp: ascii_space_def char_between_def Let_def)
  have tw: "takeWhile is_digit (dec_of_nat n) = dec_of_nat n" for n using digits by (simp add: takeWhile_eq_all_conv)
  have hd: "is_digit (hd (dec_of_nat n))" for n using digits(1)[of n] digits(2)[of n] by (cases "dec_of_nat n") auto
  have dw: "dropWhile (\<lambda>c. ascii_space c \<and> of_char c \<noteq> (10 :: nat)) (dec_of_nat n) = dec_of_nat n" for n
    using ns(1)[OF hd[of n]] digits(2)[of n] by (cases "dec_of_nat n") simp_all
  show ?thesis
  proof (cases "i < 0")
    case True
    then have "scan_int (dec_of_int i) = Atoi (dec_of_int i)"
      by (simp add: scan_int_def dec_of_int_def tw digits(2) ascii_space_def)
    then show ?thesis using Atoi_dec_of_int[OF assms] by simp
  next
    case False
    then have "scan_int (dec_of_int i) = Atoi (dec_of_int i)"
      using ns(2,3)[OF hd[of "nat i"]] by (simp add: scan_int_def dec_of_int_def dw tw digits(2))
    then show ?thesis using Atoi_dec_of_int[OF assms] by simp
  qed
qed

definition fields_kept :: "log_codec \<Rightarrow> bool" where
  "fields_kept J \<longleftrightarrow> (\<forall>f t. lc_fields J f = Some t \<longrightarrow> lc_read_fields J t = Some f)"

text \<open>What of an entry the stream keeps.\<close>

definition kept_entry :: "log_codec \<Rightarrow> log_entry \<Rightarrow> log_entry" where
  "kept_entry J e = e\<lparr>le_ID := '''', le_Timestamp := le_Timestamp e div milli * milli,
     le_Level := (if 0 \<le> le_Level e \<and> le_Level e \<le> 4 then le_Level e else 1),
     le_Fields := (if lc_fields J (le_Fields e) = None then [] else le_Fields e)\<rparr>"

definition has_stamp :: "log_entry \<Rightarrow> bool" where
  "has_stamp e \<longleftrightarrow> - (2 ^ 63) \<le> le_Timestamp e div milli \<and> le_Timestamp e div milli < 2 ^ 63 \<and> le_Timestamp e div milli * milli \<noteq> go_zero"

lemma parse_stream_values:
  assumes J: "fields_kept J" and t: "has_stamp e" and vs: "mset vs = mset (stream_values J e)"
  shows "parseEntry J now vs = kept_entry J e"
proof -
  let ?sv = "stream_values J e"
  have "distinct (map fst vs) = distinct (map fst ?sv)" by (metis mset_map mset_eq_imp_distinct_iff vs)
  moreover have "set vs = set ?sv" using vs by (metis set_mset_mset)
  ultimately have "map_of vs = map_of ?sv" and vs': "distinct (map fst vs)" "''node_id'' \<notin> fst ` set vs"
    using stream_values_keys[of J e] by (auto simp: map_of_inject_set)
  then have "fold (parse_value J) vs (None, blank_entry) = read_map J (map_of ?sv) (None, blank_entry)"
    by (simp add: fold_parse_value)
  moreover have "scan_int (dec_of_int (le_Timestamp e div milli)) = Some (le_Timestamp e div milli)"
    by (rule scan_dec_of_int) (use t in \<open>simp_all add: has_stamp_def\<close>)
  moreover have "lc_read_fields J t = Some (le_Fields e)" if "lc_fields J (le_Fields e) = Some t" for t
    using J that by (simp add: fields_kept_def)
  ultimately show ?thesis using t
    by (cases "lc_fields J (le_Fields e)"; cases "le_Source e = ''''"; cases "le_Fields e = []")
       (simp_all add: parseEntry_def read_map_def stream_values_def blank_entry_def kept_entry_def has_stamp_def ParseLevel_String)
qed

text \<open>
  A stream that keeps at least its \<open>maxLen\<close> newest messages; their values come back in some order.
\<close>

definition stream_laws :: "'r log_redis \<Rightarrow> string \<Rightarrow> ('r \<Rightarrow> (string \<times> string) list list) \<Rightarrow> bool" where
  "stream_laws R key msgs \<longleftrightarrow>
     (\<forall>m vs r. \<exists>vs'. mset vs' = mset vs \<and> suffix (msgs (snd (lr_XAdd R key m vs r))) (msgs r @ [vs']) \<and>
        (msgs (snd (lr_XAdd R key m vs r)) = msgs r @ [vs'] \<or> int (length (msgs (snd (lr_XAdd R key m vs r)))) \<ge> m)) \<and>
     (\<forall>ch t r. msgs (snd (lr_Publish R ch t r)) = msgs r) \<and>
     (\<forall>r. lr_Range R key ''+'' ''-'' False r = Some (rev (msgs r)))"

definition same_values :: "log_codec \<Rightarrow> log_entry \<Rightarrow> (string \<times> string) list \<Rightarrow> bool" where
  "same_values J e vs \<longleftrightarrow> mset vs = mset (stream_values J e)"

lemma writeEntry_stream:
  assumes "stream_laws R (lgc_streamKey c) msgs"
  shows "\<exists>v. same_values J e v \<and> suffix (msgs (snd (writeEntry R J c e r))) (msgs r @ [v]) \<and>
    (msgs (snd (writeEntry R J c e r)) = msgs r @ [v] \<or> int (length (msgs (snd (writeEntry R J c e r)))) \<ge> lgc_maxLen c)"
proof -
  obtain ok r1 where x: "addToStream R J c e r = (ok, r1)" by fastforce
  have "msgs (snd (publishEntry R J c e r1)) = msgs r1"
    using assms by (auto simp: publishEntry_def stream_laws_def split: option.split)
  then have "msgs (snd (writeEntry R J c e r)) = msgs (snd (lr_XAdd R (lgc_streamKey c) (lgc_maxLen c) (stream_values J e) r))"
    using x by (cases "publishEntry R J c e r1") (simp add: writeEntry_def addToStream_def)
  then show ?thesis using assms unfolding stream_laws_def same_values_def by presburger
qed

lemma writeBatch_stream:
  assumes "stream_laws R (lgc_streamKey c) msgs" and "msgs r0 = []"
  shows "\<exists>zs. list_all2 (same_values J) es zs \<and> suffix (msgs (writeBatch R J c es r0)) zs \<and>
    (msgs (writeBatch R J c es r0) = zs \<or> int (length (msgs (writeBatch R J c es r0))) \<ge> lgc_maxLen c)"
proof (induction es rule: rev_induct)
  case Nil
  show ?case using assms(2) by (simp add: writeBatch_def)
next
  case (snoc e es)
  let ?r = "writeBatch R J c es r0"
  let ?m = "msgs (snd (writeEntry R J c e ?r))"
  obtain zs where zs: "list_all2 (same_values J) es zs" "suffix (msgs ?r) zs" "msgs ?r = zs \<or> int (length (msgs ?r)) \<ge> lgc_maxLen c"
    using snoc by blast
  obtain v where v: "same_values J e v" "suffix ?m (msgs ?r @ [v])" "?m = msgs ?r @ [v] \<or> int (length ?m) \<ge> lgc_maxLen c"
    using writeEntry_stream[OF assms(1)] by blast
  have "writeBatch R J c (es @ [e]) r0 = snd (writeEntry R J c e ?r)" by (simp add: writeBatch_def)
  moreover have "suffix (msgs ?r @ [v]) (zs @ [v])" using zs(2) by (auto simp: suffix_def)
  then have "suffix ?m (zs @ [v])" by (rule suffix_order.trans[OF v(2)])
  moreover have "?m = zs @ [v] \<or> int (length ?m) \<ge> lgc_maxLen c" using v(3) zs(3) by auto
  moreover have "list_all2 (same_values J) (es @ [e]) (zs @ [v])" using zs(1) v(1) by (simp add: list_all2_appendI)
  ultimately show ?case by metis
qed

lemma read_loop_spec:
  assumes "ro_Limit o1 > 0 \<Longrightarrow> int (length acc) < ro_Limit o1"
  shows "read_loop J now o1 ms acc =
    (let es = acc @ filter (read_keeps o1) (map (parseEntry J now) ms) in if ro_Limit o1 > 0 then take (nat (ro_Limit o1)) es else es)"
  using assms
proof (induction ms arbitrary: acc)
  case (Cons m ms)
  show ?case
  proof (cases "read_keeps o1 (parseEntry J now m) \<and> ro_Limit o1 > 0 \<and> int (length acc) + 1 \<ge> ro_Limit o1")
    case True
    then have "nat (ro_Limit o1) = Suc (length acc)" using Cons.prems by linarith
    then show ?thesis using True by (simp add: Let_def)
  next
    case False
    then show ?thesis using Cons by (auto simp: Let_def)
  qed
qed (auto simp: Let_def)

definition newest :: "int \<Rightarrow> read_options" where
  "newest n = \<lparr>ro_Limit = n, ro_Since = None, ro_Until = None, ro_Level = 0, ro_Source = '''', ro_Search = '''', ro_Ascending = False\<rparr>"

lemma same_values_parsed:
  assumes "list_all2 (same_values J) es zs" and "fields_kept J" and "\<forall>e \<in> set es. has_stamp e"
  shows "map (parseEntry J now) zs = map (kept_entry J) es"
  using assms by (induction rule: list_all2_induct) (auto simp: same_values_def parse_stream_values)

lemma take_rev_suffix: "suffix xs ys \<Longrightarrow> xs = ys \<or> n \<le> length xs \<Longrightarrow> take n (rev xs) = take n (rev ys)"
  by (auto simp: suffix_def)

text \<open>
  C35: log_tail. Whatever writers, the loop and closing have done, asking for the newest entries, up to as many as the
  stream keeps, gives the last entries sent, newest first: their time to the millisecond, their level, source,
  message and fields, without their identifier.
\<close>

theorem log_tail:
  assumes "(store_step R J c)\<^sup>*\<^sup>* (NewRedisStore r0) s" and "stream_laws R (lgc_streamKey c) msgs" and "msgs r0 = []"
    and "fields_kept J" and "\<forall>(b, e) \<in> set (rs_sent s). has_stamp e" and "0 < n" and "n \<le> lgc_maxLen c"
  shows "log_Read R J c now (newest n) (rs_redis s) = Some (map (kept_entry J) (take (nat n) (rev (map snd (rs_sent s)))))"
proof -
  let ?es = "map snd (rs_sent s)"
  let ?m = "msgs (rs_redis s)"
  have "rs_redis s = writeBatch R J c ?es r0" using reachable_good[OF assms(1)] by (simp add: store_good_def)
  then obtain zs where zs: "list_all2 (same_values J) ?es zs" "suffix ?m zs" "?m = zs \<or> int (length ?m) \<ge> lgc_maxLen c"
    using writeBatch_stream[OF assms(2,3), of J ?es] by auto
  have tk: "take (nat n) (rev ?m) = take (nat n) (rev zs)"
    using zs(3) assms(7) by (intro take_rev_suffix[OF zs(2)]) linarith
  have pz: "map (parseEntry J now) zs = map (kept_entry J) ?es"
    using assms(4,5) by (intro same_values_parsed[OF zs(1)]) auto
  have keeps: "filter (read_keeps (newest n)) es = es" for es by (simp add: read_keeps_def newest_def)
  have "read_loop J now (newest n) (rev ?m) [] = take (nat n) (map (parseEntry J now) (rev ?m))"
    using read_loop_spec[of "newest n" "[]" J now "rev ?m"] assms(6) keeps by (simp add: newest_def)
  also have "\<dots> = take (nat n) (map (parseEntry J now) (rev zs))" using tk by (simp add: take_map)
  also have "\<dots> = map (kept_entry J) (take (nat n) (rev ?es))" by (metis pz rev_map take_map)
  finally show ?thesis using assms(2) by (simp add: log_Read_def newest_def stream_laws_def)
qed

section \<open>How many entries the rate filter passes\<close>

fun passed :: "log_filter \<Rightarrow> log_entry list \<Rightarrow> log_entry list" where
  "passed f [] = []"
| "passed f (e # es) = (case log_Filter e f of (ok, f1) \<Rightarrow> if ok then e # passed f1 es else passed f1 es)"

abbreviation unix_second :: "log_entry \<Rightarrow> int" where "unix_second e \<equiv> le_Timestamp e div second"

abbreviation of_source :: "string \<Rightarrow> log_entry list \<Rightarrow> log_entry list" where
  "of_source s es \<equiv> filter (\<lambda>e. le_Source e = s) es"

lemma rate_step_room:
  assumes "rate_step limit now (tokens, filled) = (ok, tokens1, filled1)" and "0 \<le> tokens" and "0 \<le> limit" and "filled \<le> T" and "now \<le> T"
  shows "0 \<le> tokens1 \<and> filled1 \<le> T \<and> (if ok then 1 else 0) + tokens1 + (T - filled1) \<le> tokens + (T - filled)"
  using assms by (auto simp: rate_step_def Let_def split: if_splits)

lemma passed_known:
  assumes "rates s = Some (tokens, filled)" and "0 \<le> tokens" and "0 \<le> limit" and "filled \<le> T"
    and "\<forall>e \<in> set (of_source s es). unix_second e \<le> T"
  shows "int (length (of_source s (passed (RateLimitFilter rates limit) es))) \<le> tokens + (T - filled)"
  using assms
proof (induction es arbitrary: rates tokens filled)
  case (Cons e es)
  obtain ok b where st0: "rate_step limit (unix_second e) (case rates (le_Source e) of None \<Rightarrow> (limit, 0) | Some b \<Rightarrow> b) = (ok, b)"
    by (metis surj_pair)
  then have p: "rate_passes limit e rates = (ok, rates(le_Source e \<mapsto> b))" by (simp add: rate_passes_def)
  show ?case
  proof (cases "le_Source e = s")
    case False
    have "int (length (of_source s (passed (RateLimitFilter (rates(le_Source e \<mapsto> b)) limit) es))) \<le> tokens + (T - filled)"
      by (rule Cons.IH) (use Cons.prems False in auto)
    then show ?thesis using False p by (simp del: fun_upd_apply)
  next
    case True
    obtain tokens1 filled1 where b: "b = (tokens1, filled1)" by (cases b)
    have st: "rate_step limit (unix_second e) (tokens, filled) = (ok, tokens1, filled1)"
      using st0 True Cons.prems(1) b by simp
    have le: "unix_second e \<le> T" using Cons.prems(5) True by simp
    have r: "0 \<le> tokens1 \<and> filled1 \<le> T \<and> (if ok then 1 else 0) + tokens1 + (T - filled1) \<le> tokens + (T - filled)"
      by (rule rate_step_room[OF st Cons.prems(2,3,4) le])
    have "int (length (of_source s (passed (RateLimitFilter (rates(le_Source e \<mapsto> b)) limit) es))) \<le> tokens1 + (T - filled1)"
      by (rule Cons.IH) (use Cons.prems True b r in auto)
    then show ?thesis using True p r by (auto simp del: fun_upd_apply split: if_splits)
  qed
qed simp

lemma passed_new:
  assumes "rates s = None" and "0 \<le> limit" and "0 < t0" and "t0 \<le> T"
    and "\<forall>e \<in> set (of_source s es). t0 \<le> unix_second e \<and> unix_second e \<le> T"
  shows "int (length (of_source s (passed (RateLimitFilter rates limit) es))) \<le> limit + (T - t0)"
  using assms
proof (induction es arbitrary: rates)
  case (Cons e es)
  obtain ok b where st0: "rate_step limit (unix_second e) (case rates (le_Source e) of None \<Rightarrow> (limit, 0) | Some b \<Rightarrow> b) = (ok, b)"
    by (metis surj_pair)
  then have p: "rate_passes limit e rates = (ok, rates(le_Source e \<mapsto> b))" by (simp add: rate_passes_def)
  show ?case
  proof (cases "le_Source e = s")
    case False
    have "int (length (of_source s (passed (RateLimitFilter (rates(le_Source e \<mapsto> b)) limit) es))) \<le> limit + (T - t0)"
      by (rule Cons.IH) (use Cons.prems False in auto)
    then show ?thesis using False p by (simp del: fun_upd_apply)
  next
    case True
    let ?t = "unix_second e"
    have t: "t0 \<le> ?t" "?t \<le> T" using Cons.prems(5) True by auto
    have "rate_step limit ?t (limit, 0) = (ok, b)" using st0 True Cons.prems(1) by simp
    then have b: "b = (if limit > 0 then limit - 1 else limit, ?t) \<and> ok = (limit > 0)"
      using t Cons.prems(2,3) by (auto simp: rate_step_def Let_def split: if_splits)
    have "int (length (of_source s (passed (RateLimitFilter (rates(le_Source e \<mapsto> b)) limit) es))) \<le> (if limit > 0 then limit - 1 else limit) + (T - ?t)"
      by (rule passed_known) (use Cons.prems True b t in auto)
    then show ?thesis using True p b t by (auto simp del: fun_upd_apply split: if_splits)
  qed
qed simp

text \<open>
  C37: rate_filter_bound. Of the entries of one source whose times lie within some seconds, a fresh rate filter passes
  at most its limit and one for each of the seconds: the limit is the size of a burst, and not what passes in a second.
\<close>

theorem rate_filter_bound:
  assumes "0 \<le> limit" and "0 < t0" and "t0 \<le> T"
    and "\<forall>e \<in> set es. le_Source e = s \<longrightarrow> t0 \<le> unix_second e \<and> unix_second e \<le> T"
  shows "int (length (of_source s (passed (RateLimitFilter Map.empty limit) es))) \<le> limit + (T - t0)"
  using assms by (intro passed_new) auto

section \<open>The forwarder of a node\<close>

text \<open>
  Entries wait in a buffer for one goroutine; what finds it full is dropped.  \<open>fw_sent\<close> holds what was forwarded
  with the instant of it, \<open>fw_queued\<close> and \<open>fw_dropped\<close> what the loggers gave.
\<close>

datatype forwarder_mode = Forwarding | Draining | ForwarderEnded

record forwarder_conf =
  fc_nodeID :: string
  fc_log :: log_conf

definition NewLogForwarder :: "string \<Rightarrow> string \<Rightarrow> int \<Rightarrow> nat \<Rightarrow> forwarder_conf" where
  "NewLogForwarder nodeID pre maxLen bufsize =
     (let p = (if pre = '''' then ''crawler'' else pre)
      in \<lparr>fc_nodeID = nodeID,
         fc_log = \<lparr>lgc_streamKey = p @ '':logs:stream'', lgc_pubsubKey = p @ '':logs:pubsub'',
           lgc_maxLen = (if maxLen = 0 then 1000 else maxLen), lgc_bufferSize = (if bufsize = 0 then 100 else bufsize)\<rparr>\<rparr>)"

record 'r forwarder =
  fw_redis :: 'r
  fw_buffer :: "log_entry list"
  fw_mode :: forwarder_mode
  fw_stopped :: bool
  fw_sent :: "(gotime \<times> log_entry) list"
  fw_queued :: "log_entry list"
  fw_dropped :: "log_entry list"

text \<open>\<open>arg\<close> is the client's text of a value, which some values do not have; fields that do not marshal are empty text.\<close>

definition forward_values :: "log_codec \<Rightarrow> (goval \<Rightarrow> string option) \<Rightarrow> log_entry \<Rightarrow> (string \<times> string) list option" where
  "forward_values J arg e =
     (let base = [(''timestamp'', dec_of_int (le_Timestamp e div milli)), (''level'', level_String (le_Level e)),
                  (''source'', le_Source e), (''message'', le_Message e)];
          fs = (if le_Fields e \<noteq> [] then [(''fields'', case lc_fields J (le_Fields e) of None \<Rightarrow> '''' | Some t \<Rightarrow> t)] else [])
      in case map_of (le_Fields e) ''task_id'' of
           None \<Rightarrow> Some (base @ fs)
         | Some v \<Rightarrow> map_option (\<lambda>t. base @ [(''task_id'', t)] @ fs) (arg v))"

definition forward_entry :: "'r log_redis \<Rightarrow> log_codec \<Rightarrow> (goval \<Rightarrow> string option) \<Rightarrow> forwarder_conf \<Rightarrow> gotime \<Rightarrow> log_entry \<Rightarrow> 'r \<Rightarrow> 'r" where
  "forward_entry R J arg c now e r =
     (let e1 = (if le_ID e = '''' then e\<lparr>le_ID := fc_nodeID c @ ''-'' @ dec_of_int now\<rparr> else e)
      in case forward_values J arg e1 of
           None \<Rightarrow> r
         | Some vs \<Rightarrow> (case lr_XAdd R (lgc_streamKey (fc_log c)) (lgc_maxLen (fc_log c)) vs r of
               (False, r1) \<Rightarrow> r1
             | (True, r1) \<Rightarrow> snd (lr_Publish R (lgc_pubsubKey (fc_log c)) (case lc_entry J e1 of None \<Rightarrow> '''' | Some t \<Rightarrow> t) r1)))"

definition forwarder_put :: "forwarder_conf \<Rightarrow> log_entry \<Rightarrow> 'r forwarder \<Rightarrow> 'r forwarder" where
  "forwarder_put c e f =
     (if length (fw_buffer f) < lgc_bufferSize (fc_log c) then f\<lparr>fw_buffer := fw_buffer f @ [e], fw_queued := fw_queued f @ [e]\<rparr>
      else f\<lparr>fw_dropped := fw_dropped f @ [e]\<rparr>)"

definition lf_Log :: "forwarder_conf \<Rightarrow> gotime \<Rightarrow> string \<Rightarrow> string \<Rightarrow> (string \<times> goval) list \<Rightarrow> 'r forwarder \<Rightarrow> 'r forwarder" where
  "lf_Log c now level msg flds f = forwarder_put c
     \<lparr>le_ID = '''', le_Timestamp = now, le_Level = ParseLevel level, le_Source = fc_nodeID c, le_Message = msg, le_Fields = flds\<rparr> f"

definition LogWithTask :: "forwarder_conf \<Rightarrow> gotime \<Rightarrow> string \<Rightarrow> string \<Rightarrow> string \<Rightarrow> (string \<times> goval) list \<Rightarrow> 'r forwarder \<Rightarrow> 'r forwarder" where
  "LogWithTask c now taskID level msg flds f = lf_Log c now level msg (AList.update ''task_id'' (GStr taskID) flds) f"

text \<open>A record of slog: its level is a number, of which four are known.\<close>

definition slog_level :: "int \<Rightarrow> int" where
  "slog_level l = (if l = -4 then 0 else if l = 0 then 1 else if l = 4 then 2 else if l = 8 then 3 else 1)"

definition slog_Handle :: "forwarder_conf \<Rightarrow> (string \<times> goval) list \<Rightarrow> gotime \<Rightarrow> int \<Rightarrow> string \<Rightarrow> (string \<times> goval) list \<Rightarrow> 'r forwarder \<Rightarrow> 'r forwarder" where
  "slog_Handle c attrs now level msg rattrs f = forwarder_put c
     \<lparr>le_ID = '''', le_Timestamp = now, le_Level = slog_level level, le_Source = fc_nodeID c, le_Message = msg,
      le_Fields = fold (\<lambda>(k, v). AList.update k v) (attrs @ rattrs) []\<rparr> f"

definition forwarder_take :: "'r log_redis \<Rightarrow> log_codec \<Rightarrow> (goval \<Rightarrow> string option) \<Rightarrow> forwarder_conf \<Rightarrow> gotime \<Rightarrow> 'r forwarder \<Rightarrow> 'r forwarder" where
  "forwarder_take R J arg c now f = (case fw_buffer f of
       [] \<Rightarrow> f
     | e # es \<Rightarrow> f\<lparr>fw_buffer := es, fw_redis := forward_entry R J arg c now e (fw_redis f), fw_sent := fw_sent f @ [(now, e)]\<rparr>)"

inductive forwarder_step :: "'r log_redis \<Rightarrow> log_codec \<Rightarrow> (goval \<Rightarrow> string option) \<Rightarrow> forwarder_conf \<Rightarrow> 'r forwarder \<Rightarrow> 'r forwarder \<Rightarrow> bool"
  for R :: "'r log_redis" and J arg c where
  fw_log: "forwarder_step R J arg c f (lf_Log c now level msg flds f)"
| fw_log_task: "forwarder_step R J arg c f (LogWithTask c now tid level msg flds f)"
| fw_handle: "forwarder_step R J arg c f (slog_Handle c attrs now lvl msg rattrs f)"
| fw_take: "fw_mode f = Forwarding \<Longrightarrow> fw_buffer f \<noteq> [] \<Longrightarrow> forwarder_step R J arg c f (forwarder_take R J arg c now f)"
| fw_Stop: "\<not> fw_stopped f \<Longrightarrow> forwarder_step R J arg c f (f\<lparr>fw_stopped := True\<rparr>)"
| fw_stop_seen: "fw_mode f = Forwarding \<Longrightarrow> fw_stopped f \<Longrightarrow> forwarder_step R J arg c f (f\<lparr>fw_mode := Draining\<rparr>)"
| fw_drain: "fw_mode f = Draining \<Longrightarrow> fw_buffer f \<noteq> [] \<Longrightarrow> forwarder_step R J arg c f (forwarder_take R J arg c now f)"
| fw_drained: "fw_mode f = Draining \<Longrightarrow> fw_buffer f = [] \<Longrightarrow> forwarder_step R J arg c f (f\<lparr>fw_mode := ForwarderEnded\<rparr>)"
| fw_cancelled: "fw_mode f = Forwarding \<Longrightarrow> forwarder_step R J arg c f (f\<lparr>fw_mode := ForwarderEnded\<rparr>)"

definition new_forwarder :: "'r \<Rightarrow> 'r forwarder" where
  "new_forwarder r = \<lparr>fw_redis = r, fw_buffer = [], fw_mode = Forwarding, fw_stopped = False, fw_sent = [], fw_queued = [], fw_dropped = []\<rparr>"

definition forwarder_good :: "'r log_redis \<Rightarrow> log_codec \<Rightarrow> (goval \<Rightarrow> string option) \<Rightarrow> forwarder_conf \<Rightarrow> 'r \<Rightarrow> 'r forwarder \<Rightarrow> bool" where
  "forwarder_good R J arg c r0 f \<longleftrightarrow>
     fw_redis f = fold (\<lambda>(now, e). forward_entry R J arg c now e) (fw_sent f) r0 \<and>
     map snd (fw_sent f) @ fw_buffer f = fw_queued f \<and> length (fw_buffer f) \<le> lgc_bufferSize (fc_log c) \<and>
     (fw_mode f = Draining \<longrightarrow> fw_stopped f)"

lemma put_good: "forwarder_good R J arg c r0 f \<Longrightarrow> forwarder_good R J arg c r0 (forwarder_put c e f)"
  by (auto simp: forwarder_good_def forwarder_put_def)

lemma fw_take_good: "forwarder_good R J arg c r0 f \<Longrightarrow> forwarder_good R J arg c r0 (forwarder_take R J arg c now f)"
  by (auto simp: forwarder_good_def forwarder_take_def split: list.split)

lemma forwarder_conserves:
  assumes "(forwarder_step R J arg c)\<^sup>*\<^sup>* (new_forwarder r0) f"
  shows "forwarder_good R J arg c r0 f"
  using assms
proof (induction rule: rtranclp_induct)
  case base
  show ?case by (simp add: forwarder_good_def new_forwarder_def)
next
  case (step f f1)
  from step(2,3) show ?case
    by cases (auto simp: put_good fw_take_good lf_Log_def LogWithTask_def slog_Handle_def, auto simp: forwarder_good_def)
qed

text \<open>A forwarder that ended because it was stopped, and not because its context was, has forwarded its buffer.\<close>

lemma drained_empty:
  assumes "forwarder_step R J arg c f f1" and "fw_mode f = Draining" and "fw_mode f1 = ForwarderEnded"
  shows "fw_buffer f1 = []"
  using assms by cases (auto simp: lf_Log_def LogWithTask_def slog_Handle_def forwarder_put_def forwarder_take_def split: if_splits list.splits)

subsection \<open>Attributes in shared arrays\<close>

text \<open>
  A slice is a part of an array that others may see; \<open>append\<close> writes into the array while there is room, and else
  into a larger copy.  The arrays are numbered, and \<open>grow\<close> is the capacity of a copy.
\<close>

record slice =
  sc_array :: nat
  sc_len :: nat

definition slice_list :: "(nat \<Rightarrow> 'a list) \<Rightarrow> slice \<Rightarrow> 'a list" where
  "slice_list arrays s = take (sc_len s) (arrays (sc_array s))"

definition slice_append :: "(nat \<Rightarrow> nat) \<Rightarrow> 'a \<Rightarrow> nat \<Rightarrow> slice \<Rightarrow> 'a list \<Rightarrow> (nat \<Rightarrow> 'a list) \<Rightarrow> slice \<times> (nat \<Rightarrow> 'a list)" where
  "slice_append grow blank fresh s xs arrays =
     (let a = arrays (sc_array s); n = sc_len s + length xs
      in if n \<le> length a then (\<lparr>sc_array = sc_array s, sc_len = n\<rparr>, arrays(sc_array s := take (sc_len s) a @ xs @ drop n a))
         else (\<lparr>sc_array = fresh, sc_len = n\<rparr>, arrays(fresh := take (sc_len s) a @ xs @ replicate (grow n - n) blank)))"

record slog_handler =
  sh_attrs :: slice
  sh_groups :: slice

definition WithAttrs :: "(nat \<Rightarrow> nat) \<Rightarrow> 'a \<Rightarrow> nat \<Rightarrow> 'a list \<Rightarrow> slog_handler \<Rightarrow> (nat \<Rightarrow> 'a list) \<Rightarrow> slog_handler \<times> (nat \<Rightarrow> 'a list)" where
  "WithAttrs grow blank fresh attrs h arrays =
     (case slice_append grow blank fresh (sh_attrs h) attrs arrays of (s, arrays1) \<Rightarrow> (h\<lparr>sh_attrs := s\<rparr>, arrays1))"

definition WithGroup :: "(nat \<Rightarrow> nat) \<Rightarrow> nat \<Rightarrow> string \<Rightarrow> slog_handler \<Rightarrow> (nat \<Rightarrow> string list) \<Rightarrow> slog_handler \<times> (nat \<Rightarrow> string list)" where
  "WithGroup grow fresh name h arrays =
     (case slice_append grow '''' fresh (sh_groups h) [name] arrays of (s, arrays1) \<Rightarrow> (h\<lparr>sh_groups := s\<rparr>, arrays1))"

text \<open>Two handlers made from one whose array has room share the array: the second one's attributes replace the first one's.\<close>

lemma siblings_share:
  assumes "sc_len (sh_attrs h) + length xs \<le> length (arrays (sc_array (sh_attrs h)))" and "length ys = length xs"
    and "WithAttrs grow blank fresh xs h arrays = (h1, arrays1)" and "WithAttrs grow blank fresh' ys h arrays1 = (h2, arrays2)"
  shows "slice_list arrays1 (sh_attrs h1) = slice_list arrays (sh_attrs h) @ xs \<and>
    slice_list arrays2 (sh_attrs h1) = slice_list arrays (sh_attrs h) @ ys"
proof -
  let ?A = "sc_array (sh_attrs h)" and ?n = "sc_len (sh_attrs h)"
  let ?a = "arrays ?A"
  let ?b = "take ?n ?a @ xs @ drop (?n + length xs) ?a"
  have 1: "h1 = h\<lparr>sh_attrs := \<lparr>sc_array = ?A, sc_len = ?n + length xs\<rparr>\<rparr>" "arrays1 = arrays(?A := ?b)"
    using assms(1,3) by (auto simp: WithAttrs_def slice_append_def Let_def)
  have b: "length ?b = length ?a" "take ?n ?b = take ?n ?a" using assms(1) by simp_all
  have "slice_append grow blank fresh' (sh_attrs h) ys arrays1 =
      (\<lparr>sc_array = ?A, sc_len = ?n + length ys\<rparr>, arrays1(?A := take ?n ?b @ ys @ drop (?n + length ys) ?b))"
    unfolding slice_append_def Let_def 1(2) fun_upd_same b(1) using assms(1,2) by simp
  then have 2: "arrays2 ?A = take ?n ?a @ ys @ drop (?n + length ys) ?b" using assms(4) b(2) by (auto simp: WithAttrs_def)
  show ?thesis using assms(1,2) unfolding slice_list_def 1 2 by (simp add: 2)
qed

section \<open>Subscriptions\<close>

text \<open>The listener of the channel is started by the first subscription, and only while there has never been one.\<close>

datatype listener = NotStarted | Listening | ListenerClosed

record 'h subscriptions =
  su_handlers :: "string \<rightharpoonup> 'h"
  su_pubsub :: listener

definition log_Subscribe :: "gotime \<Rightarrow> 'h \<Rightarrow> 'h subscriptions \<Rightarrow> 'h subscriptions" where
  "log_Subscribe now h s = s\<lparr>su_handlers := (su_handlers s)(''sub-'' @ dec_of_int now \<mapsto> h),
     su_pubsub := (if su_pubsub s = NotStarted then Listening else su_pubsub s)\<rparr>"

definition subscriber_cancelled :: "gotime \<Rightarrow> 'h subscriptions \<Rightarrow> 'h subscriptions" where
  "subscriber_cancelled now s = s\<lparr>su_handlers := (su_handlers s)(''sub-'' @ dec_of_int now := None)\<rparr>"

definition log_Unsubscribe :: "'h subscriptions \<Rightarrow> bool \<times> 'h subscriptions" where
  "log_Unsubscribe s = (case su_pubsub s of
       NotStarted \<Rightarrow> (True, s)
     | Listening \<Rightarrow> (True, s\<lparr>su_pubsub := ListenerClosed\<rparr>)
     | ListenerClosed \<Rightarrow> (False, s))"

definition notifySubscribers :: "string list \<Rightarrow> log_entry \<Rightarrow> 'h subscriptions \<Rightarrow> ('h \<times> log_entry) list" where
  "notifySubscribers order e s = List.map_filter (\<lambda>k. map_option (\<lambda>h. (h, e)) (su_handlers s k)) order"

definition handlePubSub :: "log_codec \<Rightarrow> string list \<Rightarrow> string \<Rightarrow> 'h subscriptions \<Rightarrow> ('h \<times> log_entry) list" where
  "handlePubSub J order payload s = (if su_pubsub s \<noteq> Listening then [] else case lc_read_entry J payload of
       None \<Rightarrow> [] | Some e \<Rightarrow> notifySubscribers order e s)"

text \<open>A message reaches every subscriber once; after \<open>Unsubscribe\<close> no later subscriber hears anything.\<close>

lemma subscriber_hears:
  assumes "su_pubsub s = Listening" and "lc_read_entry J payload = Some e" and "set order = dom (su_handlers s)" and "distinct order"
  shows "su_handlers s k = Some h \<Longrightarrow> (h, e) \<in> set (handlePubSub J order payload s)"
    and "length (handlePubSub J order payload s) = card (dom (su_handlers s))"
proof -
  have "k \<in> set order" if "su_handlers s k = Some h" using that assms(3) by auto
  then show "su_handlers s k = Some h \<Longrightarrow> (h, e) \<in> set (handlePubSub J order payload s)"
    using assms(1,2) by (force simp: handlePubSub_def notifySubscribers_def List.map_filter_def)
  have "filter (\<lambda>k. map_option (\<lambda>h. (h, e)) (su_handlers s k) \<noteq> None) order = order"
    using assms(3) by (auto simp: filter_id_conv)
  then show "length (handlePubSub J order payload s) = card (dom (su_handlers s))"
    using assms by (simp add: handlePubSub_def notifySubscribers_def List.map_filter_def distinct_card [symmetric])
qed

lemma resubscribed_silent:
  assumes "su_pubsub s = Listening" and "log_Unsubscribe s = (ok, s1)"
  shows "ok \<and> handlePubSub J order payload (log_Subscribe now h s1) = []"
  using assms by (auto simp: log_Unsubscribe_def log_Subscribe_def handlePubSub_def)

lemma same_instant_subscription:
  "su_handlers (log_Subscribe now h2 (log_Subscribe now h1 s)) = (su_handlers s)(''sub-'' @ dec_of_int now \<mapsto> h2)"
  by (simp add: log_Subscribe_def)

section \<open>What reads and writes do not do\<close>

text \<open>The search finds a text at the beginning of a message only.\<close>

lemma search_is_prefix:
  "read_keeps ((newest n)\<lparr>ro_Search := ''timeout''\<rparr>) (blank_entry\<lparr>le_Message := ''connection timeout''\<rparr>) = False"
  by (simp add: read_keeps_def newest_def blank_entry_def HasPrefix_def)

text \<open>An entry that finds the buffer full is in Redis before those that wait in it.\<close>

lemma direct_overtakes:
  assumes "length (rs_buffer s) = lgc_bufferSize c"
  shows "rs_sent (snd (store_Write R J c e s)) = rs_sent s @ [(True, e)] \<and> rs_buffer (snd (store_Write R J c e s)) = rs_buffer s"
  using assms by (auto simp: store_Write_def split: prod.split)

lemma zero_is_not_unlimited: "lgc_maxLen (redis_log_conf k p 0 n) = 1000"
  by (simp add: redis_log_conf_def)

section \<open>An example\<close>

text \<open>A stream in memory that is never cut.\<close>

definition mem_stream :: "(string \<times> string) list list log_redis" where
  "mem_stream = \<lparr>lr_XAdd = (\<lambda>k m vs r. (True, r @ [vs])), lr_Publish = (\<lambda>ch t r. (True, r)),
     lr_Range = (\<lambda>k start stop asc r. Some (if asc then r else rev r))\<rparr>"

definition plain_codec :: log_codec where
  "plain_codec = \<lparr>lc_fields = (\<lambda>f. if f = [] then Some ''{}'' else None), lc_read_fields = (\<lambda>t. if t = ''{}'' then Some [] else None),
     lc_entry = (\<lambda>e. None), lc_read_entry = (\<lambda>t. None)\<rparr>"

lemma mem_stream_laws: "stream_laws mem_stream k (\<lambda>r. r)"
  by (auto simp: stream_laws_def mem_stream_def)

lemma plain_codec_kept: "fields_kept plain_codec"
  by (simp add: fields_kept_def plain_codec_def)

definition sample_log :: log_entry where
  "sample_log = blank_entry\<lparr>le_Timestamp := 5 * second, le_Level := 3, le_Message := ''disk full''\<rparr>"

abbreviation sample_log_conf :: log_conf where "sample_log_conf \<equiv> redis_log_conf '''' '''' 0 0"

definition sample_log_run :: "(string \<times> string) list list redis_store" where
  "sample_log_run = loop_tick mem_stream plain_codec sample_log_conf (loop_take mem_stream plain_codec sample_log_conf
     (snd (store_Write mem_stream plain_codec sample_log_conf sample_log (NewRedisStore []))))"

lemma sample_log_sent: "rs_sent sample_log_run = [(False, sample_log)]"
  by (simp add: sample_log_run_def store_Write_def NewRedisStore_def loop_take_def loop_tick_def flush_batch_def redis_log_conf_def)

lemma sample_log_reach:
  "(store_step mem_stream plain_codec sample_log_conf)\<^sup>*\<^sup>* (NewRedisStore []) sample_log_run"
proof -
  let ?st = "store_step mem_stream plain_codec sample_log_conf"
  let ?s1 = "snd (store_Write mem_stream plain_codec sample_log_conf sample_log (NewRedisStore []))"
  let ?s2 = "loop_take mem_stream plain_codec sample_log_conf ?s1"
  have s1: "rs_running ?s1" "rs_buffer ?s1 \<noteq> []" by (simp_all add: store_Write_def NewRedisStore_def redis_log_conf_def)
  have "?st (NewRedisStore []) ?s1" by (rule written)
  moreover have "?st ?s1 ?s2" by (rule taken[OF s1])
  moreover have "?st ?s2 sample_log_run" unfolding sample_log_run_def
    by (rule ticked) (use s1(1) in \<open>simp add: loop_take_def flush_batch_def Let_def split: list.split\<close>)
  ultimately show ?thesis by (meson converse_rtranclp_into_rtranclp rtranclp.rtrancl_refl)
qed

lemma log_tail_witness:
  "log_Read mem_stream plain_codec sample_log_conf 0 (newest 10) (rs_redis sample_log_run) = Some [kept_entry plain_codec sample_log]"
proof -
  have "\<forall>(b, e) \<in> set (rs_sent sample_log_run). has_stamp e"
    by (simp add: sample_log_sent has_stamp_def sample_log_def)
  from log_tail[OF sample_log_reach mem_stream_laws refl plain_codec_kept this, of 10 0]
  show ?thesis by (simp add: sample_log_sent redis_log_conf_def)
qed

lemma log_store_conserves_witness:
  "rs_redis sample_log_run = writeBatch mem_stream plain_codec sample_log_conf [sample_log] [] \<and> rs_queued sample_log_run = [sample_log] @ rs_batch sample_log_run @ rs_buffer sample_log_run"
  using log_store_conserves[OF sample_log_reach] by (simp add: sample_log_sent)

lemma rate_filter_bound_witness:
  "int (length (of_source '''' (passed (RateLimitFilter Map.empty 2) (replicate 9 sample_log)))) \<le> 2"
  using rate_filter_bound[of 2 5 5 "replicate 9 sample_log" "[]"] by (simp add: sample_log_def blank_entry_def)

end
