(* ===== verification/Compression.thy ===== *)
theory Compression
  imports GoText "HOL-Library.AList"
begin

text \<open>
  The compressor of crawler data (src/crawler/compression/compressor.go) and the optimizer that uses it in front of
  Redis and MongoDB (src/crawler/compression/storage_optimizer.go).  The formats themselves (gzip, zlib, zstd,
  MessagePack, JSON) are arguments with the law that decoding undoes encoding.
\<close>

section \<open>The formats\<close>

type_synonym bytes = "8 word list"

text \<open>A level that gzip or zlib do not know is an error of the encoder.\<close>

record ('v) formats =
  cf_gzip :: "int \<Rightarrow> bytes \<Rightarrow> bytes option"
  cf_gunzip :: "bytes \<Rightarrow> bytes option"
  cf_zlib :: "int \<Rightarrow> bytes \<Rightarrow> bytes option"
  cf_unzlib :: "bytes \<Rightarrow> bytes option"
  cf_zstd :: "int \<Rightarrow> bytes \<Rightarrow> bytes"
  cf_unzstd :: "bytes \<Rightarrow> bytes option"
  cf_json :: "'v \<Rightarrow> bytes option"
  cf_unjson :: "bytes \<Rightarrow> 'v option"
  cf_msgpack :: "'v \<Rightarrow> bytes option"
  cf_unmsgpack :: "bytes \<Rightarrow> 'v option"

text \<open>An operation gives a value, an error, or uses a decoder that is nil.\<close>

datatype 'a packed = Packed 'a | PackError | NilDecoder

definition packed_of :: "'a option \<Rightarrow> 'a packed" where
  "packed_of r = (case r of None \<Rightarrow> PackError | Some v \<Rightarrow> Packed v)"

abbreviation CompressionNone :: "8 word" where "CompressionNone \<equiv> 0"
abbreviation CompressionGzip :: "8 word" where "CompressionGzip \<equiv> 1"
abbreviation CompressionZlib :: "8 word" where "CompressionZlib \<equiv> 2"
abbreviation CompressionZstd :: "8 word" where "CompressionZstd \<equiv> 3"
abbreviation CompressionMsgpack :: "8 word" where "CompressionMsgpack \<equiv> 4"
abbreviation CompressionMsgpackZstd :: "8 word" where "CompressionMsgpackZstd \<equiv> 5"

section \<open>The compressor\<close>

text \<open>The encoder and the decoder of zstd are there together; \<open>cr_encoder\<close> is the level the encoder was made with.\<close>

record compressor =
  cr_type :: "8 word"
  cr_level :: int
  cr_encoder :: "int option"

definition needs_zstd :: "8 word \<Rightarrow> bool" where
  "needs_zstd t \<longleftrightarrow> t = CompressionZstd \<or> t = CompressionMsgpackZstd"

definition NewCompressor :: "8 word \<Rightarrow> int \<Rightarrow> compressor" where
  "NewCompressor t level = \<lparr>cr_type = t, cr_level = level, cr_encoder = (if needs_zstd t then Some level else None)\<rparr>"

definition zstd_encode :: "'v formats \<Rightarrow> compressor \<Rightarrow> bytes \<Rightarrow> bytes packed" where
  "zstd_encode F c data = (case cr_encoder c of None \<Rightarrow> NilDecoder | Some l \<Rightarrow> Packed (cf_zstd F l data))"

definition decompressZstd :: "'v formats \<Rightarrow> compressor \<Rightarrow> bytes \<Rightarrow> bytes packed" where
  "decompressZstd F c data = (if cr_encoder c = None then NilDecoder else packed_of (cf_unzstd F data))"

definition with_header :: "8 word \<Rightarrow> bytes packed \<Rightarrow> bytes packed" where
  "with_header t p = (case p of Packed d \<Rightarrow> Packed (t # d) | e \<Rightarrow> e)"

text \<open>Data that is JSON is stored as MessagePack, other data as it is.\<close>

definition as_msgpack :: "'v formats \<Rightarrow> bytes \<Rightarrow> bytes packed" where
  "as_msgpack F data = (case cf_unjson F data of None \<Rightarrow> Packed data | Some v \<Rightarrow> packed_of (cf_msgpack F v))"

definition compressGzip :: "'v formats \<Rightarrow> compressor \<Rightarrow> bytes \<Rightarrow> bytes packed" where
  [simp]: "compressGzip F c data = packed_of (cf_gzip F (cr_level c) data)"

definition compressZlib :: "'v formats \<Rightarrow> compressor \<Rightarrow> bytes \<Rightarrow> bytes packed" where
  [simp]: "compressZlib F c data = packed_of (cf_zlib F (cr_level c) data)"

definition decompressGzip :: "'v formats \<Rightarrow> bytes \<Rightarrow> bytes packed" where
  [simp]: "decompressGzip F data = packed_of (cf_gunzip F data)"

definition decompressZlib :: "'v formats \<Rightarrow> bytes \<Rightarrow> bytes packed" where
  [simp]: "decompressZlib F data = packed_of (cf_unzlib F data)"

definition compressMsgpackZstd :: "'v formats \<Rightarrow> compressor \<Rightarrow> bytes \<Rightarrow> bytes packed" where
  [simp]: "compressMsgpackZstd F c data = (case as_msgpack F data of Packed d \<Rightarrow> zstd_encode F c d | e \<Rightarrow> e)"

definition pack_body :: "'v formats \<Rightarrow> compressor \<Rightarrow> bytes \<Rightarrow> bytes packed" where
  "pack_body F c data =
     (if cr_type c = CompressionNone then Packed data
      else if cr_type c = CompressionGzip then compressGzip F c data
      else if cr_type c = CompressionZlib then compressZlib F c data
      else if cr_type c = CompressionZstd then zstd_encode F c data
      else if cr_type c = CompressionMsgpack then as_msgpack F data
      else if cr_type c = CompressionMsgpackZstd then compressMsgpackZstd F c data
      else PackError)"

definition Compress :: "'v formats \<Rightarrow> compressor \<Rightarrow> bytes \<Rightarrow> bytes packed" where
  "Compress F c data = (if data = [] then Packed data else with_header (cr_type c) (pack_body F c data))"

definition CompressJSON :: "'v formats \<Rightarrow> compressor \<Rightarrow> 'v \<Rightarrow> bytes packed" where
  "CompressJSON F c v =
     (if cr_type c = CompressionMsgpack \<or> cr_type c = CompressionMsgpackZstd
      then (case cf_msgpack F v of
          None \<Rightarrow> PackError
        | Some data \<Rightarrow> with_header (cr_type c) (if cr_type c = CompressionMsgpackZstd then zstd_encode F c data else Packed data))
      else (case cf_json F v of None \<Rightarrow> PackError | Some data \<Rightarrow> Compress F c data))"

definition unpack_body :: "'v formats \<Rightarrow> compressor \<Rightarrow> 8 word \<Rightarrow> bytes \<Rightarrow> bytes packed" where
  "unpack_body F c t data =
     (if t = CompressionNone then Packed data
      else if t = CompressionGzip then decompressGzip F data
      else if t = CompressionZlib then decompressZlib F data
      else if t = CompressionZstd then decompressZstd F c data
      else if t = CompressionMsgpack then Packed data
      else if t = CompressionMsgpackZstd then decompressZstd F c data
      else PackError)"

definition Decompress :: "'v formats \<Rightarrow> compressor \<Rightarrow> bytes \<Rightarrow> bytes packed" where
  "Decompress F c data = (case data of [] \<Rightarrow> Packed [] | t # body \<Rightarrow> unpack_body F c t body)"

definition DecompressJSON :: "'v formats \<Rightarrow> compressor \<Rightarrow> bytes \<Rightarrow> 'v packed" where
  "DecompressJSON F c data = (case data of
       [] \<Rightarrow> PackError
     | t # body \<Rightarrow>
         if t = CompressionMsgpack then packed_of (cf_unmsgpack F body)
         else if t = CompressionMsgpackZstd then
           (case decompressZstd F c body of Packed d \<Rightarrow> packed_of (cf_unmsgpack F d) | PackError \<Rightarrow> PackError | NilDecoder \<Rightarrow> NilDecoder)
         else (case Decompress F c (t # body) of Packed d \<Rightarrow> packed_of (cf_unjson F d) | PackError \<Rightarrow> PackError | NilDecoder \<Rightarrow> NilDecoder))"

section \<open>Choosing a format\<close>

text \<open>
  The ratios are floats: \<open>ratio n m\<close> is the ratio of \<open>m\<close> bytes to \<open>n\<close>, \<open>gt\<close> their comparison and \<open>nought\<close> zero.  A
  format whose compressor fails has no ratio.
\<close>

definition estimated :: "(string \<times> 8 word) list" where
  "estimated = [(''gzip'', CompressionGzip), (''zlib'', CompressionZlib), (''zstd'', CompressionZstd),
     (''msgpack'', CompressionMsgpack), (''msgpack+zstd'', CompressionMsgpackZstd)]"

definition EstimateCompressionRatio :: "'v formats \<Rightarrow> (nat \<Rightarrow> nat \<Rightarrow> 'f) \<Rightarrow> bytes \<Rightarrow> string \<rightharpoonup> 'f" where
  "EstimateCompressionRatio F ratio data = fold (\<lambda>(name, t) m. case Compress F (NewCompressor t 5) data of
       Packed d \<Rightarrow> m(name \<mapsto> ratio (length data) (length d))
     | _ \<Rightarrow> m) estimated Map.empty"

definition best_type :: "('f \<Rightarrow> 'f \<Rightarrow> bool) \<Rightarrow> 'f \<Rightarrow> string list \<Rightarrow> (string \<rightharpoonup> 'f) \<Rightarrow> 8 word \<Rightarrow> 8 word" where
  "best_type gt nought order ratios t0 =
     fst (fold (\<lambda>name (t, best). case ratios name of
         Some r \<Rightarrow> if gt r best then (case map_of estimated name of Some u \<Rightarrow> u | None \<Rightarrow> t, r) else (t, best)
       | None \<Rightarrow> (t, best)) order (t0, nought))"

section \<open>What decompression gives back\<close>

definition formats_ok :: "'v formats \<Rightarrow> bool" where
  "formats_ok F \<longleftrightarrow>
     (\<forall>l d z. cf_gzip F l d = Some z \<longrightarrow> cf_gunzip F z = Some d) \<and>
     (\<forall>l d z. cf_zlib F l d = Some z \<longrightarrow> cf_unzlib F z = Some d) \<and>
     (\<forall>l d. cf_unzstd F (cf_zstd F l d) = Some d) \<and>
     (\<forall>v d. cf_json F v = Some d \<longrightarrow> d \<noteq> [] \<and> cf_unjson F d = Some v) \<and>
     (\<forall>v d. cf_msgpack F v = Some d \<longrightarrow> cf_unmsgpack F d = Some v)"

lemma formats_okD:
  assumes "formats_ok F"
  shows "cf_gzip F l d = Some z \<Longrightarrow> cf_gunzip F z = Some d" and "cf_zlib F l d = Some z \<Longrightarrow> cf_unzlib F z = Some d"
    and "cf_unzstd F (cf_zstd F l d) = Some d" and "cf_json F v = Some d \<Longrightarrow> d \<noteq> []" and "cf_json F v = Some d \<Longrightarrow> cf_unjson F d = Some v"
    and "cf_msgpack F v = Some d \<Longrightarrow> cf_unmsgpack F d = Some v"
  using assms unfolding formats_ok_def by blast+

text \<open>A compressor can read what was written with type \<open>t\<close> when it has a decoder or the type does not need one.\<close>

definition can_read :: "compressor \<Rightarrow> 8 word \<Rightarrow> bool" where
  "can_read c t \<longleftrightarrow> needs_zstd t \<longrightarrow> cr_encoder c \<noteq> None"

lemma NewCompressor_reads [simp]: "can_read (NewCompressor t l) t"
  by (simp add: can_read_def NewCompressor_def)

lemma unpack_pack:
  assumes F: "formats_ok F" and z: "pack_body F c data = Packed z" and r: "can_read c' (cr_type c)"
  shows "unpack_body F c' (cr_type c) z =
    (if cr_type c = CompressionMsgpack \<or> cr_type c = CompressionMsgpackZstd then as_msgpack F data else Packed data)"
proof -
  consider "cr_type c = 0" | "cr_type c = 1" | "cr_type c = 2" | "cr_type c = 3" | "cr_type c = 4" | "cr_type c = 5"
    using z unfolding pack_body_def by (auto split: if_splits)
  then show ?thesis
    using z r formats_okD[OF F]
    by cases (auto simp: pack_body_def unpack_body_def packed_of_def zstd_encode_def decompressZstd_def can_read_def needs_zstd_def
        split: option.splits packed.splits)
qed

lemma CompressJSON_read:
  assumes F: "formats_ok F" and r: "can_read c' (cr_type c)" and z: "CompressJSON F c v = Packed z"
  shows "DecompressJSON F c' z = Packed v"
proof (cases "cr_type c = CompressionMsgpack \<or> cr_type c = CompressionMsgpackZstd")
  case True
  then show ?thesis using z r formats_okD(3,6)[OF F]
    by (auto simp: CompressJSON_def DecompressJSON_def with_header_def zstd_encode_def decompressZstd_def can_read_def needs_zstd_def packed_of_def
        split: option.splits packed.splits)
next
  case False
  then obtain d where d: "cf_json F v = Some d" "Compress F c d = Packed z"
    using z by (auto simp: CompressJSON_def split: option.splits)
  then obtain b where b: "pack_body F c d = Packed b" "z = cr_type c # b"
    using formats_okD(4)[OF F] by (auto simp: Compress_def with_header_def split: packed.splits if_splits)
  then have "Decompress F c' z = Packed d" using unpack_pack[OF F b(1) r] False by (simp add: Decompress_def)
  then show ?thesis using False b(2) d(1) formats_okD(5)[OF F] by (simp add: DecompressJSON_def packed_of_def)
qed

text \<open>
  compress_roundtrip. What one compressor has made, any compressor that has the decoder for it opens: the bytes
  that went in, or with the two MessagePack types their MessagePack form, and a value that went in as itself.
\<close>

theorem compress_roundtrip:
  assumes F: "formats_ok F" and r: "can_read c' (cr_type c)"
  shows "(Compress F c data = Packed z \<longrightarrow> Decompress F c' z =
      (if data \<noteq> [] \<and> cr_type c \<in> {CompressionMsgpack, CompressionMsgpackZstd} then as_msgpack F data else Packed data)) \<and>
    (CompressJSON F c v = Packed z \<longrightarrow> DecompressJSON F c' z = Packed v)"
proof (intro conjI impI)
  assume z: "Compress F c data = Packed z"
  then show "Decompress F c' z =
      (if data \<noteq> [] \<and> cr_type c \<in> {CompressionMsgpack, CompressionMsgpackZstd} then as_msgpack F data else Packed data)"
    using unpack_pack[OF F _ r, of data]
    by (auto simp: Compress_def Decompress_def with_header_def split: packed.splits if_splits)
qed (rule CompressJSON_read[OF F r])

text \<open>A reader of another kind has no decoder, and stops on what a zstd writer wrote.\<close>

lemma foreign_type_kills:
  assumes "cr_type c = CompressionZstd" and "data \<noteq> []" and "Compress F c data = Packed z" and "\<not> needs_zstd t"
  shows "Decompress F (NewCompressor t l) z = NilDecoder"
  using assms by (auto simp: Compress_def with_header_def pack_body_def zstd_encode_def Decompress_def unpack_body_def decompressZstd_def
      NewCompressor_def split: option.splits)

section \<open>The checksum\<close>

text \<open>The sum of the words of four bytes, the last one filled with zeros.\<close>

definition le32 :: "8 word \<Rightarrow> 8 word \<Rightarrow> 8 word \<Rightarrow> 8 word \<Rightarrow> 32 word" where
  "le32 a b c d = ucast a + 256 * ucast b + 65536 * ucast c + 16777216 * ucast d"

fun calculateChecksum :: "bytes \<Rightarrow> 32 word" where
  "calculateChecksum (a # b # c # d # rest) = le32 a b c d + calculateChecksum rest"
| "calculateChecksum [] = 0"
| "calculateChecksum [a] = le32 a 0 0 0"
| "calculateChecksum [a, b] = le32 a b 0 0"
| "calculateChecksum [a, b, c] = le32 a b c 0"

record compressed_data =
  cd_Type :: "8 word"
  cd_OriginalSize :: "32 word"
  cd_Compressed :: bytes
  cd_Checksum :: "32 word"

definition WrapCompressed :: "bytes \<Rightarrow> 8 word \<Rightarrow> int \<Rightarrow> compressed_data" where
  "WrapCompressed data t n = \<lparr>cd_Type = t, cd_OriginalSize = of_int n, cd_Compressed = data, cd_Checksum = calculateChecksum data\<rparr>"

lemma four_dvd: "4 dvd Suc (Suc (Suc (Suc n))) \<longleftrightarrow> 4 dvd n" "\<not> 4 dvd Suc (Suc 0)" "\<not> 4 dvd Suc (Suc (Suc 0))"
  by presburger+

lemma checksum_append: "4 dvd length xs \<Longrightarrow> calculateChecksum (xs @ ys) = calculateChecksum xs + calculateChecksum ys"
  by (induction xs rule: calculateChecksum.induct) (auto simp: add.assoc four_dvd)

text \<open>It does not see the order of the words, nor zeros at the end.\<close>

lemma checksum_blind:
  assumes "4 dvd length xs" and "4 dvd length ys"
  shows "calculateChecksum (xs @ ys) = calculateChecksum (ys @ xs) \<and> calculateChecksum (xs @ [0, 0, 0]) = calculateChecksum xs"
  using assms by (simp add: checksum_append le32_def)

section \<open>Short keys\<close>

text \<open>
  A value of the documents that the optimizer works on.  \<open>DMap\<close> is Go's map of interfaces, \<open>DBson\<close> the driver's own
  type of map, which no type assertion for the former accepts; maps are lists in the order they are visited.
\<close>

datatype dval = DScalar goval | DMap "(string \<times> dval) list" | DList "dval list" | DBson "(string \<times> dval) list" | DBytes bytes

definition shortcuts :: "(string \<times> string) list" where
  "shortcuts = [(''task_id'', ''tid''), (''venue_id'', ''vid''), (''venue_name'', ''vn''), (''time_slot'', ''ts''), (''status'', ''s''),
     (''price'', ''p''), (''available'', ''a''), (''capacity'', ''c''), (''created_at'', ''ca''), (''updated_at'', ''ua''),
     (''source'', ''src''), (''metadata'', ''md''), (''error'', ''e''), (''result'', ''r''), (''data'', ''d'')]"

definition generateShortKey :: "string \<Rightarrow> (string \<times> string) list \<Rightarrow> string" where
  "generateShortKey key existing = (case map_of shortcuts (ToLower key) of
       Some s \<Rightarrow> s
     | None \<Rightarrow> if length key \<le> 3 then key else hd key # dec_of_nat (length existing))"

fun optimizeObject :: "dval \<Rightarrow> (string \<times> string) list \<Rightarrow> string \<Rightarrow> dval \<times> (string \<times> string) list"
  and optimizeFields :: "(string \<times> dval) list \<Rightarrow> (string \<times> dval) list \<Rightarrow> (string \<times> string) list \<Rightarrow> string \<Rightarrow> (string \<times> dval) list \<times> (string \<times> string) list"
  and optimizeItems :: "dval list \<Rightarrow> (string \<times> string) list \<Rightarrow> string \<Rightarrow> dval list \<times> (string \<times> string) list" where
  "optimizeObject (DMap kvs) km pre = (case optimizeFields kvs [] km pre of (kvs1, km1) \<Rightarrow> (DMap kvs1, km1))"
| "optimizeObject (DList vs) km pre = (case optimizeItems vs km pre of (vs1, km1) \<Rightarrow> (DList vs1, km1))"
| "optimizeObject v km pre = (v, km)"
| "optimizeFields [] acc km pre = (acc, km)"
| "optimizeFields (kv # kvs) acc km pre =
     (let short = generateShortKey (fst kv) km; full = pre @ fst kv
      in case optimizeObject (snd kv) (AList.update full short km) (full @ ''.'') of
           (v1, km1) \<Rightarrow> optimizeFields kvs (AList.update short v1 acc) km1 pre)"
| "optimizeItems [] km pre = ([], km)"
| "optimizeItems (v # vs) km pre = (case optimizeObject v km pre of (v1, km1) \<Rightarrow>
     case optimizeItems vs km1 pre of (vs1, km2) \<Rightarrow> (v1 # vs1, km2))"

text \<open>The keys \<open>alpha\<close> and \<open>alpine\<close> of the second object of a list get one short key: a value is lost.\<close>

lemma short_keys_collide:
  "optimizeObject (DList [DMap [(''alpha'', DScalar (GInt 1)), (''alpine'', DScalar (GInt 2))], DMap [(''alpha'', DScalar (GInt 3)), (''alpine'', DScalar (GInt 4))]]) [] '''' =
    (DList [DMap [(''a0'', DScalar (GInt 1)), (''a1'', DScalar (GInt 2))], DMap [(''a2'', DScalar (GInt 4))]],
     [(''alpha'', ''a2''), (''alpine'', ''a2'')])"
  by code_simp

text \<open>The result, the table of keys, and whether there was no error; text that is no object comes back as it was.\<close>

definition json_object :: "dval formats \<Rightarrow> bytes \<Rightarrow> (string \<times> dval) list option" where
  "json_object F data = (case cf_unjson F data of
       Some (DMap kvs) \<Rightarrow> Some kvs
     | Some (DScalar GNil) \<Rightarrow> Some []
     | _ \<Rightarrow> None)"

definition OptimizeJSONKeys :: "dval formats \<Rightarrow> bytes \<Rightarrow> bytes \<times> (string \<times> string) list \<times> bool" where
  "OptimizeJSONKeys F data = (case json_object F data of
       None \<Rightarrow> (data, [], False)
     | Some kvs \<Rightarrow> (case optimizeObject (DMap kvs) [] '''' of (v, km) \<Rightarrow>
         case cf_json F v of None \<Rightarrow> ([], km, False) | Some d \<Rightarrow> (d, km, True)))"

section \<open>The optimizer in front of Redis\<close>

record optimizer_config =
  oc_type :: "8 word"
  oc_level :: int
  oc_minSize :: nat
  oc_redisPrefix :: string
  oc_mongoCompression :: bool
  oc_compactKeys :: bool
  oc_autoSelect :: bool

record optimizer =
  op_compressor :: compressor
  op_config :: optimizer_config

definition NewStorageOptimizer :: "optimizer_config \<Rightarrow> optimizer" where
  "NewStorageOptimizer cfg = \<lparr>op_compressor = NewCompressor (oc_type cfg) (oc_level cfg), op_config = cfg\<rparr>"

text \<open>The commands of a pipeline; of the table of a value's sizes the ratio is left out.\<close>

datatype blob_cmd = BSet string bytes duration | BHSet string nat nat "8 word" | BExpire string duration

record 'r blob_redis =
  br_Set :: "string \<Rightarrow> bytes \<Rightarrow> duration \<Rightarrow> 'r \<Rightarrow> bool \<times> 'r"
  br_Exec :: "blob_cmd list \<Rightarrow> 'r \<Rightarrow> bool \<times> 'r"
  br_Get :: "string \<Rightarrow> 'r \<Rightarrow> bytes option"
  br_Keys :: "string \<Rightarrow> 'r \<Rightarrow> string list option"
  br_HGetAll :: "string \<Rightarrow> 'r \<Rightarrow> string \<rightharpoonup> string"

text \<open>How a ratio is computed and compared, and the order in which the map of them is visited.\<close>

record 'f ratio_env =
  re_ratio :: "nat \<Rightarrow> nat \<Rightarrow> 'f"
  re_gt :: "'f \<Rightarrow> 'f \<Rightarrow> bool"
  re_nought :: 'f
  re_order :: "string list"

definition selectBestCompression :: "dval formats \<Rightarrow> 'f ratio_env \<Rightarrow> bytes \<Rightarrow> optimizer \<Rightarrow> optimizer" where
  "selectBestCompression F E data so =
     (let t = best_type (re_gt E) (re_nought E) (re_order E) (EstimateCompressionRatio F (re_ratio E) data) (oc_type (op_config so))
      in if t \<noteq> cr_type (op_compressor so) then so\<lparr>op_compressor := NewCompressor t (oc_level (op_config so))\<rparr> else so)"

definition meta_key :: "optimizer \<Rightarrow> string \<Rightarrow> string" where
  "meta_key so key = oc_redisPrefix (op_config so) @ '':meta:'' @ key"

definition OptimizedRedisSet :: "dval formats \<Rightarrow> 'f ratio_env \<Rightarrow> 'r blob_redis \<Rightarrow> optimizer \<Rightarrow> string \<Rightarrow> dval \<Rightarrow> duration \<Rightarrow> 'r \<Rightarrow> bool packed \<times> optimizer \<times> 'r" where
  "OptimizedRedisSet F E R so key v ttl r = (case cf_json F v of
       None \<Rightarrow> (PackError, so, r)
     | Some data \<Rightarrow>
         if length data < oc_minSize (op_config so) then (case br_Set R key data ttl r of (ok, r1) \<Rightarrow> (Packed ok, so, r1))
         else (let so1 = (if oc_autoSelect (op_config so) then selectBestCompression F E data so else so)
               in case CompressJSON F (op_compressor so1) v of
                    PackError \<Rightarrow> (PackError, so1, r)
                  | NilDecoder \<Rightarrow> (NilDecoder, so1, r)
                  | Packed z \<Rightarrow> (case br_Exec R [BSet key z ttl, BHSet (meta_key so1 key) (length data) (length z) (cr_type (op_compressor so1)), BExpire (meta_key so1 key) ttl] r
                       of (ok, r1) \<Rightarrow> (Packed ok, so1, r1))))"

definition OptimizedRedisGet :: "dval formats \<Rightarrow> 'r blob_redis \<Rightarrow> optimizer \<Rightarrow> string \<Rightarrow> 'r \<Rightarrow> dval packed" where
  "OptimizedRedisGet F R so key r = (case br_Get R key r of
       None \<Rightarrow> PackError
     | Some data \<Rightarrow> if data \<noteq> [] \<and> hd data \<le> CompressionMsgpackZstd then DecompressJSON F (op_compressor so) data else packed_of (cf_unjson F data))"

text \<open>What a set writes, a get reads; the text of a JSON value begins with no byte below six.\<close>

definition blob_laws :: "'r blob_redis \<Rightarrow> bool" where
  "blob_laws R \<longleftrightarrow>
     (\<forall>k d t r. fst (br_Set R k d t r) \<longrightarrow> br_Get R k (snd (br_Set R k d t r)) = Some d) \<and>
     (\<forall>k z t m a b c t' r. fst (br_Exec R [BSet k z t, BHSet m a b c, BExpire m t'] r) \<longrightarrow>
        k \<noteq> m \<longrightarrow> br_Get R k (snd (br_Exec R [BSet k z t, BHSet m a b c, BExpire m t'] r)) = Some z)"

definition json_printable :: "'v formats \<Rightarrow> bool" where
  "json_printable F \<longleftrightarrow> (\<forall>v d. cf_json F v = Some d \<longrightarrow> d \<noteq> [] \<and> hd d > CompressionMsgpackZstd)"

lemma CompressJSON_header:
  assumes "formats_ok F" and "CompressJSON F c v = Packed z"
  shows "\<exists>b. z = cr_type c # b"
  using assms(2) formats_okD(4)[OF assms(1)]
  by (auto simp: CompressJSON_def Compress_def with_header_def split: if_splits option.splits packed.splits)

lemma Compress_known: "Compress F c d = Packed z \<Longrightarrow> d \<noteq> [] \<Longrightarrow> cr_type c \<in> {0, 1, 2, 3, 4, 5}"
  by (auto simp: Compress_def with_header_def pack_body_def split: packed.splits if_splits)

lemma known_le: "t \<in> {0, 1, 2, 3, 4, 5} \<Longrightarrow> t \<le> (5 :: 8 word)"
  by auto

text \<open>
  C38: optimizer_roundtrip. A value that an optimizer stored, whatever its size and whatever format was chosen, is read
  back as it was by every optimizer whose compressor can read that format; one without the decoder stops.
\<close>

theorem optimizer_roundtrip:
  assumes F: "formats_ok F" and J: "json_printable F" and R: "blob_laws R" and k: "key \<noteq> meta_key so1 key"
    and set: "OptimizedRedisSet F E R so key v ttl r = (Packed True, so1, r1)"
  shows "OptimizedRedisGet F R so2 key r1 =
    (if can_read (op_compressor so2) (cr_type (op_compressor so1)) \<or> (\<exists>d. cf_json F v = Some d \<and> length d < oc_minSize (op_config so))
     then Packed v else NilDecoder)"
proof -
  let ?c = "op_compressor so1"
  obtain data where data: "cf_json F v = Some data" using set by (auto simp: OptimizedRedisSet_def split: option.splits)
  then have un: "cf_unjson F data = Some v" "data \<noteq> []" "hd data > 5" using formats_okD[OF F] J by (auto simp: json_printable_def)
  show ?thesis
  proof (cases "length data < oc_minSize (op_config so)")
    case True
    then have "fst (br_Set R key data ttl r)" "r1 = snd (br_Set R key data ttl r)" using set data by (auto simp: OptimizedRedisSet_def split: prod.splits)
    then have "br_Get R key r1 = Some data" using R by (auto simp: blob_laws_def)
    then show ?thesis using un data True by (auto simp: OptimizedRedisGet_def packed_of_def)
  next
    case False
    define so' where "so' = (if oc_autoSelect (op_config so) then selectBestCompression F E data so else so)"
    have run: "OptimizedRedisSet F E R so key v ttl r = (case CompressJSON F (op_compressor so') v of
        PackError \<Rightarrow> (PackError, so', r)
      | NilDecoder \<Rightarrow> (NilDecoder, so', r)
      | Packed z \<Rightarrow> (case br_Exec R [BSet key z ttl, BHSet (meta_key so' key) (length data) (length z) (cr_type (op_compressor so')), BExpire (meta_key so' key) ttl] r
           of (ok, r1) \<Rightarrow> (Packed ok, so', r1)))"
      by (simp only: OptimizedRedisSet_def so'_def Let_def data option.case False if_False)
    obtain z where z: "CompressJSON F ?c v = Packed z"
        "br_Exec R [BSet key z ttl, BHSet (meta_key so1 key) (length data) (length z) (cr_type ?c), BExpire (meta_key so1 key) ttl] r = (True, r1)"
      using set unfolding run by (cases "CompressJSON F (op_compressor so') v") (auto split: prod.splits)
    have get: "br_Get R key r1 = Some z" using R k z(2) unfolding blob_laws_def by (metis fst_conv snd_conv)
    obtain b where b: "z = cr_type ?c # b" using CompressJSON_header[OF F z(1)] by blast
    have ty: "cr_type ?c \<in> {0, 1, 2, 3, 4, 5}" using z(1) data un(2) Compress_known[of F ?c data z]
      by (auto simp: CompressJSON_def split: if_splits option.splits)
    have rd: "OptimizedRedisGet F R so2 key r1 = DecompressJSON F (op_compressor so2) z"
      using get b known_le[OF ty] by (simp add: OptimizedRedisGet_def)
    show ?thesis
    proof (cases "can_read (op_compressor so2) (cr_type ?c)")
      case True
      then show ?thesis using rd CompressJSON_read[OF F True z(1)] by simp
    next
      case no: False
      then have "needs_zstd (cr_type ?c)" "cr_encoder (op_compressor so2) = None" by (auto simp: can_read_def)
      then have "DecompressJSON F (op_compressor so2) z = NilDecoder"
        using b by (auto simp: needs_zstd_def DecompressJSON_def Decompress_def unpack_body_def decompressZstd_def)
      then show ?thesis using rd no data False by simp
    qed
  qed
qed

section \<open>Documents for MongoDB\<close>

definition compactMap :: "(string \<times> string) list" where
  "compactMap = [(''task_id'', ''tid''), (''venue_id'', ''vid''), (''venue_name'', ''vn''), (''time_slot'', ''ts''), (''status'', ''st''),
     (''price'', ''pr''), (''available'', ''av''), (''capacity'', ''cp''), (''created_at'', ''ca''), (''updated_at'', ''ua''),
     (''crawled_at'', ''cra''), (''source'', ''src''), (''metadata'', ''md''), (''raw_data'', ''rd''), (''state_md5'', ''sm5''),
     (''error'', ''err''), (''result'', ''res''), (''data'', ''d''), (''parent_id'', ''pid''), (''retry_count'', ''rc''),
     (''max_retries'', ''mr''), (''priority'', ''pri''), (''type'', ''typ''), (''url'', ''u''), (''method'', ''m''), (''headers'', ''h''),
     (''body'', ''b''), (''cookies'', ''ck'')]"

definition compact_key :: "string \<Rightarrow> string" where
  "compact_key k = (case map_of compactMap k of Some s \<Rightarrow> s | None \<Rightarrow> k)"

definition expandMap :: "(string \<times> string) list" where
  "expandMap = [(''tid'', ''task_id''), (''vid'', ''venue_id''), (''vn'', ''venue_name''), (''ts'', ''time_slot''), (''st'', ''status''),
     (''pr'', ''price''), (''av'', ''available''), (''cp'', ''capacity''), (''ca'', ''created_at''), (''ua'', ''updated_at''),
     (''cra'', ''crawled_at''), (''src'', ''source''), (''md'', ''metadata''), (''rd'', ''raw_data''), (''sm5'', ''state_md5''),
     (''err'', ''error''), (''res'', ''result''), (''d'', ''data''), (''pid'', ''parent_id''), (''rc'', ''retry_count''),
     (''mr'', ''max_retries''), (''pri'', ''priority''), (''typ'', ''type''), (''u'', ''url''), (''m'', ''method''), (''h'', ''headers''),
     (''b'', ''body''), (''ck'', ''cookies'')]"

definition expand_key :: "string \<Rightarrow> string" where
  "expand_key k = (case map_of expandMap k of Some s \<Rightarrow> s | None \<Rightarrow> k)"

text \<open>The maps inside a map, and those that are items of its lists, are treated alike; other lists in lists are not looked at.\<close>

fun compactDocumentKeys :: "(string \<times> dval) list \<Rightarrow> (string \<times> dval) list \<Rightarrow> (string \<times> dval) list"
  and compact_val :: "dval \<Rightarrow> dval"
  and compact_item :: "dval \<Rightarrow> dval" where
  "compactDocumentKeys [] acc = AList.update ''_cpt'' (DScalar (GBool True)) acc"
| "compactDocumentKeys (kv # kvs) acc = compactDocumentKeys kvs (AList.update (compact_key (fst kv)) (compact_val (snd kv)) acc)"
| "compact_val (DMap m) = DMap (compactDocumentKeys m [])"
| "compact_val (DList vs) = DList (map compact_item vs)"
| "compact_val v = v"
| "compact_item (DMap m) = DMap (compactDocumentKeys m [])"
| "compact_item v = v"

fun expandDocumentKeys :: "(string \<times> dval) list \<Rightarrow> (string \<times> dval) list \<Rightarrow> (string \<times> dval) list"
  and expand_val :: "dval \<Rightarrow> dval"
  and expand_item :: "dval \<Rightarrow> dval" where
  "expandDocumentKeys [] acc = acc"
| "expandDocumentKeys (kv # kvs) acc =
     (if fst kv = ''_cpt'' then expandDocumentKeys kvs acc
      else expandDocumentKeys kvs (AList.update (expand_key (fst kv)) (expand_val (snd kv)) acc))"
| "expand_val (DMap m) = DMap (expandDocumentKeys m [])"
| "expand_val (DList vs) = DList (map expand_item vs)"
| "expand_val v = v"
| "expand_item (DMap m) = DMap (expandDocumentKeys m [])"
| "expand_item v = v"

text \<open>An operation on every field of a map; the map is not resized.\<close>

fun each_field :: "(dval \<Rightarrow> dval packed) \<Rightarrow> (string \<times> dval) list \<Rightarrow> (string \<times> dval) list packed" where
  "each_field f [] = Packed []"
| "each_field f (kv # kvs) = (case f (snd kv) of
      Packed v \<Rightarrow> (case each_field f kvs of Packed kvs1 \<Rightarrow> Packed ((fst kv, v) # kvs1) | e \<Rightarrow> e)
    | PackError \<Rightarrow> PackError
    | NilDecoder \<Rightarrow> NilDecoder)"

definition packed_field :: "8 word \<Rightarrow> bytes \<Rightarrow> nat \<Rightarrow> dval" where
  "packed_field t z n = DBson [(''_compressed'', DScalar (GBool True)), (''_type'', DScalar (GInt (uint t))), (''_data'', DBytes z), (''_size'', DScalar (GInt (int n)))]"

definition squeeze_field :: "dval formats \<Rightarrow> compressor \<Rightarrow> dval \<Rightarrow> dval packed" where
  "squeeze_field F c v = (case cf_json F v of
       None \<Rightarrow> Packed v
     | Some d \<Rightarrow> if length d > 1024
         then (case Compress F c d of Packed z \<Rightarrow> Packed (packed_field (cr_type c) z (length d)) | PackError \<Rightarrow> Packed v | NilDecoder \<Rightarrow> NilDecoder)
         else Packed v)"

definition optimizeMongoDocument :: "dval formats \<Rightarrow> optimizer \<Rightarrow> dval \<Rightarrow> dval packed" where
  "optimizeMongoDocument F so doc = (case Option.bind (cf_json F doc) (json_object F) of
       None \<Rightarrow> Packed doc
     | Some kvs \<Rightarrow>
         (case each_field (squeeze_field F (op_compressor so)) (if oc_compactKeys (op_config so) then compactDocumentKeys kvs [] else kvs) of
            Packed kvs1 \<Rightarrow> Packed (DMap kvs1) | PackError \<Rightarrow> PackError | NilDecoder \<Rightarrow> NilDecoder))"

text \<open>\<open>bson\<close> is the length of a document's BSON; a document without one is left out without an error.\<close>

fun batch_documents :: "dval formats \<Rightarrow> optimizer \<Rightarrow> (dval \<Rightarrow> nat option) \<Rightarrow> dval list \<Rightarrow> dval list packed" where
  "batch_documents F so bson [] = Packed []"
| "batch_documents F so bson (doc # docs) = (case bson doc of
      None \<Rightarrow> batch_documents F so bson docs
    | Some n \<Rightarrow>
        (case (if n \<ge> oc_minSize (op_config so) \<and> oc_mongoCompression (op_config so) then optimizeMongoDocument F so doc else Packed doc) of
           Packed v \<Rightarrow> (case batch_documents F so bson docs of Packed vs \<Rightarrow> Packed (v # vs) | e \<Rightarrow> e)
         | PackError \<Rightarrow> PackError
         | NilDecoder \<Rightarrow> NilDecoder))"

definition OptimizedMongoBatchInsert :: "dval formats \<Rightarrow> optimizer \<Rightarrow> (dval \<Rightarrow> nat option) \<Rightarrow> (dval list \<Rightarrow> 'd \<Rightarrow> bool \<times> 'd) \<Rightarrow> dval list \<Rightarrow> 'd \<Rightarrow> bool packed \<times> 'd" where
  "OptimizedMongoBatchInsert F so bson ins docs d = (if docs = [] then (Packed True, d)
     else case batch_documents F so bson docs of
       Packed vs \<Rightarrow> (case ins vs d of (ok, d1) \<Rightarrow> (Packed ok, d1))
     | PackError \<Rightarrow> (PackError, d)
     | NilDecoder \<Rightarrow> (NilDecoder, d))"

definition restore_field :: "dval formats \<Rightarrow> compressor \<Rightarrow> dval \<Rightarrow> dval packed" where
  "restore_field F c v = (case v of
       DMap m \<Rightarrow> if map_of m ''_compressed'' = Some (DScalar (GBool True))
         then (case map_of m ''_data'' of
             Some (DBytes d) \<Rightarrow> (case Decompress F c d of
                 Packed b \<Rightarrow> Packed (case cf_unjson F b of None \<Rightarrow> v | Some w \<Rightarrow> w)
               | PackError \<Rightarrow> Packed v
               | NilDecoder \<Rightarrow> NilDecoder)
           | _ \<Rightarrow> Packed v)
         else Packed v
     | _ \<Rightarrow> Packed v)"

definition RestoreDocument :: "dval formats \<Rightarrow> optimizer \<Rightarrow> (string \<times> dval) list \<Rightarrow> (string \<times> dval) list packed" where
  "RestoreDocument F so kvs = each_field (restore_field F (op_compressor so))
     (if map_of kvs ''_cpt'' = Some (DScalar (GBool True)) then filter (\<lambda>(k, v). k \<noteq> ''_cpt'') (expandDocumentKeys kvs []) else kvs)"

section \<open>Statistics\<close>

text \<open>The sums of the sizes found under the prefix; \<open>scan\<close> reads a number at the beginning of a text.\<close>

definition size_of :: "(string \<Rightarrow> int option) \<Rightarrow> (string \<rightharpoonup> string) \<Rightarrow> string \<Rightarrow> int" where
  "size_of scan m k = (case Option.bind (m k) scan of None \<Rightarrow> 0 | Some n \<Rightarrow> n)"

definition GetCompressionStats :: "(string \<Rightarrow> int option) \<Rightarrow> 'r blob_redis \<Rightarrow> optimizer \<Rightarrow> 'r \<Rightarrow> 8 word \<times> int \<times> nat \<times> (int \<times> int) option" where
  "GetCompressionStats scan R so r =
     (let keys = (case br_Keys R (oc_redisPrefix (op_config so) @ '':meta:*'') r of None \<Rightarrow> [] | Some ks \<Rightarrow> ks);
          original = sum_list (map (\<lambda>k. size_of scan (br_HGetAll R k r) ''original_size'') keys);
          compressed = sum_list (map (\<lambda>k. size_of scan (br_HGetAll R k r) ''compressed_size'') keys)
      in (cr_type (op_compressor so), cr_level (op_compressor so), oc_minSize (op_config so),
          if original > 0 then Some (compressed, original - compressed) else None))"

section \<open>What the documents become\<close>

text \<open>Documents whose keys, wherever the optimizer looks, are different and neither short forms nor the mark.\<close>

definition short_key :: "string \<Rightarrow> bool" where
  "short_key k \<longleftrightarrow> map_of expandMap k \<noteq> None"

fun clean_fields :: "(string \<times> dval) list \<Rightarrow> bool" and clean_val :: "dval \<Rightarrow> bool" where
  "clean_fields [] = True"
| "clean_fields (kv # kvs) \<longleftrightarrow> fst kv \<notin> fst ` set kvs \<and> \<not> short_key (fst kv) \<and> fst kv \<noteq> ''_cpt'' \<and> clean_val (snd kv) \<and> clean_fields kvs"
| "clean_val (DMap m) = clean_fields m"
| "clean_val (DList vs) = list_all clean_val vs"
| "clean_val v = True"

lemma update_new: "k \<notin> fst ` set al \<Longrightarrow> AList.update k v al = al @ [(k, v)]"
  by (induction al) auto

lemma expand_short: "map_of compactMap k = Some s \<Longrightarrow> map_of expandMap s = Some k"
proof -
  have "list_all (\<lambda>(k, s). map_of expandMap s = Some k) compactMap" by code_simp
  then show "map_of compactMap k = Some s \<Longrightarrow> map_of expandMap s = Some k"
    by (auto simp: list_all_iff dest: map_of_SomeD)
qed

lemma expand_compact_key: "\<not> short_key k \<Longrightarrow> expand_key (compact_key k) = k"
  using expand_short[of k] by (cases "map_of compactMap k") (auto simp: expand_key_def compact_key_def short_key_def)

lemma compact_key_inj: "\<not> short_key k \<Longrightarrow> \<not> short_key k' \<Longrightarrow> compact_key k = compact_key k' \<Longrightarrow> k = k'"
  by (metis expand_compact_key)

lemma compact_key_unmarked: "k \<noteq> ''_cpt'' \<Longrightarrow> compact_key k \<noteq> ''_cpt''"
proof -
  have "list_all (\<lambda>(k, s). s \<noteq> ''_cpt'') compactMap" by code_simp
  then show "k \<noteq> ''_cpt'' \<Longrightarrow> compact_key k \<noteq> ''_cpt''"
    by (auto simp: list_all_iff compact_key_def split: option.splits dest!: map_of_SomeD)
qed

definition compacted :: "(string \<times> dval) list \<Rightarrow> (string \<times> dval) list" where
  "compacted kvs = map (\<lambda>(k, v). (compact_key k, compact_val v)) kvs"

lemma clean_fields_distinct: "clean_fields kvs \<Longrightarrow> distinct (map fst kvs) \<and> (\<forall>(k, v) \<in> set kvs. \<not> short_key k \<and> k \<noteq> ''_cpt'' \<and> clean_val v)"
  by (induction kvs) auto

lemma compact_clean:
  assumes "clean_fields kvs" and "\<forall>k \<in> fst ` set kvs. compact_key k \<notin> fst ` set acc" and "''_cpt'' \<notin> fst ` set acc"
  shows "compactDocumentKeys kvs acc = acc @ compacted kvs @ [(''_cpt'', DScalar (GBool True))]"
  using assms
proof (induction kvs arbitrary: acc)
  case Nil
  then show ?case by (simp add: update_new compacted_def)
next
  case (Cons kv kvs)
  let ?k = "compact_key (fst kv)"
  have new: "?k \<notin> fst ` set acc" using Cons.prems(2) by simp
  have rest: "compact_key k \<noteq> ?k" if "k \<in> fst ` set kvs" for k
  proof
    assume "compact_key k = ?k"
    moreover have "\<not> short_key k" using that clean_fields_distinct[of kvs] Cons.prems(1) by fastforce
    ultimately have "k = fst kv" using compact_key_inj Cons.prems(1) by auto
    then show False using that Cons.prems(1) by simp
  qed
  have unm: "?k \<noteq> ''_cpt''" using compact_key_unmarked Cons.prems(1) by simp
  let ?acc = "acc @ [(?k, compact_val (snd kv))]"
  have "\<forall>k \<in> fst ` set kvs. compact_key k \<notin> fst ` set ?acc" using Cons.prems(2) rest by simp
  moreover have "''_cpt'' \<notin> fst ` set ?acc" using Cons.prems(3) unm by simp
  ultimately have "compactDocumentKeys kvs ?acc = ?acc @ compacted kvs @ [(''_cpt'', DScalar (GBool True))]"
    using Cons.prems(1) by (intro Cons.IH) simp_all
  then show ?case using new by (simp add: update_new compacted_def split_beta)
qed

lemma expand_fields:
  assumes "distinct (map (expand_key \<circ> fst) kvs)" and "\<forall>k \<in> fst ` set kvs. k \<noteq> ''_cpt'' \<and> expand_key k \<notin> fst ` set acc"
  shows "expandDocumentKeys (kvs @ [(''_cpt'', b)]) acc = acc @ map (\<lambda>(k, v). (expand_key k, expand_val v)) kvs"
  using assms
proof (induction kvs arbitrary: acc)
  case (Cons kv kvs)
  have "expandDocumentKeys (kvs @ [(''_cpt'', b)]) (acc @ [(expand_key (fst kv), expand_val (snd kv))]) =
      (acc @ [(expand_key (fst kv), expand_val (snd kv))]) @ map (\<lambda>(k, v). (expand_key k, expand_val v)) kvs"
    by (rule Cons.IH) (use Cons.prems in \<open>auto simp: image_iff\<close>)
  then show ?case using Cons.prems(2) by (simp add: update_new split_beta)
qed simp

text \<open>Expanding what is compacted and perhaps changed by \<open>f\<close> in a way that expanding does not look into.\<close>

lemma expand_compacted:
  assumes "clean_fields kvs"
  shows "expandDocumentKeys (map (\<lambda>(k, v). (k, f v)) (compacted kvs) @ [(''_cpt'', b)]) [] = map (\<lambda>(k, v). (k, expand_val (f (compact_val v)))) kvs"
proof -
  note cl = clean_fields_distinct[OF assms]
  let ?xs = "map (\<lambda>(k, v). (k, f v)) (compacted kvs)"
  have "map (expand_key \<circ> fst) ?xs = map fst kvs" using cl expand_compact_key by (auto simp: compacted_def)
  moreover have "\<forall>k \<in> fst ` set ?xs. k \<noteq> ''_cpt'' \<and> expand_key k \<notin> fst ` set []"
    using cl compact_key_unmarked by (fastforce simp: compacted_def)
  ultimately have "expandDocumentKeys (?xs @ [(''_cpt'', b)]) [] = map (\<lambda>(k, v). (expand_key k, expand_val v)) ?xs"
    using cl by (subst expand_fields) auto
  also have "\<dots> = map (\<lambda>(k, v). (k, expand_val (f (compact_val v)))) kvs"
    using cl expand_compact_key by (auto simp: compacted_def)
  finally show ?thesis .
qed

lemma expand_compact_val: "clean_val v \<Longrightarrow> expand_val (compact_val v) = v \<and> expand_item (compact_item v) = v"
proof (induction v)
  case (DMap m)
  then have cl: "clean_fields m" by simp
  have "expandDocumentKeys (compactDocumentKeys m []) [] = map (\<lambda>(k, v). (k, expand_val (compact_val v))) m"
    using expand_compacted[OF cl, of "\<lambda>v. v"] compact_clean[OF cl, of "[]"] by (simp add: case_prod_beta' cong: map_cong)
  also have "\<dots> = m" using DMap.IH clean_fields_distinct[OF cl] by (intro map_idI) (fastforce simp: snds.simps)
  finally show ?case by simp
next
  case (DList vs)
  then show ?case by (auto simp: list_all_iff intro!: map_idI)
qed auto

text \<open>A field as the optimizer leaves it, and whether reading takes it for a compressed one.\<close>

definition squeezed :: "dval formats \<Rightarrow> compressor \<Rightarrow> dval \<Rightarrow> dval" where
  "squeezed F c v = (case squeeze_field F c v of Packed w \<Rightarrow> w | _ \<Rightarrow> v)"

definition marked :: "dval \<Rightarrow> bool" where
  "marked v = (case v of DMap m \<Rightarrow> map_of m ''_compressed'' = Some (DScalar (GBool True)) | _ \<Rightarrow> False)"

lemma each_field_map: "(\<And>k v. (k, v) \<in> set kvs \<Longrightarrow> f v = Packed (g v)) \<Longrightarrow> each_field f kvs = Packed (map (\<lambda>(k, v). (k, g v)) kvs)"
  by (induction kvs) fastforce+

lemma squeeze_cases: "squeezed F c v = v \<or> (\<exists>t z n. squeezed F c v = packed_field t z n)"
  by (auto simp: squeezed_def squeeze_field_def split: option.splits packed.splits if_splits)

lemma squeeze_total:
  assumes "needs_zstd (cr_type c) \<longrightarrow> cr_encoder c \<noteq> None"
  shows "squeeze_field F c v = Packed (squeezed F c v)"
proof -
  have "Compress F c d \<noteq> NilDecoder" for d
    using assms by (auto simp: Compress_def with_header_def pack_body_def packed_of_def zstd_encode_def as_msgpack_def needs_zstd_def
        split: option.splits packed.splits)
  then show ?thesis by (auto simp: squeezed_def squeeze_field_def split: option.splits packed.splits if_splits)
qed

lemma expand_squeezed:
  assumes "clean_val v"
  shows "expand_val (squeezed F c (compact_val v)) = (if squeezed F c (compact_val v) = compact_val v then v else squeezed F c (compact_val v))"
  using squeeze_cases[of F c "compact_val v"] expand_compact_val[OF assms] by (auto simp: packed_field_def)

text \<open>
  mongo_document_spec. A document with clean keys, stored with short keys and restored, is itself except for its
  fields of more than 1024 bytes of JSON: those stay in the packed form for ever, because restoring looks for
  another type of map than the one they were given.
\<close>

theorem mongo_document_spec:
  assumes F: "formats_ok F" and d: "cf_json F (DMap kvs) = Some d" and cl: "clean_fields kvs" and um: "\<forall>(k, v) \<in> set kvs. \<not> marked v"
    and cpt: "\<And>b. cf_json F (DScalar (GBool True)) = Some b \<Longrightarrow> length b \<le> 1024"
    and cfg: "oc_compactKeys (op_config so)" and c: "c = op_compressor so" and enc: "needs_zstd (cr_type c) \<longrightarrow> cr_encoder c \<noteq> None"
  shows "\<exists>stored. optimizeMongoDocument F so (DMap kvs) = Packed (DMap stored) \<and>
    RestoreDocument F so' stored = Packed (map (\<lambda>(k, v). (k, if squeezed F c (compact_val v) = compact_val v then v else squeezed F c (compact_val v))) kvs)"
proof -
  let ?t = "DScalar (GBool True)"
  let ?g = "squeezed F c"
  let ?kept = "\<lambda>v. if ?g (compact_val v) = compact_val v then v else ?g (compact_val v)"
  let ?stored = "map (\<lambda>(k, v). (k, ?g v)) (compacted kvs) @ [(''_cpt'', ?t)]"
  have un: "json_object F d = Some kvs" using formats_okD(5)[OF F d] by (simp add: json_object_def)
  have gt: "?g ?t = ?t" using cpt by (auto simp: squeezed_def squeeze_field_def split: option.split)
  have "each_field (squeeze_field F c) (compacted kvs @ [(''_cpt'', ?t)]) = Packed (map (\<lambda>(k, v). (k, ?g v)) (compacted kvs @ [(''_cpt'', ?t)]))"
    by (rule each_field_map) (rule squeeze_total[OF enc])
  then have opt: "optimizeMongoDocument F so (DMap kvs) = Packed (DMap ?stored)"
    using d un cfg c gt compact_clean[OF cl, of "[]"] by (simp add: optimizeMongoDocument_def)
  note dist = clean_fields_distinct[OF cl]
  have "''_cpt'' \<notin> fst ` set (map (\<lambda>(k, v). (k, ?g v)) (compacted kvs))"
    using dist compact_key_unmarked by (fastforce simp: compacted_def)
  then have none: "map_of (map (\<lambda>(k, v). (k, ?g v)) (compacted kvs)) ''_cpt'' = None" by (simp only: map_of_eq_None_iff not_False_eq_True)
  have "map_of ?stored ''_cpt'' = Some ?t"
    by (simp only: map_of_append map_add_def none option.case map_of.simps fst_conv snd_conv fun_upd_same)
  moreover have "expandDocumentKeys ?stored [] = map (\<lambda>(k, v). (k, ?kept v)) kvs"
    unfolding expand_compacted[OF cl] using dist expand_squeezed by fastforce
  moreover have "filter (\<lambda>(k, v). k \<noteq> ''_cpt'') (map (\<lambda>(k, v). (k, ?kept v)) kvs) = map (\<lambda>(k, v). (k, ?kept v)) kvs"
    using dist by (fastforce simp: filter_id_conv)
  moreover have "each_field (restore_field F (op_compressor so')) (map (\<lambda>(k, v). (k, ?kept v)) kvs) = Packed (map (\<lambda>(k, v). (k, v)) (map (\<lambda>(k, v). (k, ?kept v)) kvs))"
  proof (rule each_field_map)
    fix k w assume "(k, w) \<in> set (map (\<lambda>(k, v). (k, ?kept v)) kvs)"
    then obtain v where v: "(k, v) \<in> set kvs" "w = ?kept v" by auto
    then have "\<not> marked w" using um squeeze_cases[of F c "compact_val v"] by (auto simp: marked_def packed_field_def)
    then show "restore_field F (op_compressor so') w = Packed w" by (simp add: restore_field_def marked_def split: dval.splits)
  qed
  ultimately have "RestoreDocument F so' ?stored = Packed (map (\<lambda>(k, v). (k, ?kept v)) kvs)"
    by (simp add: RestoreDocument_def case_prod_beta')
  then show ?thesis using opt by blast
qed

text \<open>A short key that was in the document is taken for the long one.\<close>

lemma short_key_in_document:
  "expandDocumentKeys (compactDocumentKeys [(''d'', v), (''e'', w)] []) [] = [(''data'', expand_val (compact_val v)), (''e'', expand_val (compact_val w))]"
proof -
  have "compact_key ''d'' = ''d'' \<and> compact_key ''e'' = ''e'' \<and> expand_key ''d'' = ''data'' \<and> expand_key ''e'' = ''e''" by code_simp
  then show ?thesis by simp
qed

text \<open>A document that has no BSON is left out of the batch, and nothing is reported.\<close>

lemma unmarshalled_dropped:
  assumes "bson doc = None" and "docs \<noteq> []"
  shows "OptimizedMongoBatchInsert F so bson ins (doc # docs) d = OptimizedMongoBatchInsert F so bson ins docs d"
  using assms by (simp add: OptimizedMongoBatchInsert_def)

text \<open>
  Choosing the format for each value changes the compressor that reads: with gzip chosen last, an earlier value
  in zstd can no longer be read.
\<close>

lemma auto_selection_kills_reads:
  assumes "br_Get R key r = Some (CompressionZstd # b)" and "op_compressor so = NewCompressor t l" and "\<not> needs_zstd t"
  shows "OptimizedRedisGet F R so key r = NilDecoder"
  using assms by (simp add: OptimizedRedisGet_def DecompressJSON_def Decompress_def unpack_body_def decompressZstd_def NewCompressor_def)

section \<open>An example\<close>

text \<open>Formats that do nothing; JSON and MessagePack write a map with one text as that text.\<close>

definition bytes_of :: "string \<Rightarrow> bytes" where
  "bytes_of s = map (\<lambda>c. of_nat (of_char c)) s"

definition plain_formats :: "dval formats" where
  "plain_formats = \<lparr>cf_gzip = (\<lambda>l d. Some d), cf_gunzip = Some, cf_zlib = (\<lambda>l d. Some d), cf_unzlib = Some, cf_zstd = (\<lambda>l d. d), cf_unzstd = Some,
     cf_json = (\<lambda>v. if v = DMap [(''url'', DScalar (GStr ''x''))] then Some (bytes_of ''{x}'') else None),
     cf_unjson = (\<lambda>d. if d = bytes_of ''{x}'' then Some (DMap [(''url'', DScalar (GStr ''x''))]) else None),
     cf_msgpack = (\<lambda>v. None), cf_unmsgpack = (\<lambda>d. None)\<rparr>"

lemma bytes_of_x: "bytes_of ''{x}'' = [123, 120, 125]"
  by (simp add: bytes_of_def)

lemma plain_formats_ok: "formats_ok plain_formats"
  by (auto simp: formats_ok_def plain_formats_def bytes_of_x)

lemma plain_printable: "json_printable plain_formats"
  by (auto simp: json_printable_def plain_formats_def bytes_of_x)

abbreviation sample_dmap :: dval where "sample_dmap \<equiv> DMap [(''url'', DScalar (GStr ''x''))]"

lemma compress_roundtrip_witness:
  "Decompress plain_formats (NewCompressor 3 5) [3, 123, 120, 125] = Packed [123, 120, 125] \<and>
   DecompressJSON plain_formats (NewCompressor 3 5) [3, 123, 120, 125] = Packed sample_dmap"
proof -
  have r: "can_read (NewCompressor 3 5) (cr_type (NewCompressor 3 5))" by (simp add: can_read_def NewCompressor_def)
  have 1: "Compress plain_formats (NewCompressor 3 5) [123, 120, 125] = Packed [3, 123, 120, 125]"
    by (simp add: Compress_def with_header_def pack_body_def zstd_encode_def NewCompressor_def needs_zstd_def plain_formats_def)
  then have 2: "CompressJSON plain_formats (NewCompressor 3 5) sample_dmap = Packed [3, 123, 120, 125]"
    by (simp add: CompressJSON_def NewCompressor_def plain_formats_def bytes_of_x)
  from compress_roundtrip[OF plain_formats_ok r, where data = "[123, 120, 125]" and z = "[3, 123, 120, 125]" and v = sample_dmap] 1 2
  show ?thesis by (simp add: NewCompressor_def)
qed

definition mem_blobs :: "(string \<rightharpoonup> bytes) blob_redis" where
  "mem_blobs = \<lparr>br_Set = (\<lambda>k d t r. (True, r(k \<mapsto> d))),
     br_Exec = (\<lambda>cs r. (True, fold (\<lambda>c r. case c of BSet k d t \<Rightarrow> r(k \<mapsto> d) | _ \<Rightarrow> r) cs r)),
     br_Get = (\<lambda>k r. r k), br_Keys = (\<lambda>p r. Some []), br_HGetAll = (\<lambda>k r. Map.empty)\<rparr>"

lemma mem_blobs_laws: "blob_laws mem_blobs"
  by (simp add: blob_laws_def mem_blobs_def)

definition sample_optimizer :: optimizer where
  "sample_optimizer = NewStorageOptimizer \<lparr>oc_type = 1, oc_level = 5, oc_minSize = 2, oc_redisPrefix = ''p'',
     oc_mongoCompression = True, oc_compactKeys = True, oc_autoSelect = False\<rparr>"

lemma optimizer_roundtrip_witness:
  "OptimizedRedisGet plain_formats mem_blobs sample_optimizer ''k'' [''k'' \<mapsto> [1, 123, 120, 125]] = Packed sample_dmap"
proof -
  let ?E = "\<lparr>re_ratio = (\<lambda>n m. m), re_gt = (\<lambda>a b. a < b), re_nought = 0, re_order = []\<rparr> :: nat ratio_env"
  have set: "OptimizedRedisSet plain_formats ?E mem_blobs sample_optimizer ''k'' sample_dmap 0 Map.empty =
      (Packed True, sample_optimizer, [''k'' \<mapsto> [1, 123, 120, 125]])"
    by (simp add: OptimizedRedisSet_def plain_formats_def mem_blobs_def sample_optimizer_def NewStorageOptimizer_def bytes_of_x
        CompressJSON_def Compress_def with_header_def pack_body_def packed_of_def NewCompressor_def needs_zstd_def)
  have k: "''k'' \<noteq> meta_key sample_optimizer ''k''" by (simp add: meta_key_def sample_optimizer_def NewStorageOptimizer_def)
  from optimizer_roundtrip[OF plain_formats_ok plain_printable mem_blobs_laws k set, where ?so2.0 = sample_optimizer]
  show ?thesis by (simp add: can_read_def sample_optimizer_def NewStorageOptimizer_def NewCompressor_def needs_zstd_def)
qed

lemma mongo_document_spec_witness:
  "\<exists>stored. optimizeMongoDocument plain_formats sample_optimizer sample_dmap = Packed (DMap stored) \<and>
    RestoreDocument plain_formats sample_optimizer stored = Packed [(''url'', DScalar (GStr ''x''))]"
proof -
  have d: "cf_json plain_formats sample_dmap = Some (bytes_of ''{x}'')" by (simp add: plain_formats_def)
  have cl: "clean_fields [(''url'', DScalar (GStr ''x''))]" by code_simp
  have sq: "squeezed plain_formats c (DScalar v) = DScalar v" for c v by (simp add: squeezed_def squeeze_field_def plain_formats_def)
  have um: "\<forall>(k, v) \<in> set [(''url'', DScalar (GStr ''x''))]. \<not> marked v" by (simp add: marked_def)
  have cpt: "length b \<le> 1024" if "cf_json plain_formats (DScalar (GBool True)) = Some b" for b using that by (simp add: plain_formats_def)
  have cfg: "oc_compactKeys (op_config sample_optimizer)" "needs_zstd (cr_type (op_compressor sample_optimizer)) \<longrightarrow> cr_encoder (op_compressor sample_optimizer) \<noteq> None"
    by (simp_all add: sample_optimizer_def NewStorageOptimizer_def NewCompressor_def)
  from mongo_document_spec[OF plain_formats_ok d cl um cpt cfg(1) refl cfg(2), where so' = sample_optimizer]
  show ?thesis by (simp add: sq)
qed

end
