(* ===== verification/HttpChain.thy ===== *)
theory HttpChain
  imports GoText "HOL-Library.AList"
begin

text \<open>
  The middleware of the HTTP server around a request: request and trace identifiers and the tracking of requests
  (src/middleware/request_id.go), security headers and access by address and user agent (src/middleware/security.go),
  and the order in which the manager installs them (src/middleware/middleware.go).  A middleware is a function of the
  rest of the chain; what the library gin does with a chain is written out, its other services are fields.
\<close>

section \<open>Requests and the chain\<close>

text \<open>Headers are kept under their canonical names.\<close>

record gin_request =
  gq_Method :: string
  gq_Path :: string
  gq_Host :: string
  gq_RequestURI :: string
  gq_RawQuery :: string
  gq_Params :: "(string \<times> string) list"
  gq_Query :: "(string \<times> string list) list"
  gq_Header :: "(string \<times> string list) list"
  gq_ContentLength :: int
  gq_Body :: string
  gq_TLS :: bool
  gq_ClientIP :: string

text \<open>
  \<open>gc_pending\<close> is how many handlers of the chain are still to be called, \<open>gc_values\<close> the values of the request's
  context, \<open>gc_world\<close> what the handlers share beyond the request.
\<close>

record 'w gin =
  gc_request :: gin_request
  gc_keys :: "string \<rightharpoonup> goval"
  gc_values :: "string \<rightharpoonup> goval"
  gc_headers :: "string \<rightharpoonup> string"
  gc_status :: int
  gc_body :: "goval option"
  gc_pending :: nat
  gc_errors :: "string list"
  gc_world :: 'w

type_synonym 'w gin_handler = "('w gin \<Rightarrow> 'w gin) \<Rightarrow> 'w gin \<Rightarrow> 'w gin"

text \<open>
  A handler is given \<open>Next\<close>, which runs the handlers after it; if it does not call it, they run when it returns,
  unless it has aborted.  A second \<open>Next\<close>, or one after an abort, finds nothing to run.
\<close>

primrec run_chain :: "'w gin_handler list \<Rightarrow> 'w gin \<Rightarrow> 'w gin" where
  "run_chain [] g = g\<lparr>gc_pending := 0\<rparr>"
| "run_chain (h # hs) g =
     (let g1 = h (\<lambda>g. if gc_pending g = 0 then g else run_chain hs g) (g\<lparr>gc_pending := length hs\<rparr>)
      in if gc_pending g1 = 0 then g1 else run_chain hs g1)"

definition Abort :: "'w gin \<Rightarrow> 'w gin" where
  "Abort g = g\<lparr>gc_pending := 0\<rparr>"

definition give_answer :: "int \<Rightarrow> goval \<Rightarrow> 'w gin \<Rightarrow> 'w gin" where
  "give_answer status body g = g\<lparr>gc_status := status, gc_body := Some body\<rparr>"

text \<open>The canonical name of a header: capitals at the beginning and after a hyphen.\<close>

fun canonical_from :: "bool \<Rightarrow> string \<Rightarrow> string" where
  "canonical_from up [] = []"
| "canonical_from up (c # s) = (if up then upper c else lower c) # canonical_from (c = CHR ''-'') s"

abbreviation canonical :: "string \<Rightarrow> string" where "canonical \<equiv> canonical_from True"

definition GetHeader :: "string \<Rightarrow> 'w gin \<Rightarrow> string" where
  "GetHeader name g = (case map_of (gq_Header (gc_request g)) (canonical name) of Some (v # _) \<Rightarrow> v | _ \<Rightarrow> '''')"

text \<open>An empty value takes a header of the answer away.\<close>

definition set_header :: "string \<Rightarrow> string \<Rightarrow> 'w gin \<Rightarrow> 'w gin" where
  "set_header name v g = g\<lparr>gc_headers := (gc_headers g)(canonical name := (if v = '''' then None else Some v))\<rparr>"

definition set_key :: "string \<Rightarrow> goval \<Rightarrow> 'w gin \<Rightarrow> 'w gin" where
  "set_key k v g = g\<lparr>gc_keys := (gc_keys g)(k \<mapsto> v)\<rparr>"

definition set_value :: "string \<Rightarrow> goval \<Rightarrow> 'w gin \<Rightarrow> 'w gin" where
  "set_value k v g = g\<lparr>gc_values := (gc_values g)(k \<mapsto> v)\<rparr>"

lemmas gin_setters = give_answer_def set_header_def set_key_def set_value_def Abort_def

definition string_of_key :: "goval option \<Rightarrow> string" where
  "string_of_key v = (case v of Some (GStr s) \<Rightarrow> s | _ \<Rightarrow> '''')"

section \<open>Request identifiers\<close>

record request_id_config =
  ri_HeaderName :: string
  ri_ContextKey :: string
  ri_SkipPaths :: "string list"
  ri_EnableTraceID :: bool

definition DefaultRequestIDConfig :: request_id_config where
  "DefaultRequestIDConfig = \<lparr>ri_HeaderName = ''X-Request-ID'', ri_ContextKey = ''request_id'',
     ri_SkipPaths = [''/health'', ''/metrics'', ''/ready'', ''/live''], ri_EnableTraceID = True\<rparr>"

text \<open>\<open>fresh\<close> and \<open>fresh_trace\<close> are what the two generators give for this request.\<close>

definition RequestIDMiddleware :: "request_id_config \<Rightarrow> string \<Rightarrow> string \<Rightarrow> 'w gin_handler" where
  "RequestIDMiddleware cfg fresh fresh_trace next_h g =
     (if gq_Path (gc_request g) \<in> set (ri_SkipPaths cfg) then next_h g
      else let requestID = (if GetHeader (ri_HeaderName cfg) g = '''' then fresh else GetHeader (ri_HeaderName cfg) g);
               traceID = (if GetHeader ''X-Trace-ID'' g = '''' then fresh_trace else GetHeader ''X-Trace-ID'' g);
               g1 = set_key (ri_ContextKey cfg) (GStr requestID) g;
               g2 = (if ri_EnableTraceID cfg then set_key ''trace_id'' (GStr traceID) g1 else g1);
               g3 = set_header (ri_HeaderName cfg) requestID g2;
               g4 = (if ri_EnableTraceID cfg then set_header ''X-Trace-ID'' traceID g3 else g3);
               g5 = set_value (ri_ContextKey cfg) (GStr requestID) g4;
               g6 = (if ri_EnableTraceID cfg then set_value ''trace_id'' (GStr traceID) g5 else g5)
           in next_h g6)"

definition hex_digit :: "nat \<Rightarrow> char" where
  "hex_digit n = (if n < 10 then char_of (48 + n) else char_of (87 + n))"

definition hex_encode :: "8 word list \<Rightarrow> string" where
  "hex_encode bs = concat (map (\<lambda>b. [hex_digit (unat b div 16), hex_digit (unat b mod 16)]) bs)"

fun hex_of_nat :: "nat \<Rightarrow> string" where
  "hex_of_nat n = (if n < 16 then [hex_digit n] else hex_of_nat (n div 16) @ [hex_digit (n mod 16)])"

declare hex_of_nat.simps [simp del]

text \<open>\<open>%016x\<close> of an instant after 1970.\<close>

definition hex_pad :: "nat \<Rightarrow> int \<Rightarrow> string" where
  "hex_pad w n = (let s = hex_of_nat (nat n) in replicate (w - length s) (CHR ''0'') @ s)"

text \<open>The random bytes are there or not; then the time stands in.\<close>

definition generateTraceID :: "8 word list option \<Rightarrow> gotime \<Rightarrow> string" where
  "generateTraceID rnd now = (case rnd of None \<Rightarrow> hex_pad 16 now | Some bs \<Rightarrow> hex_encode bs)"

definition generateShortID :: "8 word list option \<Rightarrow> gotime \<Rightarrow> string" where
  "generateShortID rnd now = (case rnd of None \<Rightarrow> hex_pad 8 (now div second) | Some bs \<Rightarrow> hex_encode bs)"

definition generateTimestampID :: "8 word list option \<Rightarrow> gotime \<Rightarrow> gotime \<Rightarrow> string" where
  "generateTimestampID rnd now now' = dec_of_int (now div second) @ ''-'' @ generateShortID rnd now'"

definition GetRequestIDFromGin :: "'w gin \<Rightarrow> string" where
  "GetRequestIDFromGin g = string_of_key (gc_keys g ''request_id'')"

definition GetTraceIDFromGin :: "'w gin \<Rightarrow> string" where
  "GetTraceIDFromGin g = string_of_key (gc_keys g ''trace_id'')"

definition GetRequestIDFromContext :: "(string \<rightharpoonup> goval) \<Rightarrow> string" where
  "GetRequestIDFromContext ctx = string_of_key (ctx ''request_id'')"

definition GetTraceIDFromContext :: "(string \<rightharpoonup> goval) \<Rightarrow> string" where
  "GetTraceIDFromContext ctx = string_of_key (ctx ''trace_id'')"

definition WithRequestID :: "(string \<rightharpoonup> goval) \<Rightarrow> string \<Rightarrow> (string \<rightharpoonup> goval)" where
  "WithRequestID ctx i = ctx(''request_id'' \<mapsto> GStr i)"

definition WithTraceID :: "(string \<rightharpoonup> goval) \<Rightarrow> string \<Rightarrow> (string \<rightharpoonup> goval)" where
  "WithTraceID ctx i = ctx(''trace_id'' \<mapsto> GStr i)"

section \<open>Tracking\<close>

text \<open>An end that is not set is \<open>None\<close>.\<close>

record request_info =
  rq_RequestID :: string
  rq_TraceID :: string
  rq_Method :: string
  rq_Path :: string
  rq_UserAgent :: string
  rq_IP :: string
  rq_StartTime :: gotime
  rq_EndTime :: "gotime option"
  rq_Duration :: int
  rq_Status :: int

definition GetRequestInfo :: "'w gin \<Rightarrow> request_info" where
  "GetRequestInfo g = \<lparr>rq_RequestID = GetRequestIDFromGin g, rq_TraceID = GetTraceIDFromGin g, rq_Method = gq_Method (gc_request g),
     rq_Path = gq_Path (gc_request g), rq_UserAgent = GetHeader ''User-Agent'' g, rq_IP = gq_ClientIP (gc_request g),
     rq_StartTime = (case gc_keys g ''start_time'' of Some (GTime t) \<Rightarrow> t | _ \<Rightarrow> time_zero),
     rq_EndTime = None, rq_Duration = 0, rq_Status = 0\<rparr>"

type_synonym tracker = "string \<rightharpoonup> request_info"

definition TrackRequest :: "gotime \<Rightarrow> tracker gin \<Rightarrow> tracker gin" where
  "TrackRequest now g = (let i = GetRequestIDFromGin g in if i = '''' then g
     else set_key ''start_time'' (GTime now) (g\<lparr>gc_world := (gc_world g)(i \<mapsto> (GetRequestInfo g)\<lparr>rq_StartTime := now\<rparr>)\<rparr>))"

definition milliseconds :: "duration \<Rightarrow> int" where
  "milliseconds d = (if d < 0 then - ((- d) div 1000000) else d div 1000000)"

text \<open>The removal five minutes later is a step of its own.\<close>

definition FinishRequest :: "gotime \<Rightarrow> tracker gin \<Rightarrow> tracker gin" where
  "FinishRequest now g = (let i = GetRequestIDFromGin g in if i = '''' then g
     else case gc_world g i of
       None \<Rightarrow> g
     | Some info \<Rightarrow> g\<lparr>gc_world := (gc_world g)(i \<mapsto> info\<lparr>rq_EndTime := Some now, rq_Duration := milliseconds (now - rq_StartTime info),
         rq_Status := gc_status g\<rparr>)\<rparr>)"

definition forget_request :: "string \<Rightarrow> tracker \<Rightarrow> tracker" where
  "forget_request i rt = rt(i := None)"

definition GetAllActiveRequests :: "tracker \<Rightarrow> tracker" where
  "GetAllActiveRequests rt = (\<lambda>i. case rt i of Some info \<Rightarrow> if rq_EndTime info = None then Some info else None | None \<Rightarrow> None)"

definition RequestLifecycleMiddleware :: "request_id_config \<Rightarrow> string \<Rightarrow> string \<Rightarrow> gotime \<Rightarrow> gotime \<Rightarrow> tracker gin_handler" where
  "RequestLifecycleMiddleware cfg fresh fresh_trace start stop next_h g =
     FinishRequest stop (next_h (TrackRequest start (RequestIDMiddleware cfg fresh fresh_trace next_h g)))"

section \<open>Security headers and access\<close>

record security_config =
  sy_EnableCORS :: bool
  sy_CORSOrigins :: "string list"
  sy_EnableSecurityHeaders :: bool
  sy_FrameOptions :: string
  sy_ContentTypeOptions :: string

definition set_headers :: "(string \<times> string) list \<Rightarrow> 'w gin \<Rightarrow> 'w gin" where
  "set_headers hvs g = fold (\<lambda>(h, v). set_header h v) hvs g"

definition hsts :: "'w gin \<Rightarrow> (string \<times> string) list" where
  "hsts g = (if gq_TLS (gc_request g) then [(''Strict-Transport-Security'', ''max-age=31536000; includeSubDomains'')] else [])"

definition addSecurityHeaders :: "security_config \<Rightarrow> 'w gin \<Rightarrow> 'w gin" where
  "addSecurityHeaders cfg g = set_headers
     ([(''X-Frame-Options'', if sy_FrameOptions cfg = '''' then ''DENY'' else sy_FrameOptions cfg),
       (''X-Content-Type-Options'', if sy_ContentTypeOptions cfg = '''' then ''nosniff'' else sy_ContentTypeOptions cfg),
       (''X-XSS-Protection'', ''1; mode=block''), (''Referrer-Policy'', ''strict-origin-when-cross-origin''),
       (''Content-Security-Policy'', ''default-src '' @ [CHR 0x27] @ ''self'' @ [CHR 0x27])] @ hsts g) g"

definition Security_Handler :: "security_config \<Rightarrow> 'w gin_handler" where
  "Security_Handler cfg next_h g = next_h (if sy_EnableSecurityHeaders cfg then addSecurityHeaders cfg g else g)"

text \<open>What the library for cross-origin requests is asked to allow; \<open>None\<close> installs nothing.\<close>

record cors_config =
  cs_AllowOrigins :: "string list"
  cs_AllowAllOrigins :: bool
  cs_AllowMethods :: "string list"
  cs_AllowHeaders :: "string list"
  cs_ExposeHeaders :: "string list"
  cs_AllowCredentials :: bool

definition CORSMiddleware :: "security_config \<Rightarrow> cors_config option" where
  "CORSMiddleware cfg = (if \<not> sy_EnableCORS cfg then None else Some
     \<lparr>cs_AllowOrigins = sy_CORSOrigins cfg, cs_AllowAllOrigins = (sy_CORSOrigins cfg = []),
      cs_AllowMethods = [''GET'', ''POST'', ''PUT'', ''PATCH'', ''DELETE'', ''HEAD'', ''OPTIONS''],
      cs_AllowHeaders = [''Origin'', ''Content-Length'', ''Content-Type'', ''Authorization'', ''X-Requested-With'', ''X-Request-ID'',
        ''X-API-Key'', ''Accept'', ''Accept-Encoding'', ''Accept-Language'', ''Cache-Control''],
      cs_ExposeHeaders = [''X-Request-ID'', ''X-RateLimit-Limit'', ''X-RateLimit-Remaining'', ''X-RateLimit-Reset''],
      cs_AllowCredentials = True\<rparr>)"

definition NoCache :: "'w gin_handler" where
  "NoCache next_h g = next_h (set_headers [(''Cache-Control'', ''no-cache, no-store, max-age=0, must-revalidate, value''),
     (''Expires'', ''Thu, 01 Jan 1970 00:00:00 GMT''), (''Last-Modified'', ''Thu, 01 Jan 1970 00:00:00 GMT'')] g)"

definition SecureHeaders :: "'w gin_handler" where
  "SecureHeaders next_h g = next_h (set_headers
     ([(''X-Frame-Options'', ''DENY''), (''X-Content-Type-Options'', ''nosniff''), (''X-XSS-Protection'', ''1; mode=block''),
       (''Referrer-Policy'', ''strict-origin-when-cross-origin''),
       (''Content-Security-Policy'', ''default-src '' @ [CHR 0x27] @ ''self'' @ [CHR 0x27])] @ hsts g) g)"

definition TrustedProxies :: "string list \<Rightarrow> 'w gin_handler" where
  "TrustedProxies proxies next_h g =
     (if proxies = [] then next_h g
      else let ip = gq_ClientIP (gc_request g)
           in if \<exists>p \<in> set proxies. ip = p \<or> HasPrefix ip p then next_h g
              else next_h (set_header ''X-Real-IP'' '''' (set_header ''X-Forwarded-For'' '''' g)))"

definition HTTPSRedirect :: "'w gin_handler" where
  "HTTPSRedirect next_h g =
     (if GetHeader ''X-Forwarded-Proto'' g \<noteq> ''https'' \<and> \<not> gq_TLS (gc_request g)
      then Abort ((set_header ''Location'' (''https://'' @ gq_Host (gc_request g) @ gq_RequestURI (gc_request g)) g)\<lparr>gc_status := 301\<rparr>)
      else next_h g)"

definition error_body :: "string \<Rightarrow> goval" where
  "error_body msg = GMap [(''error'', GStr msg)]"

definition IPWhitelist :: "string list \<Rightarrow> 'w gin_handler" where
  "IPWhitelist ips next_h g =
     (if ips = [] \<or> gq_ClientIP (gc_request g) \<in> set ips then next_h g
      else give_answer 403 (error_body ''IP not whitelisted'') (Abort g))"

definition UserAgent_guard :: "string \<Rightarrow> 'w gin_handler" where
  "UserAgent_guard required next_h g =
     (if required = '''' \<or> Contains (GetHeader ''User-Agent'' g) required then next_h g
      else give_answer 400 (error_body ''Invalid user agent'') (Abort g))"

section \<open>The manager\<close>

datatype middleware = MRecovery | MRequestID | MCORS | MSecurity | MRateLimit | MLogger | MAuth

record manager_config =
  mg_EnableCORS :: bool
  mg_RateLimit :: bool

text \<open>Which instances exist, and what a router has been given.\<close>

record middleware_manager =
  mm_config :: manager_config
  mm_initialized :: bool

definition NewManager :: "manager_config \<Rightarrow> middleware_manager" where
  "NewManager cfg = \<lparr>mm_config = cfg, mm_initialized = False\<rparr>"

definition mm_Initialize :: "middleware_manager \<Rightarrow> middleware_manager" where
  "mm_Initialize m = m\<lparr>mm_initialized := True\<rparr>"

definition installed :: "manager_config \<Rightarrow> middleware list" where
  "installed cfg = [MRecovery, MRequestID] @ (if mg_EnableCORS cfg then [MCORS] else []) @ [MSecurity] @
     (if mg_RateLimit cfg then [MRateLimit] else []) @ [MLogger]"

definition SetupAll :: "middleware list \<Rightarrow> middleware_manager \<Rightarrow> middleware list \<times> middleware_manager" where
  "SetupAll router m = (router @ installed (mm_config m), if mm_initialized m then m else mm_Initialize m)"

definition SetupBasic :: "middleware list \<Rightarrow> middleware_manager \<Rightarrow> middleware list \<times> middleware_manager" where
  "SetupBasic router m = (router @ installed (mm_config m), if mm_initialized m then m else mm_Initialize m)"

definition get_middleware :: "middleware \<Rightarrow> middleware_manager \<Rightarrow> middleware \<times> middleware_manager" where
  "get_middleware w m = (w, if mm_initialized m then m else mm_Initialize m)"

definition manager_Setup :: "middleware list \<Rightarrow> manager_config \<Rightarrow> middleware list \<times> middleware_manager" where
  "manager_Setup router cfg = SetupAll router (NewManager cfg)"

definition SetupWithAuth :: "middleware list \<Rightarrow> manager_config \<Rightarrow> middleware list \<times> middleware_manager" where
  "SetupWithAuth router cfg = SetupBasic router (NewManager cfg)"

section \<open>What the chain does\<close>

lemma run_chain_done [simp]: "gc_pending (run_chain hs g) = 0"
  by (induction hs arbitrary: g) (auto simp: Let_def)

text \<open>A handler that passes a request on, perhaps changed, or ends it.\<close>

lemma run_passes:
  assumes "\<And>next_h g. h next_h g = next_h (f g)" and "\<And>g. gc_pending (f g) = gc_pending g"
  shows "run_chain (h # hs) g = (if hs = [] then f (g\<lparr>gc_pending := 0\<rparr>) else run_chain hs (f (g\<lparr>gc_pending := length hs\<rparr>)))"
  using assms by (auto simp: Let_def)

lemma run_aborts:
  assumes "\<And>next_h. gc_pending (h next_h (g\<lparr>gc_pending := length hs\<rparr>)) = 0"
    and "\<And>next_h. h next_h (g\<lparr>gc_pending := length hs\<rparr>) = g1"
  shows "run_chain (h # hs) g = g1"
  using assms by (simp add: Let_def)

text \<open>Only the address decides whether the handlers behind the list of addresses run.\<close>

lemma whitelist_exact:
  "run_chain (IPWhitelist ips # hs) g =
    (if ips \<noteq> [] \<and> gq_ClientIP (gc_request g) \<notin> set ips then give_answer 403 (error_body ''IP not whitelisted'') (g\<lparr>gc_pending := 0\<rparr>)
     else if hs = [] then g\<lparr>gc_pending := 0\<rparr> else run_chain hs (g\<lparr>gc_pending := length hs\<rparr>))"
  by (auto simp: IPWhitelist_def gin_setters Let_def)

text \<open>An untrusted proxy's headers stay in the request: only the answer's are cleared; and a prefix is enough to be trusted.\<close>

lemma untrusted_headers_stay:
  assumes "\<And>g. gc_request (next_h g) = gc_request g"
  shows "gc_request (TrustedProxies proxies next_h g) = gc_request g"
  using assms by (simp add: TrustedProxies_def set_header_def Let_def)

lemma untrusted_sees_headers:
  "\<exists>f. TrustedProxies proxies next_h g = next_h (f g) \<and> GetHeader name (f g) = GetHeader name g"
  by (auto simp: TrustedProxies_def set_header_def Let_def GetHeader_def intro: exI[of _ "\<lambda>g. g"]
      exI[of _ "\<lambda>g. set_header ''X-Real-IP'' '''' (set_header ''X-Forwarded-For'' '''' g)"])

lemma prefix_is_trusted:
  assumes "gq_ClientIP (gc_request g) = ''10.0.0.15''"
  shows "TrustedProxies [''10.0.0.1''] next_h g = next_h g"
  using assms by (simp add: TrustedProxies_def HasPrefix_def)

text \<open>Setting up with authentication installs what setting up without it does.\<close>

lemma setup_with_auth: "SetupWithAuth router cfg = manager_Setup router cfg \<and> MAuth \<notin> set (installed cfg)"
  by (simp add: SetupWithAuth_def manager_Setup_def SetupAll_def SetupBasic_def installed_def)

text \<open>Without a list of origins every site is allowed, with the user's credentials.\<close>

lemma cors_open: "sy_EnableCORS cfg \<Longrightarrow> sy_CORSOrigins cfg = [] \<Longrightarrow> \<exists>c. CORSMiddleware cfg = Some c \<and> cs_AllowAllOrigins c \<and> cs_AllowCredentials c"
  by (simp add: CORSMiddleware_def)

section \<open>What the tracker sees\<close>

definition request_identifier :: "request_id_config \<Rightarrow> string \<Rightarrow> 'w gin \<Rightarrow> string" where
  "request_identifier cfg fresh g = (if GetHeader (ri_HeaderName cfg) g = '''' then fresh else GetHeader (ri_HeaderName cfg) g)"

definition with_identifiers :: "request_id_config \<Rightarrow> string \<Rightarrow> string \<Rightarrow> 'w gin \<Rightarrow> 'w gin" where
  "with_identifiers cfg fresh fresh_trace g = RequestIDMiddleware cfg fresh fresh_trace (\<lambda>g. g) g"

lemma RequestID_passes: "RequestIDMiddleware cfg fresh fresh_trace next_h g = next_h (with_identifiers cfg fresh fresh_trace g)"
  by (simp add: with_identifiers_def RequestIDMiddleware_def Let_def)

lemma with_identifiers_fields:
  assumes "ri_ContextKey cfg = ''request_id''" and "gq_Path (gc_request g) \<notin> set (ri_SkipPaths cfg)"
  shows "gc_pending (with_identifiers cfg fresh fresh_trace g) = gc_pending g"
    and "GetRequestIDFromGin (with_identifiers cfg fresh fresh_trace g) = request_identifier cfg fresh g"
    and "GetRequestIDFromContext (gc_values (with_identifiers cfg fresh fresh_trace g)) = request_identifier cfg fresh g"
    and "gc_world (with_identifiers cfg fresh fresh_trace g) = gc_world g"
  using assms by (simp_all add: with_identifiers_def RequestIDMiddleware_def gin_setters GetRequestIDFromGin_def GetRequestIDFromContext_def
      string_of_key_def request_identifier_def Let_def)

text \<open>
  lifecycle_after_handlers. The middleware that tracks requests lets all handlers run before it records the start:
  while they run the request is not among the active ones, and the recorded duration lies after them.
\<close>

theorem lifecycle_after_handlers:
  assumes "ri_ContextKey cfg = ''request_id''" and "gq_Path (gc_request g) \<notin> set (ri_SkipPaths cfg)" and "hs \<noteq> []"
    and g1: "g1 = run_chain hs (with_identifiers cfg fresh fresh_trace (g\<lparr>gc_pending := length hs\<rparr>))"
    and i: "GetRequestIDFromGin g1 = i" and "i \<noteq> ''''" and time: "start \<le> stop"
  shows "\<exists>info. gc_world (run_chain (RequestLifecycleMiddleware cfg fresh fresh_trace start stop # hs) g) = (gc_world g1)(i \<mapsto> info) \<and>
    rq_RequestID info = i \<and> rq_StartTime info = start \<and> rq_EndTime info = Some stop \<and> rq_Duration info = (stop - start) div 1000000 \<and>
    rq_Status info = gc_status g1"
proof -
  let ?next = "\<lambda>g. if gc_pending g = 0 then g else run_chain hs g"
  let ?g0 = "g\<lparr>gc_pending := length hs\<rparr>"
  have "gc_pending (with_identifiers cfg fresh fresh_trace ?g0) = length hs" using assms(1,2) by (subst with_identifiers_fields) auto
  then have rid: "RequestIDMiddleware cfg fresh fresh_trace ?next ?g0 = g1" using g1 assms(3) by (simp add: RequestID_passes)
  have pend: "gc_pending g1 = 0" using g1 run_chain_done by simp
  let ?g2 = "TrackRequest start g1"
  have g2: "gc_pending ?g2 = 0" "GetRequestIDFromGin ?g2 = i" "gc_status ?g2 = gc_status g1"
    "gc_world ?g2 = (gc_world g1)(i \<mapsto> (GetRequestInfo g1)\<lparr>rq_StartTime := start\<rparr>)"
    using pend i assms(6) by (auto simp: TrackRequest_def Let_def set_key_def GetRequestIDFromGin_def)
  let ?g3 = "FinishRequest stop ?g2"
  have "RequestLifecycleMiddleware cfg fresh fresh_trace start stop ?next ?g0 = ?g3"
    using rid g2(1) by (simp add: RequestLifecycleMiddleware_def)
  moreover have "gc_pending ?g3 = 0" using g2(1) by (auto simp: FinishRequest_def Let_def split: option.split)
  ultimately have "run_chain (RequestLifecycleMiddleware cfg fresh fresh_trace start stop # hs) g = ?g3" by (simp add: Let_def)
  moreover have "gc_world ?g3 = (gc_world g1)(i \<mapsto> (GetRequestInfo g1)\<lparr>rq_StartTime := start, rq_EndTime := Some stop,
      rq_Duration := (stop - start) div 1000000, rq_Status := gc_status g1\<rparr>)"
    using g2 assms(6) time by (simp add: FinishRequest_def Let_def milliseconds_def)
  moreover have "rq_RequestID (GetRequestInfo g1) = i" using i by (simp add: GetRequestInfo_def)
  ultimately show ?thesis by auto
qed

section \<open>An example\<close>

definition sample_request :: gin_request where
  "sample_request = \<lparr>gq_Method = ''GET'', gq_Path = ''/items'', gq_Host = ''h'', gq_RequestURI = ''/items'', gq_RawQuery = [], gq_Params = [],
     gq_Query = [], gq_Header = [(''User-Agent'', [''Mozilla/5.0 (X11)''])], gq_ContentLength = 0, gq_Body = [], gq_TLS = False, gq_ClientIP = ''10.0.0.15''\<rparr>"

definition sample_gin :: "'w \<Rightarrow> 'w gin" where
  "sample_gin w = \<lparr>gc_request = sample_request, gc_keys = Map.empty, gc_values = Map.empty, gc_headers = Map.empty, gc_status = 200, gc_body = None,
     gc_pending = 0, gc_errors = [], gc_world = w\<rparr>"

lemma lifecycle_after_handlers_witness:
  "\<exists>info. gc_world (run_chain [RequestLifecycleMiddleware DefaultRequestIDConfig ''a'' ''b'' 5 1000005, \<lambda>next_h g. g\<lparr>gc_status := 404\<rparr>]
      (sample_gin Map.empty)) ''a'' = Some info \<and> rq_Duration info = 1 \<and> rq_Status info = 404"
proof -
  let ?hs = "[\<lambda>next_h g. g\<lparr>gc_status := 404\<rparr>] :: tracker gin_handler list"
  let ?g = "sample_gin Map.empty :: tracker gin"
  let ?g1 = "run_chain ?hs (with_identifiers DefaultRequestIDConfig ''a'' ''b'' (?g\<lparr>gc_pending := length ?hs\<rparr>))"
  have c: "ri_ContextKey DefaultRequestIDConfig = ''request_id''" "gq_Path (gc_request ?g) \<notin> set (ri_SkipPaths DefaultRequestIDConfig)"
    by (simp_all add: DefaultRequestIDConfig_def sample_gin_def sample_request_def)
  have h: "canonical ''X-Request-ID'' = ''X-Request-Id'' \<and> canonical ''X-Trace-ID'' = ''X-Trace-Id''" by code_simp
  have i: "GetRequestIDFromGin ?g1 = ''a''" and s: "gc_status ?g1 = 404"
    using h by (simp_all add: with_identifiers_def RequestIDMiddleware_def DefaultRequestIDConfig_def gin_setters GetRequestIDFromGin_def
        string_of_key_def GetHeader_def sample_gin_def sample_request_def Let_def)
  from lifecycle_after_handlers[OF c, of ?hs ?g1 "''a''" "''b''" "''a''" 5 1000005] i s
  show ?thesis by auto
qed

end
