(* ===== verification/InputGuard.thy ===== *)
theory InputGuard
  imports HttpChain Validation
begin

text \<open>
  The middleware that looks for malicious input (src/middleware/validation.go).  A compiled pattern is its text and
  a predicate; what an expression matches is an argument, which the theorems ask for one expression only.
\<close>

section \<open>Patterns\<close>

record guard_pattern =
  pt_source :: string
  pt_matches :: "string \<Rightarrow> bool"

abbreviation bs :: string where "bs \<equiv> [CHR 0x5C]"
abbreviation quotes :: string where "quotes \<equiv> [CHR ''['', CHR 0x27, CHR 0x22, CHR '';'', CHR '']'']"

definition ldap_source :: string where
  "ldap_source = ''[()&|!<>=~*]''"

definition command_source :: string where
  "command_source = ''[;&|'' @ [CHR 0x60] @ ''$]''"

definition malicious_sources :: "string list" where
  "malicious_sources =
     [''(?i)<script[^>]*>.*?</script>'', ''(?i)javascript:'', ''(?i)on'' @ bs @ ''w+'' @ bs @ ''s*='', ''(?i)<iframe[^>]*>'',
      ''(?i)<object[^>]*>'', ''(?i)<embed[^>]*>'', ''(?i)<link[^>]*>'', ''(?i)<meta[^>]*>'',
      ''(?i)(union|select|insert|update|delete|drop|create|alter)'' @ bs @ ''s+'',
      ''(?i)(or|and)'' @ bs @ ''s+'' @ bs @ ''d+'' @ bs @ ''s*='' @ bs @ ''s*'' @ bs @ ''d+'',
      ''(?i)'' @ quotes @ ''.*?(or|and).*?'' @ quotes, ''(?i)--'' @ bs @ ''s*$'', ''(?i)/'' @ bs @ ''*.*?'' @ bs @ ''*/'',
      bs @ ''.'' @ bs @ ''.['' @ bs @ bs @ ''/]'', ''['' @ bs @ bs @ ''/]'' @ bs @ ''.'' @ bs @ ''.'',
      command_source, bs @ ''$'' @ bs @ ''([^)]*'' @ bs @ '')'', bs @ ''$'' @ bs @ ''{[^}]*'' @ bs @ ''}'',
      ldap_source]"

definition defaultMaliciousPatterns :: "(string \<Rightarrow> string \<Rightarrow> bool) \<Rightarrow> guard_pattern list" where
  "defaultMaliciousPatterns re = map (\<lambda>s. \<lparr>pt_source = s, pt_matches = re s\<rparr>) malicious_sources"

definition matches_any :: "guard_pattern list \<Rightarrow> string \<Rightarrow> bool" where
  "matches_any ps content = list_ex (\<lambda>p. pt_matches p content \<or> pt_matches p (ToLower content)) ps"

definition hides_or_floods :: "string \<Rightarrow> bool" where
  "hides_or_floods content \<longleftrightarrow> CHR 0x00 \<in> set content \<or> length content > 10000"

definition containsMaliciousContent :: "string \<Rightarrow> guard_pattern list \<Rightarrow> bool" where
  "containsMaliciousContent content ps \<longleftrightarrow> matches_any ps content \<or> hides_or_floods content"

definition containsMaliciousContentInFormData :: "string \<Rightarrow> guard_pattern list \<Rightarrow> bool" where
  "containsMaliciousContentInFormData content ps \<longleftrightarrow>
     matches_any (filter (\<lambda>p. pt_source p \<noteq> ldap_source \<and> pt_source p \<noteq> command_source) ps) content \<or> hides_or_floods content"

section \<open>The request\<close>

record validation_config =
  vc_MaxRequestSize :: int
  vc_SkipPaths :: "string list"
  vc_CustomPatterns :: "guard_pattern list"
  vc_AllowedFileTypes :: "string list"
  vc_MaxFileSize :: int

definition DefaultValidationConfig :: validation_config where
  "DefaultValidationConfig = \<lparr>vc_MaxRequestSize = 10 * 1024 * 1024, vc_SkipPaths = [''/health'', ''/metrics'', ''/ready'', ''/ping''],
     vc_CustomPatterns = [], vc_AllowedFileTypes = [''image/jpeg'', ''image/png'', ''image/gif'', ''image/webp'', ''application/pdf''],
     vc_MaxFileSize = 5 * 1024 * 1024\<rparr>"

record upload =
  up_Size :: int
  up_Filename :: string
  up_ContentType :: string

record multipart_form =
  mf_Value :: "(string \<times> string list) list"
  mf_File :: "(string \<times> upload list) list"

text \<open>What reading the body and parsing a form give: \<open>None\<close> is an error, and a form may be absent.\<close>

record body_source =
  bd_Read :: "string option"
  bd_Form :: "multipart_form option option"

definition validateURLParams :: "gin_request \<Rightarrow> guard_pattern list \<Rightarrow> bool" where
  "validateURLParams q ps = list_all (\<lambda>(k, v). \<not> containsMaliciousContent v ps \<and> \<not> Contains v ''..'') (gq_Params q)"

definition validateQueryParams :: "gin_request \<Rightarrow> guard_pattern list \<Rightarrow> bool" where
  "validateQueryParams q ps = list_all (\<lambda>(k, vs). \<not> containsMaliciousContent k ps \<and> list_all (\<lambda>v. \<not> containsMaliciousContent v ps) vs) (gq_Query q)"

definition suspiciousHeaders :: "string list" where
  "suspiciousHeaders = [''User-Agent'', ''Referer'', ''X-Forwarded-For'', ''X-Real-IP'', ''X-Forwarded-Host'', ''X-Original-URL'', ''X-Rewrite-URL'']"

definition validateHeaders :: "'w gin \<Rightarrow> guard_pattern list \<Rightarrow> bool" where
  "validateHeaders g ps \<longleftrightarrow>
     list_all (\<lambda>h. GetHeader h g = '''' \<or> \<not> containsMaliciousContent (GetHeader h g) ps) suspiciousHeaders \<and>
     list_all (\<lambda>(k, vs). HasPrefix k ''X-'' \<longrightarrow> list_all (\<lambda>v. \<not> containsMaliciousContent v ps) vs) (gq_Header (gc_request g))"

definition isTextContentType :: "string \<Rightarrow> bool" where
  "isTextContentType ct = list_ex (Contains ct) [''application/json'', ''application/xml'', ''application/x-www-form-urlencoded'', ''text/'']"

definition isAllowedFileType :: "string \<Rightarrow> string list \<Rightarrow> bool" where
  "isAllowedFileType ct allowed \<longleftrightarrow> allowed = [] \<or> list_ex (Contains ct) allowed"

definition validateMultipartForm :: "body_source \<Rightarrow> guard_pattern list \<Rightarrow> validation_config \<Rightarrow> bool" where
  "validateMultipartForm b ps cfg = (case bd_Form b of
       None \<Rightarrow> False
     | Some None \<Rightarrow> True
     | Some (Some f) \<Rightarrow>
         list_all (\<lambda>(k, vs). list_all (\<lambda>v. \<not> containsMaliciousContent v ps) vs) (mf_Value f) \<and>
         list_all (\<lambda>(k, us). list_all (\<lambda>u. up_Size u \<le> vc_MaxFileSize cfg \<and> \<not> containsMaliciousContent (up_Filename u) ps \<and>
           isAllowedFileType (up_ContentType u) (vc_AllowedFileTypes cfg)) us) (mf_File f))"

text \<open>The body that was read is put back.\<close>

definition validateRequestBody :: "body_source \<Rightarrow> guard_pattern list \<Rightarrow> validation_config \<Rightarrow> 'w gin \<Rightarrow> bool \<times> 'w gin" where
  "validateRequestBody b ps cfg g =
     (let ct = GetHeader ''Content-Type'' g
      in if Contains ct ''multipart/form-data'' then (validateMultipartForm b ps cfg, g)
         else if \<not> isTextContentType ct then (True, g)
         else case bd_Read b of
           None \<Rightarrow> (False, g)
         | Some body \<Rightarrow>
             (if Contains ct ''application/x-www-form-urlencoded'' then \<not> containsMaliciousContentInFormData body ps
              else \<not> containsMaliciousContent body ps,
              g\<lparr>gc_request := (gc_request g)\<lparr>gq_Body := body\<rparr>\<rparr>))"

definition refuse :: "int \<Rightarrow> string \<Rightarrow> 'w gin \<Rightarrow> 'w gin" where
  "refuse status msg g = Abort (give_answer status (error_body msg) g)"

definition too_large :: "int \<Rightarrow> string" where
  "too_large n = ''Request body too large, max allowed: '' @ dec_of_int n @ '' bytes''"

definition InputValidation :: "(string \<Rightarrow> string \<Rightarrow> bool) \<Rightarrow> validation_config \<Rightarrow> body_source \<Rightarrow> 'w gin_handler" where
  "InputValidation re cfg b next_h g =
     (let ps = defaultMaliciousPatterns re @ vc_CustomPatterns cfg; q = gc_request g
      in if gq_Path q \<in> set (vc_SkipPaths cfg) then next_h g
         else if \<not> validateURLParams q ps then refuse 400 ''Invalid URL parameters detected'' g
         else if \<not> validateQueryParams q ps then refuse 400 ''Invalid query parameters detected'' g
         else if \<not> validateHeaders g ps then refuse 400 ''Invalid headers detected'' g
         else if gq_ContentLength q > vc_MaxRequestSize cfg then refuse 413 (too_large (vc_MaxRequestSize cfg)) g
         else if gq_Method q \<in> {''POST'', ''PUT'', ''PATCH''}
         then (case validateRequestBody b ps cfg g of (ok, g1) \<Rightarrow> if ok then next_h g1 else refuse 400 ''Invalid request body detected'' g1)
         else next_h g)"

text \<open>The reader that fails beyond the limit is what the body becomes: its text, or an error when it is longer.\<close>

definition max_bytes :: "int \<Rightarrow> body_source \<Rightarrow> body_source" where
  "max_bytes n b = b\<lparr>bd_Read := (case bd_Read b of Some s \<Rightarrow> if int (length s) > n then None else Some s | None \<Rightarrow> None)\<rparr>"

definition RequestSizeLimit :: "int \<Rightarrow> body_source \<Rightarrow> (body_source \<Rightarrow> 'w gin \<Rightarrow> 'w gin) \<Rightarrow> 'w gin \<Rightarrow> 'w gin" where
  "RequestSizeLimit n b next_h g = (if gq_ContentLength (gc_request g) > n then refuse 413 (too_large n) g else next_h (max_bytes n b) g)"

definition output_escape :: "char \<Rightarrow> string" where
  "output_escape c = (if c = CHR ''<'' then ''&lt;'' else if c = CHR ''>'' then ''&gt;'' else if c = CHR ''&'' then ''&amp;''
     else if c = CHR 0x27 then ''&#39;'' else if c = CHR 0x22 then ''&quot;'' else [c])"

definition SanitizeOutput :: "string \<Rightarrow> string" where
  "SanitizeOutput input = concat (map output_escape input)"

lemma SanitizeOutput_is_HTML: "SanitizeOutput s = SanitizeHTML s"
proof -
  have "output_escape = html_escape" by (rule ext) (simp add: output_escape_def)
  then show ?thesis by (simp add: SanitizeOutput_def SanitizeHTML_def)
qed

section \<open>What is let through\<close>

text \<open>The reason for which a request is refused, if it is.\<close>

definition refusal :: "(string \<Rightarrow> string \<Rightarrow> bool) \<Rightarrow> validation_config \<Rightarrow> body_source \<Rightarrow> 'w gin \<Rightarrow> (int \<times> string) option" where
  "refusal re cfg b g =
     (let ps = defaultMaliciousPatterns re @ vc_CustomPatterns cfg; q = gc_request g
      in if gq_Path q \<in> set (vc_SkipPaths cfg) then None
         else if \<not> validateURLParams q ps then Some (400, ''Invalid URL parameters detected'')
         else if \<not> validateQueryParams q ps then Some (400, ''Invalid query parameters detected'')
         else if \<not> validateHeaders g ps then Some (400, ''Invalid headers detected'')
         else if gq_ContentLength q > vc_MaxRequestSize cfg then Some (413, too_large (vc_MaxRequestSize cfg))
         else if gq_Method q \<in> {''POST'', ''PUT'', ''PATCH''} \<and> \<not> fst (validateRequestBody b ps cfg g) then Some (400, ''Invalid request body detected'')
         else None)"

lemma validateRequestBody_keeps:
  "gc_pending (snd (validateRequestBody b ps cfg g)) = gc_pending g"
  by (auto simp: validateRequestBody_def Let_def split: option.split)

lemma InputValidation_refusal:
  "\<exists>g1. gc_pending g1 = gc_pending g \<and> (\<forall>next_h. InputValidation re cfg b next_h g =
     (case refusal re cfg b g of None \<Rightarrow> next_h g1 | Some (st, msg) \<Rightarrow> refuse st msg g1))"
proof (cases "gq_Method (gc_request g) \<in> {''POST'', ''PUT'', ''PATCH''} \<and> refusal re cfg b g \<in> {None, Some (400, ''Invalid request body detected'')}
    \<and> gq_Path (gc_request g) \<notin> set (vc_SkipPaths cfg)")
  case True
  let ?g1 = "snd (validateRequestBody b (defaultMaliciousPatterns re @ vc_CustomPatterns cfg) cfg g)"
  show ?thesis
    by (rule exI[of _ ?g1]) (use True in \<open>auto simp: InputValidation_def refusal_def Let_def validateRequestBody_keeps too_large_def split: prod.splits if_splits\<close>)
next
  case False
  then show ?thesis
    by (intro exI[of _ g]) (auto simp: InputValidation_def refusal_def Let_def split: if_splits)
qed

lemma ldap_pattern: "\<lparr>pt_source = ldap_source, pt_matches = re ldap_source\<rparr> \<in> set (defaultMaliciousPatterns re)"
  by (simp add: defaultMaliciousPatterns_def malicious_sources_def)

definition ldap_chars :: "char set" where
  "ldap_chars = {CHR ''('', CHR '')'', CHR ''&'', CHR ''|'', CHR ''!'', CHR ''<'', CHR ''>'', CHR ''='', CHR ''~'', CHR ''*''}"

lemma ldap_malicious:
  assumes "\<forall>s. re ldap_source s \<longleftrightarrow> set s \<inter> ldap_chars \<noteq> {}" and "set s \<inter> ldap_chars \<noteq> {}"
  shows "containsMaliciousContent s (defaultMaliciousPatterns re @ ps)"
  using ldap_pattern[of re] assms unfolding containsMaliciousContent_def matches_any_def list_ex_iff by force

text \<open>
  C40: browsers_refused. The class of characters meant for LDAP is looked for in the user agent too: a request whose
  user agent has a parenthesis, as those of browsers do, is refused on every path that is not skipped, before
  any handler runs, whatever it asks for.
\<close>

theorem browsers_refused:
  assumes re: "\<forall>s. re ldap_source s \<longleftrightarrow> set s \<inter> ldap_chars \<noteq> {}"
    and "gq_Path (gc_request g) \<notin> set (vc_SkipPaths cfg)" and "CHR ''('' \<in> set (GetHeader ''User-Agent'' g)"
  shows "\<exists>msg. msg \<in> {''Invalid URL parameters detected'', ''Invalid query parameters detected'', ''Invalid headers detected''} \<and>
    run_chain (InputValidation re cfg b # hs) g = refuse 400 msg (g\<lparr>gc_pending := length hs\<rparr>)"
proof -
  let ?ps = "defaultMaliciousPatterns re @ vc_CustomPatterns cfg"
  let ?g = "g\<lparr>gc_pending := length hs\<rparr>"
  have ua: "GetHeader ''User-Agent'' ?g = GetHeader ''User-Agent'' g" by (simp add: GetHeader_def)
  have "containsMaliciousContent (GetHeader ''User-Agent'' g) ?ps"
  proof (rule ldap_malicious)
    show "\<forall>s. re ldap_source s \<longleftrightarrow> set s \<inter> ldap_chars \<noteq> {}" by (rule re)
    show "set (GetHeader ''User-Agent'' g) \<inter> ldap_chars \<noteq> {}" using assms(3) by (auto simp: ldap_chars_def)
  qed
  moreover have "GetHeader ''User-Agent'' g \<noteq> ''''" using assms(3) by auto
  ultimately have "\<not> validateHeaders ?g ?ps" using ua by (simp add: validateHeaders_def suspiciousHeaders_def)
  then have "\<exists>msg. msg \<in> {''Invalid URL parameters detected'', ''Invalid query parameters detected'', ''Invalid headers detected''} \<and>
      (\<forall>next_h. InputValidation re cfg b next_h ?g = refuse 400 msg ?g)"
    using assms(2) by (simp add: InputValidation_def Let_def) blast
  then obtain msg where msg: "msg \<in> {''Invalid URL parameters detected'', ''Invalid query parameters detected'', ''Invalid headers detected''}"
    and iv: "InputValidation re cfg b next_h ?g = refuse 400 msg ?g" for next_h by blast
  then have "run_chain (InputValidation re cfg b # hs) g = refuse 400 msg ?g"
    by (intro run_aborts) (simp_all add: refuse_def Abort_def)
  then show ?thesis using msg by blast
qed

text \<open>The handlers behind the middleware run exactly when there is no reason to refuse.\<close>

lemma validation_exact:
  "\<exists>g1. run_chain (InputValidation re cfg b # hs) g = (case refusal re cfg b (g\<lparr>gc_pending := length hs\<rparr>) of
      None \<Rightarrow> if hs = [] then g1 else run_chain hs g1
    | Some (st, msg) \<Rightarrow> refuse st msg g1)"
proof -
  obtain g1 where g1: "gc_pending g1 = length hs" "\<And>next_h. InputValidation re cfg b next_h (g\<lparr>gc_pending := length hs\<rparr>) =
     (case refusal re cfg b (g\<lparr>gc_pending := length hs\<rparr>) of None \<Rightarrow> next_h g1 | Some (st, msg) \<Rightarrow> refuse st msg g1)"
    using InputValidation_refusal[of "g\<lparr>gc_pending := length hs\<rparr>" re cfg b] by auto
  then show ?thesis by (intro exI[of _ g1]) (auto simp: Let_def refuse_def Abort_def split: option.split)
qed

lemma browsers_refused_witness:
  "\<exists>msg. run_chain [InputValidation (\<lambda>p s. p = ldap_source \<and> set s \<inter> ldap_chars \<noteq> {}) DefaultValidationConfig \<lparr>bd_Read = None, bd_Form = None\<rparr>,
      \<lambda>next_h g. g\<lparr>gc_status := 200\<rparr>] (sample_gin ()) = refuse 400 msg ((sample_gin ())\<lparr>gc_pending := 1\<rparr>)"
proof -
  have re: "\<forall>s. (ldap_source = ldap_source \<and> set s \<inter> ldap_chars \<noteq> {}) \<longleftrightarrow> set s \<inter> ldap_chars \<noteq> {}" by simp
  have "canonical ''User-Agent'' = ''User-Agent''" by code_simp
  then have ua: "CHR ''('' \<in> set (GetHeader ''User-Agent'' (sample_gin ()))" by (simp add: GetHeader_def sample_gin_def sample_request_def)
  have pth: "gq_Path (gc_request (sample_gin ())) \<notin> set (vc_SkipPaths DefaultValidationConfig)"
    by (simp add: sample_gin_def sample_request_def DefaultValidationConfig_def)
  from browsers_refused[where re = "\<lambda>p s. p = ldap_source \<and> set s \<inter> ldap_chars \<noteq> {}" and hs = "[\<lambda>next_h g. g\<lparr>gc_status := 200\<rparr>]"
      and b = "\<lparr>bd_Read = None, bd_Form = None\<rparr>", OF re pth ua]
  show ?thesis by auto
qed

end
