(* ===== verification/AuditLog.thy ===== *)
theory AuditLog
  imports HttpChain GoTime
begin

text \<open>
  The audit log (src/middleware/audit.go) and the request log (src/middleware/logger.go): what they record of a
  request, how audit entries are stored in Redis and found again.  Redis and JSON are arguments.
\<close>

section \<open>Entries\<close>

record audit_entry =
  ae_ID :: string
  ae_Timestamp :: gotime
  ae_Action :: string
  ae_UserID :: string
  ae_UserType :: string
  ae_RequestID :: string
  ae_SessionID :: string
  ae_IP :: string
  ae_UserAgent :: string
  ae_Method :: string
  ae_Path :: string
  ae_Query :: string
  ae_StatusCode :: int
  ae_Duration :: int
  ae_Success :: bool
  ae_ErrorMsg :: string
  ae_Details :: "(string \<times> goval) list"
  ae_Metadata :: "(string \<times> string) list"

definition blank_audit :: audit_entry where
  "blank_audit = \<lparr>ae_ID = '''', ae_Timestamp = time_zero, ae_Action = '''', ae_UserID = '''', ae_UserType = '''', ae_RequestID = '''',
     ae_SessionID = '''', ae_IP = '''', ae_UserAgent = '''', ae_Method = '''', ae_Path = '''', ae_Query = '''', ae_StatusCode = 0,
     ae_Duration = 0, ae_Success = False, ae_ErrorMsg = '''', ae_Details = [], ae_Metadata = []\<rparr>"

text \<open>A character for each reading of the clock.\<close>

definition charset :: string where
  "charset = ''abcdefghijklmnopqrstuvwxyzABCDEFGHIJKLMNOPQRSTUVWXYZ0123456789''"

definition generateRandomString :: "gotime list \<Rightarrow> string" where
  "generateRandomString readings = map (\<lambda>t. charset ! nat (t mod int (length charset))) readings"

definition generateAuditID :: "gotime \<Rightarrow> gotime list \<Rightarrow> string" where
  "generateAuditID now readings = ''audit_'' @ dec_of_int now @ ''_'' @ generateRandomString (take 8 readings)"

section \<open>The logger\<close>

record 'r audit_redis =
  au_ZAdd :: "string \<Rightarrow> int \<Rightarrow> string \<Rightarrow> 'r \<Rightarrow> bool \<times> 'r"
  au_Expire :: "string \<Rightarrow> duration \<Rightarrow> 'r \<Rightarrow> 'r"
  au_ZRangeByScore :: "string \<Rightarrow> int \<Rightarrow> int \<Rightarrow> int \<Rightarrow> int \<Rightarrow> 'r \<Rightarrow> string list option"

record audit_codec =
  ac_Marshal :: "audit_entry \<Rightarrow> string option"
  ac_Unmarshal :: "string \<Rightarrow> audit_entry option"

text \<open>\<open>al_logger\<close> says whether there is a logger, \<open>al_redis\<close> whether there is a client; \<open>al_zone\<close> is the zone of the dates.\<close>

record audit_logger =
  al_logger :: bool
  al_redis :: bool
  al_enabled :: bool
  al_logToRedis :: bool
  al_logToFile :: bool
  al_retentionDays :: int
  al_zone :: duration

record audit_config =
  aco_Enabled :: bool
  aco_LogToRedis :: bool
  aco_LogToFile :: bool
  aco_RetentionDays :: int
  aco_SensitiveFields :: "string list"

definition NewAuditLogger :: "bool \<Rightarrow> bool \<Rightarrow> duration \<Rightarrow> audit_config \<Rightarrow> audit_logger" where
  "NewAuditLogger logger redis zone cfg = \<lparr>al_logger = logger, al_redis = redis, al_enabled = aco_Enabled cfg, al_logToRedis = aco_LogToRedis cfg,
     al_logToFile = aco_LogToFile cfg, al_retentionDays = (if aco_RetentionDays cfg = 0 then 90 else aco_RetentionDays cfg), al_zone = zone\<rparr>"

text \<open>What auditing has produced: the state of Redis, the log lines (whether they report success, and of which entry), and a panic.\<close>

record 'r audit_world =
  aw_redis :: 'r
  aw_lines :: "(bool \<times> audit_entry) list"
  aw_errors :: "string list"
  aw_panicked :: bool

definition log_error :: "audit_logger \<Rightarrow> string \<Rightarrow> 'r audit_world \<Rightarrow> 'r audit_world" where
  "log_error a msg w = (if al_logger a then w\<lparr>aw_errors := aw_errors w @ [msg]\<rparr> else w\<lparr>aw_panicked := True\<rparr>)"

definition day_of :: "audit_logger \<Rightarrow> gotime \<Rightarrow> string" where
  "day_of a t = dashed_date (al_zone a) t"

definition index_entry :: "'r audit_redis \<Rightarrow> audit_logger \<Rightarrow> string \<Rightarrow> audit_entry \<Rightarrow> 'r \<Rightarrow> 'r" where
  "index_entry R a key e r = au_Expire R key (al_retentionDays a * 24 * hour) (snd (au_ZAdd R key (ae_Timestamp e div second) (ae_ID e) r))"

definition log_key :: "audit_logger \<Rightarrow> gotime \<Rightarrow> string" where
  "log_key a t = ''audit:log:'' @ day_of a t"

definition user_key :: "audit_logger \<Rightarrow> string \<Rightarrow> gotime \<Rightarrow> string" where
  "user_key a u t = ''audit:user:'' @ u @ '':'' @ day_of a t"

definition action_key :: "audit_logger \<Rightarrow> string \<Rightarrow> gotime \<Rightarrow> string" where
  "action_key a act t = ''audit:action:'' @ act @ '':'' @ day_of a t"

definition storeInRedis :: "'r audit_redis \<Rightarrow> audit_codec \<Rightarrow> audit_logger \<Rightarrow> audit_entry \<Rightarrow> 'r audit_world \<Rightarrow> 'r audit_world" where
  "storeInRedis R J a e w = (case ac_Marshal J e of
       None \<Rightarrow> log_error a ''failed to marshal audit entry'' w
     | Some data \<Rightarrow>
         (case au_ZAdd R (log_key a (ae_Timestamp e)) (ae_Timestamp e div second) data (aw_redis w) of
            (False, r1) \<Rightarrow> log_error a ''failed to store audit entry in Redis'' (w\<lparr>aw_redis := r1\<rparr>)
          | (True, r1) \<Rightarrow>
              (let r2 = au_Expire R (log_key a (ae_Timestamp e)) (al_retentionDays a * 24 * hour) r1;
                   r3 = (if ae_UserID e \<noteq> '''' then index_entry R a (user_key a (ae_UserID e) (ae_Timestamp e)) e r2 else r2)
               in w\<lparr>aw_redis := index_entry R a (action_key a (ae_Action e) (ae_Timestamp e)) e r3\<rparr>)))"

definition audit_writeEntry :: "'r audit_redis \<Rightarrow> audit_codec \<Rightarrow> audit_logger \<Rightarrow> audit_entry \<Rightarrow> 'r audit_world \<Rightarrow> 'r audit_world" where
  "audit_writeEntry R J a e w =
     (let w1 = (if al_logger a then w\<lparr>aw_lines := aw_lines w @ [(ae_Success e, e)]\<rparr> else w)
      in if al_logToRedis a \<and> al_redis a then storeInRedis R J a e w1 else w1)"

definition enrichFromGinContext :: "audit_entry \<Rightarrow> 'w gin \<Rightarrow> audit_entry" where
  "enrichFromGinContext e g = e\<lparr>ae_IP := gq_ClientIP (gc_request g), ae_UserAgent := GetHeader ''User-Agent'' g,
     ae_RequestID := string_of_key (gc_keys g ''request_id''),
     ae_Metadata := [(''xff'', GetHeader ''X-Forwarded-For'' g), (''real_ip'', GetHeader ''X-Real-IP'' g), (''referer'', GetHeader ''Referer'' g),
       (''origin'', GetHeader ''Origin'' g)]\<rparr>"

text \<open>The context of the two calls is a request's, or none.\<close>

definition enrich :: "audit_entry \<Rightarrow> 'w gin option \<Rightarrow> audit_entry" where
  "enrich e g = (case g of None \<Rightarrow> e | Some c \<Rightarrow> enrichFromGinContext e c)"

definition LogAuth :: "'r audit_redis \<Rightarrow> audit_codec \<Rightarrow> audit_logger \<Rightarrow> string \<Rightarrow> gotime \<Rightarrow> string \<Rightarrow> string \<Rightarrow> string \<Rightarrow> bool \<Rightarrow> (string \<times> goval) list \<Rightarrow>
    'w gin option \<Rightarrow> 'r audit_world \<Rightarrow> 'r audit_world" where
  "LogAuth R J a i now action user usertype success details ctx w =
     (if \<not> al_enabled a then w
      else audit_writeEntry R J a (enrich (blank_audit\<lparr>ae_ID := i, ae_Timestamp := now, ae_Action := action, ae_UserID := user, ae_UserType := usertype,
        ae_Success := success, ae_Details := details\<rparr>) ctx) w)"

definition LogDataAccess :: "'r audit_redis \<Rightarrow> audit_codec \<Rightarrow> audit_logger \<Rightarrow> string \<Rightarrow> gotime \<Rightarrow> string \<Rightarrow> string \<Rightarrow> string \<Rightarrow> (string \<times> goval) list \<Rightarrow>
    'w gin option \<Rightarrow> 'r audit_world \<Rightarrow> 'r audit_world" where
  "LogDataAccess R J a i now user resource action details ctx w =
     (if \<not> al_enabled a then w
      else audit_writeEntry R J a (enrich (blank_audit\<lparr>ae_ID := i, ae_Timestamp := now, ae_Action := ''DATA_ACCESS'', ae_UserID := user, ae_Success := True,
        ae_Details := fold (\<lambda>(k, v). AList.update k v) details [(''resource'', GStr resource), (''action'', GStr action)]\<rparr>) ctx) w)"

definition determineAction :: "string \<Rightarrow> string \<Rightarrow> string" where
  "determineAction path method =
     (if path = ''/auth/login'' \<or> path = ''/api/auth/login'' then ''LOGIN''
      else if path = ''/auth/logout'' \<or> path = ''/api/auth/logout'' then ''LOGOUT''
      else if path = ''/auth/refresh'' \<or> path = ''/api/auth/refresh'' then ''TOKEN_REFRESH''
      else if path = ''/auth/revoke'' \<or> path = ''/api/auth/revoke'' then ''TOKEN_REVOKE''
      else if method \<in> {''POST'', ''PUT'', ''PATCH'', ''DELETE''} then ''DATA_MODIFY''
      else ''DATA_ACCESS'')"

text \<open>The claims that a handler has left under \<open>user_claims\<close> and \<open>user_claims_old\<close>, by their types.\<close>

datatype claims_value = EnhancedUser string string string | PlainUser string string | OtherValue

definition claimed_user :: "claims_value option \<Rightarrow> claims_value option \<Rightarrow> string \<times> string \<times> string" where
  "claimed_user claims old = (case claims of
       Some (EnhancedUser u t s) \<Rightarrow> (u, t, s)
     | Some _ \<Rightarrow> ('''', '''', '''')
     | None \<Rightarrow> (case old of Some (PlainUser u role) \<Rightarrow> (u, role, '''') | _ \<Rightarrow> ('''', '''', '''')))"

text \<open>\<open>claims\<close> reads the values that the handlers left, \<open>errs\<close> renders the errors they collected.\<close>

definition audit_entry_for :: "('w gin \<Rightarrow> claims_value option \<times> claims_value option) \<Rightarrow> (string list \<Rightarrow> string) \<Rightarrow> string \<Rightarrow> gotime \<Rightarrow> gotime \<Rightarrow> 'w gin \<Rightarrow> audit_entry" where
  "audit_entry_for claims errs i start stop g =
     (case claims g of (cl, old) \<Rightarrow> case claimed_user cl old of (u, t, s) \<Rightarrow>
        let e = enrichFromGinContext (blank_audit\<lparr>ae_ID := i, ae_Timestamp := start, ae_Method := gq_Method (gc_request g), ae_Path := gq_Path (gc_request g),
              ae_Query := gq_RawQuery (gc_request g), ae_StatusCode := gc_status g, ae_Duration := milliseconds (stop - start), ae_Success := (gc_status g < 400),
              ae_UserID := u, ae_UserType := t, ae_SessionID := s\<rparr>) g;
            e1 = e\<lparr>ae_Action := determineAction (gq_Path (gc_request g)) (gq_Method (gc_request g))\<rparr>
        in if gc_errors g \<noteq> [] then e1\<lparr>ae_Success := False, ae_ErrorMsg := errs (gc_errors g)\<rparr> else e1)"

definition AuditMiddleware :: "'r audit_redis \<Rightarrow> audit_codec \<Rightarrow> audit_logger \<Rightarrow> ('r audit_world gin \<Rightarrow> claims_value option \<times> claims_value option) \<Rightarrow>
    (string list \<Rightarrow> string) \<Rightarrow> string \<Rightarrow> gotime \<Rightarrow> gotime \<Rightarrow> 'r audit_world gin_handler" where
  "AuditMiddleware R J a claims errs i start stop next_h g =
     (if \<not> al_enabled a \<or> gq_Path (gc_request g) \<in> {''/health'', ''/metrics'', ''/ping''} then next_h g
      else let g1 = next_h g
           in g1\<lparr>gc_world := audit_writeEntry R J a (audit_entry_for claims errs i start stop g1) (gc_world g1)\<rparr>)"

section \<open>Queries\<close>

record audit_filter =
  af_UserID :: string
  af_Action :: string
  af_Date :: gotime
  af_StartTime :: gotime
  af_EndTime :: gotime
  af_Offset :: int
  af_Limit :: int

definition query_key :: "audit_logger \<Rightarrow> audit_filter \<Rightarrow> string" where
  "query_key a f = (if af_UserID f \<noteq> '''' then user_key a (af_UserID f) (af_Date f)
     else if af_Action f \<noteq> '''' then action_key a (af_Action f) (af_Date f) else log_key a (af_Date f))"

text \<open>What does not decode is logged, which panics without a logger.\<close>

datatype audit_answer = AuditRows "audit_entry list" | AuditRefused | AuditPanic

definition QueryAuditLogs :: "'r audit_redis \<Rightarrow> audit_codec \<Rightarrow> audit_logger \<Rightarrow> audit_filter \<Rightarrow> 'r \<Rightarrow> audit_answer" where
  "QueryAuditLogs R J a f r =
     (if \<not> al_logToRedis a \<or> \<not> al_redis a then AuditRefused
      else case au_ZRangeByScore R (query_key a f) (af_StartTime f div second) (af_EndTime f div second) (af_Offset f) (af_Limit f) r of
        None \<Rightarrow> AuditRefused
      | Some results \<Rightarrow> if \<not> al_logger a \<and> (\<exists>t \<in> set results. ac_Unmarshal J t = None) then AuditPanic
          else AuditRows (List.map_filter (ac_Unmarshal J) results))"

section \<open>What is found again\<close>

text \<open>
  Members of sorted sets with their scores; without an offset and a limit a range is complete.  JSON that is written is
  read back, and an identifier is no JSON.
\<close>

definition audit_redis_laws :: "'r audit_redis \<Rightarrow> ('r \<Rightarrow> string \<Rightarrow> string \<rightharpoonup> int) \<Rightarrow> bool" where
  "audit_redis_laws R view \<longleftrightarrow>
     (\<forall>k s m r. fst (au_ZAdd R k s m r) \<and> view (snd (au_ZAdd R k s m r)) = (view r)(k := (view r k)(m \<mapsto> s))) \<and>
     (\<forall>k d r. view (au_Expire R k d r) = view r) \<and>
     (\<forall>k lo hi off n r. \<exists>xs. au_ZRangeByScore R k lo hi off n r = Some xs \<and> set xs \<subseteq> {m. \<exists>s. view r k m = Some s \<and> lo \<le> s \<and> s \<le> hi} \<and>
        (off = 0 \<and> n = 0 \<longrightarrow> set xs = {m. \<exists>s. view r k m = Some s \<and> lo \<le> s \<and> s \<le> hi}))"

lemma audit_redis_lawsD:
  assumes "audit_redis_laws R view"
  shows "fst (au_ZAdd R k s m r)" and "view (snd (au_ZAdd R k s m r)) = (view r)(k := (view r k)(m \<mapsto> s))" and "view (au_Expire R k d r) = view r"
    and "\<exists>xs. au_ZRangeByScore R k lo hi off n r = Some xs \<and> set xs \<subseteq> {m. \<exists>s. view r k m = Some s \<and> lo \<le> s \<and> s \<le> hi} \<and>
        (off = 0 \<and> n = 0 \<longrightarrow> set xs = {m. \<exists>s. view r k m = Some s \<and> lo \<le> s \<and> s \<le> hi})"
proof -
  note c = assms[unfolded audit_redis_laws_def]
  show "fst (au_ZAdd R k s m r)" "view (snd (au_ZAdd R k s m r)) = (view r)(k := (view r k)(m \<mapsto> s))" using c[THEN conjunct1] by simp_all
  show "view (au_Expire R k d r) = view r" using c[THEN conjunct2, THEN conjunct1] by simp
  show "\<exists>xs. au_ZRangeByScore R k lo hi off n r = Some xs \<and> set xs \<subseteq> {m. \<exists>s. view r k m = Some s \<and> lo \<le> s \<and> s \<le> hi} \<and>
        (off = 0 \<and> n = 0 \<longrightarrow> set xs = {m. \<exists>s. view r k m = Some s \<and> lo \<le> s \<and> s \<le> hi})"
    by (rule c[THEN conjunct2, THEN conjunct2, rule_format])
qed

definition audit_codec_laws :: "audit_codec \<Rightarrow> bool" where
  "audit_codec_laws J \<longleftrightarrow> (\<forall>e t. ac_Marshal J e = Some t \<longrightarrow> ac_Unmarshal J t = Some e) \<and> (\<forall>x. ac_Unmarshal J (''audit_'' @ x) = None)"

definition named_entry :: "audit_entry \<Rightarrow> bool" where
  "named_entry e \<longleftrightarrow> (\<exists>x. ae_ID e = ''audit_'' @ x)"

lemma generateAuditID_named: "named_entry (blank_audit\<lparr>ae_ID := generateAuditID now rs\<rparr>)"
  by (simp add: named_entry_def generateAuditID_def)

lemma log_key_apart: "log_key a t \<noteq> user_key a' u t'" "log_key a t \<noteq> action_key a' x t'"
  by (simp_all add: log_key_def user_key_def action_key_def)

lemma index_view:
  assumes "audit_redis_laws R view"
  shows "view (index_entry R a key e r) = (view r)(key := (view r key)(ae_ID e \<mapsto> ae_Timestamp e div second))"
  by (simp add: index_entry_def audit_redis_lawsD(2,3)[OF assms])

lemma stored_view:
  assumes R: "audit_redis_laws R view" and d: "ac_Marshal J e = Some d"
  shows "view (aw_redis (storeInRedis R J a e w)) (log_key a t) m =
      (if log_key a t = log_key a (ae_Timestamp e) \<and> m = d then Some (ae_Timestamp e div second) else view (aw_redis w) (log_key a t) m)"
    and "(\<forall>t. k \<noteq> log_key a t) \<Longrightarrow> view (aw_redis (storeInRedis R J a e w)) k m \<noteq> None \<Longrightarrow> m = ae_ID e \<or> view (aw_redis w) k m \<noteq> None"
proof -
  obtain r1 where r1: "au_ZAdd R (log_key a (ae_Timestamp e)) (ae_Timestamp e div second) d (aw_redis w) = (True, r1)"
    using audit_redis_lawsD(1)[OF R] by (metis prod.collapse)
  then have v1: "view r1 = (view (aw_redis w))(log_key a (ae_Timestamp e) := (view (aw_redis w) (log_key a (ae_Timestamp e)))(d \<mapsto> ae_Timestamp e div second))"
    using audit_redis_lawsD(2)[OF R] by (metis snd_conv)
  show "view (aw_redis (storeInRedis R J a e w)) (log_key a t) m =
      (if log_key a t = log_key a (ae_Timestamp e) \<and> m = d then Some (ae_Timestamp e div second) else view (aw_redis w) (log_key a t) m)"
    using log_key_apart by (simp add: storeInRedis_def d r1 Let_def index_view[OF R] audit_redis_lawsD(3)[OF R] v1)
  show "m = ae_ID e \<or> view (aw_redis w) k m \<noteq> None" if "\<forall>t. k \<noteq> log_key a t" "view (aw_redis (storeInRedis R J a e w)) k m \<noteq> None"
    using that by (auto simp: storeInRedis_def d r1 Let_def index_view[OF R] audit_redis_lawsD(3)[OF R] v1 split: if_splits)
qed

lemma write_redis:
  assumes "al_logToRedis a" and "al_redis a"
  shows "aw_redis (audit_writeEntry R J a e w) = aw_redis (storeInRedis R J a e (if al_logger a then w\<lparr>aw_lines := aw_lines w @ [(ae_Success e, e)]\<rparr> else w))"
  using assms by (simp add: audit_writeEntry_def Let_def)

lemma written_view:
  assumes R: "audit_redis_laws R view" and J: "audit_codec_laws J" and a: "al_logToRedis a" "al_redis a" and "\<forall>e \<in> set es. ac_Marshal J e \<noteq> None"
  shows "(\<forall>e \<in> set es. \<forall>d. ac_Marshal J e = Some d \<longrightarrow>
        view (aw_redis (fold (audit_writeEntry R J a) es w)) (log_key a (ae_Timestamp e)) d = Some (ae_Timestamp e div second)) \<and>
    (\<forall>k m. (\<forall>t. k \<noteq> log_key a t) \<longrightarrow> view (aw_redis (fold (audit_writeEntry R J a) es w)) k m \<noteq> None \<longrightarrow>
        m \<in> ae_ID ` set es \<or> view (aw_redis w) k m \<noteq> None)"
  using assms(5)
proof (induction es rule: rev_induct)
  case (snoc e es)
  let ?w = "fold (audit_writeEntry R J a) es w"
  let ?w1 = "if al_logger a then ?w\<lparr>aw_lines := aw_lines ?w @ [(ae_Success e, e)]\<rparr> else ?w"
  obtain d where d: "ac_Marshal J e = Some d" using snoc.prems by auto
  have same: "aw_redis ?w1 = aw_redis ?w" by simp
  have fw: "aw_redis (fold (audit_writeEntry R J a) (es @ [e]) w) = aw_redis (storeInRedis R J a e ?w1)" by (simp only: fold_append comp_apply fold_simps write_redis[OF a])
  have inj: "e' = e" if "ac_Marshal J e' = Some d" for e' using that d J by (metis audit_codec_laws_def option.inject)
  note sv = stored_view[OF R d, where a = a and w = ?w1, unfolded same]
  have ih: "\<forall>e \<in> set es. \<forall>d. ac_Marshal J e = Some d \<longrightarrow> view (aw_redis ?w) (log_key a (ae_Timestamp e)) d = Some (ae_Timestamp e div second)"
    and ih2: "\<forall>k m. (\<forall>t. k \<noteq> log_key a t) \<longrightarrow> view (aw_redis ?w) k m \<noteq> None \<longrightarrow> m \<in> ae_ID ` set es \<or> view (aw_redis w) k m \<noteq> None"
    using snoc by auto
  have "view (aw_redis (storeInRedis R J a e ?w1)) (log_key a (ae_Timestamp e')) d' = Some (ae_Timestamp e' div second)"
    if "e' \<in> set (es @ [e])" "ac_Marshal J e' = Some d'" for e' d'
  proof (cases "e' = e")
    case True
    then show ?thesis using that(2) d by (simp add: sv(1))
  next
    case False
    then have "e' \<in> set es" "d' \<noteq> d" using that inj by auto
    then show ?thesis using that(2) ih unfolding sv(1) by simp
  qed
  moreover have "m \<in> ae_ID ` set (es @ [e]) \<or> view (aw_redis w) k m \<noteq> None"
    if "\<forall>t. k \<noteq> log_key a t" "view (aw_redis (storeInRedis R J a e ?w1)) k m \<noteq> None" for k m
    using sv(2)[OF that] ih2 that(1) by auto
  ultimately show ?case unfolding fw by blast
qed simp

text \<open>
  C39: audit_queries. Whatever has been audited, asking for the entries of a user or of an action gives none, because
  their sets hold the identifiers of the entries where the query expects the entries; asking for the day gives every
  entry of its range.
\<close>

theorem audit_queries:
  assumes R: "audit_redis_laws R view" and J: "audit_codec_laws J" and a: "al_logToRedis a" "al_redis a" "al_logger a"
    and es: "\<forall>e \<in> set es. named_entry e \<and> ac_Marshal J e \<noteq> None" and empty: "view (aw_redis w) = (\<lambda>k. Map.empty)"
    and r1: "r1 = aw_redis (fold (audit_writeEntry R J a) es w)"
  shows "(af_UserID f \<noteq> '''' \<or> af_Action f \<noteq> '''' \<longrightarrow> QueryAuditLogs R J a f r1 = AuditRows []) \<and>
    (af_UserID f = '''' \<and> af_Action f = '''' \<and> af_Offset f = 0 \<and> af_Limit f = 0 \<and> e \<in> set es \<and> day_of a (af_Date f) = day_of a (ae_Timestamp e) \<and>
      af_StartTime f \<le> ae_Timestamp e \<and> ae_Timestamp e \<le> af_EndTime f \<longrightarrow>
      (\<exists>rows. QueryAuditLogs R J a f r1 = AuditRows rows \<and> e \<in> set rows))"
proof (intro conjI impI)
  have m: "\<forall>e \<in> set es. ac_Marshal J e \<noteq> None" using es by blast
  note wv = written_view[OF R J a(1,2) m, of w, folded r1, unfolded empty]
  obtain xs where xs: "au_ZRangeByScore R (query_key a f) (af_StartTime f div second) (af_EndTime f div second) (af_Offset f) (af_Limit f) r1 = Some xs"
      "set xs \<subseteq> {m. \<exists>s. view r1 (query_key a f) m = Some s \<and> af_StartTime f div second \<le> s \<and> s \<le> af_EndTime f div second}"
      "af_Offset f = 0 \<and> af_Limit f = 0 \<longrightarrow> set xs = {m. \<exists>s. view r1 (query_key a f) m = Some s \<and> af_StartTime f div second \<le> s \<and> s \<le> af_EndTime f div second}"
    using audit_redis_lawsD(4)[OF R] by blast
  have q: "QueryAuditLogs R J a f r1 = AuditRows (List.map_filter (ac_Unmarshal J) xs)" using a xs(1) by (simp add: QueryAuditLogs_def)
  show "QueryAuditLogs R J a f r1 = AuditRows []" if "af_UserID f \<noteq> '''' \<or> af_Action f \<noteq> ''''"
  proof -
    have k: "\<forall>t. query_key a f \<noteq> log_key a t" using that log_key_apart by (metis query_key_def)
    have "ac_Unmarshal J x = None" if "x \<in> set xs" for x
    proof -
      have "view r1 (query_key a f) x \<noteq> None" using that xs(2) by auto
      then have "x \<in> ae_ID ` set es" using wv k by blast
      then show ?thesis using es J by (auto simp: named_entry_def audit_codec_laws_def)
    qed
    then have "List.map_filter (ac_Unmarshal J) xs = []" by (induction xs) (auto simp: List.map_filter_simps)
    then show ?thesis using q by simp
  qed
  show "\<exists>rows. QueryAuditLogs R J a f r1 = AuditRows rows \<and> e \<in> set rows"
    if h: "af_UserID f = '''' \<and> af_Action f = '''' \<and> af_Offset f = 0 \<and> af_Limit f = 0 \<and> e \<in> set es \<and> day_of a (af_Date f) = day_of a (ae_Timestamp e) \<and>
      af_StartTime f \<le> ae_Timestamp e \<and> ae_Timestamp e \<le> af_EndTime f"
  proof -
    obtain d where d: "ac_Marshal J e = Some d" using h m by auto
    have key: "query_key a f = log_key a (ae_Timestamp e)" using h by (simp add: query_key_def log_key_def)
    have "view r1 (query_key a f) d = Some (ae_Timestamp e div second)" unfolding key using wv h d by blast
    then have "d \<in> set xs" using xs(3) h by (simp add: zdiv_mono1)
    moreover have "ac_Unmarshal J d = Some e" using J d by (simp add: audit_codec_laws_def)
    ultimately have "e \<in> set (List.map_filter (ac_Unmarshal J) xs)" by (force simp: List.map_filter_def)
    then show ?thesis using q by blast
  qed
qed

text \<open>A clock that stands still while an identifier is made gives one character eight times.\<close>

lemma still_clock: "generateAuditID now (replicate 8 t) = ''audit_'' @ dec_of_int now @ ''_'' @ replicate 8 (charset ! nat (t mod 62))"
  by (simp add: generateAuditID_def generateRandomString_def charset_def)

text \<open>Without a logger, a refused command of Redis is a panic.\<close>

lemma unlogged_failure_panics:
  assumes "\<not> al_logger a" and "ac_Marshal J e = Some d" and "au_ZAdd R (log_key a (ae_Timestamp e)) (ae_Timestamp e div second) d (aw_redis w) = (False, r1)"
  shows "aw_panicked (storeInRedis R J a e w)"
  using assms by (simp add: storeInRedis_def log_error_def)

text \<open>No field is redacted, whichever the configuration calls sensitive.\<close>

lemma sensitive_fields_ignored: "NewAuditLogger l r z (cfg\<lparr>aco_SensitiveFields := fs\<rparr>) = NewAuditLogger l r z cfg"
  by (simp add: NewAuditLogger_def)

section \<open>The request log\<close>

record logger_config =
  lg_SkipPaths :: "string list"
  lg_SkipMethods :: "string list"
  lg_MaxBodySize :: nat
  lg_EnableBody :: bool
  lg_SensitiveHeaders :: "string list"

record request_line =
  rl_level :: string
  rl_message :: string
  rl_fields :: "(string \<times> goval) list"

definition isSensitiveHeader :: "logger_config \<Rightarrow> string \<Rightarrow> bool" where
  "isSensitiveHeader cfg name \<longleftrightarrow>
     ToLower name \<in> set ([''authorization'', ''cookie'', ''x-api-key'', ''x-auth-token'', ''x-access-token''] @ map ToLower (lg_SensitiveHeaders cfg))"

definition logged_headers :: "logger_config \<Rightarrow> gin_request \<Rightarrow> (string \<times> goval) list" where
  "logged_headers cfg q = map (\<lambda>(name, vs). (name, GStr (if isSensitiveHeader cfg name then ''[REDACTED]'' else join '','' vs))) (gq_Header q)"

text \<open>\<open>took\<close> renders the duration, \<open>sent\<close> is the text of the answer's body.\<close>

definition request_fields :: "logger_config \<Rightarrow> (duration \<Rightarrow> string) \<Rightarrow> string \<Rightarrow> string \<Rightarrow> duration \<Rightarrow> string \<Rightarrow> string \<Rightarrow> 'w gin \<Rightarrow> (string \<times> goval) list" where
  "request_fields cfg took requestID traceID d body sent g =
     (let q = gc_request g
      in [(''request_id'', GStr requestID), (''method'', GStr (gq_Method q)), (''path'', GStr (gq_Path q)), (''status'', GInt (gc_status g)),
          (''duration'', GStr (took d)), (''duration_ms'', GInt (milliseconds d)), (''ip'', GStr (gq_ClientIP q)), (''user_agent'', GStr (GetHeader ''User-Agent'' g))]
         @ (if traceID \<noteq> '''' then [(''trace_id'', GStr traceID)] else [])
         @ (if gq_RawQuery q \<noteq> '''' then [(''query'', GStr (gq_RawQuery q))] else [])
         @ (if lg_EnableBody cfg \<and> body \<noteq> '''' then [(''request_body'', GStr body)] else [])
         @ (if lg_EnableBody cfg \<and> sent \<noteq> '''' then [(''response_body'', GStr (take (lg_MaxBodySize cfg) sent))] else [])
         @ (case gc_keys g ''user_id'' of Some v \<Rightarrow> [(''user_id'', v)] | None \<Rightarrow> [])
         @ [(''headers'', GMap (logged_headers cfg q))])"

definition request_line_for :: "int \<Rightarrow> (string \<times> goval) list \<Rightarrow> request_line" where
  "request_line_for status fs =
     (if status \<ge> 500 then \<lparr>rl_level = ''ERROR'', rl_message = ''HTTP request completed with server error'', rl_fields = fs\<rparr>
      else if status \<ge> 400 then \<lparr>rl_level = ''WARN'', rl_message = ''HTTP request completed with client error'', rl_fields = fs\<rparr>
      else \<lparr>rl_level = ''INFO'', rl_message = ''HTTP request completed'', rl_fields = fs\<rparr>)"

definition Logger_Handler :: "logger_config \<Rightarrow> (duration \<Rightarrow> string) \<Rightarrow> (goval option \<Rightarrow> string) \<Rightarrow> string \<Rightarrow> duration \<Rightarrow> request_line list gin_handler" where
  "Logger_Handler cfg took text_of fresh d next_h g =
     (let q = gc_request g
      in if list_ex (HasPrefix (gq_Path q)) (lg_SkipPaths cfg) \<or> gq_Method q \<in> set (lg_SkipMethods cfg) then next_h g
         else let known = GetRequestIDFromGin g;
                  requestID = (if known = '''' then fresh else known);
                  g1 = (if known = '''' then set_header ''X-Request-ID'' fresh (set_key ''request_id'' (GStr fresh) g) else g);
                  traceID = GetTraceIDFromGin g1;
                  body = (if lg_EnableBody cfg then take (lg_MaxBodySize cfg) (gq_Body q) else '''');
                  g2 = next_h g1
              in g2\<lparr>gc_world := gc_world g2 @ [request_line_for (gc_status g2) (request_fields cfg took requestID traceID d body (text_of (gc_body g2)) g2)]\<rparr>)"

definition LogWithRequestID :: "'w gin \<Rightarrow> (string \<times> goval) list" where
  "LogWithRequestID g = (''request_id'', GStr (GetRequestIDFromGin g)) #
     (if GetTraceIDFromGin g \<noteq> '''' then [(''trace_id'', GStr (GetTraceIDFromGin g))] else [])"

definition GetStructuredLogFields :: "'w gin \<Rightarrow> (string \<times> goval) list" where
  "GetStructuredLogFields g =
     [(''request_id'', GStr (GetRequestIDFromGin g)), (''method'', GStr (gq_Method (gc_request g))), (''path'', GStr (gq_Path (gc_request g))),
      (''ip'', GStr (gq_ClientIP (gc_request g))), (''user_agent'', GStr (GetHeader ''User-Agent'' g))]
     @ (if GetTraceIDFromGin g \<noteq> '''' then [(''trace_id'', GStr (GetTraceIDFromGin g))] else [])
     @ (case gc_keys g ''user_id'' of Some v \<Rightarrow> [(''user_id'', v)] | None \<Rightarrow> [])"

text \<open>
  A sensitive header is never logged, whatever the case of its name; the query is, and a token may be in it.
\<close>

lemma redacted:
  assumes "(name, v) \<in> set (logged_headers cfg q)" and "isSensitiveHeader cfg name"
  shows "v = GStr ''[REDACTED]''"
  using assms by (auto simp: logged_headers_def)

lemma query_logged:
  assumes "gq_RawQuery (gc_request g) \<noteq> ''''"
  shows "(''query'', GStr (gq_RawQuery (gc_request g))) \<in> set (request_fields cfg took rid tid d body sent g)"
  using assms by (simp add: request_fields_def Let_def)

lemma request_logged_once:
  assumes "\<not> list_ex (HasPrefix (gq_Path (gc_request g))) (lg_SkipPaths cfg)" and "gq_Method (gc_request g) \<notin> set (lg_SkipMethods cfg)"
    and "\<And>g. gc_world (next_h g) = gc_world g"
  shows "length (gc_world (Logger_Handler cfg took text_of fresh d next_h g)) = Suc (length (gc_world g))"
  using assms by (simp add: Logger_Handler_def Let_def set_header_def set_key_def)

section \<open>An example\<close>

definition mem_set :: "(string \<times> string \<times> int) list \<Rightarrow> string \<Rightarrow> (string \<times> int) list" where
  "mem_set r k = map snd (filter (\<lambda>(k', x). k' = k) r)"

definition mem_audit :: "(string \<times> string \<times> int) list audit_redis" where
  "mem_audit = \<lparr>au_ZAdd = (\<lambda>k s m r. (True, (k, m, s) # r)), au_Expire = (\<lambda>k d r. r),
     au_ZRangeByScore = (\<lambda>k lo hi off n r. Some (map fst (filter (\<lambda>(m, s). lo \<le> s \<and> s \<le> hi) (AList.clearjunk (mem_set r k)))))\<rparr>"

lemma mem_audit_laws: "audit_redis_laws mem_audit (\<lambda>r k. map_of (mem_set r k))"
proof -
  have "map_of (mem_set ((k, m, s) # r) k') = ((\<lambda>k. map_of (mem_set r k))(k := (map_of (mem_set r k))(m \<mapsto> s))) k'" for k m s r k'
    by (simp add: mem_set_def)
  then have "(\<lambda>k'. map_of (mem_set ((k, m, s) # r) k')) = (\<lambda>k. map_of (mem_set r k))(k := (map_of (mem_set r k))(m \<mapsto> s))" for k m s r
    by (rule ext)
  moreover have "fst ` {x \<in> set (AList.clearjunk (mem_set r k)). case x of (m, s) \<Rightarrow> lo \<le> s \<and> s \<le> hi} =
      {m. \<exists>s. map_of (mem_set r k) m = Some s \<and> lo \<le> s \<and> s \<le> hi}" for r k lo hi
  proof -
    have "(m, s) \<in> set (AList.clearjunk (mem_set r k)) \<longleftrightarrow> map_of (mem_set r k) m = Some s" for m s
      by (metis distinct_clearjunk map_of_clearjunk map_of_eq_Some_iff)
    then show ?thesis by force
  qed
  ultimately show ?thesis by (simp add: audit_redis_laws_def mem_audit_def)
qed

definition sample_audit :: audit_entry where
  "sample_audit = blank_audit\<lparr>ae_ID := ''audit_1_a'', ae_Timestamp := 5 * second, ae_UserID := ''u''\<rparr>"

definition sample_audit_codec :: audit_codec where
  "sample_audit_codec = \<lparr>ac_Marshal = (\<lambda>e. if e = sample_audit then Some ''{}'' else None), ac_Unmarshal = (\<lambda>t. if t = ''{}'' then Some sample_audit else None)\<rparr>"

definition sample_audit_logger :: audit_logger where
  "sample_audit_logger = NewAuditLogger True True 0 \<lparr>aco_Enabled = True, aco_LogToRedis = True, aco_LogToFile = False, aco_RetentionDays = 0, aco_SensitiveFields = []\<rparr>"

lemma audit_queries_witness:
  "\<exists>r1. QueryAuditLogs mem_audit sample_audit_codec sample_audit_logger
       \<lparr>af_UserID = ''u'', af_Action = '''', af_Date = 5 * second, af_StartTime = 0, af_EndTime = 9 * second, af_Offset = 0, af_Limit = 0\<rparr> r1 = AuditRows [] \<and>
     (\<exists>rows. QueryAuditLogs mem_audit sample_audit_codec sample_audit_logger
       \<lparr>af_UserID = '''', af_Action = '''', af_Date = 5 * second, af_StartTime = 0, af_EndTime = 9 * second, af_Offset = 0, af_Limit = 0\<rparr> r1 = AuditRows rows \<and>
       sample_audit \<in> set rows)"
proof -
  let ?w = "\<lparr>aw_redis = [], aw_lines = [], aw_errors = [], aw_panicked = False\<rparr> :: (string \<times> string \<times> int) list audit_world"
  have J: "audit_codec_laws sample_audit_codec" by (simp add: audit_codec_laws_def sample_audit_codec_def)
  have a: "al_logToRedis sample_audit_logger" "al_redis sample_audit_logger" "al_logger sample_audit_logger"
    by (simp_all add: sample_audit_logger_def NewAuditLogger_def)
  have es: "\<forall>e \<in> set [sample_audit]. named_entry e \<and> ac_Marshal sample_audit_codec e \<noteq> None"
    by (simp add: named_entry_def sample_audit_codec_def) (simp add: sample_audit_def)
  have w: "(\<lambda>k. map_of (mem_set (aw_redis ?w) k)) = (\<lambda>k. Map.empty)" by (simp add: mem_set_def)
  note q = audit_queries[OF mem_audit_laws J a es w refl, where e = sample_audit]
  have ts: "ae_Timestamp sample_audit = 5 * second" by (simp add: sample_audit_def)
  show ?thesis
    by (rule exI, rule conjI, rule q[THEN conjunct1, THEN mp], simp, rule q[THEN conjunct2, THEN mp]) (simp add: ts)
qed

end
