(* ===== verification/Responses.thy ===== *)
theory Responses
  imports HttpChain Pagination
begin

text \<open>
  The answers of the HTTP handlers (src/response/response.go): their fields, with those left out that are empty, and the
  pagination they carry.
\<close>

section \<open>Answers\<close>

record api_response =
  as_Code :: int
  as_Message :: string
  as_Data :: "goval option"
  as_RequestID :: string
  as_TraceID :: string
  as_Timestamp :: int

definition omit_empty :: "string \<Rightarrow> string \<Rightarrow> (string \<times> goval) list" where
  "omit_empty k s = (if s = '''' then [] else [(k, GStr s)])"

definition response_json :: "api_response \<Rightarrow> (string \<times> goval) list \<Rightarrow> goval" where
  "response_json a extra = GMap ([(''code'', GInt (as_Code a))] @ omit_empty ''message'' (as_Message a) @
     (case as_Data a of None \<Rightarrow> [] | Some v \<Rightarrow> [(''data'', v)]) @ extra @ omit_empty ''request_id'' (as_RequestID a) @
     omit_empty ''trace_id'' (as_TraceID a) @ [(''timestamp'', GInt (as_Timestamp a))])"

definition getRequestMeta :: "gotime \<Rightarrow> 'w gin \<Rightarrow> string \<times> string \<times> int" where
  "getRequestMeta now g = (string_of_key (gc_keys g ''request_id''), string_of_key (gc_keys g ''trace_id''), now div second)"

definition send :: "gotime \<Rightarrow> int \<Rightarrow> int \<Rightarrow> string \<Rightarrow> goval option \<Rightarrow> (string \<times> goval) list \<Rightarrow> 'w gin \<Rightarrow> 'w gin" where
  "send now status code msg data extra g = (case getRequestMeta now g of (rid, tid, ts) \<Rightarrow>
     give_answer status (response_json \<lparr>as_Code = code, as_Message = msg, as_Data = data, as_RequestID = rid, as_TraceID = tid, as_Timestamp = ts\<rparr> extra) g)"

definition resp_Success :: "gotime \<Rightarrow> goval option \<Rightarrow> 'w gin \<Rightarrow> 'w gin" where
  "resp_Success now data g = send now 200 0 '''' data [] g"

definition SuccessWithMessage :: "gotime \<Rightarrow> string \<Rightarrow> goval option \<Rightarrow> 'w gin \<Rightarrow> 'w gin" where
  "SuccessWithMessage now msg data g = send now 200 0 msg data [] g"

text \<open>A code that is no integer becomes the status.\<close>

definition resp_Error :: "gotime \<Rightarrow> int \<Rightarrow> goval \<Rightarrow> string \<Rightarrow> 'w gin \<Rightarrow> 'w gin" where
  "resp_Error now status code msg g = send now status (case code of GInt i \<Rightarrow> i | _ \<Rightarrow> status) msg None [] g"

definition named_error :: "int \<Rightarrow> string \<Rightarrow> gotime \<Rightarrow> string \<Rightarrow> 'w gin \<Rightarrow> 'w gin" where
  "named_error code usual now msg g = resp_Error now code (GInt code) (if msg = '''' then usual else msg) g"

definition BadRequest :: "gotime \<Rightarrow> string \<Rightarrow> 'w gin \<Rightarrow> 'w gin" where "BadRequest = named_error 400 ''bad request''"
definition Unauthorized :: "gotime \<Rightarrow> string \<Rightarrow> 'w gin \<Rightarrow> 'w gin" where "Unauthorized = named_error 401 ''unauthorized''"
definition Forbidden :: "gotime \<Rightarrow> string \<Rightarrow> 'w gin \<Rightarrow> 'w gin" where "Forbidden = named_error 403 ''forbidden''"
definition resp_NotFound :: "gotime \<Rightarrow> string \<Rightarrow> 'w gin \<Rightarrow> 'w gin" where "resp_NotFound = named_error 404 ''not found''"
definition Conflict :: "gotime \<Rightarrow> string \<Rightarrow> 'w gin \<Rightarrow> 'w gin" where "Conflict = named_error 409 ''conflict''"
definition TooManyRequests :: "gotime \<Rightarrow> string \<Rightarrow> 'w gin \<Rightarrow> 'w gin" where "TooManyRequests = named_error 429 ''too many requests''"
definition InternalError :: "gotime \<Rightarrow> string \<Rightarrow> 'w gin \<Rightarrow> 'w gin" where "InternalError = named_error 500 ''internal server error''"
definition ServiceUnavailable :: "gotime \<Rightarrow> string \<Rightarrow> 'w gin \<Rightarrow> 'w gin" where "ServiceUnavailable = named_error 503 ''service unavailable''"

definition resp_Created :: "gotime \<Rightarrow> goval option \<Rightarrow> 'w gin \<Rightarrow> 'w gin" where
  "resp_Created now data g = send now 201 0 '''' data [] g"

definition NoContent :: "'w gin \<Rightarrow> 'w gin" where
  "NoContent g = give_answer 204 GNil g"

definition resp_JSON :: "gotime \<Rightarrow> int \<Rightarrow> int \<Rightarrow> string \<Rightarrow> goval option \<Rightarrow> 'w gin \<Rightarrow> 'w gin" where
  "resp_JSON now status code msg data g = send now status code msg data [] g"

section \<open>Pagination\<close>

record page_info =
  pg_Page :: int
  pg_PerPage :: int
  pg_Total :: int
  pg_TotalPages :: int
  pg_HasNext :: bool
  pg_HasPrev :: bool

definition NewPagination :: "int \<Rightarrow> int \<Rightarrow> int \<Rightarrow> page_info" where
  "NewPagination page perPage items =
     (let page1 = (if page < 1 then 1 else page);
          perPage1 = (if perPage < 1 then 10 else perPage);
          pages = wrap64 (go_quot (wrap64 (wrap64 (items + perPage1) - 1)) perPage1);
          pages1 = (if pages < 1 then 1 else pages)
      in \<lparr>pg_Page = page1, pg_PerPage = perPage1, pg_Total = items, pg_TotalPages = pages1, pg_HasNext = (page1 < pages1), pg_HasPrev = (page1 > 1)\<rparr>)"

definition CalculateOffset :: "int \<Rightarrow> int \<Rightarrow> int" where
  "CalculateOffset page perPage =
     (let page1 = (if page < 1 then 1 else page); perPage1 = (if perPage < 1 then 10 else perPage)
      in wrap64 (wrap64 (page1 - 1) * perPage1))"

definition page_json :: "page_info \<Rightarrow> goval" where
  "page_json p = GMap [(''page'', GInt (pg_Page p)), (''per_page'', GInt (pg_PerPage p)), (''total'', GInt (pg_Total p)),
     (''total_pages'', GInt (pg_TotalPages p)), (''has_next'', GBool (pg_HasNext p)), (''has_prev'', GBool (pg_HasPrev p))]"

definition page_field :: "page_info option \<Rightarrow> (string \<times> goval) list" where
  "page_field p = (case p of None \<Rightarrow> [] | Some i \<Rightarrow> [(''pagination'', page_json i)])"

definition Paginated :: "gotime \<Rightarrow> goval option \<Rightarrow> page_info option \<Rightarrow> 'w gin \<Rightarrow> 'w gin" where
  "Paginated now data p g = send now 200 0 '''' data (page_field p) g"

definition PaginatedWithMessage :: "gotime \<Rightarrow> string \<Rightarrow> goval option \<Rightarrow> page_info option \<Rightarrow> 'w gin \<Rightarrow> 'w gin" where
  "PaginatedWithMessage now msg data p g = send now 200 0 msg data (page_field p) g"

text \<open>The two packages that compute pages agree.\<close>

lemma pagination_agrees:
  "NewPagination page perPage items = (let r = CalculatePagination page perPage items
     in \<lparr>pg_Page = pr_Page r, pg_PerPage = pr_PerPage r, pg_Total = pr_Total r, pg_TotalPages = pr_TotalPages r, pg_HasNext = pr_HasNext r, pg_HasPrev = pr_HasPrev r\<rparr>)"
  "CalculateOffset page perPage = pr_Offset (CalculatePagination page perPage items)"
  by (simp_all add: NewPagination_def CalculatePagination_def CalculateOffset_def Let_def)

text \<open>An answer carries the identifiers that the first middleware has given the request.\<close>

lemma answer_identifies:
  assumes "ri_ContextKey cfg = ''request_id''" and "gq_Path (gc_request g) \<notin> set (ri_SkipPaths cfg)" and "request_identifier cfg fresh g \<noteq> ''''"
  shows "\<exists>kvs. gc_body (resp_Success now data (with_identifiers cfg fresh fresh_trace g)) = Some (GMap kvs) \<and>
    map_of kvs ''request_id'' = Some (GStr (request_identifier cfg fresh g))"
proof -
  have "string_of_key (gc_keys (with_identifiers cfg fresh fresh_trace g) ''request_id'') = request_identifier cfg fresh g"
    using with_identifiers_fields(2)[OF assms(1,2)] by (simp add: GetRequestIDFromGin_def)
  then show ?thesis using assms(3)
    by (simp add: resp_Success_def send_def getRequestMeta_def give_answer_def response_json_def omit_empty_def split: option.split)
qed

end
