(* ===== verification/Spec2Isabelle.thy ===== *)
theory Spec2Isabelle
  imports Prelude TTLStore CrawlTask TaskQueue Dispatcher FetchMiddleware FetchPool Fetcher Redis
    Cluster ResultMiddleware Coordinator MemStorage GoText AppErrors Regex Validation Pipeline Node NodeClient Executor
    JsonExtractor HtmlExtractor EventBus HubConnection Hub GoTime TaskScheduler Registry CronScheduler DistLock TaskDefs TaskManager CrawlerApp RateLimit RefreshTokens Money RedisQueue ConfigLoader Storages TaskService LogStore Compression
    HttpChain InputGuard AuditLog Responses
begin

text \<open>
  A verification library of go-backend-kit, a Go toolkit for back ends whose largest part is a distributed
  crawler (crawler/).  It models the crawler, from its scheduler to its storages, and what the kit offers beside
  it: HTTP middleware with its tokens, limits, guards and logs, answers and pagination, errors, validation, money,
  locks and the log store.

  \<^bold>\<open>How the program works.\<close>  Task documents in MongoDB are turned into queued tasks by the scheduler
  (crawler/scheduler).  The coordinator (crawler/distributed/coordinator.go) takes tasks from a Redis list and
  hands them to worker nodes, or over a gRPC hub (crawler/communication) to their clients
  (crawler/distributed/client.go).  A node (node.go) fetches its queue, runs its workers, and each worker
  executes a task: fetcher, extractor, pipeline, storage (crawler/executor).  Results go back to the
  coordinator, through result middlewares that count batches.  Inside one process the same work is done by
  task queues and a dispatcher (crawler/task).

  \<^bold>\<open>Theories and their sources.\<close>
  \<^item> Prelude, GoText, GoTime, Regex, TTLStore, Redis: instants as integers of nanoseconds, machine integers,
    Go's results, strings, calendar and regular expressions, and the store with expiry and the Redis
    commands the code uses.  TTLStore holds the locale of stores whose entries expire, interpreted by the
    response cache and by the storages in memory, Redis and MySQL.
  \<^item> CrawlTask: crawler/task/task.go, the task record and its life cycle.
  \<^item> TaskQueue: crawler/task/queue.go, the memory and the priority queue, against a locale of bounded queues;
    RedisQueue: the distributed queue of the same file, with its delayed tasks.
  \<^item> Dispatcher: crawler/task/dispatcher.go, strategies, capacity, batches.
  \<^item> FetchMiddleware, FetchPool, Fetcher: crawler/fetcher, the chain, retries, the circuit breaker, the cache,
    proxies and user agents.
  \<^item> TaskDefs, TaskManager, TaskService, ConfigLoader: crawler/task/definition.go, manager.go, service.go,
    and config_loader.go with its values passed to and from Lua.
  \<^item> Cluster: crawler/distributed/cluster.go, membership, election, rebalancing; Registry: registry.go.
  \<^item> Coordinator, ResultMiddleware: crawler/distributed/coordinator.go, middleware.go and batch_middleware.go.
  \<^item> Node, NodeClient: crawler/distributed/node.go, node_enhanced.go and client.go.
  \<^item> EventBus, HubConnection, Hub: crawler/communication.
  \<^item> Executor, JsonExtractor, HtmlExtractor, Pipeline, MemStorage: crawler/executor, factory, extractor,
    pipeline and storage/memory.go.
  \<^item> Storages, Compression: crawler/storage.go, the storages in Redis, MySQL and MongoDB (crawler/storage,
    crawler/factory/storage.go), and crawler/compression.
  \<^item> TaskScheduler: crawler/scheduler/scheduler.go and the documents of crawler/task/schema.go;
    CronScheduler: crawler/task/scheduler.go, schedules by cron expression, interval,
    instant and event.
  \<^item> CrawlerApp: crawler/crawler.go, the crawler in one process.
  \<^item> HttpChain, InputGuard, RateLimit, JwtAuth, RefreshTokens, AuditLog, Responses: middleware and response.
    HttpChain writes out how a chain of handlers runs; the others are links of it or what they use.
  \<^item> AppErrors, Validation, Pagination, Money: errors, validation, utils and decimal.
  \<^item> DistLock, KeyLife: the distributed lock, and the laws of keys with a lifetime that limits, tokens and the lock rest on.
  \<^item> LogStore: logging (core, filters, pipeline, the store in Redis) and crawler/distributed/log_forwarder.go.

  \<^bold>\<open>How the code is read.\<close>  A struct is a record of the same fields, a method a function on it, and a
  component shared by goroutines a step relation whose steps are the code's critical sections.  Every call of
  \<open>time.Now\<close> is an argument, and so is what the code asks of other systems (Redis, MongoDB, gRPC, HTTP, gjson,
  goquery, cron): a function, an answer, or a list of commands.  The order in which Go visits a map is a list of
  its keys that a definition takes, and theorems hold for every such list.  A returned error is a value, a panic
  a value of its own.  Integers keep their width where it matters: the counters that wrap are words.  Text
  is ASCII.

  \<^bold>\<open>What is shown.\<close>  No task is lost by dispatching, and the rounds of the coordinator hand out exactly the
  tasks they take; queue order, retries, breaker and cache behave as specified; what a node sends back is what
  it did; the tables of the hub and of cron stay consistent in every interleaving; the extractors, the
  scheduler and the storages give exactly the values specified; a token validates as what it is and for its
  minutes, an amount is divided to the last digit, a log reads back what was sent.  Where the code does not do what it means to, the
  theorem says what it does: results that fail are not retried, a batch with a failed task never announces its
  end, a command never leaves the hub, a reconnected node is dropped, dated documents are queued every minute, browsers are
  refused, audit entries are not found by their user.

  \<^bold>\<open>Loops and fuel.\<close>  Every function is total.  Loops that are not structural have a measure (splitting of text,
  date ranges, decimal digits, rebalancing rounds); loops that run for ever in the code are step relations.

  \<^bold>\<open>Not modelled.\<close>  Generated code (proto/*.pb.go), the terminal views (crawler/cli), the examples, metrics and
  dashboards (monitoring), clients of outside systems (database, messagequeue, dingtalk), the start and stop of
  the HTTP server (server), the set-up of the process's own logger (logging/logger.go and its neighbours), the Lua
  interpreter's bindings (crawler/parser) and configuration structs: they hold no state of their own beyond what
  they pass to a library.
\<close>

end
